(* ===== verification/Link_Prelude.thy ===== *)
theory Link_Prelude
  imports Main "HOL-Library.Word"
begin

text \<open>
  Shared vocabulary of the development: the machine integers of the Rust sources as words,
  the saturating and checked operations of the standard library on them, Rust's
  \<^verbatim>\<open>Result\<close> with its \<^verbatim>\<open>?\<close> operator, big-endian byte conversions
  (\<^verbatim>\<open>to_be_bytes\<close>, \<^verbatim>\<open>from_be_bytes\<close>), fallible slicing, and the
  generic lemmas on lists and words that the component theories use.

  A \<^verbatim>\<open>usize\<close> that counts or bounds elements in memory is a \<open>nat\<close>; where the
  sources saturate it, the bound is \<open>usize_max\<close> of a 64-bit target. A fixed array
  \<^verbatim>\<open>[u8; N]\<close> is the word of \<open>8 * N\<close> bits whose big-endian bytes are the
  array, which keeps the length in the type and makes Rust's lexicographic order on arrays
  the unsigned order on words.
\<close>

unbundle bit_operations_syntax

type_synonym u8 = "8 word"
type_synonym u16 = "16 word"
type_synonym u32 = "32 word"
type_synonym u64 = "64 word"
type_synonym u128 = "128 word"
type_synonym bytes = "u8 list"

named_theorems codec_simps \<open>one decoding step on the bytes its encoder wrote\<close>
named_theorems codec_dests \<open>what a successful decoding step says about the bytes it read\<close>

subsection \<open>Result and the question mark operator\<close>

type_synonym ('e, 'a) result = "'e + 'a"

definition result_bind :: "('e, 'a) result \<Rightarrow> ('a \<Rightarrow> ('e, 'b) result) \<Rightarrow> ('e, 'b) result" where
  "result_bind r f = (case r of Inl e \<Rightarrow> Inl e | Inr x \<Rightarrow> f x)"

definition result_map_err :: "('e \<Rightarrow> 'f) \<Rightarrow> ('e, 'a) result \<Rightarrow> ('f, 'a) result" where
  "result_map_err g r = (case r of Inl e \<Rightarrow> Inl (g e) | Inr x \<Rightarrow> Inr x)"

definition ok_or :: "'e \<Rightarrow> 'a option \<Rightarrow> ('e, 'a) result" where
  "ok_or e v = (case v of None \<Rightarrow> Inl e | Some x \<Rightarrow> Inr x)"

definition is_ok :: "('e, 'a) result \<Rightarrow> bool" where
  "is_ok r = (case r of Inl e \<Rightarrow> False | Inr x \<Rightarrow> True)"

lemma result_bind_simps [simp]:
  "result_bind (Inl e) f = Inl e"
  "result_bind (Inr x) f = f x"
  by (simp_all add: result_bind_def)

lemma result_bind_eq_Inr:
  "result_bind r f = Inr y \<longleftrightarrow> (\<exists>x. r = Inr x \<and> f x = Inr y)"
  by (cases r) auto

lemma result_bind_eq_Inl:
  "result_bind r f = Inl e \<longleftrightarrow> r = Inl e \<or> (\<exists>x. r = Inr x \<and> f x = Inl e)"
  by (cases r) auto

lemma result_bind_InrE:
  assumes "result_bind r f = Inr y"
  obtains x where "r = Inr x" and "f x = Inr y"
  using assms by (auto simp: result_bind_eq_Inr)

lemma result_map_err_simps [simp]:
  "result_map_err g (Inl e) = Inl (g e)"
  "result_map_err g (Inr x) = Inr x"
  by (simp_all add: result_map_err_def)

lemma result_map_err_eq_Inr [simp]: "result_map_err g r = Inr x \<longleftrightarrow> r = Inr x"
  by (cases r) auto

lemma ok_or_simps [simp]: "ok_or e None = Inl e" "ok_or e (Some x) = Inr x"
  by (simp_all add: ok_or_def)

lemma ok_or_eq_Inr [simp]: "ok_or e v = Inr x \<longleftrightarrow> v = Some x"
  by (cases v) auto

lemma is_ok_simps [simp]: "is_ok (Inl e) = False" "is_ok (Inr x) = True"
  by (simp_all add: is_ok_def)

lemma is_ok_iff: "is_ok r \<longleftrightarrow> (\<exists>x. r = Inr x)"
  by (cases r) auto

subsection \<open>Saturating and checked arithmetic\<close>

definition sat_add :: "'a::len word \<Rightarrow> 'a word \<Rightarrow> 'a word" where
  "sat_add a b = (if unat a + unat b < 2 ^ LENGTH('a) then a + b else - 1)"

definition sat_sub :: "'a::len word \<Rightarrow> 'a word \<Rightarrow> 'a word" where
  "sat_sub a b = (if b \<le> a then a - b else 0)"

definition sat_mul :: "'a::len word \<Rightarrow> 'a word \<Rightarrow> 'a word" where
  "sat_mul a b = (if unat a * unat b < 2 ^ LENGTH('a) then a * b else - 1)"

definition abs_diff :: "'a::len word \<Rightarrow> 'a word \<Rightarrow> 'a word" where
  "abs_diff a b = (if a \<le> b then b - a else a - b)"

definition checked_add :: "'a::len word \<Rightarrow> 'a word \<Rightarrow> 'a word option" where
  "checked_add a b = (if unat a + unat b < 2 ^ LENGTH('a) then Some (a + b) else None)"

definition usize_max :: nat where
  "usize_max = 2 ^ 64 - 1"

definition usize_sat_add :: "nat \<Rightarrow> nat \<Rightarrow> nat" where
  "usize_sat_add a b = min (a + b) usize_max"

definition usize_checked_add :: "nat \<Rightarrow> nat \<Rightarrow> nat option" where
  "usize_checked_add a b = (if a + b \<le> usize_max then Some (a + b) else None)"

definition usize_sat_mul :: "nat \<Rightarrow> nat \<Rightarrow> nat" where
  "usize_sat_mul a b = min (a * b) usize_max"

definition div_ceil :: "nat \<Rightarrow> nat \<Rightarrow> nat" where
  "div_ceil a b = (a + b - 1) div b"

lemma unat_max_word: "unat (- 1 :: 'a::len word) = 2 ^ LENGTH('a) - 1"
  by (simp add: unsigned_minus_1_eq_mask mask_eq_exp_minus_1)

lemma unat_lt_size: "unat (a :: 'a::len word) < 2 ^ LENGTH('a)"
  by (rule unsigned_less)

lemma unat_sat_add:
  "unat (sat_add a (b :: 'a::len word)) = min (unat a + unat b) (2 ^ LENGTH('a) - 1)"
  by (auto simp: sat_add_def unat_max_word unat_word_ariths)

lemma unat_sat_sub: "unat (sat_sub a (b :: 'a::len word)) = unat a - unat b"
  by (auto simp: sat_sub_def unat_sub word_le_nat_alt)

lemma unat_sat_mul:
  "unat (sat_mul a (b :: 'a::len word)) = min (unat a * unat b) (2 ^ LENGTH('a) - 1)"
  by (auto simp: sat_mul_def unat_max_word unat_word_ariths)

lemma unat_abs_diff:
  "unat (abs_diff a (b :: 'a::len word)) = (if unat a \<le> unat b then unat b - unat a else unat a - unat b)"
  by (auto simp: abs_diff_def unat_sub word_le_nat_alt)

lemmas sat_unats = unat_sat_add unat_sat_sub unat_sat_mul unat_abs_diff

lemma checked_add_eq_Some:
  "checked_add a b = Some c \<longleftrightarrow> unat a + unat b < 2 ^ LENGTH('a) \<and> c = a + (b :: 'a::len word)"
  by (auto simp: checked_add_def)

lemma div_ceil_mono: "a \<le> b \<Longrightarrow> div_ceil a c \<le> div_ceil b c"
  by (simp add: div_ceil_def div_le_mono)

lemma div_ceil_pos: "0 < a \<Longrightarrow> 0 < b \<Longrightarrow> 0 < div_ceil a b"
  by (auto simp: div_ceil_def div_greater_zero_iff)

lemma div_ceil_le: "0 < b \<Longrightarrow> div_ceil a b \<le> a"
proof (cases a)
  case (Suc n)
  assume "0 < b"
  then have "a + b - 1 \<le> a * b"
    using Suc by (cases b) (auto simp: algebra_simps)
  then have "(a + b - 1) div b \<le> a * b div b" by (rule div_le_mono)
  with \<open>0 < b\<close> show ?thesis by (simp add: div_ceil_def)
qed (simp add: div_ceil_def)

subsection \<open>Big-endian bytes\<close>

definition to_be_bytes :: "'a::len word \<Rightarrow> bytes" where
  "to_be_bytes w = map (\<lambda>i. ucast (drop_bit (8 * i) w)) (rev [0..<LENGTH('a) div 8])"

definition from_be_bytes :: "bytes \<Rightarrow> 'a::len word" where
  "from_be_bytes bs = foldl (\<lambda>acc b. acc * 256 + ucast b) 0 bs"

primrec be_val :: "bytes \<Rightarrow> nat" where
  "be_val [] = 0"
| "be_val (b # bs) = unat b * 256 ^ length bs + be_val bs"

lemma byte_indices:
  "rev [0..<2] = [1, 0 :: nat]"
  "rev [0..<4] = [3, 2, 1, 0 :: nat]"
  "rev [0..<8] = [7, 6, 5, 4, 3, 2, 1, 0 :: nat]"
  "rev [0..<16] = [15, 14, 13, 12, 11, 10, 9, 8, 7, 6, 5, 4, 3, 2, 1, 0 :: nat]"
  by (simp_all add: upt_rec)

lemma foldl_be_val:
  "foldl (\<lambda>acc b. acc * 256 + unat b) n bs = n * 256 ^ length bs + be_val (bs :: bytes)"
  by (induction bs arbitrary: n) (simp_all add: add_mult_distrib mult.assoc)

lemma unat_u8_lt: "unat (b :: u8) < 256"
  using unat_lt_size [of b] by simp

lemma be_val_less: "be_val bs < 256 ^ length bs"
proof (induction bs)
  case (Cons b bs)
  have "unat b * 256 ^ length bs + be_val bs < unat b * 256 ^ length bs + 256 ^ length bs"
    using Cons.IH by simp
  also have "\<dots> = (unat b + 1) * 256 ^ length bs"
    by (simp add: algebra_simps)
  also have "\<dots> \<le> 256 * 256 ^ length bs"
    using unat_u8_lt [of b] by (intro mult_right_mono) auto
  finally show ?case by simp
qed simp

lemma be_val_inject:
  "length xs = length ys \<Longrightarrow> be_val xs = be_val ys \<Longrightarrow> xs = ys"
proof (induction xs ys rule: list_induct2)
  case (Cons x xs y ys)
  have dm: "(unat b * 256 ^ length bs + be_val bs) div 256 ^ length bs = unat b"
    "(unat b * 256 ^ length bs + be_val bs) mod 256 ^ length bs = be_val bs" for b bs
    using be_val_less [of bs] by simp_all
  from Cons.prems have eq: "unat x * 256 ^ length ys + be_val xs = unat y * 256 ^ length ys + be_val ys"
    using Cons.hyps by simp
  have "unat x = unat y"
    using dm(1) [of x xs] dm(1) [of y ys] unfolding Cons.hyps by (simp only: eq)
  moreover have "be_val xs = be_val ys"
    using dm(2) [of x xs] dm(2) [of y ys] unfolding Cons.hyps by (simp only: eq)
  ultimately show ?case using Cons.IH by (simp add: word_unat_eq_iff)
qed simp

lemma unat_foldl_be:
  "unat (foldl (\<lambda>acc b. acc * 256 + ucast b) (w :: 'a::len word) (bs :: bytes)) =
   foldl (\<lambda>acc b. acc * 256 + unat b) (unat w) bs mod 2 ^ LENGTH('a)"
proof (induction bs rule: rev_induct)
  case (snoc b bs)
  let ?f = "foldl (\<lambda>acc b. acc * 256 + ucast b) w bs :: 'a word"
  let ?g = "foldl (\<lambda>acc b. acc * 256 + unat b) (unat w) bs"
  have "?f * 256 + ucast b = of_nat (unat ?f * 256 + unat b)"
    by (simp add: unsigned_of_nat)
  then have "unat (?f * 256 + ucast b) = (unat ?f * 256 + unat b) mod 2 ^ LENGTH('a)"
    by (simp only: unat_of_nat)
  also have "\<dots> = (?g * 256 + unat b) mod 2 ^ LENGTH('a)"
    unfolding snoc.IH
    by (subst mod_add_left_eq [symmetric], subst mod_mult_left_eq, rule mod_add_left_eq)
  finally show ?case by simp
qed (simp add: unat_lt_size)

lemma unat_from_be_bytes: "unat (from_be_bytes bs :: 'a::len word) = be_val bs mod 2 ^ LENGTH('a)"
  by (simp add: from_be_bytes_def unat_foldl_be foldl_be_val)

lemma length_to_be_bytes [simp]: "length (to_be_bytes (w :: 'a::len word)) = LENGTH('a) div 8"
  by (simp add: to_be_bytes_def)

lemma unat_byte_of: "unat (ucast (drop_bit (8 * n) w) :: u8) = unat (w :: 'a::len word) div 256 ^ n mod 256"
proof -
  have "unat (drop_bit (8 * n) w) = unat w div 2 ^ (8 * n)"
    by (simp only: unat_drop_bit_eq) (simp only: drop_bit_eq_div)
  also have "(2 :: nat) ^ (8 * n) = 256 ^ n"
    by (simp add: power_mult)
  finally show ?thesis
    by (simp only: unsigned_ucast_eq take_bit_eq_mod) simp
qed

lemma be_val_digits:
  "be_val (map (\<lambda>i. ucast (drop_bit (8 * i) w)) (rev [0..<n])) = unat (w :: 'a::len word) mod 256 ^ n"
proof (induction n)
  case (Suc n)
  have "unat w mod 256 ^ Suc n = unat w div 256 ^ n mod 256 * 256 ^ n + unat w mod 256 ^ n"
    by (metis (no_types) mod_mult2_eq mult.commute power_Suc2)
  with Suc.IH show ?case by (simp add: unat_byte_of)
qed simp

lemma pow_256_bytes: "8 dvd n \<Longrightarrow> (256 :: nat) ^ (n div 8) = 2 ^ n"
proof (elim dvdE)
  fix k assume "n = 8 * k"
  then show "(256 :: nat) ^ (n div 8) = 2 ^ n" by (simp add: power_mult)
qed

lemma be_val_to_be_bytes:
  "8 dvd LENGTH('a) \<Longrightarrow> be_val (to_be_bytes (w :: 'a::len word)) = unat w"
  by (simp add: to_be_bytes_def be_val_digits pow_256_bytes unat_lt_size)

lemma from_to_be_bytes [simp]:
  assumes "8 dvd LENGTH('a)"
  shows "from_be_bytes (to_be_bytes w) = (w :: 'a::len word)"
proof -
  have "unat (from_be_bytes (to_be_bytes w) :: 'a word) = unat w"
    using assms by (simp add: unat_from_be_bytes be_val_to_be_bytes unat_lt_size)
  then show ?thesis by (simp only: word_unat_eq_iff)
qed

lemma to_from_be_bytes:
  assumes "8 dvd LENGTH('a)" and "length bs = LENGTH('a) div 8"
  shows "to_be_bytes (from_be_bytes bs :: 'a::len word) = bs"
proof (rule be_val_inject)
  show "length (to_be_bytes (from_be_bytes bs :: 'a word)) = length bs"
    using assms by simp
  have "(256 :: nat) ^ length bs = 2 ^ LENGTH('a)"
    using assms by (simp add: pow_256_bytes)
  then show "be_val (to_be_bytes (from_be_bytes bs :: 'a word)) = be_val bs"
    using assms be_val_less [of bs] by (simp add: be_val_to_be_bytes unat_from_be_bytes)
qed

lemma to_be_bytes_inject:
  "8 dvd LENGTH('a) \<Longrightarrow> to_be_bytes (v :: 'a::len word) = to_be_bytes w \<longleftrightarrow> v = w"
  by (metis from_to_be_bytes)

end
