(* ===== verification/Link_BTree.thy ===== *)
theory Link_BTree
  imports Link_Prelude
begin

text \<open>
  The ordered containers of the Rust standard library. A \<^verbatim>\<open>BTreeMap<K, V>\<close> is
  its list of entries in strictly ascending key order, which is what iteration over it
  yields; the type carries that invariant, so the components state no well-formedness of
  their own for it. A \<^verbatim>\<open>BTreeSet<K>\<close> is a map to \<open>unit\<close>, as it is in the
  standard library.

  The locale \<open>ordered_map\<close> is the contract the components use: what a lookup returns
  after each update, and how the length changes.
\<close>

definition ascending :: "('k::linorder \<times> 'v) list \<Rightarrow> bool" where
  "ascending xs = sorted_wrt (<) (map fst xs)"

typedef (overloaded) ('k::linorder, 'v) btree = "{xs :: ('k \<times> 'v) list. ascending xs}"
  morphisms bt_entries Abs_btree
  by (rule exI [of _ "[]"]) (simp add: ascending_def)

setup_lifting type_definition_btree

fun ins_entry :: "'k::linorder \<Rightarrow> 'v \<Rightarrow> ('k \<times> 'v) list \<Rightarrow> ('k \<times> 'v) list" where
  "ins_entry k v [] = [(k, v)]"
| "ins_entry k v ((a, b) # xs) =
     (if k < a then (k, v) # (a, b) # xs
      else if k = a then (k, v) # xs
      else (a, b) # ins_entry k v xs)"

lemma set_ins_entry: "fst ` set (ins_entry k v xs) = insert k (fst ` set xs)"
  by (induction k v xs rule: ins_entry.induct) auto

lemma ascending_Cons:
  "ascending ((a, b) # xs) \<longleftrightarrow> (\<forall>k \<in> fst ` set xs. a < k) \<and> ascending xs"
  by (auto simp: ascending_def)

lemma ascending_ins_entry: "ascending xs \<Longrightarrow> ascending (ins_entry k v xs)"
  by (induction k v xs rule: ins_entry.induct)
    (auto simp: ascending_Cons set_ins_entry simp del: ball_simps, auto simp: ascending_def)

lemma ascending_filter: "ascending xs \<Longrightarrow> ascending (filter P xs)"
  by (induction xs) (auto simp: ascending_def)

lemma ascending_map: "map fst (f xs) = map fst xs \<Longrightarrow> ascending (f xs) = ascending xs"
  by (simp add: ascending_def)

lemma map_of_ins_entry: "map_of (ins_entry k v xs) = (map_of xs)(k \<mapsto> v)"
  by (induction k v xs rule: ins_entry.induct) (auto simp: fun_eq_iff)

lemma ascending_distinct: "ascending xs \<Longrightarrow> distinct (map fst xs)"
  unfolding ascending_def by (metis sorted_wrt_map strict_sorted_iff)

lift_definition bt_empty :: "('k::linorder, 'v) btree" is "[]"
  by (simp add: ascending_def)

lift_definition bt_get :: "('k::linorder, 'v) btree \<Rightarrow> 'k \<Rightarrow> 'v option" is map_of .

lift_definition bt_insert :: "'k::linorder \<Rightarrow> 'v \<Rightarrow> ('k, 'v) btree \<Rightarrow> ('k, 'v) btree" is ins_entry
  by (rule ascending_ins_entry)

lift_definition bt_remove :: "'k::linorder \<Rightarrow> ('k, 'v) btree \<Rightarrow> ('k, 'v) btree"
  is "\<lambda>k. filter (\<lambda>(a, b). a \<noteq> k)"
  by (rule ascending_filter)

lift_definition bt_len :: "('k::linorder, 'v) btree \<Rightarrow> nat" is length .

lift_definition bt_map_values :: "('v \<Rightarrow> 'w) \<Rightarrow> ('k::linorder, 'v) btree \<Rightarrow> ('k, 'w) btree"
  is "\<lambda>f. map (\<lambda>(a, b). (a, f b))"
  by (simp add: ascending_def comp_def case_prod_unfold)

lift_definition bt_retain :: "('k \<Rightarrow> 'v \<Rightarrow> bool) \<Rightarrow> ('k::linorder, 'v) btree \<Rightarrow> ('k, 'v) btree"
  is "\<lambda>P. filter (\<lambda>(a, b). P a b)"
  by (rule ascending_filter)

definition bt_contains :: "('k::linorder, 'v) btree \<Rightarrow> 'k \<Rightarrow> bool" where
  "bt_contains m k = (bt_get m k \<noteq> None)"

definition bt_values :: "('k::linorder, 'v) btree \<Rightarrow> 'v list" where
  "bt_values m = map snd (bt_entries m)"

definition bt_sum :: "('v \<Rightarrow> nat) \<Rightarrow> ('k::linorder, 'v) btree \<Rightarrow> nat" where
  "bt_sum f m = sum_list (map f (bt_values m))"

type_synonym 'k btset = "('k, unit) btree"

definition bs_insert :: "'k::linorder \<Rightarrow> 'k btset \<Rightarrow> 'k btset" where
  "bs_insert k s = bt_insert k () s"

definition bs_of_list :: "'k::linorder list \<Rightarrow> 'k btset" where
  "bs_of_list ks = fold bs_insert ks bt_empty"

instantiation btree :: (linorder, equal) equal
begin
definition equal_btree :: "('a, 'b) btree \<Rightarrow> ('a, 'b) btree \<Rightarrow> bool" where
  "equal_btree m n = (bt_entries m = bt_entries n)"
instance by standard (simp add: equal_btree_def bt_entries_inject)
end

subsection \<open>The contract of an ordered map\<close>

locale ordered_map =
  fixes empty :: "'m"
    and get :: "'m \<Rightarrow> 'k \<Rightarrow> 'v option"
    and ins :: "'k \<Rightarrow> 'v \<Rightarrow> 'm \<Rightarrow> 'm"
    and del :: "'k \<Rightarrow> 'm \<Rightarrow> 'm"
    and len :: "'m \<Rightarrow> nat"
  assumes get_empty: "get empty k = None"
    and get_ins: "get (ins k v m) k' = (if k' = k then Some v else get m k')"
    and get_del: "get (del k m) k' = (if k' = k then None else get m k')"
    and len_eq: "len m = card {k. get m k \<noteq> None}"
    and finite_keys: "finite {k. get m k \<noteq> None}"
    and map_ext: "(\<And>k. get m k = get m' k) \<Longrightarrow> m = m'"
begin

lemma len_empty: "len empty = 0"
  by (simp add: len_eq get_empty)

lemma keys_ins: "{a. get (ins k v m) a \<noteq> None} = insert k {a. get m a \<noteq> None}"
  by (auto simp: get_ins)

lemma keys_del: "{a. get (del k m) a \<noteq> None} = {a. get m a \<noteq> None} - {k}"
  by (auto simp: get_del)

lemma len_ins: "len (ins k v m) = (if get m k = None then Suc (len m) else len m)"
  unfolding len_eq keys_ins using finite_keys [of m] by (auto simp: card_insert_if)

lemma len_del: "len (del k m) = (if get m k = None then len m else len m - 1)"
  unfolding len_eq keys_del using finite_keys [of m] by (auto simp: card_Diff_singleton_if)

lemma len_pos: "get m k \<noteq> None \<Longrightarrow> 0 < len m"
  unfolding len_eq using finite_keys [of m] by (auto simp: card_gt_0_iff)

lemma ins_del_absorb: "ins k v (del k m) = ins k v m"
  by (rule map_ext) (simp add: get_ins get_del)

lemma del_absent: "get m k = None \<Longrightarrow> del k m = m"
  by (rule map_ext) (simp add: get_del)

lemma del_ins_fresh: "get m k = None \<Longrightarrow> del k (ins k v m) = m"
  by (rule map_ext) (simp add: get_del get_ins)

lemma ins_ins: "ins k w (ins k v m) = ins k w m"
  by (rule map_ext) (simp add: get_ins)

lemma ins_same: "get m k = Some v \<Longrightarrow> ins k v m = m"
  by (rule map_ext) (simp add: get_ins)

end

lemma bt_entries_get: "(k, v) \<in> set (bt_entries m) \<longleftrightarrow> bt_get m k = Some v"
  by transfer (simp add: ascending_distinct)

lemma bt_entries_distinct: "distinct (map fst (bt_entries m))"
  by transfer (rule ascending_distinct)

lemma bt_keys_eq: "fst ` set (bt_entries m) = {k. bt_get m k \<noteq> None}"
  by (auto simp: bt_entries_get [symmetric] image_iff)
    (metis bt_entries_get fst_conv option.exhaust)

lemma bt_entries_conv:
  "bt_entries m = map (\<lambda>k. (k, the (bt_get m k))) (map fst (bt_entries m))"
  unfolding map_map comp_def
  by (rule map_idI [symmetric]) (auto simp: bt_entries_get)

lemma bt_eqI:
  assumes "\<And>k. bt_get m k = bt_get m' k"
  shows "m = m'"
proof -
  have asc: "sorted_wrt (<) (map fst (bt_entries n))" for n :: "('a, 'b) btree"
    using bt_entries [of n] by (simp add: ascending_def)
  have "set (map fst (bt_entries m)) = set (map fst (bt_entries m'))"
    using bt_keys_eq [of m] bt_keys_eq [of m'] assms by simp
  then have "map fst (bt_entries m) = map fst (bt_entries m')"
    by (rule strict_sorted_equal [OF asc asc])
  then have "bt_entries m = bt_entries m'"
    using bt_entries_conv [of m] bt_entries_conv [of m'] assms by simp
  then show ?thesis by (simp add: bt_entries_inject)
qed

lemma bt_get_empty: "bt_get bt_empty k = None"
  by transfer simp

lemma bt_get_insert: "bt_get (bt_insert k v m) k' = (if k' = k then Some v else bt_get m k')"
  by transfer (simp add: map_of_ins_entry)

lemma map_of_filter_key:
  "map_of (filter (\<lambda>(a, b). a \<noteq> k) xs) k' = (if k' = k then None else map_of xs k')"
  by (induction xs) auto

lemma map_of_filter_pred:
  "distinct (map fst xs) \<Longrightarrow> map_of (filter (\<lambda>(a, b). P a b) xs) k =
   (case map_of xs k of None \<Rightarrow> None | Some v \<Rightarrow> if P k v then Some v else None)"
  by (induction xs) (auto split: option.splits simp: map_of_eq_None_iff dest: map_of_SomeD)

lemma bt_get_remove: "bt_get (bt_remove k m) k' = (if k' = k then None else bt_get m k')"
  by (simp add: bt_get.rep_eq bt_remove.rep_eq map_of_filter_key)

lemma bt_len_card: "bt_len m = card {k. bt_get m k \<noteq> None}"
proof -
  have "card {k. bt_get m k \<noteq> None} = card (set (map fst (bt_entries m)))"
    by (simp only: bt_keys_eq [symmetric] set_map)
  also have "\<dots> = length (bt_entries m)"
    using distinct_card [OF bt_entries_distinct [of m]] by simp
  finally show ?thesis by (simp add: bt_len.rep_eq)
qed

lemma bt_finite_keys: "finite {k. bt_get m k \<noteq> None}"
  by (simp only: bt_keys_eq [symmetric] finite_imageI finite_set)

interpretation bt: ordered_map bt_empty bt_get bt_insert bt_remove bt_len
  by unfold_locales
    (simp_all only: bt_get_empty bt_get_insert bt_get_remove bt_len_card bt_finite_keys bt_eqI)

lemma bt_get_map_values: "bt_get (bt_map_values f m) k = map_option f (bt_get m k)"
  by transfer (simp add: map_of_map)

lemma bt_get_retain:
  "bt_get (bt_retain P m) k = (case bt_get m k of None \<Rightarrow> None | Some v \<Rightarrow> if P k v then Some v else None)"
  using bt_entries_distinct [of m] by (simp add: bt_get.rep_eq bt_retain.rep_eq map_of_filter_pred)

lemmas bt_simps [simp] =
  bt_get_empty bt_get_insert bt_get_remove bt_get_map_values
  bt.len_empty bt.len_ins bt.len_del

lemma bt_contains_simps [simp]:
  "bt_contains bt_empty k = False"
  "bt_contains (bt_insert a v m) k = (k = a \<or> bt_contains m k)"
  "bt_contains (bt_remove a m) k = (k \<noteq> a \<and> bt_contains m k)"
  "bt_contains (bt_map_values f m) k = bt_contains m k"
  by (auto simp: bt_contains_def)

lemma bt_not_contains: "\<not> bt_contains m k \<longleftrightarrow> bt_get m k = None"
  by (simp add: bt_contains_def)

lemma bt_containsI: "bt_get m k = Some v \<Longrightarrow> bt_contains m k"
  by (simp add: bt_contains_def)

lemma bt_containsE:
  assumes "bt_contains m k"
  obtains v where "bt_get m k = Some v"
  using assms by (cases "bt_get m k") (simp_all add: bt_contains_def)

lemma bt_len_contains: "bt_len m = card {k. bt_contains m k}" "finite {k. bt_contains m k}"
  by (simp_all only: bt_contains_def bt_len_card bt_finite_keys)

lemma bt_len_remove: "bt_contains m k \<Longrightarrow> Suc (bt_len (bt_remove k m)) = bt_len m"
  using bt.len_pos [of m k] by (simp add: bt_contains_def bt.len_del)

lemma bs_insert_contains [simp]: "bt_contains (bs_insert a s) k = (k = a \<or> bt_contains s k)"
  by (simp add: bs_insert_def)

lemma bs_of_list_contains [simp]: "bt_contains (bs_of_list ks) k = (k \<in> set ks)"
proof -
  have "bt_contains (fold bs_insert ks s) k = (k \<in> set ks \<or> bt_contains s k)" for s
    by (induction ks arbitrary: s) auto
  then show ?thesis by (simp add: bs_of_list_def)
qed

lemma bt_values_set: "set (bt_values m) = {v. \<exists>k. bt_get m k = Some v}"
  by (force simp: bt_values_def bt_entries_get [symmetric])

lemma sum_list_remove1_key:
  "distinct (map fst xs) \<Longrightarrow> map_of xs k = Some v \<Longrightarrow>
   sum_list (map (f \<circ> snd) xs) = f v + sum_list (map (f \<circ> snd) (filter (\<lambda>(a, b). a \<noteq> k) xs))"
  for f :: "'b \<Rightarrow> nat"
proof (induction xs)
  case (Cons x xs)
  show ?case
  proof (cases "fst x = k")
    case True
    then have "filter (\<lambda>(a, b). a \<noteq> k) xs = xs"
      using Cons.prems(1) by (intro filter_True) (auto simp: image_iff)
    with True Cons.prems show ?thesis by (cases x) auto
  qed (use Cons in \<open>cases x, auto\<close>)
qed simp

lemma bt_sum_remove:
  "bt_get m k = Some v \<Longrightarrow> bt_sum f m = f v + bt_sum f (bt_remove k m)"
  unfolding bt_sum_def bt_values_def map_map
  by transfer (auto intro!: sum_list_remove1_key dest: ascending_distinct)

lemma bt_sum_empty [simp]: "bt_sum f bt_empty = 0"
  by (simp add: bt_sum_def bt_values_def bt_empty.rep_eq)

lemma bt_sum_insert_fresh: "bt_get m k = None \<Longrightarrow> bt_sum f (bt_insert k v m) = f v + bt_sum f m"
  using bt_sum_remove [of "bt_insert k v m" k v f] by (simp add: bt.del_ins_fresh)

lemma bt_sum_update:
  assumes "bt_get m k = Some v"
  shows "bt_sum f (bt_insert k w m) + f v = bt_sum f m + f w"
proof -
  have "bt_sum f (bt_insert k w m) = f w + bt_sum f (bt_remove k m)"
    using bt_sum_insert_fresh [of "bt_remove k m" k f w] by (simp add: bt.ins_del_absorb)
  with bt_sum_remove [OF assms, of f] show ?thesis by simp
qed

lemma bt_sum_map_values: "bt_sum f (bt_map_values g m) = bt_sum (f \<circ> g) m"
  by (simp add: bt_sum_def bt_values_def bt_map_values.rep_eq comp_def case_prod_unfold)

lemma bt_sum_mono: "(\<And>v. f v \<le> g v) \<Longrightarrow> bt_sum f m \<le> bt_sum g m"
  unfolding bt_sum_def by (rule sum_list_mono)

lemma bt_remove_insert: "k \<noteq> a \<Longrightarrow> bt_remove k (bt_insert a v m) = bt_insert a v (bt_remove k m)"
  by (rule bt_eqI) auto

lemma bt_remove_remove: "bt_remove k (bt_remove a m) = bt_remove a (bt_remove k m)"
  by (rule bt_eqI) auto

lemma bt_remove_insert_same: "bt_remove k (bt_insert k v m) = bt_remove k m"
  by (rule bt_eqI) auto

lemma bt_remove_map_values: "bt_remove k (bt_map_values f m) = bt_map_values f (bt_remove k m)"
  by (rule bt_eqI) auto

lemma bt_sum_remove_le: "bt_sum f (bt_remove k m) \<le> bt_sum f m"
  by (cases "bt_get m k") (simp_all add: bt.del_absent bt_sum_remove)

lemma bt_sum_zero: "(\<And>v. v \<in> set (bt_values m) \<Longrightarrow> f v = 0) \<Longrightarrow> bt_sum f m = 0"
  by (simp add: bt_sum_def)

lemma bt_sum_ge: "bt_get m k = Some v \<Longrightarrow> f v \<le> bt_sum f m"
  by (simp add: bt_sum_remove)

end
