(* ===== verification/Link_Identity.thy ===== *)
theory Link_Identity
  imports Link_BTree "HOL-Library.Product_Lexorder"
begin

text \<open>
  Identities, protocol versions and the error types of the core crate
  (\<^verbatim>\<open>identity.rs\<close>, \<^verbatim>\<open>error.rs\<close>, the version window of
  \<^verbatim>\<open>lib.rs\<close>). Each opaque identifier is a type of its own around its
  bytes, as in the sources. The lemmas characterise version negotiation: it returns the
  greatest version both ranges contain, and nothing when there is none.
\<close>

subsection \<open>Opaque identifiers\<close>

datatype PeerId = PeerId (peer_id_bytes: "256 word")
datatype EndpointId = EndpointId (endpoint_id_bytes: u128)
datatype ConnectionId = ConnectionId (connection_id_bytes: u128)
datatype SessionId = SessionId (session_id_bytes: u128)

instantiation PeerId :: linorder
begin
definition less_eq_PeerId :: "PeerId \<Rightarrow> PeerId \<Rightarrow> bool" where
  "less_eq_PeerId a b = (peer_id_bytes a \<le> peer_id_bytes b)"
definition less_PeerId :: "PeerId \<Rightarrow> PeerId \<Rightarrow> bool" where
  "less_PeerId a b = (peer_id_bytes a < peer_id_bytes b)"
instance by standard (auto simp: less_eq_PeerId_def less_PeerId_def intro: PeerId.expand)
end

record Identity =
  ident_peer_id :: PeerId
  ident_endpoint_id :: EndpointId
  ident_connection_id :: ConnectionId

subsection \<open>Versions\<close>

datatype ProtocolVersion = ProtocolVersion (major: u16) (minor: u16)

instantiation ProtocolVersion :: linorder
begin
definition less_eq_ProtocolVersion :: "ProtocolVersion \<Rightarrow> ProtocolVersion \<Rightarrow> bool" where
  "less_eq_ProtocolVersion a b = ((major a, minor a) \<le> (major b, minor b))"
definition less_ProtocolVersion :: "ProtocolVersion \<Rightarrow> ProtocolVersion \<Rightarrow> bool" where
  "less_ProtocolVersion a b = ((major a, minor a) < (major b, minor b))"
instance
  by standard
    (auto simp: less_eq_ProtocolVersion_def less_ProtocolVersion_def intro: ProtocolVersion.expand)
end

record VersionRange =
  vr_minimum :: ProtocolVersion
  vr_maximum :: ProtocolVersion

definition VersionRange_new :: "ProtocolVersion \<Rightarrow> ProtocolVersion \<Rightarrow> VersionRange" where
  "VersionRange_new lo hi = \<lparr>vr_minimum = lo, vr_maximum = hi\<rparr>"

definition VersionRange_is_valid :: "VersionRange \<Rightarrow> bool" where
  "VersionRange_is_valid r =
     (major (vr_minimum r) = major (vr_maximum r) \<and> minor (vr_minimum r) \<le> minor (vr_maximum r))"

definition VersionRange_negotiate :: "VersionRange \<Rightarrow> VersionRange \<Rightarrow> ProtocolVersion option" where
  "VersionRange_negotiate self other =
     (if \<not> VersionRange_is_valid self \<or> \<not> VersionRange_is_valid other
         \<or> major (vr_minimum self) \<noteq> major (vr_minimum other) then None
      else
        let lo = max (minor (vr_minimum self)) (minor (vr_minimum other));
            hi = min (minor (vr_maximum self)) (minor (vr_maximum other))
        in if lo \<le> hi then Some (ProtocolVersion (major (vr_minimum self)) hi) else None)"

definition LINK_PROTOCOL_VERSION :: u16 where
  "LINK_PROTOCOL_VERSION = 1"

definition MIN_COMPATIBLE_LINK_PROTOCOL_VERSION :: u16 where
  "MIN_COMPATIBLE_LINK_PROTOCOL_VERSION = 1"

definition protocol_version_is_compatible :: "u16 \<Rightarrow> bool" where
  "protocol_version_is_compatible version =
     (MIN_COMPATIBLE_LINK_PROTOCOL_VERSION \<le> version \<and> version \<le> LINK_PROTOCOL_VERSION)"

subsection \<open>Errors\<close>

datatype LimitKind =
    FrameBytes | StreamBytes | NestingDepth | Channels | PendingFrames | ProtocolOffers
  | IdentityProofBytes | EventSubscribers

datatype LinkError =
    InvalidInput string
  | InvalidState string
  | LimitExceeded LimitKind nat
  | Backpressure u32 nat
  | UnknownChannel u32
  | ClosedChannel u32
  | SessionMismatch
  | ChannelGenerationMismatch u32
  | ChannelCancelled u32
  | NamespaceConflict
  | LinkClosed

datatype HandshakeErrorKind =
    HS_UnexpectedMessage | HS_IncompatibleVersion | HS_NoSharedProtocol | HS_ProtocolConflict
  | HS_PairingDisabled | HS_PeerNotTrusted | HS_IdentityRejected | HS_LimitExceeded
  | HS_InvalidConfirmation

record HandshakeError =
  hs_err_kind :: HandshakeErrorKind
  hs_err_message :: string

definition HandshakeError_new :: "HandshakeErrorKind \<Rightarrow> string \<Rightarrow> HandshakeError" where
  "HandshakeError_new kind public_message =
     \<lparr>hs_err_kind = kind, hs_err_message = public_message\<rparr>"

subsection \<open>Version negotiation\<close>

definition range_contains :: "VersionRange \<Rightarrow> ProtocolVersion \<Rightarrow> bool" where
  "range_contains r v =
     (major v = major (vr_minimum r) \<and> major v = major (vr_maximum r)
      \<and> minor (vr_minimum r) \<le> minor v \<and> minor v \<le> minor (vr_maximum r))"

lemma range_contains_valid: "range_contains r v \<Longrightarrow> VersionRange_is_valid r"
  by (auto simp: range_contains_def VersionRange_is_valid_def)

lemma negotiate_contains:
  assumes "VersionRange_negotiate a b = Some v"
  shows "range_contains a v" and "range_contains b v"
  using assms
  by (auto simp: VersionRange_negotiate_def VersionRange_is_valid_def range_contains_def Let_def
      split: if_splits)

lemma negotiate_greatest:
  assumes "range_contains a v" and "range_contains b v"
  obtains w where "VersionRange_negotiate a b = Some w" and "v \<le> w"
proof -
  let ?hi = "min (minor (vr_maximum a)) (minor (vr_maximum b))"
  have "VersionRange_negotiate a b = Some (ProtocolVersion (major v) ?hi)"
    using assms
    by (auto simp: VersionRange_negotiate_def VersionRange_is_valid_def range_contains_def Let_def)
  moreover have "v \<le> ProtocolVersion (major v) ?hi"
    using assms by (auto simp: range_contains_def less_eq_ProtocolVersion_def)
  ultimately show thesis by (rule that)
qed

lemma negotiate_eq_Some_iff:
  "VersionRange_negotiate a b = Some v \<longleftrightarrow>
   range_contains a v \<and> range_contains b v
   \<and> (\<forall>w. range_contains a w \<and> range_contains b w \<longrightarrow> w \<le> v)"
proof (intro iffI conjI allI impI)
  assume ab: "VersionRange_negotiate a b = Some v"
  show "range_contains a v" "range_contains b v" using negotiate_contains [OF ab] by simp_all
  fix w assume "range_contains a w \<and> range_contains b w"
  then show "w \<le> v" using ab by (metis negotiate_greatest option.inject)
next
  assume *: "range_contains a v \<and> range_contains b v
    \<and> (\<forall>w. range_contains a w \<and> range_contains b w \<longrightarrow> w \<le> v)"
  then obtain w where w: "VersionRange_negotiate a b = Some w" "v \<le> w"
    by (metis negotiate_greatest)
  with * have "w \<le> v" by (meson negotiate_contains)
  with w show "VersionRange_negotiate a b = Some v" by simp
qed

lemma negotiate_commute: "VersionRange_negotiate a b = VersionRange_negotiate b a"
  by (auto simp: VersionRange_negotiate_def Let_def max.commute min.commute)

lemma negotiate_single:
  "VersionRange_negotiate r (VersionRange_new v v) = (if range_contains r v then Some v else None)"
  by (cases v)
    (auto simp: VersionRange_negotiate_def VersionRange_is_valid_def range_contains_def
      VersionRange_new_def Let_def max_def min_def)

end
