(* ===== verification/Link_Control.thy ===== *)
theory Link_Control
  imports Link_Identity
begin

text \<open>
  The typed control vocabulary of \<^verbatim>\<open>control.rs\<close>: stable identifiers derived
  from names, schema references, Link and per-protocol capability sets, the identity-mode
  guard, opcodes, structured control errors and the control payloads, with the channel
  identifiers of \<^verbatim>\<open>mux.rs\<close> and the protocol offers and selections of
  \<^verbatim>\<open>handshake.rs\<close> that the payloads carry.

  SHA-256 is third-party code: it is the argument \<open>sha\<close> of the definitions that derive
  identifiers, a function from bytes to a 32-byte digest about which nothing is assumed.
  A Rust string is its UTF-8 bytes. The lemmas show that capability intersection and
  inclusion are exactly intersection and inclusion of sets of capability bits.
\<close>

type_synonym sha256 = "bytes \<Rightarrow> 256 word"

subsection \<open>Identifiers and schema references\<close>

datatype ProtocolStableId = ProtocolStableId (stable_id_bytes: u128)
datatype ProtocolChannelId = ProtocolChannelId (protocol_channel_id_val: u16)
datatype ChannelId = ChannelId (channel_id_val: u32)
datatype ChannelGeneration = ChannelGeneration (generation_val: u32)
datatype SchemaId = SchemaId (schema_id_bytes: u128)
datatype SchemaRevision = SchemaRevision (schema_revision_val: u32)
datatype SchemaFingerprint = SchemaFingerprint (fingerprint_bytes: "256 word")
datatype RequestId = RequestId (request_id_val: u64)

instantiation ProtocolStableId :: linorder
begin
definition less_eq_ProtocolStableId :: "ProtocolStableId \<Rightarrow> ProtocolStableId \<Rightarrow> bool" where
  "less_eq_ProtocolStableId a b = (stable_id_bytes a \<le> stable_id_bytes b)"
definition less_ProtocolStableId :: "ProtocolStableId \<Rightarrow> ProtocolStableId \<Rightarrow> bool" where
  "less_ProtocolStableId a b = (stable_id_bytes a < stable_id_bytes b)"
instance
  by standard
    (auto simp: less_eq_ProtocolStableId_def less_ProtocolStableId_def intro: ProtocolStableId.expand)
end

instantiation ProtocolChannelId :: linorder
begin
definition less_eq_ProtocolChannelId :: "ProtocolChannelId \<Rightarrow> ProtocolChannelId \<Rightarrow> bool" where
  "less_eq_ProtocolChannelId a b = (protocol_channel_id_val a \<le> protocol_channel_id_val b)"
definition less_ProtocolChannelId :: "ProtocolChannelId \<Rightarrow> ProtocolChannelId \<Rightarrow> bool" where
  "less_ProtocolChannelId a b = (protocol_channel_id_val a < protocol_channel_id_val b)"
instance
  by standard
    (auto simp: less_eq_ProtocolChannelId_def less_ProtocolChannelId_def intro: ProtocolChannelId.expand)
end

instantiation ChannelId :: linorder
begin
definition less_eq_ChannelId :: "ChannelId \<Rightarrow> ChannelId \<Rightarrow> bool" where
  "less_eq_ChannelId a b = (channel_id_val a \<le> channel_id_val b)"
definition less_ChannelId :: "ChannelId \<Rightarrow> ChannelId \<Rightarrow> bool" where
  "less_ChannelId a b = (channel_id_val a < channel_id_val b)"
instance
  by standard (auto simp: less_eq_ChannelId_def less_ChannelId_def intro: ChannelId.expand)
end

definition CONTROL_CHANNEL_ID :: ChannelId where
  "CONTROL_CHANNEL_ID = ChannelId 0"

definition ChannelGeneration_INITIAL :: ChannelGeneration where
  "ChannelGeneration_INITIAL = ChannelGeneration 1"

definition str :: "string \<Rightarrow> bytes" where
  "str s = map (\<lambda>c. of_nat (of_char c)) s"

definition PROTOCOL_ID_DOMAIN :: bytes where
  "PROTOCOL_ID_DOMAIN = str ''mutsuki-link.protocol-stable-id.v1'' @ [0]"

definition SCHEMA_ID_DOMAIN :: bytes where
  "SCHEMA_ID_DOMAIN = str ''mutsuki-link.schema-id.v1'' @ [0]"

definition derive_128 :: "sha256 \<Rightarrow> bytes \<Rightarrow> bytes \<Rightarrow> bytes \<Rightarrow> u128" where
  "derive_128 sha domain authority name =
     from_be_bytes (take 16 (to_be_bytes (sha (domain @ authority @ [0] @ name))))"

definition ProtocolStableId_derive :: "sha256 \<Rightarrow> bytes \<Rightarrow> bytes \<Rightarrow> ProtocolStableId" where
  "ProtocolStableId_derive sha authority name =
     ProtocolStableId (derive_128 sha PROTOCOL_ID_DOMAIN authority name)"

definition SchemaId_derive :: "sha256 \<Rightarrow> bytes \<Rightarrow> bytes \<Rightarrow> SchemaId" where
  "SchemaId_derive sha authority name = SchemaId (derive_128 sha SCHEMA_ID_DOMAIN authority name)"

definition SchemaFingerprint_digest :: "sha256 \<Rightarrow> bytes \<Rightarrow> SchemaFingerprint" where
  "SchemaFingerprint_digest sha contract = SchemaFingerprint (sha contract)"

record SchemaRef =
  schema_id :: SchemaId
  schema_revision :: SchemaRevision
  schema_fingerprint :: SchemaFingerprint

definition SchemaRef_for_contract :: "sha256 \<Rightarrow> bytes \<Rightarrow> bytes \<Rightarrow> u32 \<Rightarrow> bytes \<Rightarrow> SchemaRef" where
  "SchemaRef_for_contract sha authority name revision contract =
     \<lparr>schema_id = SchemaId_derive sha authority name,
      schema_revision = SchemaRevision revision,
      schema_fingerprint = SchemaFingerprint_digest sha contract\<rparr>"

record ProtocolDebugIdentity =
  dbg_authority :: bytes
  dbg_name :: bytes

definition ProtocolDebugIdentity_new :: "bytes \<Rightarrow> bytes \<Rightarrow> ProtocolDebugIdentity" where
  "ProtocolDebugIdentity_new authority name = \<lparr>dbg_authority = authority, dbg_name = name\<rparr>"

definition ProtocolDebugIdentity_stable_id :: "sha256 \<Rightarrow> ProtocolDebugIdentity \<Rightarrow> ProtocolStableId" where
  "ProtocolDebugIdentity_stable_id sha identity =
     ProtocolStableId_derive sha (dbg_authority identity) (dbg_name identity)"

definition canonical_byte :: "u8 \<Rightarrow> bool" where
  "canonical_byte b =
     ((97 \<le> b \<and> b \<le> 122) \<or> (48 \<le> b \<and> b \<le> 57) \<or> b = 45 \<or> b = 95)"

definition canonical_identity_component :: "bytes \<Rightarrow> bool" where
  "canonical_identity_component value = (value \<noteq> [] \<and> list_all canonical_byte value)"

fun split_on :: "u8 \<Rightarrow> bytes \<Rightarrow> bytes list" where
  "split_on d [] = [[]]"
| "split_on d (b # bs) =
     (if b = d then [] # split_on d bs
      else case split_on d bs of [] \<Rightarrow> [[b]] | p # ps \<Rightarrow> (b # p) # ps)"

definition ProtocolDebugIdentity_is_canonical :: "ProtocolDebugIdentity \<Rightarrow> bool" where
  "ProtocolDebugIdentity_is_canonical identity =
     (dbg_authority identity \<noteq> []
      \<and> list_all canonical_identity_component (split_on 46 (dbg_authority identity))
      \<and> canonical_identity_component (dbg_name identity))"

subsection \<open>Link capabilities and the identity mode\<close>

datatype LinkCapabilities = LinkCapabilities (capability_bits: u64)

definition COMPACT_CHANNEL_ID :: LinkCapabilities where
  "COMPACT_CHANNEL_ID = LinkCapabilities (push_bit 0 1)"
definition DATAGRAMS :: LinkCapabilities where
  "DATAGRAMS = LinkCapabilities (push_bit 1 1)"
definition SESSION_RESUME :: LinkCapabilities where
  "SESSION_RESUME = LinkCapabilities (push_bit 2 1)"
definition MANAGEMENT_CHANNEL :: LinkCapabilities where
  "MANAGEMENT_CHANNEL = LinkCapabilities (push_bit 3 1)"
definition ORDERED_RESPONSE_MULTIPLEX :: LinkCapabilities where
  "ORDERED_RESPONSE_MULTIPLEX = LinkCapabilities (push_bit 4 1)"
definition TYPED_CONTROL :: LinkCapabilities where
  "TYPED_CONTROL = LinkCapabilities (push_bit 5 1)"

definition LinkCapabilities_default :: LinkCapabilities where
  "LinkCapabilities_default = LinkCapabilities 0"

definition LinkCapabilities_contains :: "LinkCapabilities \<Rightarrow> LinkCapabilities \<Rightarrow> bool" where
  "LinkCapabilities_contains self capability =
     (capability_bits self AND capability_bits capability = capability_bits capability)"

definition LinkCapabilities_intersection :: "LinkCapabilities \<Rightarrow> LinkCapabilities \<Rightarrow> LinkCapabilities" where
  "LinkCapabilities_intersection self other =
     LinkCapabilities (capability_bits self AND capability_bits other)"

definition LinkCapabilities_is_subset_of :: "LinkCapabilities \<Rightarrow> LinkCapabilities \<Rightarrow> bool" where
  "LinkCapabilities_is_subset_of self other =
     (capability_bits self AND NOT (capability_bits other) = 0)"

definition LinkCapabilities_bitor :: "LinkCapabilities \<Rightarrow> LinkCapabilities \<Rightarrow> LinkCapabilities" where
  "LinkCapabilities_bitor self rhs =
     LinkCapabilities (capability_bits self OR capability_bits rhs)"

datatype ControlIdentityMode = LegacyStringV1 | TypedV1

definition ControlIdentityMode_negotiate :: "LinkCapabilities \<Rightarrow> ControlIdentityMode" where
  "ControlIdentityMode_negotiate capabilities =
     (if LinkCapabilities_contains capabilities TYPED_CONTROL then TypedV1 else LegacyStringV1)"

datatype ControlModeGuard = ControlModeGuard (guard_mode: ControlIdentityMode)

subsection \<open>Per-protocol capability sets\<close>

definition MAX_PROTOCOL_CAPABILITY_WORDS :: nat where
  "MAX_PROTOCOL_CAPABILITY_WORDS = 8"

record ProtocolCapabilitySet =
  caps_protocol_id :: ProtocolStableId
  caps_words :: "u64 list"

definition ProtocolCapabilitySet_empty :: "ProtocolStableId \<Rightarrow> ProtocolCapabilitySet" where
  "ProtocolCapabilitySet_empty protocol_id = \<lparr>caps_protocol_id = protocol_id, caps_words = []\<rparr>"

definition ProtocolCapabilitySet_is_bounded :: "ProtocolCapabilitySet \<Rightarrow> bool" where
  "ProtocolCapabilitySet_is_bounded c = (length (caps_words c) \<le> MAX_PROTOCOL_CAPABILITY_WORDS)"

definition ProtocolCapabilitySet_intersect ::
  "ProtocolCapabilitySet \<Rightarrow> ProtocolCapabilitySet \<Rightarrow> ProtocolCapabilitySet option" where
  "ProtocolCapabilitySet_intersect self other =
     (if caps_protocol_id self = caps_protocol_id other
      then Some \<lparr>caps_protocol_id = caps_protocol_id self,
                 caps_words = map (\<lambda>(left, right). left AND right)
                                (zip (caps_words self) (caps_words other))\<rparr>
      else None)"

definition ProtocolCapabilitySet_is_subset_of ::
  "ProtocolCapabilitySet \<Rightarrow> ProtocolCapabilitySet \<Rightarrow> bool" where
  "ProtocolCapabilitySet_is_subset_of self other =
     (caps_protocol_id self = caps_protocol_id other
      \<and> list_all (\<lambda>(index, word).
            word AND NOT (if index < length (caps_words other) then caps_words other ! index else 0) = 0)
          (enumerate 0 (caps_words self)))"

subsection \<open>Opcodes, flags and structured errors\<close>

datatype LinkControlOpcode =
    Op_Hello | Op_ProtocolOffer | Op_ProtocolSelect | Op_OpenChannel | Op_ChannelAccepted
  | Op_CloseChannel | Op_Ping | Op_Pong | Op_BeginDrain | Op_CloseSession | Op_Error

fun opcode_as_u16 :: "LinkControlOpcode \<Rightarrow> u16" where
  "opcode_as_u16 Op_Hello = 0x0001"
| "opcode_as_u16 Op_ProtocolOffer = 0x0002"
| "opcode_as_u16 Op_ProtocolSelect = 0x0003"
| "opcode_as_u16 Op_OpenChannel = 0x0010"
| "opcode_as_u16 Op_ChannelAccepted = 0x0011"
| "opcode_as_u16 Op_CloseChannel = 0x0012"
| "opcode_as_u16 Op_Ping = 0x0020"
| "opcode_as_u16 Op_Pong = 0x0021"
| "opcode_as_u16 Op_BeginDrain = 0x0022"
| "opcode_as_u16 Op_CloseSession = 0x0023"
| "opcode_as_u16 Op_Error = 0x00ff"

datatype ErrorDomain = Dom_Control | Dom_Protocol | Dom_Channel | Dom_Security | Dom_Resource
datatype ErrorCode = ErrorCode (error_code_val: u16)
datatype Retryability = Retry_Never | RetryAfterBackoff | Retry_Reconnect

record LinkControlError =
  ce_domain :: ErrorDomain
  ce_code :: ErrorCode
  ce_operation :: "LinkControlOpcode option"
  ce_retryability :: Retryability
  ce_message :: string

definition ce_malformed :: "u16 \<Rightarrow> string \<Rightarrow> LinkControlError" where
  "ce_malformed code message =
     \<lparr>ce_domain = Dom_Control, ce_code = ErrorCode code, ce_operation = None,
      ce_retryability = Retry_Never, ce_message = message\<rparr>"

definition ce_unknown_opcode :: LinkControlError where
  "ce_unknown_opcode =
     \<lparr>ce_domain = Dom_Control, ce_code = ErrorCode 1, ce_operation = None,
      ce_retryability = Retry_Never, ce_message = ''unknown Link control opcode''\<rparr>"
definition ce_mode_mismatch :: LinkControlError where
  "ce_mode_mismatch = ce_malformed 2 ''control identity mode does not match negotiated session''"
definition ce_unsupported_version :: LinkControlError where
  "ce_unsupported_version = ce_malformed 3 ''unsupported typed control wire version''"
definition ce_truncated :: LinkControlError where
  "ce_truncated = ce_malformed 4 ''truncated typed control frame''"
definition ce_limit_exceeded :: LinkControlError where
  "ce_limit_exceeded = ce_malformed 5 ''typed control frame exceeds a resource limit''"
definition ce_invalid_payload :: LinkControlError where
  "ce_invalid_payload = ce_malformed 6 ''invalid typed control payload''"
definition ce_opcode_mismatch :: LinkControlError where
  "ce_opcode_mismatch = ce_malformed 7 ''typed control opcode does not match payload''"
definition ce_trailing_bytes :: LinkControlError where
  "ce_trailing_bytes = ce_malformed 8 ''typed control frame contains trailing bytes''"
definition ce_invalid_channel_mapping :: LinkControlError where
  "ce_invalid_channel_mapping =
     \<lparr>ce_domain = Dom_Channel, ce_code = ErrorCode 1, ce_operation = Some Op_ChannelAccepted,
      ce_retryability = Retry_Never, ce_message = ''session channel mapping is invalid''\<rparr>"
definition ce_duplicate_channel_mapping :: LinkControlError where
  "ce_duplicate_channel_mapping =
     \<lparr>ce_domain = Dom_Channel, ce_code = ErrorCode 2, ce_operation = Some Op_ChannelAccepted,
      ce_retryability = Retry_Never,
      ce_message = ''session channel mapping conflicts with an existing binding''\<rparr>"
definition ce_channel_mapping_limit :: LinkControlError where
  "ce_channel_mapping_limit =
     \<lparr>ce_domain = Dom_Resource, ce_code = ErrorCode 1, ce_operation = Some Op_ChannelAccepted,
      ce_retryability = Retry_Never, ce_message = ''session channel mapping limit exceeded''\<rparr>"
definition ce_session_not_active :: "LinkControlOpcode \<Rightarrow> LinkControlError" where
  "ce_session_not_active operation =
     \<lparr>ce_domain = Dom_Control, ce_code = ErrorCode 9, ce_operation = Some operation,
      ce_retryability = Retry_Reconnect,
      ce_message = ''control operation requires an active session''\<rparr>"

definition opcode_try_from :: "u16 \<Rightarrow> (LinkControlError, LinkControlOpcode) result" where
  "opcode_try_from value =
     (if value = 0x0001 then Inr Op_Hello
      else if value = 0x0002 then Inr Op_ProtocolOffer
      else if value = 0x0003 then Inr Op_ProtocolSelect
      else if value = 0x0010 then Inr Op_OpenChannel
      else if value = 0x0011 then Inr Op_ChannelAccepted
      else if value = 0x0012 then Inr Op_CloseChannel
      else if value = 0x0020 then Inr Op_Ping
      else if value = 0x0021 then Inr Op_Pong
      else if value = 0x0022 then Inr Op_BeginDrain
      else if value = 0x0023 then Inr Op_CloseSession
      else if value = 0x00ff then Inr Op_Error
      else Inl ce_unknown_opcode)"

definition ControlModeGuard_validate_typed :: "ControlModeGuard \<Rightarrow> (LinkControlError, unit) result" where
  "ControlModeGuard_validate_typed guard =
     (if guard_mode guard = TypedV1 then Inr () else Inl ce_mode_mismatch)"

definition ControlModeGuard_validate_legacy :: "ControlModeGuard \<Rightarrow> (LinkControlError, unit) result" where
  "ControlModeGuard_validate_legacy guard =
     (if guard_mode guard = LegacyStringV1 then Inr () else Inl ce_mode_mismatch)"

datatype ControlFlags = ControlFlags (control_flags_bits: u16)

definition ControlFlags_RESPONSE :: ControlFlags where
  "ControlFlags_RESPONSE = ControlFlags (push_bit 0 1)"

definition ControlFlags_from_bits :: "u16 \<Rightarrow> ControlFlags option" where
  "ControlFlags_from_bits bits =
     (if bits AND NOT (control_flags_bits ControlFlags_RESPONSE) = 0
      then Some (ControlFlags bits) else None)"

subsection \<open>Payloads\<close>

datatype AuthPath = FirstPairing | TrustedReconnect

record ProtocolOffer =
  offer_stable_id :: ProtocolStableId
  offer_debug_identity :: "ProtocolDebugIdentity option"
  offer_versions :: VersionRange
  offer_schema :: SchemaRef
  offer_capabilities :: ProtocolCapabilitySet

record ProtocolSelection =
  sel_stable_id :: ProtocolStableId
  sel_version :: ProtocolVersion
  sel_schema :: SchemaRef
  sel_capabilities :: ProtocolCapabilitySet

record HelloControl =
  hello_identity :: Identity
  hello_link_versions :: VersionRange
  hello_link_capabilities :: LinkCapabilities
  hello_requested_auth :: AuthPath

record OpenChannel =
  open_protocol_id :: ProtocolStableId
  open_protocol_channel_id :: ProtocolChannelId
  open_requested_session_channel_id :: ChannelId
  open_capacity :: u32

record AcceptChannel =
  accept_protocol_id :: ProtocolStableId
  accept_protocol_channel_id :: ProtocolChannelId
  accept_session_channel_id :: ChannelId

datatype ControlPayload =
    Pl_Hello HelloControl
  | Pl_OfferProtocols "ProtocolOffer list"
  | Pl_SelectProtocols "ProtocolSelection list"
  | Pl_OpenChannel OpenChannel
  | Pl_AcceptChannel AcceptChannel
  | Pl_CloseChannel ChannelId
  | Pl_Ping u64
  | Pl_Pong u64
  | Pl_BeginDrain u32
  | Pl_CloseSession u16
  | Pl_Error LinkControlError

fun ControlPayload_opcode :: "ControlPayload \<Rightarrow> LinkControlOpcode" where
  "ControlPayload_opcode (Pl_Hello _) = Op_Hello"
| "ControlPayload_opcode (Pl_OfferProtocols _) = Op_ProtocolOffer"
| "ControlPayload_opcode (Pl_SelectProtocols _) = Op_ProtocolSelect"
| "ControlPayload_opcode (Pl_OpenChannel _) = Op_OpenChannel"
| "ControlPayload_opcode (Pl_AcceptChannel _) = Op_ChannelAccepted"
| "ControlPayload_opcode (Pl_CloseChannel _) = Op_CloseChannel"
| "ControlPayload_opcode (Pl_Ping _) = Op_Ping"
| "ControlPayload_opcode (Pl_Pong _) = Op_Pong"
| "ControlPayload_opcode (Pl_BeginDrain _) = Op_BeginDrain"
| "ControlPayload_opcode (Pl_CloseSession _) = Op_CloseSession"
| "ControlPayload_opcode (Pl_Error _) = Op_Error"

definition TYPED_CONTROL_WIRE_VERSION :: u16 where
  "TYPED_CONTROL_WIRE_VERSION = 1"

record ControlEnvelope =
  env_wire_version :: u16
  env_opcode :: LinkControlOpcode
  env_request_id :: RequestId
  env_session_id :: "SessionId option"
  env_flags :: ControlFlags
  env_payload :: ControlPayload

definition ControlEnvelope_typed ::
  "RequestId \<Rightarrow> SessionId option \<Rightarrow> ControlFlags \<Rightarrow> ControlPayload \<Rightarrow> ControlEnvelope" where
  "ControlEnvelope_typed request_id session_id flags payload =
     \<lparr>env_wire_version = TYPED_CONTROL_WIRE_VERSION,
      env_opcode = ControlPayload_opcode payload,
      env_request_id = request_id,
      env_session_id = session_id,
      env_flags = flags,
      env_payload = payload\<rparr>"

subsection \<open>Capability sets as sets of bits\<close>

definition link_has :: "LinkCapabilities \<Rightarrow> nat \<Rightarrow> bool" where
  "link_has c n = bit (capability_bits c) n"

definition caps_has :: "ProtocolCapabilitySet \<Rightarrow> nat \<Rightarrow> nat \<Rightarrow> bool" where
  "caps_has c i n = (i < length (caps_words c) \<and> bit (caps_words c ! i) n)"

lemma and_not_zero_iff: "(a :: 'a::len word) AND NOT b = 0 \<longleftrightarrow> (\<forall>n. bit a n \<longrightarrow> bit b n)"
  by (auto simp: bit_eq_iff bit_simps dest: bit_imp_le_length)

lemma link_intersection_has:
  "link_has (LinkCapabilities_intersection a b) n \<longleftrightarrow> link_has a n \<and> link_has b n"
  by (simp add: link_has_def LinkCapabilities_intersection_def bit_simps)

lemma link_subset_iff:
  "LinkCapabilities_is_subset_of a b \<longleftrightarrow> (\<forall>n. link_has a n \<longrightarrow> link_has b n)"
  by (simp add: link_has_def LinkCapabilities_is_subset_of_def and_not_zero_iff)

lemma link_intersection_subset [simp]:
  "LinkCapabilities_is_subset_of (LinkCapabilities_intersection a b) a"
  "LinkCapabilities_is_subset_of (LinkCapabilities_intersection a b) b"
  by (simp_all add: link_subset_iff link_intersection_has)

lemma enumerate_all_nth:
  "list_all (\<lambda>(i, x). P i x) (enumerate 0 xs) \<longleftrightarrow> (\<forall>i < length xs. P i (xs ! i))"
  by (auto simp: list_all_iff in_set_enumerate_eq)

lemma caps_subset_iff:
  "ProtocolCapabilitySet_is_subset_of a b \<longleftrightarrow>
   caps_protocol_id a = caps_protocol_id b \<and> (\<forall>i n. caps_has a i n \<longrightarrow> caps_has b i n)"
proof -
  have "list_all (\<lambda>(index, word).
            word AND NOT (if index < length (caps_words b) then caps_words b ! index else 0) = 0)
          (enumerate 0 (caps_words a))
      \<longleftrightarrow> (\<forall>i n. caps_has a i n \<longrightarrow> caps_has b i n)"
    unfolding enumerate_all_nth and_not_zero_iff caps_has_def by auto
  then show ?thesis by (simp only: ProtocolCapabilitySet_is_subset_of_def)
qed

lemma caps_intersect_has:
  assumes "ProtocolCapabilitySet_intersect a b = Some c"
  shows "caps_has c i n \<longleftrightarrow> caps_has a i n \<and> caps_has b i n"
  using assms
  by (auto simp: ProtocolCapabilitySet_intersect_def caps_has_def bit_simps split: if_splits)

lemma caps_intersect_id:
  "ProtocolCapabilitySet_intersect a b = Some c \<Longrightarrow>
   caps_protocol_id c = caps_protocol_id a \<and> caps_protocol_id c = caps_protocol_id b"
  by (auto simp: ProtocolCapabilitySet_intersect_def split: if_splits)

lemma caps_intersect_subset:
  assumes "ProtocolCapabilitySet_intersect a b = Some c"
  shows "ProtocolCapabilitySet_is_subset_of c a" and "ProtocolCapabilitySet_is_subset_of c b"
  using caps_intersect_has [OF assms] caps_intersect_id [OF assms] by (auto simp: caps_subset_iff)

lemma caps_intersect_bounded:
  "ProtocolCapabilitySet_intersect a b = Some c \<Longrightarrow>
   ProtocolCapabilitySet_is_bounded a \<or> ProtocolCapabilitySet_is_bounded b \<Longrightarrow>
   ProtocolCapabilitySet_is_bounded c"
  by (auto simp: ProtocolCapabilitySet_intersect_def ProtocolCapabilitySet_is_bounded_def
      split: if_splits)

lemma caps_intersect_None:
  "ProtocolCapabilitySet_intersect a b = None \<longleftrightarrow> caps_protocol_id a \<noteq> caps_protocol_id b"
  by (simp add: ProtocolCapabilitySet_intersect_def)

subsection \<open>Opcodes and flags on the wire\<close>

lemma opcode_try_from_as_u16 [simp]: "opcode_try_from (opcode_as_u16 op) = Inr op"
  by (cases op) (simp_all add: opcode_try_from_def)

lemma opcode_as_u16_try_from: "opcode_try_from v = Inr op \<Longrightarrow> opcode_as_u16 op = v"
  by (auto simp: opcode_try_from_def split: if_splits)

lemma opcode_as_u16_neq_max: "opcode_as_u16 op \<noteq> - 1"
  by (cases op) simp_all

lemma flags_from_bits_eq_Some:
  "ControlFlags_from_bits bits = Some f \<longleftrightarrow> f = ControlFlags bits \<and> bits \<in> {0, 1}"
proof -
  have "bits AND NOT 1 = 0 \<longleftrightarrow> bits = 0 \<or> bits = 1" for bits :: u16
  proof
    assume "bits AND NOT 1 = 0"
    then have b: "bit bits n \<longrightarrow> n = 0" for n
      unfolding and_not_zero_iff by (simp add: bit_1_iff)
    show "bits = 0 \<or> bits = 1"
    proof (cases "bit bits 0")
      case True
      with b have "bits = 1" by (intro bit_word_eqI) (auto simp: bit_1_iff)
      then show ?thesis ..
    next
      case False
      with b have "bits = 0" by (intro bit_word_eqI) (metis bit_0_eq bot_apply bot_bool_def)
      then show ?thesis ..
    qed
  qed auto
  then show ?thesis
    by (auto simp: ControlFlags_from_bits_def ControlFlags_RESPONSE_def)
qed

end
