(* ===== verification/Link_Wire.thy ===== *)
theory Link_Wire
  imports Link_Control
begin

text \<open>
  The byte reader and writer of \<^verbatim>\<open>control.rs\<close> and the interface between a field
  encoder and its decoder. The locale \<open>wire_codec\<close> states what the two promise each
  other: a decoder run on the bytes its encoder wrote returns the value and stops right
  after them, and a decoder that succeeds has read exactly the encoding of a valid value.
  From these laws alone the locale derives that encodings are prefix-free, that every
  truncation of an encoding is refused, and the same laws for counted sequences. The field
  codecs of the control plane interpret it, from the machine integers up to schema
  references and capability sets.

  \<open>small\<close> is the bound every Rust byte vector satisfies: its length fits a
  \<^verbatim>\<open>usize\<close>.
\<close>

subsection \<open>Reader\<close>

record Reader =
  rd_bytes :: bytes
  rd_position :: nat

definition Reader_new :: "bytes \<Rightarrow> Reader" where
  "Reader_new bs = \<lparr>rd_bytes = bs, rd_position = 0\<rparr>"

definition Reader_remaining :: "Reader \<Rightarrow> nat" where
  "Reader_remaining r = length (rd_bytes r) - rd_position r"

type_synonym 'a reading = "(LinkControlError, 'a \<times> Reader) result"

definition Reader_take :: "nat \<Rightarrow> Reader \<Rightarrow> bytes reading" where
  "Reader_take len r =
     result_bind (ok_or ce_limit_exceeded (usize_checked_add (rd_position r) len)) (\<lambda>end_pos.
     result_bind (ok_or ce_truncated
        (if rd_position r \<le> end_pos \<and> end_pos \<le> length (rd_bytes r)
         then Some (take (end_pos - rd_position r) (drop (rd_position r) (rd_bytes r)))
         else None)) (\<lambda>value.
     Inr (value, r\<lparr>rd_position := end_pos\<rparr>)))"

definition Reader_take_array :: "nat \<Rightarrow> Reader \<Rightarrow> bytes reading" where
  "Reader_take_array n r =
     result_bind (Reader_take n r) (\<lambda>(value, r).
     if length value = n then Inr (value, r) else Inl ce_truncated)"

definition Reader_word :: "Reader \<Rightarrow> 'a::len word reading" where
  "Reader_word r =
     result_bind (Reader_take_array (LENGTH('a) div 8) r) (\<lambda>(value, r).
     Inr (from_be_bytes value, r))"

definition Reader_u8 :: "Reader \<Rightarrow> u8 reading" where
  "Reader_u8 r = result_bind (Reader_take 1 r) (\<lambda>(value, r). Inr (value ! 0, r))"

definition Reader_u16 :: "Reader \<Rightarrow> u16 reading" where
  "Reader_u16 r = Reader_word r"

definition Reader_u32 :: "Reader \<Rightarrow> u32 reading" where
  "Reader_u32 r = Reader_word r"

definition Reader_u64 :: "Reader \<Rightarrow> u64 reading" where
  "Reader_u64 r = Reader_word r"

definition Reader_bounded_count :: "nat \<Rightarrow> Reader \<Rightarrow> nat reading" where
  "Reader_bounded_count maximum r =
     result_bind (Reader_u8 r) (\<lambda>(count, r).
     if unat count > maximum then Inl ce_limit_exceeded else Inr (unat count, r))"

definition Reader_version :: "Reader \<Rightarrow> ProtocolVersion reading" where
  "Reader_version r =
     result_bind (Reader_u16 r) (\<lambda>(maj, r).
     result_bind (Reader_u16 r) (\<lambda>(min, r).
     Inr (ProtocolVersion maj min, r)))"

definition Reader_version_range :: "Reader \<Rightarrow> VersionRange reading" where
  "Reader_version_range r =
     result_bind (Reader_version r) (\<lambda>(lo, r).
     result_bind (Reader_version r) (\<lambda>(hi, r).
     let versions = VersionRange_new lo hi in
     if \<not> VersionRange_is_valid versions then Inl ce_invalid_payload
     else Inr (versions, r)))"

definition Reader_protocol_id :: "Reader \<Rightarrow> ProtocolStableId reading" where
  "Reader_protocol_id r =
     result_bind (Reader_word r) (\<lambda>(bs, r). Inr (ProtocolStableId bs, r))"

definition Reader_schema :: "Reader \<Rightarrow> SchemaRef reading" where
  "Reader_schema r =
     result_bind (Reader_word r) (\<lambda>(id_bytes, r).
     result_bind (Reader_u32 r) (\<lambda>(revision, r).
     result_bind (Reader_word r) (\<lambda>(fingerprint, r).
     let schema = \<lparr>schema_id = SchemaId id_bytes, schema_revision = SchemaRevision revision,
                   schema_fingerprint = SchemaFingerprint fingerprint\<rparr> in
     if schema_revision_val (schema_revision schema) = 0 then Inl ce_invalid_payload
     else Inr (schema, r))))"

fun read_n :: "(Reader \<Rightarrow> 'a reading) \<Rightarrow> nat \<Rightarrow> Reader \<Rightarrow> 'a list reading" where
  "read_n f 0 r = Inr ([], r)"
| "read_n f (Suc n) r =
     result_bind (f r) (\<lambda>(x, r).
     result_bind (read_n f n r) (\<lambda>(xs, r). Inr (x # xs, r)))"

definition Reader_capabilities :: "Reader \<Rightarrow> ProtocolCapabilitySet reading" where
  "Reader_capabilities r =
     result_bind (Reader_protocol_id r) (\<lambda>(protocol_id, r).
     result_bind (Reader_bounded_count MAX_PROTOCOL_CAPABILITY_WORDS r) (\<lambda>(count, r).
     result_bind (read_n Reader_u64 count r) (\<lambda>(words, r).
     Inr (\<lparr>caps_protocol_id = protocol_id, caps_words = words\<rparr>, r))))"

definition MAX_CONTROL_DEBUG_COMPONENT_BYTES :: nat where
  "MAX_CONTROL_DEBUG_COMPONENT_BYTES = 128"

text \<open>The check behind \<^verbatim>\<open>std::str::from_utf8\<close>: well-formed UTF-8, without
  overlong forms, surrogates or code points past the last one.\<close>

definition utf8_cont :: "u8 \<Rightarrow> bool" where
  "utf8_cont b = (0x80 \<le> b \<and> b \<le> 0xBF)"

definition utf8_second3 :: "u8 \<Rightarrow> u8 \<Rightarrow> bool" where
  "utf8_second3 a b =
     (if a = 0xE0 then 0xA0 \<le> b \<and> b \<le> 0xBF
      else if a = 0xED then 0x80 \<le> b \<and> b \<le> 0x9F
      else utf8_cont b)"

definition utf8_second4 :: "u8 \<Rightarrow> u8 \<Rightarrow> bool" where
  "utf8_second4 a b =
     (if a = 0xF0 then 0x90 \<le> b \<and> b \<le> 0xBF
      else if a = 0xF4 then 0x80 \<le> b \<and> b \<le> 0x8F
      else utf8_cont b)"

fun utf8_valid :: "bytes \<Rightarrow> bool" where
  "utf8_valid [] = True"
| "utf8_valid (a # bs) =
     (if a < 0x80 then utf8_valid bs
      else if 0xC2 \<le> a \<and> a \<le> 0xDF then
        (case bs of b # cs \<Rightarrow> utf8_cont b \<and> utf8_valid cs | _ \<Rightarrow> False)
      else if 0xE0 \<le> a \<and> a \<le> 0xEF then
        (case bs of b # c # ds \<Rightarrow> utf8_second3 a b \<and> utf8_cont c \<and> utf8_valid ds | _ \<Rightarrow> False)
      else if 0xF0 \<le> a \<and> a \<le> 0xF4 then
        (case bs of b # c # d # es \<Rightarrow>
            utf8_second4 a b \<and> utf8_cont c \<and> utf8_cont d \<and> utf8_valid es
          | _ \<Rightarrow> False)
      else False)"

definition Reader_string :: "Reader \<Rightarrow> bytes reading" where
  "Reader_string r =
     result_bind (Reader_u16 r) (\<lambda>(len, r).
     if unat len = 0 \<or> unat len > MAX_CONTROL_DEBUG_COMPONENT_BYTES then Inl ce_limit_exceeded
     else
       result_bind (Reader_take (unat len) r) (\<lambda>(value, r).
       if utf8_valid value then Inr (value, r) else Inl ce_invalid_payload))"

definition Reader_debug_identity :: "Reader \<Rightarrow> ProtocolDebugIdentity option reading" where
  "Reader_debug_identity r =
     result_bind (Reader_u8 r) (\<lambda>(tag, r).
     if tag = 0 then Inr (None, r)
     else if tag = 1 then
       result_bind (Reader_string r) (\<lambda>(authority, r).
       result_bind (Reader_string r) (\<lambda>(name, r).
       Inr (Some (ProtocolDebugIdentity_new authority name), r)))
     else Inl ce_invalid_payload)"

subsection \<open>Writer\<close>

type_synonym Writer = bytes

definition Writer_bytes :: "Writer \<Rightarrow> bytes \<Rightarrow> Writer" where
  "Writer_bytes w bs = w @ bs"

definition Writer_u8 :: "Writer \<Rightarrow> u8 \<Rightarrow> Writer" where
  "Writer_u8 w value = w @ [value]"

definition Writer_u16 :: "Writer \<Rightarrow> u16 \<Rightarrow> Writer" where
  "Writer_u16 w value = w @ to_be_bytes value"

definition Writer_u32 :: "Writer \<Rightarrow> u32 \<Rightarrow> Writer" where
  "Writer_u32 w value = w @ to_be_bytes value"

definition Writer_u64 :: "Writer \<Rightarrow> u64 \<Rightarrow> Writer" where
  "Writer_u64 w value = w @ to_be_bytes value"

definition Writer_count :: "Writer \<Rightarrow> nat \<Rightarrow> nat \<Rightarrow> (LinkControlError, Writer) result" where
  "Writer_count w value maximum =
     (if value > maximum \<or> value > 255 then Inl ce_limit_exceeded
      else Inr (Writer_u8 w (of_nat value)))"

definition Writer_version :: "Writer \<Rightarrow> ProtocolVersion \<Rightarrow> Writer" where
  "Writer_version w version = Writer_u16 (Writer_u16 w (major version)) (minor version)"

definition Writer_version_range :: "Writer \<Rightarrow> VersionRange \<Rightarrow> Writer" where
  "Writer_version_range w versions =
     Writer_version (Writer_version w (vr_minimum versions)) (vr_maximum versions)"

definition Writer_protocol_id :: "Writer \<Rightarrow> ProtocolStableId \<Rightarrow> Writer" where
  "Writer_protocol_id w ident = Writer_bytes w (to_be_bytes (stable_id_bytes ident))"

definition Writer_schema :: "Writer \<Rightarrow> SchemaRef \<Rightarrow> Writer" where
  "Writer_schema w schema =
     (let w = Writer_bytes w (to_be_bytes (schema_id_bytes (schema_id schema)));
          w = Writer_u32 w (schema_revision_val (schema_revision schema))
      in Writer_bytes w (to_be_bytes (fingerprint_bytes (schema_fingerprint schema))))"

definition Writer_capabilities ::
  "Writer \<Rightarrow> ProtocolCapabilitySet \<Rightarrow> (LinkControlError, Writer) result" where
  "Writer_capabilities w capabilities =
     (let w = Writer_protocol_id w (caps_protocol_id capabilities) in
      result_bind (Writer_count w (length (caps_words capabilities)) MAX_PROTOCOL_CAPABILITY_WORDS) (\<lambda>w.
      Inr (foldl Writer_u64 w (caps_words capabilities))))"

definition Writer_string :: "Writer \<Rightarrow> bytes \<Rightarrow> (LinkControlError, Writer) result" where
  "Writer_string w value =
     (if value = [] \<or> length value > MAX_CONTROL_DEBUG_COMPONENT_BYTES then Inl ce_limit_exceeded
      else if length value > 65535 then Inl ce_limit_exceeded
      else Inr (Writer_bytes (Writer_u16 w (of_nat (length value))) value))"

definition Writer_debug_identity ::
  "Writer \<Rightarrow> ProtocolDebugIdentity option \<Rightarrow> (LinkControlError, Writer) result" where
  "Writer_debug_identity w identity =
     (case identity of
        Some identity \<Rightarrow>
          if \<not> ProtocolDebugIdentity_is_canonical identity then Inl ce_invalid_payload
          else
            result_bind (Writer_string (Writer_u8 w 1) (dbg_authority identity)) (\<lambda>w.
            Writer_string w (dbg_name identity))
      | None \<Rightarrow> Inr (Writer_u8 w 0))"

subsection \<open>The contract between an encoder and its decoder\<close>

definition reader_at :: "bytes \<Rightarrow> bytes \<Rightarrow> Reader" where
  "reader_at pre post = \<lparr>rd_bytes = pre @ post, rd_position = length pre\<rparr>"

definition small :: "bytes \<Rightarrow> bool" where
  "small bs = (length bs \<le> usize_max)"

lemma Reader_new_at: "Reader_new bs = reader_at [] bs"
  by (simp add: Reader_new_def reader_at_def)

lemma Reader_remaining_at [simp]: "Reader_remaining (reader_at pre post) = length post"
  by (simp add: Reader_remaining_def reader_at_def)

lemma reader_at_inject_pre [simp]: "reader_at pre post = reader_at pre post' \<longleftrightarrow> post = post'"
  by (simp add: reader_at_def)

locale wire_codec =
  fixes valid :: "'a \<Rightarrow> bool"
    and enc :: "'a \<Rightarrow> bytes"
    and dec :: "Reader \<Rightarrow> 'a reading"
  assumes dec_enc:
      "valid x \<Longrightarrow> small (pre @ enc x @ post) \<Longrightarrow>
       dec (reader_at pre (enc x @ post)) = Inr (x, reader_at (pre @ enc x) post)"
    and dec_sound:
      "dec (reader_at pre bs) = Inr (x, r) \<Longrightarrow>
       valid x \<and> (\<exists>post. bs = enc x @ post \<and> r = reader_at (pre @ enc x) post)"
begin

lemma prefix_free:
  assumes "valid x" and "valid y" and "enc x @ xs = enc y @ ys" and "small (enc x @ xs)"
  shows "x = y \<and> xs = ys"
proof -
  have "dec (reader_at [] (enc x @ xs)) = Inr (x, reader_at (enc x) xs)"
    using dec_enc [of x "[]" xs] assms by simp
  moreover have "dec (reader_at [] (enc y @ ys)) = Inr (y, reader_at (enc y) ys)"
    using dec_enc [of y "[]" ys] assms by simp
  ultimately have "x = y" using assms(3) by simp
  then show ?thesis using assms(3) by simp
qed

lemma truncation_refused:
  assumes "valid x" and "small (enc x)" and "n < length (enc x)"
  shows "\<not> is_ok (dec (reader_at [] (take n (enc x))))"
proof
  assume "is_ok (dec (reader_at [] (take n (enc x))))"
  then obtain y r where "dec (reader_at [] (take n (enc x))) = Inr (y, r)"
    by (auto simp: is_ok_iff)
  from dec_sound [OF this] obtain post where y: "valid y" and eq: "take n (enc x) = enc y @ post"
    by auto
  from eq have "enc x @ [] = enc y @ (post @ drop n (enc x))"
    by (metis append_assoc append_take_drop_id append_Nil2)
  with prefix_free [OF assms(1) y this] assms(2) have "drop n (enc x) = []" by simp
  with assms(3) show False by simp
qed

lemma dec_enc_n:
  assumes "list_all valid xs" and "small (pre @ concat (map enc xs) @ post)"
  shows "read_n dec (length xs) (reader_at pre (concat (map enc xs) @ post)) =
         Inr (xs, reader_at (pre @ concat (map enc xs)) post)"
  using assms by (induction xs arbitrary: pre) (simp_all add: dec_enc)

lemma dec_sound_n:
  "read_n dec n (reader_at pre bs) = Inr (xs, r) \<Longrightarrow>
   length xs = n \<and> list_all valid xs
   \<and> (\<exists>post. bs = concat (map enc xs) @ post \<and> r = reader_at (pre @ concat (map enc xs)) post)"
proof (induction n arbitrary: pre bs xs)
  case (Suc n)
  from Suc.prems obtain x r1 ys where
    x: "dec (reader_at pre bs) = Inr (x, r1)" and ys: "read_n dec n r1 = Inr (ys, r)" and xs: "xs = x # ys"
    by (auto elim!: result_bind_InrE)
  from dec_sound [OF x] obtain post where
    "valid x" "bs = enc x @ post" and r1: "r1 = reader_at (pre @ enc x) post" by auto
  with Suc.IH [OF ys [unfolded r1]] xs show ?case by auto
qed simp

end

subsection \<open>The fields of the control plane as codecs\<close>

lemma Reader_take_at [codec_simps]:
  "small (pre @ xs @ post) \<Longrightarrow> n = length xs \<Longrightarrow>
   Reader_take n (reader_at pre (xs @ post)) = Inr (xs, reader_at (pre @ xs) post)"
  by (simp add: Reader_take_def reader_at_def small_def usize_checked_add_def)

lemma Reader_take_sound:
  assumes "Reader_take n (reader_at pre bs) = Inr (xs, r)"
  shows "length xs = n \<and> (\<exists>post. bs = xs @ post \<and> r = reader_at (pre @ xs) post)"
proof -
  from assms have "n \<le> length bs" "xs = take n bs" "r = reader_at (pre @ take n bs) (drop n bs)"
    by (auto simp: Reader_take_def reader_at_def usize_checked_add_def result_bind_eq_Inr split: if_splits)
  then show ?thesis by (auto intro: exI [of _ "drop n bs"])
qed

lemma wire_codec_word:
  "8 dvd LENGTH('a::len) \<Longrightarrow> wire_codec (\<lambda>_. True) (to_be_bytes :: 'a word \<Rightarrow> bytes) Reader_word"
proof
  fix x :: "'a word" and pre post
  assume "8 dvd LENGTH('a)" and "small (pre @ to_be_bytes x @ post)"
  then show "Reader_word (reader_at pre (to_be_bytes x @ post)) = Inr (x, reader_at (pre @ to_be_bytes x) post)"
    by (simp add: Reader_word_def Reader_take_array_def codec_simps)
next
  fix x :: "'a word" and pre bs r
  assume d: "8 dvd LENGTH('a)" and "Reader_word (reader_at pre bs) = Inr (x, r)"
  then show "True \<and> (\<exists>post. bs = to_be_bytes x @ post \<and> r = reader_at (pre @ to_be_bytes x) post)"
    unfolding Reader_word_def Reader_take_array_def
    by (auto elim!: result_bind_InrE dest!: Reader_take_sound simp: to_from_be_bytes split: if_splits)
qed

interpretation u8c: wire_codec "\<lambda>_. True" "\<lambda>b. [b]" Reader_u8
proof
  fix x pre post assume "small (pre @ [x] @ post)"
  from Reader_take_at [OF this]
  show "Reader_u8 (reader_at pre ([x] @ post)) = Inr (x, reader_at (pre @ [x]) post)"
    by (simp add: Reader_u8_def)
next
  fix x pre bs r assume "Reader_u8 (reader_at pre bs) = Inr (x, r)"
  then show "True \<and> (\<exists>post. bs = [x] @ post \<and> r = reader_at (pre @ [x]) post)"
    by (auto simp: Reader_u8_def length_Suc_conv elim!: result_bind_InrE dest!: Reader_take_sound)
qed

interpretation u16c: wire_codec "\<lambda>_. True" "to_be_bytes :: u16 \<Rightarrow> bytes" Reader_u16
  using wire_codec_word [where 'a = 16] by (simp add: Reader_u16_def [abs_def])

interpretation u32c: wire_codec "\<lambda>_. True" "to_be_bytes :: u32 \<Rightarrow> bytes" Reader_u32
  using wire_codec_word [where 'a = 32] by (simp add: Reader_u32_def [abs_def])

interpretation u64c: wire_codec "\<lambda>_. True" "to_be_bytes :: u64 \<Rightarrow> bytes" Reader_u64
  using wire_codec_word [where 'a = 64] by (simp add: Reader_u64_def [abs_def])

interpretation b16c: wire_codec "\<lambda>_. True" "to_be_bytes :: u128 \<Rightarrow> bytes" Reader_word
  using wire_codec_word [where 'a = 128] by simp

interpretation b32c: wire_codec "\<lambda>_. True" "to_be_bytes :: 256 word \<Rightarrow> bytes" Reader_word
  using wire_codec_word [where 'a = 256] by simp

lemmas base_dec_enc [codec_simps] =
  u8c.dec_enc [simplified] u16c.dec_enc u32c.dec_enc u64c.dec_enc b16c.dec_enc b32c.dec_enc

lemmas base_dec_sound [codec_dests] =
  u8c.dec_sound u16c.dec_sound u32c.dec_sound u64c.dec_sound b16c.dec_sound b32c.dec_sound
  Reader_take_sound

definition version_bytes :: "ProtocolVersion \<Rightarrow> bytes" where
  "version_bytes v = to_be_bytes (major v) @ to_be_bytes (minor v)"

definition version_range_bytes :: "VersionRange \<Rightarrow> bytes" where
  "version_range_bytes r = version_bytes (vr_minimum r) @ version_bytes (vr_maximum r)"

definition schema_bytes :: "SchemaRef \<Rightarrow> bytes" where
  "schema_bytes s =
     to_be_bytes (schema_id_bytes (schema_id s))
     @ to_be_bytes (schema_revision_val (schema_revision s))
     @ to_be_bytes (fingerprint_bytes (schema_fingerprint s))"

definition capabilities_bytes :: "ProtocolCapabilitySet \<Rightarrow> bytes" where
  "capabilities_bytes c =
     to_be_bytes (stable_id_bytes (caps_protocol_id c))
     @ [of_nat (length (caps_words c))] @ concat (map to_be_bytes (caps_words c))"

definition string_bytes :: "bytes \<Rightarrow> bytes" where
  "string_bytes s = to_be_bytes (of_nat (length s) :: u16) @ s"

definition debug_identity_bytes :: "ProtocolDebugIdentity option \<Rightarrow> bytes" where
  "debug_identity_bytes d =
     (case d of None \<Rightarrow> [0]
      | Some i \<Rightarrow> [1] @ string_bytes (dbg_authority i) @ string_bytes (dbg_name i))"

definition schema_ok :: "SchemaRef \<Rightarrow> bool" where
  "schema_ok s = (schema_revision_val (schema_revision s) \<noteq> 0)"

definition string_ok :: "bytes \<Rightarrow> bool" where
  "string_ok s = (s \<noteq> [] \<and> length s \<le> MAX_CONTROL_DEBUG_COMPONENT_BYTES \<and> utf8_valid s)"

definition debug_identity_ok :: "ProtocolDebugIdentity option \<Rightarrow> bool" where
  "debug_identity_ok d =
     (case d of None \<Rightarrow> True | Some i \<Rightarrow> string_ok (dbg_authority i) \<and> string_ok (dbg_name i))"

interpretation versionc: wire_codec "\<lambda>_. True" version_bytes Reader_version
proof
  fix x pre post assume "small (pre @ version_bytes x @ post)"
  then show "Reader_version (reader_at pre (version_bytes x @ post)) =
      Inr (x, reader_at (pre @ version_bytes x) post)"
    by (simp add: version_bytes_def Reader_version_def codec_simps)
next
  fix x pre bs r assume "Reader_version (reader_at pre bs) = Inr (x, r)"
  then show "True \<and> (\<exists>post. bs = version_bytes x @ post \<and> r = reader_at (pre @ version_bytes x) post)"
    by (auto simp: Reader_version_def version_bytes_def elim!: result_bind_InrE dest!: codec_dests)
qed

lemmas version_codec [codec_simps] = versionc.dec_enc
lemmas version_sound [codec_dests] = versionc.dec_sound

interpretation version_rangec: wire_codec VersionRange_is_valid version_range_bytes Reader_version_range
proof
  fix x pre post
  assume "VersionRange_is_valid x" and "small (pre @ version_range_bytes x @ post)"
  then show "Reader_version_range (reader_at pre (version_range_bytes x @ post)) =
      Inr (x, reader_at (pre @ version_range_bytes x) post)"
    by (simp add: version_range_bytes_def Reader_version_range_def VersionRange_new_def
        VersionRange_is_valid_def Let_def codec_simps)
next
  fix x pre bs r assume "Reader_version_range (reader_at pre bs) = Inr (x, r)"
  then show "VersionRange_is_valid x
      \<and> (\<exists>post. bs = version_range_bytes x @ post \<and> r = reader_at (pre @ version_range_bytes x) post)"
    by (auto simp: Reader_version_range_def version_range_bytes_def VersionRange_new_def Let_def
        elim!: result_bind_InrE dest!: codec_dests split: if_splits)
qed

interpretation protocol_idc:
  wire_codec "\<lambda>_. True" "\<lambda>i. to_be_bytes (stable_id_bytes i)" Reader_protocol_id
proof
  fix x pre post assume "small (pre @ to_be_bytes (stable_id_bytes x) @ post)"
  then show "Reader_protocol_id (reader_at pre (to_be_bytes (stable_id_bytes x) @ post)) =
      Inr (x, reader_at (pre @ to_be_bytes (stable_id_bytes x)) post)"
    by (simp add: Reader_protocol_id_def codec_simps)
next
  fix x pre bs r assume "Reader_protocol_id (reader_at pre bs) = Inr (x, r)"
  then show "True \<and> (\<exists>post. bs = to_be_bytes (stable_id_bytes x) @ post
      \<and> r = reader_at (pre @ to_be_bytes (stable_id_bytes x)) post)"
    by (auto simp: Reader_protocol_id_def elim!: result_bind_InrE dest!: codec_dests)
qed

interpretation schemac: wire_codec schema_ok schema_bytes Reader_schema
proof
  fix x pre post assume "schema_ok x" and "small (pre @ schema_bytes x @ post)"
  then show "Reader_schema (reader_at pre (schema_bytes x @ post)) =
      Inr (x, reader_at (pre @ schema_bytes x) post)"
    by (simp add: schema_bytes_def schema_ok_def Reader_schema_def codec_simps)
next
  fix x pre bs r assume "Reader_schema (reader_at pre bs) = Inr (x, r)"
  then show "schema_ok x \<and> (\<exists>post. bs = schema_bytes x @ post \<and> r = reader_at (pre @ schema_bytes x) post)"
    by (auto simp: Reader_schema_def schema_bytes_def schema_ok_def
        elim!: result_bind_InrE dest!: codec_dests split: if_splits)
qed

lemmas structured_dec_enc [codec_simps] =
  version_rangec.dec_enc protocol_idc.dec_enc schemac.dec_enc
lemmas structured_dec_sound [codec_dests] =
  version_rangec.dec_sound protocol_idc.dec_sound schemac.dec_sound

lemma of_nat_u8: "n \<le> 255 \<Longrightarrow> unat (of_nat n :: u8) = n"
  by (simp add: unat_of_nat)

interpretation capabilitiesc:
  wire_codec ProtocolCapabilitySet_is_bounded capabilities_bytes Reader_capabilities
proof
  fix x pre post
  assume b: "ProtocolCapabilitySet_is_bounded x" and s: "small (pre @ capabilities_bytes x @ post)"
  let ?id = "to_be_bytes (stable_id_bytes (caps_protocol_id x))"
  let ?n = "of_nat (length (caps_words x)) :: u8"
  have n: "unat ?n = length (caps_words x)" "length (caps_words x) \<le> 8"
    using b by (simp_all add: ProtocolCapabilitySet_is_bounded_def MAX_PROTOCOL_CAPABILITY_WORDS_def
        of_nat_u8)
  have words: "read_n Reader_u64 (length (caps_words x))
        (reader_at (pre @ ?id @ [?n]) (concat (map to_be_bytes (caps_words x)) @ post)) =
      Inr (caps_words x, reader_at ((pre @ ?id @ [?n]) @ concat (map to_be_bytes (caps_words x))) post)"
    using s by (intro u64c.dec_enc_n) (auto simp: capabilities_bytes_def list_all_iff)
  show "Reader_capabilities (reader_at pre (capabilities_bytes x @ post)) =
      Inr (x, reader_at (pre @ capabilities_bytes x) post)"
    using s n words
    by (simp add: capabilities_bytes_def Reader_capabilities_def Reader_bounded_count_def
        MAX_PROTOCOL_CAPABILITY_WORDS_def codec_simps)
next
  fix x pre bs r assume "Reader_capabilities (reader_at pre bs) = Inr (x, r)"
  then show "ProtocolCapabilitySet_is_bounded x
      \<and> (\<exists>post. bs = capabilities_bytes x @ post \<and> r = reader_at (pre @ capabilities_bytes x) post)"
    by (auto simp: Reader_capabilities_def capabilities_bytes_def Reader_bounded_count_def
        ProtocolCapabilitySet_is_bounded_def
        elim!: result_bind_InrE dest!: codec_dests u64c.dec_sound_n split: if_splits)
qed

interpretation stringc: wire_codec string_ok string_bytes Reader_string
proof
  fix x pre post assume ok: "string_ok x" and s: "small (pre @ string_bytes x @ post)"
  then have "unat (of_nat (length x) :: u16) = length x"
    by (simp add: string_ok_def MAX_CONTROL_DEBUG_COMPONENT_BYTES_def unat_of_nat)
  with ok s show "Reader_string (reader_at pre (string_bytes x @ post)) =
      Inr (x, reader_at (pre @ string_bytes x) post)"
    by (simp add: string_bytes_def string_ok_def Reader_string_def codec_simps)
next
  fix x pre bs r assume "Reader_string (reader_at pre bs) = Inr (x, r)"
  then show "string_ok x \<and> (\<exists>post. bs = string_bytes x @ post \<and> r = reader_at (pre @ string_bytes x) post)"
    by (auto simp: Reader_string_def string_bytes_def string_ok_def
        elim!: result_bind_InrE dest!: codec_dests split: if_splits)
qed

lemmas string_dec_enc [codec_simps] = stringc.dec_enc
lemmas string_dec_sound [codec_dests] = stringc.dec_sound

interpretation debugc: wire_codec debug_identity_ok debug_identity_bytes Reader_debug_identity
proof
  fix x pre post assume "debug_identity_ok x" and "small (pre @ debug_identity_bytes x @ post)"
  then show "Reader_debug_identity (reader_at pre (debug_identity_bytes x @ post)) =
      Inr (x, reader_at (pre @ debug_identity_bytes x) post)"
    by (cases x) (simp_all add: debug_identity_bytes_def debug_identity_ok_def
        Reader_debug_identity_def ProtocolDebugIdentity_new_def codec_simps)
next
  fix x pre bs r assume "Reader_debug_identity (reader_at pre bs) = Inr (x, r)"
  then show "debug_identity_ok x \<and> (\<exists>post. bs = debug_identity_bytes x @ post
      \<and> r = reader_at (pre @ debug_identity_bytes x) post)"
    by (auto simp: Reader_debug_identity_def debug_identity_bytes_def debug_identity_ok_def
        ProtocolDebugIdentity_new_def elim!: result_bind_InrE dest!: codec_dests split: if_splits)
qed

lemmas compound_dec_enc [codec_simps] = capabilitiesc.dec_enc debugc.dec_enc
lemmas compound_dec_sound [codec_dests] = capabilitiesc.dec_sound debugc.dec_sound

subsection \<open>What the writer appends\<close>

lemma Writer_fixed [simp]:
  "Writer_bytes w bs = w @ bs"
  "Writer_u8 w a = w @ [a]"
  "Writer_u16 w b = w @ to_be_bytes b"
  "Writer_u32 w c = w @ to_be_bytes c"
  "Writer_u64 w d = w @ to_be_bytes d"
  "Writer_version w v = w @ version_bytes v"
  "Writer_version_range w vs = w @ version_range_bytes vs"
  "Writer_protocol_id w i = w @ to_be_bytes (stable_id_bytes i)"
  "Writer_schema w s = w @ schema_bytes s"
  by (simp_all add: Writer_bytes_def Writer_u8_def Writer_u16_def Writer_u32_def Writer_u64_def
      Writer_version_def Writer_version_range_def Writer_protocol_id_def Writer_schema_def
      version_bytes_def version_range_bytes_def schema_bytes_def)

lemma foldl_Writer_u64: "foldl Writer_u64 w ds = w @ concat (map to_be_bytes ds)"
  by (induction ds arbitrary: w) simp_all

lemma Writer_count_eq:
  "maximum \<le> 255 \<Longrightarrow>
   Writer_count w n maximum = (if n \<le> maximum then Inr (w @ [of_nat n]) else Inl ce_limit_exceeded)"
  by (simp add: Writer_count_def)

lemma Writer_capabilities_eq:
  "Writer_capabilities w c =
     (if ProtocolCapabilitySet_is_bounded c then Inr (w @ capabilities_bytes c) else Inl ce_limit_exceeded)"
  by (simp add: Writer_capabilities_def Writer_count_eq MAX_PROTOCOL_CAPABILITY_WORDS_def
      ProtocolCapabilitySet_is_bounded_def capabilities_bytes_def foldl_Writer_u64 Let_def)

definition text_fits :: "bytes \<Rightarrow> bool" where
  "text_fits s = (s \<noteq> [] \<and> length s \<le> MAX_CONTROL_DEBUG_COMPONENT_BYTES)"

lemma Writer_string_eq:
  "Writer_string w s = (if text_fits s then Inr (w @ string_bytes s) else Inl ce_limit_exceeded)"
  by (auto simp: Writer_string_def text_fits_def string_bytes_def MAX_CONTROL_DEBUG_COMPONENT_BYTES_def)

definition debug_identity_fits :: "ProtocolDebugIdentity option \<Rightarrow> bool" where
  "debug_identity_fits d =
     (case d of None \<Rightarrow> True
      | Some i \<Rightarrow> ProtocolDebugIdentity_is_canonical i \<and> text_fits (dbg_authority i) \<and> text_fits (dbg_name i))"

lemma Writer_debug_identity_eq_Inr:
  "Writer_debug_identity w d = Inr w' \<longleftrightarrow> debug_identity_fits d \<and> w' = w @ debug_identity_bytes d"
  by (cases d) (auto simp: Writer_debug_identity_def debug_identity_fits_def debug_identity_bytes_def
      Writer_string_eq split: if_splits)

text \<open>A canonical identity is plain ASCII, so the reader's UTF-8 check accepts every
  identity the writer lets through.\<close>

lemma utf8_valid_ascii: "list_all (\<lambda>b. b < 0x80) bs \<Longrightarrow> utf8_valid bs"
  by (induction bs) simp_all

lemma set_split_on: "set bs \<subseteq> insert d (\<Union> (set ` set (split_on d bs)))"
  by (induction bs) (auto split: list.splits, blast)

lemma canonical_byte_ascii: "canonical_byte b \<Longrightarrow> b < 0x80"
  by (auto simp: canonical_byte_def word_le_nat_alt word_less_nat_alt)

lemma canonical_ascii:
  assumes "ProtocolDebugIdentity_is_canonical i"
  shows "list_all (\<lambda>b. b < 0x80) (dbg_authority i)" and "list_all (\<lambda>b. b < 0x80) (dbg_name i)"
proof -
  have "b < 0x80" if b: "b \<in> set (dbg_authority i)" for b
  proof -
    from b set_split_on have "b = 46 \<or> (\<exists>p \<in> set (split_on 46 (dbg_authority i)). b \<in> set p)" by fastforce
    with assms show ?thesis
      by (auto simp: ProtocolDebugIdentity_is_canonical_def canonical_identity_component_def list_all_iff
          canonical_byte_ascii)
  qed
  then show "list_all (\<lambda>b. b < 0x80) (dbg_authority i)" by (simp add: list_all_iff)
  from assms show "list_all (\<lambda>b. b < 0x80) (dbg_name i)"
    by (auto simp: ProtocolDebugIdentity_is_canonical_def canonical_identity_component_def list_all_iff
        canonical_byte_ascii)
qed

lemma debug_identity_fits_ok: "debug_identity_fits d \<Longrightarrow> debug_identity_ok d"
  by (cases d) (simp_all add: debug_identity_fits_def debug_identity_ok_def string_ok_def text_fits_def
      utf8_valid_ascii canonical_ascii)

lemma debug_identity_ok_fits:
  "debug_identity_ok d \<Longrightarrow> (\<And>i. d = Some i \<Longrightarrow> ProtocolDebugIdentity_is_canonical i) \<Longrightarrow> debug_identity_fits d"
  by (cases d) (simp_all add: debug_identity_fits_def debug_identity_ok_def string_ok_def text_fits_def)

end
