(* ===== verification/Link_Control_Codec.thy ===== *)
theory Link_Control_Codec
  imports Link_Wire
begin

text \<open>
  The typed control frame of \<^verbatim>\<open>control.rs\<close>: \<^verbatim>\<open>encode_payload\<close>,
  \<^verbatim>\<open>decode_payload\<close>, \<^verbatim>\<open>encode_control_envelope\<close> and
  \<^verbatim>\<open>decode_control_envelope\<close>. The writer's output is characterised by a
  specification (\<open>payload_ok\<close>, \<open>payload_bytes\<close>, \<open>envelope_ok\<close>,
  \<open>envelope_bytes\<close>), every payload decoder is an interpretation of \<open>wire_codec\<close>, and
  the locale \<open>frame_codec\<close> states what a whole-frame codec promises; both the control
  frame here and the compact data frame interpret it.
\<close>

subsection \<open>The frame constants\<close>

definition MAX_CONTROL_PAYLOAD_BYTES :: nat where
  "MAX_CONTROL_PAYLOAD_BYTES = 64 * 1024"

definition MAX_CONTROL_PROTOCOLS :: nat where
  "MAX_CONTROL_PROTOCOLS = 32"

definition CONTROL_MAGIC :: bytes where
  "CONTROL_MAGIC = str ''MLCT''"

definition CONTROL_HEADER_BYTES :: nat where
  "CONTROL_HEADER_BYTES = 39"

definition CONTROL_PAYLOAD_LENGTH_OFFSET :: nat where
  "CONTROL_PAYLOAD_LENGTH_OFFSET = CONTROL_HEADER_BYTES - 4"

fun error_domain_to_wire :: "ErrorDomain \<Rightarrow> u8" where
  "error_domain_to_wire Dom_Control = 0"
| "error_domain_to_wire Dom_Protocol = 1"
| "error_domain_to_wire Dom_Channel = 2"
| "error_domain_to_wire Dom_Security = 3"
| "error_domain_to_wire Dom_Resource = 4"

definition error_domain_from_wire :: "u8 \<Rightarrow> (LinkControlError, ErrorDomain) result" where
  "error_domain_from_wire value =
     (if value = 0 then Inr Dom_Control
      else if value = 1 then Inr Dom_Protocol
      else if value = 2 then Inr Dom_Channel
      else if value = 3 then Inr Dom_Security
      else if value = 4 then Inr Dom_Resource
      else Inl ce_invalid_payload)"

fun retryability_to_wire :: "Retryability \<Rightarrow> u8" where
  "retryability_to_wire Retry_Never = 0"
| "retryability_to_wire RetryAfterBackoff = 1"
| "retryability_to_wire Retry_Reconnect = 2"

definition retryability_from_wire :: "u8 \<Rightarrow> (LinkControlError, Retryability) result" where
  "retryability_from_wire value =
     (if value = 0 then Inr Retry_Never
      else if value = 1 then Inr RetryAfterBackoff
      else if value = 2 then Inr Retry_Reconnect
      else Inl ce_invalid_payload)"

subsection \<open>Encoding a payload\<close>

fun auth_path_to_wire :: "AuthPath \<Rightarrow> u8" where
  "auth_path_to_wire FirstPairing = 0"
| "auth_path_to_wire TrustedReconnect = 1"

definition debug_identity_mismatch :: "sha256 \<Rightarrow> ProtocolStableId \<Rightarrow> ProtocolDebugIdentity option \<Rightarrow> bool" where
  "debug_identity_mismatch sha stable_id debug_identity =
     (case debug_identity of
        None \<Rightarrow> False
      | Some identity \<Rightarrow> \<not> ProtocolDebugIdentity_is_canonical identity
          \<or> ProtocolDebugIdentity_stable_id sha identity \<noteq> stable_id)"

fun write_offers ::
  "sha256 \<Rightarrow> ProtocolStableId btset \<Rightarrow> Writer \<Rightarrow> ProtocolOffer list \<Rightarrow> (LinkControlError, Writer) result" where
  "write_offers sha stable_ids w [] = Inr w"
| "write_offers sha stable_ids w (offer # offers) =
     (if bt_contains stable_ids (offer_stable_id offer)
         \<or> \<not> VersionRange_is_valid (offer_versions offer)
         \<or> schema_revision_val (schema_revision (offer_schema offer)) = 0
         \<or> caps_protocol_id (offer_capabilities offer) \<noteq> offer_stable_id offer
         \<or> debug_identity_mismatch sha (offer_stable_id offer) (offer_debug_identity offer)
      then Inl ce_invalid_payload
      else
        let w = Writer_protocol_id w (offer_stable_id offer) in
        result_bind (Writer_debug_identity w (offer_debug_identity offer)) (\<lambda>w.
        let w = Writer_version_range w (offer_versions offer);
            w = Writer_schema w (offer_schema offer) in
        result_bind (Writer_capabilities w (offer_capabilities offer)) (\<lambda>w.
        write_offers sha (bs_insert (offer_stable_id offer) stable_ids) w offers)))"

fun write_selections ::
  "ProtocolStableId btset \<Rightarrow> Writer \<Rightarrow> ProtocolSelection list \<Rightarrow> (LinkControlError, Writer) result" where
  "write_selections stable_ids w [] = Inr w"
| "write_selections stable_ids w (selection # selections) =
     (if bt_contains stable_ids (sel_stable_id selection)
         \<or> schema_revision_val (schema_revision (sel_schema selection)) = 0
         \<or> caps_protocol_id (sel_capabilities selection) \<noteq> sel_stable_id selection
      then Inl ce_invalid_payload
      else
        let w = Writer_protocol_id w (sel_stable_id selection);
            w = Writer_version w (sel_version selection);
            w = Writer_schema w (sel_schema selection) in
        result_bind (Writer_capabilities w (sel_capabilities selection)) (\<lambda>w.
        write_selections (bs_insert (sel_stable_id selection) stable_ids) w selections))"

fun encode_payload :: "sha256 \<Rightarrow> Writer \<Rightarrow> ControlPayload \<Rightarrow> (LinkControlError, Writer) result" where
  "encode_payload sha w (Pl_Hello hello) =
     (if \<not> VersionRange_is_valid (hello_link_versions hello) then Inl ce_invalid_payload
      else
        let w = Writer_bytes w (to_be_bytes (peer_id_bytes (ident_peer_id (hello_identity hello))));
            w = Writer_bytes w (to_be_bytes (endpoint_id_bytes (ident_endpoint_id (hello_identity hello))));
            w = Writer_bytes w (to_be_bytes (connection_id_bytes (ident_connection_id (hello_identity hello))));
            w = Writer_version_range w (hello_link_versions hello);
            w = Writer_u64 w (capability_bits (hello_link_capabilities hello))
        in Inr (Writer_u8 w (auth_path_to_wire (hello_requested_auth hello))))"
| "encode_payload sha w (Pl_OfferProtocols offers) =
     result_bind (Writer_count w (length offers) MAX_CONTROL_PROTOCOLS) (\<lambda>w.
     write_offers sha bt_empty w offers)"
| "encode_payload sha w (Pl_SelectProtocols selections) =
     result_bind (Writer_count w (length selections) MAX_CONTROL_PROTOCOLS) (\<lambda>w.
     write_selections bt_empty w selections)"
| "encode_payload sha w (Pl_OpenChannel opn) =
     (if protocol_channel_id_val (open_protocol_channel_id opn) = 0
         \<or> channel_id_val (open_requested_session_channel_id opn) = 0
         \<or> open_capacity opn = 0
      then Inl ce_invalid_payload
      else
        let w = Writer_protocol_id w (open_protocol_id opn);
            w = Writer_u16 w (protocol_channel_id_val (open_protocol_channel_id opn));
            w = Writer_u32 w (channel_id_val (open_requested_session_channel_id opn))
        in Inr (Writer_u32 w (open_capacity opn)))"
| "encode_payload sha w (Pl_AcceptChannel accepted) =
     (if protocol_channel_id_val (accept_protocol_channel_id accepted) = 0
         \<or> channel_id_val (accept_session_channel_id accepted) = 0
      then Inl ce_invalid_payload
      else
        let w = Writer_protocol_id w (accept_protocol_id accepted);
            w = Writer_u16 w (protocol_channel_id_val (accept_protocol_channel_id accepted))
        in Inr (Writer_u32 w (channel_id_val (accept_session_channel_id accepted))))"
| "encode_payload sha w (Pl_CloseChannel channel) =
     (if channel_id_val channel = 0 then Inl ce_invalid_payload
      else Inr (Writer_u32 w (channel_id_val channel)))"
| "encode_payload sha w (Pl_Ping nonce) = Inr (Writer_u64 w nonce)"
| "encode_payload sha w (Pl_Pong nonce) = Inr (Writer_u64 w nonce)"
| "encode_payload sha w (Pl_BeginDrain deadline) = Inr (Writer_u32 w deadline)"
| "encode_payload sha w (Pl_CloseSession reason) = Inr (Writer_u16 w reason)"
| "encode_payload sha w (Pl_Error err) =
     (let w = Writer_u8 w (error_domain_to_wire (ce_domain err));
          w = Writer_u16 w (error_code_val (ce_code err));
          w = Writer_u16 w (case ce_operation err of None \<Rightarrow> - 1 | Some op \<Rightarrow> opcode_as_u16 op)
      in Inr (Writer_u8 w (retryability_to_wire (ce_retryability err))))"

subsection \<open>Decoding a payload\<close>

fun read_offers ::
  "sha256 \<Rightarrow> nat \<Rightarrow> ProtocolStableId btset \<Rightarrow> Reader \<Rightarrow> ProtocolOffer list reading" where
  "read_offers sha 0 stable_ids r = Inr ([], r)"
| "read_offers sha (Suc n) stable_ids r =
     result_bind (Reader_protocol_id r) (\<lambda>(stable_id, r).
     result_bind (Reader_debug_identity r) (\<lambda>(debug_identity, r).
     result_bind (Reader_version_range r) (\<lambda>(versions, r).
     result_bind (Reader_schema r) (\<lambda>(schema, r).
     result_bind (Reader_capabilities r) (\<lambda>(capabilities, r).
     if bt_contains stable_ids stable_id
        \<or> caps_protocol_id capabilities \<noteq> stable_id
        \<or> debug_identity_mismatch sha stable_id debug_identity
     then Inl ce_invalid_payload
     else
       result_bind (read_offers sha n (bs_insert stable_id stable_ids) r) (\<lambda>(offers, r).
       Inr (\<lparr>offer_stable_id = stable_id, offer_debug_identity = debug_identity,
             offer_versions = versions, offer_schema = schema,
             offer_capabilities = capabilities\<rparr> # offers, r)))))))"

fun read_selections ::
  "nat \<Rightarrow> ProtocolStableId btset \<Rightarrow> Reader \<Rightarrow> ProtocolSelection list reading" where
  "read_selections 0 stable_ids r = Inr ([], r)"
| "read_selections (Suc n) stable_ids r =
     result_bind (Reader_protocol_id r) (\<lambda>(stable_id, r).
     result_bind (Reader_version r) (\<lambda>(version, r).
     result_bind (Reader_schema r) (\<lambda>(schema, r).
     result_bind (Reader_capabilities r) (\<lambda>(capabilities, r).
     if bt_contains stable_ids stable_id \<or> caps_protocol_id capabilities \<noteq> stable_id
     then Inl ce_invalid_payload
     else
       result_bind (read_selections n (bs_insert stable_id stable_ids) r) (\<lambda>(selections, r).
       Inr (\<lparr>sel_stable_id = stable_id, sel_version = version, sel_schema = schema,
             sel_capabilities = capabilities\<rparr> # selections, r))))))"

definition REMOTE_ERROR_MESSAGE :: string where
  "REMOTE_ERROR_MESSAGE = ''remote returned a structured control error''"

fun decode_payload :: "sha256 \<Rightarrow> LinkControlOpcode \<Rightarrow> Reader \<Rightarrow> ControlPayload reading" where
  "decode_payload sha Op_Hello r =
     result_bind (Reader_word r) (\<lambda>(peer, r).
     result_bind (Reader_word r) (\<lambda>(endpoint, r).
     result_bind (Reader_word r) (\<lambda>(connection, r).
     result_bind (Reader_version_range r) (\<lambda>(link_versions, r).
     result_bind (Reader_u64 r) (\<lambda>(capabilities, r).
     result_bind (Reader_u8 r) (\<lambda>(auth, r).
     result_bind (if auth = 0 then Inr FirstPairing
                  else if auth = 1 then Inr TrustedReconnect
                  else Inl ce_invalid_payload) (\<lambda>requested_auth.
     Inr (Pl_Hello
       \<lparr>hello_identity =
          \<lparr>ident_peer_id = PeerId peer, ident_endpoint_id = EndpointId endpoint,
           ident_connection_id = ConnectionId connection\<rparr>,
        hello_link_versions = link_versions,
        hello_link_capabilities = LinkCapabilities capabilities,
        hello_requested_auth = requested_auth\<rparr>, r))))))))"
| "decode_payload sha Op_ProtocolOffer r =
     result_bind (Reader_bounded_count MAX_CONTROL_PROTOCOLS r) (\<lambda>(count, r).
     result_bind (read_offers sha count bt_empty r) (\<lambda>(offers, r).
     Inr (Pl_OfferProtocols offers, r)))"
| "decode_payload sha Op_ProtocolSelect r =
     result_bind (Reader_bounded_count MAX_CONTROL_PROTOCOLS r) (\<lambda>(count, r).
     result_bind (read_selections count bt_empty r) (\<lambda>(selections, r).
     Inr (Pl_SelectProtocols selections, r)))"
| "decode_payload sha Op_OpenChannel r =
     result_bind (Reader_protocol_id r) (\<lambda>(protocol_id, r).
     result_bind (Reader_u16 r) (\<lambda>(protocol_channel_id, r).
     result_bind (Reader_u32 r) (\<lambda>(requested, r).
     result_bind (Reader_u32 r) (\<lambda>(capacity, r).
     let opn = \<lparr>open_protocol_id = protocol_id,
                open_protocol_channel_id = ProtocolChannelId protocol_channel_id,
                open_requested_session_channel_id = ChannelId requested,
                open_capacity = capacity\<rparr> in
     if protocol_channel_id_val (open_protocol_channel_id opn) = 0
        \<or> channel_id_val (open_requested_session_channel_id opn) = 0
        \<or> open_capacity opn = 0
     then Inl ce_invalid_payload
     else Inr (Pl_OpenChannel opn, r)))))"
| "decode_payload sha Op_ChannelAccepted r =
     result_bind (Reader_protocol_id r) (\<lambda>(protocol_id, r).
     result_bind (Reader_u16 r) (\<lambda>(protocol_channel_id, r).
     result_bind (Reader_u32 r) (\<lambda>(session_channel_id, r).
     let accepted = \<lparr>accept_protocol_id = protocol_id,
                     accept_protocol_channel_id = ProtocolChannelId protocol_channel_id,
                     accept_session_channel_id = ChannelId session_channel_id\<rparr> in
     if protocol_channel_id_val (accept_protocol_channel_id accepted) = 0
        \<or> channel_id_val (accept_session_channel_id accepted) = 0
     then Inl ce_invalid_payload
     else Inr (Pl_AcceptChannel accepted, r))))"
| "decode_payload sha Op_CloseChannel r =
     result_bind (Reader_u32 r) (\<lambda>(channel, r).
     if channel = 0 then Inl ce_invalid_payload
     else Inr (Pl_CloseChannel (ChannelId channel), r))"
| "decode_payload sha Op_Ping r =
     result_bind (Reader_u64 r) (\<lambda>(nonce, r). Inr (Pl_Ping nonce, r))"
| "decode_payload sha Op_Pong r =
     result_bind (Reader_u64 r) (\<lambda>(nonce, r). Inr (Pl_Pong nonce, r))"
| "decode_payload sha Op_BeginDrain r =
     result_bind (Reader_u32 r) (\<lambda>(deadline, r). Inr (Pl_BeginDrain deadline, r))"
| "decode_payload sha Op_CloseSession r =
     result_bind (Reader_u16 r) (\<lambda>(reason, r). Inr (Pl_CloseSession reason, r))"
| "decode_payload sha Op_Error r =
     result_bind (Reader_u8 r) (\<lambda>(domain_byte, r).
     result_bind (error_domain_from_wire domain_byte) (\<lambda>domain.
     result_bind (Reader_u16 r) (\<lambda>(code, r).
     result_bind (Reader_u16 r) (\<lambda>(value, r).
     result_bind (if value = - 1 then Inr None
                  else result_bind (opcode_try_from value) (\<lambda>op. Inr (Some op))) (\<lambda>operation.
     result_bind (Reader_u8 r) (\<lambda>(retry_byte, r).
     result_bind (retryability_from_wire retry_byte) (\<lambda>retryability.
     Inr (Pl_Error \<lparr>ce_domain = domain, ce_code = ErrorCode code, ce_operation = operation,
                     ce_retryability = retryability, ce_message = REMOTE_ERROR_MESSAGE\<rparr>, r))))))))"

subsection \<open>Envelopes\<close>

definition encode_control_envelope ::
  "sha256 \<Rightarrow> ControlModeGuard \<Rightarrow> ControlEnvelope \<Rightarrow> (LinkControlError, bytes) result" where
  "encode_control_envelope sha guard envelope =
     result_bind (ControlModeGuard_validate_typed guard) (\<lambda>_.
     if env_wire_version envelope \<noteq> TYPED_CONTROL_WIRE_VERSION then Inl ce_unsupported_version
     else if env_opcode envelope \<noteq> ControlPayload_opcode (env_payload envelope) then Inl ce_opcode_mismatch
     else
       let wire = CONTROL_MAGIC @ to_be_bytes (env_wire_version envelope)
             @ to_be_bytes (opcode_as_u16 (env_opcode envelope))
             @ to_be_bytes (control_flags_bits (env_flags envelope))
             @ to_be_bytes (request_id_val (env_request_id envelope))
             @ (case env_session_id envelope of
                  Some session_id \<Rightarrow> [1] @ to_be_bytes (session_id_bytes session_id)
                | None \<Rightarrow> [0] @ replicate 16 0)
             @ to_be_bytes (0 :: u32) in
       result_bind (encode_payload sha wire (env_payload envelope)) (\<lambda>w.
       let payload_len = length w - CONTROL_HEADER_BYTES in
       if payload_len > MAX_CONTROL_PAYLOAD_BYTES then Inl ce_limit_exceeded
       else if payload_len \<ge> 2 ^ 32 then Inl ce_limit_exceeded
       else Inr (take CONTROL_PAYLOAD_LENGTH_OFFSET w @ to_be_bytes (of_nat payload_len :: u32)
                 @ drop CONTROL_HEADER_BYTES w)))"

definition decode_control_envelope ::
  "sha256 \<Rightarrow> ControlModeGuard \<Rightarrow> bytes \<Rightarrow> (LinkControlError, ControlEnvelope) result" where
  "decode_control_envelope sha guard wire =
     result_bind (ControlModeGuard_validate_typed guard) (\<lambda>_.
     if length wire < CONTROL_HEADER_BYTES then Inl ce_truncated
     else
       result_bind (Reader_take_array 4 (Reader_new wire)) (\<lambda>(magic, r).
       if magic \<noteq> CONTROL_MAGIC then Inl ce_invalid_payload
       else
         result_bind (Reader_u16 r) (\<lambda>(wire_version, r).
         if wire_version \<noteq> TYPED_CONTROL_WIRE_VERSION then Inl ce_unsupported_version
         else
           result_bind (Reader_u16 r) (\<lambda>(opcode_bits, r).
           result_bind (opcode_try_from opcode_bits) (\<lambda>opcode.
           result_bind (Reader_u16 r) (\<lambda>(flag_bits, r).
           result_bind (ok_or ce_invalid_payload (ControlFlags_from_bits flag_bits)) (\<lambda>flags.
           result_bind (Reader_u64 r) (\<lambda>(request, r).
           result_bind (Reader_u8 r) (\<lambda>(session_present, r).
           result_bind (Reader_word r) (\<lambda>(session_bytes, r).
           result_bind (if session_present = 0 \<and> session_bytes = (0 :: u128) then Inr None
                        else if session_present = 1 then Inr (Some (SessionId session_bytes))
                        else Inl ce_invalid_payload) (\<lambda>session_id.
           result_bind (Reader_u32 r) (\<lambda>(len_bits, r).
           let payload_len = unat len_bits in
           if payload_len > MAX_CONTROL_PAYLOAD_BYTES then Inl ce_limit_exceeded
           else if Reader_remaining r < payload_len then Inl ce_truncated
           else if Reader_remaining r \<noteq> payload_len then Inl ce_trailing_bytes
           else
             result_bind (Reader_take payload_len r) (\<lambda>(payload_bytes, r).
             result_bind (decode_payload sha opcode (Reader_new payload_bytes)) (\<lambda>(payload, payload_reader).
             if Reader_remaining payload_reader \<noteq> 0 then Inl ce_trailing_bytes
             else Inr \<lparr>env_wire_version = wire_version, env_opcode = opcode,
                       env_request_id = RequestId request, env_session_id = session_id,
                       env_flags = flags, env_payload = payload\<rparr>))))))))))))))"

subsection \<open>What the encoder accepts and writes\<close>

definition offer_bytes :: "ProtocolOffer \<Rightarrow> bytes" where
  "offer_bytes offer =
     to_be_bytes (stable_id_bytes (offer_stable_id offer)) @ debug_identity_bytes (offer_debug_identity offer)
     @ version_range_bytes (offer_versions offer) @ schema_bytes (offer_schema offer)
     @ capabilities_bytes (offer_capabilities offer)"

definition offer_ok :: "sha256 \<Rightarrow> ProtocolOffer \<Rightarrow> bool" where
  "offer_ok sha offer =
     (VersionRange_is_valid (offer_versions offer) \<and> schema_ok (offer_schema offer)
      \<and> caps_protocol_id (offer_capabilities offer) = offer_stable_id offer
      \<and> ProtocolCapabilitySet_is_bounded (offer_capabilities offer)
      \<and> \<not> debug_identity_mismatch sha (offer_stable_id offer) (offer_debug_identity offer)
      \<and> debug_identity_fits (offer_debug_identity offer))"

definition selection_bytes :: "ProtocolSelection \<Rightarrow> bytes" where
  "selection_bytes selection =
     to_be_bytes (stable_id_bytes (sel_stable_id selection)) @ version_bytes (sel_version selection)
     @ schema_bytes (sel_schema selection) @ capabilities_bytes (sel_capabilities selection)"

definition selection_ok :: "ProtocolSelection \<Rightarrow> bool" where
  "selection_ok selection =
     (schema_ok (sel_schema selection)
      \<and> caps_protocol_id (sel_capabilities selection) = sel_stable_id selection
      \<and> ProtocolCapabilitySet_is_bounded (sel_capabilities selection))"

definition fresh_ids :: "ProtocolStableId btset \<Rightarrow> ProtocolStableId list \<Rightarrow> bool" where
  "fresh_ids seen ids = (distinct ids \<and> list_all (\<lambda>i. \<not> bt_contains seen i) ids)"

lemma fresh_ids_simps [simp]:
  "fresh_ids seen []"
  "fresh_ids seen (i # ids) \<longleftrightarrow> \<not> bt_contains seen i \<and> fresh_ids (bs_insert i seen) ids"
  by (auto simp: fresh_ids_def list_all_iff)

fun payload_bytes :: "ControlPayload \<Rightarrow> bytes" where
  "payload_bytes (Pl_Hello h) =
     to_be_bytes (peer_id_bytes (ident_peer_id (hello_identity h)))
     @ to_be_bytes (endpoint_id_bytes (ident_endpoint_id (hello_identity h)))
     @ to_be_bytes (connection_id_bytes (ident_connection_id (hello_identity h)))
     @ version_range_bytes (hello_link_versions h)
     @ to_be_bytes (capability_bits (hello_link_capabilities h))
     @ [auth_path_to_wire (hello_requested_auth h)]"
| "payload_bytes (Pl_OfferProtocols offers) = of_nat (length offers) # concat (map offer_bytes offers)"
| "payload_bytes (Pl_SelectProtocols sels) = of_nat (length sels) # concat (map selection_bytes sels)"
| "payload_bytes (Pl_OpenChannel c) =
     to_be_bytes (stable_id_bytes (open_protocol_id c))
     @ to_be_bytes (protocol_channel_id_val (open_protocol_channel_id c))
     @ to_be_bytes (channel_id_val (open_requested_session_channel_id c)) @ to_be_bytes (open_capacity c)"
| "payload_bytes (Pl_AcceptChannel c) =
     to_be_bytes (stable_id_bytes (accept_protocol_id c))
     @ to_be_bytes (protocol_channel_id_val (accept_protocol_channel_id c))
     @ to_be_bytes (channel_id_val (accept_session_channel_id c))"
| "payload_bytes (Pl_CloseChannel c) = to_be_bytes (channel_id_val c)"
| "payload_bytes (Pl_Ping n) = to_be_bytes n"
| "payload_bytes (Pl_Pong n) = to_be_bytes n"
| "payload_bytes (Pl_BeginDrain d) = to_be_bytes d"
| "payload_bytes (Pl_CloseSession c) = to_be_bytes c"
| "payload_bytes (Pl_Error e) =
     [error_domain_to_wire (ce_domain e)] @ to_be_bytes (error_code_val (ce_code e))
     @ to_be_bytes (case ce_operation e of None \<Rightarrow> - 1 | Some op \<Rightarrow> opcode_as_u16 op)
     @ [retryability_to_wire (ce_retryability e)]"

fun payload_ok :: "sha256 \<Rightarrow> ControlPayload \<Rightarrow> bool" where
  "payload_ok sha (Pl_Hello h) = VersionRange_is_valid (hello_link_versions h)"
| "payload_ok sha (Pl_OfferProtocols offers) =
     (length offers \<le> MAX_CONTROL_PROTOCOLS \<and> list_all (offer_ok sha) offers
      \<and> fresh_ids bt_empty (map offer_stable_id offers))"
| "payload_ok sha (Pl_SelectProtocols sels) =
     (length sels \<le> MAX_CONTROL_PROTOCOLS \<and> list_all selection_ok sels
      \<and> fresh_ids bt_empty (map sel_stable_id sels))"
| "payload_ok sha (Pl_OpenChannel c) =
     (protocol_channel_id_val (open_protocol_channel_id c) \<noteq> 0
      \<and> channel_id_val (open_requested_session_channel_id c) \<noteq> 0 \<and> open_capacity c \<noteq> 0)"
| "payload_ok sha (Pl_AcceptChannel c) =
     (protocol_channel_id_val (accept_protocol_channel_id c) \<noteq> 0
      \<and> channel_id_val (accept_session_channel_id c) \<noteq> 0)"
| "payload_ok sha (Pl_CloseChannel c) = (channel_id_val c \<noteq> 0)"
| "payload_ok sha _ = True"

text \<open>The message of a structured error does not travel: the receiver substitutes its own.\<close>

fun payload_public :: "ControlPayload \<Rightarrow> ControlPayload" where
  "payload_public (Pl_Error e) = Pl_Error (e\<lparr>ce_message := REMOTE_ERROR_MESSAGE\<rparr>)"
| "payload_public p = p"

lemma write_offers_eq_Inr:
  "write_offers sha seen w offers = Inr w' \<longleftrightarrow>
   list_all (offer_ok sha) offers \<and> fresh_ids seen (map offer_stable_id offers)
   \<and> w' = w @ concat (map offer_bytes offers)"
proof (induction offers arbitrary: seen w)
  case (Cons offer offers)
  show ?case
    by (auto simp: Cons.IH result_bind_eq_Inr Writer_debug_identity_eq_Inr Writer_capabilities_eq
        offer_ok_def offer_bytes_def schema_ok_def Let_def split: if_splits)
qed auto

lemma write_selections_eq_Inr:
  "write_selections seen w sels = Inr w' \<longleftrightarrow>
   list_all selection_ok sels \<and> fresh_ids seen (map sel_stable_id sels)
   \<and> w' = w @ concat (map selection_bytes sels)"
proof (induction sels arbitrary: seen w)
  case (Cons sel sels)
  show ?case
    by (auto simp: Cons.IH result_bind_eq_Inr Writer_capabilities_eq
        selection_ok_def selection_bytes_def schema_ok_def Let_def split: if_splits)
qed auto

lemma encode_payload_eq_Inr:
  "encode_payload sha w p = Inr w' \<longleftrightarrow> payload_ok sha p \<and> w' = w @ payload_bytes p"
  by (cases p)
    (auto simp: Let_def Writer_count_eq MAX_CONTROL_PROTOCOLS_def write_offers_eq_Inr
      write_selections_eq_Inr result_bind_eq_Inr split: if_splits)

lemma wire_enums [simp]:
  "error_domain_from_wire (error_domain_to_wire d) = Inr d"
  "retryability_from_wire (retryability_to_wire t) = Inr t"
  "error_domain_from_wire b = Inr d \<longleftrightarrow> b = error_domain_to_wire d"
  "retryability_from_wire c = Inr t \<longleftrightarrow> c = retryability_to_wire t"
proof -
  show "error_domain_from_wire b = Inr d \<longleftrightarrow> b = error_domain_to_wire d"
    by (cases d) (auto simp: error_domain_from_wire_def)
  show "retryability_from_wire c = Inr t \<longleftrightarrow> c = retryability_to_wire t"
    by (cases t) (auto simp: retryability_from_wire_def)
qed (cases d, simp_all add: error_domain_from_wire_def, cases t, simp_all add: retryability_from_wire_def)

subsection \<open>Every payload decoder meets the codec contract\<close>

lemma offer_fields_codec:
  "offer_ok sha x \<Longrightarrow> debug_identity_ok (offer_debug_identity x)"
  by (simp add: offer_ok_def debug_identity_fits_ok)

lemma read_offers_enc:
  assumes "list_all (offer_ok sha) offers" and "fresh_ids seen (map offer_stable_id offers)"
    and "small (pre @ concat (map offer_bytes offers) @ post)"
  shows "read_offers sha (length offers) seen (reader_at pre (concat (map offer_bytes offers) @ post)) =
         Inr (offers, reader_at (pre @ concat (map offer_bytes offers)) post)"
  using assms
proof (induction offers arbitrary: pre seen)
  case (Cons x xs)
  have ih: "read_offers sha (length xs) (bs_insert (offer_stable_id x) seen)
      (reader_at (pre @ offer_bytes x) (concat (map offer_bytes xs) @ post)) =
    Inr (xs, reader_at ((pre @ offer_bytes x) @ concat (map offer_bytes xs)) post)"
    using Cons.prems by (intro Cons.IH) simp_all
  show ?case
    using Cons.prems ih offer_fields_codec [of sha x]
    by (simp add: offer_bytes_def [of x] offer_ok_def [of sha x] codec_simps)
qed simp

lemma read_offers_sound:
  "read_offers sha n seen (reader_at pre bs) = Inr (offers, r) \<Longrightarrow>
   length offers = n \<and> list_all (offer_ok sha) offers \<and> fresh_ids seen (map offer_stable_id offers)
   \<and> (\<exists>post. bs = concat (map offer_bytes offers) @ post
        \<and> r = reader_at (pre @ concat (map offer_bytes offers)) post)"
proof (induction n arbitrary: pre bs seen offers)
  case (Suc n)
  from Suc.prems obtain i d v s c post xs where
    ok: "debug_identity_ok d" "VersionRange_is_valid v" "schema_ok s" "ProtocolCapabilitySet_is_bounded c"
      "\<not> bt_contains seen i" "caps_protocol_id c = i" "\<not> debug_identity_mismatch sha i d"
    and bs: "bs = (to_be_bytes (stable_id_bytes i) @ debug_identity_bytes d @ version_range_bytes v
                  @ schema_bytes s @ capabilities_bytes c) @ post"
    and tl: "read_offers sha n (bs_insert i seen)
               (reader_at (pre @ to_be_bytes (stable_id_bytes i) @ debug_identity_bytes d
                  @ version_range_bytes v @ schema_bytes s @ capabilities_bytes c) post) = Inr (xs, r)"
    and xs: "offers = \<lparr>offer_stable_id = i, offer_debug_identity = d, offer_versions = v,
                       offer_schema = s, offer_capabilities = c\<rparr> # xs"
    by (auto elim!: result_bind_InrE dest!: codec_dests split: if_splits)
  have "debug_identity_fits d"
    using ok by (intro debug_identity_ok_fits) (auto simp: debug_identity_mismatch_def)
  with ok bs xs Suc.IH [OF tl] show ?case
    by (auto simp: offer_ok_def offer_bytes_def)
qed simp

lemma read_selections_enc:
  assumes "list_all selection_ok sels" and "fresh_ids seen (map sel_stable_id sels)"
    and "small (pre @ concat (map selection_bytes sels) @ post)"
  shows "read_selections (length sels) seen (reader_at pre (concat (map selection_bytes sels) @ post)) =
         Inr (sels, reader_at (pre @ concat (map selection_bytes sels)) post)"
  using assms
proof (induction sels arbitrary: pre seen)
  case (Cons x xs)
  have ih: "read_selections (length xs) (bs_insert (sel_stable_id x) seen)
      (reader_at (pre @ selection_bytes x) (concat (map selection_bytes xs) @ post)) =
    Inr (xs, reader_at ((pre @ selection_bytes x) @ concat (map selection_bytes xs)) post)"
    using Cons.prems by (intro Cons.IH) simp_all
  show ?case
    using Cons.prems ih by (simp add: selection_bytes_def [of x] selection_ok_def [of x] codec_simps)
qed simp

lemma read_selections_sound:
  "read_selections n seen (reader_at pre bs) = Inr (sels, r) \<Longrightarrow>
   length sels = n \<and> list_all selection_ok sels \<and> fresh_ids seen (map sel_stable_id sels)
   \<and> (\<exists>post. bs = concat (map selection_bytes sels) @ post
        \<and> r = reader_at (pre @ concat (map selection_bytes sels)) post)"
proof (induction n arbitrary: pre bs seen sels)
  case (Suc n)
  from Suc.prems obtain i v s c post xs where
    ok: "schema_ok s" "ProtocolCapabilitySet_is_bounded c" "\<not> bt_contains seen i" "caps_protocol_id c = i"
    and bs: "bs = (to_be_bytes (stable_id_bytes i) @ version_bytes v @ schema_bytes s
                  @ capabilities_bytes c) @ post"
    and tl: "read_selections n (bs_insert i seen)
               (reader_at (pre @ to_be_bytes (stable_id_bytes i) @ version_bytes v @ schema_bytes s
                  @ capabilities_bytes c) post) = Inr (xs, r)"
    and xs: "sels = \<lparr>sel_stable_id = i, sel_version = v, sel_schema = s, sel_capabilities = c\<rparr> # xs"
    by (auto elim!: result_bind_InrE dest!: codec_dests split: if_splits)
  with ok bs xs Suc.IH [OF tl] show ?case
    by (auto simp: selection_ok_def selection_bytes_def)
qed simp

definition payload_wire_ok :: "sha256 \<Rightarrow> LinkControlOpcode \<Rightarrow> ControlPayload \<Rightarrow> bool" where
  "payload_wire_ok sha op p =
     (payload_ok sha p \<and> ControlPayload_opcode p = op \<and> payload_public p = p)"

lemma Reader_bounded_count_enc [codec_simps]:
  assumes "n \<le> m" and "m \<le> 255" and "small (pre @ of_nat n # post)"
  shows "Reader_bounded_count m (reader_at pre (of_nat n # post)) = Inr (n, reader_at (pre @ [of_nat n]) post)"
  using assms by (simp add: Reader_bounded_count_def of_nat_u8 codec_simps)

lemma Reader_bounded_count_sound [codec_dests]:
  "Reader_bounded_count m (reader_at pre bs) = Inr (n, r) \<Longrightarrow>
   n \<le> m \<and> (\<exists>post. bs = of_nat n # post \<and> r = reader_at (pre @ [of_nat n]) post)"
  by (auto simp: Reader_bounded_count_def elim!: result_bind_InrE dest!: codec_dests split: if_splits)

lemma decode_payload_enc:
  assumes "payload_wire_ok sha op p" and "small (pre @ payload_bytes p @ post)"
  shows "decode_payload sha op (reader_at pre (payload_bytes p @ post)) =
         Inr (p, reader_at (pre @ payload_bytes p) post)"
proof (cases p)
  case (Pl_Hello h)
  with assms show ?thesis
    by (cases "hello_requested_auth h")
      (auto simp: payload_wire_ok_def codec_simps)
next
  case (Pl_OfferProtocols offers)
  with assms read_offers_enc [of sha offers bt_empty "pre @ [of_nat (length offers)]" post]
  show ?thesis by (auto simp: payload_wire_ok_def codec_simps MAX_CONTROL_PROTOCOLS_def)
next
  case (Pl_SelectProtocols sels)
  with assms read_selections_enc [of sels bt_empty "pre @ [of_nat (length sels)]" post]
  show ?thesis by (auto simp: payload_wire_ok_def codec_simps MAX_CONTROL_PROTOCOLS_def)
next
  case (Pl_Error e)
  with assms show ?thesis
    by (cases e; cases "ce_operation e")
      (auto simp: payload_wire_ok_def codec_simps opcode_as_u16_neq_max)
qed (use assms in \<open>auto simp: payload_wire_ok_def codec_simps\<close>)

lemma decode_payload_sound:
  assumes "decode_payload sha op (reader_at pre bs) = Inr (p, r)"
  shows "payload_wire_ok sha op p
    \<and> (\<exists>post. bs = payload_bytes p @ post \<and> r = reader_at (pre @ payload_bytes p) post)"
proof (cases op)
  case Op_Hello
  with assms show ?thesis
    by (auto simp: payload_wire_ok_def elim!: result_bind_InrE dest!: codec_dests split: if_splits)
next
  case Op_ProtocolOffer
  with assms show ?thesis
    by (auto simp: payload_wire_ok_def elim!: result_bind_InrE
        dest!: codec_dests read_offers_sound split: if_splits)
next
  case Op_ProtocolSelect
  with assms show ?thesis
    by (auto simp: payload_wire_ok_def elim!: result_bind_InrE
        dest!: codec_dests read_selections_sound split: if_splits)
next
  case Op_Error
  with assms show ?thesis
    by (auto simp: payload_wire_ok_def elim!: result_bind_InrE
        dest!: codec_dests opcode_as_u16_try_from split: if_splits)
qed (use assms in \<open>auto simp: payload_wire_ok_def elim!: result_bind_InrE dest!: codec_dests split: if_splits\<close>)

interpretation payloadc: wire_codec "payload_wire_ok sha op" payload_bytes "decode_payload sha op" for sha op
  by unfold_locales (simp_all add: decode_payload_enc decode_payload_sound)

subsection \<open>The contract of a frame codec\<close>

locale frame_codec =
  fixes wf :: "'a \<Rightarrow> bool"
    and norm :: "'a \<Rightarrow> 'a"
    and enc :: "'a \<Rightarrow> ('e, bytes) result"
    and dec :: "bytes \<Rightarrow> ('e, 'a) result"
    and truncated :: 'e
    and trailing :: 'e
  assumes dec_enc: "wf x \<Longrightarrow> enc x = Inr w \<Longrightarrow> dec w = Inr (norm x)"
    and enc_dec: "dec w = Inr x \<Longrightarrow> wf x \<and> norm x = x \<and> enc x = Inr w"
    and dec_shorter: "wf x \<Longrightarrow> enc x = Inr w \<Longrightarrow> n < length w \<Longrightarrow> dec (take n w) = Inl truncated"
    and dec_longer: "wf x \<Longrightarrow> enc x = Inr w \<Longrightarrow> small (w @ v) \<Longrightarrow> v \<noteq> [] \<Longrightarrow>
                     dec (w @ v) = Inl trailing"
begin

lemma dec_iff: "dec w = Inr x \<longleftrightarrow> wf x \<and> norm x = x \<and> enc x = Inr w"
  by (metis dec_enc enc_dec)

lemma enc_determines: "wf x \<Longrightarrow> wf y \<Longrightarrow> enc x = Inr w \<Longrightarrow> enc y = Inr w \<Longrightarrow> norm x = norm y"
  by (metis dec_enc Inr_inject)

lemma reencode: "dec w = Inr x \<Longrightarrow> enc x = Inr w"
  by (simp add: dec_iff)

lemma dec_inject: "dec v = Inr x \<Longrightarrow> dec w = Inr x \<Longrightarrow> v = w"
  by (simp add: dec_iff)

lemma accepted_exact:
  assumes "dec w = Inr x"
  shows "n < length w \<Longrightarrow> dec (take n w) = Inl truncated"
    and "small (w @ v) \<Longrightarrow> v \<noteq> [] \<Longrightarrow> dec (w @ v) = Inl trailing"
  using assms by (auto simp: dec_iff intro: dec_shorter dec_longer)

end

subsection \<open>The control frame\<close>

definition envelope_header :: "ControlEnvelope \<Rightarrow> bytes" where
  "envelope_header e =
     CONTROL_MAGIC @ to_be_bytes (env_wire_version e) @ to_be_bytes (opcode_as_u16 (env_opcode e))
     @ to_be_bytes (control_flags_bits (env_flags e)) @ to_be_bytes (request_id_val (env_request_id e))
     @ (case env_session_id e of Some s \<Rightarrow> 1 # to_be_bytes (session_id_bytes s)
        | None \<Rightarrow> 0 # to_be_bytes (0 :: u128))"

definition envelope_bytes :: "ControlEnvelope \<Rightarrow> bytes" where
  "envelope_bytes e =
     envelope_header e @ to_be_bytes (of_nat (length (payload_bytes (env_payload e))) :: u32)
     @ payload_bytes (env_payload e)"

definition envelope_ok :: "sha256 \<Rightarrow> ControlEnvelope \<Rightarrow> bool" where
  "envelope_ok sha e =
     (env_wire_version e = TYPED_CONTROL_WIRE_VERSION
      \<and> env_opcode e = ControlPayload_opcode (env_payload e)
      \<and> payload_ok sha (env_payload e))"

text \<open>\<^verbatim>\<open>ControlFlags\<close> keeps its bits private, so a value of that type is one
  \<^verbatim>\<open>from_bits\<close> can return.\<close>

definition envelope_wf :: "ControlEnvelope \<Rightarrow> bool" where
  "envelope_wf e = (ControlFlags_from_bits (control_flags_bits (env_flags e)) = Some (env_flags e))"

definition envelope_public :: "ControlEnvelope \<Rightarrow> ControlEnvelope" where
  "envelope_public e = e\<lparr>env_payload := payload_public (env_payload e)\<rparr>"

lemma zero_bytes: "to_be_bytes (0 :: u128) = replicate 16 0"
  by (simp add: to_be_bytes_def map_replicate_const)

lemma length_CONTROL_MAGIC [simp]: "length CONTROL_MAGIC = 4"
  by (simp add: CONTROL_MAGIC_def str_def)

lemma length_envelope_header [simp]: "length (envelope_header e) = 35"
  by (simp add: envelope_header_def split: option.splits)

lemma length_string_bytes: "text_fits s \<Longrightarrow> length (string_bytes s) \<le> 130"
  by (simp add: string_bytes_def text_fits_def MAX_CONTROL_DEBUG_COMPONENT_BYTES_def)

lemma length_debug_identity_bytes: "debug_identity_fits d \<Longrightarrow> length (debug_identity_bytes d) \<le> 261"
  by (cases d) (auto simp: debug_identity_fits_def debug_identity_bytes_def
      dest!: length_string_bytes)

lemma length_fixed_fields [simp]:
  "length (version_bytes v) = 4" "length (version_range_bytes vs) = 8" "length (schema_bytes s) = 52"
  by (simp_all add: version_bytes_def version_range_bytes_def schema_bytes_def)

lemma length_capabilities_bytes: "ProtocolCapabilitySet_is_bounded c \<Longrightarrow> length (capabilities_bytes c) \<le> 81"
  by (simp add: capabilities_bytes_def ProtocolCapabilitySet_is_bounded_def
      MAX_PROTOCOL_CAPABILITY_WORDS_def length_concat comp_def sum_list_triv)

lemma length_offer_bytes: "offer_ok sha x \<Longrightarrow> length (offer_bytes x) \<le> 418"
  using length_debug_identity_bytes [of "offer_debug_identity x"]
    length_capabilities_bytes [of "offer_capabilities x"]
  by (simp add: offer_bytes_def offer_ok_def)

lemma length_selection_bytes: "selection_ok x \<Longrightarrow> length (selection_bytes x) \<le> 153"
  using length_capabilities_bytes [of "sel_capabilities x"]
  by (simp add: selection_bytes_def selection_ok_def)

lemma length_concat_le:
  "(\<And>x. x \<in> set xs \<Longrightarrow> length (f x) \<le> b) \<Longrightarrow> length (concat (map f xs)) \<le> length xs * b"
  by (induction xs) (simp_all add: add_mono)

lemma payload_bytes_bound: "payload_ok sha p \<Longrightarrow> length (payload_bytes p) \<le> 13377"
proof (cases p)
  case (Pl_OfferProtocols offers)
  assume "payload_ok sha p"
  with Pl_OfferProtocols show ?thesis
    using length_concat_le [of offers offer_bytes 418] length_offer_bytes [of sha]
    by (force simp: list_all_iff MAX_CONTROL_PROTOCOLS_def)
next
  case (Pl_SelectProtocols sels)
  assume "payload_ok sha p"
  with Pl_SelectProtocols show ?thesis
    using length_concat_le [of sels selection_bytes 153] length_selection_bytes
    by (force simp: list_all_iff MAX_CONTROL_PROTOCOLS_def)
qed simp_all

lemma envelope_bytes_small: "envelope_ok sha e \<Longrightarrow> small (envelope_bytes e)"
  using payload_bytes_bound [of sha "env_payload e"]
  by (simp add: envelope_ok_def envelope_bytes_def small_def usize_max_def)

lemma validate_typed_eq: "ControlModeGuard_validate_typed g = Inr u \<longleftrightarrow> guard_mode g = TypedV1"
  by (simp add: ControlModeGuard_validate_typed_def)

lemma encode_control_envelope_eq_Inr:
  "encode_control_envelope sha g e = Inr w \<longleftrightarrow>
   guard_mode g = TypedV1 \<and> envelope_ok sha e \<and> w = envelope_bytes e"
proof -
  let ?h = "envelope_header e @ to_be_bytes (0 :: u32)"
  have h: "length ?h = 39" by simp
  have "encode_control_envelope sha g e =
    result_bind (ControlModeGuard_validate_typed g) (\<lambda>_.
     if env_wire_version e \<noteq> TYPED_CONTROL_WIRE_VERSION then Inl ce_unsupported_version
     else if env_opcode e \<noteq> ControlPayload_opcode (env_payload e) then Inl ce_opcode_mismatch
     else result_bind (encode_payload sha ?h (env_payload e)) (\<lambda>w.
       let payload_len = length w - CONTROL_HEADER_BYTES in
       if payload_len > MAX_CONTROL_PAYLOAD_BYTES then Inl ce_limit_exceeded
       else if payload_len \<ge> 2 ^ 32 then Inl ce_limit_exceeded
       else Inr (take CONTROL_PAYLOAD_LENGTH_OFFSET w @ to_be_bytes (of_nat payload_len :: u32)
                 @ drop CONTROL_HEADER_BYTES w)))"
    unfolding encode_control_envelope_def Let_def envelope_header_def zero_bytes [symmetric]
    by (cases "env_session_id e") simp_all
  then show ?thesis
    using payload_bytes_bound [of sha "env_payload e"]
    by (auto simp: result_bind_eq_Inr validate_typed_eq encode_payload_eq_Inr envelope_ok_def
        envelope_bytes_def CONTROL_HEADER_BYTES_def CONTROL_PAYLOAD_LENGTH_OFFSET_def
        MAX_CONTROL_PAYLOAD_BYTES_def Let_def split: if_splits)
qed

text \<open>Decoding a well-formed header, whatever length field and bytes follow it.\<close>

lemma decode_after_header:
  assumes "guard_mode g = TypedV1" and "envelope_wf e" and "env_wire_version e = TYPED_CONTROL_WIRE_VERSION"
    and s: "small (envelope_header e @ to_be_bytes (len :: u32) @ rest)"
  shows "decode_control_envelope sha g (envelope_header e @ to_be_bytes len @ rest) =
     (if unat len > MAX_CONTROL_PAYLOAD_BYTES then Inl ce_limit_exceeded
      else if length rest < unat len then Inl ce_truncated
      else if length rest \<noteq> unat len then Inl ce_trailing_bytes
      else result_bind (decode_payload sha (env_opcode e) (reader_at [] rest)) (\<lambda>(payload, r).
           if Reader_remaining r \<noteq> 0 then Inl ce_trailing_bytes
           else Inr (e\<lparr>env_payload := payload\<rparr>)))"
proof -
  have take: "Reader_take n (reader_at pre xs) = Inr (xs, reader_at (pre @ xs) [])"
    if "small (pre @ xs)" and "length xs = n" for pre xs n
    using Reader_take_at [of pre xs "[]"] that by simp
  have magic: "Reader_take_array 4 (reader_at [] (CONTROL_MAGIC @ xs)) = Inr (CONTROL_MAGIC, reader_at CONTROL_MAGIC xs)"
    if "small (CONTROL_MAGIC @ xs)" for xs
    using Reader_take_at [of "[]" CONTROL_MAGIC xs 4] that by (simp add: Reader_take_array_def)
  show ?thesis
    using assms
    by (cases e; cases "env_session_id e"; cases "env_request_id e")
      (auto simp: decode_control_envelope_def validate_typed_eq ControlModeGuard_validate_typed_def
        CONTROL_HEADER_BYTES_def envelope_wf_def envelope_header_def magic take codec_simps
        Reader_new_at Let_def cong: if_cong)
qed

lemma decode_control_envelope_enc:
  assumes "guard_mode g = TypedV1" and "envelope_wf e" and "envelope_ok sha e"
  shows "decode_control_envelope sha g (envelope_bytes e) = Inr (envelope_public e)"
proof -
  let ?p = "env_payload e"
  have len: "length (payload_bytes ?p) \<le> 13377" "small (envelope_bytes e)"
    using assms(3) payload_bytes_bound envelope_bytes_small by (auto simp: envelope_ok_def)
  have "payload_wire_ok sha (env_opcode e) (payload_public ?p)" "payload_bytes (payload_public ?p) = payload_bytes ?p"
    using assms(3) by (cases ?p; simp add: payload_wire_ok_def envelope_ok_def)+
  then have "decode_payload sha (env_opcode e) (reader_at [] (payload_bytes ?p)) =
      Inr (payload_public ?p, reader_at (payload_bytes ?p) [])"
    using payloadc.dec_enc [of sha "env_opcode e" "payload_public ?p" "[]" "[]"] len
    by (simp add: small_def usize_max_def)
  then show ?thesis
    using assms len
    by (simp add: envelope_bytes_def decode_after_header envelope_ok_def unat_of_nat
        MAX_CONTROL_PAYLOAD_BYTES_def envelope_public_def)
qed

lemma decode_control_envelope_shorter:
  assumes "guard_mode g = TypedV1" and "envelope_wf e" and "envelope_ok sha e"
    and n: "n < length (envelope_bytes e)"
  shows "decode_control_envelope sha g (take n (envelope_bytes e)) = Inl ce_truncated"
proof (cases "n < 39")
  case True
  then show ?thesis
    using assms(1) n by (simp add: decode_control_envelope_def validate_typed_eq
        ControlModeGuard_validate_typed_def CONTROL_HEADER_BYTES_def)
next
  case False
  let ?l = "to_be_bytes (of_nat (length (payload_bytes (env_payload e))) :: u32)"
  from False have eq: "take n (envelope_bytes e) =
      envelope_header e @ ?l @ take (n - 39) (payload_bytes (env_payload e))"
    by (simp add: envelope_bytes_def take_append)
  have "length (payload_bytes (env_payload e)) \<le> 13377" "small (envelope_bytes e)"
    using assms(3) payload_bytes_bound envelope_bytes_small by (auto simp: envelope_ok_def)
  moreover from n False have "n - 39 < length (payload_bytes (env_payload e))"
    by (simp add: envelope_bytes_def)
  ultimately show ?thesis
    unfolding eq using assms(1,2,3)
    by (simp add: decode_after_header envelope_ok_def unat_of_nat MAX_CONTROL_PAYLOAD_BYTES_def
        small_def envelope_bytes_def)
qed

lemma decode_control_envelope_longer:
  assumes "guard_mode g = TypedV1" and "envelope_wf e" and "envelope_ok sha e"
    and "small (envelope_bytes e @ v)" and "v \<noteq> []"
  shows "decode_control_envelope sha g (envelope_bytes e @ v) = Inl ce_trailing_bytes"
proof -
  have "length (payload_bytes (env_payload e)) \<le> 13377"
    using assms(3) payload_bytes_bound by (auto simp: envelope_ok_def)
  with assms show ?thesis
    by (simp add: envelope_bytes_def decode_after_header envelope_ok_def unat_of_nat
        MAX_CONTROL_PAYLOAD_BYTES_def)
qed

lemma decode_control_envelope_sound:
  assumes "decode_control_envelope sha g w = Inr e"
  shows "guard_mode g = TypedV1 \<and> envelope_wf e \<and> envelope_ok sha e \<and> envelope_public e = e
    \<and> w = envelope_bytes e"
proof -
  from assms obtain sp sb len pl p r where
    hdr: "guard_mode g = TypedV1" "env_wire_version e = TYPED_CONTROL_WIRE_VERSION" "envelope_wf e"
    and sid: "(if sp = 0 \<and> sb = (0 :: u128) then Inr None
               else if sp = 1 then Inr (Some (SessionId sb)) else Inl ce_invalid_payload) = Inr (env_session_id e)"
    and w: "w = CONTROL_MAGIC @ to_be_bytes (env_wire_version e) @ to_be_bytes (opcode_as_u16 (env_opcode e))
        @ to_be_bytes (control_flags_bits (env_flags e)) @ to_be_bytes (request_id_val (env_request_id e))
        @ sp # to_be_bytes sb @ to_be_bytes (len :: u32) @ pl"
    and pl: "length pl = unat len"
    and p: "decode_payload sha (env_opcode e) (reader_at [] pl) = Inr (env_payload e, r)" "Reader_remaining r = 0"
    unfolding decode_control_envelope_def Reader_take_array_def Reader_new_at
    by (auto simp: validate_typed_eq flags_from_bits_eq_Some envelope_wf_def Let_def
        elim!: result_bind_InrE dest!: codec_dests opcode_as_u16_try_from split: if_splits)
  from payloadc.dec_sound [OF p(1)] p(2) have
    "payload_wire_ok sha (env_opcode e) (env_payload e)" "pl = payload_bytes (env_payload e)"
    by auto
  moreover from sid have "sp # to_be_bytes sb =
      (case env_session_id e of Some s \<Rightarrow> 1 # to_be_bytes (session_id_bytes s) | None \<Rightarrow> 0 # to_be_bytes (0 :: u128))"
    by (cases "env_session_id e") (auto split: if_splits)
  moreover from pl have "len = of_nat (length pl)" by simp
  ultimately show ?thesis
    using hdr w by (simp add: envelope_ok_def envelope_public_def envelope_bytes_def envelope_header_def
        payload_wire_ok_def)
qed

interpretation control_frame:
  frame_codec envelope_wf envelope_public "encode_control_envelope sha (ControlModeGuard TypedV1)"
    "decode_control_envelope sha (ControlModeGuard TypedV1)" ce_truncated ce_trailing_bytes
  for sha
  by unfold_locales
    (auto simp: encode_control_envelope_eq_Inr decode_control_envelope_enc decode_control_envelope_shorter
      decode_control_envelope_longer dest: decode_control_envelope_sound)

subsection \<open>Properties of the control frame\<close>

lemma encode_requires_typed: "encode_control_envelope sha g e = Inr w \<Longrightarrow> g = ControlModeGuard TypedV1"
  by (cases g) (simp add: encode_control_envelope_eq_Inr)

lemma decode_requires_typed: "decode_control_envelope sha g w = Inr e \<Longrightarrow> g = ControlModeGuard TypedV1"
  by (cases g) (auto dest: decode_control_envelope_sound)

text \<open>C1: every control envelope the encoder accepts is decoded back to itself, except that
  the message of a structured error is replaced by the receiver's own text.\<close>

theorem control_envelope_roundtrip:
  assumes "envelope_wf e" and "encode_control_envelope sha g e = Inr w"
  shows "decode_control_envelope sha g w = Inr (envelope_public e)"
  using control_frame.dec_enc [OF assms(1)] assms(2) encode_requires_typed [OF assms(2)] by simp

text \<open>A channel-open request, byte by byte.\<close>

definition sample_open :: ControlEnvelope where
  "sample_open =
     ControlEnvelope_typed (RequestId 7) (Some (SessionId 9)) (ControlFlags 1)
       (Pl_OpenChannel \<lparr>open_protocol_id = ProtocolStableId 3, open_protocol_channel_id = ProtocolChannelId 2,
          open_requested_session_channel_id = ChannelId 5, open_capacity = 16\<rparr>)"

definition sample_open_wire :: bytes where
  "sample_open_wire =
     [77, 76, 67, 84, 0, 1, 0, 16, 0, 1, 0, 0, 0, 0, 0, 0, 0, 7, 1]
     @ [0, 0, 0, 0, 0, 0, 0, 0, 0, 0, 0, 0, 0, 0, 0,
        9, 0, 0, 0, 26]
     @ [0, 0, 0, 0, 0, 0, 0, 0, 0, 0, 0, 0, 0, 0, 0,
        3, 0, 2, 0, 0, 0, 5, 0, 0, 0, 16]"

lemma sample_open_encodes:
  "encode_control_envelope (\<lambda>_. 0) (ControlModeGuard TypedV1) sample_open = Inr sample_open_wire"
  by (simp add: encode_control_envelope_eq_Inr envelope_ok_def envelope_bytes_def sample_open_wire_def
      sample_open_def envelope_header_def to_be_bytes_def byte_indices CONTROL_MAGIC_def str_def
      ControlEnvelope_typed_def TYPED_CONTROL_WIRE_VERSION_def)

lemma sample_open_wf: "envelope_wf sample_open" "envelope_public sample_open = sample_open"
  by (simp_all add: envelope_wf_def envelope_public_def sample_open_def ControlEnvelope_typed_def
      flags_from_bits_eq_Some)

theorem control_envelope_roundtrip_witness:
  "decode_control_envelope (\<lambda>_. 0) (ControlModeGuard TypedV1) sample_open_wire = Inr sample_open"
  using control_envelope_roundtrip [OF sample_open_wf(1) sample_open_encodes] sample_open_wf(2) by simp

text \<open>The wire form is canonical. Bytes that decode to an envelope are exactly the bytes
  the encoder writes for it, so no two byte strings carry the same envelope.\<close>

theorem control_envelope_canonical:
  "decode_control_envelope sha g w = Inr e \<longleftrightarrow>
   envelope_wf e \<and> envelope_public e = e \<and> encode_control_envelope sha g e = Inr w"
  using control_frame.dec_iff [of sha w e] encode_requires_typed [of sha g e w]
    decode_requires_typed [of sha g w e] by auto

text \<open>C2: a frame is accepted only whole. Every proper prefix of an accepted frame is
  refused as truncated and every proper extension as having trailing bytes.\<close>

theorem control_envelope_exact:
  assumes "decode_control_envelope sha g w = Inr e"
  shows "(n < length w \<longrightarrow> decode_control_envelope sha g (take n w) = Inl ce_truncated)
    \<and> (small (w @ v) \<and> v \<noteq> [] \<longrightarrow> decode_control_envelope sha g (w @ v) = Inl ce_trailing_bytes)"
  using control_frame.accepted_exact [of sha w e] assms decode_requires_typed [OF assms] by auto

text \<open>C2 witness: the channel-open request cut after 50 bytes and with one byte appended.\<close>

theorem control_envelope_exact_witness:
  "decode_control_envelope (\<lambda>_. 0) (ControlModeGuard TypedV1) (take 50 sample_open_wire) = Inl ce_truncated
   \<and> decode_control_envelope (\<lambda>_. 0) (ControlModeGuard TypedV1) (sample_open_wire @ [0]) = Inl ce_trailing_bytes"
proof -
  have d: "decode_control_envelope (\<lambda>_. 0) (ControlModeGuard TypedV1) sample_open_wire = Inr sample_open"
    by (simp add: control_frame.dec_iff sample_open_encodes sample_open_wf)
  show ?thesis
    using control_envelope_exact [OF d, of 50 "[0]"]
    by (simp add: sample_open_wire_def small_def usize_max_def)
qed

text \<open>The encoder accepts an envelope exactly when the session is in typed mode, the
  version is the supported one, the opcode matches the payload and the payload is
  well-formed; the frame then has at most 13416 bytes, so the size limit the encoder checks
  last never refuses a well-formed payload.\<close>

theorem encode_control_envelope_total:
  "case encode_control_envelope sha g e of
     Inr w \<Rightarrow> guard_mode g = TypedV1 \<and> envelope_ok sha e \<and> w = envelope_bytes e
            \<and> length w \<le> CONTROL_HEADER_BYTES + 13377
   | Inl err \<Rightarrow> \<not> (guard_mode g = TypedV1 \<and> envelope_ok sha e)"
proof (cases "encode_control_envelope sha g e")
  case (Inl err)
  then have "\<not> (guard_mode g = TypedV1 \<and> envelope_ok sha e)"
    using encode_control_envelope_eq_Inr [of sha g e "envelope_bytes e"] by auto
  with Inl show ?thesis by auto
next
  case (Inr w)
  then have "guard_mode g = TypedV1 \<and> envelope_ok sha e \<and> w = envelope_bytes e"
    by (simp add: encode_control_envelope_eq_Inr)
  moreover from this have "length w \<le> CONTROL_HEADER_BYTES + 13377"
    using payload_bytes_bound [of sha "env_payload e"]
    by (simp add: envelope_bytes_def envelope_ok_def CONTROL_HEADER_BYTES_def)
  ultimately show ?thesis using Inr by simp
qed

end
