(* ===== verification/Link_Data_Codec.thy ===== *)
theory Link_Data_Codec
  imports Link_Control_Codec
begin

text \<open>
  The compact data frame of \<^verbatim>\<open>data.rs\<close>: mode negotiation and guard, limits,
  the flag bits, \<^verbatim>\<open>encode_data_envelope\<close> and
  \<^verbatim>\<open>decode_data_envelope\<close>, with the data envelope of
  \<^verbatim>\<open>mux.rs\<close> they carry. The decoder reads its fields at fixed offsets
  (\<^verbatim>\<open>array_at\<close>); the lemmas relate those offsets to the encoder's layout and
  interpret \<open>frame_codec\<close>, the contract the control frame meets as well.
\<close>

subsection \<open>Data envelopes\<close>

record EnvelopeFlags =
  end_of_stream :: bool
  flag_cancelled :: bool

record Envelope =
  dat_session_id :: SessionId
  dat_channel_id :: ChannelId
  dat_generation :: ChannelGeneration
  dat_sequence :: u64
  dat_nesting_depth :: u16
  dat_flags :: EnvelopeFlags
  dat_payload :: bytes

subsection \<open>Modes, limits and errors\<close>

datatype DataIdentityMode = LegacyFullChannelKey | CompactV1

definition DataIdentityMode_negotiate :: "ControlIdentityMode \<Rightarrow> LinkCapabilities \<Rightarrow> DataIdentityMode" where
  "DataIdentityMode_negotiate control_mode capabilities =
     (if control_mode = TypedV1 \<and> LinkCapabilities_contains capabilities COMPACT_CHANNEL_ID
      then CompactV1 else LegacyFullChannelKey)"

datatype DataCodecErrorKind =
    DK_ModeMismatch | DK_UnsupportedVersion | DK_UnknownFrameKind | DK_InvalidHeader | DK_InvalidFlags
  | DK_InvalidChannel | DK_LimitExceeded | DK_Truncated | DK_TrailingBytes

record DataCodecError =
  data_err_kind :: DataCodecErrorKind
  data_err_message :: string

fun data_error_message :: "DataCodecErrorKind \<Rightarrow> string" where
  "data_error_message DK_ModeMismatch = ''data identity mode does not match negotiated session''"
| "data_error_message DK_UnsupportedVersion = ''unsupported compact data wire version''"
| "data_error_message DK_UnknownFrameKind = ''unknown Link frame kind''"
| "data_error_message DK_InvalidHeader = ''invalid compact data header''"
| "data_error_message DK_InvalidFlags = ''invalid compact data flags''"
| "data_error_message DK_InvalidChannel = ''compact data channel identity is invalid''"
| "data_error_message DK_LimitExceeded = ''compact data frame exceeds a resource limit''"
| "data_error_message DK_Truncated = ''truncated compact data frame''"
| "data_error_message DK_TrailingBytes = ''compact data frame contains trailing bytes''"

definition data_error :: "DataCodecErrorKind \<Rightarrow> DataCodecError" where
  "data_error kind = \<lparr>data_err_kind = kind, data_err_message = data_error_message kind\<rparr>"

datatype DataModeGuard = DataModeGuard (data_guard_mode: DataIdentityMode)

definition DataModeGuard_validate_compact :: "DataModeGuard \<Rightarrow> (DataCodecError, unit) result" where
  "DataModeGuard_validate_compact guard =
     (if data_guard_mode guard = CompactV1 then Inr () else Inl (data_error DK_ModeMismatch))"

definition DataModeGuard_validate_legacy :: "DataModeGuard \<Rightarrow> (DataCodecError, unit) result" where
  "DataModeGuard_validate_legacy guard =
     (if data_guard_mode guard = LegacyFullChannelKey then Inr () else Inl (data_error DK_ModeMismatch))"

record DataCodecLimits =
  dcl_max_payload_bytes :: nat
  dcl_max_nesting_depth :: u16

definition DataCodecLimits_default :: DataCodecLimits where
  "DataCodecLimits_default = \<lparr>dcl_max_payload_bytes = 1024 * 1024, dcl_max_nesting_depth = 32\<rparr>"

subsection \<open>Encoding\<close>

definition COMPACT_DATA_WIRE_VERSION :: u16 where
  "COMPACT_DATA_WIRE_VERSION = 1"

definition COMPACT_DATA_HEADER_BYTES :: nat where
  "COMPACT_DATA_HEADER_BYTES = 47"

definition DATA_MAGIC :: bytes where
  "DATA_MAGIC = str ''MLDT''"

definition DATA_FRAME_KIND :: u8 where
  "DATA_FRAME_KIND = 1"

definition flags_to_bits :: "EnvelopeFlags \<Rightarrow> u16" where
  "flags_to_bits flags = of_bool (end_of_stream flags) OR push_bit 1 (of_bool (flag_cancelled flags))"

definition flags_from_bits :: "u16 \<Rightarrow> (DataCodecError, EnvelopeFlags) result" where
  "flags_from_bits bits =
     (if bits AND NOT 3 \<noteq> 0 then Inl (data_error DK_InvalidFlags)
      else Inr \<lparr>end_of_stream = (bits AND 1 \<noteq> 0), flag_cancelled = (bits AND 2 \<noteq> 0)\<rparr>)"

definition validate_limits :: "Envelope \<Rightarrow> DataCodecLimits \<Rightarrow> (DataCodecError, unit) result" where
  "validate_limits envelope limits =
     (if dat_channel_id envelope = CONTROL_CHANNEL_ID \<or> generation_val (dat_generation envelope) = 0
      then Inl (data_error DK_InvalidChannel)
      else if length (dat_payload envelope) > dcl_max_payload_bytes limits
           \<or> dat_nesting_depth envelope > dcl_max_nesting_depth limits
      then Inl (data_error DK_LimitExceeded)
      else Inr ())"

text \<open>The output buffer is the caller's: the result is its new contents, or the error and
  the buffer as it was.\<close>

definition encode_data_envelope_into ::
  "DataModeGuard \<Rightarrow> Envelope \<Rightarrow> DataCodecLimits \<Rightarrow> bytes \<Rightarrow> (DataCodecError, unit) result \<times> bytes" where
  "encode_data_envelope_into guard envelope limits output =
     (case DataModeGuard_validate_compact guard of
        Inl e \<Rightarrow> (Inl e, output)
      | Inr _ \<Rightarrow>
          (case validate_limits envelope limits of
             Inl e \<Rightarrow> (Inl e, output)
           | Inr _ \<Rightarrow>
               if length (dat_payload envelope) \<ge> 2 ^ 32 then (Inl (data_error DK_LimitExceeded), output)
               else
                 (Inr (),
                  DATA_MAGIC @ to_be_bytes COMPACT_DATA_WIRE_VERSION @ [DATA_FRAME_KIND]
                  @ to_be_bytes (session_id_bytes (dat_session_id envelope))
                  @ to_be_bytes (channel_id_val (dat_channel_id envelope))
                  @ to_be_bytes (generation_val (dat_generation envelope))
                  @ to_be_bytes (dat_sequence envelope)
                  @ to_be_bytes (dat_nesting_depth envelope)
                  @ to_be_bytes (flags_to_bits (dat_flags envelope))
                  @ to_be_bytes (of_nat (length (dat_payload envelope)) :: u32)
                  @ dat_payload envelope)))"

definition encode_data_envelope ::
  "DataModeGuard \<Rightarrow> Envelope \<Rightarrow> DataCodecLimits \<Rightarrow> (DataCodecError, bytes) result" where
  "encode_data_envelope guard envelope limits =
     (case encode_data_envelope_into guard envelope limits [] of
        (Inl e, output) \<Rightarrow> Inl e
      | (Inr _, output) \<Rightarrow> Inr output)"

subsection \<open>Decoding\<close>

record BorrowedDataEnvelope =
  bor_session_id :: SessionId
  bor_channel_id :: ChannelId
  bor_generation :: ChannelGeneration
  bor_sequence :: u64
  bor_nesting_depth :: u16
  bor_flags :: EnvelopeFlags
  bor_payload :: bytes

definition BorrowedDataEnvelope_into_owned :: "BorrowedDataEnvelope \<Rightarrow> Envelope" where
  "BorrowedDataEnvelope_into_owned b =
     \<lparr>dat_session_id = bor_session_id b, dat_channel_id = bor_channel_id b,
      dat_generation = bor_generation b, dat_sequence = bor_sequence b,
      dat_nesting_depth = bor_nesting_depth b, dat_flags = bor_flags b, dat_payload = bor_payload b\<rparr>"

definition array_at :: "bytes \<Rightarrow> nat \<Rightarrow> (DataCodecError, 'a::len word) result" where
  "array_at wire offset =
     (let hi = usize_sat_add offset (LENGTH('a) div 8) in
      if offset \<le> hi \<and> hi \<le> length wire
      then (let part = take (hi - offset) (drop offset wire) in
            if length part = LENGTH('a) div 8 then Inr (from_be_bytes part)
            else Inl (data_error DK_Truncated))
      else Inl (data_error DK_Truncated))"

definition decode_data_envelope ::
  "DataModeGuard \<Rightarrow> bytes \<Rightarrow> DataCodecLimits \<Rightarrow> (DataCodecError, BorrowedDataEnvelope) result" where
  "decode_data_envelope guard wire limits =
     result_bind (DataModeGuard_validate_compact guard) (\<lambda>_.
     if length wire < COMPACT_DATA_HEADER_BYTES then Inl (data_error DK_Truncated)
     else if take 4 wire \<noteq> DATA_MAGIC then Inl (data_error DK_InvalidHeader)
     else if (from_be_bytes [wire ! 4, wire ! 5] :: u16) \<noteq> COMPACT_DATA_WIRE_VERSION
     then Inl (data_error DK_UnsupportedVersion)
     else if wire ! 6 \<noteq> DATA_FRAME_KIND then Inl (data_error DK_UnknownFrameKind)
     else
       result_bind (array_at wire 7) (\<lambda>session_bytes.
       result_bind (array_at wire 23) (\<lambda>channel_bits.
       result_bind (array_at wire 27) (\<lambda>generation_bits.
       if ChannelId channel_bits = CONTROL_CHANNEL_ID \<or> generation_bits = 0
       then Inl (data_error DK_InvalidChannel)
       else
         result_bind (array_at wire 31) (\<lambda>sequence.
         result_bind (array_at wire 39) (\<lambda>nesting_depth.
         if nesting_depth > dcl_max_nesting_depth limits then Inl (data_error DK_LimitExceeded)
         else
           result_bind (array_at wire 41) (\<lambda>flag_bits.
           result_bind (flags_from_bits flag_bits) (\<lambda>flags.
           result_bind (array_at wire 43) (\<lambda>(len_bits :: u32).
           let payload_len = unat len_bits in
           if payload_len > dcl_max_payload_bytes limits then Inl (data_error DK_LimitExceeded)
           else
             result_bind (ok_or (data_error DK_LimitExceeded)
                            (usize_checked_add COMPACT_DATA_HEADER_BYTES payload_len)) (\<lambda>expected.
             if length wire < expected then Inl (data_error DK_Truncated)
             else if length wire \<noteq> expected then Inl (data_error DK_TrailingBytes)
             else Inr \<lparr>bor_session_id = SessionId session_bytes, bor_channel_id = ChannelId channel_bits,
                       bor_generation = ChannelGeneration generation_bits, bor_sequence = sequence,
                       bor_nesting_depth = nesting_depth, bor_flags = flags,
                       bor_payload = drop COMPACT_DATA_HEADER_BYTES wire\<rparr>))))))))))"

subsection \<open>The layout of a frame\<close>

definition data_header :: "Envelope \<Rightarrow> bytes" where
  "data_header e =
     DATA_MAGIC @ to_be_bytes COMPACT_DATA_WIRE_VERSION @ [DATA_FRAME_KIND]
     @ to_be_bytes (session_id_bytes (dat_session_id e)) @ to_be_bytes (channel_id_val (dat_channel_id e))
     @ to_be_bytes (generation_val (dat_generation e)) @ to_be_bytes (dat_sequence e)
     @ to_be_bytes (dat_nesting_depth e) @ to_be_bytes (flags_to_bits (dat_flags e))"

definition data_bytes :: "Envelope \<Rightarrow> bytes" where
  "data_bytes e = data_header e @ to_be_bytes (of_nat (length (dat_payload e)) :: u32) @ dat_payload e"

definition data_ok :: "DataCodecLimits \<Rightarrow> Envelope \<Rightarrow> bool" where
  "data_ok limits e =
     (dat_channel_id e \<noteq> CONTROL_CHANNEL_ID \<and> generation_val (dat_generation e) \<noteq> 0
      \<and> length (dat_payload e) \<le> dcl_max_payload_bytes limits
      \<and> dat_nesting_depth e \<le> dcl_max_nesting_depth limits
      \<and> length (dat_payload e) < 2 ^ 32)"

lemma length_DATA_MAGIC [simp]: "length DATA_MAGIC = 4"
  by (simp add: DATA_MAGIC_def str_def)

lemma length_data_header [simp]: "length (data_header e) = 43"
  by (simp add: data_header_def)

lemma encode_data_envelope_eq_Inr:
  "encode_data_envelope g e limits = Inr w \<longleftrightarrow>
   data_guard_mode g = CompactV1 \<and> data_ok limits e \<and> w = data_bytes e"
  by (auto simp: encode_data_envelope_def encode_data_envelope_into_def DataModeGuard_validate_compact_def
      validate_limits_def data_ok_def data_bytes_def data_header_def not_le not_less split: if_splits)

lemma flags_bits_bound: "(bits :: u16) AND NOT 3 = 0 \<longleftrightarrow> bits \<in> {0, 1, 2, 3}"
proof
  assume a: "bits AND NOT 3 = 0"
  have "bits = (bits AND 3) OR (bits AND NOT 3)"
    by (rule bit_word_eqI) (auto simp: bit_simps)
  with a have "bits = bits AND 3" by simp
  also have "\<dots> = take_bit 2 bits" by (simp add: take_bit_eq_mask mask_eq_exp_minus_1)
  finally have "unat bits < 4" by (metis take_bit_nat_less_exp unsigned_take_bit_eq power2_eq_square mult_2 numeral_Bit0)
  then have "unat bits = 0 \<or> unat bits = 1 \<or> unat bits = 2 \<or> unat bits = 3" by linarith
  then show "bits \<in> {0, 1, 2, 3}" by (auto simp: word_unat_eq_iff)
qed auto

lemma flags_from_to_bits [simp]: "flags_from_bits (flags_to_bits f) = Inr f"
  by (cases f; cases "end_of_stream f"; cases "flag_cancelled f")
    (simp_all add: flags_from_bits_def flags_to_bits_def)

lemma flags_to_from_bits:
  assumes "flags_from_bits bits = Inr f"
  shows "bits = flags_to_bits f"
proof -
  from assms have "bits \<in> {0, 1, 2, 3}"
    unfolding flags_from_bits_def flags_bits_bound by (simp split: if_splits)
  with assms show ?thesis by (auto simp: flags_from_bits_def flags_to_bits_def)
qed

subsection \<open>Fields at fixed offsets\<close>

lemma array_atI:
  assumes "take (LENGTH('a) div 8) (drop off wire) = to_be_bytes (w :: 'a::len word)"
    and "8 dvd LENGTH('a)" and "off + LENGTH('a) div 8 \<le> usize_max"
  shows "array_at wire off = Inr w"
proof -
  have "min (length wire - off) (LENGTH('a) div 8) = LENGTH('a) div 8"
    using arg_cong [OF assms(1), of length] by (simp add: min.commute)
  moreover have "0 < LENGTH('a) div 8"
    using assms(2) len_gt_0 [where 'a = 'a] by (auto elim!: dvdE simp del: len_gt_0)
  ultimately have "off + LENGTH('a) div 8 \<le> length wire" by linarith
  with assms show ?thesis by (simp add: array_at_def usize_sat_add_def Let_def)
qed

lemma array_at_sound:
  assumes "array_at wire off = Inr (w :: 'a::len word)" and "8 dvd LENGTH('a)"
  shows "drop off wire = to_be_bytes w @ drop (off + LENGTH('a) div 8) wire"
proof -
  from assms(1) have "length (take (usize_sat_add off (LENGTH('a) div 8) - off) (drop off wire)) = LENGTH('a) div 8"
    and w: "w = from_be_bytes (take (usize_sat_add off (LENGTH('a) div 8) - off) (drop off wire))"
    by (auto simp: array_at_def Let_def split: if_splits)
  moreover from this have "usize_sat_add off (LENGTH('a) div 8) - off = LENGTH('a) div 8"
    by (auto simp: usize_sat_add_def min_def split: if_splits)
  ultimately have "to_be_bytes w = take (LENGTH('a) div 8) (drop off wire)"
    using assms(2) by (simp add: to_from_be_bytes)
  then show ?thesis by (metis append_take_drop_id drop_drop add.commute)
qed

lemma decode_after_data_header:
  assumes "data_guard_mode g = CompactV1" and "dat_channel_id e \<noteq> CONTROL_CHANNEL_ID"
    and "generation_val (dat_generation e) \<noteq> 0" and "dat_nesting_depth e \<le> dcl_max_nesting_depth limits"
  shows "decode_data_envelope g (data_header e @ to_be_bytes (len :: u32) @ rest) limits =
     (if unat len > dcl_max_payload_bytes limits then Inl (data_error DK_LimitExceeded)
      else if length rest < unat len then Inl (data_error DK_Truncated)
      else if length rest \<noteq> unat len then Inl (data_error DK_TrailingBytes)
      else Inr \<lparr>bor_session_id = dat_session_id e, bor_channel_id = dat_channel_id e,
                bor_generation = dat_generation e, bor_sequence = dat_sequence e,
                bor_nesting_depth = dat_nesting_depth e, bor_flags = dat_flags e, bor_payload = rest\<rparr>)"
proof -
  let ?w = "data_header e @ to_be_bytes len @ rest"
  obtain m0 m1 m2 m3 where magic: "DATA_MAGIC = [m0, m1, m2, m3]"
    by (simp add: DATA_MAGIC_def str_def)
  have "length (to_be_bytes COMPACT_DATA_WIRE_VERSION) = Suc (Suc 0)" by simp
  then obtain v0 v1 where ver: "to_be_bytes COMPACT_DATA_WIRE_VERSION = [v0, v1]"
    by (auto simp only: length_Suc_conv length_0_conv)
  have fields:
    "array_at ?w 7 = Inr (session_id_bytes (dat_session_id e))"
    "array_at ?w 23 = Inr (channel_id_val (dat_channel_id e))"
    "array_at ?w 27 = Inr (generation_val (dat_generation e))"
    "array_at ?w 31 = Inr (dat_sequence e)"
    "array_at ?w 39 = Inr (dat_nesting_depth e)"
    "array_at ?w 41 = Inr (flags_to_bits (dat_flags e))"
    "array_at ?w 43 = Inr len"
    by (rule array_atI; simp add: data_header_def usize_max_def)+
  have "from_be_bytes [v0, v1] = COMPACT_DATA_WIRE_VERSION"
    unfolding ver [symmetric] by simp
  then have start: "take 4 ?w = DATA_MAGIC" "from_be_bytes [?w ! 4, ?w ! 5] = COMPACT_DATA_WIRE_VERSION"
    "?w ! 6 = DATA_FRAME_KIND"
    by (simp_all add: data_header_def magic ver)
  have "drop 47 ?w = rest" "length ?w = 47 + length rest" by simp_all
  moreover have "47 + unat len \<le> usize_max"
    using unat_lt_size [of len] by (simp add: usize_max_def)
  ultimately show ?thesis
    using assms unfolding decode_data_envelope_def fields start result_bind_simps
    by (cases "dat_session_id e"; cases "dat_channel_id e"; cases "dat_generation e")
      (auto simp: DataModeGuard_validate_compact_def COMPACT_DATA_HEADER_BYTES_def usize_checked_add_def
        Let_def not_less)
qed

lemma decode_data_envelope_sound:
  assumes "decode_data_envelope g wire limits = Inr b"
  shows "data_guard_mode g = CompactV1 \<and> data_ok limits (BorrowedDataEnvelope_into_owned b)
    \<and> wire = data_bytes (BorrowedDataEnvelope_into_owned b)"
proof -
  let ?e = "BorrowedDataEnvelope_into_owned b"
  from assms obtain fb len where
    hdr: "data_guard_mode g = CompactV1" "47 \<le> length wire" "take 4 wire = DATA_MAGIC"
      "from_be_bytes [wire ! 4, wire ! 5] = COMPACT_DATA_WIRE_VERSION" "wire ! 6 = DATA_FRAME_KIND"
    and fields: "array_at wire 7 = Inr (session_id_bytes (dat_session_id ?e))"
      "array_at wire 23 = Inr (channel_id_val (dat_channel_id ?e))"
      "array_at wire 27 = Inr (generation_val (dat_generation ?e))"
      "array_at wire 31 = Inr (dat_sequence ?e)" "array_at wire 39 = Inr (dat_nesting_depth ?e)"
      "array_at wire 41 = Inr fb" "flags_from_bits fb = Inr (dat_flags ?e)" "array_at wire 43 = Inr (len :: u32)"
    and ok: "dat_channel_id ?e \<noteq> CONTROL_CHANNEL_ID" "generation_val (dat_generation ?e) \<noteq> 0"
      "dat_nesting_depth ?e \<le> dcl_max_nesting_depth limits" "unat len \<le> dcl_max_payload_bytes limits"
      "length wire = 47 + unat len" "dat_payload ?e = drop 47 wire"
    by (auto simp: decode_data_envelope_def DataModeGuard_validate_compact_def COMPACT_DATA_HEADER_BYTES_def
        BorrowedDataEnvelope_into_owned_def usize_checked_add_def Let_def not_less
        elim!: result_bind_InrE split: if_splits)
  have "to_be_bytes (from_be_bytes [wire ! 4, wire ! 5] :: u16) = [wire ! 4, wire ! 5]"
    by (rule to_from_be_bytes) simp_all
  with hdr(4) have "[wire ! 4, wire ! 5] = to_be_bytes COMPACT_DATA_WIRE_VERSION" by simp
  moreover have "drop 4 wire = [wire ! 4, wire ! 5] @ [wire ! 6] @ drop 7 wire"
    using hdr(2) by (simp add: Cons_nth_drop_Suc [symmetric] numeral_eq_Suc)
  ultimately have "wire = DATA_MAGIC @ to_be_bytes COMPACT_DATA_WIRE_VERSION @ [DATA_FRAME_KIND] @ drop 7 wire"
    using hdr(3,5) append_take_drop_id [of 4 wire] by simp
  moreover have "drop 7 wire = to_be_bytes (session_id_bytes (dat_session_id ?e))
      @ to_be_bytes (channel_id_val (dat_channel_id ?e)) @ to_be_bytes (generation_val (dat_generation ?e))
      @ to_be_bytes (dat_sequence ?e) @ to_be_bytes (dat_nesting_depth ?e) @ to_be_bytes fb
      @ to_be_bytes len @ drop 47 wire"
    using fields(1-6,8) [THEN array_at_sound] by simp
  moreover have "fb = flags_to_bits (dat_flags ?e)" using fields(7) by (rule flags_to_from_bits)
  moreover have "len = of_nat (length (dat_payload ?e))" "length (dat_payload ?e) = unat len"
    using ok by simp_all
  ultimately have "wire = data_bytes ?e"
    using ok(6) by (simp add: data_bytes_def data_header_def)
  moreover have "data_ok limits ?e"
    using ok unat_lt_size [of len] by (simp add: data_ok_def)
  ultimately show ?thesis using hdr(1) by simp
qed

definition decode_owned ::
  "DataModeGuard \<Rightarrow> DataCodecLimits \<Rightarrow> bytes \<Rightarrow> (DataCodecError, Envelope) result" where
  "decode_owned g limits wire =
     result_bind (decode_data_envelope g wire limits) (\<lambda>b. Inr (BorrowedDataEnvelope_into_owned b))"

lemma decode_owned_bytes:
  assumes "data_ok limits e"
  shows "decode_owned (DataModeGuard CompactV1) limits
           (data_header e @ to_be_bytes (of_nat (length (dat_payload e)) :: u32) @ rest) =
     (if length rest < length (dat_payload e) then Inl (data_error DK_Truncated)
      else if length rest \<noteq> length (dat_payload e) then Inl (data_error DK_TrailingBytes)
      else Inr (e\<lparr>dat_payload := rest\<rparr>))"
proof -
  from assms have "unat (of_nat (length (dat_payload e)) :: u32) = length (dat_payload e)"
    by (simp add: data_ok_def unat_of_nat)
  with assms show ?thesis
    by (cases e) (auto simp: decode_owned_def decode_after_data_header data_ok_def
        BorrowedDataEnvelope_into_owned_def)
qed

interpretation data_frame:
  frame_codec "\<lambda>_. True" "\<lambda>e. e" "\<lambda>e. encode_data_envelope (DataModeGuard CompactV1) e limits"
    "decode_owned (DataModeGuard CompactV1) limits" "data_error DK_Truncated" "data_error DK_TrailingBytes"
  for limits
proof
  fix x w assume "encode_data_envelope (DataModeGuard CompactV1) x limits = Inr w"
  then have ok: "data_ok limits x" and w: "w = data_bytes x" by (simp_all add: encode_data_envelope_eq_Inr)
  show "decode_owned (DataModeGuard CompactV1) limits w = Inr x"
    using ok w decode_owned_bytes [OF ok] by (simp add: data_bytes_def data_ok_def)
  show "decode_owned (DataModeGuard CompactV1) limits (w @ v) = Inl (data_error DK_TrailingBytes)"
    if "small (w @ v)" and "v \<noteq> []" for v
    using that w decode_owned_bytes [OF ok, of "dat_payload x @ v"]
    by (simp add: data_bytes_def)
  show "decode_owned (DataModeGuard CompactV1) limits (take n w) = Inl (data_error DK_Truncated)"
    if "n < length w" for n
  proof (cases "n < 47")
    case True
    with that show ?thesis
      by (simp add: decode_owned_def decode_data_envelope_def DataModeGuard_validate_compact_def
          COMPACT_DATA_HEADER_BYTES_def)
  next
    case False
    then have "take n w = data_header x @ to_be_bytes (of_nat (length (dat_payload x)) :: u32)
        @ take (n - 47) (dat_payload x)"
      by (simp add: w data_bytes_def)
    moreover have "n - 47 < length (dat_payload x)"
      using False that by (simp add: w data_bytes_def less_diff_conv2)
    ultimately show ?thesis
      by (simp add: decode_owned_bytes [OF ok])
  qed
next
  fix w x assume "decode_owned (DataModeGuard CompactV1) limits w = Inr x"
  then show "True \<and> x = x \<and> encode_data_envelope (DataModeGuard CompactV1) x limits = Inr w"
    by (auto simp: decode_owned_def encode_data_envelope_eq_Inr elim!: result_bind_InrE
        dest: decode_data_envelope_sound)
qed

subsection \<open>Properties of the data frame\<close>

lemma data_guard_needed:
  "encode_data_envelope g e limits = Inr w \<Longrightarrow> g = DataModeGuard CompactV1"
  "decode_owned g limits w = Inr e \<Longrightarrow> g = DataModeGuard CompactV1"
  by (cases g; auto simp: encode_data_envelope_eq_Inr decode_owned_def elim!: result_bind_InrE
      dest: decode_data_envelope_sound)+

text \<open>C3: encoding and decoding a data frame are inverse to each other under every mode and
  every limit: bytes decode to an envelope exactly when the envelope encodes to them.\<close>

theorem data_envelope_roundtrip:
  "decode_owned g limits w = Inr e \<longleftrightarrow> encode_data_envelope g e limits = Inr w"
  using data_frame.dec_iff [of limits w e] data_guard_needed [of g] by auto

text \<open>A data frame is accepted only whole: each proper prefix is refused as truncated
  and each proper extension as having trailing bytes.\<close>

theorem data_envelope_exact:
  assumes "encode_data_envelope g e limits = Inr w"
  shows "(n < length w \<longrightarrow> decode_owned g limits (take n w) = Inl (data_error DK_Truncated))
    \<and> (small (w @ v) \<and> v \<noteq> [] \<longrightarrow>
         decode_owned g limits (w @ v) = Inl (data_error DK_TrailingBytes))"
  using data_frame.dec_shorter [of e limits w n] data_frame.dec_longer [of e limits w v] assms
    data_guard_needed(1) [OF assms] by simp

text \<open>A two-byte payload, cut by one byte and extended by one byte.\<close>

definition sample_data :: Envelope where
  "sample_data =
     \<lparr>dat_session_id = SessionId 9, dat_channel_id = ChannelId 5, dat_generation = ChannelGeneration 1,
      dat_sequence = 3, dat_nesting_depth = 2,
      dat_flags = \<lparr>end_of_stream = False, flag_cancelled = True\<rparr>, dat_payload = [170, 187]\<rparr>"

definition sample_data_wire :: bytes where
  "sample_data_wire =
     [77, 76, 68, 84, 0, 1, 1] @ [0, 0, 0, 0, 0, 0, 0, 0, 0, 0, 0, 0, 0, 0, 0, 9, 0, 0, 0, 5, 0, 0, 0, 1, 0, 0, 0, 0, 0, 0, 0, 3,
      0, 2, 0, 2, 0, 0, 0, 2, 170, 187]"

theorem data_envelope_exact_witness:
  "decode_owned (DataModeGuard CompactV1) DataCodecLimits_default (take 48 sample_data_wire)
     = Inl (data_error DK_Truncated)
   \<and> decode_owned (DataModeGuard CompactV1) DataCodecLimits_default (sample_data_wire @ [0])
     = Inl (data_error DK_TrailingBytes)"
proof -
  have e: "encode_data_envelope (DataModeGuard CompactV1) sample_data DataCodecLimits_default = Inr sample_data_wire"
    by (simp add: encode_data_envelope_eq_Inr data_ok_def data_bytes_def data_header_def sample_data_def
        sample_data_wire_def to_be_bytes_def byte_indices DATA_MAGIC_def str_def flags_to_bits_def
        COMPACT_DATA_WIRE_VERSION_def DATA_FRAME_KIND_def CONTROL_CHANNEL_ID_def DataCodecLimits_default_def)
  show ?thesis
    using data_envelope_exact [OF e, of 48 "[0]"]
    by (simp add: sample_data_wire_def small_def usize_max_def)
qed

end
