(* ===== verification/Link_Channel_Map.thy ===== *)
theory Link_Channel_Map
  imports Link_Data_Codec
begin

text \<open>
  The session channel map of \<^verbatim>\<open>control.rs\<close>, which binds protocol channels to
  session channels and never reuses a retired session channel. The locale
  \<open>lifetime_table\<close> is the contract shared by this map and by the multiplexer: a table of
  identifiers that are live or retired, in which a retired identifier stays retired and the
  identifiers ever used are bounded. Its lemmas hold for every sequence of operations.
\<close>

subsection \<open>Tables whose identifiers are never reused\<close>

locale lifetime_table =
  fixes inv :: "'s \<Rightarrow> bool"
    and live :: "'s \<Rightarrow> 'i \<Rightarrow> bool"
    and gone :: "'s \<Rightarrow> 'i \<Rightarrow> bool"
    and limit :: "'s \<Rightarrow> nat"
    and step :: "'s \<Rightarrow> 's \<Rightarrow> bool"
  assumes step_inv: "inv s \<Longrightarrow> step s t \<Longrightarrow> inv t"
    and gone_kept: "inv s \<Longrightarrow> step s t \<Longrightarrow> gone s i \<Longrightarrow> gone t i"
    and live_kept: "inv s \<Longrightarrow> step s t \<Longrightarrow> live s i \<Longrightarrow> live t i \<or> gone t i"
    and not_both: "inv s \<Longrightarrow> gone s i \<Longrightarrow> \<not> live s i"
    and limit_kept: "step s t \<Longrightarrow> limit t = limit s"
    and used_bound: "inv s \<Longrightarrow> finite {i. live s i \<or> gone s i} \<and> card {i. live s i \<or> gone s i} \<le> limit s"
begin

lemma steps_inv: "step\<^sup>*\<^sup>* s t \<Longrightarrow> inv s \<Longrightarrow> inv t"
  by (induction rule: rtranclp_induct) (auto intro: step_inv)

lemma steps_gone: "step\<^sup>*\<^sup>* s t \<Longrightarrow> inv s \<Longrightarrow> gone s i \<Longrightarrow> gone t i"
  by (induction rule: rtranclp_induct) (auto intro: gone_kept steps_inv)

lemma steps_used: "step\<^sup>*\<^sup>* s t \<Longrightarrow> inv s \<Longrightarrow> live s i \<or> gone s i \<Longrightarrow> live t i \<or> gone t i"
  by (induction rule: rtranclp_induct) (auto dest: gone_kept live_kept steps_inv)

lemma steps_limit: "step\<^sup>*\<^sup>* s t \<Longrightarrow> limit t = limit s"
  by (induction rule: rtranclp_induct) (auto dest: limit_kept)

lemma never_reused:
  assumes "inv s" and "live s i" and "step\<^sup>*\<^sup>* s t" and "\<not> live t i" and "step\<^sup>*\<^sup>* t u"
  shows "\<not> live u i"
  using assms steps_used steps_gone steps_inv not_both by (metis (full_types))

lemma used_forever_bounded:
  assumes "inv s" and "step\<^sup>*\<^sup>* s t"
  shows "{i. live s i \<or> gone s i} \<subseteq> {i. live t i \<or> gone t i}
    \<and> card {i. live t i \<or> gone t i} \<le> limit s"
  using assms steps_used steps_inv used_bound steps_limit by (metis (mono_tags, lifting) Collect_mono)

end

subsection \<open>The map\<close>

definition MAX_SESSION_CHANNEL_MAPPINGS :: nat where
  "MAX_SESSION_CHANNEL_MAPPINGS = 128"

record SessionChannelBinding =
  bind_channel_id :: ChannelId
  bind_generation :: ChannelGeneration

record SessionChannelMap =
  scm_maximum :: nat
  scm_by_protocol :: "(ProtocolStableId \<times> ProtocolChannelId, SessionChannelBinding) btree"
  scm_by_session :: "(ChannelId, ProtocolStableId \<times> ProtocolChannelId \<times> ChannelGeneration) btree"
  scm_retired :: "ChannelId btset"

definition SessionChannelMap_new :: "nat \<Rightarrow> (LinkControlError, SessionChannelMap) result" where
  "SessionChannelMap_new maximum =
     (if maximum = 0 \<or> maximum > MAX_SESSION_CHANNEL_MAPPINGS then Inl ce_limit_exceeded
      else Inr \<lparr>scm_maximum = maximum, scm_by_protocol = bt_empty, scm_by_session = bt_empty,
                scm_retired = bt_empty\<rparr>)"

definition SessionChannelMap_validate_bind ::
  "SessionChannelMap \<Rightarrow> AcceptChannel \<Rightarrow> (LinkControlError, unit) result" where
  "SessionChannelMap_validate_bind self accepted =
     (if protocol_channel_id_val (accept_protocol_channel_id accepted) = 0
         \<or> channel_id_val (accept_session_channel_id accepted) = 0
      then Inl ce_invalid_channel_mapping
      else
        let protocol_key = (accept_protocol_id accepted, accept_protocol_channel_id accepted) in
        if bt_contains (scm_by_protocol self) protocol_key
           \<or> bt_contains (scm_by_session self) (accept_session_channel_id accepted)
           \<or> bt_contains (scm_retired self) (accept_session_channel_id accepted)
        then Inl ce_duplicate_channel_mapping
        else if usize_sat_add (bt_len (scm_by_protocol self)) (bt_len (scm_retired self)) \<ge> scm_maximum self
        then Inl ce_channel_mapping_limit
        else Inr ())"

definition SessionChannelMap_bind_validated ::
  "SessionChannelMap \<Rightarrow> AcceptChannel \<Rightarrow> SessionChannelBinding \<times> SessionChannelMap" where
  "SessionChannelMap_bind_validated self accepted =
     (let binding = \<lparr>bind_channel_id = accept_session_channel_id accepted,
                     bind_generation = ChannelGeneration_INITIAL\<rparr>;
          protocol_key = (accept_protocol_id accepted, accept_protocol_channel_id accepted);
          self = self\<lparr>scm_by_protocol := bt_insert protocol_key binding (scm_by_protocol self)\<rparr>;
          self = self\<lparr>scm_by_session :=
                   bt_insert (accept_session_channel_id accepted)
                     (accept_protocol_id accepted, accept_protocol_channel_id accepted,
                      bind_generation binding) (scm_by_session self)\<rparr>
      in (binding, self))"

definition SessionChannelMap_bind ::
  "SessionChannelMap \<Rightarrow> AcceptChannel \<Rightarrow> (LinkControlError, SessionChannelBinding) result \<times> SessionChannelMap" where
  "SessionChannelMap_bind self accepted =
     (case SessionChannelMap_validate_bind self accepted of
        Inl e \<Rightarrow> (Inl e, self)
      | Inr _ \<Rightarrow> (let (binding, self) = SessionChannelMap_bind_validated self accepted in (Inr binding, self)))"

definition SessionChannelMap_session_channel ::
  "SessionChannelMap \<Rightarrow> ProtocolStableId \<Rightarrow> ProtocolChannelId \<Rightarrow> ChannelId option" where
  "SessionChannelMap_session_channel self protocol_id protocol_channel_id =
     map_option bind_channel_id (bt_get (scm_by_protocol self) (protocol_id, protocol_channel_id))"

definition SessionChannelMap_binding ::
  "SessionChannelMap \<Rightarrow> ProtocolStableId \<Rightarrow> ProtocolChannelId \<Rightarrow> SessionChannelBinding option" where
  "SessionChannelMap_binding self protocol_id protocol_channel_id =
     bt_get (scm_by_protocol self) (protocol_id, protocol_channel_id)"

definition SessionChannelMap_protocol_channel ::
  "SessionChannelMap \<Rightarrow> ChannelId \<Rightarrow> (ProtocolStableId \<times> ProtocolChannelId) option" where
  "SessionChannelMap_protocol_channel self session_channel_id =
     map_option (\<lambda>(protocol_id, protocol_channel_id, _). (protocol_id, protocol_channel_id))
       (bt_get (scm_by_session self) session_channel_id)"

definition SessionChannelMap_session_binding ::
  "SessionChannelMap \<Rightarrow> ChannelId \<Rightarrow> (ProtocolStableId \<times> ProtocolChannelId \<times> ChannelGeneration) option" where
  "SessionChannelMap_session_binding self session_channel_id = bt_get (scm_by_session self) session_channel_id"

definition SessionChannelMap_unbind ::
  "SessionChannelMap \<Rightarrow> ChannelId \<Rightarrow> (ProtocolStableId \<times> ProtocolChannelId) option \<times> SessionChannelMap" where
  "SessionChannelMap_unbind self session_channel_id =
     (case bt_get (scm_by_session self) session_channel_id of
        None \<Rightarrow> (None, self)
      | Some (protocol_id, protocol_channel_id, _) \<Rightarrow>
          let self = self\<lparr>scm_by_session := bt_remove session_channel_id (scm_by_session self)\<rparr>;
              protocol_key = (protocol_id, protocol_channel_id);
              self = self\<lparr>scm_by_protocol := bt_remove protocol_key (scm_by_protocol self)\<rparr>;
              self = self\<lparr>scm_retired := bs_insert session_channel_id (scm_retired self)\<rparr>
          in (Some protocol_key, self))"

definition SessionChannelMap_len :: "SessionChannelMap \<Rightarrow> nat" where
  "SessionChannelMap_len self = bt_len (scm_by_protocol self)"

definition SessionChannelMap_is_empty :: "SessionChannelMap \<Rightarrow> bool" where
  "SessionChannelMap_is_empty self = (bt_len (scm_by_protocol self) = 0)"

subsection \<open>The two indexes describe one bijection\<close>

definition channel_map_inv :: "SessionChannelMap \<Rightarrow> bool" where
  "channel_map_inv m \<longleftrightarrow>
     (\<forall>p q b. bt_get (scm_by_protocol m) (p, q) = Some b \<longleftrightarrow>
        bt_get (scm_by_session m) (bind_channel_id b) = Some (p, q, bind_generation b))
     \<and> (\<forall>c. bt_contains (scm_by_session m) c \<longrightarrow> \<not> bt_contains (scm_retired m) c \<and> channel_id_val c \<noteq> 0)
     \<and> bt_len (scm_by_protocol m) + bt_len (scm_retired m) \<le> scm_maximum m
     \<and> scm_maximum m \<le> MAX_SESSION_CHANNEL_MAPPINGS"

inductive channel_map_step :: "SessionChannelMap \<Rightarrow> SessionChannelMap \<Rightarrow> bool" where
  cm_bind: "SessionChannelMap_bind m accepted = (r, m') \<Longrightarrow> channel_map_step m m'"
| cm_unbind: "SessionChannelMap_unbind m c = (r, m') \<Longrightarrow> channel_map_step m m'"

lemma bind_cases:
  assumes "SessionChannelMap_bind m a = (r, m')"
  obtains (err) e where "r = Inl e" "m' = m" "SessionChannelMap_validate_bind m a = Inl e"
  | (ok) "SessionChannelMap_validate_bind m a = Inr ()"
      "r = Inr \<lparr>bind_channel_id = accept_session_channel_id a, bind_generation = ChannelGeneration_INITIAL\<rparr>"
      "scm_by_protocol m' = bt_insert (accept_protocol_id a, accept_protocol_channel_id a)
         \<lparr>bind_channel_id = accept_session_channel_id a, bind_generation = ChannelGeneration_INITIAL\<rparr>
         (scm_by_protocol m)"
      "scm_by_session m' = bt_insert (accept_session_channel_id a)
         (accept_protocol_id a, accept_protocol_channel_id a, ChannelGeneration_INITIAL) (scm_by_session m)"
      "scm_retired m' = scm_retired m" "scm_maximum m' = scm_maximum m"
  using assms
  by (auto simp: SessionChannelMap_bind_def SessionChannelMap_bind_validated_def Let_def split: sum.splits)

lemma unbind_cases:
  assumes "SessionChannelMap_unbind m c = (r, m')"
  obtains (none) "r = None" "m' = m" "bt_get (scm_by_session m) c = None"
  | (some) p q g where "bt_get (scm_by_session m) c = Some (p, q, g)" "r = Some (p, q)"
      "scm_by_protocol m' = bt_remove (p, q) (scm_by_protocol m)"
      "scm_by_session m' = bt_remove c (scm_by_session m)"
      "scm_retired m' = bs_insert c (scm_retired m)" "scm_maximum m' = scm_maximum m"
  using assms by (auto simp: SessionChannelMap_unbind_def Let_def split: option.splits)

lemma validate_bind_ok:
  assumes "SessionChannelMap_validate_bind m a = Inr ()"
  shows "channel_id_val (accept_session_channel_id a) \<noteq> 0"
    "bt_get (scm_by_protocol m) (accept_protocol_id a, accept_protocol_channel_id a) = None"
    "bt_get (scm_by_session m) (accept_session_channel_id a) = None"
    "\<not> bt_contains (scm_retired m) (accept_session_channel_id a)"
    "usize_sat_add (bt_len (scm_by_protocol m)) (bt_len (scm_retired m)) < scm_maximum m"
  using assms
  by (simp_all add: SessionChannelMap_validate_bind_def bt_not_contains Let_def not_le split: if_splits)

lemma usize_sat_add_less:
  "usize_sat_add a b < n \<Longrightarrow> n \<le> usize_max \<Longrightarrow> a + b < n"
  by (auto simp: usize_sat_add_def)

lemma bs_len_insert:
  "bt_len (bs_insert c s) = (if bt_contains s c then bt_len s else Suc (bt_len s))"
  by (auto simp: bs_insert_def bt_contains_def)

lemma channel_map_new_inv: "SessionChannelMap_new n = Inr m \<Longrightarrow> channel_map_inv m"
  by (auto simp: SessionChannelMap_new_def channel_map_inv_def split: if_splits)

lemma channel_map_bind_inv:
  assumes inv: "channel_map_inv m" and b: "SessionChannelMap_bind m a = (r, m')"
  shows "channel_map_inv m'"
  using b
proof (cases rule: bind_cases)
  case ok
  note v = validate_bind_ok [OF ok(1)]
  from inv have "scm_maximum m \<le> usize_max"
    by (simp add: channel_map_inv_def MAX_SESSION_CHANNEL_MAPPINGS_def usize_max_def)
  from usize_sat_add_less [OF v(5) this]
  have "bt_len (scm_by_protocol m') + bt_len (scm_retired m') \<le> scm_maximum m'"
    using v(2) by (simp add: ok)
  moreover have "bt_get (scm_by_protocol m') (p', q') = Some b \<longleftrightarrow>
      bt_get (scm_by_session m') (bind_channel_id b) = Some (p', q', bind_generation b)" for p' q' b
    using inv v(2,3) unfolding channel_map_inv_def ok by (auto; metis option.distinct(1))
  ultimately show ?thesis
    using inv v unfolding channel_map_inv_def ok by auto
qed (use inv in simp)

lemma channel_map_unbind_inv:
  assumes inv: "channel_map_inv m" and u: "SessionChannelMap_unbind m c = (r, m')"
  shows "channel_map_inv m'"
  using u
proof (cases rule: unbind_cases)
  case (some p q g)
  let ?b = "\<lparr>bind_channel_id = c, bind_generation = g\<rparr>"
  have pq: "bt_get (scm_by_protocol m) (p, q) = Some ?b"
    using inv some(1) unfolding channel_map_inv_def by simp
  have "\<not> bt_contains (scm_retired m) c"
    using inv some(1) bt_containsI unfolding channel_map_inv_def by metis
  moreover have "Suc (bt_len (scm_by_protocol m')) = bt_len (scm_by_protocol m)"
    unfolding some using pq by (intro bt_len_remove) (rule bt_containsI)
  ultimately have "bt_len (scm_by_protocol m') + bt_len (scm_retired m') \<le> scm_maximum m'"
    using inv unfolding channel_map_inv_def some(5-) by (simp add: bs_len_insert)
  moreover have "bt_get (scm_by_protocol m') (p', q') = Some b \<longleftrightarrow>
      bt_get (scm_by_session m') (bind_channel_id b) = Some (p', q', bind_generation b)" for p' q' b
  proof -
    have "bt_get (scm_by_protocol m) (p', q') = Some b \<longleftrightarrow>
        bt_get (scm_by_session m) (bind_channel_id b) = Some (p', q', bind_generation b)"
      using inv unfolding channel_map_inv_def by blast
    then show ?thesis
      using pq some(1) unfolding some(3,4) by (cases "bind_channel_id b = c") auto
  qed
  ultimately show ?thesis
    using inv unfolding channel_map_inv_def some(3-) by auto
qed (use inv in simp)

lemma channel_map_step_inv: "channel_map_step m m' \<Longrightarrow> channel_map_inv m \<Longrightarrow> channel_map_inv m'"
  by (induction rule: channel_map_step.induct) (auto intro: channel_map_bind_inv channel_map_unbind_inv)

lemma channel_map_used_bound:
  assumes inv: "channel_map_inv m"
  shows "finite {c. bt_contains (scm_by_session m) c \<or> bt_contains (scm_retired m) c}
    \<and> card {c. bt_contains (scm_by_session m) c \<or> bt_contains (scm_retired m) c} \<le> scm_maximum m"
proof -
  let ?S = "{c. bt_contains (scm_by_session m) c}" and ?R = "{c. bt_contains (scm_retired m) c}"
  let ?f = "\<lambda>k. bind_channel_id (the (bt_get (scm_by_protocol m) k))"
  have "?S \<subseteq> ?f ` {k. bt_contains (scm_by_protocol m) k}"
  proof clarify
    fix c assume "bt_contains (scm_by_session m) c"
    then obtain p q g where "bt_get (scm_by_session m) c = Some (p, q, g)"
      by (auto elim!: bt_containsE)
    then have b: "bt_get (scm_by_protocol m) (p, q) = Some \<lparr>bind_channel_id = c, bind_generation = g\<rparr>"
      using inv unfolding channel_map_inv_def by simp
    then have "c = ?f (p, q)" by simp
    with b show "c \<in> ?f ` {k. bt_contains (scm_by_protocol m) k}"
      by (auto intro: bt_containsI)
  qed
  then have "card ?S \<le> bt_len (scm_by_protocol m)"
    using surj_card_le [of "{k. bt_contains (scm_by_protocol m) k}" ?S ?f]
    by (simp add: bt_len_contains)
  moreover have "{c. bt_contains (scm_by_session m) c \<or> bt_contains (scm_retired m) c} = ?S \<union> ?R" by auto
  ultimately show ?thesis
    using inv card_Un_le [of ?S ?R]
    by (simp add: channel_map_inv_def bt_len_contains)
qed

interpretation channel_map:
  lifetime_table channel_map_inv "\<lambda>m. bt_contains (scm_by_session m)" "\<lambda>m. bt_contains (scm_retired m)"
    scm_maximum channel_map_step
proof
  fix m m' :: SessionChannelMap and c
  assume inv: "channel_map_inv m" and st: "channel_map_step m m'"
  show "channel_map_inv m'" using st inv by (rule channel_map_step_inv)
  show "bt_contains (scm_retired m') c" if "bt_contains (scm_retired m) c"
    using st that by (cases; elim bind_cases unbind_cases; auto)
  show "bt_contains (scm_by_session m') c \<or> bt_contains (scm_retired m') c"
    if "bt_contains (scm_by_session m) c"
    using st that by (cases; elim bind_cases unbind_cases; auto)
next
  fix m m' :: SessionChannelMap
  assume "channel_map_step m m'"
  then show "scm_maximum m' = scm_maximum m"
    by (cases; elim bind_cases unbind_cases; auto)
qed (simp add: channel_map_inv_def, blast, rule channel_map_used_bound)

subsection \<open>Properties of the channel map\<close>

lemma lookups_agree:
  assumes "channel_map_inv m"
  shows "SessionChannelMap_session_channel m p q = Some c \<longleftrightarrow> SessionChannelMap_protocol_channel m c = Some (p, q)"
proof
  assume "SessionChannelMap_session_channel m p q = Some c"
  then obtain b where "bt_get (scm_by_protocol m) (p, q) = Some b" "bind_channel_id b = c"
    by (auto simp: SessionChannelMap_session_channel_def)
  with assms show "SessionChannelMap_protocol_channel m c = Some (p, q)"
    unfolding channel_map_inv_def by (auto simp: SessionChannelMap_protocol_channel_def)
next
  assume "SessionChannelMap_protocol_channel m c = Some (p, q)"
  then obtain g where "bt_get (scm_by_session m) c = Some (p, q, g)"
    by (auto simp: SessionChannelMap_protocol_channel_def)
  with assms have "bt_get (scm_by_protocol m) (p, q) = Some \<lparr>bind_channel_id = c, bind_generation = g\<rparr>"
    unfolding channel_map_inv_def by simp
  then show "SessionChannelMap_session_channel m p q = Some c"
    by (simp add: SessionChannelMap_session_channel_def)
qed

text \<open>After any sequence of binds and unbinds on a new map, the protocol index and the
  session index are inverse to each other, channel zero is never bound, and no more channels
  are bound than the map was created for.\<close>

theorem channel_map_bijection:
  assumes "SessionChannelMap_new n = Inr m0" and "channel_map_step\<^sup>*\<^sup>* m0 m"
  shows "(SessionChannelMap_session_channel m p q = Some c \<longleftrightarrow> SessionChannelMap_protocol_channel m c = Some (p, q))
    \<and> SessionChannelMap_protocol_channel m CONTROL_CHANNEL_ID = None
    \<and> SessionChannelMap_len m \<le> n"
proof -
  have inv: "channel_map_inv m"
    using channel_map.steps_inv [OF assms(2)] channel_map_new_inv [OF assms(1)] by simp
  then have "\<not> bt_contains (scm_by_session m) CONTROL_CHANNEL_ID"
    by (auto simp: channel_map_inv_def CONTROL_CHANNEL_ID_def)
  moreover have "scm_maximum m = n"
    using channel_map.steps_limit [OF assms(2)] assms(1)
    by (auto simp: SessionChannelMap_new_def split: if_splits)
  ultimately show ?thesis
    using lookups_agree [OF inv] inv
    by (auto simp: channel_map_inv_def SessionChannelMap_protocol_channel_def SessionChannelMap_len_def
        bt_not_contains)
qed

text \<open>One binding in a map of two.\<close>

definition sample_accept :: AcceptChannel where
  "sample_accept = \<lparr>accept_protocol_id = ProtocolStableId 3, accept_protocol_channel_id = ProtocolChannelId 2,
                    accept_session_channel_id = ChannelId 5\<rparr>"

definition sample_map0 :: SessionChannelMap where
  "sample_map0 = \<lparr>scm_maximum = 2, scm_by_protocol = bt_empty, scm_by_session = bt_empty, scm_retired = bt_empty\<rparr>"

definition sample_map1 :: SessionChannelMap where
  "sample_map1 = snd (SessionChannelMap_bind sample_map0 sample_accept)"

lemma sample_map_new: "SessionChannelMap_new 2 = Inr sample_map0"
  by (simp add: SessionChannelMap_new_def MAX_SESSION_CHANNEL_MAPPINGS_def sample_map0_def)

lemma sample_map_bound: "channel_map_step\<^sup>*\<^sup>* sample_map0 sample_map1"
  using cm_bind [of sample_map0 sample_accept] by (metis prod.collapse r_into_rtranclp sample_map1_def)

lemma sample_map1_lookup: "SessionChannelMap_protocol_channel sample_map1 (ChannelId 5)
    = Some (ProtocolStableId 3, ProtocolChannelId 2)"
  by (simp add: sample_map1_def sample_map0_def sample_accept_def SessionChannelMap_bind_def
      SessionChannelMap_validate_bind_def SessionChannelMap_bind_validated_def usize_sat_add_def usize_max_def Let_def
      SessionChannelMap_protocol_channel_def)

theorem channel_map_bijection_witness:
  "SessionChannelMap_session_channel sample_map1 (ProtocolStableId 3) (ProtocolChannelId 2) = Some (ChannelId 5)
   \<and> SessionChannelMap_len sample_map1 \<le> 2"
  using channel_map_bijection [OF sample_map_new sample_map_bound,
      of "ProtocolStableId 3" "ProtocolChannelId 2" "ChannelId 5"] sample_map1_lookup by simp

text \<open>A bind never rebinds. It either fails and leaves the map as it was, or both the
  protocol channel and the session channel were unbound and unretired before and every other
  lookup is unchanged.\<close>

theorem channel_map_bind_no_rebind:
  "case SessionChannelMap_bind m a of
     (Inl e, m') \<Rightarrow> m' = m
   | (Inr b, m') \<Rightarrow>
       bind_channel_id b = accept_session_channel_id a
       \<and> SessionChannelMap_protocol_channel m (accept_session_channel_id a) = None
       \<and> SessionChannelMap_session_channel m (accept_protocol_id a) (accept_protocol_channel_id a) = None
       \<and> \<not> bt_contains (scm_retired m) (accept_session_channel_id a)
       \<and> SessionChannelMap_protocol_channel m' =
           (SessionChannelMap_protocol_channel m)
             (accept_session_channel_id a \<mapsto> (accept_protocol_id a, accept_protocol_channel_id a))
       \<and> (\<lambda>(p, q). SessionChannelMap_session_channel m' p q) =
           (\<lambda>(p, q). SessionChannelMap_session_channel m p q)
             ((accept_protocol_id a, accept_protocol_channel_id a) \<mapsto> accept_session_channel_id a)"
proof (cases "SessionChannelMap_bind m a")
  case (Pair r m')
  then show ?thesis
  proof (cases rule: bind_cases)
    case ok
    show ?thesis
      using validate_bind_ok [OF ok(1)] unfolding Pair ok(2)
      by (auto simp: SessionChannelMap_protocol_channel_def SessionChannelMap_session_channel_def
          ok(3-) fun_eq_iff)
  qed (simp add: Pair)
qed

text \<open>C4: a session channel that was unbound stays unbound: no later sequence of operations
  binds it again, and the session channels ever used never outnumber the limit.\<close>

theorem channel_map_never_reused:
  assumes "SessionChannelMap_new n = Inr m0" and "channel_map_step\<^sup>*\<^sup>* m0 m"
    and "SessionChannelMap_unbind m c = (Some k, m1)" and "channel_map_step\<^sup>*\<^sup>* m1 m2"
  shows "SessionChannelMap_protocol_channel m2 c = None
    \<and> card {c. bt_contains (scm_by_session m2) c \<or> bt_contains (scm_retired m2) c} \<le> n"
proof -
  have inv0: "channel_map_inv m0" using assms(1) by (rule channel_map_new_inv)
  have inv: "channel_map_inv m" using channel_map.steps_inv [OF assms(2) inv0] .
  have m1: "channel_map_step m m1" using assms(3) by (rule cm_unbind)
  from assms(3) have "bt_contains (scm_by_session m) c" "\<not> bt_contains (scm_by_session m1) c"
    by (auto elim!: unbind_cases intro: bt_containsI)
  then have "\<not> bt_contains (scm_by_session m2) c"
    using channel_map.never_reused [OF inv _ r_into_rtranclp [of channel_map_step, OF m1] _ assms(4)] by blast
  moreover have "channel_map_step\<^sup>*\<^sup>* m0 m2" using assms(2,4) m1 by (meson rtranclp.rtrancl_into_rtrancl rtranclp_trans)
  ultimately show ?thesis
    using channel_map.used_forever_bounded [OF inv0, of m2] assms(1)
    by (auto simp: SessionChannelMap_protocol_channel_def bt_not_contains SessionChannelMap_new_def split: if_splits)
qed

text \<open>C4 witness: the binding of the sample map is removed.\<close>

theorem channel_map_never_reused_witness:
  "SessionChannelMap_protocol_channel (snd (SessionChannelMap_unbind sample_map1 (ChannelId 5))) (ChannelId 5) = None"
proof -
  have "fst (SessionChannelMap_unbind sample_map1 (ChannelId 5)) = Some (ProtocolStableId 3, ProtocolChannelId 2)"
    using sample_map1_lookup
    by (auto simp: SessionChannelMap_unbind_def SessionChannelMap_protocol_channel_def Let_def split: option.splits)
  then have "SessionChannelMap_unbind sample_map1 (ChannelId 5) =
      (Some (ProtocolStableId 3, ProtocolChannelId 2), snd (SessionChannelMap_unbind sample_map1 (ChannelId 5)))"
    by (metis prod.collapse)
  from channel_map_never_reused [OF sample_map_new sample_map_bound this rtranclp.rtrancl_refl]
  show ?thesis by simp
qed

end
