(* ===== verification/Link_Mux.thy ===== *)
theory Link_Mux
  imports Link_Channel_Map
begin

text \<open>
  The multiplexer of \<^verbatim>\<open>mux.rs\<close>: per-channel bounded queues, a reserved control
  queue, weighted-fair scheduling by virtual finish times, cancellation, closing and
  resource limits. A mutating method is a function from the state to its result and the new
  state. \<^verbatim>\<open>total_pending\<close> is a natural number; the invariant \<open>mux_inv\<close> equates it
  with the frames that are really queued, so the source's unchecked subtractions never
  underflow. The loop of \<^verbatim>\<open>next_outbound\<close> is a recursive function whose
  termination is proved.
\<close>

subsection \<open>Configuration and state\<close>

datatype ChannelKey =
  ChannelKey (key_protocol_id: ProtocolStableId) (key_version: ProtocolVersion)
    (key_protocol_channel_id: ProtocolChannelId)

instantiation ChannelKey :: linorder
begin
definition less_eq_ChannelKey :: "ChannelKey \<Rightarrow> ChannelKey \<Rightarrow> bool" where
  "less_eq_ChannelKey a b =
     ((key_protocol_id a, key_version a, key_protocol_channel_id a)
      \<le> (key_protocol_id b, key_version b, key_protocol_channel_id b))"
definition less_ChannelKey :: "ChannelKey \<Rightarrow> ChannelKey \<Rightarrow> bool" where
  "less_ChannelKey a b =
     ((key_protocol_id a, key_version a, key_protocol_channel_id a)
      < (key_protocol_id b, key_version b, key_protocol_channel_id b))"
instance
  by standard (auto simp: less_eq_ChannelKey_def less_ChannelKey_def intro: ChannelKey.expand)
end

datatype ChannelMode = RequestResponse | Event | Stream

record ChannelConfig =
  cfg_key :: ChannelKey
  cfg_id :: ChannelId
  cfg_generation :: ChannelGeneration
  cfg_mode :: ChannelMode
  cfg_priority_hint :: u8
  cfg_capacity :: nat
  cfg_max_frame_bytes :: nat
  cfg_max_stream_bytes :: "u64 option"
  cfg_discardable :: bool

datatype OutboundFrame = Out_Control bytes | Out_Data Envelope

datatype QueueAdmission = Enqueued | DroppedDiscardable

record MultiplexerLimits =
  lim_max_frame_bytes :: nat
  lim_max_nesting_depth :: u16
  lim_max_channels :: nat
  lim_control_queue_capacity :: nat
  lim_max_total_pending_frames :: nat

definition MultiplexerLimits_default :: MultiplexerLimits where
  "MultiplexerLimits_default =
     \<lparr>lim_max_frame_bytes = 1024 * 1024, lim_max_nesting_depth = 32, lim_max_channels = 64,
      lim_control_queue_capacity = 32, lim_max_total_pending_frames = 512\<rparr>"

record ChannelState =
  st_config :: ChannelConfig
  st_queue :: "Envelope list"
  st_cancelled :: bool
  st_stream_bytes :: u64
  st_virtual_finish :: u128

record Multiplexer =
  mux_session_id :: SessionId
  mux_limits :: MultiplexerLimits
  mux_channels :: "(ChannelId, ChannelState) btree"
  mux_keys :: "(ChannelKey, ChannelId list) btree"
  mux_retired_channels :: "ChannelId btset"
  mux_control :: "bytes list"
  mux_ready :: "ChannelId list"
  mux_virtual_time :: u128
  mux_total_pending :: nat
  mux_allowed_protocols :: "(ProtocolStableId \<times> ProtocolVersion) btset option"

definition Multiplexer_new :: "SessionId \<Rightarrow> MultiplexerLimits \<Rightarrow> (LinkError, Multiplexer) result" where
  "Multiplexer_new session_id limits =
     (if lim_max_frame_bytes limits = 0 \<or> lim_max_channels limits = 0
         \<or> lim_control_queue_capacity limits = 0 \<or> lim_max_total_pending_frames limits = 0
      then Inl (InvalidInput ''multiplexer limits must be positive'')
      else Inr
        \<lparr>mux_session_id = session_id, mux_limits = limits, mux_channels = bt_empty, mux_keys = bt_empty,
         mux_retired_channels = bt_empty, mux_control = [], mux_ready = [], mux_virtual_time = 0,
         mux_total_pending = 0, mux_allowed_protocols = None\<rparr>)"

definition Multiplexer_restricted ::
  "SessionId \<Rightarrow> MultiplexerLimits \<Rightarrow> (ProtocolStableId \<times> ProtocolVersion) list \<Rightarrow> (LinkError, Multiplexer) result" where
  "Multiplexer_restricted session_id limits protocols =
     result_bind (Multiplexer_new session_id limits) (\<lambda>multiplexer.
     Inr (multiplexer\<lparr>mux_allowed_protocols := Some (bs_of_list protocols)\<rparr>))"

subsection \<open>Channels\<close>

definition Multiplexer_open_channel :: "Multiplexer \<Rightarrow> ChannelConfig \<Rightarrow> (LinkError, unit) result \<times> Multiplexer" where
  "Multiplexer_open_channel self config =
     (if cfg_id config = CONTROL_CHANNEL_ID
      then (Inl (InvalidInput ''channel zero is reserved for control''), self)
      else if generation_val (cfg_generation config) = 0 \<or> cfg_capacity config = 0 \<or> cfg_max_frame_bytes config = 0
      then (Inl (InvalidInput ''channel generation and limits must be positive''), self)
      else if cfg_discardable config \<and> cfg_mode config \<noteq> Event
      then (Inl (InvalidInput ''only event channels may be discardable''), self)
      else if (cfg_mode config = Stream) \<noteq> (cfg_max_stream_bytes config \<noteq> None)
      then (Inl (InvalidInput ''stream byte limits must match channel mode''), self)
      else if (case mux_allowed_protocols self of
                 None \<Rightarrow> False
               | Some allowed \<Rightarrow> \<not> bt_contains allowed (key_protocol_id (cfg_key config), key_version (cfg_key config)))
      then (Inl NamespaceConflict, self)
      else if usize_sat_add (bt_len (mux_channels self)) (bt_len (mux_retired_channels self))
              \<ge> lim_max_channels (mux_limits self)
      then (Inl (LimitExceeded Channels (lim_max_channels (mux_limits self))), self)
      else if bt_contains (mux_retired_channels self) (cfg_id config)
      then (Inl (ClosedChannel (channel_id_val (cfg_id config))), self)
      else if bt_contains (mux_channels self) (cfg_id config)
      then (Inl NamespaceConflict, self)
      else
        let ids = (case bt_get (mux_keys self) (cfg_key config) of None \<Rightarrow> [] | Some ids \<Rightarrow> ids);
            self = self\<lparr>mux_keys := bt_insert (cfg_key config) (ids @ [cfg_id config]) (mux_keys self)\<rparr>;
            self = self\<lparr>mux_channels :=
                     bt_insert (cfg_id config)
                       \<lparr>st_config = config, st_queue = [], st_cancelled = False, st_stream_bytes = 0,
                        st_virtual_finish = mux_virtual_time self\<rparr> (mux_channels self)\<rparr>
        in (Inr (), self))"

definition Multiplexer_validate_payload ::
  "Multiplexer \<Rightarrow> bytes \<Rightarrow> u16 \<Rightarrow> (LinkError, unit) result" where
  "Multiplexer_validate_payload self payload nesting_depth =
     (if length payload > lim_max_frame_bytes (mux_limits self)
      then Inl (LimitExceeded FrameBytes (lim_max_frame_bytes (mux_limits self)))
      else if nesting_depth > lim_max_nesting_depth (mux_limits self)
      then Inl (LimitExceeded NestingDepth (unat (lim_max_nesting_depth (mux_limits self))))
      else Inr ())"

definition Multiplexer_validate_envelope_identity :: "Multiplexer \<Rightarrow> Envelope \<Rightarrow> (LinkError, unit) result" where
  "Multiplexer_validate_envelope_identity self envelope =
     (if dat_session_id envelope \<noteq> mux_session_id self then Inl SessionMismatch
      else if dat_channel_id envelope = CONTROL_CHANNEL_ID
      then Inl (InvalidInput ''channel zero cannot carry a data envelope'')
      else if bt_contains (mux_retired_channels self) (dat_channel_id envelope)
      then Inl (ClosedChannel (channel_id_val (dat_channel_id envelope)))
      else Multiplexer_validate_payload self (dat_payload envelope) (dat_nesting_depth envelope))"

definition Multiplexer_closed_or_unknown :: "Multiplexer \<Rightarrow> ChannelId \<Rightarrow> LinkError" where
  "Multiplexer_closed_or_unknown self ident =
     (if bt_contains (mux_retired_channels self) ident then ClosedChannel (channel_id_val ident)
      else UnknownChannel (channel_id_val ident))"

subsection \<open>Admission\<close>

definition Multiplexer_enqueue_control :: "Multiplexer \<Rightarrow> bytes \<Rightarrow> (LinkError, unit) result \<times> Multiplexer" where
  "Multiplexer_enqueue_control self payload =
     (case Multiplexer_validate_payload self payload 0 of
        Inl e \<Rightarrow> (Inl e, self)
      | Inr _ \<Rightarrow>
          if length (mux_control self) \<ge> lim_control_queue_capacity (mux_limits self)
          then (Inl (Backpressure (channel_id_val CONTROL_CHANNEL_ID)
                      (lim_control_queue_capacity (mux_limits self))), self)
          else (Inr (), self\<lparr>mux_control := mux_control self @ [payload],
                             mux_total_pending := mux_total_pending self + 1\<rparr>))"

text \<open>The common end of both admission paths: a channel that was idle joins the ready list
  with a finish time no earlier than the virtual time, then the frame is appended.\<close>

definition push_frame :: "Multiplexer \<Rightarrow> ChannelId \<Rightarrow> ChannelState \<Rightarrow> Envelope \<Rightarrow> Multiplexer" where
  "push_frame self channel_id state envelope =
     (let (state, ready) =
            (if st_queue state = []
             then (state\<lparr>st_virtual_finish := max (st_virtual_finish state) (mux_virtual_time self)\<rparr>,
                   mux_ready self @ [channel_id])
             else (state, mux_ready self));
          state = state\<lparr>st_queue := st_queue state @ [envelope]\<rparr>
      in self\<lparr>mux_channels := bt_insert channel_id state (mux_channels self), mux_ready := ready,
              mux_total_pending := mux_total_pending self + 1\<rparr>)"

definition Multiplexer_enqueue :: "Multiplexer \<Rightarrow> Envelope \<Rightarrow> (LinkError, unit) result \<times> Multiplexer" where
  "Multiplexer_enqueue self envelope =
     (case Multiplexer_validate_envelope_identity self envelope of
        Inl e \<Rightarrow> (Inl e, self)
      | Inr _ \<Rightarrow>
        if mux_total_pending self \<ge> lim_max_total_pending_frames (mux_limits self)
        then (Inl (LimitExceeded PendingFrames (lim_max_total_pending_frames (mux_limits self))), self)
        else
          let channel_id = dat_channel_id envelope in
          (case bt_get (mux_channels self) channel_id of
             None \<Rightarrow> (Inl (UnknownChannel (channel_id_val channel_id)), self)
           | Some state \<Rightarrow>
               if cfg_generation (st_config state) \<noteq> dat_generation envelope
               then (Inl (ChannelGenerationMismatch (channel_id_val channel_id)), self)
               else if length (dat_payload envelope) > cfg_max_frame_bytes (st_config state)
               then (Inl (LimitExceeded FrameBytes (cfg_max_frame_bytes (st_config state))), self)
               else if st_cancelled state then (Inl (ChannelCancelled (channel_id_val channel_id)), self)
               else if length (st_queue state) \<ge> cfg_capacity (st_config state)
               then (Inl (Backpressure (channel_id_val channel_id) (cfg_capacity (st_config state))), self)
               else
                 (case cfg_max_stream_bytes (st_config state) of
                    None \<Rightarrow> (Inr (), push_frame self channel_id state envelope)
                  | Some max_stream_bytes \<Rightarrow>
                      if length (dat_payload envelope) \<ge> 2 ^ 64
                      then (Inl (LimitExceeded StreamBytes usize_max), self)
                      else
                        let next_stream_bytes = sat_add (st_stream_bytes state) (of_nat (length (dat_payload envelope))) in
                        if next_stream_bytes > max_stream_bytes
                        then (Inl (LimitExceeded StreamBytes (unat max_stream_bytes)), self)
                        else (Inr (), push_frame self channel_id
                                (state\<lparr>st_stream_bytes := next_stream_bytes\<rparr>) envelope))))"

definition Multiplexer_enqueue_discardable ::
  "Multiplexer \<Rightarrow> Envelope \<Rightarrow> (LinkError, QueueAdmission) result \<times> Multiplexer" where
  "Multiplexer_enqueue_discardable self envelope =
     (case Multiplexer_validate_envelope_identity self envelope of
        Inl e \<Rightarrow> (Inl e, self)
      | Inr _ \<Rightarrow>
          let channel_id = dat_channel_id envelope in
          (case bt_get (mux_channels self) channel_id of
             None \<Rightarrow> (Inl (UnknownChannel (channel_id_val channel_id)), self)
           | Some state \<Rightarrow>
               if cfg_generation (st_config state) \<noteq> dat_generation envelope
               then (Inl (ChannelGenerationMismatch (channel_id_val channel_id)), self)
               else if length (dat_payload envelope) > cfg_max_frame_bytes (st_config state)
               then (Inl (LimitExceeded FrameBytes (cfg_max_frame_bytes (st_config state))), self)
               else if cfg_mode (st_config state) \<noteq> Event \<or> \<not> cfg_discardable (st_config state)
               then (Inl (InvalidInput ''only event channels may discard frames under pressure''), self)
               else if st_cancelled state then (Inl (ChannelCancelled (channel_id_val channel_id)), self)
               else if mux_total_pending self \<ge> lim_max_total_pending_frames (mux_limits self)
                    \<or> length (st_queue state) \<ge> cfg_capacity (st_config state)
               then (Inr DroppedDiscardable, self)
               else (Inr Enqueued, push_frame self channel_id state envelope)))"

subsection \<open>Scheduling\<close>

definition PRIORITY_BANDS :: u8 where
  "PRIORITY_BANDS = 8"

definition word_div_ceil :: "'a::len word \<Rightarrow> 'a word \<Rightarrow> 'a word" where
  "word_div_ceil a b = (if a mod b > 0 then a div b + 1 else a div b)"

definition scheduling_cost :: "nat \<Rightarrow> u8 \<Rightarrow> u128" where
  "scheduling_cost payload_len priority_hint =
     (let bytes = of_nat (max payload_len 1);
          band_width = word_div_ceil (- 1) PRIORITY_BANDS;
          weight = ucast (priority_hint div band_width + 1)
      in word_div_ceil (sat_mul bytes (ucast PRIORITY_BANDS)) weight)"

definition ready_candidates :: "Multiplexer \<Rightarrow> (nat \<times> u128) list" where
  "ready_candidates self =
     List.map_filter (\<lambda>(index, channel_id).
        case bt_get (mux_channels self) channel_id of
          None \<Rightarrow> None
        | Some state \<Rightarrow> (case st_queue state of [] \<Rightarrow> None | _ # _ \<Rightarrow> Some (index, st_virtual_finish state)))
       (enumerate 0 (mux_ready self))"

fun min_candidate :: "(nat \<times> u128) list \<Rightarrow> (nat \<times> u128) option" where
  "min_candidate [] = None"
| "min_candidate ((i, v) # cs) =
     (case min_candidate cs of
        None \<Rightarrow> Some (i, v)
      | Some (j, w) \<Rightarrow> if (v, i) \<le> (w, j) then Some (i, v) else Some (j, w))"

definition selected_candidate :: "Multiplexer \<Rightarrow> (nat \<times> u128) option" where
  "selected_candidate self = min_candidate (ready_candidates self)"

definition remove_at :: "nat \<Rightarrow> 'a list \<Rightarrow> 'a list" where
  "remove_at i xs = take i xs @ drop (Suc i) xs"

lemma min_candidate_in: "min_candidate cs = Some c \<Longrightarrow> c \<in> set cs"
  by (induction cs arbitrary: c rule: min_candidate.induct) (auto split: option.splits if_splits)

lemma ready_candidates_in:
  "(i, v) \<in> set (ready_candidates m) \<longleftrightarrow>
   i < length (mux_ready m)
   \<and> (\<exists>st. bt_get (mux_channels m) (mux_ready m ! i) = Some st \<and> st_queue st \<noteq> [] \<and> v = st_virtual_finish st)"
proof -
  have "(i, v) \<in> set (ready_candidates m) \<longleftrightarrow>
    (\<exists>x \<in> set (enumerate 0 (mux_ready m)).
      (case x of (index, channel_id) \<Rightarrow>
        case bt_get (mux_channels m) channel_id of
          None \<Rightarrow> None
        | Some state \<Rightarrow> (case st_queue state of [] \<Rightarrow> None | _ # _ \<Rightarrow> Some (index, st_virtual_finish state)))
      = Some (i, v))"
    unfolding ready_candidates_def List.map_filter_def by force
  also have "\<dots> \<longleftrightarrow> i < length (mux_ready m)
   \<and> (\<exists>st. bt_get (mux_channels m) (mux_ready m ! i) = Some st \<and> st_queue st \<noteq> [] \<and> v = st_virtual_finish st)"
    by (auto simp: in_set_enumerate_eq neq_Nil_conv split: option.splits list.splits
        intro!: bexI [of _ "(i, mux_ready m ! i)"])
  finally show ?thesis .
qed

lemma selected_candidate_in:
  "selected_candidate m = Some (i, v) \<Longrightarrow> (i, v) \<in> set (ready_candidates m)"
  by (simp add: selected_candidate_def min_candidate_in)

function next_data :: "Multiplexer \<Rightarrow> OutboundFrame option \<times> Multiplexer" where
  "next_data self =
     (case selected_candidate self of
        None \<Rightarrow> (None, self\<lparr>mux_ready := []\<rparr>)
      | Some (index, _) \<Rightarrow>
          if index \<ge> length (mux_ready self) then next_data self
          else
            let channel_id = mux_ready self ! index;
                self' = self\<lparr>mux_ready := remove_at index (mux_ready self)\<rparr> in
            (case bt_get (mux_channels self') channel_id of
               None \<Rightarrow> next_data self'
             | Some state \<Rightarrow>
                 (case st_queue state of
                    [] \<Rightarrow> next_data self'
                  | envelope # queue \<Rightarrow>
                      let start = max (st_virtual_finish state) (mux_virtual_time self');
                          state = state\<lparr>st_queue := queue,
                                        st_virtual_finish := sat_add start (scheduling_cost
                                           (length (dat_payload envelope)) (cfg_priority_hint (st_config state)))\<rparr>
                      in (Some (Out_Data envelope),
                          self'\<lparr>mux_virtual_time := start,
                                mux_channels := bt_insert channel_id state (mux_channels self'),
                                mux_ready := (if st_queue state \<noteq> [] then mux_ready self' @ [channel_id]
                                              else mux_ready self'),
                                mux_total_pending := mux_total_pending self' - 1\<rparr>))))"
  by pat_completeness auto
termination
  by (relation "measure (\<lambda>m. length (mux_ready m))")
    (auto dest!: selected_candidate_in simp: ready_candidates_in remove_at_def)

definition Multiplexer_next_outbound :: "Multiplexer \<Rightarrow> OutboundFrame option \<times> Multiplexer" where
  "Multiplexer_next_outbound self =
     (case mux_control self of
        control # rest \<Rightarrow>
          (Some (Out_Control control),
           self\<lparr>mux_control := rest, mux_total_pending := mux_total_pending self - 1\<rparr>)
      | [] \<Rightarrow> next_data self)"

subsection \<open>Cancelling, closing and discarding\<close>

definition Multiplexer_cancel_channel :: "Multiplexer \<Rightarrow> ChannelId \<Rightarrow> (LinkError, nat) result \<times> Multiplexer" where
  "Multiplexer_cancel_channel self ident =
     (case bt_get (mux_channels self) ident of
        None \<Rightarrow> (Inl (UnknownChannel (channel_id_val ident)), self)
      | Some state \<Rightarrow>
          let discarded = length (st_queue state);
              state = state\<lparr>st_cancelled := True, st_queue := []\<rparr>
          in (Inr discarded,
              self\<lparr>mux_channels := bt_insert ident state (mux_channels self),
                   mux_ready := filter (\<lambda>ready. ready \<noteq> ident) (mux_ready self),
                   mux_total_pending := mux_total_pending self - discarded\<rparr>))"

definition Multiplexer_close_channel :: "Multiplexer \<Rightarrow> ChannelId \<Rightarrow> (LinkError, nat) result \<times> Multiplexer" where
  "Multiplexer_close_channel self ident =
     (case bt_get (mux_channels self) ident of
        None \<Rightarrow> (Inl (Multiplexer_closed_or_unknown self ident), self)
      | Some state \<Rightarrow>
          let discarded = length (st_queue state);
              key = cfg_key (st_config state);
              keys = (case bt_get (mux_keys self) key of
                        None \<Rightarrow> mux_keys self
                      | Some ids \<Rightarrow>
                          let ids = filter (\<lambda>channel_id. channel_id \<noteq> ident) ids in
                          if ids = [] then bt_remove key (mux_keys self)
                          else bt_insert key ids (mux_keys self))
          in (Inr discarded,
              self\<lparr>mux_channels := bt_remove ident (mux_channels self),
                   mux_ready := filter (\<lambda>ready. ready \<noteq> ident) (mux_ready self),
                   mux_total_pending := mux_total_pending self - discarded,
                   mux_keys := keys,
                   mux_retired_channels := bs_insert ident (mux_retired_channels self)\<rparr>))"

definition Multiplexer_pending_frames :: "Multiplexer \<Rightarrow> nat" where
  "Multiplexer_pending_frames self = mux_total_pending self"

definition Multiplexer_discard_all :: "Multiplexer \<Rightarrow> nat \<times> Multiplexer" where
  "Multiplexer_discard_all self =
     (mux_total_pending self,
      self\<lparr>mux_control := [], mux_ready := [],
           mux_channels := bt_map_values (\<lambda>state. state\<lparr>st_queue := []\<rparr>) (mux_channels self),
           mux_total_pending := 0\<rparr>)"

definition Multiplexer_channels_for ::
  "Multiplexer \<Rightarrow> ProtocolStableId \<Rightarrow> ProtocolVersion \<Rightarrow> ProtocolChannelId \<Rightarrow> ChannelId list" where
  "Multiplexer_channels_for self protocol_id version protocol_channel_id =
     (case bt_get (mux_keys self) (ChannelKey protocol_id version protocol_channel_id) of
        None \<Rightarrow> [] | Some ids \<Rightarrow> ids)"

subsection \<open>The loop serves the first candidate\<close>

lemma min_candidate_le:
  "min_candidate cs = Some (i, v) \<Longrightarrow> (j, w) \<in> set cs \<Longrightarrow> (v, i) \<le> (w, j)"
proof (induction cs arbitrary: i v rule: min_candidate.induct)
  case (2 k u cs)
  show ?case
  proof (cases "min_candidate cs")
    case None
    then have "cs = []" by (cases cs rule: min_candidate.cases) (auto split: option.splits if_splits)
    with 2 show ?thesis by auto
  next
    case (Some c)
    obtain x y where c: "c = (x, y)" by fastforce
    show ?thesis
    proof (cases "(u, k) \<le> (y, x)")
      case True
      with 2 Some c have "i = k" "v = u" by auto
      with 2 Some c True show ?thesis by (auto intro: order_trans)
    next
      case False
      with 2 Some c have "i = x" "v = y" by auto
      with 2 Some c False show ?thesis by auto
    qed
  qed
qed simp

lemma min_candidate_None: "min_candidate cs = None \<longleftrightarrow> cs = []"
  by (cases cs rule: min_candidate.cases) (auto split: option.splits if_splits)

definition serve :: "Multiplexer \<Rightarrow> nat \<Rightarrow> ChannelState \<Rightarrow> Envelope \<Rightarrow> Envelope list \<Rightarrow> Multiplexer" where
  "serve m i st e q =
     m\<lparr>mux_ready := remove_at i (mux_ready m) @ (if q \<noteq> [] then [mux_ready m ! i] else []),
       mux_virtual_time := max (st_virtual_finish st) (mux_virtual_time m),
       mux_channels := bt_insert (mux_ready m ! i)
         (st\<lparr>st_queue := q,
             st_virtual_finish := sat_add (max (st_virtual_finish st) (mux_virtual_time m))
               (scheduling_cost (length (dat_payload e)) (cfg_priority_hint (st_config st)))\<rparr>)
         (mux_channels m),
       mux_total_pending := mux_total_pending m - 1\<rparr>"

lemma next_data_cases:
  obtains (idle) "ready_candidates m = []" "next_data m = (None, m\<lparr>mux_ready := []\<rparr>)"
  | (serve) i st e q where "i < length (mux_ready m)"
      "bt_get (mux_channels m) (mux_ready m ! i) = Some st" "st_queue st = e # q"
      "next_data m = (Some (Out_Data e), serve m i st e q)"
      "\<And>j w. (j, w) \<in> set (ready_candidates m) \<Longrightarrow> (st_virtual_finish st, i) \<le> (w, j)"
proof (cases "selected_candidate m")
  case None
  then show ?thesis by (intro idle) (simp_all add: selected_candidate_def min_candidate_None)
next
  case (Some c)
  obtain i v where c: "c = (i, v)" by fastforce
  with Some have "(i, v) \<in> set (ready_candidates m)" by (simp add: selected_candidate_in)
  then obtain st where st: "i < length (mux_ready m)" "bt_get (mux_channels m) (mux_ready m ! i) = Some st"
      "st_queue st \<noteq> []" "v = st_virtual_finish st"
    by (auto simp: ready_candidates_in)
  then obtain e q where q: "st_queue st = e # q" by (cases "st_queue st") auto
  have "next_data m = (Some (Out_Data e), serve m i st e q)"
    using Some c st q by (subst next_data.simps) (simp add: serve_def Let_def)
  moreover have "(st_virtual_finish st, i) \<le> (w, j)" if "(j, w) \<in> set (ready_candidates m)" for j w
    using min_candidate_le [of "ready_candidates m" i v j w] Some c st that
    by (simp add: selected_candidate_def)
  ultimately show ?thesis by (intro serve [OF st(1,2) q])
qed

declare next_data.simps [simp del]

subsection \<open>The invariant\<close>

definition frame_ok :: "Multiplexer \<Rightarrow> ChannelConfig \<Rightarrow> Envelope \<Rightarrow> bool" where
  "frame_ok m cfg e \<longleftrightarrow>
     dat_session_id e = mux_session_id m \<and> dat_channel_id e = cfg_id cfg \<and> dat_generation e = cfg_generation cfg
     \<and> length (dat_payload e) \<le> lim_max_frame_bytes (mux_limits m)
     \<and> length (dat_payload e) \<le> cfg_max_frame_bytes cfg
     \<and> dat_nesting_depth e \<le> lim_max_nesting_depth (mux_limits m)"

definition config_ok :: "ChannelConfig \<Rightarrow> bool" where
  "config_ok cfg \<longleftrightarrow>
     cfg_id cfg \<noteq> CONTROL_CHANNEL_ID \<and> generation_val (cfg_generation cfg) \<noteq> 0
     \<and> cfg_capacity cfg \<noteq> 0 \<and> cfg_max_frame_bytes cfg \<noteq> 0
     \<and> (cfg_discardable cfg \<longrightarrow> cfg_mode cfg = Event)
     \<and> (cfg_mode cfg = Stream \<longleftrightarrow> cfg_max_stream_bytes cfg \<noteq> None)"

definition protocol_allowed :: "Multiplexer \<Rightarrow> ChannelKey \<Rightarrow> bool" where
  "protocol_allowed m k =
     (case mux_allowed_protocols m of None \<Rightarrow> True
      | Some allowed \<Rightarrow> bt_contains allowed (key_protocol_id k, key_version k))"

definition channel_ok :: "Multiplexer \<Rightarrow> ChannelId \<Rightarrow> ChannelState \<Rightarrow> bool" where
  "channel_ok m c st \<longleftrightarrow>
     cfg_id (st_config st) = c \<and> config_ok (st_config st) \<and> protocol_allowed m (cfg_key (st_config st))
     \<and> \<not> bt_contains (mux_retired_channels m) c
     \<and> length (st_queue st) \<le> cfg_capacity (st_config st)
     \<and> (st_cancelled st \<longrightarrow> st_queue st = [])
     \<and> (\<forall>b. cfg_max_stream_bytes (st_config st) = Some b \<longrightarrow> st_stream_bytes st \<le> b)
     \<and> list_all (frame_ok m (st_config st)) (st_queue st)"

definition data_pending :: "Multiplexer \<Rightarrow> nat" where
  "data_pending m = bt_sum (\<lambda>st. length (st_queue st)) (mux_channels m)"

definition channel_key_of :: "Multiplexer \<Rightarrow> ChannelId \<Rightarrow> ChannelKey option" where
  "channel_key_of m c = map_option (\<lambda>st. cfg_key (st_config st)) (bt_get (mux_channels m) c)"

definition channels_inv :: "Multiplexer \<Rightarrow> bool" where
  "channels_inv m \<longleftrightarrow> (\<forall>c st. bt_get (mux_channels m) c = Some st \<longrightarrow> channel_ok m c st)"

definition ready_inv :: "Multiplexer \<Rightarrow> bool" where
  "ready_inv m \<longleftrightarrow>
     distinct (mux_ready m)
     \<and> (\<forall>c. c \<in> set (mux_ready m) \<longleftrightarrow> (\<exists>st. bt_get (mux_channels m) c = Some st \<and> st_queue st \<noteq> []))
     \<and> (\<forall>c st. c \<in> set (mux_ready m) \<longrightarrow> bt_get (mux_channels m) c = Some st \<longrightarrow>
          mux_virtual_time m \<le> st_virtual_finish st)"

definition pending_inv :: "Multiplexer \<Rightarrow> bool" where
  "pending_inv m \<longleftrightarrow>
     mux_total_pending m = length (mux_control m) + data_pending m
     \<and> data_pending m \<le> lim_max_total_pending_frames (mux_limits m)
     \<and> length (mux_control m) \<le> lim_control_queue_capacity (mux_limits m)
     \<and> list_all (\<lambda>p. length p \<le> lim_max_frame_bytes (mux_limits m)) (mux_control m)"

definition table_inv :: "Multiplexer \<Rightarrow> bool" where
  "table_inv m \<longleftrightarrow>
     bt_len (mux_channels m) + bt_len (mux_retired_channels m) \<le> lim_max_channels (mux_limits m)
     \<and> lim_max_channels (mux_limits m) \<le> usize_max"

definition keys_inv :: "Multiplexer \<Rightarrow> bool" where
  "keys_inv m \<longleftrightarrow>
     (\<forall>k. case bt_get (mux_keys m) k of
            None \<Rightarrow> \<forall>c. channel_key_of m c \<noteq> Some k
          | Some ids \<Rightarrow> ids \<noteq> [] \<and> distinct ids \<and> (\<forall>c. c \<in> set ids \<longleftrightarrow> channel_key_of m c = Some k))"

definition mux_inv :: "Multiplexer \<Rightarrow> bool" where
  "mux_inv m \<longleftrightarrow> channels_inv m \<and> ready_inv m \<and> pending_inv m \<and> table_inv m \<and> keys_inv m"

lemma mux_new_inv:
  assumes "Multiplexer_new s l = Inr m" and "lim_max_channels l \<le> usize_max"
  shows "mux_inv m"
  using assms
  by (auto simp: Multiplexer_new_def mux_inv_def channels_inv_def ready_inv_def pending_inv_def table_inv_def
      keys_inv_def data_pending_def channel_key_of_def split: if_splits)

subsection \<open>Updating one channel\<close>

lemma channel_ok_cong:
  assumes "mux_session_id m' = mux_session_id m" and "mux_limits m' = mux_limits m"
    and "mux_allowed_protocols m' = mux_allowed_protocols m"
    and "mux_retired_channels m' = mux_retired_channels m"
  shows "channel_ok m' c st = channel_ok m c st"
  using assms by (simp add: channel_ok_def protocol_allowed_def frame_ok_def [abs_def])

lemma channels_inv_update:
  assumes "channels_inv m" and "channel_ok m c st'"
    and "mux_channels m' = bt_insert c st' (mux_channels m)"
    and "mux_session_id m' = mux_session_id m" "mux_limits m' = mux_limits m"
      "mux_allowed_protocols m' = mux_allowed_protocols m" "mux_retired_channels m' = mux_retired_channels m"
  shows "channels_inv m'"
  using assms(1-3) channel_ok_cong [OF assms(4-7)] by (auto simp: channels_inv_def)

lemma keys_inv_cong:
  assumes "keys_inv m" and "mux_keys m' = mux_keys m" and "\<And>c. channel_key_of m' c = channel_key_of m c"
  shows "keys_inv m'"
  using assms unfolding keys_inv_def by presburger

lemma keys_inv_update:
  assumes "keys_inv m" and "bt_get (mux_channels m) c = Some st" and "st_config st' = st_config st"
    and "mux_channels m' = bt_insert c st' (mux_channels m)" and "mux_keys m' = mux_keys m"
  shows "keys_inv m'"
  using assms by (intro keys_inv_cong [OF assms(1)]) (auto simp: channel_key_of_def)

lemma table_inv_update:
  assumes "table_inv m" and "bt_get (mux_channels m) c = Some st"
    and "mux_channels m' = bt_insert c st' (mux_channels m)" and "mux_limits m' = mux_limits m"
    and "mux_retired_channels m' = mux_retired_channels m"
  shows "table_inv m'"
  using assms by (simp add: table_inv_def)

lemma data_pending_update:
  assumes "bt_get (mux_channels m) c = Some st" and "mux_channels m' = bt_insert c st' (mux_channels m)"
  shows "data_pending m' + length (st_queue st) = data_pending m + length (st_queue st')"
  using bt_sum_update [OF assms(1), of "\<lambda>st. length (st_queue st)" st'] assms(2)
  by (simp add: data_pending_def)

lemma data_pending_ge:
  "bt_get (mux_channels m) c = Some st \<Longrightarrow> length (st_queue st) \<le> data_pending m"
  using bt_sum_ge [of "mux_channels m" c st "\<lambda>st. length (st_queue st)"] by (simp add: data_pending_def)

subsection \<open>Admission keeps the invariant\<close>

lemma push_frame_fields:
  "mux_channels (push_frame m c st e) =
     bt_insert c (st\<lparr>st_virtual_finish := (if st_queue st = [] then max (st_virtual_finish st) (mux_virtual_time m)
                                          else st_virtual_finish st),
                     st_queue := st_queue st @ [e]\<rparr>) (mux_channels m)"
  "mux_ready (push_frame m c st e) = mux_ready m @ (if st_queue st = [] then [c] else [])"
  "mux_total_pending (push_frame m c st e) = mux_total_pending m + 1"
  "mux_session_id (push_frame m c st e) = mux_session_id m" "mux_limits (push_frame m c st e) = mux_limits m"
  "mux_keys (push_frame m c st e) = mux_keys m" "mux_control (push_frame m c st e) = mux_control m"
  "mux_retired_channels (push_frame m c st e) = mux_retired_channels m"
  "mux_virtual_time (push_frame m c st e) = mux_virtual_time m"
  "mux_allowed_protocols (push_frame m c st e) = mux_allowed_protocols m"
  by (simp_all add: push_frame_def Let_def)

lemma ready_inv_push:
  assumes "ready_inv m" and "bt_get (mux_channels m) c = Some st0" and "st_queue st = st_queue st0"
    and "st_virtual_finish st = st_virtual_finish st0"
  shows "ready_inv (push_frame m c st e)"
  using assms unfolding ready_inv_def push_frame_fields by (auto split: if_splits)

lemma push_frame_inv:
  assumes inv: "mux_inv m" and get: "bt_get (mux_channels m) c = Some st0"
    and st: "st_config st = st_config st0" "st_queue st = st_queue st0" "st_cancelled st = st_cancelled st0"
      "st_virtual_finish st = st_virtual_finish st0"
    and room: "length (st_queue st0) < cfg_capacity (st_config st0)" "\<not> st_cancelled st0"
      "mux_total_pending m < lim_max_total_pending_frames (mux_limits m)"
    and frame: "frame_ok m (st_config st0) e"
    and stream: "\<And>b. cfg_max_stream_bytes (st_config st0) = Some b \<Longrightarrow> st_stream_bytes st \<le> b"
  shows "mux_inv (push_frame m c st e)"
proof -
  let ?m = "push_frame m c st e"
  let ?st = "st\<lparr>st_virtual_finish := (if st_queue st = [] then max (st_virtual_finish st) (mux_virtual_time m)
                                     else st_virtual_finish st), st_queue := st_queue st @ [e]\<rparr>"
  have "channel_ok m c st0" using inv get by (simp add: mux_inv_def channels_inv_def)
  then have ok: "channel_ok m c ?st"
    using st room frame stream unfolding channel_ok_def by simp
  have dp: "data_pending ?m = data_pending m + 1"
    using data_pending_update [OF get push_frame_fields(1) [of m c st e]] st by simp
  show ?thesis
    unfolding mux_inv_def
  proof (intro conjI)
    show "channels_inv ?m"
      by (rule channels_inv_update [OF _ ok push_frame_fields(1)])
        (use inv in \<open>simp_all add: mux_inv_def push_frame_fields\<close>)
    show "ready_inv ?m"
      by (rule ready_inv_push [OF _ get]) (use inv st in \<open>simp_all add: mux_inv_def\<close>)
    show "pending_inv ?m"
      using inv room(3) dp by (simp add: mux_inv_def pending_inv_def push_frame_fields)
    show "table_inv ?m"
      by (rule table_inv_update [OF _ get push_frame_fields(1)])
        (use inv in \<open>simp_all add: mux_inv_def push_frame_fields\<close>)
    show "keys_inv ?m"
      using inv st by (intro keys_inv_update [OF _ get _ push_frame_fields(1)])
        (simp_all add: mux_inv_def push_frame_fields)
  qed
qed

lemma validate_identity_ok:
  assumes "Multiplexer_validate_envelope_identity m e = Inr u"
  shows "dat_session_id e = mux_session_id m" "dat_channel_id e \<noteq> CONTROL_CHANNEL_ID"
    "\<not> bt_contains (mux_retired_channels m) (dat_channel_id e)"
    "length (dat_payload e) \<le> lim_max_frame_bytes (mux_limits m)"
    "dat_nesting_depth e \<le> lim_max_nesting_depth (mux_limits m)"
  using assms
  by (simp_all add: Multiplexer_validate_envelope_identity_def Multiplexer_validate_payload_def not_less
      split: if_splits)

lemma enqueue_refused: "Multiplexer_enqueue m e = (Inl err, m') \<Longrightarrow> m' = m"
  by (auto simp: Multiplexer_enqueue_def Let_def split: sum.splits if_splits option.splits)

lemma enqueue_accepted:
  assumes "Multiplexer_enqueue m e = (Inr u, m')"
  shows "Multiplexer_validate_envelope_identity m e = Inr ()
    \<and> mux_total_pending m < lim_max_total_pending_frames (mux_limits m)
    \<and> (\<exists>st0. bt_get (mux_channels m) (dat_channel_id e) = Some st0
        \<and> cfg_generation (st_config st0) = dat_generation e
        \<and> length (dat_payload e) \<le> cfg_max_frame_bytes (st_config st0)
        \<and> \<not> st_cancelled st0 \<and> length (st_queue st0) < cfg_capacity (st_config st0)
        \<and> (case cfg_max_stream_bytes (st_config st0) of
              None \<Rightarrow> m' = push_frame m (dat_channel_id e) st0 e
            | Some b \<Rightarrow>
                sat_add (st_stream_bytes st0) (of_nat (length (dat_payload e))) \<le> b
                \<and> m' = push_frame m (dat_channel_id e)
                     (st0\<lparr>st_stream_bytes := sat_add (st_stream_bytes st0) (of_nat (length (dat_payload e)))\<rparr>) e))"
  using assms
  by (auto simp: Multiplexer_enqueue_def Let_def not_le not_less split: sum.splits if_splits option.splits)

lemma enqueue_cases:
  assumes "Multiplexer_enqueue m e = (r, m')"
  obtains (refused) err where "r = Inl err" "m' = m"
  | (accepted) st0 st where "r = Inr ()" "m' = push_frame m (dat_channel_id e) st e"
      "bt_get (mux_channels m) (dat_channel_id e) = Some st0"
      "Multiplexer_validate_envelope_identity m e = Inr ()"
      "mux_total_pending m < lim_max_total_pending_frames (mux_limits m)"
      "cfg_generation (st_config st0) = dat_generation e"
      "length (dat_payload e) \<le> cfg_max_frame_bytes (st_config st0)"
      "\<not> st_cancelled st0" "length (st_queue st0) < cfg_capacity (st_config st0)"
      "st_config st = st_config st0" "st_queue st = st_queue st0" "st_cancelled st = st_cancelled st0"
      "st_virtual_finish st = st_virtual_finish st0"
      "\<And>b. cfg_max_stream_bytes (st_config st0) = Some b \<Longrightarrow> st_stream_bytes st \<le> b"
proof (cases r)
  case (Inl err)
  with assms show ?thesis by (intro refused) (auto dest: enqueue_refused)
next
  case (Inr u)
  with enqueue_accepted [of m e u m'] assms obtain st0 where
    st0: "Multiplexer_validate_envelope_identity m e = Inr ()"
      "mux_total_pending m < lim_max_total_pending_frames (mux_limits m)"
      "bt_get (mux_channels m) (dat_channel_id e) = Some st0"
      "cfg_generation (st_config st0) = dat_generation e"
      "length (dat_payload e) \<le> cfg_max_frame_bytes (st_config st0)"
      "\<not> st_cancelled st0" "length (st_queue st0) < cfg_capacity (st_config st0)"
    and m': "case cfg_max_stream_bytes (st_config st0) of
              None \<Rightarrow> m' = push_frame m (dat_channel_id e) st0 e
            | Some b \<Rightarrow>
                sat_add (st_stream_bytes st0) (of_nat (length (dat_payload e))) \<le> b
                \<and> m' = push_frame m (dat_channel_id e)
                     (st0\<lparr>st_stream_bytes := sat_add (st_stream_bytes st0) (of_nat (length (dat_payload e)))\<rparr>) e"
    by blast
  then show ?thesis
  proof (cases "cfg_max_stream_bytes (st_config st0)")
    case None
    with Inr st0 m' show ?thesis by (intro accepted [of st0 st0]) auto
  next
    case (Some b)
    with Inr st0 m' show ?thesis
      by (intro accepted [of "st0\<lparr>st_stream_bytes := sat_add (st_stream_bytes st0) (of_nat (length (dat_payload e)))\<rparr>" st0])
        auto
  qed
qed

lemma enqueue_discardable_cases:
  assumes "Multiplexer_enqueue_discardable m e = (r, m')"
  obtains (refused) err where "r = Inl err" "m' = m"
  | (dropped) "r = Inr DroppedDiscardable" "m' = m"
  | (accepted) st where "r = Inr Enqueued" "m' = push_frame m (dat_channel_id e) st e"
      "bt_get (mux_channels m) (dat_channel_id e) = Some st"
      "Multiplexer_validate_envelope_identity m e = Inr ()"
      "mux_total_pending m < lim_max_total_pending_frames (mux_limits m)"
      "cfg_generation (st_config st) = dat_generation e"
      "length (dat_payload e) \<le> cfg_max_frame_bytes (st_config st)"
      "\<not> st_cancelled st" "length (st_queue st) < cfg_capacity (st_config st)"
      "cfg_mode (st_config st) = Event" "cfg_discardable (st_config st)"
proof (cases "Multiplexer_validate_envelope_identity m e")
  case (Inl err)
  with assms show ?thesis by (intro refused) (auto simp: Multiplexer_enqueue_discardable_def)
next
  case (Inr u)
  with assms show ?thesis
    by (auto simp: Multiplexer_enqueue_discardable_def Let_def not_le not_less
        split: if_splits option.splits intro: refused dropped accepted)
qed

lemma frame_ok_admitted:
  assumes "mux_inv m" and "bt_get (mux_channels m) (dat_channel_id e) = Some st"
    and "Multiplexer_validate_envelope_identity m e = Inr ()" and "cfg_generation (st_config st) = dat_generation e"
    and "length (dat_payload e) \<le> cfg_max_frame_bytes (st_config st)"
  shows "frame_ok m (st_config st) e"
  using assms validate_identity_ok [OF assms(3)]
  by (auto simp: frame_ok_def mux_inv_def channels_inv_def channel_ok_def)

lemma enqueue_inv:
  assumes "mux_inv m" and "Multiplexer_enqueue m e = (r, m')"
  shows "mux_inv m'"
  using assms(2)
proof (cases rule: enqueue_cases)
  case (accepted st0 st)
  with assms(1) frame_ok_admitted [OF assms(1) accepted(3,4,6,7)] show ?thesis
    by (auto intro: push_frame_inv)
qed (use assms in simp)

lemma enqueue_discardable_inv:
  assumes "mux_inv m" and "Multiplexer_enqueue_discardable m e = (r, m')"
  shows "mux_inv m'"
  using assms(2)
proof (cases rule: enqueue_discardable_cases)
  case (accepted st)
  have "channel_ok m (dat_channel_id e) st"
    using assms(1) accepted(3) by (simp add: mux_inv_def channels_inv_def)
  with accepted assms(1) frame_ok_admitted [OF assms(1) accepted(3,4,6,7)] show ?thesis
    by (auto simp: channel_ok_def intro: push_frame_inv)
qed (use assms in simp_all)

lemma enqueue_control_cases:
  assumes "Multiplexer_enqueue_control m p = (r, m')"
  obtains (refused) err where "r = Inl err" "m' = m"
  | (accepted) "r = Inr ()"
      "m' = m\<lparr>mux_control := mux_control m @ [p], mux_total_pending := mux_total_pending m + 1\<rparr>"
      "length (mux_control m) < lim_control_queue_capacity (mux_limits m)"
      "length p \<le> lim_max_frame_bytes (mux_limits m)"
  using assms
  by (auto simp: Multiplexer_enqueue_control_def Multiplexer_validate_payload_def not_le not_less
      split: if_splits)

lemma enqueue_control_inv:
  assumes "mux_inv m" and "Multiplexer_enqueue_control m p = (r, m')"
  shows "mux_inv m'"
  using assms(2)
proof (cases rule: enqueue_control_cases)
  case accepted
  have "channel_ok m' c st = channel_ok m c st" for c st
    unfolding accepted by (rule channel_ok_cong) simp_all
  moreover have "keys_inv m'" unfolding accepted
    by (rule keys_inv_cong [of m]) (use assms(1) in \<open>simp_all add: mux_inv_def channel_key_of_def\<close>)
  moreover have "data_pending m' = data_pending m" by (simp add: data_pending_def accepted)
  ultimately show ?thesis
    using assms(1) accepted(3,4) unfolding mux_inv_def channels_inv_def ready_inv_def pending_inv_def table_inv_def
    by (simp add: accepted(2))
qed (use assms in simp)

subsection \<open>Scheduling keeps the invariant\<close>

lemma le_sat_add: "a \<le> sat_add a (b :: 'a::len word)"
proof -
  have "unat a \<le> 2 ^ LENGTH('a) - 1" using unat_lt_size [of a] by linarith
  then show ?thesis by (simp add: word_le_nat_alt unat_sat_add)
qed

lemma remove_at_set:
  assumes "distinct xs" and "i < length xs"
  shows "set (remove_at i xs) = set xs - {xs ! i}" and "distinct (remove_at i xs)"
proof -
  have xs: "xs = take i xs @ xs ! i # drop (Suc i) xs" using assms(2) by (rule id_take_nth_drop)
  with assms(1) have d: "distinct (take i xs @ xs ! i # drop (Suc i) xs)" by simp
  from d show "distinct (remove_at i xs)" by (simp add: remove_at_def)
  have "set xs = insert (xs ! i) (set (remove_at i xs))" by (subst xs) (simp add: remove_at_def)
  with d show "set (remove_at i xs) = set xs - {xs ! i}" by (auto simp: remove_at_def)
qed

lemma serve_minimal:
  assumes "ready_inv m"
    and least: "\<And>j w. (j, w) \<in> set (ready_candidates m) \<Longrightarrow> (st_virtual_finish st, i) \<le> (w, j)"
    and c: "c \<in> set (mux_ready m)" and st': "bt_get (mux_channels m) c = Some st'"
  shows "st_virtual_finish st \<le> st_virtual_finish st'"
proof -
  from c obtain j where j: "j < length (mux_ready m)" "mux_ready m ! j = c" by (auto simp: in_set_conv_nth)
  have "st_queue st' \<noteq> []" using assms(1) c st' unfolding ready_inv_def by (metis option.inject)
  with j st' have "(j, st_virtual_finish st') \<in> set (ready_candidates m)" by (auto simp: ready_candidates_in)
  from least [OF this] show ?thesis by auto
qed

lemma serve_fields:
  "mux_session_id (serve m i st e q) = mux_session_id m" "mux_limits (serve m i st e q) = mux_limits m"
  "mux_keys (serve m i st e q) = mux_keys m" "mux_control (serve m i st e q) = mux_control m"
  "mux_retired_channels (serve m i st e q) = mux_retired_channels m"
  "mux_allowed_protocols (serve m i st e q) = mux_allowed_protocols m"
  "mux_total_pending (serve m i st e q) = mux_total_pending m - 1"
  "mux_virtual_time (serve m i st e q) = max (st_virtual_finish st) (mux_virtual_time m)"
  "mux_ready (serve m i st e q) = remove_at i (mux_ready m) @ (if q \<noteq> [] then [mux_ready m ! i] else [])"
  by (simp_all add: serve_def)

lemma serve_channels:
  "mux_channels (serve m i st e q) = bt_insert (mux_ready m ! i)
     (st\<lparr>st_queue := q,
         st_virtual_finish := sat_add (max (st_virtual_finish st) (mux_virtual_time m))
           (scheduling_cost (length (dat_payload e)) (cfg_priority_hint (st_config st)))\<rparr>) (mux_channels m)"
  by (simp add: serve_def)

lemma ready_inv_serve:
  assumes inv: "ready_inv m" and i: "i < length (mux_ready m)"
    and get: "bt_get (mux_channels m) (mux_ready m ! i) = Some st"
    and least: "\<And>j w. (j, w) \<in> set (ready_candidates m) \<Longrightarrow> (st_virtual_finish st, i) \<le> (w, j)"
  shows "ready_inv (serve m i st e q)"
proof -
  let ?c = "mux_ready m ! i"
  note ra = remove_at_set [OF _ i]
  have d: "distinct (mux_ready m)"
    and mem: "\<And>c. c \<in> set (mux_ready m) \<longleftrightarrow> (\<exists>st. bt_get (mux_channels m) c = Some st \<and> st_queue st \<noteq> [])"
    and clock: "\<And>c st. c \<in> set (mux_ready m) \<Longrightarrow> bt_get (mux_channels m) c = Some st \<Longrightarrow>
                  mux_virtual_time m \<le> st_virtual_finish st"
    using inv unfolding ready_inv_def by blast+
  have vt: "max (st_virtual_finish st) (mux_virtual_time m) = st_virtual_finish st"
    using clock [OF nth_mem [OF i] get] by (simp add: max_def)
  have others: "st_virtual_finish st \<le> st_virtual_finish st'"
    if "c \<in> set (mux_ready m)" "bt_get (mux_channels m) c = Some st'" for c st'
    using serve_minimal [OF inv least that] by simp
  show ?thesis
    unfolding ready_inv_def serve_fields serve_channels vt
  proof (intro conjI allI impI)
    show "distinct (remove_at i (mux_ready m) @ (if q \<noteq> [] then [?c] else []))"
      using ra [OF d] by auto
  next
    fix c
    show "c \<in> set (remove_at i (mux_ready m) @ (if q \<noteq> [] then [?c] else [])) \<longleftrightarrow>
      (\<exists>st'. bt_get (bt_insert ?c (st\<lparr>st_queue := q, st_virtual_finish := sat_add (st_virtual_finish st)
         (scheduling_cost (length (dat_payload e)) (cfg_priority_hint (st_config st)))\<rparr>) (mux_channels m)) c
         = Some st' \<and> st_queue st' \<noteq> [])"
      using ra(1) [OF d] mem [of c] by auto
  next
    fix c st'
    assume "c \<in> set (remove_at i (mux_ready m) @ (if q \<noteq> [] then [?c] else []))"
      and "bt_get (bt_insert ?c (st\<lparr>st_queue := q, st_virtual_finish := sat_add (st_virtual_finish st)
         (scheduling_cost (length (dat_payload e)) (cfg_priority_hint (st_config st)))\<rparr>) (mux_channels m)) c
         = Some st'"
    then show "st_virtual_finish st \<le> st_virtual_finish st'"
      using ra(1) [OF d] others [of c st'] le_sat_add by (auto split: if_splits)
  qed
qed

lemma serve_inv:
  assumes inv: "mux_inv m" and i: "i < length (mux_ready m)"
    and get: "bt_get (mux_channels m) (mux_ready m ! i) = Some st" and q: "st_queue st = e # q"
    and least: "\<And>j w. (j, w) \<in> set (ready_candidates m) \<Longrightarrow> (st_virtual_finish st, i) \<le> (w, j)"
  shows "mux_inv (serve m i st e q)"
proof -
  let ?st = "st\<lparr>st_queue := q, st_virtual_finish := sat_add (max (st_virtual_finish st) (mux_virtual_time m))
           (scheduling_cost (length (dat_payload e)) (cfg_priority_hint (st_config st)))\<rparr>"
  have "channel_ok m (mux_ready m ! i) st" using inv get by (simp add: mux_inv_def channels_inv_def)
  then have ok: "channel_ok m (mux_ready m ! i) ?st"
    using q by (auto simp: channel_ok_def)
  have dp: "data_pending (serve m i st e q) + 1 = data_pending m"
    using data_pending_update [OF get serve_channels [of m i st e q]] q by simp
  show ?thesis
    unfolding mux_inv_def
  proof (intro conjI)
    show "channels_inv (serve m i st e q)"
      by (rule channels_inv_update [OF _ ok serve_channels])
        (use inv in \<open>simp_all add: mux_inv_def serve_fields\<close>)
    show "ready_inv (serve m i st e q)"
      using inv by (intro ready_inv_serve [OF _ i get least]) (simp_all add: mux_inv_def)
    show "pending_inv (serve m i st e q)"
      using inv dp by (simp add: mux_inv_def pending_inv_def serve_fields)
    show "table_inv (serve m i st e q)"
      by (rule table_inv_update [OF _ get serve_channels])
        (use inv in \<open>simp_all add: mux_inv_def serve_fields\<close>)
    show "keys_inv (serve m i st e q)"
      by (rule keys_inv_update [OF _ get _ serve_channels])
        (use inv in \<open>simp_all add: mux_inv_def serve_fields\<close>)
  qed
qed

lemma idle_ready: "ready_inv m \<Longrightarrow> ready_candidates m = [] \<Longrightarrow> mux_ready m = []"
proof (rule ccontr)
  assume inv: "ready_inv m" and none: "ready_candidates m = []" and "mux_ready m \<noteq> []"
  then have "0 < length (mux_ready m)" "mux_ready m ! 0 \<in> set (mux_ready m)" by auto
  moreover from this inv obtain st where "bt_get (mux_channels m) (mux_ready m ! 0) = Some st" "st_queue st \<noteq> []"
    unfolding ready_inv_def by blast
  ultimately have "(0, st_virtual_finish st) \<in> set (ready_candidates m)"
    unfolding ready_candidates_in by blast
  with none show False by simp
qed

lemma next_data_inv: "mux_inv m \<Longrightarrow> mux_inv (snd (next_data m))"
proof (cases rule: next_data_cases [of m])
  case idle
  assume inv: "mux_inv m"
  with idle_ready idle have "m\<lparr>mux_ready := []\<rparr> = m" by (simp add: mux_inv_def)
  with inv idle show ?thesis by simp
next
  case (serve i st e q)
  assume "mux_inv m"
  from serve_inv [OF this serve(1,2,3,5)] serve(4) show ?thesis by simp
qed

lemma next_outbound_inv:
  assumes "mux_inv m"
  shows "mux_inv (snd (Multiplexer_next_outbound m))"
proof (cases "mux_control m")
  case Nil
  with assms next_data_inv show ?thesis by (simp add: Multiplexer_next_outbound_def)
next
  case (Cons p ps)
  let ?m = "m\<lparr>mux_control := ps, mux_total_pending := mux_total_pending m - 1\<rparr>"
  have "channel_ok ?m c st = channel_ok m c st" for c st
    by (rule channel_ok_cong) simp_all
  moreover have "keys_inv ?m"
    by (rule keys_inv_cong [of m]) (use assms in \<open>simp_all add: mux_inv_def channel_key_of_def\<close>)
  moreover have "data_pending ?m = data_pending m" by (simp add: data_pending_def)
  ultimately have "mux_inv ?m"
    using assms Cons unfolding mux_inv_def channels_inv_def ready_inv_def pending_inv_def table_inv_def by simp
  with Cons show ?thesis by (simp add: Multiplexer_next_outbound_def)
qed

subsection \<open>Opening, cancelling, closing and discarding keep the invariant\<close>

lemma cancel_cases:
  assumes "Multiplexer_cancel_channel m c = (r, m')"
  obtains (refused) "r = Inl (UnknownChannel (channel_id_val c))" "m' = m" "bt_get (mux_channels m) c = None"
  | (cancelled) st where "bt_get (mux_channels m) c = Some st" "r = Inr (length (st_queue st))"
      "m' = m\<lparr>mux_channels := bt_insert c (st\<lparr>st_cancelled := True, st_queue := []\<rparr>) (mux_channels m),
             mux_ready := filter (\<lambda>ready. ready \<noteq> c) (mux_ready m),
             mux_total_pending := mux_total_pending m - length (st_queue st)\<rparr>"
  using assms by (auto simp: Multiplexer_cancel_channel_def Let_def split: option.splits)

lemma cancel_inv:
  assumes inv: "mux_inv m" and "Multiplexer_cancel_channel m c = (r, m')"
  shows "mux_inv m'"
  using assms(2)
proof (cases rule: cancel_cases)
  case (cancelled st)
  let ?st = "st\<lparr>st_cancelled := True, st_queue := []\<rparr>"
  have ch: "mux_channels m' = bt_insert c ?st (mux_channels m)" by (simp add: cancelled)
  have "channel_ok m c st" using inv cancelled(1) by (simp add: mux_inv_def channels_inv_def)
  then have ok: "channel_ok m c ?st" by (simp add: channel_ok_def)
  have dp: "data_pending m' + length (st_queue st) = data_pending m"
    using data_pending_update [OF cancelled(1) ch] by simp
  show ?thesis
    unfolding mux_inv_def
  proof (intro conjI)
    show "channels_inv m'"
      by (rule channels_inv_update [OF _ ok ch]) (use inv in \<open>simp_all add: mux_inv_def cancelled(3)\<close>)
    show "ready_inv m'"
      using inv by (auto simp: mux_inv_def ready_inv_def cancelled(3))
    show "pending_inv m'"
      using inv dp by (simp add: mux_inv_def pending_inv_def cancelled(3))
    show "table_inv m'"
      by (rule table_inv_update [OF _ cancelled(1) ch]) (use inv in \<open>simp_all add: mux_inv_def cancelled(3)\<close>)
    show "keys_inv m'"
      by (rule keys_inv_update [OF _ cancelled(1) _ ch]) (use inv in \<open>simp_all add: mux_inv_def cancelled(3)\<close>)
  qed
qed (use inv in simp)

lemma close_cases:
  assumes "Multiplexer_close_channel m c = (r, m')"
  obtains (refused) "r = Inl (Multiplexer_closed_or_unknown m c)" "m' = m" "bt_get (mux_channels m) c = None"
  | (closed) st where "bt_get (mux_channels m) c = Some st" "r = Inr (length (st_queue st))"
      "mux_channels m' = bt_remove c (mux_channels m)"
      "mux_ready m' = filter (\<lambda>ready. ready \<noteq> c) (mux_ready m)"
      "mux_total_pending m' = mux_total_pending m - length (st_queue st)"
      "mux_keys m' = (case bt_get (mux_keys m) (cfg_key (st_config st)) of
                        None \<Rightarrow> mux_keys m
                      | Some ids \<Rightarrow>
                          if filter (\<lambda>i. i \<noteq> c) ids = [] then bt_remove (cfg_key (st_config st)) (mux_keys m)
                          else bt_insert (cfg_key (st_config st)) (filter (\<lambda>i. i \<noteq> c) ids) (mux_keys m))"
      "mux_retired_channels m' = bs_insert c (mux_retired_channels m)"
      "mux_session_id m' = mux_session_id m" "mux_limits m' = mux_limits m" "mux_control m' = mux_control m"
      "mux_virtual_time m' = mux_virtual_time m" "mux_allowed_protocols m' = mux_allowed_protocols m"
proof (cases "bt_get (mux_channels m) c")
  case None
  with assms show ?thesis by (intro refused) (auto simp: Multiplexer_close_channel_def)
next
  case (Some st)
  with assms [unfolded Multiplexer_close_channel_def Let_def] show ?thesis
    by (intro closed [of st]) auto
qed

lemma keys_inv_close:
  assumes inv: "keys_inv m" and st: "bt_get (mux_channels m) c = Some st"
    and ch: "mux_channels m' = bt_remove c (mux_channels m)"
    and ks: "mux_keys m' = (case bt_get (mux_keys m) (cfg_key (st_config st)) of
                        None \<Rightarrow> mux_keys m
                      | Some ids \<Rightarrow>
                          if filter (\<lambda>i. i \<noteq> c) ids = [] then bt_remove (cfg_key (st_config st)) (mux_keys m)
                          else bt_insert (cfg_key (st_config st)) (filter (\<lambda>i. i \<noteq> c) ids) (mux_keys m))"
  shows "keys_inv m'"
proof -
  let ?k = "cfg_key (st_config st)"
  have key: "channel_key_of m' d = (if d = c then None else channel_key_of m d)" for d
    by (simp add: channel_key_of_def ch)
  have ck: "channel_key_of m c = Some ?k" by (simp add: channel_key_of_def st)
  have old: "case bt_get (mux_keys m) k of None \<Rightarrow> \<forall>d. channel_key_of m d \<noteq> Some k
      | Some ids \<Rightarrow> ids \<noteq> [] \<and> distinct ids \<and> (\<forall>d. d \<in> set ids \<longleftrightarrow> channel_key_of m d = Some k)" for k
    using inv unfolding keys_inv_def by blast
  from old [of ?k] ck obtain ids where ids: "bt_get (mux_keys m) ?k = Some ids"
    by (cases "bt_get (mux_keys m) ?k") auto
  have new: "bt_get (mux_keys m') k = (if k = ?k then (if filter (\<lambda>i. i \<noteq> c) ids = [] then None
      else Some (filter (\<lambda>i. i \<noteq> c) ids)) else bt_get (mux_keys m) k)" for k
    using ks ids by simp
  show ?thesis
    unfolding keys_inv_def
  proof
    fix k
    show "case bt_get (mux_keys m') k of None \<Rightarrow> \<forall>d. channel_key_of m' d \<noteq> Some k
      | Some ids \<Rightarrow> ids \<noteq> [] \<and> distinct ids \<and> (\<forall>d. d \<in> set ids \<longleftrightarrow> channel_key_of m' d = Some k)"
    proof (cases "k = ?k")
      case True
      with old [of ?k] ids show ?thesis by (auto simp: new key filter_empty_conv)
    next
      case False
      with old [of k] ck show ?thesis by (cases "bt_get (mux_keys m) k") (auto simp: new key)
    qed
  qed
qed

lemma close_inv:
  assumes inv: "mux_inv m" and "Multiplexer_close_channel m c = (r, m')"
  shows "mux_inv m'"
  using assms(2)
proof (cases rule: close_cases)
  case (closed st)
  have dp: "data_pending m' + length (st_queue st) = data_pending m"
    using bt_sum_remove [OF closed(1), of "\<lambda>st. length (st_queue st)"] by (simp add: data_pending_def closed(3))
  have fresh: "\<not> bt_contains (mux_retired_channels m) c"
    using inv closed(1) by (auto simp: mux_inv_def channels_inv_def channel_ok_def)
  have len: "Suc (bt_len (mux_channels m')) = bt_len (mux_channels m)"
    unfolding closed(3) using closed(1) by (intro bt_len_remove bt_containsI)
  show ?thesis
    unfolding mux_inv_def
  proof (intro conjI)
    show "channels_inv m'"
      using inv by (auto simp: mux_inv_def channels_inv_def channel_ok_def protocol_allowed_def
          frame_ok_def list_all_iff closed(3-) split: if_splits)
    show "ready_inv m'"
      using inv by (auto simp: mux_inv_def ready_inv_def closed(3-))
    show "pending_inv m'"
      using inv dp by (simp add: mux_inv_def pending_inv_def closed(5-))
    show "table_inv m'"
      using inv fresh len by (simp add: mux_inv_def table_inv_def closed(5-) bs_len_insert)
    show "keys_inv m'"
      using inv by (intro keys_inv_close [OF _ closed(1,3,6)]) (simp add: mux_inv_def)
  qed
qed (use inv in simp)

lemma discard_all_inv:
  assumes inv: "mux_inv m"
  shows "mux_inv (snd (Multiplexer_discard_all m))"
proof -
  let ?m = "snd (Multiplexer_discard_all m)"
  have f: "mux_channels ?m = bt_map_values (\<lambda>st. st\<lparr>st_queue := []\<rparr>) (mux_channels m)"
    "mux_ready ?m = []" "mux_control ?m = []" "mux_total_pending ?m = 0" "mux_limits ?m = mux_limits m"
    "mux_retired_channels ?m = mux_retired_channels m" "mux_keys ?m = mux_keys m"
    "mux_session_id ?m = mux_session_id m" "mux_allowed_protocols ?m = mux_allowed_protocols m"
    by (simp_all add: Multiplexer_discard_all_def)
  have "data_pending ?m = 0"
    by (simp add: data_pending_def f bt_sum_map_values comp_def bt_sum_zero)
  then have "pending_inv ?m" by (simp add: pending_inv_def f)
  moreover have "keys_inv ?m"
    by (rule keys_inv_cong [of m])
      (use inv in \<open>simp_all add: mux_inv_def channel_key_of_def f option.map_comp comp_def\<close>)
  moreover have "table_inv ?m"
    using inv by (simp add: mux_inv_def table_inv_def f bt_len_card)
  moreover have "ready_inv ?m" by (auto simp: ready_inv_def f)
  moreover have "channels_inv ?m"
    unfolding channels_inv_def
  proof (intro allI impI)
    fix c st' assume "bt_get (mux_channels ?m) c = Some st'"
    then obtain st where "bt_get (mux_channels m) c = Some st" "st' = st\<lparr>st_queue := []\<rparr>" by (auto simp: f)
    moreover from this inv have "channel_ok m c st" by (simp add: mux_inv_def channels_inv_def)
    moreover have "channel_ok ?m c st' = channel_ok m c st'" by (rule channel_ok_cong) (simp_all add: f)
    ultimately show "channel_ok ?m c st'" by (simp add: channel_ok_def)
  qed
  ultimately show ?thesis by (simp add: mux_inv_def)
qed

lemma open_cases:
  assumes "Multiplexer_open_channel m cfg = (r, m')"
  obtains (refused) err where "r = Inl err" "m' = m"
  | (opened) "r = Inr ()" "config_ok cfg" "protocol_allowed m (cfg_key cfg)"
      "\<not> bt_contains (mux_retired_channels m) (cfg_id cfg)" "bt_get (mux_channels m) (cfg_id cfg) = None"
      "usize_sat_add (bt_len (mux_channels m)) (bt_len (mux_retired_channels m)) < lim_max_channels (mux_limits m)"
      "m' = m\<lparr>mux_keys := bt_insert (cfg_key cfg)
                 ((case bt_get (mux_keys m) (cfg_key cfg) of None \<Rightarrow> [] | Some ids \<Rightarrow> ids) @ [cfg_id cfg]) (mux_keys m),
              mux_channels := bt_insert (cfg_id cfg)
                 \<lparr>st_config = cfg, st_queue = [], st_cancelled = False, st_stream_bytes = 0,
                  st_virtual_finish = mux_virtual_time m\<rparr> (mux_channels m)\<rparr>"
proof (cases r)
  case (Inl err)
  with assms show ?thesis
    by (intro refused) (auto simp: Multiplexer_open_channel_def Let_def split: if_splits)
next
  case (Inr u)
  with assms show ?thesis
    by (intro opened)
      (auto simp: Multiplexer_open_channel_def Let_def config_ok_def protocol_allowed_def bt_not_contains not_le
        split: if_splits option.splits)
qed

lemma keys_inv_open:
  assumes inv: "keys_inv m" and fresh: "bt_get (mux_channels m) (cfg_id cfg) = None"
    and ch: "mux_channels m' = bt_insert (cfg_id cfg) st (mux_channels m)" and cfg: "st_config st = cfg"
    and ks: "mux_keys m' = bt_insert (cfg_key cfg)
               ((case bt_get (mux_keys m) (cfg_key cfg) of None \<Rightarrow> [] | Some ids \<Rightarrow> ids) @ [cfg_id cfg]) (mux_keys m)"
  shows "keys_inv m'"
proof -
  have key: "channel_key_of m' d = (if d = cfg_id cfg then Some (cfg_key cfg) else channel_key_of m d)" for d
    by (simp add: channel_key_of_def ch cfg)
  have none: "channel_key_of m (cfg_id cfg) = None" by (simp add: channel_key_of_def fresh)
  show ?thesis
    unfolding keys_inv_def
  proof
    fix k
    have "case bt_get (mux_keys m) k of None \<Rightarrow> \<forall>c. channel_key_of m c \<noteq> Some k
      | Some ids \<Rightarrow> ids \<noteq> [] \<and> distinct ids \<and> (\<forall>c. c \<in> set ids \<longleftrightarrow> channel_key_of m c = Some k)"
      using inv unfolding keys_inv_def by blast
    then show "case bt_get (mux_keys m') k of None \<Rightarrow> \<forall>c. channel_key_of m' c \<noteq> Some k
      | Some ids \<Rightarrow> ids \<noteq> [] \<and> distinct ids \<and> (\<forall>c. c \<in> set ids \<longleftrightarrow> channel_key_of m' c = Some k)"
      using none by (cases "bt_get (mux_keys m) k"; cases "k = cfg_key cfg") (auto simp: ks key)
  qed
qed

lemma open_inv:
  assumes inv: "mux_inv m" and "Multiplexer_open_channel m cfg = (r, m')"
  shows "mux_inv m'"
  using assms(2)
proof (cases rule: open_cases)
  case opened
  let ?st = "\<lparr>st_config = cfg, st_queue = [], st_cancelled = False, st_stream_bytes = 0,
              st_virtual_finish = mux_virtual_time m\<rparr> :: ChannelState"
  have ch: "mux_channels m' = bt_insert (cfg_id cfg) ?st (mux_channels m)" by (simp add: opened)
  have ok: "channel_ok m (cfg_id cfg) ?st" using opened by (simp add: channel_ok_def)
  have dp: "data_pending m' = data_pending m"
    using bt_sum_insert_fresh [OF opened(5), of "\<lambda>st. length (st_queue st)" ?st] by (simp add: data_pending_def ch)
  have room: "bt_len (mux_channels m) + bt_len (mux_retired_channels m) < lim_max_channels (mux_limits m)"
    using inv usize_sat_add_less [OF opened(6)] by (simp add: mux_inv_def table_inv_def)
  show ?thesis
    unfolding mux_inv_def
  proof (intro conjI)
    show "channels_inv m'"
      by (rule channels_inv_update [OF _ ok ch]) (use inv in \<open>simp_all add: mux_inv_def opened(7)\<close>)
    show "ready_inv m'"
      using inv opened(5) unfolding mux_inv_def ready_inv_def by (auto simp: opened(7))
    show "pending_inv m'"
      using inv dp by (simp add: mux_inv_def pending_inv_def opened(7))
    show "table_inv m'"
      using inv room opened(5) by (simp add: mux_inv_def table_inv_def opened(7))
    show "keys_inv m'"
      using inv by (intro keys_inv_open [OF _ opened(5) ch]) (simp_all add: mux_inv_def opened(7))
  qed
qed (use inv in simp)

subsection \<open>Systems of first-in first-out lanes\<close>

fun run_ops :: "('o \<Rightarrow> 's \<Rightarrow> 's \<times> 'f list \<times> 'f list \<times> nat) \<Rightarrow> 'o list \<Rightarrow> 's \<Rightarrow> 's \<times> 'f list \<times> 'f list \<times> nat" where
  "run_ops exec [] s = (s, [], [], 0)"
| "run_ops exec (op # ops) s =
     (let (t, acc, out, d) = exec op s; (u, acc', out', d') = run_ops exec ops t
      in (u, acc @ acc', out @ out', d + d'))"

locale lane_system =
  fixes inv :: "'s \<Rightarrow> bool"
    and pending :: "'s \<Rightarrow> nat"
    and lane :: "'s \<Rightarrow> 'c \<Rightarrow> 'f list"
    and lane_of :: "'f \<Rightarrow> 'c"
    and exec :: "'o \<Rightarrow> 's \<Rightarrow> 's \<times> 'f list \<times> 'f list \<times> nat"
    and drops :: "'o \<Rightarrow> 'c \<Rightarrow> bool"
  assumes exec_inv: "inv s \<Longrightarrow> exec op s = (t, acc, out, d) \<Longrightarrow> inv t"
    and exec_count: "inv s \<Longrightarrow> exec op s = (t, acc, out, d) \<Longrightarrow> pending t + length out + d = pending s + length acc"
    and exec_lane: "inv s \<Longrightarrow> exec op s = (t, acc, out, d) \<Longrightarrow> \<not> drops op c \<Longrightarrow>
      filter (\<lambda>f. lane_of f = c) out @ lane t c = lane s c @ filter (\<lambda>f. lane_of f = c) acc"
begin

lemma run_inv: "inv s \<Longrightarrow> run_ops exec ops s = (t, acc, out, d) \<Longrightarrow> inv t"
  by (induction ops arbitrary: s acc out d) (auto split: prod.splits dest: exec_inv)

lemma run_count:
  "inv s \<Longrightarrow> run_ops exec ops s = (t, acc, out, d) \<Longrightarrow> pending t + length out + d = pending s + length acc"
proof (induction ops arbitrary: s acc out d)
  case (Cons op ops)
  from Cons.prems obtain u a1 o1 d1 a2 o2 d2 where
    1: "exec op s = (u, a1, o1, d1)" and 2: "run_ops exec ops u = (t, a2, o2, d2)"
    and eq: "acc = a1 @ a2" "out = o1 @ o2" "d = d1 + d2"
    by (auto split: prod.splits)
  from Cons.IH [OF exec_inv [OF Cons.prems(1) 1] 2] exec_count [OF Cons.prems(1) 1] eq show ?case by simp
qed simp

lemma run_lane:
  "inv s \<Longrightarrow> run_ops exec ops s = (t, acc, out, d) \<Longrightarrow> list_all (\<lambda>op. \<not> drops op c) ops \<Longrightarrow>
   filter (\<lambda>f. lane_of f = c) out @ lane t c = lane s c @ filter (\<lambda>f. lane_of f = c) acc"
proof (induction ops arbitrary: s acc out d)
  case (Cons op ops)
  from Cons.prems obtain u a1 o1 d1 a2 o2 d2 where
    1: "exec op s = (u, a1, o1, d1)" and 2: "run_ops exec ops u = (t, a2, o2, d2)"
    and eq: "acc = a1 @ a2" "out = o1 @ o2"
    by (auto split: prod.splits)
  from Cons.IH [OF exec_inv [OF Cons.prems(1) 1] 2] exec_lane [OF Cons.prems(1) 1, of c] Cons.prems(3) eq
  show ?case by simp
qed simp

end

subsection \<open>The multiplexer as a lane system\<close>

datatype MuxOp =
    MuxOpen ChannelConfig | MuxControl bytes | MuxEnqueue Envelope | MuxEnqueueDiscardable Envelope
  | MuxNext | MuxCancel ChannelId | MuxClose ChannelId | MuxDiscardAll

definition discarded_count :: "(LinkError, nat) result \<Rightarrow> nat" where
  "discarded_count r = (case r of Inl _ \<Rightarrow> 0 | Inr n \<Rightarrow> n)"

fun mux_exec :: "MuxOp \<Rightarrow> Multiplexer \<Rightarrow> Multiplexer \<times> OutboundFrame list \<times> OutboundFrame list \<times> nat" where
  "mux_exec (MuxOpen cfg) m = (snd (Multiplexer_open_channel m cfg), [], [], 0)"
| "mux_exec (MuxControl p) m =
     (let (r, m') = Multiplexer_enqueue_control m p in (m', if is_ok r then [Out_Control p] else [], [], 0))"
| "mux_exec (MuxEnqueue e) m =
     (let (r, m') = Multiplexer_enqueue m e in (m', if is_ok r then [Out_Data e] else [], [], 0))"
| "mux_exec (MuxEnqueueDiscardable e) m =
     (let (r, m') = Multiplexer_enqueue_discardable m e
      in (m', if r = Inr Enqueued then [Out_Data e] else [], [], 0))"
| "mux_exec MuxNext m =
     (let (out, m') = Multiplexer_next_outbound m
      in (m', [], case out of None \<Rightarrow> [] | Some f \<Rightarrow> [f], 0))"
| "mux_exec (MuxCancel c) m =
     (let (r, m') = Multiplexer_cancel_channel m c in (m', [], [], discarded_count r))"
| "mux_exec (MuxClose c) m =
     (let (r, m') = Multiplexer_close_channel m c in (m', [], [], discarded_count r))"
| "mux_exec MuxDiscardAll m = (let (n, m') = Multiplexer_discard_all m in (m', [], [], n))"

fun lane_of :: "OutboundFrame \<Rightarrow> ChannelId" where
  "lane_of (Out_Control p) = CONTROL_CHANNEL_ID"
| "lane_of (Out_Data e) = dat_channel_id e"

definition mux_lane :: "Multiplexer \<Rightarrow> ChannelId \<Rightarrow> OutboundFrame list" where
  "mux_lane m c =
     (if c = CONTROL_CHANNEL_ID then map Out_Control (mux_control m)
      else case bt_get (mux_channels m) c of None \<Rightarrow> [] | Some st \<Rightarrow> map Out_Data (st_queue st))"

fun mux_drops :: "MuxOp \<Rightarrow> ChannelId \<Rightarrow> bool" where
  "mux_drops (MuxCancel d) c = (d = c)"
| "mux_drops (MuxClose d) c = (d = c)"
| "mux_drops MuxDiscardAll c = True"
| "mux_drops _ c = False"

lemma channel_nonzero: "mux_inv m \<Longrightarrow> bt_get (mux_channels m) c = Some st \<Longrightarrow> c \<noteq> CONTROL_CHANNEL_ID"
  by (auto simp: mux_inv_def channels_inv_def channel_ok_def config_ok_def)

lemma queued_channel:
  "mux_inv m \<Longrightarrow> bt_get (mux_channels m) c = Some st \<Longrightarrow> e \<in> set (st_queue st) \<Longrightarrow> dat_channel_id e = c"
  by (auto simp: mux_inv_def channels_inv_def channel_ok_def frame_ok_def list_all_iff)

lemma mux_exec_inv: "mux_inv m \<Longrightarrow> mux_exec op m = (m', acc, out, d) \<Longrightarrow> mux_inv m'"
proof (cases op)
  case (MuxOpen cfg)
  assume "mux_inv m" and "mux_exec op m = (m', acc, out, d)"
  with MuxOpen show ?thesis
    by (cases "Multiplexer_open_channel m cfg") (auto intro: open_inv)
next
  case MuxNext
  assume "mux_inv m" and "mux_exec op m = (m', acc, out, d)"
  with MuxNext next_outbound_inv [of m] show ?thesis by (auto split: prod.splits)
next
  case MuxDiscardAll
  assume "mux_inv m" and "mux_exec op m = (m', acc, out, d)"
  with MuxDiscardAll discard_all_inv [of m] show ?thesis by (auto split: prod.splits)
qed (auto split: prod.splits intro: enqueue_control_inv enqueue_inv enqueue_discardable_inv cancel_inv close_inv)

lemma next_lane:
  assumes inv: "mux_inv m" and n: "Multiplexer_next_outbound m = (out, m')"
  shows "(case out of None \<Rightarrow> [] | Some f \<Rightarrow> if lane_of f = c then [f] else []) @ mux_lane m' c = mux_lane m c"
proof (cases "mux_control m")
  case (Cons p ps)
  with n show ?thesis
    by (auto simp: Multiplexer_next_outbound_def mux_lane_def split: option.splits)
next
  case Nil
  then have nd: "next_data m = (out, m')" using n by (simp add: Multiplexer_next_outbound_def)
  show ?thesis
  proof (cases rule: next_data_cases [of m])
    case idle
    with nd show ?thesis by (auto simp: mux_lane_def)
  next
    case (serve i st e q)
    have "mux_ready m ! i \<noteq> CONTROL_CHANNEL_ID" "dat_channel_id e = mux_ready m ! i"
      using channel_nonzero [OF inv serve(2)] queued_channel [OF inv serve(2)] serve(3) by auto
    with nd serve Nil show ?thesis
      by (auto simp: mux_lane_def serve_fields serve_channels)
  qed
qed

lemma next_count:
  assumes inv: "mux_inv m" and n: "Multiplexer_next_outbound m = (out, m')"
  shows "mux_total_pending m' + (case out of None \<Rightarrow> 0 | Some f \<Rightarrow> 1) = mux_total_pending m"
proof (cases "mux_control m")
  case (Cons p ps)
  with inv have "0 < mux_total_pending m" by (simp add: mux_inv_def pending_inv_def)
  with n Cons show ?thesis by (auto simp: Multiplexer_next_outbound_def)
next
  case Nil
  then have nd: "next_data m = (out, m')" using n by (simp add: Multiplexer_next_outbound_def)
  show ?thesis
  proof (cases rule: next_data_cases [of m])
    case idle
    with nd show ?thesis by auto
  next
    case (serve i st e q)
    have "1 \<le> data_pending m" using data_pending_ge [OF serve(2)] serve(3) by simp
    with inv have "0 < mux_total_pending m" by (simp add: mux_inv_def pending_inv_def)
    with nd serve show ?thesis by (auto simp: serve_fields)
  qed
qed

lemma push_lane:
  assumes inv: "mux_inv m" and get: "bt_get (mux_channels m) (dat_channel_id e) = Some st0"
    and q: "st_queue st = st_queue st0"
  shows "mux_lane (push_frame m (dat_channel_id e) st e) c =
         mux_lane m c @ filter (\<lambda>f. lane_of f = c) [Out_Data e]"
  using get q channel_nonzero [OF inv get] by (auto simp: mux_lane_def push_frame_fields)

lemma mux_exec_lane:
  assumes inv: "mux_inv m" and ex: "mux_exec op m = (m', acc, out, d)" and nd: "\<not> mux_drops op c"
  shows "filter (\<lambda>f. lane_of f = c) out @ mux_lane m' c = mux_lane m c @ filter (\<lambda>f. lane_of f = c) acc"
proof (cases op)
  case (MuxOpen cfg)
  obtain r where "Multiplexer_open_channel m cfg = (r, m')" "acc = []" "out = []"
    using ex MuxOpen by (cases "Multiplexer_open_channel m cfg") auto
  then show ?thesis
    by (auto elim!: open_cases simp: mux_lane_def)
next
  case (MuxControl p)
  obtain r where "Multiplexer_enqueue_control m p = (r, m')" "out = []" "acc = (if is_ok r then [Out_Control p] else [])"
    using ex MuxControl by (auto split: prod.splits)
  then show ?thesis by (auto elim!: enqueue_control_cases simp: mux_lane_def)
next
  case (MuxEnqueue e)
  obtain r where "Multiplexer_enqueue m e = (r, m')" "out = []" "acc = (if is_ok r then [Out_Data e] else [])"
    using ex MuxEnqueue by (auto split: prod.splits)
  then show ?thesis by (auto elim!: enqueue_cases simp: push_lane [OF inv])
next
  case (MuxEnqueueDiscardable e)
  obtain r where "Multiplexer_enqueue_discardable m e = (r, m')" "out = []"
      "acc = (if r = Inr Enqueued then [Out_Data e] else [])"
    using ex MuxEnqueueDiscardable by (auto split: prod.splits)
  then show ?thesis by (auto elim!: enqueue_discardable_cases simp: push_lane [OF inv])
next
  case MuxNext
  obtain f where "Multiplexer_next_outbound m = (f, m')" "acc = []" "out = (case f of None \<Rightarrow> [] | Some f \<Rightarrow> [f])"
    using ex MuxNext by (auto split: prod.splits)
  then show ?thesis using next_lane [OF inv, of f m' c] by (cases f) auto
next
  case (MuxCancel k)
  obtain r where "Multiplexer_cancel_channel m k = (r, m')" "acc = []" "out = []" "k \<noteq> c"
    using ex nd MuxCancel by (auto split: prod.splits)
  then show ?thesis by (auto elim!: cancel_cases simp: mux_lane_def)
next
  case (MuxClose k)
  obtain r where "Multiplexer_close_channel m k = (r, m')" "acc = []" "out = []" "k \<noteq> c"
    using ex nd MuxClose by (auto split: prod.splits)
  then show ?thesis by (auto elim!: close_cases simp: mux_lane_def)
qed (use nd in simp)

lemma mux_exec_count:
  assumes inv: "mux_inv m" and ex: "mux_exec op m = (m', acc, out, d)"
  shows "mux_total_pending m' + length out + d = mux_total_pending m + length acc"
proof (cases op)
  case (MuxOpen cfg)
  with ex show ?thesis
    by (cases "Multiplexer_open_channel m cfg") (auto elim!: open_cases)
next
  case (MuxControl p)
  with ex show ?thesis by (auto elim!: enqueue_control_cases split: prod.splits)
next
  case (MuxEnqueue e)
  with ex show ?thesis by (auto elim!: enqueue_cases simp: push_frame_fields split: prod.splits)
next
  case (MuxEnqueueDiscardable e)
  with ex show ?thesis by (auto elim!: enqueue_discardable_cases simp: push_frame_fields split: prod.splits)
next
  case MuxNext
  then obtain f where "Multiplexer_next_outbound m = (f, m')" "acc = []" "d = 0"
      "out = (case f of None \<Rightarrow> [] | Some f \<Rightarrow> [f])"
    using ex by (auto split: prod.splits)
  with next_count [OF inv this(1)] show ?thesis by (cases f) auto
next
  case (MuxCancel k)
  have "length (st_queue st) \<le> mux_total_pending m" if "bt_get (mux_channels m) k = Some st" for st
    using data_pending_ge [OF that] inv by (simp add: mux_inv_def pending_inv_def)
  with ex MuxCancel show ?thesis
    by (auto elim!: cancel_cases simp: discarded_count_def split: prod.splits)
next
  case (MuxClose k)
  have "length (st_queue st) \<le> mux_total_pending m" if "bt_get (mux_channels m) k = Some st" for st
    using data_pending_ge [OF that] inv by (simp add: mux_inv_def pending_inv_def)
  with ex MuxClose show ?thesis
    by (auto elim!: close_cases simp: discarded_count_def split: prod.splits)
next
  case MuxDiscardAll
  with ex show ?thesis by (auto simp: Multiplexer_discard_all_def)
qed

interpretation mux_lanes: lane_system mux_inv mux_total_pending mux_lane lane_of mux_exec mux_drops
  by unfold_locales (fact mux_exec_inv mux_exec_count mux_exec_lane)+

definition mux_step :: "Multiplexer \<Rightarrow> Multiplexer \<Rightarrow> bool" where
  "mux_step m m' = (\<exists>op. m' = fst (mux_exec op m))"

lemma next_keeps_channels:
  "bt_contains (mux_channels (snd (Multiplexer_next_outbound m))) c = bt_contains (mux_channels m) c"
  "mux_retired_channels (snd (Multiplexer_next_outbound m)) = mux_retired_channels m"
  "mux_limits (snd (Multiplexer_next_outbound m)) = mux_limits m"
  by (cases "mux_control m"; cases rule: next_data_cases [of m];
      auto simp: Multiplexer_next_outbound_def serve_fields serve_channels intro: bt_containsI)+

lemma mux_step_table:
  assumes "mux_step m m'"
  shows "bt_contains (mux_retired_channels m) c \<Longrightarrow> bt_contains (mux_retired_channels m') c"
    and "bt_contains (mux_channels m) c \<Longrightarrow>
      bt_contains (mux_channels m') c \<or> bt_contains (mux_retired_channels m') c"
    and "lim_max_channels (mux_limits m') = lim_max_channels (mux_limits m)"
proof -
  from assms obtain op where m': "m' = fst (mux_exec op m)" by (auto simp: mux_step_def)
  have "(bt_contains (mux_retired_channels m) c \<longrightarrow> bt_contains (mux_retired_channels m') c)
    \<and> (bt_contains (mux_channels m) c \<longrightarrow>
        bt_contains (mux_channels m') c \<or> bt_contains (mux_retired_channels m') c)
    \<and> lim_max_channels (mux_limits m') = lim_max_channels (mux_limits m)"
  proof (cases op)
    case (MuxOpen cfg)
    obtain r where "Multiplexer_open_channel m cfg = (r, m')"
      using m' MuxOpen by (cases "Multiplexer_open_channel m cfg") auto
    then show ?thesis by (auto elim!: open_cases)
  next
    case MuxNext
    then show ?thesis
      using m' next_keeps_channels(1) [of m c] next_keeps_channels(2,3) [of m] by (cases "Multiplexer_next_outbound m") simp
  next
    case MuxDiscardAll
    then show ?thesis using m' by (simp add: Multiplexer_discard_all_def)
  qed (use m' in \<open>auto elim!: enqueue_control_cases enqueue_cases enqueue_discardable_cases cancel_cases
        close_cases simp: push_frame_fields intro: bt_containsI split: prod.splits\<close>)
  then show "bt_contains (mux_retired_channels m) c \<Longrightarrow> bt_contains (mux_retired_channels m') c"
    and "bt_contains (mux_channels m) c \<Longrightarrow>
      bt_contains (mux_channels m') c \<or> bt_contains (mux_retired_channels m') c"
    and "lim_max_channels (mux_limits m') = lim_max_channels (mux_limits m)" by blast+
qed

interpretation mux_table:
  lifetime_table mux_inv "\<lambda>m. bt_contains (mux_channels m)" "\<lambda>m. bt_contains (mux_retired_channels m)"
    "\<lambda>m. lim_max_channels (mux_limits m)" mux_step
proof
  fix m m' assume "mux_inv m" and "mux_step m m'"
  then show "mux_inv m'" unfolding mux_step_def by (metis mux_exec_inv prod.exhaust_sel)
next
  fix m and c assume "mux_inv m" and "bt_contains (mux_retired_channels m) c"
  then show "\<not> bt_contains (mux_channels m) c"
    by (auto simp: mux_inv_def channels_inv_def channel_ok_def elim: bt_containsE)
next
  fix m assume "mux_inv m"
  then have "bt_len (mux_channels m) + bt_len (mux_retired_channels m) \<le> lim_max_channels (mux_limits m)"
    by (simp add: mux_inv_def table_inv_def)
  moreover have "{c. bt_contains (mux_channels m) c \<or> bt_contains (mux_retired_channels m) c} =
      {c. bt_contains (mux_channels m) c} \<union> {c. bt_contains (mux_retired_channels m) c}" by auto
  ultimately show "finite {c. bt_contains (mux_channels m) c \<or> bt_contains (mux_retired_channels m) c}
      \<and> card {c. bt_contains (mux_channels m) c \<or> bt_contains (mux_retired_channels m) c}
        \<le> lim_max_channels (mux_limits m)"
    using card_Un_le [of "{c. bt_contains (mux_channels m) c}" "{c. bt_contains (mux_retired_channels m) c}"]
    by (simp add: bt_len_contains)
qed (meson mux_step_table)+

end
