(* ===== verification/Link_Fairness.thy ===== *)
theory Link_Fairness
  imports Link_Mux "HOL-Library.Sublist" "HOL-Library.Multiset"
begin

text \<open>
  What the multiplexer's scheduler guarantees: the cost of a frame in virtual time, the
  choice \<^verbatim>\<open>next_outbound\<close> makes, that a backlog is drained completely, where every accepted
  frame goes, and a bound on the number and the cost of the data frames that can overtake a waiting
  channel whatever other operations run in between.
\<close>

subsection \<open>The cost of a frame\<close>

lemma nat_div_ceil:
  fixes a b :: nat
  assumes "0 < b"
  shows "(a + (b - 1)) div b = (if 0 < a mod b then a div b + 1 else a div b)"
proof -
  have eq: "a + (b - 1) = a div b * b + (a mod b + (b - 1))" by simp
  have "(a + (b - 1)) div b = a div b + (a mod b + (b - 1)) div b"
    unfolding eq using assms by (simp only: div_mult_self3)
  moreover have "(a mod b + (b - 1)) div b = 1" if "0 < a mod b"
  proof -
    have "a mod b < b" using assms by simp
    with that assms have "b \<le> a mod b + (b - 1)" "a mod b + (b - 1) < 2 * b" by linarith+
    then show ?thesis by (intro div_nat_eqI) simp_all
  qed
  ultimately show ?thesis using assms by simp
qed

lemma ceil_le_iff:
  fixes a b k :: nat
  assumes "0 < b"
  shows "(a + (b - 1)) div b \<le> k \<longleftrightarrow> a \<le> k * b"
proof -
  have "(a + (b - 1)) div b \<le> k \<longleftrightarrow> (a + (b - 1)) div b < k + 1" by linarith
  also have "\<dots> \<longleftrightarrow> a + (b - 1) < (k + 1) * b" by (rule div_less_iff_less_mult [OF assms])
  also have "\<dots> \<longleftrightarrow> a \<le> k * b" using assms by (simp only: add_mult_distrib) linarith
  finally show ?thesis .
qed

lemma unat_word_div_ceil:
  assumes "0 < unat b"
  shows "unat (word_div_ceil a (b :: 'a::len word)) = (unat a + (unat b - 1)) div unat b"
proof -
  have "unat a div unat b + 1 < 2 ^ LENGTH('a)" if m: "0 < unat a mod unat b"
  proof -
    have "1 < unat b" using m assms by (cases "unat b = 1") auto
    then have "unat a div unat b < unat a" using m by (intro div_less_dividend) (auto intro: ccontr)
    with unat_lt_size [of a] show ?thesis by linarith
  qed
  then show ?thesis
    unfolding nat_div_ceil [OF assms]
    by (auto simp: word_div_ceil_def word_less_nat_alt unat_div unat_mod unat_word_ariths)
qed

lemma unat_ucast_u128: "unat (ucast (p :: u8) :: u128) = unat p"
proof -
  have "unat p < 2 ^ 128" using unat_u8_lt [of p] by simp
  then show ?thesis by (simp only: unsigned_ucast_eq) (simp add: take_bit_nat_eq_self)
qed

lemma priority_weight: "unat (p div 32 + 1 :: u8) = unat p div 32 + 1"
proof -
  have "unat p div 32 + 1 < 256" using unat_u8_lt [of p] by simp
  then show ?thesis by (simp add: unat_div unat_word_ariths)
qed

lemma band_width: "word_div_ceil (- 1) PRIORITY_BANDS = (32 :: u8)"
  by (simp add: word_div_ceil_def PRIORITY_BANDS_def)

lemma unat_scheduling_cost:
  assumes "n < 2 ^ 64"
  shows "unat (scheduling_cost n p) = (max n 1 * 8 + unat p div 32) div (unat p div 32 + 1)"
proof -
  have a: "unat (sat_mul (of_nat (max n 1)) 8 :: u128) = max n 1 * 8"
    using assms by (simp add: unat_sat_mul unat_of_nat)
  have c: "scheduling_cost n p = word_div_ceil (sat_mul (of_nat (max n 1)) 8) (ucast (p div 32 + 1))"
    by (simp only: scheduling_cost_def band_width Let_def) (simp add: PRIORITY_BANDS_def)
  show ?thesis
    unfolding c by (subst unat_word_div_ceil) (simp_all only: unat_ucast_u128 priority_weight a, simp_all)
qed

lemma scheduling_cost_pos: "n < 2 ^ 64 \<Longrightarrow> 0 < unat (scheduling_cost n p)"
  using unat_u8_lt [of p] by (simp add: unat_scheduling_cost div_greater_zero_iff)

subsection \<open>Bounded bypass\<close>

text \<open>A channel waiting with finish time \<open>F\<close>. While it waits, every other data frame is
  served at a virtual time of at most \<open>F\<close> and moves its channel's finish time on by
  its scheduling cost, so the potential below, summed over the other channels and the channels
  that may still be opened, falls with every data frame sent by its cost, as far as the
  allowance \<open>M\<close> covers that, and no other operation raises it.\<close>

definition waiting :: "Multiplexer \<Rightarrow> ChannelId \<Rightarrow> u128 \<Rightarrow> bool" where
  "waiting m c F \<longleftrightarrow>
     (\<exists>st. bt_get (mux_channels m) c = Some st \<and> st_queue st \<noteq> [] \<and> st_virtual_finish st = F)"

definition slack :: "nat \<Rightarrow> u128 \<Rightarrow> u128 \<Rightarrow> ChannelState \<Rightarrow> nat" where
  "slack M F vt st = unat F + M - max (unat (st_virtual_finish st)) (unat vt)"

definition potential :: "nat \<Rightarrow> Multiplexer \<Rightarrow> ChannelId \<Rightarrow> u128 \<Rightarrow> nat" where
  "potential M m c F =
     bt_sum (slack M F (mux_virtual_time m)) (bt_remove c (mux_channels m))
     + (lim_max_channels (mux_limits m) - bt_len (mux_channels m) - bt_len (mux_retired_channels m))
       * (unat F + M - unat (mux_virtual_time m))"

text \<open>The cost of a frame, written out: eight times its payload, an empty one counted as one byte, over a weight of
  one to eight, rounded up. The weight grows with the priority hint of its channel.\<close>

definition frame_cost :: "(ChannelId \<Rightarrow> u8) \<Rightarrow> OutboundFrame \<Rightarrow> nat" where
  "frame_cost hint f =
     (case f of
        Out_Control _ \<Rightarrow> 0
      | Out_Data e \<Rightarrow>
          (max (length (dat_payload e)) 1 * 8 + unat (hint (dat_channel_id e)) div 32) div (unat (hint (dat_channel_id e)) div 32 + 1))"

definition load :: "nat \<Rightarrow> (ChannelId \<Rightarrow> u8) \<Rightarrow> OutboundFrame list \<Rightarrow> nat" where
  "load M hint fs = sum_list (map (\<lambda>f. min (frame_cost hint f) M) fs)"

lemma load_simps [simp]: "load M hint [] = 0" "load M hint (f # fs) = min (frame_cost hint f) M + load M hint fs"
  "load M hint (fs @ gs) = load M hint fs + load M hint gs" "frame_cost hint (Out_Control p) = 0"
  by (simp_all add: load_def frame_cost_def)

text \<open>The priority hints of the channels: what the open ones have, and what the channels opened later are given.\<close>

definition hints_ok :: "(ChannelId \<Rightarrow> u8) \<Rightarrow> Multiplexer \<Rightarrow> bool" where
  "hints_ok hint m \<longleftrightarrow> (\<forall>c st. bt_get (mux_channels m) c = Some st \<longrightarrow> cfg_priority_hint (st_config st) = hint c)"

fun opens_with :: "(ChannelId \<Rightarrow> u8) \<Rightarrow> MuxOp \<Rightarrow> bool" where
  "opens_with hint (MuxOpen cfg) = (cfg_priority_hint cfg = hint (cfg_id cfg))"
| "opens_with hint _ = True"

definition data_frames :: "OutboundFrame list \<Rightarrow> OutboundFrame list" where
  "data_frames fs = filter (\<lambda>f. case f of Out_Data _ \<Rightarrow> True | Out_Control _ \<Rightarrow> False) fs"

lemma data_frames_simps [simp]:
  "data_frames [] = []" "data_frames (Out_Data e # fs) = Out_Data e # data_frames fs"
  "data_frames (Out_Control p # fs) = data_frames fs" "data_frames (fs @ gs) = data_frames fs @ data_frames gs"
  by (simp_all add: data_frames_def)

lemma slack_mono: "vt \<le> vt' \<Longrightarrow> slack M F vt' st \<le> slack M F vt st"
  by (auto simp: slack_def word_le_nat_alt intro!: diff_le_mono2)

lemma potential_same_channels:
  "mux_channels m' = mux_channels m \<Longrightarrow> mux_limits m' = mux_limits m \<Longrightarrow>
   mux_retired_channels m' = mux_retired_channels m \<Longrightarrow> mux_virtual_time m' = mux_virtual_time m \<Longrightarrow>
   potential M m' c F = potential M m c F"
  by (simp add: potential_def)

lemma remove_update_sum:
  assumes "bt_get chs d = Some st" and "f st' \<le> f st"
  shows "bt_sum f (bt_remove c (bt_insert d st' chs)) \<le> bt_sum f (bt_remove c chs)"
proof (cases "d = c")
  case False
  with assms(1) have "bt_get (bt_remove c chs) d = Some st" by simp
  from bt_sum_update [OF this, of f st'] assms(2) False show ?thesis
    by (simp add: bt_remove_insert)
qed (simp add: bt_remove_insert_same)

lemma potential_update:
  assumes "bt_get (mux_channels m) d = Some st" and "mux_channels m' = bt_insert d st' (mux_channels m)"
    and "slack M F (mux_virtual_time m) st' \<le> slack M F (mux_virtual_time m) st"
    and "mux_limits m' = mux_limits m" "mux_retired_channels m' = mux_retired_channels m"
      "mux_virtual_time m' = mux_virtual_time m"
  shows "potential M m' c F \<le> potential M m c F"
  using remove_update_sum [OF assms(1), of "slack M F (mux_virtual_time m)" st' c] assms
  by (simp add: potential_def)

lemma potential_push:
  assumes "bt_get (mux_channels m) d = Some st0" and "st_virtual_finish st = st_virtual_finish st0"
  shows "potential M (push_frame m d st e) c F \<le> potential M m c F"
  using assms by (intro potential_update [OF assms(1) push_frame_fields(1)])
    (auto simp: push_frame_fields slack_def word_le_nat_alt max_def)

lemma potential_open:
  assumes inv: "mux_inv m" and "Multiplexer_open_channel m cfg = (r, m')" and "bt_contains (mux_channels m) c"
  shows "potential M m' c F \<le> potential M m c F"
  using assms(2)
proof (cases rule: open_cases)
  case opened
  let ?vt = "mux_virtual_time m"
  let ?st = "\<lparr>st_config = cfg, st_queue = [], st_cancelled = False, st_stream_bytes = 0,
              st_virtual_finish = ?vt\<rparr> :: ChannelState"
  have ne: "c \<noteq> cfg_id cfg" using assms(3) opened(5) by (auto simp: bt_contains_def)
  have "bt_sum (slack M F ?vt) (bt_remove c (mux_channels m')) =
      (unat F + M - unat ?vt) + bt_sum (slack M F ?vt) (bt_remove c (mux_channels m))"
    using ne opened(5) by (simp add: opened(7) bt_remove_insert bt_sum_insert_fresh slack_def)
  moreover have "bt_len (mux_channels m) + bt_len (mux_retired_channels m) < lim_max_channels (mux_limits m)"
    using inv usize_sat_add_less [OF opened(6)] by (simp add: mux_inv_def table_inv_def)
  then obtain k where "lim_max_channels (mux_limits m) - bt_len (mux_channels m) - bt_len (mux_retired_channels m) = Suc k"
      "lim_max_channels (mux_limits m) - Suc (bt_len (mux_channels m)) - bt_len (mux_retired_channels m) = k"
    by (metis Suc_diff_Suc diff_Suc_eq_diff_pred diff_diff_left diff_commute less_diff_conv add.commute)
  ultimately show ?thesis
    using opened(5) by (simp add: potential_def opened(7))
qed simp

lemma potential_close:
  assumes inv: "mux_inv m" and "Multiplexer_close_channel m d = (r, m')" and "d \<noteq> c"
  shows "potential M m' c F \<le> potential M m c F"
  using assms(2)
proof (cases rule: close_cases)
  case (closed st)
  have "bt_sum f (bt_remove c (mux_channels m')) \<le> bt_sum f (bt_remove c (mux_channels m))" for f
    using bt_sum_remove_le [of f d "bt_remove c (mux_channels m)"]
    by (simp add: closed(3) bt_remove_remove [of c d])
  moreover have "\<not> bt_contains (mux_retired_channels m) d"
    using inv closed(1) by (auto simp: mux_inv_def channels_inv_def channel_ok_def)
  moreover have "bt_len (mux_channels m) = Suc (bt_len (mux_channels m'))"
    unfolding closed(3) using closed(1) by (intro bt_len_remove [symmetric] bt_containsI)
  ultimately show ?thesis
    by (simp add: potential_def closed(7-) bs_len_insert)
qed simp

lemma potential_serve:
  assumes inv: "mux_inv m" and frames: "lim_max_frame_bytes (mux_limits m) < 2 ^ 64"
    and F: "unat F + M < 2 ^ 128" and wait: "waiting m c F"
    and i: "i < length (mux_ready m)" and get: "bt_get (mux_channels m) (mux_ready m ! i) = Some st"
    and q: "st_queue st = e # q"
    and least: "\<And>j w. (j, w) \<in> set (ready_candidates m) \<Longrightarrow> (st_virtual_finish st, i) \<le> (w, j)"
    and ne: "mux_ready m ! i \<noteq> c" and hints: "hints_ok hint m"
  shows "potential M (serve m i st e q) c F + min (frame_cost hint (Out_Data e)) M \<le> potential M m c F"
proof -
  let ?d = "mux_ready m ! i" and ?s = "st_virtual_finish st" and ?vt = "mux_virtual_time m"
  have ri: "ready_inv m" using inv by (simp add: mux_inv_def)
  from wait obtain stc where stc: "bt_get (mux_channels m) c = Some stc" "st_queue stc \<noteq> []" "st_virtual_finish stc = F"
    by (auto simp: waiting_def)
  with ri have "c \<in> set (mux_ready m)" unfolding ready_inv_def by blast
  from serve_minimal [OF ri least this stc(1)] stc(3) have sF: "?s \<le> F" by simp
  have vs: "?vt \<le> ?s" using ri get nth_mem [OF i] unfolding ready_inv_def by blast
  have "channel_ok m ?d st" using inv get by (simp add: mux_inv_def channels_inv_def)
  then have "length (dat_payload e) < 2 ^ 64" using q frames by (simp add: channel_ok_def frame_ok_def)
  moreover have "dat_channel_id e = ?d" using queued_channel [OF inv get] q by simp
  moreover have "cfg_priority_hint (st_config st) = hint ?d" using hints get by (simp add: hints_ok_def)
  ultimately have cost: "unat (scheduling_cost (length (dat_payload e)) (cfg_priority_hint (st_config st))) = frame_cost hint (Out_Data e)"
    by (simp add: unat_scheduling_cost frame_cost_def)
  let ?j = "min (frame_cost hint (Out_Data e)) M"
  let ?st = "st\<lparr>st_queue := q, st_virtual_finish := sat_add (max ?s ?vt)
           (scheduling_cost (length (dat_payload e)) (cfg_priority_hint (st_config st)))\<rparr>"
  have mx: "max ?s ?vt = ?s" using vs by (simp add: max_def)
  have le: "unat ?s \<le> unat F" "unat ?vt \<le> unat ?s" using sF vs by (simp_all add: word_le_nat_alt)
  have "unat ?s + ?j \<le> unat (st_virtual_finish ?st)"
  proof -
    have "unat ?s + ?j \<le> min (unat ?s + frame_cost hint (Out_Data e)) (2 ^ 128 - 1)" using le F by simp
    then show ?thesis by (simp add: mx unat_sat_add cost)
  qed
  then have dslack: "slack M F ?s ?st + ?j \<le> slack M F ?vt st" using le unfolding slack_def by linarith
  have "bt_sum (slack M F ?s) (bt_remove c (mux_channels (serve m i st e q))) + slack M F ?s st
      = bt_sum (slack M F ?s) (bt_remove c (mux_channels m)) + slack M F ?s ?st"
    using bt_sum_update [of "bt_remove c (mux_channels m)" ?d st "slack M F ?s" ?st] get ne
    by (simp add: serve_channels bt_remove_insert)
  moreover have "slack M F ?s st = slack M F ?vt st" using le by (simp add: slack_def)
  ultimately have "bt_sum (slack M F ?s) (bt_remove c (mux_channels (serve m i st e q))) + ?j
      \<le> bt_sum (slack M F ?s) (bt_remove c (mux_channels m))"
    using dslack by linarith
  also have "\<dots> \<le> bt_sum (slack M F ?vt) (bt_remove c (mux_channels m))"
    using vs by (intro bt_sum_mono slack_mono)
  finally have sum: "bt_sum (slack M F ?s) (bt_remove c (mux_channels (serve m i st e q))) + ?j
      \<le> bt_sum (slack M F ?vt) (bt_remove c (mux_channels m))" .
  let ?k = "lim_max_channels (mux_limits m) - bt_len (mux_channels m) - bt_len (mux_retired_channels m)"
  have "?k * (unat F + M - unat ?s) \<le> ?k * (unat F + M - unat ?vt)"
    using vs by (intro mult_le_mono2 diff_le_mono2) (simp add: word_le_nat_alt)
  from add_mono [OF sum this] show ?thesis
    unfolding potential_def serve_fields mx using get by (simp add: serve_channels)
qed

lemma waiting_push:
  assumes "waiting m c F" and "bt_get (mux_channels m) d = Some st0" and "st_queue st = st_queue st0"
    and "st_virtual_finish st = st_virtual_finish st0"
  shows "waiting (push_frame m d st e) c F"
  using assms by (auto simp: waiting_def push_frame_fields)

lemma waiting_contains: "waiting m c F \<Longrightarrow> bt_contains (mux_channels m) c"
  by (auto simp: waiting_def intro: bt_containsI)

lemma next_step_potential:
  assumes inv: "mux_inv m" and frames: "lim_max_frame_bytes (mux_limits m) < 2 ^ 64"
    and F: "unat F + M < 2 ^ 128" and wait: "waiting m c F"
    and n: "Multiplexer_next_outbound m = (out, m')"
    and other: "\<And>e. out = Some (Out_Data e) \<Longrightarrow> dat_channel_id e \<noteq> c" and hints: "hints_ok hint m"
  shows "waiting m' c F
    \<and> potential M m' c F + load M hint (case out of None \<Rightarrow> [] | Some f \<Rightarrow> [f]) \<le> potential M m c F"
proof (cases "mux_control m")
  case (Cons p ps)
  with n wait show ?thesis
    by (auto simp: Multiplexer_next_outbound_def waiting_def potential_def)
next
  case Nil
  then have nd: "next_data m = (out, m')" using n by (simp add: Multiplexer_next_outbound_def)
  show ?thesis
  proof (cases rule: next_data_cases [of m])
    case idle
    with nd wait show ?thesis by (auto simp: waiting_def potential_def)
  next
    case (serve i st e q)
    have eq: "out = Some (Out_Data e)" "m' = serve m i st e q" using nd serve(4) by simp_all
    have "dat_channel_id e = mux_ready m ! i" using queued_channel [OF inv serve(2)] serve(3) by simp
    with other [OF eq(1)] have ne: "mux_ready m ! i \<noteq> c" by simp
    from potential_serve [OF inv frames F wait serve(1,2,3,5) ne hints] wait ne show ?thesis
      unfolding eq by (auto simp: waiting_def serve_channels)
  qed
qed

lemma mux_exec_potential:
  assumes inv: "mux_inv m" and frames: "lim_max_frame_bytes (mux_limits m) < 2 ^ 64"
    and F: "unat F + M < 2 ^ 128" and wait: "waiting m c F"
    and ex: "mux_exec op m = (m', acc, out, d)" and nd: "\<not> mux_drops op c"
    and other: "\<And>e. Out_Data e \<in> set out \<Longrightarrow> dat_channel_id e \<noteq> c" and hints: "hints_ok hint m"
  shows "waiting m' c F \<and> potential M m' c F + load M hint out \<le> potential M m c F"
proof (cases op)
  case (MuxOpen cfg)
  obtain r where o: "Multiplexer_open_channel m cfg = (r, m')" "out = []"
    using ex MuxOpen by (cases "Multiplexer_open_channel m cfg") auto
  have "waiting m' c F" using o(1) wait by (auto elim!: open_cases simp: waiting_def)
  with o potential_open [OF inv o(1) waiting_contains [OF wait]] show ?thesis by simp
next
  case (MuxControl p)
  obtain r where "Multiplexer_enqueue_control m p = (r, m')" "out = []"
    using ex MuxControl by (auto split: prod.splits)
  with wait show ?thesis by (auto elim!: enqueue_control_cases simp: waiting_def potential_def)
next
  case (MuxEnqueue e)
  obtain r where "Multiplexer_enqueue m e = (r, m')" "out = []"
    using ex MuxEnqueue by (auto split: prod.splits)
  with wait show ?thesis by (auto elim!: enqueue_cases intro: waiting_push potential_push)
next
  case (MuxEnqueueDiscardable e)
  obtain r where "Multiplexer_enqueue_discardable m e = (r, m')" "out = []"
    using ex MuxEnqueueDiscardable by (auto split: prod.splits)
  with wait show ?thesis by (auto elim!: enqueue_discardable_cases intro: waiting_push potential_push)
next
  case MuxNext
  obtain f where f: "Multiplexer_next_outbound m = (f, m')" "out = (case f of None \<Rightarrow> [] | Some f \<Rightarrow> [f])"
    using ex MuxNext by (auto split: prod.splits)
  with other next_step_potential [OF inv frames F wait f(1) _ hints] show ?thesis by (auto split: option.splits)
next
  case (MuxCancel k)
  obtain r where k: "Multiplexer_cancel_channel m k = (r, m')" "out = []" "k \<noteq> c"
    using ex nd MuxCancel by (auto split: prod.splits)
  then have "potential M m' c F \<le> potential M m c F"
    by (auto elim!: cancel_cases intro!: potential_update simp: slack_def)
  with k wait show ?thesis by (auto elim!: cancel_cases simp: waiting_def)
next
  case (MuxClose k)
  obtain r where k: "Multiplexer_close_channel m k = (r, m')" "out = []" "k \<noteq> c"
    using ex nd MuxClose by (auto split: prod.splits)
  with potential_close [OF inv k(1,3)] wait show ?thesis by (auto elim!: close_cases simp: waiting_def)
qed (use nd in simp)

lemma mux_exec_limits: "mux_exec op m = (m', acc, out, d) \<Longrightarrow> mux_limits m' = mux_limits m"
proof (cases op)
  case (MuxOpen cfg)
  assume "mux_exec op m = (m', acc, out, d)"
  with MuxOpen show ?thesis by (cases "Multiplexer_open_channel m cfg") (auto elim!: open_cases)
next
  case MuxNext
  assume "mux_exec op m = (m', acc, out, d)"
  with MuxNext next_keeps_channels(3) [of m] show ?thesis by (auto split: prod.splits)
qed (auto elim!: enqueue_control_cases enqueue_cases enqueue_discardable_cases cancel_cases close_cases
    simp: push_frame_fields Multiplexer_discard_all_def split: prod.splits)

lemma mux_exec_hints:
  assumes "mux_exec op m = (m', acc, out, d)" and "hints_ok hint m" and "opens_with hint op"
  shows "hints_ok hint m'"
proof (cases op)
  case (MuxOpen cfg)
  then show ?thesis
    using assms by (cases "Multiplexer_open_channel m cfg") (auto elim!: open_cases simp: hints_ok_def split: if_splits)
next
  case MuxNext
  obtain f where f: "Multiplexer_next_outbound m = (f, m')" using assms(1) MuxNext by (auto split: prod.splits)
  show ?thesis
  proof (cases "mux_control m")
    case Nil
    then have "next_data m = (f, m')" using f by (simp add: Multiplexer_next_outbound_def)
    then show ?thesis
      using assms(2) by (cases rule: next_data_cases [of m]) (auto simp: hints_ok_def serve_channels split: if_splits)
  qed (use f assms(2) in \<open>auto simp: Multiplexer_next_outbound_def hints_ok_def\<close>)
qed (use assms in \<open>auto elim!: enqueue_control_cases enqueue_cases enqueue_discardable_cases cancel_cases close_cases
    simp: hints_ok_def push_frame_fields Multiplexer_discard_all_def split: prod.splits if_splits\<close>)

lemma data_frames_lane:
  assumes "list_all (\<lambda>f. lane_of f \<noteq> c) (data_frames fs)" and "Out_Data e \<in> set fs"
  shows "dat_channel_id e \<noteq> c"
proof -
  have "Out_Data e \<in> set (data_frames fs)" using assms(2) by (simp add: data_frames_def)
  with assms(1) have "lane_of (Out_Data e) \<noteq> c" unfolding list_all_iff by blast
  then show ?thesis by simp
qed

lemma run_potential:
  assumes "mux_inv m" and "lim_max_frame_bytes (mux_limits m) < 2 ^ 64" and "unat F + M < 2 ^ 128"
    and "waiting m c F" and "run_ops mux_exec ops m = (m', acc, out, d)"
    and "list_all (\<lambda>op. \<not> mux_drops op c) ops" and "list_all (\<lambda>f. lane_of f \<noteq> c) (data_frames out)"
    and "hints_ok hint m" and "list_all (opens_with hint) ops"
  shows "waiting m' c F \<and> potential M m' c F + load M hint out \<le> potential M m c F"
  using assms
proof (induction ops arbitrary: m acc out d)
  case (Cons op ops)
  from Cons.prems(5) obtain u a1 o1 d1 a2 o2 d2 where
    1: "mux_exec op m = (u, a1, o1, d1)" and 2: "run_ops mux_exec ops u = (m', a2, o2, d2)"
    and eq: "out = o1 @ o2"
    by (auto split: prod.splits)
  have o: "list_all (\<lambda>f. lane_of f \<noteq> c) (data_frames o1)" "list_all (\<lambda>f. lane_of f \<noteq> c) (data_frames o2)"
    using Cons.prems(7) eq by simp_all
  have nd: "\<not> mux_drops op c" "list_all (\<lambda>op. \<not> mux_drops op c) ops" using Cons.prems(6) by simp_all
  have hints: "opens_with hint op" "list_all (opens_with hint) ops" using Cons.prems(9) by simp_all
  have u: "waiting u c F \<and> potential M u c F + load M hint o1 \<le> potential M m c F"
    by (rule mux_exec_potential [OF Cons.prems(1-4) 1 nd(1) data_frames_lane [OF o(1)] Cons.prems(8)])
  have "waiting m' c F \<and> potential M m' c F + load M hint o2 \<le> potential M u c F"
  proof (rule Cons.IH [OF _ _ Cons.prems(3) _ 2 nd(2) o(2) _ hints(2)])
    show "mux_inv u" using Cons.prems(1) 1 by (rule mux_exec_inv)
    show "lim_max_frame_bytes (mux_limits u) < 2 ^ 64" using Cons.prems(2) mux_exec_limits [OF 1] by simp
    show "waiting u c F" using u by simp
    show "hints_ok hint u" using mux_exec_hints [OF 1 Cons.prems(8) hints(1)] .
  qed
  with u show ?case using eq by simp
qed simp

lemma potential_bound:
  assumes inv: "mux_inv m" and wait: "waiting m c F"
  shows "potential M m c F \<le> (lim_max_channels (mux_limits m) - 1) * (unat F + M - unat (mux_virtual_time m))"
proof -
  let ?x = "unat F + M - unat (mux_virtual_time m)" and ?k = "lim_max_channels (mux_limits m)"
  let ?chs = "mux_channels m" and ?n = "bt_len (bt_remove c (mux_channels m))"
  have le: "bt_sum f n \<le> bt_len n * x" if "\<And>v. f v \<le> x" for f and n :: "(ChannelId, ChannelState) btree" and x
    using sum_list_mono [of "bt_values n" f "\<lambda>_. x"] that
    by (simp add: bt_sum_def bt_values_def bt_len.rep_eq sum_list_triv comp_def)
  have s: "bt_sum (slack M F (mux_virtual_time m)) (bt_remove c ?chs) \<le> ?n * ?x"
    by (rule le) (simp add: slack_def diff_le_mono2)
  have n: "Suc ?n = bt_len ?chs" using waiting_contains [OF wait] by (rule bt_len_remove)
  have "bt_len ?chs \<le> ?k" using inv by (simp add: mux_inv_def table_inv_def)
  then have "?n + (?k - bt_len ?chs - bt_len (mux_retired_channels m)) \<le> ?k - 1" using n by linarith
  then have "(?n + (?k - bt_len ?chs - bt_len (mux_retired_channels m))) * ?x \<le> (?k - 1) * ?x"
    by (rule mult_le_mono1)
  with s show ?thesis unfolding potential_def by (simp add: add_mult_distrib)
qed

text \<open>What a run sends: its frames with allowance one, its whole cost with an allowance of the costliest frame.\<close>

lemma frame_cost_bounds:
  "1 \<le> frame_cost hint (Out_Data e)" "max (length (dat_payload e)) 1 \<le> frame_cost hint (Out_Data e)"
  "frame_cost hint (Out_Data e) \<le> 8 * max (length (dat_payload e)) 1"
proof -
  let ?n = "max (length (dat_payload e)) 1" and ?w = "unat (hint (dat_channel_id e)) div 32 + 1"
  have w: "?w \<le> 8" using unat_u8_lt [of "hint (dat_channel_id e)"] by simp
  have cost: "frame_cost hint (Out_Data e) = (?n * 8 + (?w - 1)) div ?w" by (simp add: frame_cost_def)
  have "?n * ?w \<le> ?n * 8 + (?w - 1)" using mult_le_mono2 [OF w, of ?n] by linarith
  then show low: "?n \<le> frame_cost hint (Out_Data e)" unfolding cost by (subst less_eq_div_iff_mult_less_eq) simp_all
  then show "1 \<le> frame_cost hint (Out_Data e)" by linarith
  have "?n * 8 + (?w - 1) \<le> ?n * 8 * ?w"
  proof -
    have "1 * (?w - 1) \<le> ?n * 8 * (?w - 1)" by (rule mult_le_mono1) simp
    then show ?thesis by (simp add: algebra_simps)
  qed
  then have "(?n * 8 + (?w - 1)) div ?w \<le> ?n * 8" by (metis div_le_mono div_mult_self_is_m add_gr_0 zero_less_one)
  then show "frame_cost hint (Out_Data e) \<le> 8 * ?n" unfolding cost by simp
qed

lemma sent_sizes:
  assumes "mux_inv m" and "run_ops mux_exec ops m = (m', acc, out, d)" and "Out_Data e \<in> set out"
  shows "length (dat_payload e) \<le> lim_max_frame_bytes (mux_limits m)"
  using assms
proof (induction ops arbitrary: m acc out d)
  case (Cons op ops)
  from Cons.prems(2) obtain u a1 o1 d1 a2 o2 d2 where
    1: "mux_exec op m = (u, a1, o1, d1)" and 2: "run_ops mux_exec ops u = (m', a2, o2, d2)" and eq: "out = o1 @ o2"
    by (auto split: prod.splits)
  show ?case
  proof (cases "Out_Data e \<in> set o1")
    case False
    then have "Out_Data e \<in> set o2" using Cons.prems(3) eq by simp
    with Cons.IH [OF mux_exec_inv [OF Cons.prems(1) 1] 2] mux_exec_limits [OF 1] show ?thesis by simp
  next
    case True
    then have op: "op = MuxNext" using 1 by (cases op) (auto split: prod.splits)
    then have "\<exists>u. Multiplexer_next_outbound m = (Some (Out_Data e), u)"
      using 1 True by (auto split: prod.splits option.splits)
    then obtain u' where "next_data m = (Some (Out_Data e), u')"
      by (cases "mux_control m") (auto simp: Multiplexer_next_outbound_def)
    then obtain i st q where "bt_get (mux_channels m) (mux_ready m ! i) = Some st" "st_queue st = e # q"
      by (cases rule: next_data_cases [of m]) auto
    with Cons.prems(1) have "channel_ok m (mux_ready m ! i) st" "e \<in> set (st_queue st)" by (simp_all add: mux_inv_def channels_inv_def)
    then show ?thesis by (auto simp: channel_ok_def frame_ok_def list_all_iff)
  qed
qed simp

lemma load_one: "load 1 hint fs = length (data_frames fs)"
proof (induction fs)
  case (Cons f fs)
  have "min 1 (frame_cost hint (Out_Data e)) = 1" for e using frame_cost_bounds(1) [of hint e] by linarith
  with Cons show ?case by (cases f) (simp_all add: min.commute)
qed simp

lemma load_all:
  "list_all (\<lambda>f. frame_cost hint f \<le> M) fs \<Longrightarrow> load M hint fs = sum_list (map (frame_cost hint) fs)"
  by (induction fs) auto

subsection \<open>What is kept of every lane\<close>

text \<open>A lane system that only ever loses frames of a lane when it drops that lane, and then adds and sends none.\<close>

locale lossy_lane_system = lane_system +
  assumes exec_drops: "inv s \<Longrightarrow> exec op s = (t, acc, out, d) \<Longrightarrow> drops op c \<Longrightarrow> acc = [] \<and> out = [] \<and> subseq (lane t c) (lane s c)"
begin

lemma exec_kept:
  assumes "inv s" "exec op s = (t, acc, out, d)"
  shows "subseq (filter (\<lambda>f. lane_of f = c) out @ lane t c) (lane s c @ filter (\<lambda>f. lane_of f = c) acc)"
  using exec_drops [OF assms, of c] exec_lane [OF assms, of c] by (cases "drops op c") auto

lemma run_kept:
  "inv s \<Longrightarrow> run_ops exec ops s = (t, acc, out, d) \<Longrightarrow>
   subseq (filter (\<lambda>f. lane_of f = c) out @ lane t c) (lane s c @ filter (\<lambda>f. lane_of f = c) acc)"
proof (induction ops arbitrary: s acc out d)
  case (Cons op ops)
  let ?c = "filter (\<lambda>f. lane_of f = c)"
  from Cons.prems obtain u a1 o1 d1 a2 o2 d2 where
    1: "exec op s = (u, a1, o1, d1)" and 2: "run_ops exec ops u = (t, a2, o2, d2)"
    and eq: "acc = a1 @ a2" "out = o1 @ o2"
    by (auto split: prod.splits)
  have "subseq (?c o1 @ ?c o2 @ lane t c) (?c o1 @ lane u c @ ?c a2)"
    using list_emb_append_mono [of "(=)" "?c o1" "?c o1", OF _ Cons.IH [OF exec_inv [OF Cons.prems(1) 1] 2]] by simp
  also have "subseq \<dots> ((lane s c @ ?c a1) @ ?c a2)"
    using list_emb_append_mono [OF exec_kept [OF Cons.prems(1) 1, of c], of "?c a2" "?c a2"] by simp
  finally show ?case by (simp add: eq)
qed simp

end

lemma mux_exec_drops:
  assumes inv: "mux_inv m" and ex: "mux_exec op m = (m', acc, out, d)" and drops: "mux_drops op c"
  shows "acc = [] \<and> out = [] \<and> subseq (mux_lane m' c) (mux_lane m c)"
proof (cases op)
  case (MuxCancel k)
  obtain r where k: "Multiplexer_cancel_channel m k = (r, m')" "acc = []" "out = []" "k = c"
    using ex drops MuxCancel by (auto split: prod.splits)
  then show ?thesis
    using channel_nonzero [OF inv, of c] by (auto elim!: cancel_cases simp: mux_lane_def)
next
  case (MuxClose k)
  obtain r where k: "Multiplexer_close_channel m k = (r, m')" "acc = []" "out = []" "k = c"
    using ex drops MuxClose by (auto split: prod.splits)
  then show ?thesis
    using channel_nonzero [OF inv, of c] by (auto elim!: close_cases simp: mux_lane_def)
next
  case MuxDiscardAll
  then show ?thesis using ex by (auto simp: Multiplexer_discard_all_def mux_lane_def split: option.splits)
qed (use drops in simp_all)

interpretation mux_kept: lossy_lane_system mux_inv mux_total_pending mux_lane lane_of mux_exec mux_drops
  by unfold_locales (rule mux_exec_drops)

text \<open>The frames that wait in a multiplexer, lane by lane.\<close>

definition mux_queued :: "Multiplexer \<Rightarrow> OutboundFrame list" where
  "mux_queued m = map Out_Control (mux_control m) @ concat (map (\<lambda>st. map Out_Data (st_queue st)) (bt_values (mux_channels m)))"

lemma count_queues:
  assumes "\<And>k st e. (k, st) \<in> set kvs \<Longrightarrow> e \<in> set (st_queue st) \<Longrightarrow> dat_channel_id e = k" and "distinct (map fst kvs)"
  shows "count (mset (concat (map (\<lambda>st. map Out_Data (st_queue st)) (map snd kvs)))) (Out_Data e)
    = (case map_of kvs (dat_channel_id e) of None \<Rightarrow> 0 | Some st \<Rightarrow> count (mset (map Out_Data (st_queue st))) (Out_Data e))"
  using assms
proof (induction kvs)
  case (Cons kv kvs)
  obtain k st where kv: "kv = (k, st)" by fastforce
  have ih: "count (mset (concat (map (\<lambda>st. map Out_Data (st_queue st)) (map snd kvs)))) (Out_Data e)
    = (case map_of kvs (dat_channel_id e) of None \<Rightarrow> 0 | Some st \<Rightarrow> count (mset (map Out_Data (st_queue st))) (Out_Data e))"
    using Cons.prems by (intro Cons.IH) auto
  show ?case
  proof (cases "dat_channel_id e = k")
    case True
    then have "map_of kvs (dat_channel_id e) = None" using Cons.prems(2) kv by (simp add: map_of_eq_None_iff)
    with ih True kv show ?thesis by simp
  next
    case False
    then have "Out_Data e \<notin> set (map Out_Data (st_queue st))" using Cons.prems(1) [of k st e] kv by auto
    then have "count (mset (map Out_Data (st_queue st))) (Out_Data e) = 0" by (simp add: count_eq_zero_iff)
    with ih False kv show ?thesis by simp
  qed
qed simp

lemma count_queued:
  assumes "mux_inv m"
  shows "count (mset (mux_queued m)) f = count (mset (mux_lane m (lane_of f))) f"
proof (cases f)
  case (Out_Control p)
  have "Out_Control p \<notin> set (concat (map (\<lambda>st. map Out_Data (st_queue st)) (bt_values (mux_channels m))))" by auto
  then have "count (mset (concat (map (\<lambda>st. map Out_Data (st_queue st)) (bt_values (mux_channels m))))) (Out_Control p) = 0"
    by (simp add: count_eq_zero_iff del: set_concat)
  with Out_Control show ?thesis by (simp add: mux_queued_def mux_lane_def)
next
  case (Out_Data e)
  have none: "count (mset (map Out_Control ps)) (Out_Data e) = 0" for ps by (subst count_eq_zero_iff) auto
  have "bt_get (mux_channels m) (dat_channel_id e) = None" if "dat_channel_id e = CONTROL_CHANNEL_ID"
    using channel_nonzero [OF assms] that by (cases "bt_get (mux_channels m) (dat_channel_id e)") auto
  moreover have "count (mset (concat (map (\<lambda>st. map Out_Data (st_queue st)) (map snd (bt_entries (mux_channels m)))))) (Out_Data e)
    = (case bt_get (mux_channels m) (dat_channel_id e) of None \<Rightarrow> 0 | Some st \<Rightarrow> count (mset (map Out_Data (st_queue st))) (Out_Data e))"
    unfolding bt_get.rep_eq
    by (rule count_queues [OF _ bt_entries_distinct]) (use queued_channel [OF assms] in \<open>auto simp: bt_entries_get\<close>)
  ultimately show ?thesis
    using Out_Data none by (simp add: mux_queued_def mux_lane_def bt_values_def split: option.splits)
qed

lemma length_queued:
  assumes "mux_inv m"
  shows "length (mux_queued m) = mux_total_pending m"
  using assms
  by (simp add: mux_queued_def mux_inv_def pending_inv_def data_pending_def bt_sum_def length_concat comp_def)

lemma subseq_count: "subseq xs ys \<Longrightarrow> count (mset xs) f \<le> count (mset ys) f"
  by (induction rule: list_emb.induct) auto

lemma count_lane: "count (mset (filter (\<lambda>g. lane_of g = lane_of f) fs)) f = count (mset fs) f"
  by simp

subsection \<open>Properties of the multiplexer\<close>

definition mux_start :: "SessionId \<Rightarrow> MultiplexerLimits \<Rightarrow> Multiplexer \<Rightarrow> bool" where
  "mux_start s l m \<longleftrightarrow>
     Multiplexer_new s l = Inr m \<or> (\<exists>protocols. Multiplexer_restricted s l protocols = Inr m)"

lemma mux_start_inv:
  assumes "mux_start s l m" and "lim_max_channels l \<le> usize_max"
  shows "mux_inv m" and "mux_limits m = l" and "mux_total_pending m = 0" and "mux_lane m c = []"
  using assms
  by (auto simp: mux_start_def Multiplexer_restricted_def Multiplexer_new_def mux_inv_def channels_inv_def
      ready_inv_def pending_inv_def table_inv_def keys_inv_def data_pending_def channel_key_of_def mux_lane_def
      elim!: result_bind_InrE split: if_splits)

lemma run_steps: "run_ops mux_exec ops m = (m', acc, out, d) \<Longrightarrow> mux_step\<^sup>*\<^sup>* m m'"
proof (induction ops arbitrary: m acc out d)
  case (Cons op ops)
  from Cons.prems obtain u a1 o1 d1 a2 o2 d2 where
    1: "mux_exec op m = (u, a1, o1, d1)" and 2: "run_ops mux_exec ops u = (m', a2, o2, d2)"
    by (auto split: prod.splits)
  have "mux_step m u" using 1 by (auto simp: mux_step_def intro: exI [of _ op])
  with Cons.IH [OF 2] show ?case by (rule converse_rtranclp_into_rtranclp [rotated])
qed simp

lemma run_limits: "run_ops mux_exec ops m = (m', acc, out, d) \<Longrightarrow> mux_limits m' = mux_limits m"
  by (induction ops arbitrary: m acc out d) (auto split: prod.splits dest: mux_exec_limits)

lemma next_none_iff:
  assumes inv: "mux_inv m" and n: "Multiplexer_next_outbound m = (None, m')"
  shows "mux_total_pending m = 0" and "m' = m"
proof -
  from n have c: "mux_control m = []" by (auto simp: Multiplexer_next_outbound_def split: list.splits)
  with n have "next_data m = (None, m')" by (simp add: Multiplexer_next_outbound_def)
  then have ready: "mux_ready m = []" "m' = m"
    using inv idle_ready [of m] by (cases rule: next_data_cases [of m]; auto simp: mux_inv_def)+
  then show "m' = m" by simp
  have "st_queue st = []" if "bt_get (mux_channels m) k = Some st" for k st
    using inv that ready unfolding mux_inv_def ready_inv_def by (metis empty_iff list.set(1))
  then have "data_pending m = 0"
    unfolding data_pending_def by (intro bt_sum_zero) (auto simp: bt_values_set)
  with inv c show "mux_total_pending m = 0" by (simp add: mux_inv_def pending_inv_def)
qed

subsection \<open>A concrete multiplexer\<close>

definition sample_config :: "u32 \<Rightarrow> ChannelConfig" where
  "sample_config n =
     \<lparr>cfg_key = ChannelKey (ProtocolStableId 3) (ProtocolVersion 1 0) (ProtocolChannelId 2), cfg_id = ChannelId n,
      cfg_generation = ChannelGeneration 1, cfg_mode = RequestResponse, cfg_priority_hint = 128, cfg_capacity = 4,
      cfg_max_frame_bytes = 64, cfg_max_stream_bytes = None, cfg_discardable = False\<rparr>"

definition sample_mux :: Multiplexer where
  "sample_mux =
     \<lparr>mux_session_id = SessionId 9, mux_limits = MultiplexerLimits_default, mux_channels = bt_empty,
      mux_keys = bt_empty, mux_retired_channels = bt_empty, mux_control = [], mux_ready = [],
      mux_virtual_time = 0, mux_total_pending = 0, mux_allowed_protocols = None\<rparr>"

definition sample_ops :: "MuxOp list" where
  "sample_ops = [MuxOpen (sample_config 5), MuxOpen (sample_config 6), MuxEnqueue sample_data,
     MuxEnqueue (sample_data\<lparr>dat_channel_id := ChannelId 6\<rparr>)]"

definition sample_loaded :: Multiplexer where
  "sample_loaded = fst (run_ops mux_exec sample_ops sample_mux)"

lemmas mux_eval =
  sample_loaded_def sample_ops_def sample_config_def sample_mux_def sample_data_def Multiplexer_open_channel_def
  CONTROL_CHANNEL_ID_def usize_sat_add_def usize_max_def MultiplexerLimits_default_def Multiplexer_enqueue_def
  Multiplexer_validate_envelope_identity_def Multiplexer_validate_payload_def push_frame_def Let_def
  Multiplexer_next_outbound_def next_data.simps selected_candidate_def ready_candidates_def List.map_filter_def
  Multiplexer_pending_frames_def Multiplexer_close_channel_def

lemma sample_start: "mux_start (SessionId 9) MultiplexerLimits_default sample_mux"
  by (simp add: mux_start_def Multiplexer_new_def MultiplexerLimits_default_def sample_mux_def)

lemma sample_limits: "lim_max_channels MultiplexerLimits_default \<le> usize_max"
  by (simp add: MultiplexerLimits_default_def usize_max_def)

lemma sample_run:
  "run_ops mux_exec sample_ops sample_mux =
   (sample_loaded, [Out_Data sample_data, Out_Data (sample_data\<lparr>dat_channel_id := ChannelId 6\<rparr>)], [], 0)"
  by (simp add: mux_eval)

lemma sample_loaded_inv: "mux_inv sample_loaded"
  by (rule mux_lanes.run_inv [OF mux_start_inv(1) [OF sample_start sample_limits] sample_run])

text \<open>After any sequence of operations on a new multiplexer its invariant holds: the
  pending counter equals the frames that are queued, every queue respects its channel's
  capacity and only holds frames of its own session, channel and generation within the size
  limits, the ready list holds exactly the backlogged channels, and pending frames never
  exceed the data limit plus the reserved control capacity.\<close>

theorem mux_invariant:
  assumes "mux_start s l m0" and "lim_max_channels l \<le> usize_max"
    and "run_ops mux_exec ops m0 = (m, acc, out, d)"
  shows "mux_inv m
    \<and> Multiplexer_pending_frames m = length (mux_control m) + data_pending m
    \<and> Multiplexer_pending_frames m \<le> lim_max_total_pending_frames l + lim_control_queue_capacity l"
proof -
  have "mux_inv m" using mux_lanes.run_inv [OF mux_start_inv(1) assms(3)] assms(1,2) by simp
  then show ?thesis
    using run_limits [OF assms(3)] mux_start_inv(2) [OF assms(1,2)]
    by (simp add: mux_inv_def pending_inv_def Multiplexer_pending_frames_def)
qed

text \<open>Two channels with one frame each.\<close>

theorem mux_invariant_witness:
  "mux_inv sample_loaded
   \<and> Multiplexer_pending_frames sample_loaded = length (mux_control sample_loaded) + data_pending sample_loaded"
  using mux_invariant [OF sample_start sample_limits sample_run] by simp

text \<open>C5: frames are conserved. After any sequence of operations on a new multiplexer, the
  frames it accepted are exactly the frames it sent, the frames that wait in it and as many
  discarded frames as its operations reported, each frame as often as it was accepted; and on
  every lane the sent frames followed by the waiting ones are accepted frames in their order.\<close>

theorem mux_conservation:
  assumes "mux_start s l m0" and "lim_max_channels l \<le> usize_max"
    and "run_ops mux_exec ops m0 = (m, acc, out, d)"
  shows "(\<exists>discarded. mset acc = mset out + discarded + mset (mux_queued m) \<and> size discarded = d)
    \<and> length (mux_queued m) = Multiplexer_pending_frames m
    \<and> subseq (filter (\<lambda>f. lane_of f = c) out @ mux_lane m c) (filter (\<lambda>f. lane_of f = c) acc)"
proof -
  note start = mux_start_inv [OF assms(1,2)]
  have inv: "mux_inv m" using mux_lanes.run_inv [OF start(1) assms(3)] .
  have lanes: "subseq (filter (\<lambda>f. lane_of f = c) out @ mux_lane m c) (filter (\<lambda>f. lane_of f = c) acc)" for c
    using mux_kept.run_kept [OF start(1) assms(3), of c] start(4) by simp
  have "mset out + mset (mux_queued m) \<subseteq># mset acc"
  proof (rule mset_subset_eqI)
    fix f
    show "count (mset out + mset (mux_queued m)) f \<le> count (mset acc) f"
      using subseq_count [OF lanes, of "lane_of f" f] count_lane [of f out] count_lane [of f acc] count_queued [OF inv, of f]
      by simp
  qed
  then obtain discarded where split: "mset acc = mset out + mset (mux_queued m) + discarded" by (rule mset_subset_eq_exists_conv [THEN iffD1, THEN exE])
  have "length acc = length out + d + mux_total_pending m"
    using mux_lanes.run_count [OF start(1) assms(3)] start(3) by simp
  then have "size discarded = d" using arg_cong [OF split, of size] length_queued [OF inv] by simp
  with split lanes length_queued [OF inv] show ?thesis by (auto simp: Multiplexer_pending_frames_def ac_simps)
qed

text \<open>C5 witness: the two frames accepted are the two that wait.\<close>

theorem mux_conservation_witness: "mset (mux_queued sample_loaded) = mset [Out_Data sample_data, Out_Data (sample_data\<lparr>dat_channel_id := ChannelId 6\<rparr>)]"
  using mux_conservation [OF sample_start sample_limits sample_run] by simp

text \<open>C6: every channel, and the control queue, is first-in first-out. As long as the
  channel is not cancelled, closed or discarded, the frames accepted on it are the frames
  sent on it, in the same order, followed by the frames still queued.\<close>

theorem mux_fifo:
  assumes "mux_start s l m0" and "lim_max_channels l \<le> usize_max"
    and "run_ops mux_exec ops m0 = (m, acc, out, d)" and "list_all (\<lambda>op. \<not> mux_drops op c) ops"
  shows "filter (\<lambda>f. lane_of f = c) acc = filter (\<lambda>f. lane_of f = c) out @ mux_lane m c"
  using mux_lanes.run_lane [OF mux_start_inv(1) [OF assms(1,2)] assms(3,4)] mux_start_inv(4) [OF assms(1,2)]
  by simp

text \<open>C6 witness: the frame accepted on channel 5 is the one queued there.\<close>

theorem mux_fifo_witness: "mux_lane sample_loaded (ChannelId 5) = [Out_Data sample_data]"
proof -
  have "list_all (\<lambda>op. \<not> mux_drops op (ChannelId 5)) sample_ops" by (simp add: sample_ops_def)
  from mux_fifo [OF sample_start sample_limits sample_run this] show ?thesis by (simp add: sample_data_def)
qed

text \<open>The scheduler's choice. Control frames go first; a data frame is only sent when no
  control frame waits, is the head of its channel's queue, and its channel has the least
  finish time of all backlogged channels; nothing is sent only when nothing is pending.\<close>

theorem mux_next_choice:
  assumes "mux_inv m"
  shows "case Multiplexer_next_outbound m of
      (None, m') \<Rightarrow> Multiplexer_pending_frames m = 0 \<and> m' = m
    | (Some (Out_Control p), m') \<Rightarrow> mux_control m = p # mux_control m'
    | (Some (Out_Data e), m') \<Rightarrow>
        mux_control m = []
        \<and> (\<exists>st q. bt_get (mux_channels m) (dat_channel_id e) = Some st \<and> st_queue st = e # q
            \<and> (\<forall>c st'. bt_get (mux_channels m) c = Some st' \<and> st_queue st' \<noteq> [] \<longrightarrow>
                  st_virtual_finish st \<le> st_virtual_finish st')
            \<and> mux_virtual_time m' = st_virtual_finish st)"
proof (cases "mux_control m")
  case (Cons p ps)
  then show ?thesis by (simp add: Multiplexer_next_outbound_def)
next
  case Nil
  then have nd: "Multiplexer_next_outbound m = next_data m" by (simp add: Multiplexer_next_outbound_def)
  have ri: "ready_inv m" using assms by (simp add: mux_inv_def)
  show ?thesis
  proof (cases rule: next_data_cases [of m])
    case idle
    with next_none_iff [OF assms] nd show ?thesis by (simp add: Multiplexer_pending_frames_def)
  next
    case (serve i st e q)
    have "st_virtual_finish st \<le> st_virtual_finish st'"
      if "bt_get (mux_channels m) c = Some st'" "st_queue st' \<noteq> []" for c st'
      using serve_minimal [OF ri serve(5) _ that(1)] that ri unfolding ready_inv_def by blast
    moreover have "mux_virtual_time m \<le> st_virtual_finish st"
      using ri serve(2) nth_mem [OF serve(1)] unfolding ready_inv_def by blast
    moreover have "dat_channel_id e = mux_ready m ! i" using queued_channel [OF assms serve(2)] serve(3) by simp
    ultimately show ?thesis
      using nd serve(2,3,4) Nil by (auto simp: serve_fields max_def)
  qed
qed

text \<open>Channel 5 became ready first and is served first.\<close>

theorem mux_next_choice_witness:
  "\<exists>st q. bt_get (mux_channels sample_loaded) (ChannelId 5) = Some st \<and> st_queue st = sample_data # q
     \<and> (\<forall>c st'. bt_get (mux_channels sample_loaded) c = Some st' \<and> st_queue st' \<noteq> [] \<longrightarrow>
           st_virtual_finish st \<le> st_virtual_finish st')"
proof -
  obtain m' where "Multiplexer_next_outbound sample_loaded = (Some (Out_Data sample_data), m')"
    by (simp add: mux_eval)
  with mux_next_choice [OF sample_loaded_inv] have
    "\<exists>st q. bt_get (mux_channels sample_loaded) (dat_channel_id sample_data) = Some st \<and> st_queue st = sample_data # q
     \<and> (\<forall>c st'. bt_get (mux_channels sample_loaded) c = Some st' \<and> st_queue st' \<noteq> [] \<longrightarrow>
           st_virtual_finish st \<le> st_virtual_finish st')"
    by auto
  then show ?thesis by (simp add: sample_data_def)
qed

text \<open>A backlog drains. Calling \<^verbatim>\<open>next_outbound\<close> as often as frames are
  pending sends every pending frame, each channel's frames in their order, and leaves the
  multiplexer empty.\<close>

theorem mux_drains:
  assumes "mux_inv m" and "run_ops mux_exec (replicate (Multiplexer_pending_frames m) MuxNext) m = (m', acc, out, d)"
  shows "Multiplexer_pending_frames m' = 0 \<and> length out = Multiplexer_pending_frames m
    \<and> filter (\<lambda>f. lane_of f = c) out = mux_lane m c"
proof -
  have "run_ops mux_exec (replicate n MuxNext) m = (m', acc, out, d) \<Longrightarrow> mux_inv m \<Longrightarrow>
      n = mux_total_pending m \<Longrightarrow> mux_total_pending m' = 0 \<and> length out = n \<and> acc = []" for n m out acc d
  proof (induction n arbitrary: m out acc d)
    case (Suc n)
    obtain f u where nx: "Multiplexer_next_outbound m = (f, u)" by fastforce
    then obtain a2 o2 d2 where r: "run_ops mux_exec (replicate n MuxNext) u = (m', a2, o2, d2)"
      and out: "out = (case f of None \<Rightarrow> [] | Some f \<Rightarrow> [f]) @ o2" and acc: "acc = a2"
      using Suc.prems(1) by (auto split: prod.splits)
    obtain g where g: "f = Some g" using next_none_iff(1) [OF Suc.prems(2)] nx Suc.prems(3) by (cases f) auto
    have "mux_inv u" using next_outbound_inv [OF Suc.prems(2)] nx by simp
    moreover have "n = mux_total_pending u" using next_count [OF Suc.prems(2) nx] g Suc.prems(3) by simp
    ultimately show ?case using Suc.IH [OF r] out acc g by simp
  qed simp
  from this [OF assms(2)] assms(1)
  have fin: "mux_total_pending m' = 0" "length out = mux_total_pending m" "acc = []"
    by (simp_all add: Multiplexer_pending_frames_def)
  have inv': "mux_inv m'" using mux_lanes.run_inv [OF assms] .
  have "st_queue st = []" if "bt_get (mux_channels m') k = Some st" for k st
    using data_pending_ge [OF that] fin(1) inv' by (simp add: mux_inv_def pending_inv_def)
  moreover have "mux_control m' = []" using fin(1) inv' by (simp add: mux_inv_def pending_inv_def)
  ultimately have "mux_lane m' c = []" by (simp add: mux_lane_def split: option.splits)
  moreover have "list_all (\<lambda>op. \<not> mux_drops op c) (replicate k MuxNext)" for k
    by (simp add: list_all_iff)
  ultimately show ?thesis
    using mux_lanes.run_lane [OF assms, of c] fin by (simp add: Multiplexer_pending_frames_def)
qed

text \<open>Two calls empty the sample multiplexer.\<close>

theorem mux_drains_witness:
  "\<exists>m' acc out d. run_ops mux_exec (replicate (Multiplexer_pending_frames sample_loaded) MuxNext) sample_loaded
     = (m', acc, out, d) \<and> Multiplexer_pending_frames m' = 0
     \<and> filter (\<lambda>f. lane_of f = ChannelId 5) out = mux_lane sample_loaded (ChannelId 5)"
proof -
  obtain m' acc out d where
    "run_ops mux_exec (replicate (Multiplexer_pending_frames sample_loaded) MuxNext) sample_loaded = (m', acc, out, d)"
    by (metis prod_cases4)
  with mux_drains [OF sample_loaded_inv this, of "ChannelId 5"] show ?thesis by blast
qed

text \<open>C7: bounded bypass. While a backlogged channel with finish time \<open>F\<close> waits, the other
  channels together, whatever of them are opened, closed, cancelled or filled meanwhile, send at
  most (number of channels - 1) * (F - virtual time + 1) data frames, and the costs of the data
  frames they send, which grow with the payload and shrink with the priority of the channel, add
  up to at most (number of channels - 1) * (F - virtual time + cost of the largest frame). No
  channel starves, however large the frames of the others are.\<close>

theorem mux_bounded_bypass:
  assumes "mux_inv m" and "lim_max_frame_bytes (mux_limits m) < 2 ^ 64"
    and "unat F + 8 * max (lim_max_frame_bytes (mux_limits m)) 1 < 2 ^ 128"
    and "waiting m c F" and "run_ops mux_exec ops m = (m', acc, out, d)"
    and "list_all (\<lambda>op. \<not> mux_drops op c) ops" and "list_all (\<lambda>f. lane_of f \<noteq> c) (data_frames out)"
    and "hints_ok hint m" and "list_all (opens_with hint) ops"
  shows "length (data_frames out)
      \<le> (lim_max_channels (mux_limits m) - 1) * (unat F + 1 - unat (mux_virtual_time m))
    \<and> sum_list (map (frame_cost hint) out)
      \<le> (lim_max_channels (mux_limits m) - 1)
        * (unat F + 8 * max (lim_max_frame_bytes (mux_limits m)) 1 - unat (mux_virtual_time m))"
proof -
  let ?M = "8 * max (lim_max_frame_bytes (mux_limits m)) 1"
  have "unat F + 1 < 2 ^ 128" using assms(3) by simp
  from run_potential [OF assms(1,2) this assms(4-)] have "length (data_frames out) \<le> potential 1 m c F"
    unfolding load_one by linarith
  moreover have "frame_cost hint f \<le> ?M" if "f \<in> set out" for f
  proof (cases f)
    case (Out_Data e)
    have "length (dat_payload e) \<le> lim_max_frame_bytes (mux_limits m)"
      using sent_sizes [OF assms(1,5)] that Out_Data by simp
    then have "8 * max (length (dat_payload e)) 1 \<le> ?M" by (intro mult_le_mono2 max.mono) simp_all
    with frame_cost_bounds(3) [of hint e] Out_Data show ?thesis by simp
  qed simp
  then have "sum_list (map (frame_cost hint) out) = load ?M hint out" by (simp add: load_all list_all_iff)
  with run_potential [OF assms] have "sum_list (map (frame_cost hint) out) \<le> potential ?M m c F" by simp
  ultimately show ?thesis using potential_bound [OF assms(1,4)] by (meson order_trans)
qed

text \<open>C7 witness: channel 6 waits while the frame of channel 5 overtakes it, at the cost of a frame of priority 128.\<close>

theorem mux_bounded_bypass_witness:
  "\<exists>m' out. run_ops mux_exec [MuxNext] sample_loaded = (m', [], out, 0) \<and> length (data_frames out) = 1
     \<and> sum_list (map (frame_cost (\<lambda>_. 128)) out) \<le> 63 * (8 * lim_max_frame_bytes MultiplexerLimits_default)"
proof -
  have w: "waiting sample_loaded (ChannelId 6) 0" by (simp add: waiting_def mux_eval)
  have out: "fst (Multiplexer_next_outbound sample_loaded) = Some (Out_Data sample_data)" by (simp add: mux_eval)
  define m' where "m' = snd (Multiplexer_next_outbound sample_loaded)"
  have r: "run_ops mux_exec [MuxNext] sample_loaded = (m', [], [Out_Data sample_data], 0)"
    using out unfolding m'_def by (cases "Multiplexer_next_outbound sample_loaded") simp
  have sample: "mux_limits sample_loaded = MultiplexerLimits_default" "mux_virtual_time sample_loaded = 0"
    by (simp_all add: mux_eval)
  have hints: "hints_ok (\<lambda>_. 128) sample_loaded" by (auto simp: hints_ok_def mux_eval split: if_splits)
  have "sum_list (map (frame_cost (\<lambda>_. 128)) [Out_Data sample_data])
      \<le> (lim_max_channels MultiplexerLimits_default - 1) * (8 * max (lim_max_frame_bytes MultiplexerLimits_default) 1)"
    using mux_bounded_bypass [OF sample_loaded_inv _ _ w r _ _ hints] sample
    by (simp add: MultiplexerLimits_default_def sample_data_def)
  with r show ?thesis by (simp add: MultiplexerLimits_default_def)
qed

text \<open>A closed channel stays closed. No sequence of operations brings its identifier
  back, reopening it is refused, and so is every frame addressed to it.\<close>

theorem mux_closed_forever:
  assumes "mux_start s l m0" and "lim_max_channels l \<le> usize_max"
    and "run_ops mux_exec ops m0 = (m, acc, out, d)" and "Multiplexer_close_channel m c = (Inr n, m1)"
    and "run_ops mux_exec ops' m1 = (m2, acc', out', d')"
  shows "bt_get (mux_channels m2) c = None
    \<and> (cfg_id cfg = c \<longrightarrow> \<not> is_ok (fst (Multiplexer_open_channel m2 cfg)))
    \<and> (dat_channel_id e = c \<longrightarrow> \<not> is_ok (fst (Multiplexer_enqueue m2 e)))"
proof -
  have inv: "mux_inv m" using mux_lanes.run_inv [OF mux_start_inv(1) [OF assms(1,2)] assms(3)] .
  then have inv1: "mux_inv m1" using assms(4) by (rule close_inv)
  have "bt_contains (mux_retired_channels m1) c" using assms(4) by (auto elim!: close_cases)
  then have gone: "bt_contains (mux_retired_channels m2) c"
    by (rule mux_table.steps_gone [OF run_steps [OF assms(5)] inv1])
  moreover have "mux_inv m2" using mux_lanes.run_inv [OF inv1 assms(5)] .
  ultimately have "\<not> bt_contains (mux_channels m2) c" by (intro mux_table.not_both)
  moreover have "\<not> is_ok (fst (Multiplexer_open_channel m2 cfg))" if "cfg_id cfg = c"
    using gone that by (cases "Multiplexer_open_channel m2 cfg") (auto elim!: open_cases)
  moreover have "\<not> is_ok (fst (Multiplexer_enqueue m2 e))" if "dat_channel_id e = c"
    using gone that by (cases "Multiplexer_enqueue m2 e") (auto elim!: enqueue_cases dest: validate_identity_ok)
  ultimately show ?thesis by (simp add: bt_not_contains)
qed

text \<open>Channel 5 is closed and cannot be opened again.\<close>

theorem mux_closed_forever_witness:
  "\<not> is_ok (fst (Multiplexer_open_channel (snd (Multiplexer_close_channel sample_loaded (ChannelId 5))) (sample_config 5)))"
proof -
  have "fst (Multiplexer_close_channel sample_loaded (ChannelId 5)) = Inr 1" by (simp add: mux_eval)
  then have "Multiplexer_close_channel sample_loaded (ChannelId 5)
      = (Inr 1, snd (Multiplexer_close_channel sample_loaded (ChannelId 5)))" by (metis prod.collapse)
  from mux_closed_forever [OF sample_start sample_limits sample_run this, of "[]"] show ?thesis
    by (simp add: sample_config_def)
qed

text \<open>A frame's cost in virtual time is at least its size and at most eight times its
  size, and a higher priority never makes a frame cost more.\<close>

theorem scheduling_cost_bounds:
  assumes "n < 2 ^ 64"
  shows "max n 1 \<le> unat (scheduling_cost n p) \<and> unat (scheduling_cost n p) \<le> 8 * max n 1
    \<and> (p \<le> p' \<longrightarrow> scheduling_cost n p' \<le> scheduling_cost n p)"
proof -
  let ?a = "max n 1" and ?w = "\<lambda>r :: u8. unat r div 32 + 1"
  have w: "?w r \<le> 8" for r using unat_u8_lt [of r] by simp
  have le: "unat (scheduling_cost n r) \<le> k \<longleftrightarrow> ?a * 8 \<le> k * ?w r" for r k
    using ceil_le_iff [of "?w r" "?a * 8" k] by (simp add: unat_scheduling_cost [OF assms])
  have "\<not> unat (scheduling_cost n p) \<le> ?a - 1"
    unfolding le using mult_le_mono2 [OF w [of p], of "?a - 1"] by linarith
  moreover have "unat (scheduling_cost n p) \<le> 8 * ?a" unfolding le by simp
  moreover have "unat (scheduling_cost n p') \<le> unat (scheduling_cost n p)" if "p \<le> p'"
  proof -
    have "?a * 8 \<le> unat (scheduling_cost n p) * ?w p" using le by blast
    also have "\<dots> \<le> unat (scheduling_cost n p) * ?w p'"
      using that by (intro mult_le_mono2) (simp add: word_le_nat_alt div_le_mono)
    finally show ?thesis unfolding le .
  qed
  ultimately show ?thesis by (auto simp: word_le_nat_alt)
qed

text \<open>A two-byte frame at the middle priority.\<close>

theorem scheduling_cost_bounds_witness:
  "2 \<le> unat (scheduling_cost 2 128) \<and> unat (scheduling_cost 2 128) \<le> 16
   \<and> scheduling_cost 2 255 \<le> scheduling_cost 2 128"
  using scheduling_cost_bounds [of 2 128 255] by simp

end
