(* ===== verification/Link_Handshake.thy ===== *)
theory Link_Handshake
  imports Link_Control
begin

text \<open>
  The handshake machine of \<^verbatim>\<open>handshake.rs\<close>: an initiator and a responder that
  negotiate the link version, capabilities and upper protocols and authenticate the
  initiator through an external verifier. Each method is a function from the machine to its
  result and the machine after it; \<^verbatim>\<open>expect\<close> is the fault \<open>HsPanic\<close>, which the
  invariant excludes. The environment is a sequence of events (start, received frames,
  identity decisions) in any order, so the properties hold against an arbitrary peer.

  SHA-256 is the argument \<open>sha\<close>, used to check debug identities.
\<close>

subsection \<open>Frames, states and configuration\<close>

datatype IdentityProof = IdentityProof (proof_opaque: bytes)

datatype HandshakeFrame =
    Fr_Hello Identity VersionRange LinkCapabilities "ProtocolOffer list" AuthPath
  | Fr_Challenge Identity ProtocolVersion LinkCapabilities AuthPath "256 word"
  | Fr_IdentityProof IdentityProof
  | Fr_Selection SessionId "ProtocolSelection list"
  | Fr_Confirm SessionId
  | Fr_Confirmed SessionId
  | Fr_Reject HandshakeErrorKind

datatype HandshakeRole = Initiator | Responder

datatype HandshakeState =
    Hs_Ready | Hs_AwaitingHello | Hs_AwaitingChallenge | Hs_AwaitingProof | Hs_AwaitingVerification
  | Hs_AwaitingSelection | Hs_AwaitingConfirmation | Hs_AwaitingConfirmed | Hs_Established | Hs_Failed

record VerificationRequest =
  vreq_peer_id :: PeerId
  vreq_auth_path :: AuthPath
  vreq_nonce :: "256 word"
  vreq_proof :: IdentityProof

datatype ProofDecision = Accept | RejectProof

record NegotiatedSession =
  neg_session_id :: SessionId
  neg_local :: Identity
  neg_remote :: Identity
  neg_link_version :: ProtocolVersion
  neg_link_capabilities :: LinkCapabilities
  neg_protocols :: "ProtocolSelection list"
  neg_auth_path :: AuthPath

definition NegotiatedSession_control_identity_mode :: "NegotiatedSession \<Rightarrow> ControlIdentityMode" where
  "NegotiatedSession_control_identity_mode s = ControlIdentityMode_negotiate (neg_link_capabilities s)"

definition NegotiatedSession_control_mode_guard :: "NegotiatedSession \<Rightarrow> ControlModeGuard" where
  "NegotiatedSession_control_mode_guard s = ControlModeGuard (NegotiatedSession_control_identity_mode s)"

datatype HandshakeOutput =
    Send HandshakeFrame
  | VerifyIdentity VerificationRequest
  | Established NegotiatedSession

record HandshakePolicy =
  pol_link_versions :: VersionRange
  pol_link_capabilities :: LinkCapabilities
  pol_protocols :: "ProtocolOffer list"
  pol_pairing_protocols :: "ProtocolOffer list"
  pol_allow_pairing :: bool
  pol_trusted_peers :: "PeerId btset"
  pol_max_protocol_offers :: nat
  pol_max_identity_proof_bytes :: nat

record HandshakeConfig =
  hcfg_identity :: Identity
  hcfg_policy :: HandshakePolicy
  hcfg_challenge_nonce :: "256 word"
  hcfg_identity_proof :: IdentityProof
  hcfg_session_id :: SessionId

record HandshakeMachine =
  hm_role :: HandshakeRole
  hm_state :: HandshakeState
  hm_config :: HandshakeConfig
  hm_remote :: "Identity option"
  hm_auth_path :: "AuthPath option"
  hm_link_version :: "ProtocolVersion option"
  hm_link_capabilities :: LinkCapabilities
  hm_selected_protocols :: "ProtocolSelection list"
  hm_pending_verification :: "VerificationRequest option"

datatype HsFault = HsError HandshakeError | HsPanic

type_synonym 'a hs_step = "(HsFault, 'a) result \<times> HandshakeMachine"

subsection \<open>Offers from a namespace\<close>

fun rsplit_once :: "u8 \<Rightarrow> bytes \<Rightarrow> (bytes \<times> bytes) option" where
  "rsplit_once d [] = None"
| "rsplit_once d (b # bs) =
     (case rsplit_once d bs of
        Some (before, after) \<Rightarrow> Some (b # before, after)
      | None \<Rightarrow> if b = d then Some ([], bs) else None)"

definition ProtocolOffer_from_debug_namespace :: "sha256 \<Rightarrow> bytes \<Rightarrow> VersionRange \<Rightarrow> ProtocolOffer" where
  "ProtocolOffer_from_debug_namespace sha namespace versions =
     (let (authority, name) = (case rsplit_once 46 namespace of None \<Rightarrow> (str ''local'', namespace) | Some p \<Rightarrow> p);
          debug_identity = ProtocolDebugIdentity_new authority name;
          stable_id = ProtocolDebugIdentity_stable_id sha debug_identity
      in \<lparr>offer_stable_id = stable_id, offer_debug_identity = Some debug_identity, offer_versions = versions,
          offer_schema = SchemaRef_for_contract sha authority name 1 namespace,
          offer_capabilities = ProtocolCapabilitySet_empty stable_id\<rparr>)"

subsection \<open>Construction and failure\<close>

definition HandshakeMachine_new :: "HandshakeRole \<Rightarrow> HandshakeState \<Rightarrow> HandshakeConfig \<Rightarrow> HandshakeMachine" where
  "HandshakeMachine_new role state config =
     \<lparr>hm_role = role, hm_state = state, hm_config = config, hm_remote = None, hm_auth_path = None,
      hm_link_version = None, hm_link_capabilities = LinkCapabilities_default, hm_selected_protocols = [],
      hm_pending_verification = None\<rparr>"

definition HandshakeMachine_initiator :: "HandshakeConfig \<Rightarrow> HandshakeMachine" where
  "HandshakeMachine_initiator config = HandshakeMachine_new Initiator Hs_Ready config"

definition HandshakeMachine_responder :: "HandshakeConfig \<Rightarrow> HandshakeMachine" where
  "HandshakeMachine_responder config = HandshakeMachine_new Responder Hs_AwaitingHello config"

definition HandshakeMachine_fail :: "HandshakeMachine \<Rightarrow> HandshakeErrorKind \<Rightarrow> string \<Rightarrow> 'a hs_step" where
  "HandshakeMachine_fail self kind message =
     (Inl (HsError (HandshakeError_new kind message)), self\<lparr>hm_state := Hs_Failed\<rparr>)"

fun catalog :: "HandshakePolicy \<Rightarrow> AuthPath \<Rightarrow> ProtocolOffer list" where
  "catalog policy FirstPairing = pol_pairing_protocols policy"
| "catalog policy TrustedReconnect = pol_protocols policy"

definition offer_inconsistent :: "sha256 \<Rightarrow> ProtocolOffer \<Rightarrow> bool" where
  "offer_inconsistent sha offer =
     (schema_revision_val (schema_revision (offer_schema offer)) = 0
      \<or> caps_protocol_id (offer_capabilities offer) \<noteq> offer_stable_id offer
      \<or> \<not> ProtocolCapabilitySet_is_bounded (offer_capabilities offer)
      \<or> (case offer_debug_identity offer of
           None \<Rightarrow> False
         | Some identity \<Rightarrow> ProtocolDebugIdentity_stable_id sha identity \<noteq> offer_stable_id offer))"

definition HandshakeMachine_start :: "sha256 \<Rightarrow> HandshakeMachine \<Rightarrow> AuthPath \<Rightarrow> HandshakeFrame hs_step" where
  "HandshakeMachine_start sha self auth_path =
     (if hm_role self \<noteq> Initiator \<or> hm_state self \<noteq> Hs_Ready
      then HandshakeMachine_fail self HS_UnexpectedMessage ''handshake cannot be started in the current state''
      else
        let protocols = catalog (hcfg_policy (hm_config self)) auth_path in
        if length protocols > pol_max_protocol_offers (hcfg_policy (hm_config self))
        then HandshakeMachine_fail self HS_LimitExceeded ''too many local protocol offers''
        else if list_ex (offer_inconsistent sha) protocols
        then HandshakeMachine_fail self HS_ProtocolConflict ''upper protocol offer is internally inconsistent''
        else
          (Inr (Fr_Hello (hcfg_identity (hm_config self)) (pol_link_versions (hcfg_policy (hm_config self)))
                 (pol_link_capabilities (hcfg_policy (hm_config self))) protocols auth_path),
           self\<lparr>hm_auth_path := Some auth_path, hm_state := Hs_AwaitingChallenge\<rparr>))"

lemma rsplit_once_None: "rsplit_once d bs = None \<longleftrightarrow> d \<notin> set bs"
  by (induction bs) (auto split: option.splits)

lemma rsplit_once_Some:
  "rsplit_once d bs = Some (x, y) \<Longrightarrow> bs = x @ [d] @ y \<and> d \<notin> set y"
  by (induction bs arbitrary: x) (auto simp: rsplit_once_None split: option.splits if_splits)

lemma namespace_offer_consistent: "\<not> offer_inconsistent sha (ProtocolOffer_from_debug_namespace sha ns vs)"
  by (auto simp: offer_inconsistent_def ProtocolOffer_from_debug_namespace_def Let_def SchemaRef_for_contract_def
      ProtocolCapabilitySet_empty_def ProtocolCapabilitySet_is_bounded_def split: prod.splits)

subsection \<open>Protocol negotiation\<close>

definition debug_identities_conflict :: "ProtocolOffer \<Rightarrow> ProtocolOffer \<Rightarrow> bool" where
  "debug_identities_conflict a b =
     (offer_debug_identity a \<noteq> None \<and> offer_debug_identity b \<noteq> None
      \<and> offer_debug_identity a \<noteq> offer_debug_identity b)"

fun negotiate_loop ::
  "ProtocolStableId btset \<Rightarrow> ProtocolOffer list \<Rightarrow> ProtocolOffer list \<Rightarrow> (unit, ProtocolSelection list) result" where
  "negotiate_loop stable_ids [] remote = Inr []"
| "negotiate_loop stable_ids (local_offer # locals) remote =
     (if bt_contains stable_ids (offer_stable_id local_offer) then negotiate_loop stable_ids locals remote
      else
        let stable_ids = bs_insert (offer_stable_id local_offer) stable_ids in
        (case find (\<lambda>remote_offer. offer_stable_id remote_offer = offer_stable_id local_offer) remote of
           None \<Rightarrow> negotiate_loop stable_ids locals remote
         | Some remote_offer \<Rightarrow>
             if offer_schema local_offer \<noteq> offer_schema remote_offer
                \<or> debug_identities_conflict local_offer remote_offer
             then Inl ()
             else
               (case VersionRange_negotiate (offer_versions local_offer) (offer_versions remote_offer) of
                  None \<Rightarrow> negotiate_loop stable_ids locals remote
                | Some version \<Rightarrow>
                    result_bind (ok_or () (ProtocolCapabilitySet_intersect (offer_capabilities local_offer)
                                             (offer_capabilities remote_offer))) (\<lambda>capabilities.
                    result_bind (negotiate_loop stable_ids locals remote) (\<lambda>selected.
                    Inr (\<lparr>sel_stable_id = offer_stable_id local_offer, sel_version = version,
                          sel_schema = offer_schema local_offer, sel_capabilities = capabilities\<rparr>
                         # selected))))))"

definition negotiate_protocols ::
  "ProtocolOffer list \<Rightarrow> ProtocolOffer list \<Rightarrow> (unit, ProtocolSelection list) result" where
  "negotiate_protocols local_offers remote = negotiate_loop bt_empty local_offers remote"

subsection \<open>Receiving frames\<close>

definition HandshakeMachine_receive_hello ::
  "HandshakeMachine \<Rightarrow> Identity \<Rightarrow> VersionRange \<Rightarrow> LinkCapabilities \<Rightarrow> ProtocolOffer list \<Rightarrow> AuthPath
   \<Rightarrow> HandshakeOutput list hs_step" where
  "HandshakeMachine_receive_hello self identity link_versions remote_capabilities protocols requested_auth =
     (let policy = hcfg_policy (hm_config self) in
      if length protocols > pol_max_protocol_offers policy
      then HandshakeMachine_fail self HS_LimitExceeded ''too many protocol offers''
      else
        (case VersionRange_negotiate (pol_link_versions policy) link_versions of
           None \<Rightarrow> HandshakeMachine_fail self HS_IncompatibleVersion ''link protocol versions are incompatible''
         | Some link_version \<Rightarrow>
             if requested_auth = FirstPairing \<and> \<not> pol_allow_pairing policy
             then HandshakeMachine_fail self HS_PairingDisabled ''first pairing is disabled''
             else if requested_auth = TrustedReconnect
                     \<and> \<not> bt_contains (pol_trusted_peers policy) (ident_peer_id identity)
             then HandshakeMachine_fail self HS_PeerNotTrusted ''peer is not trusted''
             else
               (case negotiate_protocols (catalog policy requested_auth) protocols of
                  Inl _ \<Rightarrow> HandshakeMachine_fail self HS_ProtocolConflict
                             ''upper protocol identity or schema conflicts''
                | Inr selected \<Rightarrow>
                    if selected = []
                    then HandshakeMachine_fail self HS_NoSharedProtocol ''no shared upper protocol''
                    else
                      let capabilities = LinkCapabilities_intersection (pol_link_capabilities policy) remote_capabilities in
                      (Inr [Send (Fr_Challenge (hcfg_identity (hm_config self)) link_version capabilities
                                    requested_auth (hcfg_challenge_nonce (hm_config self)))],
                       self\<lparr>hm_remote := Some identity, hm_auth_path := Some requested_auth,
                            hm_link_version := Some link_version, hm_link_capabilities := capabilities,
                            hm_selected_protocols := selected, hm_state := Hs_AwaitingProof\<rparr>))))"

definition selection_supported :: "ProtocolOffer list \<Rightarrow> ProtocolSelection \<Rightarrow> bool" where
  "selection_supported local_protocols selection =
     list_ex (\<lambda>offer.
        offer_stable_id offer = sel_stable_id selection
        \<and> offer_schema offer = sel_schema selection
        \<and> caps_protocol_id (offer_capabilities offer) = caps_protocol_id (sel_capabilities selection)
        \<and> ProtocolCapabilitySet_is_bounded (sel_capabilities selection)
        \<and> ProtocolCapabilitySet_is_subset_of (sel_capabilities selection) (offer_capabilities offer)
        \<and> VersionRange_negotiate (offer_versions offer)
             (VersionRange_new (sel_version selection) (sel_version selection)) \<noteq> None) local_protocols"

fun check_selections :: "HandshakeMachine \<Rightarrow> ProtocolOffer list \<Rightarrow> ProtocolStableId btset \<Rightarrow> ProtocolSelection list \<Rightarrow> unit hs_step" where
  "check_selections self local_protocols stable_ids [] = (Inr (), self)"
| "check_selections self local_protocols stable_ids (selection # selected) =
     (if bt_contains stable_ids (sel_stable_id selection)
      then HandshakeMachine_fail self HS_ProtocolConflict ''responder selected a protocol more than once''
      else if \<not> selection_supported local_protocols selection
      then HandshakeMachine_fail self HS_ProtocolConflict ''responder selected an unsupported protocol''
      else check_selections self local_protocols (bs_insert (sel_stable_id selection) stable_ids) selected)"

definition HandshakeMachine_validate_selection ::
  "HandshakeMachine \<Rightarrow> ProtocolSelection list \<Rightarrow> unit hs_step" where
  "HandshakeMachine_validate_selection self selected =
     (if selected = [] \<or> length selected > pol_max_protocol_offers (hcfg_policy (hm_config self))
      then HandshakeMachine_fail self HS_NoSharedProtocol ''invalid protocol selection''
      else
        (case hm_auth_path self of
           None \<Rightarrow> HandshakeMachine_fail self HS_UnexpectedMessage ''authentication path is not negotiated''
         | Some auth_path \<Rightarrow>
             check_selections self (catalog (hcfg_policy (hm_config self)) auth_path) bt_empty selected))"

definition HandshakeMachine_negotiated_session :: "HandshakeMachine \<Rightarrow> NegotiatedSession option" where
  "HandshakeMachine_negotiated_session self =
     (case (hm_remote self, hm_link_version self, hm_auth_path self) of
        (Some remote, Some link_version, Some auth_path) \<Rightarrow>
          Some \<lparr>neg_session_id = hcfg_session_id (hm_config self), neg_local = hcfg_identity (hm_config self),
                neg_remote = remote, neg_link_version = link_version,
                neg_link_capabilities = hm_link_capabilities self, neg_protocols = hm_selected_protocols self,
                neg_auth_path = auth_path\<rparr>
      | _ \<Rightarrow> None)"

fun HandshakeMachine_receive :: "HandshakeMachine \<Rightarrow> HandshakeFrame \<Rightarrow> HandshakeOutput list hs_step" where
  "HandshakeMachine_receive self (Fr_Hello identity link_versions link_capabilities protocols requested_auth) =
     (if hm_role self = Responder \<and> hm_state self = Hs_AwaitingHello
      then HandshakeMachine_receive_hello self identity link_versions link_capabilities protocols requested_auth
      else HandshakeMachine_fail self HS_UnexpectedMessage ''unexpected handshake message'')"
| "HandshakeMachine_receive self (Fr_Challenge responder link_version link_capabilities auth_path nonce) =
     (if hm_role self = Initiator \<and> hm_state self = Hs_AwaitingChallenge
      then
        if VersionRange_negotiate (pol_link_versions (hcfg_policy (hm_config self)))
             (VersionRange_new link_version link_version) = None
           \<or> hm_auth_path self \<noteq> Some auth_path
           \<or> \<not> LinkCapabilities_is_subset_of link_capabilities
                (pol_link_capabilities (hcfg_policy (hm_config self)))
        then HandshakeMachine_fail self HS_IncompatibleVersion ''responder selected an incompatible handshake''
        else
          (Inr [Send (Fr_IdentityProof (hcfg_identity_proof (hm_config self)))],
           self\<lparr>hm_remote := Some responder, hm_link_version := Some link_version,
                hm_link_capabilities := link_capabilities, hm_state := Hs_AwaitingSelection\<rparr>)
      else HandshakeMachine_fail self HS_UnexpectedMessage ''unexpected handshake message'')"
| "HandshakeMachine_receive self (Fr_IdentityProof evidence) =
     (if hm_role self = Responder \<and> hm_state self = Hs_AwaitingProof
      then
        if length (proof_opaque evidence) > pol_max_identity_proof_bytes (hcfg_policy (hm_config self))
        then HandshakeMachine_fail self HS_LimitExceeded ''identity proof exceeds configured limit''
        else
          (case (hm_remote self, hm_auth_path self) of
             (Some remote, Some auth_path) \<Rightarrow>
               let request = \<lparr>vreq_peer_id = ident_peer_id remote, vreq_auth_path = auth_path,
                              vreq_nonce = hcfg_challenge_nonce (hm_config self), vreq_proof = evidence\<rparr> in
               (Inr [VerifyIdentity request],
                self\<lparr>hm_pending_verification := Some request, hm_state := Hs_AwaitingVerification\<rparr>)
           | _ \<Rightarrow> (Inl HsPanic, self))
      else HandshakeMachine_fail self HS_UnexpectedMessage ''unexpected handshake message'')"
| "HandshakeMachine_receive self (Fr_Selection session_id protocols) =
     (if hm_role self = Initiator \<and> hm_state self = Hs_AwaitingSelection
      then
        (case HandshakeMachine_validate_selection self protocols of
           (Inl e, self) \<Rightarrow> (Inl e, self)
         | (Inr _, self) \<Rightarrow>
             (Inr [Send (Fr_Confirm session_id)],
              self\<lparr>hm_config := (hm_config self)\<lparr>hcfg_session_id := session_id\<rparr>,
                   hm_selected_protocols := protocols, hm_state := Hs_AwaitingConfirmed\<rparr>))
      else HandshakeMachine_fail self HS_UnexpectedMessage ''unexpected handshake message'')"
| "HandshakeMachine_receive self (Fr_Confirm session_id) =
     (if hm_role self = Responder \<and> hm_state self = Hs_AwaitingConfirmation
      then
        if session_id \<noteq> hcfg_session_id (hm_config self)
        then HandshakeMachine_fail self HS_InvalidConfirmation ''session confirmation does not match''
        else
          let self = self\<lparr>hm_state := Hs_Established\<rparr> in
          (case HandshakeMachine_negotiated_session self of
             None \<Rightarrow> (Inl HsPanic, self)
           | Some session \<Rightarrow> (Inr [Send (Fr_Confirmed session_id), Established session], self))
      else HandshakeMachine_fail self HS_UnexpectedMessage ''unexpected handshake message'')"
| "HandshakeMachine_receive self (Fr_Confirmed session_id) =
     (if hm_role self = Initiator \<and> hm_state self = Hs_AwaitingConfirmed
      then
        if session_id \<noteq> hcfg_session_id (hm_config self)
        then HandshakeMachine_fail self HS_InvalidConfirmation ''session confirmation does not match''
        else
          let self = self\<lparr>hm_state := Hs_Established\<rparr> in
          (case HandshakeMachine_negotiated_session self of
             None \<Rightarrow> (Inl HsPanic, self)
           | Some session \<Rightarrow> (Inr [Established session], self))
      else HandshakeMachine_fail self HS_UnexpectedMessage ''unexpected handshake message'')"
| "HandshakeMachine_receive self (Fr_Reject kind) =
     HandshakeMachine_fail self kind ''peer rejected handshake''"

definition HandshakeMachine_decide_identity :: "HandshakeMachine \<Rightarrow> ProofDecision \<Rightarrow> HandshakeOutput list hs_step" where
  "HandshakeMachine_decide_identity self decision =
     (if hm_role self \<noteq> Responder \<or> hm_state self \<noteq> Hs_AwaitingVerification
      then HandshakeMachine_fail self HS_UnexpectedMessage ''identity decision is not expected''
      else if hm_pending_verification self = None
      then HandshakeMachine_fail self HS_UnexpectedMessage ''identity decision is not expected''
      else
        let self = self\<lparr>hm_pending_verification := None\<rparr> in
        if decision = RejectProof
        then HandshakeMachine_fail self HS_IdentityRejected ''peer identity was rejected''
        else
          (Inr [Send (Fr_Selection (hcfg_session_id (hm_config self)) (hm_selected_protocols self))],
           self\<lparr>hm_state := Hs_AwaitingConfirmation\<rparr>))"

subsection \<open>What negotiation selects\<close>

definition first_with :: "ProtocolStableId \<Rightarrow> ProtocolOffer list \<Rightarrow> ProtocolOffer option" where
  "first_with i offers = find (\<lambda>offer. offer_stable_id offer = i) offers"

definition agreed :: "ProtocolOffer \<Rightarrow> ProtocolOffer \<Rightarrow> ProtocolSelection \<Rightarrow> bool" where
  "agreed l r sel \<longleftrightarrow>
     sel_stable_id sel = offer_stable_id l \<and> offer_stable_id r = offer_stable_id l
     \<and> offer_schema l = offer_schema r \<and> \<not> debug_identities_conflict l r
     \<and> sel_schema sel = offer_schema l
     \<and> VersionRange_negotiate (offer_versions l) (offer_versions r) = Some (sel_version sel)
     \<and> ProtocolCapabilitySet_intersect (offer_capabilities l) (offer_capabilities r) = Some (sel_capabilities sel)"

lemma find_id: "find (\<lambda>offer. offer_stable_id offer = i) offers = Some r \<Longrightarrow> r \<in> set offers \<and> offer_stable_id r = i"
  by (auto simp: find_Some_iff)

lemma negotiate_loop_sound:
  assumes "negotiate_loop seen ls rs = Inr sels"
  shows "distinct (map sel_stable_id sels)
    \<and> (\<forall>sel \<in> set sels. \<not> bt_contains seen (sel_stable_id sel)
        \<and> (\<exists>l r. first_with (sel_stable_id sel) ls = Some l \<and> first_with (sel_stable_id sel) rs = Some r \<and> agreed l r sel))"
  using assms
proof (induction seen ls rs arbitrary: sels rule: negotiate_loop.induct)
  case (2 seen l ls rs)
  show ?case
  proof (cases "bt_contains seen (offer_stable_id l)")
    case True
    with 2 show ?thesis by (fastforce simp: first_with_def)
  next
    case False
    let ?seen = "bs_insert (offer_stable_id l) seen"
    have tl: "distinct (map sel_stable_id xs) \<and> (\<forall>sel \<in> set xs. \<not> bt_contains seen (sel_stable_id sel)
        \<and> sel_stable_id sel \<noteq> offer_stable_id l
        \<and> (\<exists>l' r. first_with (sel_stable_id sel) (l # ls) = Some l' \<and> first_with (sel_stable_id sel) rs = Some r \<and> agreed l' r sel))"
      if "distinct (map sel_stable_id xs) \<and> (\<forall>sel \<in> set xs. \<not> bt_contains ?seen (sel_stable_id sel)
        \<and> (\<exists>l r. first_with (sel_stable_id sel) ls = Some l \<and> first_with (sel_stable_id sel) rs = Some r \<and> agreed l r sel))" for xs
      using that by (auto simp: first_with_def)
    show ?thesis
    proof (cases "find (\<lambda>r. offer_stable_id r = offer_stable_id l) rs")
      case None
      with 2 False have "negotiate_loop ?seen ls rs = Inr sels" by (simp add: Let_def)
      from tl [OF "2.IH"(2) [OF False refl None this]] show ?thesis by blast
    next
      case (Some r)
      show ?thesis
      proof (cases "VersionRange_negotiate (offer_versions l) (offer_versions r)")
        case None
        with 2 False Some have ok: "\<not> (offer_schema l \<noteq> offer_schema r \<or> debug_identities_conflict l r)"
          "negotiate_loop ?seen ls rs = Inr sels" by (simp_all add: Let_def split: if_splits)
        from tl [OF "2.IH"(3) [OF False refl Some ok(1) None ok(2)]] show ?thesis by blast
      next
        case v: (Some v)
        from 2 False Some v obtain c xs where ok: "\<not> (offer_schema l \<noteq> offer_schema r \<or> debug_identities_conflict l r)"
          and c: "ProtocolCapabilitySet_intersect (offer_capabilities l) (offer_capabilities r) = Some c"
          and xs: "negotiate_loop ?seen ls rs = Inr xs"
          and sels: "sels = \<lparr>sel_stable_id = offer_stable_id l, sel_version = v, sel_schema = offer_schema l,
                            sel_capabilities = c\<rparr> # xs"
          by (auto simp: Let_def result_bind_eq_Inr split: if_splits)
        from tl [OF "2.IH"(4) [OF False refl Some ok v xs]] False ok c v sels find_id [OF Some] Some show ?thesis
          by (auto simp: first_with_def agreed_def)
      qed
    qed
  qed
qed simp

lemma negotiate_loop_complete:
  assumes "negotiate_loop seen ls rs = Inr sels" and "\<not> bt_contains seen i"
    and "first_with i ls = Some l" and "first_with i rs = Some r"
    and "VersionRange_negotiate (offer_versions l) (offer_versions r) = Some v"
  shows "\<exists>sel \<in> set sels. sel_stable_id sel = i \<and> sel_version sel = v"
  using assms
proof (induction ls arbitrary: seen sels)
  case (Cons a ls)
  show ?case
  proof (cases "offer_stable_id a = i")
    case True
    with Cons.prems have "a = l" by (simp add: first_with_def)
    with Cons.prems True show ?thesis
      by (auto simp: first_with_def Let_def result_bind_eq_Inr split: if_splits)
  next
    case False
    have ih: "\<exists>sel \<in> set xs. sel_stable_id sel = i \<and> sel_version sel = v"
      if "negotiate_loop s ls rs = Inr xs" "\<not> bt_contains s i" for s xs
      using Cons.IH [OF that] Cons.prems False by (simp add: first_with_def)
    from Cons.prems(1) False show ?thesis
      using ih Cons.prems(2)
      by (auto simp: Let_def result_bind_eq_Inr split: if_splits option.splits)
  qed
qed (simp add: first_with_def)

lemma agreed_caps:
  assumes "agreed l r sel"
  shows "caps_protocol_id (sel_capabilities sel) = caps_protocol_id (offer_capabilities l)"
    and "ProtocolCapabilitySet_is_subset_of (sel_capabilities sel) (offer_capabilities l)"
    and "ProtocolCapabilitySet_is_subset_of (sel_capabilities sel) (offer_capabilities r)"
    and "caps_protocol_id (sel_capabilities sel) = caps_protocol_id (offer_capabilities r)"
  using assms caps_intersect_id caps_intersect_subset by (auto simp: agreed_def)

lemma agreed_supported:
  assumes "agreed l r sel" and "r \<in> set offers" and "ProtocolCapabilitySet_is_bounded (offer_capabilities r)"
  shows "selection_supported offers sel"
proof -
  have v: "VersionRange_negotiate (offer_versions l) (offer_versions r) = Some (sel_version sel)"
    and c: "ProtocolCapabilitySet_intersect (offer_capabilities l) (offer_capabilities r) = Some (sel_capabilities sel)"
    using assms(1) by (simp_all add: agreed_def)
  have "ProtocolCapabilitySet_is_bounded (sel_capabilities sel)"
    using caps_intersect_bounded [OF c] assms(3) by simp
  then show ?thesis
    using assms agreed_caps [OF assms(1)] negotiate_contains(2) [OF v]
    by (auto simp: selection_supported_def list_ex_iff negotiate_single agreed_def intro!: bexI [of _ r])
qed

subsection \<open>Events and traces\<close>

datatype HsEvent = HsStart AuthPath | HsReceive HandshakeFrame | HsDecide ProofDecision

fun hs_handle :: "sha256 \<Rightarrow> HsEvent \<Rightarrow> HandshakeMachine \<Rightarrow> HandshakeOutput list hs_step" where
  "hs_handle sha (HsStart auth) m =
     (case HandshakeMachine_start sha m auth of
        (Inl e, m') \<Rightarrow> (Inl e, m') | (Inr frame, m') \<Rightarrow> (Inr [Send frame], m'))"
| "hs_handle sha (HsReceive frame) m = HandshakeMachine_receive m frame"
| "hs_handle sha (HsDecide decision) m = HandshakeMachine_decide_identity m decision"

text \<open>A trace: the machine a configuration reaches and the log of events with their results,
  oldest first.\<close>

inductive hs_trace ::
  "sha256 \<Rightarrow> HandshakeConfig \<Rightarrow> HandshakeRole \<Rightarrow> HandshakeMachine
   \<Rightarrow> (HsEvent \<times> (HsFault, HandshakeOutput list) result) list \<Rightarrow> bool"
  for sha config where
  tr_initiator: "hs_trace sha config Initiator (HandshakeMachine_initiator config) []"
| tr_responder: "hs_trace sha config Responder (HandshakeMachine_responder config) []"
| tr_event: "hs_trace sha config role m log \<Longrightarrow> hs_handle sha ev m = (r, m') \<Longrightarrow>
             hs_trace sha config role m' (log @ [(ev, r)])"

lemma fail_eq [simp]:
  "HandshakeMachine_fail m k s = (r, m') \<longleftrightarrow>
   r = Inl (HsError (HandshakeError_new k s)) \<and> m' = m\<lparr>hm_state := Hs_Failed\<rparr>"
  by (auto simp: HandshakeMachine_fail_def)

lemma check_selections_err:
  "check_selections m ls seen sels = (Inl f, m') \<Longrightarrow> m' = m\<lparr>hm_state := Hs_Failed\<rparr> \<and> f \<noteq> HsPanic"
  by (induction sels arbitrary: seen) (auto split: if_splits)

lemma check_selections_iff:
  "check_selections m ls seen sels = (Inr (), m') \<longleftrightarrow>
   m' = m \<and> list_all (selection_supported ls) sels \<and> distinct (map sel_stable_id sels)
   \<and> (\<forall>s \<in> set sels. \<not> bt_contains seen (sel_stable_id s))"
proof (induction sels arbitrary: seen)
  case (Cons a sels)
  show ?case by (simp add: Cons.IH) (auto simp: image_iff)
qed auto

lemma validate_selection_cases:
  assumes "HandshakeMachine_validate_selection m sels = (r, m')"
  obtains (refused) e where "r = Inl (HsError e)" "m' = m\<lparr>hm_state := Hs_Failed\<rparr>"
  | (valid) auth where "r = Inr ()" "m' = m" "sels \<noteq> []" "hm_auth_path m = Some auth"
      "length sels \<le> pol_max_protocol_offers (hcfg_policy (hm_config m))"
      "list_all (selection_supported (catalog (hcfg_policy (hm_config m)) auth)) sels"
      "distinct (map sel_stable_id sels)"
proof (cases r)
  case (Inl f)
  with assms have "m' = m\<lparr>hm_state := Hs_Failed\<rparr> \<and> f \<noteq> HsPanic"
    by (auto simp: HandshakeMachine_validate_selection_def dest: check_selections_err
        split: if_splits option.splits)
  with Inl show ?thesis by (cases f) (auto intro: refused)
next
  case (Inr u)
  with assms show ?thesis
    by (auto simp: HandshakeMachine_validate_selection_def not_less check_selections_iff
        split: if_splits option.splits intro: valid)
qed

subsection \<open>The invariant of a machine and its log\<close>

type_synonym hs_log = "(HsEvent \<times> (HsFault, HandshakeOutput list) result) list"

definition offered :: "ProtocolOffer list \<Rightarrow> ProtocolSelection \<Rightarrow> bool" where
  "offered offers sel \<longleftrightarrow>
     (\<exists>l \<in> set offers. offer_stable_id l = sel_stable_id sel \<and> offer_schema l = sel_schema sel
        \<and> ProtocolCapabilitySet_is_subset_of (sel_capabilities sel) (offer_capabilities l)
        \<and> range_contains (offer_versions l) (sel_version sel)
        \<and> (ProtocolCapabilitySet_is_bounded (offer_capabilities l) \<longrightarrow> ProtocolCapabilitySet_is_bounded (sel_capabilities sel)))"

definition admits :: "HandshakePolicy \<Rightarrow> AuthPath \<Rightarrow> PeerId \<Rightarrow> bool" where
  "admits policy auth peer \<longleftrightarrow>
     (auth = FirstPairing \<longrightarrow> pol_allow_pairing policy)
     \<and> (auth = TrustedReconnect \<longrightarrow> bt_contains (pol_trusted_peers policy) peer)"

definition terms_ok :: "HandshakePolicy \<Rightarrow> HandshakeMachine \<Rightarrow> bool" where
  "terms_ok policy m \<longleftrightarrow>
     hm_remote m \<noteq> None \<and> hm_auth_path m \<noteq> None
     \<and> (\<exists>v. hm_link_version m = Some v \<and> range_contains (pol_link_versions policy) v)
     \<and> LinkCapabilities_is_subset_of (hm_link_capabilities m) (pol_link_capabilities policy)"

definition selection_valid :: "HandshakePolicy \<Rightarrow> HandshakeMachine \<Rightarrow> bool" where
  "selection_valid policy m \<longleftrightarrow>
     hm_selected_protocols m \<noteq> [] \<and> distinct (map sel_stable_id (hm_selected_protocols m))
     \<and> (\<forall>sel \<in> set (hm_selected_protocols m). offered (catalog policy (the (hm_auth_path m))) sel)"

definition request_for :: "HandshakeConfig \<Rightarrow> HandshakeMachine \<Rightarrow> VerificationRequest \<Rightarrow> bool" where
  "request_for config m req \<longleftrightarrow>
     vreq_peer_id req = ident_peer_id (the (hm_remote m)) \<and> vreq_auth_path req = the (hm_auth_path m)
     \<and> vreq_nonce req = hcfg_challenge_nonce config"

definition verified :: "hs_log \<Rightarrow> VerificationRequest \<Rightarrow> bool" where
  "verified log req \<longleftrightarrow>
     (\<exists>l1 l2 ev outs. log = l1 @ [(ev, Inr [VerifyIdentity req]), (HsDecide Accept, Inr outs)] @ l2)"

definition initiator_inv :: "HandshakeConfig \<Rightarrow> HandshakeMachine \<Rightarrow> bool" where
  "initiator_inv config m \<longleftrightarrow>
     hm_role m = Initiator \<and> hcfg_policy (hm_config m) = hcfg_policy config
     \<and> hcfg_identity (hm_config m) = hcfg_identity config
     \<and> hm_state m \<in> {Hs_Ready, Hs_AwaitingChallenge, Hs_AwaitingSelection, Hs_AwaitingConfirmed, Hs_Established, Hs_Failed}
     \<and> (hm_state m \<in> {Hs_AwaitingSelection, Hs_AwaitingConfirmed, Hs_Established} \<longrightarrow> terms_ok (hcfg_policy config) m)
     \<and> (hm_state m \<in> {Hs_AwaitingConfirmed, Hs_Established} \<longrightarrow> selection_valid (hcfg_policy config) m)"

definition responder_inv :: "HandshakeConfig \<Rightarrow> HandshakeMachine \<Rightarrow> hs_log \<Rightarrow> bool" where
  "responder_inv config m log \<longleftrightarrow>
     hm_role m = Responder \<and> hm_config m = config
     \<and> hm_state m \<in> {Hs_AwaitingHello, Hs_AwaitingProof, Hs_AwaitingVerification, Hs_AwaitingConfirmation, Hs_Established, Hs_Failed}
     \<and> (hm_state m \<in> {Hs_AwaitingProof, Hs_AwaitingVerification, Hs_AwaitingConfirmation, Hs_Established} \<longrightarrow>
          terms_ok (hcfg_policy config) m \<and> selection_valid (hcfg_policy config) m
          \<and> admits (hcfg_policy config) (the (hm_auth_path m)) (ident_peer_id (the (hm_remote m))))
     \<and> (hm_state m = Hs_AwaitingVerification \<longrightarrow>
          (\<exists>req l1 ev. hm_pending_verification m = Some req \<and> request_for config m req
             \<and> log = l1 @ [(ev, Inr [VerifyIdentity req])]))
     \<and> (hm_state m \<in> {Hs_AwaitingConfirmation, Hs_Established} \<longrightarrow>
          (\<exists>req. request_for config m req \<and> verified log req))"

lemma supported_offered: "selection_supported offers sel \<Longrightarrow> offered offers sel"
  by (force simp: selection_supported_def offered_def list_ex_iff negotiate_single split: if_splits)

lemma agreed_offered:
  assumes "agreed l r sel"
  shows "l \<in> set offers \<Longrightarrow> offered offers sel" and "r \<in> set offers \<Longrightarrow> offered offers sel"
  using assms agreed_caps [OF assms] negotiate_contains [of "offer_versions l" "offer_versions r" "sel_version sel"]
    caps_intersect_bounded [of "offer_capabilities l" "offer_capabilities r" "sel_capabilities sel"]
  unfolding agreed_def offered_def by metis+

lemma negotiate_protocols_offered:
  assumes "negotiate_protocols ls rs = Inr sels"
  shows "distinct (map sel_stable_id sels)" and "\<forall>sel \<in> set sels. offered ls sel \<and> offered rs sel"
proof -
  note s = negotiate_loop_sound [OF assms [unfolded negotiate_protocols_def]]
  from s show "distinct (map sel_stable_id sels)" by blast
  show "\<forall>sel \<in> set sels. offered ls sel \<and> offered rs sel"
  proof
    fix sel assume "sel \<in> set sels"
    with s obtain l r where lr: "first_with (sel_stable_id sel) ls = Some l" "first_with (sel_stable_id sel) rs = Some r"
      "agreed l r sel" by blast
    then have "l \<in> set ls" "r \<in> set rs" by (auto simp: first_with_def dest: find_id)
    with agreed_offered [OF lr(3)] show "offered ls sel \<and> offered rs sel" by blast
  qed
qed

lemma verified_append: "verified log req \<Longrightarrow> verified (log @ l) req"
  unfolding verified_def by (metis append.assoc)

lemma responder_inv_append:
  "responder_inv config m log \<Longrightarrow> hm_state m \<noteq> Hs_AwaitingVerification \<Longrightarrow> responder_inv config m (log @ l)"
  unfolding responder_inv_def by (auto intro: verified_append)

lemma responder_inv_failed:
  "responder_inv config m log \<Longrightarrow> responder_inv config (m\<lparr>hm_state := Hs_Failed\<rparr>) log'"
  by (simp add: responder_inv_def)

lemma initiator_inv_failed: "initiator_inv config m \<Longrightarrow> initiator_inv config (m\<lparr>hm_state := Hs_Failed\<rparr>)"
  by (simp add: initiator_inv_def)

lemma receive_hello_cases:
  assumes "HandshakeMachine_receive_hello m ident vs caps offers auth = (r, m')"
  obtains (refused) e where "r = Inl (HsError e)" "m' = m\<lparr>hm_state := Hs_Failed\<rparr>"
  | (accepted) v sels where
      "length offers \<le> pol_max_protocol_offers (hcfg_policy (hm_config m))"
      "VersionRange_negotiate (pol_link_versions (hcfg_policy (hm_config m))) vs = Some v"
      "admits (hcfg_policy (hm_config m)) auth (ident_peer_id ident)"
      "negotiate_protocols (catalog (hcfg_policy (hm_config m)) auth) offers = Inr sels" "sels \<noteq> []"
      "r = Inr [Send (Fr_Challenge (hcfg_identity (hm_config m)) v
         (LinkCapabilities_intersection (pol_link_capabilities (hcfg_policy (hm_config m))) caps)
         auth (hcfg_challenge_nonce (hm_config m)))]"
      "m' = m\<lparr>hm_remote := Some ident, hm_auth_path := Some auth, hm_link_version := Some v,
              hm_link_capabilities := LinkCapabilities_intersection (pol_link_capabilities (hcfg_policy (hm_config m))) caps,
              hm_selected_protocols := sels, hm_state := Hs_AwaitingProof\<rparr>"
proof (cases r)
  case (Inl f)
  with assms have "m' = m\<lparr>hm_state := Hs_Failed\<rparr> \<and> f \<noteq> HsPanic"
    by (auto simp: HandshakeMachine_receive_hello_def Let_def split: if_splits option.splits sum.splits)
  with Inl show ?thesis by (cases f) (auto intro: refused)
next
  case (Inr outs)
  with assms obtain v sels where
    "VersionRange_negotiate (pol_link_versions (hcfg_policy (hm_config m))) vs = Some v"
    "negotiate_protocols (catalog (hcfg_policy (hm_config m)) auth) offers = Inr sels"
    by (auto simp: HandshakeMachine_receive_hello_def Let_def split: if_splits option.splits sum.splits)
  with Inr assms show ?thesis
    by (intro accepted [of v sels])
      (auto simp: HandshakeMachine_receive_hello_def Let_def admits_def not_less split: if_splits)
qed

lemma initiator_step:
  assumes inv: "initiator_inv config m" and h: "hs_handle sha ev m = (r, m')"
  shows "initiator_inv config m' \<and> r \<noteq> Inl HsPanic"
proof (cases ev)
  case (HsStart auth)
  with inv h show ?thesis
    by (auto simp: HandshakeMachine_start_def Let_def initiator_inv_def terms_ok_def selection_valid_def
        split: prod.splits sum.splits if_splits)
next
  case (HsDecide d)
  with inv h show ?thesis by (auto simp: HandshakeMachine_decide_identity_def initiator_inv_def)
next
  case (HsReceive frame)
  show ?thesis
  proof (cases frame)
    case (Fr_Selection sid sels)
    show ?thesis
    proof (cases "hm_state m = Hs_AwaitingSelection")
      case True
      obtain rv mv where v: "HandshakeMachine_validate_selection m sels = (rv, mv)" by fastforce
      from v show ?thesis
      proof (cases rule: validate_selection_cases)
        case (refused e)
        with inv h HsReceive Fr_Selection True v show ?thesis by (auto simp: initiator_inv_def)
      next
        case (valid auth)
        then have "\<forall>sel \<in> set sels. offered (catalog (hcfg_policy config) auth) sel"
          using inv supported_offered by (auto simp: initiator_inv_def list_all_iff)
        with valid inv h HsReceive Fr_Selection True v show ?thesis
          by (auto simp: initiator_inv_def terms_ok_def selection_valid_def)
      qed
    qed (use inv h HsReceive Fr_Selection in \<open>auto simp: initiator_inv_def\<close>)
  next
    case (Fr_Challenge responder v caps auth nonce)
    with inv h HsReceive show ?thesis
      by (auto simp: initiator_inv_def terms_ok_def negotiate_single split: if_splits)
  next
    case (Fr_Confirmed sid)
    with inv h HsReceive show ?thesis
      by (auto simp: initiator_inv_def terms_ok_def selection_valid_def HandshakeMachine_negotiated_session_def Let_def
          split: if_splits option.splits)
  qed (use inv h HsReceive in \<open>auto simp: initiator_inv_def\<close>)
qed

lemma responder_step:
  assumes inv: "responder_inv config m log" and h: "hs_handle sha ev m = (r, m')"
  shows "responder_inv config m' (log @ [(ev, r)]) \<and> r \<noteq> Inl HsPanic"
proof -
  have role: "hm_role m = Responder" and cfg: "hm_config m = config" using inv by (simp_all add: responder_inv_def)
  have failed: ?thesis if "r = Inl (HsError e)" "m' = m\<lparr>hm_state := Hs_Failed\<rparr>" for e
    using that responder_inv_failed [OF inv] by simp
  show ?thesis
  proof (cases ev)
    case (HsStart auth)
    with h role show ?thesis
      by (intro failed) (auto simp: HandshakeMachine_start_def HandshakeMachine_fail_def)
  next
    case (HsDecide d)
    show ?thesis
    proof (cases "hm_state m = Hs_AwaitingVerification")
      case True
      with inv obtain req l1 e1 where req: "hm_pending_verification m = Some req" "request_for config m req"
        "log = l1 @ [(e1, Inr [VerifyIdentity req])]" by (auto simp: responder_inv_def)
      show ?thesis
      proof (cases d)
        case Accept
        with h HsDecide True role req obtain outs where
          m': "m' = m\<lparr>hm_pending_verification := None, hm_state := Hs_AwaitingConfirmation\<rparr>" and r: "r = Inr outs"
          by (auto simp: HandshakeMachine_decide_identity_def Let_def)
        have "verified (log @ [(ev, r)]) req"
          unfolding verified_def using req(3) HsDecide Accept r
          by (intro exI [of _ l1] exI [of _ "[]"] exI [of _ e1] exI [of _ outs]) simp
        then have "\<exists>req. request_for config m' req \<and> verified (log @ [(ev, r)]) req"
          using req(2) by (auto simp: m' request_for_def)
        then show ?thesis
          using inv True r by (auto simp: m' responder_inv_def terms_ok_def selection_valid_def)
      next
        case RejectProof
        with h HsDecide True role req inv show ?thesis
          by (auto simp: HandshakeMachine_decide_identity_def Let_def responder_inv_def)
      qed
    qed (use h HsDecide role in \<open>auto simp: HandshakeMachine_decide_identity_def intro: responder_inv_failed [OF inv]\<close>)
  next
    case (HsReceive frame)
    show ?thesis
    proof (cases frame)
      case (Fr_Hello ident vs caps offers auth)
      show ?thesis
      proof (cases "hm_state m = Hs_AwaitingHello")
        case True
        with h HsReceive Fr_Hello role have "HandshakeMachine_receive_hello m ident vs caps offers auth = (r, m')" by simp
        then show ?thesis
        proof (cases rule: receive_hello_cases)
          case (accepted v sels)
          have "range_contains (pol_link_versions (hcfg_policy config)) v"
            using negotiate_contains(1) [OF accepted(2)] cfg by simp
          with accepted cfg role negotiate_protocols_offered [OF accepted(4)] show ?thesis
            by (simp add: responder_inv_def terms_ok_def selection_valid_def)
        qed (auto intro: responder_inv_failed [OF inv])
      qed (use h HsReceive Fr_Hello role in \<open>auto intro: responder_inv_failed [OF inv]\<close>)
    next
      case (Fr_IdentityProof evidence)
      show ?thesis
      proof (cases "hm_state m = Hs_AwaitingProof")
        case True
        with inv obtain remote auth where ra: "hm_remote m = Some remote" "hm_auth_path m = Some auth"
          by (auto simp: responder_inv_def terms_ok_def)
        let ?req = "\<lparr>vreq_peer_id = ident_peer_id remote, vreq_auth_path = auth,
                     vreq_nonce = hcfg_challenge_nonce config, vreq_proof = evidence\<rparr>"
        show ?thesis
        proof (cases "length (proof_opaque evidence) > pol_max_identity_proof_bytes (hcfg_policy config)")
          case False
          with h HsReceive Fr_IdentityProof True role ra cfg have
            "r = Inr [VerifyIdentity ?req]"
            "m' = m\<lparr>hm_pending_verification := Some ?req, hm_state := Hs_AwaitingVerification\<rparr>"
            by (simp_all add: Let_def)
          with inv True ra show ?thesis
            by (auto simp: responder_inv_def request_for_def terms_ok_def selection_valid_def)
        qed (use h HsReceive Fr_IdentityProof True role in \<open>auto simp: cfg intro: responder_inv_failed [OF inv]\<close>)
      qed (use h HsReceive Fr_IdentityProof role in \<open>auto intro: responder_inv_failed [OF inv]\<close>)
    next
      case (Fr_Confirm sid)
      show ?thesis
      proof (cases "hm_state m = Hs_AwaitingConfirmation \<and> sid = hcfg_session_id config")
        case True
        with inv obtain req where req: "request_for config m req" "verified log req" by (auto simp: responder_inv_def)
        from inv True obtain remote auth v where ra: "hm_remote m = Some remote" "hm_auth_path m = Some auth"
          "hm_link_version m = Some v" by (auto simp: responder_inv_def terms_ok_def)
        with h HsReceive Fr_Confirm True role cfg have
          "m' = m\<lparr>hm_state := Hs_Established\<rparr>" "r \<noteq> Inl HsPanic"
          by (auto simp: HandshakeMachine_negotiated_session_def Let_def)
        moreover have "verified (log @ [(ev, r)]) req" using req(2) by (rule verified_append)
        ultimately show ?thesis
          using inv True req(1) by (auto simp: responder_inv_def request_for_def terms_ok_def selection_valid_def)
      qed (use h HsReceive Fr_Confirm role in \<open>auto simp: cfg intro: responder_inv_failed [OF inv] split: if_splits\<close>)
    qed (use h HsReceive role in \<open>auto intro: responder_inv_failed [OF inv]\<close>)
  qed
qed

lemma trace_role: "hs_trace sha config role m log \<Longrightarrow>
    (if role = Initiator then initiator_inv config m else responder_inv config m log)"
proof (induction rule: hs_trace.induct)
  case (tr_event role m log ev r m')
  then show ?case using initiator_step responder_step by (auto split: if_splits)
qed (simp_all add: initiator_inv_def responder_inv_def HandshakeMachine_initiator_def
    HandshakeMachine_responder_def HandshakeMachine_new_def)

lemma established_output:
  assumes "hs_handle sha ev m = (Inr outs, m')" and "Established s \<in> set outs"
  shows "hm_state m' = Hs_Established \<and> HandshakeMachine_negotiated_session m' = Some s"
proof (cases ev)
  case (HsStart auth)
  with assms show ?thesis
    by (auto simp: HandshakeMachine_start_def Let_def split: prod.splits sum.splits if_splits)
next
  case (HsDecide d)
  with assms show ?thesis by (auto simp: HandshakeMachine_decide_identity_def Let_def split: if_splits)
next
  case (HsReceive frame)
  with assms show ?thesis
  proof (cases frame)
    case (Fr_Hello ident vs caps offers auth)
    with assms HsReceive show ?thesis by (auto split: if_splits elim!: receive_hello_cases)
  qed (auto simp: Let_def split: if_splits option.splits prod.splits sum.splits)
qed

lemma trace_event_in:
  assumes "hs_trace sha config role m log" and "(ev, r) \<in> set log"
  obtains m0 m1 log0 rest where "hs_trace sha config role m0 log0" "hs_handle sha ev m0 = (r, m1)"
    "hs_trace sha config role m1 (log0 @ [(ev, r)])" "log = (log0 @ [(ev, r)]) @ rest"
  using assms
proof (induction arbitrary: thesis rule: hs_trace.induct)
  case (tr_event role m log ev' r' m')
  show ?case
  proof (cases "(ev, r) \<in> set log")
    case True
    with tr_event.IH obtain m0 m1 log0 rest where "hs_trace sha config role m0 log0" "hs_handle sha ev m0 = (r, m1)"
      "hs_trace sha config role m1 (log0 @ [(ev, r)])" "log = (log0 @ [(ev, r)]) @ rest" by blast
    then show ?thesis using tr_event.prems(1) [of m0 log0 m1 "rest @ [(ev', r')]"] by simp
  next
    case False
    with tr_event have "ev' = ev" "r' = r" by auto
    with tr_event.prems(1) [OF tr_event.hyps(1), of m' "[]"] tr_event.hyps hs_trace.tr_event [OF tr_event.hyps(1,2)]
    show ?thesis by simp
  qed
qed simp_all

lemma trace_established:
  assumes "hs_trace sha config role m log" and "(ev, Inr outs) \<in> set log" and "Established s \<in> set outs"
  obtains m1 log1 rest where "hs_trace sha config role m1 log1" "log = log1 @ rest" "hm_state m1 = Hs_Established"
    "HandshakeMachine_negotiated_session m1 = Some s"
  using trace_event_in [OF assms(1,2)] established_output [OF _ assms(3)] by metis

lemma trace_established_selection:
  assumes "hs_trace sha config role m log" and "(ev, Inr outs) \<in> set log" and "Established s \<in> set outs"
  shows "distinct (map sel_stable_id (neg_protocols s))"
    and "list_all (offered (catalog (hcfg_policy config) (neg_auth_path s))) (neg_protocols s)"
proof -
  obtain m1 log1 where tr: "hs_trace sha config role m1 log1" and est: "hm_state m1 = Hs_Established"
    and s: "HandshakeMachine_negotiated_session m1 = Some s"
    using trace_established [OF assms] by metis
  have "selection_valid (hcfg_policy config) m1"
    using trace_role [OF tr] est by (auto simp: initiator_inv_def responder_inv_def split: if_splits)
  with s show "distinct (map sel_stable_id (neg_protocols s))"
    and "list_all (offered (catalog (hcfg_policy config) (neg_auth_path s))) (neg_protocols s)"
    by (auto simp: selection_valid_def HandshakeMachine_negotiated_session_def list_all_iff split: option.splits)
qed

subsection \<open>Properties of the handshake\<close>

text \<open>Protocol negotiation selects exactly the common protocols. Every selection comes
  from the first offer of that identifier on each side with the same schema, the greatest
  common version and the intersection of the capabilities; no identifier is selected twice;
  and a protocol both sides offer in compatible versions is always selected.\<close>

theorem negotiate_protocols_exact:
  assumes "negotiate_protocols ls rs = Inr sels"
  shows "distinct (map sel_stable_id sels)
    \<and> (\<forall>sel \<in> set sels. \<exists>l r. first_with (sel_stable_id sel) ls = Some l
         \<and> first_with (sel_stable_id sel) rs = Some r \<and> agreed l r sel)
    \<and> (\<forall>i l r v. first_with i ls = Some l \<and> first_with i rs = Some r
         \<and> VersionRange_negotiate (offer_versions l) (offer_versions r) = Some v \<longrightarrow>
         (\<exists>sel \<in> set sels. sel_stable_id sel = i \<and> sel_version sel = v))"
  using negotiate_loop_sound [of bt_empty ls rs sels] negotiate_loop_complete [of bt_empty ls rs sels] assms
  unfolding negotiate_protocols_def by simp

text \<open>C8: a responder establishes only authenticated sessions. Against any sequence of
  events, when a responder reports a session as established, its policy admits the peer on
  that authentication path, the verifier was asked about exactly that peer with the
  responder's own nonce and its very next decision was to accept, and every negotiated term
  lies within the policy and the catalog of that path.\<close>

theorem responder_established_authenticated:
  assumes "hs_trace sha config Responder m log" and "(ev, Inr outs) \<in> set log" and "Established s \<in> set outs"
  shows "admits (hcfg_policy config) (neg_auth_path s) (ident_peer_id (neg_remote s))
    \<and> (\<exists>req. verified log req \<and> vreq_peer_id req = ident_peer_id (neg_remote s)
          \<and> vreq_auth_path req = neg_auth_path s \<and> vreq_nonce req = hcfg_challenge_nonce config)
    \<and> neg_session_id s = hcfg_session_id config \<and> neg_local s = hcfg_identity config
    \<and> range_contains (pol_link_versions (hcfg_policy config)) (neg_link_version s)
    \<and> LinkCapabilities_is_subset_of (neg_link_capabilities s) (pol_link_capabilities (hcfg_policy config))
    \<and> neg_protocols s \<noteq> []
    \<and> list_all (offered (catalog (hcfg_policy config) (neg_auth_path s))) (neg_protocols s)"
proof -
  obtain m1 log1 rest where tr: "hs_trace sha config Responder m1 log1" and log: "log = log1 @ rest"
    and est: "hm_state m1 = Hs_Established" and s: "HandshakeMachine_negotiated_session m1 = Some s"
    using trace_established [OF assms] by metis
  from trace_role [OF tr] est s show ?thesis
    unfolding log
    by (auto simp: responder_inv_def HandshakeMachine_negotiated_session_def terms_ok_def selection_valid_def
        request_for_def list_all_iff split: option.splits intro: verified_append)
qed

text \<open>An initiator establishes only sessions it offered: the link version, the
  capabilities and every selected protocol, version, schema and capability set lie within its
  own policy and the catalog of the authentication path it started, and no protocol is
  selected twice.\<close>

theorem initiator_established_offered:
  assumes "hs_trace sha config Initiator m log" and "(ev, Inr outs) \<in> set log" and "Established s \<in> set outs"
  shows "neg_local s = hcfg_identity config
    \<and> range_contains (pol_link_versions (hcfg_policy config)) (neg_link_version s)
    \<and> LinkCapabilities_is_subset_of (neg_link_capabilities s) (pol_link_capabilities (hcfg_policy config))
    \<and> neg_protocols s \<noteq> [] \<and> distinct (map sel_stable_id (neg_protocols s))
    \<and> list_all (offered (catalog (hcfg_policy config) (neg_auth_path s))) (neg_protocols s)"
proof -
  obtain m1 log1 where tr: "hs_trace sha config Initiator m1 log1" and est: "hm_state m1 = Hs_Established"
    and s: "HandshakeMachine_negotiated_session m1 = Some s"
    using trace_established [OF assms] by metis
  from trace_role [OF tr] est s show ?thesis
    by (auto simp: initiator_inv_def HandshakeMachine_negotiated_session_def terms_ok_def selection_valid_def
        list_all_iff split: option.splits)
qed

text \<open>C9: the machine never panics and failure is final. No sequence of events reaches one
  of its \<^verbatim>\<open>expect\<close> calls without a value, and a failed machine answers every further
  event with an error and stays failed.\<close>

theorem handshake_fails_safely:
  assumes "hs_trace sha config role m log"
  shows "fst (hs_handle sha ev m) \<noteq> Inl HsPanic
    \<and> (hm_state m = Hs_Failed \<longrightarrow>
        \<not> is_ok (fst (hs_handle sha ev m)) \<and> hm_state (snd (hs_handle sha ev m)) = Hs_Failed)"
proof -
  obtain r m' where h: "hs_handle sha ev m = (r, m')" by fastforce
  have "r \<noteq> Inl HsPanic"
    using trace_role [OF assms] initiator_step [OF _ h] responder_step [OF _ h] by (auto split: if_splits)
  moreover have "\<not> is_ok r \<and> hm_state m' = Hs_Failed" if "hm_state m = Hs_Failed"
  proof (cases ev)
    case (HsStart auth)
    with h that show ?thesis by (auto simp: HandshakeMachine_start_def HandshakeMachine_fail_def)
  next
    case (HsReceive frame)
    with h that show ?thesis by (cases frame) (auto simp: HandshakeMachine_fail_def)
  next
    case (HsDecide d)
    with h that show ?thesis by (auto simp: HandshakeMachine_decide_identity_def HandshakeMachine_fail_def)
  qed
  ultimately show ?thesis using h by simp
qed

subsection \<open>Two honest parties\<close>

text \<open>The messages of one handshake carried between an initiator and a responder whose
  verifier accepts: the two established sessions and the verification request.\<close>

definition hs_exchange ::
  "sha256 \<Rightarrow> HandshakeConfig \<Rightarrow> HandshakeConfig \<Rightarrow> AuthPath
   \<Rightarrow> (NegotiatedSession \<times> NegotiatedSession \<times> VerificationRequest) option" where
  "hs_exchange sha ci cr auth =
     (case HandshakeMachine_start sha (HandshakeMachine_initiator ci) auth of
        (Inr hello, i1) \<Rightarrow>
     (case HandshakeMachine_receive (HandshakeMachine_responder cr) hello of
        (Inr [Send challenge], r1) \<Rightarrow>
     (case HandshakeMachine_receive i1 challenge of
        (Inr [Send proof_frame], i2) \<Rightarrow>
     (case HandshakeMachine_receive r1 proof_frame of
        (Inr [VerifyIdentity req], r2) \<Rightarrow>
     (case HandshakeMachine_decide_identity r2 Accept of
        (Inr [Send selection], r3) \<Rightarrow>
     (case HandshakeMachine_receive i2 selection of
        (Inr [Send confirm], i3) \<Rightarrow>
     (case HandshakeMachine_receive r3 confirm of
        (Inr [Send confirmed, Established sr], r4) \<Rightarrow>
     (case HandshakeMachine_receive i3 confirmed of
        (Inr [Established si], i4) \<Rightarrow> Some (si, sr, req)
      | _ \<Rightarrow> None) | _ \<Rightarrow> None) | _ \<Rightarrow> None) | _ \<Rightarrow> None) | _ \<Rightarrow> None) | _ \<Rightarrow> None) | _ \<Rightarrow> None) | _ \<Rightarrow> None)"

lemma start_ok_cases:
  assumes "HandshakeMachine_start sha (HandshakeMachine_initiator ci) auth = (Inr hello, i1)"
  shows "hello = Fr_Hello (hcfg_identity ci) (pol_link_versions (hcfg_policy ci))
      (pol_link_capabilities (hcfg_policy ci)) (catalog (hcfg_policy ci) auth) auth"
    and "i1 = (HandshakeMachine_initiator ci)\<lparr>hm_auth_path := Some auth, hm_state := Hs_AwaitingChallenge\<rparr>"
    and "length (catalog (hcfg_policy ci) auth) \<le> pol_max_protocol_offers (hcfg_policy ci)"
    and "\<forall>offer \<in> set (catalog (hcfg_policy ci) auth). ProtocolCapabilitySet_is_bounded (offer_capabilities offer)"
  using assms
  by (auto simp: HandshakeMachine_start_def HandshakeMachine_initiator_def HandshakeMachine_new_def Let_def
      list_ex_iff offer_inconsistent_def split: if_splits)

lemma negotiated_validates:
  assumes neg: "negotiate_protocols ls rs = Inr sels" and "sels \<noteq> []"
    and bounded: "\<forall>offer \<in> set rs. ProtocolCapabilitySet_is_bounded (offer_capabilities offer)"
    and len: "length rs \<le> pol_max_protocol_offers (hcfg_policy (hm_config m))"
    and "hm_auth_path m = Some auth" and rs: "catalog (hcfg_policy (hm_config m)) auth = rs"
  shows "HandshakeMachine_validate_selection m sels = (Inr (), m)"
proof -
  note s = negotiate_loop_sound [OF neg [unfolded negotiate_protocols_def]]
  have sup: "list_all (selection_supported rs) sels"
    unfolding list_all_iff
  proof
    fix sel assume "sel \<in> set sels"
    with s obtain l r where lr: "first_with (sel_stable_id sel) rs = Some r" "agreed l r sel" by blast
    then have "r \<in> set rs" by (auto simp: first_with_def dest: find_id)
    with lr(2) bounded show "selection_supported rs sel" by (auto intro: agreed_supported)
  qed
  have "set (map sel_stable_id sels) \<subseteq> set (map offer_stable_id rs)"
  proof clarsimp
    fix sel assume "sel \<in> set sels"
    with sup obtain offer where "offer \<in> set rs" "offer_stable_id offer = sel_stable_id sel"
      by (auto simp: list_all_iff selection_supported_def list_ex_iff)
    then show "sel_stable_id sel \<in> offer_stable_id ` set rs" by (metis imageI)
  qed
  then have "card (set (map sel_stable_id sels)) \<le> card (set (map offer_stable_id rs))"
    by (rule card_mono [rotated]) simp
  also have "\<dots> \<le> length rs" using card_length [of "map offer_stable_id rs"] by simp
  finally have "length sels \<le> length rs" using s distinct_card [of "map sel_stable_id sels"] by simp
  with assms sup s len show ?thesis
    by (auto simp: HandshakeMachine_validate_selection_def check_selections_iff)
qed

text \<open>C10: two honest parties agree. Once the responder accepts the initiator's hello and the
  initiator's proof fits the responder's limit, the exchange completes with both sides
  established, and they agree on the session identifier, the link version, the capabilities,
  the protocols and the authentication path, each naming the other as its peer.\<close>

theorem handshake_agreement:
  assumes start: "HandshakeMachine_start sha (HandshakeMachine_initiator ci) auth = (Inr hello, i1)"
    and hello: "is_ok (fst (HandshakeMachine_receive (HandshakeMachine_responder cr) hello))"
    and fits: "length (proof_opaque (hcfg_identity_proof ci)) \<le> pol_max_identity_proof_bytes (hcfg_policy cr)"
  shows "\<exists>si sr req. hs_exchange sha ci cr auth = Some (si, sr, req)
    \<and> neg_session_id si = neg_session_id sr \<and> neg_link_version si = neg_link_version sr
    \<and> neg_link_capabilities si = neg_link_capabilities sr \<and> neg_protocols si = neg_protocols sr
    \<and> neg_auth_path si = auth \<and> neg_auth_path sr = auth
    \<and> neg_remote si = neg_local sr \<and> neg_remote sr = neg_local si
    \<and> vreq_peer_id req = ident_peer_id (neg_local si)"
proof -
  note st = start_ok_cases [OF start]
  let ?r0 = "HandshakeMachine_responder cr"
  obtain rr r1 where r1: "HandshakeMachine_receive_hello ?r0 (hcfg_identity ci) (pol_link_versions (hcfg_policy ci))
      (pol_link_capabilities (hcfg_policy ci)) (catalog (hcfg_policy ci) auth) auth = (rr, r1)" by fastforce
  have rcv: "HandshakeMachine_receive ?r0 hello = (rr, r1)"
    using r1 st(1) by (simp add: HandshakeMachine_responder_def HandshakeMachine_new_def)
  from r1 show ?thesis
  proof (cases rule: receive_hello_cases)
    case (refused e)
    with hello rcv show ?thesis by simp
  next
    case (accepted v sels)
    have cfg: "hm_config ?r0 = cr" "hm_role ?r0 = Responder"
      by (simp_all add: HandshakeMachine_responder_def HandshakeMachine_new_def)
    have v: "VersionRange_negotiate (pol_link_versions (hcfg_policy ci)) (VersionRange_new v v) \<noteq> None"
      using negotiate_contains(2) [OF accepted(2)] by (simp add: negotiate_single)
    let ?caps = "LinkCapabilities_intersection (pol_link_capabilities (hcfg_policy cr)) (pol_link_capabilities (hcfg_policy ci))"
    let ?i2 = "i1\<lparr>hm_remote := Some (hcfg_identity cr), hm_link_version := Some v,
                  hm_link_capabilities := ?caps, hm_state := Hs_AwaitingSelection\<rparr>"
    have i2: "HandshakeMachine_receive i1 (Fr_Challenge (hcfg_identity cr) v ?caps auth (hcfg_challenge_nonce cr))
        = (Inr [Send (Fr_IdentityProof (hcfg_identity_proof ci))], ?i2)"
      using v by (simp add: st(2) HandshakeMachine_initiator_def HandshakeMachine_new_def)
    have val: "HandshakeMachine_validate_selection ?i2 sels = (Inr (), ?i2)"
      by (rule negotiated_validates [OF accepted(4,5) st(4), of _ auth])
        (use st(3) in \<open>simp_all add: st(2) HandshakeMachine_initiator_def HandshakeMachine_new_def\<close>)
    show ?thesis
      unfolding hs_exchange_def start prod.case sum.case rcv accepted(6) cfg list.case HandshakeOutput.case i2
      using fits val
      by (simp add: accepted(7) cfg st(2) Let_def HandshakeMachine_decide_identity_def
          HandshakeMachine_negotiated_session_def HandshakeMachine_initiator_def HandshakeMachine_new_def not_less)
  qed
qed

subsection \<open>A sample handshake\<close>

fun hs_run :: "sha256 \<Rightarrow> HsEvent list \<Rightarrow> HandshakeMachine \<Rightarrow> hs_log \<times> HandshakeMachine" where
  "hs_run sha [] m = ([], m)"
| "hs_run sha (ev # evs) m =
     (case hs_handle sha ev m of (r, m1) \<Rightarrow>
      (case hs_run sha evs m1 of (log, m2) \<Rightarrow> ((ev, r) # log, m2)))"

lemma hs_run_trace:
  "hs_trace sha config role m log \<Longrightarrow> hs_run sha evs m = (log', m') \<Longrightarrow> hs_trace sha config role m' (log @ log')"
proof (induction evs arbitrary: m log log')
  case Nil
  then show ?case by simp
next
  case (Cons ev evs)
  obtain r m1 where h: "hs_handle sha ev m = (r, m1)" by fastforce
  with Cons.prems(2) obtain l2 where rest: "hs_run sha evs m1 = (l2, m')" "log' = (ev, r) # l2"
    by (auto split: prod.splits)
  from Cons.IH [OF tr_event [OF Cons.prems(1) h] rest(1)] rest(2) show ?case by simp
qed

definition sample_identity :: "256 word \<Rightarrow> Identity" where
  "sample_identity n = \<lparr>ident_peer_id = PeerId n, ident_endpoint_id = EndpointId 1, ident_connection_id = ConnectionId 1\<rparr>"

definition sample_schema :: SchemaRef where
  "sample_schema = \<lparr>schema_id = SchemaId 4, schema_revision = SchemaRevision 1, schema_fingerprint = SchemaFingerprint 6\<rparr>"

definition sample_offer :: "u16 \<Rightarrow> u16 \<Rightarrow> ProtocolOffer" where
  "sample_offer lo hi = \<lparr>offer_stable_id = ProtocolStableId 3, offer_debug_identity = None,
     offer_versions = VersionRange_new (ProtocolVersion 1 lo) (ProtocolVersion 1 hi), offer_schema = sample_schema,
     offer_capabilities = ProtocolCapabilitySet_empty (ProtocolStableId 3)\<rparr>"

definition sample_hs_config :: "256 word \<Rightarrow> 256 word \<Rightarrow> u16 \<Rightarrow> u16 \<Rightarrow> HandshakeConfig" where
  "sample_hs_config own peer lo hi =
     \<lparr>hcfg_identity = sample_identity own,
      hcfg_policy =
        \<lparr>pol_link_versions = VersionRange_new (ProtocolVersion 1 0) (ProtocolVersion 1 2),
         pol_link_capabilities = TYPED_CONTROL, pol_protocols = [sample_offer lo hi], pol_pairing_protocols = [],
         pol_allow_pairing = False, pol_trusted_peers = bs_of_list [PeerId peer],
         pol_max_protocol_offers = 4, pol_max_identity_proof_bytes = 8\<rparr>,
      hcfg_challenge_nonce = 9, hcfg_identity_proof = IdentityProof [1, 2], hcfg_session_id = SessionId 7\<rparr>"

definition sample_selection :: ProtocolSelection where
  "sample_selection = \<lparr>sel_stable_id = ProtocolStableId 3, sel_version = ProtocolVersion 1 2, sel_schema = sample_schema,
     sel_capabilities = ProtocolCapabilitySet_empty (ProtocolStableId 3)\<rparr>"

definition sample_responder_events :: "HsEvent list" where
  "sample_responder_events =
     [HsReceive (Fr_Hello (sample_identity 1) (VersionRange_new (ProtocolVersion 1 0) (ProtocolVersion 1 2))
        TYPED_CONTROL [sample_offer 0 2] TrustedReconnect),
      HsReceive (Fr_IdentityProof (IdentityProof [1, 2])), HsDecide Accept, HsReceive (Fr_Confirm (SessionId 7))]"

definition sample_initiator_events :: "HsEvent list" where
  "sample_initiator_events =
     [HsStart TrustedReconnect,
      HsReceive (Fr_Challenge (sample_identity 2) (ProtocolVersion 1 2) TYPED_CONTROL TrustedReconnect 9),
      HsReceive (Fr_Selection (SessionId 7) [sample_selection]), HsReceive (Fr_Confirmed (SessionId 7))]"

lemmas hs_eval =
  sample_identity_def sample_schema_def sample_offer_def sample_hs_config_def sample_selection_def
  HandshakeMachine_initiator_def HandshakeMachine_responder_def HandshakeMachine_new_def HandshakeMachine_start_def
  HandshakeMachine_receive_hello_def HandshakeMachine_decide_identity_def HandshakeMachine_validate_selection_def
  HandshakeMachine_negotiated_session_def negotiate_protocols_def offer_inconsistent_def selection_supported_def
  debug_identities_conflict_def ProtocolCapabilitySet_is_bounded_def ProtocolCapabilitySet_empty_def
  ProtocolCapabilitySet_intersect_def ProtocolCapabilitySet_is_subset_of_def MAX_PROTOCOL_CAPABILITY_WORDS_def
  VersionRange_negotiate_def VersionRange_is_valid_def VersionRange_new_def LinkCapabilities_is_subset_of_def
  LinkCapabilities_intersection_def TYPED_CONTROL_def Let_def

lemma sample_negotiation:
  "negotiate_protocols [sample_offer 1 3] [sample_offer 0 2] = Inr [sample_selection]"
  by (simp add: hs_eval)

definition sample_session :: "Identity \<Rightarrow> Identity \<Rightarrow> NegotiatedSession" where
  "sample_session own peer =
     \<lparr>neg_session_id = SessionId 7, neg_local = own, neg_remote = peer, neg_link_version = ProtocolVersion 1 2,
      neg_link_capabilities = TYPED_CONTROL, neg_protocols = [sample_selection], neg_auth_path = TrustedReconnect\<rparr>"

lemma sample_responder_run:
  "\<exists>m log. hs_run sha sample_responder_events (HandshakeMachine_responder (sample_hs_config 2 1 1 3)) =
     (log @ [(HsReceive (Fr_Confirm (SessionId 7)),
        Inr [Send (Fr_Confirmed (SessionId 7)), Established (sample_session (sample_identity 2) (sample_identity 1))])], m)"
  by (simp add: hs_eval sample_responder_events_def sample_session_def)

lemma sample_initiator_run:
  "\<exists>m log. hs_run sha sample_initiator_events (HandshakeMachine_initiator (sample_hs_config 1 2 0 2)) =
     (log @ [(HsReceive (Fr_Confirmed (SessionId 7)),
        Inr [Established (sample_session (sample_identity 1) (sample_identity 2))])], m)"
  by (simp add: hs_eval sample_initiator_events_def sample_session_def)

text \<open>Two offers of one protocol with overlapping versions.\<close>

theorem negotiate_protocols_exact_witness:
  "negotiate_protocols [sample_offer 1 3] [sample_offer 0 2] = Inr [sample_selection]
   \<and> distinct (map sel_stable_id [sample_selection])
   \<and> agreed (sample_offer 1 3) (sample_offer 0 2) sample_selection"
  using negotiate_protocols_exact [OF sample_negotiation] sample_negotiation
  by (auto simp: first_with_def sample_offer_def sample_selection_def)

text \<open>C8 witness: a complete run of a responder that trusts its peer.\<close>

theorem responder_established_authenticated_witness:
  "\<exists>m log req. hs_trace (\<lambda>_. 0) (sample_hs_config 2 1 1 3) Responder m log
     \<and> verified log req \<and> vreq_peer_id req = PeerId 1 \<and> vreq_nonce req = 9"
proof -
  obtain m log where run: "hs_run (\<lambda>_. 0) sample_responder_events (HandshakeMachine_responder (sample_hs_config 2 1 1 3)) =
     (log @ [(HsReceive (Fr_Confirm (SessionId 7)),
        Inr [Send (Fr_Confirmed (SessionId 7)), Established (sample_session (sample_identity 2) (sample_identity 1))])], m)"
    using sample_responder_run [of "\<lambda>_. 0"] by blast
  note tr = hs_run_trace [OF tr_responder run]
  have "ident_peer_id (neg_remote (sample_session (sample_identity 2) (sample_identity 1))) = PeerId 1"
    "hcfg_challenge_nonce (sample_hs_config 2 1 1 3) = 9"
    by (simp_all add: sample_session_def sample_identity_def sample_hs_config_def)
  with responder_established_authenticated [OF tr, of "HsReceive (Fr_Confirm (SessionId 7))"
      "[Send (Fr_Confirmed (SessionId 7)), Established (sample_session (sample_identity 2) (sample_identity 1))]"
      "sample_session (sample_identity 2) (sample_identity 1)"] tr
  show ?thesis by simp blast
qed

text \<open>A complete run of an initiator.\<close>

theorem initiator_established_offered_witness:
  "\<exists>m log. hs_trace (\<lambda>_. 0) (sample_hs_config 1 2 0 2) Initiator m log
     \<and> offered (catalog (hcfg_policy (sample_hs_config 1 2 0 2)) TrustedReconnect) sample_selection"
proof -
  obtain m log where run: "hs_run (\<lambda>_. 0) sample_initiator_events (HandshakeMachine_initiator (sample_hs_config 1 2 0 2)) =
     (log @ [(HsReceive (Fr_Confirmed (SessionId 7)),
        Inr [Established (sample_session (sample_identity 1) (sample_identity 2))])], m)"
    using sample_initiator_run [of "\<lambda>_. 0"] by blast
  note tr = hs_run_trace [OF tr_initiator run]
  have "neg_protocols (sample_session (sample_identity 1) (sample_identity 2)) = [sample_selection]"
    "neg_auth_path (sample_session (sample_identity 1) (sample_identity 2)) = TrustedReconnect"
    by (simp_all add: sample_session_def)
  with initiator_established_offered [OF tr, of "HsReceive (Fr_Confirmed (SessionId 7))"
      "[Established (sample_session (sample_identity 1) (sample_identity 2))]"
      "sample_session (sample_identity 1) (sample_identity 2)"] tr
  show ?thesis by simp blast
qed

text \<open>C9 witness: an initiator that received a confirmation out of order.\<close>

theorem handshake_fails_safely_witness:
  "\<not> is_ok (fst (hs_handle (\<lambda>_. 0) (HsStart TrustedReconnect)
      (snd (hs_handle (\<lambda>_. 0) (HsReceive (Fr_Confirm (SessionId 7))) (HandshakeMachine_initiator (sample_hs_config 1 2 0 2))))))"
proof -
  let ?m = "HandshakeMachine_initiator (sample_hs_config 1 2 0 2)"
  obtain r m' where h: "hs_handle (\<lambda>_. 0) (HsReceive (Fr_Confirm (SessionId 7))) ?m = (r, m')" by fastforce
  then have f: "hm_state m' = Hs_Failed"
    by (auto simp: HandshakeMachine_initiator_def HandshakeMachine_new_def)
  from handshake_fails_safely [OF tr_event [OF tr_initiator h], of "HsStart TrustedReconnect"] f
  show ?thesis unfolding h by (simp del: hs_handle.simps)
qed

text \<open>C10 witness: two parties that trust each other and share one protocol.\<close>

theorem handshake_agreement_witness:
  "\<exists>si sr req. hs_exchange (\<lambda>_. 0) (sample_hs_config 1 2 0 2) (sample_hs_config 2 1 1 3) TrustedReconnect = Some (si, sr, req)
     \<and> neg_remote si = neg_local sr \<and> neg_protocols si = neg_protocols sr"
proof -
  let ?ci = "sample_hs_config 1 2 0 2" and ?cr = "sample_hs_config 2 1 1 3"
  obtain hello i1 where st: "HandshakeMachine_start (\<lambda>_. 0) (HandshakeMachine_initiator ?ci) TrustedReconnect = (Inr hello, i1)"
    and ok: "is_ok (fst (HandshakeMachine_receive (HandshakeMachine_responder ?cr) hello))"
    by (simp add: hs_eval)
  have "length (proof_opaque (hcfg_identity_proof ?ci)) \<le> pol_max_identity_proof_bytes (hcfg_policy ?cr)"
    by (simp add: sample_hs_config_def)
  from handshake_agreement [OF st ok this] show ?thesis by auto
qed

end
