(* ===== verification/Link_Registry.thy ===== *)
theory Link_Registry
  imports Link_Handshake Link_Mux "HOL-Library.List_Lexorder"
begin

text \<open>
  The protocol registry of \<^verbatim>\<open>protocol.rs\<close>: registration and validation of protocol
  descriptors, the frozen registry with its offers, negotiation and activation, and the
  validated channels of the active protocols. The lemmas show that a registry only holds
  valid descriptors within its limits, that its negotiation is the handshake's negotiation on
  its offers, that what was negotiated can be activated, and that an opened channel satisfies
  the multiplexer's rules.

  The loop over the channels of a descriptor, the loop over the registered descriptors and
  the loop over the negotiated selections are recursive functions over the list they visit.
\<close>

subsection \<open>Descriptors, limits and errors\<close>

definition MAX_PROTOCOL_ID_BYTES :: nat where
  "MAX_PROTOCOL_ID_BYTES = 128"

definition MAX_CHANNEL_NAME_BYTES :: nat where
  "MAX_CHANNEL_NAME_BYTES = 64"

datatype ProtocolId = ProtocolId (protocol_id_str: bytes)

record ProtocolChannelDescriptor =
  pcd_id :: ProtocolChannelId
  pcd_debug_name :: "bytes option"
  pcd_mode :: ChannelMode
  pcd_priority :: u8
  pcd_max_frame_bytes :: nat
  pcd_max_stream_bytes :: "u64 option"
  pcd_max_in_flight_frames :: nat
  pcd_discardable :: bool

record ProtocolDescriptor =
  pd_stable_id :: ProtocolStableId
  pd_debug_identity :: "ProtocolDebugIdentity option"
  pd_versions :: VersionRange
  pd_schema :: SchemaRef
  pd_capabilities :: ProtocolCapabilitySet
  pd_channels :: "ProtocolChannelDescriptor list"

record ProtocolRegistryLimits =
  rl_max_protocols :: nat
  rl_max_channels_per_protocol :: nat
  rl_max_total_channels :: nat
  rl_max_protocol_id_bytes :: nat
  rl_max_channel_name_bytes :: nat

definition ProtocolRegistryLimits_default :: ProtocolRegistryLimits where
  "ProtocolRegistryLimits_default =
     \<lparr>rl_max_protocols = 16, rl_max_channels_per_protocol = 32, rl_max_total_channels = 128,
      rl_max_protocol_id_bytes = MAX_PROTOCOL_ID_BYTES, rl_max_channel_name_bytes = MAX_CHANNEL_NAME_BYTES\<rparr>"

definition ProtocolRegistryLimits_is_valid :: "ProtocolRegistryLimits \<Rightarrow> bool" where
  "ProtocolRegistryLimits_is_valid self =
     (rl_max_protocols self > 0 \<and> rl_max_channels_per_protocol self > 0 \<and> rl_max_total_channels self > 0
      \<and> rl_max_protocol_id_bytes self > 0 \<and> rl_max_protocol_id_bytes self \<le> MAX_PROTOCOL_ID_BYTES
      \<and> rl_max_channel_name_bytes self > 0 \<and> rl_max_channel_name_bytes self \<le> MAX_CHANNEL_NAME_BYTES)"

datatype ProtocolRegistryErrorKind =
    PR_InvalidLimits | PR_InvalidProtocolId | PR_InvalidVersionRange | PR_InvalidSchema | PR_InvalidCapabilities
  | PR_InvalidChannel | PR_DuplicateProtocol | PR_DuplicateChannel | PR_IdentityConflict | PR_SchemaConflict
  | PR_RegistryLimitExceeded | PR_UnknownProtocol | PR_ProtocolNotNegotiated | PR_VersionNotSupported
  | PR_ChannelNotDefined | PR_ChannelCapacityExceeded | PR_FrameLimitExceeded | PR_StreamLimitExceeded

record ProtocolRegistryError =
  pr_kind :: ProtocolRegistryErrorKind
  pr_public_message :: string

fun registry_error_message :: "ProtocolRegistryErrorKind \<Rightarrow> string" where
  "registry_error_message PR_InvalidLimits = ''protocol registry limits must be positive''"
| "registry_error_message PR_InvalidProtocolId = ''protocol debug identity is invalid''"
| "registry_error_message PR_InvalidVersionRange = ''protocol version range is invalid''"
| "registry_error_message PR_InvalidSchema = ''protocol schema reference is invalid''"
| "registry_error_message PR_InvalidCapabilities = ''protocol capability set is invalid''"
| "registry_error_message PR_InvalidChannel = ''protocol channel definition is invalid''"
| "registry_error_message PR_DuplicateProtocol = ''protocol id is already registered''"
| "registry_error_message PR_DuplicateChannel = ''protocol channel is already defined''"
| "registry_error_message PR_IdentityConflict = ''protocol stable id conflicts with debug identity''"
| "registry_error_message PR_SchemaConflict = ''protocol stable id has a conflicting schema''"
| "registry_error_message PR_RegistryLimitExceeded = ''protocol registry limit exceeded''"
| "registry_error_message PR_UnknownProtocol = ''protocol is not registered''"
| "registry_error_message PR_ProtocolNotNegotiated = ''protocol was not negotiated''"
| "registry_error_message PR_VersionNotSupported = ''protocol version is not supported''"
| "registry_error_message PR_ChannelNotDefined = ''protocol channel is not defined''"
| "registry_error_message PR_ChannelCapacityExceeded = ''channel capacity exceeds protocol limit''"
| "registry_error_message PR_FrameLimitExceeded = ''frame exceeds protocol limit''"
| "registry_error_message PR_StreamLimitExceeded = ''stream exceeds protocol limit''"

definition registry_error :: "ProtocolRegistryErrorKind \<Rightarrow> ProtocolRegistryError" where
  "registry_error kind = \<lparr>pr_kind = kind, pr_public_message = registry_error_message kind\<rparr>"

definition valid_component :: "bytes \<Rightarrow> bool" where
  "valid_component value =
     (value \<noteq> []
      \<and> list_all (\<lambda>byte. (97 \<le> byte \<and> byte \<le> 122) \<or> (48 \<le> byte \<and> byte \<le> 57) \<or> byte = 45 \<or> byte = 95) value)"

definition valid_protocol_id :: "bytes \<Rightarrow> bool" where
  "valid_protocol_id value =
     (46 \<in> set value \<and> length value \<le> MAX_PROTOCOL_ID_BYTES \<and> list_all valid_component (split_on 46 value))"

definition ProtocolId_new :: "bytes \<Rightarrow> (ProtocolRegistryError, ProtocolId) result" where
  "ProtocolId_new value =
     (if length value > MAX_PROTOCOL_ID_BYTES \<or> \<not> valid_protocol_id value
      then Inl (registry_error PR_InvalidProtocolId)
      else Inr (ProtocolId value))"

subsection \<open>Registration\<close>

record ProtocolRegistry =
  reg_limits :: ProtocolRegistryLimits
  reg_descriptors :: "(ProtocolStableId, ProtocolDescriptor) btree"
  reg_total_channels :: nat

definition ProtocolRegistry_new :: "ProtocolRegistryLimits \<Rightarrow> (ProtocolRegistryError, ProtocolRegistry) result" where
  "ProtocolRegistry_new limits =
     (if \<not> ProtocolRegistryLimits_is_valid limits then Inl (registry_error PR_InvalidLimits)
      else Inr \<lparr>reg_limits = limits, reg_descriptors = bt_empty, reg_total_channels = 0\<rparr>)"

definition channel_invalid :: "ProtocolRegistryLimits \<Rightarrow> ProtocolChannelDescriptor \<Rightarrow> bool" where
  "channel_invalid limits channel =
     (protocol_channel_id_val (pcd_id channel) = 0
      \<or> (case pcd_debug_name channel of
           None \<Rightarrow> False
         | Some name \<Rightarrow> length name > rl_max_channel_name_bytes limits \<or> \<not> valid_component name)
      \<or> pcd_max_frame_bytes channel = 0
      \<or> pcd_max_in_flight_frames channel = 0
      \<or> pcd_max_stream_bytes channel = Some 0
      \<or> ((pcd_mode channel = Stream) \<noteq> (pcd_max_stream_bytes channel \<noteq> None))
      \<or> (pcd_mode channel \<noteq> Event \<and> pcd_discardable channel))"

fun validate_channels ::
  "ProtocolRegistryLimits \<Rightarrow> ProtocolChannelId btset \<Rightarrow> bytes btset \<Rightarrow> ProtocolChannelDescriptor list
   \<Rightarrow> (ProtocolRegistryError, unit) result" where
  "validate_channels limits channel_ids channel_names [] = Inr ()"
| "validate_channels limits channel_ids channel_names (channel # channels) =
     (if channel_invalid limits channel then Inl (registry_error PR_InvalidChannel)
      else if bt_contains channel_ids (pcd_id channel)
              \<or> (case pcd_debug_name channel of None \<Rightarrow> False | Some name \<Rightarrow> bt_contains channel_names name)
      then Inl (registry_error PR_DuplicateChannel)
      else validate_channels limits (bs_insert (pcd_id channel) channel_ids)
             (case pcd_debug_name channel of None \<Rightarrow> channel_names | Some name \<Rightarrow> bs_insert name channel_names)
             channels)"

definition ProtocolRegistry_validate_descriptor ::
  "sha256 \<Rightarrow> ProtocolRegistry \<Rightarrow> ProtocolDescriptor \<Rightarrow> (ProtocolRegistryError, unit) result" where
  "ProtocolRegistry_validate_descriptor sha self descriptor =
     (if (case pd_debug_identity descriptor of
            None \<Rightarrow> False
          | Some identity \<Rightarrow>
              \<not> ProtocolDebugIdentity_is_canonical identity
              \<or> usize_sat_add (length (dbg_authority identity)) (length (dbg_name identity))
                  > rl_max_protocol_id_bytes (reg_limits self)
              \<or> ProtocolDebugIdentity_stable_id sha identity \<noteq> pd_stable_id descriptor)
      then Inl (registry_error PR_InvalidProtocolId)
      else if \<not> VersionRange_is_valid (pd_versions descriptor)
      then Inl (registry_error PR_InvalidVersionRange)
      else if schema_revision_val (schema_revision (pd_schema descriptor)) = 0
      then Inl (registry_error PR_InvalidSchema)
      else if caps_protocol_id (pd_capabilities descriptor) \<noteq> pd_stable_id descriptor
              \<or> \<not> ProtocolCapabilitySet_is_bounded (pd_capabilities descriptor)
      then Inl (registry_error PR_InvalidCapabilities)
      else if pd_channels descriptor = []
              \<or> length (pd_channels descriptor) > rl_max_channels_per_protocol (reg_limits self)
      then Inl (registry_error PR_RegistryLimitExceeded)
      else validate_channels (reg_limits self) bt_empty bt_empty (pd_channels descriptor))"

definition ProtocolRegistry_register ::
  "sha256 \<Rightarrow> ProtocolRegistry \<Rightarrow> ProtocolDescriptor \<Rightarrow> (ProtocolRegistryError, unit) result \<times> ProtocolRegistry" where
  "ProtocolRegistry_register sha self descriptor =
     (case bt_get (reg_descriptors self) (pd_stable_id descriptor) of
        Some existing \<Rightarrow>
          if pd_debug_identity existing \<noteq> pd_debug_identity descriptor
          then (Inl (registry_error PR_IdentityConflict), self)
          else if pd_schema existing \<noteq> pd_schema descriptor
          then (Inl (registry_error PR_SchemaConflict), self)
          else (Inl (registry_error PR_DuplicateProtocol), self)
      | None \<Rightarrow>
          (case ProtocolRegistry_validate_descriptor sha self descriptor of
             Inl e \<Rightarrow> (Inl e, self)
           | Inr _ \<Rightarrow>
               if bt_len (reg_descriptors self) \<ge> rl_max_protocols (reg_limits self)
                  \<or> usize_sat_add (reg_total_channels self) (length (pd_channels descriptor))
                      > rl_max_total_channels (reg_limits self)
               then (Inl (registry_error PR_RegistryLimitExceeded), self)
               else
                 let self = self\<lparr>reg_total_channels :=
                       usize_sat_add (reg_total_channels self) (length (pd_channels descriptor))\<rparr>;
                     self = self\<lparr>reg_descriptors :=
                       bt_insert (pd_stable_id descriptor) descriptor (reg_descriptors self)\<rparr>
                 in (Inr (), self)))"

subsection \<open>The frozen registry\<close>

record FrozenProtocolRegistry =
  frz_descriptors :: "(ProtocolStableId, ProtocolDescriptor) btree"
  frz_max_remote_offers :: nat

definition ProtocolRegistry_freeze :: "ProtocolRegistry \<Rightarrow> FrozenProtocolRegistry" where
  "ProtocolRegistry_freeze self =
     \<lparr>frz_descriptors = reg_descriptors self, frz_max_remote_offers = rl_max_protocols (reg_limits self)\<rparr>"

definition descriptor_offer :: "ProtocolDescriptor \<Rightarrow> ProtocolOffer" where
  "descriptor_offer descriptor =
     \<lparr>offer_stable_id = pd_stable_id descriptor, offer_debug_identity = pd_debug_identity descriptor,
      offer_versions = pd_versions descriptor, offer_schema = pd_schema descriptor,
      offer_capabilities = pd_capabilities descriptor\<rparr>"

definition FrozenProtocolRegistry_offers :: "FrozenProtocolRegistry \<Rightarrow> ProtocolOffer list" where
  "FrozenProtocolRegistry_offers self = map descriptor_offer (bt_values (frz_descriptors self))"

fun registry_negotiate_loop ::
  "ProtocolDescriptor list \<Rightarrow> ProtocolOffer list \<Rightarrow> (ProtocolRegistryError, ProtocolSelection list) result" where
  "registry_negotiate_loop [] remote = Inr []"
| "registry_negotiate_loop (descriptor # descriptors) remote =
     (case find (\<lambda>offer. offer_stable_id offer = pd_stable_id descriptor) remote of
        None \<Rightarrow> registry_negotiate_loop descriptors remote
      | Some offer \<Rightarrow>
          if pd_debug_identity descriptor \<noteq> None \<and> offer_debug_identity offer \<noteq> None
             \<and> pd_debug_identity descriptor \<noteq> offer_debug_identity offer
          then Inl (registry_error PR_IdentityConflict)
          else if pd_schema descriptor \<noteq> offer_schema offer
          then Inl (registry_error PR_SchemaConflict)
          else
            (case VersionRange_negotiate (pd_versions descriptor) (offer_versions offer) of
               None \<Rightarrow> registry_negotiate_loop descriptors remote
             | Some version \<Rightarrow>
                 result_bind (ok_or (registry_error PR_InvalidCapabilities)
                   (ProtocolCapabilitySet_intersect (pd_capabilities descriptor) (offer_capabilities offer))) (\<lambda>capabilities.
                 result_bind (registry_negotiate_loop descriptors remote) (\<lambda>selections.
                 Inr (\<lparr>sel_stable_id = pd_stable_id descriptor, sel_version = version,
                       sel_schema = pd_schema descriptor, sel_capabilities = capabilities\<rparr> # selections)))))"

definition FrozenProtocolRegistry_negotiate ::
  "FrozenProtocolRegistry \<Rightarrow> ProtocolOffer list \<Rightarrow> (ProtocolRegistryError, ProtocolSelection list) result" where
  "FrozenProtocolRegistry_negotiate self remote =
     (if length remote > frz_max_remote_offers self then Inl (registry_error PR_RegistryLimitExceeded)
      else registry_negotiate_loop (bt_values (frz_descriptors self)) remote)"

subsection \<open>Activation\<close>

record ActiveProtocol =
  ap_stable_id :: ProtocolStableId
  ap_debug_identity :: "ProtocolDebugIdentity option"
  ap_version :: ProtocolVersion
  ap_schema :: SchemaRef
  ap_capabilities :: ProtocolCapabilitySet
  ap_channels :: "(ProtocolChannelId, ProtocolChannelDescriptor) btree"

datatype ActiveProtocolSet = ActiveProtocolSet (active_map: "(ProtocolStableId, ActiveProtocol) btree")

definition collect_channels ::
  "ProtocolChannelDescriptor list \<Rightarrow> (ProtocolChannelId, ProtocolChannelDescriptor) btree" where
  "collect_channels channels = fold (\<lambda>channel m. bt_insert (pcd_id channel) channel m) channels bt_empty"

fun activate_loop ::
  "FrozenProtocolRegistry \<Rightarrow> (ProtocolStableId, ActiveProtocol) btree \<Rightarrow> ProtocolSelection list
   \<Rightarrow> (ProtocolRegistryError, ActiveProtocolSet) result" where
  "activate_loop self active [] = Inr (ActiveProtocolSet active)"
| "activate_loop self active (selection # negotiated) =
     (if bt_contains active (sel_stable_id selection) then Inl (registry_error PR_DuplicateProtocol)
      else
        (case bt_get (frz_descriptors self) (sel_stable_id selection) of
           None \<Rightarrow> Inl (registry_error PR_UnknownProtocol)
         | Some descriptor \<Rightarrow>
             if pd_schema descriptor \<noteq> sel_schema selection then Inl (registry_error PR_SchemaConflict)
             else if caps_protocol_id (sel_capabilities selection) \<noteq> sel_stable_id selection
                     \<or> \<not> ProtocolCapabilitySet_is_bounded (sel_capabilities selection)
                     \<or> \<not> ProtocolCapabilitySet_is_subset_of (sel_capabilities selection) (pd_capabilities descriptor)
             then Inl (registry_error PR_InvalidCapabilities)
             else if VersionRange_negotiate (pd_versions descriptor)
                       (VersionRange_new (sel_version selection) (sel_version selection)) = None
             then Inl (registry_error PR_VersionNotSupported)
             else activate_loop self
                    (bt_insert (sel_stable_id selection)
                       \<lparr>ap_stable_id = sel_stable_id selection, ap_debug_identity = pd_debug_identity descriptor,
                        ap_version = sel_version selection, ap_schema = sel_schema selection,
                        ap_capabilities = sel_capabilities selection,
                        ap_channels = collect_channels (pd_channels descriptor)\<rparr> active)
                    negotiated))"

definition FrozenProtocolRegistry_activate ::
  "FrozenProtocolRegistry \<Rightarrow> ProtocolSelection list \<Rightarrow> (ProtocolRegistryError, ActiveProtocolSet) result" where
  "FrozenProtocolRegistry_activate self negotiated =
     (if length negotiated > bt_len (frz_descriptors self) then Inl (registry_error PR_RegistryLimitExceeded)
      else activate_loop self bt_empty negotiated)"

definition ActiveProtocolSet_contains_stable :: "ActiveProtocolSet \<Rightarrow> ProtocolStableId \<Rightarrow> bool" where
  "ActiveProtocolSet_contains_stable self protocol = bt_contains (active_map self) protocol"

definition ActiveProtocolSet_contains :: "ActiveProtocolSet \<Rightarrow> ProtocolId \<Rightarrow> bool" where
  "ActiveProtocolSet_contains self protocol =
     list_ex (\<lambda>active.
        case ap_debug_identity active of
          None \<Rightarrow> False
        | Some identity \<Rightarrow> dbg_authority identity @ [46] @ dbg_name identity = protocol_id_str protocol)
       (bt_values (active_map self))"

definition ActiveProtocolSet_len :: "ActiveProtocolSet \<Rightarrow> nat" where
  "ActiveProtocolSet_len self = bt_len (active_map self)"

definition ActiveProtocolSet_is_empty :: "ActiveProtocolSet \<Rightarrow> bool" where
  "ActiveProtocolSet_is_empty self = (bt_len (active_map self) = 0)"

subsection \<open>Validated channels\<close>

record ChannelOpenRequest =
  req_protocol_id :: ProtocolStableId
  req_protocol_channel_id :: ProtocolChannelId
  req_channel_id :: ChannelId
  req_capacity :: nat

definition ChannelOpenRequest_from :: "OpenChannel \<Rightarrow> ChannelOpenRequest" where
  "ChannelOpenRequest_from value =
     \<lparr>req_protocol_id = open_protocol_id value, req_protocol_channel_id = open_protocol_channel_id value,
      req_channel_id = open_requested_session_channel_id value,
      req_capacity = (if unat (open_capacity value) \<le> usize_max then unat (open_capacity value) else usize_max)\<rparr>"

record ValidatedChannel =
  vc_config :: ChannelConfig
  vc_protocol_id :: ProtocolStableId
  vc_protocol_channel_id :: ProtocolChannelId
  vc_schema :: SchemaRef
  vc_capabilities :: ProtocolCapabilitySet
  vc_debug_name :: "bytes option"
  vc_max_frame_bytes :: nat
  vc_max_stream_bytes :: "u64 option"
  vc_discardable :: bool

definition ActiveProtocolSet_open_channel ::
  "ActiveProtocolSet \<Rightarrow> ChannelOpenRequest \<Rightarrow> (ProtocolRegistryError, ValidatedChannel) result" where
  "ActiveProtocolSet_open_channel self request =
     (case bt_get (active_map self) (req_protocol_id request) of
        None \<Rightarrow> Inl (registry_error PR_ProtocolNotNegotiated)
      | Some protocol \<Rightarrow>
          (case bt_get (ap_channels protocol) (req_protocol_channel_id request) of
             None \<Rightarrow> Inl (registry_error PR_ChannelNotDefined)
           | Some channel \<Rightarrow>
               if req_capacity request = 0 \<or> req_capacity request > pcd_max_in_flight_frames channel
               then Inl (registry_error PR_ChannelCapacityExceeded)
               else Inr
                 \<lparr>vc_config =
                    \<lparr>cfg_key = ChannelKey (ap_stable_id protocol) (ap_version protocol) (pcd_id channel),
                     cfg_id = req_channel_id request, cfg_generation = ChannelGeneration_INITIAL,
                     cfg_mode = pcd_mode channel, cfg_priority_hint = pcd_priority channel,
                     cfg_capacity = req_capacity request, cfg_max_frame_bytes = pcd_max_frame_bytes channel,
                     cfg_max_stream_bytes = pcd_max_stream_bytes channel, cfg_discardable = pcd_discardable channel\<rparr>,
                  vc_protocol_id = ap_stable_id protocol, vc_protocol_channel_id = pcd_id channel,
                  vc_schema = ap_schema protocol, vc_capabilities = ap_capabilities protocol,
                  vc_debug_name = pcd_debug_name channel, vc_max_frame_bytes = pcd_max_frame_bytes channel,
                  vc_max_stream_bytes = pcd_max_stream_bytes channel, vc_discardable = pcd_discardable channel\<rparr>))"

definition ValidatedChannel_accepted_mapping :: "ValidatedChannel \<Rightarrow> AcceptChannel" where
  "ValidatedChannel_accepted_mapping self =
     \<lparr>accept_protocol_id = vc_protocol_id self, accept_protocol_channel_id = vc_protocol_channel_id self,
      accept_session_channel_id = cfg_id (vc_config self)\<rparr>"

definition ValidatedChannel_validate_payload ::
  "ValidatedChannel \<Rightarrow> nat \<Rightarrow> u64 option \<Rightarrow> (ProtocolRegistryError, unit) result" where
  "ValidatedChannel_validate_payload self frame_bytes stream_bytes =
     (if frame_bytes > vc_max_frame_bytes self then Inl (registry_error PR_FrameLimitExceeded)
      else
        (case stream_bytes of
           None \<Rightarrow> Inr ()
         | Some stream_bytes \<Rightarrow>
             (case vc_max_stream_bytes self of
                None \<Rightarrow> Inl (registry_error PR_StreamLimitExceeded)
              | Some maximum \<Rightarrow>
                  if stream_bytes > maximum then Inl (registry_error PR_StreamLimitExceeded) else Inr ())))"

subsection \<open>Valid descriptors and the registry invariant\<close>

definition descriptor_ok :: "sha256 \<Rightarrow> ProtocolRegistryLimits \<Rightarrow> ProtocolDescriptor \<Rightarrow> bool" where
  "descriptor_ok sha limits d \<longleftrightarrow>
     (\<forall>identity. pd_debug_identity d = Some identity \<longrightarrow>
        ProtocolDebugIdentity_is_canonical identity \<and> ProtocolDebugIdentity_stable_id sha identity = pd_stable_id d)
     \<and> VersionRange_is_valid (pd_versions d) \<and> schema_revision_val (schema_revision (pd_schema d)) \<noteq> 0
     \<and> caps_protocol_id (pd_capabilities d) = pd_stable_id d \<and> ProtocolCapabilitySet_is_bounded (pd_capabilities d)
     \<and> pd_channels d \<noteq> [] \<and> length (pd_channels d) \<le> rl_max_channels_per_protocol limits
     \<and> list_all (\<lambda>c. \<not> channel_invalid limits c) (pd_channels d)
     \<and> distinct (map pcd_id (pd_channels d)) \<and> distinct (List.map_filter pcd_debug_name (pd_channels d))"

lemma validate_channels_ok:
  "validate_channels limits ids names chs = Inr () \<Longrightarrow>
   list_all (\<lambda>c. \<not> channel_invalid limits c) chs \<and> distinct (map pcd_id chs) \<and> distinct (List.map_filter pcd_debug_name chs)
   \<and> (\<forall>c \<in> set chs. \<not> bt_contains ids (pcd_id c))
   \<and> (\<forall>n \<in> set (List.map_filter pcd_debug_name chs). \<not> bt_contains names n)"
proof (induction chs arbitrary: ids names)
  case (Cons c chs)
  from Cons.prems have *: "\<not> channel_invalid limits c" "\<not> bt_contains ids (pcd_id c)"
    "\<forall>n. pcd_debug_name c = Some n \<longrightarrow> \<not> bt_contains names n"
    "validate_channels limits (bs_insert (pcd_id c) ids)
       (case pcd_debug_name c of None \<Rightarrow> names | Some name \<Rightarrow> bs_insert name names) chs = Inr ()"
    by (simp_all split: if_splits option.splits)
  from Cons.IH [OF *(4)] *(1,2,3) show ?case
    by (cases "pcd_debug_name c") (auto simp: map_filter_simps)
qed (simp add: map_filter_simps)

lemma validate_descriptor_ok:
  "ProtocolRegistry_validate_descriptor sha r d = Inr () \<Longrightarrow> descriptor_ok sha (reg_limits r) d"
  by (auto simp: ProtocolRegistry_validate_descriptor_def descriptor_ok_def dest: validate_channels_ok
      split: if_splits option.splits)

definition descriptors_ok :: "sha256 \<Rightarrow> ProtocolRegistryLimits \<Rightarrow> (ProtocolStableId, ProtocolDescriptor) btree \<Rightarrow> bool" where
  "descriptors_ok sha limits m \<longleftrightarrow> (\<forall>i d. bt_get m i = Some d \<longrightarrow> pd_stable_id d = i \<and> descriptor_ok sha limits d)"

definition reg_inv :: "sha256 \<Rightarrow> ProtocolRegistry \<Rightarrow> bool" where
  "reg_inv sha r \<longleftrightarrow>
     ProtocolRegistryLimits_is_valid (reg_limits r) \<and> descriptors_ok sha (reg_limits r) (reg_descriptors r)
     \<and> bt_len (reg_descriptors r) \<le> rl_max_protocols (reg_limits r)
     \<and> reg_total_channels r = min (bt_sum (\<lambda>d. length (pd_channels d)) (reg_descriptors r)) usize_max
     \<and> reg_total_channels r \<le> rl_max_total_channels (reg_limits r)"

inductive registry_reach :: "sha256 \<Rightarrow> ProtocolRegistryLimits \<Rightarrow> ProtocolRegistry \<Rightarrow> bool" for sha limits where
  rr_new: "ProtocolRegistry_new limits = Inr r \<Longrightarrow> registry_reach sha limits r"
| rr_register: "registry_reach sha limits r \<Longrightarrow> ProtocolRegistry_register sha r d = (res, r') \<Longrightarrow>
                registry_reach sha limits r'"

lemma register_cases:
  assumes "ProtocolRegistry_register sha r d = (res, r')"
  obtains (refused) e where "res = Inl e" "r' = r"
  | (registered) "res = Inr ()" "bt_get (reg_descriptors r) (pd_stable_id d) = None"
      "descriptor_ok sha (reg_limits r) d" "bt_len (reg_descriptors r) < rl_max_protocols (reg_limits r)"
      "usize_sat_add (reg_total_channels r) (length (pd_channels d)) \<le> rl_max_total_channels (reg_limits r)"
      "r' = r\<lparr>reg_total_channels := usize_sat_add (reg_total_channels r) (length (pd_channels d)),
              reg_descriptors := bt_insert (pd_stable_id d) d (reg_descriptors r)\<rparr>"
proof (cases "bt_get (reg_descriptors r) (pd_stable_id d)")
  case (Some existing)
  with assms have "\<exists>e. res = Inl e" "r' = r" by (auto simp: ProtocolRegistry_register_def split: if_splits)
  then show ?thesis using refused by blast
next
  case None
  show ?thesis
  proof (cases "ProtocolRegistry_validate_descriptor sha r d")
    case (Inl e)
    with None assms show ?thesis by (intro refused [of e]) (simp_all add: ProtocolRegistry_register_def)
  next
    case (Inr u)
    let ?full = "bt_len (reg_descriptors r) \<ge> rl_max_protocols (reg_limits r)
      \<or> usize_sat_add (reg_total_channels r) (length (pd_channels d)) > rl_max_total_channels (reg_limits r)"
    show ?thesis
    proof (cases ?full)
      case True
      with None Inr assms show ?thesis
        by (intro refused [of "registry_error PR_RegistryLimitExceeded"]) (simp_all add: ProtocolRegistry_register_def)
    next
      case False
      with None Inr assms show ?thesis
        by (intro registered) (simp_all add: ProtocolRegistry_register_def Let_def validate_descriptor_ok)
    qed
  qed
qed

lemma new_inv: "ProtocolRegistry_new limits = Inr r \<Longrightarrow> reg_inv sha r"
  by (auto simp: ProtocolRegistry_new_def reg_inv_def descriptors_ok_def bt.len_empty split: if_splits)

lemma register_inv:
  assumes "reg_inv sha r" and "ProtocolRegistry_register sha r d = (res, r')"
  shows "reg_inv sha r'"
  using assms(2)
proof (cases rule: register_cases)
  case registered
  with assms(1) show ?thesis
    by (auto simp: reg_inv_def descriptors_ok_def bt_sum_insert_fresh usize_sat_add_def bt.len_ins)
qed (use assms(1) in simp)

lemma register_limits: "ProtocolRegistry_register sha r d = (res, r') \<Longrightarrow> reg_limits r' = reg_limits r"
  by (erule register_cases) auto

lemma reach_inv: "registry_reach sha limits r \<Longrightarrow> reg_inv sha r \<and> reg_limits r = limits"
  by (induction rule: registry_reach.induct)
    (auto simp: register_limits new_inv intro: register_inv, auto simp: ProtocolRegistry_new_def split: if_splits)

subsection \<open>Offers of a frozen registry\<close>

lemma descriptors_values:
  assumes "descriptors_ok sha limits m"
  shows "d \<in> set (bt_values m) \<longleftrightarrow> bt_get m (pd_stable_id d) = Some d"
  using assms by (auto simp: bt_values_set descriptors_ok_def)

lemma descriptors_distinct:
  assumes "descriptors_ok sha limits m"
  shows "distinct (map pd_stable_id (bt_values m))"
proof -
  have "map pd_stable_id (bt_values m) = map fst (bt_entries m)"
    using assms by (auto simp: bt_values_def descriptors_ok_def bt_entries_get)
  then show ?thesis using bt_entries_distinct [of m] by simp
qed

lemma descriptor_offer_sel [simp]:
  "offer_stable_id (descriptor_offer d) = pd_stable_id d"
  "offer_debug_identity (descriptor_offer d) = pd_debug_identity d"
  "offer_versions (descriptor_offer d) = pd_versions d"
  "offer_schema (descriptor_offer d) = pd_schema d"
  "offer_capabilities (descriptor_offer d) = pd_capabilities d"
  by (simp_all add: descriptor_offer_def)

lemma offers_consistent:
  "descriptor_ok sha limits d \<Longrightarrow> \<not> offer_inconsistent sha (descriptor_offer d)"
  by (auto simp: offer_inconsistent_def descriptor_ok_def split: option.splits)

lemma registry_negotiate_loop_eq:
  assumes "distinct (map pd_stable_id ds)" and "\<forall>d \<in> set ds. \<not> bt_contains seen (pd_stable_id d)"
  shows "negotiate_loop seen (map descriptor_offer ds) remote = result_map_err (\<lambda>_. ()) (registry_negotiate_loop ds remote)"
  using assms
proof (induction ds arbitrary: seen)
  case (Cons d ds)
  have ih: "negotiate_loop (bs_insert (pd_stable_id d) seen) (map descriptor_offer ds) remote
      = result_map_err (\<lambda>_. ()) (registry_negotiate_loop ds remote)"
    by (rule Cons.IH) (use Cons.prems in \<open>auto simp: image_iff\<close>)
  have fresh: "\<not> bt_contains seen (pd_stable_id d)" using Cons.prems by simp
  show ?case
  proof (cases "find (\<lambda>offer. offer_stable_id offer = pd_stable_id d) remote")
    case None
    with ih fresh show ?thesis by (simp add: Let_def)
  next
    case (Some r)
    show ?thesis
    proof (cases "VersionRange_negotiate (pd_versions d) (offer_versions r)")
      case None
      with Some ih fresh show ?thesis by (auto simp: Let_def debug_identities_conflict_def)
    next
      case v: (Some v)
      show ?thesis
        using Some v ih fresh
        by (cases "ProtocolCapabilitySet_intersect (pd_capabilities d) (offer_capabilities r)";
            cases "registry_negotiate_loop ds remote")
          (auto simp: Let_def debug_identities_conflict_def)
    qed
  qed
qed simp

lemma frozen_negotiate_eq:
  assumes "descriptors_ok sha limits (frz_descriptors f)" and "length remote \<le> frz_max_remote_offers f"
  shows "negotiate_protocols (FrozenProtocolRegistry_offers f) remote
       = result_map_err (\<lambda>_. ()) (FrozenProtocolRegistry_negotiate f remote)"
  using registry_negotiate_loop_eq [OF descriptors_distinct [OF assms(1)], of bt_empty remote] assms(2)
  by (simp add: negotiate_protocols_def FrozenProtocolRegistry_offers_def FrozenProtocolRegistry_negotiate_def)

subsection \<open>Activation\<close>

definition active_of :: "ProtocolDescriptor \<Rightarrow> ProtocolSelection \<Rightarrow> ActiveProtocol" where
  "active_of d sel =
     \<lparr>ap_stable_id = sel_stable_id sel, ap_debug_identity = pd_debug_identity d, ap_version = sel_version sel,
      ap_schema = sel_schema sel, ap_capabilities = sel_capabilities sel,
      ap_channels = collect_channels (pd_channels d)\<rparr>"

definition selection_ok :: "FrozenProtocolRegistry \<Rightarrow> ProtocolSelection \<Rightarrow> bool" where
  "selection_ok f sel \<longleftrightarrow>
     (\<exists>d. bt_get (frz_descriptors f) (sel_stable_id sel) = Some d \<and> pd_schema d = sel_schema sel
        \<and> caps_protocol_id (sel_capabilities sel) = sel_stable_id sel
        \<and> ProtocolCapabilitySet_is_bounded (sel_capabilities sel)
        \<and> ProtocolCapabilitySet_is_subset_of (sel_capabilities sel) (pd_capabilities d)
        \<and> range_contains (pd_versions d) (sel_version sel))"

definition activated :: "FrozenProtocolRegistry \<Rightarrow> ProtocolSelection list \<Rightarrow> ProtocolStableId \<Rightarrow> ActiveProtocol option" where
  "activated f sels i =
     (case find (\<lambda>sel. sel_stable_id sel = i) sels of
        None \<Rightarrow> None
      | Some sel \<Rightarrow> map_option (\<lambda>d. active_of d sel) (bt_get (frz_descriptors f) i))"

lemma activate_loop_iff:
  "is_ok (activate_loop f act sels) \<longleftrightarrow>
   list_all (selection_ok f) sels \<and> distinct (map sel_stable_id sels)
   \<and> (\<forall>sel \<in> set sels. \<not> bt_contains act (sel_stable_id sel))"
proof (induction sels arbitrary: act)
  case (Cons sel sels)
  show ?case
    by (cases "bt_get (frz_descriptors f) (sel_stable_id sel)")
      (auto simp: Cons.IH selection_ok_def negotiate_single image_iff)
qed simp

lemma activate_loop_get:
  "activate_loop f act sels = Inr a \<Longrightarrow> \<forall>sel \<in> set sels. \<not> bt_contains act (sel_stable_id sel) \<Longrightarrow>
   bt_get (active_map a) i = (case activated f sels i of None \<Rightarrow> bt_get act i | Some p \<Rightarrow> Some p)"
proof (induction sels arbitrary: act)
  case (Cons sel sels)
  from Cons.prems obtain d where d: "bt_get (frz_descriptors f) (sel_stable_id sel) = Some d"
    by (auto split: if_splits option.splits)
  let ?act = "bt_insert (sel_stable_id sel) (active_of d sel) act"
  have step: "activate_loop f ?act sels = Inr a"
    using Cons.prems d by (auto simp: active_of_def split: if_splits)
  then have dist: "\<forall>s \<in> set sels. \<not> bt_contains ?act (sel_stable_id s)"
    using activate_loop_iff [of f ?act sels] by simp
  have "find (\<lambda>s. sel_stable_id s = sel_stable_id sel) sels = None"
    using dist by (auto simp: find_None_iff)
  with Cons.IH [OF step dist] d show ?case by (cases "sel_stable_id sel = i") (auto simp: activated_def split: option.splits)
qed (auto simp: activated_def)

lemma collect_channels_get:
  assumes "bt_get (collect_channels chs) i = Some c"
  shows "c \<in> set chs \<and> pcd_id c = i"
proof -
  have "bt_get (fold (\<lambda>c m. bt_insert (pcd_id c) c m) chs m) i = Some c \<Longrightarrow> c \<in> set chs \<and> pcd_id c = i \<or> bt_get m i = Some c" for m
    by (induction chs arbitrary: m) (fastforce split: if_splits)+
  from this [of bt_empty] assms show ?thesis by (simp add: collect_channels_def)
qed

lemma offered_selection_ok:
  assumes "descriptors_ok sha limits (frz_descriptors f)" and "offered (FrozenProtocolRegistry_offers f) sel"
  shows "selection_ok f sel"
proof -
  from assms(2) obtain d where d: "d \<in> set (bt_values (frz_descriptors f))" "pd_stable_id d = sel_stable_id sel"
    "pd_schema d = sel_schema sel" "ProtocolCapabilitySet_is_subset_of (sel_capabilities sel) (pd_capabilities d)"
    "range_contains (pd_versions d) (sel_version sel)"
    "ProtocolCapabilitySet_is_bounded (pd_capabilities d) \<longrightarrow> ProtocolCapabilitySet_is_bounded (sel_capabilities sel)"
    by (auto simp: offered_def FrozenProtocolRegistry_offers_def)
  then have get: "bt_get (frz_descriptors f) (sel_stable_id sel) = Some d"
    using descriptors_values [OF assms(1), of d] by simp
  with assms(1) have "descriptor_ok sha limits d" by (simp add: descriptors_ok_def)
  with d get show ?thesis
    by (auto simp: selection_ok_def descriptor_ok_def ProtocolCapabilitySet_is_subset_of_def)
qed

lemma activate_offered:
  assumes ok: "descriptors_ok sha limits (frz_descriptors f)" and sels: "distinct (map sel_stable_id sels)"
    and off: "list_all (offered (FrozenProtocolRegistry_offers f)) sels"
  obtains a where "FrozenProtocolRegistry_activate f sels = Inr a"
    and "\<And>i. bt_get (active_map a) i = activated f sels i"
proof -
  have sel: "list_all (selection_ok f) sels"
    using off offered_selection_ok [OF ok] by (auto simp: list_all_iff)
  then have "sel_stable_id ` set sels \<subseteq> {k. bt_get (frz_descriptors f) k \<noteq> None}"
    by (auto simp: list_all_iff selection_ok_def)
  from card_mono [OF bt_finite_keys this] have "length sels \<le> bt_len (frz_descriptors f)"
    using distinct_card [OF sels] by (simp add: bt_len_card)
  moreover obtain a where a: "activate_loop f bt_empty sels = Inr a"
    using activate_loop_iff [of f bt_empty sels] sel sels by (auto simp: is_ok_iff)
  ultimately show ?thesis
    using activate_loop_get [OF a] by (intro that [of a]) (auto simp: FrozenProtocolRegistry_activate_def split: option.splits)
qed

lemma activate_get:
  assumes "FrozenProtocolRegistry_activate f sels = Inr a"
  shows "bt_get (active_map a) i = activated f sels i" and "list_all (selection_ok f) sels"
    and "distinct (map sel_stable_id sels)"
proof -
  have a: "activate_loop f bt_empty sels = Inr a"
    using assms by (simp add: FrozenProtocolRegistry_activate_def split: if_splits)
  show "bt_get (active_map a) i = activated f sels i"
    using activate_loop_get [OF a, of i] by (simp split: option.splits)
  show "list_all (selection_ok f) sels" "distinct (map sel_stable_id sels)"
    using activate_loop_iff [of f bt_empty sels] a by simp_all
qed

lemma activated_cases:
  assumes "activated f sels i = Some p"
  obtains sel d where "sel \<in> set sels" "sel_stable_id sel = i" "bt_get (frz_descriptors f) i = Some d" "p = active_of d sel"
  using assms by (auto simp: activated_def find_Some_iff split: option.splits) (metis nth_mem)

lemma open_channel_cases:
  assumes "ActiveProtocolSet_open_channel a req = Inr vc"
  obtains p c where "bt_get (active_map a) (req_protocol_id req) = Some p"
    "bt_get (ap_channels p) (req_protocol_channel_id req) = Some c"
    "0 < req_capacity req" "req_capacity req \<le> pcd_max_in_flight_frames c"
    "vc_config vc = \<lparr>cfg_key = ChannelKey (ap_stable_id p) (ap_version p) (pcd_id c), cfg_id = req_channel_id req,
       cfg_generation = ChannelGeneration_INITIAL, cfg_mode = pcd_mode c, cfg_priority_hint = pcd_priority c,
       cfg_capacity = req_capacity req, cfg_max_frame_bytes = pcd_max_frame_bytes c,
       cfg_max_stream_bytes = pcd_max_stream_bytes c, cfg_discardable = pcd_discardable c\<rparr>"
    "vc_protocol_id vc = ap_stable_id p" "vc_protocol_channel_id vc = pcd_id c"
    "vc_max_frame_bytes vc = pcd_max_frame_bytes c" "vc_max_stream_bytes vc = pcd_max_stream_bytes c"
    "vc_discardable vc = pcd_discardable c"
  using assms by (auto simp: ActiveProtocolSet_open_channel_def not_less split: option.splits if_splits)

lemma opened_channel:
  assumes ok: "descriptors_ok sha limits (frz_descriptors f)" and act: "FrozenProtocolRegistry_activate f sels = Inr a"
    and op: "ActiveProtocolSet_open_channel a req = Inr vc"
  obtains sel d c where "sel \<in> set sels" "sel_stable_id sel = req_protocol_id req"
    "bt_get (frz_descriptors f) (req_protocol_id req) = Some d" "c \<in> set (pd_channels d)"
    "pcd_id c = req_protocol_channel_id req" "\<not> channel_invalid limits c"
    "0 < req_capacity req" "req_capacity req \<le> pcd_max_in_flight_frames c"
    "vc_config vc = \<lparr>cfg_key = ChannelKey (sel_stable_id sel) (sel_version sel) (pcd_id c), cfg_id = req_channel_id req,
       cfg_generation = ChannelGeneration_INITIAL, cfg_mode = pcd_mode c, cfg_priority_hint = pcd_priority c,
       cfg_capacity = req_capacity req, cfg_max_frame_bytes = pcd_max_frame_bytes c,
       cfg_max_stream_bytes = pcd_max_stream_bytes c, cfg_discardable = pcd_discardable c\<rparr>"
    "vc_protocol_id vc = sel_stable_id sel" "vc_protocol_channel_id vc = pcd_id c"
    "vc_max_frame_bytes vc = pcd_max_frame_bytes c" "vc_max_stream_bytes vc = pcd_max_stream_bytes c"
    "vc_discardable vc = pcd_discardable c"
  using op
proof (cases rule: open_channel_cases)
  case (1 p c)
  from 1(1) obtain sel d where sd: "sel \<in> set sels" "sel_stable_id sel = req_protocol_id req"
    "bt_get (frz_descriptors f) (req_protocol_id req) = Some d" "p = active_of d sel"
    unfolding activate_get(1) [OF act] by (rule activated_cases)
  have c: "c \<in> set (pd_channels d)" "pcd_id c = req_protocol_channel_id req"
    using collect_channels_get [of "pd_channels d"] 1(2) by (simp_all add: sd(4) active_of_def)
  have "\<not> channel_invalid limits c"
    using ok sd(3) c(1) by (auto simp: descriptors_ok_def descriptor_ok_def list_all_iff)
  then show ?thesis
    using 1 sd(4) by (intro that [OF sd(1,2,3) c]) (simp_all add: active_of_def)
qed

lemma reach_frozen:
  assumes "registry_reach sha limits r"
  shows "descriptors_ok sha limits (frz_descriptors (ProtocolRegistry_freeze r))"
    and "frz_max_remote_offers (ProtocolRegistry_freeze r) = rl_max_protocols limits"
  using reach_inv [OF assms] by (auto simp: reg_inv_def ProtocolRegistry_freeze_def)

lemma offer_ids: "map offer_stable_id (FrozenProtocolRegistry_offers f) = map pd_stable_id (bt_values (frz_descriptors f))"
  by (simp add: FrozenProtocolRegistry_offers_def)

lemma offers_length: "length (FrozenProtocolRegistry_offers f) = bt_len (frz_descriptors f)"
  by (simp add: FrozenProtocolRegistry_offers_def bt_values_def bt_len_def)

subsection \<open>Properties of the registry\<close>

text \<open>A registry only ever holds valid protocols. After any sequence of registrations every
  descriptor is valid, the descriptors and their channels are within the limits, and the
  offers of the frozen registry have distinct identifiers and are consistent, so a handshake
  that advertises them is never refused as inconsistent.\<close>

theorem registry_sound:
  assumes "registry_reach sha limits r"
  shows "list_all (descriptor_ok sha limits) (bt_values (reg_descriptors r))
    \<and> (rl_max_total_channels limits < usize_max \<longrightarrow>
         bt_sum (\<lambda>d. length (pd_channels d)) (reg_descriptors r) \<le> rl_max_total_channels limits)
    \<and> length (FrozenProtocolRegistry_offers (ProtocolRegistry_freeze r)) \<le> rl_max_protocols limits
    \<and> distinct (map offer_stable_id (FrozenProtocolRegistry_offers (ProtocolRegistry_freeze r)))
    \<and> list_all (\<lambda>offer. \<not> offer_inconsistent sha offer) (FrozenProtocolRegistry_offers (ProtocolRegistry_freeze r))"
proof -
  let ?f = "ProtocolRegistry_freeze r"
  have inv: "reg_inv sha r" and lim: "reg_limits r = limits" using reach_inv [OF assms] by simp_all
  note ok = reach_frozen(1) [OF assms]
  have vals: "list_all (descriptor_ok sha limits) (bt_values (frz_descriptors ?f))"
    using ok by (auto simp: list_all_iff bt_values_set descriptors_ok_def)
  then have "list_all (\<lambda>offer. \<not> offer_inconsistent sha offer) (FrozenProtocolRegistry_offers ?f)"
    using offers_consistent by (auto simp: FrozenProtocolRegistry_offers_def list_all_iff)
  moreover have "frz_descriptors ?f = reg_descriptors r" by (simp add: ProtocolRegistry_freeze_def)
  ultimately show ?thesis
    using vals inv lim descriptors_distinct [OF ok] by (auto simp: offer_ids offers_length reg_inv_def)
qed

text \<open>C11: the registry's negotiation is the handshake's negotiation. On any remote offers
  within the limit, negotiating with a registry gives the same selections, in the same order,
  as the handshake's negotiation on the registry's offers, and fails exactly when that fails.\<close>

theorem registry_negotiation_equiv:
  assumes "registry_reach sha limits r" and "length remote \<le> rl_max_protocols limits"
  shows "result_map_err (\<lambda>_. ()) (FrozenProtocolRegistry_negotiate (ProtocolRegistry_freeze r) remote)
    = negotiate_protocols (FrozenProtocolRegistry_offers (ProtocolRegistry_freeze r)) remote"
  using frozen_negotiate_eq [OF reach_frozen(1) [OF assms(1)]] assms(2)
  by (simp add: reach_frozen(2) [OF assms(1)])

text \<open>What a handshake established can be activated. Whatever the peer did, when a session
  is established whose catalog is the offers of a registry, the registry activates the
  negotiated protocols, exactly those, each at the negotiated version.\<close>

theorem established_session_activates:
  assumes reach: "registry_reach sha limits r"
    and tr: "hs_trace sha config role m log" "(ev, Inr outs) \<in> set log" "Established s \<in> set outs"
    and cat: "catalog (hcfg_policy config) (neg_auth_path s) = FrozenProtocolRegistry_offers (ProtocolRegistry_freeze r)"
  shows "\<exists>active. FrozenProtocolRegistry_activate (ProtocolRegistry_freeze r) (neg_protocols s) = Inr active
    \<and> (\<forall>i. ActiveProtocolSet_contains_stable active i \<longleftrightarrow> i \<in> sel_stable_id ` set (neg_protocols s))
    \<and> (\<forall>i p. bt_get (active_map active) i = Some p \<longrightarrow>
          (\<exists>sel \<in> set (neg_protocols s). sel_stable_id sel = i \<and> ap_version p = sel_version sel
             \<and> ap_schema p = sel_schema sel \<and> ap_capabilities p = sel_capabilities sel))"
proof -
  let ?f = "ProtocolRegistry_freeze r"
  note ok = reach_frozen(1) [OF reach]
  obtain a where a: "FrozenProtocolRegistry_activate ?f (neg_protocols s) = Inr a"
    using activate_offered [OF ok] trace_established_selection [OF tr] cat by metis
  note get = activate_get [OF a]
  have "ActiveProtocolSet_contains_stable a i \<longleftrightarrow> i \<in> sel_stable_id ` set (neg_protocols s)" for i
  proof -
    have "activated ?f (neg_protocols s) i \<noteq> None \<longleftrightarrow> i \<in> sel_stable_id ` set (neg_protocols s)"
      using get(2) by (auto simp: activated_def find_None_iff find_Some_iff selection_ok_def list_all_iff image_iff
          split: option.splits)
    then show ?thesis using get(1) by (simp add: ActiveProtocolSet_contains_stable_def bt_contains_def)
  qed
  moreover have "\<exists>sel \<in> set (neg_protocols s). sel_stable_id sel = i \<and> ap_version p = sel_version sel
      \<and> ap_schema p = sel_schema sel \<and> ap_capabilities p = sel_capabilities sel"
    if "bt_get (active_map a) i = Some p" for i p
    using that unfolding get(1) by (rule activated_cases) (auto simp: active_of_def)
  ultimately show ?thesis using a by blast
qed

text \<open>A channel the registry validated is a channel the multiplexer accepts. When the
  active protocols open a channel, the multiplexer of the session opens it too, provided its
  session channel is not the control channel, was never used and the channel limit is not
  reached; the channel then has the limits of its descriptor and at most its capacity.\<close>

theorem validated_channel_opens:
  assumes reach: "registry_reach sha limits r"
    and act: "FrozenProtocolRegistry_activate (ProtocolRegistry_freeze r) sels = Inr active"
    and op: "ActiveProtocolSet_open_channel active req = Inr vc"
    and allowed: "mux_allowed_protocols mux = Some (bs_of_list (map (\<lambda>sel. (sel_stable_id sel, sel_version sel)) sels))"
    and fresh: "req_channel_id req \<noteq> CONTROL_CHANNEL_ID" "\<not> bt_contains (mux_channels mux) (req_channel_id req)"
      "\<not> bt_contains (mux_retired_channels mux) (req_channel_id req)"
    and room: "bt_len (mux_channels mux) + bt_len (mux_retired_channels mux) < lim_max_channels (mux_limits mux)"
  shows "fst (Multiplexer_open_channel mux (vc_config vc)) = Inr ()
    \<and> ValidatedChannel_accepted_mapping vc = \<lparr>accept_protocol_id = req_protocol_id req,
         accept_protocol_channel_id = req_protocol_channel_id req, accept_session_channel_id = req_channel_id req\<rparr>
    \<and> (\<exists>d c. bt_get (reg_descriptors r) (req_protocol_id req) = Some d \<and> c \<in> set (pd_channels d)
         \<and> pcd_id c = req_protocol_channel_id req \<and> cfg_capacity (vc_config vc) \<le> pcd_max_in_flight_frames c
         \<and> (\<forall>n k. ValidatedChannel_validate_payload vc n k = Inr () \<longrightarrow> n \<le> cfg_max_frame_bytes (vc_config vc)))"
proof -
  note ok = reach_frozen(1) [OF reach]
  have sat: "\<not> lim_max_channels (mux_limits mux) \<le> usize_sat_add (bt_len (mux_channels mux)) (bt_len (mux_retired_channels mux))"
    using room by (simp add: usize_sat_add_def)
  show ?thesis
  proof (rule opened_channel [OF ok act op])
    fix sel d c
    assume *: "sel \<in> set sels" "sel_stable_id sel = req_protocol_id req"
      "bt_get (frz_descriptors (ProtocolRegistry_freeze r)) (req_protocol_id req) = Some d" "c \<in> set (pd_channels d)"
      "pcd_id c = req_protocol_channel_id req" "\<not> channel_invalid limits c"
      "0 < req_capacity req" "req_capacity req \<le> pcd_max_in_flight_frames c"
      "vc_config vc = \<lparr>cfg_key = ChannelKey (sel_stable_id sel) (sel_version sel) (pcd_id c), cfg_id = req_channel_id req,
         cfg_generation = ChannelGeneration_INITIAL, cfg_mode = pcd_mode c, cfg_priority_hint = pcd_priority c,
         cfg_capacity = req_capacity req, cfg_max_frame_bytes = pcd_max_frame_bytes c,
         cfg_max_stream_bytes = pcd_max_stream_bytes c, cfg_discardable = pcd_discardable c\<rparr>"
      "vc_protocol_id vc = sel_stable_id sel" "vc_protocol_channel_id vc = pcd_id c"
      "vc_max_frame_bytes vc = pcd_max_frame_bytes c" "vc_max_stream_bytes vc = pcd_max_stream_bytes c"
      "vc_discardable vc = pcd_discardable c"
    have mode: "pcd_max_frame_bytes c \<noteq> 0" "pcd_discardable c \<Longrightarrow> pcd_mode c = Event"
      "(pcd_mode c = Stream) = (pcd_max_stream_bytes c \<noteq> None)"
      using *(6) by (auto simp: channel_invalid_def)
    have "fst (Multiplexer_open_channel mux (vc_config vc)) = Inr ()"
      using *(1,7) mode fresh sat allowed
      by (auto simp: Multiplexer_open_channel_def *(9) ChannelGeneration_INITIAL_def Let_def)
    with * show ?thesis
      by (auto simp: ValidatedChannel_accepted_mapping_def ProtocolRegistry_freeze_def ValidatedChannel_validate_payload_def
          split: if_splits)
  qed
qed

subsection \<open>A sample registry\<close>

definition sample_descriptor :: ProtocolDescriptor where
  "sample_descriptor =
     \<lparr>pd_stable_id = ProtocolStableId 3, pd_debug_identity = None,
      pd_versions = VersionRange_new (ProtocolVersion 1 1) (ProtocolVersion 1 3), pd_schema = sample_schema,
      pd_capabilities = ProtocolCapabilitySet_empty (ProtocolStableId 3),
      pd_channels = [\<lparr>pcd_id = ProtocolChannelId 1, pcd_debug_name = None, pcd_mode = Event, pcd_priority = 9,
        pcd_max_frame_bytes = 16, pcd_max_stream_bytes = None, pcd_max_in_flight_frames = 4, pcd_discardable = True\<rparr>]\<rparr>"

definition sample_registry :: ProtocolRegistry where
  "sample_registry =
     \<lparr>reg_limits = ProtocolRegistryLimits_default,
      reg_descriptors = bt_insert (ProtocolStableId 3) sample_descriptor bt_empty, reg_total_channels = 1\<rparr>"

definition sample_request :: ChannelOpenRequest where
  "sample_request = \<lparr>req_protocol_id = ProtocolStableId 3, req_protocol_channel_id = ProtocolChannelId 1,
     req_channel_id = ChannelId 5, req_capacity = 2\<rparr>"

lemma sample_registry_reach: "registry_reach sha ProtocolRegistryLimits_default sample_registry"
proof -
  let ?r0 = "\<lparr>reg_limits = ProtocolRegistryLimits_default, reg_descriptors = bt_empty, reg_total_channels = 0\<rparr>"
  have "ProtocolRegistry_new ProtocolRegistryLimits_default = Inr ?r0"
    by (simp add: ProtocolRegistry_new_def ProtocolRegistryLimits_is_valid_def ProtocolRegistryLimits_default_def
        MAX_PROTOCOL_ID_BYTES_def MAX_CHANNEL_NAME_BYTES_def)
  moreover have "ProtocolRegistry_register sha ?r0 sample_descriptor = (Inr (), sample_registry)"
    by (simp add: ProtocolRegistry_register_def ProtocolRegistry_validate_descriptor_def sample_descriptor_def
        sample_registry_def ProtocolRegistryLimits_default_def channel_invalid_def VersionRange_is_valid_def
        VersionRange_new_def sample_schema_def ProtocolCapabilitySet_empty_def ProtocolCapabilitySet_is_bounded_def
        usize_sat_add_def bt.len_empty Let_def usize_max_def)
  ultimately show ?thesis by (meson rr_new rr_register)
qed

lemma sample_registry_offers:
  "FrozenProtocolRegistry_offers (ProtocolRegistry_freeze sample_registry) = [sample_offer 1 3]"
proof -
  have "bt_entries (bt_insert (ProtocolStableId 3) sample_descriptor bt_empty) = [(ProtocolStableId 3, sample_descriptor)]"
    by transfer simp
  then show ?thesis
    by (simp add: FrozenProtocolRegistry_offers_def ProtocolRegistry_freeze_def sample_registry_def bt_values_def
        descriptor_offer_def sample_descriptor_def sample_offer_def)
qed

lemma sample_activation:
  "\<exists>a. FrozenProtocolRegistry_activate (ProtocolRegistry_freeze sample_registry) [sample_selection] = Inr a
     \<and> is_ok (ActiveProtocolSet_open_channel a sample_request)"
  by (simp add: FrozenProtocolRegistry_activate_def ProtocolRegistry_freeze_def sample_registry_def sample_selection_def
      sample_descriptor_def bt.len_ins bt.len_empty ProtocolCapabilitySet_empty_def ProtocolCapabilitySet_is_bounded_def
      ProtocolCapabilitySet_is_subset_of_def VersionRange_negotiate_def VersionRange_is_valid_def VersionRange_new_def
      sample_schema_def ActiveProtocolSet_open_channel_def sample_request_def collect_channels_def Let_def)

text \<open>A registry with one registered protocol.\<close>

theorem registry_sound_witness:
  "list_all (descriptor_ok (\<lambda>_. 0) ProtocolRegistryLimits_default) (bt_values (reg_descriptors sample_registry))
   \<and> \<not> offer_inconsistent (\<lambda>_. 0) (sample_offer 1 3)"
  using registry_sound [OF sample_registry_reach [of "\<lambda>_. 0"]] by (simp add: sample_registry_offers)

text \<open>C11 witness: that registry against a remote offer of an overlapping version range.\<close>

theorem registry_negotiation_equiv_witness:
  "FrozenProtocolRegistry_negotiate (ProtocolRegistry_freeze sample_registry) [sample_offer 0 2] = Inr [sample_selection]"
proof -
  have "length [sample_offer 0 2] \<le> rl_max_protocols ProtocolRegistryLimits_default"
    by (simp add: ProtocolRegistryLimits_default_def)
  from registry_negotiation_equiv [OF sample_registry_reach [of "\<lambda>_. 0"] this] show ?thesis
    by (simp add: sample_registry_offers sample_negotiation)
qed

text \<open>The responder of the sample handshake, whose catalog is that registry.\<close>

theorem established_session_activates_witness:
  "\<exists>active. FrozenProtocolRegistry_activate (ProtocolRegistry_freeze sample_registry) [sample_selection] = Inr active
     \<and> ActiveProtocolSet_contains_stable active (ProtocolStableId 3)"
proof -
  let ?s = "sample_session (sample_identity 2) (sample_identity 1)"
  obtain m log where run: "hs_run (\<lambda>_. 0) sample_responder_events (HandshakeMachine_responder (sample_hs_config 2 1 1 3)) =
     (log @ [(HsReceive (Fr_Confirm (SessionId 7)), Inr [Send (Fr_Confirmed (SessionId 7)), Established ?s])], m)"
    using sample_responder_run [of "\<lambda>_. 0"] by blast
  have cat: "catalog (hcfg_policy (sample_hs_config 2 1 1 3)) (neg_auth_path ?s)
      = FrozenProtocolRegistry_offers (ProtocolRegistry_freeze sample_registry)"
    by (simp add: sample_registry_offers sample_hs_config_def sample_session_def)
  have "neg_protocols ?s = [sample_selection]" "sel_stable_id sample_selection = ProtocolStableId 3"
    by (simp_all add: sample_session_def sample_selection_def)
  with established_session_activates [OF sample_registry_reach hs_run_trace [OF tr_responder run] _ _ cat,
      of "HsReceive (Fr_Confirm (SessionId 7))" "[Send (Fr_Confirmed (SessionId 7)), Established ?s]"]
  show ?thesis by simp blast
qed

text \<open>The channel of that protocol on an empty multiplexer.\<close>

theorem validated_channel_opens_witness:
  "\<exists>active vc mux. FrozenProtocolRegistry_activate (ProtocolRegistry_freeze sample_registry) [sample_selection] = Inr active
     \<and> ActiveProtocolSet_open_channel active sample_request = Inr vc
     \<and> Multiplexer_restricted (SessionId 7) MultiplexerLimits_default [(ProtocolStableId 3, ProtocolVersion 1 2)] = Inr mux
     \<and> fst (Multiplexer_open_channel mux (vc_config vc)) = Inr ()"
proof -
  obtain a vc where a: "FrozenProtocolRegistry_activate (ProtocolRegistry_freeze sample_registry) [sample_selection] = Inr a"
    and vc: "ActiveProtocolSet_open_channel a sample_request = Inr vc"
    using sample_activation by (auto simp: is_ok_iff)
  obtain mux where mux: "Multiplexer_restricted (SessionId 7) MultiplexerLimits_default [(ProtocolStableId 3, ProtocolVersion 1 2)] = Inr mux"
    and "mux_channels mux = bt_empty" "mux_retired_channels mux = bt_empty" "mux_limits mux = MultiplexerLimits_default"
      "mux_allowed_protocols mux = Some (bs_of_list [(ProtocolStableId 3, ProtocolVersion 1 2)])"
    by (simp add: Multiplexer_restricted_def Multiplexer_new_def MultiplexerLimits_default_def)
  then have "fst (Multiplexer_open_channel mux (vc_config vc)) = Inr ()"
    using validated_channel_opens [OF sample_registry_reach a vc, of mux]
    by (simp add: sample_selection_def sample_request_def CONTROL_CHANNEL_ID_def MultiplexerLimits_default_def bt.len_empty)
  with a vc mux show ?thesis by blast
qed

end
