(* ===== verification/Link_Reconnect.thy ===== *)
theory Link_Reconnect
  imports Link_Prelude
begin

text \<open>
  Reconnection, \<^verbatim>\<open>reconnect.rs\<close>: the policies and the controller that schedules
  the next attempt after a failure. A cancellation token is a flag shared between threads;
  the controller's field is the flag as the controller reads it and \<open>CancellationToken_cancel\<close>
  an action of the environment. Delays are 64-bit words with the source's saturating
  arithmetic. The lemmas bound the delays, number the attempts and bound their times.
\<close>

subsection \<open>Policies\<close>

datatype CancellationToken = CancellationToken (token_flag: bool)

definition CancellationToken_cancel :: "CancellationToken \<Rightarrow> CancellationToken" where
  "CancellationToken_cancel self = CancellationToken True"

definition CancellationToken_is_cancelled :: "CancellationToken \<Rightarrow> bool" where
  "CancellationToken_is_cancelled self = token_flag self"

datatype ReconnectFailure =
    Rf_TemporarilyUnreachable | Rf_NetworkChanged | Rf_SleepWake | Rf_TransportClosed | Rf_AuthenticationFailed
  | Rf_IdentityExpired | Rf_PairingRevoked | Rf_ProtocolIncompatible | Rf_ResourceExhausted | Rf_Cancelled

definition ReconnectFailure_is_permanent :: "ReconnectFailure \<Rightarrow> bool" where
  "ReconnectFailure_is_permanent self =
     (case self of
        Rf_AuthenticationFailed \<Rightarrow> True | Rf_IdentityExpired \<Rightarrow> True | Rf_PairingRevoked \<Rightarrow> True
      | Rf_ProtocolIncompatible \<Rightarrow> True | Rf_Cancelled \<Rightarrow> True | _ \<Rightarrow> False)"

record RetryLimit =
  rty_max_attempts :: u32
  rty_max_elapsed_ms :: u64

definition RetryLimit_is_valid :: "RetryLimit \<Rightarrow> bool" where
  "RetryLimit_is_valid self = (rty_max_attempts self > 0 \<and> rty_max_elapsed_ms self > 0)"

record ExponentialBackoff =
  bo_initial_delay_ms :: u64
  bo_maximum_delay_ms :: u64
  bo_multiplier_per_thousand :: u32
  bo_jitter_per_thousand :: u16
  bo_limit :: RetryLimit

definition ExponentialBackoff_is_valid :: "ExponentialBackoff \<Rightarrow> bool" where
  "ExponentialBackoff_is_valid self =
     (bo_initial_delay_ms self > 0 \<and> bo_maximum_delay_ms self \<ge> bo_initial_delay_ms self
      \<and> bo_multiplier_per_thousand self \<ge> 1000 \<and> bo_jitter_per_thousand self \<le> 1000
      \<and> RetryLimit_is_valid (bo_limit self))"

datatype ReconnectPolicy =
    Rp_Disabled | Rp_Immediate RetryLimit | Rp_ExponentialBackoff ExponentialBackoff | Rp_ApplicationControlled

datatype ReconnectStopReason =
    Stop_Disabled | PermanentFailure ReconnectFailure | AttemptsExhausted | DeadlineExceeded | Stop_Cancelled

datatype ReconnectAction =
    AttemptAt (attempt_unix_ms: u64) (attempt_number: u32) | AwaitApplication | Stop ReconnectStopReason

subsection \<open>The controller\<close>

record ReconnectController =
  rcn_policy :: ReconnectPolicy
  rcn_started_unix_ms :: "u64 option"
  rcn_attempts :: u32
  rcn_cancellation :: CancellationToken
  rcn_paused :: bool

definition ReconnectController_new ::
  "ReconnectPolicy \<Rightarrow> CancellationToken \<Rightarrow> (string, ReconnectController) result" where
  "ReconnectController_new policy cancellation =
     (let valid = (case policy of
                     Rp_Disabled \<Rightarrow> True
                   | Rp_ApplicationControlled \<Rightarrow> True
                   | Rp_Immediate limit \<Rightarrow> RetryLimit_is_valid limit
                   | Rp_ExponentialBackoff config \<Rightarrow> ExponentialBackoff_is_valid config)
      in if \<not> valid then Inl ''reconnect policy limits must be positive and bounded''
         else Inr \<lparr>rcn_policy = policy, rcn_started_unix_ms = None, rcn_attempts = 0,
                   rcn_cancellation = cancellation, rcn_paused = False\<rparr>)"

definition ReconnectController_pause :: "ReconnectController \<Rightarrow> ReconnectController" where
  "ReconnectController_pause self = self\<lparr>rcn_paused := True\<rparr>"

definition ReconnectController_resume :: "ReconnectController \<Rightarrow> ReconnectController" where
  "ReconnectController_resume self = self\<lparr>rcn_paused := False\<rparr>"

definition ReconnectController_reset :: "ReconnectController \<Rightarrow> ReconnectController" where
  "ReconnectController_reset self = self\<lparr>rcn_started_unix_ms := None, rcn_attempts := 0\<rparr>"

fun exponential_loop :: "ExponentialBackoff \<Rightarrow> nat \<Rightarrow> u64 \<Rightarrow> u64" where
  "exponential_loop config 0 delay = delay"
| "exponential_loop config (Suc n) delay =
     exponential_loop config n
       (min (sat_mul delay (ucast (bo_multiplier_per_thousand config)) div 1000) (bo_maximum_delay_ms config))"

definition exponential_delay :: "ExponentialBackoff \<Rightarrow> u32 \<Rightarrow> u64" where
  "exponential_delay config attempt = exponential_loop config (unat attempt) (bo_initial_delay_ms config)"

definition jittered_delay :: "u64 \<Rightarrow> u16 \<Rightarrow> u16 \<Rightarrow> u64" where
  "jittered_delay base jitter sample =
     (if jitter = 0 then base
      else
        let span = sat_mul base (ucast jitter) div 1000;
            offset = sat_mul (sat_mul span (ucast sample)) 2 div 1000
        in sat_add (sat_sub base span) offset)"

definition ReconnectController_schedule ::
  "ReconnectController \<Rightarrow> u64 \<Rightarrow> u64 \<Rightarrow> u64 \<Rightarrow> RetryLimit \<Rightarrow> ReconnectAction \<times> ReconnectController" where
  "ReconnectController_schedule self now_unix_ms started_unix_ms delay_ms limit =
     (if rcn_attempts self \<ge> rty_max_attempts limit then (Stop AttemptsExhausted, self)
      else
        let elapsed = sat_sub now_unix_ms started_unix_ms in
        if elapsed \<ge> rty_max_elapsed_ms limit \<or> sat_add elapsed delay_ms > rty_max_elapsed_ms limit
        then (Stop DeadlineExceeded, self)
        else
          let self = self\<lparr>rcn_attempts := sat_add (rcn_attempts self) 1\<rparr>
          in (AttemptAt (sat_add now_unix_ms delay_ms) (rcn_attempts self), self))"

definition ReconnectController_after_failure ::
  "ReconnectController \<Rightarrow> ReconnectFailure \<Rightarrow> u64 \<Rightarrow> u16 \<Rightarrow> ReconnectAction \<times> ReconnectController" where
  "ReconnectController_after_failure self failure now_unix_ms jitter_sample =
     (if CancellationToken_is_cancelled (rcn_cancellation self) \<or> failure = Rf_Cancelled
      then (Stop Stop_Cancelled, self)
      else if ReconnectFailure_is_permanent failure then (Stop (PermanentFailure failure), self)
      else if rcn_paused self then (AwaitApplication, self)
      else
        let started = (case rcn_started_unix_ms self of None \<Rightarrow> now_unix_ms | Some t \<Rightarrow> t);
            self = self\<lparr>rcn_started_unix_ms := Some started\<rparr> in
        (case rcn_policy self of
           Rp_Disabled \<Rightarrow> (Stop Stop_Disabled, self)
         | Rp_ApplicationControlled \<Rightarrow> (AwaitApplication, self)
         | Rp_Immediate limit \<Rightarrow> ReconnectController_schedule self now_unix_ms started 0 limit
         | Rp_ExponentialBackoff config \<Rightarrow>
             let base = exponential_delay config (rcn_attempts self);
                 delay = jittered_delay base (bo_jitter_per_thousand config) (min jitter_sample 1000)
             in ReconnectController_schedule self now_unix_ms started delay (bo_limit config)))"

subsection \<open>Delays\<close>

lemma exponential_loop_le: "delay \<le> bo_maximum_delay_ms config \<Longrightarrow> exponential_loop config n delay \<le> bo_maximum_delay_ms config"
  by (induction n arbitrary: delay) simp_all

lemma exponential_delay_le:
  "ExponentialBackoff_is_valid config \<Longrightarrow> exponential_delay config n \<le> bo_maximum_delay_ms config"
  by (simp add: exponential_delay_def ExponentialBackoff_is_valid_def exponential_loop_le)

lemma unat_ucast_le: "LENGTH('b::len) \<le> LENGTH('a::len) \<Longrightarrow> unat (ucast (x :: 'b word) :: 'a word) = unat x"
  by (simp add: unsigned_ucast_eq take_bit_nat_eq_self_iff) (meson unat_lt_size less_le_trans power_increasing one_le_numeral)

lemma scaled_le:
  assumes "unat (k :: u64) \<le> 1000"
  shows "unat (sat_mul a k div 1000) \<le> unat a * unat k div 1000" and "unat (sat_mul a k div 1000) \<le> unat a"
proof -
  show le: "unat (sat_mul a k div 1000) \<le> unat a * unat k div 1000"
    by (simp add: unat_div unat_sat_mul div_le_mono)
  have "unat a * unat k div 1000 \<le> unat a * 1000 div 1000" by (intro div_le_mono mult_le_mono2 assms)
  with le show "unat (sat_mul a k div 1000) \<le> unat a" by simp
qed

lemma offset_le:
  assumes "unat (k :: u64) \<le> 1000"
  shows "unat (sat_mul (sat_mul a k) 2 div 1000) \<le> 2 * unat a"
proof -
  have "unat (sat_mul (sat_mul a k) 2) \<le> unat a * unat k * 2" by (simp add: unat_sat_mul)
  also have "\<dots> \<le> 2 * unat a * 1000" using mult_le_mono2 [OF assms, of "unat a"] by simp
  finally have "unat (sat_mul (sat_mul a k) 2) div 1000 \<le> 2 * unat a * 1000 div 1000" by (rule div_le_mono)
  then show ?thesis by (simp add: unat_div)
qed

lemma jitter_bounds:
  assumes "jitter \<le> 1000" and "sample \<le> 1000"
  shows "unat (jittered_delay base jitter sample) \<le> unat base + unat base * unat jitter div 1000"
    and "unat base \<le> unat (jittered_delay base jitter sample) + unat base * unat jitter div 1000"
proof -
  have j: "unat (ucast jitter :: u64) = unat jitter" "unat (ucast sample :: u64) = unat sample"
    by (simp_all add: unat_ucast_le)
  have k: "unat (ucast jitter :: u64) \<le> 1000" "unat (ucast sample :: u64) \<le> 1000"
    using assms unfolding j by (simp_all add: word_le_nat_alt)
  let ?span = "sat_mul base (ucast jitter) div 1000 :: u64"
  let ?offset = "sat_mul (sat_mul ?span (ucast sample)) 2 div 1000 :: u64"
  have s: "unat ?span \<le> unat base * unat jitter div 1000" "unat ?span \<le> unat base"
    using scaled_le [OF k(1), of base] unfolding j by simp_all
  have o: "unat ?offset \<le> 2 * unat ?span" using offset_le [OF k(2)] .
  have d: "unat (jittered_delay base jitter sample) =
      (if jitter = 0 then unat base else min (unat base - unat ?span + unat ?offset) (2 ^ 64 - 1))"
    by (simp add: jittered_delay_def Let_def sat_unats)
  have "unat base \<le> 2 ^ 64 - 1" using unat_lt_size [of base] by simp
  then show "unat (jittered_delay base jitter sample) \<le> unat base + unat base * unat jitter div 1000"
    and "unat base \<le> unat (jittered_delay base jitter sample) + unat base * unat jitter div 1000"
    using s o unfolding d by auto
qed

subsection \<open>Attempts\<close>

datatype ReconnectOp = RcFailure ReconnectFailure u64 u16 | RcPause | RcResume | RcCancel

fun reconnect_exec :: "ReconnectOp \<Rightarrow> ReconnectController \<Rightarrow> ReconnectAction list \<times> ReconnectController" where
  "reconnect_exec (RcFailure failure now sample) c =
     (case ReconnectController_after_failure c failure now sample of (action, c') \<Rightarrow> ([action], c'))"
| "reconnect_exec RcPause c = ([], ReconnectController_pause c)"
| "reconnect_exec RcResume c = ([], ReconnectController_resume c)"
| "reconnect_exec RcCancel c = ([], c\<lparr>rcn_cancellation := CancellationToken_cancel (rcn_cancellation c)\<rparr>)"

fun reconnect_run :: "ReconnectOp list \<Rightarrow> ReconnectController \<Rightarrow> ReconnectAction list \<times> ReconnectController" where
  "reconnect_run [] c = ([], c)"
| "reconnect_run (op # ops) c =
     (case reconnect_exec op c of (acts, c1) \<Rightarrow>
      (case reconnect_run ops c1 of (acts', c2) \<Rightarrow> (acts @ acts', c2)))"

definition is_attempt :: "ReconnectAction \<Rightarrow> bool" where
  "is_attempt a = (case a of AttemptAt _ _ \<Rightarrow> True | _ \<Rightarrow> False)"

definition policy_limit :: "ReconnectPolicy \<Rightarrow> RetryLimit option" where
  "policy_limit policy =
     (case policy of Rp_Immediate limit \<Rightarrow> Some limit | Rp_ExponentialBackoff config \<Rightarrow> Some (bo_limit config) | _ \<Rightarrow> None)"

lemma schedule_cases:
  assumes "ReconnectController_schedule c now started delay limit = (a, c')"
  obtains (stop) r where "a = Stop r" "c' = c"
  | (attempt) n where "a = AttemptAt (sat_add now delay) n" "unat n = unat (rcn_attempts c) + 1"
      "c' = c\<lparr>rcn_attempts := n\<rparr>" "rcn_attempts c < rty_max_attempts limit"
      "unat (sat_add now delay) \<le> unat started + unat (rty_max_elapsed_ms limit)"
proof (cases "\<exists>r. a = Stop r")
  case True
  with assms show ?thesis
    by (auto simp: ReconnectController_schedule_def Let_def split: if_splits intro: stop)
next
  case False
  let ?n = "sat_add (rcn_attempts c) 1"
  from False assms have few: "rcn_attempts c < rty_max_attempts limit"
    and time: "sat_add (sat_sub now started) delay \<le> rty_max_elapsed_ms limit"
    and eq: "a = AttemptAt (sat_add now delay) ?n" "c' = c\<lparr>rcn_attempts := ?n\<rparr>"
    by (auto simp: ReconnectController_schedule_def Let_def not_le not_less split: if_splits)
  have "unat ?n = unat (rcn_attempts c) + 1"
    using few unat_lt_size [of "rty_max_attempts limit"] by (simp add: unat_sat_add word_less_nat_alt)
  moreover have "unat (sat_add now delay) \<le> unat started + unat (rty_max_elapsed_ms limit)"
    using time unat_lt_size [of now] by (simp add: word_le_nat_alt sat_unats)
  ultimately show ?thesis using attempt [OF eq(1) _ eq(2) few] by simp
qed

lemma after_failure_cases:
  assumes "ReconnectController_after_failure c failure now sample = (a, c')"
  obtains (other) "\<not> is_attempt a" "rcn_attempts c' = rcn_attempts c" "rcn_policy c' = rcn_policy c"
      "\<And>t. rcn_started_unix_ms c = Some t \<Longrightarrow> rcn_started_unix_ms c' = Some t"
  | (tried) limit t0 n t where "policy_limit (rcn_policy c) = Some limit" "a = AttemptAt t n"
      "unat n = unat (rcn_attempts c) + 1" "rcn_attempts c' = n" "rcn_policy c' = rcn_policy c"
      "rcn_attempts c < rty_max_attempts limit" "rcn_started_unix_ms c' = Some t0"
      "unat t \<le> unat t0 + unat (rty_max_elapsed_ms limit)"
      "\<And>t. rcn_started_unix_ms c = Some t \<Longrightarrow> t0 = t"
proof -
  define started where "started = (case rcn_started_unix_ms c of None \<Rightarrow> now | Some t \<Rightarrow> t)"
  let ?c = "c\<lparr>rcn_started_unix_ms := Some started\<rparr>"
  have sched: ?thesis if s: "ReconnectController_schedule ?c now started delay limit = (a, c')"
      and lim: "policy_limit (rcn_policy c) = Some limit" for delay limit
    using s
  proof (cases rule: schedule_cases)
    case (stop r)
    then show ?thesis by (intro other) (auto simp: is_attempt_def started_def)
  next
    case (attempt n)
    then show ?thesis
      using lim by (intro tried [of limit "sat_add now delay" n started]) (auto simp: started_def)
  qed
  show ?thesis
  proof (cases "CancellationToken_is_cancelled (rcn_cancellation c) \<or> failure = Rf_Cancelled
      \<or> ReconnectFailure_is_permanent failure \<or> rcn_paused c")
    case True
    with assms show ?thesis
      by (intro other) (auto simp: ReconnectController_after_failure_def is_attempt_def split: if_splits)
  next
    case False
    show ?thesis
    proof (cases "policy_limit (rcn_policy c)")
      case None
      with False assms show ?thesis
        by (intro other)
          (auto simp: ReconnectController_after_failure_def is_attempt_def policy_limit_def Let_def
            split: ReconnectPolicy.splits)
    next
      case (Some limit)
      with False assms obtain delay where "ReconnectController_schedule ?c now started delay limit = (a, c')"
        by (auto simp: ReconnectController_after_failure_def policy_limit_def Let_def started_def [symmetric]
            split: ReconnectPolicy.splits)
      then show ?thesis using Some by (rule sched)
    qed
  qed
qed

lemma reconnect_run_attempts:
  assumes "reconnect_run ops c = (acts, c')" and "policy_limit (rcn_policy c) = Some limit"
    and "rcn_attempts c \<le> rty_max_attempts limit"
  shows "map (unat \<circ> attempt_number) (filter is_attempt acts)
        = [Suc (unat (rcn_attempts c))..<Suc (unat (rcn_attempts c) + length (filter is_attempt acts))]
    \<and> unat (rcn_attempts c) + length (filter is_attempt acts) \<le> unat (rty_max_attempts limit)
    \<and> list_all (\<lambda>a. \<exists>t0. rcn_started_unix_ms c' = Some t0
          \<and> unat (attempt_unix_ms a) \<le> unat t0 + unat (rty_max_elapsed_ms limit)) (filter is_attempt acts)
    \<and> (\<forall>t. rcn_started_unix_ms c = Some t \<longrightarrow> rcn_started_unix_ms c' = Some t)"
  using assms
proof (induction ops arbitrary: c acts)
  case Nil
  then show ?case by (simp add: word_le_nat_alt)
next
  case (Cons op ops)
  obtain a1 c1 where ex: "reconnect_exec op c = (a1, c1)" by fastforce
  obtain a2 where run: "reconnect_run ops c1 = (a2, c')" and acts: "acts = a1 @ a2"
    using Cons.prems(1) ex by (auto split: prod.splits)
  have quiet: ?case if "filter is_attempt a1 = []" "rcn_attempts c1 = rcn_attempts c" "rcn_policy c1 = rcn_policy c"
      "\<And>t. rcn_started_unix_ms c = Some t \<Longrightarrow> rcn_started_unix_ms c1 = Some t"
    using Cons.IH [OF run] Cons.prems(2,3) that acts by auto
  show ?case
  proof (cases op)
    case (RcFailure failure now sample)
    obtain a where af: "ReconnectController_after_failure c failure now sample = (a, c1)" and a1: "a1 = [a]"
      using ex RcFailure by (auto split: prod.splits)
    from af show ?thesis
    proof (cases rule: after_failure_cases)
      case other
      with a1 show ?thesis by (intro quiet) auto
    next
      case (tried l t0 n t)
      have l: "l = limit" using tried(1) Cons.prems(2) by simp
      have le: "rcn_attempts c1 \<le> rty_max_attempts limit"
        using tried(3,4,6) l by (simp add: word_le_nat_alt word_less_nat_alt)
      note ih = Cons.IH [OF run _ le]
      have "[Suc (unat (rcn_attempts c))..<Suc (Suc (unat (rcn_attempts c) + k))]
          = Suc (unat (rcn_attempts c)) # [Suc (Suc (unat (rcn_attempts c)))..<Suc (Suc (unat (rcn_attempts c) + k))]" for k
        by (simp add: upt_conv_Cons)
      with ih tried Cons.prems(2) acts a1 l show ?thesis by (auto simp: is_attempt_def)
    qed
  next
    case RcPause
    show ?thesis by (rule quiet) (use ex RcPause in \<open>auto simp: ReconnectController_pause_def\<close>)
  next
    case RcResume
    show ?thesis by (rule quiet) (use ex RcResume in \<open>auto simp: ReconnectController_resume_def\<close>)
  next
    case RcCancel
    show ?thesis by (rule quiet) (use ex RcCancel in auto)
  qed
qed

subsection \<open>Properties\<close>

text \<open>Reconnection is bounded. Whatever failures, pauses, resumptions and cancellations
  happen, a controller with a limited policy schedules at most its maximal number of
  attempts, numbers them one by one from one, and schedules none later than its maximal
  elapsed time after the first failure.\<close>

theorem reconnect_bounded:
  assumes "ReconnectController_new policy token = Inr c0" and "policy_limit policy = Some limit"
    and "reconnect_run ops c0 = (acts, c)"
  shows "map (unat \<circ> attempt_number) (filter is_attempt acts) = [1..<Suc (length (filter is_attempt acts))]
    \<and> length (filter is_attempt acts) \<le> unat (rty_max_attempts limit)
    \<and> list_all (\<lambda>a. \<exists>t0. rcn_started_unix_ms c = Some t0
          \<and> unat (attempt_unix_ms a) \<le> unat t0 + unat (rty_max_elapsed_ms limit)) (filter is_attempt acts)"
proof -
  have "rcn_policy c0 = policy" "rcn_attempts c0 = 0"
    using assms(1) by (auto simp: ReconnectController_new_def Let_def split: if_splits)
  with reconnect_run_attempts [OF assms(3)] assms(2) show ?thesis by simp
qed

definition sample_retry :: ReconnectPolicy where
  "sample_retry = Rp_Immediate \<lparr>rty_max_attempts = 3, rty_max_elapsed_ms = 5000\<rparr>"

text \<open>Two failures around a pause.\<close>

theorem reconnect_bounded_witness:
  "\<exists>c0 acts c. ReconnectController_new sample_retry (CancellationToken False) = Inr c0
     \<and> reconnect_run [RcFailure Rf_NetworkChanged 1000 500, RcPause, RcResume, RcFailure Rf_SleepWake 1200 500] c0 = (acts, c)
     \<and> map (unat \<circ> attempt_number) (filter is_attempt acts) = [1, 2]"
proof -
  let ?ops = "[RcFailure Rf_NetworkChanged 1000 500, RcPause, RcResume, RcFailure Rf_SleepWake 1200 500]"
  obtain c0 where c0: "ReconnectController_new sample_retry (CancellationToken False) = Inr c0"
    and start: "c0 = \<lparr>rcn_policy = sample_retry, rcn_started_unix_ms = None, rcn_attempts = 0,
      rcn_cancellation = CancellationToken False, rcn_paused = False\<rparr>"
    by (simp add: ReconnectController_new_def RetryLimit_is_valid_def sample_retry_def)
  obtain acts c where run: "reconnect_run ?ops c0 = (acts, c)" by fastforce
  have [simp]: "\<not> (3 :: u32) \<le> 1" by (simp add: word_le_nat_alt)
  have "length (filter is_attempt acts) = 2"
    using run
    by (auto simp: start ReconnectController_after_failure_def CancellationToken_is_cancelled_def
        ReconnectController_pause_def ReconnectController_resume_def
        ReconnectFailure_is_permanent_def sample_retry_def
        ReconnectController_schedule_def sat_mul_def sat_add_def sat_sub_def is_attempt_def Let_def)
  with reconnect_bounded [OF c0 _ run] have "map (unat \<circ> attempt_number) (filter is_attempt acts) = [1, 2]"
    by (simp add: policy_limit_def sample_retry_def upt_rec)
  with c0 run show ?thesis by (intro exI conjI)
qed

end
