(* ===== verification/Link_Transport.thy ===== *)
theory Link_Transport
  imports Link_Registry Link_Reconnect
begin

text \<open>
  The runtime-neutral transport layer, \<^verbatim>\<open>transport.rs\<close>: errors, operation
  contexts, budgets, the default methods of the \<^verbatim>\<open>Connection\<close> trait and the
  framing of control streams. An \<^verbatim>\<open>Instant\<close> is a natural number.

  The locale \<open>message_lane\<close> is what a stream relies on: what the receiver has not taken
  yet is a queue. Its lemma on histories is proved once; a control stream over a lane is a
  lane of messages again (\<open>control_stream_lane\<close>), so that lemma holds for it too.
\<close>

subsection \<open>Errors, contexts and budgets\<close>

type_synonym Instant = nat

datatype TransportErrorKind =
    Te_WouldBlock | Te_TimedOut | Te_Cancelled | Te_Closed | Te_Aborted | Te_MessageTooLarge | Te_Unsupported
  | Te_AddressInUse | Te_Other

record TransportError =
  te_kind :: TransportErrorKind
  te_public_message :: string

definition TransportError_new :: "TransportErrorKind \<Rightarrow> string \<Rightarrow> TransportError" where
  "TransportError_new kind public_message = \<lparr>te_kind = kind, te_public_message = public_message\<rparr>"

record EndpointAddress =
  addr_scheme :: bytes
  addr_address :: bytes

record ConnectionMetadata =
  cm_local_endpoint :: EndpointId
  cm_remote_endpoint :: EndpointId
  cm_peer_hint :: "PeerId option"
  cm_reliable :: bool
  cm_datagrams :: bool

record OperationContext =
  oc_deadline :: "Instant option"
  oc_cancellation :: CancellationToken

definition OperationContext_check :: "OperationContext \<Rightarrow> Instant \<Rightarrow> (TransportError, unit) result" where
  "OperationContext_check self now =
     (if CancellationToken_is_cancelled (oc_cancellation self)
      then Inl (TransportError_new Te_Cancelled ''connection attempt cancelled'')
      else if (case oc_deadline self of None \<Rightarrow> False | Some deadline \<Rightarrow> now \<ge> deadline)
      then Inl (TransportError_new Te_TimedOut ''connection attempt timed out'')
      else Inr ())"

record TransportBudget =
  tb_max_connections :: nat
  tb_max_concurrent_streams :: nat
  tb_control_queue_capacity :: nat
  tb_data_queue_capacity :: nat
  tb_receive_queue_capacity :: nat
  tb_max_frame_bytes :: nat
  tb_control_bytes_per_second :: "u64 option"
  tb_data_bytes_per_second :: "u64 option"
  tb_receive_bytes_per_second :: "u64 option"
  tb_idle_timeout :: "nat option"

definition TransportBudget_default :: TransportBudget where
  "TransportBudget_default =
     \<lparr>tb_max_connections = 64, tb_max_concurrent_streams = 64, tb_control_queue_capacity = 32,
      tb_data_queue_capacity = 128, tb_receive_queue_capacity = 128, tb_max_frame_bytes = 1024 * 1024,
      tb_control_bytes_per_second = None, tb_data_bytes_per_second = None, tb_receive_bytes_per_second = None,
      tb_idle_timeout = Some (60 * 1000000000)\<rparr>"

definition TransportBudget_validate :: "TransportBudget \<Rightarrow> (TransportError, TransportBudget) result" where
  "TransportBudget_validate self =
     (if tb_max_connections self = 0 \<or> tb_max_concurrent_streams self = 0 \<or> tb_control_queue_capacity self = 0
         \<or> tb_data_queue_capacity self = 0 \<or> tb_receive_queue_capacity self = 0 \<or> tb_max_frame_bytes self = 0
         \<or> tb_control_bytes_per_second self = Some 0 \<or> tb_data_bytes_per_second self = Some 0
         \<or> tb_receive_bytes_per_second self = Some 0
      then Inl (TransportError_new Te_Other ''transport budget values must be positive'')
      else Inr self)"

subsection \<open>Default methods of a connection\<close>

text \<open>A connection is used through its operations: a state \<open>'c\<close> is passed through and
  returned with the result.\<close>

type_synonym 'c send_op = "bytes \<Rightarrow> 'c \<Rightarrow> (TransportError, unit) result \<times> 'c"
type_synonym 'c receive_op = "'c \<Rightarrow> (TransportError, bytes option) result \<times> 'c"

definition Connection_try_send_with_context ::
  "'c send_op \<Rightarrow> bytes \<Rightarrow> OperationContext \<Rightarrow> Instant \<Rightarrow> 'c \<Rightarrow> (TransportError, unit) result \<times> 'c" where
  "Connection_try_send_with_context try_send message ctx now self =
     (case OperationContext_check ctx now of Inl e \<Rightarrow> (Inl e, self) | Inr _ \<Rightarrow> try_send message self)"

definition Connection_try_receive_with_context ::
  "'c receive_op \<Rightarrow> OperationContext \<Rightarrow> Instant \<Rightarrow> 'c \<Rightarrow> (TransportError, bytes option) result \<times> 'c" where
  "Connection_try_receive_with_context try_receive ctx now self =
     (case OperationContext_check ctx now of Inl e \<Rightarrow> (Inl e, self) | Inr _ \<Rightarrow> try_receive self)"

definition Connection_open_control_stream :: "ConnectionMetadata \<Rightarrow> ProtocolId \<Rightarrow> (TransportError, ProtocolId) result" where
  "Connection_open_control_stream metadata protocol =
     (if \<not> cm_reliable metadata
      then Inl (TransportError_new Te_Unsupported ''reliable control streams are not supported'')
      else Inr protocol)"

subsection \<open>Control streams\<close>

definition CONTROL_STREAM_MAGIC :: bytes where
  "CONTROL_STREAM_MAGIC = [77, 76, 67, 83]"

definition CONTROL_STREAM_VERSION :: u8 where
  "CONTROL_STREAM_VERSION = 1"

definition CONTROL_STREAM_HEADER_LEN :: nat where
  "CONTROL_STREAM_HEADER_LEN = 7"

text \<open>\<^verbatim>\<open>ControlStream::try_send\<close> up to the call of the connection, and the whole
  call.\<close>

definition control_stream_frame :: "ProtocolId \<Rightarrow> bytes \<Rightarrow> (TransportError, bytes) result" where
  "control_stream_frame protocol_id message =
     (let protocol = protocol_id_str protocol_id in
      if length protocol \<ge> 2 ^ 16
      then Inl (TransportError_new Te_MessageTooLarge ''control stream protocol identifier is too large'')
      else
        let protocol_len = of_nat (length protocol) :: u16 in
        result_bind
          (ok_or (TransportError_new Te_MessageTooLarge ''control stream message is too large'')
            (Option.bind (usize_checked_add CONTROL_STREAM_HEADER_LEN (length protocol))
              (\<lambda>len. usize_checked_add len (length message))))
          (\<lambda>capacity. Inr (CONTROL_STREAM_MAGIC @ [CONTROL_STREAM_VERSION] @ to_be_bytes protocol_len
                            @ protocol @ message)))"

definition ControlStream_try_send ::
  "'c send_op \<Rightarrow> ProtocolId \<Rightarrow> bytes \<Rightarrow> 'c \<Rightarrow> (TransportError, unit) result \<times> 'c" where
  "ControlStream_try_send try_send_control protocol message connection =
     (case control_stream_frame protocol message of
        Inl e \<Rightarrow> (Inl e, connection)
      | Inr framed \<Rightarrow> try_send_control framed connection)"

text \<open>\<^verbatim>\<open>ControlStream::try_receive\<close> after the call of the connection, and the whole
  call.\<close>

definition control_stream_unframe :: "ProtocolId \<Rightarrow> bytes \<Rightarrow> (TransportError, bytes) result" where
  "control_stream_unframe protocol_id framed =
     (if length framed < CONTROL_STREAM_HEADER_LEN \<or> take 4 framed \<noteq> CONTROL_STREAM_MAGIC
         \<or> framed ! 4 \<noteq> CONTROL_STREAM_VERSION
      then Inl (TransportError_new Te_Other ''control stream frame is invalid'')
      else
        let protocol_len = unat (from_be_bytes [framed ! 5, framed ! 6] :: u16) in
        case usize_checked_add CONTROL_STREAM_HEADER_LEN protocol_len of
          None \<Rightarrow> Inl (TransportError_new Te_MessageTooLarge ''control stream frame size overflow'')
        | Some payload_offset \<Rightarrow>
            if length framed < payload_offset
            then Inl (TransportError_new Te_Other ''control stream frame is truncated'')
            else if drop CONTROL_STREAM_HEADER_LEN (take payload_offset framed) \<noteq> protocol_id_str protocol_id
            then Inl (TransportError_new Te_Other ''control stream protocol does not match'')
            else Inr (drop payload_offset framed))"

definition ControlStream_try_receive ::
  "'c receive_op \<Rightarrow> ProtocolId \<Rightarrow> 'c \<Rightarrow> (TransportError, bytes option) result \<times> 'c" where
  "ControlStream_try_receive try_receive_control protocol connection =
     (case try_receive_control connection of
        (Inl e, connection) \<Rightarrow> (Inl e, connection)
      | (Inr None, connection) \<Rightarrow> (Inr None, connection)
      | (Inr (Some framed), connection) \<Rightarrow>
          (case control_stream_unframe protocol framed of
             Inl e \<Rightarrow> (Inl e, connection)
           | Inr message \<Rightarrow> (Inr (Some message), connection)))"

subsection \<open>Framing\<close>

lemma two_bytes:
  obtains x y where "to_be_bytes (w :: u16) = [x, y]"
  by (auto simp: to_be_bytes_def byte_indices)

lemma header_split:
  assumes "7 \<le> length framed"
  shows "framed = take 4 framed @ [framed ! 4, framed ! 5, framed ! 6] @ drop 7 framed"
proof -
  have step: "drop n framed = framed ! n # drop (Suc n) framed" if "n < 7" for n
    using assms that by (simp add: Cons_nth_drop_Suc)
  have "drop 4 framed = [framed ! 4, framed ! 5, framed ! 6] @ drop 7 framed"
    using step [of 4] step [of 5] step [of 6] by simp
  then show ?thesis by (metis append_take_drop_id)
qed

lemma unframe_frame_iff:
  assumes "length framed \<le> usize_max"
  shows "control_stream_unframe p framed = Inr m \<longleftrightarrow> control_stream_frame p m = Inr framed"
proof
  let ?n = "length (protocol_id_str p)"
  assume "control_stream_frame p m = Inr framed"
  then have n: "?n < 2 ^ 16" "7 + ?n + length m \<le> usize_max"
    and f: "framed = [77, 76, 67, 83, 1] @ to_be_bytes (of_nat ?n :: u16) @ protocol_id_str p @ m"
    by (auto simp: control_stream_frame_def Let_def result_bind_eq_Inr CONTROL_STREAM_MAGIC_def
        CONTROL_STREAM_VERSION_def CONTROL_STREAM_HEADER_LEN_def usize_checked_add_def bind_eq_Some_conv
        split: if_splits)
  obtain x y where xy: "to_be_bytes (of_nat ?n :: u16) = [x, y]"
    by (rule two_bytes)
  have n_back: "unat (from_be_bytes [x, y] :: u16) = ?n"
    using n(1) by (simp add: xy [symmetric] unat_of_nat take_bit_eq_mod)
  then show "control_stream_unframe p framed = Inr m"
    using n f by (simp add: control_stream_unframe_def xy CONTROL_STREAM_MAGIC_def CONTROL_STREAM_VERSION_def
        CONTROL_STREAM_HEADER_LEN_def usize_checked_add_def Let_def take_Cons' drop_Cons')
next
  let ?k = "unat (from_be_bytes [framed ! 5, framed ! 6] :: u16)"
  assume "control_stream_unframe p framed = Inr m"
  then have len: "7 \<le> length framed" and hd: "take 4 framed = [77, 76, 67, 83]" "framed ! 4 = 1"
    and rest: "7 + ?k \<le> length framed" "drop 7 (take (7 + ?k) framed) = protocol_id_str p" "m = drop (7 + ?k) framed"
    by (auto simp: control_stream_unframe_def Let_def CONTROL_STREAM_MAGIC_def CONTROL_STREAM_VERSION_def
        CONTROL_STREAM_HEADER_LEN_def usize_checked_add_def split: if_splits)
  have k: "length (protocol_id_str p) = ?k" using rest(1,2) by (metis add_diff_cancel_left' length_drop length_take min.absorb2)
  have "drop 7 framed = protocol_id_str p @ m"
    using rest by (metis append_take_drop_id drop_drop drop_take add.commute add_diff_cancel_left')
  then have f: "framed = [77, 76, 67, 83, 1] @ [framed ! 5, framed ! 6] @ protocol_id_str p @ m"
    using header_split [OF len] hd by simp
  have "to_be_bytes (of_nat ?k :: u16) = [framed ! 5, framed ! 6]"
    by (simp add: to_from_be_bytes)
  moreover have "?k < 2 ^ 16" using unat_lt_size [of "from_be_bytes [framed ! 5, framed ! 6] :: u16"] by simp
  moreover have "length framed = 7 + ?k + length m" by (subst f) (simp add: k)
  ultimately show "control_stream_frame p m = Inr framed"
    using assms f by (simp add: control_stream_frame_def Let_def k CONTROL_STREAM_MAGIC_def CONTROL_STREAM_VERSION_def
        CONTROL_STREAM_HEADER_LEN_def usize_checked_add_def)
qed

subsection \<open>Lanes of messages\<close>

datatype LaneOp = LaneSend bytes | LaneReceive

fun lane_run ::
  "'c send_op \<Rightarrow> 'c receive_op \<Rightarrow> LaneOp list \<Rightarrow> 'c \<Rightarrow> bytes list \<times> bytes list \<times> 'c" where
  "lane_run send receive [] c = ([], [], c)"
| "lane_run send receive (LaneSend m # ops) c =
     (case send m c of (r, c1) \<Rightarrow>
      case lane_run send receive ops c1 of (sent, received, c2) \<Rightarrow>
        (if is_ok r then m # sent else sent, received, c2))"
| "lane_run send receive (LaneReceive # ops) c =
     (case receive c of (r, c1) \<Rightarrow>
      case lane_run send receive ops c1 of (sent, received, c2) \<Rightarrow>
        (sent, case r of Inr (Some m) \<Rightarrow> m # received | _ \<Rightarrow> received, c2))"

lemma receive_result_cases [case_names err none some]:
  obtains e where "r = Inl e" | "r = Inr None" | m where "r = Inr (Some m)"
  by (cases r; cases "projr r") auto

locale message_lane =
  fixes ok :: "'c \<Rightarrow> bool" and queue :: "'c \<Rightarrow> bytes list"
    and send :: "bytes \<Rightarrow> 'c \<Rightarrow> (TransportError, unit) result \<times> 'c"
    and receive :: "'c \<Rightarrow> (TransportError, bytes option) result \<times> 'c"
  assumes send_ok: "ok c \<Longrightarrow> send m c = (Inr u, c') \<Longrightarrow> ok c' \<and> queue c' = queue c @ [m]"
    and send_err: "ok c \<Longrightarrow> send m c = (Inl e, c') \<Longrightarrow> ok c' \<and> queue c' = queue c"
    and receive_some: "ok c \<Longrightarrow> receive c = (Inr (Some m), c') \<Longrightarrow> ok c' \<and> queue c = m # queue c'"
    and receive_none: "ok c \<Longrightarrow> receive c = (Inr None, c') \<Longrightarrow> ok c' \<and> queue c = [] \<and> queue c' = []"
    and receive_err: "ok c \<Longrightarrow> receive c = (Inl e, c') \<Longrightarrow> ok c' \<and> queue c' = queue c"
begin

lemma run_fifo:
  assumes "ok c" and "lane_run send receive ops c = (sent, received, c')"
  shows "ok c' \<and> queue c @ sent = received @ queue c'"
  using assms
proof (induction ops arbitrary: c sent received)
  case (Cons op ops)
  show ?case
  proof (cases op)
    case (LaneSend m)
    obtain r c1 where s: "send m c = (r, c1)" by fastforce
    then have "ok c1" "queue c1 = queue c @ (if is_ok r then [m] else [])"
      using send_ok [OF Cons.prems(1)] send_err [OF Cons.prems(1)] by (cases r; simp)+
    with Cons.IH [of c1] Cons.prems(2) LaneSend s show ?thesis by (auto split: prod.splits if_splits)
  next
    case LaneReceive
    obtain r c1 where s: "receive c = (r, c1)" by fastforce
    have "ok c1 \<and> queue c = (case r of Inr (Some m) \<Rightarrow> [m] | _ \<Rightarrow> []) @ queue c1"
    proof (cases r rule: receive_result_cases)
      case (err e)
      with receive_err [OF Cons.prems(1), of e c1] s show ?thesis by simp
    next
      case none
      with receive_none [OF Cons.prems(1), of c1] s show ?thesis by simp
    next
      case (some m)
      with receive_some [OF Cons.prems(1), of m c1] s show ?thesis by simp
    qed
    with Cons.IH [of c1] Cons.prems(2) LaneReceive s show ?thesis
      by (cases r rule: receive_result_cases) (auto split: prod.splits)
  qed
qed simp

lemma guarded: "message_lane (\<lambda>c. K \<and> ok c) queue send receive"
  by unfold_locales (use send_ok send_err receive_some receive_none receive_err in blast)+

end

text \<open>The messages of a queue of frames of one protocol.\<close>

definition all_framed :: "ProtocolId \<Rightarrow> bytes list \<Rightarrow> bool" where
  "all_framed protocol q = list_all (\<lambda>f. is_ok (control_stream_unframe protocol f)) q"

definition stream_messages :: "ProtocolId \<Rightarrow> bytes list \<Rightarrow> bytes list" where
  "stream_messages protocol q = map (projr \<circ> control_stream_unframe protocol) q"

lemma frame_messages:
  "all_framed p q \<Longrightarrow> list_all (\<lambda>f. length f \<le> usize_max) q
   \<Longrightarrow> map (control_stream_frame p) (stream_messages p q) = map Inr q"
  by (induction q) (auto simp: all_framed_def stream_messages_def is_ok_iff unframe_frame_iff [symmetric])

locale control_stream_lane = message_lane ok queue send receive
  for ok :: "'c \<Rightarrow> bool" and queue :: "'c \<Rightarrow> bytes list"
    and send :: "bytes \<Rightarrow> 'c \<Rightarrow> (TransportError, unit) result \<times> 'c"
    and receive :: "'c \<Rightarrow> (TransportError, bytes option) result \<times> 'c" +
  fixes protocol :: ProtocolId
  assumes queue_usize: "ok c \<Longrightarrow> list_all (\<lambda>f. length f \<le> usize_max) (queue c)"

sublocale control_stream_lane \<subseteq> stream: message_lane
  "\<lambda>c. ok c \<and> all_framed protocol (queue c)" "\<lambda>c. stream_messages protocol (queue c)"
  "ControlStream_try_send send protocol" "ControlStream_try_receive receive protocol"
proof
  fix m c u c'
  assume c: "ok c \<and> all_framed protocol (queue c)" and s: "ControlStream_try_send send protocol m c = (Inr u, c')"
  then obtain f where f: "control_stream_frame protocol m = Inr f" "send f c = (Inr u, c')"
    by (auto simp: ControlStream_try_send_def split: sum.splits)
  then have q: "ok c'" "queue c' = queue c @ [f]" using send_ok c by (auto simp: all_framed_def)
  then have "control_stream_unframe protocol f = Inr m"
    using f(1) queue_usize [of c'] by (simp add: unframe_frame_iff)
  with c q show "(ok c' \<and> all_framed protocol (queue c')) \<and> stream_messages protocol (queue c') = stream_messages protocol (queue c) @ [m]"
    by (simp add: all_framed_def stream_messages_def)
next
  fix m c e c'
  assume "ok c \<and> all_framed protocol (queue c)" "ControlStream_try_send send protocol m c = (Inl e, c')"
  then show "(ok c' \<and> all_framed protocol (queue c')) \<and> stream_messages protocol (queue c') = stream_messages protocol (queue c)"
    using send_err by (fastforce simp: ControlStream_try_send_def all_framed_def stream_messages_def split: sum.splits)
next
  fix c m c'
  assume c: "ok c \<and> all_framed protocol (queue c)" and "ControlStream_try_receive receive protocol c = (Inr (Some m), c')"
  then obtain f where "receive c = (Inr (Some f), c')" "control_stream_unframe protocol f = Inr m"
    by (auto simp: ControlStream_try_receive_def split: prod.splits sum.splits option.splits)
  with c show "(ok c' \<and> all_framed protocol (queue c')) \<and> stream_messages protocol (queue c) = m # stream_messages protocol (queue c')"
    using receive_some by (fastforce simp: all_framed_def stream_messages_def)
next
  fix c c'
  assume "ok c \<and> all_framed protocol (queue c)" "ControlStream_try_receive receive protocol c = (Inr None, c')"
  then show "(ok c' \<and> all_framed protocol (queue c')) \<and> stream_messages protocol (queue c) = [] \<and> stream_messages protocol (queue c') = []"
    using receive_none
    by (fastforce simp: ControlStream_try_receive_def all_framed_def stream_messages_def
        split: prod.splits sum.splits option.splits)
next
  fix c e c'
  assume c: "ok c \<and> all_framed protocol (queue c)" and r: "ControlStream_try_receive receive protocol c = (Inl e, c')"
  show "(ok c' \<and> all_framed protocol (queue c')) \<and> stream_messages protocol (queue c') = stream_messages protocol (queue c)"
  proof (cases "fst (receive c)")
    case (Inl e')
    with c r show ?thesis
      using receive_err by (fastforce simp: ControlStream_try_receive_def all_framed_def stream_messages_def split: prod.splits)
  next
    case (Inr x)
    with c r receive_some show ?thesis
      by (fastforce simp: ControlStream_try_receive_def all_framed_def is_ok_iff
          split: prod.splits sum.splits option.splits)
  qed
qed

end
