(* ===== verification/Link_Memory.thy ===== *)
theory Link_Memory
  imports Link_Transport
begin

text \<open>
  The in-memory transport of \<^verbatim>\<open>transport.rs\<close>. The two ends of a memory connection
  share their mutex-guarded sides: a connection holds references to its own and to the other
  side, and the operations take the store of both sides and return it updated. A send reads
  its own side, which only its own connection can close, and then updates the other side
  under one lock, so it is one atomic step. A receive takes two locks one after the other;
  the runs below let the peer act between them.
\<close>

subsection \<open>The memory transport\<close>

record MemoryTransportConfig =
  mtc_queue_capacity :: nat
  mtc_max_message_bytes :: nat
  mtc_datagram_capacity :: nat

definition MemoryTransportConfig_default :: MemoryTransportConfig where
  "MemoryTransportConfig_default =
     \<lparr>mtc_queue_capacity = 16, mtc_max_message_bytes = 64 * 1024, mtc_datagram_capacity = 8\<rparr>"

record MemorySide =
  msd_control :: "bytes list"
  msd_reliable :: "bytes list"
  msd_datagrams :: "bytes list"
  msd_write_closed :: bool
  msd_read_closed :: bool
  msd_aborted :: bool

definition MemorySide_new :: MemorySide where
  "MemorySide_new = \<lparr>msd_control = [], msd_reliable = [], msd_datagrams = [], msd_write_closed = False,
     msd_read_closed = False, msd_aborted = False\<rparr>"

datatype SideRef = LeftSide | RightSide

fun peer_side :: "SideRef \<Rightarrow> SideRef" where
  "peer_side LeftSide = RightSide"
| "peer_side RightSide = LeftSide"

type_synonym MemoryStore = "SideRef \<Rightarrow> MemorySide"

record MemoryConnection =
  mcn_metadata :: ConnectionMetadata
  mcn_local :: SideRef
  mcn_remote :: SideRef
  mcn_config :: MemoryTransportConfig

definition memory_transport_pair ::
  "EndpointId \<Rightarrow> EndpointId \<Rightarrow> MemoryTransportConfig
     \<Rightarrow> ((MemoryConnection \<times> MemoryConnection) \<times> MemoryStore) option" where
  "memory_transport_pair left right config =
     (if \<not> mtc_queue_capacity config > 0 then None
      else if \<not> mtc_max_message_bytes config > 0 then None
      else Some
        ((\<lparr>mcn_metadata = \<lparr>cm_local_endpoint = left, cm_remote_endpoint = right, cm_peer_hint = None,
              cm_reliable = True, cm_datagrams = mtc_datagram_capacity config > 0\<rparr>,
            mcn_local = LeftSide, mcn_remote = RightSide, mcn_config = config\<rparr>,
          \<lparr>mcn_metadata = \<lparr>cm_local_endpoint = right, cm_remote_endpoint = left, cm_peer_hint = None,
              cm_reliable = True, cm_datagrams = mtc_datagram_capacity config > 0\<rparr>,
            mcn_local = RightSide, mcn_remote = LeftSide, mcn_config = config\<rparr>),
         \<lambda>_. MemorySide_new))"

datatype MemoryLane = Lane_Control | Lane_Reliable | Lane_Datagram

fun side_queue :: "MemoryLane \<Rightarrow> MemorySide \<Rightarrow> bytes list" where
  "side_queue Lane_Control = msd_control"
| "side_queue Lane_Reliable = msd_reliable"
| "side_queue Lane_Datagram = msd_datagrams"

fun set_side_queue :: "MemoryLane \<Rightarrow> bytes list \<Rightarrow> MemorySide \<Rightarrow> MemorySide" where
  "set_side_queue Lane_Control q side = side\<lparr>msd_control := q\<rparr>"
| "set_side_queue Lane_Reliable q side = side\<lparr>msd_reliable := q\<rparr>"
| "set_side_queue Lane_Datagram q side = side\<lparr>msd_datagrams := q\<rparr>"

fun lane_capacity :: "MemoryTransportConfig \<Rightarrow> MemoryLane \<Rightarrow> nat" where
  "lane_capacity config Lane_Control = mtc_queue_capacity config"
| "lane_capacity config Lane_Reliable = mtc_queue_capacity config"
| "lane_capacity config Lane_Datagram = mtc_datagram_capacity config"

definition MemoryConnection_send_to_remote ::
  "MemoryConnection \<Rightarrow> bytes \<Rightarrow> MemoryLane \<Rightarrow> MemoryStore \<Rightarrow> (TransportError, unit) result \<times> MemoryStore" where
  "MemoryConnection_send_to_remote self message lane store =
     (if length message > mtc_max_message_bytes (mcn_config self)
      then (Inl (TransportError_new Te_MessageTooLarge ''message exceeds transport limit''), store)
      else if msd_write_closed (store (mcn_local self))
      then (Inl (TransportError_new Te_Closed ''write side is closed''), store)
      else
        let remote = store (mcn_remote self) in
        if msd_aborted remote then (Inl (TransportError_new Te_Aborted ''remote connection aborted''), store)
        else if msd_read_closed remote
        then (Inl (TransportError_new Te_Closed ''remote read side is closed''), store)
        else if length (side_queue lane remote) \<ge> lane_capacity (mcn_config self) lane
        then (Inl (TransportError_new Te_WouldBlock ''transport queue is full''), store)
        else (Inr (), store(mcn_remote self := set_side_queue lane (side_queue lane remote @ [message]) remote)))"

text \<open>\<^verbatim>\<open>receive_local\<close> takes two locks one after the other; each critical section is
  a definition. The first decides the call (\<open>Some\<close>) unless the queue is empty.\<close>

definition receive_local_pop ::
  "MemoryConnection \<Rightarrow> MemoryLane \<Rightarrow> MemoryStore \<Rightarrow> (TransportError, bytes) result option \<times> MemoryStore" where
  "receive_local_pop self lane store =
     (let local = store (mcn_local self) in
      if msd_aborted local then (Some (Inl (TransportError_new Te_Aborted ''connection aborted'')), store)
      else if msd_read_closed local
      then (Some (Inl (TransportError_new Te_Closed ''read side is closed'')), store)
      else
        case side_queue lane local of
          message # rest \<Rightarrow> (Some (Inr message), store(mcn_local self := set_side_queue lane rest local))
        | [] \<Rightarrow> (None, store))"

definition receive_local_end :: "MemoryConnection \<Rightarrow> MemoryStore \<Rightarrow> (TransportError, bytes option) result" where
  "receive_local_end self store =
     (if msd_write_closed (store (mcn_remote self)) then Inr None
      else Inl (TransportError_new Te_WouldBlock ''no message is ready''))"

definition MemoryConnection_receive_local ::
  "MemoryConnection \<Rightarrow> MemoryLane \<Rightarrow> MemoryStore \<Rightarrow> (TransportError, bytes option) result \<times> MemoryStore" where
  "MemoryConnection_receive_local self lane store =
     (case receive_local_pop self lane store of
        (Some (Inl e), store) \<Rightarrow> (Inl e, store)
      | (Some (Inr message), store) \<Rightarrow> (Inr (Some message), store)
      | (None, store) \<Rightarrow> (receive_local_end self store, store))"

definition MemoryConnection_try_send :: "MemoryConnection \<Rightarrow> MemoryStore send_op" where
  "MemoryConnection_try_send self message store = MemoryConnection_send_to_remote self message Lane_Reliable store"

definition MemoryConnection_try_receive :: "MemoryConnection \<Rightarrow> MemoryStore receive_op" where
  "MemoryConnection_try_receive self store = MemoryConnection_receive_local self Lane_Reliable store"

definition MemoryConnection_try_send_control :: "MemoryConnection \<Rightarrow> MemoryStore send_op" where
  "MemoryConnection_try_send_control self message store = MemoryConnection_send_to_remote self message Lane_Control store"

definition MemoryConnection_try_receive_control :: "MemoryConnection \<Rightarrow> MemoryStore receive_op" where
  "MemoryConnection_try_receive_control self store = MemoryConnection_receive_local self Lane_Control store"

definition MemoryConnection_try_send_datagram :: "MemoryConnection \<Rightarrow> MemoryStore send_op" where
  "MemoryConnection_try_send_datagram self message store =
     (if mtc_datagram_capacity (mcn_config self) = 0
      then (Inl (TransportError_new Te_Unsupported ''datagrams are not supported''), store)
      else MemoryConnection_send_to_remote self message Lane_Datagram store)"

definition MemoryConnection_try_receive_datagram :: "MemoryConnection \<Rightarrow> MemoryStore receive_op" where
  "MemoryConnection_try_receive_datagram self store =
     (if mtc_datagram_capacity (mcn_config self) = 0
      then (Inl (TransportError_new Te_Unsupported ''datagrams are not supported''), store)
      else MemoryConnection_receive_local self Lane_Datagram store)"

definition MemoryConnection_close_write ::
  "MemoryConnection \<Rightarrow> MemoryStore \<Rightarrow> (TransportError, unit) result \<times> MemoryStore" where
  "MemoryConnection_close_write self store =
     (Inr (), store(mcn_local self := (store (mcn_local self))\<lparr>msd_write_closed := True\<rparr>))"

definition MemoryConnection_close_read ::
  "MemoryConnection \<Rightarrow> MemoryStore \<Rightarrow> (TransportError, unit) result \<times> MemoryStore" where
  "MemoryConnection_close_read self store =
     (Inr (), store(mcn_local self := (store (mcn_local self))\<lparr>msd_read_closed := True\<rparr>))"

definition MemoryConnection_abort :: "MemoryConnection \<Rightarrow> MemoryStore \<Rightarrow> MemoryStore" where
  "MemoryConnection_abort self store =
     store(mcn_local self := (store (mcn_local self))\<lparr>msd_aborted := True\<rparr>)"

subsection \<open>Lanes\<close>

text \<open>The trait methods that send and receive on each lane.\<close>

fun lane_send :: "MemoryLane \<Rightarrow> MemoryConnection \<Rightarrow> MemoryStore send_op" where
  "lane_send Lane_Control = MemoryConnection_try_send_control"
| "lane_send Lane_Reliable = MemoryConnection_try_send"
| "lane_send Lane_Datagram = MemoryConnection_try_send_datagram"

fun lane_receive :: "MemoryLane \<Rightarrow> MemoryConnection \<Rightarrow> MemoryStore receive_op" where
  "lane_receive Lane_Control = MemoryConnection_try_receive_control"
| "lane_receive Lane_Reliable = MemoryConnection_try_receive"
| "lane_receive Lane_Datagram = MemoryConnection_try_receive_datagram"

lemmas lane_defs = MemoryConnection_try_send_control_def MemoryConnection_try_send_def
  MemoryConnection_try_send_datagram_def MemoryConnection_try_receive_control_def
  MemoryConnection_try_receive_def MemoryConnection_try_receive_datagram_def

lemma side_queue_set [simp]:
  "side_queue lane' (set_side_queue lane q side) = (if lane' = lane then q else side_queue lane' side)"
  "msd_write_closed (set_side_queue lane q side) = msd_write_closed side"
  "msd_read_closed (set_side_queue lane q side) = msd_read_closed side"
  "msd_aborted (set_side_queue lane q side) = msd_aborted side"
  by (cases lane; cases lane'; simp)+

lemma side_queue_flags [simp]:
  "side_queue lane (side\<lparr>msd_write_closed := a\<rparr>) = side_queue lane side"
  "side_queue lane (side\<lparr>msd_read_closed := a\<rparr>) = side_queue lane side"
  "side_queue lane (side\<lparr>msd_aborted := a\<rparr>) = side_queue lane side"
  by (cases lane; simp)+

lemma peer_side_simps [simp]: "peer_side (peer_side s) = s" "peer_side s \<noteq> s" "s \<noteq> peer_side s"
  by (cases s; simp)+

lemma peer_side_cases: "s' = s \<or> s' = peer_side s"
  by (cases s; cases s'; simp)

definition wired :: "MemoryTransportConfig \<Rightarrow> SideRef \<Rightarrow> MemoryConnection \<Rightarrow> bool" where
  "wired config s conn = (mcn_local conn = s \<and> mcn_remote conn = peer_side s \<and> mcn_config conn = config)"

lemma lane_send_eq:
  "lane_send lane conn m store =
     (if lane = Lane_Datagram \<and> mtc_datagram_capacity (mcn_config conn) = 0
      then (Inl (TransportError_new Te_Unsupported ''datagrams are not supported''), store)
      else MemoryConnection_send_to_remote conn m lane store)"
  by (cases lane) (simp_all add: lane_defs)

lemma lane_receive_eq:
  "lane_receive lane conn store =
     (if lane = Lane_Datagram \<and> mtc_datagram_capacity (mcn_config conn) = 0
      then (Inl (TransportError_new Te_Unsupported ''datagrams are not supported''), store)
      else MemoryConnection_receive_local conn lane store)"
  by (cases lane) (simp_all add: lane_defs)

lemma send_cases:
  assumes "lane_send lane conn m store = (r, store')" and "wired config s conn"
  obtains (refused) e where "r = Inl e" "store' = store"
  | (accepted) "r = Inr ()" "length m \<le> mtc_max_message_bytes config" "\<not> msd_write_closed (store s)"
      "length (side_queue lane (store (peer_side s))) < lane_capacity config lane"
      "store' = store(peer_side s := set_side_queue lane (side_queue lane (store (peer_side s)) @ [m]) (store (peer_side s)))"
proof (cases r)
  case (Inl e)
  with assms(1) have "store' = store"
    by (simp add: lane_send_eq MemoryConnection_send_to_remote_def Let_def split: if_splits)
  with Inl show ?thesis by (rule refused)
next
  case (Inr u)
  have w: "mcn_local conn = s" "mcn_remote conn = peer_side s" "mcn_config conn = config"
    using assms(2) by (simp_all add: wired_def)
  show ?thesis
    using assms(1) Inr
    by (intro accepted)
      (simp_all add: lane_send_eq MemoryConnection_send_to_remote_def Let_def w split: if_splits)
qed

lemma pop_cases:
  assumes "receive_local_pop conn lane store = (r, store')" and "wired config s conn"
  obtains (refused) e where "r = Some (Inl e)" "store' = store"
  | (message) m q where "r = Some (Inr m)" "side_queue lane (store s) = m # q"
      "store' = store(s := set_side_queue lane q (store s))"
  | (empty) "r = None" "side_queue lane (store s) = []" "store' = store"
proof (cases "msd_aborted (store s) \<or> msd_read_closed (store s)")
  have w: "mcn_local conn = s" using assms(2) by (simp add: wired_def)
  case True
  with assms(1) show ?thesis
    by (cases "msd_aborted (store s)") (auto simp: receive_local_pop_def w intro: refused)
next
  have w: "mcn_local conn = s" using assms(2) by (simp add: wired_def)
  case False
  show ?thesis
  proof (cases "side_queue lane (store s)")
    case Nil
    with False assms(1) show ?thesis by (intro empty) (simp_all add: receive_local_pop_def w)
  next
    case (Cons m q)
    with False assms(1) show ?thesis by (intro message [of m q]) (simp_all add: receive_local_pop_def w)
  qed
qed

lemma receive_cases:
  assumes "lane_receive lane conn store = (r, store')" and "wired config s conn"
  obtains (refused) e where "r = Inl e" "store' = store"
  | (message) m q where "r = Inr (Some m)" "side_queue lane (store s) = m # q"
      "store' = store(s := set_side_queue lane q (store s))"
  | (ended) "r = Inr None" "side_queue lane (store s) = []" "msd_write_closed (store (peer_side s))" "store' = store"
proof (cases "lane = Lane_Datagram \<and> mtc_datagram_capacity config = 0")
  case True
  with assms have "r = Inl (TransportError_new Te_Unsupported ''datagrams are not supported'')" "store' = store"
    by (simp_all add: lane_defs wired_def)
  then show ?thesis by (rule refused)
next
  case False
  have w: "mcn_remote conn = peer_side s" "mcn_config conn = config" using assms(2) by (simp_all add: wired_def)
  have rl: "MemoryConnection_receive_local conn lane store = (r, store')"
    using assms(1) False by (simp add: lane_receive_eq w)
  obtain p store1 where pop: "receive_local_pop conn lane store = (p, store1)" by fastforce
  from pop assms(2) show ?thesis
  proof (cases rule: pop_cases)
    case (refused e)
    with rl pop have "r = Inl e" "store' = store" by (simp_all add: MemoryConnection_receive_local_def)
    then show ?thesis by (rule that(1))
  next
    case (message m q)
    with rl pop show ?thesis by (intro that(2) [of m q]) (simp_all add: MemoryConnection_receive_local_def)
  next
    case empty
    with rl pop have r: "r = receive_local_end conn store" "store' = store"
      by (auto simp: MemoryConnection_receive_local_def)
    show ?thesis
    proof (cases "msd_write_closed (store (peer_side s))")
      case True
      with empty r show ?thesis by (intro that(3)) (simp_all add: receive_local_end_def w)
    next
      case False
      with r have "r = Inl (TransportError_new Te_WouldBlock ''no message is ready'')"
        by (simp add: receive_local_end_def w)
      then show ?thesis using r(2) by (rule that(1))
    qed
  qed
qed

text \<open>Each end's queue of a lane, its capacity respected, is a lane from the other end.\<close>

definition lane_ok :: "MemoryTransportConfig \<Rightarrow> MemoryLane \<Rightarrow> SideRef \<Rightarrow> MemoryStore \<Rightarrow> bool" where
  "lane_ok config lane s store =
     (length (side_queue lane (store s)) \<le> lane_capacity config lane
      \<and> list_all (\<lambda>m. length m \<le> mtc_max_message_bytes config) (side_queue lane (store s)))"

definition memory_end :: "EndpointId \<Rightarrow> EndpointId \<Rightarrow> MemoryTransportConfig \<Rightarrow> SideRef \<Rightarrow> MemoryConnection" where
  "memory_end left right config s =
     \<lparr>mcn_metadata = \<lparr>cm_local_endpoint = (if s = LeftSide then left else right),
         cm_remote_endpoint = (if s = LeftSide then right else left), cm_peer_hint = None,
         cm_reliable = True, cm_datagrams = mtc_datagram_capacity config > 0\<rparr>,
      mcn_local = s, mcn_remote = peer_side s, mcn_config = config\<rparr>"

lemma memory_transport_pair_eq:
  "memory_transport_pair left right config = Some ((a, b), store) \<longleftrightarrow>
     mtc_queue_capacity config > 0 \<and> mtc_max_message_bytes config > 0
     \<and> a = memory_end left right config LeftSide \<and> b = memory_end left right config RightSide
     \<and> store = (\<lambda>_. MemorySide_new)"
  by (auto simp: memory_transport_pair_def memory_end_def)

lemma wired_end: "wired config s (memory_end left right config s)"
  by (simp add: wired_def memory_end_def)

interpretation memory: message_lane "lane_ok config lane (peer_side s)" "\<lambda>store. side_queue lane (store (peer_side s))"
  "lane_send lane (memory_end left right config s)" "lane_receive lane (memory_end left right config (peer_side s))"
  for config lane s left right
proof
  note send = send_cases [OF _ wired_end [of config s left right]]
  note receive = receive_cases [OF _ wired_end [of config "peer_side s" left right]]
  fix c c' m e
  show "lane_ok config lane (peer_side s) c' \<and> side_queue lane (c' (peer_side s)) = side_queue lane (c (peer_side s)) @ [m]"
    if "lane_ok config lane (peer_side s) c" "lane_send lane (memory_end left right config s) m c = (Inr u, c')" for u :: unit
    using send [OF that(2)] by (cases; use that(1) in \<open>auto simp: lane_ok_def\<close>)
  show "lane_ok config lane (peer_side s) c' \<and> side_queue lane (c' (peer_side s)) = side_queue lane (c (peer_side s))"
    if "lane_ok config lane (peer_side s) c" "lane_send lane (memory_end left right config s) m c = (Inl e, c')"
    using send [OF that(2)] by (cases; use that(1) in auto)
  let ?receive = "lane_receive lane (memory_end left right config (peer_side s))"
  show "lane_ok config lane (peer_side s) c' \<and> side_queue lane (c (peer_side s)) = m # side_queue lane (c' (peer_side s))"
    if "lane_ok config lane (peer_side s) c" "?receive c = (Inr (Some m), c')"
    using receive [OF that(2)] by (cases; use that(1) in \<open>auto simp: lane_ok_def\<close>)
  show "lane_ok config lane (peer_side s) c' \<and> side_queue lane (c (peer_side s)) = [] \<and> side_queue lane (c' (peer_side s)) = []"
    if "lane_ok config lane (peer_side s) c" "?receive c = (Inr None, c')"
    using receive [OF that(2)] by (cases; use that(1) in auto)
  show "lane_ok config lane (peer_side s) c' \<and> side_queue lane (c' (peer_side s)) = side_queue lane (c (peer_side s))"
    if "lane_ok config lane (peer_side s) c" "?receive c = (Inl e, c')"
    using receive [OF that(2)] by (cases; use that(1) in auto)
qed

interpretation memory_control: control_stream_lane
  "\<lambda>store. mtc_max_message_bytes config \<le> usize_max \<and> lane_ok config Lane_Control (peer_side s) store"
  "\<lambda>store. side_queue Lane_Control (store (peer_side s))"
  "lane_send Lane_Control (memory_end left right config s)"
  "lane_receive Lane_Control (memory_end left right config (peer_side s))" protocol
  for config s left right protocol
  by (intro control_stream_lane.intro control_stream_lane_axioms.intro memory.guarded)
    (force simp: lane_ok_def list_all_iff)

subsection \<open>Concurrent runs\<close>

text \<open>The history of both ends. A receive that finds its lane empty is between its two locks
  until its second step; its connection is borrowed meanwhile, so only the peer acts.\<close>

datatype MemoryEvent =
    Sent SideRef MemoryLane bytes | Received SideRef MemoryLane bytes | FoundEmpty SideRef MemoryLane
  | EndOfStream SideRef MemoryLane | Refused SideRef | ClosedWrite SideRef | ClosedRead SideRef | AbortedEnd SideRef

inductive memory_run ::
  "EndpointId \<Rightarrow> EndpointId \<Rightarrow> MemoryTransportConfig \<Rightarrow> MemoryEvent list \<Rightarrow> (SideRef \<Rightarrow> MemoryLane option)
     \<Rightarrow> MemoryStore \<Rightarrow> bool"
  for left right config
where
  start: "memory_transport_pair left right config = Some (conns, store) \<Longrightarrow> memory_run left right config [] (\<lambda>_. None) store"
| send: "memory_run left right config h pend store \<Longrightarrow> pend s = None
    \<Longrightarrow> lane_send lane (memory_end left right config s) m store = (r, store')
    \<Longrightarrow> memory_run left right config (h @ [if is_ok r then Sent s lane m else Refused s]) pend store'"
| take: "memory_run left right config h pend store \<Longrightarrow> pend s = None
    \<Longrightarrow> receive_local_pop (memory_end left right config s) lane store = (Some r, store')
    \<Longrightarrow> memory_run left right config (h @ [case r of Inr m \<Rightarrow> Received s lane m | Inl e \<Rightarrow> Refused s]) pend store'"
| find_empty: "memory_run left right config h pend store \<Longrightarrow> pend s = None
    \<Longrightarrow> receive_local_pop (memory_end left right config s) lane store = (None, store')
    \<Longrightarrow> memory_run left right config (h @ [FoundEmpty s lane]) (pend(s := Some lane)) store'"
| finish: "memory_run left right config h pend store \<Longrightarrow> pend s = Some lane
    \<Longrightarrow> receive_local_end (memory_end left right config s) store = r
    \<Longrightarrow> memory_run left right config (h @ [if is_ok r then EndOfStream s lane else Refused s]) (pend(s := None)) store"
| close_write: "memory_run left right config h pend store \<Longrightarrow> pend s = None
    \<Longrightarrow> MemoryConnection_close_write (memory_end left right config s) store = (r, store')
    \<Longrightarrow> memory_run left right config (h @ [ClosedWrite s]) pend store'"
| close_read: "memory_run left right config h pend store \<Longrightarrow> pend s = None
    \<Longrightarrow> MemoryConnection_close_read (memory_end left right config s) store = (r, store')
    \<Longrightarrow> memory_run left right config (h @ [ClosedRead s]) pend store'"
| abort: "memory_run left right config h pend store \<Longrightarrow> pend s = None
    \<Longrightarrow> MemoryConnection_abort (memory_end left right config s) store = store'
    \<Longrightarrow> memory_run left right config (h @ [AbortedEnd s]) pend store'"

definition sent_on :: "SideRef \<Rightarrow> MemoryLane \<Rightarrow> MemoryEvent list \<Rightarrow> bytes list" where
  "sent_on s lane h =
     concat (map (\<lambda>e. case e of Sent s' lane' m \<Rightarrow> if s' = s \<and> lane' = lane then [m] else [] | _ \<Rightarrow> []) h)"

definition received_on :: "SideRef \<Rightarrow> MemoryLane \<Rightarrow> MemoryEvent list \<Rightarrow> bytes list" where
  "received_on s lane h =
     concat (map (\<lambda>e. case e of Received s' lane' m \<Rightarrow> if s' = s \<and> lane' = lane then [m] else [] | _ \<Rightarrow> []) h)"

lemma history_simps [simp]:
  "sent_on s lane [] = []" "received_on s lane [] = []"
  "sent_on s lane (h @ [e]) = sent_on s lane h @ (case e of Sent s' lane' m \<Rightarrow> if s' = s \<and> lane' = lane then [m] else [] | _ \<Rightarrow> [])"
  "received_on s lane (h @ [e]) = received_on s lane h @ (case e of Received s' lane' m \<Rightarrow> if s' = s \<and> lane' = lane then [m] else [] | _ \<Rightarrow> [])"
  by (simp_all add: sent_on_def received_on_def)

text \<open>A receive found its lane empty and reported the end with no step of the peer between.\<close>

definition clean_end :: "SideRef \<Rightarrow> MemoryLane \<Rightarrow> MemoryEvent list \<Rightarrow> bool" where
  "clean_end s lane h \<longleftrightarrow> (\<exists>h1 h2. h = h1 @ FoundEmpty s lane # EndOfStream s lane # h2)"

lemma clean_end_Nil [simp]: "\<not> clean_end s lane []"
  by (simp add: clean_end_def)

lemma clean_end_snoc [simp]:
  "clean_end s lane (h @ [e]) \<longleftrightarrow> clean_end s lane h \<or> e = EndOfStream s lane \<and> h \<noteq> [] \<and> last h = FoundEmpty s lane"
proof
  assume "clean_end s lane (h @ [e])"
  then obtain h1 h2 where eq: "h @ [e] = (h1 @ [FoundEmpty s lane, EndOfStream s lane]) @ h2"
    by (auto simp: clean_end_def)
  show "clean_end s lane h \<or> e = EndOfStream s lane \<and> h \<noteq> [] \<and> last h = FoundEmpty s lane"
  proof (cases h2 rule: rev_cases)
    case Nil
    with eq have "h = h1 @ [FoundEmpty s lane]" "e = EndOfStream s lane" by (simp_all add: append_eq_append_conv2)
    then show ?thesis by simp
  next
    case (snoc h3 x)
    with eq have "h = h1 @ FoundEmpty s lane # EndOfStream s lane # h3" by simp
    then show ?thesis by (auto simp: clean_end_def)
  qed
next
  assume "clean_end s lane h \<or> e = EndOfStream s lane \<and> h \<noteq> [] \<and> last h = FoundEmpty s lane"
  then show "clean_end s lane (h @ [e])"
  proof (elim disjE)
    assume "clean_end s lane h"
    then show ?thesis unfolding clean_end_def by (metis append.assoc append_Cons)
  next
    assume e: "e = EndOfStream s lane \<and> h \<noteq> [] \<and> last h = FoundEmpty s lane"
    then have "h = butlast h @ [FoundEmpty s lane]" by (metis append_butlast_last_id)
    with e have "h @ [e] = butlast h @ FoundEmpty s lane # EndOfStream s lane # []" by simp
    then show ?thesis unfolding clean_end_def by blast
  qed
qed

text \<open>The invariant of a run, for the lane into one end: its bounded queue holds what was sent
  and not received, an end that was reported stays closed, and a clean end leaves nothing.\<close>

definition memory_inv :: "MemoryTransportConfig \<Rightarrow> SideRef \<Rightarrow> MemoryLane \<Rightarrow> MemoryEvent list \<Rightarrow> MemoryStore \<Rightarrow> bool" where
  "memory_inv config s lane h store \<longleftrightarrow>
     sent_on (peer_side s) lane h = received_on s lane h @ side_queue lane (store s)
     \<and> lane_ok config lane s store
     \<and> (EndOfStream s lane \<in> set h \<longrightarrow> msd_write_closed (store (peer_side s)))
     \<and> (h \<noteq> [] \<and> last h = FoundEmpty s lane \<longrightarrow> side_queue lane (store s) = [])
     \<and> (clean_end s lane h \<longrightarrow> side_queue lane (store s) = [] \<and> msd_write_closed (store (peer_side s)))"

lemma memory_inv_run: "memory_run left right config h pend store \<Longrightarrow> memory_inv config s lane h store"
proof (induction rule: memory_run.induct)
  case (start conns store)
  then have "store = (\<lambda>_. MemorySide_new)"
    by (cases conns) (simp add: memory_transport_pair_eq)
  then show ?case by (cases lane) (simp_all add: memory_inv_def lane_ok_def MemorySide_new_def)
next
  case (send h pend store s' lane' m r store')
  from send.hyps(3) wired_end show ?case
  proof (cases rule: send_cases)
    case (refused e)
    with send.IH show ?thesis by (simp add: memory_inv_def)
  next
    case accepted
    then show ?thesis
    proof (cases "s' = peer_side s")
      case True
      with send.IH accepted show ?thesis by (auto simp: memory_inv_def lane_ok_def)
    next
      case False
      then have "s' = s" using peer_side_cases by metis
      with send.IH accepted show ?thesis by (auto simp: memory_inv_def lane_ok_def)
    qed
  qed
next
  case (take h pend store s' lane' r store')
  from take.hyps(3) wired_end show ?case
  proof (cases rule: pop_cases)
    case (refused e)
    with take.IH show ?thesis by (simp add: memory_inv_def)
  next
    case (message m q)
    with take.IH show ?thesis by (auto simp: memory_inv_def lane_ok_def)
  qed simp
next
  case (find_empty h pend store s' lane' store')
  from find_empty.hyps(3) wired_end show ?case
  proof (cases rule: pop_cases)
    case empty
    with find_empty.IH show ?thesis by (auto simp: memory_inv_def)
  qed simp_all
next
  case (finish h pend store s' lane' r)
  then show ?case
    by (auto simp: memory_inv_def receive_local_end_def memory_end_def split: if_splits)
next
  case (close_write h pend store s' r store')
  then show ?case
    by (auto simp: memory_inv_def lane_ok_def MemoryConnection_close_write_def memory_end_def)
next
  case (close_read h pend store s' r store')
  then show ?case
    by (auto simp: memory_inv_def lane_ok_def MemoryConnection_close_read_def memory_end_def)
next
  case (abort h pend store s' store')
  then show ?case
    by (auto simp: memory_inv_def lane_ok_def MemoryConnection_abort_def memory_end_def)
qed

subsection \<open>Properties\<close>

text \<open>C17: the memory transport delivers. Whatever both ends do concurrently, and however
  their critical sections interleave, on every lane and in both directions the messages
  accepted from the sender are those the receiver took followed by those in its queue, in
  order; no queue or message exceeds its configured bound; and once a receive reports the
  end of a lane without an intervening step of the peer, everything sent has been received
  and nothing is accepted any more.\<close>

theorem memory_transport_delivers:
  assumes "memory_run left right config h pend store"
  shows "sent_on (peer_side s) lane h = received_on s lane h @ side_queue lane (store s)
    \<and> length (side_queue lane (store s)) \<le> lane_capacity config lane
    \<and> list_all (\<lambda>m. length m \<le> mtc_max_message_bytes config) (side_queue lane (store s))
    \<and> (clean_end s lane h \<longrightarrow>
         received_on s lane h = sent_on (peer_side s) lane h
         \<and> (\<forall>m. \<exists>e. lane_send lane (memory_end left right config (peer_side s)) m store = (Inl e, store)))"
proof -
  have inv: "memory_inv config s lane h store" using assms by (rule memory_inv_run)
  have "\<exists>e. lane_send lane (memory_end left right config (peer_side s)) m store = (Inl e, store)"
    if "msd_write_closed (store (peer_side s))" for m
  proof -
    obtain r store' where send: "lane_send lane (memory_end left right config (peer_side s)) m store = (r, store')"
      by fastforce
    from send wired_end show ?thesis by (cases rule: send_cases) (use send that in auto)
  qed
  with inv show ?thesis by (simp add: memory_inv_def lane_ok_def)
qed

definition sample_memory :: MemoryTransportConfig where
  "sample_memory = \<lparr>mtc_queue_capacity = 2, mtc_max_message_bytes = 16, mtc_datagram_capacity = 0\<rparr>"

lemmas sample_memory_simps = MemoryConnection_send_to_remote_def lane_defs receive_local_pop_def receive_local_end_def
  memory_end_def sample_memory_def MemoryConnection_close_write_def MemorySide_new_def Let_def

lemma sample_memory_start: "memory_run l r sample_memory [] (\<lambda>_. None) (\<lambda>_. MemorySide_new)"
proof -
  have "memory_transport_pair l r sample_memory
      = Some ((memory_end l r sample_memory LeftSide, memory_end l r sample_memory RightSide), \<lambda>_. MemorySide_new)"
    by (simp only: memory_transport_pair_eq) (simp add: sample_memory_def)
  then show ?thesis by (rule memory_run.start)
qed

text \<open>C17 witness: a message, its delivery and the end of the lane.\<close>

theorem memory_transport_delivers_witness:
  "\<exists>h pend store. memory_run (EndpointId 1) (EndpointId 2) sample_memory h pend store
     \<and> clean_end RightSide Lane_Reliable h \<and> sent_on LeftSide Lane_Reliable h = [[7]]
     \<and> received_on RightSide Lane_Reliable h = sent_on LeftSide Lane_Reliable h"
proof -
  let ?run = "memory_run (EndpointId 1) (EndpointId 2) sample_memory"
  let ?s0 = "\<lambda>_ :: SideRef. MemorySide_new"
  let ?s1 = "?s0(RightSide := MemorySide_new\<lparr>msd_reliable := [[7]]\<rparr>)"
  let ?s2 = "?s1(LeftSide := MemorySide_new\<lparr>msd_write_closed := True\<rparr>)"
  let ?s3 = "?s2(RightSide := MemorySide_new)"
  have r1: "?run ([] @ [Sent LeftSide Lane_Reliable [7]]) (\<lambda>_. None) ?s1"
    using memory_run.send [where s = LeftSide and lane = Lane_Reliable and m = "[7]" and r = "Inr ()" and store' = ?s1,
        OF sample_memory_start]
    by (simp add: sample_memory_simps)
  have r2: "?run (([] @ [Sent LeftSide Lane_Reliable [7]]) @ [ClosedWrite LeftSide]) (\<lambda>_. None) ?s2"
    by (rule memory_run.close_write [OF r1]) (simp_all add: sample_memory_simps)
  have r3: "?run ((([] @ [Sent LeftSide Lane_Reliable [7]]) @ [ClosedWrite LeftSide]) @ [Received RightSide Lane_Reliable [7]])
      (\<lambda>_. None) ?s3"
    using memory_run.take [where s = RightSide and lane = Lane_Reliable and r = "Inr [7]" and store' = ?s3, OF r2] by (simp add: sample_memory_simps)
  have r4: "?run (((([] @ [Sent LeftSide Lane_Reliable [7]]) @ [ClosedWrite LeftSide]) @ [Received RightSide Lane_Reliable [7]])
      @ [FoundEmpty RightSide Lane_Reliable]) ((\<lambda>_. None)(RightSide := Some Lane_Reliable)) ?s3"
    by (rule memory_run.find_empty [OF r3]) (simp_all add: sample_memory_simps)
  have r5: "?run ((((([] @ [Sent LeftSide Lane_Reliable [7]]) @ [ClosedWrite LeftSide]) @ [Received RightSide Lane_Reliable [7]])
      @ [FoundEmpty RightSide Lane_Reliable]) @ [EndOfStream RightSide Lane_Reliable])
      (((\<lambda>_. None)(RightSide := Some Lane_Reliable))(RightSide := None)) ?s3"
    using memory_run.finish [where s = RightSide and lane = Lane_Reliable and r = "Inr None", OF r4] by (simp add: sample_memory_simps)
  let ?h = "(((([] @ [Sent LeftSide Lane_Reliable [7]]) @ [ClosedWrite LeftSide]) @ [Received RightSide Lane_Reliable [7]])
      @ [FoundEmpty RightSide Lane_Reliable]) @ [EndOfStream RightSide Lane_Reliable]"
  have "clean_end RightSide Lane_Reliable ?h" "sent_on LeftSide Lane_Reliable ?h = [[7]]"
    by (simp_all only: clean_end_snoc history_simps) simp_all
  with memory_transport_delivers [OF r5, of RightSide Lane_Reliable] r5 show ?thesis
    unfolding peer_side.simps by blast
qed

text \<open>A receive is not atomic: between its two locks the peer can send and close, and the
  receive then reports the end of the lane while a message is waiting in it.\<close>

lemma end_of_stream_race:
  "\<exists>h pend store. memory_run (EndpointId 1) (EndpointId 2) sample_memory h pend store
     \<and> EndOfStream RightSide Lane_Reliable \<in> set h \<and> side_queue Lane_Reliable (store RightSide) = [[7]]"
proof -
  let ?run = "memory_run (EndpointId 1) (EndpointId 2) sample_memory"
  let ?p = "(\<lambda>_. None)(RightSide := Some Lane_Reliable)"
  let ?s0 = "\<lambda>_ :: SideRef. MemorySide_new"
  let ?s1 = "?s0(RightSide := MemorySide_new\<lparr>msd_reliable := [[7]]\<rparr>)"
  let ?s2 = "?s1(LeftSide := MemorySide_new\<lparr>msd_write_closed := True\<rparr>)"
  have r1: "?run ([] @ [FoundEmpty RightSide Lane_Reliable]) ?p ?s0"
    by (rule memory_run.find_empty [OF sample_memory_start]) (simp_all add: sample_memory_simps)
  have r2: "?run (([] @ [FoundEmpty RightSide Lane_Reliable]) @ [Sent LeftSide Lane_Reliable [7]]) ?p ?s1"
    using memory_run.send [where s = LeftSide and lane = Lane_Reliable and m = "[7]" and r = "Inr ()" and store' = ?s1,
        OF r1]
    by (simp add: sample_memory_simps)
  have r3: "?run ((([] @ [FoundEmpty RightSide Lane_Reliable]) @ [Sent LeftSide Lane_Reliable [7]]) @ [ClosedWrite LeftSide]) ?p ?s2"
    by (rule memory_run.close_write [OF r2]) (simp_all add: sample_memory_simps)
  have "?run (((([] @ [FoundEmpty RightSide Lane_Reliable]) @ [Sent LeftSide Lane_Reliable [7]]) @ [ClosedWrite LeftSide])
      @ [EndOfStream RightSide Lane_Reliable]) (?p(RightSide := None)) ?s2"
    using memory_run.finish [where s = RightSide and lane = Lane_Reliable and r = "Inr None", OF r3]
    by (simp add: sample_memory_simps)
  then show ?thesis by (intro exI conjI) (assumption, simp_all)
qed

text \<open>Control streams are transparent. On a fresh memory connection, whatever sequence of
  control-stream sends at one end and receives at the other is made with one protocol, the
  messages of the accepted sends are those received followed by those framed in the queue,
  in order and unchanged.\<close>

theorem control_stream_transparent:
  assumes "memory_transport_pair left right config = Some ((a, b), store0)" and "mtc_max_message_bytes config \<le> usize_max"
    and "lane_run (ControlStream_try_send (MemoryConnection_try_send_control a) protocol)
           (ControlStream_try_receive (MemoryConnection_try_receive_control b) protocol) ops store0
         = (sent, received, store)"
  shows "\<exists>waiting. sent = received @ waiting
    \<and> map (control_stream_frame protocol) waiting = map Inr (msd_control (store RightSide))"
proof -
  have ab: "a = memory_end left right config LeftSide" "b = memory_end left right config RightSide"
    "store0 = (\<lambda>_. MemorySide_new)"
    using assms(1) by (simp_all add: memory_transport_pair_eq)
  have start: "(mtc_max_message_bytes config \<le> usize_max \<and> lane_ok config Lane_Control (peer_side LeftSide) store0)
      \<and> all_framed protocol (side_queue Lane_Control (store0 (peer_side LeftSide)))"
    using assms(2) by (simp add: ab lane_ok_def all_framed_def MemorySide_new_def)
  have run: "((mtc_max_message_bytes config \<le> usize_max \<and> lane_ok config Lane_Control (peer_side LeftSide) store)
        \<and> all_framed protocol (side_queue Lane_Control (store (peer_side LeftSide))))
      \<and> stream_messages protocol (side_queue Lane_Control (store0 (peer_side LeftSide))) @ sent
        = received @ stream_messages protocol (side_queue Lane_Control (store (peer_side LeftSide)))"
    using assms(3) unfolding ab(1,2)
    by (intro memory_control.stream.run_fifo [OF start]) simp
  then have "map (control_stream_frame protocol) (stream_messages protocol (msd_control (store RightSide)))
      = map Inr (msd_control (store RightSide))"
    by (intro frame_messages) (force simp: lane_ok_def list_all_iff)+
  moreover have "sent = received @ stream_messages protocol (msd_control (store RightSide))"
    using run by (simp add: ab stream_messages_def MemorySide_new_def)
  ultimately show ?thesis by blast
qed

text \<open>Two messages, one of them received.\<close>

theorem control_stream_transparent_witness:
  "\<exists>a b store0 received store. memory_transport_pair (EndpointId 1) (EndpointId 2) sample_memory = Some ((a, b), store0)
     \<and> lane_run (ControlStream_try_send (MemoryConnection_try_send_control a) (ProtocolId [112]))
         (ControlStream_try_receive (MemoryConnection_try_receive_control b) (ProtocolId [112]))
         [LaneSend [1, 2], LaneSend [3], LaneReceive] store0 = ([[1, 2], [3]], received, store)
     \<and> (\<exists>waiting. [[1, 2], [3]] = received @ waiting)"
proof -
  let ?p = "ProtocolId [112]"
  let ?a = "memory_end (EndpointId 1) (EndpointId 2) sample_memory LeftSide"
  let ?b = "memory_end (EndpointId 1) (EndpointId 2) sample_memory RightSide"
  have pair: "memory_transport_pair (EndpointId 1) (EndpointId 2) sample_memory = Some ((?a, ?b), \<lambda>_. MemorySide_new)"
    by (simp only: memory_transport_pair_eq) (simp add: sample_memory_def)
  have frames: "control_stream_frame ?p [1, 2] = Inr [77, 76, 67, 83, 1, 0, 1, 112, 1, 2]"
    "control_stream_frame ?p [3] = Inr [77, 76, 67, 83, 1, 0, 1, 112, 3]"
    by (simp_all add: control_stream_frame_def CONTROL_STREAM_MAGIC_def CONTROL_STREAM_VERSION_def
        CONTROL_STREAM_HEADER_LEN_def usize_checked_add_def usize_max_def to_be_bytes_def byte_indices)
  obtain sent received store where run: "lane_run (ControlStream_try_send (MemoryConnection_try_send_control ?a) ?p)
      (ControlStream_try_receive (MemoryConnection_try_receive_control ?b) ?p)
      [LaneSend [1, 2], LaneSend [3], LaneReceive] (\<lambda>_. MemorySide_new) = (sent, received, store)"
    by (metis prod_cases3)
  have "sent = [[1, 2], [3]]"
    using run by (auto simp: ControlStream_try_send_def frames sample_memory_simps split: prod.splits)
  moreover have "mtc_max_message_bytes sample_memory \<le> usize_max" by (simp add: sample_memory_def usize_max_def)
  ultimately show ?thesis
    using pair run control_stream_transparent [OF pair _ run] by blast
qed

end
