(* ===== verification/Link_Resume.thy ===== *)
theory Link_Resume
  imports Link_Mux
begin

text \<open>
  Session resumption, \<^verbatim>\<open>resume.rs\<close>: validation of a resume offer and the
  bookkeeping of unacknowledged requests, which decides after a reconnection which requests
  are sent again. The token verifier is a trait the application implements and is the
  argument \<open>verify\<close>. The lemmas show that a request is replayed automatically only when its
  owner declared it idempotent and the session was resumed, at most once, and never after it
  was acknowledged.
\<close>

subsection \<open>Types\<close>

datatype RequestReplay = Replay_Never | Idempotent | ApplicationDecides

record ChannelCursor =
  cur_channel :: ChannelKey
  cur_cursor :: bytes

record ResumeOffer =
  ro_token :: bytes
  ro_peer_id :: PeerId
  ro_previous_session_id :: SessionId
  ro_expires_at_unix_ms :: u64
  ro_channel_cursors :: "ChannelCursor list"

record ResumeLimits =
  rsl_max_token_bytes :: nat
  rsl_max_channels :: nat
  rsl_max_cursor_bytes :: nat
  rsl_max_pending_requests :: nat

definition ResumeLimits_default :: ResumeLimits where
  "ResumeLimits_default =
     \<lparr>rsl_max_token_bytes = 512, rsl_max_channels = 64, rsl_max_cursor_bytes = 256, rsl_max_pending_requests = 128\<rparr>"

definition ResumeLimits_is_valid :: "ResumeLimits \<Rightarrow> bool" where
  "ResumeLimits_is_valid self =
     (rsl_max_token_bytes self > 0 \<and> rsl_max_channels self > 0 \<and> rsl_max_cursor_bytes self > 0
      \<and> rsl_max_pending_requests self > 0)"

datatype NewSessionReason = NoResumeRequested | TokenRejected | TokenExpired | PeerMismatch | LimitsExceeded

datatype SessionContinuity = NewSession NewSessionReason | Resumed SessionId

definition SessionContinuity_default :: SessionContinuity where
  "SessionContinuity_default = NewSession NoResumeRequested"

datatype ResumeErrorKind =
    Rs_InvalidLimits | Rs_TokenTooLarge | Rs_TooManyChannels | Rs_CursorTooLarge | Rs_TooManyPendingRequests
  | Rs_DuplicateRequest

record ResumeError =
  rs_kind :: ResumeErrorKind
  rs_public_message :: string

fun resume_error_message :: "ResumeErrorKind \<Rightarrow> string" where
  "resume_error_message Rs_InvalidLimits = ''resume limits must be positive''"
| "resume_error_message Rs_TokenTooLarge = ''resume token exceeds configured limit''"
| "resume_error_message Rs_TooManyChannels = ''resume channel count exceeds configured limit''"
| "resume_error_message Rs_CursorTooLarge = ''resume cursor exceeds configured limit''"
| "resume_error_message Rs_TooManyPendingRequests = ''pending request count exceeds configured limit''"
| "resume_error_message Rs_DuplicateRequest = ''request is already awaiting acknowledgement''"

definition resume_error :: "ResumeErrorKind \<Rightarrow> ResumeError" where
  "resume_error kind = \<lparr>rs_kind = kind, rs_public_message = resume_error_message kind\<rparr>"

record PendingRequest =
  pend_id :: u64
  pend_replay :: RequestReplay

record ReplayPlan =
  plan_automatically_retry :: "u64 list"
  plan_application_decision :: "u64 list"
  plan_fail_without_retry :: "u64 list"

record ResumeCoordinator =
  rc_limits :: ResumeLimits
  rc_pending :: "PendingRequest list"

subsection \<open>Operations\<close>

definition ResumeCoordinator_new :: "ResumeLimits \<Rightarrow> (ResumeError, ResumeCoordinator) result" where
  "ResumeCoordinator_new limits =
     (if \<not> ResumeLimits_is_valid limits then Inl (resume_error Rs_InvalidLimits)
      else Inr \<lparr>rc_limits = limits, rc_pending = []\<rparr>)"

definition ResumeCoordinator_validate_offer ::
  "ResumeCoordinator \<Rightarrow> ResumeOffer \<Rightarrow> PeerId \<Rightarrow> u64 \<Rightarrow> (ResumeOffer \<Rightarrow> bool) \<Rightarrow> SessionContinuity" where
  "ResumeCoordinator_validate_offer self offer expected_peer now_unix_ms verify =
     (if ro_peer_id offer \<noteq> expected_peer then NewSession PeerMismatch
      else if now_unix_ms \<ge> ro_expires_at_unix_ms offer then NewSession TokenExpired
      else if ro_token offer = []
              \<or> length (ro_token offer) > rsl_max_token_bytes (rc_limits self)
              \<or> length (ro_channel_cursors offer) > rsl_max_channels (rc_limits self)
              \<or> list_ex (\<lambda>cursor. length (cur_cursor cursor) > rsl_max_cursor_bytes (rc_limits self))
                   (ro_channel_cursors offer)
      then NewSession LimitsExceeded
      else if \<not> verify offer then NewSession TokenRejected
      else Resumed (ro_previous_session_id offer))"

definition ResumeCoordinator_record_unacknowledged ::
  "ResumeCoordinator \<Rightarrow> u64 \<Rightarrow> RequestReplay \<Rightarrow> (ResumeError, unit) result \<times> ResumeCoordinator" where
  "ResumeCoordinator_record_unacknowledged self request_id replay =
     (if list_ex (\<lambda>request. pend_id request = request_id) (rc_pending self)
      then (Inl (resume_error Rs_DuplicateRequest), self)
      else if length (rc_pending self) \<ge> rsl_max_pending_requests (rc_limits self)
      then (Inl (resume_error Rs_TooManyPendingRequests), self)
      else (Inr (), self\<lparr>rc_pending := rc_pending self @ [\<lparr>pend_id = request_id, pend_replay = replay\<rparr>]\<rparr>))"

fun request_position :: "u64 \<Rightarrow> PendingRequest list \<Rightarrow> nat option" where
  "request_position request_id [] = None"
| "request_position request_id (request # requests) =
     (if pend_id request = request_id then Some 0
      else map_option Suc (request_position request_id requests))"

definition ResumeCoordinator_acknowledge :: "ResumeCoordinator \<Rightarrow> u64 \<Rightarrow> bool \<times> ResumeCoordinator" where
  "ResumeCoordinator_acknowledge self request_id =
     (case request_position request_id (rc_pending self) of
        None \<Rightarrow> (False, self)
      | Some index \<Rightarrow> (True, self\<lparr>rc_pending := remove_at index (rc_pending self)\<rparr>))"

fun plan_loop :: "SessionContinuity \<Rightarrow> ReplayPlan \<Rightarrow> PendingRequest list \<Rightarrow> ReplayPlan" where
  "plan_loop continuity plan [] = plan"
| "plan_loop continuity plan (request # requests) =
     plan_loop continuity
       (case (continuity, pend_replay request) of
          (Resumed _, Idempotent) \<Rightarrow>
            plan\<lparr>plan_automatically_retry := plan_automatically_retry plan @ [pend_id request]\<rparr>
        | (_, ApplicationDecides) \<Rightarrow>
            plan\<lparr>plan_application_decision := plan_application_decision plan @ [pend_id request]\<rparr>
        | _ \<Rightarrow> plan\<lparr>plan_fail_without_retry := plan_fail_without_retry plan @ [pend_id request]\<rparr>)
       requests"

definition ResumeCoordinator_plan_after_reconnect ::
  "ResumeCoordinator \<Rightarrow> SessionContinuity \<Rightarrow> ReplayPlan \<times> ResumeCoordinator" where
  "ResumeCoordinator_plan_after_reconnect self continuity =
     (plan_loop continuity
        \<lparr>plan_automatically_retry = [], plan_application_decision = [], plan_fail_without_retry = []\<rparr>
        (rc_pending self),
      self\<lparr>rc_pending := []\<rparr>)"

definition ResumeCoordinator_pending_requests :: "ResumeCoordinator \<Rightarrow> nat" where
  "ResumeCoordinator_pending_requests self = length (rc_pending self)"

subsection \<open>What happens to a request\<close>

lemma plan_loop_eq:
  "plan_loop continuity plan requests =
   \<lparr>plan_automatically_retry = plan_automatically_retry plan
      @ map pend_id (filter (\<lambda>r. pend_replay r = Idempotent \<and> (\<exists>s. continuity = Resumed s)) requests),
    plan_application_decision = plan_application_decision plan
      @ map pend_id (filter (\<lambda>r. pend_replay r = ApplicationDecides) requests),
    plan_fail_without_retry = plan_fail_without_retry plan
      @ map pend_id (filter (\<lambda>r. pend_replay r = Replay_Never
          \<or> pend_replay r = Idempotent \<and> (\<nexists>s. continuity = Resumed s)) requests)\<rparr>"
proof (induction requests arbitrary: plan)
  case (Cons r requests)
  show ?case
    using Cons.IH by (cases continuity; cases "pend_replay r") simp_all
qed simp

lemma request_position_Some:
  "request_position i rs = Some k \<Longrightarrow>
   k < length rs \<and> pend_id (rs ! k) = i \<and> (\<forall>j < k. pend_id (rs ! j) \<noteq> i)"
proof (induction rs arbitrary: k)
  case (Cons r rs)
  then show ?case by (cases k) (auto simp: less_Suc_eq_0_disj split: if_splits)
qed simp

lemma request_position_None: "request_position i rs = None \<longleftrightarrow> i \<notin> pend_id ` set rs"
  by (induction rs) auto

datatype ResumeOp = Op_Record u64 RequestReplay | Op_Acknowledge u64

fun resume_exec :: "ResumeOp \<Rightarrow> ResumeCoordinator \<Rightarrow> ResumeCoordinator" where
  "resume_exec (Op_Record i replay) c = snd (ResumeCoordinator_record_unacknowledged c i replay)"
| "resume_exec (Op_Acknowledge i) c = snd (ResumeCoordinator_acknowledge c i)"

text \<open>The specification: the requests outstanding after a sequence of operations, as a map
  that ignores a second registration and anything beyond the limit.\<close>

fun outstanding :: "nat \<Rightarrow> ResumeOp list \<Rightarrow> (u64 \<times> RequestReplay) list \<Rightarrow> (u64 \<times> RequestReplay) list" where
  "outstanding limit [] reqs = reqs"
| "outstanding limit (Op_Record i replay # ops) reqs =
     outstanding limit ops
       (if i \<in> fst ` set reqs \<or> limit \<le> length reqs then reqs else reqs @ [(i, replay)])"
| "outstanding limit (Op_Acknowledge i # ops) reqs =
     outstanding limit ops (filter (\<lambda>(j, _). j \<noteq> i) reqs)"

definition request_pairs :: "ResumeCoordinator \<Rightarrow> (u64 \<times> RequestReplay) list" where
  "request_pairs c = map (\<lambda>r. (pend_id r, pend_replay r)) (rc_pending c)"

lemma remove_position:
  assumes "request_position i rs = Some k" and "distinct (map pend_id rs)"
  shows "remove_at k rs = filter (\<lambda>r. pend_id r \<noteq> i) rs"
proof -
  note k = request_position_Some [OF assms(1)]
  have split: "rs = take k rs @ rs ! k # drop (Suc k) rs" using k by (simp add: id_take_nth_drop)
  have "\<forall>r \<in> set (take k rs). pend_id r \<noteq> i" using k by (auto simp: in_set_conv_nth)
  moreover have "\<forall>r \<in> set (drop (Suc k) rs). pend_id r \<noteq> i"
    using k assms(2) by (auto simp: in_set_conv_nth distinct_conv_nth)
  ultimately have "filter (\<lambda>r. pend_id r \<noteq> i) rs = take k rs @ drop (Suc k) rs"
    using k by (subst split) (simp add: filter_id_conv)
  then show ?thesis by (simp add: remove_at_def)
qed

lemma filter_request_pairs:
  "filter (\<lambda>(j, replay). P j replay) (map (\<lambda>r. (pend_id r, pend_replay r)) rs)
   = map (\<lambda>r. (pend_id r, pend_replay r)) (filter (\<lambda>r. P (pend_id r) (pend_replay r)) rs)"
  by (induction rs) auto

lemma acknowledge_pending:
  "distinct (map pend_id (rc_pending c)) \<Longrightarrow>
   snd (ResumeCoordinator_acknowledge c i) = c\<lparr>rc_pending := filter (\<lambda>r. pend_id r \<noteq> i) (rc_pending c)\<rparr>"
proof (cases "request_position i (rc_pending c)")
  case None
  then have "filter (\<lambda>r. pend_id r \<noteq> i) (rc_pending c) = rc_pending c"
    by (auto simp: request_position_None filter_id_conv)
  with None show ?thesis by (simp add: ResumeCoordinator_acknowledge_def)
qed (simp add: ResumeCoordinator_acknowledge_def remove_position)

lemma record_pending:
  "snd (ResumeCoordinator_record_unacknowledged c i replay) =
   (if i \<in> pend_id ` set (rc_pending c) \<or> rsl_max_pending_requests (rc_limits c) \<le> length (rc_pending c) then c
    else c\<lparr>rc_pending := rc_pending c @ [\<lparr>pend_id = i, pend_replay = replay\<rparr>]\<rparr>)"
  by (auto simp: ResumeCoordinator_record_unacknowledged_def list_ex_iff)

lemma resume_exec_refines:
  assumes "distinct (map pend_id (rc_pending c))"
  shows "distinct (map pend_id (rc_pending (resume_exec op c))) \<and> rc_limits (resume_exec op c) = rc_limits c
    \<and> outstanding (rsl_max_pending_requests (rc_limits c)) (op # ops) (request_pairs c)
      = outstanding (rsl_max_pending_requests (rc_limits c)) ops (request_pairs (resume_exec op c))"
proof (cases op)
  case (Op_Record i replay)
  have "fst ` set (request_pairs c) = pend_id ` set (rc_pending c)" by (auto simp: request_pairs_def image_iff)
  with assms Op_Record show ?thesis by (auto simp: record_pending request_pairs_def)
next
  case (Op_Acknowledge i)
  with assms show ?thesis
    by (simp add: acknowledge_pending request_pairs_def distinct_map_filter filter_request_pairs [of "\<lambda>j _. j \<noteq> i"])
qed

lemma resume_run_refines:
  assumes "distinct (map pend_id (rc_pending c))"
  shows "distinct (map pend_id (rc_pending (fold resume_exec ops c)))
    \<and> request_pairs (fold resume_exec ops c) = outstanding (rsl_max_pending_requests (rc_limits c)) ops (request_pairs c)"
  using assms
proof (induction ops arbitrary: c)
  case (Cons op ops)
  note r = resume_exec_refines [OF Cons.prems, of op ops]
  from Cons.IH [of "resume_exec op c"] r show ?case by simp
qed simp

subsection \<open>Properties\<close>

text \<open>C13: replay is at most once and only where it is safe. After any sequence of registrations
  and acknowledgements, reconnecting sorts exactly the outstanding requests, in order and
  each into one list: those declared idempotent are retried only when the session was
  resumed, those left to the application are reported, all others fail; afterwards none is
  pending, so none is ever planned again.\<close>

theorem replay_plan_exact:
  assumes "ResumeCoordinator_new limits = Inr c0"
    and "ResumeCoordinator_plan_after_reconnect (fold resume_exec ops c0) continuity = (plan, c)"
  shows "(let reqs = outstanding (rsl_max_pending_requests limits) ops [] in
      distinct (map fst reqs)
      \<and> plan_automatically_retry plan
          = map fst (filter (\<lambda>(_, replay). replay = Idempotent \<and> (\<exists>s. continuity = Resumed s)) reqs)
      \<and> plan_application_decision plan = map fst (filter (\<lambda>(_, replay). replay = ApplicationDecides) reqs)
      \<and> plan_fail_without_retry plan
          = map fst (filter (\<lambda>(_, replay). replay = Replay_Never
              \<or> replay = Idempotent \<and> (\<nexists>s. continuity = Resumed s)) reqs)
      \<and> ResumeCoordinator_pending_requests c = 0)"
proof -
  let ?c = "fold resume_exec ops c0"
  have c0: "rc_limits c0 = limits" "rc_pending c0 = []"
    using assms(1) by (auto simp: ResumeCoordinator_new_def split: if_splits)
  then have "distinct (map pend_id (rc_pending c0))" "request_pairs c0 = []" by (simp_all add: request_pairs_def)
  from resume_run_refines [OF this(1), of ops] this(2) c0
  have d: "distinct (map pend_id (rc_pending ?c))"
    and pairs: "outstanding (rsl_max_pending_requests limits) ops [] = request_pairs ?c" by simp_all
  have ids: "map fst (request_pairs ?c) = map pend_id (rc_pending ?c)" by (simp add: request_pairs_def)
  have sel: "map fst (filter (\<lambda>(_, replay). P replay) (request_pairs ?c))
      = map pend_id (filter (\<lambda>r. P (pend_replay r)) (rc_pending ?c))" for P
    by (simp add: request_pairs_def filter_request_pairs [of "\<lambda>_. P"] comp_def)
  show ?thesis
    using assms(2) d unfolding pairs Let_def ids
    by (auto simp: ResumeCoordinator_plan_after_reconnect_def plan_loop_eq ResumeCoordinator_pending_requests_def sel)
qed

text \<open>C13 witness: three requests, one of them acknowledged, and a resumed session.\<close>

theorem replay_plan_exact_witness:
  "\<exists>c0. ResumeCoordinator_new ResumeLimits_default = Inr c0
     \<and> plan_automatically_retry (fst (ResumeCoordinator_plan_after_reconnect
          (fold resume_exec [Op_Record 1 Idempotent, Op_Record 2 Replay_Never, Op_Record 3 Idempotent, Op_Acknowledge 1] c0)
          (Resumed (SessionId 7)))) = [3]"
proof -
  let ?ops = "[Op_Record 1 Idempotent, Op_Record 2 Replay_Never, Op_Record 3 Idempotent, Op_Acknowledge 1]"
  obtain c0 where c0: "ResumeCoordinator_new ResumeLimits_default = Inr c0"
    by (simp add: ResumeCoordinator_new_def ResumeLimits_is_valid_def ResumeLimits_default_def)
  obtain plan c where p: "ResumeCoordinator_plan_after_reconnect (fold resume_exec ?ops c0) (Resumed (SessionId 7)) = (plan, c)"
    by fastforce
  have "outstanding (rsl_max_pending_requests ResumeLimits_default) ?ops [] = [(2, Replay_Never), (3, Idempotent)]"
    by (simp add: ResumeLimits_default_def)
  with replay_plan_exact [OF c0 p] have "plan_automatically_retry plan = [3]"
    by (simp add: ResumeLimits_default_def)
  with c0 p show ?thesis by auto
qed

end
