(* ===== verification/Link_Liveness.thy ===== *)
theory Link_Liveness
  imports Link_Prelude
begin

text \<open>
  Liveness and quality of a connection, \<^verbatim>\<open>liveness.rs\<close>: the heartbeat controller
  that classifies silence and schedules probes, the accumulator that turns observations into
  a quality report with saturating integer arithmetic, and the detector that reports
  significant changes only. Times and counters keep their 64-bit width.
\<close>

subsection \<open>The heartbeat controller\<close>

datatype TransportKind = Tk_Local | Tk_Quic | Tk_Tcp | Tk_Custom string

datatype LivenessState = Healthy | LatencyElevated | TemporarilyUnreachable | Dead | PeerClosed

datatype ConnectionActivityProfile = Prof_Idle | Prof_Active | Prof_Mobile | Prof_Background | Prof_LocalIpc

record HeartbeatPolicy =
  hp_idle_interval_ms :: u64
  hp_active_interval_ms :: u64
  hp_mobile_interval_ms :: u64
  hp_background_interval_ms :: u64
  hp_local_ipc_interval_ms :: u64
  hp_unreachable_after_ms :: u64
  hp_dead_after_ms :: u64

definition HeartbeatPolicy_default :: HeartbeatPolicy where
  "HeartbeatPolicy_default =
     \<lparr>hp_idle_interval_ms = 30000, hp_active_interval_ms = 10000, hp_mobile_interval_ms = 45000,
      hp_background_interval_ms = 120000, hp_local_ipc_interval_ms = 60000,
      hp_unreachable_after_ms = 90000, hp_dead_after_ms = 180000\<rparr>"

definition HeartbeatPolicy_is_valid :: "HeartbeatPolicy \<Rightarrow> bool" where
  "HeartbeatPolicy_is_valid self =
     (hp_idle_interval_ms self > 0 \<and> hp_active_interval_ms self > 0 \<and> hp_mobile_interval_ms self > 0
      \<and> hp_background_interval_ms self > 0 \<and> hp_local_ipc_interval_ms self > 0
      \<and> hp_dead_after_ms self > hp_unreachable_after_ms self \<and> hp_unreachable_after_ms self > 0)"

fun HeartbeatPolicy_interval :: "HeartbeatPolicy \<Rightarrow> ConnectionActivityProfile \<Rightarrow> u64" where
  "HeartbeatPolicy_interval self Prof_Idle = hp_idle_interval_ms self"
| "HeartbeatPolicy_interval self Prof_Active = hp_active_interval_ms self"
| "HeartbeatPolicy_interval self Prof_Mobile = hp_mobile_interval_ms self"
| "HeartbeatPolicy_interval self Prof_Background = hp_background_interval_ms self"
| "HeartbeatPolicy_interval self Prof_LocalIpc = hp_local_ipc_interval_ms self"

datatype HeartbeatAction = Hb_None | SendProbe | SuppressedByTransport | Hb_StateChanged LivenessState

record HeartbeatController =
  hb_policy :: HeartbeatPolicy
  hb_last_liveness_unix_ms :: u64
  hb_last_transport_ack_unix_ms :: "u64 option"
  hb_next_probe_unix_ms :: u64
  hb_state :: LivenessState
  hb_paused :: bool

definition HeartbeatController_new :: "HeartbeatPolicy \<Rightarrow> u64 \<Rightarrow> (string, HeartbeatController) result" where
  "HeartbeatController_new policy now_unix_ms =
     (if \<not> HeartbeatPolicy_is_valid policy then Inl ''heartbeat intervals must be positive and ordered''
      else Inr
        \<lparr>hb_policy = policy, hb_last_liveness_unix_ms = now_unix_ms, hb_last_transport_ack_unix_ms = None,
         hb_next_probe_unix_ms = sat_add now_unix_ms (hp_idle_interval_ms policy), hb_state = Healthy,
         hb_paused = False\<rparr>)"

definition HeartbeatController_pause :: "HeartbeatController \<Rightarrow> HeartbeatController" where
  "HeartbeatController_pause self = self\<lparr>hb_paused := True\<rparr>"

definition HeartbeatController_resume ::
  "HeartbeatController \<Rightarrow> u64 \<Rightarrow> ConnectionActivityProfile \<Rightarrow> HeartbeatController" where
  "HeartbeatController_resume self now_unix_ms profile =
     self\<lparr>hb_paused := False,
          hb_next_probe_unix_ms := sat_add now_unix_ms (HeartbeatPolicy_interval (hb_policy self) profile)\<rparr>"

definition HeartbeatController_observe_liveness :: "HeartbeatController \<Rightarrow> u64 \<Rightarrow> HeartbeatController" where
  "HeartbeatController_observe_liveness self now_unix_ms =
     self\<lparr>hb_last_liveness_unix_ms := now_unix_ms, hb_state := Healthy\<rparr>"

definition HeartbeatController_observe_transport_ack :: "HeartbeatController \<Rightarrow> u64 \<Rightarrow> HeartbeatController" where
  "HeartbeatController_observe_transport_ack self now_unix_ms =
     HeartbeatController_observe_liveness (self\<lparr>hb_last_transport_ack_unix_ms := Some now_unix_ms\<rparr>) now_unix_ms"

definition HeartbeatController_observe_probe_ack :: "HeartbeatController \<Rightarrow> u64 \<Rightarrow> HeartbeatController" where
  "HeartbeatController_observe_probe_ack self now_unix_ms = HeartbeatController_observe_liveness self now_unix_ms"

definition HeartbeatController_observe_latency ::
  "HeartbeatController \<Rightarrow> u64 \<Rightarrow> u32 \<Rightarrow> u32 \<Rightarrow> HeartbeatAction \<times> HeartbeatController" where
  "HeartbeatController_observe_latency self now_unix_ms round_trip_millis elevated_at_millis =
     (let self = self\<lparr>hb_last_liveness_unix_ms := now_unix_ms\<rparr>;
          next = (if round_trip_millis \<ge> elevated_at_millis then LatencyElevated else Healthy)
      in if next = hb_state self then (Hb_None, self)
         else (Hb_StateChanged next, self\<lparr>hb_state := next\<rparr>))"

definition HeartbeatController_observe_peer_close ::
  "HeartbeatController \<Rightarrow> HeartbeatAction \<times> HeartbeatController" where
  "HeartbeatController_observe_peer_close self =
     (let self = self\<lparr>hb_state := PeerClosed\<rparr> in (Hb_StateChanged (hb_state self), self))"

definition HeartbeatController_tick ::
  "HeartbeatController \<Rightarrow> u64 \<Rightarrow> ConnectionActivityProfile \<Rightarrow> HeartbeatAction \<times> HeartbeatController" where
  "HeartbeatController_tick self now_unix_ms profile =
     (if hb_paused self \<or> hb_state self = PeerClosed then (Hb_None, self)
      else
        let silence = sat_sub now_unix_ms (hb_last_liveness_unix_ms self);
            next_state =
              (if silence \<ge> hp_dead_after_ms (hb_policy self) then Dead
               else if silence \<ge> hp_unreachable_after_ms (hb_policy self) then TemporarilyUnreachable
               else Healthy)
        in if next_state \<noteq> hb_state self then (Hb_StateChanged next_state, self\<lparr>hb_state := next_state\<rparr>)
           else if now_unix_ms < hb_next_probe_unix_ms self then (Hb_None, self)
           else
             let interval = HeartbeatPolicy_interval (hb_policy self) profile;
                 self = self\<lparr>hb_next_probe_unix_ms := sat_add now_unix_ms interval\<rparr>
             in if (case hb_last_transport_ack_unix_ms self of
                      None \<Rightarrow> False | Some ack \<Rightarrow> sat_sub now_unix_ms ack \<le> interval)
                then (SuppressedByTransport, self)
                else (SendProbe, self))"

subsection \<open>Quality reports\<close>

record ConnectionQuality =
  cq_round_trip_millis :: "u32 option"
  cq_jitter_millis :: "u32 option"
  cq_loss_per_million :: "u32 option"
  cq_retransmit_per_million :: "u32 option"
  cq_send_queue_pressure_per_million :: u32
  cq_transmit_bytes_per_second :: u64
  cq_receive_bytes_per_second :: u64
  cq_consecutive_failures :: u16
  cq_transport :: "TransportKind option"
  cq_liveness :: LivenessState

definition ConnectionQuality_default :: ConnectionQuality where
  "ConnectionQuality_default =
     \<lparr>cq_round_trip_millis = None, cq_jitter_millis = None, cq_loss_per_million = None,
      cq_retransmit_per_million = None, cq_send_queue_pressure_per_million = 0,
      cq_transmit_bytes_per_second = 0, cq_receive_bytes_per_second = 0, cq_consecutive_failures = 0,
      cq_transport = None, cq_liveness = Healthy\<rparr>"

record QualityObservation =
  qo_round_trip_millis :: "u32 option"
  qo_sent_packets :: u32
  qo_lost_packets :: u32
  qo_retransmitted_packets :: u32
  qo_transmitted_bytes :: u64
  qo_received_bytes :: u64
  qo_elapsed_ms :: u64
  qo_send_queue_depth :: nat
  qo_send_queue_capacity :: nat
  qo_consecutive_failures :: u16
  qo_liveness :: LivenessState

record QualityAccumulator =
  qa_transport :: TransportKind
  qa_rtt_ewma :: "u32 option"
  qa_jitter_ewma :: "u32 option"
  qa_total_sent_packets :: u64
  qa_total_lost_packets :: u64
  qa_total_retransmitted_packets :: u64

definition QualityAccumulator_new :: "TransportKind \<Rightarrow> QualityAccumulator" where
  "QualityAccumulator_new transport =
     \<lparr>qa_transport = transport, qa_rtt_ewma = None, qa_jitter_ewma = None, qa_total_sent_packets = 0,
      qa_total_lost_packets = 0, qa_total_retransmitted_packets = 0\<rparr>"

definition ewma :: "u32 \<Rightarrow> u32 \<Rightarrow> u32" where
  "ewma previous sample = sat_add (sat_mul previous 7) sample div 8"

definition u32_try_from :: "u64 \<Rightarrow> u32 option" where
  "u32_try_from v = (if unat v < 2 ^ 32 then Some (ucast v) else None)"

definition unwrap_or :: "'a option \<Rightarrow> 'a \<Rightarrow> 'a" where
  "unwrap_or v d = (case v of None \<Rightarrow> d | Some x \<Rightarrow> x)"

definition ratio_per_million :: "u64 \<Rightarrow> u64 \<Rightarrow> u32 option" where
  "ratio_per_million numerator denominator =
     (if denominator > 0
      then Some (unwrap_or (u32_try_from (min (sat_mul numerator 1000000 div denominator) (ucast (- 1 :: u32)))) (- 1))
      else None)"

definition queue_pressure :: "nat \<Rightarrow> nat \<Rightarrow> u32" where
  "queue_pressure depth capacity =
     (if capacity = 0 then 0
      else
        let pressure = min (usize_sat_mul depth 1000000 div capacity) 1000000
        in if pressure < 2 ^ 32 then of_nat pressure else 1000000)"

definition rate :: "u64 \<Rightarrow> u64 \<Rightarrow> u64" where
  "rate amount elapsed_ms = (if elapsed_ms = 0 then 0 else sat_mul amount 1000 div elapsed_ms)"

definition QualityAccumulator_observe ::
  "QualityAccumulator \<Rightarrow> QualityObservation \<Rightarrow> ConnectionQuality \<times> QualityAccumulator" where
  "QualityAccumulator_observe self sample =
     (let self =
            (case qo_round_trip_millis sample of
               None \<Rightarrow> self
             | Some rtt \<Rightarrow>
                 let previous = unwrap_or (qa_rtt_ewma self) rtt;
                     deviation = abs_diff previous rtt;
                     self = self\<lparr>qa_rtt_ewma := Some (ewma previous rtt)\<rparr>
                 in self\<lparr>qa_jitter_ewma := Some (ewma (unwrap_or (qa_jitter_ewma self) deviation) deviation)\<rparr>);
          self = self\<lparr>qa_total_sent_packets := sat_add (qa_total_sent_packets self) (ucast (qo_sent_packets sample))\<rparr>;
          self = self\<lparr>qa_total_lost_packets := sat_add (qa_total_lost_packets self) (ucast (qo_lost_packets sample))\<rparr>;
          self = self\<lparr>qa_total_retransmitted_packets :=
                   sat_add (qa_total_retransmitted_packets self) (ucast (qo_retransmitted_packets sample))\<rparr>
      in (\<lparr>cq_round_trip_millis = qa_rtt_ewma self, cq_jitter_millis = qa_jitter_ewma self,
           cq_loss_per_million = ratio_per_million (qa_total_lost_packets self) (qa_total_sent_packets self),
           cq_retransmit_per_million =
             ratio_per_million (qa_total_retransmitted_packets self) (qa_total_sent_packets self),
           cq_send_queue_pressure_per_million =
             queue_pressure (qo_send_queue_depth sample) (qo_send_queue_capacity sample),
           cq_transmit_bytes_per_second = rate (qo_transmitted_bytes sample) (qo_elapsed_ms sample),
           cq_receive_bytes_per_second = rate (qo_received_bytes sample) (qo_elapsed_ms sample),
           cq_consecutive_failures = qo_consecutive_failures sample,
           cq_transport = Some (qa_transport self), cq_liveness = qo_liveness sample\<rparr>, self))"

subsection \<open>Significant changes\<close>

record QualityChangeThreshold =
  qt_round_trip_millis :: u32
  qt_jitter_millis :: u32
  qt_loss_per_million :: u32
  qt_retransmit_per_million :: u32
  qt_queue_pressure_per_million :: u32
  qt_throughput_bytes_per_second :: u64

definition QualityChangeThreshold_default :: QualityChangeThreshold where
  "QualityChangeThreshold_default =
     \<lparr>qt_round_trip_millis = 25, qt_jitter_millis = 10, qt_loss_per_million = 10000,
      qt_retransmit_per_million = 10000, qt_queue_pressure_per_million = 100000,
      qt_throughput_bytes_per_second = 64 * 1024\<rparr>"

record QualityChangeDetector =
  qd_threshold :: QualityChangeThreshold
  qd_last_emitted :: "ConnectionQuality option"

definition QualityChangeDetector_new :: "QualityChangeThreshold \<Rightarrow> QualityChangeDetector" where
  "QualityChangeDetector_new threshold = \<lparr>qd_threshold = threshold, qd_last_emitted = None\<rparr>"

fun option_diff :: "u32 option \<Rightarrow> u32 option \<Rightarrow> u32" where
  "option_diff (Some left) (Some right) = abs_diff left right"
| "option_diff None None = 0"
| "option_diff _ _ = - 1"

definition significant_change :: "QualityChangeThreshold \<Rightarrow> ConnectionQuality \<Rightarrow> ConnectionQuality \<Rightarrow> bool" where
  "significant_change threshold previous value =
     (option_diff (cq_round_trip_millis previous) (cq_round_trip_millis value) \<ge> qt_round_trip_millis threshold
      \<or> option_diff (cq_jitter_millis previous) (cq_jitter_millis value) \<ge> qt_jitter_millis threshold
      \<or> option_diff (cq_loss_per_million previous) (cq_loss_per_million value) \<ge> qt_loss_per_million threshold
      \<or> option_diff (cq_retransmit_per_million previous) (cq_retransmit_per_million value)
          \<ge> qt_retransmit_per_million threshold
      \<or> abs_diff (cq_send_queue_pressure_per_million previous) (cq_send_queue_pressure_per_million value)
          \<ge> qt_queue_pressure_per_million threshold
      \<or> abs_diff (cq_transmit_bytes_per_second previous) (cq_transmit_bytes_per_second value)
          \<ge> qt_throughput_bytes_per_second threshold
      \<or> abs_diff (cq_receive_bytes_per_second previous) (cq_receive_bytes_per_second value)
          \<ge> qt_throughput_bytes_per_second threshold
      \<or> cq_liveness previous \<noteq> cq_liveness value
      \<or> cq_transport previous \<noteq> cq_transport value)"

definition QualityChangeDetector_consider ::
  "QualityChangeDetector \<Rightarrow> ConnectionQuality \<Rightarrow> ConnectionQuality option \<times> QualityChangeDetector" where
  "QualityChangeDetector_consider self value =
     (if (case qd_last_emitted self of
            None \<Rightarrow> True | Some previous \<Rightarrow> significant_change (qd_threshold self) previous value)
      then (Some value, self\<lparr>qd_last_emitted := Some value\<rparr>)
      else (None, self))"

subsection \<open>Silence\<close>

definition silence_class :: "HeartbeatPolicy \<Rightarrow> u64 \<Rightarrow> LivenessState" where
  "silence_class policy silence =
     (if silence \<ge> hp_dead_after_ms policy then Dead
      else if silence \<ge> hp_unreachable_after_ms policy then TemporarilyUnreachable else Healthy)"

fun hb_ticks ::
  "HeartbeatController \<Rightarrow> (u64 \<times> ConnectionActivityProfile) list \<Rightarrow> HeartbeatAction list \<times> HeartbeatController" where
  "hb_ticks c [] = ([], c)"
| "hb_ticks c ((now, profile) # ts) =
     (case HeartbeatController_tick c now profile of (a, c1) \<Rightarrow>
      (case hb_ticks c1 ts of (as, c2) \<Rightarrow> (a # as, c2)))"

definition hb_watching :: "HeartbeatController \<Rightarrow> bool" where
  "hb_watching c \<longleftrightarrow> \<not> hb_paused c \<and> hb_state c \<noteq> PeerClosed"

lemma tick_cases:
  assumes "HeartbeatController_tick c now profile = (a, c')" and "hb_watching c"
  shows "hb_watching c'" and "hb_policy c' = hb_policy c"
    and "hb_last_liveness_unix_ms c' = hb_last_liveness_unix_ms c"
    and "hb_state c' = silence_class (hb_policy c) (sat_sub now (hb_last_liveness_unix_ms c))"
    and "a = Hb_StateChanged s \<longleftrightarrow> s = hb_state c' \<and> hb_state c' \<noteq> hb_state c"
  using assms
  by (auto simp: HeartbeatController_tick_def silence_class_def hb_watching_def Let_def split: if_splits option.splits)

lemma sat_sub_mono: "a \<le> b \<Longrightarrow> sat_sub a c \<le> sat_sub b (c :: 'a::len word)"
  by (simp add: word_le_nat_alt unat_sat_sub)

lemma silence_class_dead: "silence_class p s = Dead \<longleftrightarrow> hp_dead_after_ms p \<le> s"
  by (simp add: silence_class_def)

lemma ticks_dead:
  assumes "hb_watching c" and "hb_state c = Dead" and "hb_ticks c ts = (as, c')"
    and "list_all (\<lambda>(now, _). hp_dead_after_ms (hb_policy c) \<le> sat_sub now (hb_last_liveness_unix_ms c)) ts"
  shows "hb_state c' = Dead \<and> Hb_StateChanged Dead \<notin> set as"
  using assms
proof (induction ts arbitrary: c as)
  case (Cons t ts)
  obtain now profile where t: "t = (now, profile)" by fastforce
  obtain a c1 where tick: "HeartbeatController_tick c now profile = (a, c1)" by fastforce
  obtain as' where rest: "hb_ticks c1 ts = (as', c')" and as: "as = a # as'"
    using Cons.prems(3) tick t by (auto split: prod.splits)
  note tk = tick_cases [OF tick Cons.prems(1)]
  have dead: "hb_state c1 = Dead" using tk(4) Cons.prems(4) t by (simp add: silence_class_dead)
  have "hb_state c' = Dead \<and> Hb_StateChanged Dead \<notin> set as'"
    using Cons.IH [OF tk(1) dead rest] Cons.prems(4) tk(2,3) by simp
  with as tk(5) [of Dead] dead Cons.prems(2) show ?case by auto
qed auto

lemma ticks_state:
  assumes "hb_watching c" and "hb_ticks c ts = (as, c')" and "ts \<noteq> []"
  shows "hb_state c' = silence_class (hb_policy c) (sat_sub (fst (last ts)) (hb_last_liveness_unix_ms c))"
  using assms
proof (induction ts arbitrary: c as)
  case (Cons t ts)
  obtain now profile where t: "t = (now, profile)" by fastforce
  obtain a c1 where tick: "HeartbeatController_tick c now profile = (a, c1)" by fastforce
  obtain as' where rest: "hb_ticks c1 ts = (as', c')" using Cons.prems(2) tick t by (auto split: prod.splits)
  note tk = tick_cases [OF tick Cons.prems(1)]
  show ?case
    using Cons.IH [OF tk(1) rest] tk t rest by (cases "ts = []") auto
qed simp

text \<open>C12: a silent peer is found dead, once. When a controller that watches a live peer is ticked
  at non-decreasing times without hearing from it, its state after the last tick is the class
  of the silence so far, and the death is reported exactly once if the silence reaches the
  limit and never otherwise.\<close>

theorem heartbeat_detects_death:
  assumes "hb_watching c" and "hb_state c \<noteq> Dead" and "hb_ticks c ts = (as, c')" and "ts \<noteq> []"
    and "sorted_wrt (\<le>) (map fst ts)"
  shows "hb_state c' = silence_class (hb_policy c) (sat_sub (fst (last ts)) (hb_last_liveness_unix_ms c))
    \<and> count_list as (Hb_StateChanged Dead) = (if hb_state c' = Dead then 1 else 0)"
proof -
  have "count_list as (Hb_StateChanged Dead) = (if hb_state c' = Dead then 1 else 0)"
    using assms(1-3,5)
  proof (induction ts arbitrary: c as)
    case (Cons t ts)
    obtain now profile where t: "t = (now, profile)" by fastforce
    obtain a c1 where tick: "HeartbeatController_tick c now profile = (a, c1)" by fastforce
    obtain as' where rest: "hb_ticks c1 ts = (as', c')" and as: "as = a # as'"
      using Cons.prems(3) tick t by (auto split: prod.splits)
    note tk = tick_cases [OF tick Cons.prems(1)]
    show ?case
    proof (cases "hb_state c1 = Dead")
      case True
      have "hp_dead_after_ms (hb_policy c1) \<le> sat_sub now (hb_last_liveness_unix_ms c1)"
        using True tk(2,3,4) by (simp add: silence_class_dead)
      then have "hp_dead_after_ms (hb_policy c1) \<le> sat_sub n (hb_last_liveness_unix_ms c1)" if "(n, p) \<in> set ts" for n p
        using sat_sub_mono [of now n "hb_last_liveness_unix_ms c1"] Cons.prems(4) t that
        by (force intro: order_trans)
      then have "list_all (\<lambda>(n, _). hp_dead_after_ms (hb_policy c1) \<le> sat_sub n (hb_last_liveness_unix_ms c1)) ts"
        by (auto simp: list_all_iff)
      from ticks_dead [OF tk(1) True rest this] True as tk(5) [of Dead] Cons.prems(2) show ?thesis
        by (simp add: count_list_0_iff)
    next
      case False
      with Cons.IH [OF tk(1) False rest] Cons.prems(4) as tk(5) [of Dead] show ?thesis by auto
    qed
  qed simp
  with ticks_state [OF assms(1,3,4)] show ?thesis by simp
qed

definition sample_controller :: HeartbeatController where
  "sample_controller =
     \<lparr>hb_policy = HeartbeatPolicy_default, hb_last_liveness_unix_ms = 1000, hb_last_transport_ack_unix_ms = None,
      hb_next_probe_unix_ms = 31000, hb_state = Healthy, hb_paused = False\<rparr>"

text \<open>C12 witness: the default policy, ticked before and after the limits.\<close>

theorem heartbeat_detects_death_witness:
  "HeartbeatController_new HeartbeatPolicy_default 1000 = Inr sample_controller
   \<and> count_list (fst (hb_ticks sample_controller [(50000, Prof_Idle), (100000, Prof_Idle), (200000, Prof_Idle), (200001, Prof_Idle)]))
       (Hb_StateChanged Dead) = 1"
proof -
  let ?ts = "[(50000 :: u64, Prof_Idle), (100000, Prof_Idle), (200000, Prof_Idle), (200001, Prof_Idle)]"
  obtain as c' where run: "hb_ticks sample_controller ?ts = (as, c')" by fastforce
  have w: "hb_watching sample_controller" "hb_state sample_controller \<noteq> Dead"
    by (simp_all add: hb_watching_def sample_controller_def)
  have "sorted_wrt (\<le>) (map fst ?ts)" by simp
  from heartbeat_detects_death [OF w run _ this]
  have "hb_state c' = Dead \<and> count_list as (Hb_StateChanged Dead) = 1"
    by (simp add: sample_controller_def silence_class_def HeartbeatPolicy_default_def sat_sub_def)
  moreover have "HeartbeatController_new HeartbeatPolicy_default 1000 = Inr sample_controller"
    by (simp add: HeartbeatController_new_def HeartbeatPolicy_is_valid_def HeartbeatPolicy_default_def sample_controller_def sat_add_def)
  ultimately show ?thesis using run by simp
qed

subsection \<open>Bounds of the quality reports\<close>

lemma ewma_le: "unat previous \<le> k \<Longrightarrow> unat sample \<le> k \<Longrightarrow> unat (ewma previous sample) \<le> k"
  by (simp add: ewma_def unat_div sat_unats)

lemma ratio_le_million:
  assumes "ratio_per_million n d = Some r" and "n \<le> d"
  shows "unat r \<le> 1000000"
proof -
  from assms(1) have d: "0 < unat d" by (simp add: ratio_per_million_def word_less_nat_alt split: if_splits)
  have "unat (sat_mul n 1000000) div unat d \<le> unat n * 1000000 div unat d"
    by (rule div_le_mono) (simp add: sat_unats)
  also have "\<dots> \<le> unat d * 1000000 div unat d"
    by (rule div_le_mono) (use assms(2) in \<open>simp add: word_le_nat_alt\<close>)
  also have "\<dots> = 1000000" using d by simp
  finally have q: "unat (sat_mul n 1000000 div d) \<le> 1000000" by (simp add: unat_div)
  then have small: "sat_mul n 1000000 div d \<le> ucast (- 1 :: u32)"
    by (simp add: word_le_nat_alt unsigned_ucast_eq take_bit_eq_mod unat_max_word)
  with assms(1) d q show ?thesis
    by (auto simp: ratio_per_million_def min_def u32_try_from_def unwrap_or_def unsigned_ucast_eq take_bit_eq_mod
        split: if_splits)
qed

lemma queue_pressure_le: "unat (queue_pressure depth capacity) \<le> 1000000"
  by (simp add: queue_pressure_def Let_def unat_of_nat min_def)

definition option_all :: "('a \<Rightarrow> bool) \<Rightarrow> 'a option \<Rightarrow> bool" where
  "option_all P v = (case v of None \<Rightarrow> True | Some x \<Rightarrow> P x)"

definition quality_inv :: "nat \<Rightarrow> QualityAccumulator \<Rightarrow> bool" where
  "quality_inv k q \<longleftrightarrow>
     option_all (\<lambda>r. unat r \<le> k) (qa_rtt_ewma q) \<and> option_all (\<lambda>j. unat j \<le> k) (qa_jitter_ewma q)
     \<and> qa_total_lost_packets q \<le> qa_total_sent_packets q
     \<and> qa_total_retransmitted_packets q \<le> qa_total_sent_packets q"

definition observation_ok :: "nat \<Rightarrow> QualityObservation \<Rightarrow> bool" where
  "observation_ok k s \<longleftrightarrow>
     option_all (\<lambda>r. unat r \<le> k) (qo_round_trip_millis s)
     \<and> qo_lost_packets s \<le> qo_sent_packets s \<and> qo_retransmitted_packets s \<le> qo_sent_packets s"

lemma sat_add_mono: "a \<le> b \<Longrightarrow> c \<le> d \<Longrightarrow> sat_add a c \<le> sat_add b (d :: 'a::len word)"
  by (auto simp: word_le_nat_alt unat_sat_add)

lemma ucast_le_ucast: "(a :: u32) \<le> b \<Longrightarrow> (ucast a :: u64) \<le> ucast b"
proof -
  have "unat (ucast (c :: u32) :: u64) = unat c" for c
    using unat_lt_size [of c] by (simp add: unsigned_ucast_eq take_bit_eq_mod)
  then show "a \<le> b \<Longrightarrow> (ucast a :: u64) \<le> ucast b" by (simp add: word_le_nat_alt)
qed

lemma abs_diff_le: "unat a \<le> k \<Longrightarrow> unat b \<le> k \<Longrightarrow> unat (abs_diff a b) \<le> k"
  by (auto simp: unat_abs_diff)

lemma observe_inv:
  assumes "quality_inv k q" and "observation_ok k s" and "QualityAccumulator_observe q s = (report, q')"
  shows "quality_inv k q'
    \<and> option_all (\<lambda>r. unat r \<le> k) (cq_round_trip_millis report)
    \<and> option_all (\<lambda>j. unat j \<le> k) (cq_jitter_millis report)
    \<and> option_all (\<lambda>r. unat r \<le> 1000000) (cq_loss_per_million report)
    \<and> option_all (\<lambda>r. unat r \<le> 1000000) (cq_retransmit_per_million report)
    \<and> unat (cq_send_queue_pressure_per_million report) \<le> 1000000"
proof -
  have inv': "quality_inv k q'"
    using assms
    by (auto simp: QualityAccumulator_observe_def quality_inv_def observation_ok_def option_all_def Let_def unwrap_or_def
        intro!: ewma_le abs_diff_le sat_add_mono ucast_le_ucast split: option.splits)
  moreover have "cq_round_trip_millis report = qa_rtt_ewma q'" "cq_jitter_millis report = qa_jitter_ewma q'"
    "cq_loss_per_million report = ratio_per_million (qa_total_lost_packets q') (qa_total_sent_packets q')"
    "cq_retransmit_per_million report = ratio_per_million (qa_total_retransmitted_packets q') (qa_total_sent_packets q')"
    "cq_send_queue_pressure_per_million report = queue_pressure (qo_send_queue_depth s) (qo_send_queue_capacity s)"
    using assms(3) by (auto simp: QualityAccumulator_observe_def Let_def)
  ultimately show ?thesis
    by (auto simp: quality_inv_def option_all_def queue_pressure_le intro: ratio_le_million split: option.splits)
qed

fun observe_all :: "QualityAccumulator \<Rightarrow> QualityObservation list \<Rightarrow> ConnectionQuality list" where
  "observe_all q [] = []"
| "observe_all q (s # ss) = (case QualityAccumulator_observe q s of (report, q') \<Rightarrow> report # observe_all q' ss)"

text \<open>Quality reports stay in range. Whatever the sequence of observations, as long as no
  observation loses or retransmits more packets than it sent, every report has loss,
  retransmission and queue pressure of at most one million per million, and a smoothed round
  trip and jitter no larger than the largest round trip observed; no counter wraps.\<close>

theorem quality_reports_bounded:
  assumes "list_all (observation_ok k) samples"
  shows "list_all (\<lambda>report.
      option_all (\<lambda>r. unat r \<le> k) (cq_round_trip_millis report)
      \<and> option_all (\<lambda>j. unat j \<le> k) (cq_jitter_millis report)
      \<and> option_all (\<lambda>r. unat r \<le> 1000000) (cq_loss_per_million report)
      \<and> option_all (\<lambda>r. unat r \<le> 1000000) (cq_retransmit_per_million report)
      \<and> unat (cq_send_queue_pressure_per_million report) \<le> 1000000)
    (observe_all (QualityAccumulator_new transport) samples)"
proof -
  have "list_all (\<lambda>report.
      option_all (\<lambda>r. unat r \<le> k) (cq_round_trip_millis report)
      \<and> option_all (\<lambda>j. unat j \<le> k) (cq_jitter_millis report)
      \<and> option_all (\<lambda>r. unat r \<le> 1000000) (cq_loss_per_million report)
      \<and> option_all (\<lambda>r. unat r \<le> 1000000) (cq_retransmit_per_million report)
      \<and> unat (cq_send_queue_pressure_per_million report) \<le> 1000000) (observe_all q samples)" if "quality_inv k q" for q
    using assms that
  proof (induction samples arbitrary: q)
    case (Cons s samples)
    obtain report q' where obs: "QualityAccumulator_observe q s = (report, q')" by fastforce
    from observe_inv [OF Cons.prems(2) _ obs] Cons.prems(1) Cons.IH [of q'] obs show ?case by simp
  qed simp
  moreover have "quality_inv k (QualityAccumulator_new transport)"
    by (simp add: quality_inv_def QualityAccumulator_new_def option_all_def)
  ultimately show ?thesis by blast
qed

definition sample_observation :: "u32 \<Rightarrow> QualityObservation" where
  "sample_observation rtt =
     \<lparr>qo_round_trip_millis = Some rtt, qo_sent_packets = 10, qo_lost_packets = 10, qo_retransmitted_packets = 3,
      qo_transmitted_bytes = 100, qo_received_bytes = 100, qo_elapsed_ms = 10, qo_send_queue_depth = 9,
      qo_send_queue_capacity = 4, qo_consecutive_failures = 0, qo_liveness = Healthy\<rparr>"

text \<open>Two observations, every packet of which was lost.\<close>

theorem quality_reports_bounded_witness:
  "list_all (\<lambda>report. option_all (\<lambda>r. unat r \<le> 30) (cq_round_trip_millis report)
      \<and> unat (cq_send_queue_pressure_per_million report) \<le> 1000000)
    (observe_all (QualityAccumulator_new Tk_Tcp) [sample_observation 20, sample_observation 30])"
proof -
  have "list_all (observation_ok 30) [sample_observation 20, sample_observation 30]"
    by (simp add: observation_ok_def sample_observation_def option_all_def)
  from quality_reports_bounded [OF this, of Tk_Tcp] show ?thesis by (auto simp: list_all_iff)
qed

end
