(* ===== verification/Link_Session.thy ===== *)
theory Link_Session
  imports Link_Registry Link_Resume Link_Liveness
begin

text \<open>
  The session of \<^verbatim>\<open>session.rs\<close>: its lifecycle, the event bus with bounded
  subscriber queues, the data plane over the multiplexer, and the channel openings that keep
  the multiplexer and the channel map in step. A borrowed data plane is a record of the
  session's state and multiplexer; \<open>Session_put_plane\<close> is the end of the borrow. The
  session is an instance of the lane system of the multiplexer, which gives what a graceful
  drain promises.
\<close>

subsection \<open>Events\<close>

datatype SessionState = Ss_Connecting | Ss_Handshaking | Ss_Established | Ss_Draining | Ss_Closed | Ss_Failed

datatype CloseReason =
    Graceful | LocalAbort | RemoteClosed | Cr_Timeout | AuthenticationFailed | ProtocolViolation | TransportFailure

record SessionInfo =
  si_session_id :: SessionId
  si_peer_id :: PeerId
  si_protocols :: "ProtocolSelection list"
  si_continuity :: SessionContinuity
  si_quality :: ConnectionQuality
  si_close_reason :: "CloseReason option"

datatype SessionEvent =
    Ev_StateChanged SessionState
  | Ev_ContinuityChanged SessionContinuity
  | Ev_QualityChanged ConnectionQuality
  | Ev_Closed CloseReason
  | EventsDropped u64

datatype EventSubscriberId = EventSubscriberId (subscriber_id_val: u64)

instantiation EventSubscriberId :: linorder
begin
definition less_eq_EventSubscriberId :: "EventSubscriberId \<Rightarrow> EventSubscriberId \<Rightarrow> bool" where
  "less_eq_EventSubscriberId a b = (subscriber_id_val a \<le> subscriber_id_val b)"
definition less_EventSubscriberId :: "EventSubscriberId \<Rightarrow> EventSubscriberId \<Rightarrow> bool" where
  "less_EventSubscriberId a b = (subscriber_id_val a < subscriber_id_val b)"
instance
  by standard
    (auto simp: less_eq_EventSubscriberId_def less_EventSubscriberId_def intro: EventSubscriberId.expand)
end

record Subscriber =
  sub_queue :: "SessionEvent list"
  sub_capacity :: nat
  sub_dropped :: u64

record SessionEventBus =
  bus_max_subscribers :: nat
  bus_next_id :: u64
  bus_subscribers :: "(EventSubscriberId, Subscriber) btree"

definition SessionEventBus_new :: "nat \<Rightarrow> (LinkError, SessionEventBus) result" where
  "SessionEventBus_new max_subscribers =
     (if max_subscribers = 0 then Inl (InvalidInput ''event subscriber limit must be positive'')
      else Inr \<lparr>bus_max_subscribers = max_subscribers, bus_next_id = 1, bus_subscribers = bt_empty\<rparr>)"

definition SessionEventBus_subscribe ::
  "SessionEventBus \<Rightarrow> nat \<Rightarrow> (LinkError, EventSubscriberId) result \<times> SessionEventBus" where
  "SessionEventBus_subscribe self capacity =
     (if capacity = 0 then (Inl (InvalidInput ''event queue capacity must be positive''), self)
      else if bt_len (bus_subscribers self) \<ge> bus_max_subscribers self
      then (Inl (LimitExceeded EventSubscribers (bus_max_subscribers self)), self)
      else
        let ident = EventSubscriberId (bus_next_id self) in
        (case checked_add (bus_next_id self) 1 of
           None \<Rightarrow> (Inl LinkClosed, self)
         | Some next_id \<Rightarrow>
             (Inr ident,
              self\<lparr>bus_next_id := next_id,
                   bus_subscribers := bt_insert ident \<lparr>sub_queue = [], sub_capacity = capacity, sub_dropped = 0\<rparr>
                     (bus_subscribers self)\<rparr>)))"

definition publish_to :: "SessionEvent \<Rightarrow> Subscriber \<Rightarrow> Subscriber" where
  "publish_to event subscriber =
     (let subscriber =
            (if length (sub_queue subscriber) = sub_capacity subscriber
             then subscriber\<lparr>sub_queue := tl (sub_queue subscriber),
                             sub_dropped := sat_add (sub_dropped subscriber) 1\<rparr>
             else subscriber)
      in subscriber\<lparr>sub_queue := sub_queue subscriber @ [event]\<rparr>)"

definition SessionEventBus_publish :: "SessionEventBus \<Rightarrow> SessionEvent \<Rightarrow> SessionEventBus" where
  "SessionEventBus_publish self event =
     self\<lparr>bus_subscribers := bt_map_values (publish_to event) (bus_subscribers self)\<rparr>"

definition SessionEventBus_next ::
  "SessionEventBus \<Rightarrow> EventSubscriberId \<Rightarrow> SessionEvent option \<times> SessionEventBus" where
  "SessionEventBus_next self ident =
     (case bt_get (bus_subscribers self) ident of
        None \<Rightarrow> (None, self)
      | Some subscriber \<Rightarrow>
          if sub_dropped subscriber > 0
          then (Some (EventsDropped (sub_dropped subscriber)),
                self\<lparr>bus_subscribers := bt_insert ident (subscriber\<lparr>sub_dropped := 0\<rparr>) (bus_subscribers self)\<rparr>)
          else
            (case sub_queue subscriber of
               [] \<Rightarrow> (None, self)
             | event # queue \<Rightarrow>
                 (Some event,
                  self\<lparr>bus_subscribers := bt_insert ident (subscriber\<lparr>sub_queue := queue\<rparr>) (bus_subscribers self)\<rparr>)))"

definition SessionEventBus_unsubscribe :: "SessionEventBus \<Rightarrow> EventSubscriberId \<Rightarrow> bool \<times> SessionEventBus" where
  "SessionEventBus_unsubscribe self ident =
     (bt_get (bus_subscribers self) ident \<noteq> None,
      self\<lparr>bus_subscribers := bt_remove ident (bus_subscribers self)\<rparr>)"

subsection \<open>The session\<close>

record Session =
  ses_state :: SessionState
  ses_info :: SessionInfo
  ses_events :: SessionEventBus
  ses_multiplexer :: Multiplexer
  ses_control_mode :: ControlModeGuard
  ses_data_mode :: DataModeGuard
  ses_channel_mappings :: SessionChannelMap

datatype SessionChannelOpenError =
    OpenErr_Control LinkControlError | OpenErr_DataMode DataCodecError | OpenErr_Multiplexer LinkError

definition Session_established ::
  "NegotiatedSession \<Rightarrow> MultiplexerLimits \<Rightarrow> nat \<Rightarrow> (LinkError, Session) result" where
  "Session_established negotiated limits max_event_subscribers =
     (let control_mode = NegotiatedSession_control_mode_guard negotiated;
          data_mode = DataModeGuard (DataIdentityMode_negotiate (guard_mode control_mode)
                        (neg_link_capabilities negotiated));
          allowed_protocols = map (\<lambda>protocol. (sel_stable_id protocol, sel_version protocol)) (neg_protocols negotiated)
      in
      result_bind (SessionEventBus_new max_event_subscribers) (\<lambda>events.
      result_bind (Multiplexer_restricted (neg_session_id negotiated) limits allowed_protocols) (\<lambda>multiplexer.
      result_bind (result_map_err (\<lambda>_. InvalidInput ''session channel mapping limits are invalid'')
                     (SessionChannelMap_new MAX_SESSION_CHANNEL_MAPPINGS)) (\<lambda>channel_mappings.
      Inr \<lparr>ses_state = Ss_Established,
           ses_info = \<lparr>si_session_id = neg_session_id negotiated, si_peer_id = ident_peer_id (neg_remote negotiated),
                       si_protocols = neg_protocols negotiated, si_continuity = SessionContinuity_default,
                       si_quality = ConnectionQuality_default, si_close_reason = None\<rparr>,
           ses_events = events, ses_multiplexer = multiplexer, ses_control_mode = control_mode,
           ses_data_mode = data_mode, ses_channel_mappings = channel_mappings\<rparr>))))"

definition session_active :: "SessionState \<Rightarrow> bool" where
  "session_active state = (state = Ss_Established \<or> state = Ss_Draining)"

definition Session_validated_channel_matches_session :: "Session \<Rightarrow> ValidatedChannel \<Rightarrow> bool" where
  "Session_validated_channel_matches_session self validated =
     (key_protocol_id (cfg_key (vc_config validated)) = vc_protocol_id validated
      \<and> key_protocol_channel_id (cfg_key (vc_config validated)) = vc_protocol_channel_id validated
      \<and> cfg_generation (vc_config validated) = ChannelGeneration_INITIAL
      \<and> cfg_max_frame_bytes (vc_config validated) = vc_max_frame_bytes validated
      \<and> cfg_max_stream_bytes (vc_config validated) = vc_max_stream_bytes validated
      \<and> cfg_discardable (vc_config validated) = vc_discardable validated
      \<and> list_ex (\<lambda>protocol.
            sel_stable_id protocol = vc_protocol_id validated
            \<and> sel_version protocol = key_version (cfg_key (vc_config validated))
            \<and> sel_schema protocol = vc_schema validated
            \<and> sel_capabilities protocol = vc_capabilities validated) (si_protocols (ses_info self)))"

definition not_bound_error :: "string \<Rightarrow> LinkControlError" where
  "not_bound_error message =
     \<lparr>ce_domain = Dom_Security, ce_code = ErrorCode 2, ce_operation = Some Op_OpenChannel,
      ce_retryability = Retry_Never, ce_message = message\<rparr>"

definition Session_open_validated_channel ::
  "Session \<Rightarrow> ValidatedChannel \<Rightarrow> (SessionChannelOpenError, SessionChannelBinding) result \<times> Session" where
  "Session_open_validated_channel self validated =
     (if \<not> session_active (ses_state self)
      then (Inl (OpenErr_Control (ce_session_not_active Op_OpenChannel)), self)
      else
        (case ControlModeGuard_validate_typed (ses_control_mode self) of
           Inl e \<Rightarrow> (Inl (OpenErr_Control e), self)
         | Inr _ \<Rightarrow>
        (case DataModeGuard_validate_compact (ses_data_mode self) of
           Inl e \<Rightarrow> (Inl (OpenErr_DataMode e), self)
         | Inr _ \<Rightarrow>
             let accepted = ValidatedChannel_accepted_mapping validated in
             if \<not> Session_validated_channel_matches_session self validated
             then (Inl (OpenErr_Control
                     (not_bound_error ''channel descriptor is not bound to this negotiated session'')), self)
             else
               (case SessionChannelMap_validate_bind (ses_channel_mappings self) accepted of
                  Inl e \<Rightarrow> (Inl (OpenErr_Control e), self)
                | Inr _ \<Rightarrow>
                    (case Multiplexer_open_channel (ses_multiplexer self) (vc_config validated) of
                       (Inl e, multiplexer) \<Rightarrow>
                         (Inl (OpenErr_Multiplexer e), self\<lparr>ses_multiplexer := multiplexer\<rparr>)
                     | (Inr _, multiplexer) \<Rightarrow>
                         let self = self\<lparr>ses_multiplexer := multiplexer\<rparr>;
                             (binding, mappings) =
                               SessionChannelMap_bind_validated (ses_channel_mappings self) accepted
                         in (Inr binding, self\<lparr>ses_channel_mappings := mappings\<rparr>))))))"

definition Session_open_legacy_validated_channel ::
  "Session \<Rightarrow> ValidatedChannel \<Rightarrow> (SessionChannelOpenError, unit) result \<times> Session" where
  "Session_open_legacy_validated_channel self validated =
     (if \<not> session_active (ses_state self)
      then (Inl (OpenErr_Control (ce_session_not_active Op_OpenChannel)), self)
      else
        (case DataModeGuard_validate_legacy (ses_data_mode self) of
           Inl e \<Rightarrow> (Inl (OpenErr_DataMode e), self)
         | Inr _ \<Rightarrow>
             if \<not> Session_validated_channel_matches_session self validated
             then (Inl (OpenErr_Control
                     (not_bound_error ''legacy channel descriptor is not bound to this session'')), self)
             else
               (case Multiplexer_open_channel (ses_multiplexer self) (vc_config validated) of
                  (r, multiplexer) \<Rightarrow>
                    (result_map_err OpenErr_Multiplexer r, self\<lparr>ses_multiplexer := multiplexer\<rparr>))))"

definition Session_close_channel :: "Session \<Rightarrow> ChannelId \<Rightarrow> (LinkError, nat) result \<times> Session" where
  "Session_close_channel self channel_id =
     (case Multiplexer_close_channel (ses_multiplexer self) channel_id of
        (Inl e, multiplexer) \<Rightarrow> (Inl e, self\<lparr>ses_multiplexer := multiplexer\<rparr>)
      | (Inr discarded, multiplexer) \<Rightarrow>
          (Inr discarded,
           self\<lparr>ses_multiplexer := multiplexer,
                ses_channel_mappings := snd (SessionChannelMap_unbind (ses_channel_mappings self) channel_id)\<rparr>))"

definition Session_ensure_active :: "Session \<Rightarrow> (LinkError, unit) result" where
  "Session_ensure_active self = (if session_active (ses_state self) then Inr () else Inl LinkClosed)"

definition Session_update_quality :: "Session \<Rightarrow> ConnectionQuality \<Rightarrow> (LinkError, unit) result \<times> Session" where
  "Session_update_quality self quality =
     (case Session_ensure_active self of
        Inl e \<Rightarrow> (Inl e, self)
      | Inr _ \<Rightarrow>
          (Inr (), self\<lparr>ses_info := (ses_info self)\<lparr>si_quality := quality\<rparr>,
                        ses_events := SessionEventBus_publish (ses_events self) (Ev_QualityChanged quality)\<rparr>))"

definition Session_report_continuity :: "Session \<Rightarrow> SessionContinuity \<Rightarrow> (LinkError, unit) result \<times> Session" where
  "Session_report_continuity self continuity =
     (case Session_ensure_active self of
        Inl e \<Rightarrow> (Inl e, self)
      | Inr _ \<Rightarrow>
          (Inr (), self\<lparr>ses_info := (ses_info self)\<lparr>si_continuity := continuity\<rparr>,
                        ses_events := SessionEventBus_publish (ses_events self) (Ev_ContinuityChanged continuity)\<rparr>))"

definition Session_begin_drain :: "Session \<Rightarrow> (LinkError, unit) result \<times> Session" where
  "Session_begin_drain self =
     (if ses_state self \<noteq> Ss_Established
      then (Inl (InvalidState ''only an established session can begin draining''), self)
      else (Inr (), self\<lparr>ses_state := Ss_Draining,
                         ses_events := SessionEventBus_publish (ses_events self) (Ev_StateChanged Ss_Draining)\<rparr>))"

definition Session_close :: "Session \<Rightarrow> CloseReason \<Rightarrow> SessionState \<Rightarrow> Session" where
  "Session_close self reason state =
     (let self = self\<lparr>ses_state := state, ses_info := (ses_info self)\<lparr>si_close_reason := Some reason\<rparr>\<rparr>;
          self = self\<lparr>ses_events := SessionEventBus_publish (ses_events self) (Ev_StateChanged state)\<rparr>
      in self\<lparr>ses_events := SessionEventBus_publish (ses_events self) (Ev_Closed reason)\<rparr>)"

definition Session_finish_drain :: "Session \<Rightarrow> (LinkError, unit) result \<times> Session" where
  "Session_finish_drain self =
     (if ses_state self \<noteq> Ss_Draining \<or> Multiplexer_pending_frames (ses_multiplexer self) \<noteq> 0
      then (Inl (InvalidState ''drain can finish only after all queued frames are sent''), self)
      else (Inr (), Session_close self Graceful Ss_Closed))"

definition Session_abort :: "Session \<Rightarrow> Session" where
  "Session_abort self =
     (if ses_state self = Ss_Closed \<or> ses_state self = Ss_Failed then self
      else Session_close (self\<lparr>ses_multiplexer := snd (Multiplexer_discard_all (ses_multiplexer self))\<rparr>)
             LocalAbort Ss_Closed)"

definition Session_fail :: "Session \<Rightarrow> CloseReason \<Rightarrow> Session" where
  "Session_fail self reason =
     (if ses_state self = Ss_Closed \<or> ses_state self = Ss_Failed then self
      else Session_close (self\<lparr>ses_multiplexer := snd (Multiplexer_discard_all (ses_multiplexer self))\<rparr>)
             reason Ss_Failed)"

subsection \<open>The data plane\<close>

record SessionDataPlane =
  dp_state :: SessionState
  dp_multiplexer :: Multiplexer

definition Session_data_plane :: "Session \<Rightarrow> SessionDataPlane" where
  "Session_data_plane self = \<lparr>dp_state = ses_state self, dp_multiplexer = ses_multiplexer self\<rparr>"

definition Session_put_plane :: "Session \<Rightarrow> SessionDataPlane \<Rightarrow> Session" where
  "Session_put_plane self plane = self\<lparr>ses_multiplexer := dp_multiplexer plane\<rparr>"

definition SessionDataPlane_ensure_active :: "SessionDataPlane \<Rightarrow> (LinkError, unit) result" where
  "SessionDataPlane_ensure_active self = (if session_active (dp_state self) then Inr () else Inl LinkClosed)"

definition SessionDataPlane_enqueue ::
  "SessionDataPlane \<Rightarrow> Envelope \<Rightarrow> (LinkError, unit) result \<times> SessionDataPlane" where
  "SessionDataPlane_enqueue self envelope =
     (case SessionDataPlane_ensure_active self of
        Inl e \<Rightarrow> (Inl e, self)
      | Inr _ \<Rightarrow> (let (r, m) = Multiplexer_enqueue (dp_multiplexer self) envelope in (r, self\<lparr>dp_multiplexer := m\<rparr>)))"

definition SessionDataPlane_enqueue_discardable ::
  "SessionDataPlane \<Rightarrow> Envelope \<Rightarrow> (LinkError, QueueAdmission) result \<times> SessionDataPlane" where
  "SessionDataPlane_enqueue_discardable self envelope =
     (case SessionDataPlane_ensure_active self of
        Inl e \<Rightarrow> (Inl e, self)
      | Inr _ \<Rightarrow> (let (r, m) = Multiplexer_enqueue_discardable (dp_multiplexer self) envelope
                 in (r, self\<lparr>dp_multiplexer := m\<rparr>)))"

definition SessionDataPlane_enqueue_control ::
  "SessionDataPlane \<Rightarrow> bytes \<Rightarrow> (LinkError, unit) result \<times> SessionDataPlane" where
  "SessionDataPlane_enqueue_control self payload =
     (case SessionDataPlane_ensure_active self of
        Inl e \<Rightarrow> (Inl e, self)
      | Inr _ \<Rightarrow> (let (r, m) = Multiplexer_enqueue_control (dp_multiplexer self) payload
                 in (r, self\<lparr>dp_multiplexer := m\<rparr>)))"

definition SessionDataPlane_next_outbound :: "SessionDataPlane \<Rightarrow> OutboundFrame option \<times> SessionDataPlane" where
  "SessionDataPlane_next_outbound self =
     (let (out, m) = Multiplexer_next_outbound (dp_multiplexer self) in (out, self\<lparr>dp_multiplexer := m\<rparr>))"

definition SessionDataPlane_cancel_channel ::
  "SessionDataPlane \<Rightarrow> ChannelId \<Rightarrow> (LinkError, nat) result \<times> SessionDataPlane" where
  "SessionDataPlane_cancel_channel self channel_id =
     (case SessionDataPlane_ensure_active self of
        Inl e \<Rightarrow> (Inl e, self)
      | Inr _ \<Rightarrow> (let (r, m) = Multiplexer_cancel_channel (dp_multiplexer self) channel_id
                 in (r, self\<lparr>dp_multiplexer := m\<rparr>)))"

definition SessionDataPlane_pending_frames :: "SessionDataPlane \<Rightarrow> nat" where
  "SessionDataPlane_pending_frames self = Multiplexer_pending_frames (dp_multiplexer self)"

subsection \<open>Operations of a session as steps\<close>

datatype SessionOp =
    SesOpen ValidatedChannel | SesOpenLegacy ValidatedChannel | SesCloseChannel ChannelId
  | SesQuality ConnectionQuality | SesContinuity SessionContinuity
  | SesBeginDrain | SesFinishDrain | SesAbort | SesFail CloseReason
  | SesSubscribe nat | SesUnsubscribe EventSubscriberId | SesNextEvent EventSubscriberId | SesPublish SessionEvent
  | SesEnqueue Envelope | SesEnqueueDiscardable Envelope | SesControl bytes | SesNext | SesCancel ChannelId

definition session_terminal :: "Session \<Rightarrow> bool" where
  "session_terminal s \<longleftrightarrow> ses_state s = Ss_Closed \<or> ses_state s = Ss_Failed"

fun session_exec :: "SessionOp \<Rightarrow> Session \<Rightarrow> Session \<times> OutboundFrame list \<times> OutboundFrame list \<times> nat" where
  "session_exec (SesOpen v) s = (snd (Session_open_validated_channel s v), [], [], 0)"
| "session_exec (SesOpenLegacy v) s = (snd (Session_open_legacy_validated_channel s v), [], [], 0)"
| "session_exec (SesCloseChannel c) s =
     (let (r, s') = Session_close_channel s c in (s', [], [], discarded_count r))"
| "session_exec (SesQuality q) s = (snd (Session_update_quality s q), [], [], 0)"
| "session_exec (SesContinuity k) s = (snd (Session_report_continuity s k), [], [], 0)"
| "session_exec SesBeginDrain s = (snd (Session_begin_drain s), [], [], 0)"
| "session_exec SesFinishDrain s = (snd (Session_finish_drain s), [], [], 0)"
| "session_exec SesAbort s =
     (Session_abort s, [], [], if session_terminal s then 0 else fst (Multiplexer_discard_all (ses_multiplexer s)))"
| "session_exec (SesFail reason) s =
     (Session_fail s reason, [], [], if session_terminal s then 0 else fst (Multiplexer_discard_all (ses_multiplexer s)))"
| "session_exec (SesSubscribe n) s =
     (s\<lparr>ses_events := snd (SessionEventBus_subscribe (ses_events s) n)\<rparr>, [], [], 0)"
| "session_exec (SesUnsubscribe i) s =
     (s\<lparr>ses_events := snd (SessionEventBus_unsubscribe (ses_events s) i)\<rparr>, [], [], 0)"
| "session_exec (SesNextEvent i) s =
     (s\<lparr>ses_events := snd (SessionEventBus_next (ses_events s) i)\<rparr>, [], [], 0)"
| "session_exec (SesPublish ev) s =
     (s\<lparr>ses_events := SessionEventBus_publish (ses_events s) ev\<rparr>, [], [], 0)"
| "session_exec (SesEnqueue e) s =
     (let (r, p) = SessionDataPlane_enqueue (Session_data_plane s) e
      in (Session_put_plane s p, if is_ok r then [Out_Data e] else [], [], 0))"
| "session_exec (SesEnqueueDiscardable e) s =
     (let (r, p) = SessionDataPlane_enqueue_discardable (Session_data_plane s) e
      in (Session_put_plane s p, if r = Inr Enqueued then [Out_Data e] else [], [], 0))"
| "session_exec (SesControl b) s =
     (let (r, p) = SessionDataPlane_enqueue_control (Session_data_plane s) b
      in (Session_put_plane s p, if is_ok r then [Out_Control b] else [], [], 0))"
| "session_exec SesNext s =
     (let (out, p) = SessionDataPlane_next_outbound (Session_data_plane s)
      in (Session_put_plane s p, [], case out of None \<Rightarrow> [] | Some f \<Rightarrow> [f], 0))"
| "session_exec (SesCancel c) s =
     (let (r, p) = SessionDataPlane_cancel_channel (Session_data_plane s) c
      in (Session_put_plane s p, [], [], discarded_count r))"

fun session_drops :: "SessionOp \<Rightarrow> ChannelId \<Rightarrow> bool" where
  "session_drops (SesCancel d) c = (d = c)"
| "session_drops (SesCloseChannel d) c = (d = c)"
| "session_drops SesAbort c = True"
| "session_drops (SesFail _) c = True"
| "session_drops _ c = False"

text \<open>What an operation does to the multiplexer: nothing, or one multiplexer operation.\<close>

fun session_mux_op :: "SessionOp \<Rightarrow> Session \<Rightarrow> MuxOp option" where
  "session_mux_op (SesOpen v) s =
     (if session_active (ses_state s) \<and> is_ok (ControlModeGuard_validate_typed (ses_control_mode s))
         \<and> is_ok (DataModeGuard_validate_compact (ses_data_mode s)) \<and> Session_validated_channel_matches_session s v
         \<and> is_ok (SessionChannelMap_validate_bind (ses_channel_mappings s) (ValidatedChannel_accepted_mapping v))
      then Some (MuxOpen (vc_config v)) else None)"
| "session_mux_op (SesOpenLegacy v) s =
     (if session_active (ses_state s) \<and> is_ok (DataModeGuard_validate_legacy (ses_data_mode s))
         \<and> Session_validated_channel_matches_session s v
      then Some (MuxOpen (vc_config v)) else None)"
| "session_mux_op (SesCloseChannel c) s = Some (MuxClose c)"
| "session_mux_op SesAbort s = (if session_terminal s then None else Some MuxDiscardAll)"
| "session_mux_op (SesFail _) s = (if session_terminal s then None else Some MuxDiscardAll)"
| "session_mux_op (SesEnqueue e) s = (if session_active (ses_state s) then Some (MuxEnqueue e) else None)"
| "session_mux_op (SesEnqueueDiscardable e) s =
     (if session_active (ses_state s) then Some (MuxEnqueueDiscardable e) else None)"
| "session_mux_op (SesControl b) s = (if session_active (ses_state s) then Some (MuxControl b) else None)"
| "session_mux_op SesNext s = Some MuxNext"
| "session_mux_op (SesCancel c) s = (if session_active (ses_state s) then Some (MuxCancel c) else None)"
| "session_mux_op _ s = None"

lemma open_validated_cases:
  assumes "Session_open_validated_channel s v = (r, s')"
  obtains (refused) e where "r = Inl e" "s' = s" "session_mux_op (SesOpen v) s = None"
  | (mux_refused) e m where "r = Inl (OpenErr_Multiplexer e)" "session_mux_op (SesOpen v) s = Some (MuxOpen (vc_config v))"
      "Multiplexer_open_channel (ses_multiplexer s) (vc_config v) = (Inl e, m)" "s' = s\<lparr>ses_multiplexer := m\<rparr>"
  | (opened) m binding mappings where "r = Inr binding" "session_mux_op (SesOpen v) s = Some (MuxOpen (vc_config v))"
      "session_active (ses_state s)" "data_guard_mode (ses_data_mode s) = CompactV1"
      "Session_validated_channel_matches_session s v"
      "Multiplexer_open_channel (ses_multiplexer s) (vc_config v) = (Inr (), m)"
      "SessionChannelMap_bind (ses_channel_mappings s) (ValidatedChannel_accepted_mapping v) = (Inr binding, mappings)"
      "s' = s\<lparr>ses_multiplexer := m, ses_channel_mappings := mappings\<rparr>"
proof (cases "session_mux_op (SesOpen v) s")
  case None
  then have "\<exists>e. r = Inl e" "s' = s"
    using assms by (auto simp: Session_open_validated_channel_def Let_def is_ok_def split: if_splits sum.splits)
  with None show ?thesis using refused by blast
next
  case (Some op)
  then have ok: "session_active (ses_state s)" "ControlModeGuard_validate_typed (ses_control_mode s) = Inr ()"
    "DataModeGuard_validate_compact (ses_data_mode s) = Inr ()" "Session_validated_channel_matches_session s v"
    "SessionChannelMap_validate_bind (ses_channel_mappings s) (ValidatedChannel_accepted_mapping v) = Inr ()"
    "op = MuxOpen (vc_config v)"
    by (auto simp: is_ok_iff split: if_splits)
  obtain rm m where open_m: "Multiplexer_open_channel (ses_multiplexer s) (vc_config v) = (rm, m)" by fastforce
  show ?thesis
  proof (cases rm)
    case (Inl e)
    with assms ok open_m Some show ?thesis
      by (intro mux_refused [of e m]) (auto simp: Session_open_validated_channel_def)
  next
    case (Inr u)
    obtain binding mappings where
      b: "SessionChannelMap_bind_validated (ses_channel_mappings s) (ValidatedChannel_accepted_mapping v) = (binding, mappings)"
      by fastforce
    with assms ok open_m Inr Some show ?thesis
      by (intro opened [of binding m mappings])
        (auto simp: Session_open_validated_channel_def SessionChannelMap_bind_def DataModeGuard_validate_compact_def
          split: if_splits)
  qed
qed

lemma open_legacy_cases:
  assumes "Session_open_legacy_validated_channel s v = (r, s')"
  obtains (refused) e where "r = Inl e" "s' = s" "session_mux_op (SesOpenLegacy v) s = None"
  | (mux) rm m where "session_mux_op (SesOpenLegacy v) s = Some (MuxOpen (vc_config v))"
      "data_guard_mode (ses_data_mode s) = LegacyFullChannelKey"
      "Multiplexer_open_channel (ses_multiplexer s) (vc_config v) = (rm, m)" "s' = s\<lparr>ses_multiplexer := m\<rparr>"
proof (cases "session_mux_op (SesOpenLegacy v) s")
  case None
  then have "\<exists>e. r = Inl e" "s' = s"
    using assms by (auto simp: Session_open_legacy_validated_channel_def is_ok_def split: if_splits sum.splits)
  with None show ?thesis using refused by blast
next
  case (Some op)
  then have ok: "session_active (ses_state s)" "DataModeGuard_validate_legacy (ses_data_mode s) = Inr ()"
    "Session_validated_channel_matches_session s v" "op = MuxOpen (vc_config v)"
    by (auto simp: is_ok_iff split: if_splits)
  obtain rm m where "Multiplexer_open_channel (ses_multiplexer s) (vc_config v) = (rm, m)" by fastforce
  with assms ok Some show ?thesis
    by (intro mux [of rm m])
      (auto simp: Session_open_legacy_validated_channel_def DataModeGuard_validate_legacy_def split: if_splits)
qed

lemma session_close_fields [simp]:
  "ses_state (Session_close s reason st) = st" "ses_multiplexer (Session_close s reason st) = ses_multiplexer s"
  "ses_data_mode (Session_close s reason st) = ses_data_mode s"
  "ses_channel_mappings (Session_close s reason st) = ses_channel_mappings s"
  "ses_info (Session_close s reason st) = (ses_info s)\<lparr>si_close_reason := Some reason\<rparr>"
  by (simp_all add: Session_close_def Let_def)

lemma session_exec_mux:
  assumes "session_exec op s = (s', acc, out, d)"
  shows "case session_mux_op op s of
      None \<Rightarrow> ses_multiplexer s' = ses_multiplexer s \<and> acc = [] \<and> out = [] \<and> d = 0
    | Some mop \<Rightarrow> mux_exec mop (ses_multiplexer s) = (ses_multiplexer s', acc, out, d) \<and> (\<forall>c. mux_drops mop c \<longrightarrow> session_drops op c)"
proof (cases op)
  case (SesOpen v)
  obtain r where "Session_open_validated_channel s v = (r, s')" using assms SesOpen by (cases "Session_open_validated_channel s v") auto
  with assms SesOpen show ?thesis by (elim open_validated_cases) auto
next
  case (SesOpenLegacy v)
  obtain r where "Session_open_legacy_validated_channel s v = (r, s')" using assms SesOpenLegacy by (cases "Session_open_legacy_validated_channel s v") auto
  with assms SesOpenLegacy show ?thesis by (elim open_legacy_cases) auto
next
  case (SesCloseChannel c)
  with assms show ?thesis
    by (auto simp: Session_close_channel_def discarded_count_def split: prod.splits sum.splits)
qed (use assms in \<open>auto simp: Session_update_quality_def Session_report_continuity_def Session_begin_drain_def
      Session_finish_drain_def Session_abort_def Session_fail_def session_terminal_def Session_ensure_active_def
      SessionDataPlane_enqueue_def SessionDataPlane_enqueue_discardable_def SessionDataPlane_enqueue_control_def
      SessionDataPlane_next_outbound_def SessionDataPlane_cancel_channel_def SessionDataPlane_ensure_active_def
      Session_data_plane_def Session_put_plane_def Multiplexer_discard_all_def discarded_count_def Let_def
      split: prod.splits if_splits\<close>)

subsection \<open>The session invariant\<close>

text \<open>In a compact session the channel map and the multiplexer describe the same channels; a
  legacy session maps none. An active session has no close reason; a terminal one has a
  reason and nothing pending.\<close>

definition mapping_inv :: "Session \<Rightarrow> bool" where
  "mapping_inv s \<longleftrightarrow>
     (if data_guard_mode (ses_data_mode s) = CompactV1
      then (\<forall>c. map_option (\<lambda>(p, q, _). (p, q)) (bt_get (scm_by_session (ses_channel_mappings s)) c)
              = map_option (\<lambda>k. (key_protocol_id k, key_protocol_channel_id k)) (channel_key_of (ses_multiplexer s) c))
           \<and> (\<forall>c. bt_contains (scm_retired (ses_channel_mappings s)) c
                \<longleftrightarrow> bt_contains (mux_retired_channels (ses_multiplexer s)) c)
      else (\<forall>c. bt_get (scm_by_session (ses_channel_mappings s)) c = None))"

definition lifecycle_inv :: "Session \<Rightarrow> bool" where
  "lifecycle_inv s \<longleftrightarrow>
     (if session_active (ses_state s) then si_close_reason (ses_info s) = None
      else session_terminal s \<and> si_close_reason (ses_info s) \<noteq> None \<and> mux_total_pending (ses_multiplexer s) = 0)"

definition session_inv :: "Session \<Rightarrow> bool" where
  "session_inv s \<longleftrightarrow>
     mux_inv (ses_multiplexer s) \<and> channel_map_inv (ses_channel_mappings s) \<and> mapping_inv s \<and> lifecycle_inv s"

lemma channel_key_of_update:
  assumes "bt_get (mux_channels m) c = Some st" and "mux_channels m' = bt_insert c st' (mux_channels m)"
    and "st_config st' = st_config st"
  shows "channel_key_of m' = channel_key_of m"
  using assms by (auto simp: channel_key_of_def fun_eq_iff)

fun moves_channels :: "MuxOp \<Rightarrow> bool" where
  "moves_channels (MuxOpen _) = True"
| "moves_channels (MuxClose _) = True"
| "moves_channels _ = False"

lemma next_outbound_view:
  "channel_key_of (snd (Multiplexer_next_outbound m)) = channel_key_of m
   \<and> mux_retired_channels (snd (Multiplexer_next_outbound m)) = mux_retired_channels m"
proof (cases "mux_control m")
  case Nil
  show ?thesis
  proof (cases rule: next_data_cases [of m])
    case idle
    with Nil show ?thesis by (auto simp: Multiplexer_next_outbound_def channel_key_of_def)
  next
    case (serve i st e q)
    with Nil show ?thesis
      by (auto simp: Multiplexer_next_outbound_def serve_def channel_key_of_def fun_eq_iff)
  qed
qed (auto simp: Multiplexer_next_outbound_def channel_key_of_def)

lemma mux_exec_view:
  assumes "mux_exec op m = (m', acc, out, d)" and "\<not> moves_channels op"
  shows "channel_key_of m' = channel_key_of m \<and> mux_retired_channels m' = mux_retired_channels m"
proof (cases op)
  case (MuxEnqueue e)
  obtain r where "Multiplexer_enqueue m e = (r, m')" using assms MuxEnqueue by (auto split: prod.splits)
  then show ?thesis
    by (cases rule: enqueue_cases) (auto simp: channel_key_of_def push_frame_fields fun_eq_iff)
next
  case (MuxEnqueueDiscardable e)
  obtain r where "Multiplexer_enqueue_discardable m e = (r, m')" using assms MuxEnqueueDiscardable by (auto split: prod.splits)
  then show ?thesis
    by (cases rule: enqueue_discardable_cases) (auto simp: channel_key_of_def push_frame_fields fun_eq_iff)
next
  case (MuxControl b)
  obtain r where "Multiplexer_enqueue_control m b = (r, m')" using assms MuxControl by (auto split: prod.splits)
  then show ?thesis
    by (cases rule: enqueue_control_cases) (auto simp: channel_key_of_def fun_eq_iff)
next
  case (MuxCancel c)
  obtain r where "Multiplexer_cancel_channel m c = (r, m')" using assms MuxCancel by (auto split: prod.splits)
  then show ?thesis
    by (cases rule: cancel_cases) (auto simp: channel_key_of_def fun_eq_iff)
next
  case MuxNext
  with assms next_outbound_view [of m] show ?thesis by (auto split: prod.splits)
next
  case MuxDiscardAll
  with assms show ?thesis
    by (auto simp: Multiplexer_discard_all_def channel_key_of_def fun_eq_iff option.map_comp comp_def)
qed (use assms in auto)

lemma session_open_view:
  assumes "Multiplexer_open_channel m cfg = (Inr (), m')"
  shows "channel_key_of m' = (channel_key_of m)(cfg_id cfg \<mapsto> cfg_key cfg)"
    and "mux_retired_channels m' = mux_retired_channels m" and "channel_key_of m (cfg_id cfg) = None"
  using assms by (auto elim!: open_cases simp: channel_key_of_def fun_eq_iff)

lemma session_close_view:
  assumes "Multiplexer_close_channel m c = (Inr n, m')"
  shows "channel_key_of m' = (channel_key_of m)(c := None)"
    and "mux_retired_channels m' = bs_insert c (mux_retired_channels m)" and "channel_key_of m c \<noteq> None"
  using assms by (auto elim!: close_cases simp: channel_key_of_def fun_eq_iff)

lemma open_channel_refused: "Multiplexer_open_channel m cfg = (Inl e, m') \<Longrightarrow> m' = m"
  by (auto elim: open_cases)

lemma close_channel_refused: "Multiplexer_close_channel m c = (Inl e, m') \<Longrightarrow> m' = m"
  by (auto elim: close_cases)

lemma mapping_open:
  assumes "session_inv s" and "Session_open_validated_channel s v = (r, s')"
  shows "channel_map_inv (ses_channel_mappings s') \<and> mapping_inv s'"
  using assms(2)
proof (cases rule: open_validated_cases)
  case (opened m binding mappings)
  have inv: "channel_map_inv (ses_channel_mappings s)" "mapping_inv s" using assms(1) by (simp_all add: session_inv_def)
  note view = session_open_view [OF opened(6)]
  have match: "accept_protocol_id (ValidatedChannel_accepted_mapping v) = key_protocol_id (cfg_key (vc_config v))"
    "accept_protocol_channel_id (ValidatedChannel_accepted_mapping v) = key_protocol_channel_id (cfg_key (vc_config v))"
    "accept_session_channel_id (ValidatedChannel_accepted_mapping v) = cfg_id (vc_config v)"
    using opened(5) by (simp_all add: ValidatedChannel_accepted_mapping_def Session_validated_channel_matches_session_def)
  from opened(7) have map': "scm_by_session mappings = bt_insert (cfg_id (vc_config v))
      (key_protocol_id (cfg_key (vc_config v)), key_protocol_channel_id (cfg_key (vc_config v)), ChannelGeneration_INITIAL)
      (scm_by_session (ses_channel_mappings s))" "scm_retired mappings = scm_retired (ses_channel_mappings s)"
    by (auto elim!: bind_cases simp: match)
  have "mapping_inv s'"
    using inv(2) opened(4) unfolding mapping_inv_def opened(8) by (simp add: map' view)
  with channel_map_bind_inv [OF inv(1) opened(7)] opened(8) show ?thesis by simp
qed (use assms(1) open_channel_refused in \<open>auto simp: session_inv_def mapping_inv_def\<close>)

lemma mapping_close:
  assumes "session_inv s" and "Session_close_channel s c = (r, s')"
  shows "channel_map_inv (ses_channel_mappings s') \<and> mapping_inv s'"
proof -
  have inv: "channel_map_inv (ses_channel_mappings s)" "mapping_inv s" using assms(1) by (simp_all add: session_inv_def)
  obtain rm m where cl: "Multiplexer_close_channel (ses_multiplexer s) c = (rm, m)" by fastforce
  show ?thesis
  proof (cases rm)
    case (Inl e)
    with close_channel_refused [OF cl [unfolded Inl]] assms(2) cl inv show ?thesis
      by (auto simp: Session_close_channel_def mapping_inv_def)
  next
    case (Inr n)
    obtain u mappings where un: "SessionChannelMap_unbind (ses_channel_mappings s) c = (u, mappings)" by fastforce
    have s': "s' = s\<lparr>ses_multiplexer := m, ses_channel_mappings := mappings\<rparr>"
      using assms(2) cl Inr un by (simp add: Session_close_channel_def)
    note view = session_close_view [OF cl [unfolded Inr]]
    have "mapping_inv s'"
      using un
    proof (cases rule: unbind_cases)
      case none
      have "data_guard_mode (ses_data_mode s) \<noteq> CompactV1"
      proof
        assume "data_guard_mode (ses_data_mode s) = CompactV1"
        with inv(2) have "map_option (\<lambda>k. (key_protocol_id k, key_protocol_channel_id k)) (channel_key_of (ses_multiplexer s) c) = None"
          using none(3) unfolding mapping_inv_def by (metis (no_types, lifting) option.map_disc_iff)
        with view(3) show False by simp
      qed
      with inv(2) none show ?thesis unfolding s' mapping_inv_def by auto
    next
      case (some p q g)
      with inv(2) view show ?thesis unfolding s' mapping_inv_def by (auto split: if_splits)
    qed
    with channel_map_unbind_inv [OF inv(1) un] s' show ?thesis by simp
  qed
qed

lemma session_exec_modes:
  assumes "session_exec op s = (s', acc, out, d)"
  shows "ses_data_mode s' = ses_data_mode s
    \<and> (case op of SesOpen v \<Rightarrow> True | SesCloseChannel c \<Rightarrow> True | _ \<Rightarrow> ses_channel_mappings s' = ses_channel_mappings s)"
proof (cases op)
  case (SesOpen v)
  obtain r where "Session_open_validated_channel s v = (r, s')" using assms SesOpen by (cases "Session_open_validated_channel s v") auto
  with SesOpen show ?thesis by (elim open_validated_cases) auto
next
  case (SesOpenLegacy v)
  obtain r where "Session_open_legacy_validated_channel s v = (r, s')" using assms SesOpenLegacy by (cases "Session_open_legacy_validated_channel s v") auto
  with SesOpenLegacy show ?thesis by (elim open_legacy_cases) auto
next
  case (SesCloseChannel c)
  with assms show ?thesis by (auto simp: Session_close_channel_def split: prod.splits sum.splits)
qed (use assms in \<open>auto simp: Session_update_quality_def Session_report_continuity_def Session_begin_drain_def
      Session_finish_drain_def Session_abort_def Session_fail_def Session_ensure_active_def
      Session_put_plane_def Let_def split: prod.splits if_splits\<close>)

lemma session_exec_status:
  assumes "session_exec op s = (s', acc, out, d)"
  shows "ses_state s' = ses_state s \<and> si_close_reason (ses_info s') = si_close_reason (ses_info s)
    \<or> op = SesBeginDrain \<and> ses_state s = Ss_Established \<and> ses_state s' = Ss_Draining
        \<and> si_close_reason (ses_info s') = si_close_reason (ses_info s)
    \<or> op = SesFinishDrain \<and> ses_state s = Ss_Draining \<and> ses_state s' = Ss_Closed
        \<and> si_close_reason (ses_info s') = Some Graceful \<and> mux_total_pending (ses_multiplexer s') = 0
    \<or> (op = SesAbort \<or> (\<exists>reason. op = SesFail reason)) \<and> \<not> session_terminal s \<and> session_terminal s'
        \<and> si_close_reason (ses_info s') \<noteq> None \<and> mux_total_pending (ses_multiplexer s') = 0"
proof (cases op)
  case (SesOpen v)
  obtain r where "Session_open_validated_channel s v = (r, s')" using assms SesOpen by (cases "Session_open_validated_channel s v") auto
  then show ?thesis by (elim open_validated_cases) auto
next
  case (SesOpenLegacy v)
  obtain r where "Session_open_legacy_validated_channel s v = (r, s')" using assms SesOpenLegacy by (cases "Session_open_legacy_validated_channel s v") auto
  then show ?thesis by (elim open_legacy_cases) auto
next
  case (SesCloseChannel c)
  with assms show ?thesis by (auto simp: Session_close_channel_def split: prod.splits sum.splits)
qed (use assms in \<open>auto simp: Session_update_quality_def Session_report_continuity_def Session_begin_drain_def
      Session_finish_drain_def Session_abort_def Session_fail_def Session_ensure_active_def session_terminal_def
      Session_put_plane_def Multiplexer_discard_all_def Multiplexer_pending_frames_def Let_def
      split: prod.splits if_splits\<close>)

lemma session_exec_counts:
  assumes "session_inv s" and "session_exec op s = (s', acc, out, d)"
  shows "mux_inv (ses_multiplexer s')"
    and "mux_total_pending (ses_multiplexer s') + length out + d = mux_total_pending (ses_multiplexer s) + length acc"
    and "\<not> session_drops op c \<Longrightarrow>
      filter (\<lambda>f. lane_of f = c) out @ mux_lane (ses_multiplexer s') c
      = mux_lane (ses_multiplexer s) c @ filter (\<lambda>f. lane_of f = c) acc"
proof -
  have inv: "mux_inv (ses_multiplexer s)" using assms(1) by (simp add: session_inv_def)
  note ex = session_exec_mux [OF assms(2)]
  show "mux_inv (ses_multiplexer s')"
    using ex inv mux_lanes.exec_inv [OF inv] by (auto split: option.splits)
  show "mux_total_pending (ses_multiplexer s') + length out + d = mux_total_pending (ses_multiplexer s) + length acc"
    using ex mux_lanes.exec_count [OF inv] by (auto split: option.splits)
  show "\<not> session_drops op c \<Longrightarrow> filter (\<lambda>f. lane_of f = c) out @ mux_lane (ses_multiplexer s') c
      = mux_lane (ses_multiplexer s) c @ filter (\<lambda>f. lane_of f = c) acc"
    using ex mux_lanes.exec_lane [OF inv, where c = c] by (cases "session_mux_op op s") (simp_all, blast)
qed

lemma session_exec_quiet:
  assumes "session_inv s" and "session_exec op s = (s', acc, out, d)" and "session_terminal s"
  shows "ses_state s' = ses_state s \<and> si_close_reason (ses_info s') = si_close_reason (ses_info s)
    \<and> acc = [] \<and> out = [] \<and> mux_total_pending (ses_multiplexer s') = 0"
proof -
  have idle: "\<not> session_active (ses_state s)" "mux_total_pending (ses_multiplexer s) = 0"
    using assms(1,3) by (auto simp: session_inv_def lifecycle_inv_def session_terminal_def session_active_def)
  have "acc = []"
    using session_exec_mux [OF assms(2)] idle(1) assms(3) by (cases op) (auto split: prod.splits)
  with session_exec_counts(2) [OF assms(1,2)] idle(2)
  have "out = []" "mux_total_pending (ses_multiplexer s') = 0" by simp_all
  with \<open>acc = []\<close> session_exec_status [OF assms(2)] assms(3) show ?thesis by (auto simp: session_terminal_def)
qed

fun session_view_kept :: "SessionOp \<Rightarrow> bool" where
  "session_view_kept (SesOpen _) = False"
| "session_view_kept (SesOpenLegacy _) = False"
| "session_view_kept (SesCloseChannel _) = False"
| "session_view_kept _ = True"

lemma session_exec_inv:
  assumes inv: "session_inv s" and ex: "session_exec op s = (s', acc, out, d)"
  shows "session_inv s'"
proof -
  let ?map = "channel_map_inv (ses_channel_mappings s') \<and> mapping_inv s'"
  have life: "lifecycle_inv s'"
  proof (cases "session_terminal s")
    case True
    from session_exec_quiet [OF inv ex True] True inv show ?thesis
      by (auto simp: session_inv_def lifecycle_inv_def session_terminal_def session_active_def)
  next
    case False
    with inv have "session_active (ses_state s)" "si_close_reason (ses_info s) = None"
      by (auto simp: session_inv_def lifecycle_inv_def split: if_splits)
    with session_exec_status [OF ex] show ?thesis
      by (auto simp: lifecycle_inv_def session_active_def session_terminal_def)
  qed
  have old: "channel_map_inv (ses_channel_mappings s)" "mapping_inv s" using inv by (simp_all add: session_inv_def)
  have keep: ?map if "session_view_kept op"
  proof -
    have "channel_key_of (ses_multiplexer s') = channel_key_of (ses_multiplexer s)
        \<and> mux_retired_channels (ses_multiplexer s') = mux_retired_channels (ses_multiplexer s)"
    proof (cases "session_mux_op op s")
      case None
      with session_exec_mux [OF ex] show ?thesis by simp
    next
      case (Some mop)
      with that have "\<not> moves_channels mop" by (cases op) (auto split: if_splits)
      with session_exec_mux [OF ex] Some mux_exec_view show ?thesis by fastforce
    qed
    moreover have "ses_data_mode s' = ses_data_mode s" "ses_channel_mappings s' = ses_channel_mappings s"
      using session_exec_modes [OF ex] that by (auto split: SessionOp.splits)
    ultimately show ?map using old by (simp add: mapping_inv_def)
  qed
  have ?map
  proof (cases op)
    case (SesOpen v)
    with ex mapping_open [OF inv, of v] show ?map by (cases "Session_open_validated_channel s v") auto
  next
    case (SesCloseChannel c)
    with ex mapping_close [OF inv, of c] show ?map by (cases "Session_close_channel s c") auto
  next
    case (SesOpenLegacy v)
    obtain r where "Session_open_legacy_validated_channel s v = (r, s')"
      using ex SesOpenLegacy by (cases "Session_open_legacy_validated_channel s v") auto
    with old show ?map by (elim open_legacy_cases) (auto simp: mapping_inv_def)
  qed (simp_all add: keep)
  with life session_exec_counts(1) [OF inv ex] show ?thesis by (simp add: session_inv_def)
qed

interpretation session_lanes:
  lane_system session_inv "\<lambda>s. mux_total_pending (ses_multiplexer s)" "\<lambda>s. mux_lane (ses_multiplexer s)" lane_of
    session_exec session_drops
  by unfold_locales (fact session_exec_inv session_exec_counts(2) session_exec_counts(3))+

subsection \<open>What a subscriber sees\<close>

text \<open>Reading the delivered events against the published ones: an event stands for itself, a
  drop report of \<open>n\<close> for the next \<open>n\<close> events. The result is what was published but not yet
  accounted for.\<close>

fun consume :: "SessionEvent list \<Rightarrow> SessionEvent list \<Rightarrow> SessionEvent list option" where
  "consume [] pub = Some pub"
| "consume (EventsDropped n # got) pub =
     (if unat n \<le> length pub then consume got (drop (unat n) pub) else None)"
| "consume (e # got) [] = None"
| "consume (e # got) (p # pub) = (if e = p then consume got pub else None)"

definition is_drop_report :: "SessionEvent \<Rightarrow> bool" where
  "is_drop_report e = (case e of EventsDropped _ \<Rightarrow> True | _ \<Rightarrow> False)"

lemma consume_event: "\<not> is_drop_report e \<Longrightarrow> consume (e # got) (e # pub) = consume got pub"
  by (cases e) (auto simp: is_drop_report_def)

lemma consume_append: "consume (g @ h) pub = Option.bind (consume g pub) (consume h)"
  by (induction g pub rule: consume.induct) auto

lemma consume_publish: "consume got pub = Some rest \<Longrightarrow> consume got (pub @ [p]) = Some (rest @ [p])"
  by (induction got pub rule: consume.induct) (auto split: if_splits)

datatype BusOp = BusPublish SessionEvent | BusNext EventSubscriberId | BusSubscribe nat | BusUnsubscribe EventSubscriberId

fun bus_step ::
  "EventSubscriberId \<Rightarrow> BusOp \<Rightarrow> SessionEvent list \<times> SessionEvent list \<times> SessionEventBus
   \<Rightarrow> SessionEvent list \<times> SessionEvent list \<times> SessionEventBus" where
  "bus_step i (BusPublish e) (pub, got, b) = (pub @ [e], got, SessionEventBus_publish b e)"
| "bus_step i (BusNext j) (pub, got, b) =
     (case SessionEventBus_next b j of
        (None, b') \<Rightarrow> (pub, got, b')
      | (Some e, b') \<Rightarrow> (pub, if j = i then got @ [e] else got, b'))"
| "bus_step i (BusSubscribe n) (pub, got, b) = (pub, got, snd (SessionEventBus_subscribe b n))"
| "bus_step i (BusUnsubscribe j) (pub, got, b) = (pub, got, snd (SessionEventBus_unsubscribe b j))"

definition subscriber_inv :: "SessionEvent list \<Rightarrow> SessionEvent list \<Rightarrow> Subscriber \<Rightarrow> bool" where
  "subscriber_inv pub got sub \<longleftrightarrow>
     0 < sub_capacity sub \<and> length (sub_queue sub) \<le> sub_capacity sub
     \<and> (\<exists>rest. consume got pub = Some rest \<and> unat (sub_dropped sub) + length (sub_queue sub) = length rest
            \<and> sub_queue sub = drop (unat (sub_dropped sub)) rest)"

definition watched :: "EventSubscriberId \<Rightarrow> SessionEvent list \<times> SessionEvent list \<times> SessionEventBus \<Rightarrow> bool" where
  "watched i = (\<lambda>(pub, got, b).
     subscriber_id_val i < bus_next_id b
     \<and> (length pub < 2 ^ 64 \<and> list_all (\<lambda>e. \<not> is_drop_report e) pub \<longrightarrow>
          (\<exists>sub. bt_get (bus_subscribers b) i = Some sub \<and> subscriber_inv pub got sub)))"

lemma consume_length: "consume got pub = Some rest \<Longrightarrow> length rest \<le> length pub"
  by (induction got pub rule: consume.induct) (auto split: if_splits)

lemma consume_list_all: "consume got pub = Some rest \<Longrightarrow> list_all P pub \<Longrightarrow> list_all P rest"
  by (induction got pub rule: consume.induct) (auto split: if_splits simp: list_all_iff dest: in_set_dropD)

lemma subscriber_inv_publish:
  assumes "subscriber_inv pub got sub" and "length pub + 1 < 2 ^ 64"
  shows "subscriber_inv (pub @ [e]) got (publish_to e sub)"
proof -
  from assms(1) obtain rest where cap: "0 < sub_capacity sub" "length (sub_queue sub) \<le> sub_capacity sub"
    and rest: "consume got pub = Some rest" "unat (sub_dropped sub) + length (sub_queue sub) = length rest"
      "sub_queue sub = drop (unat (sub_dropped sub)) rest"
    by (auto simp: subscriber_inv_def)
  have pub: "consume got (pub @ [e]) = Some (rest @ [e])" using rest(1) by (rule consume_publish)
  show ?thesis
  proof (cases "length (sub_queue sub) = sub_capacity sub")
    case True
    have "unat (sub_dropped sub) + 1 < 2 ^ 64" using consume_length [OF rest(1)] rest(2) assms(2) by simp
    then have d: "unat (sat_add (sub_dropped sub) 1) = unat (sub_dropped sub) + 1" by (simp add: unat_sat_add)
    have "tl (sub_queue sub) = drop (Suc (unat (sub_dropped sub))) rest" using rest(3) by (simp add: drop_Suc tl_drop)
    with True cap pub d rest(2) show ?thesis
      by (cases "sub_queue sub") (auto simp: subscriber_inv_def publish_to_def)
  next
    case False
    with cap pub rest show ?thesis by (auto simp: subscriber_inv_def publish_to_def)
  qed
qed

lemma subscriber_inv_report:
  assumes "subscriber_inv pub got sub"
  shows "subscriber_inv pub (got @ [EventsDropped (sub_dropped sub)]) (sub\<lparr>sub_dropped := 0\<rparr>)"
  using assms by (auto simp: subscriber_inv_def consume_append)

lemma subscriber_inv_deliver:
  assumes "subscriber_inv pub got sub" and "sub_dropped sub = 0" and "sub_queue sub = e # q"
    and "list_all (\<lambda>e. \<not> is_drop_report e) pub"
  shows "subscriber_inv pub (got @ [e]) (sub\<lparr>sub_queue := q\<rparr>)"
proof -
  from assms(1-3) have rest: "consume got pub = Some (e # q)" by (auto simp: subscriber_inv_def)
  then have "\<not> is_drop_report e" using consume_list_all [OF rest assms(4)] by simp
  with assms rest consume_event [of e "[]" q] show ?thesis by (auto simp: subscriber_inv_def consume_append)
qed

lemma bus_next_other:
  assumes "SessionEventBus_next b j = (r, b')"
  shows "bus_next_id b' = bus_next_id b" and "j \<noteq> i \<Longrightarrow> bt_get (bus_subscribers b') i = bt_get (bus_subscribers b) i"
  using assms by (auto simp: SessionEventBus_next_def split: option.splits if_splits list.splits)

lemma watched_next:
  assumes w: "watched i (pub, got, b)" and "SessionEventBus_next b i = (r, b')"
  shows "watched i (pub, case r of None \<Rightarrow> got | Some e \<Rightarrow> got @ [e], b')"
proof -
  have "\<exists>sub. bt_get (bus_subscribers b') i = Some sub \<and> subscriber_inv pub (case r of None \<Rightarrow> got | Some e \<Rightarrow> got @ [e]) sub"
    if pub: "length pub < 2 ^ 64" "list_all (\<lambda>e. \<not> is_drop_report e) pub"
  proof -
    from w pub obtain sub where sub: "bt_get (bus_subscribers b) i = Some sub" "subscriber_inv pub got sub"
      by (auto simp: watched_def)
    show ?thesis
    proof (cases "sub_dropped sub > 0")
      case True
      with assms(2) sub subscriber_inv_report [OF sub(2)] show ?thesis by (auto simp: SessionEventBus_next_def)
    next
      case False
      then have "sub_dropped sub = 0" by (simp add: word_gt_0)
      with False assms(2) sub subscriber_inv_deliver [OF sub(2) this _ pub(2)] show ?thesis
        by (auto simp: SessionEventBus_next_def split: list.splits)
    qed
  qed
  with w bus_next_other(1) [OF assms(2)] show ?thesis by (auto simp: watched_def)
qed

lemma watched_step:
  assumes "watched i st" and "op \<noteq> BusUnsubscribe i"
  shows "watched i (bus_step i op st)"
proof -
  obtain pub got b where st: "st = (pub, got, b)" by (cases st)
  have idn: "subscriber_id_val i < bus_next_id b" using assms(1) by (simp add: watched_def st)
  show ?thesis
  proof (cases op)
    case (BusPublish e)
    then show ?thesis
      using assms(1) idn subscriber_inv_publish
      by (auto simp: watched_def st SessionEventBus_publish_def)
  next
    case (BusNext j)
    obtain r b' where nx: "SessionEventBus_next b j = (r, b')" by fastforce
    show ?thesis
    proof (cases "j = i")
      case True
      with watched_next [OF assms(1) [unfolded st]] nx BusNext st show ?thesis by (auto split: option.splits)
    next
      case False
      with assms(1) nx BusNext st bus_next_other [OF nx] show ?thesis by (auto simp: watched_def split: option.splits)
    qed
  next
    case (BusSubscribe n)
    then show ?thesis
      using assms(1) idn
      by (auto simp: watched_def st SessionEventBus_subscribe_def Let_def checked_add_eq_Some word_less_nat_alt unat_word_ariths
          split: option.splits)
  next
    case (BusUnsubscribe j)
    with assms show ?thesis by (auto simp: watched_def st SessionEventBus_unsubscribe_def)
  qed
qed
lemma watched_run:
  "watched i st \<Longrightarrow> BusUnsubscribe i \<notin> set ops \<Longrightarrow> watched i (fold (bus_step i) ops st)"
proof (induction ops arbitrary: st)
  case (Cons op ops)
  from Cons.IH [OF watched_step [OF Cons.prems(1)]] Cons.prems(2) show ?case by auto
qed simp

lemma subscribe_watched:
  assumes "SessionEventBus_subscribe b n = (Inr i, b0)"
  shows "watched i ([], [], b0)"
  using assms
  by (auto simp: SessionEventBus_subscribe_def Let_def watched_def subscriber_inv_def checked_add_eq_Some
      word_less_nat_alt unat_word_ariths split: if_splits option.splits)

subsection \<open>Properties of the session\<close>

lemma established_inv:
  assumes "Session_established neg limits n = Inr s" and "lim_max_channels limits \<le> usize_max"
  shows "session_inv s" and "ses_state s = Ss_Established" and "mux_total_pending (ses_multiplexer s) = 0"
    and "mux_lane (ses_multiplexer s) c = []"
proof -
  from assms(1) obtain m cm where
    m: "Multiplexer_restricted (neg_session_id neg) limits
          (map (\<lambda>p. (sel_stable_id p, sel_version p)) (neg_protocols neg)) = Inr m" "ses_multiplexer s = m"
    and cm: "SessionChannelMap_new MAX_SESSION_CHANNEL_MAPPINGS = Inr cm" "ses_channel_mappings s = cm"
    and st: "ses_state s = Ss_Established" "si_close_reason (ses_info s) = None"
    by (auto simp: Session_established_def Let_def result_bind_eq_Inr)
  from m(1) obtain m0 where m0: "Multiplexer_new (neg_session_id neg) limits = Inr m0"
    and m': "m = m0\<lparr>mux_allowed_protocols := Some (bs_of_list (map (\<lambda>p. (sel_stable_id p, sel_version p)) (neg_protocols neg)))\<rparr>"
    by (auto simp: Multiplexer_restricted_def result_bind_eq_Inr)
  have empty: "mux_channels m = bt_empty" "mux_retired_channels m = bt_empty" "mux_total_pending m = 0" "mux_control m = []"
    using m0 by (auto simp: m' Multiplexer_new_def split: if_splits)
  have "mux_inv m"
    using mux_new_inv [OF m0 assms(2)] m0
    by (auto simp: m' mux_inv_def channels_inv_def ready_inv_def pending_inv_def table_inv_def keys_inv_def data_pending_def
        channel_key_of_def Multiplexer_new_def split: if_splits)
  moreover have "channel_map_inv cm" using cm(1) by (rule channel_map_new_inv)
  moreover have "scm_by_session cm = bt_empty" "scm_retired cm = bt_empty"
    using cm(1) by (auto simp: SessionChannelMap_new_def split: if_splits)
  then have "mapping_inv s"
    using cm(2) empty m(2) by (simp add: mapping_inv_def channel_key_of_def)
  ultimately show "session_inv s"
    using st m(2) cm(2) by (simp add: session_inv_def lifecycle_inv_def session_active_def)
  show "ses_state s = Ss_Established" "mux_total_pending (ses_multiplexer s) = 0" "mux_lane (ses_multiplexer s) c = []"
    using st m(2) empty by (simp_all add: mux_lane_def)
qed

text \<open>C14: the session keeps its channel map and its multiplexer in step. After any sequence of
  operations on an established session with compact channels, the channels the map resolves
  are exactly the open channels of the multiplexer, each to the protocol and protocol channel
  it was opened for, and the same session channels are retired in both; and the multiplexer's
  own invariant holds.\<close>

theorem session_consistent:
  assumes "Session_established neg limits n = Inr s0" and "lim_max_channels limits \<le> usize_max"
    and "run_ops session_exec ops s0 = (s, acc, out, d)" and "data_guard_mode (ses_data_mode s) = CompactV1"
  shows "mux_inv (ses_multiplexer s)
    \<and> SessionChannelMap_protocol_channel (ses_channel_mappings s) c
        = map_option (\<lambda>k. (key_protocol_id k, key_protocol_channel_id k)) (channel_key_of (ses_multiplexer s) c)
    \<and> (bt_contains (scm_retired (ses_channel_mappings s)) c \<longleftrightarrow> bt_contains (mux_retired_channels (ses_multiplexer s)) c)"
  using session_lanes.run_inv [OF established_inv(1) [OF assms(1,2)] assms(3)] assms(4)
  by (simp add: session_inv_def mapping_inv_def SessionChannelMap_protocol_channel_def)

text \<open>A closed or failed session is final. Once a session is terminal its state and close
  reason never change, it has nothing pending, and no later operation makes it accept or send
  a frame.\<close>

theorem session_terminal_final:
  assumes "Session_established neg limits n = Inr s0" and "lim_max_channels limits \<le> usize_max"
    and "run_ops session_exec ops s0 = (s, acc, out, d)" and "session_terminal s"
    and "run_ops session_exec ops' s = (s', acc', out', d')"
  shows "ses_state s' = ses_state s \<and> si_close_reason (ses_info s') = si_close_reason (ses_info s)
    \<and> si_close_reason (ses_info s) \<noteq> None \<and> acc' = [] \<and> out' = []
    \<and> SessionDataPlane_pending_frames (Session_data_plane s') = 0"
proof -
  have inv: "session_inv s" using session_lanes.run_inv [OF established_inv(1) [OF assms(1,2)] assms(3)] .
  have "session_terminal s' \<and> ses_state s' = ses_state s \<and> si_close_reason (ses_info s') = si_close_reason (ses_info s)
      \<and> acc' = [] \<and> out' = []"
    using inv assms(4,5)
  proof (induction ops' arbitrary: s acc' out' d')
    case (Cons op ops')
    from Cons.prems(3) obtain u a1 o1 d1 a2 o2 d2 where
      1: "session_exec op s = (u, a1, o1, d1)" and 2: "run_ops session_exec ops' u = (s', a2, o2, d2)"
      and eq: "acc' = a1 @ a2" "out' = o1 @ o2"
      by (auto split: prod.splits)
    note q = session_exec_quiet [OF Cons.prems(1) 1 Cons.prems(2)]
    then have "session_terminal u" using Cons.prems(2) by (simp add: session_terminal_def)
    from Cons.IH [OF session_exec_inv [OF Cons.prems(1) 1] this 2] q eq show ?case by simp
  qed simp
  moreover have "session_inv s'" using session_lanes.run_inv [OF inv assms(5)] .
  ultimately show ?thesis
    using inv assms(4)
    by (auto simp: session_inv_def lifecycle_inv_def session_terminal_def session_active_def
        SessionDataPlane_pending_frames_def Session_data_plane_def Multiplexer_pending_frames_def)
qed

text \<open>C15: a graceful drain loses nothing. When a session finishes draining, every frame it
  accepted was sent or was discarded by an explicit cancel or close of its channel; on a
  channel that was neither, exactly the accepted frames were sent, in their order.\<close>

theorem graceful_drain_lossless:
  assumes "Session_established neg limits n = Inr s0" and "lim_max_channels limits \<le> usize_max"
    and "run_ops session_exec ops s0 = (s, acc, out, d)" and "Session_finish_drain s = (Inr (), s')"
  shows "length acc = length out + d
    \<and> (list_all (\<lambda>op. \<not> session_drops op c) ops \<longrightarrow>
        filter (\<lambda>f. lane_of f = c) out = filter (\<lambda>f. lane_of f = c) acc)
    \<and> ses_state s' = Ss_Closed \<and> si_close_reason (ses_info s') = Some Graceful"
proof -
  note est = established_inv [OF assms(1,2)]
  have inv: "mux_inv (ses_multiplexer s)"
    using session_lanes.run_inv [OF est(1) assms(3)] by (simp add: session_inv_def)
  have none: "mux_total_pending (ses_multiplexer s) = 0" and s': "s' = Session_close s Graceful Ss_Closed"
    using assms(4) by (auto simp: Session_finish_drain_def Multiplexer_pending_frames_def split: if_splits)
  have "mux_lane (ses_multiplexer s) c = []"
    using inv none data_pending_ge [of "ses_multiplexer s" c]
    by (auto simp: mux_inv_def pending_inv_def mux_lane_def split: option.splits)
  then show ?thesis
    using session_lanes.run_count [OF est(1) assms(3)] session_lanes.run_lane [OF est(1) assms(3), of c] none est(3) est(4) [of c] s'
    by auto
qed

text \<open>C16: no event is lost silently. Whatever is published, read, subscribed or unsubscribed by
  others, a subscriber's events read in order account for every event published since it
  subscribed: each is delivered in its place, or counted by a drop report in its place, or is
  still queued behind the drops not yet reported; and its queue never exceeds its capacity.\<close>

theorem subscriber_accounts_for_all:
  assumes "SessionEventBus_subscribe b n = (Inr i, b0)" and "BusUnsubscribe i \<notin> set ops"
    and "fold (bus_step i) ops ([], [], b0) = (pub, got, b')"
    and "length pub < 2 ^ 64" and "list_all (\<lambda>e. \<not> is_drop_report e) pub"
  shows "\<exists>sub rest. bt_get (bus_subscribers b') i = Some sub \<and> length (sub_queue sub) \<le> sub_capacity sub
    \<and> consume got pub = Some rest \<and> unat (sub_dropped sub) + length (sub_queue sub) = length rest
    \<and> sub_queue sub = drop (unat (sub_dropped sub)) rest"
  using watched_run [OF subscribe_watched [OF assms(1)] assms(2)] assms(3-5)
  by (auto simp: watched_def subscriber_inv_def)

subsection \<open>A sample session\<close>

definition sample_compact :: NegotiatedSession where
  "sample_compact = (sample_session (sample_identity 2) (sample_identity 1))
     \<lparr>neg_link_capabilities := LinkCapabilities_bitor TYPED_CONTROL COMPACT_CHANNEL_ID\<rparr>"

definition sample_channel :: ValidatedChannel where
  "sample_channel =
     \<lparr>vc_config = \<lparr>cfg_key = ChannelKey (ProtocolStableId 3) (ProtocolVersion 1 2) (ProtocolChannelId 1),
        cfg_id = ChannelId 5, cfg_generation = ChannelGeneration_INITIAL, cfg_mode = Event, cfg_priority_hint = 9,
        cfg_capacity = 2, cfg_max_frame_bytes = 16, cfg_max_stream_bytes = None, cfg_discardable = True\<rparr>,
      vc_protocol_id = ProtocolStableId 3, vc_protocol_channel_id = ProtocolChannelId 1, vc_schema = sample_schema,
      vc_capabilities = ProtocolCapabilitySet_empty (ProtocolStableId 3), vc_debug_name = None,
      vc_max_frame_bytes = 16, vc_max_stream_bytes = None, vc_discardable = True\<rparr>"

lemma sample_channel_opened:
  "\<exists>a. FrozenProtocolRegistry_activate (ProtocolRegistry_freeze sample_registry) [sample_selection] = Inr a
     \<and> ActiveProtocolSet_open_channel a sample_request = Inr sample_channel"
  by (simp add: FrozenProtocolRegistry_activate_def ProtocolRegistry_freeze_def sample_registry_def sample_selection_def
      sample_descriptor_def bt.len_ins bt.len_empty ProtocolCapabilitySet_empty_def ProtocolCapabilitySet_is_bounded_def
      ProtocolCapabilitySet_is_subset_of_def VersionRange_negotiate_def VersionRange_is_valid_def VersionRange_new_def
      sample_schema_def ActiveProtocolSet_open_channel_def sample_request_def collect_channels_def sample_channel_def Let_def)

definition sample_session_start :: Session where
  "sample_session_start = projr (Session_established sample_compact MultiplexerLimits_default 4)"

lemmas session_eval =
  Session_established_def NegotiatedSession_control_mode_guard_def NegotiatedSession_control_identity_mode_def
  ControlIdentityMode_negotiate_def DataIdentityMode_negotiate_def LinkCapabilities_contains_def
  LinkCapabilities_bitor_def TYPED_CONTROL_def COMPACT_CHANNEL_ID_def sample_compact_def sample_session_def
  SessionEventBus_new_def Multiplexer_restricted_def Multiplexer_new_def SessionChannelMap_new_def
  MAX_SESSION_CHANNEL_MAPPINGS_def MultiplexerLimits_default_def Let_def

lemma sample_established: "Session_established sample_compact MultiplexerLimits_default 4 = Inr sample_session_start"
  by (simp add: session_eval sample_session_start_def)

lemma sample_start_fields:
  "ses_state sample_session_start = Ss_Established" "data_guard_mode (ses_data_mode sample_session_start) = CompactV1"
  "guard_mode (ses_control_mode sample_session_start) = TypedV1"
  "si_protocols (ses_info sample_session_start) = [sample_selection]"
  "mux_channels (ses_multiplexer sample_session_start) = bt_empty"
  "mux_retired_channels (ses_multiplexer sample_session_start) = bt_empty"
  "mux_limits (ses_multiplexer sample_session_start) = MultiplexerLimits_default"
  "mux_control (ses_multiplexer sample_session_start) = []" "mux_total_pending (ses_multiplexer sample_session_start) = 0"
  "mux_allowed_protocols (ses_multiplexer sample_session_start) = Some (bs_of_list [(ProtocolStableId 3, ProtocolVersion 1 2)])"
  "ses_channel_mappings sample_session_start =
     \<lparr>scm_maximum = 128, scm_by_protocol = bt_empty, scm_by_session = bt_empty, scm_retired = bt_empty\<rparr>"
  by (simp_all add: session_eval sample_session_start_def sample_selection_def)

lemma sample_mux_limits: "lim_max_channels MultiplexerLimits_default \<le> usize_max"
  by (simp add: MultiplexerLimits_default_def usize_max_def)

text \<open>C14 witness: a compact session that opened one channel.\<close>

theorem session_consistent_witness:
  "SessionChannelMap_protocol_channel (ses_channel_mappings (fst (run_ops session_exec [SesOpen sample_channel] sample_session_start)))
     (ChannelId 5) = Some (ProtocolStableId 3, ProtocolChannelId 1)"
proof -
  obtain s acc out d where run: "run_ops session_exec [SesOpen sample_channel] sample_session_start = (s, acc, out, d)"
    using prod_cases4 by blast
  then have s: "s = snd (Session_open_validated_channel sample_session_start sample_channel)" by simp
  have compact: "data_guard_mode (ses_data_mode s) = CompactV1"
    using session_exec_modes [of "SesOpen sample_channel" sample_session_start s "[]" "[]" 0] s
    by (simp add: sample_start_fields)
  have "session_mux_op (SesOpen sample_channel) sample_session_start = Some (MuxOpen (vc_config sample_channel))"
    by (simp add: session_active_def sample_start_fields ControlModeGuard_validate_typed_def
        DataModeGuard_validate_compact_def Session_validated_channel_matches_session_def sample_channel_def
        sample_selection_def SessionChannelMap_validate_bind_def ValidatedChannel_accepted_mapping_def usize_sat_add_def
        bt.len_empty Let_def)
  with session_exec_mux [of "SesOpen sample_channel" sample_session_start s "[]" "[]" 0] s
  have "ses_multiplexer s = snd (Multiplexer_open_channel (ses_multiplexer sample_session_start) (vc_config sample_channel))"
    by simp
  then have "channel_key_of (ses_multiplexer s) (ChannelId 5)
      = Some (ChannelKey (ProtocolStableId 3) (ProtocolVersion 1 2) (ProtocolChannelId 1))"
    by (simp add: Multiplexer_open_channel_def sample_channel_def sample_start_fields CONTROL_CHANNEL_ID_def
        ChannelGeneration_INITIAL_def usize_sat_add_def bt.len_empty MultiplexerLimits_default_def channel_key_of_def Let_def)
  with session_consistent [OF sample_established sample_mux_limits run compact, of "ChannelId 5"] run show ?thesis by simp
qed

text \<open>An aborted session and a later attempt to send.\<close>

theorem session_terminal_final_witness:
  "fst (snd (run_ops session_exec [SesControl [1]] (Session_abort sample_session_start))) = []"
proof -
  let ?s = "Session_abort sample_session_start"
  have abort: "run_ops session_exec [SesAbort] sample_session_start = (?s, [], [], 0)"
    by (simp add: session_terminal_def sample_start_fields Multiplexer_discard_all_def)
  have over: "session_terminal ?s" by (simp add: session_terminal_def Session_abort_def sample_start_fields)
  obtain s' acc out d where run: "run_ops session_exec [SesControl [1]] ?s = (s', acc, out, d)"
    using prod_cases4 by blast
  from session_terminal_final [OF sample_established sample_mux_limits abort over run] run show ?thesis by simp
qed

text \<open>C15 witness: a control frame that is sent before the drain finishes.\<close>

theorem graceful_drain_lossless_witness:
  "\<exists>s. run_ops session_exec [SesControl [1], SesBeginDrain, SesNext] sample_session_start
         = (s, [Out_Control [1]], [Out_Control [1]], 0)
     \<and> fst (Session_finish_drain s) = Inr ()"
proof -
  let ?ops = "[SesControl [1], SesBeginDrain, SesNext]"
  obtain s acc out d where run: "run_ops session_exec ?ops sample_session_start = (s, acc, out, d)"
    using prod_cases4 by blast
  have acc: "acc = [Out_Control [1]]" "d = 0" and fin: "fst (Session_finish_drain s) = Inr ()"
    using run
    by (auto simp: SessionDataPlane_enqueue_control_def Session_data_plane_def SessionDataPlane_ensure_active_def
        session_active_def sample_start_fields Multiplexer_enqueue_control_def Multiplexer_validate_payload_def
        MultiplexerLimits_default_def Session_put_plane_def Session_begin_drain_def SessionDataPlane_next_outbound_def
        Multiplexer_next_outbound_def Session_finish_drain_def Multiplexer_pending_frames_def split: prod.splits)
  from fin obtain s' where fin': "Session_finish_drain s = (Inr (), s')" by (cases "Session_finish_drain s") auto
  from graceful_drain_lossless [OF sample_established sample_mux_limits run fin', of CONTROL_CHANNEL_ID] acc
  have "filter (\<lambda>f. lane_of f = CONTROL_CHANNEL_ID) out = [Out_Control [1]]" "length out = 1" by simp_all
  then have "out = [Out_Control [1]]" by (cases out) (auto split: if_splits)
  with run acc fin show ?thesis by auto
qed

text \<open>C16 witness: a subscriber of capacity one that misses the first of two events.\<close>

theorem subscriber_accounts_for_all_witness:
  "\<exists>b0 sub. SessionEventBus_subscribe \<lparr>bus_max_subscribers = 4, bus_next_id = 1, bus_subscribers = bt_empty\<rparr> 1
         = (Inr (EventSubscriberId 1), b0)
     \<and> bt_get (bus_subscribers (snd (snd (fold (bus_step (EventSubscriberId 1))
          [BusPublish (Ev_Closed Graceful), BusPublish (Ev_Closed LocalAbort)] ([], [], b0))))) (EventSubscriberId 1) = Some sub
     \<and> sub_queue sub = [Ev_Closed LocalAbort]"
proof -
  let ?i = "EventSubscriberId 1"
  let ?ops = "[BusPublish (Ev_Closed Graceful), BusPublish (Ev_Closed LocalAbort)]"
  obtain b0 where b0: "SessionEventBus_subscribe \<lparr>bus_max_subscribers = 4, bus_next_id = 1, bus_subscribers = bt_empty\<rparr> 1
      = (Inr ?i, b0)" and sub0: "bt_get (bus_subscribers b0) ?i = Some \<lparr>sub_queue = [], sub_capacity = 1, sub_dropped = 0\<rparr>"
    by (simp add: SessionEventBus_subscribe_def bt.len_empty checked_add_def Let_def)
  obtain b' where run: "fold (bus_step ?i) ?ops ([], [], b0) = ([Ev_Closed Graceful, Ev_Closed LocalAbort], [], b')" by simp
  have nd: "list_all (\<lambda>e. \<not> is_drop_report e) [Ev_Closed Graceful, Ev_Closed LocalAbort]"
    "length [Ev_Closed Graceful, Ev_Closed LocalAbort] < 2 ^ 64" "BusUnsubscribe ?i \<notin> set ?ops"
    by (simp_all add: is_drop_report_def)
  from subscriber_accounts_for_all [OF b0 nd(3) run nd(2,1)] obtain sub where
    sub: "bt_get (bus_subscribers b') ?i = Some sub"
      "sub_queue sub = drop (unat (sub_dropped sub)) [Ev_Closed Graceful, Ev_Closed LocalAbort]" by auto
  moreover have "sub_dropped sub = 1"
    using sub(1) run sub0 by (auto simp: SessionEventBus_publish_def publish_to_def sat_add_def)
  ultimately show ?thesis using b0 run by auto
qed

end
