(* ===== verification/Link_Selection.thy ===== *)
theory Link_Selection
  imports Link_Transport Link_Liveness
begin

text \<open>
  Transport selection, \<^verbatim>\<open>selection.rs\<close>: a fallback plan offers the candidates of
  sufficient security in the order of their priority and refuses to fall back to a weaker
  security level than one already attempted, unless the policy allows it. The lemmas relate
  the plan, whatever calls are made on it, to a filter of the sorted candidates.
\<close>

subsection \<open>Candidates and policies\<close>

datatype SecurityLevel = Plaintext | Authenticated | AuthenticatedEncrypted

fun security_rank :: "SecurityLevel \<Rightarrow> nat" where
  "security_rank Plaintext = 0"
| "security_rank Authenticated = 1"
| "security_rank AuthenticatedEncrypted = 2"

lemma security_rank_inject: "security_rank a = security_rank b \<longleftrightarrow> a = b"
  by (cases a; cases b; simp)

instantiation SecurityLevel :: linorder
begin
definition less_eq_SecurityLevel :: "SecurityLevel \<Rightarrow> SecurityLevel \<Rightarrow> bool" where
  "less_eq_SecurityLevel a b = (security_rank a \<le> security_rank b)"
definition less_SecurityLevel :: "SecurityLevel \<Rightarrow> SecurityLevel \<Rightarrow> bool" where
  "less_SecurityLevel a b = (security_rank a < security_rank b)"
instance
  by standard (auto simp: less_eq_SecurityLevel_def less_SecurityLevel_def security_rank_inject)
end

record TransportCandidate =
  cand_kind :: TransportKind
  cand_endpoint :: EndpointAddress
  cand_priority :: u16
  cand_security :: SecurityLevel

datatype AttemptFailure =
    Af_Unreachable | Af_TimedOut | Af_AuthenticationFailed | Af_Incompatible | Af_ResourceExhausted | Af_Cancelled | Af_Other

record TransportAttempt =
  att_candidate :: TransportCandidate
  att_failure :: AttemptFailure

record FallbackPolicy =
  fbp_minimum_security :: SecurityLevel
  fbp_allow_security_downgrade :: bool

datatype SelectionError =
    NoCandidates | SecurityDowngrade (attempted: SecurityLevel) (candidate: SecurityLevel) | Exhausted "TransportAttempt list"

record TransportSelection =
  sel_selected :: TransportCandidate
  sel_quality :: ConnectionQuality
  sel_failures :: "TransportAttempt list"

subsection \<open>The fallback plan\<close>

record FallbackPlan =
  plan_policy :: FallbackPolicy
  plan_pending :: "TransportCandidate list"
  plan_failures :: "TransportAttempt list"
  plan_strongest_attempted :: "SecurityLevel option"

definition FallbackPlan_new :: "TransportCandidate list \<Rightarrow> FallbackPolicy \<Rightarrow> (SelectionError, FallbackPlan) result" where
  "FallbackPlan_new candidates policy =
     (let candidates = filter (\<lambda>c. cand_security c \<ge> fbp_minimum_security policy) candidates;
          candidates = sort_key cand_priority candidates
      in if candidates = [] then Inl NoCandidates
         else Inr \<lparr>plan_policy = policy, plan_pending = candidates, plan_failures = [], plan_strongest_attempted = None\<rparr>)"

definition FallbackPlan_next_candidate ::
  "FallbackPlan \<Rightarrow> (SelectionError, TransportCandidate option) result \<times> FallbackPlan" where
  "FallbackPlan_next_candidate self =
     (case plan_pending self of
        [] \<Rightarrow> (Inr None, self)
      | c # rest \<Rightarrow>
          let self = self\<lparr>plan_pending := rest\<rparr> in
          (case plan_strongest_attempted self of
             Some strongest \<Rightarrow>
               if cand_security c < strongest \<and> \<not> fbp_allow_security_downgrade (plan_policy self)
               then (Inl (SecurityDowngrade strongest (cand_security c)), self)
               else (Inr (Some c), self\<lparr>plan_strongest_attempted := Some (max strongest (cand_security c))\<rparr>)
           | None \<Rightarrow> (Inr (Some c), self\<lparr>plan_strongest_attempted := Some (cand_security c)\<rparr>)))"

definition FallbackPlan_record_failure :: "FallbackPlan \<Rightarrow> TransportCandidate \<Rightarrow> AttemptFailure \<Rightarrow> FallbackPlan" where
  "FallbackPlan_record_failure self c failure =
     self\<lparr>plan_failures := plan_failures self @ [\<lparr>att_candidate = c, att_failure = failure\<rparr>]\<rparr>"

definition FallbackPlan_select :: "FallbackPlan \<Rightarrow> TransportCandidate \<Rightarrow> ConnectionQuality \<Rightarrow> TransportSelection" where
  "FallbackPlan_select self selected quality =
     \<lparr>sel_selected = selected, sel_quality = quality, sel_failures = plan_failures self\<rparr>"

definition FallbackPlan_exhausted :: "FallbackPlan \<Rightarrow> SelectionError" where
  "FallbackPlan_exhausted self = Exhausted (plan_failures self)"

subsection \<open>What a plan offers\<close>

datatype PlanOp = PlanNext | PlanFail TransportCandidate AttemptFailure

fun plan_run ::
  "PlanOp list \<Rightarrow> FallbackPlan \<Rightarrow> (SelectionError, TransportCandidate option) result list \<times> FallbackPlan" where
  "plan_run [] plan = ([], plan)"
| "plan_run (PlanNext # ops) plan =
     (case FallbackPlan_next_candidate plan of (r, plan1) \<Rightarrow>
      case plan_run ops plan1 of (rs, plan2) \<Rightarrow> (r # rs, plan2))"
| "plan_run (PlanFail c failure # ops) plan = plan_run ops (FallbackPlan_record_failure plan c failure)"

definition plan_offered :: "(SelectionError, TransportCandidate option) result list \<Rightarrow> TransportCandidate list" where
  "plan_offered rs = List.map_filter (\<lambda>r. case r of Inr (Some c) \<Rightarrow> Some c | _ \<Rightarrow> None) rs"

definition plan_nexts :: "PlanOp list \<Rightarrow> nat" where
  "plan_nexts ops = length (filter (\<lambda>op. op = PlanNext) ops)"

definition plan_fails :: "PlanOp list \<Rightarrow> TransportAttempt list" where
  "plan_fails ops =
     List.map_filter (\<lambda>op. case op of PlanFail c f \<Rightarrow> Some \<lparr>att_candidate = c, att_failure = f\<rparr> | PlanNext \<Rightarrow> None) ops"

text \<open>The reference: the candidates that are not weaker than one kept before.\<close>

fun not_weaker :: "SecurityLevel option \<Rightarrow> TransportCandidate list \<Rightarrow> TransportCandidate list" where
  "not_weaker strongest [] = []"
| "not_weaker strongest (c # cs) =
     (if (case strongest of None \<Rightarrow> True | Some s \<Rightarrow> s \<le> cand_security c)
      then c # not_weaker (Some (cand_security c)) cs else not_weaker strongest cs)"

definition admitted :: "FallbackPolicy \<Rightarrow> SecurityLevel option \<Rightarrow> TransportCandidate list \<Rightarrow> TransportCandidate list" where
  "admitted policy strongest cs = (if fbp_allow_security_downgrade policy then cs else not_weaker strongest cs)"

lemma not_weaker_subset: "set (not_weaker strongest cs) \<subseteq> set cs"
  by (induction strongest cs rule: not_weaker.induct) auto

lemma not_weaker_sorted:
  "sorted (map cand_security (not_weaker strongest cs))
   \<and> (\<forall>s. strongest = Some s \<longrightarrow> (\<forall>c \<in> set (not_weaker strongest cs). s \<le> cand_security c))"
  by (induction strongest cs rule: not_weaker.induct) (auto intro: order_trans)

lemma not_weaker_by_priority: "sorted (map cand_priority cs) \<Longrightarrow> sorted (map cand_priority (not_weaker strongest cs))"
proof (induction strongest cs rule: not_weaker.induct)
  case (2 strongest c cs)
  then show ?case using not_weaker_subset [of "Some (cand_security c)" cs] by (auto split: option.splits)
qed simp

lemma next_candidate_spec:
  assumes "FallbackPlan_next_candidate plan = (r, plan1)"
  shows "plan_policy plan1 = plan_policy plan" and "plan_failures plan1 = plan_failures plan"
    and "plan_pending plan1 = tl (plan_pending plan)"
    and "plan_offered [r] @ admitted (plan_policy plan) (plan_strongest_attempted plan1) (take n (plan_pending plan1))
       = admitted (plan_policy plan) (plan_strongest_attempted plan) (take (Suc n) (plan_pending plan))"
  using assms
  by (auto simp: FallbackPlan_next_candidate_def admitted_def plan_offered_def map_filter_simps max_def not_less Let_def
      split: list.splits option.splits if_splits)

lemma offered_Cons: "plan_offered (r # rs) = plan_offered [r] @ plan_offered rs"
  by (simp add: plan_offered_def map_filter_def)

lemma plan_run_spec:
  assumes "plan_run ops plan = (rs, plan')"
  shows "plan_offered rs = admitted (plan_policy plan) (plan_strongest_attempted plan) (take (plan_nexts ops) (plan_pending plan))
    \<and> plan_pending plan' = drop (plan_nexts ops) (plan_pending plan)
    \<and> plan_failures plan' = plan_failures plan @ plan_fails ops \<and> plan_policy plan' = plan_policy plan
    \<and> length rs = plan_nexts ops"
  using assms
proof (induction ops plan arbitrary: rs rule: plan_run.induct)
  case (2 ops plan)
  obtain r plan1 where n: "FallbackPlan_next_candidate plan = (r, plan1)" by fastforce
  obtain rs' where run: "plan_run ops plan1 = (rs', plan')" and rs: "rs = r # rs'"
    using 2(2) n by (auto split: prod.splits)
  have k: "plan_nexts (PlanNext # ops) = Suc (plan_nexts ops)" "plan_fails (PlanNext # ops) = plan_fails ops"
    by (simp_all add: plan_nexts_def plan_fails_def map_filter_simps)
  show ?case
    using 2(1) [OF n [symmetric] run] next_candidate_spec(1-3) [OF n]
      next_candidate_spec(4) [OF n, of "plan_nexts ops"]
    unfolding rs k offered_Cons [of r rs'] by (simp add: drop_Suc)
qed (auto simp: plan_offered_def plan_nexts_def plan_fails_def admitted_def map_filter_simps FallbackPlan_record_failure_def)

subsection \<open>Properties\<close>

text \<open>C18: a fallback plan never downgrades. Whatever attempts are made and failures recorded,
  a plan offers the candidates of at least the minimal security in the order of priority,
  equal priorities in the given order, leaving out, unless the policy allows a downgrade,
  exactly those weaker than one offered before; so without a downgrade the security of
  the offered candidates never decreases. The failures reported at the end are those recorded, and after
  as many calls as there are candidates the plan has no further one.\<close>

theorem fallback_plan_offers:
  assumes "FallbackPlan_new candidates policy = Inr plan" and "plan_run ops plan = (rs, plan')"
  shows "plan_offered rs = admitted policy None (take (plan_nexts ops)
           (sort_key cand_priority (filter (\<lambda>c. cand_security c \<ge> fbp_minimum_security policy) candidates)))
    \<and> sorted (map cand_priority (plan_offered rs))
    \<and> (\<forall>c. c \<in> set (plan_offered rs) \<longrightarrow> c \<in> set candidates \<and> fbp_minimum_security policy \<le> cand_security c)
    \<and> (\<not> fbp_allow_security_downgrade policy \<longrightarrow> sorted (map cand_security (plan_offered rs)))
    \<and> FallbackPlan_exhausted plan' = Exhausted (plan_fails ops)
    \<and> (length candidates \<le> plan_nexts ops \<longrightarrow> FallbackPlan_next_candidate plan' = (Inr None, plan'))"
proof -
  let ?cs = "sort_key cand_priority (filter (\<lambda>c. cand_security c \<ge> fbp_minimum_security policy) candidates)"
  have plan: "plan = \<lparr>plan_policy = policy, plan_pending = ?cs, plan_failures = [], plan_strongest_attempted = None\<rparr>"
    using assms(1) by (simp add: FallbackPlan_new_def Let_def split: if_splits)
  have off: "plan_offered rs = admitted policy None (take (plan_nexts ops) ?cs)"
    and pend: "plan_pending plan' = drop (plan_nexts ops) ?cs" and fails: "plan_failures plan' = plan_fails ops"
    using plan_run_spec [OF assms(2)] unfolding plan by simp_all
  have srt: "sorted (map cand_priority (take (plan_nexts ops) ?cs))"
    by (metis sorted_sort_key sorted_wrt_take take_map)
  then have "sorted (map cand_priority (plan_offered rs))"
    unfolding off admitted_def by (simp add: not_weaker_by_priority)
  moreover have "set (plan_offered rs) \<subseteq> set ?cs"
    unfolding off admitted_def using not_weaker_subset [of None "take (plan_nexts ops) ?cs"] set_take_subset [of "plan_nexts ops" ?cs]
    by auto
  moreover have "\<not> fbp_allow_security_downgrade policy \<Longrightarrow> sorted (map cand_security (plan_offered rs))"
    unfolding off admitted_def using not_weaker_sorted by simp
  moreover have "FallbackPlan_next_candidate plan' = (Inr None, plan')" if "length candidates \<le> plan_nexts ops"
  proof -
    have "length ?cs \<le> plan_nexts ops" using that length_filter_le le_trans by (metis length_sort)
    then show ?thesis using pend by (simp add: FallbackPlan_next_candidate_def)
  qed
  ultimately show ?thesis
    using off fails by (auto simp: FallbackPlan_exhausted_def)
qed

definition sample_candidate :: "u16 \<Rightarrow> SecurityLevel \<Rightarrow> TransportCandidate" where
  "sample_candidate priority security =
     \<lparr>cand_kind = Tk_Tcp, cand_endpoint = \<lparr>addr_scheme = [116], addr_address = [49]\<rparr>, cand_priority = priority,
      cand_security = security\<rparr>"

text \<open>C18 witness: a strong candidate fails, the weaker one is refused and the next strong one offered.\<close>

theorem fallback_plan_offers_witness:
  "\<exists>plan rs plan'.
     FallbackPlan_new [sample_candidate 3 AuthenticatedEncrypted, sample_candidate 2 Authenticated,
         sample_candidate 1 AuthenticatedEncrypted, sample_candidate 0 Plaintext]
       \<lparr>fbp_minimum_security = Authenticated, fbp_allow_security_downgrade = False\<rparr> = Inr plan
     \<and> plan_run [PlanNext, PlanFail (sample_candidate 1 AuthenticatedEncrypted) Af_TimedOut, PlanNext, PlanNext] plan = (rs, plan')
     \<and> plan_offered rs = [sample_candidate 1 AuthenticatedEncrypted, sample_candidate 3 AuthenticatedEncrypted]"
proof -
  let ?cands = "[sample_candidate 3 AuthenticatedEncrypted, sample_candidate 2 Authenticated,
         sample_candidate 1 AuthenticatedEncrypted, sample_candidate 0 Plaintext]"
  let ?policy = "\<lparr>fbp_minimum_security = Authenticated, fbp_allow_security_downgrade = False\<rparr>"
  let ?ops = "[PlanNext, PlanFail (sample_candidate 1 AuthenticatedEncrypted) Af_TimedOut, PlanNext, PlanNext]"
  have sorted: "sort_key cand_priority (filter (\<lambda>c. cand_security c \<ge> fbp_minimum_security ?policy) ?cands)
      = [sample_candidate 1 AuthenticatedEncrypted, sample_candidate 2 Authenticated, sample_candidate 3 AuthenticatedEncrypted]"
    by (simp add: sample_candidate_def less_eq_SecurityLevel_def word_le_nat_alt)
  then obtain plan where new: "FallbackPlan_new ?cands ?policy = Inr plan" by (simp add: FallbackPlan_new_def Let_def)
  obtain rs plan' where run: "plan_run ?ops plan = (rs, plan')" by fastforce
  have "plan_offered rs = [sample_candidate 1 AuthenticatedEncrypted, sample_candidate 3 AuthenticatedEncrypted]"
    using fallback_plan_offers [OF new run] unfolding sorted
    by (simp add: plan_nexts_def admitted_def sample_candidate_def less_eq_SecurityLevel_def)
  with new run show ?thesis by blast
qed

end
