(* ===== verification/Link_Security.thy ===== *)
theory Link_Security
  imports Link_Session Link_Selection
begin

text \<open>
  Transport security, \<^verbatim>\<open>security.rs\<close>: the validation of the evidence a transport
  backend presents against what a session expects and what the policy demands. The lemmas
  say what an accepted evidence guarantees, that it is accepted for one handshake only, and
  that a stricter policy accepts less.
\<close>

subsection \<open>Evidence, expectation and policy\<close>

datatype IdentityStatus = Id_Active (valid_until_unix_ms: u64) | Id_Revoked | Id_Rotated

record IdentityEvidence =
  ide_peer_id :: PeerId
  ide_public_key_fingerprint :: "256 word"
  ide_key_epoch :: u64
  ide_status :: IdentityStatus

record SessionKeyBinding =
  skb_key_id :: "256 word"
  skb_forward_secure :: bool
  skb_handshake_transcript_hash :: "256 word"
  skb_local_endpoint :: EndpointAddress
  skb_remote_endpoint :: EndpointAddress
  skb_link_version :: ProtocolVersion

record TransportSecurityEvidence =
  tse_transport :: TransportKind
  tse_security_level :: SecurityLevel
  tse_mutually_authenticated :: bool
  tse_local_peer_credential_verified :: bool
  tse_development_plaintext :: bool
  tse_identity :: IdentityEvidence
  tse_session_key :: "SessionKeyBinding option"

record SecurityExpectation =
  sx_peer_id :: PeerId
  sx_public_key_fingerprint :: "256 word"
  sx_minimum_key_epoch :: u64
  sx_handshake_transcript_hash :: "256 word"
  sx_local_endpoint :: EndpointAddress
  sx_remote_endpoint :: EndpointAddress
  sx_link_version :: ProtocolVersion
  sx_now_unix_ms :: u64

datatype RemoteSecurityPolicy = Rsp_AuthenticatedEncrypted | AllowExplicitDevelopmentPlaintext
datatype ForwardSecrecyPolicy = Fs_Required | Fs_Optional
datatype LocalPeerCredentialPolicy = Lp_Required | Lp_Optional

record SecurityPolicy =
  sp_remote :: RemoteSecurityPolicy
  sp_forward_secrecy :: ForwardSecrecyPolicy
  sp_local_peer_credential :: LocalPeerCredentialPolicy

definition SecurityPolicy_default :: SecurityPolicy where
  "SecurityPolicy_default =
     \<lparr>sp_remote = Rsp_AuthenticatedEncrypted, sp_forward_secrecy = Fs_Required, sp_local_peer_credential = Lp_Required\<rparr>"

datatype SecurityErrorKind =
    Se_PlaintextForbidden | Se_EncryptionRequired | Se_MutualAuthenticationRequired | Se_ForwardSecrecyRequired
  | Se_LocalPeerCredentialRequired | Se_PeerMismatch | Se_KeyMismatch | Se_KeyRotated | Se_IdentityRevoked
  | Se_IdentityExpired | Se_TranscriptMismatch | Se_EndpointMismatch | Se_ProtocolMismatch | Se_MissingSessionKey

record SecurityError =
  se_kind :: SecurityErrorKind
  se_public_message :: string

definition SecurityError_new :: "SecurityErrorKind \<Rightarrow> string \<Rightarrow> SecurityError" where
  "SecurityError_new kind public_message = \<lparr>se_kind = kind, se_public_message = public_message\<rparr>"

fun security_message :: "SecurityErrorKind \<Rightarrow> string" where
  "security_message Se_PlaintextForbidden = ''plaintext transport is not permitted''"
| "security_message Se_EncryptionRequired = ''encrypted transport is required''"
| "security_message Se_MutualAuthenticationRequired = ''mutual authentication is required''"
| "security_message Se_ForwardSecrecyRequired = ''forward-secure session keys are required''"
| "security_message Se_LocalPeerCredentialRequired = ''local peer credential is required''"
| "security_message Se_PeerMismatch = ''authenticated peer does not match''"
| "security_message Se_KeyMismatch = ''authenticated identity key does not match''"
| "security_message Se_KeyRotated = ''authenticated identity key has been rotated''"
| "security_message Se_IdentityRevoked = ''authenticated identity has been revoked''"
| "security_message Se_IdentityExpired = ''authenticated identity has expired''"
| "security_message Se_TranscriptMismatch = ''session key is not bound to this handshake''"
| "security_message Se_EndpointMismatch = ''session key is not bound to these endpoints''"
| "security_message Se_ProtocolMismatch = ''session key is not bound to this protocol version''"
| "security_message Se_MissingSessionKey = ''session key binding is missing''"

definition security_error :: "SecurityErrorKind \<Rightarrow> SecurityError" where
  "security_error kind = SecurityError_new kind (security_message kind)"

record AuthenticatedSession =
  aus_session :: SessionInfo
  aus_evidence :: TransportSecurityEvidence

subsection \<open>Validation\<close>

definition requires_forward_secrecy :: "SecurityPolicy \<Rightarrow> bool" where
  "requires_forward_secrecy policy = (sp_forward_secrecy policy = Fs_Required)"

definition validate_binding ::
  "TransportSecurityEvidence \<Rightarrow> SecurityExpectation \<Rightarrow> bool \<Rightarrow> bool \<Rightarrow> (SecurityError, unit) result" where
  "validate_binding evidence expected remote_requires_key require_forward_secrecy =
     (case tse_session_key evidence of
        None \<Rightarrow>
          if remote_requires_key \<or> require_forward_secrecy then Inl (security_error Se_MissingSessionKey) else Inr ()
      | Some binding \<Rightarrow>
          if require_forward_secrecy \<and> \<not> skb_forward_secure binding
          then Inl (security_error Se_ForwardSecrecyRequired)
          else if skb_handshake_transcript_hash binding \<noteq> sx_handshake_transcript_hash expected
          then Inl (security_error Se_TranscriptMismatch)
          else if skb_local_endpoint binding \<noteq> sx_local_endpoint expected
                  \<or> skb_remote_endpoint binding \<noteq> sx_remote_endpoint expected
          then Inl (security_error Se_EndpointMismatch)
          else if skb_link_version binding \<noteq> sx_link_version expected
          then Inl (security_error Se_ProtocolMismatch)
          else Inr ())"

definition validate_transport_security ::
  "TransportSecurityEvidence \<Rightarrow> SecurityExpectation \<Rightarrow> SecurityPolicy \<Rightarrow> (SecurityError, unit) result" where
  "validate_transport_security evidence expected policy =
     (if ide_peer_id (tse_identity evidence) \<noteq> sx_peer_id expected then Inl (security_error Se_PeerMismatch)
      else if ide_public_key_fingerprint (tse_identity evidence) \<noteq> sx_public_key_fingerprint expected
      then Inl (security_error Se_KeyMismatch)
      else if ide_key_epoch (tse_identity evidence) < sx_minimum_key_epoch expected
      then Inl (security_error Se_KeyRotated)
      else
        result_bind
          (case ide_status (tse_identity evidence) of
             Id_Revoked \<Rightarrow> Inl (security_error Se_IdentityRevoked)
           | Id_Rotated \<Rightarrow> Inl (security_error Se_KeyRotated)
           | Id_Active valid_until \<Rightarrow>
               if sx_now_unix_ms expected \<ge> valid_until then Inl (security_error Se_IdentityExpired) else Inr ())
          (\<lambda>_.
            if \<not> tse_mutually_authenticated evidence then Inl (security_error Se_MutualAuthenticationRequired)
            else if tse_transport evidence = Tk_Local
            then
              if sp_local_peer_credential policy = Lp_Required \<and> \<not> tse_local_peer_credential_verified evidence
              then Inl (security_error Se_LocalPeerCredentialRequired)
              else validate_binding evidence expected False (requires_forward_secrecy policy)
            else if tse_security_level evidence = Plaintext
            then
              if sp_remote policy \<noteq> AllowExplicitDevelopmentPlaintext \<or> \<not> tse_development_plaintext evidence
              then Inl (security_error Se_PlaintextForbidden)
              else validate_binding evidence expected False False
            else if sp_remote policy = Rsp_AuthenticatedEncrypted \<and> tse_security_level evidence \<noteq> AuthenticatedEncrypted
            then Inl (security_error Se_EncryptionRequired)
            else validate_binding evidence expected True (requires_forward_secrecy policy)))"

definition authenticate_session ::
  "SessionInfo \<Rightarrow> TransportSecurityEvidence \<Rightarrow> SecurityExpectation \<Rightarrow> SecurityPolicy
     \<Rightarrow> (SecurityError, AuthenticatedSession) result" where
  "authenticate_session session evidence expected policy =
     (if si_peer_id session \<noteq> sx_peer_id expected then Inl (security_error Se_PeerMismatch)
      else
        result_bind (validate_transport_security evidence expected policy)
          (\<lambda>_. Inr \<lparr>aus_session = session, aus_evidence = evidence\<rparr>))"

subsection \<open>What acceptance means\<close>

text \<open>A binding names the handshake, the endpoints and the version a session expects.\<close>

definition bound_to :: "SessionKeyBinding \<Rightarrow> SecurityExpectation \<Rightarrow> bool" where
  "bound_to b expected \<longleftrightarrow>
     skb_handshake_transcript_hash b = sx_handshake_transcript_hash expected
     \<and> skb_local_endpoint b = sx_local_endpoint expected \<and> skb_remote_endpoint b = sx_remote_endpoint expected
     \<and> skb_link_version b = sx_link_version expected"

lemma validate_binding_iff:
  "validate_binding evidence expected key fs = Inr u \<longleftrightarrow>
     (case tse_session_key evidence of None \<Rightarrow> \<not> key \<and> \<not> fs
      | Some b \<Rightarrow> (fs \<longrightarrow> skb_forward_secure b) \<and> bound_to b expected)"
  by (cases "tse_session_key evidence") (auto simp: validate_binding_def bound_to_def)

lemma validate_security_iff:
  "validate_transport_security evidence expected policy = Inr u \<longleftrightarrow>
     ide_peer_id (tse_identity evidence) = sx_peer_id expected
     \<and> ide_public_key_fingerprint (tse_identity evidence) = sx_public_key_fingerprint expected
     \<and> sx_minimum_key_epoch expected \<le> ide_key_epoch (tse_identity evidence)
     \<and> (\<exists>t. ide_status (tse_identity evidence) = Id_Active t \<and> sx_now_unix_ms expected < t)
     \<and> tse_mutually_authenticated evidence
     \<and> (if tse_transport evidence = Tk_Local
        then (sp_local_peer_credential policy = Lp_Required \<longrightarrow> tse_local_peer_credential_verified evidence)
             \<and> validate_binding evidence expected False (requires_forward_secrecy policy) = Inr ()
        else if tse_security_level evidence = Plaintext
        then sp_remote policy = AllowExplicitDevelopmentPlaintext \<and> tse_development_plaintext evidence
             \<and> validate_binding evidence expected False False = Inr ()
        else (sp_remote policy = Rsp_AuthenticatedEncrypted \<longrightarrow> tse_security_level evidence = AuthenticatedEncrypted)
             \<and> validate_binding evidence expected True (requires_forward_secrecy policy) = Inr ())"
  by (cases "ide_status (tse_identity evidence)")
    (auto simp: validate_transport_security_def not_less not_le split: if_splits)

lemma authenticate_session_iff:
  "(\<exists>a. authenticate_session session evidence expected policy = Inr a) \<longleftrightarrow>
     si_peer_id session = sx_peer_id expected \<and> validate_transport_security evidence expected policy = Inr ()"
  by (auto simp: authenticate_session_def result_bind_eq_Inr)

text \<open>At least as permissive.\<close>

definition policy_relaxes :: "SecurityPolicy \<Rightarrow> SecurityPolicy \<Rightarrow> bool" where
  "policy_relaxes strict loose \<longleftrightarrow>
     (sp_remote loose = Rsp_AuthenticatedEncrypted \<longrightarrow> sp_remote strict = Rsp_AuthenticatedEncrypted)
     \<and> (sp_forward_secrecy loose = Fs_Required \<longrightarrow> sp_forward_secrecy strict = Fs_Required)
     \<and> (sp_local_peer_credential loose = Lp_Required \<longrightarrow> sp_local_peer_credential strict = Lp_Required)"

lemma validate_security_mono:
  "policy_relaxes strict loose \<Longrightarrow> validate_transport_security evidence expected strict = Inr u
   \<Longrightarrow> validate_transport_security evidence expected loose = Inr u"
  by (cases "sp_remote strict"; cases "sp_remote loose"; cases "tse_session_key evidence")
    (auto simp: validate_security_iff validate_binding_iff policy_relaxes_def requires_forward_secrecy_def split: if_splits)

subsection \<open>Properties\<close>

text \<open>C19: an authenticated session is bound to its peer and handshake. When a session is
  authenticated, its peer is the expected one and the one the evidence proves, with the
  expected key, of a recent enough epoch and unexpired; a remote transport that is not
  development plaintext carries a session key; a session key is accepted only for the
  transcript, endpoints and version it is bound to, so evidence that carries one authenticates
  no session of another handshake; evidence without a session key, which only a local transport
  or development plaintext may have, is bound to no handshake; under the default policy the key is forward secure and a
  remote transport encrypted; and every more permissive policy accepts as well.\<close>

theorem authenticated_session_bound:
  assumes "authenticate_session session evidence expected policy = Inr a"
  shows "aus_session a = session \<and> aus_evidence a = evidence
    \<and> si_peer_id session = sx_peer_id expected \<and> ide_peer_id (tse_identity evidence) = sx_peer_id expected
    \<and> ide_public_key_fingerprint (tse_identity evidence) = sx_public_key_fingerprint expected
    \<and> sx_minimum_key_epoch expected \<le> ide_key_epoch (tse_identity evidence)
    \<and> (\<exists>t. ide_status (tse_identity evidence) = Id_Active t \<and> sx_now_unix_ms expected < t)
    \<and> (tse_transport evidence \<noteq> Tk_Local \<and> \<not> tse_development_plaintext evidence \<longrightarrow> tse_session_key evidence \<noteq> None)
    \<and> (\<forall>b. tse_session_key evidence = Some b \<longrightarrow> bound_to b expected
         \<and> (\<forall>session' expected' policy' a'.
              authenticate_session session' evidence expected' policy' = Inr a' \<longrightarrow>
              sx_handshake_transcript_hash expected' = sx_handshake_transcript_hash expected
              \<and> sx_local_endpoint expected' = sx_local_endpoint expected
              \<and> sx_remote_endpoint expected' = sx_remote_endpoint expected
              \<and> sx_link_version expected' = sx_link_version expected \<and> si_peer_id session' = si_peer_id session))
    \<and> (policy = SecurityPolicy_default \<longrightarrow>
         (\<exists>b. tse_session_key evidence = Some b \<and> skb_forward_secure b)
         \<and> (if tse_transport evidence = Tk_Local then tse_local_peer_credential_verified evidence
            else tse_security_level evidence = AuthenticatedEncrypted))
    \<and> (\<forall>loose. policy_relaxes policy loose \<longrightarrow> authenticate_session session evidence expected loose = Inr a)"
proof -
  have a: "a = \<lparr>aus_session = session, aus_evidence = evidence\<rparr>"
    and peer: "si_peer_id session = sx_peer_id expected"
    and ok: "validate_transport_security evidence expected policy = Inr ()"
    using assms by (auto simp: authenticate_session_def result_bind_eq_Inr split: if_splits)
  note sec = ok [unfolded validate_security_iff]
  have same: "sx_handshake_transcript_hash expected' = sx_handshake_transcript_hash expected
      \<and> sx_local_endpoint expected' = sx_local_endpoint expected \<and> sx_remote_endpoint expected' = sx_remote_endpoint expected
      \<and> sx_link_version expected' = sx_link_version expected \<and> si_peer_id session' = si_peer_id session"
    if b: "tse_session_key evidence = Some b"
      and acc: "authenticate_session session' evidence expected' policy' = Inr a'" for b session' expected' policy' a'
  proof -
    from acc have "validate_transport_security evidence expected' policy' = Inr ()" "si_peer_id session' = sx_peer_id expected'"
      using authenticate_session_iff by blast+
    then have "bound_to b expected'" "si_peer_id session' = ide_peer_id (tse_identity evidence)"
      using b by (auto simp: validate_security_iff validate_binding_iff split: if_splits)
    moreover have "bound_to b expected" using sec b by (auto simp: validate_binding_iff split: if_splits)
    ultimately show ?thesis using sec peer by (simp add: bound_to_def)
  qed
  have loose: "authenticate_session session evidence expected loose = Inr a" if "policy_relaxes policy loose" for loose
    using validate_security_mono [OF that ok] peer by (simp add: authenticate_session_def a)
  have key: "tse_transport evidence \<noteq> Tk_Local \<and> \<not> tse_development_plaintext evidence \<longrightarrow> tse_session_key evidence \<noteq> None"
    using sec by (auto simp: validate_binding_iff split: if_splits option.splits)
  have bound: "bound_to b expected" if "tse_session_key evidence = Some b" for b
    using sec that by (auto simp: validate_binding_iff split: if_splits)
  have deflt: "(\<exists>b. tse_session_key evidence = Some b \<and> skb_forward_secure b)
      \<and> (if tse_transport evidence = Tk_Local then tse_local_peer_credential_verified evidence
         else tse_security_level evidence = AuthenticatedEncrypted)" if "policy = SecurityPolicy_default"
    using sec unfolding that
    by (auto simp: validate_binding_iff SecurityPolicy_default_def requires_forward_secrecy_def
        split: if_splits option.splits)
  show ?thesis
    using a peer sec key
    by (intro conjI allI impI loose deflt [THEN conjunct1] deflt [THEN conjunct2] bound) (use same in blast | simp)+
qed

definition sample_address :: "u8 \<Rightarrow> EndpointAddress" where
  "sample_address b = \<lparr>addr_scheme = [113], addr_address = [b]\<rparr>"

definition sample_evidence :: TransportSecurityEvidence where
  "sample_evidence = \<lparr>tse_transport = Tk_Quic, tse_security_level = AuthenticatedEncrypted, tse_mutually_authenticated = True,
     tse_local_peer_credential_verified = False, tse_development_plaintext = False,
     tse_identity = \<lparr>ide_peer_id = PeerId 7, ide_public_key_fingerprint = 8, ide_key_epoch = 3, ide_status = Id_Active 1000\<rparr>,
     tse_session_key = Some \<lparr>skb_key_id = 5, skb_forward_secure = True, skb_handshake_transcript_hash = 9,
       skb_local_endpoint = sample_address 1, skb_remote_endpoint = sample_address 2, skb_link_version = ProtocolVersion 1 0\<rparr>\<rparr>"

definition sample_expectation :: SecurityExpectation where
  "sample_expectation = \<lparr>sx_peer_id = PeerId 7, sx_public_key_fingerprint = 8, sx_minimum_key_epoch = 3,
     sx_handshake_transcript_hash = 9, sx_local_endpoint = sample_address 1, sx_remote_endpoint = sample_address 2,
     sx_link_version = ProtocolVersion 1 0, sx_now_unix_ms = 999\<rparr>"

definition sample_info :: SessionInfo where
  "sample_info = \<lparr>si_session_id = SessionId 1, si_peer_id = PeerId 7, si_protocols = [], si_continuity = SessionContinuity_default,
     si_quality = ConnectionQuality_default, si_close_reason = None\<rparr>"

text \<open>C19 witness: an encrypted session accepted under the default policy one millisecond before expiry.\<close>

theorem authenticated_session_bound_witness:
  "\<exists>a. authenticate_session sample_info sample_evidence sample_expectation SecurityPolicy_default = Inr a
     \<and> (\<exists>b. tse_session_key sample_evidence = Some b \<and> skb_forward_secure b \<and> bound_to b sample_expectation)"
proof -
  obtain a where a: "authenticate_session sample_info sample_evidence sample_expectation SecurityPolicy_default = Inr a"
    by (simp add: authenticate_session_def validate_transport_security_def validate_binding_def sample_info_def
        sample_evidence_def sample_expectation_def SecurityPolicy_default_def requires_forward_secrecy_def)
  with authenticated_session_bound [OF a] show ?thesis by auto
qed

end
