(* ===== verification/Link_Budget.thy ===== *)
theory Link_Budget
  imports Link_Identity
begin

text \<open>
  Connection budgets, \<^verbatim>\<open>budget.rs\<close>: validation of the limits of a connection and the
  maintenance budget that grants a bounded number of operations per tick. The lemmas count the
  grants of a tick exactly.
\<close>

record ConnectionBudget =
  cb_max_memory_bytes :: nat
  cb_max_bandwidth_bytes_per_second :: u64
  cb_max_channels :: nat
  cb_max_send_queue_frames :: nat
  cb_max_resume_channels :: nat
  cb_max_pending_replays :: nat
  cb_max_maintenance_operations_per_tick :: nat

definition ConnectionBudget_default :: ConnectionBudget where
  "ConnectionBudget_default =
     \<lparr>cb_max_memory_bytes = 16 * 1024 * 1024, cb_max_bandwidth_bytes_per_second = 16 * 1024 * 1024, cb_max_channels = 64,
      cb_max_send_queue_frames = 512, cb_max_resume_channels = 64, cb_max_pending_replays = 128,
      cb_max_maintenance_operations_per_tick = 8\<rparr>"

definition ConnectionBudget_validate :: "ConnectionBudget \<Rightarrow> (LinkError, ConnectionBudget) result" where
  "ConnectionBudget_validate self =
     (if cb_max_memory_bytes self = 0 \<or> cb_max_bandwidth_bytes_per_second self = 0 \<or> cb_max_channels self = 0
         \<or> cb_max_send_queue_frames self = 0 \<or> cb_max_resume_channels self = 0 \<or> cb_max_pending_replays self = 0
         \<or> cb_max_maintenance_operations_per_tick self = 0
      then Inl (InvalidInput ''connection budget values must be positive'')
      else Inr self)"

datatype MaintenanceMode = Mode_Normal | Mode_Reduced | Mode_Paused

record MaintenanceBudget =
  mb_maximum_per_tick :: nat
  mb_remaining :: nat
  mb_mode :: MaintenanceMode

definition MaintenanceBudget_new :: "ConnectionBudget \<Rightarrow> (LinkError, MaintenanceBudget) result" where
  "MaintenanceBudget_new connection =
     result_bind (ConnectionBudget_validate connection)
       (\<lambda>connection. Inr \<lparr>mb_maximum_per_tick = cb_max_maintenance_operations_per_tick connection,
          mb_remaining = cb_max_maintenance_operations_per_tick connection, mb_mode = Mode_Normal\<rparr>)"

definition MaintenanceBudget_set_mode :: "MaintenanceMode \<Rightarrow> MaintenanceBudget \<Rightarrow> MaintenanceBudget" where
  "MaintenanceBudget_set_mode mode self = self\<lparr>mb_mode := mode\<rparr>"

definition MaintenanceBudget_begin_tick :: "MaintenanceBudget \<Rightarrow> MaintenanceBudget" where
  "MaintenanceBudget_begin_tick self =
     self\<lparr>mb_remaining :=
       (case mb_mode self of
          Mode_Normal \<Rightarrow> mb_maximum_per_tick self
        | Mode_Reduced \<Rightarrow> div_ceil (mb_maximum_per_tick self) 4
        | Mode_Paused \<Rightarrow> 0)\<rparr>"

definition MaintenanceBudget_try_consume :: "MaintenanceBudget \<Rightarrow> bool \<times> MaintenanceBudget" where
  "MaintenanceBudget_try_consume self =
     (if mb_remaining self = 0 then (False, self)
      else (True, self\<lparr>mb_remaining := mb_remaining self - 1\<rparr>))"

subsection \<open>Grants\<close>

datatype MaintenanceOp = MbMode MaintenanceMode | MbTick | MbConsume

fun maintenance_run :: "MaintenanceOp list \<Rightarrow> MaintenanceBudget \<Rightarrow> bool list \<times> MaintenanceBudget" where
  "maintenance_run [] b = ([], b)"
| "maintenance_run (MbMode m # ops) b = maintenance_run ops (MaintenanceBudget_set_mode m b)"
| "maintenance_run (MbTick # ops) b = maintenance_run ops (MaintenanceBudget_begin_tick b)"
| "maintenance_run (MbConsume # ops) b =
     (case MaintenanceBudget_try_consume b of (r, b1) \<Rightarrow>
      case maintenance_run ops b1 of (rs, b2) \<Rightarrow> (r # rs, b2))"

definition grants :: "bool list \<Rightarrow> nat" where
  "grants rs = length (filter id rs)"

definition consumes :: "MaintenanceOp list \<Rightarrow> nat" where
  "consumes ops = length (filter (\<lambda>op. op = MbConsume) ops)"

text \<open>Within a tick the grants are the first of the requests, as many as remained.\<close>

lemma tick_grants:
  assumes "maintenance_run ops b = (rs, b')" and "MbTick \<notin> set ops"
  shows "grants rs = min (consumes ops) (mb_remaining b)"
  using assms
proof (induction ops b arbitrary: rs rule: maintenance_run.induct)
  case (4 ops b)
  obtain r b1 where c: "MaintenanceBudget_try_consume b = (r, b1)" by fastforce
  obtain rs' where run: "maintenance_run ops b1 = (rs', b')" and rs: "rs = r # rs'"
    using 4(2) c by (auto split: prod.splits)
  have "grants rs' = min (consumes ops) (mb_remaining b1)" using 4(1) [OF c [symmetric] run] 4(3) by simp
  moreover have "r = (mb_remaining b \<noteq> 0)" "mb_remaining b1 = mb_remaining b - 1"
    using c by (auto simp: MaintenanceBudget_try_consume_def split: if_splits)
  ultimately show ?case by (auto simp: rs grants_def consumes_def)
qed (simp_all add: grants_def consumes_def MaintenanceBudget_set_mode_def)

lemma maximum_kept: "maintenance_run ops b = (rs, b') \<Longrightarrow> mb_maximum_per_tick b' = mb_maximum_per_tick b"
proof (induction ops b arbitrary: rs rule: maintenance_run.induct)
  case (4 ops b)
  obtain r b1 where c: "MaintenanceBudget_try_consume b = (r, b1)" by fastforce
  obtain rs' where run: "maintenance_run ops b1 = (rs', b')" using 4(2) c by (auto split: prod.splits)
  from 4(1) [OF c [symmetric] run] c show ?case by (auto simp: MaintenanceBudget_try_consume_def split: if_splits)
qed (simp_all add: MaintenanceBudget_set_mode_def MaintenanceBudget_begin_tick_def)

text \<open>Maintenance is bounded per tick. Whatever happened before, the requests made during
  one tick are granted up to the maximum of a valid budget, a quarter of it rounded up in
  reduced mode and none when paused, and no further.\<close>

theorem maintenance_bounded_per_tick:
  assumes "MaintenanceBudget_new connection = Inr b0" and "maintenance_run before b0 = (rs, b1)"
    and "maintenance_run (MbTick # during) b1 = (rs', b2)" and "MbTick \<notin> set during"
  shows "grants rs' = min (consumes during)
     (case mb_mode b1 of Mode_Normal \<Rightarrow> cb_max_maintenance_operations_per_tick connection
      | Mode_Reduced \<Rightarrow> div_ceil (cb_max_maintenance_operations_per_tick connection) 4 | Mode_Paused \<Rightarrow> 0)
    \<and> grants rs' \<le> cb_max_maintenance_operations_per_tick connection"
proof -
  have "mb_maximum_per_tick b0 = cb_max_maintenance_operations_per_tick connection"
    using assms(1) by (auto simp: MaintenanceBudget_new_def ConnectionBudget_validate_def result_bind_eq_Inr split: if_splits)
  then have m: "mb_maximum_per_tick b1 = cb_max_maintenance_operations_per_tick connection"
    using maximum_kept [OF assms(2)] by simp
  have "grants rs' = min (consumes during) (mb_remaining (MaintenanceBudget_begin_tick b1))"
    using tick_grants [of during] assms(3,4) by simp
  then show ?thesis
    using m div_ceil_le [of 4 "cb_max_maintenance_operations_per_tick connection"]
    by (simp add: MaintenanceBudget_begin_tick_def min.coboundedI2 split: MaintenanceMode.splits)
qed

text \<open>Three requests in a reduced tick of a default budget.\<close>

theorem maintenance_bounded_per_tick_witness:
  "\<exists>b0 rs b1 rs' b2. MaintenanceBudget_new ConnectionBudget_default = Inr b0
     \<and> maintenance_run [MbConsume, MbMode Mode_Reduced] b0 = (rs, b1)
     \<and> maintenance_run [MbTick, MbConsume, MbConsume, MbConsume] b1 = (rs', b2) \<and> grants rs' = 2"
proof -
  obtain b0 where b0: "MaintenanceBudget_new ConnectionBudget_default = Inr b0"
    by (simp add: MaintenanceBudget_new_def ConnectionBudget_validate_def ConnectionBudget_default_def)
  obtain rs b1 where b1: "maintenance_run [MbConsume, MbMode Mode_Reduced] b0 = (rs, b1)" by fastforce
  obtain rs' b2 where b2: "maintenance_run [MbTick, MbConsume, MbConsume, MbConsume] b1 = (rs', b2)" by fastforce
  have "mb_mode b1 = Mode_Reduced"
    using b1 by (auto simp: MaintenanceBudget_set_mode_def split: prod.splits)
  with maintenance_bounded_per_tick [OF b0 b1 b2] have "grants rs' = 2"
    by (simp add: consumes_def ConnectionBudget_default_def div_ceil_def)
  with b0 b1 b2 show ?thesis by blast
qed

end
