(* ===== verification/Link_Realtime_Queue.thy ===== *)
theory Link_Realtime_Queue
  imports Link_Realtime
begin

text \<open>
  What the realtime send queue guarantees, whatever is called on it: its limits hold, every
  datagram offered to it is accounted for flow by flow, and it sends the best datagram it
  has. The runs cover every operation of the queue that changes it.
\<close>

subsection \<open>Counters\<close>

definition flow_stats :: "RealtimeSendQueue \<Rightarrow> RealtimeFlowId \<Rightarrow> RealtimeFlowTelemetry" where
  "flow_stats q f = (case bt_get (rtt_flows (rsq_telemetry q)) f of None \<Rightarrow> RealtimeFlowTelemetry_default | Some s \<Rightarrow> s)"

definition flow_dropped :: "RealtimeSendQueue \<Rightarrow> RealtimeFlowId \<Rightarrow> nat" where
  "flow_dropped q f =
     unat (rft_replaced (flow_stats q f)) + unat (rft_expired (flow_stats q f)) + unat (rft_congestion_dropped (flow_stats q f))"

definition flow_pending :: "RealtimeSendQueue \<Rightarrow> RealtimeFlowId \<Rightarrow> nat" where
  "flow_pending q f = (case bt_get (rsq_groups q) f of None \<Rightarrow> 0 | Some g \<Rightarrow> length (pg_datagrams g))"

abbreviation flow_account :: "RealtimeSendQueue \<Rightarrow> RealtimeFlowId \<Rightarrow> nat" where
  "flow_account q f \<equiv> flow_dropped q f + flow_pending q f"

lemma update_flow_flows:
  "rtt_flows (update_flow flow f t) = bt_insert flow
     (f (case bt_get (rtt_flows t) flow of None \<Rightarrow> RealtimeFlowTelemetry_default | Some s \<Rightarrow> s)) (rtt_flows t)"
  by (simp add: update_flow_def)

lemmas note_defs = note_queued_def note_replaced_def note_expired_def note_congestion_drop_def

lemma note_frame [simp]:
  "rsq_groups (note_queued flow q) = rsq_groups q" "rsq_groups (note_replaced flow n q) = rsq_groups q"
  "rsq_groups (note_expired flow n q) = rsq_groups q" "rsq_groups (note_congestion_drop flow n q) = rsq_groups q"
  "rsq_config (note_queued flow q) = rsq_config q" "rsq_config (note_replaced flow n q) = rsq_config q"
  "rsq_config (note_expired flow n q) = rsq_config q" "rsq_config (note_congestion_drop flow n q) = rsq_config q"
  "rsq_max_payload (note_queued flow q) = rsq_max_payload q" "rsq_max_payload (note_replaced flow n q) = rsq_max_payload q"
  "rsq_max_payload (note_expired flow n q) = rsq_max_payload q"
  "rsq_max_payload (note_congestion_drop flow n q) = rsq_max_payload q"
  "rsq_next_insertion_order (note_queued flow q) = rsq_next_insertion_order q"
  "rsq_next_insertion_order (note_replaced flow n q) = rsq_next_insertion_order q"
  "rsq_next_insertion_order (note_expired flow n q) = rsq_next_insertion_order q"
  "rsq_next_insertion_order (note_congestion_drop flow n q) = rsq_next_insertion_order q"
  by (simp_all add: note_defs Let_def)

lemma sat_add_exact: "unat (a :: u64) + n < 2 ^ 64 \<Longrightarrow> unat (sat_add a (of_nat n)) = unat a + n"
  by (simp add: unat_sat_add unat_of_nat take_bit_eq_mod)

lemma note_dropped:
  "flow_dropped q flow + n < 2 ^ 64 \<Longrightarrow>
     flow_dropped (note_replaced flow n q) f = flow_dropped q f + (if f = flow then n else 0)"
  "flow_dropped q flow + n < 2 ^ 64 \<Longrightarrow>
     flow_dropped (note_expired flow n q) f = flow_dropped q f + (if f = flow then n else 0)"
  "flow_dropped q flow + n < 2 ^ 64 \<Longrightarrow>
     flow_dropped (note_congestion_drop flow n q) f = flow_dropped q f + (if f = flow then n else 0)"
  "flow_dropped (note_queued flow q) f = flow_dropped q f"
  by (auto simp: flow_dropped_def flow_stats_def note_defs Let_def update_flow_flows sat_add_exact)

lemma flow_pending_groups: "rsq_groups q = rsq_groups q' \<Longrightarrow> flow_pending q f = flow_pending q' f"
  by (simp add: flow_pending_def)

lemma note_pending [simp]:
  "flow_pending (note_queued flow q) f = flow_pending q f" "flow_pending (note_replaced flow n q) f = flow_pending q f"
  "flow_pending (note_expired flow n q) f = flow_pending q f" "flow_pending (note_congestion_drop flow n q) f = flow_pending q f"
  by (simp_all add: flow_pending_def)

lemma flow_dropped_groups [simp]:
  "flow_dropped (q\<lparr>rsq_groups := m\<rparr>) f = flow_dropped q f"
  "flow_dropped (q\<lparr>rsq_next_insertion_order := n\<rparr>) f = flow_dropped q f"
  "flow_dropped (q\<lparr>rsq_max_payload := p\<rparr>) f = flow_dropped q f"
  "flow_pending (q\<lparr>rsq_next_insertion_order := n\<rparr>) f = flow_pending q f"
  "flow_pending (q\<lparr>rsq_max_payload := p\<rparr>) f = flow_pending q f"
  "flow_pending (q\<lparr>rsq_telemetry := t\<rparr>) f = flow_pending q f"
  by (simp_all add: flow_dropped_def flow_stats_def flow_pending_def)

subsection \<open>Dropping groups\<close>

text \<open>What every drop keeps: the limits, the groups it does not drop, and the account.\<close>

definition drops :: "(RealtimeFlowId \<Rightarrow> bool) \<Rightarrow> RealtimeSendQueue \<Rightarrow> RealtimeSendQueue \<Rightarrow> bool" where
  "drops D q q' \<longleftrightarrow>
     rsq_config q' = rsq_config q \<and> rsq_max_payload q' = rsq_max_payload q
     \<and> rsq_next_insertion_order q' = rsq_next_insertion_order q
     \<and> (\<forall>f. bt_get (rsq_groups q') f = (if D f then None else bt_get (rsq_groups q) f))
     \<and> ((\<forall>f. flow_account q f < 2 ^ 64) \<longrightarrow> (\<forall>f. flow_account q' f = flow_account q f))"

lemma drops_refl: "(\<And>f. D f \<Longrightarrow> bt_get (rsq_groups q) f = None) \<Longrightarrow> drops D q q"
  by (auto simp: drops_def)

lemma drops_trans: "drops D q q1 \<Longrightarrow> drops E q1 q2 \<Longrightarrow> drops (\<lambda>f. D f \<or> E f) q q2"
  by (auto simp: drops_def)

lemma drop_flow_group_drops: "drops (\<lambda>f. f = flow) q (snd (drop_flow_group flow reason q))"
proof (cases "bt_get (rsq_groups q) flow")
  case None
  then show ?thesis by (auto simp: drop_flow_group_def intro!: drops_refl)
next
  case (Some g)
  have "flow_dropped q flow + length (pg_datagrams g) < 2 ^ 64" if "\<forall>f. flow_account q f < 2 ^ 64"
    using that [rule_format, of flow] Some by (simp add: flow_pending_def)
  then show ?thesis
    using Some
    by (cases reason) (auto simp: drop_flow_group_def Let_def drops_def note_dropped flow_pending_def)
qed

lemma drop_flow_group_count: "fst (drop_flow_group flow reason q) = flow_pending q flow"
  by (simp add: drop_flow_group_def flow_pending_def Let_def split: option.splits)

lemma drop_flows_drops: "drops (\<lambda>f. f \<in> set flows) q (snd (drop_flows flows reason q))"
proof (induction flows arbitrary: q)
  case (Cons flow flows)
  obtain n q1 where d: "drop_flow_group flow reason q = (n, q1)" by fastforce
  with drop_flow_group_drops [of flow q reason] have "drops (\<lambda>f. f = flow) q q1" by simp
  from drops_trans [OF this Cons.IH [of q1]] d show ?case by (simp add: case_prod_beta)
qed (simp add: drops_refl)

lemma flows_where_iff: "f \<in> set (flows_where P q) \<longleftrightarrow> (\<exists>g. bt_get (rsq_groups q) f = Some g \<and> P g)"
  by (force simp: flows_where_def bt_entries_get)

lemma expire_drops:
  "drops (\<lambda>f. \<exists>g. bt_get (rsq_groups q) f = Some g \<and> pg_deadline g \<le> now) q (snd (RealtimeSendQueue_expire now q))"
  using drop_flows_drops [of "flows_where (\<lambda>g. pg_deadline g \<le> now) q" q Drop_Expired]
  by (simp add: RealtimeSendQueue_expire_def flows_where_iff)

lemma evict_drops:
  assumes "RealtimeSendQueue_evict_lower_priority incoming q = (evicted, q')"
  obtains (kept) "\<not> evicted" "q' = q" "\<And>f g. bt_get (rsq_groups q) f = Some g \<Longrightarrow> pg_priority g \<le> incoming"
  | (victim) v g where "evicted" "bt_get (rsq_groups q) v = Some g" "incoming < pg_priority g" "drops (\<lambda>f. f = v) q q'"
proof -
  let ?xs = "filter (\<lambda>(flow, g). pg_priority g > incoming) (bt_entries (rsq_groups q))"
  let ?key = "\<lambda>(flow :: RealtimeFlowId, g). (pg_priority g, Reverse (pg_insertion_order g))"
  show thesis
  proof (cases "max_by_key ?key ?xs")
    case None
    then have "?xs = []" by simp
    then have "pg_priority g \<le> incoming" if "bt_get (rsq_groups q) f = Some g" for f g
      using that by (force simp: filter_empty_conv bt_entries_get [symmetric] not_less)
    with None assms show ?thesis
      by (intro kept) (auto simp: RealtimeSendQueue_evict_lower_priority_def)
  next
    case (Some x)
    obtain v g where x: "x = (v, g)" by fastforce
    have "(v, g) \<in> set ?xs" using max_by_key_Some [OF Some] x by blast
    with Some assms x show ?thesis
      by (intro victim [of v g])
        (auto simp: RealtimeSendQueue_evict_lower_priority_def bt_entries_get intro: drop_flow_group_drops)
  qed
qed

subsection \<open>Limits\<close>

definition group_ok :: "RealtimeQueueConfig \<Rightarrow> nat \<Rightarrow> PendingGroup \<Rightarrow> bool" where
  "group_ok config max_payload g \<longleftrightarrow>
     pg_datagrams g \<noteq> [] \<and> length (pg_datagrams g) \<le> rqc_max_datagrams_per_group config
     \<and> list_all (\<lambda>p. length p \<le> max_payload) (pg_datagrams g)
     \<and> sum_list (map length (pg_datagrams g)) \<le> pg_payload_bytes g"

definition queue_ok :: "RealtimeQueueConfig \<Rightarrow> RealtimeSendQueue \<Rightarrow> bool" where
  "queue_ok cfg q \<longleftrightarrow>
     rsq_config q = cfg \<and> RealtimeQueueConfig_is_valid cfg \<and> bt_len (rsq_groups q) \<le> rqc_max_flows cfg
     \<and> (\<forall>f g. bt_get (rsq_groups q) f = Some g \<longrightarrow> group_ok cfg (rsq_max_payload q) g)"

lemma queue_ok_group: "queue_ok cfg q \<Longrightarrow> bt_get (rsq_groups q) f = Some g \<Longrightarrow> group_ok cfg (rsq_max_payload q) g"
  by (simp add: queue_ok_def)

lemma queue_ok_same:
  "queue_ok cfg q \<Longrightarrow> rsq_config q' = rsq_config q \<Longrightarrow> rsq_max_payload q' = rsq_max_payload q \<Longrightarrow> rsq_groups q' = rsq_groups q
   \<Longrightarrow> queue_ok cfg q'"
  by (simp add: queue_ok_def)

lemma bt_len_le: "(\<And>k. bt_get m k \<noteq> None \<Longrightarrow> bt_get m' k \<noteq> None) \<Longrightarrow> bt_len m \<le> bt_len m'"
  unfolding bt_len_card by (intro card_mono bt_finite_keys) auto

lemma drops_len: "drops D q q' \<Longrightarrow> bt_len (rsq_groups q') \<le> bt_len (rsq_groups q)"
  by (rule bt_len_le) (auto simp: drops_def split: if_splits)

lemma drops_len_less:
  assumes "drops D q q'" and "D f" and "bt_get (rsq_groups q) f = Some g"
  shows "bt_len (rsq_groups q') < bt_len (rsq_groups q)"
proof -
  have "bt_len (rsq_groups q') \<le> bt_len (bt_remove f (rsq_groups q))"
    using assms by (intro bt_len_le) (auto simp: drops_def split: if_splits)
  also have "\<dots> < bt_len (rsq_groups q)"
    using assms(3) bt.len_pos [of "rsq_groups q" f] by simp
  finally show ?thesis .
qed

lemma drops_ok: "drops D q q' \<Longrightarrow> queue_ok cfg q \<Longrightarrow> queue_ok cfg q'"
  using drops_len [of D q q'] by (auto simp: queue_ok_def drops_def split: if_splits)

lemma drops_account:
  assumes "drops D q q'" and "\<forall>f. flow_account q f < 2 ^ 64 - 1"
  shows "flow_account q' f = flow_account q f"
proof -
  have "\<forall>f. flow_account q f < 2 ^ 64" using assms(2) by (meson less_le_trans diff_le_self)
  with assms(1) show ?thesis by (simp only: drops_def) blast
qed

subsection \<open>Enqueuing\<close>

text \<open>One more datagram of a flow, when no counter is at its end.\<close>

definition gains :: "RealtimeFlowId \<Rightarrow> RealtimeSendQueue \<Rightarrow> RealtimeSendQueue \<Rightarrow> bool" where
  "gains flow q q' \<longleftrightarrow>
     ((\<forall>f. flow_account q f < 2 ^ 64 - 1) \<longrightarrow>
      (\<forall>f. flow_account q' f = flow_account q f + (if f = flow then 1 else 0)))"

lemma gains_after_drops:
  assumes "drops D q q1" and "gains flow q1 q2"
  shows "gains flow q q2"
  using assms(2) drops_account [OF assms(1)] by (simp add: gains_def)

lemma note_gains:
  "gains flow q (note_expired flow 1 q)" "gains flow q (note_congestion_drop flow 1 q)"
proof -
  have "flow_dropped q flow + 1 < 2 ^ 64" if "\<forall>f. flow_account q f < 2 ^ 64 - 1"
    using that [rule_format, of flow] by simp
  then show "gains flow q (note_expired flow 1 q)" "gains flow q (note_congestion_drop flow 1 q)"
    by (auto simp: gains_def note_dropped)
qed

lemma new_group_step:
  assumes "enqueue_new_group d q = (r, q')" and "queue_ok cfg q" and "length (rd_payload d) \<le> rsq_max_payload q"
    and "bt_get (rsq_groups q) (rd_flow d) \<noteq> None \<or> bt_len (rsq_groups q) < rqc_max_flows (rsq_config q)"
  shows "queue_ok cfg q' \<and> gains (rd_flow d) q q' \<and> is_ok r"
proof -
  obtain n q1 where d: "drop_flow_group (rd_flow d) Drop_Replaced q = (n, q1)" by fastforce
  then have dr: "drops (\<lambda>f. f = rd_flow d) q q1" using drop_flow_group_drops [of "rd_flow d" q Drop_Replaced] by simp
  then have none: "bt_get (rsq_groups q1) (rd_flow d) = None"
    and same: "rsq_config q1 = rsq_config q" "rsq_max_payload q1 = rsq_max_payload q"
    by (simp_all add: drops_def)
  have ok: "queue_ok cfg q1" using dr assms(2) by (rule drops_ok)
  have room: "bt_len (rsq_groups q1) < rqc_max_flows (rsq_config q1)"
    using assms(4)
  proof
    assume "bt_get (rsq_groups q) (rd_flow d) \<noteq> None"
    then show ?thesis using drops_len_less [OF dr] assms(2) same by (fastforce simp: queue_ok_def)
  next
    assume "bt_len (rsq_groups q) < rqc_max_flows (rsq_config q)"
    then show ?thesis using drops_len [OF dr] same by simp
  qed
  have "queue_ok cfg q'"
    using assms(1,3) ok none room same
    by (auto simp: enqueue_new_group_def d Let_def queue_ok_def group_ok_def RealtimeQueueConfig_is_valid_def
        split: if_splits)
  moreover have "gains (rd_flow d) q1 q'"
    using assms(1) none
    by (auto simp: enqueue_new_group_def d Let_def gains_def note_dropped flow_pending_def)
  moreover have "is_ok r" using assms(1) by (auto simp: enqueue_new_group_def d Let_def)
  ultimately show ?thesis using gains_after_drops [OF dr] by blast
qed

lemma append_step:
  assumes "RealtimeSendQueue_append_to_group d g q = (r, q')" and "queue_ok cfg q" and "length (rd_payload d) \<le> rsq_max_payload q"
    and "bt_get (rsq_groups q) (rd_flow d) = Some g"
  obtains (failed) e where "r = Inl e" "q' = q" | (ok) "is_ok r" "queue_ok cfg q'" "gains (rd_flow d) q q'"
proof (cases "pg_payload_bytes g + length (rd_payload d) \<le> usize_max")
  case False
  with assms(1) show ?thesis by (intro failed) (auto simp: RealtimeSendQueue_append_to_group_def usize_checked_add_def)
next
  case fits: True
  have g: "group_ok cfg (rsq_max_payload q) g" using assms(2,4) by (rule queue_ok_group)
  show ?thesis
  proof (cases "length (pg_datagrams g) \<ge> rqc_max_datagrams_per_group (rsq_config q)
      \<or> pg_payload_bytes g + length (rd_payload d) > rqc_max_group_bytes (rsq_config q)")
    case True
    let ?q1 = "q\<lparr>rsq_groups := bt_remove (rd_flow d) (rsq_groups q)\<rparr>"
    let ?n = "usize_sat_add (length (pg_datagrams g)) 1"
    from True fits assms(1) have r: "r = Inr DroppedCongested" and q': "q' = note_congestion_drop (rd_flow d) ?n ?q1"
      by (auto simp: RealtimeSendQueue_append_to_group_def usize_checked_add_def Let_def)
    have "gains (rd_flow d) q q'"
      unfolding gains_def
    proof (intro impI allI)
      fix f
      assume room: "\<forall>f. flow_account q f < 2 ^ 64 - 1"
      then have "flow_dropped q (rd_flow d) + length (pg_datagrams g) < 2 ^ 64 - 1"
        using assms(4) by (auto simp: flow_pending_def dest: spec [of _ "rd_flow d"])
      then have "?n = Suc (length (pg_datagrams g))" "flow_dropped ?q1 (rd_flow d) + ?n < 2 ^ 64"
        by (auto simp: usize_sat_add_def usize_max_def)
      then show "flow_account q' f = flow_account q f + (if f = rd_flow d then 1 else 0)"
        using assms(4) unfolding q' by (simp add: note_dropped flow_pending_def)
    qed
    moreover have "bt_len (bt_remove (rd_flow d) (rsq_groups q)) \<le> bt_len (rsq_groups q)" by (rule bt_len_le) (auto split: if_splits)
    then have "queue_ok cfg q'" using assms(2) unfolding q' by (auto simp: queue_ok_def)
    ultimately show ?thesis using ok r by simp
  next
    case False
    have "queue_ok cfg q'"
      using False fits assms g
      by (auto simp: RealtimeSendQueue_append_to_group_def usize_checked_add_def Let_def queue_ok_def group_ok_def
          split: if_splits)
    moreover have "gains (rd_flow d) q q'"
      using False fits assms(1,4)
      by (auto simp: RealtimeSendQueue_append_to_group_def usize_checked_add_def Let_def gains_def note_dropped
          flow_pending_def)
    moreover have "is_ok r"
      using False fits assms(1) by (auto simp: RealtimeSendQueue_append_to_group_def usize_checked_add_def Let_def)
    ultimately show ?thesis using ok by blast
  qed
qed

lemma enqueue_step:
  assumes "RealtimeSendQueue_enqueue d now q = (r, q')" and "queue_ok cfg q"
  obtains (failed) e where "r = Inl e" "queue_ok cfg q'" "\<exists>D. drops D q q'"
  | (ok) "is_ok r" "queue_ok cfg q'" "gains (rd_flow d) q q'"
proof -
  let ?q1 = "snd (RealtimeSendQueue_expire now q)"
  let ?gone = "\<lambda>f. \<exists>g. bt_get (rsq_groups q) f = Some g \<and> pg_deadline g \<le> now"
  have dr: "drops ?gone q ?q1" by (rule expire_drops)
  have ok1: "queue_ok cfg ?q1" using dr assms(2) by (rule drops_ok)
  have note_ok: "queue_ok cfg (note_expired f n q1)" "queue_ok cfg (note_congestion_drop f n q1)" if "queue_ok cfg q1" for f n q1
    using that by (auto intro: queue_ok_same)
  have gain: thesis if "is_ok r" "queue_ok cfg q'" "gains (rd_flow d) ?q1 q'"
    using that gains_after_drops [OF dr] ok by blast
  show thesis
  proof (cases "length (rd_payload d) > rsq_max_payload ?q1 \<or> rd_deadline d \<le> now")
    case True
    show ?thesis
    proof (cases "length (rd_payload d) > rsq_max_payload ?q1")
      case True
      with assms(1) dr ok1 show ?thesis by (intro failed) (auto simp: RealtimeSendQueue_enqueue_def)
    next
      case False
      with True assms(1) show ?thesis
        by (intro gain) (auto simp: RealtimeSendQueue_enqueue_def note_ok ok1 note_gains [simplified])
    qed
  next
    case False
    then have len: "length (rd_payload d) \<le> rsq_max_payload ?q1" by simp
    show ?thesis
    proof (cases "bt_get (rsq_groups ?q1) (rd_flow d)")
      case (Some g)
      show ?thesis
      proof (cases "compare_group (rd_generation d) (rd_sequence d) (pg_generation g) (pg_sequence g)")
        case Older
        with False Some assms(1) show ?thesis
          by (intro gain) (auto simp: RealtimeSendQueue_enqueue_def note_ok ok1 note_gains [simplified])
      next
        case Same
        with False Some assms(1) have "RealtimeSendQueue_append_to_group d g ?q1 = (r, q')"
          by (simp add: RealtimeSendQueue_enqueue_def Let_def)
        from this ok1 len Some show ?thesis
          by (cases rule: append_step) (use ok1 dr failed gain in blast)+
      next
        case Newer
        with False Some assms(1) have "enqueue_new_group d ?q1 = (r, q')"
          by (simp add: RealtimeSendQueue_enqueue_def Let_def)
        from new_group_step [OF this ok1 len] Some show ?thesis using gain by blast
      qed
    next
      case None
      show ?thesis
      proof (cases "bt_len (rsq_groups ?q1) \<ge> rqc_max_flows (rsq_config ?q1)")
        case full: True
        obtain evicted q2 where ev: "RealtimeSendQueue_evict_lower_priority (rd_priority d) ?q1 = (evicted, q2)" by fastforce
        from ev show ?thesis
        proof (cases rule: evict_drops)
          case kept
          with False None full ev assms(1) show ?thesis
            by (intro gain) (auto simp: RealtimeSendQueue_enqueue_def Let_def note_ok ok1 note_gains [simplified])
        next
          case (victim v g)
          with False None full ev assms(1) have new: "enqueue_new_group d q2 = (r, q')"
            by (simp add: RealtimeSendQueue_enqueue_def Let_def)
          have ok2: "queue_ok cfg q2" using victim(4) ok1 by (rule drops_ok)
          have "bt_len (rsq_groups q2) < rqc_max_flows (rsq_config q2)" "length (rd_payload d) \<le> rsq_max_payload q2"
            using drops_len_less [OF victim(4) refl victim(2)] ok1 victim(4) len by (auto simp: queue_ok_def drops_def)
          from new_group_step [OF new ok2 this(2) disjI2 [OF this(1)]] show ?thesis
            using gain gains_after_drops [OF victim(4)] by blast
        qed
      next
        case False': False
        with False None assms(1) have "enqueue_new_group d ?q1 = (r, q')"
          by (simp add: RealtimeSendQueue_enqueue_def Let_def)
        from new_group_step [OF this ok1 len] False' show ?thesis using gain by auto
      qed
    qed
  qed
qed

subsection \<open>Sending\<close>

text \<open>One datagram of a flow leaves the queue.\<close>

lemma pop_flow_step:
  assumes "RealtimeSendQueue_pop_flow flow q = (r, q')" and "queue_ok cfg q" and "bt_get (rsq_groups q) flow = Some g"
  shows "queue_ok cfg q'" and "\<exists>d. r = Some d \<and> qd_flow d = flow \<and> qd_priority d = pg_priority g \<and> qd_deadline d = pg_deadline g
      \<and> qd_generation d = pg_generation g \<and> qd_sequence d = pg_sequence g \<and> pg_datagrams g = qd_payload d # tl (pg_datagrams g)"
    and "flow_account q f = flow_account q' f + (if f = flow then 1 else 0)"
proof -
  have g: "group_ok cfg (rsq_max_payload q) g" using assms(2,3) by (rule queue_ok_group)
  then obtain p ps where ps: "pg_datagrams g = p # ps" by (cases "pg_datagrams g") (auto simp: group_ok_def)
  let ?m = "if ps = [] then bt_remove flow (rsq_groups q) else bt_insert flow (g\<lparr>pg_datagrams := ps\<rparr>) (rsq_groups q)"
  have q': "q' = q\<lparr>rsq_groups := ?m\<rparr>"
    and r: "r = Some \<lparr>qd_flow = flow, qd_generation = pg_generation g, qd_sequence = pg_sequence g,
                     qd_deadline = pg_deadline g, qd_priority = pg_priority g, qd_payload = p\<rparr>"
    using assms(1,3) ps by (auto simp: RealtimeSendQueue_pop_flow_def Let_def)
  have "bt_len ?m \<le> bt_len (rsq_groups q)" using assms(3) by (intro bt_len_le) (auto split: if_splits)
  moreover have "group_ok cfg (rsq_max_payload q) x" if "bt_get ?m k = Some x" for k x
    using that assms(2) g ps by (auto simp: queue_ok_def group_ok_def split: if_splits)
  ultimately show "queue_ok cfg q'" using assms(2) unfolding q' by (auto simp: queue_ok_def)
  show "\<exists>d. r = Some d \<and> qd_flow d = flow \<and> qd_priority d = pg_priority g \<and> qd_deadline d = pg_deadline g
      \<and> qd_generation d = pg_generation g \<and> qd_sequence d = pg_sequence g \<and> pg_datagrams g = qd_payload d # tl (pg_datagrams g)"
    unfolding r by (simp add: ps)
  show "flow_account q f = flow_account q' f + (if f = flow then 1 else 0)"
    unfolding q' using assms(3) ps by (auto simp: flow_pending_def)
qed

lemma next_flow_cases:
  obtains (empty) "RealtimeSendQueue_next_flow q = None" "\<And>f. bt_get (rsq_groups q) f = None"
  | (best) flow g where "RealtimeSendQueue_next_flow q = Some flow" "bt_get (rsq_groups q) flow = Some g"
      "\<And>f' g'. bt_get (rsq_groups q) f' = Some g' \<Longrightarrow>
         (pg_priority g, pg_insertion_order g, flow) \<le> (pg_priority g', pg_insertion_order g', f')"
proof (cases "min_by_key (\<lambda>(flow, grp). (pg_priority grp, pg_insertion_order grp, flow)) (bt_entries (rsq_groups q))")
  case None
  then have nil: "bt_entries (rsq_groups q) = []" by simp
  have "bt_get (rsq_groups q) f = None" for f
    by (cases "bt_get (rsq_groups q) f") (simp_all add: bt_entries_get [symmetric] nil)
  moreover have "RealtimeSendQueue_next_flow q = None" by (simp add: RealtimeSendQueue_next_flow_def nil)
  ultimately show ?thesis by (rule empty [rotated])
next
  case (Some x)
  obtain flow g where x: "x = (flow, g)" by fastforce
  note least = min_by_key_Some [OF Some, unfolded x]
  have get: "bt_get (rsq_groups q) flow = Some g" using least by (simp only: bt_entries_get)
  have le: "(pg_priority g, pg_insertion_order g, flow) \<le> (pg_priority g', pg_insertion_order g', f')"
    if "bt_get (rsq_groups q) f' = Some g'" for f' g'
    using bspec [OF conjunct2 [OF least], of "(f', g')"] that by (simp only: bt_entries_get prod.case)
  have "RealtimeSendQueue_next_flow q = Some flow" using Some x by (simp add: RealtimeSendQueue_next_flow_def)
  then show ?thesis using get le by (rule best)
qed

text \<open>Both ways to take a datagram: nothing but the expired groups leaves, or one datagram more.\<close>

definition takes :: "RealtimeQueueConfig \<Rightarrow> QueuedRealtimeDatagram option \<Rightarrow> RealtimeSendQueue \<Rightarrow> RealtimeSendQueue \<Rightarrow> bool" where
  "takes cfg r q q' \<longleftrightarrow> queue_ok cfg q' \<and>
     ((\<forall>f. flow_account q f < 2 ^ 64 - 1) \<longrightarrow>
      (\<forall>f. flow_account q f = flow_account q' f + (case r of None \<Rightarrow> 0 | Some d \<Rightarrow> if f = qd_flow d then 1 else 0)))"

lemma takes_none: "drops D q q1 \<Longrightarrow> queue_ok cfg q \<Longrightarrow> takes cfg None q q1"
  by (simp add: takes_def drops_account drops_ok)

lemma takes_flow:
  assumes "drops D q q1" and "queue_ok cfg q" and "RealtimeSendQueue_pop_flow flow q1 = (r, q')"
    and "bt_get (rsq_groups q1) flow = Some g"
  shows "takes cfg r q q'"
proof -
  note step = pop_flow_step [OF assms(3) drops_ok [OF assms(1,2)] assms(4)]
  obtain d where "r = Some d" "qd_flow d = flow" using step(2) by blast
  then show ?thesis using step(1,3) drops_account [OF assms(1)] by (simp add: takes_def)
qed

lemma pop_next_takes:
  assumes "RealtimeSendQueue_pop_next now q = (r, q')" and "queue_ok cfg q"
  shows "takes cfg r q q'"
proof -
  let ?q1 = "snd (RealtimeSendQueue_expire now q)"
  show ?thesis
  proof (cases ?q1 rule: next_flow_cases)
    case empty
    with assms(1) have "r = None" "q' = ?q1" by (auto simp: RealtimeSendQueue_pop_next_def Let_def)
    then show ?thesis using takes_none [OF expire_drops assms(2)] by simp
  next
    case (best flow g)
    with assms(1) have "RealtimeSendQueue_pop_flow flow ?q1 = (r, q')"
      by (simp add: RealtimeSendQueue_pop_next_def Let_def)
    with takes_flow [OF expire_drops assms(2)] best(2) show ?thesis by blast
  qed
qed

lemma pop_next_fitting_takes:
  assumes "RealtimeSendQueue_pop_next_fitting now max_wire q = (r, q')" and "queue_ok cfg q"
  shows "takes cfg r q q'"
proof -
  let ?q1 = "snd (RealtimeSendQueue_expire now q)"
  let ?fit = "\<lambda>priority. filter (\<lambda>(flow, grp). case wire_len grp of None \<Rightarrow> False | Some n \<Rightarrow> n \<le> max_wire)
      (filter (\<lambda>(flow, grp). pg_priority grp = priority) (bt_entries (rsq_groups ?q1)))"
  let ?key = "\<lambda>(flow, grp). (pg_insertion_order grp, flow :: RealtimeFlowId)"
  have none: ?thesis if "r = None" "q' = ?q1" using that takes_none [OF expire_drops assms(2)] by simp
  show ?thesis
  proof (cases "min_by_key id (map pg_priority (bt_values (rsq_groups ?q1)))")
    case None
    with assms(1) show ?thesis by (intro none) (auto simp: RealtimeSendQueue_pop_next_fitting_def Let_def)
  next
    case (Some priority)
    show ?thesis
    proof (cases "min_by_key ?key (?fit priority)")
      case None
      with Some assms(1) show ?thesis
        by (intro none) (auto simp: RealtimeSendQueue_pop_next_fitting_def Let_def simp del: min_by_key_None)
    next
      case (Some x)
      obtain flow g where x: "x = (flow, g)" by fastforce
      have "(flow, g) \<in> set (bt_entries (rsq_groups ?q1))" using min_by_key_Some [OF Some] x by auto
      moreover have "RealtimeSendQueue_pop_flow flow ?q1 = (r, q')"
        using assms(1) \<open>min_by_key id _ = Some priority\<close> Some x by (simp add: RealtimeSendQueue_pop_next_fitting_def Let_def)
      ultimately show ?thesis using takes_flow [OF expire_drops assms(2)] unfolding bt_entries_get by blast
    qed
  qed
qed

subsection \<open>Runs\<close>

datatype RealtimeOp =
    RtEnqueue RealtimeDatagram Instant | RtPop Instant | RtPopFitting Instant nat | RtPeek Instant
  | RtSent QueuedRealtimeDatagram | RtCongestion | RtDropDisposable | RtSetMaxPayload nat
  | RtMetrics u64 "u64 option" u64 | RtMigration | RtReset | RtClear

text \<open>A datagram was offered and not refused, taken for sending, or cleared with the queue.\<close>

datatype RealtimeTrace = RtOffered RealtimeFlowId | RtTaken QueuedRealtimeDatagram | RtCleared RealtimeFlowId nat

definition cleared :: "RealtimeSendQueue \<Rightarrow> RealtimeTrace list" where
  "cleared q = map (\<lambda>(f, g). RtCleared f (length (pg_datagrams g))) (bt_entries (rsq_groups q))"

definition taken :: "QueuedRealtimeDatagram option \<Rightarrow> RealtimeTrace list" where
  "taken r = (case r of None \<Rightarrow> [] | Some d \<Rightarrow> [RtTaken d])"

fun realtime_exec :: "RealtimeOp \<Rightarrow> RealtimeSendQueue \<Rightarrow> RealtimeTrace list \<times> RealtimeSendQueue" where
  "realtime_exec (RtEnqueue d now) q =
     (case RealtimeSendQueue_enqueue d now q of (r, q') \<Rightarrow> (if is_ok r then [RtOffered (rd_flow d)] else [], q'))"
| "realtime_exec (RtPop now) q = (case RealtimeSendQueue_pop_next now q of (r, q') \<Rightarrow> (taken r, q'))"
| "realtime_exec (RtPopFitting now n) q = (case RealtimeSendQueue_pop_next_fitting now n q of (r, q') \<Rightarrow> (taken r, q'))"
| "realtime_exec (RtPeek now) q = ([], snd (RealtimeSendQueue_peek_next_wire_len now q))"
| "realtime_exec (RtSent d) q = ([], RealtimeSendQueue_note_sent d q)"
| "realtime_exec RtCongestion q = ([], RealtimeSendQueue_note_transport_congestion q)"
| "realtime_exec RtDropDisposable q = ([], snd (RealtimeSendQueue_drop_disposable_for_congestion q))"
| "realtime_exec (RtSetMaxPayload n) q = ([], snd (RealtimeSendQueue_set_max_payload n q))"
| "realtime_exec (RtMetrics rtt rate events) q = ([], RealtimeSendQueue_note_network_metrics rtt rate events q)"
| "realtime_exec RtMigration q = ([], RealtimeSendQueue_note_migration q)"
| "realtime_exec RtReset q = (cleared q, RealtimeSendQueue_reset_for_reconnect q)"
| "realtime_exec RtClear q = (cleared q, RealtimeSendQueue_clear_pending q)"

fun realtime_run :: "RealtimeOp list \<Rightarrow> RealtimeSendQueue \<Rightarrow> RealtimeTrace list \<times> RealtimeSendQueue" where
  "realtime_run [] q = ([], q)"
| "realtime_run (op # ops) q =
     (case realtime_exec op q of (h1, q1) \<Rightarrow>
      case realtime_run ops q1 of (h2, q2) \<Rightarrow> (h1 @ h2, q2))"

fun offered_in :: "RealtimeFlowId \<Rightarrow> RealtimeTrace \<Rightarrow> nat" where
  "offered_in f (RtOffered f') = (if f' = f then 1 else 0)"
| "offered_in f _ = 0"

fun taken_in :: "RealtimeFlowId \<Rightarrow> RealtimeTrace \<Rightarrow> nat" where
  "taken_in f (RtTaken d) = (if qd_flow d = f then 1 else 0)"
| "taken_in f _ = 0"

fun cleared_in :: "RealtimeFlowId \<Rightarrow> RealtimeTrace \<Rightarrow> nat" where
  "cleared_in f (RtCleared f' n) = (if f' = f then n else 0)"
| "cleared_in f _ = 0"

definition trace_total :: "(RealtimeTrace \<Rightarrow> nat) \<Rightarrow> RealtimeTrace list \<Rightarrow> nat" where
  "trace_total w h = sum_list (map w h)"

lemma total_simps [simp]:
  "trace_total w [] = 0" "trace_total w (e # h) = w e + trace_total w h" "trace_total w (h @ h') = trace_total w h + trace_total w h'"
  by (simp_all add: trace_total_def)

lemma total_taken [simp]:
  "trace_total (offered_in f) (taken r) = 0" "trace_total (cleared_in f) (taken r) = 0"
  "trace_total (taken_in f) (taken r) = (case r of None \<Rightarrow> 0 | Some d \<Rightarrow> if f = qd_flow d then 1 else 0)"
  by (auto simp: taken_def split: option.splits)

lemma total_cleared [simp]:
  "trace_total (offered_in f) (cleared q) = 0" "trace_total (taken_in f) (cleared q) = 0"
  "trace_total (cleared_in f) (cleared q) = flow_pending q f"
proof -
  have zero: "sum_list (map (offered_in f \<circ> (\<lambda>(f, g). RtCleared f (length (pg_datagrams g)))) xs) = 0"
    "sum_list (map (taken_in f \<circ> (\<lambda>(f, g). RtCleared f (length (pg_datagrams g)))) xs) = 0" for xs
    by (induction xs) auto
  then show "trace_total (offered_in f) (cleared q) = 0" "trace_total (taken_in f) (cleared q) = 0"
    by (simp_all add: trace_total_def cleared_def)
  have "sum_list (map (cleared_in f \<circ> (\<lambda>(f, g). RtCleared f (length (pg_datagrams g)))) xs)
      = (case map_of xs f of None \<Rightarrow> 0 | Some g \<Rightarrow> length (pg_datagrams g))" if "distinct (map fst xs)" for xs
    using that
  proof (induction xs)
    case (Cons x xs)
    moreover have "map_of xs (fst x) = None" using Cons.prems by (simp add: map_of_eq_None_iff)
    ultimately show ?case by (cases x) auto
  qed simp
  from this [OF bt_entries_distinct] show "trace_total (cleared_in f) (cleared q) = flow_pending q f"
    by (simp add: trace_total_def cleared_def flow_pending_def bt_get.rep_eq)
qed

lemma same_flows:
  "rtt_flows (rsq_telemetry q') = rtt_flows (rsq_telemetry q) \<Longrightarrow> flow_dropped q' f = flow_dropped q f"
  by (simp add: flow_dropped_def flow_stats_def)

lemma note_sent_dropped: "flow_dropped (RealtimeSendQueue_note_sent d q) f = flow_dropped q f"
  by (simp add: flow_dropped_def flow_stats_def RealtimeSendQueue_note_sent_def Let_def update_flow_flows)

text \<open>An operation that neither offers nor takes a datagram.\<close>

definition idle :: "RealtimeQueueConfig \<Rightarrow> RealtimeSendQueue \<Rightarrow> RealtimeSendQueue \<Rightarrow> bool" where
  "idle cfg q q' \<longleftrightarrow> queue_ok cfg q' \<and> ((\<forall>f. flow_account q f < 2 ^ 64 - 1) \<longrightarrow> (\<forall>f. flow_account q' f = flow_account q f))"

lemma drops_idle: "drops D q q' \<Longrightarrow> queue_ok cfg q \<Longrightarrow> idle cfg q q'"
  by (simp add: idle_def drops_account drops_ok)

lemma telemetry_idle:
  assumes "queue_ok cfg q" and "rsq_config q' = rsq_config q" "rsq_max_payload q' = rsq_max_payload q" "rsq_groups q' = rsq_groups q"
    and "\<And>f. flow_dropped q' f = flow_dropped q f"
  shows "idle cfg q q'"
  using assms queue_ok_same [of cfg q q'] by (simp add: idle_def flow_pending_def)

lemma set_max_payload_idle:
  assumes "queue_ok cfg q"
  shows "idle cfg q (snd (RealtimeSendQueue_set_max_payload n q))"
proof (cases "n = 0 \<or> n = rsq_max_payload q")
  case True
  with assms show ?thesis by (auto simp: RealtimeSendQueue_set_max_payload_def idle_def)
next
  case False
  define q1 where "q1 = q\<lparr>rsq_max_payload := n, rsq_telemetry := (rsq_telemetry q)\<lparr>rtt_current_datagram_payload := Some n,
      rtt_max_datagram_payload := max (rtt_max_datagram_payload (rsq_telemetry q)) n,
      rtt_mtu_change_count := sat_add (rtt_mtu_change_count (rsq_telemetry q)) 1\<rparr>\<rparr>"
  have q1: "rsq_groups q1 = rsq_groups q" "rsq_config q1 = rsq_config q" "rsq_max_payload q1 = n"
    "\<And>f. flow_account q1 f = flow_account q f"
    by (auto simp: q1_def flow_pending_def intro!: same_flows)
  show ?thesis
  proof (cases "n < rsq_max_payload q")
    case True
    let ?big = "\<lambda>g. list_ex (\<lambda>p. length p > n) (pg_datagrams g)"
    let ?q2 = "snd (drop_flows (flows_where ?big q1) Drop_Congested q1)"
    have res: "snd (RealtimeSendQueue_set_max_payload n q) = ?q2"
      using False True by (simp add: RealtimeSendQueue_set_max_payload_def q1_def Let_def)
    have dr: "drops (\<lambda>f. \<exists>g. bt_get (rsq_groups q) f = Some g \<and> ?big g) q1 ?q2"
      using drop_flows_drops [of "flows_where ?big q1" q1 Drop_Congested] by (simp add: flows_where_iff q1)
    have "group_ok cfg n g" if "bt_get (rsq_groups ?q2) f = Some g" for f g
      using that dr assms by (auto simp: drops_def q1 queue_ok_def group_ok_def list_ex_iff list_all_iff not_less split: if_splits)
    moreover have "rsq_config ?q2 = rsq_config q" "rsq_max_payload ?q2 = n" using dr by (simp_all add: drops_def q1)
    ultimately have "queue_ok cfg ?q2"
      using assms drops_len [OF dr] by (auto simp: queue_ok_def q1)
    then show ?thesis using drops_account [OF dr] unfolding res by (simp add: idle_def q1)
  next
    case grow: False
    then have "snd (RealtimeSendQueue_set_max_payload n q) = q1"
      using False by (simp add: RealtimeSendQueue_set_max_payload_def q1_def Let_def)
    moreover have "group_ok cfg n g" if "group_ok cfg (rsq_max_payload q) g" for g
      using that grow by (auto simp: group_ok_def list_all_iff)
    ultimately show ?thesis using assms by (auto simp: idle_def queue_ok_def q1)
  qed
qed

lemma exec_step:
  assumes "realtime_exec op q = (h, q')" and "queue_ok cfg q"
  shows "queue_ok cfg q'"
    and "\<forall>f. flow_account q f < 2 ^ 64 - 1 \<Longrightarrow> flow_account q f + trace_total (offered_in f) h
       = flow_account q' f + trace_total (taken_in f) h + trace_total (cleared_in f) h"
    and "trace_total (offered_in f) h \<le> 1"
proof -
  let ?goal = "queue_ok cfg q' \<and> ((\<forall>f. flow_account q f < 2 ^ 64 - 1) \<longrightarrow> (\<forall>f. flow_account q f + trace_total (offered_in f) h
       = flow_account q' f + trace_total (taken_in f) h + trace_total (cleared_in f) h)) \<and> (\<forall>f. trace_total (offered_in f) h \<le> 1)"
  have quiet: ?goal if "h = []" "idle cfg q q'" using that by (simp add: idle_def)
  have pop: ?goal if "h = taken r" "takes cfg r q q'" for r using that by (simp add: takes_def)
  have ?goal
  proof (cases op)
    case (RtEnqueue d now)
    obtain r where en: "RealtimeSendQueue_enqueue d now q = (r, q')" and h: "h = (if is_ok r then [RtOffered (rd_flow d)] else [])"
      using assms(1) RtEnqueue by (auto split: prod.splits)
    from en assms(2) show ?thesis
    proof (cases rule: enqueue_step)
      case (failed e)
      with h show ?thesis using drops_account by (auto simp: drops_account)
    next
      case ok
      with h show ?thesis by (auto simp: gains_def)
    qed
  next
    case (RtPop now)
    then obtain r where "RealtimeSendQueue_pop_next now q = (r, q')" "h = taken r"
      using assms(1) by (auto split: prod.splits)
    then show ?thesis by (intro pop pop_next_takes assms(2))
  next
    case (RtPopFitting now n)
    then obtain r where "RealtimeSendQueue_pop_next_fitting now n q = (r, q')" "h = taken r"
      using assms(1) by (auto split: prod.splits)
    then show ?thesis by (intro pop pop_next_fitting_takes assms(2))
  next
    case (RtPeek now)
    with assms show ?thesis
      by (intro quiet) (auto simp: RealtimeSendQueue_peek_next_wire_len_def Let_def intro: drops_idle expire_drops)
  next
    case (RtSent d)
    with assms show ?thesis
      by (intro quiet) (auto intro!: telemetry_idle simp: note_sent_dropped, auto simp: RealtimeSendQueue_note_sent_def Let_def)
  next
    case RtCongestion
    with assms show ?thesis
      by (intro quiet) (auto intro!: telemetry_idle same_flows simp: RealtimeSendQueue_note_transport_congestion_def)
  next
    case RtDropDisposable
    with assms show ?thesis
      by (intro quiet) (auto simp: RealtimeSendQueue_drop_disposable_for_congestion_def intro: drops_idle drop_flows_drops)
  next
    case (RtSetMaxPayload n)
    with assms show ?thesis by (intro quiet) (auto intro: set_max_payload_idle)
  next
    case (RtMetrics rtt rate events)
    with assms show ?thesis
      by (intro quiet) (auto intro!: telemetry_idle same_flows simp: RealtimeSendQueue_note_network_metrics_def Let_def)
  next
    case RtMigration
    with assms show ?thesis
      by (intro quiet) (auto intro!: telemetry_idle same_flows simp: RealtimeSendQueue_note_migration_def)
  next
    case RtReset
    with assms show ?thesis
      by (auto simp: RealtimeSendQueue_reset_for_reconnect_def RealtimeSendQueue_clear_pending_def Let_def queue_ok_def
          flow_pending_def intro!: same_flows)
  next
    case RtClear
    with assms show ?thesis
      by (auto simp: RealtimeSendQueue_clear_pending_def queue_ok_def flow_pending_def)
  qed
  then show "queue_ok cfg q'"
    and "\<forall>f. flow_account q f < 2 ^ 64 - 1 \<Longrightarrow> flow_account q f + trace_total (offered_in f) h
       = flow_account q' f + trace_total (taken_in f) h + trace_total (cleared_in f) h"
    and "trace_total (offered_in f) h \<le> 1"
    by blast+
qed

lemma run_account:
  assumes "realtime_run ops q = (h, q')" and "queue_ok cfg q" and "\<forall>f. flow_account q f + length ops < 2 ^ 64"
  shows "queue_ok cfg q' \<and> (\<forall>f. flow_account q f + trace_total (offered_in f) h
       = flow_account q' f + trace_total (taken_in f) h + trace_total (cleared_in f) h)"
  using assms
proof (induction ops arbitrary: q h)
  case (Cons op ops)
  obtain h1 q1 where ex: "realtime_exec op q = (h1, q1)" by fastforce
  obtain h2 where run: "realtime_run ops q1 = (h2, q')" and h: "h = h1 @ h2"
    using Cons.prems(1) ex by (auto split: prod.splits)
  note step = exec_step [OF ex Cons.prems(2)]
  have room: "\<forall>f. flow_account q f < 2 ^ 64 - 1"
  proof
    fix f
    show "flow_account q f < 2 ^ 64 - 1" using Cons.prems(3) [rule_format, of f] by simp
  qed
  have "\<forall>f. flow_account q1 f + length ops < 2 ^ 64"
  proof
    fix f
    show "flow_account q1 f + length ops < 2 ^ 64"
      using step(2) [OF room, of f] step(3) [of f] Cons.prems(3) [rule_format, of f] by simp
  qed
  note ih = Cons.IH [OF run step(1) this]
  have "flow_account q f + trace_total (offered_in f) h
      = flow_account q' f + trace_total (taken_in f) h + trace_total (cleared_in f) h" for f
    using conjunct2 [OF ih, THEN spec, of f] step(2) [OF room, of f] by (simp add: h)
  with ih show ?case by blast
qed simp

lemma new_ok: "RealtimeSendQueue_new config max_payload = Inr q0 \<Longrightarrow> queue_ok config q0"
  by (auto simp: RealtimeSendQueue_new_def queue_ok_def split: if_splits)

lemma run_ok: "queue_ok cfg q \<Longrightarrow> realtime_run ops q = (h, q') \<Longrightarrow> queue_ok cfg q'"
proof (induction ops arbitrary: q h)
  case (Cons op ops)
  then show ?case using exec_step(1) by (fastforce split: prod.splits)
qed simp

subsection \<open>The wire format\<close>

definition requeued :: "ReceivedRealtimeDatagram \<Rightarrow> Instant \<Rightarrow> QueuedRealtimeDatagram" where
  "requeued r deadline =
     \<lparr>qd_flow = rr_flow r, qd_generation = rr_generation r, qd_sequence = rr_sequence r, qd_deadline = deadline,
      qd_priority = rr_priority r, qd_payload = rr_payload r\<rparr>"

lemma priority_code_iff: "RealtimePriority_from_code c = Inr p \<longleftrightarrow> c = RealtimePriority_code p"
  by (cases p) (auto simp: RealtimePriority_from_code_def)

lemma drop_split:
  assumes "a \<le> b" and "b \<le> length xs"
  shows "drop a xs = drop a (take b xs) @ drop b xs"
proof -
  have "drop a (take b xs @ drop b xs) = drop a (take b xs) @ drop b xs"
    unfolding drop_append using assms by simp
  then show ?thesis by simp
qed

lemma wire_split:
  assumes "20 \<le> length encoded"
  shows "encoded = take 4 encoded @ [encoded ! 4, encoded ! 5, encoded ! 6, encoded ! 7]
    @ drop 8 (take 12 encoded) @ drop 12 (take 20 encoded) @ drop 20 encoded"
proof -
  have step: "drop n encoded = encoded ! n # drop (Suc n) encoded" if "n < 20" for n
    using assms that by (simp add: Cons_nth_drop_Suc)
  have a: "drop 4 encoded = [encoded ! 4, encoded ! 5, encoded ! 6, encoded ! 7] @ drop 8 encoded"
    using step [of 4] step [of 5] step [of 6] step [of 7] by simp
  have "drop 8 encoded = drop 8 (take 12 encoded) @ drop 12 encoded" "drop 12 encoded = drop 12 (take 20 encoded) @ drop 20 encoded"
    using assms by (simp_all only: drop_split [of 8 12 encoded] drop_split [of 12 20 encoded])
  then show ?thesis using a append_take_drop_id [of 4 encoded] by (metis append.assoc)
qed

lemma encode_bytes:
  "encode_realtime_datagram d = Inr bs \<longleftrightarrow> 20 + length (qd_payload d) \<le> usize_max \<and>
     bs = [77, 76, 82, 68, 1, RealtimePriority_code (qd_priority d)] @ to_be_bytes (flow_id_val (qd_flow d))
       @ to_be_bytes (qd_generation d) @ to_be_bytes (qd_sequence d) @ qd_payload d"
  by (auto simp: encode_realtime_datagram_def result_bind_eq_Inr usize_checked_add_def REALTIME_DATAGRAM_HEADER_LEN_def
      REALTIME_MAGIC_def REALTIME_VERSION_def)

lemma decode_parts:
  "decode_realtime_datagram encoded t = Inr r \<longleftrightarrow>
     20 \<le> length encoded \<and> take 4 encoded = [77, 76, 82, 68] \<and> encoded ! 4 = 1
     \<and> encoded ! 5 = RealtimePriority_code (rr_priority r)
     \<and> rr_flow r = RealtimeFlowId (from_be_bytes [encoded ! 6, encoded ! 7])
     \<and> rr_generation r = from_be_bytes (drop 8 (take 12 encoded)) \<and> rr_sequence r = from_be_bytes (drop 12 (take 20 encoded))
     \<and> rr_received_at r = t \<and> rr_payload r = drop 20 encoded"
  by (auto simp: decode_realtime_datagram_def result_bind_eq_Inr priority_code_iff REALTIME_DATAGRAM_HEADER_LEN_def
      REALTIME_MAGIC_def REALTIME_VERSION_def)

lemma decode_encode:
  assumes "encode_realtime_datagram d = Inr bs"
  shows "decode_realtime_datagram bs t = Inr \<lparr>rr_flow = qd_flow d, rr_generation = qd_generation d,
    rr_sequence = qd_sequence d, rr_priority = qd_priority d, rr_received_at = t, rr_payload = qd_payload d\<rparr>"
proof -
  let ?f = "to_be_bytes (flow_id_val (qd_flow d))" and ?g = "to_be_bytes (qd_generation d)"
    and ?s = "to_be_bytes (qd_sequence d)"
  obtain x y where xy: "?f = [x, y]" by (rule two_bytes)
  have bs: "bs = [77, 76, 82, 68, 1, RealtimePriority_code (qd_priority d), x, y] @ ?g @ ?s @ qd_payload d"
    using assms xy by (simp add: encode_bytes)
  have len: "length ?g = 4" "length ?s = 8" by simp_all
  have "from_be_bytes [x, y] = flow_id_val (qd_flow d)" by (simp add: xy [symmetric])
  moreover have "take 12 bs = [77, 76, 82, 68, 1, RealtimePriority_code (qd_priority d), x, y] @ ?g"
    "take 20 bs = [77, 76, 82, 68, 1, RealtimePriority_code (qd_priority d), x, y] @ ?g @ ?s"
    "drop 20 bs = qd_payload d"
    using len by (simp_all add: bs take_Cons' drop_Cons')
  ultimately show ?thesis
    unfolding decode_parts using len by (simp add: bs drop_Cons')
qed

lemma encode_decode:
  assumes "decode_realtime_datagram encoded t = Inr r" and "length encoded \<le> usize_max"
  shows "encode_realtime_datagram (requeued r deadline) = Inr encoded"
proof -
  note p = assms(1) [unfolded decode_parts]
  have "to_be_bytes (from_be_bytes [encoded ! 6, encoded ! 7] :: u16) = [encoded ! 6, encoded ! 7]"
    "to_be_bytes (from_be_bytes (drop 8 (take 12 encoded)) :: u32) = drop 8 (take 12 encoded)"
    "to_be_bytes (from_be_bytes (drop 12 (take 20 encoded)) :: u64) = drop 12 (take 20 encoded)"
    using p by (simp_all add: to_from_be_bytes)
  moreover have "20 + length (drop 20 encoded) = length encoded" using p by simp
  ultimately show ?thesis
    using wire_split [of encoded] p assms(2) unfolding encode_bytes by (simp add: requeued_def)
qed

subsection \<open>Properties\<close>

text \<open>Realtime datagrams are accounted for. Whatever is called on a send queue, for every
  flow the datagrams offered and not refused are those taken for sending, those cleared with
  the queue, those counted as replaced, expired or dropped under congestion, and those still
  pending; no counter wraps or saturates within the first \<open>2 ^ 64\<close> calls.\<close>

theorem realtime_accounting:
  assumes "RealtimeSendQueue_new config max_payload = Inr q0" and "realtime_run ops q0 = (h, q)" and "length ops < 2 ^ 64"
  shows "trace_total (offered_in f) h =
     trace_total (taken_in f) h + trace_total (cleared_in f) h
     + unat (rft_replaced (flow_stats q f)) + unat (rft_expired (flow_stats q f))
     + unat (rft_congestion_dropped (flow_stats q f)) + flow_pending q f"
proof -
  have q0: "\<And>f. flow_account q0 f = 0"
    using assms(1)
    by (auto simp: RealtimeSendQueue_new_def flow_dropped_def flow_stats_def flow_pending_def
        RealtimeTelemetry_default_def RealtimeFlowTelemetry_default_def split: if_splits)
  from run_account [OF assms(2) new_ok [OF assms(1)]] q0 assms(3) show ?thesis
    by (simp add: flow_dropped_def)
qed

text \<open>The send queue is bounded. Whatever is called on it, a send queue never holds more
  flows than configured, nor an empty group, a group of more datagrams than configured, or a
  datagram above the current payload limit.\<close>

theorem realtime_queue_bounded:
  assumes "RealtimeSendQueue_new config max_payload = Inr q0" and "realtime_run ops q0 = (h, q)"
  shows "bt_len (rsq_groups q) \<le> rqc_max_flows config
    \<and> (\<forall>f g. bt_get (rsq_groups q) f = Some g \<longrightarrow>
         pg_datagrams g \<noteq> [] \<and> length (pg_datagrams g) \<le> rqc_max_datagrams_per_group config
         \<and> list_all (\<lambda>p. length p \<le> rsq_max_payload q) (pg_datagrams g))"
proof -
  have "queue_ok config q" using new_ok [OF assms(1)] assms(2) by (rule run_ok)
  then show ?thesis by (auto simp: queue_ok_def group_ok_def)
qed

text \<open>C26: the best datagram goes first. On a queue in any reachable state, \<open>pop_next\<close> returns
  nothing exactly when every group has expired; otherwise it returns the first datagram of an
  unexpired group of the most urgent priority, of the smallest insertion number among those, and
  it leaves every other unexpired group as it is.\<close>

theorem realtime_pop_best:
  assumes "RealtimeSendQueue_new config max_payload = Inr q0" and "realtime_run ops q0 = (h, q)"
    and "RealtimeSendQueue_pop_next now q = (r, q')"
  shows "(r = None \<longleftrightarrow> (\<forall>f g. bt_get (rsq_groups q) f = Some g \<longrightarrow> pg_deadline g \<le> now))
    \<and> (\<forall>d. r = Some d \<longrightarrow> (\<exists>g. bt_get (rsq_groups q) (qd_flow d) = Some g \<and> now < pg_deadline g
         \<and> pg_datagrams g = qd_payload d # tl (pg_datagrams g)
         \<and> qd_generation d = pg_generation g \<and> qd_sequence d = pg_sequence g \<and> qd_priority d = pg_priority g
         \<and> (\<forall>f' g'. bt_get (rsq_groups q) f' = Some g' \<and> now < pg_deadline g' \<longrightarrow>
              (pg_priority g, pg_insertion_order g) \<le> (pg_priority g', pg_insertion_order g')
              \<and> (f' \<noteq> qd_flow d \<longrightarrow> bt_get (rsq_groups q') f' = Some g'))))"
proof -
  have ok: "queue_ok config q" using new_ok [OF assms(1)] assms(2) by (rule run_ok)
  let ?q1 = "snd (RealtimeSendQueue_expire now q)"
  have get1: "bt_get (rsq_groups ?q1) f = (if \<exists>g. bt_get (rsq_groups q) f = Some g \<and> pg_deadline g \<le> now then None
      else bt_get (rsq_groups q) f)" for f
    using expire_drops [of q now] by (simp add: drops_def)
  show ?thesis
  proof (cases ?q1 rule: next_flow_cases)
    case empty
    then have "r = None" using assms(3) by (simp add: RealtimeSendQueue_pop_next_def Let_def)
    moreover have "pg_deadline g \<le> now" if "bt_get (rsq_groups q) f = Some g" for f g
      using empty(2) [of f] that unfolding get1 by (auto split: if_splits)
    ultimately show ?thesis by blast
  next
    case (best flow g)
    then have pop: "RealtimeSendQueue_pop_flow flow ?q1 = (r, q')"
      using assms(3) by (simp add: RealtimeSendQueue_pop_next_def Let_def)
    have g: "bt_get (rsq_groups q) flow = Some g" "now < pg_deadline g"
      using best(2) unfolding get1 by (auto split: if_splits)
    have ok1: "queue_ok config ?q1" using expire_drops ok by (rule drops_ok)
    obtain d where d: "r = Some d" "qd_flow d = flow" "pg_datagrams g = qd_payload d # tl (pg_datagrams g)"
        "qd_generation d = pg_generation g" "qd_sequence d = pg_sequence g" "qd_priority d = pg_priority g"
      using pop_flow_step(2) [OF pop ok1 best(2)] by blast
    have others: "bt_get (rsq_groups q') f' = bt_get (rsq_groups ?q1) f'" if "f' \<noteq> flow" for f'
      using that pop best(2) by (auto simp: RealtimeSendQueue_pop_flow_def Let_def split: list.splits)
    have "(pg_priority g, pg_insertion_order g) \<le> (pg_priority g', pg_insertion_order g')
        \<and> (f' \<noteq> flow \<longrightarrow> bt_get (rsq_groups q') f' = Some g')"
      if "bt_get (rsq_groups q) f' = Some g'" "now < pg_deadline g'" for f' g'
      using best(3) [of f' g'] others [of f'] that unfolding get1 by auto
    moreover have "\<exists>f g. bt_get (rsq_groups q) f = Some g \<and> \<not> pg_deadline g \<le> now"
      using g by (intro exI [of _ flow] exI [of _ g]) simp
    ultimately show ?thesis using g d by auto
  qed
qed

text \<open>The datagram format is canonical. Decoding accepts exactly what the encoder writes:
  bytes decode to a datagram received at some time exactly when the encoder writes those
  bytes for it, whatever its deadline, and the flow read off the raw bytes is the
  datagram's.\<close>

theorem realtime_datagram_canonical:
  assumes "length encoded \<le> usize_max"
  shows "(decode_realtime_datagram encoded t = Inr r \<longleftrightarrow>
       rr_received_at r = t \<and> encode_realtime_datagram (requeued r deadline) = Inr encoded)
    \<and> (decode_realtime_datagram encoded t = Inr r \<longrightarrow> realtime_flow_from_wire encoded = Some (rr_flow r))"
proof -
  have "decode_realtime_datagram encoded t = Inr r"
    if "rr_received_at r = t" "encode_realtime_datagram (requeued r deadline) = Inr encoded"
    using decode_encode [OF that(2), of t] that(1) by (simp add: requeued_def)
  moreover have "realtime_flow_from_wire encoded = Some (rr_flow r)" if "decode_realtime_datagram encoded t = Inr r"
    using that
    by (simp add: decode_parts realtime_flow_from_wire_def REALTIME_DATAGRAM_HEADER_LEN_def REALTIME_MAGIC_def REALTIME_VERSION_def)
  moreover have "rr_received_at r = t" if "decode_realtime_datagram encoded t = Inr r" using that by (simp add: decode_parts)
  ultimately show ?thesis using encode_decode assms by blast
qed

subsection \<open>Witnesses\<close>

definition sample_datagram :: "u64 \<Rightarrow> RealtimeDatagram" where
  "sample_datagram n = \<lparr>rd_flow = RealtimeFlowId 7, rd_generation = 1, rd_sequence = n, rd_deadline = 10,
     rd_priority = Rt_High, rd_payload = [1, 2]\<rparr>"

definition sample_realtime_ops :: "RealtimeOp list" where
  "sample_realtime_ops = [RtEnqueue (sample_datagram 5) 1, RtEnqueue (sample_datagram 6) 2]"

lemmas realtime_eval = sample_realtime_ops_def sample_datagram_def RealtimeSendQueue_enqueue_def RealtimeSendQueue_expire_def
  flows_where_def enqueue_new_group_def drop_flow_group_def compare_group_def is_newer_u64_def note_defs update_flow_def
  bt_empty.rep_eq bt_insert.rep_eq Let_def RealtimeQueueConfig_default_def

lemma sample_realtime_new:
  obtains q0 where "RealtimeSendQueue_new RealtimeQueueConfig_default 100 = Inr q0" "rsq_groups q0 = bt_empty"
    "rsq_max_payload q0 = 100" "rsq_config q0 = RealtimeQueueConfig_default"
  by (simp add: RealtimeSendQueue_new_def RealtimeQueueConfig_is_valid_def RealtimeQueueConfig_default_def)

lemma sample_realtime_run:
  assumes "rsq_groups q0 = bt_empty" "rsq_max_payload q0 = 100" "rsq_config q0 = RealtimeQueueConfig_default"
  obtains q where "realtime_run sample_realtime_ops q0 = ([RtOffered (RealtimeFlowId 7), RtOffered (RealtimeFlowId 7)], q)"
    "\<exists>g. bt_get (rsq_groups q) (RealtimeFlowId 7) = Some g \<and> pg_deadline g = 10"
  using assms by (simp add: realtime_eval)

text \<open>A datagram replaced by a newer one of its flow.\<close>

theorem realtime_accounting_witness:
  "\<exists>q0 h q. RealtimeSendQueue_new RealtimeQueueConfig_default 100 = Inr q0 \<and> realtime_run sample_realtime_ops q0 = (h, q)
     \<and> 2 = unat (rft_replaced (flow_stats q (RealtimeFlowId 7))) + unat (rft_expired (flow_stats q (RealtimeFlowId 7)))
           + unat (rft_congestion_dropped (flow_stats q (RealtimeFlowId 7))) + flow_pending q (RealtimeFlowId 7)"
proof -
  obtain q0 where q0: "RealtimeSendQueue_new RealtimeQueueConfig_default 100 = Inr q0" "rsq_groups q0 = bt_empty"
    "rsq_max_payload q0 = 100" "rsq_config q0 = RealtimeQueueConfig_default" by (rule sample_realtime_new)
  obtain q where run: "realtime_run sample_realtime_ops q0 = ([RtOffered (RealtimeFlowId 7), RtOffered (RealtimeFlowId 7)], q)"
    using sample_realtime_run [OF q0(2-4)] by blast
  have "length sample_realtime_ops < 2 ^ 64" by (simp add: sample_realtime_ops_def)
  from realtime_accounting [OF q0(1) run this, of "RealtimeFlowId 7"] q0(1) run show ?thesis by fastforce
qed

text \<open>The same run.\<close>

theorem realtime_queue_bounded_witness:
  "\<exists>q0 h q. RealtimeSendQueue_new RealtimeQueueConfig_default 100 = Inr q0 \<and> realtime_run sample_realtime_ops q0 = (h, q)
     \<and> (\<exists>g. bt_get (rsq_groups q) (RealtimeFlowId 7) = Some g \<and> pg_datagrams g \<noteq> [])"
proof -
  obtain q0 where q0: "RealtimeSendQueue_new RealtimeQueueConfig_default 100 = Inr q0" "rsq_groups q0 = bt_empty"
    "rsq_max_payload q0 = 100" "rsq_config q0 = RealtimeQueueConfig_default" by (rule sample_realtime_new)
  obtain q g where run: "realtime_run sample_realtime_ops q0 = ([RtOffered (RealtimeFlowId 7), RtOffered (RealtimeFlowId 7)], q)"
    "bt_get (rsq_groups q) (RealtimeFlowId 7) = Some g"
    using sample_realtime_run [OF q0(2-4)] by blast
  with realtime_queue_bounded [OF q0(1) run(1)] q0(1) show ?thesis by blast
qed

text \<open>C26 witness: the pending datagram is taken before its deadline.\<close>

theorem realtime_pop_best_witness:
  "\<exists>q0 h q r q'. RealtimeSendQueue_new RealtimeQueueConfig_default 100 = Inr q0 \<and> realtime_run sample_realtime_ops q0 = (h, q)
     \<and> RealtimeSendQueue_pop_next 3 q = (r, q') \<and> r \<noteq> None"
proof -
  obtain q0 where q0: "RealtimeSendQueue_new RealtimeQueueConfig_default 100 = Inr q0" "rsq_groups q0 = bt_empty"
    "rsq_max_payload q0 = 100" "rsq_config q0 = RealtimeQueueConfig_default" by (rule sample_realtime_new)
  obtain q g where run: "realtime_run sample_realtime_ops q0 = ([RtOffered (RealtimeFlowId 7), RtOffered (RealtimeFlowId 7)], q)"
    "bt_get (rsq_groups q) (RealtimeFlowId 7) = Some g" "pg_deadline g = 10"
    using sample_realtime_run [OF q0(2-4)] by blast
  obtain r q' where pop: "RealtimeSendQueue_pop_next 3 q = (r, q')" by fastforce
  have "\<not> pg_deadline g \<le> 3" using run(3) by simp
  with realtime_pop_best [OF q0(1) run(1) pop] run(2) have "r \<noteq> None" by blast
  with q0(1) run(1) pop show ?thesis by blast
qed

text \<open>A datagram of two bytes.\<close>

theorem realtime_datagram_canonical_witness:
  "\<exists>r. decode_realtime_datagram ([77, 76, 82, 68, 1, 2, 0, 7] @ replicate 11 0 @ [9, 1, 2]) 3 = Inr r
     \<and> encode_realtime_datagram (requeued r 10) = Inr ([77, 76, 82, 68, 1, 2, 0, 7] @ replicate 11 0 @ [9, 1, 2])"
proof -
  let ?bs = "[77, 76, 82, 68, 1, 2, 0, 7] @ replicate 11 0 @ [9, 1, 2] :: bytes"
  obtain r where r: "decode_realtime_datagram ?bs 3 = Inr r"
    by (simp add: decode_realtime_datagram_def REALTIME_DATAGRAM_HEADER_LEN_def REALTIME_MAGIC_def REALTIME_VERSION_def
        RealtimePriority_from_code_def)
  have "length ?bs \<le> usize_max" by (simp add: usize_max_def)
  from realtime_datagram_canonical [OF this, of 3 r 10] r show ?thesis by blast
qed

end
