(* ===== verification/Link_Pairing.thy ===== *)
theory Link_Pairing
  imports Link_Control
begin

text \<open>
  The pairing ceremony, \<^verbatim>\<open>mutsuki-link-pairing/src/ceremony.rs\<close>: the transcript and
  the short code derived from it, the replay guard, and the pairing session of both roles.
  SHA-256 is the parameter \<open>sha\<close> and the identity owner's \<^verbatim>\<open>PairingCrypto\<close> the
  parameters \<open>sign\<close> and \<open>verify\<close>; what is proved of an honest exchange assumes that a
  party's signature verifies under its public key and nothing else of them.
\<close>

subsection \<open>Messages\<close>

datatype PairingId = PairingId (pairing_id_bytes: u128)

record LongTermIdentity =
  lti_peer_id :: PeerId
  lti_public_key :: bytes
  lti_display_name :: bytes

datatype PairingMethod = ShortCode | QrCode | BilateralConfirmation

record PairingOffer =
  po_pairing_id :: PairingId
  po_initiator :: LongTermIdentity
  po_protocol_version :: ProtocolVersion
  po_challenge :: "256 word"
  po_method :: PairingMethod
  po_expires_at_unix_ms :: u64

record PairingResponse =
  pr_pairing_id :: PairingId
  pr_responder :: LongTermIdentity
  pr_transcript_hash :: "256 word"
  pr_short_code :: bytes

record PairingConfirmation =
  pc_pairing_id :: PairingId
  pc_signer_peer_id :: PeerId
  pc_transcript_hash :: "256 word"
  pc_signature :: bytes

datatype PairingTerminationReason = Term_Rejected | Term_Cancelled

record PairingTermination =
  pt_pairing_id :: PairingId
  pt_reason :: PairingTerminationReason

record PairingPresentation =
  pp_peer_name :: bytes
  pp_peer_fingerprint :: "256 word"
  pp_short_code :: bytes

datatype PairingRole = Pr_Initiator | Pr_Responder

datatype PairingState =
    AwaitingResponse | AwaitingUserConfirmation | AwaitingPeerConfirmation | Paired | Ps_Rejected | Ps_TimedOut
  | Ps_Cancelled | Ps_Failed

datatype PairingEvent =
    Pe_StateChanged PairingState | Pe_Present PairingPresentation | Pe_Completed PeerId | Pe_EventsDropped u64

datatype PairingErrorKind =
    Pk_InvalidInput | Pk_InvalidState | Pk_DuplicatePairing | Pk_TimedOut | Pk_Cancelled | Pk_Rejected | Pk_CodeMismatch
  | Pk_TranscriptMismatch | Pk_IdentityProofRejected | Pk_ReplayDetected | Pk_RateLimited

record PairingError =
  pe_kind :: PairingErrorKind
  pe_public_message :: string

definition PairingError_new :: "PairingErrorKind \<Rightarrow> string \<Rightarrow> PairingError" where
  "PairingError_new kind public_message = \<lparr>pe_kind = kind, pe_public_message = public_message\<rparr>"

definition invalid_state :: PairingError where
  "invalid_state = PairingError_new Pk_InvalidState ''pairing command is invalid in the current state''"

definition is_terminal :: "PairingState \<Rightarrow> bool" where
  "is_terminal state =
     (case state of Paired \<Rightarrow> True | Ps_Rejected \<Rightarrow> True | Ps_TimedOut \<Rightarrow> True | Ps_Cancelled \<Rightarrow> True | Ps_Failed \<Rightarrow> True
      | _ \<Rightarrow> False)"

definition validate_identity :: "LongTermIdentity \<Rightarrow> (PairingError, unit) result" where
  "validate_identity identity =
     (if length (lti_public_key identity) < 16 \<or> lti_display_name identity = []
      then Inl (PairingError_new Pk_InvalidInput ''long-term identity is invalid'') else Inr ())"

definition validate_new :: "bool \<Rightarrow> u64 \<Rightarrow> nat \<Rightarrow> (PairingError, unit) result" where
  "validate_new already_trusted expires_at_unix_ms event_capacity =
     (if already_trusted then Inl (PairingError_new Pk_DuplicatePairing ''peer is already paired'')
      else if expires_at_unix_ms = 0 \<or> event_capacity = 0
      then Inl (PairingError_new Pk_InvalidInput ''pairing limits are invalid'')
      else Inr ())"

subsection \<open>The transcript\<close>

text \<open>The hasher is fed the concatenation of the parts.\<close>

definition update_sized :: "bytes \<Rightarrow> bytes" where
  "update_sized value = to_be_bytes (if length value < 2 ^ 64 then of_nat (length value) else - 1 :: u64) @ value"

definition method_code :: "PairingMethod \<Rightarrow> u8" where
  "method_code method = (case method of ShortCode \<Rightarrow> 1 | QrCode \<Rightarrow> 2 | BilateralConfirmation \<Rightarrow> 3)"

definition transcript_bytes ::
  "LongTermIdentity \<Rightarrow> LongTermIdentity \<Rightarrow> ProtocolVersion \<Rightarrow> 256 word \<Rightarrow> PairingMethod \<Rightarrow> bytes" where
  "transcript_bytes initiator responder version challenge method =
     map (of_nat \<circ> of_char) ''mutsuki-link-pairing-v1''
     @ to_be_bytes (peer_id_bytes (lti_peer_id initiator)) @ update_sized (lti_public_key initiator)
     @ to_be_bytes (peer_id_bytes (lti_peer_id responder)) @ update_sized (lti_public_key responder)
     @ to_be_bytes (major version) @ to_be_bytes (minor version) @ to_be_bytes challenge @ [method_code method]"

definition transcript_hash ::
  "sha256 \<Rightarrow> LongTermIdentity \<Rightarrow> LongTermIdentity \<Rightarrow> ProtocolVersion \<Rightarrow> 256 word \<Rightarrow> PairingMethod \<Rightarrow> 256 word" where
  "transcript_hash sha initiator responder version challenge method =
     sha (transcript_bytes initiator responder version challenge method)"

definition short_code :: "256 word \<Rightarrow> bytes" where
  "short_code hash =
     (let value = unat (from_be_bytes (take 4 (to_be_bytes hash)) :: u32) mod 1000000
      in map (\<lambda>k. of_nat (48 + value div 10 ^ k mod 10)) [5, 4, 3, 2, 1, 0])"

definition presentation_of :: "sha256 \<Rightarrow> LongTermIdentity \<Rightarrow> bytes \<Rightarrow> PairingPresentation" where
  "presentation_of sha identity code =
     \<lparr>pp_peer_name = lti_display_name identity, pp_peer_fingerprint = sha (lti_public_key identity), pp_short_code = code\<rparr>"

subsection \<open>The replay guard\<close>

record ReplayGuard =
  rg_capacity :: nat
  rg_order :: "256 word list"
  rg_challenges :: "256 word btset"

definition ReplayGuard_new :: "nat \<Rightarrow> (PairingError, ReplayGuard) result" where
  "ReplayGuard_new capacity =
     (if capacity = 0 then Inl (PairingError_new Pk_InvalidInput ''replay guard capacity must be positive'')
      else Inr \<lparr>rg_capacity = capacity, rg_order = [], rg_challenges = bt_empty\<rparr>)"

definition ReplayGuard_reserve ::
  "sha256 \<Rightarrow> 256 word \<Rightarrow> ReplayGuard \<Rightarrow> (PairingError, 256 word) result \<times> ReplayGuard" where
  "ReplayGuard_reserve sha challenge self =
     (let hash = sha (to_be_bytes challenge) in
      if bt_contains (rg_challenges self) hash
      then (Inl (PairingError_new Pk_ReplayDetected ''pairing challenge was already used''), self)
      else
        let self = self\<lparr>rg_challenges := bs_insert hash (rg_challenges self), rg_order := rg_order self @ [hash]\<rparr>;
            self = (if length (rg_order self) > rg_capacity self
                    then (case rg_order self of
                            [] \<Rightarrow> self
                          | expired # order \<Rightarrow>
                              self\<lparr>rg_order := order, rg_challenges := bt_remove expired (rg_challenges self)\<rparr>)
                    else self)
        in (Inr hash, self))"

subsection \<open>The pairing session\<close>

record PairingSession =
  ps_role :: PairingRole
  ps_state :: PairingState
  ps_local :: LongTermIdentity
  ps_remote :: "LongTermIdentity option"
  ps_pairing_id :: PairingId
  ps_protocol_version :: ProtocolVersion
  ps_challenge :: "256 word"
  ps_method :: PairingMethod
  ps_expires_at_unix_ms :: u64
  ps_transcript_hash :: "256 word option"
  ps_short_code :: "bytes option"
  ps_local_confirmed :: bool
  ps_remote_confirmed :: bool
  ps_events :: "PairingEvent list"
  ps_event_capacity :: nat
  ps_dropped_events :: u64

definition PairingSession_emit :: "PairingEvent \<Rightarrow> PairingSession \<Rightarrow> PairingSession" where
  "PairingSession_emit event self =
     (let self = (if length (ps_events self) = ps_event_capacity self
                  then self\<lparr>ps_events := tl (ps_events self), ps_dropped_events := sat_add (ps_dropped_events self) 1\<rparr>
                  else self)
      in self\<lparr>ps_events := ps_events self @ [event]\<rparr>)"

definition PairingSession_set_state :: "PairingState \<Rightarrow> PairingSession \<Rightarrow> PairingSession" where
  "PairingSession_set_state state self = PairingSession_emit (Pe_StateChanged state) (self\<lparr>ps_state := state\<rparr>)"

definition PairingSession_fail :: "PairingErrorKind \<Rightarrow> string \<Rightarrow> PairingSession \<Rightarrow> PairingError \<times> PairingSession" where
  "PairingSession_fail kind message self = (PairingError_new kind message, PairingSession_set_state Ps_Failed self)"

definition PairingSession_complete :: "PairingSession \<Rightarrow> PairingSession" where
  "PairingSession_complete self =
     (let self = PairingSession_set_state Paired self in
      case ps_remote self of
        Some remote \<Rightarrow> PairingSession_emit (Pe_Completed (lti_peer_id remote)) self
      | None \<Rightarrow> self)"

definition PairingSession_check_time :: "u64 \<Rightarrow> PairingSession \<Rightarrow> (PairingError, unit) result \<times> PairingSession" where
  "PairingSession_check_time now_unix_ms self =
     (if now_unix_ms \<ge> ps_expires_at_unix_ms self
      then (Inl (PairingError_new Pk_TimedOut ''pairing session timed out''),
            if \<not> is_terminal (ps_state self) then PairingSession_set_state Ps_TimedOut self else self)
      else (Inr (), self))"

definition PairingSession_ensure_nonterminal :: "PairingSession \<Rightarrow> (PairingError, unit) result" where
  "PairingSession_ensure_nonterminal self = (if is_terminal (ps_state self) then Inl invalid_state else Inr ())"

definition PairingSession_initiator ::
  "LongTermIdentity \<Rightarrow> PairingId \<Rightarrow> ProtocolVersion \<Rightarrow> 256 word \<Rightarrow> PairingMethod \<Rightarrow> u64 \<Rightarrow> bool \<Rightarrow> nat
     \<Rightarrow> (PairingError, PairingSession) result" where
  "PairingSession_initiator local pairing_id protocol_version challenge method expires_at_unix_ms already_trusted event_capacity =
     result_bind (validate_identity local) (\<lambda>_.
     result_bind (validate_new already_trusted expires_at_unix_ms event_capacity) (\<lambda>_.
       Inr \<lparr>ps_role = Pr_Initiator, ps_state = AwaitingResponse, ps_local = local, ps_remote = None,
            ps_pairing_id = pairing_id, ps_protocol_version = protocol_version, ps_challenge = challenge,
            ps_method = method, ps_expires_at_unix_ms = expires_at_unix_ms, ps_transcript_hash = None,
            ps_short_code = None, ps_local_confirmed = False, ps_remote_confirmed = False, ps_events = [],
            ps_event_capacity = event_capacity, ps_dropped_events = 0\<rparr>))"

definition PairingSession_responder ::
  "sha256 \<Rightarrow> LongTermIdentity \<Rightarrow> PairingOffer \<Rightarrow> u64 \<Rightarrow> bool \<Rightarrow> nat
     \<Rightarrow> (PairingError, PairingSession \<times> PairingResponse) result" where
  "PairingSession_responder sha local offer now_unix_ms already_trusted event_capacity =
     result_bind (validate_identity local) (\<lambda>_.
     result_bind (validate_identity (po_initiator offer)) (\<lambda>_.
     result_bind (validate_new already_trusted (po_expires_at_unix_ms offer) event_capacity) (\<lambda>_.
       if now_unix_ms \<ge> po_expires_at_unix_ms offer
       then Inl (PairingError_new Pk_TimedOut ''pairing offer expired'')
       else
         let hash = transcript_hash sha (po_initiator offer) local (po_protocol_version offer) (po_challenge offer) (po_method offer);
             code = short_code hash;
             response = \<lparr>pr_pairing_id = po_pairing_id offer, pr_responder = local, pr_transcript_hash = hash, pr_short_code = code\<rparr>;
             presentation = presentation_of sha (po_initiator offer) code;
             session = \<lparr>ps_role = Pr_Responder, ps_state = AwaitingUserConfirmation, ps_local = local,
               ps_remote = Some (po_initiator offer), ps_pairing_id = po_pairing_id offer,
               ps_protocol_version = po_protocol_version offer, ps_challenge = po_challenge offer,
               ps_method = po_method offer, ps_expires_at_unix_ms = po_expires_at_unix_ms offer,
               ps_transcript_hash = Some hash, ps_short_code = Some code, ps_local_confirmed = False,
               ps_remote_confirmed = False, ps_events = [], ps_event_capacity = event_capacity, ps_dropped_events = 0\<rparr>
         in Inr (PairingSession_emit (Pe_Present presentation) session, response))))"

definition PairingSession_offer :: "PairingSession \<Rightarrow> (PairingError, PairingOffer) result" where
  "PairingSession_offer self =
     (if ps_role self \<noteq> Pr_Initiator \<or> ps_state self \<noteq> AwaitingResponse then Inl invalid_state
      else Inr \<lparr>po_pairing_id = ps_pairing_id self, po_initiator = ps_local self,
                po_protocol_version = ps_protocol_version self, po_challenge = ps_challenge self,
                po_method = ps_method self, po_expires_at_unix_ms = ps_expires_at_unix_ms self\<rparr>)"

definition PairingSession_presentation ::
  "sha256 \<Rightarrow> PairingSession \<Rightarrow> (PairingError, PairingPresentation) result" where
  "PairingSession_presentation sha self =
     result_bind (ok_or invalid_state (ps_remote self)) (\<lambda>remote.
     result_bind (ok_or invalid_state (ps_short_code self)) (\<lambda>code.
       Inr (presentation_of sha remote code)))"

definition PairingSession_receive_response ::
  "sha256 \<Rightarrow> PairingResponse \<Rightarrow> u64 \<Rightarrow> PairingSession \<Rightarrow> (PairingError, unit) result \<times> PairingSession" where
  "PairingSession_receive_response sha response now_unix_ms self =
     (case PairingSession_check_time now_unix_ms self of
        (Inl e, self) \<Rightarrow> (Inl e, self)
      | (Inr _, self) \<Rightarrow>
          if ps_role self \<noteq> Pr_Initiator \<or> ps_state self \<noteq> AwaitingResponse \<or> pr_pairing_id response \<noteq> ps_pairing_id self
          then (case PairingSession_fail Pk_InvalidState ''pairing response is not expected'' self of (e, self) \<Rightarrow> (Inl e, self))
          else
            (case validate_identity (pr_responder response) of
               Inl e \<Rightarrow> (Inl e, self)
             | Inr _ \<Rightarrow>
                 let expected = transcript_hash sha (ps_local self) (pr_responder response) (ps_protocol_version self)
                       (ps_challenge self) (ps_method self) in
                 if pr_transcript_hash response \<noteq> expected \<or> pr_short_code response \<noteq> short_code expected
                 then (case PairingSession_fail Pk_TranscriptMismatch ''pairing transcript does not match'' self of
                         (e, self) \<Rightarrow> (Inl e, self))
                 else
                   let self = self\<lparr>ps_remote := Some (pr_responder response), ps_transcript_hash := Some expected,
                                   ps_short_code := Some (pr_short_code response)\<rparr>;
                       self = PairingSession_set_state AwaitingUserConfirmation self
                   in (case PairingSession_presentation sha self of
                         Inl e \<Rightarrow> (Inl e, self)
                       | Inr presentation \<Rightarrow> (Inr (), PairingSession_emit (Pe_Present presentation) self))))"

definition PairingSession_confirm ::
  "(256 word \<Rightarrow> (PairingError, bytes) result) \<Rightarrow> bytes \<Rightarrow> u64 \<Rightarrow> PairingSession
     \<Rightarrow> (PairingError, PairingConfirmation) result \<times> PairingSession" where
  "PairingSession_confirm sign displayed_code now_unix_ms self =
     (case PairingSession_check_time now_unix_ms self of
        (Inl e, self) \<Rightarrow> (Inl e, self)
      | (Inr _, self) \<Rightarrow>
          if ps_state self \<noteq> AwaitingUserConfirmation then (Inl invalid_state, self)
          else if ps_short_code self \<noteq> Some displayed_code
          then (case PairingSession_fail Pk_CodeMismatch ''pairing short code does not match'' self of (e, self) \<Rightarrow> (Inl e, self))
          else
            (case ps_transcript_hash self of
               None \<Rightarrow> (Inl invalid_state, self)
             | Some hash \<Rightarrow>
                 (case sign hash of
                    Inl e \<Rightarrow> (Inl e, self)
                  | Inr signature \<Rightarrow>
                      let self = self\<lparr>ps_local_confirmed := True\<rparr>;
                          self = (if ps_remote_confirmed self then PairingSession_complete self
                                  else PairingSession_set_state AwaitingPeerConfirmation self)
                      in (Inr \<lparr>pc_pairing_id = ps_pairing_id self, pc_signer_peer_id = lti_peer_id (ps_local self),
                               pc_transcript_hash = hash, pc_signature = signature\<rparr>, self))))"

definition PairingSession_receive_confirmation ::
  "(bytes \<Rightarrow> 256 word \<Rightarrow> bytes \<Rightarrow> bool) \<Rightarrow> PairingConfirmation \<Rightarrow> u64 \<Rightarrow> PairingSession
     \<Rightarrow> (PairingError, unit) result \<times> PairingSession" where
  "PairingSession_receive_confirmation verify confirmation now_unix_ms self =
     (case PairingSession_check_time now_unix_ms self of
        (Inl e, self) \<Rightarrow> (Inl e, self)
      | (Inr _, self) \<Rightarrow>
          if ps_state self \<noteq> AwaitingUserConfirmation \<and> ps_state self \<noteq> AwaitingPeerConfirmation
          then (Inl invalid_state, self)
          else
            (case (ps_remote self, ps_transcript_hash self) of
               (Some remote, Some hash) \<Rightarrow>
                 if pc_pairing_id confirmation \<noteq> ps_pairing_id self
                    \<or> pc_signer_peer_id confirmation \<noteq> lti_peer_id remote \<or> pc_transcript_hash confirmation \<noteq> hash
                 then (case PairingSession_fail Pk_TranscriptMismatch ''pairing confirmation does not match transcript'' self of
                         (e, self) \<Rightarrow> (Inl e, self))
                 else if \<not> verify (lti_public_key remote) hash (pc_signature confirmation)
                 then (case PairingSession_fail Pk_IdentityProofRejected ''pairing identity proof was rejected'' self of
                         (e, self) \<Rightarrow> (Inl e, self))
                 else
                   let self = self\<lparr>ps_remote_confirmed := True\<rparr>
                   in (Inr (), if ps_local_confirmed self then PairingSession_complete self else self)
             | _ \<Rightarrow> (Inl invalid_state, self)))"

definition PairingSession_reject :: "PairingSession \<Rightarrow> (PairingError, PairingTermination) result \<times> PairingSession" where
  "PairingSession_reject self =
     (case PairingSession_ensure_nonterminal self of
        Inl e \<Rightarrow> (Inl e, self)
      | Inr _ \<Rightarrow> (Inr \<lparr>pt_pairing_id = ps_pairing_id self, pt_reason = Term_Rejected\<rparr>, PairingSession_set_state Ps_Rejected self))"

definition PairingSession_cancel :: "PairingSession \<Rightarrow> (PairingError, PairingTermination) result \<times> PairingSession" where
  "PairingSession_cancel self =
     (case PairingSession_ensure_nonterminal self of
        Inl e \<Rightarrow> (Inl e, self)
      | Inr _ \<Rightarrow> (Inr \<lparr>pt_pairing_id = ps_pairing_id self, pt_reason = Term_Cancelled\<rparr>, PairingSession_set_state Ps_Cancelled self))"

definition PairingSession_receive_termination ::
  "PairingTermination \<Rightarrow> PairingSession \<Rightarrow> (PairingError, unit) result \<times> PairingSession" where
  "PairingSession_receive_termination termination self =
     (case PairingSession_ensure_nonterminal self of
        Inl e \<Rightarrow> (Inl e, self)
      | Inr _ \<Rightarrow>
          if pt_pairing_id termination \<noteq> ps_pairing_id self
          then (case PairingSession_fail Pk_TranscriptMismatch ''pairing termination does not match session'' self of
                  (e, self) \<Rightarrow> (Inl e, self))
          else (Inr (), PairingSession_set_state
                  (case pt_reason termination of Term_Rejected \<Rightarrow> Ps_Rejected | Term_Cancelled \<Rightarrow> Ps_Cancelled) self))"

definition PairingSession_tick :: "u64 \<Rightarrow> PairingSession \<Rightarrow> (PairingError, unit) result \<times> PairingSession" where
  "PairingSession_tick now_unix_ms self = PairingSession_check_time now_unix_ms self"

definition PairingSession_drain_events :: "PairingSession \<Rightarrow> PairingEvent list \<times> PairingSession" where
  "PairingSession_drain_events self =
     ((if ps_dropped_events self > 0 then [Pe_EventsDropped (ps_dropped_events self)] else []) @ ps_events self,
      self\<lparr>ps_dropped_events := 0, ps_events := []\<rparr>)"

subsection \<open>Frames\<close>

lemma emit_frame [simp]:
  "ps_role (PairingSession_emit e s) = ps_role s" "ps_state (PairingSession_emit e s) = ps_state s"
  "ps_local (PairingSession_emit e s) = ps_local s" "ps_remote (PairingSession_emit e s) = ps_remote s"
  "ps_pairing_id (PairingSession_emit e s) = ps_pairing_id s"
  "ps_protocol_version (PairingSession_emit e s) = ps_protocol_version s"
  "ps_challenge (PairingSession_emit e s) = ps_challenge s" "ps_method (PairingSession_emit e s) = ps_method s"
  "ps_expires_at_unix_ms (PairingSession_emit e s) = ps_expires_at_unix_ms s"
  "ps_transcript_hash (PairingSession_emit e s) = ps_transcript_hash s"
  "ps_short_code (PairingSession_emit e s) = ps_short_code s"
  "ps_local_confirmed (PairingSession_emit e s) = ps_local_confirmed s"
  "ps_remote_confirmed (PairingSession_emit e s) = ps_remote_confirmed s"
  by (simp_all add: PairingSession_emit_def Let_def)

lemma set_state_frame [simp]:
  "ps_role (PairingSession_set_state st s) = ps_role s" "ps_state (PairingSession_set_state st s) = st"
  "ps_local (PairingSession_set_state st s) = ps_local s" "ps_remote (PairingSession_set_state st s) = ps_remote s"
  "ps_pairing_id (PairingSession_set_state st s) = ps_pairing_id s"
  "ps_protocol_version (PairingSession_set_state st s) = ps_protocol_version s"
  "ps_challenge (PairingSession_set_state st s) = ps_challenge s" "ps_method (PairingSession_set_state st s) = ps_method s"
  "ps_expires_at_unix_ms (PairingSession_set_state st s) = ps_expires_at_unix_ms s"
  "ps_transcript_hash (PairingSession_set_state st s) = ps_transcript_hash s"
  "ps_short_code (PairingSession_set_state st s) = ps_short_code s"
  "ps_local_confirmed (PairingSession_set_state st s) = ps_local_confirmed s"
  "ps_remote_confirmed (PairingSession_set_state st s) = ps_remote_confirmed s"
  by (simp_all add: PairingSession_set_state_def)

lemma complete_frame [simp]:
  "ps_role (PairingSession_complete s) = ps_role s" "ps_state (PairingSession_complete s) = Paired"
  "ps_local (PairingSession_complete s) = ps_local s" "ps_remote (PairingSession_complete s) = ps_remote s"
  "ps_pairing_id (PairingSession_complete s) = ps_pairing_id s"
  "ps_protocol_version (PairingSession_complete s) = ps_protocol_version s"
  "ps_challenge (PairingSession_complete s) = ps_challenge s" "ps_method (PairingSession_complete s) = ps_method s"
  "ps_expires_at_unix_ms (PairingSession_complete s) = ps_expires_at_unix_ms s"
  "ps_transcript_hash (PairingSession_complete s) = ps_transcript_hash s"
  "ps_short_code (PairingSession_complete s) = ps_short_code s"
  "ps_local_confirmed (PairingSession_complete s) = ps_local_confirmed s"
  "ps_remote_confirmed (PairingSession_complete s) = ps_remote_confirmed s"
  by (simp_all add: PairingSession_complete_def Let_def split: option.splits)

subsection \<open>What a paired session rests on\<close>

datatype PairingCmd =
    PcResponse PairingResponse u64 | PcConfirm bytes u64 | PcConfirmation PairingConfirmation u64 | PcReject | PcCancel
  | PcTermination PairingTermination | PcTick u64 | PcDrain

fun pairing_exec ::
  "sha256 \<Rightarrow> (256 word \<Rightarrow> (PairingError, bytes) result) \<Rightarrow> (bytes \<Rightarrow> 256 word \<Rightarrow> bytes \<Rightarrow> bool)
     \<Rightarrow> PairingCmd \<Rightarrow> PairingSession \<Rightarrow> PairingSession" where
  "pairing_exec sha sign verify (PcResponse r now) s = snd (PairingSession_receive_response sha r now s)"
| "pairing_exec sha sign verify (PcConfirm code now) s = snd (PairingSession_confirm sign code now s)"
| "pairing_exec sha sign verify (PcConfirmation c now) s = snd (PairingSession_receive_confirmation verify c now s)"
| "pairing_exec sha sign verify PcReject s = snd (PairingSession_reject s)"
| "pairing_exec sha sign verify PcCancel s = snd (PairingSession_cancel s)"
| "pairing_exec sha sign verify (PcTermination r) s = snd (PairingSession_receive_termination r s)"
| "pairing_exec sha sign verify (PcTick now) s = snd (PairingSession_tick now s)"
| "pairing_exec sha sign verify PcDrain s = snd (PairingSession_drain_events s)"

definition session_transcript :: "sha256 \<Rightarrow> PairingSession \<Rightarrow> LongTermIdentity \<Rightarrow> 256 word" where
  "session_transcript sha s remote =
     (if ps_role s = Pr_Initiator
      then transcript_hash sha (ps_local s) remote (ps_protocol_version s) (ps_challenge s) (ps_method s)
      else transcript_hash sha remote (ps_local s) (ps_protocol_version s) (ps_challenge s) (ps_method s))"

lemma session_transcript_frame [simp]:
  "session_transcript sha (PairingSession_emit e s) r = session_transcript sha s r"
  "session_transcript sha (PairingSession_set_state st s) r = session_transcript sha s r"
  "session_transcript sha (PairingSession_complete s) r = session_transcript sha s r"
  "session_transcript sha (s\<lparr>ps_local_confirmed := b\<rparr>) r = session_transcript sha s r"
  "session_transcript sha (s\<lparr>ps_remote_confirmed := b\<rparr>) r = session_transcript sha s r"
  "session_transcript sha (s\<lparr>ps_remote := x, ps_transcript_hash := y, ps_short_code := z\<rparr>) r = session_transcript sha s r"
  "session_transcript sha (s\<lparr>ps_dropped_events := n, ps_events := es\<rparr>) r = session_transcript sha s r"
  by (simp_all add: session_transcript_def)

text \<open>The user confirmed the code, and the peer's signature was verified, in time.\<close>

definition user_confirmed :: "PairingCmd list \<Rightarrow> u64 \<Rightarrow> 256 word \<Rightarrow> bool" where
  "user_confirmed cmds expires hash \<longleftrightarrow> (\<exists>now. PcConfirm (short_code hash) now \<in> set cmds \<and> now < expires)"

definition peer_confirmed ::
  "(bytes \<Rightarrow> 256 word \<Rightarrow> bytes \<Rightarrow> bool) \<Rightarrow> PairingCmd list \<Rightarrow> u64 \<Rightarrow> PairingId \<Rightarrow> LongTermIdentity \<Rightarrow> 256 word \<Rightarrow> bool" where
  "peer_confirmed verify cmds expires ident remote hash \<longleftrightarrow>
     (\<exists>c now. PcConfirmation c now \<in> set cmds \<and> now < expires \<and> pc_signer_peer_id c = lti_peer_id remote
        \<and> pc_pairing_id c = ident \<and> verify (lti_public_key remote) hash (pc_signature c))"

definition pairing_inv ::
  "sha256 \<Rightarrow> (bytes \<Rightarrow> 256 word \<Rightarrow> bytes \<Rightarrow> bool) \<Rightarrow> PairingCmd list \<Rightarrow> PairingSession \<Rightarrow> bool" where
  "pairing_inv sha verify cmds s \<longleftrightarrow>
     (case ps_remote s of
        None \<Rightarrow> ps_transcript_hash s = None \<and> ps_short_code s = None \<and> \<not> ps_local_confirmed s \<and> \<not> ps_remote_confirmed s
      | Some remote \<Rightarrow>
          ps_state s \<noteq> AwaitingResponse
          \<and> ps_transcript_hash s = Some (session_transcript sha s remote)
          \<and> ps_short_code s = Some (short_code (session_transcript sha s remote))
          \<and> (ps_local_confirmed s \<longrightarrow> user_confirmed cmds (ps_expires_at_unix_ms s) (session_transcript sha s remote))
          \<and> (ps_remote_confirmed s \<longrightarrow>
               peer_confirmed verify cmds (ps_expires_at_unix_ms s) (ps_pairing_id s) remote (session_transcript sha s remote)))
     \<and> (ps_state s = Paired \<longrightarrow> ps_local_confirmed s \<and> ps_remote_confirmed s)"

lemma confirmed_mono:
  "user_confirmed cmds ex h \<Longrightarrow> user_confirmed (cmds @ later) ex h"
  "peer_confirmed verify cmds ex i r h \<Longrightarrow> peer_confirmed verify (cmds @ later) ex i r h"
  by (auto simp: user_confirmed_def peer_confirmed_def)

lemma pairing_inv_mono: "pairing_inv sha verify cmds s \<Longrightarrow> pairing_inv sha verify (cmds @ later) s"
  by (cases "ps_remote s") (auto simp: pairing_inv_def confirmed_mono)

lemma pairing_inv_state:
  "pairing_inv sha verify cmds s \<Longrightarrow> st \<noteq> Paired \<Longrightarrow> st \<noteq> AwaitingResponse
   \<Longrightarrow> pairing_inv sha verify cmds (PairingSession_set_state st s)"
  by (cases "ps_remote s") (auto simp: pairing_inv_def)

lemma pairing_inv_emit [simp]: "pairing_inv sha verify cmds (PairingSession_emit e s) = pairing_inv sha verify cmds s"
  by (cases "ps_remote s") (simp_all add: pairing_inv_def)

lemma check_time_cases [case_names late early, consumes 1]:
  assumes "pairing_inv sha verify cmds s"
  obtains e s1 where "PairingSession_check_time now s = (Inl e, s1)" "pairing_inv sha verify cmds s1"
  | "PairingSession_check_time now s = (Inr (), s)" "now < ps_expires_at_unix_ms s"
proof (cases "now < ps_expires_at_unix_ms s")
  case True
  then show ?thesis by (intro that(2)) (simp_all add: PairingSession_check_time_def not_le)
next
  case False
  have "pairing_inv sha verify cmds (if \<not> is_terminal (ps_state s) then PairingSession_set_state Ps_TimedOut s else s)"
    using assms pairing_inv_state by simp
  with False show ?thesis by (intro that(1)) (auto simp: PairingSession_check_time_def)
qed

lemma receive_response_inv:
  assumes "pairing_inv sha verify cmds s"
  shows "pairing_inv sha verify cmds (snd (PairingSession_receive_response sha r now s))"
  using assms
proof (cases rule: check_time_cases [where now = now])
  case (late e s1)
  then show ?thesis by (simp add: PairingSession_receive_response_def)
next
  case early
  let ?h = "transcript_hash sha (ps_local s) (pr_responder r) (ps_protocol_version s) (ps_challenge s) (ps_method s)"
  show ?thesis
  proof (cases "ps_role s = Pr_Initiator \<and> ps_state s = AwaitingResponse \<and> pr_pairing_id r = ps_pairing_id s
      \<and> is_ok (validate_identity (pr_responder r)) \<and> pr_transcript_hash r = ?h \<and> pr_short_code r = short_code ?h")
    case True
    then have "ps_remote s = None" using assms by (auto simp: pairing_inv_def split: option.splits)
    with True assms show ?thesis
      by (auto simp: PairingSession_receive_response_def early is_ok_iff Let_def PairingSession_presentation_def
          pairing_inv_def session_transcript_def)
  next
    case False
    then show ?thesis
      using assms pairing_inv_state
      by (cases "validate_identity (pr_responder r)")
        (auto simp: PairingSession_receive_response_def early Let_def PairingSession_fail_def)
  qed
qed

lemma confirm_inv:
  assumes "pairing_inv sha verify cmds s"
  shows "pairing_inv sha verify (cmds @ [PcConfirm code now]) (snd (PairingSession_confirm sign code now s))"
  using assms
proof (cases rule: check_time_cases [where now = now])
  case (late e s1)
  then show ?thesis by (simp add: PairingSession_confirm_def pairing_inv_mono)
next
  case early
  note inv' = pairing_inv_mono [OF assms, of "[PcConfirm code now]"]
  show ?thesis
  proof (cases "ps_state s = AwaitingUserConfirmation \<and> ps_short_code s = Some code
      \<and> (\<exists>h sig. ps_transcript_hash s = Some h \<and> sign h = Inr sig)")
    case True
    then obtain remote where r: "ps_remote s = Some remote" using assms by (auto simp: pairing_inv_def split: option.splits)
    with True assms have "code = short_code (session_transcript sha s remote)" by (simp add: pairing_inv_def)
    then have "user_confirmed (cmds @ [PcConfirm code now]) (ps_expires_at_unix_ms s) (session_transcript sha s remote)"
      using early by (auto simp: user_confirmed_def)
    with True r inv' early show ?thesis
      by (cases "ps_remote_confirmed s") (auto simp: PairingSession_confirm_def Let_def pairing_inv_def)
  next
    case False
    then show ?thesis
      using inv' pairing_inv_state early
      by (auto simp: PairingSession_confirm_def Let_def PairingSession_fail_def split: sum.splits option.splits)
  qed
qed

lemma receive_confirmation_inv:
  assumes "pairing_inv sha verify cmds s"
  shows "pairing_inv sha verify (cmds @ [PcConfirmation c now]) (snd (PairingSession_receive_confirmation verify c now s))"
  using assms
proof (cases rule: check_time_cases [where now = now])
  case (late e s1)
  then show ?thesis by (simp add: PairingSession_receive_confirmation_def pairing_inv_mono)
next
  case early
  note inv' = pairing_inv_mono [OF assms, of "[PcConfirmation c now]"]
  show ?thesis
  proof (cases "ps_remote s")
    case None
    with inv' early show ?thesis by (auto simp: PairingSession_receive_confirmation_def)
  next
    case (Some remote)
    let ?h = "session_transcript sha s remote"
    have h: "ps_transcript_hash s = Some ?h" using Some assms by (simp add: pairing_inv_def)
    show ?thesis
    proof (cases "(ps_state s = AwaitingUserConfirmation \<or> ps_state s = AwaitingPeerConfirmation)
        \<and> pc_pairing_id c = ps_pairing_id s \<and> pc_signer_peer_id c = lti_peer_id remote \<and> pc_transcript_hash c = ?h
        \<and> verify (lti_public_key remote) ?h (pc_signature c)")
      case True
      then have "peer_confirmed verify (cmds @ [PcConfirmation c now]) (ps_expires_at_unix_ms s) (ps_pairing_id s) remote ?h"
        using early by (auto simp: peer_confirmed_def)
      with True Some h inv' early show ?thesis
        by (auto simp: PairingSession_receive_confirmation_def Let_def pairing_inv_def)
    next
      case False
      with Some h inv' early pairing_inv_state [OF inv'] show ?thesis
        by (auto simp: PairingSession_receive_confirmation_def PairingSession_fail_def Let_def)
    qed
  qed
qed

lemma pairing_exec_inv:
  assumes "pairing_inv sha verify cmds s"
  shows "pairing_inv sha verify (cmds @ [cmd]) (pairing_exec sha sign verify cmd s)"
proof (cases cmd)
  case (PcResponse r now)
  then show ?thesis using receive_response_inv [OF pairing_inv_mono [OF assms]] by simp
next
  case (PcConfirm code now)
  then show ?thesis using confirm_inv [OF assms] by simp
next
  case (PcConfirmation c now)
  then show ?thesis using receive_confirmation_inv [OF assms] by simp
next
  case (PcTick now)
  have inv': "pairing_inv sha verify (cmds @ [cmd]) s" using assms by (rule pairing_inv_mono)
  from inv' show ?thesis
    by (cases rule: check_time_cases [where now = now]) (use inv' PcTick in \<open>simp_all add: PairingSession_tick_def\<close>)
next
  case PcDrain
  have "pairing_inv sha verify (cmds @ [cmd]) s" using assms by (rule pairing_inv_mono)
  then show ?thesis by (cases "ps_remote s") (auto simp: PcDrain PairingSession_drain_events_def pairing_inv_def)
qed (use pairing_inv_mono [OF assms, of "[cmd]"] in
    \<open>auto simp: PairingSession_reject_def PairingSession_cancel_def PairingSession_receive_termination_def
      PairingSession_ensure_nonterminal_def PairingSession_fail_def pairing_inv_state
      split: PairingTerminationReason.splits\<close>)

text \<open>A session of either role, and the commands given to it.\<close>

inductive pairing_reach ::
  "sha256 \<Rightarrow> (256 word \<Rightarrow> (PairingError, bytes) result) \<Rightarrow> (bytes \<Rightarrow> 256 word \<Rightarrow> bytes \<Rightarrow> bool)
     \<Rightarrow> PairingCmd list \<Rightarrow> PairingSession \<Rightarrow> bool"
  for sha sign verify
where
  initiate: "PairingSession_initiator local ident version challenge method expires trusted capacity = Inr s
    \<Longrightarrow> pairing_reach sha sign verify [] s"
| respond: "PairingSession_responder sha local offer now trusted capacity = Inr (s, response)
    \<Longrightarrow> pairing_reach sha sign verify [] s"
| command: "pairing_reach sha sign verify cmds s
    \<Longrightarrow> pairing_reach sha sign verify (cmds @ [cmd]) (pairing_exec sha sign verify cmd s)"

lemma pairing_reach_inv: "pairing_reach sha sign verify cmds s \<Longrightarrow> pairing_inv sha verify cmds s"
proof (induction rule: pairing_reach.induct)
  case (initiate local ident version challenge how expires trusted capacity s)
  then show ?case by (auto simp: PairingSession_initiator_def result_bind_eq_Inr pairing_inv_def)
next
  case (respond local offer now trusted capacity s response)
  then show ?case
    by (auto simp: PairingSession_responder_def result_bind_eq_Inr Let_def pairing_inv_def session_transcript_def
        split: if_splits)
next
  case (command cmds s cmd)
  then show ?case by (intro pairing_exec_inv)
qed

subsection \<open>The replay guard remembers\<close>

definition guard_ok :: "ReplayGuard \<Rightarrow> bool" where
  "guard_ok g \<longleftrightarrow> distinct (rg_order g) \<and> length (rg_order g) \<le> rg_capacity g \<and> 0 < rg_capacity g
     \<and> (\<forall>h. bt_contains (rg_challenges g) h \<longleftrightarrow> h \<in> set (rg_order g))"

lemma guard_new_ok: "ReplayGuard_new capacity = Inr g \<Longrightarrow> guard_ok g"
  by (auto simp: ReplayGuard_new_def guard_ok_def split: if_splits)

text \<open>The guard refuses every challenge among the last ones it accepted, as many as its capacity.\<close>

lemma reserve_spec:
  assumes "guard_ok g" and "h = sha (to_be_bytes challenge)"
  shows "h \<in> set (rg_order g) \<Longrightarrow> \<exists>e. ReplayGuard_reserve sha challenge g = (Inl e, g)"
    and "h \<notin> set (rg_order g) \<Longrightarrow> \<exists>g'. ReplayGuard_reserve sha challenge g = (Inr h, g') \<and> guard_ok g'
           \<and> rg_order g' = drop (Suc (length (rg_order g)) - rg_capacity g) (rg_order g @ [h])"
proof -
  show "\<exists>e. ReplayGuard_reserve sha challenge g = (Inl e, g)" if "h \<in> set (rg_order g)"
    using assms that by (simp add: guard_ok_def ReplayGuard_reserve_def)
  assume fresh: "h \<notin> set (rg_order g)"
  then have new: "\<not> bt_contains (rg_challenges g) h" using assms(1) by (simp add: guard_ok_def)
  show "\<exists>g'. ReplayGuard_reserve sha challenge g = (Inr h, g') \<and> guard_ok g'
           \<and> rg_order g' = drop (Suc (length (rg_order g)) - rg_capacity g) (rg_order g @ [h])"
  proof (cases "length (rg_order g) < rg_capacity g")
    case True
    with assms new fresh show ?thesis by (auto simp: guard_ok_def ReplayGuard_reserve_def Let_def)
  next
    case False
    with assms(1) obtain x xs where xs: "rg_order g = x # xs" "length (x # xs) = rg_capacity g"
      by (cases "rg_order g") (auto simp: guard_ok_def)
    with assms new fresh show ?thesis by (auto simp: guard_ok_def ReplayGuard_reserve_def Let_def)
  qed
qed

subsection \<open>The transcript is unambiguous\<close>

lemma update_sized_inject:
  assumes "update_sized a @ x = update_sized b @ y" and "length a < 2 ^ 64" and "length b < 2 ^ 64"
  shows "a = b" and "x = y"
proof -
  have "to_be_bytes (of_nat (length a) :: u64) @ a @ x = to_be_bytes (of_nat (length b) :: u64) @ b @ y"
    using assms by (simp add: update_sized_def)
  then have l: "to_be_bytes (of_nat (length a) :: u64) = to_be_bytes (of_nat (length b) :: u64)" and r: "a @ x = b @ y"
    by (simp_all add: append_eq_append_conv)
  have "(of_nat (length a) :: u64) = of_nat (length b)" using l by (simp add: to_be_bytes_inject)
  then have "unat (of_nat (length a) :: u64) = unat (of_nat (length b) :: u64)" by simp
  then have "length a = length b" using assms(2,3) by (simp add: unat_of_nat take_bit_eq_mod)
  with r show "a = b" "x = y" by (simp_all add: append_eq_append_conv)
qed

lemma word_bytes_append_inject:
  "8 dvd LENGTH('a) \<Longrightarrow> to_be_bytes (v :: 'a::len word) @ x = to_be_bytes w @ y \<longleftrightarrow> v = w \<and> x = y"
  by (auto simp: append_eq_append_conv to_be_bytes_inject)

lemma transcript_word_inject:
  "to_be_bytes (v :: 256 word) @ x = to_be_bytes w @ y \<longleftrightarrow> v = w \<and> x = y"
  "to_be_bytes (p :: u16) @ x = to_be_bytes q @ y \<longleftrightarrow> p = q \<and> x = y"
  by (rule word_bytes_append_inject, simp)+

lemma method_code_inject: "method_code a = method_code b \<longleftrightarrow> a = b"
  by (cases a; cases b) (simp_all add: method_code_def)

lemma transcript_bytes_inject:
  assumes "transcript_bytes i r v c m = transcript_bytes i' r' v' c' m'"
    and "length (lti_public_key i) < 2 ^ 64" "length (lti_public_key r) < 2 ^ 64"
    and "length (lti_public_key i') < 2 ^ 64" "length (lti_public_key r') < 2 ^ 64"
  shows "lti_peer_id i = lti_peer_id i' \<and> lti_public_key i = lti_public_key i' \<and> lti_peer_id r = lti_peer_id r'
    \<and> lti_public_key r = lti_public_key r' \<and> v = v' \<and> c = c' \<and> m = m'"
proof -
  let ?rest = "\<lambda>r v c m. to_be_bytes (peer_id_bytes (lti_peer_id r)) @ update_sized (lti_public_key r)
      @ to_be_bytes (major v) @ to_be_bytes (minor v) @ to_be_bytes (c :: 256 word) @ [method_code m]"
  have 1: "lti_peer_id i = lti_peer_id i'" "update_sized (lti_public_key i) @ ?rest r v c m = update_sized (lti_public_key i') @ ?rest r' v' c' m'"
    using assms(1) by (simp_all only: transcript_bytes_def append_assoc same_append_eq transcript_word_inject PeerId.expand)
  note 2 = update_sized_inject [OF 1(2) assms(2,4)]
  have 3: "lti_peer_id r = lti_peer_id r'" "update_sized (lti_public_key r) @ to_be_bytes (major v) @ to_be_bytes (minor v) @ to_be_bytes c @ [method_code m]
      = update_sized (lti_public_key r') @ to_be_bytes (major v') @ to_be_bytes (minor v') @ to_be_bytes c' @ [method_code m']"
    using 2(2) by (simp_all only: append_assoc transcript_word_inject PeerId.expand)
  note 4 = update_sized_inject [OF 3(2) assms(3,5)]
  have "v = v'" "c = c'" "m = m'"
    using 4(2) by (simp_all only: append_assoc transcript_word_inject list.inject method_code_inject ProtocolVersion.expand)
  with 1(1) 2(1) 3(1) 4(1) show ?thesis by simp
qed

subsection \<open>Properties\<close>

text \<open>C20: pairing requires both confirmations. Whatever commands and messages a session of either
  role is given, it is paired only when, before it expired, its user confirmed the short code
  of the transcript of both identities and a confirmation of the peer arrived whose signature
  of that transcript verifies under the peer's public key.\<close>

theorem pairing_requires_both:
  assumes "pairing_reach sha sign verify cmds s" and "ps_state s = Paired"
  shows "\<exists>remote. ps_remote s = Some remote \<and> ps_transcript_hash s = Some (session_transcript sha s remote)
    \<and> (\<exists>now. PcConfirm (short_code (session_transcript sha s remote)) now \<in> set cmds \<and> now < ps_expires_at_unix_ms s)
    \<and> (\<exists>c now. PcConfirmation c now \<in> set cmds \<and> now < ps_expires_at_unix_ms s
         \<and> pc_signer_peer_id c = lti_peer_id remote \<and> pc_pairing_id c = ps_pairing_id s
         \<and> verify (lti_public_key remote) (session_transcript sha s remote) (pc_signature c))"
proof -
  have inv: "pairing_inv sha verify cmds s" using assms(1) by (rule pairing_reach_inv)
  with assms(2) obtain remote where "ps_remote s = Some remote" by (auto simp: pairing_inv_def split: option.splits)
  with inv assms(2) show ?thesis
    by (intro exI [of _ remote]) (simp add: pairing_inv_def user_confirmed_def peer_confirmed_def)
qed

text \<open>C21: the transcript binds the pairing. Two transcripts are the same bytes exactly when both
  identities have the same peer identifier and public key in the same roles and the version,
  the challenge and the method agree; so where the hash does not collide, two sessions with
  equal transcript hashes pair the same two identities. The pairing identifier, the expiry and
  the display names are no part of the transcript, and nothing is claimed of them.\<close>

theorem pairing_transcript_binds:
  assumes "length (lti_public_key i) < 2 ^ 64" "length (lti_public_key r) < 2 ^ 64"
    and "length (lti_public_key i') < 2 ^ 64" "length (lti_public_key r') < 2 ^ 64"
    and "transcript_bytes i r v c m \<noteq> transcript_bytes i' r' v' c' m' \<Longrightarrow>
         sha (transcript_bytes i r v c m) \<noteq> sha (transcript_bytes i' r' v' c' m')"
  shows "transcript_hash sha i r v c m = transcript_hash sha i' r' v' c' m' \<longleftrightarrow>
     lti_peer_id i = lti_peer_id i' \<and> lti_public_key i = lti_public_key i' \<and> lti_peer_id r = lti_peer_id r'
     \<and> lti_public_key r = lti_public_key r' \<and> v = v' \<and> c = c' \<and> m = m'"
proof
  assume "transcript_hash sha i r v c m = transcript_hash sha i' r' v' c' m'"
  then have "transcript_bytes i r v c m = transcript_bytes i' r' v' c' m'" using assms(5) by (auto simp: transcript_hash_def)
  then show "lti_peer_id i = lti_peer_id i' \<and> lti_public_key i = lti_public_key i' \<and> lti_peer_id r = lti_peer_id r'
     \<and> lti_public_key r = lti_public_key r' \<and> v = v' \<and> c = c' \<and> m = m'"
    using assms(1-4) by (rule transcript_bytes_inject)
qed (simp add: transcript_hash_def transcript_bytes_def)

lemma check_time_early: "now < ps_expires_at_unix_ms s \<Longrightarrow> PairingSession_check_time now s = (Inr (), s)"
  by (simp add: PairingSession_check_time_def not_le)

text \<open>A session that waits for its user, with the peer and the transcript known.\<close>

definition awaits_user ::
  "LongTermIdentity \<Rightarrow> LongTermIdentity \<Rightarrow> PairingId \<Rightarrow> u64 \<Rightarrow> 256 word \<Rightarrow> PairingSession \<Rightarrow> bool" where
  "awaits_user own other ident expires h s =
     (ps_state s = AwaitingUserConfirmation \<and> ps_local s = own \<and> ps_remote s = Some other \<and> ps_pairing_id s = ident
      \<and> ps_expires_at_unix_ms s = expires \<and> ps_transcript_hash s = Some h \<and> ps_short_code s = Some (short_code h)
      \<and> \<not> ps_local_confirmed s \<and> \<not> ps_remote_confirmed s)"

text \<open>The session ends paired with the peer when its user confirms and the peer's confirmation
  arrives, in the one order and in the other, and its own confirmation is the same in both.\<close>

definition pairs_in_either_order ::
  "(256 word \<Rightarrow> (PairingError, bytes) result) \<Rightarrow> (bytes \<Rightarrow> 256 word \<Rightarrow> bytes \<Rightarrow> bool) \<Rightarrow> bytes \<Rightarrow> u64 \<Rightarrow> u64
     \<Rightarrow> PairingConfirmation \<Rightarrow> PairingConfirmation \<Rightarrow> LongTermIdentity \<Rightarrow> PairingSession \<Rightarrow> bool" where
  "pairs_in_either_order sign verify code confirm_at receive_at own_confirmation peer_confirmation other s =
     ((\<exists>s1 s2. PairingSession_confirm sign code confirm_at s = (Inr own_confirmation, s1)
         \<and> PairingSession_receive_confirmation verify peer_confirmation receive_at s1 = (Inr (), s2)
         \<and> ps_state s1 = AwaitingPeerConfirmation \<and> ps_state s2 = Paired \<and> ps_remote s2 = Some other)
      \<and> (\<exists>s1 s2. PairingSession_receive_confirmation verify peer_confirmation receive_at s = (Inr (), s1)
         \<and> PairingSession_confirm sign code confirm_at s1 = (Inr own_confirmation, s2)
         \<and> ps_state s1 = AwaitingUserConfirmation \<and> ps_state s2 = Paired \<and> ps_remote s2 = Some other))"

lemma party_pairs:
  assumes "awaits_user own other ident expires h s" and "confirm_at < expires" "receive_at < expires"
    and "sign h = Inr sig" "verify (lti_public_key other) h sig'"
  shows "pairs_in_either_order sign verify (short_code h) confirm_at receive_at
     \<lparr>pc_pairing_id = ident, pc_signer_peer_id = lti_peer_id own, pc_transcript_hash = h, pc_signature = sig\<rparr>
     \<lparr>pc_pairing_id = ident, pc_signer_peer_id = lti_peer_id other, pc_transcript_hash = h, pc_signature = sig'\<rparr> other s"
  using assms
  by (auto simp: pairs_in_either_order_def awaits_user_def PairingSession_confirm_def PairingSession_receive_confirmation_def
      PairingSession_complete_def check_time_early Let_def)

text \<open>C22: an honest ceremony completes. When the responder accepts the initiator's offer, every
  step happens before the expiry, both users confirm the code they are shown and each
  party's signature verifies under its public key, both users are shown the same code and
  both sessions end paired with each other, whether a party's user confirms before the
  confirmation of the other party arrives or after it.\<close>

theorem pairing_completes:
  assumes "PairingSession_initiator I ident version challenge method expires trusted cap = Inr a0"
    and "PairingSession_offer a0 = Inr offer" and "PairingSession_responder sha R offer t0 trusted' cap' = Inr (b0, response)"
    and "t1 < expires" "t2 < expires" "t3 < expires" "t4 < expires" "t5 < expires"
    and "h = transcript_hash sha I R version challenge method"
    and "signI h = Inr sigI" "verify (lti_public_key I) h sigI" "signR h = Inr sigR" "verify (lti_public_key R) h sigR"
  shows "\<exists>a1 ca cb pa pb.
     PairingSession_receive_response sha response t1 a0 = (Inr (), a1)
     \<and> PairingSession_presentation sha a1 = Inr pa \<and> PairingSession_presentation sha b0 = Inr pb
     \<and> pp_short_code pa = pp_short_code pb
     \<and> pairs_in_either_order signI verify (pp_short_code pa) t2 t4 ca cb R a1
     \<and> pairs_in_either_order signR verify (pp_short_code pb) t3 t5 cb ca I b0"
proof -
  have a0: "ps_role a0 = Pr_Initiator" "ps_state a0 = AwaitingResponse" "ps_local a0 = I" "ps_pairing_id a0 = ident"
    "ps_protocol_version a0 = version" "ps_challenge a0 = challenge" "ps_method a0 = method"
    "ps_expires_at_unix_ms a0 = expires" "ps_local_confirmed a0 = False" "ps_remote_confirmed a0 = False"
    using assms(1) by (auto simp: PairingSession_initiator_def result_bind_eq_Inr)
  have offer: "offer = \<lparr>po_pairing_id = ident, po_initiator = I, po_protocol_version = version, po_challenge = challenge,
      po_method = method, po_expires_at_unix_ms = expires\<rparr>"
    using assms(2) a0 by (auto simp: PairingSession_offer_def)
  have R: "validate_identity R = Inr ()" and b0: "awaits_user R I ident expires h b0"
    and response: "response = \<lparr>pr_pairing_id = ident, pr_responder = R, pr_transcript_hash = h, pr_short_code = short_code h\<rparr>"
    using assms(3,9)
    by (auto simp: awaits_user_def PairingSession_responder_def result_bind_eq_Inr Let_def offer split: if_splits)
  define a1 where "a1 = snd (PairingSession_receive_response sha response t1 a0)"
  have a1: "PairingSession_receive_response sha response t1 a0 = (Inr (), a1)" "awaits_user I R ident expires h a1"
    using assms(4) a0 R
    by (simp_all add: a1_def awaits_user_def PairingSession_receive_response_def check_time_early response Let_def
        assms(9) [symmetric] PairingSession_presentation_def)
  have "PairingSession_presentation sha a1 = Inr (presentation_of sha R (short_code h))"
    "PairingSession_presentation sha b0 = Inr (presentation_of sha I (short_code h))"
    using a1 b0 by (simp_all add: awaits_user_def PairingSession_presentation_def)
  moreover have "pp_short_code (presentation_of sha x c) = c" for x c by (simp add: presentation_of_def)
  ultimately show ?thesis
    using a1(1) party_pairs [where sign = signI and verify = verify, OF a1(2) assms(5,7,10,13)]
      party_pairs [where sign = signR and verify = verify, OF b0 assms(6,8,12,11)] by metis
qed

text \<open>A paired session is not final: a response that arrives late fails it.\<close>

lemma late_response_fails_paired:
  assumes "ps_state s = Paired" and "now < ps_expires_at_unix_ms s"
  shows "ps_state (snd (PairingSession_receive_response sha response now s)) = Ps_Failed"
  using assms by (auto simp: PairingSession_receive_response_def PairingSession_check_time_def PairingSession_fail_def)

subsection \<open>Witnesses\<close>

definition sample_identity :: "256 word \<Rightarrow> u8 \<Rightarrow> LongTermIdentity" where
  "sample_identity p k = \<lparr>lti_peer_id = PeerId p, lti_public_key = replicate 16 k, lti_display_name = [65]\<rparr>"

definition sample_offer :: PairingOffer where
  "sample_offer = \<lparr>po_pairing_id = PairingId 9, po_initiator = sample_identity 1 10, po_protocol_version = ProtocolVersion 1 0,
     po_challenge = 77, po_method = ShortCode, po_expires_at_unix_ms = 1000\<rparr>"

text \<open>A signature scheme for the witnesses: a signature is the key repeated before the hash.\<close>

definition sample_sign :: "u8 \<Rightarrow> 256 word \<Rightarrow> (PairingError, bytes) result" where
  "sample_sign k h = Inr (replicate 16 k @ to_be_bytes h)"

definition sample_verify :: "bytes \<Rightarrow> 256 word \<Rightarrow> bytes \<Rightarrow> bool" where
  "sample_verify key h sig = (sig = key @ to_be_bytes h)"

lemma sample_ceremony:
  obtains a0 b0 response where
    "PairingSession_initiator (sample_identity 1 10) (PairingId 9) (ProtocolVersion 1 0) 77 ShortCode 1000 False 4 = Inr a0"
    "PairingSession_offer a0 = Inr sample_offer"
    "PairingSession_responder sha (sample_identity 2 20) sample_offer 5 False 4 = Inr (b0, response)"
  by (simp add: PairingSession_initiator_def PairingSession_offer_def PairingSession_responder_def validate_identity_def
      validate_new_def sample_offer_def sample_identity_def Let_def)

text \<open>C22 witness: two identities, every step at time ten; the initiator confirms before it
  receives the responder's confirmation and the responder after it received the initiator's.\<close>

theorem pairing_completes_witness:
  "\<exists>a0 a1 a2 a3 b0 b1 b2 response code ca cb.
     PairingSession_initiator (sample_identity 1 10) (PairingId 9) (ProtocolVersion 1 0) 77 ShortCode 1000 False 4 = Inr a0
     \<and> PairingSession_offer a0 = Inr sample_offer
     \<and> PairingSession_responder (\<lambda>_. 42) (sample_identity 2 20) sample_offer 5 False 4 = Inr (b0, response)
     \<and> PairingSession_receive_response (\<lambda>_. 42) response 10 a0 = (Inr (), a1)
     \<and> PairingSession_confirm (sample_sign 10) code 10 a1 = (Inr ca, a2)
     \<and> PairingSession_receive_confirmation sample_verify ca 10 b0 = (Inr (), b1)
     \<and> PairingSession_confirm (sample_sign 20) code 10 b1 = (Inr cb, b2) \<and> ps_state b2 = Paired
     \<and> PairingSession_receive_confirmation sample_verify cb 10 a2 = (Inr (), a3) \<and> ps_state a3 = Paired"
proof -
  obtain a0 b0 response where s:
    "PairingSession_initiator (sample_identity 1 10) (PairingId 9) (ProtocolVersion 1 0) 77 ShortCode 1000 False 4 = Inr a0"
    "PairingSession_offer a0 = Inr sample_offer"
    "PairingSession_responder (\<lambda>_. 42) (sample_identity 2 20) sample_offer 5 False 4 = Inr (b0, response)"
    by (rule sample_ceremony)
  have t: "(10 :: u64) < 1000" by simp
  have v: "sample_verify (lti_public_key (sample_identity p k)) h (replicate 16 k @ to_be_bytes h)" for p k h
    by (simp add: sample_verify_def sample_identity_def)
  obtain a1 ca cb pa pb where r: "PairingSession_receive_response (\<lambda>_. 42) response 10 a0 = (Inr (), a1)"
    and "PairingSession_presentation (\<lambda>_. 42) a1 = Inr pa" "PairingSession_presentation (\<lambda>_. 42) b0 = Inr pb"
    and code: "pp_short_code pa = pp_short_code pb"
    and a: "pairs_in_either_order (sample_sign 10) sample_verify (pp_short_code pa) 10 10 ca cb (sample_identity 2 20) a1"
    and b: "pairs_in_either_order (sample_sign 20) sample_verify (pp_short_code pb) 10 10 cb ca (sample_identity 1 10) b0"
    using pairing_completes [where signI = "sample_sign 10" and signR = "sample_sign 20" and verify = sample_verify,
        OF s t t t t t refl sample_sign_def v sample_sign_def v]
    by blast
  from a obtain a2 a3 where "PairingSession_confirm (sample_sign 10) (pp_short_code pa) 10 a1 = (Inr ca, a2)"
    "PairingSession_receive_confirmation sample_verify cb 10 a2 = (Inr (), a3)" "ps_state a3 = Paired"
    by (auto simp: pairs_in_either_order_def)
  moreover from b obtain b1 b2 where "PairingSession_receive_confirmation sample_verify ca 10 b0 = (Inr (), b1)"
    "PairingSession_confirm (sample_sign 20) (pp_short_code pa) 10 b1 = (Inr cb, b2)" "ps_state b2 = Paired"
    by (auto simp: pairs_in_either_order_def code)
  ultimately show ?thesis using s r by blast
qed

text \<open>C20 witness: the responder of the sample ceremony confirms and receives the initiator's confirmation.\<close>

theorem pairing_requires_both_witness:
  "\<exists>cmds s. pairing_reach (\<lambda>_. 42) (sample_sign 20) sample_verify cmds s \<and> ps_state s = Paired
     \<and> (\<exists>remote. ps_remote s = Some remote
          \<and> (\<exists>c now. PcConfirmation c now \<in> set cmds \<and> pc_signer_peer_id c = lti_peer_id remote))"
proof -
  obtain b0 response where b0: "PairingSession_responder (\<lambda>_. 42) (sample_identity 2 20) sample_offer 5 False 4 = Inr (b0, response)"
    by (rule sample_ceremony)
  then have s0: "ps_state b0 = AwaitingUserConfirmation" "ps_remote b0 = Some (sample_identity 1 10)" "ps_pairing_id b0 = PairingId 9"
    "ps_expires_at_unix_ms b0 = 1000" "ps_transcript_hash b0 = Some 42" "ps_short_code b0 = Some (short_code 42)"
    "ps_remote_confirmed b0 = False"
    by (auto simp: PairingSession_responder_def result_bind_eq_Inr Let_def sample_offer_def transcript_hash_def split: if_splits)
  let ?exec = "pairing_exec (\<lambda>_. 42) (sample_sign 20) sample_verify"
  let ?c = "\<lparr>pc_pairing_id = PairingId 9, pc_signer_peer_id = PeerId 1, pc_transcript_hash = 42,
      pc_signature = replicate 16 10 @ to_be_bytes (42 :: 256 word)\<rparr>"
  let ?s1 = "?exec (PcConfirm (short_code 42) 10) b0"
  let ?s2 = "?exec (PcConfirmation ?c 10) ?s1"
  have s1: "ps_state ?s1 = AwaitingPeerConfirmation" "ps_remote ?s1 = Some (sample_identity 1 10)" "ps_pairing_id ?s1 = PairingId 9"
    "ps_expires_at_unix_ms ?s1 = 1000" "ps_transcript_hash ?s1 = Some 42" "ps_local_confirmed ?s1"
    using s0 by (simp_all add: PairingSession_confirm_def check_time_early sample_sign_def Let_def)
  have paired: "ps_state ?s2 = Paired"
    using s1 by (simp add: PairingSession_receive_confirmation_def check_time_early Let_def sample_identity_def sample_verify_def
        del: pairing_exec.simps(2))
  have reach: "pairing_reach (\<lambda>_. 42) (sample_sign 20) sample_verify (([] @ [PcConfirm (short_code 42) 10]) @ [PcConfirmation ?c 10]) ?s2"
    by (intro pairing_reach.command pairing_reach.respond [OF b0])
  from pairing_requires_both [OF reach paired] reach paired show ?thesis by blast
qed

definition sample_sha :: sha256 where
  "sample_sha bs = from_be_bytes (take 32 (drop (length bs - 33) bs))"

lemma sample_sha_transcript: "sample_sha (transcript_bytes i r v c m) = c"
proof -
  have "sample_sha (xs @ to_be_bytes c @ [x]) = c" for xs x by (simp add: sample_sha_def)
  from this [of "map (of_nat \<circ> of_char) ''mutsuki-link-pairing-v1''
     @ to_be_bytes (peer_id_bytes (lti_peer_id i)) @ update_sized (lti_public_key i)
     @ to_be_bytes (peer_id_bytes (lti_peer_id r)) @ update_sized (lti_public_key r)
     @ to_be_bytes (major v) @ to_be_bytes (minor v)" "method_code m"]
  show ?thesis by (simp only: transcript_bytes_def append_assoc)
qed

text \<open>C21 witness: two challenges give two transcripts, under a hash that keeps them apart.\<close>

theorem pairing_transcript_binds_witness:
  "transcript_hash sample_sha (sample_identity 1 10) (sample_identity 2 20) (ProtocolVersion 1 0) 1 ShortCode
   \<noteq> transcript_hash sample_sha (sample_identity 1 10) (sample_identity 2 20) (ProtocolVersion 1 0) 2 ShortCode"
proof -
  have "length (lti_public_key (sample_identity p k)) < 2 ^ 64" for p k by (simp add: sample_identity_def)
  note binds = pairing_transcript_binds [OF this this this this, of 1 10 2 20 "ProtocolVersion 1 0" 1 ShortCode 1 10 2 20
      "ProtocolVersion 1 0" 2 ShortCode sample_sha]
  show ?thesis by (subst binds) (simp_all add: sample_sha_transcript)
qed

end
