(* ===== verification/Link_Trust.thy ===== *)
theory Link_Trust
  imports Link_Pairing "HOL-Library.List_Lexorder"
begin

text \<open>
  Trust records, \<^verbatim>\<open>trust.rs\<close> of the pairing crate, and the record a paired session yields.
  A permission set is a \<^verbatim>\<open>BTreeSet\<close> under the derived order: the constructors in their
  order, then the namespace. A transfer record is what the JSON library reads and writes: the
  JSON text itself is third-party. Slicing a string away from a character boundary panics, so
  the conversion from a transfer record returns \<open>None\<close> there.

  The lemmas show that a valid record survives its transfer record.
\<close>

subsection \<open>Records\<close>

definition DEFAULT_MAX_TRUST_RECORDS :: nat where "DEFAULT_MAX_TRUST_RECORDS = 1024"
definition MAX_TRUST_STORE_FILE_BYTES :: u64 where "MAX_TRUST_STORE_FILE_BYTES = 16 * 1024 * 1024"
definition MAX_PUBLIC_KEY_BYTES :: nat where "MAX_PUBLIC_KEY_BYTES = 4 * 1024"
definition MAX_ALIAS_BYTES :: nat where "MAX_ALIAS_BYTES = 256"
definition MAX_PERMISSIONS :: nat where "MAX_PERMISSIONS = 128"
definition MAX_PERMISSION_NAMESPACE_BYTES :: nat where "MAX_PERMISSION_NAMESPACE_BYTES = 128"
definition MAX_PREVIOUS_KEY_FINGERPRINTS :: nat where "MAX_PREVIOUS_KEY_FINGERPRINTS = 64"

datatype LinkPermission =
    Perm_Connect | Perm_OpenNamespace bytes | Perm_Datagram | Perm_TrackingPublish | Perm_TrackingSubscribe
  | Perm_TrackingNegotiate | Perm_TrackingCalibrationWrite

fun permission_rank :: "LinkPermission \<Rightarrow> nat \<times> bytes" where
  "permission_rank Perm_Connect = (0, [])"
| "permission_rank (Perm_OpenNamespace namespace) = (1, namespace)"
| "permission_rank Perm_Datagram = (2, [])"
| "permission_rank Perm_TrackingPublish = (3, [])"
| "permission_rank Perm_TrackingSubscribe = (4, [])"
| "permission_rank Perm_TrackingNegotiate = (5, [])"
| "permission_rank Perm_TrackingCalibrationWrite = (6, [])"

lemma permission_rank_inject: "permission_rank a = permission_rank b \<Longrightarrow> a = b"
  by (cases a; cases b) simp_all

instantiation LinkPermission :: linorder
begin
definition less_eq_LinkPermission :: "LinkPermission \<Rightarrow> LinkPermission \<Rightarrow> bool" where
  "less_eq_LinkPermission a b = (permission_rank a \<le> permission_rank b)"
definition less_LinkPermission :: "LinkPermission \<Rightarrow> LinkPermission \<Rightarrow> bool" where
  "less_LinkPermission a b = (permission_rank a < permission_rank b)"
instance
  by standard
    (auto simp: less_eq_LinkPermission_def less_LinkPermission_def simp del: less_eq_prod_simp less_prod_simp
      intro: permission_rank_inject)
end

datatype KeyState = Key_Active | Key_Revoked u64 | Key_Rotated u64 PeerId

record TrustRecord =
  tr_peer_id :: PeerId
  tr_public_key :: bytes
  tr_alias :: bytes
  tr_first_paired_at_unix_ms :: u64
  tr_permissions :: "LinkPermission btset"
  tr_key_state :: KeyState
  tr_last_pairing_challenge_hash :: "256 word"
  tr_previous_key_fingerprints :: "256 word list"

definition TrustRecord_public_key_fingerprint :: "sha256 \<Rightarrow> TrustRecord \<Rightarrow> 256 word" where
  "TrustRecord_public_key_fingerprint sha self = sha (tr_public_key self)"

definition TrustRecord_is_active :: "TrustRecord \<Rightarrow> bool" where
  "TrustRecord_is_active self = (tr_key_state self = Key_Active)"

datatype TrustStoreErrorKind =
    Ts_Io | Ts_Corrupt | Ts_Unavailable | Ts_UnknownPeer | Ts_Revoked | Ts_Rotated | Ts_IdentityMismatch | Ts_Conflict
  | Ts_LimitExceeded

record TrustStoreError =
  ts_kind :: TrustStoreErrorKind
  ts_public_message :: string

definition TrustStoreError_new :: "TrustStoreErrorKind \<Rightarrow> string \<Rightarrow> TrustStoreError" where
  "TrustStoreError_new kind public_message = \<lparr>ts_kind = kind, ts_public_message = public_message\<rparr>"

definition validate_record :: "TrustRecord \<Rightarrow> (TrustStoreError, unit) result" where
  "validate_record rec =
     (if tr_public_key rec = [] \<or> length (tr_public_key rec) > MAX_PUBLIC_KEY_BYTES
         \<or> tr_alias rec = [] \<or> length (tr_alias rec) > MAX_ALIAS_BYTES
         \<or> bt_len (tr_permissions rec) > MAX_PERMISSIONS
         \<or> length (tr_previous_key_fingerprints rec) > MAX_PREVIOUS_KEY_FINGERPRINTS
         \<or> list_ex
             (\<lambda>permission. case permission of
                Perm_OpenNamespace namespace \<Rightarrow> namespace = [] \<or> length namespace > MAX_PERMISSION_NAMESPACE_BYTES
              | _ \<Rightarrow> False) (map fst (bt_entries (tr_permissions rec)))
      then Inl (TrustStoreError_new Ts_LimitExceeded ''trust record exceeds configured limits'')
      else Inr ())"

definition unknown_peer :: TrustStoreError where
  "unknown_peer = TrustStoreError_new Ts_UnknownPeer ''peer has no trust record''"

text \<open>The store is used through \<^verbatim>\<open>get\<close>.\<close>

definition authorize_trusted_reconnect ::
  "('s \<Rightarrow> PeerId \<Rightarrow> (TrustStoreError, TrustRecord option) result) \<Rightarrow> 's \<Rightarrow> PeerId \<Rightarrow> bytes
     \<Rightarrow> (TrustStoreError, TrustRecord) result" where
  "authorize_trusted_reconnect get store peer_id presented_public_key =
     result_bind (get store peer_id) (\<lambda>found.
     result_bind (ok_or unknown_peer found) (\<lambda>rec.
     result_bind (validate_record rec) (\<lambda>_.
       case tr_key_state rec of
         Key_Revoked _ \<Rightarrow> Inl (TrustStoreError_new Ts_Revoked ''peer trust has been revoked'')
       | Key_Rotated _ _ \<Rightarrow> Inl (TrustStoreError_new Ts_Rotated ''peer identity key was rotated'')
       | Key_Active \<Rightarrow>
           if tr_public_key rec \<noteq> presented_public_key
           then Inl (TrustStoreError_new Ts_IdentityMismatch ''peer public key does not match trust record'')
           else Inr rec)))"

definition PairingSession_trust_record ::
  "sha256 \<Rightarrow> bytes \<Rightarrow> LinkPermission btset \<Rightarrow> u64 \<Rightarrow> PairingSession \<Rightarrow> (PairingError, TrustRecord) result" where
  "PairingSession_trust_record sha alias permissions now_unix_ms self =
     (if ps_state self \<noteq> Paired \<or> alias = [] then Inl invalid_state
      else
        result_bind (ok_or invalid_state (ps_remote self)) (\<lambda>remote.
          Inr \<lparr>tr_peer_id = lti_peer_id remote, tr_public_key = lti_public_key remote, tr_alias = alias,
               tr_first_paired_at_unix_ms = now_unix_ms, tr_permissions = permissions, tr_key_state = Key_Active,
               tr_last_pairing_challenge_hash = sha (to_be_bytes (ps_challenge self)),
               tr_previous_key_fingerprints = []\<rparr>))"

subsection \<open>Transfer records\<close>

datatype PermissionDto =
    Pd_Connect | Pd_OpenNamespace bytes | Pd_Datagram | Pd_TrackingPublish | Pd_TrackingSubscribe
  | Pd_TrackingNegotiate | Pd_TrackingCalibrationWrite

fun permission_from_dto :: "PermissionDto \<Rightarrow> LinkPermission" where
  "permission_from_dto Pd_Connect = Perm_Connect"
| "permission_from_dto (Pd_OpenNamespace namespace) = Perm_OpenNamespace namespace"
| "permission_from_dto Pd_Datagram = Perm_Datagram"
| "permission_from_dto Pd_TrackingPublish = Perm_TrackingPublish"
| "permission_from_dto Pd_TrackingSubscribe = Perm_TrackingSubscribe"
| "permission_from_dto Pd_TrackingNegotiate = Perm_TrackingNegotiate"
| "permission_from_dto Pd_TrackingCalibrationWrite = Perm_TrackingCalibrationWrite"

fun permission_to_dto :: "LinkPermission \<Rightarrow> PermissionDto" where
  "permission_to_dto Perm_Connect = Pd_Connect"
| "permission_to_dto (Perm_OpenNamespace namespace) = Pd_OpenNamespace namespace"
| "permission_to_dto Perm_Datagram = Pd_Datagram"
| "permission_to_dto Perm_TrackingPublish = Pd_TrackingPublish"
| "permission_to_dto Perm_TrackingSubscribe = Pd_TrackingSubscribe"
| "permission_to_dto Perm_TrackingNegotiate = Pd_TrackingNegotiate"
| "permission_to_dto Perm_TrackingCalibrationWrite = Pd_TrackingCalibrationWrite"

datatype KeyStateDto = Kd_Active | Kd_Revoked u64 | Kd_Rotated u64 bytes

record RecordDto =
  dto_peer_id :: bytes
  dto_public_key :: bytes
  dto_alias :: bytes
  dto_first_paired_at_unix_ms :: u64
  dto_permissions :: "PermissionDto list"
  dto_key_state :: KeyStateDto
  dto_last_pairing_challenge_hash :: bytes
  dto_previous_key_fingerprints :: "bytes list"

definition corrupt :: TrustStoreError where
  "corrupt = TrustStoreError_new Ts_Corrupt ''trust store data is invalid''"

definition hex_digit :: "u8 \<Rightarrow> u8" where
  "hex_digit n = (if n < 10 then 48 + n else 87 + n)"

definition encode_hex :: "bytes \<Rightarrow> bytes" where
  "encode_hex bs = concat (map (\<lambda>b. [hex_digit (b div 16), hex_digit (b mod 16)]) bs)"

definition to_digit :: "u8 \<Rightarrow> u8 option" where
  "to_digit c =
     (if 48 \<le> c \<and> c \<le> 57 then Some (c - 48)
      else if 97 \<le> c \<and> c \<le> 102 then Some (c - 87)
      else if 65 \<le> c \<and> c \<le> 70 then Some (c - 55)
      else None)"

text \<open>\<^verbatim>\<open>u8::from_str_radix\<close> of base sixteen on two bytes: a leading plus sign is allowed.\<close>

definition from_str_radix_16 :: "u8 \<Rightarrow> u8 \<Rightarrow> u8 option" where
  "from_str_radix_16 a b =
     (if a = 43 then to_digit b
      else case (to_digit a, to_digit b) of (Some x, Some y) \<Rightarrow> Some (x * 16 + y) | _ \<Rightarrow> None)"

text \<open>Slicing a string panics, here \<open>None\<close>, where the slice does not start and end at a
  character; a continuation byte of UTF-8 has the top bits one and zero.\<close>

definition is_char_boundary :: "bytes \<Rightarrow> nat \<Rightarrow> bool" where
  "is_char_boundary s i = (i = 0 \<or> i = length s \<or> i < length s \<and> s ! i AND 192 \<noteq> 128)"

fun decode_hex_loop :: "bytes \<Rightarrow> nat \<Rightarrow> nat \<Rightarrow> (TrustStoreError, bytes) result option" where
  "decode_hex_loop value 0 index = Some (Inr [])"
| "decode_hex_loop value (Suc n) index =
     (let offset = index * 2 in
      if \<not> is_char_boundary value offset \<or> \<not> is_char_boundary value (offset + 2) then None
      else
        case from_str_radix_16 (value ! offset) (value ! (offset + 1)) of
          None \<Rightarrow> Some (Inl corrupt)
        | Some byte \<Rightarrow>
            map_option (\<lambda>r. result_bind r (\<lambda>bs. Inr (byte # bs))) (decode_hex_loop value n (Suc index)))"

definition decode_hex_32 :: "bytes \<Rightarrow> (TrustStoreError, 256 word) result option" where
  "decode_hex_32 value =
     (if length value \<noteq> 64 then Some (Inl corrupt)
      else map_option (\<lambda>r. result_bind r (\<lambda>bs. Inr (from_be_bytes bs))) (decode_hex_loop value 32 0))"

definition decode_peer_id :: "bytes \<Rightarrow> (TrustStoreError, PeerId) result option" where
  "decode_peer_id value = map_option (\<lambda>r. result_bind r (\<lambda>w. Inr (PeerId w))) (decode_hex_32 value)"

definition decode_32 :: "bytes \<Rightarrow> (TrustStoreError, 256 word) result" where
  "decode_32 value = (if length value = 32 then Inr (from_be_bytes value) else Inl corrupt)"

fun decode_32s :: "bytes list \<Rightarrow> (TrustStoreError, 256 word list) result" where
  "decode_32s [] = Inr []"
| "decode_32s (v # vs) = result_bind (decode_32 v) (\<lambda>w. result_bind (decode_32s vs) (\<lambda>ws. Inr (w # ws)))"

text \<open>A panic, \<open>None\<close>, ends the conversion; an error is returned.\<close>

definition panic_bind :: "('e, 'a) result option \<Rightarrow> ('a \<Rightarrow> ('e, 'b) result option) \<Rightarrow> ('e, 'b) result option" where
  "panic_bind r f = (case r of None \<Rightarrow> None | Some (Inl e) \<Rightarrow> Some (Inl e) | Some (Inr x) \<Rightarrow> f x)"

definition key_state_from_dto :: "KeyStateDto \<Rightarrow> (TrustStoreError, KeyState) result option" where
  "key_state_from_dto k =
     (case k of
        Kd_Active \<Rightarrow> Some (Inr Key_Active)
      | Kd_Revoked t \<Rightarrow> Some (Inr (Key_Revoked t))
      | Kd_Rotated t new_peer_id \<Rightarrow> panic_bind (decode_peer_id new_peer_id) (\<lambda>p. Some (Inr (Key_Rotated t p))))"

definition TrustRecord_try_from :: "RecordDto \<Rightarrow> (TrustStoreError, TrustRecord) result option" where
  "TrustRecord_try_from value =
     panic_bind (decode_peer_id (dto_peer_id value)) (\<lambda>peer_id.
     panic_bind (Some (decode_32 (dto_last_pairing_challenge_hash value))) (\<lambda>challenge.
     panic_bind (Some (decode_32s (dto_previous_key_fingerprints value))) (\<lambda>fingerprints.
     panic_bind (key_state_from_dto (dto_key_state value)) (\<lambda>key_state.
       let rec = \<lparr>tr_peer_id = peer_id, tr_public_key = dto_public_key value, tr_alias = dto_alias value,
             tr_first_paired_at_unix_ms = dto_first_paired_at_unix_ms value,
             tr_permissions = bs_of_list (map permission_from_dto (dto_permissions value)), tr_key_state = key_state,
             tr_last_pairing_challenge_hash = challenge, tr_previous_key_fingerprints = fingerprints\<rparr>
       in Some (result_bind (validate_record rec) (\<lambda>_. Inr rec))))))"

definition key_state_to_dto :: "KeyState \<Rightarrow> KeyStateDto" where
  "key_state_to_dto k =
     (case k of
        Key_Active \<Rightarrow> Kd_Active
      | Key_Revoked t \<Rightarrow> Kd_Revoked t
      | Key_Rotated t p \<Rightarrow> Kd_Rotated t (encode_hex (to_be_bytes (peer_id_bytes p))))"

definition RecordDto_from :: "TrustRecord \<Rightarrow> RecordDto" where
  "RecordDto_from value =
     \<lparr>dto_peer_id = encode_hex (to_be_bytes (peer_id_bytes (tr_peer_id value))), dto_public_key = tr_public_key value,
      dto_alias = tr_alias value, dto_first_paired_at_unix_ms = tr_first_paired_at_unix_ms value,
      dto_permissions = map permission_to_dto (map fst (bt_entries (tr_permissions value))),
      dto_key_state = key_state_to_dto (tr_key_state value),
      dto_last_pairing_challenge_hash = to_be_bytes (tr_last_pairing_challenge_hash value),
      dto_previous_key_fingerprints = map to_be_bytes (tr_previous_key_fingerprints value)\<rparr>"

subsection \<open>Hexadecimal digits\<close>

lemma nibble_cases:
  assumes "n < (16 :: u8)"
  obtains k where "k < 16" "n = of_nat k"
  using assms that [of "unat n"] by (simp add: word_less_nat_alt)

lemma hex_digits_table:
  "list_all (\<lambda>n. to_digit (hex_digit n) = Some n \<and> hex_digit n \<noteq> 43 \<and> hex_digit n AND 192 \<noteq> 128)
     (map (of_nat :: nat \<Rightarrow> u8) [0..<16])"
  by code_simp

lemma hex_digit_ok:
  assumes "n < (16 :: u8)"
  shows "to_digit (hex_digit n) = Some n" and "hex_digit n \<noteq> 43" and "hex_digit n AND 192 \<noteq> 128"
proof -
  from assms obtain k where "k < 16" "n = of_nat k" by (rule nibble_cases)
  then have "n \<in> set (map (of_nat :: nat \<Rightarrow> u8) [0..<16])" by (simp only: set_map set_upt) auto
  then show "to_digit (hex_digit n) = Some n" "hex_digit n \<noteq> 43" "hex_digit n AND 192 \<noteq> 128"
    using hex_digits_table unfolding list_all_iff by blast+
qed

lemma nibbles: "(b :: u8) div 16 < 16" "b mod 16 < 16"
  using unat_u8_lt [of b] by (simp_all add: word_less_nat_alt unat_div unat_mod less_mult_imp_div_less)

lemma hex_pair: "from_str_radix_16 (hex_digit (b div 16)) (hex_digit (b mod 16)) = Some b"
proof -
  have "(b :: u8) div 16 * 16 + b mod 16 = b" by (rule div_mult_mod_eq)
  then show ?thesis
    using hex_digit_ok [OF nibbles(1), of b] hex_digit_ok [OF nibbles(2), of b]
    by (simp add: from_str_radix_16_def)
qed

lemma encode_hex_nth:
  "i < length bs \<Longrightarrow> encode_hex bs ! (2 * i) = hex_digit (bs ! i div 16) \<and> encode_hex bs ! Suc (2 * i) = hex_digit (bs ! i mod 16)"
proof (induction bs arbitrary: i)
  case (Cons b bs)
  then show ?case by (cases i) (auto simp: encode_hex_def)
qed simp

lemma encode_hex_length [simp]: "length (encode_hex bs) = 2 * length bs"
  by (induction bs) (simp_all add: encode_hex_def)

lemma encode_hex_boundary: "i \<le> length (encode_hex bs) \<Longrightarrow> is_char_boundary (encode_hex bs) i"
proof -
  have "c AND 192 \<noteq> 128" if "c \<in> set (encode_hex bs)" for c
    using that hex_digit_ok(3) [OF nibbles(1)] hex_digit_ok(3) [OF nibbles(2)] by (auto simp: encode_hex_def)
  then show "i \<le> length (encode_hex bs) \<Longrightarrow> is_char_boundary (encode_hex bs) i"
    by (auto simp: is_char_boundary_def)
qed

lemma decode_hex_loop_encode:
  "i + n = length bs \<Longrightarrow> decode_hex_loop (encode_hex bs) n i = Some (Inr (drop i bs))"
proof (induction n arbitrary: i)
  case (Suc n)
  then have i: "i < length bs" by simp
  then have "drop i bs = bs ! i # drop (Suc i) bs" by (simp add: Cons_nth_drop_Suc)
  moreover have "decode_hex_loop (encode_hex bs) n (Suc i) = Some (Inr (drop (Suc i) bs))" using Suc by simp
  ultimately show ?case
    using encode_hex_nth [OF i] encode_hex_boundary [of "i * 2" bs] encode_hex_boundary [of "i * 2 + 2" bs] i
    by (simp add: hex_pair mult.commute [of i 2])
qed simp

lemma decode_peer_id_encode: "decode_peer_id (encode_hex (to_be_bytes (peer_id_bytes p))) = Some (Inr p)"
  using decode_hex_loop_encode [of 0 32 "to_be_bytes (peer_id_bytes p)"]
  by (simp add: decode_peer_id_def decode_hex_32_def)

subsection \<open>Records survive their transfer\<close>

lemma panic_bind_simps [simp]:
  "panic_bind None f = None" "panic_bind (Some (Inl e)) f = Some (Inl e)" "panic_bind (Some (Inr x)) f = f x"
  by (simp_all add: panic_bind_def)

lemma decode_32s_encode: "decode_32s (map to_be_bytes ws) = Inr ws"
  by (induction ws) (simp_all add: decode_32_def)

lemma key_state_roundtrip: "key_state_from_dto (key_state_to_dto k) = Some (Inr k)"
  by (cases k) (simp_all add: key_state_from_dto_def key_state_to_dto_def decode_peer_id_encode)

lemma permission_roundtrip [simp]: "permission_from_dto (permission_to_dto p) = p"
  by (cases p) simp_all

lemma bs_of_keys: "bs_of_list (map fst (bt_entries ps)) = ps"
proof (rule bt_eqI)
  fix p
  have "bt_contains (bs_of_list (map fst (bt_entries ps))) p = bt_contains ps p"
    by (simp only: bs_of_list_contains set_map bt_keys_eq mem_Collect_eq) (simp only: bt_contains_def)
  then show "bt_get (bs_of_list (map fst (bt_entries ps))) p = bt_get ps p"
    by (cases "bt_get ps p"; cases "bt_get (bs_of_list (map fst (bt_entries ps))) p") (auto simp: bt_contains_def)
qed

lemma permissions_roundtrip:
  "bs_of_list (map permission_from_dto (map permission_to_dto (map fst (bt_entries ps)))) = ps"
  by (simp add: comp_def bs_of_keys)

lemma record_roundtrip:
  assumes "validate_record r = Inr ()"
  shows "TrustRecord_try_from (RecordDto_from r) = Some (Inr r)"
proof -
  have eta: "\<lparr>tr_peer_id = tr_peer_id r, tr_public_key = tr_public_key r, tr_alias = tr_alias r,
      tr_first_paired_at_unix_ms = tr_first_paired_at_unix_ms r, tr_permissions = tr_permissions r,
      tr_key_state = tr_key_state r, tr_last_pairing_challenge_hash = tr_last_pairing_challenge_hash r,
      tr_previous_key_fingerprints = tr_previous_key_fingerprints r\<rparr> = r"
    by simp
  show ?thesis
    using assms permissions_roundtrip [of "tr_permissions r"]
    by (simp add: TrustRecord_try_from_def RecordDto_from_def decode_peer_id_encode decode_32_def decode_32s_encode
      key_state_roundtrip Let_def eta)
qed

end
