(* ===== verification/Link_Trust_Store.thy ===== *)
theory Link_Trust_Store
  imports Link_Trust
begin

text \<open>
  The file trust store, \<^verbatim>\<open>file_store.rs\<close> of the pairing crate. The file system is the
  environment's: opening takes what the path holds, and each operation that persists takes the
  outcome of every file operation it makes (\<open>StoreIo\<close>), with the platform it runs on. The store
  carries the bytes its path holds, so that a failed write shows: on Unix the file is replaced by
  one rename, on Windows the old file is removed before the rename. The JSON encoder and decoder
  of \<^verbatim>\<open>serde_json\<close> are the arguments \<open>to_json\<close> and \<open>from_json\<close>.

  The locale \<open>trust_store\<close> is the contract of the \<^verbatim>\<open>TrustStore\<close> trait: what a lookup
  returns after each operation, and that a refused operation changes no record. Who is authorised
  to reconnect after each operation is proved in it once, and the file store interprets it.
\<close>

record FileTrustStore =
  fts_records :: "(PeerId, TrustRecord) btree"
  fts_max_records :: nat
  fts_file :: "bytes option"

definition limit_error :: TrustStoreError where
  "limit_error = TrustStoreError_new Ts_LimitExceeded ''trust store limit exceeded''"

definition invalid_store :: TrustStoreError where
  "invalid_store = TrustStoreError_new Ts_Corrupt ''trust store file is invalid''"

definition io_error :: TrustStoreError where
  "io_error = TrustStoreError_new Ts_Io ''trust store I/O failed''"

text \<open>What the environment answers to one write of the file: whether it runs on Windows,
  whether the directory and the temporary file could be created, whether the encoder wrote the
  records, whether the newline was written, flushed and synchronised, and whether removing the
  old file and renaming the temporary one succeeded.\<close>

record StoreIo =
  sio_windows :: bool
  sio_prepared :: bool
  sio_encoded :: bool
  sio_flushed :: bool
  sio_removed :: bool
  sio_renamed :: bool

definition remove_before_rename :: "StoreIo \<Rightarrow> FileTrustStore \<Rightarrow> (TrustStoreError, unit) result \<times> FileTrustStore" where
  "remove_before_rename io self =
     (if sio_windows io \<and> fts_file self \<noteq> None
      then if sio_removed io then (Inr (), self\<lparr>fts_file := None\<rparr>) else (Inl io_error, self)
      else (Inr (), self))"

definition FileTrustStore_persist ::
  "(RecordDto list \<Rightarrow> bytes) \<Rightarrow> StoreIo \<Rightarrow> (PeerId, TrustRecord) btree \<Rightarrow> FileTrustStore
     \<Rightarrow> (TrustStoreError, unit) result \<times> FileTrustStore" where
  "FileTrustStore_persist to_json io records self =
     (if \<not> sio_prepared io then (Inl io_error, self)
      else
        let dtos = map RecordDto_from (bt_values records)
        in if \<not> sio_encoded io then (Inl invalid_store, self)
           else if \<not> sio_flushed io then (Inl io_error, self)
           else
             let temporary = to_json dtos @ [10]
             in (case remove_before_rename io self of
                   (Inl e, self) \<Rightarrow> (Inl e, self)
                 | (Inr _, self) \<Rightarrow>
                     if sio_renamed io then (Inr (), self\<lparr>fts_file := Some temporary\<rparr>) else (Inl io_error, self)))"

definition FileTrustStore_replace ::
  "(RecordDto list \<Rightarrow> bytes) \<Rightarrow> StoreIo \<Rightarrow> (PeerId, TrustRecord) btree \<Rightarrow> FileTrustStore \<Rightarrow> (TrustStoreError, unit) result \<times> FileTrustStore" where
  "FileTrustStore_replace to_json io records self =
     (case FileTrustStore_persist to_json io records self of
        (Inl e, self) \<Rightarrow> (Inl e, self)
      | (Inr _, self) \<Rightarrow> (Inr (), self\<lparr>fts_records := records\<rparr>))"

fun collect_records :: "RecordDto list \<Rightarrow> (TrustStoreError, (PeerId \<times> TrustRecord) list) result option" where
  "collect_records [] = Some (Inr [])"
| "collect_records (dto # dtos) =
     panic_bind (TrustRecord_try_from dto) (\<lambda>rec.
     panic_bind (collect_records dtos) (\<lambda>recs. Some (Inr ((tr_peer_id rec, rec) # recs))))"

text \<open>What the path holds: nothing, a file whose metadata cannot be read, or a file with its
  bytes and how far opening and reading it gets.\<close>

datatype ReadOutcome = Read_Whole | Open_Failed | Read_Failed

datatype StoreFile = File_Absent | File_No_Metadata | File_Present bytes ReadOutcome

definition FileTrustStore_open_with_limit ::
  "(RecordDto list \<Rightarrow> bytes) \<Rightarrow> (bytes \<Rightarrow> RecordDto list option) \<Rightarrow> StoreFile \<Rightarrow> StoreIo \<Rightarrow> nat
     \<Rightarrow> (TrustStoreError, FileTrustStore) result option" where
  "FileTrustStore_open_with_limit to_json from_json path io max_records =
     (if max_records = 0 then Some (Inl limit_error)
      else
        case path of
          File_No_Metadata \<Rightarrow> Some (Inl io_error)
        | File_Present file outcome \<Rightarrow>
            if length file > unat MAX_TRUST_STORE_FILE_BYTES then Some (Inl limit_error)
            else if outcome = Open_Failed then Some (Inl io_error)
            else
              (case (if outcome = Read_Failed then None else from_json file) of
                 None \<Rightarrow> Some (Inl invalid_store)
               | Some dtos \<Rightarrow>
                   if length dtos > max_records then Some (Inl limit_error)
                   else
                     panic_bind (collect_records dtos) (\<lambda>recs.
                       Some (Inr \<lparr>fts_records = fold (\<lambda>(k, v). bt_insert k v) recs bt_empty,
                                  fts_max_records = max_records, fts_file = Some file\<rparr>)))
        | File_Absent \<Rightarrow>
            let store = \<lparr>fts_records = bt_empty, fts_max_records = max_records, fts_file = None\<rparr>
            in (case FileTrustStore_persist to_json io (fts_records store) store of
                  (Inl e, _) \<Rightarrow> Some (Inl e)
                | (Inr _, store) \<Rightarrow> Some (Inr store)))"

definition FileTrustStore_open ::
  "(RecordDto list \<Rightarrow> bytes) \<Rightarrow> (bytes \<Rightarrow> RecordDto list option) \<Rightarrow> StoreFile \<Rightarrow> StoreIo
     \<Rightarrow> (TrustStoreError, FileTrustStore) result option" where
  "FileTrustStore_open to_json from_json path io =
     FileTrustStore_open_with_limit to_json from_json path io DEFAULT_MAX_TRUST_RECORDS"

definition FileTrustStore_get :: "FileTrustStore \<Rightarrow> PeerId \<Rightarrow> (TrustStoreError, TrustRecord option) result" where
  "FileTrustStore_get self peer_id = Inr (bt_get (fts_records self) peer_id)"

definition FileTrustStore_list :: "FileTrustStore \<Rightarrow> (TrustStoreError, TrustRecord list) result" where
  "FileTrustStore_list self = Inr (bt_values (fts_records self))"

definition FileTrustStore_upsert ::
  "(RecordDto list \<Rightarrow> bytes) \<Rightarrow> StoreIo \<Rightarrow> TrustRecord \<Rightarrow> FileTrustStore \<Rightarrow> (TrustStoreError, unit) result \<times> FileTrustStore" where
  "FileTrustStore_upsert to_json io rec self =
     (case validate_record rec of
        Inl e \<Rightarrow> (Inl e, self)
      | Inr _ \<Rightarrow>
          if \<not> bt_contains (fts_records self) (tr_peer_id rec) \<and> bt_len (fts_records self) \<ge> fts_max_records self
          then (Inl limit_error, self)
          else FileTrustStore_replace to_json io (bt_insert (tr_peer_id rec) rec (fts_records self)) self)"

definition FileTrustStore_remove ::
  "(RecordDto list \<Rightarrow> bytes) \<Rightarrow> StoreIo \<Rightarrow> PeerId \<Rightarrow> FileTrustStore \<Rightarrow> (TrustStoreError, bool) result \<times> FileTrustStore" where
  "FileTrustStore_remove to_json io peer_id self =
     (if bt_contains (fts_records self) peer_id
      then
        (case FileTrustStore_replace to_json io (bt_remove peer_id (fts_records self)) self of
           (Inl e, self) \<Rightarrow> (Inl e, self)
         | (Inr _, self) \<Rightarrow> (Inr True, self))
      else (Inr False, self))"

definition FileTrustStore_revoke ::
  "(RecordDto list \<Rightarrow> bytes) \<Rightarrow> StoreIo \<Rightarrow> PeerId \<Rightarrow> u64 \<Rightarrow> FileTrustStore \<Rightarrow> (TrustStoreError, unit) result \<times> FileTrustStore" where
  "FileTrustStore_revoke to_json io peer_id now_unix_ms self =
     (case bt_get (fts_records self) peer_id of
        None \<Rightarrow> (Inl unknown_peer, self)
      | Some rec \<Rightarrow>
          FileTrustStore_replace to_json io (bt_insert peer_id (rec\<lparr>tr_key_state := Key_Revoked now_unix_ms\<rparr>) (fts_records self)) self)"

definition FileTrustStore_rotate ::
  "sha256 \<Rightarrow> (RecordDto list \<Rightarrow> bytes) \<Rightarrow> StoreIo \<Rightarrow> PeerId \<Rightarrow> PeerId \<Rightarrow> bytes \<Rightarrow> 256 word \<Rightarrow> u64 \<Rightarrow> FileTrustStore
     \<Rightarrow> (TrustStoreError, TrustRecord) result \<times> FileTrustStore" where
  "FileTrustStore_rotate sha to_json io old_peer_id new_peer_id new_public_key challenge_hash now_unix_ms self =
     (if new_public_key = [] \<or> new_peer_id = old_peer_id
      then (Inl (TrustStoreError_new Ts_Conflict ''identity rotation parameters conflict''), self)
      else if bt_contains (fts_records self) new_peer_id
      then (Inl (TrustStoreError_new Ts_Conflict ''new peer identity already exists''), self)
      else if bt_len (fts_records self) \<ge> fts_max_records self then (Inl limit_error, self)
      else
        case bt_get (fts_records self) old_peer_id of
          None \<Rightarrow> (Inl unknown_peer, self)
        | Some old \<Rightarrow>
            if \<not> TrustRecord_is_active old
            then (Inl (TrustStoreError_new Ts_Conflict ''only an active identity can rotate''), self)
            else
              let replacement = \<lparr>tr_peer_id = new_peer_id, tr_public_key = new_public_key, tr_alias = tr_alias old,
                    tr_first_paired_at_unix_ms = tr_first_paired_at_unix_ms old, tr_permissions = tr_permissions old,
                    tr_key_state = Key_Active, tr_last_pairing_challenge_hash = challenge_hash,
                    tr_previous_key_fingerprints =
                      tr_previous_key_fingerprints old @ [TrustRecord_public_key_fingerprint sha old]\<rparr>
              in (case validate_record replacement of
                    Inl e \<Rightarrow> (Inl e, self)
                  | Inr _ \<Rightarrow>
                      let records = bt_insert old_peer_id (old\<lparr>tr_key_state := Key_Rotated now_unix_ms new_peer_id\<rparr>) (fts_records self);
                          records = bt_insert new_peer_id replacement records
                      in (case FileTrustStore_replace to_json io records self of
                            (Inl e, self) \<Rightarrow> (Inl e, self)
                          | (Inr _, self) \<Rightarrow> (Inr replacement, self))))"

subsection \<open>The contract of a trust store\<close>

definition authorized ::
  "('s \<Rightarrow> PeerId \<Rightarrow> (TrustStoreError, TrustRecord option) result) \<Rightarrow> 's \<Rightarrow> PeerId \<Rightarrow> bytes \<Rightarrow> bool" where
  "authorized get store peer_id key = is_ok (authorize_trusted_reconnect get store peer_id key)"

lemma TrustRecord_is_active_iff: "TrustRecord_is_active r \<longleftrightarrow> tr_key_state r = Key_Active"
  by (simp add: TrustRecord_is_active_def)

lemma validate_record_key_state [simp]: "validate_record (r\<lparr>tr_key_state := k\<rparr>) = validate_record r"
  by (simp add: validate_record_def)

locale trust_store =
  fixes get :: "'s \<Rightarrow> PeerId \<Rightarrow> (TrustStoreError, TrustRecord option) result"
    and upsert :: "'io \<Rightarrow> TrustRecord \<Rightarrow> 's \<Rightarrow> (TrustStoreError, unit) result \<times> 's"
    and remove :: "'io \<Rightarrow> PeerId \<Rightarrow> 's \<Rightarrow> (TrustStoreError, bool) result \<times> 's"
    and revoke :: "'io \<Rightarrow> PeerId \<Rightarrow> u64 \<Rightarrow> 's \<Rightarrow> (TrustStoreError, unit) result \<times> 's"
    and rotate :: "'io \<Rightarrow> PeerId \<Rightarrow> PeerId \<Rightarrow> bytes \<Rightarrow> 256 word \<Rightarrow> u64 \<Rightarrow> 's \<Rightarrow> (TrustStoreError, TrustRecord) result \<times> 's"
    and inv :: "'s \<Rightarrow> bool"
    and lookup :: "'s \<Rightarrow> PeerId \<Rightarrow> TrustRecord option"
  assumes get_lookup: "inv s \<Longrightarrow> get s p = Inr (lookup s p)"
    and lookup_valid: "inv s \<Longrightarrow> lookup s p = Some r \<Longrightarrow> tr_peer_id r = p \<and> validate_record r = Inr ()"
    and upsert_ok: "inv s \<Longrightarrow> upsert io r s = (Inr u, s') \<Longrightarrow> inv s' \<and> lookup s' = (lookup s)(tr_peer_id r \<mapsto> r)"
    and upsert_err: "inv s \<Longrightarrow> upsert io r s = (Inl e, s') \<Longrightarrow> inv s' \<and> lookup s' = lookup s"
    and remove_ok: "inv s \<Longrightarrow> remove io p s = (Inr b, s') \<Longrightarrow>
      inv s' \<and> lookup s' = (lookup s)(p := None) \<and> b = (lookup s p \<noteq> None)"
    and remove_err: "inv s \<Longrightarrow> remove io p s = (Inl e, s') \<Longrightarrow> inv s' \<and> lookup s' = lookup s"
    and revoke_ok: "inv s \<Longrightarrow> revoke io p t s = (Inr u, s') \<Longrightarrow>
      inv s' \<and> (\<exists>r. lookup s p = Some r \<and> lookup s' = (lookup s)(p \<mapsto> r\<lparr>tr_key_state := Key_Revoked t\<rparr>))"
    and revoke_err: "inv s \<Longrightarrow> revoke io p t s = (Inl e, s') \<Longrightarrow> inv s' \<and> lookup s' = lookup s"
    and rotate_ok: "inv s \<Longrightarrow> rotate io old new key challenge t s = (Inr r, s') \<Longrightarrow>
      inv s' \<and> new \<noteq> old \<and> lookup s new = None
      \<and> (\<exists>o'. lookup s old = Some o' \<and> TrustRecord_is_active o'
           \<and> lookup s' = (lookup s)(old \<mapsto> o'\<lparr>tr_key_state := Key_Rotated t new\<rparr>, new \<mapsto> r)
           \<and> TrustRecord_is_active r \<and> tr_public_key r = key \<and> tr_permissions r = tr_permissions o')"
    and rotate_err: "inv s \<Longrightarrow> rotate io old new key challenge t s = (Inl e, s') \<Longrightarrow> inv s' \<and> lookup s' = lookup s"
begin

lemma authorized_iff:
  assumes "inv s"
  shows "authorized get s p key \<longleftrightarrow> (\<exists>r. lookup s p = Some r \<and> TrustRecord_is_active r \<and> tr_public_key r = key)"
  using lookup_valid [OF assms, of p]
  by (cases "lookup s p")
    (auto simp: authorized_def authorize_trusted_reconnect_def get_lookup [OF assms] TrustRecord_is_active_iff split: KeyState.splits)

lemma authorized_upsert:
  assumes "inv s" "upsert io r s = (res, s')"
  shows "inv s' \<and> (authorized get s' p key \<longleftrightarrow>
     (if is_ok res \<and> tr_peer_id r = p then TrustRecord_is_active r \<and> tr_public_key r = key else authorized get s p key))"
proof (cases res)
  case (Inl e)
  with assms upsert_err show ?thesis by (simp add: authorized_iff)
next
  case (Inr u)
  with assms upsert_ok [of s io r u s'] show ?thesis by (auto simp: authorized_iff)
qed

lemma authorized_remove:
  assumes "inv s" "remove io q s = (res, s')"
  shows "inv s' \<and> (authorized get s' p key \<longleftrightarrow> \<not> (is_ok res \<and> q = p) \<and> authorized get s p key)"
proof (cases res)
  case (Inl e)
  with assms remove_err show ?thesis by (simp add: authorized_iff)
next
  case (Inr b)
  with assms remove_ok [of s io q b s'] show ?thesis by (auto simp: authorized_iff)
qed

lemma authorized_revoke:
  assumes "inv s" "revoke io q t s = (res, s')"
  shows "inv s' \<and> (authorized get s' p key \<longleftrightarrow> \<not> (is_ok res \<and> q = p) \<and> authorized get s p key)"
proof (cases res)
  case (Inl e)
  with assms revoke_err show ?thesis by (simp add: authorized_iff)
next
  case (Inr b)
  with assms revoke_ok [of s io q t b s'] show ?thesis by (cases "p = q") (auto simp: authorized_iff TrustRecord_is_active_iff)
qed

lemma authorized_rotate:
  assumes "inv s" "rotate io old new k challenge t s = (res, s')"
  shows "inv s' \<and> (authorized get s' p key \<longleftrightarrow>
     (if is_ok res \<and> p = new then k = key else \<not> (is_ok res \<and> p = old) \<and> authorized get s p key))"
proof (cases res)
  case (Inl e)
  with assms rotate_err show ?thesis by (simp add: authorized_iff)
next
  case (Inr r)
  with assms rotate_ok [of s io old new k challenge t r s'] show ?thesis
    by (cases "p = new"; cases "p = old") (auto simp: authorized_iff TrustRecord_is_active_iff)
qed

end

subsection \<open>The file store keeps the contract\<close>

definition records_ok :: "(PeerId, TrustRecord) btree \<Rightarrow> bool" where
  "records_ok m = (\<forall>p r. bt_get m p = Some r \<longrightarrow> tr_peer_id r = p \<and> validate_record r = Inr ())"

definition store_ok :: "FileTrustStore \<Rightarrow> bool" where
  "store_ok s = (records_ok (fts_records s) \<and> bt_len (fts_records s) \<le> fts_max_records s \<and> 0 < fts_max_records s)"

text \<open>A write that failed: nothing changed, or on Windows the old file was removed and the
  rename then failed.\<close>

definition unwritten :: "StoreIo \<Rightarrow> FileTrustStore \<Rightarrow> FileTrustStore \<Rightarrow> bool" where
  "unwritten io s s' = (s' = s \<or> (s' = s\<lparr>fts_file := None\<rparr> \<and> sio_windows io \<and> \<not> sio_renamed io))"

lemma unwritten_refl [simp]: "unwritten io s s"
  by (simp add: unwritten_def)

lemma unwrittenD:
  assumes "unwritten io s s'"
  shows "fts_records s' = fts_records s" "fts_max_records s' = fts_max_records s" "store_ok s \<Longrightarrow> store_ok s'"
  using assms by (auto simp: unwritten_def store_ok_def)

lemma records_ok_insert:
  "records_ok m \<Longrightarrow> tr_peer_id r = p \<Longrightarrow> validate_record r = Inr () \<Longrightarrow> records_ok (bt_insert p r m)"
  by (simp add: records_ok_def)

lemma records_ok_remove: "records_ok m \<Longrightarrow> records_ok (bt_remove p m)"
  by (simp add: records_ok_def)

lemma collect_records_roundtrip:
  "list_all (\<lambda>r. validate_record r = Inr ()) rs \<Longrightarrow>
   collect_records (map RecordDto_from rs) = Some (Inr (map (\<lambda>r. (tr_peer_id r, r)) rs))"
  by (induction rs) (simp_all add: record_roundtrip)

lemma fold_insert_entries:
  "distinct (map fst kvs) \<Longrightarrow>
   bt_get (fold (\<lambda>(k, v). bt_insert k v) kvs m) k = (case map_of kvs k of None \<Rightarrow> bt_get m k | Some v \<Rightarrow> Some v)"
  by (induction kvs arbitrary: m) (auto split: option.splits simp: map_of_eq_None_iff image_iff)

lemma bt_rebuild: "fold (\<lambda>(k, v). bt_insert k v) (bt_entries m) bt_empty = m"
  by (rule bt_eqI) (simp add: fold_insert_entries bt_entries_distinct bt_get.rep_eq [symmetric] split: option.splits)

lemma records_collect:
  assumes "records_ok m"
  shows "collect_records (map RecordDto_from (bt_values m)) = Some (Inr (bt_entries m))"
proof -
  have "list_all (\<lambda>r. validate_record r = Inr ()) (bt_values m)"
    using assms by (auto simp: list_all_iff bt_values_set records_ok_def)
  moreover have "map (\<lambda>r. (tr_peer_id r, r)) (bt_values m) = bt_entries m"
    unfolding bt_values_def map_map
    by (rule map_idI) (use assms in \<open>auto simp: records_ok_def bt_entries_get\<close>)
  ultimately show ?thesis by (simp add: collect_records_roundtrip)
qed

lemma bt_values_length: "length (bt_values m) = bt_len m"
  by (simp add: bt_values_def bt_len.rep_eq)

lemma replace_cases [consumes 1, case_names failed written]:
  assumes "FileTrustStore_replace to_json io records s = (res, s')"
  obtains e where "res = Inl e" "unwritten io s s'"
  | "res = Inr ()" "s' = s\<lparr>fts_file := Some (to_json (map RecordDto_from (bt_values records)) @ [10]), fts_records := records\<rparr>"
  using assms
  by (auto simp: FileTrustStore_replace_def FileTrustStore_persist_def remove_before_rename_def unwritten_def Let_def
      split: if_splits)

lemma replace_store_ok:
  assumes "FileTrustStore_replace to_json io records s = (res, s')" and "store_ok s"
    and "records_ok records" and "bt_len records \<le> fts_max_records s"
  shows "store_ok s'"
  using assms(1)
proof (cases rule: replace_cases)
  case written
  with assms(2-4) show ?thesis by (simp add: store_ok_def)
qed (use assms(2) unwrittenD(3) in blast)

lemma upsert_cases [consumes 1, case_names refused replaced]:
  assumes "FileTrustStore_upsert to_json io r s = (res, s')"
  obtains e where "res = Inl e" "unwritten io s s'"
  | "validate_record r = Inr ()" "bt_contains (fts_records s) (tr_peer_id r) \<or> bt_len (fts_records s) < fts_max_records s"
    "FileTrustStore_replace to_json io (bt_insert (tr_peer_id r) r (fts_records s)) s = (res, s')"
proof (cases "validate_record r")
  case (Inl e)
  with assms have "res = Inl e" "unwritten io s s'" by (simp_all add: FileTrustStore_upsert_def)
  then show ?thesis by (rule that(1))
next
  case (Inr u)
  with assms that show ?thesis by (auto simp: FileTrustStore_upsert_def not_le split: if_splits)
qed

lemma rotate_cases [consumes 1, case_names refused replaced]:
  assumes "FileTrustStore_rotate sha to_json io old new key challenge t s = (res, s')"
  obtains e where "res = Inl e" "unwritten io s s'"
  | o' r where "new \<noteq> old" "bt_get (fts_records s) new = None" "bt_len (fts_records s) < fts_max_records s"
    "bt_get (fts_records s) old = Some o'" "TrustRecord_is_active o'" "validate_record r = Inr ()"
    "tr_peer_id r = new" "TrustRecord_is_active r" "tr_public_key r = key" "tr_permissions r = tr_permissions o'"
    "res = Inr r"
    "FileTrustStore_replace to_json io (bt_insert new r (bt_insert old (o'\<lparr>tr_key_state := Key_Rotated t new\<rparr>) (fts_records s))) s
       = (Inr (), s')"
proof (cases "bt_get (fts_records s) old")
  case None
  with assms that(1) show ?thesis by (auto simp: FileTrustStore_rotate_def split: if_splits)
next
  case (Some o')
  define r where "r = \<lparr>tr_peer_id = new, tr_public_key = key, tr_alias = tr_alias o',
    tr_first_paired_at_unix_ms = tr_first_paired_at_unix_ms o', tr_permissions = tr_permissions o',
    tr_key_state = Key_Active, tr_last_pairing_challenge_hash = challenge,
    tr_previous_key_fingerprints = tr_previous_key_fingerprints o' @ [TrustRecord_public_key_fingerprint sha o']\<rparr>"
  obtain res1 s1 where rep: "FileTrustStore_replace to_json io
      (bt_insert new r (bt_insert old (o'\<lparr>tr_key_state := Key_Rotated t new\<rparr>) (fts_records s))) s = (res1, s1)"
    by fastforce
  from rep show ?thesis
  proof (cases rule: replace_cases)
    case (failed e)
    with assms rep Some that(1) show ?thesis
      by (auto simp: FileTrustStore_rotate_def r_def [symmetric] split: if_splits sum.splits)
  next
    case written
    show ?thesis
    proof (cases "key = [] \<or> new = old \<or> bt_contains (fts_records s) new \<or> fts_max_records s \<le> bt_len (fts_records s)
        \<or> \<not> TrustRecord_is_active o' \<or> validate_record r \<noteq> Inr ()")
      case True
      with assms rep Some that(1) written(1) show ?thesis
        by (auto simp: FileTrustStore_rotate_def r_def [symmetric] split: if_splits sum.splits)
    next
      case False
      moreover from False assms rep Some written(1) have "res = Inr r" "s1 = s'"
        by (simp_all add: FileTrustStore_rotate_def r_def [symmetric])
      ultimately show ?thesis using that(2) [of o' r] rep Some written(1)
        by (simp add: r_def TrustRecord_is_active_iff bt_contains_def not_le)
    qed
  qed
qed

lemma remove_cases [consumes 1, case_names absent failed removed]:
  assumes "FileTrustStore_remove to_json io p s = (res, s')"
  obtains "bt_get (fts_records s) p = None" "res = Inr False" "s' = s"
  | e where "res = Inl e" "unwritten io s s'"
  | "bt_get (fts_records s) p \<noteq> None" "res = Inr True"
    "FileTrustStore_replace to_json io (bt_remove p (fts_records s)) s = (Inr (), s')"
proof -
  obtain res1 s1 where rep: "FileTrustStore_replace to_json io (bt_remove p (fts_records s)) s = (res1, s1)" by fastforce
  show ?thesis
  proof (cases "bt_get (fts_records s) p")
    case None
    with assms have "res = Inr False" "s' = s" by (simp_all add: FileTrustStore_remove_def bt_contains_def)
    with None show ?thesis by (rule that(1))
  next
    case (Some r)
    then have eq: "(res, s') = (case res1 of Inl e \<Rightarrow> (Inl e, s1) | Inr _ \<Rightarrow> (Inr True, s1))"
      using assms rep by (simp add: FileTrustStore_remove_def bt_contains_def split: sum.splits)
    from rep show ?thesis
    proof (cases rule: replace_cases)
      case (failed e)
      with eq have "res = Inl e" "unwritten io s s'" by simp_all
      then show ?thesis by (rule that(2))
    next
      case written
      with eq have "res = Inr True" "s1 = s'" by simp_all
      with rep written Some show ?thesis by (intro that(3)) simp_all
    qed
  qed
qed

lemma revoke_cases [consumes 1, case_names refused replaced]:
  assumes "FileTrustStore_revoke to_json io p t s = (res, s')"
  obtains e where "res = Inl e" "unwritten io s s'"
  | r where "bt_get (fts_records s) p = Some r"
    "FileTrustStore_replace to_json io (bt_insert p (r\<lparr>tr_key_state := Key_Revoked t\<rparr>) (fts_records s)) s = (res, s')"
  using assms by (auto simp: FileTrustStore_revoke_def split: option.splits)

lemma store_okD: "store_ok s \<Longrightarrow> records_ok (fts_records s)" "store_ok s \<Longrightarrow> bt_len (fts_records s) \<le> fts_max_records s"
  by (simp_all add: store_ok_def)

lemma records_okD: "records_ok m \<Longrightarrow> bt_get m p = Some r \<Longrightarrow> tr_peer_id r = p \<and> validate_record r = Inr ()"
  by (simp add: records_ok_def)

lemma upsert_store_ok:
  assumes "FileTrustStore_upsert to_json io r s = (res, s')" and ok: "store_ok s"
  shows "store_ok s'"
  using assms(1)
proof (cases rule: upsert_cases)
  case replaced
  show ?thesis
    by (rule replace_store_ok [OF replaced(3) ok])
      (use replaced store_okD [OF ok] in \<open>auto simp: records_ok_insert bt_contains_def\<close>)
qed (use ok unwrittenD(3) in blast)

lemma remove_store_ok:
  assumes "FileTrustStore_remove to_json io p s = (res, s')" and ok: "store_ok s"
  shows "store_ok s'"
  using assms(1)
proof (cases rule: remove_cases)
  case removed
  show ?thesis
    by (rule replace_store_ok [OF removed(3) ok]) (use store_okD [OF ok] in \<open>auto simp: records_ok_remove\<close>)
qed (use ok unwrittenD(3) in blast)+

lemma revoke_store_ok:
  assumes "FileTrustStore_revoke to_json io p t s = (res, s')" and ok: "store_ok s"
  shows "store_ok s'"
  using assms(1)
proof (cases rule: revoke_cases)
  case (replaced r)
  show ?thesis
    by (rule replace_store_ok [OF replaced(2) ok])
      (use store_okD [OF ok] records_okD [OF store_okD(1) [OF ok] replaced(1)] replaced(1) in \<open>auto simp: records_ok_insert\<close>)
qed (use ok unwrittenD(3) in blast)

lemma rotate_store_ok:
  assumes "FileTrustStore_rotate sha to_json io old new key challenge t s = (res, s')" and ok: "store_ok s"
  shows "store_ok s'"
  using assms(1)
proof (cases rule: rotate_cases)
  case (replaced o' r)
  show ?thesis
    by (rule replace_store_ok [OF replaced(12) ok])
      (use store_okD [OF ok] records_okD [OF store_okD(1) [OF ok] replaced(4)] replaced(1-7) in \<open>auto simp: records_ok_insert\<close>)
qed (use ok unwrittenD(3) in blast)

lemma replace_lookup:
  "FileTrustStore_replace to_json io records s = (Inr u, s') \<Longrightarrow> bt_get (fts_records s') = bt_get records"
  by (erule replace_cases) simp_all

lemma replace_refused:
  "FileTrustStore_replace to_json io records s = (Inl e, s') \<Longrightarrow> fts_records s' = fts_records s"
  by (erule replace_cases) (simp_all add: unwrittenD)

interpretation file_store: trust_store FileTrustStore_get "FileTrustStore_upsert to_json" "FileTrustStore_remove to_json"
  "FileTrustStore_revoke to_json" "FileTrustStore_rotate sha to_json" store_ok "\<lambda>s. bt_get (fts_records s)"
proof (unfold_locales, goal_cases)
  case (3 s io r u s')
  then show ?case by (auto simp: upsert_store_ok fun_eq_iff replace_lookup elim: upsert_cases)
next
  case (4 s io r e s')
  then show ?case
    by (cases rule: upsert_cases [OF 4(2)]) (auto simp: upsert_store_ok unwrittenD dest: replace_refused)
next
  case (5 s io p b s')
  then show ?case by (auto simp: remove_store_ok fun_eq_iff replace_lookup elim: remove_cases)
next
  case (6 s io p e s')
  then show ?case by (auto simp: remove_store_ok unwrittenD elim: remove_cases)
next
  case (7 s io p t u s')
  then show ?case
    by (cases rule: revoke_cases [OF 7(2)]) (auto simp: revoke_store_ok fun_eq_iff replace_lookup)
next
  case (8 s io p t e s')
  then show ?case
    by (cases rule: revoke_cases [OF 8(2)]) (auto simp: revoke_store_ok unwrittenD dest: replace_refused)
next
  case (9 s io old new key challenge t r s')
  then show ?case
    by (cases rule: rotate_cases [OF 9(2)]) (auto simp: rotate_store_ok fun_eq_iff replace_lookup)
next
  case (10 s io old new key challenge t e s')
  then show ?case by (auto simp: rotate_store_ok unwrittenD elim: rotate_cases)
qed (auto simp: FileTrustStore_get_def dest: store_okD records_okD)

subsection \<open>Runs of store operations\<close>

datatype StoreOp =
    So_Upsert TrustRecord | So_Remove PeerId | So_Revoke PeerId u64 | So_Rotate PeerId PeerId bytes "256 word" u64

fun store_step :: "sha256 \<Rightarrow> (RecordDto list \<Rightarrow> bytes) \<Rightarrow> StoreIo \<times> StoreOp \<Rightarrow> FileTrustStore \<Rightarrow> bool \<times> FileTrustStore" where
  "store_step sha to_json (io, So_Upsert r) s = map_prod is_ok id (FileTrustStore_upsert to_json io r s)"
| "store_step sha to_json (io, So_Remove p) s = map_prod is_ok id (FileTrustStore_remove to_json io p s)"
| "store_step sha to_json (io, So_Revoke p t) s = map_prod is_ok id (FileTrustStore_revoke to_json io p t s)"
| "store_step sha to_json (io, So_Rotate old new key challenge t) s =
     map_prod is_ok id (FileTrustStore_rotate sha to_json io old new key challenge t s)"

text \<open>The run logs each operation with whether it succeeded.\<close>

fun store_run :: "sha256 \<Rightarrow> (RecordDto list \<Rightarrow> bytes) \<Rightarrow> (StoreIo \<times> StoreOp) list \<Rightarrow> FileTrustStore \<Rightarrow> (StoreOp \<times> bool) list \<times> FileTrustStore" where
  "store_run sha to_json [] s = ([], s)"
| "store_run sha to_json (c # cs) s =
     (case store_step sha to_json c s of (ok, s1) \<Rightarrow> case store_run sha to_json cs s1 of (log, s2) \<Rightarrow> ((snd c, ok) # log, s2))"

fun concerns :: "PeerId \<Rightarrow> StoreOp \<Rightarrow> bool" where
  "concerns p (So_Upsert r) = (tr_peer_id r = p)"
| "concerns p (So_Remove q) = (q = p)"
| "concerns p (So_Revoke q _) = (q = p)"
| "concerns p (So_Rotate old new _ _ _) = (p = old \<or> p = new)"

fun grants :: "PeerId \<Rightarrow> bytes \<Rightarrow> StoreOp \<Rightarrow> bool" where
  "grants p key (So_Upsert r) = (tr_peer_id r = p \<and> TrustRecord_is_active r \<and> tr_public_key r = key)"
| "grants p key (So_Rotate old new k _ _) = (p = new \<and> k = key)"
| "grants p key _ = False"

lemma store_step_effect:
  assumes ok: "store_ok s" and step: "store_step sha to_json (io, op) s = (ok, s')"
  shows "store_ok s' \<and> (authorized FileTrustStore_get s' p key \<longleftrightarrow>
     (if ok \<and> concerns p op then grants p key op else authorized FileTrustStore_get s p key))"
proof (cases op)
  case (So_Upsert r)
  with step obtain res where "FileTrustStore_upsert to_json io r s = (res, s')" "ok = is_ok res" by (auto simp: map_prod_def split: prod.splits)
  with file_store.authorized_upsert [OF ok this(1), of p key] So_Upsert show ?thesis by simp
next
  case (So_Remove q)
  with step obtain res where "FileTrustStore_remove to_json io q s = (res, s')" "ok = is_ok res" by (auto simp: map_prod_def split: prod.splits)
  with file_store.authorized_remove [OF ok this(1), of p key] So_Remove show ?thesis by simp
next
  case (So_Revoke q t)
  with step obtain res where "FileTrustStore_revoke to_json io q t s = (res, s')" "ok = is_ok res" by (auto simp: map_prod_def split: prod.splits)
  with file_store.authorized_revoke [OF ok this(1), of p key] So_Revoke show ?thesis by simp
next
  case (So_Rotate old new k challenge t)
  with step obtain res where "FileTrustStore_rotate sha to_json io old new k challenge t s = (res, s')" "ok = is_ok res"
    by (auto simp: map_prod_def split: prod.splits)
  with file_store.authorized_rotate [OF ok this(1), of p key] So_Rotate show ?thesis by auto
qed

lemma replace_max: "FileTrustStore_replace to_json io records s = (res, s') \<Longrightarrow> fts_max_records s' = fts_max_records s"
  by (erule replace_cases) (simp_all add: unwrittenD)

lemma store_step_max: "store_step sha to_json (io, op) s = (ok, s') \<Longrightarrow> fts_max_records s' = fts_max_records s"
  by (cases op)
    (auto simp: map_prod_def replace_max unwrittenD split: prod.splits elim: upsert_cases remove_cases revoke_cases rotate_cases)

text \<open>The last successful operation on the peer decides.\<close>

fun decided :: "PeerId \<Rightarrow> bytes \<Rightarrow> bool \<Rightarrow> (StoreOp \<times> bool) list \<Rightarrow> bool" where
  "decided p key b [] = b"
| "decided p key b ((op, ok) # log) = decided p key (if ok \<and> concerns p op then grants p key op else b) log"

lemma store_run_effect:
  assumes "store_ok s" "store_run sha to_json cs s = (log, s')"
  shows "store_ok s' \<and> fts_max_records s' = fts_max_records s
    \<and> (authorized FileTrustStore_get s' p key \<longleftrightarrow> decided p key (authorized FileTrustStore_get s p key) log)"
  using assms
proof (induction cs arbitrary: s log)
  case (Cons c cs)
  obtain ok s1 where step: "store_step sha to_json c s = (ok, s1)" by fastforce
  obtain log1 s2 where run: "store_run sha to_json cs s1 = (log1, s2)" by fastforce
  have eq: "log = (snd c, ok) # log1" "s' = s2" using Cons.prems(2) step run by simp_all
  from store_step_effect [of s sha to_json "fst c" "snd c" ok s1 p key] step Cons.prems(1) have s1: "store_ok s1"
    "authorized FileTrustStore_get s1 p key =
       (if ok \<and> concerns p (snd c) then grants p key (snd c) else authorized FileTrustStore_get s p key)"
    by simp_all
  show ?case
    using Cons.IH [OF s1(1), of log1] run store_step_max [of sha to_json "fst c" "snd c" s ok s1] step
    by (simp add: eq s1(2))
qed simp

lemma grants_concerns: "grants p key op \<Longrightarrow> concerns p op"
  by (cases op) auto

lemma decided_iff:
  "decided p key b log \<longleftrightarrow>
     (\<exists>pre op post. log = pre @ (op, True) # post \<and> grants p key op
        \<and> list_all (\<lambda>(later, succeeded). \<not> (succeeded \<and> concerns p later)) post)
     \<or> (b \<and> list_all (\<lambda>(later, succeeded). \<not> (succeeded \<and> concerns p later)) log)"
proof (induction p key b log rule: decided.induct)
  case (2 p key b op ok log)
  have "(\<exists>pre op' post. (op, ok) # log = pre @ (op', True) # post \<and> grants p key op'
          \<and> list_all (\<lambda>(later, succeeded). \<not> (succeeded \<and> concerns p later)) post) \<longleftrightarrow>
      (ok \<and> grants p key op \<and> list_all (\<lambda>(later, succeeded). \<not> (succeeded \<and> concerns p later)) log)
      \<or> (\<exists>pre op' post. log = pre @ (op', True) # post \<and> grants p key op'
          \<and> list_all (\<lambda>(later, succeeded). \<not> (succeeded \<and> concerns p later)) post)"
    by (auto simp: Cons_eq_append_conv)
  with 2 grants_concerns [of p key op] show ?case by auto
qed simp

lemma collect_records_ok:
  "collect_records dtos = Some (Inr recs) \<Longrightarrow>
   length recs = length dtos \<and> list_all (\<lambda>(p, r). tr_peer_id r = p \<and> validate_record r = Inr ()) recs"
proof (induction dtos arbitrary: recs)
  case (Cons dto dtos)
  have valid: "validate_record r = Inr ()" if "TrustRecord_try_from dto = Some (Inr r)" for r
    using that
    by (auto simp: TrustRecord_try_from_def panic_bind_def Let_def result_bind_eq_Inr split: option.splits sum.splits)
  from Cons show ?case
    by (auto simp: panic_bind_def valid split: option.splits sum.splits)
qed simp

lemma fold_insert_ok:
  "list_all (\<lambda>(p, r). tr_peer_id r = p \<and> validate_record r = Inr ()) recs \<Longrightarrow> records_ok m \<Longrightarrow>
   records_ok (fold (\<lambda>(k, v). bt_insert k v) recs m) \<and> bt_len (fold (\<lambda>(k, v). bt_insert k v) recs m) \<le> bt_len m + length recs"
proof (induction recs arbitrary: m)
  case (Cons kv recs)
  obtain k v where "kv = (k, v)" by fastforce
  with Cons.prems Cons.IH [of "bt_insert k v m"] show ?case by (auto simp: records_ok_insert split: if_splits)
qed simp

lemma records_ok_empty [simp]: "records_ok bt_empty"
  by (simp add: records_ok_def)

subsection \<open>What the file holds\<close>

text \<open>Opening a file that holds these bytes yields the records of the store.\<close>

definition parses_to :: "(bytes \<Rightarrow> RecordDto list option) \<Rightarrow> FileTrustStore \<Rightarrow> bytes \<Rightarrow> bool" where
  "parses_to from_json s file =
     (\<exists>dtos recs. from_json file = Some dtos \<and> length dtos \<le> fts_max_records s
        \<and> collect_records dtos = Some (Inr recs) \<and> fold (\<lambda>(k, v). bt_insert k v) recs bt_empty = fts_records s)"

definition stored_dtos :: "FileTrustStore \<Rightarrow> RecordDto list" where
  "stored_dtos s = map RecordDto_from (bt_values (fts_records s))"

text \<open>The file was written by the store, or is the one it was opened from.\<close>

definition file_ok :: "(RecordDto list \<Rightarrow> bytes) \<Rightarrow> (bytes \<Rightarrow> RecordDto list option) \<Rightarrow> FileTrustStore \<Rightarrow> bool" where
  "file_ok to_json from_json s =
     (\<forall>file. fts_file s = Some file \<longrightarrow> file = to_json (stored_dtos s) @ [10] \<or> parses_to from_json s file)"

lemma store_step_file:
  assumes "store_step sha to_json (io, op) s = (ok, s')"
  obtains "unwritten io s s'"
  | records where "s' = s\<lparr>fts_file := Some (to_json (map RecordDto_from (bt_values records)) @ [10]), fts_records := records\<rparr>"
proof (cases op)
  case (So_Upsert r)
  with assms obtain res where "FileTrustStore_upsert to_json io r s = (res, s')" by (auto simp: map_prod_def split: prod.splits)
  then show ?thesis by (cases rule: upsert_cases) (use that in \<open>auto elim: replace_cases\<close>)
next
  case (So_Remove q)
  with assms obtain res where "FileTrustStore_remove to_json io q s = (res, s')" by (auto simp: map_prod_def split: prod.splits)
  then show ?thesis by (cases rule: remove_cases) (use that in \<open>auto elim: replace_cases\<close>)
next
  case (So_Revoke q t)
  with assms obtain res where "FileTrustStore_revoke to_json io q t s = (res, s')" by (auto simp: map_prod_def split: prod.splits)
  then show ?thesis by (cases rule: revoke_cases) (use that in \<open>auto elim: replace_cases\<close>)
next
  case (So_Rotate old new k challenge t)
  with assms obtain res where "FileTrustStore_rotate sha to_json io old new k challenge t s = (res, s')"
    by (auto simp: map_prod_def split: prod.splits)
  then show ?thesis by (cases rule: rotate_cases) (use that in \<open>auto elim: replace_cases\<close>)
qed

definition lost_on_rename :: "StoreIo \<Rightarrow> bool" where
  "lost_on_rename io = (sio_windows io \<and> \<not> sio_renamed io)"

lemma store_step_file_ok:
  assumes step: "store_step sha to_json (io, op) s = (ok, s')" and "file_ok to_json from_json s"
  shows "file_ok to_json from_json s' \<and> (fts_file s' = None \<longrightarrow> fts_file s = None \<or> lost_on_rename io)"
  using step
proof (cases rule: store_step_file)
  case 1
  then have "s' = s \<or> (s' = s\<lparr>fts_file := None\<rparr> \<and> lost_on_rename io)" by (auto simp: unwritten_def lost_on_rename_def)
  with assms(2) show ?thesis by (auto simp: file_ok_def)
next
  case (2 records)
  then show ?thesis by (simp add: file_ok_def stored_dtos_def)
qed

lemma store_run_file_ok:
  assumes "store_run sha to_json cs s = (log, s')" and "file_ok to_json from_json s" and "fts_file s \<noteq> None"
  shows "file_ok to_json from_json s' \<and> (fts_file s' = None \<longrightarrow> (\<exists>c\<in>set cs. lost_on_rename (fst c)))"
proof -
  have "file_ok to_json from_json s' \<and> (fts_file s' = None \<longrightarrow> fts_file s = None \<or> (\<exists>c\<in>set cs. lost_on_rename (fst c)))"
    using assms(1,2)
  proof (induction cs arbitrary: s log)
    case (Cons c cs)
    obtain ok s1 where step: "store_step sha to_json (fst c, snd c) s = (ok, s1)" by fastforce
    with Cons.prems obtain log1 where run: "store_run sha to_json cs s1 = (log1, s')" by (auto split: prod.splits)
    show ?case using store_step_file_ok [OF step Cons.prems(2)] Cons.IH [OF run] by auto
  qed simp
  with assms(3) show ?thesis by auto
qed

text \<open>Bytes that parse to the records of a store are opened as that store, unless there are too
  many of them.\<close>

lemma parses_opened:
  assumes "parses_to from_json s file" and "store_ok s" and "fts_file s = Some file"
  shows "FileTrustStore_open_with_limit to_json from_json (File_Present file Read_Whole) io (fts_max_records s)
    = Some (if length file > unat MAX_TRUST_STORE_FILE_BYTES then Inl limit_error else Inr s)"
  using assms by (auto simp: FileTrustStore_open_with_limit_def parses_to_def store_ok_def)

lemma written_parses:
  assumes "from_json (to_json (stored_dtos s) @ [10]) = Some (stored_dtos s)" and "store_ok s"
  shows "parses_to from_json s (to_json (stored_dtos s) @ [10])"
  using assms by (simp add: parses_to_def store_ok_def stored_dtos_def records_collect bt_rebuild bt_values_length)

lemma store_open_cases [consumes 1, case_names created parsed]:
  assumes "FileTrustStore_open_with_limit to_json from_json path io max_records = Some (Inr s)"
  obtains "path = File_Absent" "0 < max_records"
    "s = \<lparr>fts_records = bt_empty, fts_max_records = max_records, fts_file = Some (to_json [] @ [10])\<rparr>"
  | bs dtos recs where "path = File_Present bs Read_Whole" "0 < max_records" "from_json bs = Some dtos"
    "length dtos \<le> max_records" "collect_records dtos = Some (Inr recs)"
    "s = \<lparr>fts_records = fold (\<lambda>(k, v). bt_insert k v) recs bt_empty, fts_max_records = max_records, fts_file = Some bs\<rparr>"
proof (cases path)
  case File_Absent
  with assms show ?thesis
    by (intro that(1)) (auto simp: FileTrustStore_open_with_limit_def FileTrustStore_persist_def remove_before_rename_def
        bt_values_def bt_empty.rep_eq Let_def split: if_splits)
next
  case File_No_Metadata
  with assms show ?thesis by (simp add: FileTrustStore_open_with_limit_def split: if_splits)
next
  case (File_Present bs outcome)
  with assms have "outcome = Read_Whole"
    by (cases outcome) (auto simp: FileTrustStore_open_with_limit_def split: if_splits)
  with assms File_Present that(2) show ?thesis
    by (auto simp: FileTrustStore_open_with_limit_def panic_bind_def split: if_splits option.splits sum.splits)
qed

lemma open_store_ok:
  assumes "FileTrustStore_open_with_limit to_json from_json path io max_records = Some (Inr s)"
  shows "store_ok s \<and> fts_max_records s = max_records \<and> fts_file s \<noteq> None \<and> file_ok to_json from_json s"
  using assms
proof (cases rule: store_open_cases)
  case created
  then show ?thesis by (simp add: store_ok_def file_ok_def stored_dtos_def bt_values_def bt_empty.rep_eq)
next
  case (parsed bs dtos recs)
  with collect_records_ok [OF parsed(5)] fold_insert_ok [of recs bt_empty] show ?thesis
    by (auto simp: store_ok_def file_ok_def parses_to_def)
qed

subsection \<open>A revoked key\<close>

text \<open>The operations that may replace the record of a peer that is not active.\<close>

fun overwrites :: "PeerId \<Rightarrow> StoreOp \<Rightarrow> bool" where
  "overwrites p (So_Upsert r) = (tr_peer_id r = p)"
| "overwrites p (So_Remove q) = (q = p)"
| "overwrites p (So_Revoke q _) = (q = p)"
| "overwrites p (So_Rotate _ _ _ _ _) = False"

fun withdraws :: "PeerId \<Rightarrow> StoreOp \<Rightarrow> bool" where
  "withdraws p (So_Revoke q _) = (q = p)"
| "withdraws p (So_Rotate old _ _ _ _) = (p = old)"
| "withdraws p _ = False"

definition inactive :: "FileTrustStore \<Rightarrow> PeerId \<Rightarrow> TrustRecord \<Rightarrow> bool" where
  "inactive s p r = (bt_get (fts_records s) p = Some r \<and> \<not> TrustRecord_is_active r)"

lemma store_step_inactive:
  assumes ok: "store_ok s" and step: "store_step sha to_json (io, op) s = (ok, s')"
    and "inactive s p r" and "\<not> (ok \<and> overwrites p op)"
  shows "inactive s' p r"
proof (cases op)
  case (So_Upsert q)
  with step obtain res where "FileTrustStore_upsert to_json io q s = (res, s')" "ok = is_ok res" by (auto simp: map_prod_def split: prod.splits)
  with file_store.upsert_ok [OF ok, of to_json io q _ s'] file_store.upsert_err [OF ok, of to_json io q _ s'] assms(3,4) So_Upsert
  show ?thesis by (cases res) (auto simp: inactive_def)
next
  case (So_Remove q)
  with step obtain res where "FileTrustStore_remove to_json io q s = (res, s')" "ok = is_ok res" by (auto simp: map_prod_def split: prod.splits)
  with file_store.remove_ok [OF ok, of to_json io q _ s'] file_store.remove_err [OF ok, of to_json io q _ s'] assms(3,4) So_Remove
  show ?thesis by (cases res) (auto simp: inactive_def)
next
  case (So_Revoke q t)
  with step obtain res where "FileTrustStore_revoke to_json io q t s = (res, s')" "ok = is_ok res" by (auto simp: map_prod_def split: prod.splits)
  with file_store.revoke_ok [OF ok, of to_json io q t _ s'] file_store.revoke_err [OF ok, of to_json io q t _ s'] assms(3,4) So_Revoke
  show ?thesis by (cases res) (auto simp: inactive_def)
next
  case (So_Rotate old new k challenge t)
  with step obtain res where "FileTrustStore_rotate sha to_json io old new k challenge t s = (res, s')" "ok = is_ok res"
    by (auto simp: map_prod_def split: prod.splits)
  with file_store.rotate_ok [OF ok, of sha to_json io old new k challenge t _ s']
    file_store.rotate_err [OF ok, of sha to_json io old new k challenge t _ s'] assms(3)
  show ?thesis by (cases res) (auto simp: inactive_def)
qed

lemma store_step_revoked:
  assumes ok: "store_ok s" and step: "store_step sha to_json (io, So_Revoke p t) s = (True, s')"
  obtains r where "inactive s' p r" "tr_key_state r = Key_Revoked t"
proof -
  obtain u where "FileTrustStore_revoke to_json io p t s = (Inr u, s')"
    using step by (cases "FileTrustStore_revoke to_json io p t s"; cases "fst (FileTrustStore_revoke to_json io p t s)") auto
  from file_store.revoke_ok [OF ok this] that show ?thesis by (auto simp: inactive_def TrustRecord_is_active_iff)
qed

text \<open>Splitting a run where its log splits.\<close>

lemma store_run_split:
  assumes "store_run sha to_json cs s = (pre @ (op, ok) # post, s')"
  obtains cs1 io cs2 s1 s2 where "cs = cs1 @ (io, op) # cs2" "store_run sha to_json cs1 s = (pre, s1)"
    "store_step sha to_json (io, op) s1 = (ok, s2)" "store_run sha to_json cs2 s2 = (post, s')"
proof -
  have "\<exists>cs1 io cs2 s1 s2. cs = cs1 @ (io, op) # cs2 \<and> store_run sha to_json cs1 s = (pre, s1)
      \<and> store_step sha to_json (io, op) s1 = (ok, s2) \<and> store_run sha to_json cs2 s2 = (post, s')"
    using assms
  proof (induction pre arbitrary: cs s)
    case Nil
    then obtain c cs2 where "cs = c # cs2" by (cases cs) auto
    with Nil show ?case
      by (intro exI [of _ "[]"] exI [of _ "fst c"] exI [of _ cs2]) (auto split: prod.splits)
  next
    case (Cons l pre)
    then obtain c cs' ok1 u where c: "cs = c # cs'" "store_step sha to_json c s = (ok1, u)" "l = (snd c, ok1)"
      "store_run sha to_json cs' u = (pre @ (op, ok) # post, s')"
      by (cases cs) (auto split: prod.splits)
    from Cons.IH [OF c(4)] obtain cs1 io cs2 s1 s2 where "cs' = cs1 @ (io, op) # cs2" "store_run sha to_json cs1 u = (pre, s1)"
      "store_step sha to_json (io, op) s1 = (ok, s2)" "store_run sha to_json cs2 s2 = (post, s')" by blast
    with c(1-3) show ?case by (intro exI [of _ "c # cs1"] exI [of _ io] exI [of _ cs2]) auto
  qed
  with that show ?thesis by blast
qed

lemma store_run_inactive:
  assumes "store_ok s" and "store_run sha to_json cs s = (log, s')" and "inactive s p r"
    and "list_all (\<lambda>(op, ok). \<not> (ok \<and> overwrites p op)) log"
  shows "inactive s' p r"
  using assms
proof (induction cs arbitrary: s log)
  case (Cons c cs)
  obtain ok s1 where step: "store_step sha to_json (fst c, snd c) s = (ok, s1)" by fastforce
  with Cons.prems obtain log1 where run: "store_run sha to_json cs s1 = (log1, s')" and log: "log = (snd c, ok) # log1"
    by (auto split: prod.splits)
  from store_step_inactive [OF Cons.prems(1) step Cons.prems(3)] Cons.prems(4) log have "inactive s1 p r" by simp
  with Cons.IH [OF _ run] store_step_effect [OF Cons.prems(1) step] Cons.prems(4) log show ?case by auto
qed simp

subsection \<open>Properties\<close>

text \<open>C23: who may reconnect. After any operations on a store that started empty, with any
  failures to write among them: a peer authorised to reconnect with a key was granted that key by
  a successful operation, one that stored an active record with it or rotated another identity to
  it, and no later successful operation revoked, removed, rotated away or replaced the peer. A
  grant that nothing later touches authorises the peer, as long as no revocation of the peer and
  no rotation away from it came before. A successful revocation leaves a record in the revoked
  state with its time, which every later operation keeps, except one that stores, removes or
  revokes that very peer: in particular no rotation leads out of it.\<close>

theorem trust_store_authorizes:
  assumes "FileTrustStore_open_with_limit to_json from_json File_Absent io max_records = Some (Inr s0)"
    and "store_run sha to_json ops s0 = (log, s)"
  shows "(is_ok (authorize_trusted_reconnect FileTrustStore_get s p key) \<longrightarrow>
      (\<exists>pre op post. log = pre @ (op, True) # post \<and> grants p key op
         \<and> list_all (\<lambda>(later, succeeded). \<not> (succeeded \<and> concerns p later)) post))
    \<and> (\<forall>pre op post. log = pre @ (op, True) # post \<and> grants p key op
         \<and> list_all (\<lambda>(earlier, succeeded). \<not> (succeeded \<and> withdraws p earlier)) pre
         \<and> list_all (\<lambda>(later, succeeded). \<not> (succeeded \<and> concerns p later)) post
         \<longrightarrow> is_ok (authorize_trusted_reconnect FileTrustStore_get s p key))
    \<and> (\<forall>pre t post. log = pre @ (So_Revoke p t, True) # post
         \<and> list_all (\<lambda>(later, succeeded). \<not> (succeeded \<and> overwrites p later)) post
         \<longrightarrow> (\<exists>r. FileTrustStore_get s p = Inr (Some r) \<and> tr_key_state r = Key_Revoked t))"
proof -
  have ok: "store_ok s0" using open_store_ok [OF assms(1)] by blast
  have "bt_get (fts_records s0) p = None" using assms(1) by (cases rule: store_open_cases) simp_all
  then have "\<not> authorized FileTrustStore_get s0 p key" using file_store.authorized_iff [OF ok] by simp
  with store_run_effect [OF ok assms(2), of p key]
  have decided: "is_ok (authorize_trusted_reconnect FileTrustStore_get s p key) \<longleftrightarrow>
    (\<exists>pre op post. log = pre @ (op, True) # post \<and> grants p key op
       \<and> list_all (\<lambda>(later, succeeded). \<not> (succeeded \<and> concerns p later)) post)"
    by (simp add: decided_iff authorized_def)
  have "\<exists>r. FileTrustStore_get s p = Inr (Some r) \<and> tr_key_state r = Key_Revoked t"
    if log: "log = pre @ (So_Revoke p t, True) # post"
      and kept: "list_all (\<lambda>(later, succeeded). \<not> (succeeded \<and> overwrites p later)) post" for pre t post
  proof -
    from assms(2) log obtain cs1 io cs2 s1 s2 where r: "store_run sha to_json cs1 s0 = (pre, s1)"
      "store_step sha to_json (io, So_Revoke p t) s1 = (True, s2)" "store_run sha to_json cs2 s2 = (post, s)"
      by (auto elim: store_run_split)
    have ok1: "store_ok s1" using store_run_effect [OF ok r(1)] by blast
    then have ok2: "store_ok s2" using store_step_effect [OF _ r(2)] by blast
    obtain rec where "inactive s2 p rec" "tr_key_state rec = Key_Revoked t" by (rule store_step_revoked [OF ok1 r(2)])
    with store_run_inactive [OF ok2 r(3) _ kept] show ?thesis by (auto simp: inactive_def FileTrustStore_get_def)
  qed
  with decided show ?thesis by blast
qed


definition sample_record :: TrustRecord where
  "sample_record = \<lparr>tr_peer_id = PeerId 1, tr_public_key = [7], tr_alias = [97], tr_first_paired_at_unix_ms = 5,
     tr_permissions = bt_empty, tr_key_state = Key_Active, tr_last_pairing_challenge_hash = 0, tr_previous_key_fingerprints = []\<rparr>"

definition sample_io :: StoreIo where
  "sample_io = \<lparr>sio_windows = False, sio_prepared = True, sio_encoded = True, sio_flushed = True, sio_removed = True,
     sio_renamed = True\<rparr>"

definition sample_ops :: "(StoreIo \<times> StoreOp) list" where
  "sample_ops = [(sample_io, So_Upsert sample_record), (sample_io\<lparr>sio_renamed := False\<rparr>, So_Revoke (PeerId 1) 9)]"

text \<open>A code for stores of at most one record, the sample one.\<close>

definition sample_to_json :: "RecordDto list \<Rightarrow> bytes" where
  "sample_to_json dtos = [if dtos = [] then 91 else 49]"

definition sample_from_json :: "bytes \<Rightarrow> RecordDto list option" where
  "sample_from_json bs =
     (if bs = [91, 10] then Some [] else if bs = [49, 10] then Some [RecordDto_from sample_record] else None)"

definition sample_store :: FileTrustStore where
  "sample_store = \<lparr>fts_records = bt_empty, fts_max_records = 2, fts_file = Some [91, 10]\<rparr>"

lemma sample_store_open:
  "FileTrustStore_open_with_limit sample_to_json sample_from_json File_Absent sample_io 2 = Some (Inr sample_store)"
  by (simp add: FileTrustStore_open_with_limit_def FileTrustStore_persist_def remove_before_rename_def sample_store_def
      sample_io_def sample_to_json_def bt_values_def bt_empty.rep_eq)

lemma sample_record_valid: "validate_record sample_record = Inr ()"
  by (simp add: validate_record_def sample_record_def bt_empty.rep_eq MAX_PUBLIC_KEY_BYTES_def MAX_ALIAS_BYTES_def
      MAX_PERMISSIONS_def MAX_PREVIOUS_KEY_FINGERPRINTS_def)

lemma sample_store_values: "bt_values (bt_insert (PeerId 1) sample_record bt_empty) = [sample_record]"
  by (simp add: bt_values_def bt_insert.rep_eq bt_empty.rep_eq)

lemma sample_store_run:
  "store_run sha sample_to_json sample_ops sample_store =
     ([(So_Upsert sample_record, True), (So_Revoke (PeerId 1) 9, False)],
      \<lparr>fts_records = bt_insert (PeerId 1) sample_record bt_empty, fts_max_records = 2, fts_file = Some [49, 10]\<rparr>)"
  using sample_record_valid sample_store_values
  by (simp add: sample_ops_def sample_store_def FileTrustStore_upsert_def FileTrustStore_revoke_def FileTrustStore_replace_def
      FileTrustStore_persist_def remove_before_rename_def sample_io_def sample_to_json_def) (simp add: sample_record_def)

text \<open>C23 witness: an upsert that is written and a revocation that is not leave the peer
  authorised with its key.\<close>

theorem trust_store_authorizes_witness:
  "is_ok (authorize_trusted_reconnect FileTrustStore_get
     (snd (store_run (\<lambda>_. 0) sample_to_json sample_ops sample_store)) (PeerId 1) [7])"
proof -
  let ?log = "[(So_Upsert sample_record, True), (So_Revoke (PeerId 1) 9, False)]"
  have "grants (PeerId 1) [7] (So_Upsert sample_record)" by (simp add: sample_record_def TrustRecord_is_active_def)
  then have "?log = [] @ (So_Upsert sample_record, True) # [(So_Revoke (PeerId 1) 9, False)]
      \<and> grants (PeerId 1) [7] (So_Upsert sample_record)
      \<and> list_all (\<lambda>(earlier, succeeded). \<not> (succeeded \<and> withdraws (PeerId 1) earlier)) []
      \<and> list_all (\<lambda>(later, succeeded). \<not> (succeeded \<and> concerns (PeerId 1) later)) [(So_Revoke (PeerId 1) 9, False)]"
    by simp
  with conjunct1 [OF conjunct2 [OF trust_store_authorizes [OF sample_store_open sample_store_run [of "\<lambda>_. 0"], of "PeerId 1" "[7]"]]]
  show ?thesis unfolding sample_store_run snd_conv by blast
qed


end
