(* ===== verification/Link_Window.thy ===== *)
theory Link_Window
  imports Link_BTree
begin

text \<open>
  Sliding-window limiters. The pairing crate limits attempts and failures per peer and the
  discovery crate limits attempts per source with the same algorithm: per key the times of the
  admitted requests, those older than the window dropped from the front, a key forgotten when
  its latest time is that old, and a bound on the keys.

  The locale \<open>sliding_window\<close> is the contract both keep: a step drops only times that
  left the window and admits only while fewer than the maximum remain. What a limiter is for is
  proved in it once: of the admitted requests of a key, one and the one \<open>maximum\<close> places
  after it are at least a window apart. The definition \<open>window_admit\<close> is the reference
  algorithm; the crates' functions are shown to compute it.
\<close>

fun admissions :: "('k \<Rightarrow> 't \<Rightarrow> 's \<Rightarrow> bool \<times> 's) \<Rightarrow> 'k \<Rightarrow> ('k \<times> 't) list \<Rightarrow> 's \<Rightarrow> 't list" where
  "admissions step k [] s = []"
| "admissions step k ((k', now) # reqs) s =
     (case step k' now s of (ok, s') \<Rightarrow> (if ok \<and> k' = k then [now] else []) @ admissions step k reqs s')"

definition spaced :: "('t \<Rightarrow> nat) \<Rightarrow> nat \<Rightarrow> nat \<Rightarrow> 't list \<Rightarrow> bool" where
  "spaced clock window maximum ts =
     (\<forall>i. i + maximum < length ts \<longrightarrow> window \<le> clock (ts ! (i + maximum)) - clock (ts ! i))"

lemma spaced_Nil [simp]: "spaced clock window maximum []"
  by (simp add: spaced_def)

lemma spaced_snoc:
  assumes "spaced clock window maximum ts" and ts: "ts = old @ kept" and "length kept < maximum"
    and "\<And>t. t \<in> set old \<Longrightarrow> window \<le> clock now - clock t"
  shows "spaced clock window maximum (ts @ [now])"
  unfolding spaced_def
proof (intro allI impI)
  fix i assume i: "i + maximum < length (ts @ [now])"
  show "window \<le> clock ((ts @ [now]) ! (i + maximum)) - clock ((ts @ [now]) ! i)"
  proof (cases "i + maximum < length ts")
    case True
    with assms(1) show ?thesis by (simp add: spaced_def nth_append)
  next
    case False
    with i have at: "i + maximum = length ts" by simp
    with assms(3) have "i < length old" by (simp add: ts)
    then show ?thesis using assms(4) [of "old ! i"] at by (simp add: nth_append ts)
  qed
qed

subsection \<open>The contract\<close>

locale sliding_window =
  fixes clock :: "'t \<Rightarrow> nat" and window :: nat and maximum :: "'k \<Rightarrow> nat"
    and step :: "'k \<Rightarrow> 't \<Rightarrow> 's \<Rightarrow> bool \<times> 's"
    and entries :: "'s \<Rightarrow> 'k \<Rightarrow> 't list"
    and inv :: "'s \<Rightarrow> bool"
  assumes step_inv: "inv s \<Longrightarrow> step k now s = (ok, s') \<Longrightarrow> inv s'"
    and step_entries: "inv s \<Longrightarrow> step k now s = (ok, s') \<Longrightarrow> sorted (map clock (entries s k')) \<Longrightarrow>
      \<exists>old kept. entries s k' = old @ kept \<and> (\<forall>t \<in> set old. window \<le> clock now - clock t)
        \<and> entries s' k' = kept @ (if ok \<and> k' = k then [now] else []) \<and> (ok \<and> k' = k \<longrightarrow> length kept < maximum k)"
begin

definition remembers :: "'k \<Rightarrow> 't list \<Rightarrow> nat \<Rightarrow> 's \<Rightarrow> bool" where
  "remembers k past time s = (inv s \<and> sorted (map clock past) \<and> (\<forall>t \<in> set past. clock t \<le> time)
     \<and> spaced clock window (maximum k) past
     \<and> (\<exists>old. past = old @ entries s k \<and> (\<forall>t \<in> set old. window \<le> time - clock t)))"

lemma remembers_start: "inv s \<Longrightarrow> entries s k = [] \<Longrightarrow> remembers k [] time s"
  by (simp add: remembers_def)

lemma remembers_step:
  assumes "remembers k past time s" "step k' now s = (ok, s')" "time \<le> clock now"
  shows "remembers k (past @ (if ok \<and> k' = k then [now] else [])) (clock now) s'"
proof -
  from assms(1) obtain old where past: "past = old @ entries s k" "\<forall>t \<in> set old. window \<le> time - clock t"
    and inv: "inv s" and srt: "sorted (map clock past)" and le: "\<forall>t \<in> set past. clock t \<le> time"
    and sp: "spaced clock window (maximum k) past"
    by (auto simp: remembers_def)
  have "sorted (map clock (entries s k))" using srt past(1) by (simp add: sorted_append)
  with step_entries [OF inv assms(2), of k] obtain gone kept where e: "entries s k = gone @ kept"
      "\<forall>t \<in> set gone. window \<le> clock now - clock t" "entries s' k = kept @ (if ok \<and> k = k' then [now] else [])"
      "ok \<and> k = k' \<longrightarrow> length kept < maximum k"
    by blast
  have stale: "\<forall>t \<in> set (old @ gone). window \<le> clock now - clock t"
    using past(2) e(2) assms(3) by (auto intro: order_trans [OF _ diff_le_mono])
  have sp': "spaced clock window (maximum k) (past @ [now])" if "ok" "k' = k"
    using spaced_snoc [of clock window "maximum k" past "old @ gone" kept now] sp stale e(1,4) past(1) that by simp
  have ex: "past @ (if ok \<and> k' = k then [now] else []) = (old @ gone) @ entries s' k"
    using past(1) e(1,3) by auto
  have "sorted (map clock (past @ (if ok \<and> k' = k then [now] else [])))"
    "\<forall>t \<in> set (past @ (if ok \<and> k' = k then [now] else [])). clock t \<le> clock now"
    "spaced clock window (maximum k) (past @ (if ok \<and> k' = k then [now] else []))"
    using le srt sp sp' assms(3) by (auto simp: sorted_append intro: order_trans)
  with stale ex step_inv [OF inv assms(2)] show ?thesis
    unfolding remembers_def by blast
qed

lemma remembers_run:
  assumes "remembers k past time s" "sorted (map (clock \<circ> snd) reqs)" "\<forall>r \<in> set reqs. time \<le> clock (snd r)"
  shows "\<exists>time' s'. remembers k (past @ admissions step k reqs s) time' s'"
  using assms
proof (induction reqs arbitrary: past time s)
  case (Cons r reqs)
  obtain k' now where r: "r = (k', now)" by fastforce
  obtain ok s' where st: "step k' now s = (ok, s')" by fastforce
  have "remembers k (past @ (if ok \<and> k' = k then [now] else [])) (clock now) s'"
    using remembers_step [OF Cons.prems(1) st] Cons.prems(3) r by simp
  from Cons.IH [OF this] Cons.prems(2) r st show ?case by auto
qed auto

lemma admissions_spaced:
  assumes "inv s" "entries s k = []" "sorted (map (clock \<circ> snd) reqs)"
  shows "spaced clock window (maximum k) (admissions step k reqs s)"
  using remembers_run [OF remembers_start [OF assms(1,2), of 0] assms(3)] by (auto simp: remembers_def)

end

subsection \<open>The reference limiter\<close>

definition entries_of :: "('k::linorder, 't list) btree \<Rightarrow> 'k \<Rightarrow> 't list" where
  "entries_of m k = (case bt_get m k of None \<Rightarrow> [] | Some es \<Rightarrow> es)"

definition window_admit ::
  "('t \<Rightarrow> nat) \<Rightarrow> nat \<Rightarrow> nat \<Rightarrow> nat \<Rightarrow> 'k::linorder \<Rightarrow> 't \<Rightarrow> ('k, 't list) btree \<Rightarrow> bool \<times> ('k, 't list) btree" where
  "window_admit clock window maximum max_keys k now m =
     (let m = bt_retain (\<lambda>_ es. es \<noteq> [] \<and> clock now - clock (last es) < window) m in
      if \<not> bt_contains m k \<and> bt_len m \<ge> max_keys then (False, m)
      else
        let es = dropWhile (\<lambda>t. clock now - clock t \<ge> window) (entries_of m k)
        in if length es \<ge> maximum then (False, bt_insert k es m) else (True, bt_insert k (es @ [now]) m))"

lemma entries_of_empty [simp]: "entries_of bt_empty k = []"
  by (simp add: entries_of_def)

lemma entries_of_insert [simp]: "entries_of (bt_insert k es m) k' = (if k' = k then es else entries_of m k')"
  by (simp add: entries_of_def)

lemma entries_of_retain:
  "entries_of (bt_retain P m) k = (if P k (entries_of m k) then entries_of m k else [])"
  by (simp add: entries_of_def bt_get_retain split: option.splits)

lemma stale_last:
  fixes clock :: "'t \<Rightarrow> nat"
  assumes "sorted (map clock es)" "es \<noteq> []" "window \<le> now - clock (last es)" "t \<in> set es"
  shows "window \<le> now - clock t"
proof -
  obtain es' x where es: "es = es' @ [x]" using assms(2) by (cases es rule: rev_cases) auto
  with assms(1,4) have "clock t \<le> clock (last es)" by (auto simp: sorted_append)
  with assms(3) show ?thesis by linarith
qed

lemma retain_entries:
  fixes clock :: "'t \<Rightarrow> nat"
  assumes "sorted (map clock (entries_of m k))"
  shows "\<exists>old. entries_of m k = old @ entries_of (bt_retain (\<lambda>_ es. es \<noteq> [] \<and> clock now - clock (last es) < window) m) k
    \<and> (\<forall>t \<in> set old. window \<le> clock now - clock t)"
proof (cases "entries_of m k \<noteq> [] \<and> clock now - clock (last (entries_of m k)) < window")
  case False
  then show ?thesis
    by (intro exI [of _ "entries_of m k"]) (auto simp: entries_of_retain not_less intro: stale_last [OF assms])
qed (simp add: entries_of_retain)

lemma window_admit_entries:
  fixes clock :: "'t \<Rightarrow> nat"
  assumes "window_admit clock window maximum max_keys k now m = (ok, m')" "sorted (map clock (entries_of m k'))"
  shows "\<exists>old kept. entries_of m k' = old @ kept \<and> (\<forall>t \<in> set old. window \<le> clock now - clock t)
    \<and> entries_of m' k' = kept @ (if ok \<and> k' = k then [now] else []) \<and> (ok \<and> k' = k \<longrightarrow> length kept < maximum)"
proof -
  define r where "r = bt_retain (\<lambda>_ es. es \<noteq> [] \<and> clock now - clock (last es) < window) m"
  define stale where "stale = (\<lambda>t. clock now - clock t \<ge> window)"
  from retain_entries [OF assms(2), of now window] obtain old where old: "entries_of m k' = old @ entries_of r k'"
    "\<forall>t \<in> set old. window \<le> clock now - clock t" by (auto simp: r_def)
  have eq: "(ok, m') = (if \<not> bt_contains r k \<and> bt_len r \<ge> max_keys then (False, r)
     else if length (dropWhile stale (entries_of r k)) \<ge> maximum then (False, bt_insert k (dropWhile stale (entries_of r k)) r)
     else (True, bt_insert k (dropWhile stale (entries_of r k) @ [now]) r))"
    using assms(1) unfolding window_admit_def Let_def r_def stale_def by (rule sym)
  have dropped: "\<forall>t \<in> set (takeWhile stale (entries_of r k)). window \<le> clock now - clock t"
    by (auto simp: stale_def dest: set_takeWhileD)
  show ?thesis
  proof (cases "k' = k \<and> (bt_contains r k \<or> bt_len r < max_keys)")
    case True
    with eq old dropped show ?thesis
      by (intro exI [of _ "old @ takeWhile stale (entries_of r k)"] exI [of _ "dropWhile stale (entries_of r k)"])
        (auto split: if_splits)
  next
    case False
    with eq old show ?thesis
      by (intro exI [of _ old] exI [of _ "entries_of r k'"]) (auto split: if_splits)
  qed
qed

lemma bt_len_retain: "bt_len (bt_retain P m) \<le> bt_len m"
  by transfer simp

lemma window_admit_keys:
  assumes "window_admit clock window maximum max_keys k now m = (ok, m')" "bt_len m \<le> max_keys"
  shows "bt_len m' \<le> max_keys"
proof -
  define r where "r = bt_retain (\<lambda>_ es. es \<noteq> [] \<and> clock now - clock (last es) < window) m"
  have "bt_len r \<le> max_keys" using assms(2) bt_len_retain order_trans unfolding r_def by blast
  with assms(1) show ?thesis
    by (auto simp: window_admit_def r_def [symmetric] Let_def bt_contains_def split: if_splits)
qed

end
