(* ===== verification/Link_Rate_Limit.thy ===== *)
theory Link_Rate_Limit
  imports Link_Pairing Link_Window
begin

text \<open>
  The limiter of pairing attempts, \<^verbatim>\<open>rate_limit.rs\<close> of the pairing crate: begun attempts
  and failures are counted apart, per peer, over a sliding window of milliseconds. Both counters
  interpret the locale \<open>sliding_window\<close>.
\<close>

record PairingRateLimit =
  prl_max_attempts :: nat
  prl_max_failures :: nat
  prl_max_peers :: nat
  prl_window_ms :: u64

record PairingAttemptLimiter =
  pal_limit :: PairingRateLimit
  pal_attempts :: "(PeerId, u64 list) btree"
  pal_failures :: "(PeerId, u64 list) btree"

definition rate_error :: "string \<Rightarrow> PairingError" where
  "rate_error message = \<lparr>pe_kind = Pk_RateLimited, pe_public_message = message\<rparr>"

definition PairingAttemptLimiter_new :: "PairingRateLimit \<Rightarrow> (PairingError, PairingAttemptLimiter) result" where
  "PairingAttemptLimiter_new limit =
     (if prl_max_attempts limit = 0 \<or> prl_max_failures limit = 0 \<or> prl_max_peers limit = 0 \<or> prl_window_ms limit = 0
      then Inl (rate_error ''pairing rate limit must be positive'')
      else Inr \<lparr>pal_limit = limit, pal_attempts = bt_empty, pal_failures = bt_empty\<rparr>)"

definition admit ::
  "PeerId \<Rightarrow> nat \<Rightarrow> nat \<Rightarrow> u64 \<Rightarrow> u64 \<Rightarrow> (PeerId, u64 list) btree \<Rightarrow> (PairingError, unit) result \<times> (PeerId, u64 list) btree" where
  "admit peer_id maximum max_peers window_ms now_unix_ms peers =
     (let peers = bt_retain (\<lambda>_ entries. entries \<noteq> [] \<and> sat_sub now_unix_ms (last entries) < window_ms) peers in
      if \<not> bt_contains peers peer_id \<and> bt_len peers \<ge> max_peers
      then (Inl (rate_error ''pairing peer limit was reached''), peers)
      else
        let entries = (case bt_get peers peer_id of None \<Rightarrow> [] | Some entries \<Rightarrow> entries);
            entries = dropWhile (\<lambda>entry. sat_sub now_unix_ms entry \<ge> window_ms) entries
        in if length entries \<ge> maximum
           then (Inl (rate_error ''pairing request was rate limited''), bt_insert peer_id entries peers)
           else (Inr (), bt_insert peer_id (entries @ [now_unix_ms]) peers))"

definition PairingAttemptLimiter_begin ::
  "PeerId \<Rightarrow> u64 \<Rightarrow> PairingAttemptLimiter \<Rightarrow> (PairingError, unit) result \<times> PairingAttemptLimiter" where
  "PairingAttemptLimiter_begin peer_id now_unix_ms self =
     (case admit peer_id (prl_max_attempts (pal_limit self)) (prl_max_peers (pal_limit self)) (prl_window_ms (pal_limit self))
         now_unix_ms (pal_attempts self) of
        (r, attempts) \<Rightarrow> (r, self\<lparr>pal_attempts := attempts\<rparr>))"

definition PairingAttemptLimiter_record_failure ::
  "PeerId \<Rightarrow> u64 \<Rightarrow> PairingAttemptLimiter \<Rightarrow> (PairingError, unit) result \<times> PairingAttemptLimiter" where
  "PairingAttemptLimiter_record_failure peer_id now_unix_ms self =
     (case admit peer_id (prl_max_failures (pal_limit self)) (prl_max_peers (pal_limit self)) (prl_window_ms (pal_limit self))
         now_unix_ms (pal_failures self) of
        (r, failures) \<Rightarrow> (r, self\<lparr>pal_failures := failures\<rparr>))"

subsection \<open>The limiter keeps the contract\<close>

lemma admit_window:
  "map_prod is_ok id (admit p maximum max_peers window now m) = window_admit unat (unat window) maximum max_peers p now m"
  by (auto simp: admit_def window_admit_def entries_of_def Let_def word_less_nat_alt word_le_nat_alt sat_unats
      split: option.splits)

text \<open>A request to begin an attempt or to record a failure, with the peer it is for.\<close>

datatype LimitedKind = Attempt | Failure

fun limiter_step :: "LimitedKind \<times> PeerId \<Rightarrow> u64 \<Rightarrow> PairingAttemptLimiter \<Rightarrow> bool \<times> PairingAttemptLimiter" where
  "limiter_step (Attempt, p) now s = map_prod is_ok id (PairingAttemptLimiter_begin p now s)"
| "limiter_step (Failure, p) now s = map_prod is_ok id (PairingAttemptLimiter_record_failure p now s)"

fun limiter_entries :: "PairingAttemptLimiter \<Rightarrow> LimitedKind \<times> PeerId \<Rightarrow> u64 list" where
  "limiter_entries s (Attempt, p) = entries_of (pal_attempts s) p"
| "limiter_entries s (Failure, p) = entries_of (pal_failures s) p"

fun limiter_maximum :: "PairingRateLimit \<Rightarrow> LimitedKind \<times> PeerId \<Rightarrow> nat" where
  "limiter_maximum limit (Attempt, _) = prl_max_attempts limit"
| "limiter_maximum limit (Failure, _) = prl_max_failures limit"

lemma begin_window:
  assumes "limiter_step (Attempt, p) now s = (ok, s')"
  shows "window_admit unat (unat (prl_window_ms (pal_limit s))) (prl_max_attempts (pal_limit s)) (prl_max_peers (pal_limit s)) p now
      (pal_attempts s) = (ok, pal_attempts s')" and "pal_limit s' = pal_limit s" and "pal_failures s' = pal_failures s"
  using assms by (auto simp: PairingAttemptLimiter_begin_def admit_window [symmetric] split: prod.splits)

lemma failure_window:
  assumes "limiter_step (Failure, p) now s = (ok, s')"
  shows "window_admit unat (unat (prl_window_ms (pal_limit s))) (prl_max_failures (pal_limit s)) (prl_max_peers (pal_limit s)) p now
      (pal_failures s) = (ok, pal_failures s')" and "pal_limit s' = pal_limit s" and "pal_attempts s' = pal_attempts s"
  using assms by (auto simp: PairingAttemptLimiter_record_failure_def admit_window [symmetric] split: prod.splits)

lemma limiter_step_frame:
  assumes "limiter_step (kind, p) now s = (ok, s')"
  shows "pal_limit s' = pal_limit s" and "kind' \<noteq> kind \<Longrightarrow> limiter_entries s' (kind', q) = limiter_entries s (kind', q)"
  using assms begin_window(2,3) [of p now s ok s'] failure_window(2,3) [of p now s ok s']
  by (cases kind; cases kind'; simp del: limiter_step.simps)+

definition limiter_inv :: "PairingRateLimit \<Rightarrow> PairingAttemptLimiter \<Rightarrow> bool" where
  "limiter_inv limit s = (pal_limit s = limit \<and> bt_len (pal_attempts s) \<le> prl_max_peers limit
     \<and> bt_len (pal_failures s) \<le> prl_max_peers limit)"

lemma limiter_step_inv: "limiter_inv limit s \<Longrightarrow> limiter_step k now s = (ok, s') \<Longrightarrow> limiter_inv limit s'"
proof (cases k)
  case (Pair kind p)
  assume "limiter_inv limit s" "limiter_step k now s = (ok, s')"
  with Pair begin_window [of p now s ok s'] failure_window [of p now s ok s'] show ?thesis
    by (cases kind) (auto simp: limiter_inv_def simp del: limiter_step.simps intro: window_admit_keys)
qed

interpretation limiter: sliding_window unat "unat (prl_window_ms limit)" "limiter_maximum limit" limiter_step limiter_entries
  "limiter_inv limit"
proof unfold_locales
  fix s k now ok s' k'
  assume inv: "limiter_inv limit s" and step: "limiter_step k now s = (ok, s')"
  then show "limiter_inv limit s'" by (rule limiter_step_inv)
  assume srt: "sorted (map unat (limiter_entries s k'))"
  have limit: "pal_limit s = limit" using inv by (simp add: limiter_inv_def)
  obtain kind p kind' p' where k: "k = (kind, p)" "k' = (kind', p')" by fastforce
  show "\<exists>old kept. limiter_entries s k' = old @ kept \<and> (\<forall>t \<in> set old. unat (prl_window_ms limit) \<le> unat now - unat t)
    \<and> limiter_entries s' k' = kept @ (if ok \<and> k' = k then [now] else []) \<and> (ok \<and> k' = k \<longrightarrow> length kept < limiter_maximum limit k)"
  proof (cases "kind' = kind")
    case True
    show ?thesis
    proof (cases kind)
      case Attempt
      with window_admit_entries [OF begin_window(1), of p now s ok s' p'] step srt limit k True show ?thesis
        by (simp del: limiter_step.simps)
    next
      case Failure
      with window_admit_entries [OF failure_window(1), of p now s ok s' p'] step srt limit k True show ?thesis
        by (simp del: limiter_step.simps)
    qed
  next
    case False
    with limiter_step_frame(2) [of kind p now s ok s' kind' p'] step k show ?thesis
      by (intro exI [of _ "[]"] exI [of _ "limiter_entries s k'"]) auto
  qed
qed

subsection \<open>What the limiter stores\<close>

text \<open>Whatever times it is given, the limiter stores no more times of a key than its maximum.\<close>

lemma window_admit_length:
  assumes "window_admit clock window maximum max_keys k now m = (ok, m')" and "\<And>k. length (entries_of m k) \<le> maximum"
  shows "length (entries_of m' k') \<le> maximum"
proof -
  define r where "r = bt_retain (\<lambda>_ es. es \<noteq> [] \<and> clock now - clock (last es) < window) m"
  have r: "length (entries_of r k) \<le> maximum" for k using assms(2) [of k] by (simp add: r_def entries_of_retain)
  have "length (dropWhile P (entries_of r k)) \<le> maximum" for P using length_dropWhile_le [of P "entries_of r k"] r [of k] by linarith
  with assms(1) r [of k'] show ?thesis
    by (auto simp: window_admit_def r_def [symmetric] Let_def split: if_splits)
qed

definition limiter_after :: "((LimitedKind \<times> PeerId) \<times> u64) list \<Rightarrow> PairingAttemptLimiter \<Rightarrow> PairingAttemptLimiter" where
  "limiter_after requests s = fold (\<lambda>(k, now) s. snd (limiter_step k now s)) requests s"

definition limiter_bounded :: "PairingRateLimit \<Rightarrow> PairingAttemptLimiter \<Rightarrow> bool" where
  "limiter_bounded limit s = (limiter_inv limit s \<and> (\<forall>k. length (limiter_entries s k) \<le> limiter_maximum limit k))"

lemma limiter_step_bounded:
  assumes "limiter_bounded limit s" and "limiter_step k now s = (ok, s')"
  shows "limiter_bounded limit s'"
proof -
  obtain kind p where k: "k = (kind, p)" by fastforce
  have inv: "limiter_inv limit s'" "pal_limit s = limit"
    using assms(1) limiter_step_inv [OF _ assms(2)] by (simp_all add: limiter_bounded_def limiter_inv_def)
  have len: "length (entries_of (pal_attempts s) q) \<le> prl_max_attempts limit"
    "length (entries_of (pal_failures s) q) \<le> prl_max_failures limit" for q
    using conjunct2 [OF assms(1) [unfolded limiter_bounded_def], rule_format, of "(Attempt, q)"]
      conjunct2 [OF assms(1) [unfolded limiter_bounded_def], rule_format, of "(Failure, q)"] by simp_all
  have "length (limiter_entries s' (kind', q)) \<le> limiter_maximum limit (kind', q)" for kind' q
  proof (cases "kind' = kind")
    case True
    show ?thesis
    proof (cases kind)
      case Attempt
      with assms(2) k have "limiter_step (Attempt, p) now s = (ok, s')" by (simp only:)
      from window_admit_length [OF begin_window(1) [OF this]] len(1) inv(2) True Attempt show ?thesis by simp
    next
      case Failure
      with assms(2) k have "limiter_step (Failure, p) now s = (ok, s')" by (simp only:)
      from window_admit_length [OF failure_window(1) [OF this]] len(2) inv(2) True Failure show ?thesis by simp
    qed
  next
    case False
    with limiter_step_frame(2) [OF assms(2) [unfolded k], of kind' q] assms(1) show ?thesis
      by (simp add: limiter_bounded_def)
  qed
  with inv(1) show ?thesis by (simp add: limiter_bounded_def split_paired_all)
qed

lemma limiter_after_bounded: "limiter_bounded limit s \<Longrightarrow> limiter_bounded limit (limiter_after requests s)"
proof (induction requests arbitrary: s)
  case (Cons r requests)
  obtain k now where r: "r = (k, now)" by fastforce
  have "limiter_bounded limit (snd (limiter_step k now s))"
    using limiter_step_bounded [OF Cons.prems, of k now] by (cases "limiter_step k now s") simp
  from Cons.IH [OF this] show ?case by (simp add: limiter_after_def r)
qed (simp add: limiter_after_def)

subsection \<open>Property\<close>

text \<open>C27: pairing attempts are limited. Asked by any peers, at any times, to begin attempts and to
  record failures in any order, the limiter keeps records of at most \<open>max_peers\<close> peers in each of
  its tables and of at most \<open>max_attempts\<close> attempts and \<open>max_failures\<close> failures of each. As long as
  the times it is given never go back, the attempts it admits of a peer are such that one and the
  one \<open>max_attempts\<close> places after it are at least a window apart, so no window has more; the same
  holds for failures and their maximum. The times are the caller's wall clock: when it is set
  back, a window can have more, as the lemma \<open>limit_exceeded_after_clock_step\<close> shows.\<close>

theorem pairing_attempts_limited:
  assumes "PairingAttemptLimiter_new limit = Inr s"
  shows "bt_len (pal_attempts (limiter_after requests s)) \<le> prl_max_peers limit
    \<and> bt_len (pal_failures (limiter_after requests s)) \<le> prl_max_peers limit
    \<and> length (entries_of (pal_attempts (limiter_after requests s)) p) \<le> prl_max_attempts limit
    \<and> length (entries_of (pal_failures (limiter_after requests s)) p) \<le> prl_max_failures limit
    \<and> (sorted (map (unat \<circ> snd) requests) \<longrightarrow>
        spaced unat (unat (prl_window_ms limit)) (prl_max_attempts limit) (admissions limiter_step (Attempt, p) requests s)
        \<and> spaced unat (unat (prl_window_ms limit)) (prl_max_failures limit) (admissions limiter_step (Failure, p) requests s))"
proof -
  have start: "limiter_inv limit s" "limiter_entries s (kind, q) = []" for kind q
    using assms by (cases kind; auto simp: PairingAttemptLimiter_new_def limiter_inv_def split: if_splits)+
  then have "limiter_bounded limit s" by (simp add: limiter_bounded_def split_paired_all)
  then have "limiter_bounded limit (limiter_after requests s)" by (rule limiter_after_bounded)
  then have stored: "limiter_inv limit (limiter_after requests s)"
    "length (limiter_entries (limiter_after requests s) (kind, p)) \<le> limiter_maximum limit (kind, p)" for kind
    by (simp_all add: limiter_bounded_def)
  have "spaced unat (unat (prl_window_ms limit)) (limiter_maximum limit (kind, p)) (admissions limiter_step (kind, p) requests s)"
    if "sorted (map (unat \<circ> snd) requests)" for kind
    using limiter.admissions_spaced [OF start that] .
  from this [of Attempt] this [of Failure] stored(1) stored(2) [of Attempt] stored(2) [of Failure] show ?thesis
    by (simp add: limiter_inv_def)
qed

definition sample_limit :: PairingRateLimit where
  "sample_limit = \<lparr>prl_max_attempts = 2, prl_max_failures = 1, prl_max_peers = 4, prl_window_ms = 100\<rparr>"

definition sample_limiter :: PairingAttemptLimiter where
  "sample_limiter = \<lparr>pal_limit = sample_limit, pal_attempts = bt_empty, pal_failures = bt_empty\<rparr>"

text \<open>A clock that steps back lets a limiter of two attempts in a window of one hundred admit three
  within fifty: the time zero, stored last, makes the next request forget the attempt at 200.\<close>

lemma limit_exceeded_after_clock_step:
  "admissions limiter_step (Attempt, PeerId 1)
     [((Attempt, PeerId 1), 200), ((Attempt, PeerId 1), 0), ((Attempt, PeerId 1), 150), ((Attempt, PeerId 1), 151)] sample_limiter
   = [200, 0, 150, 151]"
  by code_simp

text \<open>C27 witness: of attempts at 10, 20, 30 and 115 the third is refused, and the fourth is
  admitted a window after the first.\<close>

theorem pairing_attempts_limited_witness:
  "admissions limiter_step (Attempt, PeerId 1)
     [((Attempt, PeerId 1), 10), ((Attempt, PeerId 1), 20), ((Failure, PeerId 1), 25), ((Attempt, PeerId 1), 30), ((Attempt, PeerId 1), 115)]
     sample_limiter = [10, 20, 115]
   \<and> spaced unat 100 2 ([10, 20, 115] :: u64 list)"
proof -
  let ?reqs = "[((Attempt, PeerId 1), 10), ((Attempt, PeerId 1), 20), ((Failure, PeerId 1), 25), ((Attempt, PeerId 1), 30),
    ((Attempt, PeerId 1), 115)] :: ((LimitedKind \<times> PeerId) \<times> u64) list"
  have run: "admissions limiter_step (Attempt, PeerId 1) ?reqs sample_limiter = [10, 20, 115]"
    by code_simp
  have "PairingAttemptLimiter_new sample_limit = Inr sample_limiter"
    by (simp add: PairingAttemptLimiter_new_def sample_limit_def sample_limiter_def)
  then have "spaced unat (unat (prl_window_ms sample_limit)) (prl_max_attempts sample_limit)
      (admissions limiter_step (Attempt, PeerId 1) ?reqs sample_limiter)"
    using pairing_attempts_limited [of sample_limit sample_limiter ?reqs "PeerId 1"] by simp
  with run show ?thesis by (simp add: sample_limit_def)
qed

end
