(* ===== verification/Link_Discovery.thy ===== *)
theory Link_Discovery
  imports Link_Selection Link_Window "HOL-Library.List_Lexorder"
begin

text \<open>
  Discovery, \<^verbatim>\<open>mutsuki-link-discovery/src/lib.rs\<close>: the attempt limiter and the manual
  provider, which holds announced candidates until they expire and reports them poll by poll. An
  \<^verbatim>\<open>Instant\<close> is a natural number, so a difference that would be negative is zero, as
  \<^verbatim>\<open>saturating_duration_since\<close> returns. The mDNS provider is in \<open>Link_Mdns\<close>.

  The limiter interprets the locale \<open>sliding_window\<close>. The lemmas show what the provider
  keeps after any operations and what each poll reports.
\<close>

subsection \<open>Candidates and events\<close>

datatype DiscoveryId = DiscoveryId (discovery_id_bytes: u128)

instantiation DiscoveryId :: linorder
begin
definition less_eq_DiscoveryId :: "DiscoveryId \<Rightarrow> DiscoveryId \<Rightarrow> bool" where
  "less_eq_DiscoveryId a b = (discovery_id_bytes a \<le> discovery_id_bytes b)"
definition less_DiscoveryId :: "DiscoveryId \<Rightarrow> DiscoveryId \<Rightarrow> bool" where
  "less_DiscoveryId a b = (discovery_id_bytes a < discovery_id_bytes b)"
instance by standard (auto simp: less_eq_DiscoveryId_def less_DiscoveryId_def intro: DiscoveryId.expand)
end

record DiscoveredEndpoint =
  de_address :: EndpointAddress
  de_priority :: u16
  de_advertised_security :: SecurityLevel

record DiscoveredPeer =
  dp_discovery_id :: DiscoveryId
  dp_service_type :: bytes
  dp_endpoints :: "DiscoveredEndpoint list"
  dp_expires_at :: Instant

datatype DiscoveryEvent = Found DiscoveredPeer | Expired DiscoveryId | Stopped

record DiscoveryRequest =
  dr_service_type :: bytes
  dr_max_results_per_poll :: nat

datatype DiscoveryErrorKind = Dk_InvalidInput | Dk_RateLimited | Dk_AlreadyRunning | Dk_NotRunning | Dk_ProviderFailure

record DiscoveryError =
  derr_kind :: DiscoveryErrorKind
  derr_public_message :: string

definition discovery_error :: "DiscoveryErrorKind \<Rightarrow> string \<Rightarrow> DiscoveryError" where
  "discovery_error kind public_message = \<lparr>derr_kind = kind, derr_public_message = public_message\<rparr>"

definition validate_request :: "DiscoveryRequest \<Rightarrow> (DiscoveryError, unit) result" where
  "validate_request request =
     (if dr_service_type request = [] \<or> dr_max_results_per_poll request = 0
      then Inl (discovery_error Dk_InvalidInput ''discovery request is invalid'')
      else Inr ())"

subsection \<open>The attempt limiter\<close>

record RateLimit =
  rl_attempts :: nat
  rl_window :: nat
  rl_max_sources :: nat
  rl_max_candidates :: nat

record AttemptRateLimiter =
  arl_limit :: RateLimit
  arl_attempts :: "(bytes, Instant list) btree"

definition AttemptRateLimiter_new :: "RateLimit \<Rightarrow> (DiscoveryError, AttemptRateLimiter) result" where
  "AttemptRateLimiter_new limit =
     (if rl_attempts limit = 0 \<or> rl_window limit = 0 \<or> rl_max_sources limit = 0 \<or> rl_max_candidates limit = 0
      then Inl (discovery_error Dk_InvalidInput ''rate limit must be positive'')
      else Inr \<lparr>arl_limit = limit, arl_attempts = bt_empty\<rparr>)"

definition AttemptRateLimiter_allow :: "bytes \<Rightarrow> Instant \<Rightarrow> AttemptRateLimiter \<Rightarrow> bool \<times> AttemptRateLimiter" where
  "AttemptRateLimiter_allow source now self =
     (let limit = arl_limit self;
          all = bt_retain (\<lambda>_ attempts. attempts \<noteq> [] \<and> now - last attempts < rl_window limit) (arl_attempts self)
      in if \<not> bt_contains all source \<and> bt_len all \<ge> rl_max_sources limit
         then (False, self\<lparr>arl_attempts := all\<rparr>)
         else
           let attempts = (case bt_get all source of None \<Rightarrow> [] | Some attempts \<Rightarrow> attempts);
               attempts = dropWhile (\<lambda>attempt. now - attempt \<ge> rl_window limit) attempts
           in if length attempts \<ge> rl_attempts limit
              then (False, self\<lparr>arl_attempts := bt_insert source attempts all\<rparr>)
              else (True, self\<lparr>arl_attempts := bt_insert source (attempts @ [now]) all\<rparr>))"

subsection \<open>The manual provider\<close>

record ManualDiscovery =
  md_request :: "DiscoveryRequest option"
  md_pending :: "DiscoveryEvent list"
  md_active :: "(DiscoveryId, Instant) btree"
  md_limiter :: AttemptRateLimiter

definition ManualDiscovery_new :: "RateLimit \<Rightarrow> (DiscoveryError, ManualDiscovery) result" where
  "ManualDiscovery_new limit =
     result_bind (AttemptRateLimiter_new limit) (\<lambda>limiter.
       Inr \<lparr>md_request = None, md_pending = [], md_active = bt_empty, md_limiter = limiter\<rparr>)"

definition not_running :: DiscoveryError where
  "not_running = discovery_error Dk_NotRunning ''manual discovery is not running''"

definition found_of :: "DiscoveryId \<Rightarrow> DiscoveryEvent \<Rightarrow> bool" where
  "found_of ident event = (case event of Found peer \<Rightarrow> dp_discovery_id peer = ident | _ \<Rightarrow> False)"

text \<open>The limiter is asked last: a candidate refused for its lifetime or for the capacity does
  not count as an attempt.\<close>

definition ManualDiscovery_add_address ::
  "bytes \<Rightarrow> DiscoveryId \<Rightarrow> DiscoveredEndpoint \<Rightarrow> nat \<Rightarrow> Instant \<Rightarrow> ManualDiscovery
     \<Rightarrow> (DiscoveryError, unit) result \<times> ManualDiscovery" where
  "ManualDiscovery_add_address source discovery_id endpoint ttl now self =
     (case md_request self of
        None \<Rightarrow> (Inl not_running, self)
      | Some request \<Rightarrow>
          let at_capacity = (\<not> bt_contains (md_active self) discovery_id
                \<and> bt_len (md_active self) \<ge> rl_max_candidates (arl_limit (md_limiter self)));
              (allowed, limiter) =
                (if ttl = 0 \<or> at_capacity then (False, md_limiter self)
                 else AttemptRateLimiter_allow source now (md_limiter self));
              self = self\<lparr>md_limiter := limiter\<rparr>
          in if \<not> allowed
             then (Inl (discovery_error (if ttl = 0 then Dk_InvalidInput else Dk_RateLimited)
                          ''manual discovery candidate was rejected''), self)
             else
               let expires_at = now + ttl
               in (Inr (), self\<lparr>md_active := bt_insert discovery_id expires_at (md_active self),
                     md_pending := filter (\<lambda>event. \<not> found_of discovery_id event) (md_pending self)
                       @ [Found \<lparr>dp_discovery_id = discovery_id, dp_service_type = dr_service_type request,
                                 dp_endpoints = [endpoint], dp_expires_at = expires_at\<rparr>]\<rparr>))"

definition ManualDiscovery_start ::
  "DiscoveryRequest \<Rightarrow> Instant \<Rightarrow> ManualDiscovery \<Rightarrow> (DiscoveryError, unit) result \<times> ManualDiscovery" where
  "ManualDiscovery_start request now self =
     (if md_request self \<noteq> None
      then (Inl (discovery_error Dk_AlreadyRunning ''manual discovery is already running''), self)
      else
        case validate_request request of
          Inl e \<Rightarrow> (Inl e, self)
        | Inr _ \<Rightarrow> (Inr (), self\<lparr>md_request := Some request\<rparr>))"

definition expire_one :: "DiscoveryId \<Rightarrow> ManualDiscovery \<Rightarrow> ManualDiscovery" where
  "expire_one ident self =
     self\<lparr>md_active := bt_remove ident (md_active self),
          md_pending := filter (\<lambda>event. \<not> found_of ident event) (md_pending self)\<rparr>"

text \<open>The loop over the pending events: how many more results fit, and the queue.\<close>

fun report_pending ::
  "Instant \<Rightarrow> nat \<Rightarrow> DiscoveryEvent list \<Rightarrow> (DiscoveryId, Instant) btree
     \<Rightarrow> DiscoveryEvent list \<times> DiscoveryEvent list \<times> (DiscoveryId, Instant) btree" where
  "report_pending now 0 pending active = ([], pending, active)"
| "report_pending now (Suc room) [] active = ([], [], active)"
| "report_pending now (Suc room) (event # pending) active =
     (let (event, active) =
            (case event of
               Found peer \<Rightarrow>
                 if dp_expires_at peer \<le> now
                 then (Expired (dp_discovery_id peer), bt_remove (dp_discovery_id peer) active)
                 else (event, active)
             | _ \<Rightarrow> (event, active));
          (events, rest) = report_pending now room pending active
      in (event # events, rest))"

definition ManualDiscovery_poll ::
  "Instant \<Rightarrow> ManualDiscovery \<Rightarrow> (DiscoveryError, DiscoveryEvent list) result \<times> ManualDiscovery" where
  "ManualDiscovery_poll now self =
     (case md_request self of
        None \<Rightarrow> (Inl not_running, self)
      | Some request \<Rightarrow>
          let limit = dr_max_results_per_poll request;
              expired = take limit (map fst (filter (\<lambda>(ident, expires_at). expires_at \<le> now) (bt_entries (md_active self))));
              self = fold expire_one expired self;
              events = map Expired expired;
              (reported, pending, active) =
                report_pending now (limit - length events) (md_pending self) (md_active self)
          in (Inr (events @ reported), self\<lparr>md_pending := pending, md_active := active\<rparr>))"

definition ManualDiscovery_stop :: "ManualDiscovery \<Rightarrow> (DiscoveryError, unit) result \<times> ManualDiscovery" where
  "ManualDiscovery_stop self =
     (if md_request self = None then (Inl not_running, self)
      else (Inr (), self\<lparr>md_request := None, md_pending := [], md_active := bt_empty\<rparr>))"

subsection \<open>The limiter keeps the contract\<close>

lemma allow_window:
  assumes "AttemptRateLimiter_allow source now s = (ok, s')"
  shows "window_admit id (rl_window (arl_limit s)) (rl_attempts (arl_limit s)) (rl_max_sources (arl_limit s)) source now
      (arl_attempts s) = (ok, arl_attempts s')" and "arl_limit s' = arl_limit s"
  using assms
  by (auto simp: AttemptRateLimiter_allow_def window_admit_def entries_of_def Let_def split: if_splits)

definition sources_inv :: "RateLimit \<Rightarrow> AttemptRateLimiter \<Rightarrow> bool" where
  "sources_inv limit s = (arl_limit s = limit \<and> bt_len (arl_attempts s) \<le> rl_max_sources limit)"

interpretation sources: sliding_window id "rl_window limit" "\<lambda>_. rl_attempts limit" AttemptRateLimiter_allow
  "\<lambda>s. entries_of (arl_attempts s)" "sources_inv limit"
proof unfold_locales
  fix s k now ok s' k'
  assume inv: "sources_inv limit s" and step: "AttemptRateLimiter_allow k now s = (ok, s')"
  have limit: "arl_limit s = limit" using inv by (simp add: sources_inv_def)
  show "sources_inv limit s'"
    using inv window_admit_keys [OF allow_window(1) [OF step]] allow_window(2) [OF step] by (simp add: sources_inv_def)
  assume "sorted (map id (entries_of (arl_attempts s) k'))"
  from window_admit_entries [OF allow_window(1) [OF step] this]
  show "\<exists>old kept. entries_of (arl_attempts s) k' = old @ kept \<and> (\<forall>t \<in> set old. rl_window limit \<le> id now - id t)
    \<and> entries_of (arl_attempts s') k' = kept @ (if ok \<and> k' = k then [now] else [])
    \<and> (ok \<and> k' = k \<longrightarrow> length kept < rl_attempts limit)"
    by (simp add: limit)
qed

subsection \<open>What the provider keeps\<close>

definition pending_ok :: "(DiscoveryId, Instant) btree \<Rightarrow> DiscoveryEvent list \<Rightarrow> DiscoveredPeer list \<Rightarrow> bool" where
  "pending_ok active pending peers = (pending = map Found peers \<and> distinct (map dp_discovery_id peers)
     \<and> (\<forall>peer \<in> set peers. bt_get active (dp_discovery_id peer) = Some (dp_expires_at peer)))"

definition provider_inv :: "RateLimit \<Rightarrow> ManualDiscovery \<Rightarrow> bool" where
  "provider_inv limit s = (arl_limit (md_limiter s) = limit \<and> bt_len (md_active s) \<le> rl_max_candidates limit
     \<and> (\<exists>peers. pending_ok (md_active s) (md_pending s) peers))"

lemma filter_found: "filter (\<lambda>event. \<not> found_of ident event) (map Found peers)
    = map Found (filter (\<lambda>peer. dp_discovery_id peer \<noteq> ident) peers)"
  by (simp add: filter_map comp_def found_of_def)

lemma pending_ok_filter:
  "pending_ok active pending peers \<Longrightarrow>
   pending_ok (bt_remove ident active) (filter (\<lambda>event. \<not> found_of ident event) pending)
     (filter (\<lambda>peer. dp_discovery_id peer \<noteq> ident) peers)"
  by (auto simp: pending_ok_def filter_found distinct_map_filter)

lemma expire_all:
  "md_active (fold expire_one ids s) = fold bt_remove ids (md_active s)
   \<and> md_pending (fold expire_one ids s) = filter (\<lambda>event. \<forall>ident \<in> set ids. \<not> found_of ident event) (md_pending s)
   \<and> md_limiter (fold expire_one ids s) = md_limiter s \<and> md_request (fold expire_one ids s) = md_request s"
  by (induction ids arbitrary: s) (auto simp: expire_one_def intro: filter_cong)

lemma removed_all: "bt_get (fold bt_remove ids m) k = (if k \<in> set ids then None else bt_get m k)"
  by (induction ids arbitrary: m) auto

lemma removed_len: "bt_len (fold bt_remove ids m) \<le> bt_len m"
proof (induction ids arbitrary: m)
  case (Cons a ids)
  have "bt_len (bt_remove a m) \<le> bt_len m" by simp
  with Cons [of "bt_remove a m"] show ?case by (simp del: bt_simps)
qed simp

lemma report_pending_fresh:
  "\<forall>peer \<in> set peers. now < dp_expires_at peer \<Longrightarrow>
   report_pending now room (map Found peers) active = (map Found (take room peers), map Found (drop room peers), active)"
proof (induction room arbitrary: peers)
  case (Suc room)
  then show ?case by (cases peers) (auto simp: not_le)
qed simp

definition expired_ids :: "Instant \<Rightarrow> (DiscoveryId, Instant) btree \<Rightarrow> DiscoveryId list" where
  "expired_ids now active = map fst (filter (\<lambda>(ident, expires_at). expires_at \<le> now) (bt_entries active))"

lemma expired_ids_iff: "ident \<in> set (expired_ids now active) \<longleftrightarrow> (\<exists>t \<le> now. bt_get active ident = Some t)"
  by (force simp: expired_ids_def bt_entries_get [symmetric])

lemma poll_effect:
  assumes inv: "provider_inv limit s" and req: "md_request s = Some request"
    and poll: "ManualDiscovery_poll now s = (r, s')"
  defines "gone \<equiv> take (dr_max_results_per_poll request) (expired_ids now (md_active s))"
  shows "\<exists>peers room. pending_ok (fold bt_remove gone (md_active s)) (map Found peers) peers
    \<and> room = dr_max_results_per_poll request - length gone
    \<and> (0 < room \<longrightarrow> (\<forall>peer \<in> set peers. now < dp_expires_at peer) \<and> gone = expired_ids now (md_active s))
    \<and> r = Inr (map Expired gone @ map Found (take room peers))
    \<and> s' = s\<lparr>md_active := fold bt_remove gone (md_active s), md_pending := map Found (drop room peers)\<rparr>"
proof -
  from inv obtain old where old: "pending_ok (md_active s) (md_pending s) old" by (auto simp: provider_inv_def)
  define peers where "peers = filter (\<lambda>peer. dp_discovery_id peer \<notin> set gone) old"
  define room where "room = dr_max_results_per_poll request - length gone"
  define s1 where "s1 = fold expire_one gone s"
  have kept: "md_pending s1 = map Found peers" "md_active s1 = fold bt_remove gone (md_active s)"
    "md_request s1 = md_request s" "md_limiter s1 = md_limiter s"
    using expire_all [of gone s] old
    by (auto simp: s1_def peers_def pending_ok_def filter_map comp_def found_of_def intro!: arg_cong [where f = "map Found"] filter_cong)
  have ok: "pending_ok (fold bt_remove gone (md_active s)) (map Found peers) peers"
    using old by (auto simp: pending_ok_def peers_def removed_all distinct_map_filter)
  have all: "gone = expired_ids now (md_active s)" if "0 < room"
    using that by (auto simp: room_def gone_def)
  have fresh: "\<forall>peer \<in> set peers. now < dp_expires_at peer" if "0 < room"
  proof
    fix peer assume "peer \<in> set peers"
    then have "bt_get (md_active s) (dp_discovery_id peer) = Some (dp_expires_at peer)" "dp_discovery_id peer \<notin> set gone"
      using old by (auto simp: peers_def pending_ok_def)
    with all [OF that] expired_ids_iff [of "dp_discovery_id peer" now "md_active s"] show "now < dp_expires_at peer"
      by (auto simp: not_less)
  qed
  have rep: "report_pending now room (map Found peers) (fold bt_remove gone (md_active s))
      = (map Found (take room peers), map Found (drop room peers), fold bt_remove gone (md_active s))"
    using report_pending_fresh [of peers now room] fresh by (cases room) auto
  have room: "dr_max_results_per_poll request - min (length (filter (\<lambda>(ident, expires_at). expires_at \<le> now)
      (bt_entries (md_active s)))) (dr_max_results_per_poll request) = room"
    by (simp add: room_def gone_def expired_ids_def)
  have "ManualDiscovery_poll now s = (Inr (map Expired gone @ map Found (take room peers)),
      s1\<lparr>md_pending := map Found (drop room peers), md_active := fold bt_remove gone (md_active s)\<rparr>)"
    using rep kept room
    by (simp add: ManualDiscovery_poll_def req Let_def gone_def [symmetric, unfolded expired_ids_def] s1_def [symmetric])
  moreover have "s1\<lparr>md_pending := map Found (drop room peers), md_active := fold bt_remove gone (md_active s)\<rparr>
      = s\<lparr>md_active := fold bt_remove gone (md_active s), md_pending := map Found (drop room peers)\<rparr>"
    using kept(3,4) by (cases s; cases s1) simp
  ultimately have "r = Inr (map Expired gone @ map Found (take room peers))"
    "s' = s\<lparr>md_active := fold bt_remove gone (md_active s), md_pending := map Found (drop room peers)\<rparr>"
    using poll by simp_all
  with ok fresh all room_def show ?thesis by blast
qed

subsection \<open>Runs of the provider\<close>

inductive discovery_reach :: "RateLimit \<Rightarrow> ManualDiscovery \<Rightarrow> bool" for limit where
  create: "ManualDiscovery_new limit = Inr s \<Longrightarrow> discovery_reach limit s"
| start: "discovery_reach limit s \<Longrightarrow> ManualDiscovery_start request now s = (r, s') \<Longrightarrow> discovery_reach limit s'"
| add: "discovery_reach limit s \<Longrightarrow> ManualDiscovery_add_address source ident endpoint ttl now s = (r, s')
    \<Longrightarrow> discovery_reach limit s'"
| poll: "discovery_reach limit s \<Longrightarrow> ManualDiscovery_poll now s = (r', s') \<Longrightarrow> discovery_reach limit s'"
| stop: "discovery_reach limit s \<Longrightarrow> ManualDiscovery_stop s = (r, s') \<Longrightarrow> discovery_reach limit s'"

lemma add_inv:
  assumes "provider_inv limit s" "ManualDiscovery_add_address source ident endpoint ttl now s = (r, s')"
  shows "provider_inv limit s'"
proof (cases "md_request s")
  case None
  with assms show ?thesis by (simp add: ManualDiscovery_add_address_def)
next
  case (Some request)
  from assms(1) obtain peers where peers: "pending_ok (md_active s) (md_pending s) peers"
    and lim: "arl_limit (md_limiter s) = limit" "bt_len (md_active s) \<le> rl_max_candidates limit"
    by (auto simp: provider_inv_def)
  define blocked where "blocked = (ttl = 0 \<or> \<not> bt_contains (md_active s) ident
      \<and> bt_len (md_active s) \<ge> rl_max_candidates (arl_limit (md_limiter s)))"
  obtain allowed limiter where al: "(if blocked then (False, md_limiter s) else AttemptRateLimiter_allow source now (md_limiter s))
      = (allowed, limiter)" by fastforce
  have limiter: "arl_limit limiter = limit"
    using al lim(1) allow_window(2) [of source now "md_limiter s" allowed limiter] by (auto split: if_splits)
  define peer where "peer = \<lparr>dp_discovery_id = ident, dp_service_type = dr_service_type request,
      dp_endpoints = [endpoint], dp_expires_at = now + ttl\<rparr>"
  show ?thesis
  proof (cases allowed)
    case False
    with assms(2) Some al have "s' = s\<lparr>md_limiter := limiter\<rparr>"
      by (simp add: ManualDiscovery_add_address_def blocked_def Let_def split: prod.splits)
    with peers lim limiter show ?thesis by (auto simp: provider_inv_def)
  next
    case True
    with assms(2) Some al have s': "s' = s\<lparr>md_limiter := limiter, md_active := bt_insert ident (now + ttl) (md_active s),
        md_pending := filter (\<lambda>event. \<not> found_of ident event) (md_pending s) @ [Found peer]\<rparr>"
      by (simp add: ManualDiscovery_add_address_def blocked_def peer_def Let_def split: prod.splits)
    have room: "bt_contains (md_active s) ident \<or> bt_len (md_active s) < rl_max_candidates limit"
      using True al lim(1) by (auto simp: blocked_def split: if_splits)
    have "pending_ok (bt_insert ident (now + ttl) (md_active s))
        (filter (\<lambda>event. \<not> found_of ident event) (md_pending s) @ [Found peer])
        (filter (\<lambda>peer. dp_discovery_id peer \<noteq> ident) peers @ [peer])"
      using peers by (auto simp: pending_ok_def filter_found distinct_map_filter peer_def)
    with s' limiter lim(2) room show ?thesis by (auto simp: provider_inv_def bt_contains_def)
  qed
qed

lemma poll_inv:
  assumes "provider_inv limit s" "ManualDiscovery_poll now s = (r, s')"
  shows "provider_inv limit s'"
proof (cases "md_request s")
  case None
  with assms show ?thesis by (simp add: ManualDiscovery_poll_def)
next
  case (Some request)
  from poll_effect [OF assms(1) this assms(2)] obtain gone peers room where
    ok: "pending_ok (fold bt_remove gone (md_active s)) (map Found peers) peers"
    and s': "s' = s\<lparr>md_active := fold bt_remove gone (md_active s), md_pending := map Found (drop room peers)\<rparr>"
    by blast
  have "pending_ok (fold bt_remove gone (md_active s)) (map Found (drop room peers)) (drop room peers)"
    using ok by (auto simp: pending_ok_def drop_map [symmetric] dest: in_set_dropD)
  moreover have "bt_len (fold bt_remove gone (md_active s)) \<le> rl_max_candidates limit"
    using assms(1) removed_len [of gone "md_active s"] by (simp add: provider_inv_def)
  ultimately show ?thesis using s' assms(1) by (auto simp: provider_inv_def)
qed

lemma reach_provider_inv: "discovery_reach limit s \<Longrightarrow> provider_inv limit s"
proof (induction rule: discovery_reach.induct)
  case (create s)
  then show ?case
    by (auto simp: ManualDiscovery_new_def AttemptRateLimiter_new_def result_bind_eq_Inr provider_inv_def pending_ok_def
        split: if_splits)
next
  case (start s request now r s')
  then show ?case by (auto simp: ManualDiscovery_start_def provider_inv_def split: if_splits sum.splits)
next
  case (add s source ident endpoint ttl now r s')
  then show ?case using add_inv by blast
next
  case (poll s now r' s')
  then show ?case using poll_inv by blast
next
  case (stop s r s')
  then show ?case by (auto simp: ManualDiscovery_stop_def provider_inv_def pending_ok_def split: if_splits)
qed

subsection \<open>Property\<close>

text \<open>What a poll of the manual provider reports. After any operations, a poll of a running
  provider returns at most the requested number of events; it reports a candidate as found only
  before it expires and while it is active, and not again; it reports a candidate as expired
  exactly when it was active, its time had come and it is active no longer; and when it
  returns fewer events than requested, nothing is pending and no active candidate has expired.
  The active candidates and the pending reports never exceed the configured maximum.\<close>

theorem discovery_poll_reports:
  assumes "discovery_reach limit s" and "md_request s = Some request"
    and "ManualDiscovery_poll now s = (Inr events, s')"
  shows "length events \<le> dr_max_results_per_poll request
    \<and> (\<forall>peer. Found peer \<in> set events \<longrightarrow> now < dp_expires_at peer
      \<and> bt_get (md_active s') (dp_discovery_id peer) = Some (dp_expires_at peer) \<and> Found peer \<notin> set (md_pending s'))
    \<and> (\<forall>ident. Expired ident \<in> set events \<longleftrightarrow>
      (\<exists>t \<le> now. bt_get (md_active s) ident = Some t) \<and> bt_get (md_active s') ident = None)
    \<and> (length events < dr_max_results_per_poll request \<longrightarrow>
      md_pending s' = [] \<and> (\<forall>ident t. bt_get (md_active s') ident = Some t \<longrightarrow> now < t))
    \<and> length (md_pending s') \<le> bt_len (md_active s') \<and> bt_len (md_active s') \<le> rl_max_candidates limit"
proof -
  have inv: "provider_inv limit s" using assms(1) by (rule reach_provider_inv)
  define gone where "gone = take (dr_max_results_per_poll request) (expired_ids now (md_active s))"
  from poll_effect [OF inv assms(2,3)] obtain peers room where
    ok: "pending_ok (fold bt_remove gone (md_active s)) (map Found peers) peers"
    and room: "room = dr_max_results_per_poll request - length gone"
    and fresh: "0 < room \<Longrightarrow> \<forall>peer \<in> set peers. now < dp_expires_at peer"
    and all: "0 < room \<Longrightarrow> gone = expired_ids now (md_active s)"
    and events: "events = map Expired gone @ map Found (take room peers)"
    and s': "s' = s\<lparr>md_active := fold bt_remove gone (md_active s), md_pending := map Found (drop room peers)\<rparr>"
    by (auto simp: gone_def)
  have gone: "length gone \<le> dr_max_results_per_poll request" "set gone \<subseteq> set (expired_ids now (md_active s))"
    by (auto simp: gone_def dest: in_set_takeD)
  have "distinct peers" using ok by (auto simp: pending_ok_def distinct_map)
  then have apart: "set (take room peers) \<inter> set (drop room peers) = {}" by (rule set_take_disj_set_drop_if_distinct) simp
  have found: "now < dp_expires_at peer \<and> bt_get (md_active s') (dp_discovery_id peer) = Some (dp_expires_at peer)
      \<and> Found peer \<notin> set (md_pending s')" if "Found peer \<in> set events" for peer
  proof -
    have "peer \<in> set (take room peers)" using that by (auto simp: events)
    moreover from this have "0 < room" "peer \<in> set peers" by (cases room; auto dest: in_set_takeD)+
    ultimately show ?thesis using fresh ok apart by (auto simp: s' pending_ok_def)
  qed
  have expired: "Expired ident \<in> set events \<longleftrightarrow>
      (\<exists>t \<le> now. bt_get (md_active s) ident = Some t) \<and> bt_get (md_active s') ident = None" for ident
    using gone(2) expired_ids_iff [of ident now "md_active s"] by (auto simp: events s' removed_all)
  have rest: "md_pending s' = [] \<and> (\<forall>ident t. bt_get (md_active s') ident = Some t \<longrightarrow> now < t)"
    if less: "length events < dr_max_results_per_poll request"
  proof -
    have "0 < room" "length peers \<le> room" using less gone(1) by (auto simp: events room)
    with all expired_ids_iff [of _ now "md_active s"] show ?thesis
      by (auto simp: s' removed_all split: if_splits) (metis not_le)
  qed
  have "provider_inv limit s'" using inv assms(3) by (rule poll_inv)
  moreover have "length peers \<le> bt_len (fold bt_remove gone (md_active s))"
  proof -
    have "card (set (map dp_discovery_id peers)) \<le> card {k. bt_get (fold bt_remove gone (md_active s)) k \<noteq> None}"
      by (rule card_mono [OF bt_finite_keys]) (use ok in \<open>auto simp: pending_ok_def\<close>)
    moreover have "card (set (map dp_discovery_id peers)) = length peers"
      using ok distinct_card [of "map dp_discovery_id peers"] by (simp add: pending_ok_def)
    ultimately show ?thesis by (simp only: bt_len_card)
  qed
  ultimately show ?thesis
    using found expired rest gone(1) by (auto simp: events s' room provider_inv_def)
qed

definition sample_rate_limit :: RateLimit where
  "sample_rate_limit = \<lparr>rl_attempts = 5, rl_window = 100, rl_max_sources = 3, rl_max_candidates = 4\<rparr>"

definition sample_request :: DiscoveryRequest where
  "sample_request = \<lparr>dr_service_type = [1], dr_max_results_per_poll = 3\<rparr>"

definition sample_endpoint :: DiscoveredEndpoint where
  "sample_endpoint = \<lparr>de_address = \<lparr>addr_scheme = [1], addr_address = [2]\<rparr>, de_priority = 1, de_advertised_security = Plaintext\<rparr>"

definition sample_created :: ManualDiscovery where
  "sample_created = \<lparr>md_request = None, md_pending = [], md_active = bt_empty,
     md_limiter = \<lparr>arl_limit = sample_rate_limit, arl_attempts = bt_empty\<rparr>\<rparr>"

definition sample_provider :: ManualDiscovery where
  "sample_provider =
     snd (ManualDiscovery_add_address [9] (DiscoveryId 2) sample_endpoint 100 0
       (snd (ManualDiscovery_add_address [9] (DiscoveryId 1) sample_endpoint 10 0
         (snd (ManualDiscovery_start sample_request 0 sample_created)))))"

lemma sample_provider_reach: "discovery_reach sample_rate_limit sample_provider"
proof -
  have "discovery_reach sample_rate_limit sample_created"
    by (rule discovery_reach.create)
      (simp add: ManualDiscovery_new_def AttemptRateLimiter_new_def sample_created_def sample_rate_limit_def)
  then show ?thesis
    unfolding sample_provider_def
    by (intro discovery_reach.add [OF _ prod.collapse [symmetric]] discovery_reach.start [OF _ prod.collapse [symmetric]])
qed

text \<open>Of two candidates one has expired and the other is reported.\<close>

theorem discovery_poll_reports_witness:
  "\<exists>events s'. ManualDiscovery_poll 20 sample_provider = (Inr events, s') \<and> length events = 2
     \<and> Expired (DiscoveryId 1) \<in> set events \<and> bt_get (md_active s') (DiscoveryId 1) = None \<and> md_pending s' = []"
proof -
  obtain r s' where poll: "ManualDiscovery_poll 20 sample_provider = (r, s')" by fastforce
  have "map_prod (case_sum (\<lambda>_. 0) length) (\<lambda>s. bt_entries (md_active s)) (ManualDiscovery_poll 20 sample_provider)
      = (2, [(DiscoveryId 2, 100)])"
    and request: "md_request sample_provider = Some sample_request"
    and active: "bt_entries (md_active sample_provider) = [(DiscoveryId 1, 10), (DiscoveryId 2, 100)]"
    by code_simp+
  with poll obtain events where r: "r = Inr events" and len: "length events = 2"
    and entries: "bt_entries (md_active s') = [(DiscoveryId 2, 100)]"
    by (cases r) auto
  have gone: "bt_get (md_active sample_provider) (DiscoveryId 1) = Some 10" "bt_get (md_active s') (DiscoveryId 1) = None"
    by (simp_all add: bt_get.rep_eq active entries)
  have "Expired (DiscoveryId 1) \<in> set events \<and> md_pending s' = []"
    using discovery_poll_reports [OF sample_provider_reach request, of 20 events s'] poll r len gone
    by (auto simp: sample_request_def)
  with poll r len gone(2) show ?thesis by blast
qed

end
