(* ===== verification/Link_Mdns.thy ===== *)
theory Link_Mdns
  imports Link_Discovery
begin

text \<open>
  The multicast provider of discovery, \<^verbatim>\<open>mutsuki-link-discovery/src/lib.rs\<close>, module \<^verbatim>\<open>mdns\<close>. The third-party
  daemon is the environment: what a call on it returns is an argument, and the receiver it hands out is the list of
  the events waiting in it, to which the daemon adds. How an address and a port are written as text is the argument
  \<open>show_address\<close>.

  The lemmas show that a poll never panics, reports no more than asked for, and reports a candidate as expired only
  after it was found.
\<close>

record 'ip ServiceRecord =
  sv_fullname :: bytes
  sv_ty_domain :: bytes
  sv_transport :: "bytes option"
  sv_addresses :: "'ip list"
  sv_port :: u16

datatype 'ip ServiceEvent = Sv_Resolved "'ip ServiceRecord" | Sv_Removed bytes bytes | Sv_SearchStopped bytes | Sv_Other

record 'ip MdnsDiscovery =
  mdn_receiver :: "'ip ServiceEvent list option"
  mdn_request :: "DiscoveryRequest option"
  mdn_ttl :: nat
  mdn_limiter :: AttemptRateLimiter
  mdn_resolved :: "(bytes, DiscoveryId) btree"

definition provider_error :: DiscoveryError where
  "provider_error = discovery_error Dk_ProviderFailure ''mDNS provider operation failed''"

definition MdnsDiscovery_new :: "bool \<Rightarrow> nat \<Rightarrow> RateLimit \<Rightarrow> (DiscoveryError, 'ip MdnsDiscovery) result" where
  "MdnsDiscovery_new daemon_started ttl limit =
     (if ttl = 0 then Inl (discovery_error Dk_InvalidInput ''mDNS TTL must be positive'')
      else if \<not> daemon_started then Inl provider_error
      else
        result_bind (AttemptRateLimiter_new limit) (\<lambda>limiter.
          Inr \<lparr>mdn_receiver = None, mdn_request = None, mdn_ttl = ttl, mdn_limiter = limiter, mdn_resolved = bt_empty\<rparr>))"

text \<open>\<open>service\<close> is the name of the service record for those properties, when they make one; \<open>register\<close> is whether the
  daemon takes it. The properties are the version in decimal digits and the transport.\<close>

definition MdnsDiscovery_advertise ::
  "(u16 \<Rightarrow> bytes) \<Rightarrow> (bytes \<Rightarrow> bytes \<Rightarrow> bytes \<Rightarrow> u16 \<Rightarrow> (bytes \<times> bytes) list \<Rightarrow> bytes option) \<Rightarrow> (bytes \<Rightarrow> bool)
     \<Rightarrow> bytes \<Rightarrow> bytes \<Rightarrow> bytes \<Rightarrow> u16 \<Rightarrow> u16 \<Rightarrow> bytes \<Rightarrow> (DiscoveryError, bytes) result" where
  "MdnsDiscovery_advertise decimal service register service_type instance_token host_token port protocol_major transport =
     result_bind (ok_or provider_error
         (service service_type instance_token host_token port [([118], decimal protocol_major), ([116], transport)])) (\<lambda>fullname.
       if register fullname then Inr fullname else Inl provider_error)"

definition MdnsDiscovery_unregister :: "(bytes \<Rightarrow> bool) \<Rightarrow> bytes \<Rightarrow> (DiscoveryError, unit) result" where
  "MdnsDiscovery_unregister unregister fullname = (if unregister fullname then Inr () else Inl provider_error)"

definition MdnsDiscovery_start ::
  "bool \<Rightarrow> DiscoveryRequest \<Rightarrow> Instant \<Rightarrow> 'ip MdnsDiscovery \<Rightarrow> (DiscoveryError, unit) result \<times> 'ip MdnsDiscovery" where
  "MdnsDiscovery_start browsing request now self =
     (if mdn_request self \<noteq> None then (Inl (discovery_error Dk_AlreadyRunning ''mDNS discovery is already running''), self)
      else
        case validate_request request of
          Inl e \<Rightarrow> (Inl e, self)
        | Inr _ \<Rightarrow>
            (case AttemptRateLimiter_allow (dr_service_type request) now (mdn_limiter self) of (allowed, limiter) \<Rightarrow>
               let self = self\<lparr>mdn_limiter := limiter\<rparr>
               in if \<not> allowed then (Inl (discovery_error Dk_RateLimited ''mDNS discovery request was rate limited''), self)
                  else if \<not> browsing then (Inl provider_error, self)
                  else (Inr (), self\<lparr>mdn_receiver := Some [], mdn_request := Some request\<rparr>)))"

definition fnv_step :: "u64 \<Rightarrow> u8 \<Rightarrow> u64" where
  "fnv_step hash byte = (hash XOR ucast byte) * 0x100000001b3"

definition id_from_name :: "bytes \<Rightarrow> DiscoveryId" where
  "id_from_name name =
     (let left = foldl fnv_step 0xcbf29ce484222325 name;
          right = foldl (\<lambda>hash byte. fnv_step hash (word_rotl 1 byte)) 0x84222325cbf29ce4 name
      in DiscoveryId (from_be_bytes (to_be_bytes left @ to_be_bytes right)))"

text \<open>The bytes of \<^verbatim>\<open>tcp\<close> and \<^verbatim>\<open>quic\<close>.\<close>

definition resolved_peer :: "('ip \<Rightarrow> u16 \<Rightarrow> bytes) \<Rightarrow> Instant \<Rightarrow> nat \<Rightarrow> 'ip ServiceRecord \<Rightarrow> DiscoveredPeer" where
  "resolved_peer show_address now ttl info =
     (let transport = (case sv_transport info of None \<Rightarrow> [116, 99, 112] | Some transport \<Rightarrow> transport)
      in \<lparr>dp_discovery_id = id_from_name (sv_fullname info), dp_service_type = sv_ty_domain info,
          dp_endpoints = map (\<lambda>address.
            \<lparr>de_address = \<lparr>addr_scheme = transport, addr_address = show_address address (sv_port info)\<rparr>, de_priority = 100,
             de_advertised_security = (if transport = [113, 117, 105, 99] then AuthenticatedEncrypted else Plaintext)\<rparr>) (sv_addresses info),
          dp_expires_at = now + ttl\<rparr>)"

text \<open>The loop of a poll: how many more results fit, and what waits in the receiver.\<close>

fun mdns_poll_loop ::
  "('ip \<Rightarrow> u16 \<Rightarrow> bytes) \<Rightarrow> Instant \<Rightarrow> nat \<Rightarrow> nat \<Rightarrow> 'ip ServiceEvent list \<Rightarrow> (bytes, DiscoveryId) btree
     \<Rightarrow> DiscoveryEvent list \<times> 'ip ServiceEvent list \<times> (bytes, DiscoveryId) btree" where
  "mdns_poll_loop show_address now ttl 0 waiting resolved = ([], waiting, resolved)"
| "mdns_poll_loop show_address now ttl (Suc room) [] resolved = ([], [], resolved)"
| "mdns_poll_loop show_address now ttl (Suc room) (event # waiting) resolved =
     (case event of
        Sv_Resolved info \<Rightarrow>
          (case mdns_poll_loop show_address now ttl room waiting
                  (bt_insert (sv_fullname info) (id_from_name (sv_fullname info)) resolved) of
             (events, rest) \<Rightarrow> (Found (resolved_peer show_address now ttl info) # events, rest))
      | Sv_Removed service_type fullname \<Rightarrow>
          (case bt_get resolved fullname of
             None \<Rightarrow> mdns_poll_loop show_address now ttl (Suc room) waiting resolved
           | Some ident \<Rightarrow>
               (case mdns_poll_loop show_address now ttl room waiting (bt_remove fullname resolved) of
                  (events, rest) \<Rightarrow> (Expired ident # events, rest)))
      | Sv_SearchStopped service_type \<Rightarrow>
          (case mdns_poll_loop show_address now ttl room waiting resolved of (events, rest) \<Rightarrow> (Stopped # events, rest))
      | Sv_Other \<Rightarrow> mdns_poll_loop show_address now ttl (Suc room) waiting resolved)"

text \<open>A running provider without a receiver would panic.\<close>

definition MdnsDiscovery_poll ::
  "('ip \<Rightarrow> u16 \<Rightarrow> bytes) \<Rightarrow> Instant \<Rightarrow> 'ip MdnsDiscovery \<Rightarrow> ((DiscoveryError, DiscoveryEvent list) result \<times> 'ip MdnsDiscovery) option" where
  "MdnsDiscovery_poll show_address now self =
     (case mdn_request self of
        None \<Rightarrow> Some (Inl (discovery_error Dk_NotRunning ''mDNS discovery is not running''), self)
      | Some request \<Rightarrow>
          (case mdn_receiver self of
             None \<Rightarrow> None
           | Some waiting \<Rightarrow>
               (case mdns_poll_loop show_address now (mdn_ttl self) (dr_max_results_per_poll request) waiting (mdn_resolved self) of
                  (events, waiting, resolved) \<Rightarrow> Some (Inr events, self\<lparr>mdn_receiver := Some waiting, mdn_resolved := resolved\<rparr>))))"

definition MdnsDiscovery_stop :: "bool \<Rightarrow> 'ip MdnsDiscovery \<Rightarrow> (DiscoveryError, unit) result \<times> 'ip MdnsDiscovery" where
  "MdnsDiscovery_stop stopped self =
     (if mdn_request self = None then (Inl (discovery_error Dk_NotRunning ''mDNS discovery is not running''), self)
      else
        let self = self\<lparr>mdn_request := None\<rparr>
        in if \<not> stopped then (Inl provider_error, self)
           else (Inr (), self\<lparr>mdn_receiver := None, mdn_resolved := bt_empty\<rparr>))"

subsection \<open>What a poll reports\<close>

text \<open>The names known after some events: resolved, and not removed since.\<close>

fun mdns_known :: "'ip ServiceEvent list \<Rightarrow> bytes set \<Rightarrow> bytes set" where
  "mdns_known [] names = names"
| "mdns_known (event # events) names =
     mdns_known events (case event of Sv_Resolved info \<Rightarrow> insert (sv_fullname info) names | Sv_Removed ty name \<Rightarrow> names - {name} | _ \<Rightarrow> names)"

abbreviation names_of :: "(bytes, DiscoveryId) btree \<Rightarrow> bytes set" where
  "names_of resolved \<equiv> {name. bt_get resolved name \<noteq> None}"

definition ids_ok :: "(bytes, DiscoveryId) btree \<Rightarrow> bool" where
  "ids_ok resolved \<longleftrightarrow> (\<forall>name ident. bt_get resolved name = Some ident \<longrightarrow> ident = id_from_name name)"

text \<open>An event stands for a service event, given the names known before it.\<close>

inductive mdns_reports :: "bytes set \<Rightarrow> 'ip ServiceEvent list \<Rightarrow> DiscoveryEvent list \<Rightarrow> bool" where
  "mdns_reports names [] []"
| "mdns_reports (insert (sv_fullname info) names) events reports \<Longrightarrow> dp_discovery_id peer = id_from_name (sv_fullname info) \<Longrightarrow>
     mdns_reports names (Sv_Resolved info # events) (Found peer # reports)"
| "name \<in> names \<Longrightarrow> mdns_reports (names - {name}) events reports \<Longrightarrow>
     mdns_reports names (Sv_Removed ty name # events) (Expired (id_from_name name) # reports)"
| "name \<notin> names \<Longrightarrow> mdns_reports names events reports \<Longrightarrow> mdns_reports names (Sv_Removed ty name # events) reports"
| "mdns_reports names events reports \<Longrightarrow> mdns_reports names (Sv_SearchStopped ty # events) (Stopped # reports)"
| "mdns_reports names events reports \<Longrightarrow> mdns_reports names (Sv_Other # events) reports"

lemma ids_ok_updates:
  "ids_ok resolved \<Longrightarrow> ids_ok (bt_insert name (id_from_name name) resolved)" "ids_ok resolved \<Longrightarrow> ids_ok (bt_remove name resolved)"
  by (auto simp: ids_ok_def)

lemma names_of_updates:
  "names_of (bt_insert name ident resolved) = insert name (names_of resolved)" "names_of (bt_remove name resolved) = names_of resolved - {name}"
  by auto

lemma mdns_loop_reports:
  assumes "mdns_poll_loop show_address now ttl room waiting resolved = (events, rest, resolved')" and "ids_ok resolved"
  shows "\<exists>used. waiting = used @ rest \<and> mdns_reports (names_of resolved) used events \<and> length events \<le> room
    \<and> (rest \<noteq> [] \<longrightarrow> length events = room) \<and> ids_ok resolved' \<and> names_of resolved' = mdns_known used (names_of resolved)"
  using assms
proof (induction show_address now ttl room waiting resolved arbitrary: events rest resolved' rule: mdns_poll_loop.induct)
  case (1 show_address now ttl waiting resolved)
  then show ?case by (auto intro: mdns_reports.intros)
next
  case (2 show_address now ttl room resolved)
  then show ?case by (auto intro: mdns_reports.intros)
next
  case (3 show_address now ttl room event waiting resolved)
  show ?case
  proof (cases event)
    case (Sv_Resolved info)
    obtain events1 where loop: "mdns_poll_loop show_address now ttl room waiting
        (bt_insert (sv_fullname info) (id_from_name (sv_fullname info)) resolved) = (events1, rest, resolved')"
      and events: "events = Found (resolved_peer show_address now ttl info) # events1"
      using 3(6) Sv_Resolved by (auto split: prod.splits)
    obtain used where used: "waiting = used @ rest" "mdns_reports (insert (sv_fullname info) (names_of resolved)) used events1"
      "length events1 \<le> room" "rest \<noteq> [] \<longrightarrow> length events1 = room" "ids_ok resolved'"
      "names_of resolved' = mdns_known used (insert (sv_fullname info) (names_of resolved))"
      using 3(1) [OF Sv_Resolved loop ids_ok_updates(1) [OF 3(7)]] unfolding names_of_updates by blast
    have "mdns_reports (names_of resolved) (Sv_Resolved info # used) events"
      unfolding events using used(2) by (rule mdns_reports.intros(2)) (simp add: resolved_peer_def Let_def)
    then show ?thesis using used Sv_Resolved events by (intro exI [of _ "Sv_Resolved info # used"]) simp
  next
    case (Sv_Removed ty name)
    show ?thesis
    proof (cases "bt_get resolved name")
      case None
      then have "mdns_poll_loop show_address now ttl (Suc room) waiting resolved = (events, rest, resolved')"
        using 3(6) Sv_Removed by simp
      from 3(2) [OF Sv_Removed None this 3(7)] obtain used where used: "waiting = used @ rest"
        "mdns_reports (names_of resolved) used events" "length events \<le> Suc room" "rest \<noteq> [] \<longrightarrow> length events = Suc room"
        "ids_ok resolved'" "names_of resolved' = mdns_known used (names_of resolved)" by blast
      moreover have "names_of resolved - {name} = names_of resolved" using None by auto
      moreover have "mdns_reports (names_of resolved) (Sv_Removed ty name # used) events"
        using used(2) None by (intro mdns_reports.intros(4)) simp_all
      ultimately show ?thesis using Sv_Removed by (intro exI [of _ "Sv_Removed ty name # used"]) simp
    next
      case (Some ident)
      obtain events1 where loop: "mdns_poll_loop show_address now ttl room waiting (bt_remove name resolved) = (events1, rest, resolved')"
        and events: "events = Expired ident # events1"
        using 3(6) Sv_Removed Some by (auto split: prod.splits)
      obtain used where used: "waiting = used @ rest" "mdns_reports (names_of resolved - {name}) used events1"
        "length events1 \<le> room" "rest \<noteq> [] \<longrightarrow> length events1 = room" "ids_ok resolved'"
        "names_of resolved' = mdns_known used (names_of resolved - {name})"
        using 3(3) [OF Sv_Removed Some loop ids_ok_updates(2) [OF 3(7)]] unfolding names_of_updates by blast
      have "ident = id_from_name name" using 3(7) Some by (simp add: ids_ok_def)
      then have "mdns_reports (names_of resolved) (Sv_Removed ty name # used) events"
        unfolding events using used(2) Some by (auto intro!: mdns_reports.intros(3))
      then show ?thesis using used Sv_Removed events by (intro exI [of _ "Sv_Removed ty name # used"]) simp
    qed
  next
    case (Sv_SearchStopped ty)
    obtain events1 where loop: "mdns_poll_loop show_address now ttl room waiting resolved = (events1, rest, resolved')"
      and events: "events = Stopped # events1"
      using 3(6) Sv_SearchStopped by (auto split: prod.splits)
    from 3(4) [OF Sv_SearchStopped loop 3(7)] obtain used where "waiting = used @ rest" "mdns_reports (names_of resolved) used events1"
      "length events1 \<le> room" "rest \<noteq> [] \<longrightarrow> length events1 = room" "ids_ok resolved'"
      "names_of resolved' = mdns_known used (names_of resolved)" by blast
    then show ?thesis
      using Sv_SearchStopped events by (intro exI [of _ "Sv_SearchStopped ty # used"]) (simp add: mdns_reports.intros(5))
  next
    case Sv_Other
    then have "mdns_poll_loop show_address now ttl (Suc room) waiting resolved = (events, rest, resolved')" using 3(6) by simp
    from 3(5) [OF Sv_Other this 3(7)] obtain used where "waiting = used @ rest" "mdns_reports (names_of resolved) used events"
      "length events \<le> Suc room" "rest \<noteq> [] \<longrightarrow> length events = Suc room" "ids_ok resolved'"
      "names_of resolved' = mdns_known used (names_of resolved)" by blast
    then show ?thesis using Sv_Other by (intro exI [of _ "Sv_Other # used"]) (simp add: mdns_reports.intros(6))
  qed
qed

subsection \<open>Reachable providers\<close>

definition mdns_ok :: "'ip MdnsDiscovery \<Rightarrow> bool" where
  "mdns_ok p \<longleftrightarrow> (mdn_request p \<noteq> None \<longrightarrow> mdn_receiver p \<noteq> None) \<and> ids_ok (mdn_resolved p)"

inductive mdns_step :: "'ip MdnsDiscovery \<Rightarrow> 'ip MdnsDiscovery \<Rightarrow> bool" where
  "MdnsDiscovery_start browsing request now p = (r, p') \<Longrightarrow> mdns_step p p'"
| "MdnsDiscovery_poll show_address now p = Some (res, p') \<Longrightarrow> mdns_step p p'"
| "MdnsDiscovery_stop stopped p = (r, p') \<Longrightarrow> mdns_step p p'"
| "mdn_receiver p = Some waiting \<Longrightarrow> mdns_step p (p\<lparr>mdn_receiver := Some (waiting @ [event])\<rparr>)"

lemma mdns_new_ok: "MdnsDiscovery_new daemon_started ttl limit = Inr p \<Longrightarrow> mdns_ok p"
  by (auto simp: MdnsDiscovery_new_def result_bind_eq_Inr mdns_ok_def ids_ok_def split: if_splits)

lemma mdns_poll_ok:
  assumes "MdnsDiscovery_poll show_address now p = Some (res, p')" and "mdns_ok p"
  shows "mdns_ok p'"
  using assms mdns_loop_reports
  by (fastforce simp: MdnsDiscovery_poll_def mdns_ok_def split: option.splits prod.splits)

lemma mdns_step_ok: "mdns_step p p' \<Longrightarrow> mdns_ok p \<Longrightarrow> mdns_ok p'"
proof (induction rule: mdns_step.induct)
  case (1 browsing request now p r p')
  then show ?case by (auto simp: MdnsDiscovery_start_def Let_def mdns_ok_def split: sum.splits prod.splits if_splits)
next
  case (2 show_address now p res p')
  then show ?case by (rule mdns_poll_ok)
next
  case (3 stopped p r p')
  then show ?case by (auto simp: MdnsDiscovery_stop_def Let_def mdns_ok_def ids_ok_def split: if_splits)
next
  case (4 p waiting event)
  then show ?case by (simp add: mdns_ok_def)
qed

text \<open>Whatever is called on a provider and whatever its daemon delivers, a poll of a running one never panics: it takes the
  events that wait, in order, and reports what they mean for the names known so far, leaving some only when it has
  reported as many as it was asked for.\<close>

lemma mdns_poll_reports:
  assumes "MdnsDiscovery_new daemon_started ttl limit = Inr p0" and "mdns_step\<^sup>*\<^sup>* p0 p" and "mdn_request p = Some request"
  obtains waiting used rest events p' where "mdn_receiver p = Some waiting" "waiting = used @ rest"
    "MdnsDiscovery_poll show_address now p = Some (Inr events, p')" "mdns_reports (names_of (mdn_resolved p)) used events"
    "mdn_receiver p' = Some rest" "names_of (mdn_resolved p') = mdns_known used (names_of (mdn_resolved p))"
    "length events \<le> dr_max_results_per_poll request" "rest = [] \<or> length events = dr_max_results_per_poll request"
proof -
  have ok: "mdns_ok p" using assms(2) mdns_new_ok [OF assms(1)] by (induction rule: rtranclp_induct) (auto intro: mdns_step_ok)
  then obtain waiting where waiting: "mdn_receiver p = Some waiting" using assms(3) by (auto simp: mdns_ok_def)
  obtain events rest resolved where loop:
    "mdns_poll_loop show_address now (mdn_ttl p) (dr_max_results_per_poll request) waiting (mdn_resolved p) = (events, rest, resolved)"
    by (metis prod_cases3)
  have "ids_ok (mdn_resolved p)" using ok by (simp add: mdns_ok_def)
  from mdns_loop_reports [OF loop this] obtain used where used: "waiting = used @ rest" "mdns_reports (names_of (mdn_resolved p)) used events"
    "length events \<le> dr_max_results_per_poll request" "rest \<noteq> [] \<longrightarrow> length events = dr_max_results_per_poll request"
    "names_of resolved = mdns_known used (names_of (mdn_resolved p))"
    by blast
  show thesis
    by (rule that [of waiting used rest events "p\<lparr>mdn_receiver := Some rest, mdn_resolved := resolved\<rparr>"])
      (use used waiting loop assms(3) in \<open>auto simp: MdnsDiscovery_poll_def\<close>)
qed

end
