(* ===== verification/Link_Ntp.thy ===== *)
theory Link_Ntp
  imports Link_Realtime
begin

text \<open>
  The vocabulary of the tracking-protocol binding, \<^verbatim>\<open>ntp-mutsuki-link/src/lib.rs\<close>: its
  configuration, its errors and the outcome of a batch of fragments. The errors of the
  third-party protocol library are values of a type parameter; the constructor says which part
  of the library returned one. A duration is a natural number of nanoseconds.
\<close>

definition COMPACT_RIG_FLOW :: RealtimeFlowId where "COMPACT_RIG_FLOW = RealtimeFlowId 0x4e10"
definition CORE_RESULT_FLOW :: RealtimeFlowId where "CORE_RESULT_FLOW = RealtimeFlowId 0x4e11"
definition GEOMETRY_FLOW :: RealtimeFlowId where "GEOMETRY_FLOW = RealtimeFlowId 0x4e12"

datatype TrackingTransportMode = ReliableLatestOnly | Datagram

record GeometryTopology =
  gt_schema_revision :: u32
  gt_topology_hash :: "256 word"
  gt_landmark_count :: u32

definition GeometryTopology_default :: GeometryTopology where
  "GeometryTopology_default = \<lparr>gt_schema_revision = 1, gt_topology_hash = 0, gt_landmark_count = 0\<rparr>"

record ReceiverReport =
  rp_received :: u64
  rp_dropped :: u64
  rp_stale :: u64
  rp_jitter_ns :: u64
  rp_result_age_ns :: u64
  rp_clock_uncertainty_ns :: u64

definition ReceiverReport_default :: ReceiverReport where
  "ReceiverReport_default = \<lparr>rp_received = 0, rp_dropped = 0, rp_stale = 0, rp_jitter_ns = 0, rp_result_age_ns = 0,
     rp_clock_uncertainty_ns = 0\<rparr>"

record CompactStreamPolicy =
  csp_max_frame_age_ns :: u64
  csp_max_future_skew_ns :: u64
  csp_max_clock_uncertainty_ns :: u64
  csp_max_sequence_gap :: u64
  csp_max_capture_jump_ns :: u64

record BindingConfig =
  bc_result_deadline :: nat
  bc_max_result_age :: nat
  bc_max_reassembly_bytes :: nat
  bc_max_fragments :: nat
  bc_max_control_bytes :: nat
  bc_max_pending_control :: nat
  bc_max_tracking_frame_bytes :: nat
  bc_max_target_fps :: u16
  bc_max_burst_fps :: u16
  bc_max_reconfigure_per_minute :: u16
  bc_max_receive_frames_per_poll :: nat
  bc_max_protocol_violations :: u16
  bc_geometry_cadence :: "u64 option"
  bc_compact_policy :: CompactStreamPolicy

definition BindingConfig_default :: BindingConfig where
  "BindingConfig_default =
     \<lparr>bc_result_deadline = 50000000, bc_max_result_age = 100000000, bc_max_reassembly_bytes = 8 * 1024 * 1024,
      bc_max_fragments = 8192, bc_max_control_bytes = 64 * 1024, bc_max_pending_control = 16,
      bc_max_tracking_frame_bytes = 8 * 1024 * 1024, bc_max_target_fps = 120, bc_max_burst_fps = 240,
      bc_max_reconfigure_per_minute = 6, bc_max_receive_frames_per_poll = 32, bc_max_protocol_violations = 8,
      bc_geometry_cadence = Some 15,
      bc_compact_policy =
        \<lparr>csp_max_frame_age_ns = 100000000, csp_max_future_skew_ns = 2000000, csp_max_clock_uncertainty_ns = 50000000,
         csp_max_sequence_gap = - 1, csp_max_capture_jump_ns = 5000000000\<rparr>\<rparr>"

datatype 'x BindingError =
    Be_Transport TransportError | Be_Codec 'x | Be_Contract 'x | Be_Layout 'x | Be_Handshake 'x | Be_Compact 'x
  | Be_CompactStream 'x | Be_Stream 'x | Be_InvalidConfig | Be_InvalidControl | Be_InvalidFragment | Be_InvalidState
  | Be_IncompatibleVersion | Be_ControlLimit | Be_PayloadLimit | Be_DatagramsUnsupported | Be_Unauthorized
  | Be_SessionBindingMismatch | Be_LayoutMismatch | Be_RateLimited | Be_ChannelFused | Be_PeerRevoked
  | Be_ReplayOrDuplicate | Be_StaleResult

definition BindingConfig_validate :: "BindingConfig \<Rightarrow> ('x BindingError, BindingConfig) result" where
  "BindingConfig_validate self =
     (if bc_result_deadline self = 0 \<or> bc_max_result_age self = 0 \<or> bc_max_reassembly_bytes self = 0
         \<or> bc_max_reassembly_bytes self > 2 ^ 32 - 1 \<or> bc_max_fragments self = 0 \<or> bc_max_fragments self > 2 ^ 16 - 1
         \<or> bc_max_control_bytes self = 0 \<or> bc_max_pending_control self = 0 \<or> bc_max_tracking_frame_bytes self = 0
         \<or> bc_max_tracking_frame_bytes self > 2 ^ 32 - 1 \<or> bc_max_target_fps self = 0
         \<or> bc_max_burst_fps self < bc_max_target_fps self \<or> bc_max_reconfigure_per_minute self = 0
         \<or> bc_max_receive_frames_per_poll self = 0 \<or> bc_max_protocol_violations self = 0
         \<or> bc_geometry_cadence self = Some 0
      then Inl Be_InvalidConfig
      else Inr self)"

definition BindingConfig_max_result_age_ns :: "BindingConfig \<Rightarrow> u64" where
  "BindingConfig_max_result_age_ns self =
     (if bc_max_result_age self < 2 ^ 64 then of_nat (bc_max_result_age self) else - 1)"

record FragmentBatchOutcome =
  fbo_fragments :: nat
  fbo_enqueued :: nat
  fbo_replaced :: nat
  fbo_expired :: nat
  fbo_congested :: nat

definition FragmentBatchOutcome_default :: FragmentBatchOutcome where
  "FragmentBatchOutcome_default = \<lparr>fbo_fragments = 0, fbo_enqueued = 0, fbo_replaced = 0, fbo_expired = 0, fbo_congested = 0\<rparr>"

definition FragmentBatchOutcome_delivered_to_transport :: "FragmentBatchOutcome \<Rightarrow> bool" where
  "FragmentBatchOutcome_delivered_to_transport self =
     (fbo_fragments self > 0 \<and> fbo_expired self = 0 \<and> fbo_congested self = 0)"

definition single_frame_batch :: "SendOutcome \<Rightarrow> FragmentBatchOutcome" where
  "single_frame_batch outcome =
     \<lparr>fbo_fragments = 1, fbo_enqueued = (if outcome = Enqueued then 1 else 0),
      fbo_replaced = (if outcome = ReplacedOlder then 1 else 0), fbo_expired = (if outcome = DroppedExpired then 1 else 0),
      fbo_congested = (if outcome = DroppedCongested \<or> outcome = So_Unsupported then 1 else 0)\<rparr>"

definition is_protocol_violation :: "'x BindingError \<Rightarrow> bool" where
  "is_protocol_violation error =
     (case error of
        Be_Codec _ \<Rightarrow> True | Be_Contract _ \<Rightarrow> True | Be_Compact _ \<Rightarrow> True | Be_CompactStream _ \<Rightarrow> True | Be_Stream _ \<Rightarrow> True
      | Be_InvalidFragment \<Rightarrow> True | Be_LayoutMismatch \<Rightarrow> True | Be_PayloadLimit \<Rightarrow> True | _ \<Rightarrow> False)"

text \<open>\<^verbatim>\<open>u16::try_from\<close> and \<^verbatim>\<open>u32::try_from\<close> of a length.\<close>

definition try_word :: "'e \<Rightarrow> nat \<Rightarrow> ('e, 'a::len word) result" where
  "try_word e n = (if n < 2 ^ LENGTH('a) then Inr (of_nat n) else Inl e)"

end
