(* ===== verification/Link_Ntp_Reassembly.thy ===== *)
theory Link_Ntp_Reassembly
  imports Link_Ntp_Fragment
begin

text \<open>
  What the reassembler of tracking results guarantees. First against any datagrams: it never
  panics, completes messages in strictly increasing order, and every byte of a completed
  payload is a byte of a fragment of that message at its place. Then for the fragments of a
  payload: in any order and with repetitions they reassemble to exactly that payload.
\<close>

subsection \<open>Fragments\<close>

definition fragment_ok :: "BindingConfig \<Rightarrow> Fragment \<Rightarrow> bool" where
  "fragment_ok config f = (fr_index f < fr_count f \<and> fr_count f < 2 ^ 16 \<and> fr_count f \<le> bc_max_fragments config
     \<and> fr_total_len f \<le> bc_max_reassembly_bytes config \<and> fr_payload f \<noteq> []
     \<and> fr_offset f + length (fr_payload f) \<le> fr_total_len f)"

lemma decode_fragment_ok: "Fragment_decode bs config = Inr f \<Longrightarrow> fragment_ok config f"
  using unat_lt_size [of "from_be_bytes (take 2 (drop 8 bs)) :: u16"]
  by (auto simp: Fragment_decode_def fragment_ok_def Let_def usize_checked_add_def FRAGMENT_HEADER_LEN_def
      split: if_splits option.splits)

definition covers :: "nat \<times> nat \<Rightarrow> nat \<Rightarrow> bool" where
  "covers r x = (fst r \<le> x \<and> x < fst r + snd r)"

lemma length_write_at: "offset + length data \<le> length bs \<Longrightarrow> length (write_at offset data bs) = length bs"
  by (simp add: write_at_def)

lemma nth_write_at:
  "offset + length data \<le> length bs \<Longrightarrow> x < length bs \<Longrightarrow>
   write_at offset data bs ! x = (if covers (offset, length data) x then data ! (x - offset) else bs ! x)"
  by (auto simp: write_at_def covers_def nth_append not_less)

lemma contiguous_Cons:
  "contiguous c ((offset, len) # ranges) = Some e \<longleftrightarrow> offset = c \<and> c + len \<le> usize_max \<and> contiguous (c + len) ranges = Some e"
  by (simp add: usize_checked_add_def)

lemma contiguous_covers:
  "contiguous c ranges = Some e \<Longrightarrow>
   c \<le> e \<and> (\<forall>x. length (filter (\<lambda>r. covers r x) ranges) = (if c \<le> x \<and> x < e then 1 else 0))"
proof (induction ranges arbitrary: c)
  case (Cons r ranges)
  obtain offset len where r: "r = (offset, len)" by fastforce
  with Cons.prems have eq: "offset = c" "contiguous (c + len) ranges = Some e" by (simp_all add: contiguous_Cons del: contiguous.simps)
  from Cons.IH [OF eq(2)] have le: "c + len \<le> e"
    and IH: "\<And>x. length (filter (\<lambda>r. covers r x) ranges) = (if c + len \<le> x \<and> x < e then 1 else 0)" by blast+
  have "length (filter (\<lambda>r. covers r x) (r # ranges)) = (if c \<le> x \<and> x < e then 1 else 0)" for x
    using IH [of x] le by (cases "covers r x") (auto simp: covers_def r eq(1))
  with le show ?case by simp
qed simp

subsection \<open>The state of a reassembly\<close>

definition slot_ok :: "Fragment set \<Rightarrow> Reassembly \<Rightarrow> (nat \<Rightarrow> bytes) \<Rightarrow> nat \<Rightarrow> bool" where
  "slot_ok fs st ps i = (\<forall>offset len. ra_slots st ! i = Some (offset, len) \<longrightarrow>
     \<lparr>fr_index = i, fr_count = ra_fragment_count st, fr_offset = offset, fr_total_len = ra_total_len st, fr_payload = ps i\<rparr> \<in> fs
     \<and> len = length (ps i) \<and> offset + len \<le> ra_total_len st
     \<and> (\<forall>x. covers (offset, len) x
          \<and> (\<forall>j < ra_fragment_count st. \<forall>r. j \<noteq> i \<and> ra_slots st ! j = Some r \<longrightarrow> \<not> covers r x)
          \<longrightarrow> ra_bytes st ! x = ps i ! (x - offset)))"

definition reassembly_ok :: "BindingConfig \<Rightarrow> Fragment set \<Rightarrow> Reassembly \<Rightarrow> bool" where
  "reassembly_ok config fs st = (length (ra_slots st) = ra_fragment_count st \<and> length (ra_bytes st) = ra_total_len st
     \<and> ra_fragment_count st < 2 ^ 16 \<and> ra_fragment_count st \<le> bc_max_fragments config
     \<and> ra_total_len st \<le> bc_max_reassembly_bytes config
     \<and> ra_received st = card {i. i < ra_fragment_count st \<and> ra_slots st ! i \<noteq> None}
     \<and> (\<exists>ps. \<forall>i < ra_fragment_count st. slot_ok fs st ps i))"

definition same_message :: "Reassembly \<Rightarrow> Reassembly \<Rightarrow> bool" where
  "same_message st st' = (ra_generation st' = ra_generation st \<and> ra_sequence st' = ra_sequence st
     \<and> ra_fragment_count st' = ra_fragment_count st \<and> ra_total_len st' = ra_total_len st)"

lemma reassembly_ok_mono: "reassembly_ok config fs st \<Longrightarrow> fs \<subseteq> fs' \<Longrightarrow> reassembly_ok config fs' st"
  unfolding reassembly_ok_def slot_ok_def by blast

lemma usize_add_small: "n < 2 ^ 16 \<Longrightarrow> usize_sat_add n (Suc 0) = Suc n"
  by (simp add: usize_sat_add_def usize_max_def)

lemma insert_fresh_ok:
  assumes ok: "reassembly_ok config fs st" and f: "f \<in> fs" "fragment_ok config f"
    and same: "fr_count f = ra_fragment_count st" "fr_total_len f = ra_total_len st"
    and free: "ra_slots st ! fr_index f = None"
  defines "st' \<equiv> st\<lparr>ra_bytes := write_at (fr_offset f) (fr_payload f) (ra_bytes st),
      ra_slots := (ra_slots st)[fr_index f := Some (fr_offset f, length (fr_payload f))],
      ra_received := usize_sat_add (ra_received st) 1\<rparr>"
  shows "reassembly_ok config fs st'"
proof -
  from ok obtain ps where ps: "\<And>i. i < ra_fragment_count st \<Longrightarrow> slot_ok fs st ps i"
    and len: "length (ra_slots st) = ra_fragment_count st" "length (ra_bytes st) = ra_total_len st"
    and received: "ra_received st = card {i. i < ra_fragment_count st \<and> ra_slots st ! i \<noteq> None}"
    and bound: "ra_fragment_count st < 2 ^ 16"
    by (auto simp: reassembly_ok_def)
  have index: "fr_index f < ra_fragment_count st" and fits: "fr_offset f + length (fr_payload f) \<le> length (ra_bytes st)"
    using f(2) same len by (auto simp: fragment_ok_def)
  let ?k = "fr_index f" and ?ps = "ps(fr_index f := fr_payload f)"
  have "{i. i < ra_fragment_count st \<and> ra_slots st' ! i \<noteq> None} = insert ?k {i. i < ra_fragment_count st \<and> ra_slots st ! i \<noteq> None}"
    using index len by (auto simp: st'_def nth_list_update)
  then have "card {i. i < ra_fragment_count st \<and> ra_slots st' ! i \<noteq> None} = Suc (ra_received st)"
    using received free by simp
  moreover have "ra_received st < 2 ^ 16"
  proof -
    have "ra_received st \<le> card {..< ra_fragment_count st}" unfolding received by (rule card_mono) auto
    with bound show ?thesis by simp
  qed
  ultimately have rec: "ra_received st' = card {i. i < ra_fragment_count st \<and> ra_slots st' ! i \<noteq> None}"
    by (simp add: st'_def usize_add_small)
  have "slot_ok fs st' ?ps i" if i: "i < ra_fragment_count st" for i
  proof (cases "i = ?k")
    case True
    have "\<lparr>fr_index = ?k, fr_count = ra_fragment_count st, fr_offset = fr_offset f, fr_total_len = ra_total_len st,
        fr_payload = fr_payload f\<rparr> = f"
      using same by (intro Fragment.equality) simp_all
    moreover have "write_at (fr_offset f) (fr_payload f) (ra_bytes st) ! x = fr_payload f ! (x - fr_offset f)"
      if "covers (fr_offset f, length (fr_payload f)) x" for x
      using that fits by (subst nth_write_at) (auto simp: covers_def)
    ultimately show ?thesis
      using True f(1) fits len index by (auto simp: slot_ok_def st'_def)
  next
    case False
    have "ra_bytes st' ! x = ps i ! (x - o')"
      if "ra_slots st ! i = Some (o', l)" "covers (o', l) x"
        "\<forall>j < ra_fragment_count st. \<forall>r. j \<noteq> i \<and> ra_slots st' ! j = Some r \<longrightarrow> \<not> covers r x" for o' l x
    proof -
      have "\<not> covers (fr_offset f, length (fr_payload f)) x"
        using that(3) index False len by (auto simp: st'_def)
      moreover have "x < length (ra_bytes st)"
        using ps [OF i] that(1,2) len(2) by (auto simp: slot_ok_def covers_def)
      ultimately have "ra_bytes st' ! x = ra_bytes st ! x" using fits by (simp add: st'_def nth_write_at)
      moreover have "\<forall>j < ra_fragment_count st. \<forall>r. j \<noteq> i \<and> ra_slots st ! j = Some r \<longrightarrow> \<not> covers r x"
      proof (intro allI impI)
        fix j r assume j: "j < ra_fragment_count st" and r: "j \<noteq> i \<and> ra_slots st ! j = Some r"
        with free have "?k \<noteq> j" by auto
        then have "ra_slots st' ! j = ra_slots st ! j" by (simp add: st'_def)
        with that(3) j r show "\<not> covers r x" by (cases r) simp
      qed
      ultimately show ?thesis using ps [OF i] that(1,2) by (auto simp: slot_ok_def)
    qed
    with ps [OF i] False i len(1) show ?thesis by (auto simp: slot_ok_def st'_def)
  qed
  then have "\<exists>ps'. \<forall>i < ra_fragment_count st. slot_ok fs st' ps' i" by blast
  with rec ok len fits show ?thesis
    by (simp add: reassembly_ok_def st'_def length_write_at)
qed

lemma insert_ok:
  assumes ok: "reassembly_ok config fs st" and f: "f \<in> fs" "fragment_ok config f"
    and same: "fr_count f = ra_fragment_count st" "fr_total_len f = ra_total_len st"
  shows "Reassembly_insert f st \<noteq> None"
    and "Reassembly_insert f st = Some (Inr st') \<Longrightarrow> reassembly_ok config fs st' \<and> same_message st st'"
proof -
  have len: "length (ra_slots st) = ra_fragment_count st" "length (ra_bytes st) = ra_total_len st"
    using ok by (auto simp: reassembly_ok_def)
  then have fits: "fr_offset f + length (fr_payload f) \<le> length (ra_bytes st)" "fr_index f < length (ra_slots st)"
    using f(2) same by (auto simp: fragment_ok_def)
  show "Reassembly_insert f st \<noteq> None"
    using fits by (auto simp: Reassembly_insert_def Let_def split: option.splits)
  assume "Reassembly_insert f st = Some (Inr st')"
  with fits insert_fresh_ok [OF ok f same] ok show "reassembly_ok config fs st' \<and> same_message st st'"
    by (auto simp: Reassembly_insert_def Let_def same_message_def split: option.splits if_splits)
qed

lemma reassembly_new_ok:
  assumes "f \<in> fs" "fragment_ok config f"
  shows "\<exists>st. Reassembly_new g s f = Some (Inr st) \<and> reassembly_ok config fs st \<and> ra_generation st = g \<and> ra_sequence st = s
    \<and> ra_fragment_count st = fr_count f \<and> ra_total_len st = fr_total_len f"
proof -
  let ?st = "\<lparr>ra_generation = g, ra_sequence = s, ra_fragment_count = fr_count f, ra_total_len = fr_total_len f,
    ra_slots = replicate (fr_count f) None, ra_received = 0, ra_bytes = replicate (fr_total_len f) 0\<rparr>"
  have ok: "reassembly_ok config fs ?st"
    using assms(2) by (auto simp: reassembly_ok_def slot_ok_def fragment_ok_def)
  have "ra_slots ?st ! fr_index f = None" "fr_index f < fr_count f"
    "fr_offset f + length (fr_payload f) \<le> fr_total_len f"
    using assms(2) by (auto simp: fragment_ok_def)
  with insert_fresh_ok [OF ok assms] show ?thesis
    by (auto simp: Reassembly_new_def Reassembly_insert_def Let_def)
qed

lemma finish_authentic:
  assumes ok: "reassembly_ok config fs st" and fin: "Reassembly_finish st = Inr payload" and x: "x < length payload"
  shows "\<exists>f \<in> fs. covers (fr_offset f, length (fr_payload f)) x \<and> payload ! x = fr_payload f ! (x - fr_offset f)
    \<and> fr_total_len f = length payload"
proof -
  from ok obtain ps where ps: "\<And>i. i < ra_fragment_count st \<Longrightarrow> slot_ok fs st ps i"
    and len: "length (ra_slots st) = ra_fragment_count st" "length (ra_bytes st) = ra_total_len st"
    by (auto simp: reassembly_ok_def)
  from fin have full: "None \<notin> set (ra_slots st)"
    and tiles: "contiguous 0 (sort_key fst (map the (ra_slots st))) = Some (ra_total_len st)" and bytes: "payload = ra_bytes st"
    by (auto simp: Reassembly_finish_def split: if_splits option.splits)
  have "length (filter (\<lambda>r. covers r x) (sort_key fst (map the (ra_slots st)))) = 1"
    using contiguous_covers [OF tiles] x len(2) bytes by simp
  then have "length (filter (\<lambda>r. covers r x) (map the (ra_slots st))) = 1"
    by (simp only: filter_sort length_sort)
  then have "card {i. i < ra_fragment_count st \<and> covers (the (ra_slots st ! i)) x} = 1"
    by (simp add: length_filter_conv_card len(1) cong: conj_cong)
  then obtain i where i: "{i. i < ra_fragment_count st \<and> covers (the (ra_slots st ! i)) x} = {i}"
    by (auto simp: card_1_singleton_iff)
  have "i \<in> {i. i < ra_fragment_count st \<and> covers (the (ra_slots st ! i)) x}" unfolding i by simp
  then have ix: "i < ra_fragment_count st" "covers (the (ra_slots st ! i)) x" by simp_all
  have "ra_slots st ! i \<noteq> None" using full ix(1) len(1) nth_mem [of i "ra_slots st"] by metis
  then obtain o' l where slot: "ra_slots st ! i = Some (o', l)" by auto
  have "\<not> covers r x" if "j < ra_fragment_count st" "j \<noteq> i" "ra_slots st ! j = Some r" for j r
  proof
    assume "covers r x"
    with that(1,3) have "j \<in> {i. i < ra_fragment_count st \<and> covers (the (ra_slots st ! i)) x}" by simp
    with i that(2) show False by simp
  qed
  with ps [OF ix(1)] slot ix(2) have
    "\<lparr>fr_index = i, fr_count = ra_fragment_count st, fr_offset = o', fr_total_len = ra_total_len st, fr_payload = ps i\<rparr> \<in> fs"
    "l = length (ps i)" "ra_bytes st ! x = ps i ! (x - o')"
    by (auto simp: slot_ok_def)
  with slot ix(2) bytes len(2) show ?thesis by force
qed

subsection \<open>Histories\<close>

type_synonym 'x push_log = "((u32 \<times> u64 \<times> bytes) \<times> ('x BindingError, ReassemblyOutcome) result) list"

inductive reassembler_run :: "BindingConfig \<Rightarrow> 'x push_log \<Rightarrow> Reassembler \<Rightarrow> bool" for config where
  start: "reassembler_run config [] Reassembler_new"
| push: "reassembler_run config log r \<Longrightarrow> Reassembler_push g s bs config r = Some (res, r')
    \<Longrightarrow> reassembler_run config (log @ [((g, s, bs), res)]) r'"

fun completed :: "(u32 \<times> u64 \<times> bytes) \<times> ('x BindingError, ReassemblyOutcome) result \<Rightarrow> (u32 \<times> u64) list" where
  "completed (_, Inr (Ro_Complete g s _ _)) = [(g, s)]"
| "completed _ = []"

definition completions :: "'x push_log \<Rightarrow> (u32 \<times> u64) list" where
  "completions log = concat (map completed log)"

definition pushed :: "BindingConfig \<Rightarrow> 'x push_log \<Rightarrow> u32 \<Rightarrow> u64 \<Rightarrow> Fragment set" where
  "pushed config log g s =
     {f. \<exists>bs res. ((g, s, bs), res) \<in> set log \<and> Fragment_decode bs config = (Inr f :: ('x BindingError, Fragment) result)}"

definition authentic :: "Fragment set \<Rightarrow> bytes \<Rightarrow> bool" where
  "authentic fs payload = (\<forall>x < length payload. \<exists>f \<in> fs. covers (fr_offset f, length (fr_payload f)) x
     \<and> payload ! x = fr_payload f ! (x - fr_offset f) \<and> fr_total_len f = length payload)"

definition state_inv :: "BindingConfig \<Rightarrow> 'x push_log \<Rightarrow> Reassembler \<Rightarrow> bool" where
  "state_inv config log r = (\<forall>st. rs_state r = Some st \<longrightarrow>
     reassembly_ok config (pushed config log (ra_generation st) (ra_sequence st)) st
     \<and> (\<forall>l. rs_last_completed r = Some l \<longrightarrow> l < (ra_generation st, ra_sequence st)))"

definition order_inv :: "'x push_log \<Rightarrow> Reassembler \<Rightarrow> bool" where
  "order_inv log r = (sorted_wrt (<) (completions log)
     \<and> (\<forall>c \<in> set (completions log). \<exists>l. rs_last_completed r = Some l \<and> c \<le> l))"

definition payload_inv :: "BindingConfig \<Rightarrow> 'x push_log \<Rightarrow> bool" where
  "payload_inv config log = (\<forall>g s bs g' s' payload b. ((g, s, bs), Inr (Ro_Complete g' s' payload b)) \<in> set log \<longrightarrow>
     g' = g \<and> s' = s \<and> authentic (pushed config log g s) payload \<and> length payload \<le> bc_max_reassembly_bytes config)"

lemma pushed_mono: "pushed config log g s \<subseteq> pushed config (log @ later) g s"
  by (auto simp: pushed_def)

lemma authentic_mono: "authentic fs payload \<Longrightarrow> fs \<subseteq> fs' \<Longrightarrow> authentic fs' payload"
  by (fastforce simp: authentic_def)

lemma same_message_refl [simp]: "same_message st st"
  by (simp add: same_message_def)

lemma push_current_cases:
  fixes out :: "(('x BindingError, ReassemblyOutcome) result \<times> Reassembler) option"
  assumes out: "push_current f b st r = out" and ok: "reassembly_ok config fs st" and f: "f \<in> fs" "fragment_ok config f"
  obtains (kept) res st' where "out = Some (res, r\<lparr>rs_state := Some st'\<rparr>)"
      "reassembly_ok config fs st'" "same_message st st'" "completed (p, res) = []"
      "(\<exists>e. res = Inl e) \<or> res = Inr (Ro_Pending b)"
  | (broken) e where "out
      = Some (Inl e, r\<lparr>rs_state := None, rs_last_completed := Some (ra_generation st, ra_sequence st)\<rparr>)"
  | (complete) payload where "out
      = Some (Inr (Ro_Complete (ra_generation st) (ra_sequence st) payload b),
              r\<lparr>rs_state := None, rs_last_completed := Some (ra_generation st, ra_sequence st)\<rparr>)"
      "authentic fs payload" "length payload \<le> bc_max_reassembly_bytes config"
proof (cases "fr_count f = ra_fragment_count st \<and> fr_total_len f = ra_total_len st")
  case False
  with out have "out = Some (Inl Be_InvalidFragment, r\<lparr>rs_state := Some st\<rparr>)"
    by (auto simp: push_current_def)
  from kept [OF this ok] show thesis by simp
next
  case True
  then have same: "fr_count f = ra_fragment_count st" "fr_total_len f = ra_total_len st" by simp_all
  obtain ins where ins: "(Reassembly_insert f st :: ('x BindingError, Reassembly) result option) = Some ins"
    using insert_ok(1) [OF ok f same] by blast
  show thesis
  proof (cases ins)
    case (Inl e)
    with ins same out have "out = Some (Inl e, r\<lparr>rs_state := Some st\<rparr>)" by (auto simp: push_current_def)
    from kept [OF this ok] show thesis by simp
  next
    case (Inr st')
    with ins have "(Reassembly_insert f st :: ('x BindingError, Reassembly) result option) = Some (Inr st')" by simp
    from insert_ok(2) [OF ok f same this] have st': "reassembly_ok config fs st'" "same_message st st'" by simp_all
    show thesis
    proof (cases "Reassembly_complete st'")
      case False
      with ins Inr same out have "out = Some (Inr (Ro_Pending b), r\<lparr>rs_state := Some st'\<rparr>)"
        by (auto simp: push_current_def)
      from kept [OF this st'] show thesis by simp
    next
      case True
      have msg: "ra_generation st' = ra_generation st" "ra_sequence st' = ra_sequence st" using st'(2) by (simp_all add: same_message_def)
      show thesis
      proof (cases "Reassembly_finish st' :: ('x BindingError, bytes) result")
        case (Inl e)
        with ins \<open>ins = Inr st'\<close> same True msg out show thesis by (intro broken) (auto simp: push_current_def Let_def)
      next
        case (Inr payload)
        have "authentic fs payload" using finish_authentic [OF st'(1) Inr] by (simp add: authentic_def)
        moreover have "payload = ra_bytes st'" using Inr by (auto simp: Reassembly_finish_def split: if_splits option.splits)
        then have "length payload \<le> bc_max_reassembly_bytes config" using st'(1) by (simp add: reassembly_ok_def)
        ultimately show thesis
          using ins \<open>ins = Inr st'\<close> same True msg Inr out by (intro complete) (auto simp: push_current_def Let_def)
      qed
    qed
  qed
qed

definition outdated :: "u32 \<Rightarrow> u64 \<Rightarrow> (u32 \<times> u64) option \<Rightarrow> bool" where
  "outdated g s latest = (case latest of None \<Rightarrow> False | Some l \<Rightarrow> (g, s) \<le> l)"

text \<open>A push is ignored or refused without effect, or it goes to the message's reassembly, which is the
  current one or a new one.\<close>

lemma push_cases:
  fixes out :: "(('x BindingError, ReassemblyOutcome) result \<times> Reassembler) option"
  assumes "Reassembler_push g s bs config r = out"
  obtains (idle) res where "out = Some (res, r)" "(\<exists>e. res = Inl e) \<or> res = Inr Ro_IgnoredOld"
      "outdated g s (rs_last_completed r) \<or> (\<exists>e. (Fragment_decode bs config :: ('x BindingError, Fragment) result) = Inl e)
        \<or> (\<exists>cur. rs_state r = Some cur \<and> (g, s) < (ra_generation cur, ra_sequence cur))"
  | (routed) f st b where "\<not> outdated g s (rs_last_completed r)"
      "(Fragment_decode bs config :: ('x BindingError, Fragment) result) = Inr f"
      "ra_generation st = g" "ra_sequence st = s" "push_current f b st r = out"
      "rs_state r = Some st
        \<or> (Reassembly_new g s f :: ('x BindingError, Reassembly) result option) = Some (Inr st)
          \<and> (\<forall>cur. rs_state r = Some cur \<longrightarrow> (ra_generation cur, ra_sequence cur) < (g, s))"
proof (cases "outdated g s (rs_last_completed r)")
  case True
  then have "out = Some (Inr Ro_IgnoredOld, r)"
    using assms by (auto simp: Reassembler_push_def outdated_def split: option.splits prod.splits)
  then show thesis by (rule idle) (use True in simp_all)
next
  case False
  then have fresh: "\<not> (case rs_last_completed r of None \<Rightarrow> False | Some (lg, ls) \<Rightarrow> g < lg \<or> g = lg \<and> s \<le> ls)"
    by (auto simp: outdated_def split: option.splits)
  show thesis
  proof (cases "Fragment_decode bs config :: ('x BindingError, Fragment) result")
    case (Inl e)
    with assms fresh have "out = Some (Inl e, r)" by (simp add: Reassembler_push_def)
    then show thesis by (rule idle) (use Inl in simp_all)
  next
    case (Inr f)
    obtain st where new: "(Reassembly_new g s f :: ('x BindingError, Reassembly) result option) = Some (Inr st)"
      "ra_generation st = g" "ra_sequence st = s"
      using reassembly_new_ok [of f UNIV config g s, OF _ decode_fragment_ok [OF Inr]] by auto
    show thesis
    proof (cases "rs_state r")
      case None
      with assms fresh Inr new have "push_current f False st r = out" by (simp add: Reassembler_push_def)
      with False Inr new None show thesis by (intro routed [of f st False]) simp_all
    next
      case (Some cur)
      consider "(g, s) < (ra_generation cur, ra_sequence cur)" | "(g, s) = (ra_generation cur, ra_sequence cur)"
        | "(ra_generation cur, ra_sequence cur) < (g, s)" by (rule linorder_less_linear [THEN disjE]) blast+
      then show thesis
      proof cases
        case 1
        with assms fresh Inr Some have "out = Some (Inr Ro_IgnoredOld, r)" by (auto simp: Reassembler_push_def)
        then show thesis by (rule idle) (use Some 1 in simp_all)
      next
        case 2
        with assms fresh Inr Some have "push_current f False cur r = out" by (simp add: Reassembler_push_def)
        with False Inr Some 2 show thesis by (intro routed [of f cur False]) simp_all
      next
        case 3
        with assms fresh Inr Some new have "push_current f True st r = out" by (auto simp: Reassembler_push_def)
        with False Inr Some 3 new show thesis by (intro routed [of f st True]) simp_all
      qed
    qed
  qed
qed

lemma completions_snoc: "completions (log @ [e]) = completions log @ completed e"
  by (simp add: completions_def)

lemma state_inv_log: "state_inv config log r \<Longrightarrow> state_inv config (log @ later) r"
  unfolding state_inv_def using reassembly_ok_mono [OF _ pushed_mono] by blast

lemma order_inv_idle: "order_inv log r \<Longrightarrow> completed e = [] \<Longrightarrow> rs_last_completed r' = rs_last_completed r \<Longrightarrow> order_inv (log @ [e]) r'"
  by (simp add: order_inv_def completions_snoc)

lemma order_inv_complete:
  assumes "order_inv log r" "completed e = [] \<or> completed e = [c]" "\<not> outdated (fst c) (snd c) (rs_last_completed r)"
    and "rs_last_completed r' = Some c"
  shows "order_inv (log @ [e]) r'"
proof -
  have before: "d < c" if "d \<in> set (completions log)" for d
  proof -
    from assms(1) that obtain l where l: "rs_last_completed r = Some l" "d \<le> l" by (auto simp: order_inv_def)
    with assms(3) have "l < c" by (simp add: outdated_def not_le)
    with l(2) show ?thesis by (rule le_less_trans)
  qed
  have "sorted_wrt (<) (completions log)" using assms(1) by (simp add: order_inv_def)
  moreover have "\<forall>d \<in> set (completions log). d < c" using before by blast
  ultimately show ?thesis
    using assms(2,4) unfolding order_inv_def completions_snoc by (auto simp: sorted_wrt_append less_imp_le simp del: less_prod_simp less_eq_prod_simp)
qed

lemma payload_inv_snoc:
  assumes "payload_inv config log"
    and "\<And>g' s' payload b. res = Inr (Ro_Complete g' s' payload b) \<Longrightarrow>
       g' = g \<and> s' = s \<and> authentic (pushed config (log @ [((g, s, bs), res)]) g s) payload
       \<and> length payload \<le> bc_max_reassembly_bytes config"
  shows "payload_inv config (log @ [((g, s, bs), res)])"
  unfolding payload_inv_def
proof (intro allI impI)
  fix g1 s1 bs1 g' s' payload b
  assume "((g1, s1, bs1), Inr (Ro_Complete g' s' payload b)) \<in> set (log @ [((g, s, bs), res)])"
  then consider "((g1, s1, bs1), Inr (Ro_Complete g' s' payload b)) \<in> set log"
    | "g1 = g" "s1 = s" "res = Inr (Ro_Complete g' s' payload b)" by auto
  then show "g' = g1 \<and> s' = s1 \<and> authentic (pushed config (log @ [((g, s, bs), res)]) g1 s1) payload
      \<and> length payload \<le> bc_max_reassembly_bytes config"
  proof cases
    case 1
    with assms(1) have "g' = g1 \<and> s' = s1 \<and> authentic (pushed config log g1 s1) payload
      \<and> length payload \<le> bc_max_reassembly_bytes config" unfolding payload_inv_def by blast
    then show ?thesis using authentic_mono [OF _ pushed_mono] by blast
  next
    case 2
    with assms(2) show ?thesis by blast
  qed
qed

lemma push_step:
  assumes inv: "state_inv config log r" "order_inv log r" "payload_inv config log"
  obtains res r' where "Reassembler_push g s bs config r = Some (res, r')"
    "state_inv config (log @ [((g, s, bs), res)]) r'" "order_inv (log @ [((g, s, bs), res)]) r'"
    "payload_inv config (log @ [((g, s, bs), res :: ('x BindingError, ReassemblyOutcome) result)])"
proof -
  obtain out :: "(('x BindingError, ReassemblyOutcome) result \<times> Reassembler) option"
    where out: "Reassembler_push g s bs config r = out" by blast
  then show thesis
  proof (cases rule: push_cases)
    case (idle res)
    then have "completed ((g, s, bs), res) = []" by auto
    then have "order_inv (log @ [((g, s, bs), res)]) r" by (rule order_inv_idle [OF inv(2)]) simp
    moreover have "payload_inv config (log @ [((g, s, bs), res)])"
      using idle(2) by (intro payload_inv_snoc [OF inv(3)]) auto
    ultimately show thesis using that [of res r] out idle(1) state_inv_log [OF inv(1)] by simp
  next
    case (routed f st b)
    define fs where "fs = insert f (pushed config log g s)"
    have fs: "pushed config (log @ [((g, s, bs), res)]) g s = fs" for res :: "('x BindingError, ReassemblyOutcome) result"
      using routed(2) by (auto simp: fs_def pushed_def)
    have f: "f \<in> fs" "fragment_ok config f" using decode_fragment_ok [OF routed(2)] by (simp_all add: fs_def)
    have st: "reassembly_ok config fs st"
    proof (cases "rs_state r = Some st")
      case True
      with inv(1) routed(3,4) have "reassembly_ok config (pushed config log g s) st" by (simp add: state_inv_def)
      then show ?thesis by (rule reassembly_ok_mono) (auto simp: fs_def)
    next
      case False
      obtain st0 where "(Reassembly_new g s f :: ('x BindingError, Reassembly) result option) = Some (Inr st0)"
        "reassembly_ok config fs st0" using reassembly_new_ok [OF f] by blast
      with False routed(6) show ?thesis by simp
    qed
    have older: "l < (g, s)" if "rs_last_completed r = Some l" for l
      using routed(1) that by (simp add: outdated_def not_le)
    have finished: "order_inv (log @ [((g, s, bs), res)]) (r\<lparr>rs_state := None, rs_last_completed := Some (g, s)\<rparr>)"
      if "completed ((g, s, bs), res) = [] \<or> completed ((g, s, bs), res) = [(g, s)]" for res :: "('x BindingError, ReassemblyOutcome) result"
      using order_inv_complete [OF inv(2) that] routed(1) by simp
    from routed(5) st f show thesis
    proof (cases rule: push_current_cases [where p = "(g, s, bs)"])
      case (kept res st')
      have msg: "ra_generation st' = g" "ra_sequence st' = s" using kept(3) routed(3,4) by (simp_all add: same_message_def)
      have "state_inv config (log @ [((g, s, bs), res)]) (r\<lparr>rs_state := Some st'\<rparr>)"
        using kept(2) older by (auto simp: state_inv_def msg fs simp del: less_prod_simp)
      moreover have "order_inv (log @ [((g, s, bs), res)]) (r\<lparr>rs_state := Some st'\<rparr>)"
        by (rule order_inv_idle [OF inv(2) kept(4)]) simp
      moreover have "payload_inv config (log @ [((g, s, bs), res)])"
        using kept(5) by (intro payload_inv_snoc [OF inv(3)]) auto
      ultimately show thesis using that out kept(1) by blast
    next
      case (broken e)
      have "state_inv config (log @ [((g, s, bs), Inl e)]) (r\<lparr>rs_state := None, rs_last_completed := Some (g, s)\<rparr>)"
        by (simp add: state_inv_def)
      moreover have "payload_inv config (log @ [((g, s, bs), Inl e)])" by (rule payload_inv_snoc [OF inv(3)]) simp
      ultimately show thesis using that out broken routed(3,4) finished [of "Inl e"] by simp
    next
      case (complete payload)
      let ?res = "Inr (Ro_Complete g s payload b)"
      have "state_inv config (log @ [((g, s, bs), ?res)]) (r\<lparr>rs_state := None, rs_last_completed := Some (g, s)\<rparr>)"
        by (simp add: state_inv_def)
      moreover have "payload_inv config (log @ [((g, s, bs), ?res)])"
        by (rule payload_inv_snoc [OF inv(3)]) (use complete(2,3) fs in auto)
      ultimately show thesis using that out complete(1) routed(3,4) finished [of ?res] by simp
    qed
  qed
qed

lemma run_invs: "reassembler_run config log r \<Longrightarrow> state_inv config log r \<and> order_inv log r \<and> payload_inv config log"
proof (induction rule: reassembler_run.induct)
  case start
  then show ?case by (simp add: state_inv_def order_inv_def payload_inv_def completions_def Reassembler_new_def)
next
  case (push log r g s bs res r')
  from push.IH have inv: "state_inv config log r" "order_inv log r" "payload_inv config log" by simp_all
  show ?case by (rule push_step [OF inv, of g s bs]) (use push.hyps in simp)
qed

subsection \<open>The fragments of a payload\<close>

definition fragment_of :: "bytes \<Rightarrow> nat \<Rightarrow> nat \<Rightarrow> Fragment" where
  "fragment_of payload c i = \<lparr>fr_index = i, fr_count = div_ceil (length payload) c, fr_offset = i * c,
     fr_total_len = length payload, fr_payload = take c (drop (i * c) payload)\<rparr>"

lemma div_ceil_less_iff: "0 < c \<Longrightarrow> i < div_ceil n c \<longleftrightarrow> i * c < n"
proof -
  assume c: "0 < c"
  have "i < div_ceil n c \<longleftrightarrow> Suc i \<le> (n + c - 1) div c" by (simp only: div_ceil_def Suc_le_eq)
  also have "\<dots> \<longleftrightarrow> Suc i * c \<le> n + c - 1" using c by (rule less_eq_div_iff_mult_less_eq)
  also have "\<dots> \<longleftrightarrow> i * c < n" using c by auto
  finally show ?thesis .
qed

lemma div_ceil_step:
  assumes "0 < c" "0 < n"
  shows "div_ceil n c = Suc (div_ceil (n - c) c)"
proof -
  obtain m where n: "n = Suc m" using assms(2) by (cases n) auto
  have "div_ceil n c = Suc (m div c)" using assms(1) by (simp add: div_ceil_def n le_div_geq)
  moreover have "div_ceil (n - c) c = m div c"
  proof (cases "c \<le> n")
    case True
    then have "n - c + c - 1 = m" using n by simp
    then show ?thesis unfolding div_ceil_def by (simp only:)
  next
    case False
    with n assms(1) show ?thesis by (simp add: div_ceil_def)
  qed
  ultimately show ?thesis by simp
qed

lemma chunks_nth:
  "0 < c \<Longrightarrow> length (chunks c xs) = div_ceil (length xs) c
     \<and> (\<forall>i < div_ceil (length xs) c. chunks c xs ! i = take c (drop (i * c) xs))"
proof (induction c xs rule: chunks.induct)
  case (1 c xs)
  show ?case
  proof (cases "xs = []")
    case True
    then show ?thesis using 1(2) by (simp add: chunks.simps div_ceil_def)
  next
    case False
    then have len: "div_ceil (length xs) c = Suc (div_ceil (length (drop c xs)) c)"
      using 1(2) div_ceil_step [of c "length xs"] by simp
    have eq: "chunks c xs = take c xs # chunks c (drop c xs)" using False 1(2) by (subst chunks.simps) simp
    from 1(1) False 1(2) have IH: "length (chunks c (drop c xs)) = div_ceil (length (drop c xs)) c"
      "\<forall>i < div_ceil (length (drop c xs)) c. chunks c (drop c xs) ! i = take c (drop (i * c) (drop c xs))" by simp_all
    show ?thesis
      using IH unfolding eq len by (auto simp: nth_Cons drop_drop add.commute split: nat.splits)
  qed
qed

definition chunk_len :: "bytes \<Rightarrow> nat \<Rightarrow> nat \<Rightarrow> nat" where
  "chunk_len payload c i = min c (length payload - i * c)"

lemma fragment_of_payload: "length (fr_payload (fragment_of payload c i)) = chunk_len payload c i"
  by (simp add: fragment_of_def chunk_len_def)

lemma in_chunk:
  assumes "0 < c" "x < length payload"
  shows "covers (i * c, chunk_len payload c i) x \<longleftrightarrow> x div c = i"
proof -
  have "covers (i * c, chunk_len payload c i) x \<longleftrightarrow> i * c \<le> x \<and> x < i * c + c"
    using assms(2) by (auto simp: covers_def chunk_len_def)
  also have "\<dots> \<longleftrightarrow> x div c = i"
  proof
    assume "i * c \<le> x \<and> x < i * c + c"
    then show "x div c = i" by (intro div_nat_eqI) (simp_all add: mult.commute)
  next
    assume "x div c = i"
    then show "i * c \<le> x \<and> x < i * c + c"
      using assms(1) div_times_less_eq_dividend [of x c] dividend_less_div_times [of c x] by (simp add: add.commute)
  qed
  finally show ?thesis .
qed

text \<open>The reassembly after the fragments of a set of indices arrived.\<close>

definition partly :: "u32 \<Rightarrow> u64 \<Rightarrow> bytes \<Rightarrow> nat \<Rightarrow> nat set \<Rightarrow> Reassembly" where
  "partly g s payload c D =
     \<lparr>ra_generation = g, ra_sequence = s, ra_fragment_count = div_ceil (length payload) c, ra_total_len = length payload,
      ra_slots = map (\<lambda>i. if i \<in> D then Some (i * c, chunk_len payload c i) else None) [0..<div_ceil (length payload) c],
      ra_received = card D, ra_bytes = map (\<lambda>x. if x div c \<in> D then payload ! x else 0) [0..<length payload]\<rparr>"

lemma partly_insert:
  assumes c: "0 < c" and i: "i < div_ceil (length payload) c" and count: "div_ceil (length payload) c < 2 ^ 16"
    and D: "D \<subseteq> {..< div_ceil (length payload) c}"
  shows "Reassembly_insert (fragment_of payload c i) (partly g s payload c D) = Some (Inr (partly g s payload c (insert i D)))"
proof -
  let ?f = "fragment_of payload c i" and ?n = "length payload" and ?k = "div_ceil (length payload) c"
  have start: "i * c < ?n" using i c by (simp add: div_ceil_less_iff)
  have fits: "i * c + chunk_len payload c i \<le> ?n" using start by (simp add: chunk_len_def)
  have f: "fr_index ?f = i" "fr_offset ?f = i * c" "length (fr_payload ?f) = chunk_len payload c i"
    by (simp_all add: fragment_of_payload) (simp_all add: fragment_of_def)
  have data: "fr_payload ?f ! (x - i * c) = payload ! x" if "covers (i * c, chunk_len payload c i) x" for x
    using that start by (auto simp: fragment_of_def covers_def chunk_len_def)
  have fin: "finite D" using D finite_subset by blast
  show ?thesis
  proof (cases "i \<in> D")
    case True
    have "slice_at (i * c) (chunk_len payload c i) (ra_bytes (partly g s payload c D)) = fr_payload ?f"
    proof (rule nth_equalityI)
      show "length (slice_at (i * c) (chunk_len payload c i) (ra_bytes (partly g s payload c D))) = length (fr_payload ?f)"
        using fits f(3) by (simp add: slice_at_def partly_def)
      fix j assume "j < length (slice_at (i * c) (chunk_len payload c i) (ra_bytes (partly g s payload c D)))"
      then have j: "j < chunk_len payload c i" by (simp add: slice_at_def)
      then have cov: "covers (i * c, chunk_len payload c i) (i * c + j)" by (simp add: covers_def)
      have "(i * c + j) div c = i" using in_chunk [OF c, of "i * c + j"] cov j fits by simp
      then show "slice_at (i * c) (chunk_len payload c i) (ra_bytes (partly g s payload c D)) ! j = fr_payload ?f ! j"
        using data [OF cov] j fits True by (simp add: slice_at_def partly_def)
    qed
    with True i fits f show ?thesis
      by (simp add: Reassembly_insert_def partly_def insert_absorb)
  next
    case False
    have "write_at (i * c) (fr_payload ?f) (ra_bytes (partly g s payload c D))
        = ra_bytes (partly g s payload c (insert i D))" (is "?l = ?r")
    proof (rule nth_equalityI)
      show "length ?l = length ?r" using fits f(3) by (simp add: length_write_at partly_def)
      fix x assume "x < length ?l"
      then have x: "x < ?n" using fits f(3) by (simp add: length_write_at partly_def)
      then show "?l ! x = ?r ! x"
        using fits f(3) in_chunk [OF c x, of i] data [of x] by (auto simp: nth_write_at partly_def)
    qed
    moreover have "(ra_slots (partly g s payload c D))[i := Some (i * c, chunk_len payload c i)]
        = ra_slots (partly g s payload c (insert i D))"
      using i by (intro nth_equalityI) (auto simp: partly_def nth_list_update)
    moreover have "usize_sat_add (card D) (Suc 0) = card (insert i D)"
    proof -
      have "card D \<le> ?k" using card_mono [OF _ D] by simp
      with count False fin show ?thesis by (simp add: usize_add_small)
    qed
    ultimately show ?thesis
      using False i fits f by (simp add: Reassembly_insert_def partly_def)
  qed
qed

lemma contiguous_chunks:
  assumes c: "0 < c" and small: "length payload \<le> usize_max" and k: "k \<le> div_ceil (length payload) c"
  shows "contiguous (min (k * c) (length payload))
    (map (\<lambda>i. (i * c, chunk_len payload c i)) [k..<div_ceil (length payload) c]) = Some (length payload)"
  using k
proof (induction "div_ceil (length payload) c - k" arbitrary: k)
  case 0
  then have "\<not> k * c < length payload" using c by (simp add: div_ceil_less_iff [symmetric])
  then show ?case using 0 by simp
next
  case (Suc m)
  then have k: "k < div_ceil (length payload) c" by simp
  then have start: "k * c < length payload" using c by (simp add: div_ceil_less_iff)
  have "k * c + chunk_len payload c k = min (Suc k * c) (length payload)" using start by (auto simp: chunk_len_def)
  moreover have "contiguous (min (Suc k * c) (length payload))
      (map (\<lambda>i. (i * c, chunk_len payload c i)) [Suc k..<div_ceil (length payload) c]) = Some (length payload)"
    using Suc k by (intro Suc.hyps(1)) simp_all
  ultimately show ?case
    using k start small by (simp add: upt_conv_Cons contiguous_Cons del: contiguous.simps)
qed

lemma partly_finish:
  assumes "0 < c" "length payload \<le> usize_max"
  shows "Reassembly_finish (partly g s payload c {..< div_ceil (length payload) c}) = Inr payload"
proof -
  let ?k = "div_ceil (length payload) c" and ?st = "partly g s payload c {..< div_ceil (length payload) c}"
  have slots: "ra_slots ?st = map (\<lambda>i. Some (i * c, chunk_len payload c i)) [0..<?k]" by (simp add: partly_def)
  have "sorted (map fst (map (\<lambda>i. (i * c, chunk_len payload c i)) [0..<?k]))"
    by (auto simp: sorted_iff_nth_mono)
  then have "sort_key fst (map the (ra_slots ?st)) = map (\<lambda>i. (i * c, chunk_len payload c i)) [0..<?k]"
    by (simp add: slots comp_def sort_key_id_if_sorted)
  moreover have "x div c < ?k" if "x < length payload" for x
    using that assms(1) div_ceil_less_iff [of c "x div c" "length payload"] by (simp add: le_less_trans [OF div_times_less_eq_dividend])
  then have "ra_bytes ?st = payload" by (intro nth_equalityI) (simp_all add: partly_def)
  moreover have "None \<notin> set (ra_slots ?st)" by (auto simp: slots)
  ultimately show ?thesis
    using contiguous_chunks [OF assms, of 0] by (simp add: Reassembly_finish_def) (simp add: partly_def)
qed

lemma partly_message [simp]: "ra_generation (partly g s payload c D) = g" "ra_sequence (partly g s payload c D) = s"
  by (simp_all add: partly_def)

lemma partly_push_current:
  fixes out :: "(('x BindingError, ReassemblyOutcome) result \<times> Reassembler) option"
  assumes c: "0 < c" and i: "i < div_ceil (length payload) c" and count: "div_ceil (length payload) c < 2 ^ 16"
    and D: "D \<subseteq> {..< div_ceil (length payload) c}" and small: "length payload \<le> usize_max"
    and out: "push_current (fragment_of payload c i) b (partly g s payload c D) r = out"
  shows "out = (if insert i D = {..< div_ceil (length payload) c}
     then Some (Inr (Ro_Complete g s payload b), r\<lparr>rs_state := None, rs_last_completed := Some (g, s)\<rparr>)
     else Some (Inr (Ro_Pending b), r\<lparr>rs_state := Some (partly g s payload c (insert i D))\<rparr>))"
proof -
  have sub: "insert i D \<subseteq> {..< div_ceil (length payload) c}" using D i by auto
  have "card (insert i D) = div_ceil (length payload) c \<longleftrightarrow> insert i D = {..< div_ceil (length payload) c}"
    using card_subset_eq [OF finite_lessThan sub] by (metis card_lessThan)
  then have "Reassembly_complete (partly g s payload c (insert i D)) \<longleftrightarrow> insert i D = {..< div_ceil (length payload) c}"
    by (simp add: Reassembly_complete_def partly_def)
  moreover have "ra_fragment_count (partly g s payload c D) = fr_count (fragment_of payload c i)"
    "ra_total_len (partly g s payload c D) = fr_total_len (fragment_of payload c i)"
    by (simp_all add: partly_def fragment_of_def)
  ultimately show ?thesis
    using out
    by (cases "insert i D = {..< div_ceil (length payload) c}")
      (simp_all add: push_current_def partly_insert [OF c i count D] partly_finish [OF c small])
qed

text \<open>The reassembler knows exactly the fragments of the indices of a set of message
  \<open>(g, s)\<close>, or nothing as recent.\<close>

definition holds :: "u32 \<Rightarrow> u64 \<Rightarrow> bytes \<Rightarrow> nat \<Rightarrow> nat set \<Rightarrow> Reassembler \<Rightarrow> bool" where
  "holds g s payload c D r = (\<not> outdated g s (rs_last_completed r)
     \<and> (if D = {} then (\<forall>st. rs_state r = Some st \<longrightarrow> (ra_generation st, ra_sequence st) < (g, s))
        else rs_state r = Some (partly g s payload c D)))"

lemma new_partly:
  assumes "0 < c" "i < div_ceil (length payload) c" "div_ceil (length payload) c < 2 ^ 16"
  shows "Reassembly_new g s (fragment_of payload c i) = Some (Inr (partly g s payload c {i}))"
proof -
  have "partly g s payload c {} = \<lparr>ra_generation = g, ra_sequence = s, ra_fragment_count = fr_count (fragment_of payload c i),
      ra_total_len = fr_total_len (fragment_of payload c i), ra_slots = replicate (fr_count (fragment_of payload c i)) None,
      ra_received = 0, ra_bytes = replicate (fr_total_len (fragment_of payload c i)) 0\<rparr>"
    by (simp add: partly_def fragment_of_def map_replicate_const)
  then show ?thesis using partly_insert [OF assms, of "{}" g s] by (simp add: Reassembly_new_def)
qed

lemma push_fragment:
  fixes wire :: bytes
  assumes c: "0 < c" and i: "i < div_ceil (length payload) c" and count: "div_ceil (length payload) c < 2 ^ 16"
    and D: "D \<subset> {..< div_ceil (length payload) c}" and small: "length payload \<le> usize_max"
    and wire: "Fragment_decode wire config = (Inr (fragment_of payload c i) :: ('x BindingError, Fragment) result)"
    and holds: "holds g s payload c D r"
  obtains b where "(Reassembler_push g s wire config r :: (('x BindingError, ReassemblyOutcome) result \<times> Reassembler) option)
     = (if insert i D = {..< div_ceil (length payload) c}
        then Some (Inr (Ro_Complete g s payload b), r\<lparr>rs_state := None, rs_last_completed := Some (g, s)\<rparr>)
        else Some (Inr (Ro_Pending b), r\<lparr>rs_state := Some (partly g s payload c (insert i D))\<rparr>))"
proof -
  obtain out :: "(('x BindingError, ReassemblyOutcome) result \<times> Reassembler) option"
    where out: "Reassembler_push g s wire config r = out" by blast
  then show thesis
  proof (cases rule: push_cases)
    case (idle res)
    have cur: "(ra_generation cur, ra_sequence cur) \<le> (g, s)" if "rs_state r = Some cur" for cur
      using holds that by (cases "D = {}") (simp_all add: holds_def less_imp_le del: less_prod_simp less_eq_prod_simp)
    have "\<not> outdated g s (rs_last_completed r)" using holds by (simp add: holds_def)
    with idle(3) wire obtain st where "rs_state r = Some st" "(g, s) < (ra_generation st, ra_sequence st)" by auto
    with cur [of st] have False by (meson not_le)
    then show thesis ..
  next
    case (routed f st b)
    then have f: "f = fragment_of payload c i" using wire by simp
    have "st = partly g s payload c (if D = {} then {i} else D)"
      using routed(3,4,6) holds by (auto simp: f holds_def new_partly [OF c i count] split: if_splits)
    with routed(5) f have "push_current (fragment_of payload c i) b (partly g s payload c (if D = {} then {i} else D)) r = out" by simp
    from partly_push_current [OF c i count _ small this] D i show thesis
      using that [of b] out by (auto split: if_splits)
  qed
qed

fun push_all ::
  "BindingConfig \<Rightarrow> RealtimeDatagram list \<Rightarrow> Reassembler \<Rightarrow> (('x BindingError, ReassemblyOutcome) result list \<times> Reassembler) option" where
  "push_all config [] r = Some ([], r)"
| "push_all config (d # ds) r =
     (case Reassembler_push (rd_generation d) (rd_sequence d) (rd_payload d) config r of
        None \<Rightarrow> None
      | Some (res, r') \<Rightarrow> map_option (\<lambda>(results, r''). (res # results, r'')) (push_all config ds r'))"

lemma push_all_done:
  "rs_last_completed r = Some (g, s) \<Longrightarrow> \<forall>d \<in> set ds. rd_generation d = g \<and> rd_sequence d = s \<Longrightarrow>
   push_all config ds r = Some (replicate (length ds) (Inr Ro_IgnoredOld), r)"
  by (induction ds) (simp_all add: Reassembler_push_def)

definition exactly_once :: "('x BindingError, ReassemblyOutcome) result list \<Rightarrow> u32 \<Rightarrow> u64 \<Rightarrow> bytes \<Rightarrow> bool" where
  "exactly_once results g s payload = (\<exists>pending b ignored. results =
     map (\<lambda>p. Inr (Ro_Pending p)) pending @ [Inr (Ro_Complete g s payload b)] @ replicate ignored (Inr Ro_IgnoredOld))"

lemma exactly_once_Cons: "exactly_once results g s payload \<Longrightarrow> exactly_once (Inr (Ro_Pending b) # results) g s payload"
proof -
  assume "exactly_once results g s payload"
  then obtain pending b' ignored where "results = map (\<lambda>p. Inr (Ro_Pending p)) pending @ [Inr (Ro_Complete g s payload b')]
      @ replicate ignored (Inr Ro_IgnoredOld)" by (auto simp: exactly_once_def)
  then show ?thesis unfolding exactly_once_def
    by (intro exI [of _ "b # pending"] exI [of _ b'] exI [of _ ignored]) simp
qed

lemma push_all_fragments:
  assumes c: "0 < c" and count: "div_ceil (length payload) c < 2 ^ 16" and small: "length payload \<le> usize_max"
    and wire: "\<And>i. i < div_ceil (length payload) c \<Longrightarrow> rd_generation (dg i) = g \<and> rd_sequence (dg i) = s
       \<and> Fragment_decode (rd_payload (dg i)) config = (Inr (fragment_of payload c i) :: ('x BindingError, Fragment) result)"
    and "holds g s payload c D r" and "D \<subset> {..< div_ceil (length payload) c}"
    and "set is \<subseteq> {..< div_ceil (length payload) c}" and "D \<union> set is = {..< div_ceil (length payload) c}"
  shows "\<exists>results r'. push_all config (map dg is) r = Some (results :: ('x BindingError, ReassemblyOutcome) result list, r')
    \<and> exactly_once results g s payload"
  using assms(5-)
proof (induction "is" arbitrary: D r)
  case (Cons i "is")
  then have i: "i < div_ceil (length payload) c" by simp
  obtain b where push: "(Reassembler_push g s (rd_payload (dg i)) config r
       :: (('x BindingError, ReassemblyOutcome) result \<times> Reassembler) option)
     = (if insert i D = {..< div_ceil (length payload) c}
        then Some (Inr (Ro_Complete g s payload b), r\<lparr>rs_state := None, rs_last_completed := Some (g, s)\<rparr>)
        else Some (Inr (Ro_Pending b), r\<lparr>rs_state := Some (partly g s payload c (insert i D))\<rparr>))"
    using push_fragment [OF c i count Cons.prems(2) small _ Cons.prems(1)] wire [OF i] by metis
  show ?case
  proof (cases "insert i D = {..< div_ceil (length payload) c}")
    case True
    have "\<forall>d \<in> set (map dg is). rd_generation d = g \<and> rd_sequence d = s" using Cons.prems(3) wire by auto
    note ignored = push_all_done [OF _ this, of "r\<lparr>rs_state := None, rs_last_completed := Some (g, s)\<rparr>" config]
    have "(push_all config (map dg (i # is)) r :: (('x BindingError, ReassemblyOutcome) result list \<times> Reassembler) option)
      = Some (Inr (Ro_Complete g s payload b) # replicate (length is) (Inr Ro_IgnoredOld),
        r\<lparr>rs_state := None, rs_last_completed := Some (g, s)\<rparr>)"
      using push True wire [OF i] by (simp add: ignored)
    moreover have "exactly_once (Inr (Ro_Complete g s payload b) # replicate (length is) (Inr Ro_IgnoredOld)
        :: ('x BindingError, ReassemblyOutcome) result list) g s payload"
      unfolding exactly_once_def by (intro exI [of _ "[]"] exI [of _ b] exI [of _ "length is"]) simp
    ultimately show ?thesis by blast
  next
    case False
    let ?r = "r\<lparr>rs_state := Some (partly g s payload c (insert i D))\<rparr>"
    have "holds g s payload c (insert i D) ?r" using Cons.prems(1) by (simp add: holds_def split: if_splits)
    moreover have "insert i D \<subset> {..< div_ceil (length payload) c}" using Cons.prems(2) i False by auto
    ultimately obtain results r' where
      "push_all config (map dg is) ?r = Some (results :: ('x BindingError, ReassemblyOutcome) result list, r')"
      "exactly_once results g s payload"
      using Cons.IH [of "insert i D" ?r] Cons.prems(3,4) by auto
    then have "push_all config (map dg (i # is)) r = Some (Inr (Ro_Pending b) # results, r')"
      "exactly_once (Inr (Ro_Pending b) # results) g s payload"
      using push False wire [OF i] by (simp_all add: exactly_once_Cons)
    then show ?thesis by blast
  qed
qed simp

subsection \<open>What a sender hands over\<close>

text \<open>A connection that accepts every datagram and records it.\<close>

definition accept_all :: "RealtimeDatagram \<Rightarrow> RealtimeDatagram list \<Rightarrow> (TransportError, SendOutcome) result \<times> RealtimeDatagram list" where
  "accept_all d sent = (Inr Enqueued, sent @ [d])"

definition fragment_wire :: "bytes \<Rightarrow> nat \<Rightarrow> nat \<Rightarrow> bytes" where
  "fragment_wire payload c i =
     fragment_header (of_nat i) (of_nat (div_ceil (length payload) c)) (of_nat (i * c)) (of_nat (length payload))
     @ take c (drop (i * c) payload)"

definition fragment_datagram :: "FragmentSend \<Rightarrow> nat \<Rightarrow> nat \<Rightarrow> RealtimeDatagram" where
  "fragment_datagram request c i = \<lparr>rd_flow = fs_flow request, rd_generation = fs_generation request,
     rd_sequence = fs_sequence request, rd_deadline = fs_deadline request, rd_priority = fs_priority request,
     rd_payload = fragment_wire (fs_payload request) c i\<rparr>"

lemma length_fragment_header [simp]: "length (fragment_header index n offset len) = 18"
  by (simp add: fragment_header_def FRAGMENT_MAGIC_def)

lemma header_parts:
  "take 4 (fragment_header index n offset len @ xs) = FRAGMENT_MAGIC"
  "(fragment_header index n offset len @ xs) ! 4 = FRAGMENT_VERSION"
  "(fragment_header index n offset len @ xs) ! 5 = 0"
  "take 2 (drop 6 (fragment_header index n offset len @ xs)) = to_be_bytes index"
  "take 2 (drop 8 (fragment_header index n offset len @ xs)) = to_be_bytes n"
  "take 4 (drop 10 (fragment_header index n offset len @ xs)) = to_be_bytes offset"
  "take 4 (drop 14 (fragment_header index n offset len @ xs)) = to_be_bytes len"
  "drop 18 (fragment_header index n offset len @ xs) = xs"
  by (simp_all add: fragment_header_def FRAGMENT_MAGIC_def nth_append)

lemma decode_fragment_wire:
  assumes "0 < c" "i < div_ceil (length payload) c" "div_ceil (length payload) c < 2 ^ 16"
    and "div_ceil (length payload) c \<le> bc_max_fragments config" "length payload < 2 ^ 32"
    and "length payload \<le> bc_max_reassembly_bytes config"
  shows "Fragment_decode (fragment_wire payload c i) config = Inr (fragment_of payload c i)"
proof -
  have start: "i * c < length payload" using assms(1,2) by (simp add: div_ceil_less_iff)
  then have nonempty: "payload \<noteq> []" by auto
  from start have nat: "unat (of_nat i :: u16) = i" "unat (of_nat (div_ceil (length payload) c) :: u16) = div_ceil (length payload) c"
    "unat (of_nat (i * c) :: u32) = i * c" "unat (of_nat (length payload) :: u32) = length payload"
    using assms(2,3,5) by (simp_all add: unat_of_nat take_bit_nat_eq_self del: of_nat_mult)
  have len: "length (take c (drop (i * c) payload)) = chunk_len payload c i" "0 < chunk_len payload c i"
    "i * c + chunk_len payload c i \<le> length payload"
    using start assms(1) by (simp_all add: chunk_len_def)
  have "usize_checked_add (i * c) (chunk_len payload c i) = Some (i * c + chunk_len payload c i)"
    using len(3) assms(5) by (simp add: usize_checked_add_def usize_max_def)
  moreover define w where "w = fragment_wire payload c i"
  have "length w = 18 + chunk_len payload c i" using len(1) by (simp add: w_def fragment_wire_def)
  moreover have "take 4 w = FRAGMENT_MAGIC" "w ! 4 = FRAGMENT_VERSION" "w ! 5 = 0"
    "unat (from_be_bytes (take 2 (drop 6 w)) :: u16) = i"
    "unat (from_be_bytes (take 2 (drop 8 w)) :: u16) = div_ceil (length payload) c"
    "unat (from_be_bytes (take 4 (drop 10 w)) :: u32) = i * c"
    "unat (from_be_bytes (take 4 (drop 14 w)) :: u32) = length payload"
    "drop 18 w = take c (drop (i * c) payload)"
    unfolding w_def fragment_wire_def header_parts using nat by (simp_all del: of_nat_mult)
  ultimately have "Fragment_decode w config = Inr (fragment_of payload c i)"
    using assms(2,4,6) start len nonempty
    by (simp add: Fragment_decode_def FRAGMENT_HEADER_LEN_def fragment_of_def Let_def del: length_take length_drop)
  then show ?thesis by (simp add: w_def)
qed

lemma encode_fragment_wire:
  assumes "0 < c" "i < div_ceil (length (fs_payload request)) c" "div_ceil (length (fs_payload request)) c < 2 ^ 16"
    and "length (fs_payload request) < 2 ^ 32"
  shows "encode_fragment request c (div_ceil (length (fs_payload request)) c) i (take c (drop (i * c) (fs_payload request)))
    = Inr (fragment_wire (fs_payload request) c i)"
proof -
  have "i * c < length (fs_payload request)" using assms(1,2) by (simp add: div_ceil_less_iff)
  with assms(4) have "i * c \<le> usize_max" "i * c < 2 ^ 32" by (simp_all add: usize_max_def)
  with assms(2-4) show ?thesis
    by (simp add: encode_fragment_def try_word_def fragment_wire_def del: of_nat_mult)
qed

lemma send_chunks_accepted:
  assumes c: "0 < c" and count: "div_ceil (length (fs_payload request)) c < 2 ^ 16" and small: "length (fs_payload request) < 2 ^ 32"
    and k: "k \<le> div_ceil (length (fs_payload request)) c"
  shows "\<exists>outcome. send_chunks accept_all request c (div_ceil (length (fs_payload request)) c) k
      (map (\<lambda>i. take c (drop (i * c) (fs_payload request))) [k..<div_ceil (length (fs_payload request)) c]) aggregate sent
    = (Inr outcome, sent @ map (fragment_datagram request c) [k..<div_ceil (length (fs_payload request)) c])"
  using k
proof (induction "div_ceil (length (fs_payload request)) c - k" arbitrary: k aggregate sent)
  case (Suc m)
  then have k: "k < div_ceil (length (fs_payload request)) c" by simp
  show ?case
    using Suc.hyps(1) [of "Suc k" _ "sent @ [fragment_datagram request c k]"] Suc.hyps(2) k
    by (simp add: upt_conv_Cons encode_fragment_wire [OF c k count small] accept_all_def fragment_datagram_def)
qed simp

lemma send_fragmented_accepted:
  assumes "send_fragmented accept_all max_payload request []
    = (Inr outcome :: ('x BindingError, FragmentBatchOutcome) result, sent)"
  obtains c where "0 < c" "div_ceil (length (fs_payload request)) c < 2 ^ 16"
    "div_ceil (length (fs_payload request)) c \<le> bc_max_fragments (fs_config request)" "length (fs_payload request) < 2 ^ 32"
    "length (fs_payload request) \<le> bc_max_reassembly_bytes (fs_config request)" "fs_payload request \<noteq> []"
    "sent = map (fragment_datagram request c) [0..<div_ceil (length (fs_payload request)) c]"
proof -
  let ?p = "fs_payload request"
  from assms obtain m where m: "max_payload = Some m" "FRAGMENT_HEADER_LEN < m" and p: "?p \<noteq> []"
    "length ?p \<le> bc_max_reassembly_bytes (fs_config request)"
    by (auto simp: send_fragmented_def split: if_splits option.splits)
  define c where "c = m - FRAGMENT_HEADER_LEN"
  have c: "0 < c" using m(2) by (simp add: c_def)
  from assms m p have n: "div_ceil (length ?p) c \<le> bc_max_fragments (fs_config request)" "div_ceil (length ?p) c < 2 ^ 16"
    and chunks: "send_chunks accept_all request c (div_ceil (length ?p) c) 0 (chunks c ?p) FragmentBatchOutcome_default []
      = (Inr outcome :: ('x BindingError, FragmentBatchOutcome) result, sent)"
    by (simp_all add: send_fragmented_def Let_def c_def [symmetric] not_le split: if_splits)
  have eq: "chunks c ?p = map (\<lambda>i. take c (drop (i * c) ?p)) [0..<div_ceil (length ?p) c]"
    using chunks_nth [OF c, of ?p] by (intro nth_equalityI) auto
  have small: "length ?p < 2 ^ 32"
  proof (rule ccontr)
    assume big: "\<not> length ?p < 2 ^ 32"
    have "chunks c ?p = take c ?p # chunks c (drop c ?p)" using c p(1) by (subst chunks.simps) simp
    with chunks big n(2) show False by (simp add: encode_fragment_def try_word_def)
  qed
  obtain out where "send_chunks accept_all request c (div_ceil (length ?p) c) 0 (chunks c ?p) FragmentBatchOutcome_default []
      = (Inr out :: ('x BindingError, FragmentBatchOutcome) result, [] @ map (fragment_datagram request c) [0..<div_ceil (length ?p) c])"
    using send_chunks_accepted [OF c n(2) small, of 0] unfolding eq by blast
  with chunks have "sent = map (fragment_datagram request c) [0..<div_ceil (length ?p) c]" by simp
  with c n small p show thesis by (intro that) simp_all
qed

subsection \<open>Properties\<close>

definition behind :: "Reassembler \<Rightarrow> u32 \<Rightarrow> u64 \<Rightarrow> bool" where
  "behind r g s = (\<not> outdated g s (rs_last_completed r)
     \<and> (\<forall>st. rs_state r = Some st \<longrightarrow> (ra_generation st, ra_sequence st) < (g, s)))"

lemma arrivals_indices:
  assumes inj: "inj_on f {..< k :: nat}" and xs: "set xs = f ` {..<k}"
  obtains ks where "xs = map f ks" "set ks = {..<k}"
proof -
  have "\<forall>x \<in> set xs. \<exists>i. i < k \<and> x = f i" using xs by auto
  then obtain pick where pick: "\<And>x. x \<in> set xs \<Longrightarrow> pick x < k \<and> x = f (pick x)" by metis
  have eq: "xs = map f (map pick xs)" by (simp, rule map_idI [symmetric], use pick in simp)
  then have "f ` set (map pick xs) = f ` {..<k}" using xs by (metis set_map)
  moreover have "set (map pick xs) \<subseteq> {..<k}" using pick by auto
  ultimately show thesis using that [OF eq] inj_on_image_eq_iff [OF inj] by simp
qed

text \<open>C29: whatever datagrams reach a reassembler in whatever order, forged ones included, pushing one never
  panics; messages complete in strictly increasing order of generation and sequence, so none completes
  twice; and every byte of a completed payload comes, at its place, from a fragment that was pushed for
  that very message and announced that very length, within the configured bound.\<close>

theorem reassembly_authentic:
  assumes "reassembler_run config (log :: 'x push_log) r"
  shows "(Reassembler_push g s bs config r :: (('x BindingError, ReassemblyOutcome) result \<times> Reassembler) option) \<noteq> None
    \<and> sorted_wrt (<) (completions log)
    \<and> (\<forall>entry payload b. (entry, Inr (Ro_Complete g' s' payload b)) \<in> set log \<longrightarrow>
         length payload \<le> bc_max_reassembly_bytes config
         \<and> (\<forall>x < length payload. \<exists>f \<in> pushed config log g' s'.
              covers (fr_offset f, length (fr_payload f)) x \<and> payload ! x = fr_payload f ! (x - fr_offset f)
              \<and> fr_total_len f = length payload))"
proof -
  note inv = run_invs [OF assms]
  obtain res r' where "(Reassembler_push g s bs config r :: (('x BindingError, ReassemblyOutcome) result \<times> Reassembler) option)
      = Some (res, r')"
    using push_step inv by blast
  with inv show ?thesis unfolding order_inv_def payload_inv_def authentic_def by (auto, blast+)
qed

text \<open>C28: a payload whose fragments were all accepted by the connection is reassembled at the receiver exactly
  once and exactly, in whatever order the fragments arrive and however often each is repeated, provided the
  receiver is not already past that message: the pushes before the last missing fragment are pending, that
  one completes with the payload, and those after it are ignored.\<close>

theorem reassembly_any_order:
  assumes "send_fragmented accept_all max_payload request []
      = (Inr outcome :: ('x BindingError, FragmentBatchOutcome) result, sent)"
    and "set arrivals = set sent" and "behind r (fs_generation request) (fs_sequence request)"
  shows "\<exists>results r'. push_all (fs_config request) arrivals r = Some (results :: ('x BindingError, ReassemblyOutcome) result list, r')
    \<and> exactly_once results (fs_generation request) (fs_sequence request) (fs_payload request)"
proof -
  let ?p = "fs_payload request"
  from assms(1) obtain c where c: "0 < c" "div_ceil (length ?p) c < 2 ^ 16" "length ?p < 2 ^ 32" "?p \<noteq> []"
    and fits: "div_ceil (length ?p) c \<le> bc_max_fragments (fs_config request)" "length ?p \<le> bc_max_reassembly_bytes (fs_config request)"
    and sent: "sent = map (fragment_datagram request c) [0..<div_ceil (length ?p) c]"
    by (rule send_fragmented_accepted)
  let ?k = "div_ceil (length ?p) c" and ?dg = "fragment_datagram request c"
  have decode: "rd_generation (?dg i) = fs_generation request \<and> rd_sequence (?dg i) = fs_sequence request
      \<and> Fragment_decode (rd_payload (?dg i)) (fs_config request) = (Inr (fragment_of ?p c i) :: ('x BindingError, Fragment) result)"
    if "i < ?k" for i
    using decode_fragment_wire [OF c(1) that c(2) fits(1) c(3) fits(2)] by (simp add: fragment_datagram_def)
  have "inj_on ?dg {..<?k}"
  proof (rule inj_onI)
    fix i j assume "i \<in> {..<?k}" "j \<in> {..<?k}" "?dg i = ?dg j"
    with decode [of i] decode [of j] have "fragment_of ?p c i = fragment_of ?p c j" by simp
    then show "i = j" by (simp add: fragment_of_def)
  qed
  then obtain ks where ks: "arrivals = map ?dg ks" "set ks = {..<?k}"
    using arrivals_indices assms(2) unfolding sent by (metis atLeast0LessThan set_map set_upt)
  have "0 < ?k" using c(1,4) by (simp add: div_ceil_less_iff)
  then have "{} \<subset> {..<?k}" by auto
  moreover have "holds (fs_generation request) (fs_sequence request) ?p c {} r"
    using assms(3) by (simp add: holds_def behind_def)
  ultimately show ?thesis
    using push_all_fragments [OF c(1,2) _ decode, of "{}" r ks] c(3) ks by (simp add: usize_max_def)
qed

definition sample_send :: FragmentSend where
  "sample_send = \<lparr>fs_flow = CORE_RESULT_FLOW, fs_generation = 3, fs_sequence = 7, fs_deadline = 100, fs_priority = Rt_Normal,
     fs_payload = [1, 2, 3], fs_config = BindingConfig_default\<rparr>"

lemma sample_config: "fs_config sample_send = BindingConfig_default" "fs_payload sample_send = [1, 2, 3]"
    "bc_max_reassembly_bytes BindingConfig_default = 8388608" "bc_max_fragments BindingConfig_default = 8192"
  by (simp_all add: sample_send_def BindingConfig_default_def)

lemma sample_count: "div_ceil (Suc (Suc (Suc 0))) 2 = 2"
  by (simp add: div_ceil_def)

lemma sample_chunks: "chunks 2 [1, 2, 3 :: u8] = [[1, 2], [3]]"
  by (simp add: chunks.simps)

lemma sample_encode: "encode_fragment sample_send 2 2 0 [1, 2] = Inr (fragment_wire [1, 2, 3] 2 0)"
    "encode_fragment sample_send 2 2 (Suc 0) [3] = Inr (fragment_wire [1, 2, 3] 2 (Suc 0))"
  using encode_fragment_wire [of 2 0 sample_send] encode_fragment_wire [of 2 1 sample_send]
  by (simp_all add: sample_config sample_count)

lemma sample_fragment: "i < 2 \<Longrightarrow> Fragment_decode (fragment_wire [1, 2, 3] 2 i) BindingConfig_default = Inr (fragment_of [1, 2, 3] 2 i)"
  by (rule decode_fragment_wire) (simp_all add: sample_count sample_config)

text \<open>C28 witness: three bytes leave as two fragments of at most two bytes; they arrive in reverse, then again.\<close>

theorem reassembly_any_order_witness:
  "\<exists>results r'. push_all BindingConfig_default
       [fragment_datagram sample_send 2 1, fragment_datagram sample_send 2 0, fragment_datagram sample_send 2 1] Reassembler_new
     = Some (results :: (nat BindingError, ReassemblyOutcome) result list, r') \<and> exactly_once results 3 7 [1, 2, 3]"
proof -
  have "send_fragmented accept_all (Some 20) sample_send []
      = (Inr \<lparr>fbo_fragments = 2, fbo_enqueued = 2, fbo_replaced = 0, fbo_expired = 0, fbo_congested = 0\<rparr>
           :: (nat BindingError, FragmentBatchOutcome) result,
         [fragment_datagram sample_send 2 0, fragment_datagram sample_send 2 1])"
    by (simp add: send_fragmented_def sample_config FRAGMENT_HEADER_LEN_def sample_count sample_chunks sample_encode accept_all_def
        FragmentBatchOutcome_default_def usize_sat_add_def usize_max_def fragment_datagram_def)
  from reassembly_any_order [OF this, of
      "[fragment_datagram sample_send 2 1, fragment_datagram sample_send 2 0, fragment_datagram sample_send 2 1]" Reassembler_new]
  show ?thesis by (auto simp: behind_def outdated_def Reassembler_new_def sample_send_def)
qed

text \<open>C29 witness: the same message pushed in two halves to a fresh reassembler.\<close>

theorem reassembly_authentic_witness:
  "\<exists>log r. reassembler_run BindingConfig_default (log :: nat push_log) r \<and> completions log = [(3, 7)]
     \<and> sorted_wrt (<) (completions log)
     \<and> (Reassembler_push 3 8 [1] BindingConfig_default r :: ((nat BindingError, ReassemblyOutcome) result \<times> Reassembler) option) \<noteq> None"
proof -
  let ?p = "[1, 2, 3] :: bytes" and ?config = "BindingConfig_default"
  let ?r1 = "\<lparr>rs_state = Some (partly 3 7 ?p 2 {1}), rs_last_completed = None\<rparr>"
  let ?r2 = "\<lparr>rs_state = None, rs_last_completed = Some (3, 7)\<rparr>"
  have two: "{..<2::nat} = {0, 1}" by auto
  obtain b1 where r1: "Reassembler_push 3 7 (fragment_wire ?p 2 1) ?config Reassembler_new
      = Some (Inr (Ro_Pending b1) :: (nat BindingError, ReassemblyOutcome) result, ?r1)"
    by (rule push_fragment [where payload = ?p and c = 2 and i = 1 and D = "{}" and config = ?config and g = 3 and s = 7
          and r = Reassembler_new and wire = "fragment_wire ?p 2 1"])
      (auto simp: sample_count two sample_fragment holds_def outdated_def Reassembler_new_def usize_max_def)
  obtain b2 where r2: "Reassembler_push 3 7 (fragment_wire ?p 2 0) ?config ?r1
      = Some (Inr (Ro_Complete 3 7 ?p b2) :: (nat BindingError, ReassemblyOutcome) result, ?r2)"
    by (rule push_fragment [where payload = ?p and c = 2 and i = 0 and D = "{1}" and config = ?config and g = 3 and s = 7
          and r = ?r1 and wire = "fragment_wire ?p 2 0"])
      (auto simp: sample_count two sample_fragment holds_def outdated_def usize_max_def)
  let ?log = "([] @ [((3, 7, fragment_wire ?p 2 1), Inr (Ro_Pending b1))])
      @ [((3, 7, fragment_wire ?p 2 0), Inr (Ro_Complete 3 7 ?p b2))] :: nat push_log"
  have run: "reassembler_run ?config ?log ?r2"
    by (rule reassembler_run.push [OF reassembler_run.push [OF reassembler_run.start r1] r2])
  moreover have "completions ?log = [(3, 7)]" by (simp add: completions_def)
  ultimately show ?thesis using reassembly_authentic [OF run] by blast
qed

end
