(* ===== verification/Link_Ntp_Auth.thy ===== *)
theory Link_Ntp_Auth
  imports Link_Ntp Link_Security Link_Trust
begin

text \<open>
  Authorisation of a tracking session, \<^verbatim>\<open>auth.rs\<close> of the binding, and the clock the
  subscriber keeps of its producer. An authorisation is made from an authenticated session of
  the core and a trust record of the pairing store.
\<close>

unbundle bit_operations_syntax

subsection \<open>Permissions\<close>

datatype NtpRole = Nr_Publisher | Nr_Subscriber

datatype NtpPermission = Np_Publish | Np_Subscribe | Np_Negotiate | Np_CalibrationWrite

datatype NtpPermissions = NtpPermissions (permission_bits: u8)

definition NtpPermissions_empty :: NtpPermissions where
  "NtpPermissions_empty = NtpPermissions 0"

definition permission_flag :: "NtpPermission \<Rightarrow> u8" where
  "permission_flag permission =
     (case permission of Np_Publish \<Rightarrow> push_bit 0 1 | Np_Subscribe \<Rightarrow> push_bit 1 1 | Np_Negotiate \<Rightarrow> push_bit 2 1
      | Np_CalibrationWrite \<Rightarrow> push_bit 3 1)"

definition NtpPermissions_with :: "NtpPermissions \<Rightarrow> NtpPermission \<Rightarrow> NtpPermissions" where
  "NtpPermissions_with self permission = NtpPermissions (permission_bits self OR permission_flag permission)"

definition NtpPermissions_contains :: "NtpPermissions \<Rightarrow> NtpPermission \<Rightarrow> bool" where
  "NtpPermissions_contains self permission = (permission_bits self AND permission_flag permission \<noteq> 0)"

definition add_link_permission :: "LinkPermission \<Rightarrow> NtpPermissions \<Rightarrow> NtpPermissions" where
  "add_link_permission permission resolved =
     (case permission of
        Perm_TrackingPublish \<Rightarrow> NtpPermissions_with resolved Np_Publish
      | Perm_TrackingSubscribe \<Rightarrow> NtpPermissions_with resolved Np_Subscribe
      | Perm_TrackingNegotiate \<Rightarrow> NtpPermissions_with resolved Np_Negotiate
      | Perm_TrackingCalibrationWrite \<Rightarrow> NtpPermissions_with resolved Np_CalibrationWrite
      | Perm_Connect \<Rightarrow> resolved
      | Perm_OpenNamespace _ \<Rightarrow> resolved
      | Perm_Datagram \<Rightarrow> resolved)"

definition NtpPermissions_from_link_permissions :: "LinkPermission list \<Rightarrow> NtpPermissions" where
  "NtpPermissions_from_link_permissions permissions = fold add_link_permission permissions NtpPermissions_empty"

subsection \<open>Authorisation\<close>

record NtpPermissionGrant =
  npg_permissions :: NtpPermissions
  npg_revision :: u64

record NtpAuthorization =
  nau_peer_id :: PeerId
  nau_link_session_id :: SessionId
  nau_key_epoch :: u64
  nau_grant_revision :: u64
  nau_role :: NtpRole

definition authorize_ntp_session ::
  "AuthenticatedSession \<Rightarrow> NtpRole \<Rightarrow> NtpPermissionGrant \<Rightarrow> ('x BindingError, NtpAuthorization) result" where
  "authorize_ntp_session session role grant =
     (let allowed = (NtpPermissions_contains (npg_permissions grant) Np_Negotiate
        \<and> (case role of
             Nr_Publisher \<Rightarrow> NtpPermissions_contains (npg_permissions grant) Np_Publish
           | Nr_Subscriber \<Rightarrow> NtpPermissions_contains (npg_permissions grant) Np_Subscribe))
      in if \<not> allowed then Inl Be_Unauthorized
         else Inr \<lparr>nau_peer_id = si_peer_id (aus_session session), nau_link_session_id = si_session_id (aus_session session),
                   nau_key_epoch = ide_key_epoch (tse_identity (aus_evidence session)), nau_grant_revision = npg_revision grant,
                   nau_role = role\<rparr>)"

definition authorize_trusted_ntp_session ::
  "sha256 \<Rightarrow> AuthenticatedSession \<Rightarrow> NtpRole \<Rightarrow> TrustRecord \<Rightarrow> u64 \<Rightarrow> ('x BindingError, NtpAuthorization) result" where
  "authorize_trusted_ntp_session sha session role rec grant_revision =
     (if \<not> TrustRecord_is_active rec then Inl Be_PeerRevoked
      else if tr_peer_id rec \<noteq> si_peer_id (aus_session session)
              \<or> TrustRecord_public_key_fingerprint sha rec \<noteq> ide_public_key_fingerprint (tse_identity (aus_evidence session))
      then Inl Be_Unauthorized
      else authorize_ntp_session session role
             \<lparr>npg_permissions = NtpPermissions_from_link_permissions (map fst (bt_entries (tr_permissions rec))),
              npg_revision = grant_revision\<rparr>)"

definition validate_connection_authorization ::
  "ConnectionMetadata \<Rightarrow> NtpAuthorization \<Rightarrow> NtpRole \<Rightarrow> ('x BindingError, unit) result" where
  "validate_connection_authorization metadata authorization expected_role =
     (if nau_role authorization \<noteq> expected_role then Inl Be_Unauthorized
      else if (case cm_peer_hint metadata of None \<Rightarrow> False | Some peer \<Rightarrow> peer \<noteq> nau_peer_id authorization)
      then Inl Be_SessionBindingMismatch
      else Inr ())"

subsection \<open>The producer's clock\<close>

text \<open>The offset is an \<^verbatim>\<open>i128\<close> made from two \<^verbatim>\<open>u64\<close> values, so its saturating
  operations never saturate and it is an integer here. \<open>synchronized\<close> is the constructor of the
  third-party estimate.\<close>

record ClockSynchronizer =
  cs_pending_ping :: "u64 option"
  cs_offset :: "int option"
  cs_uncertainty :: "u64 option"

definition ClockSynchronizer_default :: ClockSynchronizer where
  "ClockSynchronizer_default = \<lparr>cs_pending_ping = None, cs_offset = None, cs_uncertainty = None\<rparr>"

definition ClockSynchronizer_note_ping :: "u64 \<Rightarrow> ClockSynchronizer \<Rightarrow> ClockSynchronizer" where
  "ClockSynchronizer_note_ping receiver_send_ns self = self\<lparr>cs_pending_ping := Some receiver_send_ns\<rparr>"

definition ClockSynchronizer_note_pong ::
  "u64 \<Rightarrow> u64 \<Rightarrow> u64 \<Rightarrow> ClockSynchronizer \<Rightarrow> ('x BindingError, unit) result \<times> ClockSynchronizer" where
  "ClockSynchronizer_note_pong receiver_send_ns producer_send_ns receiver_receive_ns self =
     (if cs_pending_ping self \<noteq> Some receiver_send_ns \<or> receiver_receive_ns < receiver_send_ns
      then (Inl Be_InvalidControl, self)
      else
        let uncertainty_ns = sat_sub receiver_receive_ns receiver_send_ns div 2;
            producer_at_receive = sat_add producer_send_ns uncertainty_ns
        in (Inr (), self\<lparr>cs_offset := Some (uint producer_at_receive - uint receiver_receive_ns),
              cs_uncertainty := Some uncertainty_ns, cs_pending_ping := None\<rparr>))"

definition ClockSynchronizer_estimate :: "(u64 \<Rightarrow> u64 \<Rightarrow> 'e) \<Rightarrow> u64 \<Rightarrow> ClockSynchronizer \<Rightarrow> 'e option" where
  "ClockSynchronizer_estimate synchronized receiver_now_ns self =
     (case cs_offset self of
        None \<Rightarrow> None
      | Some offset \<Rightarrow>
          let mapped = uint receiver_now_ns + offset;
              now_ns = (if mapped \<le> 0 then 0 else if mapped < 2 ^ 64 then word_of_int mapped else - 1)
          in (case cs_uncertainty self of
                None \<Rightarrow> None
              | Some uncertainty \<Rightarrow> Some (synchronized now_ns uncertainty)))"

subsection \<open>What the permissions allow\<close>

lemma permission_flag_bit: "NtpPermissions_contains p q \<longleftrightarrow> bit (permission_bits p)
    (case q of Np_Publish \<Rightarrow> 0 | Np_Subscribe \<Rightarrow> 1 | Np_Negotiate \<Rightarrow> 2 | Np_CalibrationWrite \<Rightarrow> 3)"
  using and_exp_eq_0_iff_not_bit [of "permission_bits p" 0] and_exp_eq_0_iff_not_bit [of "permission_bits p" 1]
    and_exp_eq_0_iff_not_bit [of "permission_bits p" 2] and_exp_eq_0_iff_not_bit [of "permission_bits p" 3]
  by (simp add: NtpPermissions_contains_def permission_flag_def push_bit_of_1 split: NtpPermission.split)

lemma contains_empty [simp]: "\<not> NtpPermissions_contains NtpPermissions_empty q"
  by (simp add: NtpPermissions_contains_def NtpPermissions_empty_def)

lemma contains_with [simp]: "NtpPermissions_contains (NtpPermissions_with p q) r \<longleftrightarrow> r = q \<or> NtpPermissions_contains p r"
  unfolding permission_flag_bit NtpPermissions_with_def permission_flag_def
  by (cases q; cases r) (auto simp: bit_simps push_bit_of_1)

definition link_permission :: "NtpPermission \<Rightarrow> LinkPermission" where
  "link_permission q = (case q of Np_Publish \<Rightarrow> Perm_TrackingPublish | Np_Subscribe \<Rightarrow> Perm_TrackingSubscribe
     | Np_Negotiate \<Rightarrow> Perm_TrackingNegotiate | Np_CalibrationWrite \<Rightarrow> Perm_TrackingCalibrationWrite)"

lemma contains_add_link:
  "NtpPermissions_contains (add_link_permission l p) q \<longleftrightarrow> l = link_permission q \<or> NtpPermissions_contains p q"
  by (cases l; cases q) (simp_all add: add_link_permission_def link_permission_def)

lemma contains_from_link:
  "NtpPermissions_contains (NtpPermissions_from_link_permissions ls) q \<longleftrightarrow> link_permission q \<in> set ls"
proof -
  have "NtpPermissions_contains (fold add_link_permission ls p) q \<longleftrightarrow> link_permission q \<in> set ls \<or> NtpPermissions_contains p q" for p
    by (induction ls arbitrary: p) (auto simp: contains_add_link)
  then show ?thesis by (simp add: NtpPermissions_from_link_permissions_def)
qed

lemma permission_entries: "l \<in> set (map fst (bt_entries ps)) \<longleftrightarrow> bt_contains ps l"
  using bt_keys_eq [of ps] by (auto simp: bt_contains_def)

definition role_permission :: "NtpRole \<Rightarrow> LinkPermission" where
  "role_permission role = (case role of Nr_Publisher \<Rightarrow> Perm_TrackingPublish | Nr_Subscriber \<Rightarrow> Perm_TrackingSubscribe)"

lemma authorize_granted_iff:
  "authorize_ntp_session session role
     \<lparr>npg_permissions = NtpPermissions_from_link_permissions ls, npg_revision = revision\<rparr>
     = (Inr a :: ('x BindingError, NtpAuthorization) result)
   \<longleftrightarrow> Perm_TrackingNegotiate \<in> set ls \<and> role_permission role \<in> set ls
     \<and> a = \<lparr>nau_peer_id = si_peer_id (aus_session session), nau_link_session_id = si_session_id (aus_session session),
            nau_key_epoch = ide_key_epoch (tse_identity (aus_evidence session)), nau_grant_revision = revision, nau_role = role\<rparr>"
  by (cases role) (auto simp: authorize_ntp_session_def contains_from_link link_permission_def role_permission_def)

lemma authenticate_session_binds:
  assumes "authenticate_session session evidence expected policy = Inr a"
  shows "aus_session a = session" "aus_evidence a = evidence" "si_peer_id session = sx_peer_id expected"
    "ide_public_key_fingerprint (tse_identity evidence) = sx_public_key_fingerprint expected"
    "sx_minimum_key_epoch expected \<le> ide_key_epoch (tse_identity evidence)"
  using assms by (auto simp: authenticate_session_def validate_transport_security_def result_bind_eq_Inr split: if_splits)

subsection \<open>Properties\<close>

text \<open>C31: tracking over an authenticated session is authorised exactly for a trusted peer. For a session the core
  authenticated against an expectation, a role is authorised from a trust record if and only if the record is
  active, names the expected peer and holds the key of the expected fingerprint, and its permissions include
  negotiation and the role's own; the authorisation then names that peer, that link session, a key epoch no
  older than expected, the grant's revision and that role, and a connection is accepted with it for no other
  role and no other peer.\<close>

theorem ntp_session_authorized:
  assumes "authenticate_session session evidence expected policy = Inr a"
  shows "(authorize_trusted_ntp_session sha a role rec revision = (Inr auth :: ('x BindingError, NtpAuthorization) result)
      \<longleftrightarrow> tr_key_state rec = Key_Active \<and> tr_peer_id rec = sx_peer_id expected
        \<and> sha (tr_public_key rec) = sx_public_key_fingerprint expected
        \<and> bt_contains (tr_permissions rec) Perm_TrackingNegotiate \<and> bt_contains (tr_permissions rec) (role_permission role)
        \<and> auth = \<lparr>nau_peer_id = sx_peer_id expected, nau_link_session_id = si_session_id session,
                 nau_key_epoch = ide_key_epoch (tse_identity evidence), nau_grant_revision = revision, nau_role = role\<rparr>)
    \<and> sx_minimum_key_epoch expected \<le> ide_key_epoch (tse_identity evidence)
    \<and> (validate_connection_authorization metadata auth role' = (Inr () :: ('x BindingError, unit) result)
      \<longleftrightarrow> role' = nau_role auth \<and> (cm_peer_hint metadata = None \<or> cm_peer_hint metadata = Some (nau_peer_id auth)))"
proof -
  note binds = authenticate_session_binds [OF assms]
  have "validate_connection_authorization metadata auth role' = (Inr () :: ('x BindingError, unit) result)
      \<longleftrightarrow> role' = nau_role auth \<and> (cm_peer_hint metadata = None \<or> cm_peer_hint metadata = Some (nau_peer_id auth))"
    by (auto simp: validate_connection_authorization_def split: option.splits)
  moreover have "authorize_trusted_ntp_session sha a role rec revision = (Inr auth :: ('x BindingError, NtpAuthorization) result)
      \<longleftrightarrow> tr_key_state rec = Key_Active \<and> tr_peer_id rec = sx_peer_id expected
        \<and> sha (tr_public_key rec) = sx_public_key_fingerprint expected
        \<and> bt_contains (tr_permissions rec) Perm_TrackingNegotiate \<and> bt_contains (tr_permissions rec) (role_permission role)
        \<and> auth = \<lparr>nau_peer_id = sx_peer_id expected, nau_link_session_id = si_session_id session,
                 nau_key_epoch = ide_key_epoch (tse_identity evidence), nau_grant_revision = revision, nau_role = role\<rparr>"
    using binds(1-4) unfolding authorize_trusted_ntp_session_def TrustRecord_is_active_def TrustRecord_public_key_fingerprint_def
    by (auto simp: authorize_granted_iff permission_entries simp del: set_map)
  ultimately show ?thesis using binds(5) by blast
qed

definition sample_tracker :: TrustRecord where
  "sample_tracker = \<lparr>tr_peer_id = PeerId 7, tr_public_key = [5], tr_alias = [65], tr_first_paired_at_unix_ms = 1,
     tr_permissions = bs_of_list [Perm_Connect, Perm_TrackingNegotiate, Perm_TrackingPublish], tr_key_state = Key_Active,
     tr_last_pairing_challenge_hash = 0, tr_previous_key_fingerprints = []\<rparr>"

text \<open>C31 witness: a peer with the permission to publish may publish and not subscribe.\<close>

theorem ntp_session_authorized_witness:
  "\<exists>a. authenticate_session sample_info sample_evidence sample_expectation SecurityPolicy_default = Inr a
     \<and> (\<exists>auth. authorize_trusted_ntp_session (\<lambda>_. 8) a Nr_Publisher sample_tracker 4
           = (Inr auth :: (nat BindingError, NtpAuthorization) result) \<and> nau_peer_id auth = PeerId 7)
     \<and> (\<nexists>auth. authorize_trusted_ntp_session (\<lambda>_. 8) a Nr_Subscriber sample_tracker 4
           = (Inr auth :: (nat BindingError, NtpAuthorization) result))"
proof -
  obtain a where a: "authenticate_session sample_info sample_evidence sample_expectation SecurityPolicy_default = Inr a"
    by (simp add: authenticate_session_def validate_transport_security_def validate_binding_def sample_info_def
        sample_evidence_def sample_expectation_def SecurityPolicy_default_def requires_forward_secrecy_def)
  from ntp_session_authorized [OF a, where sha = "\<lambda>_. 8" and rec = sample_tracker and revision = 4 and 'x = nat]
  have "authorize_trusted_ntp_session (\<lambda>_. 8) a role sample_tracker 4 = (Inr auth :: (nat BindingError, NtpAuthorization) result)
      \<longleftrightarrow> role = Nr_Publisher \<and> auth = \<lparr>nau_peer_id = PeerId 7, nau_link_session_id = SessionId 1, nau_key_epoch = 3,
            nau_grant_revision = 4, nau_role = role\<rparr>" for role auth
    by (cases role) (simp_all add: sample_tracker_def sample_expectation_def sample_info_def sample_evidence_def role_permission_def)
  with a show ?thesis by auto
qed

text \<open>C32: the producer's clock is estimated within the round trip. When the producer's clock runs at a constant
  distance from the receiver's, its reply was stamped at some moment between the sending of the ping and the
  arrival of the pong, and its clock fits its 64 bits, then an accepted pong gives an estimate of the producer's
  time at every later moment whose error is at most the reported uncertainty and one nanosecond of rounding, and
  the reported uncertainty is at most half the round trip.\<close>

theorem clock_estimate_accurate:
  assumes "ClockSynchronizer_note_pong t0 p t1 (ClockSynchronizer_note_ping t0 clock)
      = (Inr () :: ('x BindingError, unit) result, clock')"
    and "uint p = x + d" and "uint t0 \<le> x" and "x \<le> uint t1"
    and "0 \<le> uint t1 + d" and "uint t1 + d < 2 ^ 64" and "0 \<le> uint now + d" and "uint now + d < 2 ^ 64"
  shows "\<exists>estimate uncertainty.
     ClockSynchronizer_estimate synchronized now clock' = Some (synchronized estimate uncertainty)
     \<and> \<bar>uint estimate - (uint now + d)\<bar> \<le> uint uncertainty + 1 \<and> 2 * uint uncertainty \<le> uint t1 - uint t0"
proof -
  define u where "u = sat_sub t1 t0 div 2"
  define e where "e = sat_add p u"
  define m where "m = uint now + (uint e - uint t1)"
  define est :: u64 where "est = (if m \<le> 0 then 0 else if m < 2 ^ 64 then word_of_int m else - 1)"
  have c: "cs_offset clock' = Some (uint e - uint t1)" "cs_uncertainty clock' = Some u" and le: "t0 \<le> t1"
    using assms(1) by (auto simp: ClockSynchronizer_note_pong_def ClockSynchronizer_note_ping_def Let_def u_def e_def split: if_splits)
  have diff: "uint (sat_sub t1 t0) = uint t1 - uint t0"
    unfolding uint_nat unat_sat_sub using le by (intro of_nat_diff) (simp add: word_le_nat_alt)
  have u: "uint u = (uint t1 - uint t0) div 2" by (simp add: u_def uint_div diff)
  have e: "uint e = min (uint p + uint u) (2 ^ 64 - 1)"
    unfolding uint_nat e_def unat_sat_add of_nat_min of_nat_add by simp
  have "uint est = max 0 (min m (2 ^ 64 - 1))"
    by (auto simp: est_def word_of_int_inverse uint_word_of_int_eq take_bit_int_eq_self)
  then have "\<bar>uint est - (uint now + d)\<bar> \<le> \<bar>m - (uint now + d)\<bar>" using assms(7,8) by linarith
  also have "\<dots> \<le> \<bar>uint p + uint u - (uint t1 + d)\<bar>" using e assms(5,6) by (simp add: m_def)
  also have "\<dots> \<le> uint u + 1" using u assms(2-4) by simp
  finally have "\<bar>uint est - (uint now + d)\<bar> \<le> uint u + 1" .
  moreover have "ClockSynchronizer_estimate synchronized now clock' = Some (synchronized est u)"
    by (simp add: ClockSynchronizer_estimate_def c est_def m_def)
  moreover have "2 * uint u \<le> uint t1 - uint t0" using u by simp
  ultimately show ?thesis by blast
qed

text \<open>C32 witness: a producer a thousand nanoseconds ahead answers in the middle of a round trip of ten.\<close>

theorem clock_estimate_accurate_witness:
  "\<exists>clock' estimate uncertainty. ClockSynchronizer_note_pong 100 1105 110 (ClockSynchronizer_note_ping 100 ClockSynchronizer_default)
       = (Inr () :: (nat BindingError, unit) result, clock')
     \<and> ClockSynchronizer_estimate Pair 200 clock' = Some (estimate, uncertainty)
     \<and> \<bar>uint estimate - 1200\<bar> \<le> uint uncertainty + 1 \<and> 2 * uint uncertainty \<le> 10"
proof -
  obtain clock' where pong: "ClockSynchronizer_note_pong 100 1105 110 (ClockSynchronizer_note_ping 100 ClockSynchronizer_default)
      = (Inr () :: (nat BindingError, unit) result, clock')"
    by (simp add: ClockSynchronizer_note_pong_def ClockSynchronizer_note_ping_def Let_def)
  from clock_estimate_accurate [OF pong, of 105 1000 200 Pair] pong show ?thesis by auto
qed

end
