(* ===== verification/Link_Pool.thy ===== *)
theory Link_Pool
  imports Link_Session Link_Reconnect Link_Realtime
begin

text \<open>
  The multi-peer session pool of \<^verbatim>\<open>mutsuki-link-runtime\<close>: one session per authenticated
  peer, each with a heartbeat and a reconnection controller of its own. A QUIC connection is a
  value of a type parameter; what the pool asks of it is to abort, and the connections aborted so
  far are a component of the state, for a connection that goes out of scope aborts as well. What
  the listener and the connector return, and the time, are arguments.

  The lemmas show that every connection the pool was given is at any time awaiting admission, the
  connection of one session, or aborted. A session's own connection is aborted only where the host
  aborted it through the session's handle, for the pool keeps such a session until the host removes it.
\<close>

subsection \<open>Configuration\<close>

datatype SocketAddr = SocketV4 u32 u16 | SocketV6 u128 u16 u32 u32

datatype DuplicatePeerPolicy = ReplaceExisting | Dp_Reject

record QuicOptions =
  qo_budget :: TransportBudget
  qo_connect_timeout :: nat
  qo_enable_datagrams :: bool
  qo_realtime_queue :: RealtimeQueueConfig
  qo_enable_zero_rtt :: bool

definition QuicOptions_default :: QuicOptions where
  "QuicOptions_default = \<lparr>qo_budget = TransportBudget_default, qo_connect_timeout = 10 * 1000000000, qo_enable_datagrams = True,
     qo_realtime_queue = RealtimeQueueConfig_default, qo_enable_zero_rtt = False\<rparr>"

definition QuicOptions_validate :: "QuicOptions \<Rightarrow> (TransportError, QuicOptions) result" where
  "QuicOptions_validate self =
     result_bind (TransportBudget_validate (qo_budget self)) (\<lambda>_.
       if \<not> RealtimeQueueConfig_is_valid (qo_realtime_queue self)
       then Inl (TransportError_new Te_Other ''realtime queue limits must be positive'')
       else if qo_enable_zero_rtt self
       then Inl (TransportError_new Te_Unsupported ''0-RTT is disabled for replay-sensitive Link control operations'')
       else Inr self)"

record LinkEndpointConfig =
  lec_local_endpoint :: EndpointId
  lec_bind :: SocketAddr
  lec_quic :: QuicOptions
  lec_heartbeat :: HeartbeatPolicy
  lec_reconnect :: ReconnectPolicy
  lec_max_peers :: nat
  lec_duplicate_peer :: DuplicatePeerPolicy
  lec_server_name :: bytes
  lec_connect_timeout :: nat

text \<open>The bytes of the endpoint are all one; the address is the loopback one, the name
  \<^verbatim>\<open>localhost\<close>.\<close>

definition LinkEndpointConfig_default :: LinkEndpointConfig where
  "LinkEndpointConfig_default =
     \<lparr>lec_local_endpoint = EndpointId (from_be_bytes (replicate 16 1)), lec_bind = SocketV4 (from_be_bytes [127, 0, 0, 1]) 0,
      lec_quic = QuicOptions_default\<lparr>qo_enable_datagrams := False\<rparr>, lec_heartbeat = HeartbeatPolicy_default,
      lec_reconnect = Rp_Disabled, lec_max_peers = 8, lec_duplicate_peer = ReplaceExisting,
      lec_server_name = [108, 111, 99, 97, 108, 104, 111, 115, 116], lec_connect_timeout = 10 * 1000000000\<rparr>"

definition LinkEndpointConfig_validate :: "LinkEndpointConfig \<Rightarrow> (string, unit) result" where
  "LinkEndpointConfig_validate self =
     (if lec_max_peers self = 0 then Inl ''max_peers must be positive''
      else if \<not> HeartbeatPolicy_is_valid (lec_heartbeat self) then Inl ''heartbeat policy is invalid''
      else if lec_server_name self = [] then Inl ''server_name must not be empty''
      else if lec_connect_timeout self = 0 then Inl ''connect_timeout must be positive''
      else
        let reconnect_valid =
              (case lec_reconnect self of
                 Rp_Disabled \<Rightarrow> True
               | Rp_ApplicationControlled \<Rightarrow> True
               | Rp_Immediate limit \<Rightarrow> RetryLimit_is_valid limit
               | Rp_ExponentialBackoff config \<Rightarrow> ExponentialBackoff_is_valid config)
        in if \<not> reconnect_valid then Inl ''reconnect policy is invalid'' else Inr ())"

datatype PoolError =
    Po_InvalidConfig string | Po_Transport TransportError | Po_PeerLimit | Po_DuplicatePeer PeerId | Po_UnknownPeer PeerId

definition PoolError_kind :: "PoolError \<Rightarrow> TransportErrorKind option" where
  "PoolError_kind self =
     (case self of Po_Transport error \<Rightarrow> Some (te_kind error) | Po_PeerLimit \<Rightarrow> Some Te_WouldBlock | _ \<Rightarrow> None)"

datatype PoolEvent =
    Pe_InboundAwaitingAuth ConnectionId SocketAddr | Pe_PeerConnected PeerId | Pe_PeerDisconnected PeerId CloseReason
  | Pe_ReconnectScheduled PeerId u64 u32 | Pe_Heartbeat PeerId HeartbeatAction ConnectionActivityProfile | Pe_BudgetExceeded
  | Pe_ReconnectStopped PeerId ReconnectAction

subsection \<open>One peer's session\<close>

record 'c PeerSessionHandle =
  psh_peer_id :: PeerId
  psh_remote_endpoint :: EndpointId
  psh_remote_addr :: SocketAddr
  psh_connection :: 'c
  psh_heartbeat :: HeartbeatController
  psh_reconnect :: ReconnectController

definition PeerSessionHandle_new ::
  "u64 \<Rightarrow> PeerId \<Rightarrow> EndpointId \<Rightarrow> SocketAddr \<Rightarrow> 'c \<Rightarrow> HeartbeatPolicy \<Rightarrow> ReconnectPolicy \<Rightarrow> (PoolError, 'c PeerSessionHandle) result" where
  "PeerSessionHandle_new now peer_id remote_endpoint remote_addr connection heartbeat reconnect =
     result_bind (result_map_err Po_InvalidConfig (HeartbeatController_new heartbeat now)) (\<lambda>heartbeat.
     result_bind (result_map_err Po_InvalidConfig (ReconnectController_new reconnect (CancellationToken False))) (\<lambda>reconnect.
       Inr \<lparr>psh_peer_id = peer_id, psh_remote_endpoint = remote_endpoint, psh_remote_addr = remote_addr,
            psh_connection = connection, psh_heartbeat = heartbeat, psh_reconnect = reconnect\<rparr>))"

definition PeerSessionHandle_tick_heartbeat ::
  "u64 \<Rightarrow> ConnectionActivityProfile \<Rightarrow> 'c PeerSessionHandle \<Rightarrow> HeartbeatAction \<times> 'c PeerSessionHandle" where
  "PeerSessionHandle_tick_heartbeat now_unix_ms profile self =
     (case HeartbeatController_tick (psh_heartbeat self) now_unix_ms profile of
        (action, heartbeat) \<Rightarrow> (action, self\<lparr>psh_heartbeat := heartbeat\<rparr>))"

definition PeerSessionHandle_observe_transport_ack :: "u64 \<Rightarrow> 'c PeerSessionHandle \<Rightarrow> 'c PeerSessionHandle" where
  "PeerSessionHandle_observe_transport_ack now_unix_ms self =
     self\<lparr>psh_heartbeat := HeartbeatController_observe_transport_ack (psh_heartbeat self) now_unix_ms\<rparr>"

definition PeerSessionHandle_observe_probe_ack :: "u64 \<Rightarrow> 'c PeerSessionHandle \<Rightarrow> 'c PeerSessionHandle" where
  "PeerSessionHandle_observe_probe_ack now_unix_ms self =
     self\<lparr>psh_heartbeat := HeartbeatController_observe_probe_ack (psh_heartbeat self) now_unix_ms\<rparr>"

definition PeerSessionHandle_after_transport_failure ::
  "ReconnectFailure \<Rightarrow> u64 \<Rightarrow> u16 \<Rightarrow> 'c PeerSessionHandle \<Rightarrow> ReconnectAction \<times> 'c PeerSessionHandle" where
  "PeerSessionHandle_after_transport_failure failure now_unix_ms jitter_sample self =
     (case ReconnectController_after_failure (psh_reconnect self) failure now_unix_ms jitter_sample of
        (action, reconnect) \<Rightarrow> (action, self\<lparr>psh_reconnect := reconnect\<rparr>))"

definition PeerSessionHandle_reset_reconnect :: "'c PeerSessionHandle \<Rightarrow> 'c PeerSessionHandle" where
  "PeerSessionHandle_reset_reconnect self = self\<lparr>psh_reconnect := ReconnectController_reset (psh_reconnect self)\<rparr>"

definition PeerSessionHandle_disconnect :: "'c PeerSessionHandle \<Rightarrow> 'c set \<Rightarrow> 'c set" where
  "PeerSessionHandle_disconnect self aborted = insert (psh_connection self) aborted"

subsection \<open>The pool\<close>

record 'c InboundConnect =
  ic_connection_id :: ConnectionId
  ic_remote_addr :: SocketAddr
  ic_provisional_remote_endpoint :: EndpointId
  ic_connection :: "'c option"

definition InboundConnect_take_connection :: "'c InboundConnect \<Rightarrow> 'c option \<times> 'c InboundConnect" where
  "InboundConnect_take_connection self = (ic_connection self, self\<lparr>ic_connection := None\<rparr>)"

definition InboundConnect_drop :: "'c InboundConnect \<Rightarrow> 'c set \<Rightarrow> 'c set" where
  "InboundConnect_drop self aborted =
     (case ic_connection self of None \<Rightarrow> aborted | Some connection \<Rightarrow> insert connection aborted)"

record 'c PeerSessionPool =
  psp_config :: LinkEndpointConfig
  psp_sessions :: "(PeerId, 'c PeerSessionHandle) btree"
  psp_inbound_seq :: u64

text \<open>The arguments are what binding the listener and making the connector return.\<close>

definition PeerSessionPool_bind ::
  "(TransportError, unit) result \<Rightarrow> (TransportError, unit) result \<Rightarrow> LinkEndpointConfig \<Rightarrow> (PoolError, 'c PeerSessionPool) result" where
  "PeerSessionPool_bind listener connector config =
     result_bind (result_map_err Po_InvalidConfig (LinkEndpointConfig_validate config)) (\<lambda>_.
     result_bind (result_map_err Po_Transport listener) (\<lambda>_.
     result_bind (result_map_err Po_Transport connector) (\<lambda>_.
       Inr \<lparr>psp_config = config, psp_sessions = bt_empty, psp_inbound_seq = 1\<rparr>)))"

definition next_connection_id :: "u64 \<Rightarrow> u64 \<Rightarrow> ConnectionId \<times> u64" where
  "next_connection_id millis sequence = (ConnectionId (from_be_bytes (to_be_bytes sequence @ to_be_bytes millis)), sequence + 1)"

definition PeerSessionPool_accept_inbound ::
  "(TransportError, 'c \<times> SocketAddr) result \<Rightarrow> u64 \<Rightarrow> EndpointId \<Rightarrow> 'c PeerSessionPool
     \<Rightarrow> (PoolError, 'c InboundConnect) result \<times> 'c PeerSessionPool" where
  "PeerSessionPool_accept_inbound accepted millis provisional_remote_endpoint self =
     (case accepted of
        Inl error \<Rightarrow> (Inl (Po_Transport error), self)
      | Inr (connection, remote_addr) \<Rightarrow>
          (case next_connection_id millis (psp_inbound_seq self) of
             (connection_id, sequence) \<Rightarrow>
               (Inr \<lparr>ic_connection_id = connection_id, ic_remote_addr = remote_addr,
                     ic_provisional_remote_endpoint = provisional_remote_endpoint, ic_connection = Some connection\<rparr>,
                self\<lparr>psp_inbound_seq := sequence\<rparr>)))"

definition PeerSessionPool_ensure_capacity_for :: "PeerId \<Rightarrow> 'c PeerSessionPool \<Rightarrow> (PoolError, unit) result" where
  "PeerSessionPool_ensure_capacity_for peer_id self =
     (if bt_contains (psp_sessions self) peer_id
      then (case lec_duplicate_peer (psp_config self) of
              ReplaceExisting \<Rightarrow> Inr () | Dp_Reject \<Rightarrow> Inl (Po_DuplicatePeer peer_id))
      else if bt_len (psp_sessions self) \<ge> lec_max_peers (psp_config self) then Inl Po_PeerLimit
      else Inr ())"

text \<open>The connection is owned by the call: it is aborted wherever the call fails. The session is the
  one stored under the peer.\<close>

definition PeerSessionPool_insert_session ::
  "u64 \<Rightarrow> PeerId \<Rightarrow> EndpointId \<Rightarrow> SocketAddr \<Rightarrow> 'c \<Rightarrow> 'c PeerSessionPool \<Rightarrow> 'c set
     \<Rightarrow> (PoolError, 'c PeerSessionHandle) result \<times> 'c PeerSessionPool \<times> 'c set" where
  "PeerSessionPool_insert_session now peer_id remote_endpoint remote_addr connection self aborted =
     (case PeerSessionPool_ensure_capacity_for peer_id self of
        Inl error \<Rightarrow> (Inl error, self, insert connection aborted)
      | Inr _ \<Rightarrow>
          (case
             (case bt_get (psp_sessions self) peer_id of
                Some previous \<Rightarrow>
                  (case lec_duplicate_peer (psp_config self) of
                     ReplaceExisting \<Rightarrow>
                       Inr (self\<lparr>psp_sessions := bt_remove peer_id (psp_sessions self)\<rparr>, PeerSessionHandle_disconnect previous aborted)
                   | Dp_Reject \<Rightarrow> Inl (Po_DuplicatePeer peer_id))
              | None \<Rightarrow>
                  if bt_len (psp_sessions self) \<ge> lec_max_peers (psp_config self) then Inl Po_PeerLimit
                  else Inr (self, aborted)) of
             Inl error \<Rightarrow> (Inl error, self, insert connection aborted)
           | Inr (self, aborted) \<Rightarrow>
               (case PeerSessionHandle_new now peer_id remote_endpoint remote_addr connection
                       (lec_heartbeat (psp_config self)) (lec_reconnect (psp_config self)) of
                  Inl error \<Rightarrow> (Inl error, self, insert connection aborted)
                | Inr handle \<Rightarrow> (Inr handle, self\<lparr>psp_sessions := bt_insert peer_id handle (psp_sessions self)\<rparr>, aborted))))"

definition PeerSessionPool_admit_inbound ::
  "u64 \<Rightarrow> 'c InboundConnect \<Rightarrow> PeerId \<Rightarrow> EndpointId \<Rightarrow> 'c PeerSessionPool \<Rightarrow> 'c set
     \<Rightarrow> (PoolError, 'c PeerSessionHandle) result \<times> 'c PeerSessionPool \<times> 'c set" where
  "PeerSessionPool_admit_inbound now inbound peer_id remote_endpoint self aborted =
     (case InboundConnect_take_connection inbound of
        (None, inbound) \<Rightarrow> (Inl (Po_InvalidConfig ''inbound connection already consumed''), self, InboundConnect_drop inbound aborted)
      | (Some connection, inbound) \<Rightarrow>
          (case PeerSessionPool_insert_session now peer_id remote_endpoint (ic_remote_addr inbound) connection self aborted of
             (result, self, aborted) \<Rightarrow> (result, self, InboundConnect_drop inbound aborted)))"

text \<open>\<open>connect\<close> is the connector: the address, the server name, both endpoints and the context.\<close>

definition PeerSessionPool_connect_outbound ::
  "(SocketAddr \<Rightarrow> bytes \<Rightarrow> EndpointId \<Rightarrow> EndpointId \<Rightarrow> OperationContext \<Rightarrow> (TransportError, 'c \<times> SocketAddr) result)
     \<Rightarrow> Instant \<Rightarrow> u64 \<Rightarrow> PeerId \<Rightarrow> SocketAddr \<Rightarrow> EndpointId \<Rightarrow> bytes option \<Rightarrow> OperationContext option \<Rightarrow> 'c PeerSessionPool
     \<Rightarrow> 'c set \<Rightarrow> (PoolError, 'c PeerSessionHandle) result \<times> 'c PeerSessionPool \<times> 'c set" where
  "PeerSessionPool_connect_outbound connect started now peer_id address remote_endpoint server_name ctx self aborted =
     (case PeerSessionPool_ensure_capacity_for peer_id self of
        Inl error \<Rightarrow> (Inl error, self, aborted)
      | Inr _ \<Rightarrow>
          let ctx = (case ctx of
                  Some ctx \<Rightarrow> ctx
                | None \<Rightarrow> \<lparr>oc_deadline = Some (started + lec_connect_timeout (psp_config self)),
                            oc_cancellation = CancellationToken False\<rparr>);
              name = (case server_name of Some name \<Rightarrow> name | None \<Rightarrow> lec_server_name (psp_config self))
          in (case connect address name (lec_local_endpoint (psp_config self)) remote_endpoint ctx of
                Inl error \<Rightarrow> (Inl (Po_Transport error), self, aborted)
              | Inr (connection, remote_addr) \<Rightarrow>
                  PeerSessionPool_insert_session now peer_id remote_endpoint remote_addr connection self aborted))"

definition PeerSessionPool_remove :: "PeerId \<Rightarrow> 'c PeerSessionPool \<Rightarrow> 'c set \<Rightarrow> bool \<times> 'c PeerSessionPool \<times> 'c set" where
  "PeerSessionPool_remove peer self aborted =
     (case bt_get (psp_sessions self) peer of
        None \<Rightarrow> (False, self, aborted)
      | Some handle \<Rightarrow>
          (True, self\<lparr>psp_sessions := bt_remove peer (psp_sessions self)\<rparr>, PeerSessionHandle_disconnect handle aborted))"

fun tick_peers ::
  "u64 \<Rightarrow> ConnectionActivityProfile \<Rightarrow> PeerId list \<Rightarrow> 'c PeerSessionPool \<Rightarrow> PoolEvent list \<times> 'c PeerSessionPool" where
  "tick_peers now_unix_ms profile [] self = ([], self)"
| "tick_peers now_unix_ms profile (peer_id # peers) self =
     (case bt_get (psp_sessions self) peer_id of
        None \<Rightarrow> tick_peers now_unix_ms profile peers self
      | Some handle \<Rightarrow>
          (let (action, handle) = PeerSessionHandle_tick_heartbeat now_unix_ms profile handle;
               self = self\<lparr>psp_sessions := bt_insert peer_id handle (psp_sessions self)\<rparr>;
               (events, self) = tick_peers now_unix_ms profile peers self
           in (if action \<noteq> Hb_None then Pe_Heartbeat peer_id action profile # events else events, self)))"

definition PeerSessionPool_maintenance_tick ::
  "u64 \<Rightarrow> ConnectionActivityProfile \<Rightarrow> 'c PeerSessionPool \<Rightarrow> PoolEvent list \<times> 'c PeerSessionPool" where
  "PeerSessionPool_maintenance_tick now_unix_ms profile self =
     tick_peers now_unix_ms profile (map fst (bt_entries (psp_sessions self))) self"

definition PeerSessionPool_note_transport_failure ::
  "PeerId \<Rightarrow> ReconnectFailure \<Rightarrow> u64 \<Rightarrow> u16 \<Rightarrow> 'c PeerSessionPool \<Rightarrow> (PoolError, PoolEvent list) result \<times> 'c PeerSessionPool" where
  "PeerSessionPool_note_transport_failure peer_id failure now_unix_ms jitter_sample self =
     (case bt_get (psp_sessions self) peer_id of
        None \<Rightarrow> (Inl (Po_UnknownPeer peer_id), self)
      | Some handle \<Rightarrow>
          (case PeerSessionHandle_after_transport_failure failure now_unix_ms jitter_sample handle of
             (action, handle) \<Rightarrow>
               (Inr [case action of
                       AttemptAt unix_ms attempt \<Rightarrow> Pe_ReconnectScheduled peer_id unix_ms attempt
                     | other \<Rightarrow> Pe_ReconnectStopped peer_id other],
                self\<lparr>psp_sessions := bt_insert peer_id handle (psp_sessions self)\<rparr>)))"

definition inbound_awaiting_auth_event :: "'c InboundConnect \<Rightarrow> PoolEvent" where
  "inbound_awaiting_auth_event inbound = Pe_InboundAwaitingAuth (ic_connection_id inbound) (ic_remote_addr inbound)"

definition peer_disconnected_event :: "PeerId \<Rightarrow> CloseReason \<Rightarrow> PoolEvent" where
  "peer_disconnected_event peer_id reason = Pe_PeerDisconnected peer_id reason"

subsection \<open>Where the connections are\<close>

definition live :: "'c PeerSessionPool \<Rightarrow> PeerId \<Rightarrow> 'c \<Rightarrow> bool" where
  "live pool p c = (\<exists>h. bt_get (psp_sessions pool) p = Some h \<and> psh_connection h = c)"

definition awaiting :: "'c InboundConnect list \<Rightarrow> 'c \<Rightarrow> bool" where
  "awaiting waiting c = (Some c \<in> set (map ic_connection waiting))"

definition places_inv :: "'c InboundConnect list \<Rightarrow> 'c PeerSessionPool \<Rightarrow> 'c set \<Rightarrow> 'c set \<Rightarrow> 'c set \<Rightarrow> bool" where
  "places_inv waiting pool aborted hung given =
     (None \<notin> set (map ic_connection waiting) \<and> distinct (map ic_connection waiting)
      \<and> (\<forall>p q c. live pool p c \<and> live pool q c \<longrightarrow> p = q)
      \<and> (\<forall>p c. live pool p c \<longrightarrow> \<not> awaiting waiting c \<and> (c \<in> aborted \<longrightarrow> c \<in> hung))
      \<and> (\<forall>c. awaiting waiting c \<longrightarrow> c \<notin> aborted) \<and> hung \<subseteq> aborted
      \<and> (\<forall>c. c \<in> given \<longleftrightarrow> awaiting waiting c \<or> (\<exists>p. live pool p c) \<or> c \<in> aborted))"

lemma places_invD:
  assumes "places_inv waiting pool aborted hung given"
  shows "live pool p c \<Longrightarrow> live pool q c \<Longrightarrow> p = q" "live pool p c \<Longrightarrow> \<not> awaiting waiting c" "live pool p c \<Longrightarrow> c \<in> aborted \<Longrightarrow> c \<in> hung"
    "awaiting waiting c \<Longrightarrow> c \<notin> aborted" "c \<in> given \<longleftrightarrow> awaiting waiting c \<or> (\<exists>p. live pool p c) \<or> c \<in> aborted"
    "None \<notin> set (map ic_connection waiting)" "distinct (map ic_connection waiting)" "hung \<subseteq> aborted"
  using assms unfolding places_inv_def by blast+

lemma places_invI:
  assumes "None \<notin> set (map ic_connection waiting)" "distinct (map ic_connection waiting)"
    and "\<And>p q c. live pool p c \<Longrightarrow> live pool q c \<Longrightarrow> p = q"
    and "\<And>p c. live pool p c \<Longrightarrow> \<not> awaiting waiting c \<and> (c \<in> aborted \<longrightarrow> c \<in> hung)"
    and "\<And>c. awaiting waiting c \<Longrightarrow> c \<notin> aborted" "hung \<subseteq> aborted"
    and "\<And>c. c \<in> given \<longleftrightarrow> awaiting waiting c \<or> (\<exists>p. live pool p c) \<or> c \<in> aborted"
  shows "places_inv waiting pool aborted hung given"
  using assms unfolding places_inv_def by blast

definition sessions_inv :: "LinkEndpointConfig \<Rightarrow> 'c PeerSessionPool \<Rightarrow> bool" where
  "sessions_inv config pool =
     (psp_config pool = config \<and> LinkEndpointConfig_validate config = Inr () \<and> bt_len (psp_sessions pool) \<le> lec_max_peers config
      \<and> (\<forall>p h. bt_get (psp_sessions pool) p = Some h \<longrightarrow> psh_peer_id h = p))"

definition admissible :: "PeerId \<Rightarrow> 'c PeerSessionPool \<Rightarrow> bool" where
  "admissible p pool = (if bt_contains (psp_sessions pool) p then lec_duplicate_peer (psp_config pool) = ReplaceExisting
     else bt_len (psp_sessions pool) < lec_max_peers (psp_config pool))"

lemma ensure_capacity_iff: "is_ok (PeerSessionPool_ensure_capacity_for p pool) \<longleftrightarrow> admissible p pool"
  by (auto simp: PeerSessionPool_ensure_capacity_for_def admissible_def split: DuplicatePeerPolicy.splits)

lemma handle_new_ok:
  assumes "LinkEndpointConfig_validate config = Inr ()"
  obtains h where "PeerSessionHandle_new now p ep addr c (lec_heartbeat config) (lec_reconnect config) = Inr h"
    "psh_connection h = c" "psh_peer_id h = p"
  using assms
  by (auto simp: LinkEndpointConfig_validate_def PeerSessionHandle_new_def HeartbeatController_new_def ReconnectController_new_def
      Let_def split: if_splits ReconnectPolicy.splits)

lemma insert_session_cases:
  assumes inv: "sessions_inv config pool"
    and out: "PeerSessionPool_insert_session now p ep addr c pool aborted = (res, pool', aborted')"
  obtains (refused) e where "res = Inl e" "\<not> admissible p pool" "pool' = pool" "aborted' = insert c aborted"
  | (admitted) h where "res = Inr h" "admissible p pool" "psh_connection h = c" "psh_peer_id h = p"
      "psp_config pool' = psp_config pool" "psp_sessions pool' = bt_insert p h (psp_sessions pool)"
      "aborted' = aborted \<union> {d. live pool p d}"
proof (cases "PeerSessionPool_ensure_capacity_for p pool")
  case (Inl e)
  with out have "res = Inl e" "pool' = pool" "aborted' = insert c aborted"
    by (simp_all add: PeerSessionPool_insert_session_def)
  with refused show thesis using Inl ensure_capacity_iff [of p pool] by simp
next
  case (Inr u)
  then have adm: "admissible p pool" using ensure_capacity_iff [of p pool] by simp
  from inv obtain h where h: "PeerSessionHandle_new now p ep addr c (lec_heartbeat (psp_config pool)) (lec_reconnect (psp_config pool)) = Inr h"
    "psh_connection h = c" "psh_peer_id h = p"
    using handle_new_ok [of "psp_config pool"] unfolding sessions_inv_def by metis
  show thesis
  proof (cases "bt_get (psp_sessions pool) p")
    case None
    then have "{d. live pool p d} = {}" by (simp add: live_def)
    moreover from out Inr h adm None
    have "res = Inr h" "psp_config pool' = psp_config pool" "psp_sessions pool' = bt_insert p h (psp_sessions pool)" "aborted' = aborted"
      by (auto simp: PeerSessionPool_insert_session_def admissible_def bt_contains_def)
    ultimately show thesis using adm h by (intro admitted [of h]) simp_all
  next
    case (Some old)
    then have "{d. live pool p d} = {psh_connection old}" by (auto simp: live_def)
    moreover from out Inr h adm Some
    have "res = Inr h" "psp_config pool' = psp_config pool" "psp_sessions pool' = bt_insert p h (psp_sessions pool)"
      "aborted' = insert (psh_connection old) aborted"
      by (auto simp: PeerSessionPool_insert_session_def admissible_def bt_contains_def PeerSessionHandle_disconnect_def
          bt.ins_del_absorb)
    ultimately show thesis using adm h by (intro admitted [of h]) simp_all
  qed
qed

lemma insert_session_sessions:
  assumes "sessions_inv config pool"
    and "PeerSessionPool_insert_session now p ep addr c pool aborted = (res, pool', aborted')"
  shows "sessions_inv config pool'"
  using assms
proof (cases rule: insert_session_cases)
  case (admitted h)
  with assms(1) show ?thesis
    by (auto simp: sessions_inv_def admissible_def bt_contains_def split: if_splits)
qed (use assms(1) in simp)

lemma insert_session_places:
  assumes "sessions_inv config pool" and places: "places_inv waiting pool aborted hung given" and fresh: "c \<notin> given"
    and "PeerSessionPool_insert_session now p ep addr c pool aborted = (res, pool', aborted')"
  shows "places_inv waiting pool' aborted' hung (insert c given)"
  using assms(1,4)
proof (cases rule: insert_session_cases)
  case refused
  with places fresh show ?thesis by (auto simp: places_inv_def)
next
  case (admitted h)
  have live': "live pool' q d \<longleftrightarrow> (if q = p then d = c else live pool q d)" for q d
    using admitted by (auto simp: live_def)
  note placesD = places_invD [OF places]
  have free: "\<not> live pool q c" "\<not> awaiting waiting c" "c \<notin> aborted" for q
    using placesD(5) [of c] fresh by blast+
  show ?thesis
  proof (rule places_invI)
    show "q = q'" if "live pool' q d" "live pool' q' d" for q q' d
      using that free(1) placesD(1) by (auto simp: live' split: if_splits)
    show "\<not> awaiting waiting d \<and> (d \<in> aborted' \<longrightarrow> d \<in> hung)" if "live pool' q d" for q d
      using that free placesD(1-3) by (auto simp: live' admitted(7) split: if_splits)
    show "d \<notin> aborted'" if "awaiting waiting d" for d using that placesD(2,4) by (auto simp: admitted(7))
    show "hung \<subseteq> aborted'" using placesD(8) by (auto simp: admitted(7))
    show "d \<in> insert c given \<longleftrightarrow> awaiting waiting d \<or> (\<exists>q. live pool' q d) \<or> d \<in> aborted'" for d
      using placesD(5) [of d] by (auto simp: live' admitted(7) split: if_splits)
  qed (rule placesD)+
qed

lemma places_inv_take:
  assumes "places_inv (pre @ inbound # post) pool aborted hung given" and "ic_connection inbound = Some c"
  shows "places_inv (pre @ post) pool aborted hung (given - {c})" and "c \<in> given" and "c \<notin> aborted"
  using assms by (auto simp: places_inv_def awaiting_def image_iff)

lemma places_inv_sessions:
  assumes "places_inv waiting pool aborted hung given" and "\<And>p c. live pool' p c = live pool p c"
  shows "places_inv waiting pool' aborted hung given"
  using assms by (simp add: places_inv_def)

lemma tick_peers_sessions:
  assumes "sessions_inv config pool" "tick_peers now profile peers pool = (events, pool')"
  shows "sessions_inv config pool' \<and> (\<forall>p c. live pool' p c = live pool p c)"
  using assms
proof (induction now profile peers pool arbitrary: events rule: tick_peers.induct)
  case (2 now profile p peers pool)
  show ?case
  proof (cases "bt_get (psp_sessions pool) p")
    case None
    with 2 show ?thesis by simp
  next
    case (Some h)
    obtain action h' where t: "PeerSessionHandle_tick_heartbeat now profile h = (action, h')" by fastforce
    then have h': "psh_connection h' = psh_connection h" "psh_peer_id h' = psh_peer_id h"
      by (auto simp: PeerSessionHandle_tick_heartbeat_def split: prod.splits)
    let ?pool = "pool\<lparr>psp_sessions := bt_insert p h' (psp_sessions pool)\<rparr>"
    obtain events' where "tick_peers now profile peers ?pool = (events', pool')"
      using 2(4) Some t by (auto split: prod.splits)
    moreover have "sessions_inv config ?pool" using 2(3) h' Some by (auto simp: sessions_inv_def)
    ultimately have "sessions_inv config pool' \<and> (\<forall>q c. live pool' q c = live ?pool q c)"
      using 2(2) [OF Some t [symmetric] refl refl] by simp
    moreover have "live ?pool q c = live pool q c" for q c using h' Some by (auto simp: live_def)
    ultimately show ?thesis by simp
  qed
qed simp

lemma update_handle_sessions:
  assumes "sessions_inv config pool" "bt_get (psp_sessions pool) p = Some h"
    and "psh_connection h' = psh_connection h" "psh_peer_id h' = psh_peer_id h"
  shows "sessions_inv config (pool\<lparr>psp_sessions := bt_insert p h' (psp_sessions pool)\<rparr>)"
    and "live (pool\<lparr>psp_sessions := bt_insert p h' (psp_sessions pool)\<rparr>) q c = live pool q c"
  using assms by (auto simp: sessions_inv_def live_def)

subsection \<open>Runs\<close>

text \<open>A run of the pool by its host: the inbound connections the host still holds, the pool, the aborted
  connections, those of them the host aborted while they were a session's, and all connections made so far. A
  connection made is new; the outcome of dialling is arbitrary. Through \<^verbatim>\<open>get_mut\<close> the host calls the methods
  of a session's handle: \<open>host_update\<close> lists the ones that change it, and \<open>disconnect\<close>, or
  \<^verbatim>\<open>connection_mut().abort()\<close>, aborts the connection and leaves the session where it is. The host does not
  exchange the value behind the reference for another one.\<close>

definition host_update :: "('c PeerSessionHandle \<Rightarrow> 'c PeerSessionHandle) \<Rightarrow> bool" where
  "host_update f = ((\<exists>now. f = PeerSessionHandle_observe_transport_ack now) \<or> (\<exists>now. f = PeerSessionHandle_observe_probe_ack now)
     \<or> (\<exists>now profile. f = (\<lambda>h. snd (PeerSessionHandle_tick_heartbeat now profile h)))
     \<or> (\<exists>reason now jitter. f = (\<lambda>h. snd (PeerSessionHandle_after_transport_failure reason now jitter h)))
     \<or> f = PeerSessionHandle_reset_reconnect)"

inductive pool_run ::
  "LinkEndpointConfig \<Rightarrow> 'c InboundConnect list \<Rightarrow> 'c PeerSessionPool \<Rightarrow> 'c set \<Rightarrow> 'c set \<Rightarrow> 'c set \<Rightarrow> bool" for config where
  bind: "PeerSessionPool_bind (Inr ()) (Inr ()) config = Inr pool \<Longrightarrow> pool_run config [] pool {} {} {}"
| accept: "pool_run config waiting pool aborted hung given \<Longrightarrow> c \<notin> given \<Longrightarrow>
    PeerSessionPool_accept_inbound (Inr (c, addr)) millis ep pool = (Inr inbound, pool') \<Longrightarrow>
    pool_run config (inbound # waiting) pool' aborted hung (insert c given)"
| admit: "pool_run config (pre @ inbound # post) pool aborted hung given \<Longrightarrow>
    PeerSessionPool_admit_inbound now inbound p ep pool aborted = (res, pool', aborted') \<Longrightarrow>
    pool_run config (pre @ post) pool' aborted' hung given"
| forget: "pool_run config (pre @ inbound # post) pool aborted hung given \<Longrightarrow>
    pool_run config (pre @ post) pool (InboundConnect_drop inbound aborted) hung given"
| dial: "pool_run config waiting pool aborted hung given \<Longrightarrow> c \<notin> given \<Longrightarrow>
    PeerSessionPool_connect_outbound (\<lambda>_ _ _ _ _. Inr (c, addr)) started now p target ep server_name ctx pool aborted
      = (res, pool', aborted') \<Longrightarrow>
    pool_run config waiting pool' aborted' hung (if admissible p pool then insert c given else given)"
| dial_failed: "pool_run config waiting pool aborted hung given \<Longrightarrow>
    PeerSessionPool_connect_outbound (\<lambda>_ _ _ _ _. Inl error) started now p target ep server_name ctx pool aborted
      = (res, pool', aborted') \<Longrightarrow>
    pool_run config waiting pool' aborted' hung given"
| remove: "pool_run config waiting pool aborted hung given \<Longrightarrow> PeerSessionPool_remove p pool aborted = (found, pool', aborted') \<Longrightarrow>
    pool_run config waiting pool' aborted' hung given"
| tick: "pool_run config waiting pool aborted hung given \<Longrightarrow>
    PeerSessionPool_maintenance_tick now_unix_ms profile pool = (events, pool') \<Longrightarrow> pool_run config waiting pool' aborted hung given"
| failure: "pool_run config waiting pool aborted hung given \<Longrightarrow>
    PeerSessionPool_note_transport_failure p reason now_unix_ms jitter pool = (res', pool') \<Longrightarrow>
    pool_run config waiting pool' aborted hung given"
| host: "pool_run config waiting pool aborted hung given \<Longrightarrow> host_update f \<Longrightarrow> bt_get (psp_sessions pool) p = Some h \<Longrightarrow>
    pool_run config waiting (pool\<lparr>psp_sessions := bt_insert p (f h) (psp_sessions pool)\<rparr>) aborted hung given"
| disconnect: "pool_run config waiting pool aborted hung given \<Longrightarrow> bt_get (psp_sessions pool) p = Some h \<Longrightarrow>
    pool_run config waiting pool (PeerSessionHandle_disconnect h aborted) (insert (psh_connection h) hung) given"

lemma admit_eq:
  assumes "ic_connection inbound = Some c"
  shows "PeerSessionPool_admit_inbound now inbound p ep pool aborted
    = PeerSessionPool_insert_session now p ep (ic_remote_addr inbound) c pool aborted"
  using assms
  by (simp add: PeerSessionPool_admit_inbound_def InboundConnect_take_connection_def InboundConnect_drop_def split: prod.splits)

lemma dial_eq:
  "admissible p pool \<Longrightarrow>
   PeerSessionPool_connect_outbound (\<lambda>_ _ _ _ _. Inr (c, addr)) started now p target ep server_name ctx pool aborted
     = PeerSessionPool_insert_session now p ep addr c pool aborted"
  "\<not> admissible p pool \<Longrightarrow> \<exists>e.
   PeerSessionPool_connect_outbound (\<lambda>_ _ _ _ _. Inr (c, addr)) started now p target ep server_name ctx pool aborted
     = (Inl e, pool, aborted)"
  using ensure_capacity_iff [of p pool]
  by (cases "PeerSessionPool_ensure_capacity_for p pool"; simp add: PeerSessionPool_connect_outbound_def Let_def)+

lemma remove_places:
  assumes "places_inv waiting pool aborted hung given" "sessions_inv config pool"
    and "PeerSessionPool_remove p pool aborted = (found, pool', aborted')"
  shows "places_inv waiting pool' aborted' hung given" "sessions_inv config pool'"
proof -
  have live': "live pool' q d \<longleftrightarrow> q \<noteq> p \<and> live pool q d" and aborted': "aborted' = aborted \<union> {d. live pool p d}" for q d
    using assms(3) by (auto simp: PeerSessionPool_remove_def PeerSessionHandle_disconnect_def live_def split: option.splits if_splits)
  show "places_inv waiting pool' aborted' hung given"
  proof (rule places_invI)
    note placesD = places_invD [OF assms(1)]
    show "q = q'" if "live pool' q d" "live pool' q' d" for q q' d using that placesD(1) [of q d q'] by (simp add: live')
    show "\<not> awaiting waiting d \<and> (d \<in> aborted' \<longrightarrow> d \<in> hung)" if "live pool' q d" for q d
      using that placesD(1-3) by (auto simp: live' aborted')
    show "d \<notin> aborted'" if "awaiting waiting d" for d using that placesD(2,4) by (auto simp: aborted')
    show "hung \<subseteq> aborted'" using placesD(8) by (auto simp: aborted')
    show "d \<in> given \<longleftrightarrow> awaiting waiting d \<or> (\<exists>q. live pool' q d) \<or> d \<in> aborted'" for d
      using placesD(5) [of d] by (auto simp: live' aborted')
  qed (use places_invD [OF assms(1)] in blast)+
  show "sessions_inv config pool'"
    using assms(2,3) by (auto simp: PeerSessionPool_remove_def sessions_inv_def split: option.splits if_splits)
qed

lemma run_pool_inv: "pool_run config waiting pool aborted hung given \<Longrightarrow> sessions_inv config pool \<and> places_inv waiting pool aborted hung given"
proof (induction rule: pool_run.induct)
  case (bind pool)
  then show ?case
    by (auto simp: PeerSessionPool_bind_def result_bind_eq_Inr sessions_inv_def places_inv_def live_def awaiting_def)
next
  case (accept waiting pool aborted hung given c addr millis ep inbound pool')
  have new: "ic_connection inbound = Some c" "psp_sessions pool' = psp_sessions pool" "psp_config pool' = psp_config pool"
    using accept.hyps(3) by (auto simp: PeerSessionPool_accept_inbound_def next_connection_id_def)
  then have "live pool' = live pool" by (simp add: live_def fun_eq_iff)
  with accept new show ?case by (auto simp: sessions_inv_def places_inv_def awaiting_def image_iff)
next
  case (admit pre inbound post pool aborted hung given now p ep res pool' aborted')
  then obtain c where c: "ic_connection inbound = Some c"
    by (cases "ic_connection inbound") (auto simp: places_inv_def)
  with admit have "PeerSessionPool_insert_session now p ep (ic_remote_addr inbound) c pool aborted = (res, pool', aborted')"
    by (simp add: admit_eq)
  then show ?case
    using admit.IH places_inv_take [of pre inbound post pool aborted hung given c] c
      insert_session_sessions [of config pool] insert_session_places [of config pool "pre @ post" aborted hung "given - {c}" c]
    by (auto simp: insert_absorb)
next
  case (forget pre inbound post pool aborted hung given)
  then obtain c where c: "ic_connection inbound = Some c"
    by (cases "ic_connection inbound") (auto simp: places_inv_def)
  with forget show ?case
    using places_inv_take [of pre inbound post pool aborted hung given c]
    by (auto simp: InboundConnect_drop_def places_inv_def)
next
  case (dial waiting pool aborted hung given c addr started now p target ep server_name ctx res pool' aborted')
  show ?case
  proof (cases "admissible p pool")
    case True
    with dial insert_session_sessions [of config pool] insert_session_places [of config pool waiting aborted hung given c]
    show ?thesis by (auto simp: dial_eq(1))
  next
    case False
    with dial dial_eq(2) [OF False, of c addr started now target ep server_name ctx aborted] show ?thesis by auto
  qed
next
  case (dial_failed waiting pool aborted hung given error started now p target ep server_name ctx res pool' aborted')
  then show ?case by (auto simp: PeerSessionPool_connect_outbound_def Let_def split: sum.splits)
next
  case (remove waiting pool aborted hung given p found pool' aborted')
  then show ?case using remove_places by blast
next
  case (tick waiting pool aborted hung given now_unix_ms profile events pool')
  then have "sessions_inv config pool' \<and> (\<forall>p c. live pool' p c = live pool p c)"
    using tick_peers_sessions [of config pool] unfolding PeerSessionPool_maintenance_tick_def by metis
  with tick.IH show ?case using places_inv_sessions [of waiting pool aborted hung given pool'] by blast
next
  case (failure waiting pool aborted hung given p reason now_unix_ms jitter res' pool')
  show ?case
  proof (cases "bt_get (psp_sessions pool) p")
    case None
    with failure show ?thesis by (simp add: PeerSessionPool_note_transport_failure_def)
  next
    case (Some h)
    obtain action h' where h': "PeerSessionHandle_after_transport_failure reason now_unix_ms jitter h = (action, h')" by fastforce
    then have "psh_connection h' = psh_connection h" "psh_peer_id h' = psh_peer_id h"
      by (auto simp: PeerSessionHandle_after_transport_failure_def split: prod.splits)
    moreover have "pool' = pool\<lparr>psp_sessions := bt_insert p h' (psp_sessions pool)\<rparr>"
      using failure.hyps(2) Some h' by (simp add: PeerSessionPool_note_transport_failure_def)
    ultimately show ?thesis
      using failure.IH update_handle_sessions [OF conjunct1 [OF failure.IH] Some] places_inv_sessions by blast
  qed
next
  case (host waiting pool aborted hung given f p h)
  then have "psh_connection (f h) = psh_connection h" "psh_peer_id (f h) = psh_peer_id h"
    by (auto simp: host_update_def PeerSessionHandle_observe_transport_ack_def PeerSessionHandle_observe_probe_ack_def
        PeerSessionHandle_reset_reconnect_def PeerSessionHandle_tick_heartbeat_def
        PeerSessionHandle_after_transport_failure_def split: prod.splits)
  with host show ?case using update_handle_sessions [of config pool p h "f h"] places_inv_sessions by blast
next
  case (disconnect waiting pool aborted hung given p h)
  then have "live pool p (psh_connection h)" by (simp add: live_def)
  with disconnect show ?case by (auto simp: places_inv_def PeerSessionHandle_disconnect_def)
qed

subsection \<open>Property\<close>

text \<open>C40: the pool accounts for every connection. In every run of the pool by its host the sessions never
  exceed the configured number, each is stored under its own peer, and every connection ever made is held by the
  host for admission, the connection of exactly one session, or aborted. A connection held for admission is not
  aborted and in no session. The connection of a session is aborted only if the host itself aborted it through
  the handle of a session, which leaves the session in the pool. A held connection is admitted for a peer exactly
  when the peer has no session and there is room, or has one and the policy is to replace it, which aborts the old
  one, and it then is the connection of that peer's session and not aborted; otherwise the connection is aborted
  and the sessions are unchanged.\<close>

theorem pool_connections_accounted:
  assumes "pool_run config waiting pool aborted hung given"
  shows "bt_len (psp_sessions pool) \<le> lec_max_peers config
    \<and> (\<forall>p h. bt_get (psp_sessions pool) p = Some h \<longrightarrow> psh_peer_id h = p)
    \<and> (\<forall>c. c \<in> given \<longleftrightarrow> awaiting waiting c \<or> (\<exists>p. live pool p c) \<or> c \<in> aborted)
    \<and> (\<forall>c. (awaiting waiting c \<longrightarrow> c \<notin> aborted \<and> (\<forall>p. \<not> live pool p c))
         \<and> (\<forall>p. live pool p c \<longrightarrow> (c \<in> aborted \<longrightarrow> c \<in> hung) \<and> (\<forall>q. live pool q c \<longrightarrow> q = p)))
    \<and> (\<forall>inbound c now p ep res pool' aborted'. inbound \<in> set waiting \<and> ic_connection inbound = Some c
         \<and> PeerSessionPool_admit_inbound now inbound p ep pool aborted = (res, pool', aborted') \<longrightarrow>
         (if admissible p pool
          then is_ok res \<and> live pool' p c \<and> (\<forall>q d. q \<noteq> p \<longrightarrow> live pool' q d = live pool q d)
            \<and> aborted' = aborted \<union> {d. live pool p d} \<and> c \<notin> aborted'
          else \<not> is_ok res \<and> psp_sessions pool' = psp_sessions pool \<and> aborted' = insert c aborted))"
proof -
  have inv: "sessions_inv config pool" "places_inv waiting pool aborted hung given" using run_pool_inv [OF assms] by simp_all
  have admission: "\<forall>inbound c now p ep res pool' aborted'. inbound \<in> set waiting \<and> ic_connection inbound = Some c
         \<and> PeerSessionPool_admit_inbound now inbound p ep pool aborted = (res, pool', aborted') \<longrightarrow>
         (if admissible p pool
          then is_ok res \<and> live pool' p c \<and> (\<forall>q d. q \<noteq> p \<longrightarrow> live pool' q d = live pool q d)
            \<and> aborted' = aborted \<union> {d. live pool p d} \<and> c \<notin> aborted'
          else \<not> is_ok res \<and> psp_sessions pool' = psp_sessions pool \<and> aborted' = insert c aborted)"
  proof (intro allI impI, elim conjE)
    fix inbound c now p ep res pool' aborted'
    assume c: "inbound \<in> set waiting" "ic_connection inbound = Some c"
      and out: "PeerSessionPool_admit_inbound now inbound p ep pool aborted = (res, pool', aborted')"
    have "awaiting waiting c" unfolding awaiting_def using c by force
    then have fresh: "c \<notin> aborted" "\<not> live pool q c" for q using places_invD(2,4) [OF inv(2)] by blast+
    from c out have "PeerSessionPool_insert_session now p ep (ic_remote_addr inbound) c pool aborted = (res, pool', aborted')"
      by (simp add: admit_eq)
    with inv(1) show "if admissible p pool
      then is_ok res \<and> live pool' p c \<and> (\<forall>q d. q \<noteq> p \<longrightarrow> live pool' q d = live pool q d) \<and> aborted' = aborted \<union> {d. live pool p d} \<and> c \<notin> aborted'
      else \<not> is_ok res \<and> psp_sessions pool' = psp_sessions pool \<and> aborted' = insert c aborted"
      using fresh by (cases rule: insert_session_cases) (auto simp: live_def)
  qed
  have len: "bt_len (psp_sessions pool) \<le> lec_max_peers config"
    and ids: "\<forall>p h. bt_get (psp_sessions pool) p = Some h \<longrightarrow> psh_peer_id h = p"
    using inv(1) by (simp_all add: sessions_inv_def)
  have apart: "\<forall>c. (awaiting waiting c \<longrightarrow> c \<notin> aborted \<and> (\<forall>p. \<not> live pool p c))
      \<and> (\<forall>p. live pool p c \<longrightarrow> (c \<in> aborted \<longrightarrow> c \<in> hung) \<and> (\<forall>q. live pool q c \<longrightarrow> q = p))"
    using places_invD(1-4) [OF inv(2)] by metis
  have everywhere: "\<forall>c. c \<in> given \<longleftrightarrow> awaiting waiting c \<or> (\<exists>p. live pool p c) \<or> c \<in> aborted"
    using places_invD(5) [OF inv(2)] by blast
  show ?thesis by (rule conjI [OF len conjI [OF ids conjI [OF everywhere conjI [OF apart admission]]]])
qed

definition sample_pool_config :: LinkEndpointConfig where
  "sample_pool_config = LinkEndpointConfig_default\<lparr>lec_max_peers := 1\<rparr>"

lemma sample_pool_valid: "LinkEndpointConfig_validate sample_pool_config = Inr ()"
  by (simp add: LinkEndpointConfig_validate_def sample_pool_config_def LinkEndpointConfig_default_def HeartbeatPolicy_default_def
      HeartbeatPolicy_is_valid_def)

text \<open>C40 witness: a pool of one peer admits a second connection of that peer and aborts the first; the host
  then disconnects the session, which stays in the pool.\<close>

theorem pool_connections_accounted_witness:
  "\<exists>pool. pool_run sample_pool_config [] pool {1 :: nat} {} {1, 2} \<and> pool_run sample_pool_config [] pool {1, 2} {2} {1, 2}
     \<and> live pool (PeerId 5) 2 \<and> bt_len (psp_sessions pool) \<le> 1"
proof -
  let ?p0 = "\<lparr>psp_config = sample_pool_config, psp_sessions = bt_empty, psp_inbound_seq = 1\<rparr> :: nat PeerSessionPool"
  have start: "pool_run sample_pool_config [] ?p0 {} {} {}"
    by (rule pool_run.bind) (simp add: PeerSessionPool_bind_def sample_pool_valid)
  have inv0: "sessions_inv sample_pool_config ?p0" by (simp add: sessions_inv_def sample_pool_valid)
  obtain res1 p1 a1 where ins1: "PeerSessionPool_insert_session 0 (PeerId 5) (EndpointId 2) (SocketV4 0 1) 1 ?p0 {} = (res1, p1, a1)"
    by (metis prod_cases3)
  have adm0: "admissible (PeerId 5) ?p0" by (simp add: admissible_def sample_pool_config_def)
  from inv0 ins1 obtain h1 where p1: "psp_config p1 = sample_pool_config" "psp_sessions p1 = bt_insert (PeerId 5) h1 bt_empty"
    "psh_connection h1 = 1" "a1 = {}"
    by (cases rule: insert_session_cases) (use adm0 in \<open>auto simp: live_def\<close>)
  have run1: "pool_run sample_pool_config [] p1 a1 {} {1}"
    using pool_run.dial [OF start, of 1 "SocketV4 0 1" 0 0 "PeerId 5" "SocketV4 0 1" "EndpointId 2" None None] ins1 adm0
    by (simp add: dial_eq(1))
  have inv1: "sessions_inv sample_pool_config p1" using insert_session_sessions [OF inv0 ins1] .
  have adm1: "admissible (PeerId 5) p1"
    by (simp add: admissible_def p1 sample_pool_config_def LinkEndpointConfig_default_def)
  obtain res2 p2 a2 where ins2: "PeerSessionPool_insert_session 0 (PeerId 5) (EndpointId 2) (SocketV4 0 1) 2 p1 a1 = (res2, p2, a2)"
    by (metis prod_cases3)
  from inv1 ins2 have p2: "live p2 (PeerId 5) 2" "a2 = {1}"
    by (cases rule: insert_session_cases; use adm1 p1 in \<open>auto simp: live_def\<close>)+
  have "pool_run sample_pool_config [] p2 a2 {} (insert 2 {1})"
    using pool_run.dial [OF run1, of 2 "SocketV4 0 1" 0 0 "PeerId 5" "SocketV4 0 1" "EndpointId 2" None None] ins2 adm1
    by (simp add: dial_eq(1))
  then have run2: "pool_run sample_pool_config [] p2 {1} {} {1, 2}" using p2(2) by (simp add: insert_commute)
  from p2(1) obtain h2 where "bt_get (psp_sessions p2) (PeerId 5) = Some h2" "psh_connection h2 = 2" by (auto simp: live_def)
  with pool_run.disconnect [OF run2, of "PeerId 5" h2] have "pool_run sample_pool_config [] p2 {1, 2} {2} {1, 2}"
    by (simp add: PeerSessionHandle_disconnect_def insert_commute)
  with run2 pool_connections_accounted [OF run2] p2(1) show ?thesis
    by (intro exI [of _ p2]) (simp add: sample_pool_config_def)
qed

end
