(* ===== verification/Link_Io.thy ===== *)
theory Link_Io
  imports Link_Transport
begin

text \<open>
  The framing bridge of \<^verbatim>\<open>mutsuki-link-io\<close>: length-prefixed frames over a byte stream,
  the writer and the reader task, and the connection that feeds them. Streams and queues are those
  of the asynchronous runtime: what a call on one returns is an argument or the value of an
  argument. A task is a function of what it is woken with.

  The lemmas show that the reader restores from the writer's bytes exactly the messages written,
  in order.
\<close>

subsection \<open>Errors and rates\<close>

datatype IoErrorKind =
    Io_TimedOut | Io_WouldBlock | Io_ConnectionAborted | Io_ConnectionReset | Io_BrokenPipe | Io_UnexpectedEof | Io_InvalidInput
  | Io_AddrInUse | Io_ConnectionRefused | Io_NotFound | Io_OtherKind

definition framed_io_error :: "IoErrorKind \<Rightarrow> TransportError" where
  "framed_io_error kind =
     TransportError_new
       (case kind of
          Io_TimedOut \<Rightarrow> Te_TimedOut
        | Io_WouldBlock \<Rightarrow> Te_WouldBlock
        | Io_ConnectionAborted \<Rightarrow> Te_Aborted
        | Io_ConnectionReset \<Rightarrow> Te_Aborted
        | Io_BrokenPipe \<Rightarrow> Te_Closed
        | Io_UnexpectedEof \<Rightarrow> Te_Closed
        | _ \<Rightarrow> Te_Other)
       ''transport I/O failed''"

definition write_closed :: TransportError where
  "write_closed = TransportError_new Te_Closed ''transport write side is closed''"

definition set_terminal_error :: "TransportError \<Rightarrow> TransportError option \<Rightarrow> TransportError option" where
  "set_terminal_error error target = (case target of None \<Rightarrow> Some error | Some e \<Rightarrow> Some e)"

text \<open>The nanoseconds a task sleeps, none when there is no rate. Rates are positive.\<close>

definition throttle :: "u64 option \<Rightarrow> nat \<Rightarrow> u64 option" where
  "throttle rate n =
     (case rate of
        None \<Rightarrow> None
      | Some rate \<Rightarrow>
          let nanos = div_ceil (n * 1000000000) (unat rate)
          in Some (if nanos < 2 ^ 64 then of_nat nanos else - 1))"

subsection \<open>Permits\<close>

datatype ConnectionCounter = ConnectionCounter (counter_active: nat)

definition ConnectionCounter_try_acquire :: "nat \<Rightarrow> ConnectionCounter \<Rightarrow> bool \<times> ConnectionCounter" where
  "ConnectionCounter_try_acquire limit self =
     (if counter_active self < limit then (True, ConnectionCounter (counter_active self + 1)) else (False, self))"

definition ConnectionPermit_drop :: "ConnectionCounter \<Rightarrow> ConnectionCounter" where
  "ConnectionPermit_drop self = ConnectionCounter (counter_active self - 1)"

subsection \<open>The writer task\<close>

text \<open>The operations of the writing half of the stream.\<close>

record 'w AsyncWrite =
  wr_write_all :: "bytes \<Rightarrow> 'w \<Rightarrow> (IoErrorKind, unit) result \<times> 'w"
  wr_flush :: "'w \<Rightarrow> (IoErrorKind, unit) result \<times> 'w"
  wr_shutdown :: "'w \<Rightarrow> 'w"

definition write_frame :: "'w AsyncWrite \<Rightarrow> bytes \<Rightarrow> 'w \<Rightarrow> (IoErrorKind, unit) result \<times> 'w" where
  "write_frame ops message writer =
     (if length message < 2 ^ 32 then
        (case wr_write_all ops (to_be_bytes (of_nat (length message) :: u32)) writer of
           (Inl e, writer) \<Rightarrow> (Inl e, writer)
         | (Inr _, writer) \<Rightarrow>
             (case wr_write_all ops message writer of
                (Inl e, writer) \<Rightarrow> (Inl e, writer)
              | (Inr _, writer) \<Rightarrow> wr_flush ops writer))
      else (Inl Io_InvalidInput, writer))"

text \<open>What the writer task is woken with: a message of a queue, or the end of the queue, which is
  asked no more after that.\<close>

datatype WriterWake = Wake_Control "bytes option" | Wake_Data "bytes option"

definition wake_message :: "WriterWake \<Rightarrow> bool \<Rightarrow> bool \<Rightarrow> bytes option \<times> bool \<times> bool" where
  "wake_message wake control_open data_open =
     (case wake of
        Wake_Control (Some message) \<Rightarrow> (if control_open then Some message else None, control_open, data_open)
      | Wake_Control None \<Rightarrow> (None, False, data_open)
      | Wake_Data (Some message) \<Rightarrow> (if data_open then Some message else None, control_open, data_open)
      | Wake_Data None \<Rightarrow> (None, control_open, False))"

text \<open>The writer sleeps before each frame as \<open>throttle\<close> says for the rate of its queue; that changes
  nothing it writes. The loop is over what it is woken with until now; it shuts the stream down once both
  queues have ended.\<close>

fun write_loop ::
  "'w AsyncWrite \<Rightarrow> WriterWake list \<Rightarrow> bool \<Rightarrow> bool \<Rightarrow> 'w \<Rightarrow> TransportError option \<Rightarrow> 'w \<times> TransportError option" where
  "write_loop ops [] control_open data_open writer terminal =
     (if \<not> control_open \<and> \<not> data_open then (wr_shutdown ops writer, terminal) else (writer, terminal))"
| "write_loop ops (wake # wakes) control_open data_open writer terminal =
     (if \<not> control_open \<and> \<not> data_open then (wr_shutdown ops writer, terminal)
      else
        case wake_message wake control_open data_open of
          (None, control_open, data_open) \<Rightarrow> write_loop ops wakes control_open data_open writer terminal
        | (Some message, control_open, data_open) \<Rightarrow>
            (case write_frame ops message writer of
               (Inl e, writer) \<Rightarrow> (writer, set_terminal_error (framed_io_error e) terminal)
             | (Inr _, writer) \<Rightarrow> write_loop ops wakes control_open data_open writer terminal))"

subsection \<open>The reader task\<close>

definition CONTROL_STREAM_PREFIX :: bytes where "CONTROL_STREAM_PREFIX = [77, 76, 67, 83]"

definition starts_with :: "bytes \<Rightarrow> bytes \<Rightarrow> bool" where
  "starts_with prefix message = (take (length prefix) message = prefix)"

text \<open>\<open>read_exact n\<close> reads \<open>n\<close> bytes, within the idle timeout; \<open>deliver\<close> puts a message into the
  control queue or the other and says whether its receiver is still there. The first argument bounds
  the number of frames read.\<close>

fun read_loop ::
  "nat \<Rightarrow> (nat \<Rightarrow> 'r \<Rightarrow> (IoErrorKind, bytes) result \<times> 'r) \<Rightarrow> (bool \<Rightarrow> bytes \<Rightarrow> 'q \<Rightarrow> bool \<times> 'q) \<Rightarrow> TransportBudget
     \<Rightarrow> 'r \<Rightarrow> 'q \<Rightarrow> TransportError option \<Rightarrow> ('r \<times> 'q \<times> TransportError option) option" where
  "read_loop 0 read_exact deliver budget reader queues terminal = None"
| "read_loop (Suc fuel) read_exact deliver budget reader queues terminal =
     (case read_exact 4 reader of
        (Inl e, reader) \<Rightarrow>
          Some (reader, queues,
            if e = Io_UnexpectedEof then terminal else set_terminal_error (framed_io_error e) terminal)
      | (Inr prefix, reader) \<Rightarrow>
          let frame_length = unat (from_be_bytes prefix :: u32)
          in if frame_length > tb_max_frame_bytes budget
             then Some (reader, queues,
               set_terminal_error (TransportError_new Te_MessageTooLarge ''received frame exceeds transport limit'') terminal)
             else
               (case read_exact frame_length reader of
                  (Inl e, reader) \<Rightarrow> Some (reader, queues, set_terminal_error (framed_io_error e) terminal)
                | (Inr message, reader) \<Rightarrow>
                    (case deliver (starts_with CONTROL_STREAM_PREFIX message) message queues of
                       (False, queues) \<Rightarrow> Some (reader, queues, terminal)
                     | (True, queues) \<Rightarrow> read_loop fuel read_exact deliver budget reader queues terminal)))"

subsection \<open>The connection\<close>

text \<open>What the runtime's queues return: on sending, and on receiving.\<close>

datatype TrySend = Ts_Sent | Ts_Full | Ts_Closed
datatype TryRecv = Tr_Message bytes | Tr_Empty | Tr_Disconnected

record FramedConnection =
  fc_metadata :: ConnectionMetadata
  fc_budget :: TransportBudget
  fc_control_tx :: bool
  fc_data_tx :: bool
  fc_terminal_error :: "TransportError option"
  fc_write_closed :: bool
  fc_read_closed :: bool
  fc_writer_aborted :: bool
  fc_reader_aborted :: bool

text \<open>\<open>in_runtime\<close> says whether the caller runs in the asynchronous runtime.\<close>

definition spawn_framed_halves ::
  "bool \<Rightarrow> ConnectionMetadata \<Rightarrow> TransportBudget \<Rightarrow> (TransportError, FramedConnection) result" where
  "spawn_framed_halves in_runtime metadata budget =
     result_bind (TransportBudget_validate budget) (\<lambda>budget.
       if \<not> in_runtime then Inl (TransportError_new Te_Other ''a Tokio runtime is required to start this transport'')
       else Inr \<lparr>fc_metadata = metadata, fc_budget = budget, fc_control_tx = True, fc_data_tx = True, fc_terminal_error = None,
                 fc_write_closed = False, fc_read_closed = False, fc_writer_aborted = False, fc_reader_aborted = False\<rparr>)"

definition FramedConnection_enqueue :: "TrySend \<Rightarrow> bytes \<Rightarrow> nat \<Rightarrow> (TransportError, unit) result" where
  "FramedConnection_enqueue sender message max_frame_bytes =
     (if length message > max_frame_bytes
      then Inl (TransportError_new Te_MessageTooLarge ''message exceeds transport frame limit'')
      else
        case sender of
          Ts_Sent \<Rightarrow> Inr ()
        | Ts_Full \<Rightarrow> Inl (TransportError_new Te_WouldBlock ''transport send queue is full'')
        | Ts_Closed \<Rightarrow> Inl (TransportError_new Te_Closed ''transport write side is closed''))"

definition FramedConnection_terminal_or :: "TransportError \<Rightarrow> FramedConnection \<Rightarrow> TransportError" where
  "FramedConnection_terminal_or fallback self = (case fc_terminal_error self of None \<Rightarrow> fallback | Some e \<Rightarrow> e)"

definition FramedConnection_try_send :: "TrySend \<Rightarrow> bytes \<Rightarrow> FramedConnection \<Rightarrow> (TransportError, unit) result" where
  "FramedConnection_try_send sender message self =
     (if fc_write_closed self then Inl (TransportError_new Te_Closed ''transport write side is closed'')
      else if \<not> fc_data_tx self then Inl write_closed
      else FramedConnection_enqueue sender message (tb_max_frame_bytes (fc_budget self)))"

definition FramedConnection_try_send_control :: "TrySend \<Rightarrow> bytes \<Rightarrow> FramedConnection \<Rightarrow> (TransportError, unit) result" where
  "FramedConnection_try_send_control sender message self =
     (if fc_write_closed self then Inl (TransportError_new Te_Closed ''transport write side is closed'')
      else if \<not> fc_control_tx self then Inl write_closed
      else FramedConnection_enqueue sender message (tb_max_frame_bytes (fc_budget self)))"

definition framed_receive :: "string \<Rightarrow> bool \<Rightarrow> TryRecv \<Rightarrow> FramedConnection \<Rightarrow> (TransportError, bytes option) result" where
  "framed_receive not_ready reader_finished received self =
     (let closed = TransportError_new Te_Closed ''transport read side is closed'' in
      if fc_read_closed self then Inl closed
      else
        case received of
          Tr_Message message \<Rightarrow> Inr (Some message)
        | Tr_Empty \<Rightarrow>
            if reader_finished then Inl (FramedConnection_terminal_or closed self)
            else Inl (TransportError_new Te_WouldBlock not_ready)
        | Tr_Disconnected \<Rightarrow> Inl (FramedConnection_terminal_or closed self))"

definition FramedConnection_try_receive :: "bool \<Rightarrow> TryRecv \<Rightarrow> FramedConnection \<Rightarrow> (TransportError, bytes option) result" where
  "FramedConnection_try_receive = framed_receive ''no transport message is ready''"

definition FramedConnection_try_receive_control :: "bool \<Rightarrow> TryRecv \<Rightarrow> FramedConnection \<Rightarrow> (TransportError, bytes option) result" where
  "FramedConnection_try_receive_control = framed_receive ''no control message is ready''"

definition FramedConnection_close_write :: "FramedConnection \<Rightarrow> (TransportError, unit) result \<times> FramedConnection" where
  "FramedConnection_close_write self =
     (Inr (), if fc_write_closed self then self
              else self\<lparr>fc_write_closed := True, fc_control_tx := False, fc_data_tx := False\<rparr>)"

definition FramedConnection_close_read :: "FramedConnection \<Rightarrow> (TransportError, unit) result \<times> FramedConnection" where
  "FramedConnection_close_read self = (Inr (), self\<lparr>fc_read_closed := True, fc_reader_aborted := True\<rparr>)"

definition FramedConnection_abort :: "FramedConnection \<Rightarrow> FramedConnection" where
  "FramedConnection_abort self =
     self\<lparr>fc_write_closed := True, fc_read_closed := True, fc_writer_aborted := True, fc_reader_aborted := True\<rparr>"

subsection \<open>Frames\<close>

text \<open>A stream as the list of the bytes on the way. Writing appends; reading takes from the front, and
  fails at the end of the stream when too few are left.\<close>

definition pipe :: "bytes AsyncWrite" where
  "pipe = \<lparr>wr_write_all = (\<lambda>bs w. (Inr (), w @ bs)), wr_flush = (\<lambda>w. (Inr (), w)), wr_shutdown = (\<lambda>w. w)\<rparr>"

definition read_pipe :: "nat \<Rightarrow> bytes \<Rightarrow> (IoErrorKind, bytes) result \<times> bytes" where
  "read_pipe n r = (if n \<le> length r then (Inr (take n r), drop n r) else (Inl Io_UnexpectedEof, []))"

text \<open>Two queues that keep what is delivered, in order, with its lane.\<close>

definition deliver_all :: "bool \<Rightarrow> bytes \<Rightarrow> (bool \<times> bytes) list \<Rightarrow> bool \<times> (bool \<times> bytes) list" where
  "deliver_all control message queues = (True, queues @ [(control, message)])"

definition frame_bytes :: "bytes \<Rightarrow> bytes" where
  "frame_bytes message = to_be_bytes (of_nat (length message) :: u32) @ message"

fun woken :: "WriterWake list \<Rightarrow> bool \<Rightarrow> bool \<Rightarrow> bytes list" where
  "woken [] control_open data_open = []"
| "woken (wake # wakes) control_open data_open =
     (case wake_message wake control_open data_open of
        (m, control_open, data_open) \<Rightarrow> (case m of None \<Rightarrow> [] | Some message \<Rightarrow> [message]) @ woken wakes control_open data_open)"

lemma woken_closed: "woken wakes False False = []"
  by (induction wakes) (auto simp: wake_message_def split: WriterWake.splits option.splits)

lemma write_frame_pipe: "length message < 2 ^ 32 \<Longrightarrow> write_frame pipe message w = (Inr (), w @ frame_bytes message)"
  by (simp add: write_frame_def pipe_def frame_bytes_def)

lemma write_loop_pipe:
  assumes "\<forall>m \<in> set (woken wakes control_open data_open). length m < 2 ^ 32"
  shows "write_loop pipe wakes control_open data_open w terminal
    = (w @ concat (map frame_bytes (woken wakes control_open data_open)), terminal)"
  using assms
proof (induction wakes arbitrary: control_open data_open w)
  case Nil
  then show ?case by (simp add: pipe_def)
next
  case (Cons wake wakes)
  show ?case
  proof (cases "\<not> control_open \<and> \<not> data_open")
    case True
    then show ?thesis by (simp add: pipe_def woken_closed del: woken.simps)
  next
    case False
    obtain m co dop where "wake_message wake control_open data_open = (m, co, dop)" by (metis prod_cases3)
    with Cons False show ?thesis by (cases m) (auto simp: write_frame_pipe)
  qed
qed

lemma read_frame:
  assumes "length message \<le> tb_max_frame_bytes budget" "length message < 2 ^ 32"
  shows "read_loop (Suc fuel) read_pipe deliver_all budget (frame_bytes message @ rest) queues terminal
    = read_loop fuel read_pipe deliver_all budget rest (queues @ [(starts_with CONTROL_STREAM_PREFIX message, message)]) terminal"
proof -
  have "read_pipe 4 (frame_bytes message @ rest) = (Inr (to_be_bytes (of_nat (length message) :: u32)), message @ rest)"
    by (simp add: read_pipe_def frame_bytes_def)
  moreover have "read_pipe (length message) (message @ rest) = (Inr message, rest)" by (simp add: read_pipe_def)
  moreover have "unat (of_nat (length message) :: u32) = length message" using assms(2) by (simp add: unat_of_nat take_bit_nat_eq_self)
  ultimately show ?thesis using assms(1) by (simp add: deliver_all_def)
qed

lemma read_frames:
  assumes "\<forall>m \<in> set messages. length m \<le> tb_max_frame_bytes budget \<and> length m < 2 ^ 32" "length messages < fuel" "length rest < 4"
  shows "read_loop fuel read_pipe deliver_all budget (concat (map frame_bytes messages) @ rest) queues terminal
    = Some ([], queues @ map (\<lambda>m. (starts_with CONTROL_STREAM_PREFIX m, m)) messages, terminal)"
  using assms
proof (induction messages arbitrary: fuel queues)
  case Nil
  then show ?case by (cases fuel) (auto simp: read_pipe_def)
next
  case (Cons m messages)
  then obtain fuel' where "fuel = Suc fuel'" by (cases fuel) auto
  with Cons show ?case by (simp add: read_frame del: read_loop.simps)
qed

subsection \<open>Property\<close>

text \<open>C37: framing is transparent. Whatever messages within the frame limit the writer task is woken with, in
  whatever order of the two queues and until both have ended, the reader task given the bytes written, even when
  the stream then ends within a length prefix, terminates, reports no error and delivers exactly those messages,
  in the order written and unchanged, each to the control queue exactly when it starts with the control-stream
  prefix; and a frame whose length exceeds the limit is refused before any of it is read.\<close>

theorem framing_transparent:
  assumes "\<forall>m \<in> set (woken wakes True True). length m \<le> tb_max_frame_bytes budget \<and> length m < 2 ^ 32"
    and "write_loop pipe wakes True True [] None = (written, writer_error)" and "length rest < 4"
    and "length (woken wakes True True) < fuel"
  shows "writer_error = None
    \<and> read_loop fuel read_pipe deliver_all budget (written @ rest) [] None
      = Some ([], map (\<lambda>m. (starts_with CONTROL_STREAM_PREFIX m, m)) (woken wakes True True), None)
    \<and> (tb_max_frame_bytes budget < unat n \<longrightarrow>
       read_loop (Suc 0) read_pipe deliver_all budget (to_be_bytes (n :: u32) @ body) [] None
         = Some (body, [], Some (TransportError_new Te_MessageTooLarge ''received frame exceeds transport limit'')))"
proof -
  have "written = concat (map frame_bytes (woken wakes True True))" "writer_error = None"
    using assms(1,2) write_loop_pipe [of wakes True True "[]" None] by auto
  moreover from this read_frames [OF assms(1,4,3), of "[]" None]
  have "read_loop fuel read_pipe deliver_all budget (written @ rest) [] None
      = Some ([], map (\<lambda>m. (starts_with CONTROL_STREAM_PREFIX m, m)) (woken wakes True True), None)" by simp
  moreover have "read_loop (Suc 0) read_pipe deliver_all budget (to_be_bytes n @ body) [] None
         = Some (body, [], Some (TransportError_new Te_MessageTooLarge ''received frame exceeds transport limit''))"
    if "tb_max_frame_bytes budget < unat n"
    using that by (simp add: read_pipe_def set_terminal_error_def)
  ultimately show ?thesis by blast
qed

text \<open>C37 witness: a data message, a control message and the end of both queues.\<close>

theorem framing_transparent_witness:
  "\<exists>written. write_loop pipe [Wake_Data (Some [1, 2]), Wake_Control (Some [77, 76, 67, 83, 5]), Wake_Control None, Wake_Data None]
       True True [] None = (written, None)
     \<and> read_loop 3 read_pipe deliver_all TransportBudget_default (written @ [0, 0]) [] None
       = Some ([], [(False, [1, 2]), (True, [77, 76, 67, 83, 5])], None)"
proof -
  let ?wakes = "[Wake_Data (Some [1, 2]), Wake_Control (Some [77, 76, 67, 83, 5]), Wake_Control None, Wake_Data None]"
  have woken: "woken ?wakes True True = [[1, 2], [77, 76, 67, 83, 5]]" by (simp add: wake_message_def)
  obtain written e where written: "write_loop pipe ?wakes True True [] None = (written, e)" by fastforce
  have "e = None" "read_loop 3 read_pipe deliver_all TransportBudget_default (written @ [0, 0]) [] None
      = Some ([], map (\<lambda>m. (starts_with CONTROL_STREAM_PREFIX m, m)) (woken ?wakes True True), None)"
    using framing_transparent [OF _ written, of TransportBudget_default "[0, 0]" 3]
    unfolding woken by (simp_all add: TransportBudget_default_def)
  then show ?thesis using written unfolding woken by (simp add: starts_with_def CONTROL_STREAM_PREFIX_def)
qed

end
