(* ===== verification/Link_Ntp_Control.thy ===== *)
theory Link_Ntp_Control
  imports Link_Ntp Link_Wire
begin

text \<open>
  The control messages of the tracking binding and their codec, \<^verbatim>\<open>control.rs\<close>. What the
  binding uses of the third-party protocol library is collected in a record of operations: the codec of
  descriptors, the revisions of a descriptor, signal identifiers, and the codes and values of the
  enumerations that appear on the wire.
\<close>

subsection \<open>Messages\<close>

definition NTP_CONTROL_MAGIC :: bytes where "NTP_CONTROL_MAGIC = [78, 84, 76, 67]"
definition NTP_CONTROL_VERSION :: u8 where "NTP_CONTROL_VERSION = 1"
definition NTP_CONTROL_HEADER_LEN :: nat where "NTP_CONTROL_HEADER_LEN = 10"
definition MAX_REASON_BYTES :: nat where "MAX_REASON_BYTES = 256"
definition MAX_NTP_CONTROL_BYTES :: nat where "MAX_NTP_CONTROL_BYTES = 64 * 1024"

record ProtocolHello =
  ph_minimum_version :: u16
  ph_maximum_version :: u16
  ph_link_session_id :: SessionId

definition ProtocolHello_new :: "SessionId \<Rightarrow> ProtocolHello" where
  "ProtocolHello_new link_session_id = \<lparr>ph_minimum_version = 2, ph_maximum_version = 2, ph_link_session_id = link_session_id\<rparr>"

datatype SessionCommand = Sc_Start | Sc_Stop | Sc_Pause | Sc_Resume

fun SessionCommand_code :: "SessionCommand \<Rightarrow> u8" where
  "SessionCommand_code Sc_Start = 1"
| "SessionCommand_code Sc_Stop = 2"
| "SessionCommand_code Sc_Pause = 3"
| "SessionCommand_code Sc_Resume = 4"

record ('r, 's, 'p, 'v, 'q) LayoutProposal =
  lp_revisions :: 'r
  lp_profile :: 'p
  lp_base_layout_version :: u16
  lp_extra_signals :: "'s list"
  lp_value_encoding :: 'v
  lp_quality_encoding :: 'q
  lp_target_fps :: u16

record ('d, 'r, 's, 'p, 'v, 'q) SessionProposal =
  spr_descriptor :: 'd
  spr_session_id :: u128
  spr_generation :: u32
  spr_layout_id :: u32
  spr_layout :: "('r, 's, 'p, 'v, 'q) LayoutProposal"
  spr_topology :: GeometryTopology

record LayoutAccept =
  la_layout_id :: u32
  la_layout_hash :: "256 word"
  la_parameter_count :: u16
  la_expected_payload_len :: u32

record LayoutConfirm =
  lc_layout_id :: u32
  lc_layout_hash :: "256 word"

datatype ('d, 'r, 's, 'p, 'v, 'q) ControlMessage =
    Cm_Hello ProtocolHello
  | Cm_SessionProposal "('d, 'r, 's, 'p, 'v, 'q) SessionProposal"
  | Cm_LayoutAccepted LayoutAccept
  | Cm_LayoutConfirmed LayoutConfirm
  | Cm_SessionReady u128 u32 u32
  | Cm_Command SessionCommand
  | Cm_ReceiverReport ReceiverReport
  | Cm_Ping u64
  | Cm_Pong u64 u64
  | Cm_GeometryRequest
  | Cm_Error u16 bytes
  | Cm_Close u16 bytes

text \<open>The operations of the protocol library.\<close>

record ('d, 'r, 's, 'p, 'v, 'q, 'x) ControlLib =
  cl_encode_descriptor :: "'d \<Rightarrow> ('x, bytes) result"
  cl_decode_descriptor :: "bytes \<Rightarrow> ('x, 'd) result"
  cl_revisions :: "'d \<Rightarrow> 'r"
  cl_signal_get :: "'s \<Rightarrow> u16"
  cl_signal_new :: "u16 \<Rightarrow> 's option"
  cl_profile_code :: "'p \<Rightarrow> u8"
  cl_profiles :: "'p \<times> 'p \<times> 'p \<times> 'p"
  cl_value_code :: "'v \<Rightarrow> u8"
  cl_i16_normalized :: 'v
  cl_quality_code :: "'q \<Rightarrow> u8"
  cl_quality_none :: 'q
  cl_quality_state_and_confidence :: 'q
  cl_max_layout_signals :: nat

subsection \<open>Encoding\<close>

definition message_kind :: "('d, 'r, 's, 'p, 'v, 'q) ControlMessage \<Rightarrow> u8" where
  "message_kind message =
     (case message of Cm_Hello _ \<Rightarrow> 1 | Cm_SessionProposal _ \<Rightarrow> 2 | Cm_LayoutAccepted _ \<Rightarrow> 3 | Cm_LayoutConfirmed _ \<Rightarrow> 4
      | Cm_SessionReady _ _ _ \<Rightarrow> 5 | Cm_Command _ \<Rightarrow> 6 | Cm_ReceiverReport _ \<Rightarrow> 7 | Cm_Ping _ \<Rightarrow> 8 | Cm_Pong _ _ \<Rightarrow> 9
      | Cm_GeometryRequest \<Rightarrow> 10 | Cm_Error _ _ \<Rightarrow> 11 | Cm_Close _ _ \<Rightarrow> 12)"

type_synonym NtpWriter = bytes

definition NtpWriter_new :: "u8 \<Rightarrow> NtpWriter" where
  "NtpWriter_new kind = NTP_CONTROL_MAGIC @ [NTP_CONTROL_VERSION, kind] @ [0, 0, 0, 0]"

definition NtpWriter_word :: "NtpWriter \<Rightarrow> 'a::len word \<Rightarrow> NtpWriter" where
  "NtpWriter_word self value = self @ to_be_bytes value"

definition NtpWriter_sized_bytes :: "NtpWriter \<Rightarrow> bytes \<Rightarrow> ('x BindingError, NtpWriter) result" where
  "NtpWriter_sized_bytes self value =
     result_bind (try_word Be_ControlLimit (length value) :: ('x BindingError, u32) result) (\<lambda>size.
       Inr (NtpWriter_word self size @ value))"

definition NtpWriter_string :: "NtpWriter \<Rightarrow> bytes \<Rightarrow> ('x BindingError, NtpWriter) result" where
  "NtpWriter_string self value =
     (if length value > MAX_REASON_BYTES then Inl Be_ControlLimit
      else
        result_bind (try_word Be_ControlLimit (length value) :: ('x BindingError, u16) result) (\<lambda>size.
          Inr (NtpWriter_word self size @ value)))"

definition NtpWriter_finish :: "NtpWriter \<Rightarrow> ('x BindingError, bytes) result" where
  "NtpWriter_finish self =
     result_bind
       (if length self < NTP_CONTROL_HEADER_LEN then Inl Be_ControlLimit
        else try_word Be_ControlLimit (length self - NTP_CONTROL_HEADER_LEN) :: ('x BindingError, u32) result)
       (\<lambda>payload_len. Inr (take 6 self @ to_be_bytes payload_len @ drop 10 self))"

definition encode_proposal ::
  "('d, 'r, 's, 'p, 'v, 'q, 'x) ControlLib \<Rightarrow> ('d, 'r, 's, 'p, 'v, 'q) SessionProposal \<Rightarrow> NtpWriter \<Rightarrow> ('x BindingError, NtpWriter) result" where
  "encode_proposal lib proposal writer =
     (let writer = NtpWriter_word writer (spr_session_id proposal);
          writer = NtpWriter_word writer (spr_generation proposal);
          writer = NtpWriter_word writer (spr_layout_id proposal);
          layout = spr_layout proposal;
          topology = spr_topology proposal
      in result_bind (result_map_err Be_Codec (cl_encode_descriptor lib (spr_descriptor proposal))) (\<lambda>descriptor.
         result_bind (NtpWriter_sized_bytes writer descriptor) (\<lambda>writer.
           let writer = NtpWriter_word writer (cl_profile_code lib (lp_profile layout));
               writer = NtpWriter_word writer (lp_base_layout_version layout);
               writer = NtpWriter_word writer (cl_value_code lib (lp_value_encoding layout));
               writer = NtpWriter_word writer (cl_quality_code lib (lp_quality_encoding layout));
               writer = NtpWriter_word writer (lp_target_fps layout)
           in result_bind (try_word Be_ControlLimit (length (lp_extra_signals layout)) :: ('x BindingError, u16) result) (\<lambda>extra_count.
             let writer = NtpWriter_word writer extra_count;
                 writer = foldl (\<lambda>writer signal. NtpWriter_word writer (cl_signal_get lib signal)) writer (lp_extra_signals layout);
                 writer = NtpWriter_word writer (gt_schema_revision topology);
                 writer = NtpWriter_word writer (gt_topology_hash topology)
             in Inr (NtpWriter_word writer (gt_landmark_count topology))))))"

definition ControlMessage_encode ::
  "('d, 'r, 's, 'p, 'v, 'q, 'x) ControlLib \<Rightarrow> ('d, 'r, 's, 'p, 'v, 'q) ControlMessage \<Rightarrow> ('x BindingError, bytes) result" where
  "ControlMessage_encode lib self =
     (let writer = NtpWriter_new (message_kind self) in
      result_bind
        (case self of
           Cm_Hello hello \<Rightarrow>
             Inr (NtpWriter_word (NtpWriter_word (NtpWriter_word writer (ph_minimum_version hello)) (ph_maximum_version hello))
               (session_id_bytes (ph_link_session_id hello)))
         | Cm_SessionProposal proposal \<Rightarrow> encode_proposal lib proposal writer
         | Cm_LayoutAccepted accept \<Rightarrow>
             Inr (NtpWriter_word (NtpWriter_word (NtpWriter_word (NtpWriter_word writer (la_layout_id accept)) (la_layout_hash accept))
               (la_parameter_count accept)) (la_expected_payload_len accept))
         | Cm_LayoutConfirmed confirm \<Rightarrow> Inr (NtpWriter_word (NtpWriter_word writer (lc_layout_id confirm)) (lc_layout_hash confirm))
         | Cm_SessionReady session_id generation layout_id \<Rightarrow>
             Inr (NtpWriter_word (NtpWriter_word (NtpWriter_word writer session_id) generation) layout_id)
         | Cm_Command command \<Rightarrow> Inr (NtpWriter_word writer (SessionCommand_code command))
         | Cm_ReceiverReport report \<Rightarrow>
             Inr (NtpWriter_word (NtpWriter_word (NtpWriter_word (NtpWriter_word (NtpWriter_word (NtpWriter_word writer
               (rp_received report)) (rp_dropped report)) (rp_stale report)) (rp_jitter_ns report)) (rp_result_age_ns report))
               (rp_clock_uncertainty_ns report))
         | Cm_Ping receiver_send_ns \<Rightarrow> Inr (NtpWriter_word writer receiver_send_ns)
         | Cm_Pong receiver_send_ns producer_send_ns \<Rightarrow>
             Inr (NtpWriter_word (NtpWriter_word writer receiver_send_ns) producer_send_ns)
         | Cm_GeometryRequest \<Rightarrow> Inr writer
         | Cm_Error code reason \<Rightarrow> NtpWriter_string (NtpWriter_word writer code) reason
         | Cm_Close code reason \<Rightarrow> NtpWriter_string (NtpWriter_word writer code) reason)
        NtpWriter_finish)"

subsection \<open>Decoding\<close>

record NtpReader =
  nr_bytes :: bytes
  nr_offset :: nat

type_synonym ('x, 'a) ntp_reading = "('x BindingError, 'a \<times> NtpReader) result"

definition NtpReader_framed :: "bytes \<Rightarrow> ('x BindingError, u8 \<times> NtpReader) result" where
  "NtpReader_framed bs =
     (if length bs < NTP_CONTROL_HEADER_LEN \<or> length bs > MAX_NTP_CONTROL_BYTES \<or> take 4 bs \<noteq> NTP_CONTROL_MAGIC
         \<or> bs ! 4 \<noteq> NTP_CONTROL_VERSION
      then Inl Be_InvalidControl
      else if unat (from_be_bytes (take 4 (drop 6 bs)) :: u32) \<noteq> length bs - NTP_CONTROL_HEADER_LEN then Inl Be_InvalidControl
      else Inr (bs ! 5, \<lparr>nr_bytes = drop NTP_CONTROL_HEADER_LEN bs, nr_offset = 0\<rparr>))"

definition NtpReader_take :: "nat \<Rightarrow> NtpReader \<Rightarrow> ('x, bytes) ntp_reading" where
  "NtpReader_take n self =
     result_bind (ok_or Be_InvalidControl (usize_checked_add (nr_offset self) n)) (\<lambda>end'.
       if end' > length (nr_bytes self) then Inl Be_InvalidControl
       else Inr (take n (drop (nr_offset self) (nr_bytes self)), self\<lparr>nr_offset := end'\<rparr>))"

text \<open>An array or integer of as many bytes as the word has.\<close>

definition NtpReader_word :: "NtpReader \<Rightarrow> ('x, 'a::len word) ntp_reading" where
  "NtpReader_word self =
     result_bind (NtpReader_take (LENGTH('a) div 8) self) (\<lambda>(bs, self). Inr (from_be_bytes bs, self))"

definition NtpReader_sized_bytes :: "NtpReader \<Rightarrow> ('x, bytes) ntp_reading" where
  "NtpReader_sized_bytes self =
     result_bind (NtpReader_word self) (\<lambda>(size :: u32, self). NtpReader_take (unat size) self)"

definition NtpReader_string :: "NtpReader \<Rightarrow> ('x, bytes) ntp_reading" where
  "NtpReader_string self =
     result_bind (NtpReader_word self) (\<lambda>(size :: u16, self).
       if unat size > MAX_REASON_BYTES then Inl Be_ControlLimit
       else
         result_bind (NtpReader_take (unat size) self) (\<lambda>(bs, self).
           if utf8_valid bs then Inr (bs, self) else Inl Be_InvalidControl))"

definition NtpReader_finish :: "NtpReader \<Rightarrow> ('x BindingError, unit) result" where
  "NtpReader_finish self = (if nr_offset self = length (nr_bytes self) then Inr () else Inl Be_InvalidControl)"

fun read_signals :: "(u16 \<Rightarrow> 's option) \<Rightarrow> nat \<Rightarrow> NtpReader \<Rightarrow> ('x, 's list) ntp_reading" where
  "read_signals signal_new 0 reader = Inr ([], reader)"
| "read_signals signal_new (Suc n) reader =
     result_bind (NtpReader_word reader) (\<lambda>(w :: u16, reader).
     result_bind (ok_or Be_InvalidControl (signal_new w)) (\<lambda>signal.
     result_bind (read_signals signal_new n reader) (\<lambda>(signals, reader). Inr (signal # signals, reader))))"

definition decode_command :: "u8 \<Rightarrow> ('x BindingError, SessionCommand) result" where
  "decode_command code =
     (if code = 1 then Inr Sc_Start else if code = 2 then Inr Sc_Stop else if code = 3 then Inr Sc_Pause
      else if code = 4 then Inr Sc_Resume else Inl Be_InvalidControl)"

definition decode_profile :: "('d, 'r, 's, 'p, 'v, 'q, 'x) ControlLib \<Rightarrow> u8 \<Rightarrow> ('x BindingError, 'p) result" where
  "decode_profile lib code =
     (case cl_profiles lib of
        (partial, basic, spatial, full) \<Rightarrow>
          if code = 0 then Inr partial else if code = 1 then Inr basic else if code = 2 then Inr spatial
          else if code = 3 then Inr full else Inl Be_InvalidControl)"

definition decode_proposal ::
  "('d, 'r, 's, 'p, 'v, 'q, 'x) ControlLib \<Rightarrow> NtpReader \<Rightarrow> ('x, ('d, 'r, 's, 'p, 'v, 'q) SessionProposal) ntp_reading" where
  "decode_proposal lib reader =
     result_bind (NtpReader_word reader) (\<lambda>(session_id, reader).
     result_bind (NtpReader_word reader) (\<lambda>(generation, reader).
     result_bind (NtpReader_word reader) (\<lambda>(layout_id, reader).
     result_bind (NtpReader_sized_bytes reader) (\<lambda>(bs, reader).
     result_bind (result_map_err Be_Codec (cl_decode_descriptor lib bs)) (\<lambda>descriptor.
     result_bind (NtpReader_word reader) (\<lambda>(code, reader).
     result_bind (decode_profile lib code) (\<lambda>profile.
     result_bind (NtpReader_word reader) (\<lambda>(base_layout_version, reader).
     result_bind (NtpReader_word reader) (\<lambda>(code :: u8, reader).
     result_bind (if code = 1 then Inr (cl_i16_normalized lib) else Inl Be_InvalidControl) (\<lambda>value_encoding.
     result_bind (NtpReader_word reader) (\<lambda>(code :: u8, reader).
     result_bind (if code = 0 then Inr (cl_quality_none lib) else if code = 1 then Inr (cl_quality_state_and_confidence lib)
                  else Inl Be_InvalidControl) (\<lambda>quality_encoding.
     result_bind (NtpReader_word reader) (\<lambda>(target_fps, reader).
     result_bind (NtpReader_word reader) (\<lambda>(extra_count :: u16, reader).
       if unat extra_count > cl_max_layout_signals lib then Inl Be_InvalidControl
       else
         result_bind (read_signals (cl_signal_new lib) (unat extra_count) reader) (\<lambda>(extra_signals, reader).
         result_bind (NtpReader_word reader) (\<lambda>(schema_revision, reader).
         result_bind (NtpReader_word reader) (\<lambda>(topology_hash, reader).
         result_bind (NtpReader_word reader) (\<lambda>(landmark_count, reader).
           Inr (\<lparr>spr_descriptor = descriptor, spr_session_id = session_id, spr_generation = generation, spr_layout_id = layout_id,
                  spr_layout = \<lparr>lp_revisions = cl_revisions lib descriptor, lp_profile = profile,
                    lp_base_layout_version = base_layout_version, lp_extra_signals = extra_signals,
                    lp_value_encoding = value_encoding, lp_quality_encoding = quality_encoding, lp_target_fps = target_fps\<rparr>,
                  spr_topology = \<lparr>gt_schema_revision = schema_revision, gt_topology_hash = topology_hash,
                    gt_landmark_count = landmark_count\<rparr>\<rparr>, reader)))))))))))))))))))"

definition decode_body ::
  "('d, 'r, 's, 'p, 'v, 'q, 'x) ControlLib \<Rightarrow> u8 \<Rightarrow> NtpReader \<Rightarrow> ('x, ('d, 'r, 's, 'p, 'v, 'q) ControlMessage) ntp_reading" where
  "decode_body lib kind reader =
     (if kind = 1 then
        result_bind (NtpReader_word reader) (\<lambda>(minimum, reader).
        result_bind (NtpReader_word reader) (\<lambda>(maximum, reader).
        result_bind (NtpReader_word reader) (\<lambda>(session, reader).
          Inr (Cm_Hello \<lparr>ph_minimum_version = minimum, ph_maximum_version = maximum, ph_link_session_id = SessionId session\<rparr>, reader))))
      else if kind = 2 then
        result_bind (decode_proposal lib reader) (\<lambda>(proposal, reader). Inr (Cm_SessionProposal proposal, reader))
      else if kind = 3 then
        result_bind (NtpReader_word reader) (\<lambda>(layout_id, reader).
        result_bind (NtpReader_word reader) (\<lambda>(layout_hash, reader).
        result_bind (NtpReader_word reader) (\<lambda>(parameter_count, reader).
        result_bind (NtpReader_word reader) (\<lambda>(expected_payload_len, reader).
          Inr (Cm_LayoutAccepted \<lparr>la_layout_id = layout_id, la_layout_hash = layout_hash, la_parameter_count = parameter_count,
            la_expected_payload_len = expected_payload_len\<rparr>, reader)))))
      else if kind = 4 then
        result_bind (NtpReader_word reader) (\<lambda>(layout_id, reader).
        result_bind (NtpReader_word reader) (\<lambda>(layout_hash, reader).
          Inr (Cm_LayoutConfirmed \<lparr>lc_layout_id = layout_id, lc_layout_hash = layout_hash\<rparr>, reader)))
      else if kind = 5 then
        result_bind (NtpReader_word reader) (\<lambda>(session_id, reader).
        result_bind (NtpReader_word reader) (\<lambda>(generation, reader).
        result_bind (NtpReader_word reader) (\<lambda>(layout_id, reader).
          Inr (Cm_SessionReady session_id generation layout_id, reader))))
      else if kind = 6 then
        result_bind (NtpReader_word reader) (\<lambda>(code, reader).
        result_bind (decode_command code) (\<lambda>command. Inr (Cm_Command command, reader)))
      else if kind = 7 then
        result_bind (NtpReader_word reader) (\<lambda>(accepted, reader).
        result_bind (NtpReader_word reader) (\<lambda>(dropped, reader).
        result_bind (NtpReader_word reader) (\<lambda>(stale, reader).
        result_bind (NtpReader_word reader) (\<lambda>(jitter_ns, reader).
        result_bind (NtpReader_word reader) (\<lambda>(result_age_ns, reader).
        result_bind (NtpReader_word reader) (\<lambda>(clock_uncertainty_ns, reader).
          Inr (Cm_ReceiverReport \<lparr>rp_received = accepted, rp_dropped = dropped, rp_stale = stale, rp_jitter_ns = jitter_ns,
            rp_result_age_ns = result_age_ns, rp_clock_uncertainty_ns = clock_uncertainty_ns\<rparr>, reader)))))))
      else if kind = 8 then
        result_bind (NtpReader_word reader) (\<lambda>(receiver_send_ns, reader). Inr (Cm_Ping receiver_send_ns, reader))
      else if kind = 9 then
        result_bind (NtpReader_word reader) (\<lambda>(receiver_send_ns, reader).
        result_bind (NtpReader_word reader) (\<lambda>(producer_send_ns, reader). Inr (Cm_Pong receiver_send_ns producer_send_ns, reader)))
      else if kind = 10 then Inr (Cm_GeometryRequest, reader)
      else if kind = 11 \<or> kind = 12 then
        result_bind (NtpReader_word reader) (\<lambda>(code, reader).
        result_bind (NtpReader_string reader) (\<lambda>(reason, reader).
          Inr (if kind = 11 then Cm_Error code reason else Cm_Close code reason, reader)))
      else Inl Be_InvalidControl)"

definition ControlMessage_decode ::
  "('d, 'r, 's, 'p, 'v, 'q, 'x) ControlLib \<Rightarrow> bytes \<Rightarrow> ('x BindingError, ('d, 'r, 's, 'p, 'v, 'q) ControlMessage) result" where
  "ControlMessage_decode lib bs =
     result_bind (NtpReader_framed bs) (\<lambda>(kind, reader).
     result_bind (decode_body lib kind reader) (\<lambda>(message, reader).
     result_bind (NtpReader_finish reader) (\<lambda>_. Inr message)))"

definition validate_hello :: "ProtocolHello \<Rightarrow> SessionId \<Rightarrow> ('x BindingError, unit) result" where
  "validate_hello hello expected_link_session_id =
     (if ph_minimum_version hello > 2 \<or> ph_maximum_version hello < 2 then Inl Be_IncompatibleVersion
      else if ph_link_session_id hello \<noteq> expected_link_session_id then Inl Be_SessionBindingMismatch
      else Inr ())"

subsection \<open>Frames\<close>

definition ntp_frame :: "u8 \<Rightarrow> bytes \<Rightarrow> bytes" where
  "ntp_frame kind payload =
     NTP_CONTROL_MAGIC @ [NTP_CONTROL_VERSION, kind] @ to_be_bytes (of_nat (length payload) :: u32) @ payload"

definition ntp_at :: "bytes \<Rightarrow> bytes \<Rightarrow> NtpReader" where
  "ntp_at pre post = \<lparr>nr_bytes = pre @ post, nr_offset = length pre\<rparr>"

definition ntp_small :: "bytes \<Rightarrow> bool" where
  "ntp_small bs = (length bs \<le> MAX_NTP_CONTROL_BYTES)"

lemma finish_new:
  "NtpWriter_finish (NtpWriter_new kind @ payload) = (Inr bs :: ('x BindingError, bytes) result)
     \<longleftrightarrow> length payload < 2 ^ 32 \<and> bs = ntp_frame kind payload"
  by (auto simp: NtpWriter_finish_def NtpWriter_new_def NTP_CONTROL_MAGIC_def NTP_CONTROL_HEADER_LEN_def try_word_def ntp_frame_def)

lemma length_ntp_frame: "length (ntp_frame kind payload) = 10 + length payload"
  by (simp add: ntp_frame_def NTP_CONTROL_MAGIC_def)

lemma framed_ntp_frame:
  assumes "length (ntp_frame kind payload) \<le> MAX_NTP_CONTROL_BYTES"
  shows "NtpReader_framed (ntp_frame kind payload) = Inr (kind, ntp_at [] payload)"
proof -
  have "unat (of_nat (length payload) :: u32) = length payload"
    using assms by (simp add: length_ntp_frame MAX_NTP_CONTROL_BYTES_def unat_of_nat take_bit_nat_eq_self)
  then show ?thesis using assms
    by (simp add: NtpReader_framed_def length_ntp_frame NTP_CONTROL_HEADER_LEN_def ntp_at_def)
      (simp add: ntp_frame_def NTP_CONTROL_MAGIC_def nth_append)
qed

lemma take_at: "ntp_small (pre @ xs @ post) \<Longrightarrow> length xs = n \<Longrightarrow> NtpReader_take n (ntp_at pre (xs @ post)) = Inr (xs, ntp_at (pre @ xs) post)"
  by (simp add: NtpReader_take_def ntp_at_def usize_checked_add_def usize_max_def ntp_small_def MAX_NTP_CONTROL_BYTES_def)

lemma take_at_end: "ntp_small (pre @ xs) \<Longrightarrow> length xs = n \<Longrightarrow> NtpReader_take n (ntp_at pre xs) = Inr (xs, ntp_at (pre @ xs) [])"
  by (simp add: NtpReader_take_def ntp_at_def usize_checked_add_def usize_max_def ntp_small_def MAX_NTP_CONTROL_BYTES_def)

lemma word_at:
  assumes "8 dvd LENGTH('a::len)" "ntp_small (pre @ to_be_bytes (w :: 'a word) @ post)"
  shows "NtpReader_word (ntp_at pre (to_be_bytes w @ post)) = Inr (w, ntp_at (pre @ to_be_bytes w) post)"
  using assms by (simp add: NtpReader_word_def take_at from_to_be_bytes)

lemma word_at_end:
  assumes "8 dvd LENGTH('a::len)" "ntp_small (pre @ to_be_bytes (w :: 'a word))"
  shows "NtpReader_word (ntp_at pre (to_be_bytes w)) = Inr (w, ntp_at (pre @ to_be_bytes w) [])"
  using assms by (simp add: NtpReader_word_def take_at_end from_to_be_bytes)

lemma finish_at [simp]: "NtpReader_finish (ntp_at pre post) = (if post = [] then Inr () else Inl Be_InvalidControl)"
  by (simp add: NtpReader_finish_def ntp_at_def)

lemma sized_at:
  assumes "length xs < 2 ^ 32" "ntp_small (pre @ to_be_bytes (of_nat (length xs) :: u32) @ xs @ post)"
  shows "NtpReader_sized_bytes (ntp_at pre (to_be_bytes (of_nat (length xs) :: u32) @ xs @ post))
    = Inr (xs, ntp_at (pre @ to_be_bytes (of_nat (length xs) :: u32) @ xs) post)"
  using assms by (simp add: NtpReader_sized_bytes_def word_at take_at unat_of_nat take_bit_nat_eq_self)

lemma string_at:
  assumes "length xs \<le> MAX_REASON_BYTES" "utf8_valid xs" "ntp_small (pre @ to_be_bytes (of_nat (length xs) :: u16) @ xs)"
  shows "NtpReader_string (ntp_at pre (to_be_bytes (of_nat (length xs) :: u16) @ xs))
    = Inr (xs, ntp_at (pre @ to_be_bytes (of_nat (length xs) :: u16) @ xs) [])"
  using assms by (simp add: NtpReader_string_def word_at take_at_end unat_of_nat take_bit_nat_eq_self MAX_REASON_BYTES_def)

definition signal_bytes :: "('s \<Rightarrow> u16) \<Rightarrow> 's list \<Rightarrow> bytes" where
  "signal_bytes signal_get signals = concat (map (\<lambda>s. to_be_bytes (signal_get s)) signals)"

lemma signals_at:
  assumes "\<forall>s. signal_new (signal_get s) = Some s" "ntp_small (pre @ signal_bytes signal_get signals @ post)"
  shows "read_signals signal_new (length signals) (ntp_at pre (signal_bytes signal_get signals @ post))
    = Inr (signals, ntp_at (pre @ signal_bytes signal_get signals) post)"
  using assms(2)
proof (induction signals arbitrary: pre)
  case (Cons s signals)
  then show ?case using assms(1) by (simp add: signal_bytes_def word_at)
qed (simp add: signal_bytes_def)

lemma foldl_signals: "foldl (\<lambda>writer s. writer @ to_be_bytes (signal_get s)) writer signals = writer @ signal_bytes signal_get signals"
  by (induction signals arbitrary: writer) (simp_all add: signal_bytes_def)

definition proposal_payload ::
  "('d, 'r, 's, 'p, 'v, 'q, 'x) ControlLib \<Rightarrow> ('d, 'r, 's, 'p, 'v, 'q) SessionProposal \<Rightarrow> bytes \<Rightarrow> bytes" where
  "proposal_payload lib proposal descriptor =
     (let layout = spr_layout proposal; topology = spr_topology proposal in
      to_be_bytes (spr_session_id proposal) @ to_be_bytes (spr_generation proposal) @ to_be_bytes (spr_layout_id proposal)
      @ to_be_bytes (of_nat (length descriptor) :: u32) @ descriptor @ to_be_bytes (cl_profile_code lib (lp_profile layout))
      @ to_be_bytes (lp_base_layout_version layout) @ to_be_bytes (cl_value_code lib (lp_value_encoding layout))
      @ to_be_bytes (cl_quality_code lib (lp_quality_encoding layout)) @ to_be_bytes (lp_target_fps layout)
      @ to_be_bytes (of_nat (length (lp_extra_signals layout)) :: u16) @ signal_bytes (cl_signal_get lib) (lp_extra_signals layout)
      @ to_be_bytes (gt_schema_revision topology) @ to_be_bytes (gt_topology_hash topology) @ to_be_bytes (gt_landmark_count topology))"

lemma encode_proposal_eq:
  "encode_proposal lib proposal writer = (Inr written :: ('x BindingError, NtpWriter) result) \<longleftrightarrow>
   (\<exists>descriptor. cl_encode_descriptor lib (spr_descriptor proposal) = Inr descriptor \<and> length descriptor < 2 ^ 32
      \<and> length (lp_extra_signals (spr_layout proposal)) < 2 ^ 16 \<and> written = writer @ proposal_payload lib proposal descriptor)"
  by (auto simp: encode_proposal_def Let_def result_bind_eq_Inr NtpWriter_sized_bytes_def try_word_def foldl_signals
      proposal_payload_def NtpWriter_word_def split: if_splits)

definition proposal_ok :: "('d, 'r, 's, 'p, 'v, 'q, 'x) ControlLib \<Rightarrow> ('d, 'r, 's, 'p, 'v, 'q) SessionProposal \<Rightarrow> bool" where
  "proposal_ok lib proposal =
     (let layout = spr_layout proposal in
      lp_revisions layout = cl_revisions lib (spr_descriptor proposal)
      \<and> length (lp_extra_signals layout) \<le> cl_max_layout_signals lib
      \<and> decode_profile lib (cl_profile_code lib (lp_profile layout)) = Inr (lp_profile layout)
      \<and> cl_value_code lib (lp_value_encoding layout) = 1 \<and> lp_value_encoding layout = cl_i16_normalized lib
      \<and> (cl_quality_code lib (lp_quality_encoding layout) = 0 \<and> lp_quality_encoding layout = cl_quality_none lib
         \<or> cl_quality_code lib (lp_quality_encoding layout) = 1 \<and> lp_quality_encoding layout = cl_quality_state_and_confidence lib))"

definition message_ok :: "('d, 'r, 's, 'p, 'v, 'q, 'x) ControlLib \<Rightarrow> ('d, 'r, 's, 'p, 'v, 'q) ControlMessage \<Rightarrow> bool" where
  "message_ok lib message =
     (case message of
        Cm_SessionProposal proposal \<Rightarrow> proposal_ok lib proposal
      | Cm_Error code reason \<Rightarrow> utf8_valid reason
      | Cm_Close code reason \<Rightarrow> utf8_valid reason
      | _ \<Rightarrow> True)"

definition control_lib_ok :: "('d, 'r, 's, 'p, 'v, 'q, 'x) ControlLib \<Rightarrow> bool" where
  "control_lib_ok lib =
     ((\<forall>d bs. cl_encode_descriptor lib d = Inr bs \<longrightarrow> cl_decode_descriptor lib bs = Inr d)
      \<and> (\<forall>s. cl_signal_new lib (cl_signal_get lib s) = Some s))"

lemma decode_proposal_at:
  assumes lib: "control_lib_ok lib" and ok: "proposal_ok lib proposal"
    and enc: "cl_encode_descriptor lib (spr_descriptor proposal) = Inr descriptor" "length descriptor < 2 ^ 32"
      "length (lp_extra_signals (spr_layout proposal)) < 2 ^ 16"
    and small: "ntp_small (proposal_payload lib proposal descriptor)"
  shows "decode_proposal lib (ntp_at [] (proposal_payload lib proposal descriptor))
    = Inr (proposal, ntp_at (proposal_payload lib proposal descriptor) [])"
proof -
  have sig: "\<forall>s. cl_signal_new lib (cl_signal_get lib s) = Some s" and dec: "cl_decode_descriptor lib descriptor = Inr (spr_descriptor proposal)"
    using lib enc(1) by (auto simp: control_lib_ok_def)
  have n: "unat (of_nat (length (lp_extra_signals (spr_layout proposal))) :: u16) = length (lp_extra_signals (spr_layout proposal))"
    using enc(3) by (simp add: unat_of_nat take_bit_nat_eq_self)
  show ?thesis
    using small ok enc(2) unfolding proposal_payload_def proposal_ok_def Let_def
    by (auto simp: decode_proposal_def word_at sized_at signals_at [OF sig] dec n word_at_end)
qed

text \<open>The payload of every message; the bytes of the descriptor are those the protocol library produced.\<close>

definition reason_payload :: "u16 \<Rightarrow> bytes \<Rightarrow> bytes" where
  "reason_payload code reason = to_be_bytes code @ to_be_bytes (of_nat (length reason) :: u16) @ reason"

definition message_payload ::
  "('d, 'r, 's, 'p, 'v, 'q, 'x) ControlLib \<Rightarrow> ('d, 'r, 's, 'p, 'v, 'q) ControlMessage \<Rightarrow> bytes \<Rightarrow> bytes" where
  "message_payload lib message descriptor =
     (case message of
        Cm_Hello hello \<Rightarrow>
          to_be_bytes (ph_minimum_version hello) @ to_be_bytes (ph_maximum_version hello)
          @ to_be_bytes (session_id_bytes (ph_link_session_id hello))
      | Cm_SessionProposal proposal \<Rightarrow> proposal_payload lib proposal descriptor
      | Cm_LayoutAccepted accept \<Rightarrow>
          to_be_bytes (la_layout_id accept) @ to_be_bytes (la_layout_hash accept)
          @ to_be_bytes (la_parameter_count accept) @ to_be_bytes (la_expected_payload_len accept)
      | Cm_LayoutConfirmed confirm \<Rightarrow> to_be_bytes (lc_layout_id confirm) @ to_be_bytes (lc_layout_hash confirm)
      | Cm_SessionReady session_id generation layout_id \<Rightarrow>
          to_be_bytes session_id @ to_be_bytes generation @ to_be_bytes layout_id
      | Cm_Command command \<Rightarrow> to_be_bytes (SessionCommand_code command)
      | Cm_ReceiverReport report \<Rightarrow>
          to_be_bytes (rp_received report) @ to_be_bytes (rp_dropped report) @ to_be_bytes (rp_stale report)
          @ to_be_bytes (rp_jitter_ns report) @ to_be_bytes (rp_result_age_ns report) @ to_be_bytes (rp_clock_uncertainty_ns report)
      | Cm_Ping receiver_send_ns \<Rightarrow> to_be_bytes receiver_send_ns
      | Cm_Pong receiver_send_ns producer_send_ns \<Rightarrow> to_be_bytes receiver_send_ns @ to_be_bytes producer_send_ns
      | Cm_GeometryRequest \<Rightarrow> []
      | Cm_Error code reason \<Rightarrow> reason_payload code reason
      | Cm_Close code reason \<Rightarrow> reason_payload code reason)"

text \<open>When encoding succeeds, and what the library contributed.\<close>

definition message_encodable :: "('d, 'r, 's, 'p, 'v, 'q, 'x) ControlLib \<Rightarrow> ('d, 'r, 's, 'p, 'v, 'q) ControlMessage \<Rightarrow> bytes \<Rightarrow> bool" where
  "message_encodable lib message descriptor =
     (case message of
        Cm_SessionProposal proposal \<Rightarrow>
          cl_encode_descriptor lib (spr_descriptor proposal) = Inr descriptor \<and> length descriptor < 2 ^ 32
          \<and> length (lp_extra_signals (spr_layout proposal)) < 2 ^ 16
      | Cm_Error code reason \<Rightarrow> length reason \<le> MAX_REASON_BYTES
      | Cm_Close code reason \<Rightarrow> length reason \<le> MAX_REASON_BYTES
      | _ \<Rightarrow> True)"

lemma write_string_eq:
  "NtpWriter_string (writer @ to_be_bytes code) reason = (Inr written :: ('x BindingError, NtpWriter) result)
     \<longleftrightarrow> length reason \<le> MAX_REASON_BYTES \<and> written = writer @ reason_payload code reason"
  by (auto simp: NtpWriter_string_def NtpWriter_word_def reason_payload_def try_word_def MAX_REASON_BYTES_def split: if_splits)

lemma encode_frame:
  assumes "ControlMessage_encode lib message = (Inr bs :: ('x BindingError, bytes) result)"
  obtains descriptor where "bs = ntp_frame (message_kind message) (message_payload lib message descriptor)"
    "message_encodable lib message descriptor"
proof -
  have "\<exists>descriptor. message_encodable lib message descriptor
      \<and> NtpWriter_finish (NtpWriter_new (message_kind message) @ message_payload lib message descriptor) = (Inr bs :: ('x BindingError, bytes) result)"
    using assms unfolding ControlMessage_encode_def Let_def message_payload_def message_encodable_def
    by (cases message)
      (auto simp: result_bind_eq_Inr encode_proposal_eq write_string_eq NtpWriter_word_def)
  then show thesis using that by (auto simp: finish_new)
qed

lemma command_code [simp]: "decode_command (SessionCommand_code command) = Inr command"
  by (cases command) (simp_all add: decode_command_def)

lemma decode_body_at:
  assumes lib: "control_lib_ok lib" and ok: "message_ok lib message" and enc: "message_encodable lib message descriptor"
    and small: "ntp_small (message_payload lib message descriptor)"
  shows "decode_body lib (message_kind message) (ntp_at [] (message_payload lib message descriptor))
    = Inr (message, ntp_at (message_payload lib message descriptor) [])"
proof (cases message)
  case (Cm_SessionProposal proposal)
  then show ?thesis using ok enc small decode_proposal_at [OF lib, of proposal descriptor]
    by (simp add: message_kind_def message_payload_def message_ok_def message_encodable_def decode_body_def)
next
  case (Cm_Hello hello)
  then show ?thesis using small
    by (cases "ph_link_session_id hello") (simp add: message_kind_def message_payload_def decode_body_def word_at word_at_end)
qed (use ok enc small in \<open>simp_all add: message_kind_def message_payload_def message_ok_def message_encodable_def
      decode_body_def word_at word_at_end string_at reason_payload_def\<close>)

lemma small_payload: "length (ntp_frame kind payload) \<le> MAX_NTP_CONTROL_BYTES \<Longrightarrow> ntp_small payload"
  by (simp add: ntp_small_def length_ntp_frame)

lemma decode_encoded:
  assumes "control_lib_ok lib" and "message_ok lib message"
    and "ControlMessage_encode lib message = (Inr bs :: ('x BindingError, bytes) result)" and "length bs \<le> MAX_NTP_CONTROL_BYTES"
  shows "ControlMessage_decode lib bs = Inr message"
proof -
  obtain descriptor where bs: "bs = ntp_frame (message_kind message) (message_payload lib message descriptor)"
    and enc: "message_encodable lib message descriptor"
    using assms(3) by (rule encode_frame)
  have "ntp_small (message_payload lib message descriptor)" using assms(4) bs small_payload by simp
  with assms(4) show ?thesis unfolding bs
    by (simp add: ControlMessage_decode_def framed_ntp_frame decode_body_at [OF assms(1,2) enc])
qed

lemma framed_wrong_length:
  assumes "length bs \<noteq> length (ntp_frame kind payload)" "length payload < 2 ^ 32"
    "take (min (length bs) 10) bs = take (min (length bs) 10) (ntp_frame kind payload)"
  shows "NtpReader_framed bs = Inl Be_InvalidControl"
proof (cases "length bs < 10")
  case False
  then have "take 4 (drop 6 bs) = take 4 (drop 6 (ntp_frame kind payload))"
    using arg_cong [OF assms(3), of "\<lambda>xs. take 4 (drop 6 xs)"] by (simp add: drop_take min_absorb2)
  then have "take 4 (drop 6 bs) = to_be_bytes (of_nat (length payload) :: u32)"
    by (simp add: ntp_frame_def NTP_CONTROL_MAGIC_def)
  moreover have "length bs \<noteq> 10 + length payload"
    using assms(1) by (simp add: length_ntp_frame)
  moreover have "unat (of_nat (length payload) :: u32) = length payload"
    using assms(2) by (simp add: unat_of_nat take_bit_nat_eq_self)
  ultimately show ?thesis
    using False by (auto simp: NtpReader_framed_def NTP_CONTROL_HEADER_LEN_def from_to_be_bytes)
qed (simp add: NtpReader_framed_def NTP_CONTROL_HEADER_LEN_def)

subsection \<open>Properties\<close>

text \<open>C33: every control message of the binding that is encoded within the control limit is decoded to the message
  it was: for a protocol library whose descriptor codec and signal identifiers round trip, and for a message
  the decoder's ranges admit. The framing is exact: the same bytes with anything appended, and every proper
  prefix of them, are refused as invalid, so a truncated or padded control message is never taken for
  another one.\<close>
theorem ntp_control_roundtrip:
  assumes "control_lib_ok lib" and "message_ok lib message"
    and "ControlMessage_encode lib message = (Inr bs :: ('x BindingError, bytes) result)" and "length bs \<le> MAX_NTP_CONTROL_BYTES"
  shows "ControlMessage_decode lib bs = Inr message
    \<and> (\<forall>tail. tail \<noteq> [] \<longrightarrow> ControlMessage_decode lib (bs @ tail) = Inl Be_InvalidControl)
    \<and> (\<forall>n < length bs. ControlMessage_decode lib (take n bs) = Inl Be_InvalidControl)"
proof -
  obtain descriptor where bs: "bs = ntp_frame (message_kind message) (message_payload lib message descriptor)" (is "_ = ntp_frame _ ?payload")
    and enc: "message_encodable lib message descriptor"
    using assms(3) by (rule encode_frame)
  have small: "ntp_small ?payload" using assms(4) bs small_payload by simp
  then have length: "length ?payload < 2 ^ 32" by (simp add: ntp_small_def MAX_NTP_CONTROL_BYTES_def)
  have "ControlMessage_decode lib bs = Inr message" using assms by (rule decode_encoded)
  moreover have "NtpReader_framed (bs @ tail) = (Inl Be_InvalidControl :: ('x BindingError, u8 \<times> NtpReader) result)" if "tail \<noteq> []" for tail
    using framed_wrong_length [OF _ length, of "bs @ tail" "message_kind message"] that bs by (simp add: length_ntp_frame min_def)
  moreover have "NtpReader_framed (take n bs) = (Inl Be_InvalidControl :: ('x BindingError, u8 \<times> NtpReader) result)" if "n < length bs" for n
    using framed_wrong_length [OF _ length, of "take n bs" "message_kind message"] that bs by (simp add: min.commute)
  ultimately show ?thesis by (simp add: ControlMessage_decode_def)
qed

definition demo_control_lib :: "(u8, u8, u16, u8, u8, u8, unit) ControlLib" where
  "demo_control_lib = \<lparr>cl_encode_descriptor = (\<lambda>d. Inr [d]), cl_decode_descriptor = (\<lambda>bs. case bs of [d] \<Rightarrow> Inr d | _ \<Rightarrow> Inl ()),
     cl_revisions = (\<lambda>d. d), cl_signal_get = (\<lambda>s. s), cl_signal_new = Some, cl_profile_code = (\<lambda>p. p), cl_profiles = (0, 1, 2, 3),
     cl_value_code = (\<lambda>v. v), cl_i16_normalized = 1, cl_quality_code = (\<lambda>q. q), cl_quality_none = 0,
     cl_quality_state_and_confidence = 1, cl_max_layout_signals = 4\<rparr>"

definition demo_proposal :: "(u8, u8, u16, u8, u8, u8) ControlMessage" where
  "demo_proposal = Cm_SessionProposal \<lparr>spr_descriptor = 9, spr_session_id = 3, spr_generation = 4, spr_layout_id = 7,
     spr_layout = \<lparr>lp_revisions = 9, lp_profile = 3, lp_base_layout_version = 1, lp_extra_signals = [76, 80], lp_value_encoding = 1,
       lp_quality_encoding = 1, lp_target_fps = 120\<rparr>,
     spr_topology = \<lparr>gt_schema_revision = 2, gt_topology_hash = 5, gt_landmark_count = 68\<rparr>\<rparr>"

lemma demo_control_lib_ok: "control_lib_ok demo_control_lib" "message_ok demo_control_lib demo_proposal"
  by (auto simp: control_lib_ok_def demo_control_lib_def demo_proposal_def message_ok_def proposal_ok_def decode_profile_def)

lemma demo_encoded:
  "ControlMessage_encode demo_control_lib demo_proposal
    = (Inr (ntp_frame 2 (message_payload demo_control_lib demo_proposal [9])) :: (unit BindingError, bytes) result)"
proof -
  have "encode_proposal demo_control_lib proposal writer = (Inr (writer @ proposal_payload demo_control_lib proposal [9]) :: (unit BindingError, NtpWriter) result)"
    if "demo_proposal = Cm_SessionProposal proposal" for proposal writer
    using that by (auto simp: encode_proposal_eq demo_proposal_def demo_control_lib_def)
  then show ?thesis
    by (simp add: ControlMessage_encode_def demo_proposal_def message_kind_def message_payload_def finish_new)
      (simp add: proposal_payload_def demo_control_lib_def signal_bytes_def)
qed

text \<open>C33 witness: a proposal with two extra signals, over a library whose descriptors and enumerations are bytes.\<close>
theorem ntp_control_roundtrip_witness:
  "\<exists>bs. ControlMessage_encode demo_control_lib demo_proposal = (Inr bs :: (unit BindingError, bytes) result)
    \<and> ControlMessage_decode demo_control_lib bs = Inr demo_proposal
    \<and> ControlMessage_decode demo_control_lib (bs @ [0]) = Inl Be_InvalidControl"
proof -
  let ?bs = "ntp_frame 2 (message_payload demo_control_lib demo_proposal [9])"
  have "length ?bs \<le> MAX_NTP_CONTROL_BYTES"
    by (simp add: length_ntp_frame message_payload_def demo_proposal_def proposal_payload_def demo_control_lib_def
        signal_bytes_def MAX_NTP_CONTROL_BYTES_def)
  then show ?thesis
    using demo_encoded ntp_control_roundtrip [OF demo_control_lib_ok demo_encoded] by auto
qed

end
