(* ===== verification/Link_Ntp_Publisher.thy ===== *)
theory Link_Ntp_Publisher
  imports Link_Ntp_Control Link_Ntp_Fragment Link_Ntp_Reliable Link_Ntp_Auth
begin

text \<open>
  The publishing end of the tracking binding, \<^verbatim>\<open>Publisher\<close> of \<^verbatim>\<open>ntp-mutsuki-link/src/lib.rs\<close>, and
  what it shares with the subscribing end: the queue of encoded control messages and its flushing over a
  control stream of the connection.

  A connection is a value \<open>'c\<close> with a record of the operations of the \<^verbatim>\<open>Connection\<close> trait. What the
  publisher calls of the tracking protocol library is a record of operations too; the parts of its values
  the binding does not look into are type parameters. Instants and durations are nanoseconds, read off the
  clock by the caller and passed in.
\<close>

subsection \<open>Stateful computations that may fail\<close>

text \<open>The \<^verbatim>\<open>?\<close> operator on a method that mutates: an error ends the computation and keeps the state.\<close>

definition and_then :: "('e, 'a) result \<times> 's \<Rightarrow> ('a \<Rightarrow> 's \<Rightarrow> ('e, 'b) result \<times> 's) \<Rightarrow> ('e, 'b) result \<times> 's" where
  "and_then m f = (case m of (Inl e, s) \<Rightarrow> (Inl e, s) | (Inr a, s) \<Rightarrow> f a s)"

lemma and_then_simps [simp]: "and_then (Inl e, s) f = (Inl e, s)" "and_then (Inr a, s) f = f a s"
  by (simp_all add: and_then_def)

lemma and_then_Inr: "and_then m f = (Inr b, t) \<longleftrightarrow> (\<exists>a s. m = (Inr a, s) \<and> f a s = (Inr b, t))"
  by (auto simp: and_then_def split: prod.splits sum.splits)

subsection \<open>Connections and the control queue\<close>

record 'c ConnectionOps =
  co_metadata :: "'c \<Rightarrow> ConnectionMetadata"
  co_max_datagram_payload :: "'c \<Rightarrow> nat option"
  co_try_send :: "'c send_op"
  co_try_receive :: "'c receive_op"
  co_try_send_control :: "'c send_op"
  co_try_receive_control :: "'c receive_op"
  co_try_send_latest :: "RealtimeDatagram \<Rightarrow> 'c \<Rightarrow> (TransportError, SendOutcome) result \<times> 'c"
  co_try_receive_realtime :: "'c \<Rightarrow> (TransportError, ReceivedRealtimeDatagram option) result \<times> 'c"

text \<open>\<^verbatim>\<open>nana.tracking.remote.v2\<close>\<close>

definition CONTROL_PROTOCOL :: bytes where
  "CONTROL_PROTOCOL = [110, 97, 110, 97, 46, 116, 114, 97, 99, 107, 105, 110, 103, 46, 114, 101, 109, 111, 116, 101, 46, 118, 50]"

definition ntp_protocol :: "(ProtocolRegistryError, ProtocolId) result" where
  "ntp_protocol = ProtocolId_new CONTROL_PROTOCOL"

lemma ntp_protocol_valid [simp]: "ntp_protocol = Inr (ProtocolId CONTROL_PROTOCOL)"
  unfolding ntp_protocol_def ProtocolId_new_def CONTROL_PROTOCOL_def by code_simp

definition transport_mode_of :: "'c ConnectionOps \<Rightarrow> 'c \<Rightarrow> TrackingTransportMode" where
  "transport_mode_of ops connection =
     (if co_max_datagram_payload ops connection \<noteq> None then Datagram else ReliableLatestOnly)"

definition queue_control ::
  "('d, 'r, 's, 'p, 'v, 'q, 'x) ControlLib \<Rightarrow> ('d, 'r, 's, 'p, 'v, 'q) ControlMessage \<Rightarrow> BindingConfig \<Rightarrow> bytes list
     \<Rightarrow> ('x BindingError, unit) result \<times> bytes list" where
  "queue_control lib message config outbox =
     (if length outbox \<ge> bc_max_pending_control config then (Inl Be_ControlLimit, outbox)
      else
        case ControlMessage_encode lib message of
          Inl e \<Rightarrow> (Inl e, outbox)
        | Inr encoded \<Rightarrow>
            if length encoded > bc_max_control_bytes config then (Inl Be_ControlLimit, outbox)
            else (Inr (), outbox @ [encoded]))"

fun flush_control ::
  "'c ConnectionOps \<Rightarrow> bytes list \<Rightarrow> 'c \<Rightarrow> ('x BindingError, unit) result \<times> bytes list \<times> 'c" where
  "flush_control ops [] connection = (Inr (), [], connection)"
| "flush_control ops (message # outbox) connection =
     (case Connection_open_control_stream (co_metadata ops connection) (projr ntp_protocol) of
        Inl e \<Rightarrow> (Inl (Be_Transport e), message # outbox, connection)
      | Inr stream \<Rightarrow>
          (case ControlStream_try_send (co_try_send_control ops) stream message connection of
             (Inr _, connection) \<Rightarrow> flush_control ops outbox connection
           | (Inl error, connection) \<Rightarrow>
               (if te_kind error = Te_WouldBlock then Inr () else Inl (Be_Transport error), message # outbox, connection)))"

definition receive_control ::
  "('d, 'r, 's, 'p, 'v, 'q, 'x) ControlLib \<Rightarrow> 'c ConnectionOps \<Rightarrow> BindingConfig \<Rightarrow> 'c
     \<Rightarrow> ('x BindingError, ('d, 'r, 's, 'p, 'v, 'q) ControlMessage option) result \<times> 'c" where
  "receive_control lib ops config connection =
     (case Connection_open_control_stream (co_metadata ops connection) (projr ntp_protocol) of
        Inl e \<Rightarrow> (Inl (Be_Transport e), connection)
      | Inr stream \<Rightarrow>
          (case ControlStream_try_receive (co_try_receive_control ops) stream connection of
             (Inr (Some bs), connection) \<Rightarrow>
               if length bs \<le> bc_max_control_bytes config
               then (result_bind (ControlMessage_decode lib bs) (\<lambda>message. Inr (Some message)), connection)
               else (Inl Be_ControlLimit, connection)
           | (Inr None, connection) \<Rightarrow> (Inr None, connection)
           | (Inl error, connection) \<Rightarrow>
               (if te_kind error = Te_WouldBlock then Inr None else Inl (Be_Transport error), connection)))"

subsection \<open>The publisher's state\<close>

record ('d, 'l) SessionDefinition =
  sd_descriptor :: 'd
  sd_session_id :: u128
  sd_generation :: u32
  sd_layout :: 'l
  sd_topology :: GeometryTopology

datatype PlaybackState = Ps_Stopped | Ps_Paused | Ps_Running

datatype PublisherEvent =
    Pe_HelloAccepted | Pe_LayoutAccepted | Pe_SessionReady | Pe_PlaybackChanged SessionCommand | Pe_ReceiverReport ReceiverReport
  | Pe_GeometryRequested | Pe_RemoteError u16 | Pe_RemoteClosed u16

record PublishOutcome =
  po_compact :: SendOutcome
  po_core :: FragmentBatchOutcome
  po_geometry :: "FragmentBatchOutcome option"

record 'v BoundNtpSession =
  bns_peer_id :: PeerId
  bns_link_session_id :: SessionId
  bns_ntp_session_id :: u128
  bns_generation :: u32
  bns_layout_id :: u32
  bns_layout_hash :: "256 word"
  bns_expected_frame_len :: u32
  bns_value_encoding :: 'v
  bns_target_fps :: u16
  bns_transport_mode :: TrackingTransportMode

record TrackingTelemetry =
  tt_reliable_pending :: nat
  tt_queue_replacements :: u64
  tt_rate_limited :: u64
  tt_malformed_frames :: u64
  tt_fuse_tripped :: bool
  tt_steady_buffer_growths :: u64
  tt_replay_dropped :: u64

definition TrackingTelemetry_default :: TrackingTelemetry where
  "TrackingTelemetry_default = \<lparr>tt_reliable_pending = 0, tt_queue_replacements = 0, tt_rate_limited = 0, tt_malformed_frames = 0,
     tt_fuse_tripped = False, tt_steady_buffer_growths = 0, tt_replay_dropped = 0\<rparr>"

text \<open>A tracking result, with the parts the binding reads, and the input of the compact codec.\<close>

record ('m, 'b) NanaTrackingResult =
  ntr_session_id :: u128
  ntr_generation :: u32
  ntr_sequence :: u64
  ntr_capture_timestamp_ns :: u64
  ntr_produced_timestamp_ns :: u64
  ntr_face_landmarks :: "'m list"
  ntr_body :: 'b

record 'a CompactFrameInput =
  cfi_session_id :: u128
  cfi_generation :: u32
  cfi_sequence :: u64
  cfi_capture_timestamp_ns :: u64
  cfi_produced_timestamp_ns :: u64
  cfi_samples :: "'a list"

text \<open>Layouts of the protocol library, and what the publisher calls of it. \<open>pl_rig_get\<close> is the sample of a
  signal in a result, as value, confidence and state of a compact sample. \<open>pl_encode_frame\<close> writes into a buffer
  and may have changed it when it fails.\<close>

record ('d, 'r, 's, 'p, 'v, 'q, 'x, 'l) LayoutLib =
  ll_negotiate :: "u32 \<Rightarrow> ('r, 's, 'p, 'v, 'q) LayoutProposal \<Rightarrow> 'd \<Rightarrow> ('x, 'l) result"
  ll_layout_id :: "'l \<Rightarrow> u32"
  ll_confirmation :: "'l \<Rightarrow> LayoutConfirm"
  ll_signals :: "'l \<Rightarrow> 's list"
  ll_frame_len :: "'l \<Rightarrow> nat"
  ll_proposal :: "'l \<Rightarrow> ('r, 's, 'p, 'v, 'q) LayoutProposal"
  ll_accept_confirmation :: "LayoutAccept \<Rightarrow> LayoutConfirm"

record ('d, 'r, 's, 'p, 'v, 'q, 'x, 'l, 'm, 'b, 'a) PublisherLib =
  pl_control :: "('d, 'r, 's, 'p, 'v, 'q, 'x) ControlLib"
  pl_layout :: "('d, 'r, 's, 'p, 'v, 'q, 'x, 'l) LayoutLib"
  pl_validate_result :: "'d \<Rightarrow> ('m, 'b) NanaTrackingResult \<Rightarrow> ('x, unit) result"
  pl_rig_get :: "('m, 'b) NanaTrackingResult \<Rightarrow> 's \<Rightarrow> 'a option"
  pl_unavailable :: 'a
  pl_encode_frame :: "'l \<Rightarrow> 'a CompactFrameInput \<Rightarrow> bytes \<Rightarrow> ('x, unit) result \<times> bytes"
  pl_encode_result :: "('m, 'b) NanaTrackingResult \<Rightarrow> ('x, bytes) result"

record ('c, 'd, 'l, 'a) Publisher =
  pub_connection :: 'c
  pub_authorization :: NtpAuthorization
  pub_transport_mode :: TrackingTransportMode
  pub_config :: BindingConfig
  pub_remote_hello :: bool
  pub_pending :: "('d, 'l) SessionDefinition option"
  pub_pending_accepted :: bool
  pub_active :: "('d, 'l) SessionDefinition option"
  pub_playback :: PlaybackState
  pub_outbox :: "bytes list"
  pub_compact_samples :: "'a list"
  pub_compact_bytes :: bytes
  pub_reliable :: ReliableLatestSender
  pub_reconfigure_times :: "Instant list"
  pub_frame_window_started :: Instant
  pub_frame_window_count :: u16
  pub_sustained_window_started :: Instant
  pub_sustained_frame_count :: u32
  pub_rate_limited :: u64
  pub_last_published_sequence :: "u64 option"
  pub_geometry_requested :: bool
  pub_last_report :: "ReceiverReport option"

definition Publisher_new ::
  "'c ConnectionOps \<Rightarrow> 'c \<Rightarrow> NtpAuthorization \<Rightarrow> BindingConfig \<Rightarrow> Instant \<Rightarrow> Instant
     \<Rightarrow> ('x BindingError, ('c, 'd, 'l, 'a) Publisher) result" where
  "Publisher_new ops connection authorization config now1 now2 =
     result_bind (BindingConfig_validate config) (\<lambda>config.
     result_bind (validate_connection_authorization (co_metadata ops connection) authorization Nr_Publisher) (\<lambda>_.
       if \<not> cm_reliable (co_metadata ops connection) then Inl Be_InvalidState
       else Inr \<lparr>pub_connection = connection, pub_authorization = authorization,
                 pub_transport_mode = transport_mode_of ops connection, pub_config = config, pub_remote_hello = False,
                 pub_pending = None, pub_pending_accepted = False, pub_active = None, pub_playback = Ps_Stopped, pub_outbox = [],
                 pub_compact_samples = [], pub_compact_bytes = [], pub_reliable = ReliableLatestSender_default,
                 pub_reconfigure_times = [], pub_frame_window_started = now1, pub_frame_window_count = 0,
                 pub_sustained_window_started = now2, pub_sustained_frame_count = 0, pub_rate_limited = 0,
                 pub_last_published_sequence = None, pub_geometry_requested = False, pub_last_report = None\<rparr>))"

text \<open>\<open>None\<close> is the panic of a frame length that does not fit.\<close>

definition bound_session ::
  "('d, 'r, 's, 'p, 'v, 'q, 'x, 'l) LayoutLib \<Rightarrow> NtpAuthorization \<Rightarrow> ('d, 'l) SessionDefinition \<Rightarrow> TrackingTransportMode
     \<Rightarrow> 'v BoundNtpSession option" where
  "bound_session lib authorization active transport_mode =
     (if ll_frame_len lib (sd_layout active) \<ge> 2 ^ 32 then None
      else Some \<lparr>bns_peer_id = nau_peer_id authorization, bns_link_session_id = nau_link_session_id authorization,
                 bns_ntp_session_id = sd_session_id active, bns_generation = sd_generation active,
                 bns_layout_id = ll_layout_id lib (sd_layout active),
                 bns_layout_hash = lc_layout_hash (ll_confirmation lib (sd_layout active)),
                 bns_expected_frame_len = of_nat (ll_frame_len lib (sd_layout active)),
                 bns_value_encoding = lp_value_encoding (ll_proposal lib (sd_layout active)),
                 bns_target_fps = lp_target_fps (ll_proposal lib (sd_layout active)), bns_transport_mode = transport_mode\<rparr>)"

definition Publisher_bound_session ::
  "('d, 'r, 's, 'p, 'v, 'q, 'x, 'l) LayoutLib \<Rightarrow> ('c, 'd, 'l, 'a) Publisher \<Rightarrow> 'v BoundNtpSession option option" where
  "Publisher_bound_session lib self =
     (case pub_active self of
        None \<Rightarrow> Some None
      | Some active \<Rightarrow> map_option Some (bound_session lib (pub_authorization self) active (pub_transport_mode self)))"

definition Publisher_telemetry :: "('c, 'd, 'l, 'a) Publisher \<Rightarrow> TrackingTelemetry" where
  "Publisher_telemetry self = TrackingTelemetry_default
     \<lparr>tt_reliable_pending := ReliableLatestSender_pending (pub_reliable self),
      tt_queue_replacements := rls_replacements (pub_reliable self), tt_rate_limited := pub_rate_limited self,
      tt_steady_buffer_growths := rls_buffer_growths (pub_reliable self)\<rparr>"

subsection \<open>Limits\<close>

definition seconds :: "nat \<Rightarrow> nat" where "seconds n = n * 1000000000"

text \<open>\<^verbatim>\<open>now.checked_sub(60 s).unwrap_or(now)\<close> and the loop that drops what is not after it.\<close>

definition reconfigure_recent :: "Instant \<Rightarrow> Instant list \<Rightarrow> Instant list" where
  "reconfigure_recent now recents =
     dropWhile (\<lambda>timestamp. timestamp \<le> (if now \<ge> seconds 60 then now - seconds 60 else now)) recents"

definition Publisher_note_reconfigure ::
  "Instant \<Rightarrow> ('c, 'd, 'l, 'a) Publisher \<Rightarrow> ('x BindingError, unit) result \<times> ('c, 'd, 'l, 'a) Publisher" where
  "Publisher_note_reconfigure now self =
     (let recents = reconfigure_recent now (pub_reconfigure_times self);
          self = self\<lparr>pub_reconfigure_times := recents\<rparr>
      in if length recents \<ge> unat (bc_max_reconfigure_per_minute (pub_config self))
         then (Inl Be_RateLimited, self\<lparr>pub_rate_limited := sat_add (pub_rate_limited self) 1\<rparr>)
         else (Inr (), self\<lparr>pub_reconfigure_times := recents @ [now]\<rparr>))"

definition Publisher_note_frame ::
  "Instant \<Rightarrow> u16 \<Rightarrow> ('c, 'd, 'l, 'a) Publisher \<Rightarrow> ('x BindingError, unit) result \<times> ('c, 'd, 'l, 'a) Publisher" where
  "Publisher_note_frame now target_fps self =
     (let self = (if now - pub_frame_window_started self \<ge> seconds 1
                  then self\<lparr>pub_frame_window_started := now, pub_frame_window_count := 0\<rparr> else self)
      in if pub_frame_window_count self \<ge> bc_max_burst_fps (pub_config self)
         then (Inl Be_RateLimited, self\<lparr>pub_rate_limited := sat_add (pub_rate_limited self) 1\<rparr>)
         else
           let self = (if now - pub_sustained_window_started self \<ge> seconds 10
                       then self\<lparr>pub_sustained_window_started := now, pub_sustained_frame_count := 0\<rparr> else self);
               sustained_limit = sat_mul (ucast target_fps) 10
           in if pub_sustained_frame_count self \<ge> sustained_limit
              then (Inl Be_RateLimited, self\<lparr>pub_rate_limited := sat_add (pub_rate_limited self) 1\<rparr>)
              else (Inr (), self\<lparr>pub_frame_window_count := sat_add (pub_frame_window_count self) 1,
                                 pub_sustained_frame_count := sat_add (pub_sustained_frame_count self) 1\<rparr>))"

subsection \<open>Control messages\<close>

definition Publisher_flush_control ::
  "'c ConnectionOps \<Rightarrow> ('c, 'd, 'l, 'a) Publisher \<Rightarrow> ('x BindingError, unit) result \<times> ('c, 'd, 'l, 'a) Publisher" where
  "Publisher_flush_control ops self =
     (case flush_control ops (pub_outbox self) (pub_connection self) of
        (r, outbox, connection) \<Rightarrow> (r, self\<lparr>pub_outbox := outbox, pub_connection := connection\<rparr>))"

definition Publisher_queue_control ::
  "('d, 'r, 's, 'p, 'v, 'q, 'x) ControlLib \<Rightarrow> ('d, 'r, 's, 'p, 'v, 'q) ControlMessage \<Rightarrow> ('c, 'd, 'l, 'a) Publisher
     \<Rightarrow> ('x BindingError, unit) result \<times> ('c, 'd, 'l, 'a) Publisher" where
  "Publisher_queue_control lib message self =
     (case queue_control lib message (pub_config self) (pub_outbox self) of (r, outbox) \<Rightarrow> (r, self\<lparr>pub_outbox := outbox\<rparr>))"

definition Publisher_flush_reliable ::
  "'c ConnectionOps \<Rightarrow> ('c, 'd, 'l, 'a) Publisher \<Rightarrow> ('x BindingError, unit) result \<times> ('c, 'd, 'l, 'a) Publisher" where
  "Publisher_flush_reliable ops self =
     (case ReliableLatestSender_flush (co_try_send ops) (pub_reliable self) (pub_connection self) of
        (r, reliable, connection) \<Rightarrow> (r, self\<lparr>pub_reliable := reliable, pub_connection := connection\<rparr>))"

definition Publisher_receive_control ::
  "('d, 'r, 's, 'p, 'v, 'q, 'x) ControlLib \<Rightarrow> 'c ConnectionOps \<Rightarrow> ('c, 'd, 'l, 'a) Publisher
     \<Rightarrow> ('x BindingError, ('d, 'r, 's, 'p, 'v, 'q) ControlMessage option) result \<times> ('c, 'd, 'l, 'a) Publisher" where
  "Publisher_receive_control lib ops self =
     (case receive_control lib ops (pub_config self) (pub_connection self) of
        (r, connection) \<Rightarrow> (r, self\<lparr>pub_connection := connection\<rparr>))"

definition Publisher_try_send_hello ::
  "('d, 'r, 's, 'p, 'v, 'q, 'x) ControlLib \<Rightarrow> 'c ConnectionOps \<Rightarrow> ('c, 'd, 'l, 'a) Publisher
     \<Rightarrow> ('x BindingError, unit) result \<times> ('c, 'd, 'l, 'a) Publisher" where
  "Publisher_try_send_hello lib ops self =
     and_then (Publisher_queue_control lib (Cm_Hello (ProtocolHello_new (nau_link_session_id (pub_authorization self)))) self)
       (\<lambda>_. Publisher_flush_control ops)"

definition Publisher_publish_descriptor ::
  "('d, 'r, 's, 'p, 'v, 'q, 'x, 'l, 'm, 'b, 'a) PublisherLib \<Rightarrow> 'c ConnectionOps \<Rightarrow> ('d, 'r, 's, 'p, 'v, 'q) SessionProposal
     \<Rightarrow> Instant \<Rightarrow> ('c, 'd, 'l, 'a) Publisher \<Rightarrow> ('x BindingError, unit) result \<times> ('c, 'd, 'l, 'a) Publisher" where
  "Publisher_publish_descriptor lib ops proposal now self =
     (if \<not> pub_remote_hello self \<or> pub_pending self \<noteq> None then (Inl Be_InvalidState, self)
      else if (case pub_active self of
                 None \<Rightarrow> False
               | Some active \<Rightarrow> sd_session_id active = spr_session_id proposal \<and> spr_generation proposal \<le> sd_generation active)
      then (Inl Be_InvalidState, self)
      else if lp_target_fps (spr_layout proposal) = 0 \<or> lp_target_fps (spr_layout proposal) > bc_max_target_fps (pub_config self)
      then (Inl Be_RateLimited, self)
      else
        and_then (if pub_active self \<noteq> None then Publisher_note_reconfigure now self else (Inr (), self)) (\<lambda>_ self.
        and_then (result_map_err Be_Layout (ll_negotiate (pl_layout lib) (spr_layout_id proposal) (spr_layout proposal) (spr_descriptor proposal)), self)
          (\<lambda>active_layout self.
        and_then (Publisher_queue_control (pl_control lib) (Cm_SessionProposal proposal) self) (\<lambda>_ self.
          Publisher_flush_control ops
            (self\<lparr>pub_pending := Some \<lparr>sd_descriptor = spr_descriptor proposal, sd_session_id = spr_session_id proposal,
                    sd_generation = spr_generation proposal, sd_layout = active_layout, sd_topology = spr_topology proposal\<rparr>,
                  pub_pending_accepted := False\<rparr>)))))"

text \<open>What a received message does to the publisher; \<open>None\<close> is the answer to a ping, which reports no event.\<close>

definition Publisher_layout_accepted ::
  "('d, 'r, 's, 'p, 'v, 'q, 'x, 'l, 'm, 'b, 'a) PublisherLib \<Rightarrow> LayoutAccept \<Rightarrow> ('c, 'd, 'l, 'a) Publisher
     \<Rightarrow> ('x BindingError, PublisherEvent option) result \<times> ('c, 'd, 'l, 'a) Publisher" where
  "Publisher_layout_accepted lib accept self =
     (if pub_pending_accepted self then (Inl Be_InvalidState, self)
      else
        case pub_pending self of
          None \<Rightarrow> (Inl Be_InvalidState, self)
        | Some pending \<Rightarrow>
            if ll_accept_confirmation (pl_layout lib) accept \<noteq> ll_confirmation (pl_layout lib) (sd_layout pending)
               \<or> unat (la_parameter_count accept) \<noteq> length (ll_signals (pl_layout lib) (sd_layout pending))
               \<or> unat (la_expected_payload_len accept) \<noteq> ll_frame_len (pl_layout lib) (sd_layout pending)
            then (Inl Be_InvalidControl, self)
            else
              and_then (Publisher_queue_control (pl_control lib) (Cm_LayoutConfirmed (ll_accept_confirmation (pl_layout lib) accept)) self)
                (\<lambda>_ self. (Inr (Some Pe_LayoutAccepted), self\<lparr>pub_pending_accepted := True\<rparr>)))"

definition vec_resize :: "nat \<Rightarrow> 'a \<Rightarrow> 'a list \<Rightarrow> 'a list" where
  "vec_resize n x xs = take n xs @ replicate (n - length xs) x"

definition Publisher_session_ready ::
  "('d, 'r, 's, 'p, 'v, 'q, 'x, 'l, 'm, 'b, 'a) PublisherLib \<Rightarrow> u128 \<Rightarrow> u32 \<Rightarrow> u32 \<Rightarrow> ('c, 'd, 'l, 'a) Publisher
     \<Rightarrow> ('x BindingError, PublisherEvent option) result \<times> ('c, 'd, 'l, 'a) Publisher" where
  "Publisher_session_ready lib session_id generation layout_id self =
     (case pub_pending self of
        None \<Rightarrow> (Inl Be_InvalidState, self)
      | Some pending \<Rightarrow>
          if \<not> pub_pending_accepted self \<or> sd_session_id pending \<noteq> session_id \<or> sd_generation pending \<noteq> generation
             \<or> ll_layout_id (pl_layout lib) (sd_layout pending) \<noteq> layout_id
          then (Inl Be_InvalidControl, self)
          else (Inr (Some Pe_SessionReady),
                self\<lparr>pub_pending := None, pub_pending_accepted := False,
                     pub_compact_samples := replicate (length (ll_signals (pl_layout lib) (sd_layout pending))) (pl_unavailable lib),
                     pub_compact_bytes := vec_resize (ll_frame_len (pl_layout lib) (sd_layout pending)) 0 (pub_compact_bytes self),
                     pub_active := Some pending, pub_last_published_sequence := None, pub_playback := Ps_Paused\<rparr>))"

definition playback_after :: "SessionCommand \<Rightarrow> PlaybackState" where
  "playback_after command =
     (case command of Sc_Start \<Rightarrow> Ps_Running | Sc_Resume \<Rightarrow> Ps_Running | Sc_Pause \<Rightarrow> Ps_Paused | Sc_Stop \<Rightarrow> Ps_Stopped)"

definition Publisher_handle_control ::
  "('d, 'r, 's, 'p, 'v, 'q, 'x, 'l, 'm, 'b, 'a) PublisherLib \<Rightarrow> u64 \<Rightarrow> ('d, 'r, 's, 'p, 'v, 'q) ControlMessage
     \<Rightarrow> ('c, 'd, 'l, 'a) Publisher \<Rightarrow> ('x BindingError, PublisherEvent option) result \<times> ('c, 'd, 'l, 'a) Publisher" where
  "Publisher_handle_control lib producer_now_ns message self =
     (case message of
        Cm_Hello hello \<Rightarrow>
          (case validate_hello hello (nau_link_session_id (pub_authorization self)) of
             Inl e \<Rightarrow> (Inl e, self)
           | Inr _ \<Rightarrow> (Inr (Some Pe_HelloAccepted), self\<lparr>pub_remote_hello := True\<rparr>))
      | Cm_LayoutAccepted accept \<Rightarrow> Publisher_layout_accepted lib accept self
      | Cm_SessionReady session_id generation layout_id \<Rightarrow> Publisher_session_ready lib session_id generation layout_id self
      | Cm_Command command \<Rightarrow>
          if pub_active self = None then (Inl Be_InvalidState, self)
          else (Inr (Some (Pe_PlaybackChanged command)), self\<lparr>pub_playback := playback_after command\<rparr>)
      | Cm_Ping receiver_send_ns \<Rightarrow>
          and_then (Publisher_queue_control (pl_control lib) (Cm_Pong receiver_send_ns producer_now_ns) self) (\<lambda>_ self. (Inr None, self))
      | Cm_ReceiverReport report \<Rightarrow> (Inr (Some (Pe_ReceiverReport report)), self\<lparr>pub_last_report := Some report\<rparr>)
      | Cm_GeometryRequest \<Rightarrow> (Inr (Some Pe_GeometryRequested), self\<lparr>pub_geometry_requested := True\<rparr>)
      | Cm_Error code reason \<Rightarrow> (Inr (Some (Pe_RemoteError code)), self)
      | Cm_Close code reason \<Rightarrow> (Inr (Some (Pe_RemoteClosed code)), self)
      | _ \<Rightarrow> (Inl Be_InvalidControl, self))"

definition Publisher_poll_control ::
  "('d, 'r, 's, 'p, 'v, 'q, 'x, 'l, 'm, 'b, 'a) PublisherLib \<Rightarrow> 'c ConnectionOps \<Rightarrow> u64 \<Rightarrow> ('c, 'd, 'l, 'a) Publisher
     \<Rightarrow> ('x BindingError, PublisherEvent option) result \<times> ('c, 'd, 'l, 'a) Publisher" where
  "Publisher_poll_control lib ops producer_now_ns self =
     and_then (Publisher_flush_control ops self) (\<lambda>_ self.
     and_then (if pub_transport_mode self = ReliableLatestOnly then Publisher_flush_reliable ops self else (Inr (), self)) (\<lambda>_ self.
     and_then (Publisher_receive_control (pl_control lib) ops self) (\<lambda>message self.
       case message of
         None \<Rightarrow> (Inr None, self)
       | Some message \<Rightarrow>
           and_then (Publisher_handle_control lib producer_now_ns message self) (\<lambda>event self.
           and_then (Publisher_flush_control ops self) (\<lambda>_ self. (Inr event, self))))))"

subsection \<open>Publishing a result\<close>

fun fill_samples :: "('s \<Rightarrow> 'a option) \<Rightarrow> 'a list \<Rightarrow> 's list \<Rightarrow> bool \<times> 'a list" where
  "fill_samples rig_get (target # targets) (signal # signals) =
     (case rig_get signal of
        None \<Rightarrow> (False, target # targets)
      | Some sample \<Rightarrow> (case fill_samples rig_get targets signals of (ok, targets) \<Rightarrow> (ok, sample # targets)))"
| "fill_samples rig_get targets signals = (True, targets)"

definition Publisher_encode_compact ::
  "('d, 'r, 's, 'p, 'v, 'q, 'x, 'l, 'm, 'b, 'a) PublisherLib \<Rightarrow> ('d, 'l) SessionDefinition \<Rightarrow> ('m, 'b) NanaTrackingResult
     \<Rightarrow> ('c, 'd, 'l, 'a) Publisher \<Rightarrow> ('x BindingError, unit) result \<times> ('c, 'd, 'l, 'a) Publisher" where
  "Publisher_encode_compact lib active result self =
     (case fill_samples (pl_rig_get lib result) (pub_compact_samples self) (ll_signals (pl_layout lib) (sd_layout active)) of
        (ok, samples) \<Rightarrow>
          let self = self\<lparr>pub_compact_samples := samples\<rparr> in
          if \<not> ok then (Inl Be_InvalidState, self)
          else
            case pl_encode_frame lib (sd_layout active)
                   \<lparr>cfi_session_id = ntr_session_id result, cfi_generation = ntr_generation result, cfi_sequence = ntr_sequence result,
                    cfi_capture_timestamp_ns = ntr_capture_timestamp_ns result,
                    cfi_produced_timestamp_ns = ntr_produced_timestamp_ns result, cfi_samples = samples\<rparr> (pub_compact_bytes self) of
              (r, compact_bytes) \<Rightarrow> (result_map_err Be_Compact r, self\<lparr>pub_compact_bytes := compact_bytes\<rparr>))"

definition core_wire_of ::
  "('d, 'r, 's, 'p, 'v, 'q, 'x, 'l, 'm, 'b, 'a) PublisherLib \<Rightarrow> ('m, 'b) NanaTrackingResult \<Rightarrow> ('x BindingError, bytes) result" where
  "core_wire_of lib result =
     result_map_err Be_Codec
       (if ntr_face_landmarks result = [] then pl_encode_result lib result
        else pl_encode_result lib (result\<lparr>ntr_face_landmarks := []\<rparr>))"

definition Publisher_geometry_wire ::
  "('d, 'r, 's, 'p, 'v, 'q, 'x, 'l, 'm, 'b, 'a) PublisherLib \<Rightarrow> ('m, 'b) NanaTrackingResult \<Rightarrow> ('c, 'd, 'l, 'a) Publisher
     \<Rightarrow> ('x BindingError, bytes option) result \<times> ('c, 'd, 'l, 'a) Publisher" where
  "Publisher_geometry_wire lib result self =
     (let cadence_due = (case bc_geometry_cadence (pub_config self) of
            None \<Rightarrow> False | Some cadence \<Rightarrow> ntr_sequence result mod cadence = 0);
          send_geometry = (pub_geometry_requested self \<or> cadence_due)
      in if send_geometry
         then (result_bind (result_map_err Be_Codec (pl_encode_result lib result)) (\<lambda>wire. Inr (Some wire)),
               self\<lparr>pub_geometry_requested := False\<rparr>)
         else (Inr None, self))"

definition Publisher_enqueue ::
  "(nat \<Rightarrow> nat \<Rightarrow> nat) \<Rightarrow> RealtimeFlowId \<Rightarrow> RealtimePriority \<Rightarrow> ('m, 'b) NanaTrackingResult \<Rightarrow> bytes \<Rightarrow> ('c, 'd, 'l, 'a) Publisher
     \<Rightarrow> ('x BindingError, SendOutcome) result \<times> ('c, 'd, 'l, 'a) Publisher" where
  "Publisher_enqueue reserve flow priority result payload self =
     (case ReliableLatestSender_enqueue reserve flow (ntr_generation result) (ntr_sequence result) priority payload
             (bc_max_tracking_frame_bytes (pub_config self)) (pub_reliable self) of
        (r, reliable) \<Rightarrow> (r, self\<lparr>pub_reliable := reliable\<rparr>))"

definition Publisher_publish_reliable ::
  "(nat \<Rightarrow> nat \<Rightarrow> nat) \<Rightarrow> 'c ConnectionOps \<Rightarrow> ('m, 'b) NanaTrackingResult \<Rightarrow> bytes \<Rightarrow> bytes option \<Rightarrow> ('c, 'd, 'l, 'a) Publisher
     \<Rightarrow> ('x BindingError, PublishOutcome) result \<times> ('c, 'd, 'l, 'a) Publisher" where
  "Publisher_publish_reliable reserve ops result core_wire geometry_wire self =
     and_then (Publisher_flush_reliable ops self) (\<lambda>_ self.
     and_then (Publisher_enqueue reserve COMPACT_RIG_FLOW Rt_Critical result (pub_compact_bytes self) self) (\<lambda>compact self.
     and_then (Publisher_enqueue reserve CORE_RESULT_FLOW Rt_High result core_wire self) (\<lambda>core self.
     and_then (case geometry_wire of
                 None \<Rightarrow> (Inr None, self)
               | Some wire \<Rightarrow>
                   and_then (Publisher_enqueue reserve GEOMETRY_FLOW Rt_Disposable result wire self)
                     (\<lambda>outcome self. (Inr (Some (single_frame_batch outcome)), self))) (\<lambda>geometry self.
     and_then (Publisher_flush_reliable ops self) (\<lambda>_ self.
       (Inr \<lparr>po_compact = compact, po_core = single_frame_batch core, po_geometry = geometry\<rparr>,
        self\<lparr>pub_last_published_sequence := Some (ntr_sequence result)\<rparr>))))))"

definition Publisher_send_fragmented ::
  "'c ConnectionOps \<Rightarrow> RealtimeFlowId \<Rightarrow> RealtimePriority \<Rightarrow> Instant \<Rightarrow> ('m, 'b) NanaTrackingResult \<Rightarrow> bytes \<Rightarrow> ('c, 'd, 'l, 'a) Publisher
     \<Rightarrow> ('x BindingError, FragmentBatchOutcome) result \<times> ('c, 'd, 'l, 'a) Publisher" where
  "Publisher_send_fragmented ops flow priority deadline result payload self =
     (case send_fragmented (co_try_send_latest ops) (co_max_datagram_payload ops (pub_connection self))
             \<lparr>fs_flow = flow, fs_generation = ntr_generation result, fs_sequence = ntr_sequence result, fs_deadline = deadline,
              fs_priority = priority, fs_payload = payload, fs_config = pub_config self\<rparr> (pub_connection self) of
        (r, connection) \<Rightarrow> (r, self\<lparr>pub_connection := connection\<rparr>))"

definition Publisher_publish_datagrams ::
  "'c ConnectionOps \<Rightarrow> Instant \<Rightarrow> ('m, 'b) NanaTrackingResult \<Rightarrow> bytes \<Rightarrow> bytes option \<Rightarrow> ('c, 'd, 'l, 'a) Publisher
     \<Rightarrow> ('x BindingError, PublishOutcome) result \<times> ('c, 'd, 'l, 'a) Publisher" where
  "Publisher_publish_datagrams ops deadline result core_wire geometry_wire self =
     (case co_max_datagram_payload ops (pub_connection self) of
        None \<Rightarrow> (Inl Be_DatagramsUnsupported, self)
      | Some max_payload \<Rightarrow>
          if length (pub_compact_bytes self) > max_payload then (Inl Be_PayloadLimit, self)
          else
            case co_try_send_latest ops
                   \<lparr>rd_flow = COMPACT_RIG_FLOW, rd_generation = ntr_generation result, rd_sequence = ntr_sequence result,
                    rd_deadline = deadline, rd_priority = Rt_Critical, rd_payload = pub_compact_bytes self\<rparr> (pub_connection self) of
              (r, connection) \<Rightarrow>
                and_then (result_map_err Be_Transport r, self\<lparr>pub_connection := connection\<rparr>) (\<lambda>compact self.
                and_then (Publisher_send_fragmented ops CORE_RESULT_FLOW Rt_High deadline result core_wire self) (\<lambda>core self.
                and_then (case geometry_wire of
                            None \<Rightarrow> (Inr None, self)
                          | Some wire \<Rightarrow>
                              and_then (Publisher_send_fragmented ops GEOMETRY_FLOW Rt_Disposable deadline result wire self)
                                (\<lambda>outcome self. (Inr (Some outcome), self))) (\<lambda>geometry self.
                  (Inr \<lparr>po_compact = compact, po_core = core, po_geometry = geometry\<rparr>,
                   self\<lparr>pub_last_published_sequence := Some (ntr_sequence result)\<rparr>)))))"

text \<open>The first \<^verbatim>\<open>now\<close> is read for the limits, the second for the deadline.\<close>

definition Publisher_try_send_latest ::
  "('d, 'r, 's, 'p, 'v, 'q, 'x, 'l, 'm, 'b, 'a) PublisherLib \<Rightarrow> (nat \<Rightarrow> nat \<Rightarrow> nat) \<Rightarrow> 'c ConnectionOps \<Rightarrow> Instant \<Rightarrow> Instant
     \<Rightarrow> ('m, 'b) NanaTrackingResult \<Rightarrow> ('c, 'd, 'l, 'a) Publisher \<Rightarrow> ('x BindingError, PublishOutcome) result \<times> ('c, 'd, 'l, 'a) Publisher" where
  "Publisher_try_send_latest lib reserve ops now1 now2 result self =
     (if pub_playback self \<noteq> Ps_Running then (Inl Be_InvalidState, self)
      else
        case pub_active self of
          None \<Rightarrow> (Inl Be_InvalidState, self)
        | Some active \<Rightarrow>
            and_then (Publisher_note_frame now1 (lp_target_fps (ll_proposal (pl_layout lib) (sd_layout active))) self) (\<lambda>_ self.
              if ntr_session_id result \<noteq> sd_session_id active \<or> ntr_generation result \<noteq> sd_generation active
              then (Inl Be_InvalidState, self)
              else if (case pub_last_published_sequence self of None \<Rightarrow> False | Some sequence \<Rightarrow> ntr_sequence result \<le> sequence)
              then (Inl Be_ReplayOrDuplicate, self)
              else
                and_then (result_map_err Be_Contract (pl_validate_result lib (sd_descriptor active) result), self) (\<lambda>_ self.
                and_then (Publisher_encode_compact lib active result self) (\<lambda>_ self.
                and_then (core_wire_of lib result, self) (\<lambda>core_wire self.
                and_then (Publisher_geometry_wire lib result self) (\<lambda>geometry_wire self.
                  if pub_transport_mode self = ReliableLatestOnly
                  then Publisher_publish_reliable reserve ops result core_wire geometry_wire self
                  else Publisher_publish_datagrams ops (now2 + bc_result_deadline (pub_config self)) result core_wire geometry_wire self))))))"

definition Publisher_reset_for_reconnect ::
  "'c ConnectionOps \<Rightarrow> 'c \<Rightarrow> NtpAuthorization \<Rightarrow> Instant \<Rightarrow> Instant \<Rightarrow> ('c, 'd, 'l, 'a) Publisher
     \<Rightarrow> ('x BindingError, unit) result \<times> ('c, 'd, 'l, 'a) Publisher" where
  "Publisher_reset_for_reconnect ops connection authorization now1 now2 self =
     (case validate_connection_authorization (co_metadata ops connection) authorization Nr_Publisher of
        Inl e \<Rightarrow> (Inl e, self)
      | Inr _ \<Rightarrow>
          if nau_link_session_id authorization = nau_link_session_id (pub_authorization self)
          then (Inl Be_SessionBindingMismatch, self)
          else
            (Inr (), self\<lparr>pub_connection := connection, pub_authorization := authorization,
               pub_transport_mode := transport_mode_of ops connection, pub_remote_hello := False, pub_pending := None,
               pub_pending_accepted := False, pub_active := None, pub_playback := Ps_Stopped, pub_outbox := [],
               pub_reliable := ReliableLatestSender_clear (pub_reliable self), pub_reconfigure_times := [],
               pub_frame_window_started := now1, pub_frame_window_count := 0, pub_sustained_window_started := now2,
               pub_sustained_frame_count := 0, pub_rate_limited := 0, pub_last_published_sequence := None,
               pub_geometry_requested := False, pub_last_report := None\<rparr>))"

end
