(* ===== verification/Link_Ntp_Scripted.thy ===== *)
theory Link_Ntp_Scripted
  imports Link_Ntp_Publisher
begin

text \<open>
  A connection that replays a script, and a small protocol library: the concrete instance on which the
  properties of the two ends of the tracking binding are applied. The connection is reliable, has no
  datagrams, delivers the scripted control messages and data frames in order and accepts everything that
  is sent.
\<close>

type_synonym demo_message = "(u8, u8, u16, u8, u8, u8) ControlMessage"
type_synonym demo_layout = "u32 \<times> (u8, u16, u8, u8, u8) LayoutProposal"
type_synonym demo_result = "(u8, unit) NanaTrackingResult"

record script =
  sc_control :: "demo_message list"
  sc_data :: "bytes list"

definition script_bytes :: "demo_message \<Rightarrow> bytes" where
  "script_bytes message = projr (ControlMessage_encode demo_control_lib message :: (unit BindingError, bytes) result)"

definition script_framed :: "demo_message \<Rightarrow> bytes" where
  "script_framed message = projr (control_stream_frame (projr ntp_protocol) (script_bytes message))"

definition script_metadata :: ConnectionMetadata where
  "script_metadata = \<lparr>cm_local_endpoint = EndpointId 1, cm_remote_endpoint = EndpointId 2, cm_peer_hint = Some (PeerId 9),
     cm_reliable = True, cm_datagrams = False\<rparr>"

definition script_ops :: "script ConnectionOps" where
  "script_ops = \<lparr>co_metadata = (\<lambda>c. script_metadata), co_max_datagram_payload = (\<lambda>c. None),
     co_try_send = (\<lambda>message c. (Inr (), c)),
     co_try_receive = (\<lambda>c. case sc_data c of [] \<Rightarrow> (Inr None, c) | bs # rest \<Rightarrow> (Inr (Some bs), c\<lparr>sc_data := rest\<rparr>)),
     co_try_send_control = (\<lambda>message c. (Inr (), c)),
     co_try_receive_control =
       (\<lambda>c. case sc_control c of [] \<Rightarrow> (Inr None, c) | message # rest \<Rightarrow> (Inr (Some (script_framed message)), c\<lparr>sc_control := rest\<rparr>)),
     co_try_send_latest = (\<lambda>datagram c. (Inr So_Unsupported, c)),
     co_try_receive_realtime = (\<lambda>c. (Inr None, c))\<rparr>"

definition script_authorization :: "NtpRole \<Rightarrow> NtpAuthorization" where
  "script_authorization role = \<lparr>nau_peer_id = PeerId 9, nau_link_session_id = SessionId 5, nau_key_epoch = 1, nau_grant_revision = 1,
     nau_role = role\<rparr>"

definition demo_layout_lib :: "(u8, u8, u16, u8, u8, u8, unit, demo_layout) LayoutLib" where
  "demo_layout_lib = \<lparr>ll_negotiate = (\<lambda>layout_id proposal d. Inr (layout_id, proposal)), ll_layout_id = fst,
     ll_confirmation = (\<lambda>l. \<lparr>lc_layout_id = fst l, lc_layout_hash = 6\<rparr>), ll_signals = (\<lambda>l. lp_extra_signals (snd l)),
     ll_frame_len = (\<lambda>l. 1), ll_proposal = snd,
     ll_accept_confirmation = (\<lambda>accept. \<lparr>lc_layout_id = la_layout_id accept, lc_layout_hash = la_layout_hash accept\<rparr>)\<rparr>"

text \<open>The messages of a negotiation of the demo proposal.\<close>

definition demo_hello :: demo_message where
  "demo_hello = Cm_Hello (ProtocolHello_new (SessionId 5))"

definition demo_accepted :: demo_message where
  "demo_accepted = Cm_LayoutAccepted \<lparr>la_layout_id = 7, la_layout_hash = 6, la_parameter_count = 2, la_expected_payload_len = 1\<rparr>"

definition demo_confirmed :: demo_message where
  "demo_confirmed = Cm_LayoutConfirmed \<lparr>lc_layout_id = 7, lc_layout_hash = 6\<rparr>"

definition demo_ready :: demo_message where
  "demo_ready = Cm_SessionReady 3 4 7"

definition demo_start :: demo_message where
  "demo_start = Cm_Command Sc_Start"

definition demo_session_proposal :: "(u8, u8, u16, u8, u8, u8) SessionProposal" where
  "demo_session_proposal = (case demo_proposal of Cm_SessionProposal proposal \<Rightarrow> proposal)"

lemma demo_session_proposal_simps [simp]:
  "Cm_SessionProposal demo_session_proposal = demo_proposal" "spr_descriptor demo_session_proposal = 9"
  "spr_session_id demo_session_proposal = 3" "spr_generation demo_session_proposal = 4" "spr_layout_id demo_session_proposal = 7"
  "lp_target_fps (spr_layout demo_session_proposal) = 120" "lp_extra_signals (spr_layout demo_session_proposal) = [76, 80]"
  by (simp_all add: demo_session_proposal_def demo_proposal_def)

lemma default_limits [simp]:
  "bc_max_target_fps BindingConfig_default = 120" "bc_max_burst_fps BindingConfig_default = 240"
  "bc_geometry_cadence BindingConfig_default = Some 15" "bc_max_tracking_frame_bytes BindingConfig_default = 8388608"
  "bc_max_receive_frames_per_poll BindingConfig_default = 32" "bc_max_result_age BindingConfig_default = 100000000"
  "bc_max_protocol_violations BindingConfig_default = 8"
  by (simp_all add: BindingConfig_default_def)

definition demo_result :: "u64 \<Rightarrow> demo_result" where
  "demo_result sequence = \<lparr>ntr_session_id = 3, ntr_generation = 4, ntr_sequence = sequence, ntr_capture_timestamp_ns = 0,
     ntr_produced_timestamp_ns = 0, ntr_face_landmarks = [], ntr_body = ()\<rparr>"

definition script_plays :: "demo_message \<Rightarrow> bool" where
  "script_plays message =
     (message_ok demo_control_lib message
      \<and> (\<exists>bs. ControlMessage_encode demo_control_lib message = (Inr bs :: (unit BindingError, bytes) result) \<and> length bs \<le> 1024))"

lemma script_plays_demo [simp]:
  "script_plays demo_hello" "script_plays demo_accepted" "script_plays demo_confirmed" "script_plays demo_ready" "script_plays demo_start"
  "script_plays demo_proposal"
proof -
  show "script_plays demo_proposal" unfolding script_plays_def
    using demo_control_lib_ok(2) demo_encoded
    by (simp add: length_ntp_frame message_payload_def demo_proposal_def proposal_payload_def demo_control_lib_def signal_bytes_def)
qed (simp_all add: script_plays_def message_ok_def demo_hello_def demo_accepted_def demo_confirmed_def demo_ready_def demo_start_def
     ControlMessage_encode_def NtpWriter_finish_def NtpWriter_word_def NtpWriter_new_def NTP_CONTROL_MAGIC_def
     NTP_CONTROL_HEADER_LEN_def try_word_def)

lemma script_encodes:
  assumes "script_plays message"
  shows "ControlMessage_encode demo_control_lib message = (Inr (script_bytes message) :: (unit BindingError, bytes) result)"
    "length (script_bytes message) \<le> 1024" "message_ok demo_control_lib message"
  using assms by (auto simp: script_plays_def script_bytes_def)

lemma script_frames:
  assumes "length bs \<le> 1024"
  obtains framed where "control_stream_frame (projr ntp_protocol) bs = Inr framed" "length framed \<le> usize_max"
  using assms by (simp add: control_stream_frame_def CONTROL_PROTOCOL_def usize_checked_add_def usize_max_def
      CONTROL_STREAM_HEADER_LEN_def CONTROL_STREAM_MAGIC_def)

lemma script_receive [simp]:
  assumes "script_plays message"
  shows "receive_control demo_control_lib script_ops BindingConfig_default \<lparr>sc_control = message # rest, sc_data = data\<rparr>
    = (Inr (Some message), \<lparr>sc_control = rest, sc_data = data\<rparr>)"
proof -
  note bs = script_encodes [OF assms]
  have "ControlMessage_decode demo_control_lib (script_bytes message) = Inr message"
    using decode_encoded [OF demo_control_lib_ok(1) bs(3,1)] bs(2) by (simp add: MAX_NTP_CONTROL_BYTES_def)
  moreover obtain framed where framed: "control_stream_frame (projr ntp_protocol) (script_bytes message) = Inr framed" "length framed \<le> usize_max"
    using bs(2) by (rule script_frames)
  moreover have "control_stream_unframe (projr ntp_protocol) framed = Inr (script_bytes message)" using framed by (simp add: unframe_frame_iff)
  ultimately show ?thesis
    using bs by (simp add: receive_control_def script_ops_def Connection_open_control_stream_def script_metadata_def
        ControlStream_try_receive_def script_framed_def BindingConfig_default_def)
qed

lemma script_queue [simp]:
  "script_plays message \<Longrightarrow> length outbox < 16 \<Longrightarrow>
    queue_control demo_control_lib message BindingConfig_default outbox = (Inr (), outbox @ [script_bytes message])"
  using script_encodes [of message] by (simp add: queue_control_def BindingConfig_default_def)

lemma script_flush [simp]:
  "list_all script_plays messages \<Longrightarrow>
    flush_control script_ops (map script_bytes messages) c = (Inr () :: (unit BindingError, unit) result, [], c)"
proof (induction messages)
  case (Cons message messages)
  then have "length (script_bytes message) \<le> 1024" by (simp add: script_encodes)
  then obtain framed where "control_stream_frame (projr ntp_protocol) (script_bytes message) = Inr framed" by (rule script_frames)
  with Cons show ?case
    by (simp add: script_ops_def Connection_open_control_stream_def script_metadata_def ControlStream_try_send_def)
qed simp

lemma script_flush_one [simp]:
  "script_plays message \<Longrightarrow> flush_control script_ops [script_bytes message] c = (Inr () :: (unit BindingError, unit) result, [], c)"
  using script_flush [of "[message]" c] by simp

end
