(* ===== verification/Link_Fixed_Window.thy ===== *)
theory Link_Fixed_Window
  imports Link_Window
begin

text \<open>
  Fixed-window limiters: a count of the requests admitted since a start, and the start moved to the
  present once it lies a window back. Both ends of the tracking binding limit their frames so, twice each.

  The locale \<open>fixed_window\<close> is the contract of one such counter inside a larger state. A request it admitted may
  still be given up later, so the log holds some of the admitted times. What it is good for is
  proved in it once: since a full window may be followed by another, twice the maximum can be admitted in
  quick succession, but of any \<open>2 * maximum + 1\<close> admitted requests the first and the last are a window apart.
\<close>

definition rolled :: "nat \<Rightarrow> nat \<Rightarrow> nat \<times> nat \<Rightarrow> nat \<times> nat" where
  "rolled window now = (\<lambda>(start, n). if window \<le> now - start then (now, 0) else (start, n))"

text \<open>The admitted times fall into those of the current window, those of the window before, and older
  ones. \<open>latest\<close> is the latest time seen.\<close>

definition window_log :: "nat \<Rightarrow> nat \<Rightarrow> nat list \<Rightarrow> nat \<Rightarrow> nat \<times> nat \<Rightarrow> bool" where
  "window_log window maximum ts latest = (\<lambda>(start, n).
     start \<le> latest \<and> spaced (\<lambda>t. t) window (2 * maximum) ts
     \<and> (\<exists>older previous current. ts = older @ previous @ current
          \<and> (\<forall>t \<in> set older. t + window \<le> start) \<and> (\<forall>t \<in> set previous. t \<le> start) \<and> (\<forall>t \<in> set current. t \<le> latest)
          \<and> length previous \<le> maximum \<and> length current \<le> n \<and> n \<le> maximum))"

lemma window_logE:
  assumes "window_log window maximum ts latest (start, n)"
  obtains older previous current where "ts = older @ previous @ current" "\<And>t. t \<in> set older \<Longrightarrow> t + window \<le> start"
    "\<And>t. t \<in> set previous \<Longrightarrow> t \<le> start" "\<And>t. t \<in> set current \<Longrightarrow> t \<le> latest"
    "length previous \<le> maximum" "length current \<le> n" "n \<le> maximum" "start \<le> latest" "spaced (\<lambda>t. t) window (2 * maximum) ts"
  using assms unfolding window_log_def by blast

lemma window_logI:
  assumes "ts = older @ previous @ current" "\<And>t. t \<in> set older \<Longrightarrow> t + window \<le> start"
    "\<And>t. t \<in> set previous \<Longrightarrow> t \<le> start" "\<And>t. t \<in> set current \<Longrightarrow> t \<le> latest"
    "length previous \<le> maximum" "length current \<le> n" "n \<le> maximum" "start \<le> latest" "spaced (\<lambda>t. t) window (2 * maximum) ts"
  shows "window_log window maximum ts latest (start, n)"
  using assms unfolding window_log_def by blast

lemma window_log_start: "start \<le> latest \<Longrightarrow> window_log window maximum [] latest (start, 0)"
  by (simp add: window_log_def)

lemma window_log_later:
  assumes "window_log window maximum ts latest c" "latest \<le> now"
  shows "window_log window maximum ts now c"
proof (cases c)
  case (Pair start n)
  with assms(1) show ?thesis using assms(2) by (auto elim!: window_logE intro!: window_logI dest: le_trans)
qed

lemma window_log_rolled:
  assumes "window_log window maximum ts latest c" "latest \<le> now" "0 < window"
  shows "window_log window maximum ts now (rolled window now c)"
proof (cases c)
  case (Pair start n)
  show ?thesis
  proof (cases "window \<le> now - start")
    case False
    with Pair window_log_later [OF assms(1,2)] show ?thesis by (simp add: rolled_def)
  next
    case True
    obtain older previous current where ts: "ts = older @ previous @ current" "\<And>t. t \<in> set older \<Longrightarrow> t + window \<le> start"
      "\<And>t. t \<in> set previous \<Longrightarrow> t \<le> start" "\<And>t. t \<in> set current \<Longrightarrow> t \<le> latest"
      and len: "length previous \<le> maximum" "length current \<le> n" "n \<le> maximum" "start \<le> latest"
      and sp: "spaced (\<lambda>t. t) window (2 * maximum) ts"
      using assms(1) unfolding Pair by (rule window_logE) blast
    have now: "start + window \<le> now" using True assms(3) by simp
    have "window_log window maximum ts now (now, 0)"
      by (rule window_logI [of ts "older @ previous" current "[]"]) (use ts len sp now assms(2) in \<open>auto dest: le_trans\<close>, force+)
    with True Pair show ?thesis by (simp add: rolled_def)
  qed
qed

lemma window_log_admit:
  assumes "window_log window maximum ts latest c" "latest \<le> now" "0 < window" "rolled window now c = (start, n)" "n < maximum"
  shows "window_log window maximum (if used then ts @ [now] else ts) now (start, Suc n)"
proof -
  from window_log_rolled [OF assms(1-3)]
  obtain older previous current where ts: "ts = older @ previous @ current" "\<And>t. t \<in> set older \<Longrightarrow> t + window \<le> start"
    "\<And>t. t \<in> set previous \<Longrightarrow> t \<le> start" "\<And>t. t \<in> set current \<Longrightarrow> t \<le> now"
    and len: "length previous \<le> maximum" "length current \<le> n" "n \<le> maximum" "start \<le> now"
    and sp: "spaced (\<lambda>t. t) window (2 * maximum) ts"
    unfolding assms(4) by (rule window_logE) blast
  have unused: "window_log window maximum ts now (start, Suc n)"
    by (rule window_logI [OF ts]) (use len sp assms(5) in auto)
  have "spaced (\<lambda>t. t) window (2 * maximum) (ts @ [now])"
    by (rule spaced_snoc [OF sp ts(1)]) (use ts(2) len assms(5) in \<open>force+\<close>)
  then have "window_log window maximum (ts @ [now]) now (start, Suc n)"
    by (intro window_logI [of _ older previous "current @ [now]"]) (use ts len assms(5) in auto)
  with unused show ?thesis by simp
qed

locale fixed_window =
  fixes window maximum :: nat and inv :: "'s \<Rightarrow> bool" and counter :: "'s \<Rightarrow> nat \<times> nat"
    and step :: "'i \<Rightarrow> nat \<Rightarrow> 's \<Rightarrow> bool \<times> 's"
  assumes positive: "0 < window"
    and admit: "inv s \<Longrightarrow> step i now s = (True, s') \<Longrightarrow> rolled window now (counter s) = (start, n)
      \<Longrightarrow> counter s' = (start, Suc n) \<and> n < maximum"
    and refuse: "inv s \<Longrightarrow> step i now s = (False, s') \<Longrightarrow> counter s' = counter s \<or> counter s' = rolled window now (counter s)"
begin

lemma step_log:
  assumes "inv s" "window_log window maximum ts latest (counter s)" "latest \<le> now" "step i now s = (ok, s')" "used \<Longrightarrow> ok"
  shows "window_log window maximum (if used then ts @ [now] else ts) now (counter s')"
proof (cases ok)
  case True
  obtain start n where "rolled window now (counter s) = (start, n)" by fastforce
  with window_log_admit [OF assms(2,3) positive this] admit assms(1,4) True show ?thesis by force
next
  case False
  with refuse [OF assms(1)] assms(4,5) window_log_later [OF assms(2,3)] window_log_rolled [OF assms(2,3) positive]
  show ?thesis by fastforce
qed

end

end
