(* ===== verification/Link_Segments.thy ===== *)
theory Link_Segments
  imports Link_Prelude
begin

text \<open>
  The parts of a log between its separators. Both ends of the tracking binding are moved to a new connection now and
  then, which starts their counters anew: what they guarantee holds of every part of a run between two such moves.
\<close>

fun segments :: "('a \<Rightarrow> bool) \<Rightarrow> 'a list \<Rightarrow> 'a list list" where
  "segments separates [] = [[]]"
| "segments separates (x # xs) =
     (if separates x then [] # segments separates xs else (x # hd (segments separates xs)) # tl (segments separates xs))"

lemma segments_not_Nil [simp]: "segments separates xs \<noteq> []"
  by (induction xs) simp_all

lemma segments_snoc:
  "segments separates (xs @ [x]) =
     (if separates x then segments separates xs @ [[]]
      else butlast (segments separates xs) @ [last (segments separates xs) @ [x]])"
proof (induction xs)
  case (Cons y xs)
  obtain s ss where "segments separates xs = s # ss" by (cases "segments separates xs") simp_all
  with Cons show ?case by (cases ss) auto
qed simp

lemma segments_all:
  assumes "list_all P (butlast (segments separates xs))" and "P (last (segments separates xs))"
  shows "list_all P (segments separates xs)"
proof -
  have "list_all P (butlast (segments separates xs) @ [last (segments separates xs)])"
    unfolding list_all_append using assms by simp
  then show ?thesis by simp
qed

text \<open>The parts are the pieces that contain no separator, in order.\<close>

lemma segments_quiet: "seg \<in> set (segments separates xs) \<Longrightarrow> x \<in> set seg \<Longrightarrow> \<not> separates x"
proof (induction xs arbitrary: seg x)
  case (Cons y xs)
  obtain s ss where s: "segments separates xs = s # ss" by (cases "segments separates xs") simp_all
  show ?case
  proof (cases "separates y")
    case True
    with Cons s show ?thesis by auto
  next
    case False
    with Cons.prems s have "seg = y # s \<or> seg \<in> set ss" by auto
    with Cons.prems(2) Cons.IH [of s x] Cons.IH [of seg x] s False show ?thesis by auto
  qed
qed simp

lemma segments_concat: "concat (segments separates xs) = filter (\<lambda>x. \<not> separates x) xs"
proof (induction xs)
  case (Cons y xs)
  obtain s ss where "segments separates xs = s # ss" by (cases "segments separates xs") simp_all
  with Cons show ?case by auto
qed simp

end
