(* ===== verification/Link_Ntp_Publishing.thy ===== *)
theory Link_Ntp_Publishing
  imports Link_Ntp_Scripted Link_Fixed_Window Link_Segments
begin

text \<open>
  What the publisher of the tracking binding guarantees over any sequence of its operations, the reset for a
  new connection included: which results it publishes, in which order, and how many in a time. Its two limits on frames are counters of the
  contract \<open>fixed_window\<close>.
\<close>

subsection \<open>The limits are fixed windows\<close>

definition pub_burst :: "('c, 'd, 'l, 'a) Publisher \<Rightarrow> nat \<times> nat" where
  "pub_burst self = (pub_frame_window_started self, unat (pub_frame_window_count self))"

definition pub_sustained :: "('c, 'd, 'l, 'a) Publisher \<Rightarrow> nat \<times> nat" where
  "pub_sustained self = (pub_sustained_window_started self, unat (pub_sustained_frame_count self))"

definition admits_frame :: "u16 \<Rightarrow> Instant \<Rightarrow> ('c, 'd, 'l, 'a) Publisher \<Rightarrow> bool \<times> ('c, 'd, 'l, 'a) Publisher" where
  "admits_frame target_fps now self =
     (case Publisher_note_frame now target_fps self :: (unit BindingError, unit) result \<times> _ of (r, self) \<Rightarrow> (is_ok r, self))"

lemma sat_add_count: "x < m \<Longrightarrow> unat (sat_add x 1) = Suc (unat (x :: 'a::len word))"
proof -
  assume "x < m"
  then have "Suc (unat x) < 2 ^ LENGTH('a)" using unat_lt_size [of m] unfolding word_less_nat_alt by linarith
  then show ?thesis by (simp add: sat_add_def unat_word_ariths)
qed

lemma sustained_limit: "unat (sat_mul (ucast (fps :: u16)) 10 :: u32) = 10 * unat fps"
proof -
  have "unat fps < 2 ^ 16" using unat_lt_size [of fps] by simp
  then show ?thesis by (simp add: sat_mul_def unsigned_ucast_eq take_bit_nat_eq_self unat_word_ariths)
qed

lemma sat_add_first: "unat (sat_add 0 1 :: 'a::len word) = Suc 0"
  by (rule trans [OF sat_add_count [of _ 1]]) simp_all

lemma below_sustained_limit: "x < sat_mul (ucast (fps :: u16)) (10 :: u32) \<longleftrightarrow> unat x < 10 * unat fps"
  by (simp only: word_less_nat_alt sustained_limit)

lemma sustained_limit_0: "sat_mul (ucast (fps :: u16)) (10 :: u32) = 0 \<longleftrightarrow> unat fps = 0"
  using sustained_limit [of fps] by (simp add: unat_eq_zero [symmetric])

lemma sustained_count: "unat x < 10 * unat (fps :: u16) \<Longrightarrow> unat (sat_add x 1 :: u32) = Suc (unat x)"
  using sat_add_count [of x "sat_mul (ucast fps) 10"] by (simp only: below_sustained_limit)

interpretation burst_window: fixed_window "seconds 1" "unat (bc_max_burst_fps config)" "\<lambda>s. pub_config s = config" pub_burst
  admits_frame for config
proof
  show "admits_frame i now s = (True, s') \<Longrightarrow> rolled (seconds 1) now (pub_burst s) = (start, n) \<Longrightarrow>
      pub_burst s' = (start, Suc n) \<and> n < unat (bc_max_burst_fps config)"
    if "pub_config s = config" for s s' i now start n
    using that by (auto simp: admits_frame_def Publisher_note_frame_def Let_def pub_burst_def rolled_def sat_add_count word_less_nat_alt
        not_le split: if_splits)
  show "admits_frame i now s = (False, s') \<Longrightarrow> pub_burst s' = pub_burst s \<or> pub_burst s' = rolled (seconds 1) now (pub_burst s)"
    if "pub_config s = config" for s s' i now
    by (auto simp: admits_frame_def Publisher_note_frame_def Let_def pub_burst_def rolled_def split: if_splits)
qed (simp add: seconds_def)

interpretation sustained_window: fixed_window "seconds 10" "10 * maximum" "\<lambda>_. True" pub_sustained
  "\<lambda>target_fps now s. if unat target_fps \<le> maximum then admits_frame target_fps now s else (False, s)" for maximum
proof
  show "(if unat i \<le> maximum then admits_frame i now s else (False, s)) = (True, s') \<Longrightarrow> rolled (seconds 10) now (pub_sustained s) = (start, n) \<Longrightarrow>
      pub_sustained s' = (start, Suc n) \<and> n < 10 * maximum"
    if True for s s' i now start n
    by (auto simp: admits_frame_def Publisher_note_frame_def Let_def pub_sustained_def rolled_def sustained_count sat_add_first
        not_le below_sustained_limit sustained_limit_0 split: if_splits)
  show "(if unat i \<le> maximum then admits_frame i now s else (False, s)) = (False, s')
      \<Longrightarrow> pub_sustained s' = pub_sustained s \<or> pub_sustained s' = rolled (seconds 10) now (pub_sustained s)"
    if True for s s' i now
    by (auto simp: admits_frame_def Publisher_note_frame_def Let_def pub_sustained_def rolled_def split: if_splits)
qed (simp add: seconds_def)

lemma note_frame_admits: "Publisher_note_frame now fps s = (r, s') \<Longrightarrow> admits_frame fps now s = (is_ok r, s')"
  by (auto simp: admits_frame_def Publisher_note_frame_def Let_def split: if_splits)

subsection \<open>What the operations keep\<close>

definition pub_view ::
  "('c, 'd, 'l, 'a) Publisher \<Rightarrow> BindingConfig \<times> ('d, 'l) SessionDefinition option \<times> u64 option \<times> (nat \<times> nat) \<times> (nat \<times> nat)" where
  "pub_view s = (pub_config s, pub_active s, pub_last_published_sequence s, pub_burst s, pub_sustained s)"

lemmas pub_view_defs = pub_view_def pub_burst_def pub_sustained_def

lemma pub_view_update [simp]:
  "pub_view (s\<lparr>pub_pending := p\<rparr>) = pub_view s" "pub_view (s\<lparr>pub_pending_accepted := b\<rparr>) = pub_view s"
  "pub_view (s\<lparr>pub_remote_hello := b\<rparr>) = pub_view s" "pub_view (s\<lparr>pub_playback := p'\<rparr>) = pub_view s"
  "pub_view (s\<lparr>pub_last_report := r\<rparr>) = pub_view s" "pub_view (s\<lparr>pub_geometry_requested := b\<rparr>) = pub_view s"
  "pub_view (s\<lparr>pub_outbox := ob\<rparr>) = pub_view s" "pub_view (s\<lparr>pub_connection := c\<rparr>) = pub_view s"
  "pub_view (s\<lparr>pub_reliable := rel\<rparr>) = pub_view s" "pub_view (s\<lparr>pub_compact_samples := cs\<rparr>) = pub_view s"
  "pub_view (s\<lparr>pub_compact_bytes := cb\<rparr>) = pub_view s" "pub_view (s\<lparr>pub_reconfigure_times := rt\<rparr>) = pub_view s"
  "pub_view (s\<lparr>pub_rate_limited := rl\<rparr>) = pub_view s"
  by (simp_all add: pub_view_defs)

lemma and_then_keeps:
  "V (snd m) = v \<Longrightarrow> (\<And>a s. V s = v \<Longrightarrow> V (snd (f a s)) = v) \<Longrightarrow> V (snd (and_then m f)) = v"
  by (cases m; cases "fst m") auto

lemma flush_control_keeps [simp]:
  "pub_view (snd (Publisher_flush_control ops s)) = pub_view s" "pub_pending (snd (Publisher_flush_control ops s)) = pub_pending s"
  by (simp_all add: Publisher_flush_control_def split: prod.split)

lemma queue_control_keeps [simp]:
  "pub_view (snd (Publisher_queue_control lib message s)) = pub_view s"
  "pub_pending (snd (Publisher_queue_control lib message s)) = pub_pending s"
  by (simp_all add: Publisher_queue_control_def split: prod.split)

lemma flush_reliable_keeps [simp]:
  "pub_view (snd (Publisher_flush_reliable ops s)) = pub_view s" "pub_pending (snd (Publisher_flush_reliable ops s)) = pub_pending s"
  by (simp_all add: Publisher_flush_reliable_def split: prod.split)

lemma receive_control_keeps [simp]:
  "pub_view (snd (Publisher_receive_control lib ops s)) = pub_view s"
  "pub_pending (snd (Publisher_receive_control lib ops s)) = pub_pending s"
  by (simp_all add: Publisher_receive_control_def split: prod.split)

lemma note_reconfigure_keeps [simp]: "pub_view (snd (Publisher_note_reconfigure now s)) = pub_view s"
  by (simp add: Publisher_note_reconfigure_def Let_def)

lemma hello_keeps [simp]: "pub_view (snd (Publisher_try_send_hello lib ops s)) = pub_view s"
  unfolding Publisher_try_send_hello_def by (rule and_then_keeps) simp_all

lemma descriptor_keeps [simp]: "pub_view (snd (Publisher_publish_descriptor lib ops proposal now s)) = pub_view s"
  unfolding Publisher_publish_descriptor_def by (auto intro!: and_then_keeps [where V = pub_view])

text \<open>A control message either keeps the view or makes the pending session the active one.\<close>

definition takes_up :: "('c, 'd, 'l, 'a) Publisher \<Rightarrow> ('c, 'd, 'l, 'a) Publisher \<Rightarrow> bool" where
  "takes_up s s' = (pub_pending s \<noteq> None \<and> pub_pending s' = None)"

definition control_effect :: "('c, 'd, 'l, 'a) Publisher \<Rightarrow> ('c, 'd, 'l, 'a) Publisher \<Rightarrow> bool" where
  "control_effect s s' =
     (if takes_up s s'
      then pub_config s' = pub_config s \<and> pub_active s' = pub_pending s \<and> pub_last_published_sequence s' = None
        \<and> pub_burst s' = pub_burst s \<and> pub_sustained s' = pub_sustained s
      else pub_view s' = pub_view s \<and> pub_pending s' = pub_pending s)"

lemma control_effect_same: "pub_view s' = pub_view s \<Longrightarrow> pub_pending s' = pub_pending s \<Longrightarrow> control_effect s s'"
  by (auto simp: control_effect_def takes_up_def)

lemma control_effect_trans:
  "pub_view s1 = pub_view s \<Longrightarrow> pub_pending s1 = pub_pending s \<Longrightarrow> control_effect s1 s2
   \<Longrightarrow> pub_view s3 = pub_view s2 \<Longrightarrow> pub_pending s3 = pub_pending s2 \<Longrightarrow> control_effect s s3"
  by (auto simp: control_effect_def takes_up_def pub_view_def split: if_splits)

lemma layout_accepted_keeps:
  shows "pub_view (snd (Publisher_layout_accepted lib accept s)) = pub_view s"
  "pub_pending (snd (Publisher_layout_accepted lib accept s)) = pub_pending s"
  unfolding Publisher_layout_accepted_def
  by (auto intro!: and_then_keeps [where V = pub_view] and_then_keeps [where V = pub_pending] split: option.split)

lemma handle_control_effect: "control_effect s (snd (Publisher_handle_control lib ns message s))"
proof (cases message)
  case (Cm_SessionReady session_id generation layout_id)
  then show ?thesis
    by (auto simp: Publisher_handle_control_def Publisher_session_ready_def control_effect_def takes_up_def pub_view_defs
        split: option.split)
next
  case (Cm_Ping t)
  then show ?thesis
    by (auto simp: Publisher_handle_control_def intro!: control_effect_same and_then_keeps [where V = pub_view]
        and_then_keeps [where V = pub_pending])
next
  case (Cm_LayoutAccepted accept)
  then show ?thesis by (simp add: Publisher_handle_control_def control_effect_same layout_accepted_keeps)
qed (auto simp: Publisher_handle_control_def split: sum.split intro!: control_effect_same)

lemma effect_and_then:
  "pub_view (snd m) = pub_view s \<Longrightarrow> pub_pending (snd m) = pub_pending s
   \<Longrightarrow> (\<And>a s'. pub_view s' = pub_view s \<Longrightarrow> pub_pending s' = pub_pending s \<Longrightarrow> control_effect s (snd (f a s')))
   \<Longrightarrow> control_effect s (snd (and_then m f))"
  by (cases m; cases "fst m") (auto intro: control_effect_same)

lemma and_then_return: "snd (and_then m (\<lambda>_ s. (Inr a, s))) = snd m"
  by (cases m; cases "fst m") auto

lemma effect_then_flush:
  "control_effect s (snd m) \<Longrightarrow> control_effect s (snd (and_then m (\<lambda>event s'.
     and_then (Publisher_flush_control ops s') (\<lambda>_ s'. (Inr event, s')))))"
  by (cases m; cases "fst m") (auto simp: and_then_return intro: control_effect_trans [OF refl refl _ flush_control_keeps])

lemma handled_effect:
  assumes "pub_view s' = pub_view s" "pub_pending s' = pub_pending s"
  shows "control_effect s (snd (Publisher_handle_control lib ns message s'))"
  by (rule control_effect_trans [OF assms handle_control_effect]) (rule refl)+

lemma poll_control_effect: "control_effect s (snd (Publisher_poll_control lib ops ns s))"
proof -
  have received: "control_effect s (snd (case message of
        None \<Rightarrow> (Inr None, s')
      | Some message \<Rightarrow> and_then (Publisher_handle_control lib ns message s') (\<lambda>event s'.
          and_then (Publisher_flush_control ops s') (\<lambda>_ s'. (Inr event, s')))))"
    if "pub_view s' = pub_view s" "pub_pending s' = pub_pending s" for message s'
    using effect_then_flush [OF handled_effect [OF that]] that by (cases message) (simp_all add: control_effect_same)
  show ?thesis
    unfolding Publisher_poll_control_def
    by (intro effect_and_then received) (simp_all split: if_split)
qed

subsection \<open>Publishing\<close>

lemma enqueue_keeps [simp]: "pub_view (snd (Publisher_enqueue reserve flow priority result payload s)) = pub_view s"
  by (simp add: Publisher_enqueue_def split: prod.split)

lemma send_fragmented_keeps [simp]:
  "pub_view (snd (Publisher_send_fragmented ops flow priority deadline result payload s)) = pub_view s"
  by (simp add: Publisher_send_fragmented_def split: prod.split)

lemma encode_compact_keeps [simp]: "pub_view (snd (Publisher_encode_compact lib active result s)) = pub_view s"
  by (simp add: Publisher_encode_compact_def Let_def split: prod.split)

lemma geometry_wire_keeps [simp]: "pub_view (snd (Publisher_geometry_wire lib result s)) = pub_view s"
  by (simp add: Publisher_geometry_wire_def Let_def)

text \<open>A step that publishes a sequence exactly when it succeeds.\<close>

definition publishes :: "u64 \<Rightarrow> ('c, 'd, 'l, 'a) Publisher \<Rightarrow> ('x BindingError, 'y) result \<times> ('c, 'd, 'l, 'a) Publisher \<Rightarrow> bool" where
  "publishes q s m =
     (pub_view (snd m) = pub_view (if is_ok (fst m) then s\<lparr>pub_last_published_sequence := Some q\<rparr> else s))"

lemma publishes_and_then:
  "pub_view (snd m) = pub_view s \<Longrightarrow> (\<And>a s'. pub_view s' = pub_view s \<Longrightarrow> publishes q s (f a s')) \<Longrightarrow> publishes q s (and_then m f)"
  unfolding publishes_def by (cases m; cases "fst m") auto

lemma publishes_err: "pub_view s' = pub_view s \<Longrightarrow> publishes q s (Inl e, s')"
  by (simp add: publishes_def)

lemma publishes_ok: "pub_view s' = pub_view s \<Longrightarrow> publishes q s (Inr a, s'\<lparr>pub_last_published_sequence := Some q\<rparr>)"
  by (simp add: publishes_def pub_view_defs)

lemma publishes_cong: "pub_view s' = pub_view s \<Longrightarrow> publishes q s' m \<Longrightarrow> publishes q s m"
  by (auto simp: publishes_def pub_view_defs split: if_splits)

lemmas publishes_intros = publishes_and_then publishes_err publishes_ok

lemma geometry_part_keeps:
  assumes "\<And>wire. pub_view (snd (f wire)) = pub_view s"
  shows "pub_view (snd (case wire of None \<Rightarrow> (Inr None, s) | Some wire \<Rightarrow> and_then (f wire) (\<lambda>x s. (Inr (Some (g x)), s)))) = pub_view s"
  using assms by (cases wire) (auto intro: and_then_keeps [where V = pub_view])

lemma publish_reliable_effect: "publishes (ntr_sequence result) s (Publisher_publish_reliable reserve ops result core_wire geometry_wire s)"
  unfolding Publisher_publish_reliable_def
  by (intro publishes_intros) (simp_all add: geometry_part_keeps)

lemma publish_datagrams_effect: "publishes (ntr_sequence result) s (Publisher_publish_datagrams ops deadline result core_wire geometry_wire s)"
proof -
  have sent: "publishes (ntr_sequence result) s
      (and_then (m, s\<lparr>pub_connection := c\<rparr>) (\<lambda>compact self.
        and_then (Publisher_send_fragmented ops CORE_RESULT_FLOW Rt_High deadline result core_wire self) (\<lambda>core self.
        and_then (case geometry_wire of
                    None \<Rightarrow> (Inr None, self)
                  | Some wire \<Rightarrow>
                      and_then (Publisher_send_fragmented ops GEOMETRY_FLOW Rt_Disposable deadline result wire self)
                        (\<lambda>outcome self. (Inr (Some outcome), self))) (\<lambda>geometry self.
          (Inr \<lparr>po_compact = compact, po_core = core, po_geometry = geometry\<rparr>,
           self\<lparr>pub_last_published_sequence := Some (ntr_sequence result)\<rparr>)))))" for m c
    by (intro publishes_intros) (simp_all add: geometry_part_keeps)
  show ?thesis
    unfolding Publisher_publish_datagrams_def
    by (auto intro!: publishes_err sent split: option.split prod.split)
qed

text \<open>What a call of \<^verbatim>\<open>try_send_latest\<close> does: nothing, or a note of the frame, or also the publication of a result of
  the active session that is newer than the last one.\<close>

lemma try_send_latest_cases:
  fixes lib :: "('d, 'r, 's, 'p, 'v, 'q, 'x, 'l, 'm, 'b, 'a) PublisherLib"
  obtains (idle) e where "Publisher_try_send_latest lib reserve ops now1 now2 result s = (Inl e, s)"
      "pub_playback s \<noteq> Ps_Running \<or> pub_active s = None"
  | (noted) active ok s1 r s' where "pub_active s = Some active"
      "admits_frame (lp_target_fps (ll_proposal (pl_layout lib) (sd_layout active))) now1 s = (ok, s1)"
      "Publisher_try_send_latest lib reserve ops now1 now2 result s = (r, s')" "is_ok r \<Longrightarrow> ok
        \<and> ntr_session_id result = sd_session_id active \<and> ntr_generation result = sd_generation active
        \<and> (\<forall>q. pub_last_published_sequence s1 = Some q \<longrightarrow> q < ntr_sequence result)"
      "publishes (ntr_sequence result) s1 (r, s')" "pub_playback s = Ps_Running" "\<not> ok \<Longrightarrow> s' = s1"
proof -
  let ?send = "Publisher_try_send_latest lib reserve ops now1 now2 result s"
  show thesis
  proof (cases "pub_playback s \<noteq> Ps_Running \<or> pub_active s = None")
    case True
    then have "?send = (Inl Be_InvalidState, s)" by (auto simp: Publisher_try_send_latest_def)
    then show thesis using True by (rule idle)
  next
    case False
    then obtain active where running: "pub_playback s = Ps_Running" "pub_active s = Some active" by auto
    let ?fps = "lp_target_fps (ll_proposal (pl_layout lib) (sd_layout active))"
    obtain r1 s1 where noting: "Publisher_note_frame now1 ?fps s = (r1 :: ('x BindingError, unit) result, s1)" by fastforce
    have admits: "admits_frame ?fps now1 s = (is_ok r1, s1)" by (rule note_frame_admits [OF noting])
    show thesis
    proof (cases "is_ok r1 \<and> ntr_session_id result = sd_session_id active \<and> ntr_generation result = sd_generation active
        \<and> (\<forall>q. pub_last_published_sequence s1 = Some q \<longrightarrow> q < ntr_sequence result)")
      case False
      then have "\<exists>e. ?send = (Inl e, s1)"
        using running noting by (cases r1) (auto simp: Publisher_try_send_latest_def is_ok_def not_less split: option.split)
      then obtain e where "?send = (Inl e, s1)" by blast
      with noted [OF running(2) admits this] running(1) show thesis by (simp add: publishes_err is_ok_def)
    next
      case True
      have "publishes (ntr_sequence result) s1 ?send"
        using running noting True
        by (auto simp: Publisher_try_send_latest_def is_ok_def not_less 
            intro!: publishes_and_then publishes_cong [OF _ publish_reliable_effect] publishes_cong [OF _ publish_datagrams_effect]
            split: option.split sum.splits)
      then show thesis
        using noted [OF running(2) admits, of "fst ?send" "snd ?send"] True running(1) by auto
    qed
  qed
qed

subsection \<open>Runs\<close>

text \<open>The calls on a publisher. \<^verbatim>\<open>bound_session\<close> stands for the ones that only look at it.\<close>

datatype ('c, 'd, 'r, 's, 'p, 'v, 'q, 'm, 'b) PublisherOp =
    Pub_Hello
  | Pub_Descriptor "('d, 'r, 's, 'p, 'v, 'q) SessionProposal" Instant
  | Pub_Control u64
  | Pub_Send "('m, 'b) NanaTrackingResult" Instant Instant
  | Pub_Reset 'c NtpAuthorization Instant Instant
  | Pub_Bound

text \<open>The log of a run: a pending session becomes the active one; the publisher is moved to a new connection; a
  result is published; and a call to publish passed the limits and failed afterwards, when it may have sent
  some of its frames.\<close>

datatype PublisherLog = Pl_Ready | Pl_Reset | Pl_Sent u128 u32 u64 Instant | Pl_Failed Instant

definition passes_limits ::
  "('d, 'r, 's, 'p, 'v, 'q, 'x, 'l, 'm, 'b, 'a) PublisherLib \<Rightarrow> Instant \<Rightarrow> ('c, 'd, 'l, 'a) Publisher \<Rightarrow> bool" where
  "passes_limits lib now self =
     (pub_playback self = Ps_Running
      \<and> (case pub_active self of
            None \<Rightarrow> False
          | Some active \<Rightarrow> fst (admits_frame (lp_target_fps (ll_proposal (pl_layout lib) (sd_layout active))) now self)))"

text \<open>A call that does not pass the limits hands nothing to the connection.\<close>

lemma refused_send_silent:
  assumes "\<not> passes_limits lib now1 s" "Publisher_try_send_latest lib reserve ops now1 now2 result s = (r, s')"
  shows "\<not> is_ok r \<and> pub_connection s' = pub_connection s \<and> pub_reliable s' = pub_reliable s"
proof (cases rule: try_send_latest_cases [of lib reserve ops now1 now2 result s])
  case (idle e)
  with assms(2) show ?thesis by (auto simp: is_ok_def)
next
  case (noted active ok s1 r' s'')
  then have "\<not> ok" using assms(1) by (simp add: passes_limits_def)
  with noted assms(2) show ?thesis
    by (auto simp: admits_frame_def Publisher_note_frame_def Let_def split: if_splits)
qed

definition Publisher_apply ::
  "('d, 'r, 's, 'p, 'v, 'q, 'x, 'l, 'm, 'b, 'a) PublisherLib \<Rightarrow> (nat \<Rightarrow> nat \<Rightarrow> nat) \<Rightarrow> 'c ConnectionOps
     \<Rightarrow> ('c, 'd, 'r, 's, 'p, 'v, 'q, 'm, 'b) PublisherOp \<Rightarrow> ('c, 'd, 'l, 'a) Publisher \<Rightarrow> PublisherLog list \<times> ('c, 'd, 'l, 'a) Publisher" where
  "Publisher_apply lib reserve ops action self =
     (case action of
        Pub_Hello \<Rightarrow> ([], snd (Publisher_try_send_hello (pl_control lib) ops self))
      | Pub_Descriptor proposal now \<Rightarrow> ([], snd (Publisher_publish_descriptor lib ops proposal now self))
      | Pub_Control producer_now_ns \<Rightarrow>
          (let self' = snd (Publisher_poll_control lib ops producer_now_ns self)
           in (if takes_up self self' then [Pl_Ready] else [], self'))
      | Pub_Send result now1 now2 \<Rightarrow>
          (case Publisher_try_send_latest lib reserve ops now1 now2 result self of
             (r, self') \<Rightarrow>
               (if is_ok r then [Pl_Sent (ntr_session_id result) (ntr_generation result) (ntr_sequence result) now1]
                else if passes_limits lib now1 self then [Pl_Failed now1] else [], self'))
      | Pub_Reset connection authorization now1 now2 \<Rightarrow>
          (case Publisher_reset_for_reconnect ops connection authorization now1 now2 self :: (unit BindingError, unit) result \<times> _ of
             (r, self') \<Rightarrow> (if is_ok r then [Pl_Reset] else [], self'))
      | Pub_Bound \<Rightarrow> ([], self))"

fun Publisher_run ::
  "('d, 'r, 's, 'p, 'v, 'q, 'x, 'l, 'm, 'b, 'a) PublisherLib \<Rightarrow> (nat \<Rightarrow> nat \<Rightarrow> nat) \<Rightarrow> 'c ConnectionOps
     \<Rightarrow> ('c, 'd, 'r, 's, 'p, 'v, 'q, 'm, 'b) PublisherOp list \<Rightarrow> ('c, 'd, 'l, 'a) Publisher \<Rightarrow> PublisherLog list \<times> ('c, 'd, 'l, 'a) Publisher" where
  "Publisher_run lib reserve ops [] self = ([], self)"
| "Publisher_run lib reserve ops (action # actions) self =
     (case Publisher_apply lib reserve ops action self of (log1, self1) \<Rightarrow>
      case Publisher_run lib reserve ops actions self1 of (log2, self2) \<Rightarrow> (log1 @ log2, self2))"

definition call_times :: "('c, 'd, 'r, 's, 'p, 'v, 'q, 'm, 'b) PublisherOp list \<Rightarrow> Instant list" where
  "call_times actions = concat (map (\<lambda>action. case action of
     Pub_Send result now1 now2 \<Rightarrow> [now1] | Pub_Reset connection authorization now1 now2 \<Rightarrow> [now1, now2] | _ \<Rightarrow> []) actions)"

definition frame_times :: "PublisherLog list \<Rightarrow> Instant list" where
  "frame_times log = concat (map (\<lambda>entry. case entry of Pl_Sent a g q t \<Rightarrow> [t] | Pl_Failed t \<Rightarrow> [t] | _ \<Rightarrow> []) log)"

text \<open>The parts of a log between two moves to a new connection.\<close>

abbreviation connection_parts :: "PublisherLog list \<Rightarrow> PublisherLog list list" where
  "connection_parts log \<equiv> segments (\<lambda>e. e = Pl_Reset) log"

text \<open>In every stretch of the log in which no session is taken up and no connection replaced, all publications are of one session and
  generation and their sequences grow.\<close>

fun boundary :: "PublisherLog \<Rightarrow> bool" where
  "boundary Pl_Ready = True"
| "boundary Pl_Reset = True"
| "boundary _ = False"

abbreviation uninterrupted :: "PublisherLog list \<Rightarrow> bool" where
  "uninterrupted stretch \<equiv> list_all (\<lambda>e. \<not> boundary e) stretch"

fun succeeds :: "PublisherLog \<Rightarrow> PublisherLog \<Rightarrow> bool" where
  "succeeds (Pl_Sent a g q t) (Pl_Sent a' g' q' t') \<longleftrightarrow> a = a' \<and> g = g' \<and> q < q'"
| "succeeds _ _ \<longleftrightarrow> True"

definition published_in_order :: "PublisherLog list \<Rightarrow> bool" where
  "published_in_order log =
     (\<forall>before stretch after. log = before @ stretch @ after \<and> uninterrupted stretch \<longrightarrow> sorted_wrt succeeds stretch)"

fun entry_matches :: "('c, 'd, 'l, 'a) Publisher \<Rightarrow> PublisherLog \<Rightarrow> bool" where
  "entry_matches s (Pl_Sent a g q t) \<longleftrightarrow> (\<exists>active last. pub_active s = Some active \<and> a = sd_session_id active \<and> g = sd_generation active
     \<and> pub_last_published_sequence s = Some last \<and> q \<le> last)"
| "entry_matches s _ \<longleftrightarrow> True"

definition log_matches :: "PublisherLog list \<Rightarrow> ('c, 'd, 'l, 'a) Publisher \<Rightarrow> bool" where
  "log_matches log s = (\<forall>before stretch. log = before @ stretch \<and> uninterrupted stretch \<longrightarrow> list_all (entry_matches s) stretch)"

lemma entry_matches_cong:
  "pub_active s' = pub_active s \<Longrightarrow> pub_last_published_sequence s' = pub_last_published_sequence s \<Longrightarrow> entry_matches s' = entry_matches s"
proof
  fix entry assume "pub_active s' = pub_active s" "pub_last_published_sequence s' = pub_last_published_sequence s"
  then show "entry_matches s' entry = entry_matches s entry" by (cases entry) simp_all
qed

lemma log_matches_cong:
  "pub_active s' = pub_active s \<Longrightarrow> pub_last_published_sequence s' = pub_last_published_sequence s \<Longrightarrow> log_matches log s' = log_matches log s"
  by (drule (1) entry_matches_cong) (simp add: log_matches_def)

lemma log_matches_view: "pub_view s' = pub_view s \<Longrightarrow> log_matches log s' = log_matches log s"
  by (rule log_matches_cong) (simp_all add: pub_view_def)

lemma stretch_snoc:
  assumes "log @ [e] = before @ stretch @ after" "stretch \<noteq> []"
  obtains after' where "log = before @ stretch @ after'" | stretch' where "stretch = stretch' @ [e]" "log = before @ stretch'"
proof (cases after rule: rev_cases)
  case Nil
  obtain stretch' x where stretch: "stretch = stretch' @ [x]" using assms(2) rev_exhaust by blast
  have "log @ [e] = (before @ stretch') @ [x]" by (simp only: assms(1) Nil stretch append_Nil2 append_assoc)
  then have "log = before @ stretch'" "x = e" by (simp_all only: append1_eq_conv)
  then show thesis using that(2) stretch by blast
next
  case (snoc after' x)
  have "log @ [e] = (before @ stretch @ after') @ [x]" by (simp only: assms(1) snoc append_assoc)
  then have "log = before @ stretch @ after'" by (simp only: append1_eq_conv)
  then show thesis by (rule that(1))
qed

lemma in_orderD: "published_in_order log \<Longrightarrow> log = before @ stretch @ after \<Longrightarrow> uninterrupted stretch \<Longrightarrow> sorted_wrt succeeds stretch"
  unfolding published_in_order_def by blast

lemma in_order_snoc:
  assumes "published_in_order log"
    and "\<And>before stretch. log = before @ stretch \<Longrightarrow> uninterrupted (stretch @ [e]) \<Longrightarrow> list_all (\<lambda>x. succeeds x e) stretch"
  shows "published_in_order (log @ [e])"
  unfolding published_in_order_def
proof (intro allI impI, elim conjE)
  fix before stretch after assume split: "log @ [e] = before @ stretch @ after" and quiet: "uninterrupted stretch"
  show "sorted_wrt succeeds stretch"
  proof (cases "stretch = []")
    case False
    from split this show ?thesis
    proof (cases rule: stretch_snoc)
      case (1 after')
      with in_orderD [OF assms(1)] quiet show ?thesis by blast
    next
      case (2 stretch')
      then have "sorted_wrt succeeds stretch'"
        using in_orderD [OF assms(1), of before stretch' "[]"] quiet by simp
      with 2 assms(2) [of before stretch'] quiet show ?thesis by (simp add: sorted_wrt_append list_all_iff)
    qed
  qed simp
qed

lemma in_order_other: "published_in_order log \<Longrightarrow> (\<And>x. succeeds x e) \<Longrightarrow> published_in_order (log @ [e])"
  by (rule in_order_snoc) (auto simp: list_all_iff)

lemma succeeds_other [simp]: "succeeds x Pl_Ready" "succeeds x Pl_Reset" "succeeds x (Pl_Failed t)"
  by (cases x; simp)+

lemma matches_snoc:
  assumes "\<And>before stretch. log = before @ stretch \<Longrightarrow> uninterrupted (stretch @ [e]) \<Longrightarrow> list_all (entry_matches s) (stretch @ [e])"
  shows "log_matches (log @ [e]) s"
  unfolding log_matches_def
proof (intro allI impI, elim conjE)
  fix before stretch assume split: "log @ [e] = before @ stretch" and quiet: "uninterrupted stretch"
  show "list_all (entry_matches s) stretch"
  proof (cases stretch rule: rev_cases)
    case (snoc stretch' x)
    with split have "log = before @ stretch'" "x = e" by auto
    with assms [of before stretch'] quiet snoc show ?thesis by simp
  qed simp
qed

lemma matches_boundary: "boundary e \<Longrightarrow> log_matches (log @ [e]) s"
  by (rule matches_snoc) simp

lemma matches_failed: "log_matches log s \<Longrightarrow> log_matches (log @ [Pl_Failed t]) s"
  by (rule matches_snoc) (auto simp: log_matches_def)

lemma sent_snoc:
  assumes "published_in_order log" "log_matches log s" "pub_active s = Some active" "a = sd_session_id active" "g = sd_generation active"
    "\<And>last. pub_last_published_sequence s = Some last \<Longrightarrow> last < q"
  shows "published_in_order (log @ [Pl_Sent a g q t])" "log_matches (log @ [Pl_Sent a g q t]) (s\<lparr>pub_last_published_sequence := Some q\<rparr>)"
proof -
  have earlier: "succeeds x (Pl_Sent a g q t) \<and> entry_matches (s\<lparr>pub_last_published_sequence := Some q\<rparr>) x" if "entry_matches s x" for x
    using that assms(3-6) by (cases x) (auto dest: le_less_trans)
  have suffix: "list_all (entry_matches s) stretch" if "log = before @ stretch" "uninterrupted stretch" for before stretch
    using that assms(2) by (simp add: log_matches_def)
  show "published_in_order (log @ [Pl_Sent a g q t])"
  proof (rule in_order_snoc [OF assms(1)])
    fix before stretch assume "log = before @ stretch" "uninterrupted (stretch @ [Pl_Sent a g q t])"
    with suffix [of before stretch] earlier show "list_all (\<lambda>x. succeeds x (Pl_Sent a g q t)) stretch" by (simp add: list_all_iff)
  qed
  show "log_matches (log @ [Pl_Sent a g q t]) (s\<lparr>pub_last_published_sequence := Some q\<rparr>)"
  proof (rule matches_snoc)
    fix before stretch assume "log = before @ stretch" "uninterrupted (stretch @ [Pl_Sent a g q t])"
    with suffix [of before stretch] earlier assms(3-5)
    show "list_all (entry_matches (s\<lparr>pub_last_published_sequence := Some q\<rparr>)) (stretch @ [Pl_Sent a g q t])" by (simp add: list_all_iff)
  qed
qed

subsection \<open>The invariant of runs\<close>

lemma keeps_pending [simp]:
  "pub_pending (snd (Publisher_note_reconfigure now s)) = pub_pending s"
  "pub_pending (snd (Publisher_enqueue reserve flow priority result payload s)) = pub_pending s"
  "pub_pending (snd (Publisher_send_fragmented ops flow priority deadline result payload s)) = pub_pending s"
  "pub_pending (snd (Publisher_encode_compact lib active result s)) = pub_pending s"
  "pub_pending (snd (Publisher_geometry_wire lib result s)) = pub_pending s"
  "pub_pending (snd (Publisher_note_frame now fps s)) = pub_pending s"
  "pub_pending (snd (Publisher_try_send_hello clib ops s)) = pub_pending s"
  by (simp_all add: Publisher_note_reconfigure_def Publisher_enqueue_def Publisher_send_fragmented_def Publisher_encode_compact_def
      Publisher_geometry_wire_def Publisher_note_frame_def Let_def split: prod.split)
    (simp add: Publisher_try_send_hello_def and_then_keeps [where V = pub_pending])

lemma publish_keeps_pending:
  "pub_pending (snd (Publisher_publish_reliable reserve ops result core_wire geometry_wire s)) = pub_pending s"
  "pub_pending (snd (Publisher_publish_datagrams ops deadline result core_wire geometry_wire s)) = pub_pending s"
  unfolding Publisher_publish_reliable_def Publisher_publish_datagrams_def
  by (auto intro!: and_then_keeps [where V = pub_pending] split: option.split prod.split)

lemma try_send_keeps_pending: "pub_pending (snd (Publisher_try_send_latest lib reserve ops now1 now2 result s)) = pub_pending s"
  unfolding Publisher_try_send_latest_def
  by (auto intro!: and_then_keeps [where V = pub_pending] simp: publish_keeps_pending split: option.split)

definition layout_lib_ok :: "('d, 'r, 's, 'p, 'v, 'q, 'x, 'l) LayoutLib \<Rightarrow> bool" where
  "layout_lib_ok lib = (\<forall>layout_id proposal descriptor layout.
     ll_negotiate lib layout_id proposal descriptor = Inr layout \<longrightarrow> ll_proposal lib layout = proposal)"

definition paced :: "('d, 'r, 's, 'p, 'v, 'q, 'x, 'l) LayoutLib \<Rightarrow> BindingConfig \<Rightarrow> ('d, 'l) SessionDefinition option \<Rightarrow> bool" where
  "paced lib config session =
     (case session of None \<Rightarrow> True | Some d \<Rightarrow> lp_target_fps (ll_proposal lib (sd_layout d)) \<le> bc_max_target_fps config)"

lemma paced_None [simp]: "paced lib config None"
  by (simp add: paced_def)

lemma and_then_pending:
  "pub_pending (snd m) = p \<Longrightarrow> Q p \<Longrightarrow> (\<And>a s. m = (Inr a, s) \<Longrightarrow> pub_pending s = p \<Longrightarrow> Q (pub_pending (snd (f a s))))
   \<Longrightarrow> Q (pub_pending (snd (and_then m f)))"
  by (cases m; cases "fst m") auto

lemma descriptor_paced:
  assumes lib: "layout_lib_ok (pl_layout lib)" and "paced (pl_layout lib) (pub_config s) (pub_pending s)"
  shows "paced (pl_layout lib) (pub_config s) (pub_pending (snd (Publisher_publish_descriptor lib ops proposal now s)))"
proof (cases "pub_remote_hello s \<and> pub_pending s = None \<and> lp_target_fps (spr_layout proposal) \<le> bc_max_target_fps (pub_config s)")
  case False
  then have "pub_pending (snd (Publisher_publish_descriptor lib ops proposal now s)) = pub_pending s"
    by (auto simp: Publisher_publish_descriptor_def not_le)
  then show ?thesis using assms(2) by simp
next
  case True
  have new: "paced (pl_layout lib) (pub_config s) (Some \<lparr>sd_descriptor = d, sd_session_id = i, sd_generation = g, sd_layout = l, sd_topology = t\<rparr>)"
    if "ll_negotiate (pl_layout lib) (spr_layout_id proposal) (spr_layout proposal) (spr_descriptor proposal) = Inr l" for d i g l t
    using lib that True by (auto simp: layout_lib_ok_def paced_def)
  show ?thesis
    using True unfolding Publisher_publish_descriptor_def
    by (auto intro!: and_then_pending [where p = None and Q = "paced (pl_layout lib) (pub_config s)"] new split: option.split
        simp: result_map_err_def split: sum.splits)
qed

definition limited :: "BindingConfig \<Rightarrow> PublisherLog list \<Rightarrow> bool" where
  "limited config log =
     (spaced (\<lambda>t. t) (seconds 1) (2 * unat (bc_max_burst_fps config)) (frame_times log)
      \<and> spaced (\<lambda>t. t) (seconds 10) (20 * unat (bc_max_target_fps config)) (frame_times log))"

definition run_inv ::
  "('d, 'r, 's, 'p, 'v, 'q, 'x, 'l) LayoutLib \<Rightarrow> BindingConfig \<Rightarrow> Instant \<Rightarrow> PublisherLog list \<Rightarrow> ('c, 'd, 'l, 'a) Publisher \<Rightarrow> bool" where
  "run_inv lib config latest log s =
     (pub_config s = config \<and> paced lib config (pub_pending s) \<and> paced lib config (pub_active s)
      \<and> published_in_order log \<and> log_matches log s \<and> list_all (limited config) (butlast (connection_parts log))
      \<and> window_log (seconds 1) (unat (bc_max_burst_fps config)) (frame_times (last (connection_parts log))) latest (pub_burst s)
      \<and> window_log (seconds 10) (10 * unat (bc_max_target_fps config)) (frame_times (last (connection_parts log))) latest (pub_sustained s))"

lemma run_inv_view:
  assumes "run_inv lib config latest log s" "pub_view s' = pub_view s" "paced lib config (pub_pending s')"
  shows "run_inv lib config latest log s'"
  using assms log_matches_view [OF assms(2)] by (simp add: run_inv_def pub_view_def)

lemma frame_times_simps [simp]:
  "frame_times [] = []" "frame_times (log @ [Pl_Ready]) = frame_times log" "frame_times (log @ [Pl_Sent a g q t]) = frame_times log @ [t]"
  "frame_times (log @ [Pl_Failed t]) = frame_times log @ [t]"
  by (simp_all add: frame_times_def)

lemma run_inv_limited:
  assumes "run_inv lib config latest log s"
  shows "list_all (limited config) (connection_parts log)"
proof -
  have "limited config (last (connection_parts log))" using assms by (auto simp: run_inv_def window_log_def limited_def)
  moreover have "list_all (limited config) (butlast (connection_parts log))" using assms by (simp add: run_inv_def)
  ultimately show ?thesis by (intro segments_all)
qed

lemma run_inv_control:
  assumes "run_inv lib config latest log s" "control_effect s s'"
  shows "run_inv lib config latest (log @ (if takes_up s s' then [Pl_Ready] else [])) s'"
proof (cases "takes_up s s'")
  case True
  with assms show ?thesis
    by (auto simp: run_inv_def control_effect_def in_order_other matches_boundary takes_up_def segments_snoc)
next
  case False
  with assms have "pub_view s' = pub_view s" "paced lib config (pub_pending s')" by (simp_all add: control_effect_def run_inv_def)
  with run_inv_view [OF assms(1)] False show ?thesis by simp
qed

lemma run_inv_reset:
  assumes inv: "run_inv lib config latest log s" and "latest \<le> now1" "now1 \<le> now2"
    and reset: "Publisher_reset_for_reconnect ops connection authorization now1 now2 s = (r, s')"
  shows "run_inv lib config now2 (log @ (if is_ok r then [Pl_Reset] else [])) s'"
proof (cases "is_ok r")
  case False
  then have "s' = s" using reset by (auto simp: Publisher_reset_for_reconnect_def is_ok_def split: sum.splits if_splits)
  with inv False assms(2,3) show ?thesis by (auto simp: run_inv_def intro: window_log_later)
next
  case True
  then have s': "pub_config s' = pub_config s" "pub_pending s' = None" "pub_active s' = None"
    "pub_burst s' = (now1, 0)" "pub_sustained s' = (now2, 0)"
    using reset
    by (auto simp: Publisher_reset_for_reconnect_def is_ok_def pub_burst_def pub_sustained_def split: sum.splits if_splits)
  have "published_in_order (log @ [Pl_Reset])" using inv by (intro in_order_other) (simp_all add: run_inv_def)
  with inv True s' assms(3) run_inv_limited [OF inv] show ?thesis
    by (simp add: run_inv_def matches_boundary segments_snoc window_log_start)
qed

lemma run_inv_send:
  assumes inv: "run_inv (pl_layout lib) config latest log s" and now: "latest \<le> now1"
    and send: "Publisher_try_send_latest lib reserve ops now1 now2 result s = (r, s')"
  shows "run_inv (pl_layout lib) config now1
    (log @ (if is_ok r then [Pl_Sent (ntr_session_id result) (ntr_generation result) (ntr_sequence result) now1]
            else if passes_limits lib now1 s then [Pl_Failed now1] else [])) s'"
proof (cases rule: try_send_latest_cases [of lib reserve ops now1 now2 result s])
  case (idle e)
  then have "\<not> passes_limits lib now1 s" by (auto simp: passes_limits_def)
  with idle(1) inv send now show ?thesis by (auto simp: run_inv_def is_ok_def intro: window_log_later)
next
  case (noted active ok s1 r' s'')
  let ?fps = "lp_target_fps (ll_proposal (pl_layout lib) (sd_layout active))"
  let ?part = "frame_times (last (connection_parts log))"
  have r: "r' = r" "s'' = s'" using noted(3) send by simp_all
  have passes: "passes_limits lib now1 s = ok" using noted(1,2,6) by (simp add: passes_limits_def)
  have config: "pub_config s = config" and fps: "unat ?fps \<le> unat (bc_max_target_fps config)"
    using inv noted(1) by (auto simp: run_inv_def paced_def word_le_nat_alt)
  have s1: "pub_config s1 = config" "pub_active s1 = pub_active s" "pub_last_published_sequence s1 = pub_last_published_sequence s"
    using noted(2) config by (auto simp: admits_frame_def Publisher_note_frame_def Let_def split: if_splits)
  have burst: "window_log (seconds 1) (unat (bc_max_burst_fps config)) (if ok then ?part @ [now1] else ?part) now1 (pub_burst s1)"
    using inv by (intro burst_window.step_log [OF config _ now noted(2)]) (simp_all add: run_inv_def)
  have sustained: "window_log (seconds 10) (10 * unat (bc_max_target_fps config))
      (if ok then ?part @ [now1] else ?part) now1 (pub_sustained s1)"
    using inv fps noted(2)
    by (intro sustained_window.step_log [OF TrueI _ now, where i = ?fps and ok = ok]) (simp_all add: run_inv_def)
  have pending: "pub_pending s' = pub_pending s"
    using try_send_keeps_pending [of lib reserve ops now1 now2 result s] send by simp
  have matches: "published_in_order log" "log_matches log s1" "paced (pl_layout lib) config (pub_active s1)"
    "list_all (limited config) (butlast (connection_parts log))" "paced (pl_layout lib) config (pub_pending s)"
    using inv log_matches_cong [OF s1(2,3)] s1(2) by (simp_all add: run_inv_def)
  show ?thesis
  proof (cases "is_ok r")
    case True
    let ?sent = "Pl_Sent (ntr_session_id result) (ntr_generation result) (ntr_sequence result) now1"
    have view: "pub_view s' = pub_view (s1\<lparr>pub_last_published_sequence := Some (ntr_sequence result)\<rparr>)"
      using noted(5) True r by (simp add: publishes_def)
    have logs: "published_in_order (log @ [?sent])"
      "log_matches (log @ [?sent]) (s1\<lparr>pub_last_published_sequence := Some (ntr_sequence result)\<rparr>)"
      using noted(1,4) True r s1(2) by (auto intro!: sent_snoc [OF matches(1,2)])
    show ?thesis
      using True noted(4) r logs log_matches_view [OF view] view burst sustained pending matches(3-5) s1(1)
      by (simp add: run_inv_def pub_view_def pub_burst_def pub_sustained_def segments_snoc)
  next
    case False
    have view: "pub_view s' = pub_view s1" using noted(5) False r by (simp add: publishes_def)
    show ?thesis
      using False passes log_matches_view [OF view] view burst sustained pending matches s1(1)
      by (auto simp: run_inv_def pub_view_def segments_snoc in_order_other matches_failed)
  qed
qed

lemma run_inv_apply:
  assumes inv: "run_inv (pl_layout lib) config latest log s" and lib: "layout_lib_ok (pl_layout lib)"
    and step: "Publisher_apply lib reserve ops action s = (log', s')" and sorted: "sorted (call_times [action])" and later: "\<forall>t \<in> set (call_times [action]). latest \<le> t"
  shows "run_inv (pl_layout lib) config (last (latest # call_times [action])) (log @ log') s'"
proof (cases action)
  case Pub_Hello
  with step run_inv_view [OF inv, of s'] inv show ?thesis by (auto simp: Publisher_apply_def call_times_def run_inv_def)
next
  case (Pub_Descriptor proposal now)
  with step run_inv_view [OF inv, of s'] descriptor_paced [OF lib, of s ops proposal now] inv show ?thesis
    by (auto simp: Publisher_apply_def call_times_def run_inv_def)
next
  case (Pub_Control ns)
  with step run_inv_control [OF inv poll_control_effect, of lib ops ns] show ?thesis
    by (auto simp: Publisher_apply_def call_times_def Let_def)
next
  case (Pub_Send result now1 now2)
  with step later run_inv_send [OF inv, of now1 reserve ops now2 result] show ?thesis
    by (auto simp: Publisher_apply_def call_times_def split: prod.splits)
next
  case (Pub_Reset connection authorization now1 now2)
  with later sorted have "latest \<le> now1" "now1 \<le> now2" by (simp_all add: call_times_def)
  with step Pub_Reset run_inv_reset [OF inv, of now1 now2 ops connection authorization] show ?thesis
    by (auto simp: Publisher_apply_def call_times_def split: prod.splits)
next
  case Pub_Bound
  with step inv show ?thesis by (simp add: Publisher_apply_def call_times_def)
qed

lemma run_inv_run:
  assumes "run_inv (pl_layout lib) config latest log s" "layout_lib_ok (pl_layout lib)" "sorted (latest # call_times actions)"
    "Publisher_run lib reserve ops actions s = (log', s')"
  shows "\<exists>latest'. run_inv (pl_layout lib) config latest' (log @ log') s'"
  using assms(1,3,4)
proof (induction actions arbitrary: s log log' latest)
  case (Cons action actions)
  obtain log1 s1 log2 where split: "Publisher_apply lib reserve ops action s = (log1, s1)"
    "Publisher_run lib reserve ops actions s1 = (log2, s')" "log' = log1 @ log2"
    using Cons.prems(3) by (auto split: prod.splits)
  have sends: "call_times (action # actions) = call_times [action] @ call_times actions" by (simp add: call_times_def)
  have "run_inv (pl_layout lib) config (last (latest # call_times [action])) (log @ log1) s1"
    using Cons.prems(2) by (intro run_inv_apply [OF Cons.prems(1) assms(2) split(1)]) (auto simp: sends sorted_append)
  moreover have "sorted (last (latest # call_times [action]) # call_times actions)"
    using Cons.prems(2) unfolding sends by (auto simp: sorted_append)
  ultimately show ?case using Cons.IH [of "last (latest # call_times [action])" "log @ log1" s1 log2] split(2,3) by simp
qed auto

lemma run_inv_new:
  assumes "Publisher_new ops connection authorization config now1 now2 = Inr s"
  shows "run_inv lib config (max now1 now2) [] s"
proof -
  have "s = \<lparr>pub_connection = connection, pub_authorization = authorization, pub_transport_mode = transport_mode_of ops connection,
      pub_config = config, pub_remote_hello = False, pub_pending = None, pub_pending_accepted = False, pub_active = None,
      pub_playback = Ps_Stopped, pub_outbox = [], pub_compact_samples = [], pub_compact_bytes = [],
      pub_reliable = ReliableLatestSender_default, pub_reconfigure_times = [], pub_frame_window_started = now1,
      pub_frame_window_count = 0, pub_sustained_window_started = now2, pub_sustained_frame_count = 0, pub_rate_limited = 0,
      pub_last_published_sequence = None, pub_geometry_requested = False, pub_last_report = None\<rparr>"
    using assms by (auto simp: Publisher_new_def result_bind_eq_Inr BindingConfig_validate_def split: if_splits)
  then show ?thesis
    by (simp add: run_inv_def pub_burst_def pub_sustained_def published_in_order_def log_matches_def window_log_start)
qed

subsection \<open>Properties\<close>


text \<open>A publisher on a scripted connection whose peer agrees to the proposed layout and starts the stream.\<close>

definition demo_publisher_lib :: "(u8, u8, u16, u8, u8, u8, unit, demo_layout, u8, unit, u8) PublisherLib" where
  "demo_publisher_lib = \<lparr>pl_control = demo_control_lib, pl_layout = demo_layout_lib, pl_validate_result = (\<lambda>d result. Inr ()),
     pl_rig_get = (\<lambda>result signal. Some 1), pl_unavailable = 0, pl_encode_frame = (\<lambda>layout input buffer. (Inr (), [2])),
     pl_encode_result = (\<lambda>result. Inr [3])\<rparr>"

definition demo_publishing :: "(script, u8, u8, u16, u8, u8, u8, u8, unit) PublisherOp list" where
  "demo_publishing = [Pub_Control 0, Pub_Descriptor demo_session_proposal 0, Pub_Control 0, Pub_Control 0, Pub_Control 0,
     Pub_Send (demo_result 1) 5 5]"

definition demo_publisher :: "demo_message list \<Rightarrow> (script, u8, demo_layout, u8) Publisher" where
  "demo_publisher messages = \<lparr>pub_connection = \<lparr>sc_control = messages, sc_data = []\<rparr>,
     pub_authorization = script_authorization Nr_Publisher, pub_transport_mode = ReliableLatestOnly,
     pub_config = BindingConfig_default, pub_remote_hello = False, pub_pending = None, pub_pending_accepted = False, pub_active = None,
     pub_playback = Ps_Stopped, pub_outbox = [], pub_compact_samples = [], pub_compact_bytes = [],
     pub_reliable = ReliableLatestSender_default, pub_reconfigure_times = [], pub_frame_window_started = 0,
     pub_frame_window_count = 0, pub_sustained_window_started = 0, pub_sustained_frame_count = 0, pub_rate_limited = 0,
     pub_last_published_sequence = None, pub_geometry_requested = False, pub_last_report = None\<rparr>"

lemma demo_publisher_new:
  "Publisher_new script_ops \<lparr>sc_control = messages, sc_data = []\<rparr> (script_authorization Nr_Publisher) BindingConfig_default 0 0
    = (Inr (demo_publisher messages) :: (unit BindingError, _) result)"
  by (simp add: demo_publisher_def Publisher_new_def BindingConfig_validate_def BindingConfig_default_def script_ops_def
      validate_connection_authorization_def script_metadata_def script_authorization_def transport_mode_of_def)

definition demo_session :: "(u8, demo_layout) SessionDefinition" where
  "demo_session = \<lparr>sd_descriptor = 9, sd_session_id = 3, sd_generation = 4, sd_layout = (7, spr_layout demo_session_proposal),
     sd_topology = spr_topology demo_session_proposal\<rparr>"

lemma demo_flush_nothing [simp]:
  "ReliableLatestSender_flush send ReliableLatestSender_default c = (Inr (), ReliableLatestSender_default, c)"
proof -
  have "next_pending ReliableLatestSender_default = None" unfolding next_pending_def ReliableLatestSender_default_def by code_simp
  then show ?thesis by (simp add: ReliableLatestSender_flush.simps)
qed

lemmas demo_publisher_defs = Publisher_apply_def Publisher_poll_control_def Publisher_flush_control_def demo_publisher_def
  Publisher_receive_control_def Publisher_flush_reliable_def demo_publisher_lib_def Publisher_handle_control_def
  Publisher_queue_control_def takes_up_def demo_session_def demo_layout_lib_def

lemma demo_publisher_hello:
  "Publisher_apply demo_publisher_lib reserve script_ops (Pub_Control 0) (demo_publisher (demo_hello # messages))
    = ([], demo_publisher messages\<lparr>pub_remote_hello := True\<rparr>)"
  by (simp add: demo_publisher_defs)
    (simp add: demo_hello_def script_authorization_def validate_hello_def ProtocolHello_new_def)

lemma demo_publisher_descriptor:
  "Publisher_apply demo_publisher_lib reserve script_ops (Pub_Descriptor demo_session_proposal 0) (demo_publisher messages\<lparr>pub_remote_hello := True\<rparr>)
    = ([], demo_publisher messages\<lparr>pub_remote_hello := True, pub_pending := Some demo_session\<rparr>)"
  by (simp add: demo_publisher_defs Publisher_publish_descriptor_def result_map_err_def del: flush_control.simps(2))

lemma demo_publisher_accepted:
  "Publisher_apply demo_publisher_lib reserve script_ops (Pub_Control 0)
      (demo_publisher (demo_accepted # messages)\<lparr>pub_remote_hello := True, pub_pending := Some demo_session\<rparr>)
    = ([], demo_publisher messages\<lparr>pub_remote_hello := True, pub_pending := Some demo_session, pub_pending_accepted := True\<rparr>)"
  by (simp add: demo_publisher_defs)
    (simp add: demo_accepted_def demo_publisher_defs Publisher_layout_accepted_def flip: demo_confirmed_def
        del: flush_control.simps(2))

lemma demo_publisher_ready:
  "Publisher_apply demo_publisher_lib reserve script_ops (Pub_Control 0)
      (demo_publisher (demo_ready # messages)\<lparr>pub_remote_hello := True, pub_pending := Some demo_session, pub_pending_accepted := True\<rparr>)
    = ([Pl_Ready], demo_publisher messages\<lparr>pub_remote_hello := True, pub_active := Some demo_session, pub_compact_samples := [0, 0],
         pub_compact_bytes := [0], pub_playback := Ps_Paused\<rparr>)"
  by (simp add: demo_publisher_defs)
    (simp add: demo_ready_def demo_publisher_defs Publisher_session_ready_def vec_resize_def numeral_2_eq_2)

lemma demo_publisher_start:
  "Publisher_apply demo_publisher_lib reserve script_ops (Pub_Control 0)
      (demo_publisher (demo_start # messages)\<lparr>pub_remote_hello := True, pub_active := Some demo_session, pub_compact_samples := [0, 0],
         pub_compact_bytes := [0], pub_playback := Ps_Paused\<rparr>)
    = ([], demo_publisher messages\<lparr>pub_remote_hello := True, pub_active := Some demo_session, pub_compact_samples := [0, 0],
         pub_compact_bytes := [0], pub_playback := Ps_Running\<rparr>)"
  by (simp add: demo_publisher_defs) (simp add: demo_start_def playback_after_def)

lemma demo_enqueue:
  assumes "length payload \<le> 1024"
  obtains outcome sender where "ReliableLatestSender_enqueue reserve flow g q p payload 8388608 s
    = (Inr outcome :: (unit BindingError, SendOutcome) result, sender)"
proof -
  have "is_ok (fst (ReliableLatestSender_enqueue reserve flow g q p payload 8388608 s :: (unit BindingError, SendOutcome) result \<times> _))"
    using assms
    by (simp add: ReliableLatestSender_enqueue_def usize_checked_add_def usize_max_def RELIABLE_HEADER_LEN_def is_ok_def Let_def split: prod.split)
  then show thesis using that by (metis is_ok_iff prod.collapse)
qed

lemma demo_flush:
  fixes s :: ReliableLatestSender and c :: script
  obtains sender where "ReliableLatestSender_flush (\<lambda>m c. (Inr (), c)) s c = (Inr () :: (unit BindingError, unit) result, sender, c)"
proof -
  have "\<exists>sender. ReliableLatestSender_flush (\<lambda>m c. (Inr (), c)) s c = (Inr () :: (unit BindingError, unit) result, sender, c)"
    by (induction "\<lambda>(m :: bytes) (c :: script). (Inr () :: (TransportError, unit) result, c)" s c rule: ReliableLatestSender_flush.induct)
      (subst ReliableLatestSender_flush.simps, auto split: option.split prod.split)
  then show thesis using that by blast
qed

lemma demo_publisher_send:
  "fst (Publisher_apply demo_publisher_lib reserve script_ops (Pub_Send (demo_result 1) 5 5)
      (demo_publisher messages\<lparr>pub_remote_hello := True, pub_active := Some demo_session, pub_compact_samples := [0, 0],
         pub_compact_bytes := [0], pub_playback := Ps_Running\<rparr>))
    = [Pl_Sent 3 4 1 5]"
proof -
  let ?c = "\<lparr>sc_control = messages, sc_data = []\<rparr>"
  obtain out1 s1 where 1: "ReliableLatestSender_enqueue reserve COMPACT_RIG_FLOW 4 1 Rt_Critical [2] 8388608 ReliableLatestSender_default
    = (Inr out1 :: (unit BindingError, SendOutcome) result, s1)" by (rule demo_enqueue [of "[2]"]) simp
  obtain out2 s2 where 2: "ReliableLatestSender_enqueue reserve CORE_RESULT_FLOW 4 1 Rt_High [3] 8388608 s1
    = (Inr out2 :: (unit BindingError, SendOutcome) result, s2)" by (rule demo_enqueue [of "[3]"]) simp
  obtain s3 where 3: "ReliableLatestSender_flush (\<lambda>m c. (Inr (), c)) s2 ?c = (Inr () :: (unit BindingError, unit) result, s3, ?c)"
    by (rule demo_flush)
  have "co_try_send script_ops = (\<lambda>m c. (Inr (), c))" by (simp add: script_ops_def)
  with 1 2 3 show ?thesis
    by (simp add: demo_publisher_defs Publisher_try_send_latest_def Publisher_note_frame_def seconds_def demo_result_def
        Publisher_encode_compact_def core_wire_of_def Publisher_geometry_wire_def Publisher_publish_reliable_def Publisher_enqueue_def
        result_map_err_def is_ok_def sat_mul_def)
qed

lemma demo_publishing_run:
  "fst (Publisher_run demo_publisher_lib reserve script_ops demo_publishing (demo_publisher [demo_hello, demo_accepted, demo_ready, demo_start]))
    = [Pl_Ready, Pl_Sent 3 4 1 5]"
  by (simp add: demo_publishing_def demo_publisher_hello demo_publisher_descriptor demo_publisher_accepted demo_publisher_ready
      demo_publisher_start demo_publisher_send split: prod.split)
    (metis demo_publisher_send fst_conv)


end
