(* ===== verification/Link_Ntp_Subscriber.thy ===== *)
theory Link_Ntp_Subscriber
  imports Link_Ntp_Publisher Link_Ntp_Reassembly
begin

text \<open>
  The subscribing end of the tracking binding, \<^verbatim>\<open>Subscriber\<close> of \<^verbatim>\<open>ntp-mutsuki-link/src/lib.rs\<close>. What it
  calls of the tracking protocol library is a record of operations: the negotiator of layouts, the guards
  of the two streams, the codec of results and the clock estimate. The frame handed to the callback of
  \<^verbatim>\<open>poll_realtime\<close> is part of what the poll returns. A poll is \<open>None\<close> where the source would panic.
\<close>

subsection \<open>The subscriber's state\<close>

datatype SubscriberEvent =
    Se_HelloAccepted | Se_ProposalAccepted | Se_SessionReady | Se_ClockSynchronized | Se_RemoteError u16 | Se_RemoteClosed u16

datatype ReceiveOutcome = Rv_Idle | Rv_Progress

record 'f CompactFrame =
  cfr_sequence :: u64
  cfr_generation :: u32
  cfr_capture_timestamp_ns :: u64
  cfr_body :: 'f

record ('d, 'r, 's, 'p, 'v, 'q, 'x, 'l, 'm, 'b, 'n, 'g, 'h, 'e, 'f) SubscriberLib =
  sl_control :: "('d, 'r, 's, 'p, 'v, 'q, 'x) ControlLib"
  sl_layout :: "('d, 'r, 's, 'p, 'v, 'q, 'x, 'l) LayoutLib"
  sl_negotiator_new :: "('x, 'n) result"
  sl_receive_proposal :: "u32 \<Rightarrow> ('r, 's, 'p, 'v, 'q) LayoutProposal \<Rightarrow> 'd \<Rightarrow> u64 \<Rightarrow> 'n \<Rightarrow> ('x, LayoutAccept) result \<times> 'n"
  sl_confirm :: "LayoutConfirm \<Rightarrow> 'n \<Rightarrow> ('x, 'l) result \<times> 'n"
  sl_compact_confirmed :: "u128 \<Rightarrow> u32 \<Rightarrow> 'l \<Rightarrow> LayoutConfirm \<Rightarrow> CompactStreamPolicy \<Rightarrow> ('x, 'g) result"
  sl_compact_accept :: "bytes \<Rightarrow> 'e \<Rightarrow> 'g \<Rightarrow> ('x, 'f CompactFrame) result \<times> 'g"
  sl_result_guard :: "u128 \<Rightarrow> u32 \<Rightarrow> 'h"
  sl_result_accept :: "('m, 'b) NanaTrackingResult \<Rightarrow> 'h \<Rightarrow> ('x, u64) result \<times> 'h"
  sl_validate_result :: "'d \<Rightarrow> ('m, 'b) NanaTrackingResult \<Rightarrow> ('x, unit) result"
  sl_decode_result :: "bytes \<Rightarrow> ('x, ('m, 'b) NanaTrackingResult) result"
  sl_clock_now_ns :: "'e \<Rightarrow> u64"
  sl_clock_uncertainty_ns :: "'e \<Rightarrow> u64"
  sl_clock_synchronized :: "u64 \<Rightarrow> u64 \<Rightarrow> 'e"

record ('d, 'l, 'g, 'h) SubscriberSession =
  ss_descriptor :: 'd
  ss_session_id :: u128
  ss_generation :: u32
  ss_layout :: 'l
  ss_topology :: GeometryTopology
  ss_compact_guard :: 'g
  ss_result_guard :: 'h

record 'm GeometryCache =
  gc_session_id :: u128
  gc_generation :: u32
  gc_sequence :: u64
  gc_landmarks :: "'m list"

record ('c, 'd, 'r, 's, 'p, 'v, 'q, 'l, 'm, 'n, 'g, 'h) NtpSubscriber =
  sub_connection :: 'c
  sub_authorization :: NtpAuthorization
  sub_transport_mode :: TrackingTransportMode
  sub_config :: BindingConfig
  sub_remote_hello :: bool
  sub_negotiator :: 'n
  sub_pending :: "('d, 'r, 's, 'p, 'v, 'q) SessionProposal option"
  sub_active :: "('d, 'l, 'g, 'h) SubscriberSession option"
  sub_outbox :: "bytes list"
  sub_core_reassembly :: Reassembler
  sub_geometry_reassembly :: Reassembler
  sub_reliable :: ReliableLatestReceiver
  sub_geometry_cache :: "'m GeometryCache option"
  sub_report :: ReceiverReport
  sub_previous_age_ns :: "u64 option"
  sub_clock :: ClockSynchronizer
  sub_reconfigure_times :: "Instant list"
  sub_receive_window_started :: Instant
  sub_receive_window_count :: u16
  sub_sustained_receive_window_started :: Instant
  sub_sustained_receive_count :: u32
  sub_rate_limited :: u64
  sub_protocol_violations :: u16
  sub_malformed_frames :: u64
  sub_fused :: bool

type_synonym ('c, 'd, 'r, 's, 'p, 'v, 'q, 'l, 'm, 'n, 'g, 'h, 'x, 'a) sub_step =
  "('c, 'd, 'r, 's, 'p, 'v, 'q, 'l, 'm, 'n, 'g, 'h) NtpSubscriber
     \<Rightarrow> ('x BindingError, 'a) result \<times> ('c, 'd, 'r, 's, 'p, 'v, 'q, 'l, 'm, 'n, 'g, 'h) NtpSubscriber"

definition Subscriber_new ::
  "('d, 'r, 's, 'p, 'v, 'q, 'x, 'l, 'm, 'b, 'n, 'g, 'h, 'e, 'f) SubscriberLib \<Rightarrow> 'c ConnectionOps \<Rightarrow> 'c \<Rightarrow> NtpAuthorization
     \<Rightarrow> BindingConfig \<Rightarrow> Instant \<Rightarrow> Instant \<Rightarrow> ('x BindingError, ('c, 'd, 'r, 's, 'p, 'v, 'q, 'l, 'm, 'n, 'g, 'h) NtpSubscriber) result" where
  "Subscriber_new lib ops connection authorization config now1 now2 =
     result_bind (BindingConfig_validate config) (\<lambda>config.
     result_bind (validate_connection_authorization (co_metadata ops connection) authorization Nr_Subscriber) (\<lambda>_.
       if \<not> cm_reliable (co_metadata ops connection) then Inl Be_InvalidState
       else
         result_bind (result_map_err Be_Handshake (sl_negotiator_new lib)) (\<lambda>negotiator.
           Inr \<lparr>sub_connection = connection, sub_authorization = authorization,
                sub_transport_mode = transport_mode_of ops connection, sub_config = config, sub_remote_hello = False,
                sub_negotiator = negotiator, sub_pending = None, sub_active = None, sub_outbox = [],
                sub_core_reassembly = Reassembler_new, sub_geometry_reassembly = Reassembler_new,
                sub_reliable = ReliableLatestReceiver_default, sub_geometry_cache = None, sub_report = ReceiverReport_default,
                sub_previous_age_ns = None, sub_clock = ClockSynchronizer_default, sub_reconfigure_times = [],
                sub_receive_window_started = now1, sub_receive_window_count = 0, sub_sustained_receive_window_started = now2,
                sub_sustained_receive_count = 0, sub_rate_limited = 0, sub_protocol_violations = 0, sub_malformed_frames = 0,
                sub_fused = False\<rparr>)))"

definition Subscriber_bound_session ::
  "('d, 'r, 's, 'p, 'v, 'q, 'x, 'l) LayoutLib \<Rightarrow> ('c, 'd, 'r, 's, 'p, 'v, 'q, 'l, 'm, 'n, 'g, 'h) NtpSubscriber
     \<Rightarrow> 'v BoundNtpSession option option" where
  "Subscriber_bound_session lib self =
     (case sub_active self of
        None \<Rightarrow> Some None
      | Some active \<Rightarrow>
          if ll_frame_len lib (ss_layout active) \<ge> 2 ^ 32 then None
          else Some (Some
            \<lparr>bns_peer_id = nau_peer_id (sub_authorization self), bns_link_session_id = nau_link_session_id (sub_authorization self),
             bns_ntp_session_id = ss_session_id active, bns_generation = ss_generation active,
             bns_layout_id = ll_layout_id lib (ss_layout active),
             bns_layout_hash = lc_layout_hash (ll_confirmation lib (ss_layout active)),
             bns_expected_frame_len = of_nat (ll_frame_len lib (ss_layout active)),
             bns_value_encoding = lp_value_encoding (ll_proposal lib (ss_layout active)),
             bns_target_fps = lp_target_fps (ll_proposal lib (ss_layout active)), bns_transport_mode = sub_transport_mode self\<rparr>))"

definition Subscriber_telemetry :: "('c, 'd, 'r, 's, 'p, 'v, 'q, 'l, 'm, 'n, 'g, 'h) NtpSubscriber \<Rightarrow> TrackingTelemetry" where
  "Subscriber_telemetry self = TrackingTelemetry_default
     \<lparr>tt_queue_replacements := rlr_replacements (sub_reliable self), tt_rate_limited := sub_rate_limited self,
      tt_malformed_frames := sub_malformed_frames self, tt_fuse_tripped := sub_fused self,
      tt_replay_dropped := rlr_stale_discarded (sub_reliable self)\<rparr>"

subsection \<open>Notes\<close>

definition note_dropped :: "u64 \<Rightarrow> ('c, 'd, 'r, 's, 'p, 'v, 'q, 'l, 'm, 'n, 'g, 'h) NtpSubscriber
     \<Rightarrow> ('c, 'd, 'r, 's, 'p, 'v, 'q, 'l, 'm, 'n, 'g, 'h) NtpSubscriber" where
  "note_dropped n self = self\<lparr>sub_report := (sub_report self)\<lparr>rp_dropped := sat_add (rp_dropped (sub_report self)) n\<rparr>\<rparr>"

definition Subscriber_note_reconfigure ::
  "Instant \<Rightarrow> ('c, 'd, 'r, 's, 'p, 'v, 'q, 'l, 'm, 'n, 'g, 'h, 'x, unit) sub_step" where
  "Subscriber_note_reconfigure now self =
     (let recents = reconfigure_recent now (sub_reconfigure_times self);
          self = self\<lparr>sub_reconfigure_times := recents\<rparr>
      in if length recents \<ge> unat (bc_max_reconfigure_per_minute (sub_config self))
         then (Inl Be_RateLimited, self\<lparr>sub_rate_limited := sat_add (sub_rate_limited self) 1\<rparr>)
         else (Inr (), self\<lparr>sub_reconfigure_times := recents @ [now]\<rparr>))"

definition Subscriber_note_received_frame ::
  "Instant \<Rightarrow> u16 \<Rightarrow> ('c, 'd, 'r, 's, 'p, 'v, 'q, 'l, 'm, 'n, 'g, 'h, 'x, unit) sub_step" where
  "Subscriber_note_received_frame now target_fps self =
     (let self = (if now - sub_receive_window_started self \<ge> seconds 1
                  then self\<lparr>sub_receive_window_started := now, sub_receive_window_count := 0\<rparr> else self)
      in if sub_receive_window_count self \<ge> bc_max_burst_fps (sub_config self)
         then (Inl Be_RateLimited, note_dropped 1 (self\<lparr>sub_rate_limited := sat_add (sub_rate_limited self) 1\<rparr>))
         else
           let self = (if now - sub_sustained_receive_window_started self \<ge> seconds 10
                       then self\<lparr>sub_sustained_receive_window_started := now, sub_sustained_receive_count := 0\<rparr> else self);
               sustained_limit = sat_mul (ucast target_fps) 10
           in if sub_sustained_receive_count self \<ge> sustained_limit
              then (Inl Be_RateLimited, note_dropped 1 (self\<lparr>sub_rate_limited := sat_add (sub_rate_limited self) 1\<rparr>))
              else (Inr (), self\<lparr>sub_receive_window_count := sat_add (sub_receive_window_count self) 1,
                                 sub_sustained_receive_count := sat_add (sub_sustained_receive_count self) 1\<rparr>))"

definition Subscriber_note_reassembly_replacement ::
  "ReassemblyOutcome \<Rightarrow> ('c, 'd, 'r, 's, 'p, 'v, 'q, 'l, 'm, 'n, 'g, 'h) NtpSubscriber
     \<Rightarrow> ('c, 'd, 'r, 's, 'p, 'v, 'q, 'l, 'm, 'n, 'g, 'h) NtpSubscriber" where
  "Subscriber_note_reassembly_replacement outcome self =
     (let replaced = (case outcome of
            Ro_Pending replaced_incomplete \<Rightarrow> replaced_incomplete
          | Ro_Complete _ _ _ replaced_incomplete \<Rightarrow> replaced_incomplete
          | Ro_IgnoredOld \<Rightarrow> True)
      in if replaced then note_dropped 1 self else self)"

definition Subscriber_note_age ::
  "u64 \<Rightarrow> ('c, 'd, 'r, 's, 'p, 'v, 'q, 'l, 'm, 'n, 'g, 'h) NtpSubscriber \<Rightarrow> ('c, 'd, 'r, 's, 'p, 'v, 'q, 'l, 'm, 'n, 'g, 'h) NtpSubscriber" where
  "Subscriber_note_age age_ns self =
     (let report = sub_report self;
          jitter_ns = (case sub_previous_age_ns self of
            None \<Rightarrow> rp_jitter_ns report
          | Some previous \<Rightarrow>
              let sample = (if previous \<le> age_ns then age_ns - previous else previous - age_ns) in
              if rp_jitter_ns report = 0 then sample
              else sat_add (sat_mul (rp_jitter_ns report) 7) sample div 8)
      in self\<lparr>sub_previous_age_ns := Some age_ns,
              sub_report := report\<lparr>rp_jitter_ns := jitter_ns, rp_result_age_ns := age_ns\<rparr>\<rparr>)"

subsection \<open>Control messages\<close>

definition Subscriber_flush_control ::
  "'c ConnectionOps \<Rightarrow> ('c, 'd, 'r, 's, 'p, 'v, 'q, 'l, 'm, 'n, 'g, 'h, 'x, unit) sub_step" where
  "Subscriber_flush_control ops self =
     (case flush_control ops (sub_outbox self) (sub_connection self) of
        (r, outbox, connection) \<Rightarrow> (r, self\<lparr>sub_outbox := outbox, sub_connection := connection\<rparr>))"

definition Subscriber_queue_control ::
  "('d, 'r, 's, 'p, 'v, 'q, 'x) ControlLib \<Rightarrow> ('d, 'r, 's, 'p, 'v, 'q) ControlMessage
     \<Rightarrow> ('c, 'd, 'r, 's, 'p, 'v, 'q, 'l, 'm, 'n, 'g, 'h, 'x, unit) sub_step" where
  "Subscriber_queue_control lib message self =
     (case queue_control lib message (sub_config self) (sub_outbox self) of (r, outbox) \<Rightarrow> (r, self\<lparr>sub_outbox := outbox\<rparr>))"

definition Subscriber_receive_control ::
  "('d, 'r, 's, 'p, 'v, 'q, 'x) ControlLib \<Rightarrow> 'c ConnectionOps
     \<Rightarrow> ('c, 'd, 'r, 's, 'p, 'v, 'q, 'l, 'm, 'n, 'g, 'h, 'x, ('d, 'r, 's, 'p, 'v, 'q) ControlMessage option) sub_step" where
  "Subscriber_receive_control lib ops self =
     (case receive_control lib ops (sub_config self) (sub_connection self) of
        (r, connection) \<Rightarrow> (r, self\<lparr>sub_connection := connection\<rparr>))"

definition Subscriber_send_message ::
  "('d, 'r, 's, 'p, 'v, 'q, 'x) ControlLib \<Rightarrow> 'c ConnectionOps \<Rightarrow> ('d, 'r, 's, 'p, 'v, 'q) ControlMessage
     \<Rightarrow> ('c, 'd, 'r, 's, 'p, 'v, 'q, 'l, 'm, 'n, 'g, 'h, 'x, unit) sub_step" where
  "Subscriber_send_message lib ops message self =
     and_then (Subscriber_queue_control lib message self) (\<lambda>_. Subscriber_flush_control ops)"

definition Subscriber_try_send_hello ::
  "('d, 'r, 's, 'p, 'v, 'q, 'x) ControlLib \<Rightarrow> 'c ConnectionOps
     \<Rightarrow> ('c, 'd, 'r, 's, 'p, 'v, 'q, 'l, 'm, 'n, 'g, 'h, 'x, unit) sub_step" where
  "Subscriber_try_send_hello lib ops self =
     Subscriber_send_message lib ops (Cm_Hello (ProtocolHello_new (nau_link_session_id (sub_authorization self)))) self"

definition Subscriber_try_send_command ::
  "('d, 'r, 's, 'p, 'v, 'q, 'x) ControlLib \<Rightarrow> 'c ConnectionOps \<Rightarrow> SessionCommand
     \<Rightarrow> ('c, 'd, 'r, 's, 'p, 'v, 'q, 'l, 'm, 'n, 'g, 'h, 'x, unit) sub_step" where
  "Subscriber_try_send_command lib ops command self =
     (if sub_active self = None then (Inl Be_InvalidState, self) else Subscriber_send_message lib ops (Cm_Command command) self)"

definition Subscriber_try_request_geometry ::
  "('d, 'r, 's, 'p, 'v, 'q, 'x) ControlLib \<Rightarrow> 'c ConnectionOps
     \<Rightarrow> ('c, 'd, 'r, 's, 'p, 'v, 'q, 'l, 'm, 'n, 'g, 'h, 'x, unit) sub_step" where
  "Subscriber_try_request_geometry lib ops self =
     (if sub_active self = None then (Inl Be_InvalidState, self) else Subscriber_send_message lib ops Cm_GeometryRequest self)"

definition Subscriber_try_send_ping ::
  "('d, 'r, 's, 'p, 'v, 'q, 'x) ControlLib \<Rightarrow> 'c ConnectionOps \<Rightarrow> u64
     \<Rightarrow> ('c, 'd, 'r, 's, 'p, 'v, 'q, 'l, 'm, 'n, 'g, 'h, 'x, unit) sub_step" where
  "Subscriber_try_send_ping lib ops receiver_now_ns self =
     Subscriber_send_message lib ops (Cm_Ping receiver_now_ns)
       (self\<lparr>sub_clock := ClockSynchronizer_note_ping receiver_now_ns (sub_clock self)\<rparr>)"

definition Subscriber_try_send_receiver_report ::
  "('d, 'r, 's, 'p, 'v, 'q, 'x) ControlLib \<Rightarrow> 'c ConnectionOps
     \<Rightarrow> ('c, 'd, 'r, 's, 'p, 'v, 'q, 'l, 'm, 'n, 'g, 'h, 'x, unit) sub_step" where
  "Subscriber_try_send_receiver_report lib ops self =
     Subscriber_send_message lib ops (Cm_ReceiverReport (sub_report self)) self"

definition Subscriber_producer_clock ::
  "('d, 'r, 's, 'p, 'v, 'q, 'x, 'l, 'm, 'b, 'n, 'g, 'h, 'e, 'f) SubscriberLib \<Rightarrow> u64
     \<Rightarrow> ('c, 'd, 'r, 's, 'p, 'v, 'q, 'l, 'm, 'n, 'g, 'h) NtpSubscriber \<Rightarrow> 'e option" where
  "Subscriber_producer_clock lib receiver_now_ns self =
     ClockSynchronizer_estimate (sl_clock_synchronized lib) receiver_now_ns (sub_clock self)"

definition Subscriber_session_proposal ::
  "('d, 'r, 's, 'p, 'v, 'q, 'x, 'l, 'm, 'b, 'n, 'g, 'h, 'e, 'f) SubscriberLib \<Rightarrow> u64 \<Rightarrow> Instant
     \<Rightarrow> ('d, 'r, 's, 'p, 'v, 'q) SessionProposal \<Rightarrow> ('c, 'd, 'r, 's, 'p, 'v, 'q, 'l, 'm, 'n, 'g, 'h, 'x, SubscriberEvent) sub_step" where
  "Subscriber_session_proposal lib receiver_now_ns now proposal self =
     (if \<not> sub_remote_hello self \<or> sub_pending self \<noteq> None then (Inl Be_InvalidState, self)
      else
        and_then (if sub_active self \<noteq> None then Subscriber_note_reconfigure now self else (Inr (), self)) (\<lambda>_ self.
          if (case sub_active self of
                None \<Rightarrow> False
              | Some active \<Rightarrow> ss_session_id active = spr_session_id proposal \<and> spr_generation proposal \<le> ss_generation active)
          then (Inl Be_InvalidState, self)
          else
            case sl_receive_proposal lib (spr_layout_id proposal) (spr_layout proposal) (spr_descriptor proposal) receiver_now_ns
                   (sub_negotiator self) of
              (r, negotiator) \<Rightarrow>
                and_then (result_map_err Be_Handshake r, self\<lparr>sub_negotiator := negotiator\<rparr>) (\<lambda>accept self.
                and_then (Subscriber_queue_control (sl_control lib) (Cm_LayoutAccepted accept) self) (\<lambda>_ self.
                  (Inr Se_ProposalAccepted, self\<lparr>sub_pending := Some proposal\<rparr>)))))"

definition Subscriber_layout_confirmed ::
  "('d, 'r, 's, 'p, 'v, 'q, 'x, 'l, 'm, 'b, 'n, 'g, 'h, 'e, 'f) SubscriberLib \<Rightarrow> LayoutConfirm
     \<Rightarrow> ('c, 'd, 'r, 's, 'p, 'v, 'q, 'l, 'm, 'n, 'g, 'h, 'x, SubscriberEvent) sub_step" where
  "Subscriber_layout_confirmed lib confirm self =
     (case sub_pending self of
        None \<Rightarrow> (Inl Be_InvalidState, self)
      | Some proposal \<Rightarrow>
          case sl_confirm lib confirm (sub_negotiator self) of
            (r, negotiator) \<Rightarrow>
              and_then (result_map_err Be_Handshake r, self\<lparr>sub_pending := None, sub_negotiator := negotiator\<rparr>) (\<lambda>layout self.
              and_then (result_map_err Be_CompactStream
                          (sl_compact_confirmed lib (spr_session_id proposal) (spr_generation proposal) layout confirm
                            (bc_compact_policy (sub_config self))), self) (\<lambda>compact_guard self.
                let self = self\<lparr>
                  sub_active := Some \<lparr>ss_descriptor = spr_descriptor proposal, ss_session_id = spr_session_id proposal,
                    ss_generation = spr_generation proposal, ss_layout = layout, ss_topology = spr_topology proposal,
                    ss_compact_guard = compact_guard,
                    ss_result_guard = sl_result_guard lib (spr_session_id proposal) (spr_generation proposal)\<rparr>,
                  sub_core_reassembly := Reassembler_clear (sub_core_reassembly self),
                  sub_geometry_reassembly := Reassembler_clear (sub_geometry_reassembly self),
                  sub_geometry_cache := None, sub_previous_age_ns := None\<rparr>
                in and_then (Subscriber_queue_control (sl_control lib)
                       (Cm_SessionReady (spr_session_id proposal) (spr_generation proposal) (spr_layout_id proposal)) self)
                     (\<lambda>_ self. (Inr Se_SessionReady, self)))))"

definition Subscriber_handle_control ::
  "('d, 'r, 's, 'p, 'v, 'q, 'x, 'l, 'm, 'b, 'n, 'g, 'h, 'e, 'f) SubscriberLib \<Rightarrow> u64 \<Rightarrow> Instant
     \<Rightarrow> ('d, 'r, 's, 'p, 'v, 'q) ControlMessage \<Rightarrow> ('c, 'd, 'r, 's, 'p, 'v, 'q, 'l, 'm, 'n, 'g, 'h, 'x, SubscriberEvent) sub_step" where
  "Subscriber_handle_control lib receiver_now_ns now message self =
     (case message of
        Cm_Hello hello \<Rightarrow>
          (case validate_hello hello (nau_link_session_id (sub_authorization self)) of
             Inl e \<Rightarrow> (Inl e, self)
           | Inr _ \<Rightarrow> (Inr Se_HelloAccepted, self\<lparr>sub_remote_hello := True\<rparr>))
      | Cm_SessionProposal proposal \<Rightarrow> Subscriber_session_proposal lib receiver_now_ns now proposal self
      | Cm_LayoutConfirmed confirm \<Rightarrow> Subscriber_layout_confirmed lib confirm self
      | Cm_Pong receiver_send_ns producer_send_ns \<Rightarrow>
          (case ClockSynchronizer_note_pong receiver_send_ns producer_send_ns receiver_now_ns (sub_clock self) of
             (r, clock) \<Rightarrow>
               and_then (r, self\<lparr>sub_clock := clock\<rparr>) (\<lambda>_ self.
                 (Inr Se_ClockSynchronized,
                  self\<lparr>sub_report := (sub_report self)\<lparr>rp_clock_uncertainty_ns :=
                    (case cs_uncertainty (sub_clock self) of None \<Rightarrow> 0 | Some uncertainty \<Rightarrow> uncertainty)\<rparr>\<rparr>)))
      | Cm_Error code reason \<Rightarrow> (Inr (Se_RemoteError code), self)
      | Cm_Close code reason \<Rightarrow> (Inr (Se_RemoteClosed code), self)
      | _ \<Rightarrow> (Inl Be_InvalidControl, self))"

definition Subscriber_poll_control ::
  "('d, 'r, 's, 'p, 'v, 'q, 'x, 'l, 'm, 'b, 'n, 'g, 'h, 'e, 'f) SubscriberLib \<Rightarrow> 'c ConnectionOps \<Rightarrow> u64 \<Rightarrow> Instant
     \<Rightarrow> ('c, 'd, 'r, 's, 'p, 'v, 'q, 'l, 'm, 'n, 'g, 'h, 'x, SubscriberEvent option) sub_step" where
  "Subscriber_poll_control lib ops receiver_now_ns now self =
     and_then (Subscriber_flush_control ops self) (\<lambda>_ self.
     and_then (Subscriber_receive_control (sl_control lib) ops self) (\<lambda>message self.
       case message of
         None \<Rightarrow> (Inr None, self)
       | Some message \<Rightarrow>
           and_then (Subscriber_handle_control lib receiver_now_ns now message self) (\<lambda>event self.
           and_then (Subscriber_flush_control ops self) (\<lambda>_ self. (Inr (Some event), self)))))"

subsection \<open>Realtime messages\<close>

text \<open>What a poll yields: an outcome, a result for the caller, and the frame handed to the callback.\<close>

type_synonym ('m, 'b, 'f) received_parts = "ReceiveOutcome \<times> ('m, 'b) NanaTrackingResult option \<times> 'f CompactFrame option"

definition Subscriber_receive_realtime ::
  "'c ConnectionOps \<Rightarrow> (nat \<Rightarrow> Instant) \<Rightarrow> ('c, 'd, 'r, 's, 'p, 'v, 'q, 'l, 'm, 'n, 'g, 'h, 'x, ReceivedRealtimeDatagram option) sub_step" where
  "Subscriber_receive_realtime ops instants self =
     (if sub_transport_mode self = Datagram
      then
        case co_try_receive_realtime ops (sub_connection self) of
          (Inr message, connection) \<Rightarrow> (Inr message, self\<lparr>sub_connection := connection\<rparr>)
        | (Inl error, connection) \<Rightarrow>
            (if te_kind error = Te_WouldBlock then Inr None else Inl (Be_Transport error), self\<lparr>sub_connection := connection\<rparr>)
      else
        case ReliableLatestReceiver_poll (co_try_receive ops) instants (bc_max_tracking_frame_bytes (sub_config self))
               (bc_max_receive_frames_per_poll (sub_config self)) (sub_reliable self) (sub_connection self) of
          (r, reliable, connection) \<Rightarrow> (r, self\<lparr>sub_reliable := reliable, sub_connection := connection\<rparr>))"

definition Subscriber_compact_frame ::
  "('d, 'r, 's, 'p, 'v, 'q, 'x, 'l, 'm, 'b, 'n, 'g, 'h, 'e, 'f) SubscriberLib \<Rightarrow> 'e \<Rightarrow> ReceivedRealtimeDatagram
     \<Rightarrow> ('d, 'l, 'g, 'h) SubscriberSession \<Rightarrow> ('c, 'd, 'r, 's, 'p, 'v, 'q, 'l, 'm, 'n, 'g, 'h, 'x, ('m, 'b, 'f) received_parts) sub_step" where
  "Subscriber_compact_frame lib clock message active self =
     (if length (rr_payload message) \<noteq> ll_frame_len (sl_layout lib) (ss_layout active)
      then (Inl Be_LayoutMismatch, note_dropped 1 self)
      else
        case sl_compact_accept lib (rr_payload message) clock (ss_compact_guard active) of
          (r, compact_guard) \<Rightarrow>
            and_then (result_map_err Be_CompactStream r, self\<lparr>sub_active := Some (active\<lparr>ss_compact_guard := compact_guard\<rparr>)\<rparr>)
              (\<lambda>frame self.
                if cfr_sequence frame \<noteq> rr_sequence message \<or> cfr_generation frame \<noteq> rr_generation message
                then (Inl Be_InvalidFragment, self)
                else (Inr (Rv_Progress, None, Some frame),
                      Subscriber_note_age (sat_sub (sl_clock_now_ns lib clock) (cfr_capture_timestamp_ns frame)) self)))"

text \<open>The payload of a whole message: what a reliable frame carries, or what a datagram completes.\<close>

definition completed_payload :: "ReassemblyOutcome \<Rightarrow> (u32 \<times> u64 \<times> bytes) option" where
  "completed_payload outcome = (case outcome of Ro_Complete generation sequence payload _ \<Rightarrow> Some (generation, sequence, payload) | _ \<Rightarrow> None)"

definition Subscriber_core_payload ::
  "ReceivedRealtimeDatagram \<Rightarrow> ('c, 'd, 'r, 's, 'p, 'v, 'q, 'l, 'm, 'n, 'g, 'h) NtpSubscriber
     \<Rightarrow> (('x BindingError, (u32 \<times> u64 \<times> bytes) option) result \<times> ('c, 'd, 'r, 's, 'p, 'v, 'q, 'l, 'm, 'n, 'g, 'h) NtpSubscriber) option" where
  "Subscriber_core_payload message self =
     (if sub_transport_mode self = ReliableLatestOnly
      then Some (Inr (Some (rr_generation message, rr_sequence message, rr_payload message)), self)
      else
        case Reassembler_push (rr_generation message) (rr_sequence message) (rr_payload message) (sub_config self)
               (sub_core_reassembly self) of
          None \<Rightarrow> None
        | Some (r, reassembler) \<Rightarrow>
            Some (and_then (r, self\<lparr>sub_core_reassembly := reassembler\<rparr>) (\<lambda>outcome self.
              (Inr (completed_payload outcome), Subscriber_note_reassembly_replacement outcome self))))"

definition Subscriber_geometry_payload ::
  "ReceivedRealtimeDatagram \<Rightarrow> ('c, 'd, 'r, 's, 'p, 'v, 'q, 'l, 'm, 'n, 'g, 'h) NtpSubscriber
     \<Rightarrow> (('x BindingError, (u32 \<times> u64 \<times> bytes) option) result \<times> ('c, 'd, 'r, 's, 'p, 'v, 'q, 'l, 'm, 'n, 'g, 'h) NtpSubscriber) option" where
  "Subscriber_geometry_payload message self =
     (if sub_transport_mode self = ReliableLatestOnly
      then Some (Inr (Some (rr_generation message, rr_sequence message, rr_payload message)), self)
      else
        case Reassembler_push (rr_generation message) (rr_sequence message) (rr_payload message) (sub_config self)
               (sub_geometry_reassembly self) of
          None \<Rightarrow> None
        | Some (r, reassembler) \<Rightarrow>
            Some (and_then (r, self\<lparr>sub_geometry_reassembly := reassembler\<rparr>) (\<lambda>outcome self.
              (Inr (completed_payload outcome), Subscriber_note_reassembly_replacement outcome self))))"

definition with_geometry :: "'m GeometryCache option \<Rightarrow> ('m, 'b) NanaTrackingResult \<Rightarrow> ('m, 'b) NanaTrackingResult" where
  "with_geometry geometry_cache result =
     (case geometry_cache of
        None \<Rightarrow> result
      | Some cache \<Rightarrow>
          if gc_session_id cache = ntr_session_id result \<and> gc_generation cache = ntr_generation result
             \<and> gc_sequence cache \<le> ntr_sequence result
          then result\<lparr>ntr_face_landmarks := gc_landmarks cache\<rparr> else result)"

definition Subscriber_core_result ::
  "('d, 'r, 's, 'p, 'v, 'q, 'x, 'l, 'm, 'b, 'n, 'g, 'h, 'e, 'f) SubscriberLib \<Rightarrow> 'e \<Rightarrow> u32 \<Rightarrow> u64 \<Rightarrow> bytes
     \<Rightarrow> ('c, 'd, 'r, 's, 'p, 'v, 'q, 'l, 'm, 'n, 'g, 'h, 'x, ('m, 'b, 'f) received_parts) sub_step" where
  "Subscriber_core_result lib clock generation sequence payload self =
     and_then (result_map_err Be_Codec (sl_decode_result lib payload), self) (\<lambda>result self.
       if ntr_generation result \<noteq> generation \<or> ntr_sequence result \<noteq> sequence then (Inl Be_InvalidFragment, self)
       else
         let result = with_geometry (sub_geometry_cache self) result;
             age = sat_sub (sl_clock_now_ns lib clock) (ntr_capture_timestamp_ns result)
         in if age > sat_add (BindingConfig_max_result_age_ns (sub_config self)) (sl_clock_uncertainty_ns lib clock)
            then (Inr (Rv_Progress, None, None),
                  Subscriber_note_age age
                    (self\<lparr>sub_report := (sub_report self)\<lparr>rp_stale := sat_add (rp_stale (sub_report self)) 1\<rparr>\<rparr>))
            else
              case sub_active self of
                None \<Rightarrow> (Inl Be_InvalidState, self)
              | Some active \<Rightarrow>
                  and_then (result_map_err Be_Contract (sl_validate_result lib (ss_descriptor active) result), self) (\<lambda>_ self.
                    case sl_result_accept lib result (ss_result_guard active) of
                      (r, result_guard) \<Rightarrow>
                        and_then (result_map_err Be_Stream r, self\<lparr>sub_active := Some (active\<lparr>ss_result_guard := result_guard\<rparr>)\<rparr>)
                          (\<lambda>missing_sequences self.
                            (Inr (Rv_Progress, Some result, None),
                             Subscriber_note_age age (note_dropped missing_sequences
                               (self\<lparr>sub_report := (sub_report self)\<lparr>rp_received := sat_add (rp_received (sub_report self)) 1\<rparr>\<rparr>))))))"

definition Subscriber_geometry_result ::
  "('d, 'r, 's, 'p, 'v, 'q, 'x, 'l, 'm, 'b, 'n, 'g, 'h, 'e, 'f) SubscriberLib \<Rightarrow> u32 \<Rightarrow> u64 \<Rightarrow> bytes
     \<Rightarrow> ('c, 'd, 'r, 's, 'p, 'v, 'q, 'l, 'm, 'n, 'g, 'h, 'x, ('m, 'b, 'f) received_parts) sub_step" where
  "Subscriber_geometry_result lib generation sequence payload self =
     and_then (result_map_err Be_Codec (sl_decode_result lib payload), self) (\<lambda>result self.
       case sub_active self of
         None \<Rightarrow> (Inl Be_InvalidState, self)
       | Some active \<Rightarrow>
           if ntr_session_id result \<noteq> ss_session_id active \<or> ntr_generation result \<noteq> generation \<or> ntr_sequence result \<noteq> sequence
           then (Inl Be_InvalidFragment, self)
           else
             and_then (result_map_err Be_Contract (sl_validate_result lib (ss_descriptor active) result), self) (\<lambda>_ self.
               (Inr (Rv_Progress, None, None),
                self\<lparr>sub_geometry_cache := Some \<lparr>gc_session_id = ntr_session_id result, gc_generation = generation,
                       gc_sequence = sequence, gc_landmarks = ntr_face_landmarks result\<rparr>\<rparr>)))"

text \<open>The dispatch of a message of the active generation.\<close>

definition Subscriber_dispatch ::
  "('d, 'r, 's, 'p, 'v, 'q, 'x, 'l, 'm, 'b, 'n, 'g, 'h, 'e, 'f) SubscriberLib \<Rightarrow> 'e \<Rightarrow> ReceivedRealtimeDatagram
     \<Rightarrow> ('d, 'l, 'g, 'h) SubscriberSession \<Rightarrow> ('c, 'd, 'r, 's, 'p, 'v, 'q, 'l, 'm, 'n, 'g, 'h) NtpSubscriber
     \<Rightarrow> (('x BindingError, ('m, 'b, 'f) received_parts) result \<times> ('c, 'd, 'r, 's, 'p, 'v, 'q, 'l, 'm, 'n, 'g, 'h) NtpSubscriber) option" where
  "Subscriber_dispatch lib clock message active self =
     (if rr_flow message = COMPACT_RIG_FLOW then Some (Subscriber_compact_frame lib clock message active self)
      else if rr_flow message = CORE_RESULT_FLOW
      then
        case Subscriber_core_payload message self of
          None \<Rightarrow> None
        | Some step \<Rightarrow>
            Some (and_then step (\<lambda>complete self.
              case complete of
                None \<Rightarrow> (Inr (Rv_Progress, None, None), self)
              | Some (generation, sequence, payload) \<Rightarrow> Subscriber_core_result lib clock generation sequence payload self))
      else if rr_flow message = GEOMETRY_FLOW
      then
        case Subscriber_geometry_payload message self of
          None \<Rightarrow> None
        | Some step \<Rightarrow>
            Some (and_then step (\<lambda>complete self.
              case complete of
                None \<Rightarrow> (Inr (Rv_Progress, None, None), self)
              | Some (generation, sequence, payload) \<Rightarrow> Subscriber_geometry_result lib generation sequence payload self))
      else Some (Inr (Rv_Progress, None, None), self))"

definition Subscriber_handle_realtime ::
  "('d, 'r, 's, 'p, 'v, 'q, 'x, 'l, 'm, 'b, 'n, 'g, 'h, 'e, 'f) SubscriberLib \<Rightarrow> 'e \<Rightarrow> Instant \<Rightarrow> ReceivedRealtimeDatagram
     \<Rightarrow> ('c, 'd, 'r, 's, 'p, 'v, 'q, 'l, 'm, 'n, 'g, 'h) NtpSubscriber
     \<Rightarrow> (('x BindingError, ('m, 'b, 'f) received_parts) result \<times> ('c, 'd, 'r, 's, 'p, 'v, 'q, 'l, 'm, 'n, 'g, 'h) NtpSubscriber) option" where
  "Subscriber_handle_realtime lib clock now message self =
     (case (if rr_flow message = COMPACT_RIG_FLOW
            then (case sub_active self of
                    None \<Rightarrow> (Inl Be_InvalidState, self)
                  | Some active \<Rightarrow>
                      Subscriber_note_received_frame now (lp_target_fps (ll_proposal (sl_layout lib) (ss_layout active))) self)
            else (Inr (), self)) of
        (Inl e, self) \<Rightarrow> Some (Inl e, self)
      | (Inr _, self) \<Rightarrow>
          if length (rr_payload message) > bc_max_tracking_frame_bytes (sub_config self)
          then Some (Inl Be_PayloadLimit, note_dropped 1 self)
          else
            case sub_active self of
              None \<Rightarrow> Some (Inl Be_InvalidState, self)
            | Some active \<Rightarrow>
                if rr_generation message \<noteq> ss_generation active then Some (Inr (Rv_Progress, None, None), note_dropped 1 self)
                else Subscriber_dispatch lib clock message active self)"

definition Subscriber_poll_realtime_inner ::
  "('d, 'r, 's, 'p, 'v, 'q, 'x, 'l, 'm, 'b, 'n, 'g, 'h, 'e, 'f) SubscriberLib \<Rightarrow> 'c ConnectionOps \<Rightarrow> (nat \<Rightarrow> Instant) \<Rightarrow> 'e \<Rightarrow> Instant
     \<Rightarrow> ('c, 'd, 'r, 's, 'p, 'v, 'q, 'l, 'm, 'n, 'g, 'h) NtpSubscriber
     \<Rightarrow> (('x BindingError, ('m, 'b, 'f) received_parts) result \<times> ('c, 'd, 'r, 's, 'p, 'v, 'q, 'l, 'm, 'n, 'g, 'h) NtpSubscriber) option" where
  "Subscriber_poll_realtime_inner lib ops instants clock now self =
     (case Subscriber_receive_realtime ops instants self of
        (Inl e, self) \<Rightarrow> Some (Inl e, self)
      | (Inr None, self) \<Rightarrow> Some (Inr (Rv_Idle, None, None), self)
      | (Inr (Some message), self) \<Rightarrow> Subscriber_handle_realtime lib clock now message self)"

definition Subscriber_note_violation ::
  "('x BindingError, 'a) result \<Rightarrow> ('c, 'd, 'r, 's, 'p, 'v, 'q, 'l, 'm, 'n, 'g, 'h) NtpSubscriber
     \<Rightarrow> ('c, 'd, 'r, 's, 'p, 'v, 'q, 'l, 'm, 'n, 'g, 'h) NtpSubscriber" where
  "Subscriber_note_violation result self =
     (if (case result of Inl error \<Rightarrow> is_protocol_violation error | Inr _ \<Rightarrow> False)
      then
        let violations = sat_add (sub_protocol_violations self) 1 in
        self\<lparr>sub_protocol_violations := violations, sub_malformed_frames := sat_add (sub_malformed_frames self) 1,
             sub_fused := (sub_fused self \<or> violations \<ge> bc_max_protocol_violations (sub_config self))\<rparr>
      else self)"

definition Subscriber_poll_realtime ::
  "('d, 'r, 's, 'p, 'v, 'q, 'x, 'l, 'm, 'b, 'n, 'g, 'h, 'e, 'f) SubscriberLib \<Rightarrow> 'c ConnectionOps \<Rightarrow> (nat \<Rightarrow> Instant) \<Rightarrow> 'e \<Rightarrow> Instant
     \<Rightarrow> ('c, 'd, 'r, 's, 'p, 'v, 'q, 'l, 'm, 'n, 'g, 'h) NtpSubscriber
     \<Rightarrow> (('x BindingError, ('m, 'b, 'f) received_parts) result \<times> ('c, 'd, 'r, 's, 'p, 'v, 'q, 'l, 'm, 'n, 'g, 'h) NtpSubscriber) option" where
  "Subscriber_poll_realtime lib ops instants clock now self =
     (if sub_fused self then Some (Inl Be_ChannelFused, self)
      else
        case Subscriber_poll_realtime_inner lib ops instants clock now self of
          None \<Rightarrow> None
        | Some (result, self) \<Rightarrow> Some (result, Subscriber_note_violation result self))"

definition Subscriber_reset_for_reconnect ::
  "('d, 'r, 's, 'p, 'v, 'q, 'x, 'l, 'm, 'b, 'n, 'g, 'h, 'e, 'f) SubscriberLib \<Rightarrow> 'c ConnectionOps \<Rightarrow> 'c \<Rightarrow> NtpAuthorization \<Rightarrow> Instant
     \<Rightarrow> Instant \<Rightarrow> ('c, 'd, 'r, 's, 'p, 'v, 'q, 'l, 'm, 'n, 'g, 'h, 'x, unit) sub_step" where
  "Subscriber_reset_for_reconnect lib ops connection authorization now1 now2 self =
     (case validate_connection_authorization (co_metadata ops connection) authorization Nr_Subscriber of
        Inl e \<Rightarrow> (Inl e, self)
      | Inr _ \<Rightarrow>
          if nau_link_session_id authorization = nau_link_session_id (sub_authorization self)
          then (Inl Be_SessionBindingMismatch, self)
          else
            and_then (result_map_err Be_Handshake (sl_negotiator_new lib),
                self\<lparr>sub_connection := connection, sub_authorization := authorization,
                     sub_transport_mode := transport_mode_of ops connection, sub_remote_hello := False\<rparr>) (\<lambda>negotiator self.
              (Inr (), self\<lparr>sub_negotiator := negotiator, sub_pending := None, sub_active := None, sub_outbox := [],
                 sub_core_reassembly := Reassembler_clear (sub_core_reassembly self),
                 sub_geometry_reassembly := Reassembler_clear (sub_geometry_reassembly self),
                 sub_reliable := ReliableLatestReceiver_clear (sub_reliable self), sub_geometry_cache := None,
                 sub_report := ReceiverReport_default, sub_previous_age_ns := None, sub_clock := ClockSynchronizer_default,
                 sub_reconfigure_times := [], sub_receive_window_started := now1, sub_receive_window_count := 0,
                 sub_sustained_receive_window_started := now2, sub_sustained_receive_count := 0, sub_rate_limited := 0,
                 sub_protocol_violations := 0, sub_malformed_frames := 0, sub_fused := False\<rparr>)))"

end
