(* ===== verification/Link_Ntp_Receiving.thy ===== *)
theory Link_Ntp_Receiving
  imports Link_Ntp_Subscriber Link_Ntp_Scripted Link_Segments
begin

text \<open>
  What the subscriber of the tracking binding guarantees: which results it hands out, and that whatever the
  peer sends, in whatever order its operations are called, it neither panics nor tolerates more protocol
  violations on a connection than configured; a reset for a new connection starts the count anew.
\<close>

subsection \<open>Reassembly never panics\<close>

definition reassembler_fine :: "BindingConfig \<Rightarrow> Reassembler \<Rightarrow> bool" where
  "reassembler_fine config r = (\<forall>st. rs_state r = Some st \<longrightarrow> reassembly_ok config UNIV st)"

lemma reassembler_fine_start [simp]: "reassembler_fine config Reassembler_new" "reassembler_fine config (Reassembler_clear r)"
  by (simp_all add: reassembler_fine_def Reassembler_new_def Reassembler_clear_def)

lemma push_fine:
  assumes "reassembler_fine config r"
  obtains res r' where "Reassembler_push g s bs config r = Some (res :: ('x BindingError, ReassemblyOutcome) result, r')" "reassembler_fine config r'"
proof -
  obtain out :: "(('x BindingError, ReassemblyOutcome) result \<times> Reassembler) option"
    where out: "Reassembler_push g s bs config r = out" by blast
  then show thesis
  proof (cases rule: push_cases)
    case (idle res)
    with out assms that show thesis by blast
  next
    case (routed f st b)
    have f: "f \<in> UNIV" "fragment_ok config f" using decode_fragment_ok [OF routed(2)] by simp_all
    obtain st0 where "(Reassembly_new g s f :: ('x BindingError, Reassembly) result option) = Some (Inr st0)"
      "reassembly_ok config UNIV st0" using reassembly_new_ok [OF f] by blast
    with routed(6) assms have st: "reassembly_ok config UNIV st" by (auto simp: reassembler_fine_def)
    from routed(5) st f show thesis
      by (cases rule: push_current_cases [where p = "(g, s, bs)"]) (use that out in \<open>auto simp: reassembler_fine_def\<close>)
  qed
qed

subsection \<open>What the operations keep\<close>

definition sub_guard :: "('c, 'd, 'r, 's, 'p, 'v, 'q, 'l, 'm, 'n, 'g, 'h) NtpSubscriber \<Rightarrow> BindingConfig \<times> u16 \<times> u64 \<times> bool" where
  "sub_guard s = (sub_config s, sub_protocol_violations s, sub_malformed_frames s, sub_fused s)"

text \<open>The guard's counters, both reassemblers and the layout of the active session, of which \<open>L\<close> holds.\<close>

definition sub_fine ::
  "('l \<Rightarrow> bool) \<Rightarrow> BindingConfig \<times> u16 \<times> u64 \<times> bool \<Rightarrow> ('c, 'd, 'r, 's, 'p, 'v, 'q, 'l, 'm, 'n, 'g, 'h) NtpSubscriber \<Rightarrow> bool" where
  "sub_fine L v s = (sub_guard s = v \<and> (\<forall>active. sub_active s = Some active \<longrightarrow> L (ss_layout active)) \<and> reassembler_fine (sub_config s) (sub_core_reassembly s)
     \<and> reassembler_fine (sub_config s) (sub_geometry_reassembly s))"

lemma sub_fine_update [simp]:
  "sub_fine L v (s\<lparr>sub_connection := c\<rparr>) = sub_fine L v s" "sub_fine L v (s\<lparr>sub_outbox := ob\<rparr>) = sub_fine L v s"
  "sub_fine L v (s\<lparr>sub_remote_hello := b\<rparr>) = sub_fine L v s" "sub_fine L v (s\<lparr>sub_negotiator := n\<rparr>) = sub_fine L v s"
  "sub_fine L v (s\<lparr>sub_pending := p\<rparr>) = sub_fine L v s" "sub_fine L v (s\<lparr>sub_authorization := au\<rparr>) = sub_fine L v s"
  "sub_fine L v (s\<lparr>sub_transport_mode := tm\<rparr>) = sub_fine L v s"
  "sub_fine L v (s\<lparr>sub_reliable := rl\<rparr>) = sub_fine L v s" "sub_fine L v (s\<lparr>sub_geometry_cache := gc\<rparr>) = sub_fine L v s"
  "sub_fine L v (s\<lparr>sub_report := rp\<rparr>) = sub_fine L v s" "sub_fine L v (s\<lparr>sub_previous_age_ns := pa\<rparr>) = sub_fine L v s"
  "sub_fine L v (s\<lparr>sub_clock := ck\<rparr>) = sub_fine L v s" "sub_fine L v (s\<lparr>sub_reconfigure_times := rt\<rparr>) = sub_fine L v s"
  "sub_fine L v (s\<lparr>sub_receive_window_started := t\<rparr>) = sub_fine L v s" "sub_fine L v (s\<lparr>sub_receive_window_count := w\<rparr>) = sub_fine L v s"
  "sub_fine L v (s\<lparr>sub_sustained_receive_window_started := t\<rparr>) = sub_fine L v s"
  "sub_fine L v (s\<lparr>sub_sustained_receive_count := w'\<rparr>) = sub_fine L v s" "sub_fine L v (s\<lparr>sub_rate_limited := w''\<rparr>) = sub_fine L v s"
  by (simp_all add: sub_fine_def sub_guard_def)

lemma sub_fine_active:
  "sub_fine L v s \<Longrightarrow> L (ss_layout active) \<Longrightarrow> sub_fine L v (s\<lparr>sub_active := Some active\<rparr>)"
  by (simp add: sub_fine_def sub_guard_def)

lemma sub_fine_layout: "sub_fine L v s \<Longrightarrow> sub_active s = Some active \<Longrightarrow> L (ss_layout active)"
  by (simp add: sub_fine_def)

lemma sub_fine_core: "sub_fine L v s \<Longrightarrow> reassembler_fine (sub_config s) r \<Longrightarrow> sub_fine L v (s\<lparr>sub_core_reassembly := r\<rparr>)"
  and sub_fine_geometry: "sub_fine L v s \<Longrightarrow> reassembler_fine (sub_config s) r \<Longrightarrow> sub_fine L v (s\<lparr>sub_geometry_reassembly := r\<rparr>)"
  by (auto simp: sub_fine_def sub_guard_def)

lemma note_fine [simp]:
  "sub_fine L v (note_dropped n s) = sub_fine L v s" "sub_fine L v (Subscriber_note_age age s) = sub_fine L v s"
  "sub_fine L v (Subscriber_note_reassembly_replacement outcome s) = sub_fine L v s"
  by (simp_all add: note_dropped_def Subscriber_note_age_def Subscriber_note_reassembly_replacement_def Let_def)

lemma and_then_fine:
  "sub_fine L v (snd m) \<Longrightarrow> (\<And>a s. sub_fine L v s \<Longrightarrow> sub_fine L v (snd (f a s))) \<Longrightarrow> sub_fine L v (snd (and_then m f))"
  by (cases m; cases "fst m") auto

lemma control_parts_fine [simp]:
  "sub_fine L v (snd (Subscriber_flush_control ops s)) = sub_fine L v s"
  "sub_fine L v (snd (Subscriber_queue_control lib message s)) = sub_fine L v s"
  "sub_fine L v (snd (Subscriber_receive_control lib ops s)) = sub_fine L v s"
  "sub_fine L v (snd (Subscriber_note_reconfigure now s)) = sub_fine L v s"
  "sub_fine L v (snd (Subscriber_note_received_frame now fps s)) = sub_fine L v s"
  by (simp_all add: Subscriber_flush_control_def Subscriber_queue_control_def Subscriber_receive_control_def
      Subscriber_note_reconfigure_def Subscriber_note_received_frame_def Let_def split: prod.split)

lemma send_message_fine: "sub_fine L v s \<Longrightarrow> sub_fine L v (snd (Subscriber_send_message lib ops message s))"
  unfolding Subscriber_send_message_def by (rule and_then_fine) simp_all

lemma session_proposal_fine: "sub_fine L v s \<Longrightarrow> sub_fine L v (snd (Subscriber_session_proposal lib ns now proposal s))"
  unfolding Subscriber_session_proposal_def by (auto intro!: and_then_fine split: prod.split)

text \<open>Every layout the negotiator of the library confirms has \<open>L\<close>.\<close>

definition confirms_only ::
  "('d, 'r, 's, 'p, 'v, 'q, 'x, 'l, 'm, 'b, 'n, 'g, 'h, 'e, 'f) SubscriberLib \<Rightarrow> ('l \<Rightarrow> bool) \<Rightarrow> bool" where
  "confirms_only lib L = (\<forall>confirm n layout n'. sl_confirm lib confirm n = (Inr layout, n') \<longrightarrow> L layout)"

lemma and_then_fine_Inr:
  "sub_fine L v (snd m) \<Longrightarrow> (\<And>a s. m = (Inr a, s) \<Longrightarrow> sub_fine L v s \<Longrightarrow> sub_fine L v (snd (f a s))) \<Longrightarrow> sub_fine L v (snd (and_then m f))"
  by (cases m; cases "fst m") auto

lemma layout_confirmed_fine:
  assumes "confirms_only lib L" and "sub_fine L v s"
  shows "sub_fine L v (snd (Subscriber_layout_confirmed lib confirm s))"
proof -
  have L: "L layout" if "sl_confirm lib confirm n = (r, n')" "result_map_err Be_Handshake r = Inr layout" for n r n' layout
    using that assms(1) by (cases r) (auto simp: confirms_only_def result_map_err_def)
  show ?thesis
    unfolding Subscriber_layout_confirmed_def Let_def using assms(2)
    by (auto intro!: and_then_fine_Inr sub_fine_core sub_fine_geometry sub_fine_active L split: prod.split option.split)
qed

lemma handle_control_fine: "confirms_only lib L \<Longrightarrow> sub_fine L v s \<Longrightarrow> sub_fine L v (snd (Subscriber_handle_control lib ns now message s))"
  unfolding Subscriber_handle_control_def
  by (cases message) (auto intro!: and_then_fine session_proposal_fine layout_confirmed_fine split: prod.split sum.split)

lemma poll_control_fine: "confirms_only lib L \<Longrightarrow> sub_fine L v s \<Longrightarrow> sub_fine L v (snd (Subscriber_poll_control lib ops ns now s))"
  unfolding Subscriber_poll_control_def by (auto intro!: and_then_fine handle_control_fine split: option.split)

subsection \<open>Realtime polls\<close>

definition runs_fine :: "('l \<Rightarrow> bool) \<Rightarrow> BindingConfig \<times> u16 \<times> u64 \<times> bool \<Rightarrow> ('y \<times> ('c, 'd, 'r, 's, 'p, 'v, 'q, 'l, 'm, 'n, 'g, 'h) NtpSubscriber) option \<Rightarrow> bool" where
  "runs_fine L v out = (\<exists>m. out = Some m \<and> sub_fine L v (snd m))"

lemma runs_fine_Some [simp]: "runs_fine L v (Some m) = sub_fine L v (snd m)"
  by (simp add: runs_fine_def)

lemma core_payload_fine:
  assumes "sub_fine L v s"
  shows "runs_fine L v (Subscriber_core_payload message s :: (('x BindingError, _) result \<times> _) option)"
proof -
  have "reassembler_fine (sub_config s) (sub_core_reassembly s)" using assms by (simp add: sub_fine_def)
  then obtain res r where "Reassembler_push (rr_generation message) (rr_sequence message) (rr_payload message) (sub_config s)
      (sub_core_reassembly s) = Some (res :: ('x BindingError, ReassemblyOutcome) result, r)" "reassembler_fine (sub_config s) r"
    by (rule push_fine)
  then show ?thesis by (auto simp: Subscriber_core_payload_def assms intro!: and_then_fine sub_fine_core)
qed

lemma geometry_payload_fine:
  assumes "sub_fine L v s"
  shows "runs_fine L v (Subscriber_geometry_payload message s :: (('x BindingError, _) result \<times> _) option)"
proof -
  have "reassembler_fine (sub_config s) (sub_geometry_reassembly s)" using assms by (simp add: sub_fine_def)
  then obtain res r where "Reassembler_push (rr_generation message) (rr_sequence message) (rr_payload message) (sub_config s)
      (sub_geometry_reassembly s) = Some (res :: ('x BindingError, ReassemblyOutcome) result, r)" "reassembler_fine (sub_config s) r"
    by (rule push_fine)
  then show ?thesis by (auto simp: Subscriber_geometry_payload_def assms intro!: and_then_fine sub_fine_geometry)
qed

lemma core_result_fine:
  assumes "sub_fine L v s"
  shows "sub_fine L v (snd (Subscriber_core_result lib clock generation sequence payload s))"
proof -
  have "L (ss_layout active)" if "sub_active s = Some active" for active using sub_fine_layout [OF assms that] .
  with assms show ?thesis
    unfolding Subscriber_core_result_def Let_def
    by (auto intro!: and_then_fine_Inr sub_fine_active split: option.split prod.split)
qed

lemma geometry_result_fine: "sub_fine L v s \<Longrightarrow> sub_fine L v (snd (Subscriber_geometry_result lib generation sequence payload s))"
  unfolding Subscriber_geometry_result_def by (auto intro!: and_then_fine split: option.split)

lemma compact_frame_fine:
  "sub_fine L v s \<Longrightarrow> L (ss_layout active) \<Longrightarrow> sub_fine L v (snd (Subscriber_compact_frame lib clock message active s))"
  unfolding Subscriber_compact_frame_def by (auto intro!: and_then_fine sub_fine_active split: prod.split)

lemma runs_fine_then:
  assumes "runs_fine L v out" "\<And>a s. sub_fine L v s \<Longrightarrow> sub_fine L v (snd (f a s))"
  shows "runs_fine L v (case out of None \<Rightarrow> None | Some m \<Rightarrow> Some (and_then m f))"
  using assms by (cases out) (auto simp: runs_fine_def [of L v None] intro!: and_then_fine)

lemma fine_snd: "m = (r, s) \<Longrightarrow> sub_fine L v (snd m) \<Longrightarrow> sub_fine L v s"
  by simp

lemma dispatch_fine:
  assumes "sub_fine L v s" and "L (ss_layout active)"
  shows "runs_fine L v (Subscriber_dispatch lib clock message active s)"
proof -
  have "sub_fine L v (snd (case complete of None \<Rightarrow> (Inr (Rv_Progress, None, None), s')
      | Some (generation, sequence, payload) \<Rightarrow> Subscriber_core_result lib clock generation sequence payload s'))"
    "sub_fine L v (snd (case complete of None \<Rightarrow> (Inr (Rv_Progress, None, None), s')
      | Some (generation, sequence, payload) \<Rightarrow> Subscriber_geometry_result lib generation sequence payload s'))"
    if "sub_fine L v s'" for complete s'
    using that by (auto intro: core_result_fine geometry_result_fine split: option.split)
  from runs_fine_then [OF core_payload_fine [OF assms(1)] this(1)] runs_fine_then [OF geometry_payload_fine [OF assms(1)] this(2)]
  show ?thesis
    unfolding Subscriber_dispatch_def by (simp add: assms compact_frame_fine)
qed

lemma handle_realtime_fine:
  fixes lib :: "('d, 'r, 's, 'p, 'v, 'q, 'x, 'l, 'm, 'b, 'n, 'g, 'h, 'e, 'f) SubscriberLib"
  assumes "sub_fine L v s"
  shows "runs_fine L v (Subscriber_handle_realtime lib clock now message s)"
proof -
  let ?noted = "if rr_flow message = COMPACT_RIG_FLOW
    then (case sub_active s of
            None \<Rightarrow> (Inl Be_InvalidState :: ('x BindingError, unit) result, s)
          | Some active \<Rightarrow> Subscriber_note_received_frame now (lp_target_fps (ll_proposal (sl_layout lib) (ss_layout active))) s)
    else (Inr (), s)"
  obtain r s1 where noted: "?noted = (r, s1)" by fastforce
  have "sub_fine L v (snd ?noted)" using assms by (simp split: option.split)
  then have "sub_fine L v s1" by (simp only: noted snd_conv)
  then show ?thesis
    unfolding Subscriber_handle_realtime_def noted
    by (auto intro: dispatch_fine dest: sub_fine_layout split: sum.split option.split)
qed

lemma receive_realtime_fine: "sub_fine L v s \<Longrightarrow> sub_fine L v (snd (Subscriber_receive_realtime ops instants s))"
  unfolding Subscriber_receive_realtime_def by (auto split: prod.split sum.split)

lemma poll_realtime_inner_fine: "sub_fine L v s \<Longrightarrow> runs_fine L v (Subscriber_poll_realtime_inner lib ops instants clock now s)"
  unfolding Subscriber_poll_realtime_inner_def
  by (auto intro!: handle_realtime_fine receive_realtime_fine dest!: fine_snd [where v = v] split: prod.splits sum.split option.split)

subsection \<open>Runs\<close>

datatype ('c, 'e) SubscriberOp =
    Sub_Hello | Sub_Command SessionCommand | Sub_RequestGeometry | Sub_Ping u64 | Sub_Report | Sub_Control u64 Instant
  | Sub_Realtime "nat \<Rightarrow> Instant" 'e Instant | Sub_Reset 'c NtpAuthorization Instant Instant | Sub_Bound

text \<open>The log of a run: the result of a realtime poll, and that the subscriber was moved to a new connection. \<open>None\<close> is
  a panic.\<close>

datatype 'y SubscriberLog = is_Reset: Sl_Reset | Sl_Poll (sl_result: 'y)

definition Subscriber_apply ::
  "('d, 'r, 's, 'p, 'v, 'q, 'x, 'l, 'm, 'b, 'n, 'g, 'h, 'e, 'f) SubscriberLib \<Rightarrow> 'c ConnectionOps \<Rightarrow> ('c, 'e) SubscriberOp
     \<Rightarrow> ('c, 'd, 'r, 's, 'p, 'v, 'q, 'l, 'm, 'n, 'g, 'h) NtpSubscriber
     \<Rightarrow> (('x BindingError, ('m, 'b, 'f) received_parts) result SubscriberLog list
         \<times> ('c, 'd, 'r, 's, 'p, 'v, 'q, 'l, 'm, 'n, 'g, 'h) NtpSubscriber) option" where
  "Subscriber_apply lib ops action self =
     (case action of
        Sub_Hello \<Rightarrow> Some ([], snd (Subscriber_try_send_hello (sl_control lib) ops self))
      | Sub_Command command \<Rightarrow> Some ([], snd (Subscriber_try_send_command (sl_control lib) ops command self))
      | Sub_RequestGeometry \<Rightarrow> Some ([], snd (Subscriber_try_request_geometry (sl_control lib) ops self))
      | Sub_Ping receiver_now_ns \<Rightarrow> Some ([], snd (Subscriber_try_send_ping (sl_control lib) ops receiver_now_ns self))
      | Sub_Report \<Rightarrow> Some ([], snd (Subscriber_try_send_receiver_report (sl_control lib) ops self))
      | Sub_Control receiver_now_ns now \<Rightarrow> Some ([], snd (Subscriber_poll_control lib ops receiver_now_ns now self))
      | Sub_Realtime instants clock now \<Rightarrow>
          (case Subscriber_poll_realtime lib ops instants clock now self of
             None \<Rightarrow> None
           | Some (result, self) \<Rightarrow> Some ([Sl_Poll result], self))
      | Sub_Reset connection authorization now1 now2 \<Rightarrow>
          (case Subscriber_reset_for_reconnect lib ops connection authorization now1 now2 self of
             (result, self) \<Rightarrow> Some (if is_ok result then [Sl_Reset] else [], self))
      | Sub_Bound \<Rightarrow> map_option (\<lambda>_. ([], self)) (Subscriber_bound_session (sl_layout lib) self))"

fun Subscriber_run ::
  "('d, 'r, 's, 'p, 'v, 'q, 'x, 'l, 'm, 'b, 'n, 'g, 'h, 'e, 'f) SubscriberLib \<Rightarrow> 'c ConnectionOps \<Rightarrow> ('c, 'e) SubscriberOp list
     \<Rightarrow> ('c, 'd, 'r, 's, 'p, 'v, 'q, 'l, 'm, 'n, 'g, 'h) NtpSubscriber
     \<Rightarrow> (('x BindingError, ('m, 'b, 'f) received_parts) result SubscriberLog list
         \<times> ('c, 'd, 'r, 's, 'p, 'v, 'q, 'l, 'm, 'n, 'g, 'h) NtpSubscriber) option" where
  "Subscriber_run lib ops [] self = Some ([], self)"
| "Subscriber_run lib ops (action # actions) self =
     (case Subscriber_apply lib ops action self of
        None \<Rightarrow> None
      | Some (log1, self1) \<Rightarrow>
          (case Subscriber_run lib ops actions self1 of
             None \<Rightarrow> None
           | Some (log2, self2) \<Rightarrow> Some (log1 @ log2, self2)))"

text \<open>The results of the realtime polls between two moves to a new connection.\<close>

definition poll_parts :: "'y SubscriberLog list \<Rightarrow> 'y list list" where
  "poll_parts log = map (map sl_result) (segments is_Reset log)"

lemma poll_parts_simps [simp]:
  "poll_parts [] = [[]]" "poll_parts (log @ [Sl_Reset]) = poll_parts log @ [[]]"
  "poll_parts (log @ [Sl_Poll r]) = butlast (poll_parts log) @ [last (poll_parts log) @ [r]]"
  by (simp_all add: poll_parts_def segments_snoc map_butlast last_map)

lemma poll_parts_all:
  "list_all P (butlast (poll_parts log)) \<Longrightarrow> P (last (poll_parts log)) \<Longrightarrow> list_all P (poll_parts log)"
  using segments_all [of "\<lambda>part. P (map sl_result part)" is_Reset log]
  by (simp add: poll_parts_def list.pred_map comp_def last_map flip: map_butlast)

definition violations :: "('x BindingError, 'y) result list \<Rightarrow> nat" where
  "violations results = length (filter (\<lambda>r. case r of Inl e \<Rightarrow> is_protocol_violation e | Inr _ \<Rightarrow> False) results)"

lemma violations_simps [simp]:
  "violations [] = 0" "violations (xs @ ys) = violations xs + violations ys"
  "violations [r] = (if (case r of Inl e \<Rightarrow> is_protocol_violation e | Inr _ \<Rightarrow> False) then 1 else 0)"
  by (simp_all add: violations_def)

text \<open>What holds of the polls of one connection.\<close>

definition fuse_kept :: "BindingConfig \<Rightarrow> ('x BindingError, 'y) result list \<Rightarrow> bool" where
  "fuse_kept config results =
     (violations results \<le> unat (bc_max_protocol_violations config)
      \<and> (\<forall>before r after. results = before @ r # after \<and> violations before = unat (bc_max_protocol_violations config)
           \<longrightarrow> r = Inl Be_ChannelFused))"

definition fuse_inv :: "('l \<Rightarrow> bool) \<Rightarrow> BindingConfig \<Rightarrow> ('x BindingError, 'y) result list \<Rightarrow> ('c, 'd, 'r, 's, 'p, 'v, 'q, 'l, 'm, 'n, 'g, 'h) NtpSubscriber \<Rightarrow> bool" where
  "fuse_inv L config results s =
     (\<exists>counted malformed. unat counted = violations results \<and> unat malformed = violations results
        \<and> violations results \<le> unat (bc_max_protocol_violations config)
        \<and> sub_fine L (config, counted, malformed, violations results = unat (bc_max_protocol_violations config)) s
        \<and> (\<forall>before r after. results = before @ r # after \<and> violations before = unat (bc_max_protocol_violations config)
             \<longrightarrow> r = Inl Be_ChannelFused))"

lemma fuse_inv_same:
  assumes "fuse_inv L config results s" "\<And>v. sub_fine L v s \<Longrightarrow> sub_fine L v s'"
  shows "fuse_inv L config results s'"
  using assms unfolding fuse_inv_def by blast

lemma note_violation_fine:
  assumes "sub_fine L (config, counted, malformed, False) s"
  shows "sub_fine L (if (case r of Inl e \<Rightarrow> is_protocol_violation e | Inr _ \<Rightarrow> False)
      then (config, sat_add counted 1, sat_add malformed 1, sat_add counted 1 \<ge> bc_max_protocol_violations config)
      else (config, counted, malformed, False)) (Subscriber_note_violation r s)"
  using assms by (auto simp: Subscriber_note_violation_def sub_fine_def sub_guard_def Let_def)

lemma later_snoc:
  assumes "\<forall>before r after. results = before @ r # after \<and> violations before = m \<longrightarrow> r = e"
    and "violations results = m \<longrightarrow> x = e"
  shows "\<forall>before r after. results @ [x] = before @ r # after \<and> violations before = m \<longrightarrow> r = e"
proof (intro allI impI, elim conjE)
  fix before r after assume split: "results @ [x] = before @ r # after" and m: "violations before = m"
  show "r = e"
  proof (cases after rule: rev_cases)
    case Nil
    with split have "results = before" "x = r" by simp_all
    with m assms(2) show ?thesis by simp
  next
    case (snoc after' y)
    with split have "results @ [x] = (before @ r # after') @ [y]" by simp
    then have "results = before @ r # after'" by (simp only: append1_eq_conv)
    with m assms(1) show ?thesis by blast
  qed
qed

lemma fuse_inv_poll:
  fixes lib :: "('d, 'r, 's, 'p, 'v, 'q, 'x, 'l, 'm, 'b, 'n, 'g, 'h, 'e, 'f) SubscriberLib"
  assumes "fuse_inv L config results s"
  shows "\<exists>r s'. Subscriber_poll_realtime lib ops instants clock now s = Some (r, s') \<and> fuse_inv L config (results @ [r]) s'"
proof -
  let ?m = "unat (bc_max_protocol_violations config)" and ?n = "violations results"
  obtain counted malformed where n: "unat counted = ?n" "unat malformed = ?n" "?n \<le> ?m"
    and fine: "sub_fine L (config, counted, malformed, ?n = ?m) s"
    and later: "\<forall>before r after. results = before @ r # after \<and> violations before = ?m \<longrightarrow> r = Inl Be_ChannelFused"
    using assms unfolding fuse_inv_def by blast
  have fused: "sub_fused s \<longleftrightarrow> ?n = ?m" using fine by (auto simp: sub_fine_def sub_guard_def)
  show ?thesis
  proof (cases "sub_fused s")
    case True
    let ?r = "Inl Be_ChannelFused :: ('x BindingError, ('m, 'b, 'f) received_parts) result"
    have "fuse_inv L config (results @ [?r]) s"
      unfolding fuse_inv_def using n fine later_snoc [OF later, of ?r] by (auto simp: is_protocol_violation_def)
    with True show ?thesis by (simp add: Subscriber_poll_realtime_def)
  next
    case False
    then have less: "?n < ?m" and off: "(?n = ?m) = False" using n(3) fused by auto
    from fine have "sub_fine L (config, counted, malformed, False) s" unfolding off .
    from poll_realtime_inner_fine [OF this, of lib ops instants clock now] obtain r s1
      where inner: "Subscriber_poll_realtime_inner lib ops instants clock now s = Some (r, s1)"
        and fine1: "sub_fine L (config, counted, malformed, False) s1" by (auto simp: runs_fine_def)
    have bound: "?m < 2 ^ 16" using unat_lt_size [of "bc_max_protocol_violations config"] by simp
    have counts: "unat (sat_add counted 1) = Suc ?n" "unat (sat_add malformed 1) = Suc ?n"
      using n less bound by (simp_all add: unat_sat_add)
    have full: "(?m \<le> Suc ?n) = (Suc ?n = ?m)" using less by auto
    have rest: "\<forall>before r' after. results @ [r] = before @ r' # after \<and> violations before = ?m \<longrightarrow> r' = Inl Be_ChannelFused"
      using later_snoc [OF later, of r] less by simp
    have "fuse_inv L config (results @ [r]) (Subscriber_note_violation r s1)"
    proof (cases "case r of Inl e \<Rightarrow> is_protocol_violation e | Inr _ \<Rightarrow> False")
      case True
      with note_violation_fine [OF fine1, of r] counts less show ?thesis
        unfolding fuse_inv_def
        by (intro exI [of _ "sat_add counted 1"] exI [of _ "sat_add malformed 1"] conjI rest) (simp_all add: word_le_nat_alt full)
    next
      case False
      with note_violation_fine [OF fine1, of r] n less show ?thesis
        unfolding fuse_inv_def by (intro exI [of _ counted] exI [of _ malformed] conjI rest) (simp_all add: off)
    qed
    with False inner show ?thesis by (simp add: Subscriber_poll_realtime_def)
  qed
qed

lemma fuse_inv_kept: "fuse_inv L config results s \<Longrightarrow> fuse_kept config results"
  by (auto simp: fuse_inv_def fuse_kept_def)

lemma fuse_inv_bound:
  assumes "fuse_inv (\<lambda>layout. ll_frame_len lib layout < 2 ^ 32) config results s"
  shows "\<exists>b. Subscriber_bound_session lib s = Some b"
proof -
  obtain v where "sub_fine (\<lambda>layout. ll_frame_len lib layout < 2 ^ 32) v s" using assms by (auto simp: fuse_inv_def)
  then show ?thesis by (auto simp: Subscriber_bound_session_def not_le dest: sub_fine_layout split: option.split)
qed

lemma fuse_inv_reset:
  assumes inv: "fuse_inv L config results s"
    and reset: "Subscriber_reset_for_reconnect lib ops connection authorization now1 now2 s = (r, s')"
    and pos: "bc_max_protocol_violations config \<noteq> 0"
  shows "fuse_inv L config (if is_ok r then [] else results) s'"
proof (cases "is_ok r")
  case False
  have "sub_fine L v s \<Longrightarrow> sub_fine L v s'" for v
    using reset False
    by (auto simp: Subscriber_reset_for_reconnect_def is_ok_def and_then_def split: sum.splits if_splits)
  then have "fuse_inv L config results s'" by (rule fuse_inv_same [OF inv])
  with False show ?thesis by simp
next
  case True
  have "sub_config s = config" using inv by (auto simp: fuse_inv_def sub_fine_def sub_guard_def)
  then have "sub_fine L (config, 0, 0, False) s'"
    using reset True
    by (auto simp: Subscriber_reset_for_reconnect_def is_ok_def and_then_def sub_fine_def sub_guard_def split: sum.splits if_splits)
  then show ?thesis unfolding fuse_inv_def using True pos by (intro exI [of _ 0]) (simp add: unat_eq_0)
qed

text \<open>The invariant of runs: what holds of every connection so far, and the guard's state on the present one.\<close>

definition run_fuse_inv ::
  "('l \<Rightarrow> bool) \<Rightarrow> BindingConfig \<Rightarrow> ('x BindingError, 'y) result SubscriberLog list
     \<Rightarrow> ('c, 'd, 'r, 's, 'p, 'v, 'q, 'l, 'm, 'n, 'g, 'h) NtpSubscriber \<Rightarrow> bool" where
  "run_fuse_inv L config log s =
     (bc_max_protocol_violations config \<noteq> 0 \<and> list_all (fuse_kept config) (butlast (poll_parts log))
      \<and> fuse_inv L config (last (poll_parts log)) s)"

lemma run_fuse_inv_apply:
  fixes lib :: "('d, 'r, 's, 'p, 'v, 'q, 'x, 'l, 'm, 'b, 'n, 'g, 'h, 'e, 'f) SubscriberLib"
  defines "L \<equiv> \<lambda>layout. ll_frame_len (sl_layout lib) layout < 2 ^ 32"
  assumes lib: "confirms_only lib L" and inv: "run_fuse_inv L config log s"
  shows "\<exists>log' s'. Subscriber_apply lib ops action s = Some (log', s') \<and> run_fuse_inv L config (log @ log') s'"
proof -
  have fuse: "fuse_inv L config (last (poll_parts log)) s" and pos: "bc_max_protocol_violations config \<noteq> 0"
    and before: "list_all (fuse_kept config) (butlast (poll_parts log))"
    using inv by (simp_all add: run_fuse_inv_def)
  have same: "run_fuse_inv L config (log @ []) s'" if "\<And>v. sub_fine L v s \<Longrightarrow> sub_fine L v s'" for s'
    using fuse_inv_same [OF fuse that] pos before by (simp add: run_fuse_inv_def)
  show ?thesis
  proof (cases action)
    case (Sub_Realtime instants clock now)
    from fuse_inv_poll [OF fuse, of lib ops instants clock now] obtain r s' where
      "Subscriber_poll_realtime lib ops instants clock now s = Some (r, s')" "fuse_inv L config (last (poll_parts log) @ [r]) s'" by blast
    with Sub_Realtime pos before show ?thesis by (simp add: Subscriber_apply_def run_fuse_inv_def)
  next
    case (Sub_Control ns now)
    with same [OF poll_control_fine [OF lib]] show ?thesis by (auto simp: Subscriber_apply_def)
  next
    case (Sub_Reset connection authorization now1 now2)
    obtain r s' where r: "Subscriber_reset_for_reconnect lib ops connection authorization now1 now2 s = (r, s')" by fastforce
    from fuse_inv_reset [OF fuse r pos] poll_parts_all [OF before fuse_inv_kept [OF fuse]] pos before
    have "run_fuse_inv L config (log @ (if is_ok r then [Sl_Reset] else [])) s'"
      by (cases "is_ok r") (simp_all add: run_fuse_inv_def)
    with Sub_Reset r show ?thesis by (simp add: Subscriber_apply_def)
  next
    case Sub_Bound
    with fuse_inv_bound [OF fuse [unfolded L_def]] inv show ?thesis by (auto simp: Subscriber_apply_def)
  qed (auto simp: Subscriber_apply_def Subscriber_try_send_hello_def Subscriber_try_send_command_def Subscriber_try_request_geometry_def
      Subscriber_try_send_ping_def Subscriber_try_send_receiver_report_def simp del: append_Nil2 intro!: same send_message_fine)
qed

lemma run_fuse_inv_run:
  fixes lib :: "('d, 'r, 's, 'p, 'v, 'q, 'x, 'l, 'm, 'b, 'n, 'g, 'h, 'e, 'f) SubscriberLib"
  defines "L \<equiv> \<lambda>layout. ll_frame_len (sl_layout lib) layout < 2 ^ 32"
  assumes lib: "confirms_only lib L" and "run_fuse_inv L config log s"
  shows "\<exists>log' s'. Subscriber_run lib ops actions s = Some (log', s') \<and> run_fuse_inv L config (log @ log') s'"
  using assms(3)
proof (induction actions arbitrary: log s)
  case (Cons action actions)
  obtain log1 s1 where one: "Subscriber_apply lib ops action s = Some (log1, s1)" "run_fuse_inv L config (log @ log1) s1"
    using run_fuse_inv_apply [of lib, folded L_def, OF lib Cons.prems] by blast
  from Cons.IH [OF one(2)] one(1) show ?case by auto
qed simp

lemma run_fuse_inv_new:
  assumes "Subscriber_new lib ops connection authorization config now1 now2 = Inr s"
  shows "run_fuse_inv L config [] s"
proof -
  have "sub_fine L (config, 0, 0, False) s" and pos: "bc_max_protocol_violations config \<noteq> 0"
    using assms by (auto simp: Subscriber_new_def result_bind_eq_Inr BindingConfig_validate_def sub_fine_def sub_guard_def split: if_splits)
  then have "fuse_inv L config [] s" unfolding fuse_inv_def by (intro exI [of _ 0]) (simp add: unat_eq_0)
  with pos show ?thesis by (simp add: run_fuse_inv_def)
qed

subsection \<open>What is handed out\<close>

lemma push_complete_same:
  assumes "reassembler_fine config r" "Reassembler_push g s bs config r = Some (Inr (Ro_Complete g' s' payload b) :: ('x BindingError, ReassemblyOutcome) result, r')"
  shows "g' = g \<and> s' = s"
  using assms(2)
proof (cases rule: push_cases)
  case (routed f st b')
  have f: "f \<in> UNIV" "fragment_ok config f" using decode_fragment_ok [OF routed(2)] by simp_all
  obtain st0 where "(Reassembly_new g s f :: ('x BindingError, Reassembly) result option) = Some (Inr st0)"
    "reassembly_ok config UNIV st0" using reassembly_new_ok [OF f] by blast
  with routed(6) assms(1) have st: "reassembly_ok config UNIV st" by (auto simp: reassembler_fine_def)
  from routed(5) st f show ?thesis
    by (cases rule: push_current_cases [where p = "(g, s, bs)"]) (use routed(3,4) in auto)
qed auto

text \<open>What a result that is handed out went through.\<close>

definition payload_accepted ::
  "('d, 'r, 's, 'p, 'v, 'q, 'x, 'l, 'm, 'b, 'n, 'g, 'h, 'e, 'f) SubscriberLib \<Rightarrow> 'e \<Rightarrow> bytes \<Rightarrow> ('m, 'b) NanaTrackingResult
     \<Rightarrow> ('c, 'd, 'r, 's, 'p, 'v, 'q, 'l, 'm, 'n, 'g, 'h) NtpSubscriber \<Rightarrow> ('c, 'd, 'r, 's, 'p, 'v, 'q, 'l, 'm, 'n, 'g, 'h) NtpSubscriber \<Rightarrow> bool" where
  "payload_accepted lib clock payload result s s' =
     (\<exists>active raw missing result_guard.
        sub_active s = Some active \<and> sl_decode_result lib payload = Inr raw \<and> result = with_geometry (sub_geometry_cache s) raw
        \<and> ntr_generation result = ss_generation active
        \<and> sl_validate_result lib (ss_descriptor active) result = Inr ()
        \<and> sl_result_accept lib result (ss_result_guard active) = (Inr missing, result_guard)
        \<and> sub_active s' = Some (active\<lparr>ss_result_guard := result_guard\<rparr>)
        \<and> uint (sl_clock_now_ns lib clock) - uint (ntr_capture_timestamp_ns result)
            \<le> int (bc_max_result_age (sub_config s)) + uint (sl_clock_uncertainty_ns lib clock)
        \<and> rp_received (sub_report s') = sat_add (rp_received (sub_report s)) 1)"

text \<open>The payload is that of the message this poll received: what a reliable frame carries, or what a datagram
  completes.\<close>

definition result_sound ::
  "('d, 'r, 's, 'p, 'v, 'q, 'x, 'l, 'm, 'b, 'n, 'g, 'h, 'e, 'f) SubscriberLib \<Rightarrow> 'c ConnectionOps \<Rightarrow> (nat \<Rightarrow> Instant) \<Rightarrow> 'e
     \<Rightarrow> ('m, 'b) NanaTrackingResult \<Rightarrow> ('c, 'd, 'r, 's, 'p, 'v, 'q, 'l, 'm, 'n, 'g, 'h) NtpSubscriber
     \<Rightarrow> ('c, 'd, 'r, 's, 'p, 'v, 'q, 'l, 'm, 'n, 'g, 'h) NtpSubscriber \<Rightarrow> bool" where
  "result_sound lib ops instants clock result s s' =
     (\<exists>message payload s1 s2.
        Subscriber_receive_realtime ops instants s = (Inr (Some message) :: ('x BindingError, _) result, s1)
        \<and> rr_flow message = CORE_RESULT_FLOW
        \<and> Subscriber_core_payload message s1
            = Some (Inr (Some (rr_generation message, rr_sequence message, payload)) :: ('x BindingError, _) result, s2)
        \<and> ntr_generation result = rr_generation message \<and> ntr_sequence result = rr_sequence message
        \<and> payload_accepted lib clock payload result s s')"

lemma with_geometry_fields [simp]:
  "ntr_generation (with_geometry c r) = ntr_generation r" "ntr_sequence (with_geometry c r) = ntr_sequence r"
  "ntr_session_id (with_geometry c r) = ntr_session_id r" "ntr_capture_timestamp_ns (with_geometry c r) = ntr_capture_timestamp_ns r"
  by (simp_all add: with_geometry_def split: option.split)

lemma max_result_age_le: "unat (BindingConfig_max_result_age_ns config) \<le> bc_max_result_age config"
proof (cases "bc_max_result_age config < 2 ^ 64")
  case True
  then show ?thesis by (simp only: BindingConfig_max_result_age_ns_def if_True unat_of_nat mod_less_eq_dividend)
next
  case False
  have "unat (- 1 :: u64) < 2 ^ 64" using unat_lt_size [of "- 1 :: u64"] by simp
  with False show ?thesis by (simp add: BindingConfig_max_result_age_ns_def)
qed

lemma age_bound:
  assumes "\<not> sat_sub now taken > sat_add (BindingConfig_max_result_age_ns config) uncertainty"
  shows "uint now - uint taken \<le> int (bc_max_result_age config) + uint (uncertainty :: u64)"
proof -
  have "unat (sat_sub now taken) \<le> unat (sat_add (BindingConfig_max_result_age_ns config) uncertainty)"
    using assms by (simp only: not_less word_le_nat_alt)
  also have "\<dots> \<le> unat (BindingConfig_max_result_age_ns config) + unat uncertainty" by (simp only: unat_sat_add min.cobounded1)
  also have "\<dots> \<le> bc_max_result_age config + unat uncertainty" using max_result_age_le by simp
  finally have "unat now - unat taken \<le> bc_max_result_age config + unat uncertainty" by (simp only: unat_sat_sub)
  then have "int (unat now) - int (unat taken) \<le> int (bc_max_result_age config) + int (unat uncertainty)" by linarith
  then show ?thesis by (simp only: uint_nat)
qed

lemma core_result_sound:
  assumes "Subscriber_core_result lib clock generation sequence payload s = (Inr (outcome, Some result, frame), s')"
    and "sub_active s = Some active" "ss_generation active = generation"
  shows "payload_accepted lib clock payload result s s' \<and> ntr_generation result = generation \<and> ntr_sequence result = sequence \<and> frame = None"
proof -
  obtain raw where raw: "sl_decode_result lib payload = Inr raw"
    using assms(1) by (auto simp: Subscriber_core_result_def result_map_err_def and_then_Inr split: sum.splits)
  let ?result = "with_geometry (sub_geometry_cache s) raw"
  let ?age = "sat_sub (sl_clock_now_ns lib clock) (ntr_capture_timestamp_ns raw)"
  have fresh: "\<not> ?age > sat_add (BindingConfig_max_result_age_ns (sub_config s)) (sl_clock_uncertainty_ns lib clock)"
    and gen: "ntr_generation raw = generation" "ntr_sequence raw = sequence" and valid: "sl_validate_result lib (ss_descriptor active) ?result = Inr ()"
    using assms raw by (auto simp: Subscriber_core_result_def Let_def and_then_Inr result_map_err_def split: if_splits sum.splits prod.splits)
  obtain missing guard where accepted: "sl_result_accept lib ?result (ss_result_guard active) = (Inr missing, guard)"
    using assms raw fresh gen valid
    by (auto simp: Subscriber_core_result_def Let_def and_then_Inr result_map_err_def split: if_splits sum.splits prod.splits)
  have "result = ?result" "frame = None" "sub_active s' = Some (active\<lparr>ss_result_guard := guard\<rparr>)"
    "rp_received (sub_report s') = sat_add (rp_received (sub_report s)) 1"
    using assms raw fresh gen valid accepted
    by (auto simp: Subscriber_core_result_def Let_def note_dropped_def Subscriber_note_age_def split: if_splits)
  with raw gen valid accepted age_bound [OF fresh] assms(2,3) show ?thesis
    unfolding payload_accepted_def by auto
qed

definition sub_seen ::
  "('c, 'd, 'r, 's, 'p, 'v, 'q, 'l, 'm, 'n, 'g, 'h) NtpSubscriber
     \<Rightarrow> ('d, 'l, 'g, 'h) SubscriberSession option \<times> 'm GeometryCache option \<times> BindingConfig \<times> u64" where
  "sub_seen s = (sub_active s, sub_geometry_cache s, sub_config s, rp_received (sub_report s))"

lemma payload_accepted_cong:
  "sub_seen s1 = sub_seen s \<Longrightarrow> payload_accepted lib clock payload result s1 s' = payload_accepted lib clock payload result s s'"
  by (simp add: sub_seen_def payload_accepted_def)

lemma completed_payload_Some: "completed_payload outcome = Some (g, q, payload) \<longleftrightarrow> (\<exists>b. outcome = Ro_Complete g q payload b)"
  by (auto simp: completed_payload_def split: ReassemblyOutcome.splits)

lemma compact_frame_no_result: "Subscriber_compact_frame lib clock message active s \<noteq> (Inr (outcome, Some result, frame), s')"
  by (auto simp: Subscriber_compact_frame_def and_then_Inr split: prod.splits)

lemma geometry_result_no_result: "Subscriber_geometry_result lib g q payload s \<noteq> (Inr (outcome, Some result, frame), s')"
  by (auto simp: Subscriber_geometry_result_def and_then_Inr split: option.splits if_splits)

lemma sub_seen_note:
  "sub_seen (Subscriber_note_reassembly_replacement outcome s) = sub_seen s" "sub_seen (s\<lparr>sub_core_reassembly := r\<rparr>) = sub_seen s"
  by (simp_all add: sub_seen_def Subscriber_note_reassembly_replacement_def note_dropped_def Let_def)

lemma core_payload_seen:
  assumes "sub_fine L v s" "Subscriber_core_payload message s = Some (Inr (Some (g, q, payload)) :: ('x BindingError, _) result, s1)"
  shows "g = rr_generation message \<and> q = rr_sequence message" "sub_seen s1 = sub_seen s"
proof -
  have fine: "reassembler_fine (sub_config s) (sub_core_reassembly s)" using assms(1) by (simp add: sub_fine_def)
  show "g = rr_generation message \<and> q = rr_sequence message"
  proof (cases "sub_transport_mode s = ReliableLatestOnly")
    case False
    then obtain b r' where "Reassembler_push (rr_generation message) (rr_sequence message) (rr_payload message) (sub_config s)
        (sub_core_reassembly s) = Some (Inr (Ro_Complete g q payload b) :: ('x BindingError, _) result, r')"
      using assms(2) by (auto simp: Subscriber_core_payload_def and_then_Inr completed_payload_Some split: option.splits)
    then show ?thesis using push_complete_same [OF fine] by blast
  qed (use assms(2) in \<open>simp add: Subscriber_core_payload_def\<close>)
  show "sub_seen s1 = sub_seen s"
    using assms(2)
    by (auto simp: Subscriber_core_payload_def and_then_Inr sub_seen_note split: if_splits option.splits)
qed

lemma dispatch_sound:
  fixes lib :: "('d, 'r, 's, 'p, 'v, 'q, 'x, 'l, 'm, 'b, 'n, 'g, 'h, 'e, 'f) SubscriberLib"
  assumes "sub_fine L v s" "sub_active s = Some active" "rr_generation message = ss_generation active"
    and "Subscriber_dispatch lib clock message active s = Some (Inr (outcome, Some result, frame), s')"
  shows "rr_flow message = CORE_RESULT_FLOW \<and> frame = None
    \<and> (\<exists>payload s2. Subscriber_core_payload message s
            = Some (Inr (Some (rr_generation message, rr_sequence message, payload)) :: ('x BindingError, _) result, s2)
          \<and> ntr_generation result = rr_generation message \<and> ntr_sequence result = rr_sequence message
          \<and> payload_accepted lib clock payload result s s')"
proof -
  have flow: "rr_flow message = CORE_RESULT_FLOW" "rr_flow message \<noteq> COMPACT_RIG_FLOW"
    using assms(4) by (auto simp: Subscriber_dispatch_def compact_frame_no_result geometry_result_no_result and_then_Inr
        split: if_splits option.splits)
  then obtain g q payload s1 where core: "Subscriber_core_payload message s = Some (Inr (Some (g, q, payload)) :: ('x BindingError, _) result, s1)"
    "Subscriber_core_result lib clock g q payload s1 = (Inr (outcome, Some result, frame), s')"
    using assms(4) by (auto simp: Subscriber_dispatch_def and_then_Inr split: option.splits)
  note seen = core_payload_seen [OF assms(1) core(1)]
  have "sub_active s1 = Some active" using seen(2) assms(2) by (simp add: sub_seen_def)
  from core_result_sound [OF core(2) this] payload_accepted_cong [OF seen(2), of lib clock payload result s'] seen(1) assms(3) core(1) flow(1)
  show ?thesis by auto
qed

lemma poll_sound:
  fixes lib :: "('d, 'r, 's, 'p, 'v, 'q, 'x, 'l, 'm, 'b, 'n, 'g, 'h, 'e, 'f) SubscriberLib"
  assumes fine: "sub_fine L v s" and poll: "Subscriber_poll_realtime lib ops instants clock now s = Some (Inr (outcome, Some result, frame), s')"
  shows "\<not> sub_fused s \<and> result_sound lib ops instants clock result s s' \<and> frame = None"
proof -
  have open': "\<not> sub_fused s" using poll by (auto simp: Subscriber_poll_realtime_def)
  then have inner: "Subscriber_poll_realtime_inner lib ops instants clock now s = Some (Inr (outcome, Some result, frame), s')"
    using poll by (auto simp: Subscriber_poll_realtime_def Subscriber_note_violation_def split: option.splits)
  then obtain message s1 where recv: "Subscriber_receive_realtime ops instants s = (Inr (Some message) :: ('x BindingError, _) result, s1)"
    and handle: "Subscriber_handle_realtime lib clock now message s1 = Some (Inr (outcome, Some result, frame), s')"
    by (auto simp: Subscriber_poll_realtime_inner_def split: prod.splits sum.splits option.splits)
  have s1: "sub_fine L v s1" "sub_seen s1 = sub_seen s"
    using receive_realtime_fine [OF fine, of ops instants] recv
    by (auto simp: Subscriber_receive_realtime_def sub_seen_def split: if_splits prod.splits sum.splits)
  have flow: "rr_flow message \<noteq> COMPACT_RIG_FLOW"
    using handle
    by (auto simp: Subscriber_handle_realtime_def Subscriber_dispatch_def compact_frame_no_result split: prod.splits sum.splits option.splits if_splits)
  then obtain active where "sub_active s1 = Some active" "rr_generation message = ss_generation active"
    "Subscriber_dispatch lib clock message active s1 = Some (Inr (outcome, Some result, frame), s')"
    using handle by (auto simp: Subscriber_handle_realtime_def split: option.splits if_splits)
  from dispatch_sound [OF s1(1) this]
  have "\<exists>payload s2. Subscriber_core_payload message s1
        = Some (Inr (Some (rr_generation message, rr_sequence message, payload)) :: ('x BindingError, _) result, s2)
      \<and> ntr_generation result = rr_generation message \<and> ntr_sequence result = rr_sequence message
      \<and> payload_accepted lib clock payload result s s'" "rr_flow message = CORE_RESULT_FLOW" "frame = None"
    by (simp_all add: payload_accepted_cong [OF s1(2)])
  with recv open' show ?thesis unfolding result_sound_def by blast
qed

subsection \<open>Properties\<close>

text \<open>C35: no sequence of operations of a subscriber, and nothing its peer sends, makes it panic, as long as the layouts the
  negotiator of the protocol library confirms have a frame length of 32 bits, which the code expects. On every connection,
  that is between two successful calls of \<^verbatim>\<open>reset_for_reconnect\<close>, it tolerates at most as many protocol violations of the
  realtime channel as configured: the poll that sees the last of them fuses the channel, and every later poll on that
  connection is refused without reading the channel. The telemetry counts the violations of the present connection
  exactly and reports the fuse exactly when it was tripped; a move to a new connection clears both.\<close>

theorem subscriber_fuses:
  assumes "Subscriber_new lib ops connection authorization config now1 now2 = Inr s"
    and frame_length_fits: "\<And>confirm n layout n'. sl_confirm lib confirm n = (Inr layout, n') \<Longrightarrow> ll_frame_len (sl_layout lib) layout < 2 ^ 32"
  shows "\<exists>log s'. Subscriber_run lib ops actions s = Some (log, s')
    \<and> list_all (\<lambda>results. violations results \<le> unat (bc_max_protocol_violations config)
         \<and> (\<forall>before r after. results = before @ r # after \<and> violations before = unat (bc_max_protocol_violations config)
              \<longrightarrow> r = Inl Be_ChannelFused)) (poll_parts log)
    \<and> unat (tt_malformed_frames (Subscriber_telemetry s')) = violations (last (poll_parts log))
    \<and> (tt_fuse_tripped (Subscriber_telemetry s') \<longleftrightarrow> violations (last (poll_parts log)) = unat (bc_max_protocol_violations config))"
proof -
  have "confirms_only lib (\<lambda>layout. ll_frame_len (sl_layout lib) layout < 2 ^ 32)"
    using frame_length_fits unfolding confirms_only_def by blast
  from run_fuse_inv_run [OF this run_fuse_inv_new [OF assms(1)], of ops actions]
  obtain log s' where run: "Subscriber_run lib ops actions s = Some (log, s')"
    and inv: "run_fuse_inv (\<lambda>layout. ll_frame_len (sl_layout lib) layout < 2 ^ 32) config log s'" by auto
  have fuse: "fuse_inv (\<lambda>layout. ll_frame_len (sl_layout lib) layout < 2 ^ 32) config (last (poll_parts log)) s'"
    using inv by (simp add: run_fuse_inv_def)
  have "list_all (fuse_kept config) (poll_parts log)"
    using inv fuse_inv_kept [OF fuse] by (intro poll_parts_all) (simp_all add: run_fuse_inv_def)
  moreover from fuse have "unat (tt_malformed_frames (Subscriber_telemetry s')) = violations (last (poll_parts log))"
    "tt_fuse_tripped (Subscriber_telemetry s') \<longleftrightarrow> violations (last (poll_parts log)) = unat (bc_max_protocol_violations config)"
    by (auto simp: fuse_inv_def sub_fine_def sub_guard_def Subscriber_telemetry_def)
  ultimately show ?thesis using run by (simp add: fuse_kept_def [abs_def])
qed

text \<open>C36: a result that a subscriber hands out, after whatever happened before, moves to new connections included, was
  decoded from the payload of the message this poll received on the result flow, or that its datagram completed; it has the
  generation and sequence of that message and the active session's generation, and was completed with the cached landmarks
  only if they are of the same session and generation and not newer; it was validated against the active session's
  descriptor and accepted by its result guard, whose new state is kept; its age on the estimated clock of the producer is
  at most the configured age plus the uncertainty of the estimate; and it is counted as received. A fused channel hands
  out nothing.\<close>

theorem subscriber_results_sound:
  assumes "Subscriber_new lib ops connection authorization config now1 now2 = Inr s0"
    and frame_length_fits: "\<And>confirm n layout n'. sl_confirm lib confirm n = (Inr layout, n') \<Longrightarrow> ll_frame_len (sl_layout lib) layout < 2 ^ 32"
    and "Subscriber_run lib ops actions s0 = Some (log, s)"
    and "Subscriber_poll_realtime lib ops instants clock now s = Some (Inr (outcome, Some result, frame), s')"
  shows "\<not> sub_fused s \<and> result_sound lib ops instants clock result s s' \<and> frame = None"
proof -
  have "confirms_only lib (\<lambda>layout. ll_frame_len (sl_layout lib) layout < 2 ^ 32)"
    using frame_length_fits unfolding confirms_only_def by blast
  from run_fuse_inv_run [OF this run_fuse_inv_new [OF assms(1)], of ops actions] assms(3)
  have "run_fuse_inv (\<lambda>layout. ll_frame_len (sl_layout lib) layout < 2 ^ 32) config log s" by auto
  then obtain v where "sub_fine (\<lambda>layout. ll_frame_len (sl_layout lib) layout < 2 ^ 32) v s"
    by (auto simp: run_fuse_inv_def fuse_inv_def)
  then show ?thesis using assms(4) by (rule poll_sound)
qed

text \<open>A subscriber on a scripted connection, over a library that hands the negotiated layout through and accepts growing
  sequences.\<close>

type_synonym demo_negotiator = "demo_layout option"
type_synonym demo_subscriber =
  "(script, u8, u8, u16, u8, u8, u8, demo_layout, u8, demo_negotiator, unit, u64) NtpSubscriber"

definition demo_subscriber_lib ::
  "(u8, u8, u16, u8, u8, u8, unit, demo_layout, u8, unit, demo_negotiator, unit, u64, u64, unit) SubscriberLib" where
  "demo_subscriber_lib = \<lparr>sl_control = demo_control_lib, sl_layout = demo_layout_lib, sl_negotiator_new = Inr None,
     sl_receive_proposal = (\<lambda>layout_id layout d now n.
       (Inr \<lparr>la_layout_id = layout_id, la_layout_hash = 6, la_parameter_count = of_nat (length (lp_extra_signals layout)),
              la_expected_payload_len = 1\<rparr>, Some (layout_id, layout))),
     sl_confirm = (\<lambda>confirm n. case n of
         None \<Rightarrow> (Inl (), None)
       | Some layout \<Rightarrow> (if confirm = ll_confirmation demo_layout_lib layout then Inr layout else Inl (), None)),
     sl_compact_confirmed = (\<lambda>session generation layout confirm policy. Inr ()),
     sl_compact_accept = (\<lambda>payload clock g. (Inl (), g)), sl_result_guard = (\<lambda>session generation. 0),
     sl_result_accept = (\<lambda>result last. if last < ntr_sequence result then (Inr (ntr_sequence result - last - 1), ntr_sequence result) else (Inl (), last)),
     sl_validate_result = (\<lambda>d result. Inr ()),
     sl_decode_result = (\<lambda>payload. case payload of [b] \<Rightarrow> Inr (demo_result (ucast b)) | _ \<Rightarrow> Inl ()),
     sl_clock_now_ns = (\<lambda>clock. clock), sl_clock_uncertainty_ns = (\<lambda>clock. 0), sl_clock_synchronized = (\<lambda>now uncertainty. now)\<rparr>"

definition demo_subscriber :: "BindingConfig \<Rightarrow> demo_message list \<Rightarrow> bytes list \<Rightarrow> demo_subscriber" where
  "demo_subscriber config messages data = \<lparr>sub_connection = \<lparr>sc_control = messages, sc_data = data\<rparr>,
     sub_authorization = script_authorization Nr_Subscriber, sub_transport_mode = ReliableLatestOnly, sub_config = config,
     sub_remote_hello = False, sub_negotiator = None, sub_pending = None, sub_active = None, sub_outbox = [],
     sub_core_reassembly = Reassembler_new, sub_geometry_reassembly = Reassembler_new, sub_reliable = ReliableLatestReceiver_default,
     sub_geometry_cache = None, sub_report = ReceiverReport_default, sub_previous_age_ns = None, sub_clock = ClockSynchronizer_default,
     sub_reconfigure_times = [], sub_receive_window_started = 0, sub_receive_window_count = 0, sub_sustained_receive_window_started = 0,
     sub_sustained_receive_count = 0, sub_rate_limited = 0, sub_protocol_violations = 0, sub_malformed_frames = 0, sub_fused = False\<rparr>"

lemma demo_subscriber_new:
  assumes "BindingConfig_validate config = (Inr config :: (unit BindingError, _) result)"
  shows "Subscriber_new demo_subscriber_lib script_ops \<lparr>sc_control = messages, sc_data = data\<rparr> (script_authorization Nr_Subscriber) config 0 0
    = Inr (demo_subscriber config messages data)"
  using assms
  by (simp add: demo_subscriber_def Subscriber_new_def script_ops_def demo_subscriber_lib_def result_map_err_def
      validate_connection_authorization_def script_metadata_def script_authorization_def transport_mode_of_def)

lemma demo_config_valid: "BindingConfig_validate BindingConfig_default = (Inr BindingConfig_default :: (unit BindingError, _) result)"
  by (simp add: BindingConfig_validate_def BindingConfig_default_def)

text \<open>A malformed frame on a channel that tolerates a single violation.\<close>

definition demo_strict :: BindingConfig where
  "demo_strict = BindingConfig_default\<lparr>bc_max_protocol_violations := 1\<rparr>"

lemma demo_strict_valid: "BindingConfig_validate demo_strict = (Inr demo_strict :: (unit BindingError, _) result)"
  by (simp add: BindingConfig_validate_def BindingConfig_default_def demo_strict_def)

lemma drain_some:
  "0 < room \<Longrightarrow> drain_frames try_receive clock max_frame_bytes room self connection =
     (case try_receive connection of
        (Inr (Some wire), connection) \<Rightarrow>
          (case reliable_decode (clock (room - 1)) wire max_frame_bytes of
             Inl error \<Rightarrow> (Inl error, self, connection)
           | Inr frame \<Rightarrow> drain_frames try_receive clock max_frame_bytes (room - 1) (absorb_frame frame self) connection)
      | (Inr None, connection) \<Rightarrow> (Inr (), self, connection)
      | (Inl error, connection) \<Rightarrow>
          if te_kind error = Te_WouldBlock then (Inr (), self, connection)
          else (Inl (Be_Transport error), self, connection))"
  by (cases room) (auto split: prod.split sum.split option.split)

lemma script_drain:
  "drain_frames (co_try_receive script_ops) instants max_bytes 32 receiver \<lparr>sc_control = messages, sc_data = []\<rparr>
    = (Inr (), receiver, \<lparr>sc_control = messages, sc_data = []\<rparr>)"
  "drain_frames (co_try_receive script_ops) instants max_bytes 31 receiver \<lparr>sc_control = messages, sc_data = []\<rparr>
    = (Inr (), receiver, \<lparr>sc_control = messages, sc_data = []\<rparr>)"
  "drain_frames (co_try_receive script_ops) instants max_bytes 32 receiver \<lparr>sc_control = messages, sc_data = wire # data\<rparr>
    = (case reliable_decode (instants 31) wire max_bytes of
         Inl error \<Rightarrow> (Inl error, receiver, \<lparr>sc_control = messages, sc_data = data\<rparr>)
       | Inr frame \<Rightarrow> drain_frames (co_try_receive script_ops) instants max_bytes 31 (absorb_frame frame receiver)
           \<lparr>sc_control = messages, sc_data = data\<rparr>)"
  by (simp_all add: drain_some script_ops_def split: sum.split)

lemmas demo_realtime_defs = Subscriber_poll_realtime_def Subscriber_poll_realtime_inner_def Subscriber_receive_realtime_def
  ReliableLatestReceiver_poll_def script_drain Subscriber_note_violation_def demo_subscriber_def

lemma demo_fuses:
  "map_option fst (Subscriber_run demo_subscriber_lib script_ops [Sub_Realtime (\<lambda>n. 0) 0 0, Sub_Realtime (\<lambda>n. 0) 0 0]
      (demo_subscriber demo_strict [] [[]]))
    = Some [Sl_Poll (Inl Be_InvalidFragment), Sl_Poll (Inl Be_ChannelFused)]"
  by (simp add: Subscriber_apply_def demo_realtime_defs demo_strict_def reliable_decode_def RELIABLE_HEADER_LEN_def
      is_protocol_violation_def sat_add_def)

lemma demo_frame_length:
  "ll_frame_len (sl_layout demo_subscriber_lib) layout < 2 ^ 32"
  by (simp add: demo_subscriber_lib_def demo_layout_lib_def)

text \<open>C35 witness: the malformed frame trips the fuse and the next poll is refused.\<close>

theorem subscriber_fuses_witness:
  "\<exists>s'. Subscriber_run demo_subscriber_lib script_ops [Sub_Realtime (\<lambda>n. 0) 0 0, Sub_Realtime (\<lambda>n. 0) 0 0] (demo_subscriber demo_strict [] [[]])
      = Some ([Sl_Poll (Inl Be_InvalidFragment), Sl_Poll (Inl Be_ChannelFused)], s')
    \<and> tt_fuse_tripped (Subscriber_telemetry s') \<and> unat (tt_malformed_frames (Subscriber_telemetry s')) = 1"
proof -
  have "violations [Inl Be_InvalidFragment, Inl Be_ChannelFused :: (unit BindingError, (u8, unit, unit) received_parts) result] = 1"
    by (simp add: violations_def is_protocol_violation_def)
  then have "violations (last (poll_parts [Sl_Poll (Inl Be_InvalidFragment :: (unit BindingError, (u8, unit, unit) received_parts) result),
      Sl_Poll (Inl Be_ChannelFused)])) = 1"
    by (simp add: poll_parts_def)
  then show ?thesis
    using subscriber_fuses [OF demo_subscriber_new [OF demo_strict_valid] demo_frame_length,
        of "[Sub_Realtime (\<lambda>n. 0) 0 0, Sub_Realtime (\<lambda>n. 0) 0 0]" "[]" "[[]]"]
      demo_fuses
    by (auto simp: demo_strict_def)
qed

text \<open>A session is negotiated over the scripted control messages, and a result arrives.\<close>

definition demo_active :: "(u8, demo_layout, unit, u64) SubscriberSession" where
  "demo_active = \<lparr>ss_descriptor = 9, ss_session_id = 3, ss_generation = 4, ss_layout = (7, spr_layout demo_session_proposal),
     ss_topology = spr_topology demo_session_proposal, ss_compact_guard = (), ss_result_guard = 0\<rparr>"

lemmas demo_subscriber_defs = Subscriber_apply_def Subscriber_poll_control_def Subscriber_flush_control_def demo_subscriber_def
  Subscriber_receive_control_def demo_subscriber_lib_def Subscriber_handle_control_def Subscriber_queue_control_def demo_layout_lib_def
  result_map_err_def

lemma demo_subscriber_hello:
  "Subscriber_apply demo_subscriber_lib script_ops (Sub_Control 0 0) (demo_subscriber BindingConfig_default (demo_hello # messages) data)
    = Some ([], demo_subscriber BindingConfig_default messages data\<lparr>sub_remote_hello := True\<rparr>)"
  by (simp add: demo_subscriber_defs)
    (simp add: demo_hello_def script_authorization_def validate_hello_def ProtocolHello_new_def)

lemma demo_subscriber_proposal:
  "Subscriber_apply demo_subscriber_lib script_ops (Sub_Control 0 0)
      (demo_subscriber BindingConfig_default (demo_proposal # messages) data\<lparr>sub_remote_hello := True\<rparr>)
    = Some ([], demo_subscriber BindingConfig_default messages data\<lparr>sub_remote_hello := True, sub_pending := Some demo_session_proposal,
        sub_negotiator := Some (7, spr_layout demo_session_proposal)\<rparr>)"
  by (simp add: demo_subscriber_defs)
    (simp add: demo_subscriber_defs Subscriber_session_proposal_def flip: demo_session_proposal_simps(1) demo_accepted_def del: flush_control.simps(2) demo_session_proposal_simps(1))

lemma demo_subscriber_confirmed:
  "Subscriber_apply demo_subscriber_lib script_ops (Sub_Control 0 0)
      (demo_subscriber BindingConfig_default (demo_confirmed # messages) data\<lparr>sub_remote_hello := True, sub_pending := Some demo_session_proposal,
        sub_negotiator := Some (7, spr_layout demo_session_proposal)\<rparr>)
    = Some ([], demo_subscriber BindingConfig_default messages data\<lparr>sub_remote_hello := True, sub_active := Some demo_active\<rparr>)"
  by (simp add: demo_subscriber_defs)
    (simp add: demo_confirmed_def demo_subscriber_defs Subscriber_layout_confirmed_def demo_active_def Reassembler_new_def Reassembler_clear_def
       Let_def flip: demo_ready_def del: flush_control.simps(2))

definition demo_wire :: bytes where
  "demo_wire = reliable_wire CORE_RESULT_FLOW 4 1 [1]"

lemma demo_decode:
  "reliable_decode now demo_wire 8388608 = (Inr \<lparr>rr_flow = CORE_RESULT_FLOW, rr_generation = 4, rr_sequence = 1, rr_priority = Rt_High,
     rr_received_at = now, rr_payload = [1]\<rparr> :: (unit BindingError, _) result)"
proof -
  have "flow_priority CORE_RESULT_FLOW = Some Rt_High" by (simp add: flow_priority_def CORE_RESULT_FLOW_def COMPACT_RIG_FLOW_def)
  then show ?thesis
    using decode_wire_of [of 8388608 "\<lparr>rm_flow = CORE_RESULT_FLOW, rm_generation = 4, rm_sequence = 1, rm_payload = [1]\<rparr>" now]
    by (simp add: demo_wire_def fits_def received_def wire_of_def RELIABLE_HEADER_LEN_def)
qed

definition demo_ready_subscriber :: demo_subscriber where
  "demo_ready_subscriber = demo_subscriber BindingConfig_default [] [demo_wire]\<lparr>sub_remote_hello := True, sub_active := Some demo_active\<rparr>"

lemma demo_poll_result:
  "map_option fst (Subscriber_poll_realtime demo_subscriber_lib script_ops (\<lambda>n. 0) 60 0 demo_ready_subscriber)
    = Some (Inr (Rv_Progress, Some (demo_result 1), None))"
proof -
  have "bt_entries (rlr_pending (absorb_frame frame ReliableLatestReceiver_default)) = [(rr_flow frame, frame)]" for frame
    unfolding absorb_frame_def ReliableLatestReceiver_default_def by (simp) (transfer, simp)
  moreover have "CORE_RESULT_FLOW \<noteq> COMPACT_RIG_FLOW" by (simp add: CORE_RESULT_FLOW_def COMPACT_RIG_FLOW_def)
  ultimately show ?thesis
    by (simp add: demo_realtime_defs demo_ready_subscriber_def demo_decode Subscriber_handle_realtime_def Subscriber_dispatch_def demo_active_def
      Subscriber_core_payload_def Subscriber_core_result_def demo_subscriber_lib_def with_geometry_def result_map_err_def demo_result_def
      BindingConfig_max_result_age_ns_def sat_sub_def sat_add_def)
qed

text \<open>C36 witness: a session is negotiated over the scripted messages and a result arrives.\<close>

theorem subscriber_results_sound_witness:
  "\<exists>s s'. Subscriber_run demo_subscriber_lib script_ops [Sub_Control 0 0, Sub_Control 0 0, Sub_Control 0 0]
        (demo_subscriber BindingConfig_default [demo_hello, demo_proposal, demo_confirmed] [demo_wire]) = Some ([], s)
    \<and> Subscriber_poll_realtime demo_subscriber_lib script_ops (\<lambda>n. 0) 60 0 s = Some (Inr (Rv_Progress, Some (demo_result 1), None), s')
    \<and> result_sound demo_subscriber_lib script_ops (\<lambda>n. 0) 60 (demo_result 1) s s'"
proof -
  have run: "Subscriber_run demo_subscriber_lib script_ops [Sub_Control 0 0, Sub_Control 0 0, Sub_Control 0 0]
      (demo_subscriber BindingConfig_default [demo_hello, demo_proposal, demo_confirmed] [demo_wire]) = Some ([], demo_ready_subscriber)"
    by (simp add: demo_subscriber_hello demo_subscriber_proposal demo_subscriber_confirmed demo_ready_subscriber_def)
  obtain s' where poll: "Subscriber_poll_realtime demo_subscriber_lib script_ops (\<lambda>n. 0) 60 0 demo_ready_subscriber
      = Some (Inr (Rv_Progress, Some (demo_result 1), None), s')"
    using demo_poll_result by auto
  from subscriber_results_sound [OF demo_subscriber_new [OF demo_config_valid] demo_frame_length run poll] run poll show ?thesis by blast
qed

end
