(* ===== verification/Link_Keyring.thy ===== *)
theory Link_Keyring
  imports Link_Trust_Store
begin

text \<open>
  The trust store over the operating system's credential service, \<^verbatim>\<open>keyring_store.rs\<close> of the pairing crate.
  The service and the JSON codec are third-party code: a record of operations on the state of the service, with
  texts of an opaque type. Each call of the service may fail, and a failed call may or may not have taken
  effect. A panic of the conversion of a stored record is \<open>None\<close>.

  The locale \<open>fail_closed\<close> states what a store promises even when its storage fails: a step may give a peer
  access only where its operation grants it, and a step that succeeds leaves the access it decides. Both the file
  store and the keyring store interpret it.
\<close>

subsection \<open>The store\<close>

datatype KeyringError = Ke_NoEntry | Ke_Failed

text \<open>\<open>kl_entry\<close> is \<^verbatim>\<open>Entry::new\<close>; the other operations act on an entry, named by its service and user.\<close>

record ('k, 'w) KeyringLib =
  kl_entry :: "bytes \<Rightarrow> bytes \<Rightarrow> 'k \<Rightarrow> (KeyringError, unit) result"
  kl_get_password :: "bytes \<Rightarrow> bytes \<Rightarrow> 'k \<Rightarrow> (KeyringError, 'w) result"
  kl_set_password :: "bytes \<Rightarrow> bytes \<Rightarrow> 'w \<Rightarrow> 'k \<Rightarrow> (KeyringError, unit) result \<times> 'k"
  kl_delete_credential :: "bytes \<Rightarrow> bytes \<Rightarrow> 'k \<Rightarrow> (KeyringError, unit) result \<times> 'k"
  kl_text_len :: "'w \<Rightarrow> nat"
  kl_index_from_str :: "'w \<Rightarrow> bytes list option"
  kl_index_to_string :: "bytes list \<Rightarrow> 'w option"
  kl_record_from_str :: "'w \<Rightarrow> RecordDto option"
  kl_record_to_string :: "RecordDto \<Rightarrow> 'w option"

record 'k SystemKeyringTrustStore =
  sk_service :: bytes
  sk_known_peers :: "PeerId btset"
  sk_max_records :: nat
  sk_keyring :: 'k

definition keyring_error :: TrustStoreError where
  "keyring_error = TrustStoreError_new Ts_Unavailable ''system credential store operation failed''"

definition keyring_corrupt :: TrustStoreError where
  "keyring_corrupt = TrustStoreError_new Ts_Corrupt ''system credential trust record is invalid''"

definition keyring_limit_error :: TrustStoreError where
  "keyring_limit_error = TrustStoreError_new Ts_LimitExceeded ''system credential trust store limit exceeded''"

text \<open>\<^verbatim>\<open>__mutsuki_link_peer_index\<close>\<close>

definition PEER_INDEX :: bytes where
  "PEER_INDEX = [95, 95, 109, 117, 116, 115, 117, 107, 105, 95, 108, 105, 110, 107, 95, 112, 101, 101, 114, 95, 105, 110, 100, 101, 120]"

definition peer_user :: "PeerId \<Rightarrow> bytes" where
  "peer_user peer_id = encode_hex (to_be_bytes (peer_id_bytes peer_id))"

fun decode_peer_ids :: "bytes list \<Rightarrow> (TrustStoreError, PeerId list) result option" where
  "decode_peer_ids [] = Some (Inr [])"
| "decode_peer_ids (value # values) =
     panic_bind (decode_peer_id value) (\<lambda>peer. panic_bind (decode_peer_ids values) (\<lambda>peers. Some (Inr (peer # peers))))"

definition SystemKeyring_open_with_limit ::
  "('k, 'w) KeyringLib \<Rightarrow> bytes \<Rightarrow> nat \<Rightarrow> 'k \<Rightarrow> (TrustStoreError, 'k SystemKeyringTrustStore) result option" where
  "SystemKeyring_open_with_limit lib service max_records keyring =
     (if service = [] \<or> max_records = 0
      then Some (Inl (TrustStoreError_new Ts_Unavailable ''system keyring service name is empty''))
      else
        panic_bind (Some (result_map_err (\<lambda>_. keyring_error) (kl_entry lib service PEER_INDEX keyring))) (\<lambda>_.
        panic_bind
          (case kl_get_password lib service PEER_INDEX keyring of
             Inr encoded \<Rightarrow>
               if kl_text_len lib encoded > usize_sat_add (usize_sat_mul max_records 70) 2 then Some (Inl keyring_limit_error)
               else
                 (case kl_index_from_str lib encoded of
                    None \<Rightarrow> Some (Inl keyring_corrupt)
                  | Some values \<Rightarrow>
                      if length values > max_records then Some (Inl keyring_limit_error)
                      else panic_bind (decode_peer_ids values) (\<lambda>peers. Some (Inr (bs_of_list peers))))
           | Inl Ke_NoEntry \<Rightarrow> Some (Inr bt_empty)
           | Inl Ke_Failed \<Rightarrow> Some (Inl keyring_error)) (\<lambda>known_peers.
          Some (Inr \<lparr>sk_service = service, sk_known_peers = known_peers, sk_max_records = max_records, sk_keyring = keyring\<rparr>))))"

definition SystemKeyring_open ::
  "('k, 'w) KeyringLib \<Rightarrow> bytes \<Rightarrow> 'k \<Rightarrow> (TrustStoreError, 'k SystemKeyringTrustStore) result option" where
  "SystemKeyring_open lib service keyring = SystemKeyring_open_with_limit lib service DEFAULT_MAX_TRUST_RECORDS keyring"

definition SystemKeyring_entry ::
  "('k, 'w) KeyringLib \<Rightarrow> PeerId \<Rightarrow> 'k SystemKeyringTrustStore \<Rightarrow> (TrustStoreError, unit) result" where
  "SystemKeyring_entry lib peer_id self = result_map_err (\<lambda>_. keyring_error) (kl_entry lib (sk_service self) (peer_user peer_id) (sk_keyring self))"

definition SystemKeyring_set ::
  "('k, 'w) KeyringLib \<Rightarrow> bytes \<Rightarrow> 'w \<Rightarrow> 'k SystemKeyringTrustStore \<Rightarrow> (TrustStoreError, unit) result \<times> 'k SystemKeyringTrustStore" where
  "SystemKeyring_set lib user encoded self =
     (case kl_entry lib (sk_service self) user (sk_keyring self) of
        Inl _ \<Rightarrow> (Inl keyring_error, self)
      | Inr _ \<Rightarrow>
          (case kl_set_password lib (sk_service self) user encoded (sk_keyring self) of
             (r, keyring) \<Rightarrow> (result_map_err (\<lambda>_. keyring_error) r, self\<lparr>sk_keyring := keyring\<rparr>)))"

definition SystemKeyring_persist_index ::
  "('k, 'w) KeyringLib \<Rightarrow> PeerId btset \<Rightarrow> 'k SystemKeyringTrustStore \<Rightarrow> (TrustStoreError, unit) result \<times> 'k SystemKeyringTrustStore" where
  "SystemKeyring_persist_index lib peers self =
     (case kl_index_to_string lib (map peer_user (map fst (bt_entries peers))) of
        None \<Rightarrow> (Inl keyring_corrupt, self)
      | Some encoded \<Rightarrow> SystemKeyring_set lib PEER_INDEX encoded self)"

definition SystemKeyring_get ::
  "('k, 'w) KeyringLib \<Rightarrow> 'k SystemKeyringTrustStore \<Rightarrow> PeerId \<Rightarrow> (TrustStoreError, TrustRecord option) result option" where
  "SystemKeyring_get lib self peer_id =
     panic_bind (Some (SystemKeyring_entry lib peer_id self)) (\<lambda>_.
       case kl_get_password lib (sk_service self) (peer_user peer_id) (sk_keyring self) of
         Inr encoded \<Rightarrow>
           (case kl_record_from_str lib encoded of
              None \<Rightarrow> Some (Inl keyring_corrupt)
            | Some dto \<Rightarrow> panic_bind (TrustRecord_try_from dto) (\<lambda>rec. Some (Inr (Some rec))))
       | Inl Ke_NoEntry \<Rightarrow> Some (Inr None)
       | Inl Ke_Failed \<Rightarrow> Some (Inl keyring_error))"

fun keyring_list :: "(PeerId \<Rightarrow> (TrustStoreError, TrustRecord option) result option) \<Rightarrow> PeerId list \<Rightarrow> (TrustStoreError, TrustRecord list) result option" where
  "keyring_list get [] = Some (Inr [])"
| "keyring_list get (peer # peers) =
     panic_bind (get peer) (\<lambda>found. panic_bind (keyring_list get peers) (\<lambda>recs.
       Some (Inr (case found of None \<Rightarrow> recs | Some rec \<Rightarrow> rec # recs))))"

definition SystemKeyring_list ::
  "('k, 'w) KeyringLib \<Rightarrow> 'k SystemKeyringTrustStore \<Rightarrow> (TrustStoreError, TrustRecord list) result option" where
  "SystemKeyring_list lib self = keyring_list (SystemKeyring_get lib self) (map fst (bt_entries (sk_known_peers self)))"

definition SystemKeyring_replace_index ::
  "('k, 'w) KeyringLib \<Rightarrow> PeerId btset \<Rightarrow> 'k SystemKeyringTrustStore \<Rightarrow> (TrustStoreError, unit) result \<times> 'k SystemKeyringTrustStore" where
  "SystemKeyring_replace_index lib peers self =
     (case SystemKeyring_persist_index lib peers self of
        (Inl e, self) \<Rightarrow> (Inl e, self)
      | (Inr _, self) \<Rightarrow> (Inr (), self\<lparr>sk_known_peers := peers\<rparr>))"

definition SystemKeyring_upsert ::
  "('k, 'w) KeyringLib \<Rightarrow> TrustRecord \<Rightarrow> 'k SystemKeyringTrustStore \<Rightarrow> (TrustStoreError, unit) result \<times> 'k SystemKeyringTrustStore" where
  "SystemKeyring_upsert lib rec self =
     (case validate_record rec of
        Inl e \<Rightarrow> (Inl e, self)
      | Inr _ \<Rightarrow>
          if \<not> bt_contains (sk_known_peers self) (tr_peer_id rec) \<and> bt_len (sk_known_peers self) \<ge> sk_max_records self
          then (Inl keyring_limit_error, self)
          else
            case kl_record_to_string lib (RecordDto_from rec) of
              None \<Rightarrow> (Inl keyring_corrupt, self)
            | Some encoded \<Rightarrow>
                (case SystemKeyring_set lib (peer_user (tr_peer_id rec)) encoded self of
                   (Inl e, self) \<Rightarrow> (Inl e, self)
                 | (Inr _, self) \<Rightarrow>
                     SystemKeyring_replace_index lib (bs_insert (tr_peer_id rec) (sk_known_peers self)) self))"

text \<open>The \<^verbatim>\<open>?\<close> operator on a lookup that may panic, before an operation on the store.\<close>

definition after_get ::
  "('e, 'a) result option \<Rightarrow> 's \<Rightarrow> ('a \<Rightarrow> (('e, 'b) result \<times> 's) option) \<Rightarrow> (('e, 'b) result \<times> 's) option" where
  "after_get found self f = (case found of None \<Rightarrow> None | Some (Inl e) \<Rightarrow> Some (Inl e, self) | Some (Inr x) \<Rightarrow> f x)"

definition SystemKeyring_remove ::
  "('k, 'w) KeyringLib \<Rightarrow> PeerId \<Rightarrow> 'k SystemKeyringTrustStore \<Rightarrow> ((TrustStoreError, bool) result \<times> 'k SystemKeyringTrustStore) option" where
  "SystemKeyring_remove lib peer_id self =
     after_get
       (if bt_contains (sk_known_peers self) peer_id then Some (Inr True)
        else panic_bind (SystemKeyring_get lib self peer_id) (\<lambda>found. Some (Inr (found \<noteq> None)))) self (\<lambda>existed.
       if \<not> existed then Some (Inr False, self)
       else
         after_get (Some (SystemKeyring_entry lib peer_id self)) self (\<lambda>_.
           case kl_delete_credential lib (sk_service self) (peer_user peer_id) (sk_keyring self) of
             (Inl Ke_Failed, keyring) \<Rightarrow> Some (Inl keyring_error, self\<lparr>sk_keyring := keyring\<rparr>)
           | (_, keyring) \<Rightarrow>
               let self = self\<lparr>sk_keyring := keyring\<rparr> in
               (case SystemKeyring_replace_index lib (bt_remove peer_id (sk_known_peers self)) self of
                  (Inl e, self) \<Rightarrow> Some (Inl e, self)
                | (Inr _, self) \<Rightarrow> Some (Inr True, self))))"

definition SystemKeyring_revoke ::
  "('k, 'w) KeyringLib \<Rightarrow> PeerId \<Rightarrow> u64 \<Rightarrow> 'k SystemKeyringTrustStore \<Rightarrow> ((TrustStoreError, unit) result \<times> 'k SystemKeyringTrustStore) option" where
  "SystemKeyring_revoke lib peer_id now_unix_ms self =
     after_get (SystemKeyring_get lib self peer_id) self (\<lambda>found.
       case found of
         None \<Rightarrow> Some (Inl unknown_peer, self)
       | Some rec \<Rightarrow> Some (SystemKeyring_upsert lib (rec\<lparr>tr_key_state := Key_Revoked now_unix_ms\<rparr>) self))"

definition SystemKeyring_rotate ::
  "sha256 \<Rightarrow> ('k, 'w) KeyringLib \<Rightarrow> PeerId \<Rightarrow> PeerId \<Rightarrow> bytes \<Rightarrow> 256 word \<Rightarrow> u64 \<Rightarrow> 'k SystemKeyringTrustStore
     \<Rightarrow> ((TrustStoreError, TrustRecord) result \<times> 'k SystemKeyringTrustStore) option" where
  "SystemKeyring_rotate sha lib old_peer_id new_peer_id new_public_key challenge_hash now_unix_ms self =
     after_get (SystemKeyring_get lib self new_peer_id) self (\<lambda>taken.
       if taken \<noteq> None \<or> new_public_key = []
       then Some (Inl (TrustStoreError_new Ts_Conflict ''new peer identity conflicts with trust store''), self)
       else if bt_len (sk_known_peers self) \<ge> sk_max_records self then Some (Inl keyring_limit_error, self)
       else
         after_get (SystemKeyring_get lib self old_peer_id) self (\<lambda>found.
           case found of
             None \<Rightarrow> Some (Inl unknown_peer, self)
           | Some old \<Rightarrow>
               if \<not> TrustRecord_is_active old
               then Some (Inl (TrustStoreError_new Ts_Conflict ''only an active identity can rotate''), self)
               else
                 let replacement = \<lparr>tr_peer_id = new_peer_id, tr_public_key = new_public_key, tr_alias = tr_alias old,
                       tr_first_paired_at_unix_ms = tr_first_paired_at_unix_ms old, tr_permissions = tr_permissions old,
                       tr_key_state = Key_Active, tr_last_pairing_challenge_hash = challenge_hash,
                       tr_previous_key_fingerprints =
                         tr_previous_key_fingerprints old @ [TrustRecord_public_key_fingerprint sha old]\<rparr>
                 in (case SystemKeyring_upsert lib (old\<lparr>tr_key_state := Key_Rotated now_unix_ms new_peer_id\<rparr>) self of
                       (Inl e, self) \<Rightarrow> Some (Inl e, self)
                     | (Inr _, self) \<Rightarrow>
                         (case SystemKeyring_upsert lib replacement self of
                            (Inl e, self) \<Rightarrow> Some (Inl e, self)
                          | (Inr _, self) \<Rightarrow> Some (Inr replacement, self)))))"

subsection \<open>Stores that fail closed\<close>

text \<open>A run of steps logs each with whether it succeeded; a panic ends it.\<close>

fun logged_run :: "('o \<Rightarrow> 's \<Rightarrow> (bool \<times> 's) option) \<Rightarrow> 'o list \<Rightarrow> 's \<Rightarrow> (('o \<times> bool) list \<times> 's) option" where
  "logged_run step [] s = Some ([], s)"
| "logged_run step (c # cs) s =
     (case step c s of
        None \<Rightarrow> None
      | Some (ok, s1) \<Rightarrow> map_option (\<lambda>(log, s2). ((c, ok) # log, s2)) (logged_run step cs s1))"

text \<open>The operation that gives a peer access and is followed by no successful operation on the peer.\<close>

definition last_grant :: "PeerId \<Rightarrow> bytes \<Rightarrow> (StoreOp \<times> bool) list \<Rightarrow> bool" where
  "last_grant p key log = (\<exists>pre op ok post. log = pre @ (op, ok) # post \<and> grants p key op \<and> list_all (\<lambda>(later, succeeded). \<not> (succeeded \<and> concerns p later)) post)"

lemma last_grant_Cons:
  "last_grant p key ((op, ok) # log) \<longleftrightarrow>
     last_grant p key log \<or> (grants p key op \<and> list_all (\<lambda>(later, succeeded). \<not> (succeeded \<and> concerns p later)) log)"
  by (auto simp: last_grant_def Cons_eq_append_conv) (metis append_Cons)+

locale fail_closed =
  fixes step :: "'o \<Rightarrow> 's \<Rightarrow> (bool \<times> 's) option"
    and kind :: "'o \<Rightarrow> StoreOp"
    and inv :: "'s \<Rightarrow> bool"
    and holds :: "'s \<Rightarrow> PeerId \<Rightarrow> bytes \<Rightarrow> bool"
  assumes step_closed: "inv s \<Longrightarrow> step c s = Some (ok, s') \<Longrightarrow>
    inv s' \<and> (holds s' p key \<longrightarrow> grants p key (kind c) \<or> (holds s p key \<and> \<not> (ok \<and> concerns p (kind c))))"
begin

lemma run_closed:
  assumes "inv s" "logged_run step cs s = Some (log, s')"
  shows "inv s' \<and> (holds s' p key \<longrightarrow>
    last_grant p key (map (map_prod kind id) log)
    \<or> (holds s p key \<and> list_all (\<lambda>(later, succeeded). \<not> (succeeded \<and> concerns p later)) (map (map_prod kind id) log)))"
  using assms
proof (induction cs arbitrary: s log)
  case (Cons c cs)
  then obtain ok s1 log1 where parts: "step c s = Some (ok, s1)" "logged_run step cs s1 = Some (log1, s')" "log = (c, ok) # log1"
    by (auto split: option.splits)
  note s1 = step_closed [OF Cons.prems(1) parts(1), of p key]
  from Cons.IH [OF conjunct1 [OF s1] parts(2)] s1 show ?case by (auto simp: parts(3) last_grant_Cons)
qed (simp add: last_grant_def)

end

interpretation file_closed: fail_closed "\<lambda>c s. Some (store_step sha to_json c s)" snd store_ok "authorized FileTrustStore_get"
proof
  fix s c ok s' p key
  assume "store_ok s" "Some (store_step sha to_json c s) = Some (ok, s')"
  then show "store_ok s' \<and> (authorized FileTrustStore_get s' p key \<longrightarrow> grants p key (snd c)
      \<or> (authorized FileTrustStore_get s p key \<and> \<not> (ok \<and> concerns p (snd c))))"
    using store_step_effect [of s sha to_json "fst c" "snd c" ok s' p key] by (auto split: if_splits)
qed

subsection \<open>The credential service\<close>

definition keyring_ok :: "('k, 'w) KeyringLib \<Rightarrow> ('k \<Rightarrow> bytes \<times> bytes \<Rightarrow> 'w option) \<Rightarrow> bool" where
  "keyring_ok lib contents =
     ((\<forall>service user k w. kl_get_password lib service user k = Inr w \<longrightarrow> contents k (service, user) = Some w)
      \<and> (\<forall>service user k. kl_get_password lib service user k = Inl Ke_NoEntry \<longrightarrow> contents k (service, user) = None)
      \<and> (\<forall>service user w k r k'. kl_set_password lib service user w k = (r, k') \<longrightarrow>
           contents k' = (contents k)((service, user) \<mapsto> w) \<or> (\<not> is_ok r \<and> contents k' = contents k))
      \<and> (\<forall>service user k r k'. kl_delete_credential lib service user k = (r, k') \<longrightarrow>
           contents k' = (contents k)((service, user) := None) \<or> (r = Inl Ke_Failed \<and> contents k' = contents k))
      \<and> (\<forall>dto w. kl_record_to_string lib dto = Some w \<longrightarrow> kl_record_from_str lib w = Some dto))"

definition decode_record :: "('k, 'w) KeyringLib \<Rightarrow> 'w \<Rightarrow> TrustRecord option" where
  "decode_record lib w =
     (case kl_record_from_str lib w of
        None \<Rightarrow> None
      | Some dto \<Rightarrow> (case TrustRecord_try_from dto of Some (Inr rec) \<Rightarrow> Some rec | _ \<Rightarrow> None))"

definition stored ::
  "('k, 'w) KeyringLib \<Rightarrow> ('k \<Rightarrow> bytes \<times> bytes \<Rightarrow> 'w option) \<Rightarrow> 'k SystemKeyringTrustStore \<Rightarrow> PeerId \<Rightarrow> TrustRecord option" where
  "stored lib contents s p = Option.bind (contents (sk_keyring s) (sk_service s, peer_user p)) (decode_record lib)"

lemma peer_user_inject [simp]: "peer_user p = peer_user q \<longleftrightarrow> p = q"
proof
  assume "peer_user p = peer_user q"
  then have "decode_peer_id (peer_user p) = decode_peer_id (peer_user q)" by simp
  then show "p = q" by (simp add: peer_user_def decode_peer_id_encode)
qed simp

lemma peer_user_not_index [simp]: "peer_user p \<noteq> PEER_INDEX" "PEER_INDEX \<noteq> peer_user p"
proof -
  have "length (peer_user p) \<noteq> length PEER_INDEX" by (simp add: peer_user_def PEER_INDEX_def)
  then show "peer_user p \<noteq> PEER_INDEX" "PEER_INDEX \<noteq> peer_user p" by auto
qed

text \<open>An operation may have put \<open>v\<close> in the place of what is stored for a peer, and has if it succeeded.\<close>

definition puts ::
  "('k, 'w) KeyringLib \<Rightarrow> ('k \<Rightarrow> bytes \<times> bytes \<Rightarrow> 'w option) \<Rightarrow> PeerId \<Rightarrow> TrustRecord option \<Rightarrow> bool
     \<Rightarrow> 'k SystemKeyringTrustStore \<Rightarrow> 'k SystemKeyringTrustStore \<Rightarrow> bool" where
  "puts lib contents q v ok s s' =
     (stored lib contents s' = (stored lib contents s)(q := v) \<or> (\<not> ok \<and> stored lib contents s' = stored lib contents s))"

lemma puts_refl [simp]: "puts lib contents q v False s s"
  by (simp add: puts_def)

lemma keyring_get_laws:
  assumes "keyring_ok lib contents"
  shows "kl_get_password lib service user k = Inr w \<Longrightarrow> contents k (service, user) = Some w"
    "kl_get_password lib service user k = Inl Ke_NoEntry \<Longrightarrow> contents k (service, user) = None"
  using assms by (simp_all add: keyring_ok_def)

lemma get_stored:
  assumes ok: "keyring_ok lib contents" and "SystemKeyring_get lib s p = Some (Inr found)"
  shows "stored lib contents s p = found"
proof (cases "kl_get_password lib (sk_service s) (peer_user p) (sk_keyring s)")
  case (Inl e)
  then have "e = Ke_NoEntry" "found = None"
    using assms(2) by (cases e; auto simp: SystemKeyring_get_def panic_bind_def split: sum.splits)+
  with keyring_get_laws(2) [OF ok, of "sk_service s" "peer_user p" "sk_keyring s"] Inl show ?thesis by (simp add: stored_def)
next
  case (Inr w)
  then have "decode_record lib w = found \<and> found \<noteq> None"
    using assms(2)
    by (auto simp: SystemKeyring_get_def decode_record_def panic_bind_def split: sum.splits option.splits)
  with keyring_get_laws(1) [OF ok Inr] show ?thesis by (simp add: stored_def)
qed

lemma set_cases [consumes 1, case_names refused called]:
  assumes "SystemKeyring_set lib user w s = (r, s')"
  obtains "r = Inl keyring_error" "s' = s"
  | r' k where "kl_set_password lib (sk_service s) user w (sk_keyring s) = (r', k)" "is_ok r = is_ok r'" "s' = s\<lparr>sk_keyring := k\<rparr>"
proof (cases "kl_entry lib (sk_service s) user (sk_keyring s)")
  case (Inl e)
  with assms show thesis by (intro that(1)) (simp_all add: SystemKeyring_set_def)
next
  case (Inr u)
  obtain r' k where set: "kl_set_password lib (sk_service s) user w (sk_keyring s) = (r', k)" by fastforce
  with assms Inr have "is_ok r = is_ok r'" "s' = s\<lparr>sk_keyring := k\<rparr>"
    by (auto simp: SystemKeyring_set_def result_map_err_def is_ok_def split: sum.split)
  with set show thesis by (rule that(2))
qed

lemma keyring_set_laws:
  assumes "keyring_ok lib contents" "kl_set_password lib service user w k = (r, k')"
  shows "contents k' = (contents k)((service, user) \<mapsto> w) \<or> (\<not> is_ok r \<and> contents k' = contents k)"
  using assms by (simp add: keyring_ok_def)

lemma set_stored:
  assumes ok: "keyring_ok lib contents" and "SystemKeyring_set lib (peer_user q) w s = (r, s')"
  shows "puts lib contents q (decode_record lib w) (is_ok r) s s'"
  using assms(2)
proof (cases rule: set_cases)
  case (called r' k)
  from keyring_set_laws [OF ok called(1)] called(2,3) show ?thesis
    by (auto simp: puts_def stored_def fun_eq_iff)
qed (simp add: is_ok_def)

lemma set_index_stored:
  assumes ok: "keyring_ok lib contents" and "SystemKeyring_set lib PEER_INDEX w s = (r, s')"
  shows "stored lib contents s' = stored lib contents s"
  using assms(2)
proof (cases rule: set_cases)
  case (called r' k)
  from keyring_set_laws [OF ok called(1)] called(3) show ?thesis by (auto simp: stored_def fun_eq_iff)
qed simp

lemma replace_index_stored:
  assumes ok: "keyring_ok lib contents" and "SystemKeyring_replace_index lib peers s = (r, s')"
  shows "stored lib contents s' = stored lib contents s"
proof -
  obtain r1 s1 where persist: "SystemKeyring_persist_index lib peers s = (r1, s1)" by fastforce
  then have "stored lib contents s1 = stored lib contents s"
    using set_index_stored [OF ok] by (auto simp: SystemKeyring_persist_index_def split: option.splits)
  moreover have "s' = s1 \<or> s' = s1\<lparr>sk_known_peers := peers\<rparr>"
    using assms(2) persist by (auto simp: SystemKeyring_replace_index_def split: sum.splits)
  ultimately show ?thesis by (auto simp: stored_def fun_eq_iff)
qed

lemma upsert_stored:
  assumes ok: "keyring_ok lib contents" and upsert: "SystemKeyring_upsert lib rec s = (r, s')"
  shows "puts lib contents (tr_peer_id rec) (Some rec) (is_ok r) s s'"
proof (cases "\<exists>e. r = Inl e \<and> s' = s")
  case False
  then have valid: "validate_record rec = Inr ()"
    using upsert by (cases "validate_record rec") (auto simp: SystemKeyring_upsert_def dest: sym)
  then obtain w where w: "kl_record_to_string lib (RecordDto_from rec) = Some w"
    using False upsert by (auto simp: SystemKeyring_upsert_def split: if_splits option.splits)
  then have "decode_record lib w = Some rec"
    using ok valid by (simp add: keyring_ok_def decode_record_def record_roundtrip)
  moreover obtain r1 s1 where set: "SystemKeyring_set lib (peer_user (tr_peer_id rec)) w s = (r1, s1)" by fastforce
  ultimately have s1: "puts lib contents (tr_peer_id rec) (Some rec) (is_ok r1) s s1" using set_stored [OF ok] by metis
  show ?thesis
  proof (cases r1)
    case (Inl e)
    then have "r = Inl e" "s' = s1"
      using False upsert set w valid by (auto simp: SystemKeyring_upsert_def split: if_splits)
    with s1 Inl show ?thesis by (simp add: is_ok_def)
  next
    case (Inr u)
    then have "SystemKeyring_replace_index lib (bs_insert (tr_peer_id rec) (sk_known_peers s1)) s1 = (r, s')"
      using False upsert set w valid by (auto simp: SystemKeyring_upsert_def split: if_splits)
    from replace_index_stored [OF ok this] s1 Inr show ?thesis by (simp add: puts_def is_ok_def)
  qed
qed (auto simp: is_ok_def)

lemma remove_stored:
  assumes ok: "keyring_ok lib contents" and remove: "SystemKeyring_remove lib q s = Some (r, s')"
  shows "puts lib contents q None (is_ok r) s s'"
proof (cases "s' = s \<and> (\<not> is_ok r \<or> stored lib contents s q = None)")
  case True
  then show ?thesis by (auto simp: puts_def fun_eq_iff)
next
  case False
  obtain dr k where delete: "kl_delete_credential lib (sk_service s) (peer_user q) (sk_keyring s) = (dr, k)" by fastforce
  have k: "contents k = (contents (sk_keyring s))((sk_service s, peer_user q) := None)
      \<or> (dr = Inl Ke_Failed \<and> contents k = contents (sk_keyring s))"
    using ok delete by (simp add: keyring_ok_def)
  let ?s1 = "s\<lparr>sk_keyring := k\<rparr>"
  obtain ir s2 where index: "SystemKeyring_replace_index lib (bt_remove q (sk_known_peers s)) ?s1 = (ir, s2)" by fastforce
  have s2: "stored lib contents s2 = stored lib contents ?s1" by (rule replace_index_stored [OF ok index])
  have "dr = Inl Ke_Failed \<and> \<not> is_ok r \<and> s' = ?s1 \<or> dr \<noteq> Inl Ke_Failed \<and> s' = s2"
    using False remove delete index get_stored [OF ok, of s q]
    by (auto simp: SystemKeyring_remove_def after_get_def panic_bind_def is_ok_def Let_def
        split: if_splits option.splits sum.splits prod.splits KeyringError.splits)
  with k s2 show ?thesis by (auto simp: puts_def stored_def fun_eq_iff)
qed

text \<open>What is stored for a peer is a record of this peer.\<close>

definition own_records :: "('k, 'w) KeyringLib \<Rightarrow> ('k \<Rightarrow> bytes \<times> bytes \<Rightarrow> 'w option) \<Rightarrow> 'k SystemKeyringTrustStore \<Rightarrow> bool" where
  "own_records lib contents s = (\<forall>p rec. stored lib contents s p = Some rec \<longrightarrow> tr_peer_id rec = p)"

lemma own_recordsD: "own_records lib contents s \<Longrightarrow> stored lib contents s p = Some rec \<Longrightarrow> tr_peer_id rec = p"
  by (simp add: own_records_def)

lemma puts_own:
  "own_records lib contents s \<Longrightarrow> puts lib contents q v ok s s' \<Longrightarrow> (\<And>rec. v = Some rec \<Longrightarrow> tr_peer_id rec = q) \<Longrightarrow> own_records lib contents s'"
  by (auto simp: own_records_def puts_def split: if_splits)

lemma revoke_stored:
  assumes ok: "keyring_ok lib contents" and own: "own_records lib contents s" and revoke: "SystemKeyring_revoke lib q t s = Some (r, s')"
  shows "(\<not> is_ok r \<and> s' = s)
    \<or> (\<exists>rec. tr_peer_id rec = q \<and> \<not> TrustRecord_is_active rec \<and> puts lib contents q (Some rec) (is_ok r) s s')"
proof (cases "\<exists>rec. SystemKeyring_get lib s q = Some (Inr (Some rec))")
  case True
  then obtain rec where rec: "SystemKeyring_get lib s q = Some (Inr (Some rec))" by blast
  then have "tr_peer_id rec = q" using own_recordsD [OF own] get_stored [OF ok] by blast
  moreover have "SystemKeyring_upsert lib (rec\<lparr>tr_key_state := Key_Revoked t\<rparr>) s = (r, s')"
    using revoke rec by (simp add: SystemKeyring_revoke_def after_get_def)
  ultimately show ?thesis
    using upsert_stored [OF ok] by (intro disjI2 exI [of _ "rec\<lparr>tr_key_state := Key_Revoked t\<rparr>"]) (fastforce simp: TrustRecord_is_active_def)
next
  case False
  then show ?thesis
    using revoke by (auto simp: SystemKeyring_revoke_def after_get_def is_ok_def split: sum.splits option.splits)
qed

text \<open>A rotation disables the old record before it writes the new one.\<close>

lemma rotate_stored:
  assumes ok: "keyring_ok lib contents" and own: "own_records lib contents s"
    and rotate: "SystemKeyring_rotate sha lib old new key challenge t s = Some (r, s')"
  shows "(\<not> is_ok r \<and> s' = s)
    \<or> (\<exists>retired rec s1 ok1. new \<noteq> old \<and> stored lib contents s new = None \<and> tr_peer_id retired = old \<and> \<not> TrustRecord_is_active retired
        \<and> tr_peer_id rec = new \<and> TrustRecord_is_active rec \<and> tr_public_key rec = key
        \<and> puts lib contents old (Some retired) ok1 s s1
        \<and> (if ok1 then puts lib contents new (Some rec) (is_ok r) s1 s' else \<not> is_ok r \<and> s' = s1))"
proof (cases "SystemKeyring_get lib s new = Some (Inr None) \<and> key \<noteq> [] \<and> bt_len (sk_known_peers s) < sk_max_records s
    \<and> (\<exists>o'. SystemKeyring_get lib s old = Some (Inr (Some o')) \<and> TrustRecord_is_active o')")
  case True
  then obtain o' where old: "SystemKeyring_get lib s old = Some (Inr (Some o'))" "TrustRecord_is_active o'"
    and new: "SystemKeyring_get lib s new = Some (Inr None)" by blast
  have none: "stored lib contents s new = None" and some: "stored lib contents s old = Some o'"
    using get_stored [OF ok new] get_stored [OF ok old(1)] by simp_all
  define rec where "rec = \<lparr>tr_peer_id = new, tr_public_key = key, tr_alias = tr_alias o',
    tr_first_paired_at_unix_ms = tr_first_paired_at_unix_ms o', tr_permissions = tr_permissions o',
    tr_key_state = Key_Active, tr_last_pairing_challenge_hash = challenge,
    tr_previous_key_fingerprints = tr_previous_key_fingerprints o' @ [TrustRecord_public_key_fingerprint sha o']\<rparr>"
  let ?retired = "o'\<lparr>tr_key_state := Key_Rotated t new\<rparr>"
  obtain r1 s1 where up1: "SystemKeyring_upsert lib ?retired s = (r1, s1)" by fastforce
  obtain r2 s2 where up2: "SystemKeyring_upsert lib rec s1 = (r2, s2)" by fastforce
  have "puts lib contents old (Some ?retired) (is_ok r1) s s1"
    using upsert_stored [OF ok up1] own_recordsD [OF own some] by simp
  moreover have "if is_ok r1 then puts lib contents new (Some rec) (is_ok r) s1 s' else \<not> is_ok r \<and> s' = s1"
    using rotate True old new up1 up2 upsert_stored [OF ok up2]
    by (auto simp: SystemKeyring_rotate_def after_get_def rec_def [symmetric] is_ok_def split: sum.splits)
      (simp_all add: rec_def)
  moreover have "new \<noteq> old" "tr_peer_id ?retired = old" "\<not> TrustRecord_is_active ?retired"
    "tr_peer_id rec = new" "TrustRecord_is_active rec" "tr_public_key rec = key"
    using none some own_recordsD [OF own some] by (auto simp: rec_def TrustRecord_is_active_def)
  ultimately show ?thesis using none by blast
next
  case False
  then show ?thesis
    using rotate
    by (auto simp: SystemKeyring_rotate_def after_get_def is_ok_def not_le split: sum.splits option.splits if_splits)
qed

definition keyring_holds ::
  "('k, 'w) KeyringLib \<Rightarrow> ('k \<Rightarrow> bytes \<times> bytes \<Rightarrow> 'w option) \<Rightarrow> 'k SystemKeyringTrustStore \<Rightarrow> PeerId \<Rightarrow> bytes \<Rightarrow> bool" where
  "keyring_holds lib contents s p key =
     (\<exists>rec. stored lib contents s p = Some rec \<and> TrustRecord_is_active rec \<and> tr_public_key rec = key)"

lemma puts_holds:
  "puts lib contents q v ok s s' \<Longrightarrow> keyring_holds lib contents s' p key \<Longrightarrow>
     (p = q \<and> (\<exists>rec. v = Some rec \<and> TrustRecord_is_active rec \<and> tr_public_key rec = key))
     \<or> (keyring_holds lib contents s p key \<and> \<not> (ok \<and> p = q))"
  by (auto simp: puts_def keyring_holds_def split: if_splits)

lemma rotate_holds:
  assumes ok: "keyring_ok lib contents" and own: "own_records lib contents s"
    and rotate: "SystemKeyring_rotate sha lib old new key challenge t s = Some (r, s')"
  shows "own_records lib contents s'"
    and "keyring_holds lib contents s' p k \<Longrightarrow> (p = new \<and> k = key) \<or> (keyring_holds lib contents s p k \<and> \<not> (is_ok r \<and> (p = old \<or> p = new)))"
    and "\<not> keyring_holds lib contents s new k2 \<Longrightarrow> \<not> (keyring_holds lib contents s' old k1 \<and> keyring_holds lib contents s' new k2)"
proof -
  have "own_records lib contents s'
    \<and> (keyring_holds lib contents s' p k \<longrightarrow> (p = new \<and> k = key) \<or> (keyring_holds lib contents s p k \<and> \<not> (is_ok r \<and> (p = old \<or> p = new))))
    \<and> (\<not> keyring_holds lib contents s new k2 \<longrightarrow> \<not> (keyring_holds lib contents s' old k1 \<and> keyring_holds lib contents s' new k2))"
    using rotate_stored [OF ok own rotate]
  proof (elim disjE exE conjE)
    fix retired rec s1 ok1
    assume parts: "new \<noteq> old" "stored lib contents s new = None" "tr_peer_id retired = old" "\<not> TrustRecord_is_active retired"
      "tr_peer_id rec = new" "TrustRecord_is_active rec" "tr_public_key rec = key"
      and first: "puts lib contents old (Some retired) ok1 s s1"
      and second: "if ok1 then puts lib contents new (Some rec) (is_ok r) s1 s' else \<not> is_ok r \<and> s' = s1"
    have own1: "own_records lib contents s1" using puts_own [OF own first] parts(3) by simp
    have first_holds: "keyring_holds lib contents s p k \<and> \<not> (ok1 \<and> p = old)" if "keyring_holds lib contents s1 p k" for p k
      using puts_holds [OF first that] parts(4) by auto
    have new1: "\<not> keyring_holds lib contents s1 new k" for k
      using first_holds [of new k] parts(2) by (auto simp: keyring_holds_def)
    show ?thesis
    proof (cases ok1)
      case True
      with second have put: "puts lib contents new (Some rec) (is_ok r) s1 s'" by simp
      from puts_own [OF own1 put] puts_holds [OF put] first_holds new1 parts True show ?thesis by fastforce
    next
      case False
      with second own1 first_holds new1 show ?thesis by auto
    qed
  qed (use own in auto)
  then show "own_records lib contents s'"
    and "keyring_holds lib contents s' p k \<Longrightarrow> (p = new \<and> k = key) \<or> (keyring_holds lib contents s p k \<and> \<not> (is_ok r \<and> (p = old \<or> p = new)))"
    and "\<not> keyring_holds lib contents s new k2 \<Longrightarrow> \<not> (keyring_holds lib contents s' old k1 \<and> keyring_holds lib contents s' new k2)"
    by blast+
qed

fun keyring_step ::
  "sha256 \<Rightarrow> ('k, 'w) KeyringLib \<Rightarrow> StoreOp \<Rightarrow> 'k SystemKeyringTrustStore \<Rightarrow> (bool \<times> 'k SystemKeyringTrustStore) option" where
  "keyring_step sha lib (So_Upsert r) s = Some (map_prod is_ok id (SystemKeyring_upsert lib r s))"
| "keyring_step sha lib (So_Remove p) s = map_option (map_prod is_ok id) (SystemKeyring_remove lib p s)"
| "keyring_step sha lib (So_Revoke p t) s = map_option (map_prod is_ok id) (SystemKeyring_revoke lib p t s)"
| "keyring_step sha lib (So_Rotate old new key challenge t) s =
     map_option (map_prod is_ok id) (SystemKeyring_rotate sha lib old new key challenge t s)"

interpretation keyring_closed: fail_closed "keyring_step sha lib" "\<lambda>op. op"
  "\<lambda>s. keyring_ok lib contents \<and> own_records lib contents s" "keyring_holds lib contents"
proof
  fix s op ok s' p key
  assume inv: "keyring_ok lib contents \<and> own_records lib contents s" and step: "keyring_step sha lib op s = Some (ok, s')"
  let ?goal = "own_records lib contents s' \<and> (keyring_holds lib contents s' p key \<longrightarrow>
    grants p key op \<or> (keyring_holds lib contents s p key \<and> \<not> (ok \<and> concerns p op)))"
  have ?goal
  proof (cases op)
    case (So_Upsert r)
    then have "puts lib contents (tr_peer_id r) (Some r) ok s s'"
      using step upsert_stored [of lib contents r s] inv by (cases "SystemKeyring_upsert lib r s") auto
    with So_Upsert inv show ?goal by (auto intro: puts_own dest: puts_holds)
  next
    case (So_Remove q)
    then have "puts lib contents q None ok s s'" using step remove_stored [of lib contents q s] inv by auto
    with So_Remove inv show ?goal by (auto intro: puts_own dest: puts_holds)
  next
    case (So_Revoke q t)
    then obtain r where "SystemKeyring_revoke lib q t s = Some (r, s')" "ok = is_ok r" using step by auto
    with So_Revoke inv revoke_stored [of lib contents s q t r s'] show ?goal by (auto intro: puts_own dest: puts_holds)
  next
    case (So_Rotate old new k challenge t)
    then obtain r where "SystemKeyring_rotate sha lib old new k challenge t s = Some (r, s')" "ok = is_ok r" using step by auto
    with So_Rotate inv rotate_holds(1) [of lib contents s sha old new k challenge t r s']
      rotate_holds(2) [of lib contents s sha old new k challenge t r s' p key] show ?goal by auto
  qed
  with inv show "(keyring_ok lib contents \<and> own_records lib contents s') \<and> (keyring_holds lib contents s' p key \<longrightarrow>
    grants p key op \<or> (keyring_holds lib contents s p key \<and> \<not> (ok \<and> concerns p op)))" by simp
qed

definition keyring_authorizes :: "('k, 'w) KeyringLib \<Rightarrow> 'k SystemKeyringTrustStore \<Rightarrow> PeerId \<Rightarrow> bytes \<Rightarrow> bool" where
  "keyring_authorizes lib s p key =
     (case SystemKeyring_get lib s p of
        None \<Rightarrow> False
      | Some got \<Rightarrow> is_ok (authorize_trusted_reconnect (\<lambda>_ _. got) s p key))"

lemma authorizes_holds:
  assumes "keyring_ok lib contents" "keyring_authorizes lib s p key"
  shows "keyring_holds lib contents s p key"
proof -
  obtain rec where got: "SystemKeyring_get lib s p = Some (Inr (Some rec))"
    "is_ok (authorize_trusted_reconnect (\<lambda>_ _. Inr (Some rec)) s p key)"
    using assms(2)
    by (auto simp: keyring_authorizes_def authorize_trusted_reconnect_def is_ok_iff result_bind_eq_Inr ok_or_def split: option.splits)
  then have "TrustRecord_is_active rec" "tr_public_key rec = key"
    by (cases "tr_key_state rec"; auto simp: authorize_trusted_reconnect_def TrustRecord_is_active_def is_ok_iff result_bind_eq_Inr ok_or_def
        split: if_splits)+
  with got get_stored [OF assms(1)] show ?thesis by (auto simp: keyring_holds_def)
qed

lemma rotate_success:
  assumes "keyring_ok lib contents" "own_records lib contents s" "SystemKeyring_rotate sha lib old new key challenge t s = Some (r, s')" "is_ok r"
  shows "keyring_holds lib contents s' new key"
  using rotate_stored [OF assms(1-3)] assms(4) by (auto simp: puts_def keyring_holds_def split: if_splits)

subsection \<open>Properties\<close>

text \<open>C25: the keyring store fails closed. Whatever calls of the credential service fail on the way, and whether or not the
  failed ones took effect, a peer is authorised with a key after a run of operations only when some operation of the
  run granted it, or it held before, and no later operation on the peer succeeded: a revocation, removal or rotation that
  returned success is never undone by a failure. A rotation that returns success has moved the access to the new identity,
  and one that fails anywhere never leaves both identities authorised, unless the new one was before. The credential
  service must return what was last written to an entry, and hold for each peer records of this peer.\<close>
theorem keyring_fails_closed:
  assumes "keyring_ok lib contents" and "own_records lib contents s"
    and "logged_run (keyring_step sha lib) ops s = Some (log, s')"
  shows "(keyring_authorizes lib s' p key \<longrightarrow>
      last_grant p key log \<or> (keyring_holds lib contents s p key \<and> list_all (\<lambda>(later, succeeded). \<not> (succeeded \<and> concerns p later)) log))
    \<and> (\<forall>old new k challenge t r s''. SystemKeyring_rotate sha lib old new k challenge t s' = Some (r, s'') \<longrightarrow>
        (is_ok r \<longrightarrow> keyring_holds lib contents s'' new k \<and> \<not> keyring_authorizes lib s'' old k1)
        \<and> (keyring_authorizes lib s'' old k1 \<and> keyring_authorizes lib s'' new k2 \<longrightarrow> keyring_holds lib contents s' new k2))"
proof (intro conjI allI impI)
  have "map_prod (\<lambda>op. op) id = (id :: StoreOp \<times> bool \<Rightarrow> _)" by auto
  then have run: "own_records lib contents s' \<and> (keyring_holds lib contents s' p key \<longrightarrow> last_grant p key log
      \<or> (keyring_holds lib contents s p key \<and> list_all (\<lambda>(later, succeeded). \<not> (succeeded \<and> concerns p later)) log))"
    using keyring_closed.run_closed [of lib contents s sha ops log s' p key] assms by simp
  then show "last_grant p key log
      \<or> (keyring_holds lib contents s p key \<and> list_all (\<lambda>(later, succeeded). \<not> (succeeded \<and> concerns p later)) log)"
    if "keyring_authorizes lib s' p key"
    using authorizes_holds [OF assms(1) that] by blast
  fix old new k challenge t r s''
  assume rotate: "SystemKeyring_rotate sha lib old new k challenge t s' = Some (r, s'')"
  note holds = rotate_holds [OF assms(1) conjunct1 [OF run] rotate] and authorizes = authorizes_holds [OF assms(1)]
  show "keyring_holds lib contents s'' new k" if "is_ok r"
    using rotate_success [OF assms(1) conjunct1 [OF run] rotate that] .
  have "new \<noteq> old" if "is_ok r"
    using rotate_stored [OF assms(1) conjunct1 [OF run] rotate] that by auto
  then show "\<not> keyring_authorizes lib s'' old k1" if "is_ok r"
    using holds(2) [of old k1] authorizes [of s'' old k1] that by auto
  show "keyring_holds lib contents s' new k2" if "keyring_authorizes lib s'' old k1 \<and> keyring_authorizes lib s'' new k2"
    using holds(3) [of k2 k1] authorizes that by blast
qed

text \<open>A credential service in memory, on which a number of writes succeed.\<close>

type_synonym demo_text = "RecordDto + bytes list"
type_synonym demo_keyring = "nat \<times> (bytes \<times> bytes \<rightharpoonup> demo_text)"

definition demo_keyring_lib :: "(demo_keyring, demo_text) KeyringLib" where
  "demo_keyring_lib = \<lparr>kl_entry = (\<lambda>service user k. Inr ()),
     kl_get_password = (\<lambda>service user k. case snd k (service, user) of None \<Rightarrow> Inl Ke_NoEntry | Some w \<Rightarrow> Inr w),
     kl_set_password = (\<lambda>service user w k.
       if fst k = 0 then (Inl Ke_Failed, k) else (Inr (), (fst k - 1, (snd k)((service, user) \<mapsto> w)))),
     kl_delete_credential = (\<lambda>service user k. (Inr (), (fst k, (snd k)((service, user) := None)))),
     kl_text_len = (\<lambda>w. 0), kl_index_from_str = (\<lambda>w. case w of Inr values \<Rightarrow> Some values | _ \<Rightarrow> None), kl_index_to_string = (\<lambda>values. Some (Inr values)),
     kl_record_from_str = (\<lambda>w. case w of Inl dto \<Rightarrow> Some dto | _ \<Rightarrow> None), kl_record_to_string = (\<lambda>dto. Some (Inl dto))\<rparr>"

definition demo_keyring_store :: "demo_keyring SystemKeyringTrustStore" where
  "demo_keyring_store = \<lparr>sk_service = [1], sk_known_peers = bt_empty, sk_max_records = 2, sk_keyring = (5, Map.empty)\<rparr>"

lemma demo_keyring_ok: "keyring_ok demo_keyring_lib snd" "own_records demo_keyring_lib snd demo_keyring_store"
  by (auto simp: keyring_ok_def demo_keyring_lib_def own_records_def stored_def demo_keyring_store_def is_ok_def
      split: option.splits if_splits)

lemma demo_keyring_run:
  "\<exists>s'. logged_run (keyring_step (\<lambda>_. 0) demo_keyring_lib) [So_Upsert sample_record, So_Revoke (PeerId 1) 9] demo_keyring_store
    = Some ([(So_Upsert sample_record, True), (So_Revoke (PeerId 1) 9, True)], s')"
proof -
  let ?upserted = "\<lparr>sk_service = [1], sk_known_peers = bs_insert (PeerId 1) bt_empty, sk_max_records = 2,
    sk_keyring = (3, [([1], peer_user (PeerId 1)) \<mapsto> Inl (RecordDto_from sample_record), ([1], PEER_INDEX) \<mapsto> Inr (map peer_user (map fst (bt_entries (bs_insert (PeerId 1) bt_empty))))])\<rparr>"
  have peer: "tr_peer_id sample_record = PeerId 1" by (simp add: sample_record_def)
  have "SystemKeyring_upsert demo_keyring_lib sample_record demo_keyring_store = (Inr (), ?upserted)"
    using sample_record_valid
    by (simp add: SystemKeyring_upsert_def demo_keyring_store_def demo_keyring_lib_def SystemKeyring_set_def SystemKeyring_replace_index_def
        SystemKeyring_persist_index_def peer result_map_err_def)
  moreover have "SystemKeyring_get demo_keyring_lib ?upserted (PeerId 1) = Some (Inr (Some sample_record))"
    by (simp add: SystemKeyring_get_def SystemKeyring_entry_def demo_keyring_lib_def result_map_err_def record_roundtrip sample_record_valid)
  moreover have "\<exists>s'. SystemKeyring_upsert demo_keyring_lib (sample_record\<lparr>tr_key_state := Key_Revoked 9\<rparr>) ?upserted = (Inr (), s')"
    using sample_record_valid
    by (simp add: SystemKeyring_upsert_def demo_keyring_lib_def SystemKeyring_set_def SystemKeyring_replace_index_def
        SystemKeyring_persist_index_def peer result_map_err_def)
  ultimately show ?thesis by (auto simp: SystemKeyring_revoke_def after_get_def is_ok_def)
qed

text \<open>C25 witness: a record is stored and revoked in a credential service in memory.\<close>
theorem keyring_fails_closed_witness:
  "\<exists>s'. logged_run (keyring_step (\<lambda>_. 0) demo_keyring_lib) [So_Upsert sample_record, So_Revoke (PeerId 1) 9] demo_keyring_store
      = Some ([(So_Upsert sample_record, True), (So_Revoke (PeerId 1) 9, True)], s')
    \<and> \<not> keyring_authorizes demo_keyring_lib s' (PeerId 1) [7]"
proof -
  obtain s' where run: "logged_run (keyring_step (\<lambda>_. 0) demo_keyring_lib) [So_Upsert sample_record, So_Revoke (PeerId 1) 9] demo_keyring_store
      = Some ([(So_Upsert sample_record, True), (So_Revoke (PeerId 1) 9, True)], s')"
    using demo_keyring_run by blast
  moreover have "\<not> last_grant (PeerId 1) [7] [(So_Upsert sample_record, True), (So_Revoke (PeerId 1) 9, True)]"
    by (simp add: last_grant_Cons) (simp add: last_grant_def)
  ultimately show ?thesis using keyring_fails_closed [OF demo_keyring_ok run, of "PeerId 1" "[7]"] by auto
qed

end
