(* ===== verification/Link_App_Endpoint.thy ===== *)
theory Link_App_Endpoint
  imports Link_Trust Link_Wire
begin

text \<open>
  The stable identity of a desktop application on a machine, \<^verbatim>\<open>app_endpoint.rs\<close> of the local transport: the address
  and the endpoint identifier derived from the application and the user's session, the capabilities an endpoint
  offers, and the lease files by which one process owns an endpoint.

  A text is its UTF-8 bytes. The lease directory is a map from file names to contents; where an operation on
  the file system can fail, its outcome is an argument. The environment variables, the process identifier, the
  clock and whether a process exists are arguments too, as is what another process does to the files between the
  steps of a reclaim.
\<close>

subsection \<open>Identities\<close>

datatype AppId = AppId (app_id_str: bytes)

datatype AppEndpointError = Ae_InvalidAppId | Ae_InvalidCapability | Ae_LeaseIo

definition app_id_char :: "u8 \<Rightarrow> bool" where
  "app_id_char ch =
     (48 \<le> ch \<and> ch \<le> 57 \<or> 65 \<le> ch \<and> ch \<le> 90 \<or> 97 \<le> ch \<and> ch \<le> 122 \<or> ch = 46 \<or> ch = 45 \<or> ch = 95)"

definition AppId_new :: "bytes \<Rightarrow> (AppEndpointError, AppId) result" where
  "AppId_new value = (if value = [] \<or> \<not> list_all app_id_char value then Inl Ae_InvalidAppId else Inr (AppId value))"

record SessionIdentity =
  si_user_key :: bytes
  si_session_key :: bytes

definition or_else_opt :: "'a option \<Rightarrow> 'a option \<Rightarrow> 'a option" where
  "or_else_opt a b = (case a of None \<Rightarrow> b | Some x \<Rightarrow> Some x)"

fun decimal :: "nat \<Rightarrow> bytes" where
  "decimal n = (if n < 10 then [of_nat (48 + n)] else decimal (n div 10) @ [of_nat (48 + n mod 10)])"

declare decimal.simps [simp del]

text \<open>\<^verbatim>\<open>USER\<close>, \<^verbatim>\<open>USERNAME\<close>, \<^verbatim>\<open>XDG_SESSION_ID\<close>, \<^verbatim>\<open>SESSIONNAME\<close>, \<^verbatim>\<open>local-user\<close> and \<^verbatim>\<open>pid-\<close>.\<close>

definition SessionIdentity_current :: "(bytes \<Rightarrow> bytes option) \<Rightarrow> u32 \<Rightarrow> SessionIdentity" where
  "SessionIdentity_current env pid =
     \<lparr>si_user_key =
        (case or_else_opt (env [85, 83, 69, 82]) (env [85, 83, 69, 82, 78, 65, 77, 69]) of
           Some user \<Rightarrow> user
         | None \<Rightarrow> [108, 111, 99, 97, 108, 45, 117, 115, 101, 114]),
      si_session_key =
        (case or_else_opt (env [88, 68, 71, 95, 83, 69, 83, 83, 73, 79, 78, 95, 73, 68])
                (env [83, 69, 83, 83, 73, 79, 78, 78, 65, 77, 69]) of
           Some session \<Rightarrow> session
         | None \<Rightarrow> [112, 105, 100, 45] @ decimal (unat pid))\<rparr>"

record CapabilityOffer =
  cap_name :: bytes
  cap_protocol_version :: u32
  cap_schema_version :: u32
  cap_ready :: bool

definition CapabilityOffer_new :: "bytes \<Rightarrow> u32 \<Rightarrow> u32 \<Rightarrow> bool \<Rightarrow> (AppEndpointError, CapabilityOffer) result" where
  "CapabilityOffer_new name protocol_version schema_version ready =
     (if name = [] then Inl Ae_InvalidCapability
      else Inr \<lparr>cap_name = name, cap_protocol_version = protocol_version, cap_schema_version = schema_version, cap_ready = ready\<rparr>)"

datatype LocalAddress = LocalAddress bytes

record AppEndpointDescriptor =
  aed_app_id :: AppId
  aed_instance_id :: bytes
  aed_host_protocol_version :: u32
  aed_endpoint_id :: EndpointId
  aed_address :: LocalAddress
  aed_capabilities :: "CapabilityOffer list"

definition AppEndpointDescriptor_capability_ready :: "AppEndpointDescriptor \<Rightarrow> bytes \<Rightarrow> u32 \<Rightarrow> u32 \<Rightarrow> bool" where
  "AppEndpointDescriptor_capability_ready self name protocol_version schema_version =
     list_ex (\<lambda>capability. cap_name capability = name \<and> cap_protocol_version capability = protocol_version
       \<and> cap_schema_version capability = schema_version \<and> cap_ready capability) (aed_capabilities self)"

text \<open>\<^verbatim>\<open>mutsuki.link.app.v1\<close> and \<^verbatim>\<open>mutsuki.link.endpoint.v1\<close>\<close>

definition APP_DOMAIN :: bytes where
  "APP_DOMAIN = [109, 117, 116, 115, 117, 107, 105, 46, 108, 105, 110, 107, 46, 97, 112, 112, 46, 118, 49]"

definition ENDPOINT_DOMAIN :: bytes where
  "ENDPOINT_DOMAIN = [109, 117, 116, 115, 117, 107, 105, 46, 108, 105, 110, 107, 46, 101, 110, 100, 112, 111, 105, 110, 116, 46, 118, 49]"

definition identity_text :: "bytes \<Rightarrow> AppId \<Rightarrow> SessionIdentity \<Rightarrow> bytes" where
  "identity_text domain app_id session =
     domain @ [0] @ app_id_str app_id @ [0] @ si_user_key session @ [0] @ si_session_key session"

definition sanitized :: "AppId \<Rightarrow> bytes" where
  "sanitized app_id = map (\<lambda>ch. if ch = 46 then 45 else ch) (app_id_str app_id)"

definition local_address_for_app :: "sha256 \<Rightarrow> AppId \<Rightarrow> SessionIdentity \<Rightarrow> LocalAddress" where
  "local_address_for_app sha app_id session =
     (let short = encode_hex (take 8 (to_be_bytes (sha (identity_text APP_DOMAIN app_id session))))
      in LocalAddress ([109, 117, 116, 115, 117, 107, 105, 46, 97, 112, 112, 46] @ sanitized app_id @ [46] @ short))"

definition endpoint_id_for_app :: "sha256 \<Rightarrow> AppId \<Rightarrow> SessionIdentity \<Rightarrow> EndpointId" where
  "endpoint_id_for_app sha app_id session =
     EndpointId (from_be_bytes (take 16 (to_be_bytes (sha (identity_text ENDPOINT_DOMAIN app_id session)))))"

subsection \<open>Leases\<close>

type_synonym lease_directory = "bytes \<Rightarrow> bytes option"

record EndpointLease =
  el_path :: bytes
  el_app_id :: AppId
  el_instance_id :: bytes
  el_pid :: u32
  el_created_unix_ms :: u64

text \<open>The name of the lease file, and of the file that is written and renamed to it: the only dot of the name
  is that of its extension.\<close>

definition lease_path :: "AppId \<Rightarrow> bytes" where
  "lease_path app_id = sanitized app_id @ [46, 108, 101, 97, 115, 101]"

definition pending_path :: "bytes \<Rightarrow> bytes" where
  "pending_path path = path @ [46, 112, 101, 110, 100, 105, 110, 103]"

text \<open>A file system operation of the creation that fails, and what it leaves in the pending file.\<close>

datatype CreateOutcome = Directory_Failed | Pending_Failed "bytes option" | Rename_Failed | Lease_Created

definition lease_payload :: "EndpointLease \<Rightarrow> bytes" where
  "lease_payload lease =
     app_id_str (el_app_id lease) @ [10] @ el_instance_id lease @ [10] @ decimal (unat (el_pid lease)) @ [10]
     @ decimal (unat (el_created_unix_ms lease)) @ [10]"

definition EndpointLease_create ::
  "CreateOutcome \<Rightarrow> u32 \<Rightarrow> u64 \<Rightarrow> AppId \<Rightarrow> bytes \<Rightarrow> lease_directory \<Rightarrow> (AppEndpointError, EndpointLease) result \<times> lease_directory" where
  "EndpointLease_create io pid now_unix_ms app_id instance_id directory =
     (let path = lease_path app_id;
          lease = \<lparr>el_path = path, el_app_id = app_id, el_instance_id = instance_id, el_pid = pid, el_created_unix_ms = now_unix_ms\<rparr>;
          payload = lease_payload lease;
          pending = pending_path path
      in case io of
           Directory_Failed \<Rightarrow> (Inl Ae_LeaseIo, directory)
         | Pending_Failed left \<Rightarrow> (Inl Ae_LeaseIo, directory(pending := left))
         | Rename_Failed \<Rightarrow> (Inl Ae_LeaseIo, directory(pending \<mapsto> payload))
         | Lease_Created \<Rightarrow> (Inr lease, directory(pending := None, path \<mapsto> payload)))"

text \<open>\<^verbatim>\<open>str::lines\<close> and \<^verbatim>\<open>str::parse\<close> of an unsigned integer below a bound.\<close>

definition strip_cr :: "bytes \<Rightarrow> bytes" where
  "strip_cr line = (if line \<noteq> [] \<and> last line = 13 then butlast line else line)"

function text_lines :: "bytes \<Rightarrow> bytes list" where
  "text_lines text =
     (if text = [] then []
      else
        let line = takeWhile (\<lambda>ch. ch \<noteq> 10) text in
        case dropWhile (\<lambda>ch. ch \<noteq> 10) text of
          [] \<Rightarrow> [line]
        | _ # rest \<Rightarrow> strip_cr line # text_lines rest)"
  by pat_completeness auto
termination
proof (relation "measure length")
  fix t line :: bytes and ch rest
  assume "dropWhile (\<lambda>ch. ch \<noteq> 10) t = ch # rest"
  then show "(rest, t) \<in> measure length" using length_dropWhile_le [of "\<lambda>ch. ch \<noteq> 10" t] by simp
qed simp

declare text_lines.simps [simp del]

fun parse_digits :: "nat \<Rightarrow> nat \<Rightarrow> bytes \<Rightarrow> nat option" where
  "parse_digits bound acc [] = Some acc"
| "parse_digits bound acc (ch # text) =
     (if 48 \<le> ch \<and> ch \<le> 57
      then let value = acc * 10 + (unat ch - 48) in if value < bound then parse_digits bound value text else None
      else None)"

definition parse_unsigned :: "nat \<Rightarrow> bytes \<Rightarrow> nat option" where
  "parse_unsigned bound text =
     (case text of
        [] \<Rightarrow> None
      | ch # rest \<Rightarrow> if ch = 43 then if rest = [] then None else parse_digits bound 0 rest else parse_digits bound 0 text)"

text \<open>\<open>readable\<close> is whether the file could be read.\<close>

definition EndpointLease_read :: "bool \<Rightarrow> lease_directory \<Rightarrow> AppId \<Rightarrow> (AppEndpointError, EndpointLease option) result" where
  "EndpointLease_read readable directory app_id =
     (let path = lease_path app_id in
      case directory path of
        None \<Rightarrow> Inr None
      | Some payload \<Rightarrow>
          if \<not> readable \<or> \<not> utf8_valid payload then Inl Ae_LeaseIo
          else
            case text_lines payload of
              app # instance_id # pid_line # created_line # _ \<Rightarrow>
                (case (parse_unsigned (2 ^ 32) pid_line, parse_unsigned (2 ^ 64) created_line) of
                   (Some pid, Some created_unix_ms) \<Rightarrow>
                     if app \<noteq> app_id_str app_id then Inr None
                     else Inr (Some \<lparr>el_path = path, el_app_id = app_id, el_instance_id = instance_id, el_pid = of_nat pid,
                                     el_created_unix_ms = of_nat created_unix_ms\<rparr>)
                 | _ \<Rightarrow> Inr None)
            | _ \<Rightarrow> Inr None)"

definition process_exists :: "(u32 \<Rightarrow> bool) \<Rightarrow> u32 \<Rightarrow> bool" where
  "process_exists alive pid = (if pid = 0 then False else alive pid)"

definition EndpointLease_is_stale :: "(u32 \<Rightarrow> bool) \<Rightarrow> nat \<Rightarrow> EndpointLease \<Rightarrow> bool" where
  "EndpointLease_is_stale alive max_age self = (\<not> process_exists alive (el_pid self))"

datatype RemoveOutcome = Remove_Done | Remove_NotFound | Remove_Failed

definition EndpointLease_clear :: "RemoveOutcome \<Rightarrow> EndpointLease \<Rightarrow> lease_directory \<Rightarrow> (AppEndpointError, unit) result \<times> lease_directory" where
  "EndpointLease_clear io self directory =
     (case io of
        Remove_Done \<Rightarrow> (Inr (), directory(el_path self := None))
      | Remove_NotFound \<Rightarrow> (Inr (), directory)
      | Remove_Failed \<Rightarrow> (Inl Ae_LeaseIo, directory))"

text \<open>Reading the lease, asking whether its process exists and removing the file are separate operations:
  \<open>checking\<close> is what other processes do to the directory between the first two, \<open>removing\<close> what they do
  before the last.\<close>

definition reclaim_stale_lease ::
  "bool \<Rightarrow> (lease_directory \<Rightarrow> lease_directory) \<Rightarrow> (u32 \<Rightarrow> bool) \<Rightarrow> (lease_directory \<Rightarrow> lease_directory) \<Rightarrow> RemoveOutcome
     \<Rightarrow> nat \<Rightarrow> AppId \<Rightarrow> lease_directory \<Rightarrow> (AppEndpointError, bool) result \<times> lease_directory" where
  "reclaim_stale_lease readable checking alive removing io max_age app_id directory =
     (case EndpointLease_read readable directory app_id of
        Inl e \<Rightarrow> (Inl e, directory)
      | Inr None \<Rightarrow> (Inr False, directory)
      | Inr (Some lease) \<Rightarrow>
          let directory = checking directory
          in if EndpointLease_is_stale alive max_age lease
             then (case EndpointLease_clear io lease (removing directory) of
                     (Inl e, directory) \<Rightarrow> (Inl e, directory)
                   | (Inr _, directory) \<Rightarrow> (Inr True, directory))
             else (Inr False, directory))"

definition now_unix_ms :: "nat \<Rightarrow> u64" where
  "now_unix_ms since_epoch_ms = (if since_epoch_ms < 2 ^ 64 then of_nat since_epoch_ms else - 1)"

subsection \<open>Texts\<close>

lemma utf8_append: "utf8_valid xs \<Longrightarrow> utf8_valid ys \<Longrightarrow> utf8_valid (xs @ ys)"
proof (induction xs rule: length_induct)
  case (1 xs)
  show ?case
  proof (cases xs)
    case (Cons a bs)
    consider "a < 0x80" "utf8_valid bs"
      | b cs where "bs = b # cs" "\<not> a < 0x80" "0xC2 \<le> a \<and> a \<le> 0xDF" "utf8_cont b" "utf8_valid cs"
      | b c ds where "bs = b # c # ds" "\<not> a < 0x80" "\<not> (0xC2 \<le> a \<and> a \<le> 0xDF)" "0xE0 \<le> a \<and> a \<le> 0xEF" "utf8_second3 a b" "utf8_cont c" "utf8_valid ds"
      | b c d es where "bs = b # c # d # es" "\<not> a < 0x80" "\<not> (0xC2 \<le> a \<and> a \<le> 0xDF)" "\<not> (0xE0 \<le> a \<and> a \<le> 0xEF)" "0xF0 \<le> a \<and> a \<le> 0xF4"
          "utf8_second4 a b" "utf8_cont c" "utf8_cont d" "utf8_valid es"
      using 1(2) Cons by (auto split: if_splits list.splits)
    then show ?thesis
    proof cases
      case 1
      then show ?thesis using Cons "1.IH" "1.prems"(2) by (auto simp: utf8_valid.simps(2) [of a] simp del: utf8_valid.simps(2))
    next
      case (2 b cs)
      then show ?thesis using Cons "1.IH" "1.prems"(2) by (auto simp: utf8_valid.simps(2) [of a] simp del: utf8_valid.simps(2))
    next
      case (3 b c ds)
      then show ?thesis using Cons "1.IH" [rule_format, of ds] "1.prems"(2) by (auto simp: utf8_valid.simps(2) [of a] simp del: utf8_valid.simps(2))
    next
      case (4 b c d es)
      then show ?thesis using Cons "1.IH" [rule_format, of es] "1.prems"(2) by (auto simp: utf8_valid.simps(2) [of a] simp del: utf8_valid.simps(2))
    qed
  qed (use 1 in simp)
qed

lemma digit:
  assumes "m < 10"
  shows "unat (of_nat (48 + m) :: u8) = 48 + m" "48 \<le> (of_nat (48 + m) :: u8) \<and> (of_nat (48 + m) :: u8) \<le> 57"
proof -
  show unat: "unat (of_nat (48 + m) :: u8) = 48 + m" using assms by (subst unat_of_nat) simp
  show "48 \<le> (of_nat (48 + m) :: u8) \<and> (of_nat (48 + m) :: u8) \<le> 57"
    using assms by (simp only: word_le_nat_alt unat) simp
qed

lemma decimal_digits: "list_all (\<lambda>ch. 48 \<le> ch \<and> ch \<le> 57) (decimal n)"
proof (induction n rule: decimal.induct)
  case (1 n)
  then show ?case using digit(2) [of n] digit(2) [of "n mod 10"] by (subst decimal.simps) (simp del: of_nat_add)
qed

lemma decimal_not_empty: "decimal n \<noteq> []"
  by (subst decimal.simps) simp

lemma parse_digits_decimal: "n < bound \<Longrightarrow> parse_digits bound 0 (decimal n @ tail) = parse_digits bound n tail"
proof (induction n arbitrary: tail rule: decimal.induct)
  case (1 n)
  show ?case
  proof (cases "n < 10")
    case True
    with digit [of n] 1(2) show ?thesis by (subst decimal.simps) (simp add: Let_def del: of_nat_add)
  next
    case False
    then have "n div 10 < bound" "n div 10 * 10 + n mod 10 = n" using 1(2) by simp_all
    with False 1(1) [of "[of_nat (48 + n mod 10)] @ tail"] digit [of "n mod 10"] 1(2) show ?thesis
      by (subst decimal.simps) (simp add: Let_def del: of_nat_add)
  qed
qed

lemma parse_decimal: "n < bound \<Longrightarrow> parse_unsigned bound (decimal n) = Some n"
proof -
  assume "n < bound"
  then have "parse_digits bound 0 (decimal n) = Some n" using parse_digits_decimal [of n bound "[]"] by simp
  moreover obtain ch rest where "decimal n = ch # rest" "48 \<le> ch"
    using decimal_digits [of n] decimal_not_empty [of n] by (cases "decimal n") auto
  ultimately show ?thesis by (auto simp: parse_unsigned_def)
qed

lemma text_lines_line: "10 \<notin> set line \<Longrightarrow> text_lines (line @ 10 # text) = strip_cr line # text_lines text"
proof -
  assume "10 \<notin> set line"
  then have "takeWhile (\<lambda>ch. ch \<noteq> 10) (line @ 10 # text) = line" "dropWhile (\<lambda>ch. ch \<noteq> 10) (line @ 10 # text) = 10 # text"
    by (auto simp: takeWhile_append dropWhile_append)
  then show ?thesis by (subst text_lines.simps) simp
qed

subsection \<open>What a lease directory holds\<close>

text \<open>The specification of operations that run one after another: a lease or none per file, whatever of the file
  system fails.\<close>

datatype LeaseOp =
    Lo_Create CreateOutcome u32 u64 AppId bytes
  | Lo_Reclaim bool "u32 \<Rightarrow> bool" RemoveOutcome nat AppId

fun lease_step :: "LeaseOp \<Rightarrow> lease_directory \<Rightarrow> lease_directory" where
  "lease_step (Lo_Create io pid now app_id instance_id) directory = snd (EndpointLease_create io pid now app_id instance_id directory)"
| "lease_step (Lo_Reclaim readable alive io max_age app_id) directory = snd (reclaim_stale_lease readable id alive id io max_age app_id directory)"

fun spec_step :: "LeaseOp \<Rightarrow> (bytes \<Rightarrow> EndpointLease option) \<Rightarrow> bytes \<Rightarrow> EndpointLease option" where
  "spec_step (Lo_Create io pid now app_id instance_id) leases =
     (if io = Lease_Created
      then leases(lease_path app_id \<mapsto> \<lparr>el_path = lease_path app_id, el_app_id = app_id, el_instance_id = instance_id, el_pid = pid,
                    el_created_unix_ms = now\<rparr>)
      else leases)"
| "spec_step (Lo_Reclaim readable alive io max_age app_id) leases =
     (case leases (lease_path app_id) of
        Some lease \<Rightarrow>
          if el_app_id lease = app_id \<and> \<not> process_exists alive (el_pid lease) \<and> readable \<and> io = Remove_Done
          then leases(lease_path app_id := None) else leases
      | None \<Rightarrow> leases)"

definition line_safe :: "bytes \<Rightarrow> bool" where
  "line_safe line = (utf8_valid line \<and> 10 \<notin> set line \<and> (line = [] \<or> last line \<noteq> 13))"

fun op_safe :: "LeaseOp \<Rightarrow> bool" where
  "op_safe (Lo_Create io pid now app_id instance_id) = (is_ok (AppId_new (app_id_str app_id)) \<and> line_safe instance_id)"
| "op_safe (Lo_Reclaim readable alive io max_age app_id) = is_ok (AppId_new (app_id_str app_id))"

definition lease_ok :: "EndpointLease \<Rightarrow> bool" where
  "lease_ok lease = (line_safe (app_id_str (el_app_id lease)) \<and> line_safe (el_instance_id lease) \<and> el_path lease = lease_path (el_app_id lease))"

lemma strip_cr_safe: "line_safe line \<Longrightarrow> strip_cr line = line"
  by (auto simp: line_safe_def strip_cr_def)

lemma decimal_safe: "line_safe (decimal n)"
proof -
  have digits: "48 \<le> ch \<and> ch \<le> 57" if "ch \<in> set (decimal n)" for ch
    using decimal_digits [of n] that by (auto simp: list_all_iff)
  have "utf8_valid (decimal n)"
    by (rule utf8_valid_ascii) (use digits in \<open>fastforce simp: list_all_iff word_le_nat_alt word_less_nat_alt\<close>)
  moreover have "10 \<notin> set (decimal n)" "last (decimal n) \<noteq> 13"
    using digits [of 10] digits [of "last (decimal n)"] decimal_not_empty [of n] last_in_set [of "decimal n"] by auto
  ultimately show ?thesis by (simp add: line_safe_def)
qed

lemma app_id_safe:
  assumes "is_ok (AppId_new (app_id_str app))"
  shows "line_safe (app_id_str app)"
proof -
  have chars: "app_id_char ch" if "ch \<in> set (app_id_str app)" for ch
    using assms that by (auto simp: AppId_new_def list_all_iff is_ok_def split: if_splits)
  have ascii: "ch < 0x80 \<and> ch \<noteq> 10 \<and> ch \<noteq> 13" if "app_id_char ch" for ch
    using that by (auto simp: app_id_char_def word_le_nat_alt word_less_nat_alt)
  have "utf8_valid (app_id_str app)" by (rule utf8_valid_ascii) (use chars ascii in \<open>auto simp: list_all_iff\<close>)
  moreover have "10 \<notin> set (app_id_str app)" using chars ascii by blast
  moreover have "app_id_str app = [] \<or> last (app_id_str app) \<noteq> 13" using chars ascii last_in_set by blast
  ultimately show ?thesis by (simp add: line_safe_def)
qed

lemma read_payload:
  assumes "lease_ok lease" "directory (lease_path app) = Some (lease_payload lease)" "lease_path app = el_path lease"
  shows "EndpointLease_read readable directory app
    = (if \<not> readable then Inl Ae_LeaseIo else Inr (if el_app_id lease = app then Some lease else None))"
proof -
  note safe = assms(1) [unfolded lease_ok_def]
  have "text_lines (lease_payload lease)
      = [app_id_str (el_app_id lease), el_instance_id lease, decimal (unat (el_pid lease)), decimal (unat (el_created_unix_ms lease))]"
    using safe decimal_safe
    by (simp add: lease_payload_def text_lines_line strip_cr_safe line_safe_def [of "app_id_str (el_app_id lease)"]
        line_safe_def [of "el_instance_id lease"])
      (simp add: line_safe_def text_lines_line strip_cr_safe text_lines.simps [of "[]"])
  moreover have "utf8_valid (lease_payload lease)"
    using safe decimal_safe unfolding lease_payload_def line_safe_def by (intro utf8_append) auto
  moreover have "parse_unsigned (2 ^ 32) (decimal (unat (el_pid lease))) = Some (unat (el_pid lease))"
    "parse_unsigned (2 ^ 64) (decimal (unat (el_created_unix_ms lease))) = Some (unat (el_created_unix_ms lease))"
    using unat_lt_size [of "el_pid lease"] unat_lt_size [of "el_created_unix_ms lease"] by (auto intro!: parse_decimal)
  moreover have "(app_id_str (el_app_id lease) = app_id_str app) = (el_app_id lease = app)"
    by (cases "el_app_id lease"; cases app) simp
  ultimately show ?thesis using assms(2,3) by (simp add: EndpointLease_read_def)
qed

lemma lease_path_not_pending: "lease_path app \<noteq> pending_path path"
proof
  assume "lease_path app = pending_path path"
  then have "last (lease_path app) = last (pending_path path)" by simp
  then show False by (simp add: lease_path_def pending_path_def)
qed

text \<open>A lease file holds the payload of the lease the specification has for it, or nothing.\<close>

definition holds_leases :: "(bytes \<Rightarrow> EndpointLease option) \<Rightarrow> lease_directory \<Rightarrow> bool" where
  "holds_leases leases directory =
     (\<forall>app. directory (lease_path app) = map_option lease_payload (leases (lease_path app))
        \<and> (\<forall>lease. leases (lease_path app) = Some lease \<longrightarrow> lease_ok lease \<and> el_path lease = lease_path app))"

lemma holds_leases_read:
  assumes "holds_leases leases directory"
  shows "EndpointLease_read readable directory app =
    (case leases (lease_path app) of
       None \<Rightarrow> Inr None
     | Some lease \<Rightarrow> if \<not> readable then Inl Ae_LeaseIo else Inr (if el_app_id lease = app then Some lease else None))"
proof (cases "leases (lease_path app)")
  case None
  with assms have "directory (lease_path app) = None" by (simp add: holds_leases_def)
  with None show ?thesis by (simp add: EndpointLease_read_def)
next
  case (Some lease)
  with assms have "lease_ok lease" "directory (lease_path app) = Some (lease_payload lease)" "lease_path app = el_path lease"
    by (auto simp: holds_leases_def)
  from read_payload [of lease directory app, OF this] Some show ?thesis by simp
qed

lemma create_holds:
  assumes "holds_leases leases directory" "op_safe (Lo_Create io pid now app instance_id)"
  shows "holds_leases (spec_step (Lo_Create io pid now app instance_id) leases) (lease_step (Lo_Create io pid now app instance_id) directory)"
proof -
  have "lease_ok \<lparr>el_path = lease_path app, el_app_id = app, el_instance_id = instance_id, el_pid = pid, el_created_unix_ms = now\<rparr>"
    using assms(2) app_id_safe [of app] by (simp add: lease_ok_def)
  with assms(1) lease_path_not_pending lease_path_not_pending [symmetric] show ?thesis
    by (cases io) (auto simp: holds_leases_def EndpointLease_create_def Let_def)
qed

lemma reclaim_holds:
  assumes "holds_leases leases directory"
  shows "holds_leases (spec_step (Lo_Reclaim readable alive io max_age app) leases) (lease_step (Lo_Reclaim readable alive io max_age app) directory)"
  using assms
  by (cases "leases (lease_path app)"; cases io)
    (auto simp: reclaim_stale_lease_def holds_leases_read [OF assms] EndpointLease_is_stale_def EndpointLease_clear_def holds_leases_def)

lemma lease_step_holds: "holds_leases leases directory \<Longrightarrow> op_safe op \<Longrightarrow> holds_leases (spec_step op leases) (lease_step op directory)"
  by (cases op) (auto intro!: create_holds reclaim_holds simp del: lease_step.simps spec_step.simps)

lemma lease_run_holds:
  "holds_leases leases directory \<Longrightarrow> list_all op_safe ops \<Longrightarrow> holds_leases (fold spec_step ops leases) (fold lease_step ops directory)"
  by (induction ops arbitrary: leases directory) (auto intro: lease_step_holds)

lemma holds_nothing: "holds_leases Map.empty Map.empty"
  by (simp add: holds_leases_def)

subsection \<open>Properties\<close>

text \<open>After any sequence of creations and reclamations, one after another, by any applications, wherever the file
  system fails in between, reading the lease of an application returns exactly the lease last created in its file and
  not reclaimed since, with its instance, process and time, if it is this application's, and nothing otherwise: a
  creation that fails anywhere leaves the previous lease in place. A reclamation that reports success has removed a
  lease of this application whose process is gone. The instance names must be lines.\<close>

theorem lease_directory_refines:
  assumes "list_all op_safe ops" and "directory = fold lease_step ops Map.empty" and "leases = fold spec_step ops Map.empty"
  shows "EndpointLease_read True directory app
      = Inr (case leases (lease_path app) of Some lease \<Rightarrow> if el_app_id lease = app then Some lease else None | None \<Rightarrow> None)
    \<and> (fst (reclaim_stale_lease readable id alive id io max_age app directory) = Inr True \<longrightarrow>
        (\<exists>lease. EndpointLease_read True directory app = Inr (Some lease) \<and> \<not> process_exists alive (el_pid lease)
          \<and> (io = Remove_Done \<longrightarrow> EndpointLease_read True (snd (reclaim_stale_lease readable id alive id io max_age app directory)) app = Inr None)))"
proof -
  have holds: "holds_leases leases directory" using lease_run_holds [OF holds_nothing assms(1)] assms(2,3) by simp
  have gone: "EndpointLease_read True (directory(lease_path app := None)) app = Inr None" by (simp add: EndpointLease_read_def)
  have path: "el_path lease = lease_path app" if "leases (lease_path app) = Some lease" for lease
    using holds that by (simp add: holds_leases_def)
  show ?thesis
    using path gone
    by (auto simp: holds_leases_read [OF holds] reclaim_stale_lease_def EndpointLease_is_stale_def EndpointLease_clear_def
        split: option.splits if_splits RemoveOutcome.splits)
qed

text \<open>Two applications that differ in a dot and a dash share a lease file: a lease of the one hides that of the other,
  which its owner still holds.\<close>

lemma lease_files_collide:
  "lease_path (AppId [97, 46, 98]) = lease_path (AppId [97, 45, 98])"
  "EndpointLease_read True (fold lease_step
      [Lo_Create Lease_Created 7 1 (AppId [97, 46, 98]) [105], Lo_Create Lease_Created 8 2 (AppId [97, 45, 98]) [106]] Map.empty) (AppId [97, 46, 98])
    = Inr None"
proof -
  show path: "lease_path (AppId [97, 46, 98]) = lease_path (AppId [97, 45, 98])" by (simp add: lease_path_def sanitized_def)
  have "list_all op_safe [Lo_Create Lease_Created 7 1 (AppId [97, 46, 98]) [105], Lo_Create Lease_Created 8 2 (AppId [97, 45, 98]) [106]]"
    by (simp add: AppId_new_def app_id_char_def line_safe_def is_ok_def)
  from holds_leases_read [OF lease_run_holds [OF holds_nothing this], of True "AppId [97, 46, 98]"]
  show "EndpointLease_read True (fold lease_step
      [Lo_Create Lease_Created 7 1 (AppId [97, 46, 98]) [105], Lo_Create Lease_Created 8 2 (AppId [97, 45, 98]) [106]] Map.empty) (AppId [97, 46, 98])
    = Inr None"
    by (simp add: path del: lease_step.simps)
qed

text \<open>A lease is created and a second creation fails at the renaming.\<close>

theorem lease_directory_refines_witness:
  "\<exists>directory. directory = fold lease_step [Lo_Create Lease_Created 7 1 (AppId [97]) [105], Lo_Create Rename_Failed 8 2 (AppId [97]) [106]] Map.empty
    \<and> EndpointLease_read True directory (AppId [97])
      = Inr (Some \<lparr>el_path = lease_path (AppId [97]), el_app_id = AppId [97], el_instance_id = [105], el_pid = 7, el_created_unix_ms = 1\<rparr>)"
proof -
  have "list_all op_safe [Lo_Create Lease_Created 7 1 (AppId [97]) [105], Lo_Create Rename_Failed 8 2 (AppId [97]) [106]]"
    by (simp add: AppId_new_def app_id_char_def line_safe_def is_ok_def)
  from lease_directory_refines [OF this refl refl, of "AppId [97]"] show ?thesis by (simp del: lease_step.simps)
qed

text \<open>A reclamation that another process interrupts removes the lease of a live process: the lease of process 7,
  which is gone, is read; process 8 creates its own lease; and the file is removed.\<close>

lemma reclaim_race:
  "\<exists>directory directory'.
     directory = fold lease_step [Lo_Create Lease_Created 7 1 (AppId [97]) [105]] Map.empty
     \<and> reclaim_stale_lease True id (\<lambda>pid. pid = 8) (lease_step (Lo_Create Lease_Created 8 2 (AppId [97]) [106])) Remove_Done 0
         (AppId [97]) directory = (Inr True, directory')
     \<and> EndpointLease_read True directory' (AppId [97]) = Inr None"
proof -
  have "list_all op_safe [Lo_Create Lease_Created 7 1 (AppId [97]) [105]]"
    by (simp add: AppId_new_def app_id_char_def line_safe_def is_ok_def)
  from holds_leases_read [OF lease_run_holds [OF holds_nothing this], of True "AppId [97]"] show ?thesis
    by (simp add: reclaim_stale_lease_def EndpointLease_is_stale_def process_exists_def EndpointLease_clear_def
        EndpointLease_read_def [of True "_(_ := None)"] del: lease_step.simps)
qed

end
