(* ===== verification/Link_Stream_Transports.thy ===== *)
theory Link_Stream_Transports
  imports Link_Io Link_Selection
begin

text \<open>
  The two stream transports: TCP of \<^verbatim>\<open>mutsuki-link-tcp/src/lib.rs\<close> and local sockets of
  \<^verbatim>\<open>mutsuki-link-local/src/lib.rs\<close>. Both connect or accept a stream and hand it to the framing of
  \<^verbatim>\<open>mutsuki-link-io\<close>; accepted connections hold a permit of their listener.

  The operating system is the environment: what a call on a socket returns is an argument, and establishing a
  connection is a function of the time it may take, \<open>None\<close> when the time elapsed first. The clock is read
  anew at every use; times are in nanoseconds. A socket address and a platform's credentials are values of type parameters.
\<close>

subsection \<open>TCP\<close>

record TcpConfig =
  tcp_budget :: TransportBudget
  tcp_connect_timeout :: nat
  tcp_keepalive :: "nat option"
  tcp_no_delay :: bool

definition TcpConfig_default :: TcpConfig where
  "TcpConfig_default = \<lparr>tcp_budget = TransportBudget_default, tcp_connect_timeout = 10 * 1000000000, tcp_keepalive = Some (30 * 1000000000), tcp_no_delay = True\<rparr>"

record 'a TcpConnection =
  tcpc_inner :: FramedConnection
  tcpc_peer_address :: 'a

definition TcpConnection_security_level :: "'a TcpConnection \<Rightarrow> SecurityLevel" where
  "TcpConnection_security_level self = Plaintext"

definition TcpConnection_try_send :: "TrySend \<Rightarrow> bytes \<Rightarrow> 'a TcpConnection \<Rightarrow> (TransportError, unit) result" where
  "TcpConnection_try_send sender message self = FramedConnection_try_send sender message (tcpc_inner self)"

definition TcpConnection_try_send_control :: "TrySend \<Rightarrow> bytes \<Rightarrow> 'a TcpConnection \<Rightarrow> (TransportError, unit) result" where
  "TcpConnection_try_send_control sender message self = FramedConnection_try_send_control sender message (tcpc_inner self)"

definition TcpConnection_try_receive_control :: "bool \<Rightarrow> TryRecv \<Rightarrow> 'a TcpConnection \<Rightarrow> (TransportError, bytes option) result" where
  "TcpConnection_try_receive_control reader_finished received self =
     FramedConnection_try_receive_control reader_finished received (tcpc_inner self)"

definition TcpConnection_try_receive :: "bool \<Rightarrow> TryRecv \<Rightarrow> 'a TcpConnection \<Rightarrow> (TransportError, bytes option) result" where
  "TcpConnection_try_receive reader_finished received self = FramedConnection_try_receive reader_finished received (tcpc_inner self)"

definition TcpConnection_close_write :: "'a TcpConnection \<Rightarrow> (TransportError, unit) result \<times> 'a TcpConnection" where
  "TcpConnection_close_write self =
     (case FramedConnection_close_write (tcpc_inner self) of (r, inner) \<Rightarrow> (r, self\<lparr>tcpc_inner := inner\<rparr>))"

definition TcpConnection_close_read :: "'a TcpConnection \<Rightarrow> (TransportError, unit) result \<times> 'a TcpConnection" where
  "TcpConnection_close_read self =
     (case FramedConnection_close_read (tcpc_inner self) of (r, inner) \<Rightarrow> (r, self\<lparr>tcpc_inner := inner\<rparr>))"

definition TcpConnection_abort :: "'a TcpConnection \<Rightarrow> 'a TcpConnection" where
  "TcpConnection_abort self = self\<lparr>tcpc_inner := FramedConnection_abort (tcpc_inner self)\<rparr>"

record TcpListener =
  tcpl_local_endpoint :: EndpointId
  tcpl_config :: TcpConfig
  tcpl_connections :: ConnectionCounter

definition tcp_error :: "IoErrorKind \<Rightarrow> TransportError" where
  "tcp_error kind =
     TransportError_new
       (case kind of
          Io_AddrInUse \<Rightarrow> Te_AddressInUse
        | Io_TimedOut \<Rightarrow> Te_TimedOut
        | Io_WouldBlock \<Rightarrow> Te_WouldBlock
        | Io_ConnectionAborted \<Rightarrow> Te_Aborted
        | Io_ConnectionReset \<Rightarrow> Te_Aborted
        | Io_BrokenPipe \<Rightarrow> Te_Closed
        | Io_ConnectionRefused \<Rightarrow> Te_Closed
        | Io_UnexpectedEof \<Rightarrow> Te_Closed
        | _ \<Rightarrow> Te_Other)
       ''TCP transport operation failed''"

definition connection_limit :: TransportError where
  "connection_limit = TransportError_new Te_WouldBlock ''TCP connection limit reached''"

text \<open>What setting the options of a stream returns: \<^verbatim>\<open>set_nodelay\<close> and \<^verbatim>\<open>set_tcp_keepalive\<close>.\<close>

record SocketOptions =
  so_nodelay :: "(IoErrorKind, unit) result"
  so_keepalive :: "(IoErrorKind, unit) result"

definition configure_stream :: "SocketOptions \<Rightarrow> TcpConfig \<Rightarrow> (TransportError, unit) result" where
  "configure_stream options config =
     result_bind (result_map_err tcp_error (so_nodelay options)) (\<lambda>_.
       case tcp_keepalive config of
         None \<Rightarrow> Inr ()
       | Some keepalive \<Rightarrow> result_map_err tcp_error (so_keepalive options))"

definition stream_metadata :: "EndpointId \<Rightarrow> EndpointId \<Rightarrow> ConnectionMetadata" where
  "stream_metadata local_endpoint remote_endpoint =
     \<lparr>cm_local_endpoint = local_endpoint, cm_remote_endpoint = remote_endpoint, cm_peer_hint = None, cm_reliable = True,
      cm_datagrams = False\<rparr>"

definition tcp_make_connection ::
  "bool \<Rightarrow> 'a \<Rightarrow> EndpointId \<Rightarrow> EndpointId \<Rightarrow> TransportBudget \<Rightarrow> (TransportError, 'a TcpConnection) result" where
  "tcp_make_connection in_runtime peer_address local_endpoint remote_endpoint budget =
     result_bind (spawn_framed_halves in_runtime (stream_metadata local_endpoint remote_endpoint) budget) (\<lambda>inner.
       Inr \<lparr>tcpc_inner = inner, tcpc_peer_address = peer_address\<rparr>)"

definition TcpListener_bind ::
  "(IoErrorKind, unit) result \<Rightarrow> EndpointId \<Rightarrow> TcpConfig \<Rightarrow> (TransportError, TcpListener) result" where
  "TcpListener_bind bound local_endpoint config =
     result_bind (TransportBudget_validate (tcp_budget config)) (\<lambda>_.
     result_bind (result_map_err tcp_error bound) (\<lambda>_.
       Inr \<lparr>tcpl_local_endpoint = local_endpoint, tcpl_config = config, tcpl_connections = ConnectionCounter 0\<rparr>))"

text \<open>The permit is dropped with the error when a later step fails, and with the connection otherwise.\<close>

definition TcpListener_accept ::
  "bool \<Rightarrow> (IoErrorKind, 'a) result \<Rightarrow> SocketOptions \<Rightarrow> EndpointId \<Rightarrow> TcpListener
     \<Rightarrow> (TransportError, 'a TcpConnection) result \<times> TcpListener" where
  "TcpListener_accept in_runtime accepted options remote_endpoint self =
     (case ConnectionCounter_try_acquire (tb_max_connections (tcp_budget (tcpl_config self))) (tcpl_connections self) of
        (False, _) \<Rightarrow> (Inl connection_limit, self)
      | (True, connections) \<Rightarrow>
          (case result_bind (result_map_err tcp_error accepted) (\<lambda>peer_address.
                result_bind (configure_stream options (tcpl_config self)) (\<lambda>_.
                  tcp_make_connection in_runtime peer_address (tcpl_local_endpoint self) remote_endpoint (tcp_budget (tcpl_config self)))) of
             Inl e \<Rightarrow> (Inl e, self\<lparr>tcpl_connections := ConnectionPermit_drop connections\<rparr>)
           | Inr connection \<Rightarrow> (Inr connection, self\<lparr>tcpl_connections := connections\<rparr>)))"

definition TcpListener_drop :: "TcpListener \<Rightarrow> TcpListener" where
  "TcpListener_drop self = self\<lparr>tcpl_connections := ConnectionPermit_drop (tcpl_connections self)\<rparr>"

definition connect_timeout :: "OperationContext \<Rightarrow> nat \<Rightarrow> Instant \<Rightarrow> nat" where
  "connect_timeout ctx timeout now =
     (case oc_deadline ctx of None \<Rightarrow> timeout | Some deadline \<Rightarrow> min (deadline - now) timeout)"

definition tcp_connect ::
  "bool \<Rightarrow> (nat \<Rightarrow> (IoErrorKind, unit) result option) \<Rightarrow> SocketOptions \<Rightarrow> Instant \<Rightarrow> Instant \<Rightarrow> Instant \<Rightarrow> 'a \<Rightarrow> EndpointId \<Rightarrow> EndpointId
     \<Rightarrow> TcpConfig \<Rightarrow> OperationContext \<Rightarrow> (TransportError, 'a TcpConnection) result" where
  "tcp_connect in_runtime establish options now1 now2 now3 address local_endpoint remote_endpoint config ctx =
     result_bind (TransportBudget_validate (tcp_budget config)) (\<lambda>_.
     result_bind (OperationContext_check ctx now1) (\<lambda>_.
     result_bind
       (case establish (connect_timeout ctx (tcp_connect_timeout config) now2) of
          None \<Rightarrow> Inl (TransportError_new Te_TimedOut ''TCP connection timed out'')
        | Some connected \<Rightarrow> result_map_err tcp_error connected) (\<lambda>_.
     result_bind (OperationContext_check ctx now3) (\<lambda>_.
     result_bind (configure_stream options config) (\<lambda>_.
       tcp_make_connection in_runtime address local_endpoint remote_endpoint (tcp_budget config))))))"

subsection \<open>Local sockets\<close>

record LocalPeerCredentials =
  lpc_process_id :: "u32 option"
  lpc_effective_user_id :: "u32 option"
  lpc_effective_group_id :: "u32 option"

record LocalConnection =
  lcc_inner :: FramedConnection
  lcc_peer_credentials :: "LocalPeerCredentials option"

definition LocalConnection_try_send :: "TrySend \<Rightarrow> bytes \<Rightarrow> LocalConnection \<Rightarrow> (TransportError, unit) result" where
  "LocalConnection_try_send sender message self = FramedConnection_try_send sender message (lcc_inner self)"

definition LocalConnection_try_send_control :: "TrySend \<Rightarrow> bytes \<Rightarrow> LocalConnection \<Rightarrow> (TransportError, unit) result" where
  "LocalConnection_try_send_control sender message self = FramedConnection_try_send_control sender message (lcc_inner self)"

definition LocalConnection_try_receive_control :: "bool \<Rightarrow> TryRecv \<Rightarrow> LocalConnection \<Rightarrow> (TransportError, bytes option) result" where
  "LocalConnection_try_receive_control reader_finished received self =
     FramedConnection_try_receive_control reader_finished received (lcc_inner self)"

definition LocalConnection_try_receive :: "bool \<Rightarrow> TryRecv \<Rightarrow> LocalConnection \<Rightarrow> (TransportError, bytes option) result" where
  "LocalConnection_try_receive reader_finished received self = FramedConnection_try_receive reader_finished received (lcc_inner self)"

definition LocalConnection_close_write :: "LocalConnection \<Rightarrow> (TransportError, unit) result \<times> LocalConnection" where
  "LocalConnection_close_write self =
     (case FramedConnection_close_write (lcc_inner self) of (r, inner) \<Rightarrow> (r, self\<lparr>lcc_inner := inner\<rparr>))"

definition LocalConnection_close_read :: "LocalConnection \<Rightarrow> (TransportError, unit) result \<times> LocalConnection" where
  "LocalConnection_close_read self =
     (case FramedConnection_close_read (lcc_inner self) of (r, inner) \<Rightarrow> (r, self\<lparr>lcc_inner := inner\<rparr>))"

definition LocalConnection_abort :: "LocalConnection \<Rightarrow> LocalConnection" where
  "LocalConnection_abort self = self\<lparr>lcc_inner := FramedConnection_abort (lcc_inner self)\<rparr>"

record LocalListener =
  lcl_local_endpoint :: EndpointId
  lcl_budget :: TransportBudget
  lcl_connections :: ConnectionCounter

definition local_error :: "IoErrorKind \<Rightarrow> TransportError" where
  "local_error kind =
     TransportError_new
       (case kind of
          Io_AddrInUse \<Rightarrow> Te_AddressInUse
        | Io_TimedOut \<Rightarrow> Te_TimedOut
        | Io_WouldBlock \<Rightarrow> Te_WouldBlock
        | Io_NotFound \<Rightarrow> Te_Closed
        | Io_ConnectionRefused \<Rightarrow> Te_Closed
        | _ \<Rightarrow> Te_Other)
       ''local transport operation failed''"

text \<open>The credentials as a Unix platform gives them: the process identifier is a signed integer there.\<close>

definition local_credentials :: "(int option \<times> u32 option \<times> u32 option) option \<Rightarrow> LocalPeerCredentials option" where
  "local_credentials creds =
     map_option (\<lambda>(pid, euid, egid).
       \<lparr>lpc_process_id = Option.bind pid (\<lambda>v. if 0 \<le> v \<and> v < 2 ^ 32 then Some (word_of_int v) else None),
        lpc_effective_user_id = euid, lpc_effective_group_id = egid\<rparr>) creds"

definition local_make_connection ::
  "bool \<Rightarrow> (int option \<times> u32 option \<times> u32 option) option \<Rightarrow> EndpointId \<Rightarrow> EndpointId \<Rightarrow> TransportBudget
     \<Rightarrow> (TransportError, LocalConnection) result" where
  "local_make_connection in_runtime creds local_endpoint remote_endpoint budget =
     (let peer_credentials = local_credentials creds in
      result_bind (spawn_framed_halves in_runtime (stream_metadata local_endpoint remote_endpoint) budget) (\<lambda>inner.
        Inr \<lparr>lcc_inner = inner, lcc_peer_credentials = peer_credentials\<rparr>))"

definition LocalListener_bind ::
  "(IoErrorKind, unit) result \<Rightarrow> (IoErrorKind, unit) result \<Rightarrow> EndpointId \<Rightarrow> TransportBudget \<Rightarrow> (TransportError, LocalListener) result" where
  "LocalListener_bind name created local_endpoint budget =
     result_bind (TransportBudget_validate budget) (\<lambda>budget.
     result_bind (result_map_err local_error name) (\<lambda>_.
     result_bind (result_map_err local_error created) (\<lambda>_.
       Inr \<lparr>lcl_local_endpoint = local_endpoint, lcl_budget = budget, lcl_connections = ConnectionCounter 0\<rparr>)))"

definition LocalListener_accept ::
  "bool \<Rightarrow> (IoErrorKind, (int option \<times> u32 option \<times> u32 option) option) result \<Rightarrow> EndpointId \<Rightarrow> LocalListener
     \<Rightarrow> (TransportError, LocalConnection) result \<times> LocalListener" where
  "LocalListener_accept in_runtime accepted remote_endpoint self =
     (case ConnectionCounter_try_acquire (tb_max_connections (lcl_budget self)) (lcl_connections self) of
        (False, _) \<Rightarrow> (Inl (TransportError_new Te_WouldBlock ''local connection limit reached''), self)
      | (True, connections) \<Rightarrow>
          (case result_bind (result_map_err local_error accepted) (\<lambda>creds.
                  local_make_connection in_runtime creds (lcl_local_endpoint self) remote_endpoint (lcl_budget self)) of
             Inl e \<Rightarrow> (Inl e, self\<lparr>lcl_connections := ConnectionPermit_drop connections\<rparr>)
           | Inr connection \<Rightarrow> (Inr connection, self\<lparr>lcl_connections := connections\<rparr>)))"

definition LocalListener_drop :: "LocalListener \<Rightarrow> LocalListener" where
  "LocalListener_drop self = self\<lparr>lcl_connections := ConnectionPermit_drop (lcl_connections self)\<rparr>"

text \<open>Without a deadline the connection is awaited without a limit, \<open>None\<close> of the time.\<close>

definition local_connect ::
  "bool \<Rightarrow> (IoErrorKind, unit) result \<Rightarrow> (nat option \<Rightarrow> (IoErrorKind, (int option \<times> u32 option \<times> u32 option) option) result option)
     \<Rightarrow> Instant \<Rightarrow> Instant \<Rightarrow> Instant \<Rightarrow> EndpointId \<Rightarrow> EndpointId \<Rightarrow> TransportBudget \<Rightarrow> OperationContext
     \<Rightarrow> (TransportError, LocalConnection) result" where
  "local_connect in_runtime name establish now1 now2 now3 local_endpoint remote_endpoint budget ctx =
     result_bind (OperationContext_check ctx now1) (\<lambda>_.
     result_bind (result_map_err local_error name) (\<lambda>_.
     result_bind
       (case establish (map_option (\<lambda>deadline. deadline - now2) (oc_deadline ctx)) of
          None \<Rightarrow> Inl (TransportError_new Te_TimedOut ''local connection timed out'')
        | Some connected \<Rightarrow> result_map_err local_error connected) (\<lambda>creds.
     result_bind (OperationContext_check ctx now3) (\<lambda>_.
       local_make_connection in_runtime creds local_endpoint remote_endpoint budget))))"

subsection \<open>Listeners\<close>

text \<open>What the two listeners promise: an accepted connection takes a permit within the limit, a refused one takes none.\<close>

locale bounded_listener =
  fixes accept :: "'i \<Rightarrow> 'l \<Rightarrow> (TransportError, 'c) result \<times> 'l"
    and release :: "'l \<Rightarrow> 'l" and active :: "'l \<Rightarrow> nat" and limit :: "'l \<Rightarrow> nat"
  assumes accept_ok: "accept i l = (Inr c, l') \<Longrightarrow> active l < limit l \<and> active l' = Suc (active l) \<and> limit l' = limit l"
    and accept_err: "accept i l = (Inl e, l') \<Longrightarrow> active l' = active l \<and> limit l' = limit l"
    and accept_full: "limit l \<le> active l \<Longrightarrow> accept i l = (r, l') \<Longrightarrow> \<exists>e. r = Inl e \<and> te_kind e = Te_WouldBlock"
    and release_one: "active (release l) = active l - 1" "limit (release l) = limit l"

text \<open>A run of a listener: connections are accepted, and live ones end. The first component counts the live ones.\<close>

fun listener_run :: "('i \<Rightarrow> 'l \<Rightarrow> (TransportError, 'c) result \<times> 'l) \<Rightarrow> ('l \<Rightarrow> 'l) \<Rightarrow> 'i option list \<Rightarrow> nat \<Rightarrow> 'l \<Rightarrow> nat \<times> 'l" where
  "listener_run accept release [] live l = (live, l)"
| "listener_run accept release (Some i # events) live l =
     (case accept i l of (r, l) \<Rightarrow> listener_run accept release events (if is_ok r then Suc live else live) l)"
| "listener_run accept release (None # events) live l =
     (if live = 0 then listener_run accept release events live l else listener_run accept release events (live - 1) (release l))"

context bounded_listener
begin

lemma run_bounded:
  assumes "active l = live" "live \<le> limit l" "listener_run accept release events live l = (live', l')"
  shows "active l' = live' \<and> live' \<le> limit l' \<and> limit l' = limit l"
  using assms
proof (induction events arbitrary: live l)
  case (Cons event events)
  show ?case
  proof (cases event)
    case None
    have "live - 1 \<le> limit l" using Cons.prems(2) by linarith
    with None show ?thesis
      using Cons.prems Cons.IH [of l live] Cons.IH [of "release l" "live - 1"] by (cases "live = 0") (simp_all add: release_one)
  next
    case (Some i)
    obtain r l1 where accepted: "accept i l = (r, l1)" by fastforce
    show ?thesis
    proof (cases r)
      case (Inl e)
      then show ?thesis
        using Cons.prems Cons.IH [of l1 live] accepted Some accept_err [of i l e l1] by (simp add: is_ok_def)
    next
      case (Inr c)
      then show ?thesis
        using Cons.prems Cons.IH [of l1 "Suc live"] accepted Some accept_ok [of i l c l1] by (simp add: is_ok_def)
    qed
  qed
qed simp

end

interpretation tcp_listener: bounded_listener "\<lambda>(in_runtime, accepted, options, remote). TcpListener_accept in_runtime accepted options remote"
  TcpListener_drop "\<lambda>l. counter_active (tcpl_connections l)" "\<lambda>l. tb_max_connections (tcp_budget (tcpl_config l))"
  by unfold_locales
    (auto simp: TcpListener_accept_def TcpListener_drop_def ConnectionCounter_try_acquire_def ConnectionPermit_drop_def connection_limit_def
      TransportError_new_def split: if_splits sum.splits)

interpretation local_listener: bounded_listener "\<lambda>(in_runtime, accepted, remote). LocalListener_accept in_runtime accepted remote"
  LocalListener_drop "\<lambda>l. counter_active (lcl_connections l)" "\<lambda>l. tb_max_connections (lcl_budget l)"
  by unfold_locales
    (auto simp: LocalListener_accept_def LocalListener_drop_def ConnectionCounter_try_acquire_def ConnectionPermit_drop_def
      TransportError_new_def split: if_splits sum.splits)

text \<open>From its binding on, a TCP listener has as many permits out as accepted connections are live, and never more than
  configured.\<close>

lemma tcp_connections_bounded:
  assumes "TcpListener_bind bound local_endpoint config = Inr l"
    and "listener_run (\<lambda>(in_runtime, accepted, options, remote). TcpListener_accept in_runtime accepted options remote) TcpListener_drop events 0 l
      = (live, l')"
  shows "counter_active (tcpl_connections l') = live \<and> live \<le> tb_max_connections (tcp_budget config)"
proof -
  have l: "l = \<lparr>tcpl_local_endpoint = local_endpoint, tcpl_config = config, tcpl_connections = ConnectionCounter 0\<rparr>"
    using assms(1) by (auto simp: TcpListener_bind_def result_bind_eq_Inr)
  with tcp_listener.run_bounded [OF _ _ assms(2)] show ?thesis by simp
qed

lemma local_connections_bounded:
  assumes "LocalListener_bind name created local_endpoint budget = Inr l"
    and "listener_run (\<lambda>(in_runtime, accepted, remote). LocalListener_accept in_runtime accepted remote) LocalListener_drop events 0 l = (live, l')"
  shows "counter_active (lcl_connections l') = live \<and> live \<le> tb_max_connections budget"
proof -
  have l: "l = \<lparr>lcl_local_endpoint = local_endpoint, lcl_budget = budget, lcl_connections = ConnectionCounter 0\<rparr>"
    using assms(1) by (auto simp: LocalListener_bind_def result_bind_eq_Inr TransportBudget_validate_def split: if_splits)
  with local_listener.run_bounded [OF _ _ assms(2)] show ?thesis by simp
qed

text \<open>Connecting waits no longer than configured and not past the deadline, and a connection is returned only to a caller
  that has neither cancelled nor run out of time.\<close>

lemma connect_timeout_bounds:
  "connect_timeout ctx limit now \<le> limit"
  "oc_deadline ctx = Some deadline \<Longrightarrow> now \<le> deadline \<Longrightarrow> now + connect_timeout ctx limit now \<le> deadline"
  by (simp_all add: connect_timeout_def split: option.split)

lemma tcp_connect_in_time:
  assumes "tcp_connect in_runtime establish options now1 now2 now3 address local_endpoint remote_endpoint config ctx = Inr c"
  shows "\<not> CancellationToken_is_cancelled (oc_cancellation ctx)"
    and "oc_deadline ctx = Some deadline \<Longrightarrow> now1 < deadline \<and> now3 < deadline"
    and "establish (connect_timeout ctx (tcp_connect_timeout config) now2) = Some (Inr ())"
    and "fc_metadata (tcpc_inner c) = stream_metadata local_endpoint remote_endpoint"
  using assms
  by (auto simp: tcp_connect_def result_bind_eq_Inr OperationContext_check_def tcp_make_connection_def spawn_framed_halves_def
      result_map_err_def not_le split: if_splits option.splits sum.splits)

end
