(* ===== verification/Link_Quic.thy ===== *)
theory Link_Quic
  imports Link_Pool Link_Realtime_Queue Link_Stream_Transports
begin

text \<open>
  The QUIC transport of \<^verbatim>\<open>mutsuki-link-quic/src/lib.rs\<close>: two framed streams per connection, one for control and
  one for data, and realtime datagrams beside them.

  The quinn library is a record of the operations the source calls. Each of them takes and returns the state of the
  library's connection, the queries too, since the library's own tasks run between any two calls. The receive queue is
  shared with the reader task through a lock held for one operation at a time, so that the reader's pushes are
  operations among the others. Times are in nanoseconds.
\<close>

subsection \<open>The quinn library\<close>

datatype SendDatagramError = Sd_TooLarge | Sd_UnsupportedByPeer | Sd_Disabled | Sd_ConnectionLost

datatype QuinnConnectionError = Qe_TimedOut | Qe_LocallyClosed | Qe_ApplicationClosed | Qe_ConnectionClosed | Qe_OtherError

record PathStats =
  ps_rtt :: nat
  ps_cwnd :: u64
  ps_congestion_events :: u64

record ('a, 'c, 's) Quinn =
  qn_max_datagram_size :: "'c \<Rightarrow> nat option \<times> 'c"
  qn_remote_address :: "'c \<Rightarrow> 'a \<times> 'c"
  qn_rtt :: "'c \<Rightarrow> nat \<times> 'c"
  qn_stats :: "'c \<Rightarrow> PathStats \<times> 'c"
  qn_datagram_send_buffer_space :: "'c \<Rightarrow> nat \<times> 'c"
  qn_send_datagram :: "bytes \<Rightarrow> 'c \<Rightarrow> (SendDatagramError, unit) result \<times> 'c"
  qn_close :: "u32 \<Rightarrow> bytes \<Rightarrow> 'c \<Rightarrow> 'c"
  qn_open_bi :: "'c \<Rightarrow> (QuinnConnectionError, 's) result \<times> 'c"
  qn_accept_bi :: "'c \<Rightarrow> (QuinnConnectionError, 's) result \<times> 'c"
  qn_write_all :: "bytes \<Rightarrow> 's \<Rightarrow> 'c \<Rightarrow> bool \<times> 'c"
  qn_read_exact :: "nat \<Rightarrow> 's \<Rightarrow> 'c \<Rightarrow> bytes option \<times> 'c"

subsection \<open>Errors\<close>

definition unsupported_datagram :: TransportError where
  "unsupported_datagram = TransportError_new Te_Unsupported ''QUIC datagrams are not available''"

definition map_datagram_error :: "SendDatagramError \<Rightarrow> TransportError" where
  "map_datagram_error error =
     (case error of
        Sd_TooLarge \<Rightarrow> TransportError_new Te_MessageTooLarge ''QUIC datagram exceeds path limit''
      | Sd_UnsupportedByPeer \<Rightarrow> unsupported_datagram
      | Sd_Disabled \<Rightarrow> unsupported_datagram
      | Sd_ConnectionLost \<Rightarrow> TransportError_new Te_Closed ''QUIC connection is closed'')"

definition quic_connection_limit :: TransportError where
  "quic_connection_limit = TransportError_new Te_WouldBlock ''QUIC connection limit reached''"

definition quic_io_error :: "IoErrorKind \<Rightarrow> TransportError" where
  "quic_io_error error = TransportError_new Te_Other ''QUIC endpoint operation failed''"

definition quic_stream_error :: TransportError where
  "quic_stream_error = TransportError_new Te_Closed ''QUIC stream operation failed''"

definition quic_connect_error :: TransportError where
  "quic_connect_error = TransportError_new Te_Other ''QUIC connection setup failed''"

definition quic_connection_error :: "QuinnConnectionError \<Rightarrow> TransportError" where
  "quic_connection_error error =
     TransportError_new
       (case error of
          Qe_TimedOut \<Rightarrow> Te_TimedOut
        | Qe_LocallyClosed \<Rightarrow> Te_Closed
        | Qe_ApplicationClosed \<Rightarrow> Te_Closed
        | Qe_ConnectionClosed \<Rightarrow> Te_Closed
        | Qe_OtherError \<Rightarrow> Te_Aborted)
       ''QUIC connection failed''"

definition invalid_stream_set :: TransportError where
  "invalid_stream_set = TransportError_new Te_Other ''QUIC Link control/data stream set is incomplete''"

subsection \<open>The receive queue\<close>

record RawReceivedDatagram =
  rrd_received_at :: Instant
  rrd_payload :: bytes

record DatagramReceiveState =
  drs_queue :: "RawReceivedDatagram list"
  drs_capacity :: nat
  drs_overflow :: u64
  drs_flow_stats :: "(RealtimeFlowId, RealtimeFlowTelemetry) btree"

definition DatagramReceiveState_new :: "nat \<Rightarrow> DatagramReceiveState" where
  "DatagramReceiveState_new capacity =
     \<lparr>drs_queue = [], drs_capacity = capacity, drs_overflow = 0, drs_flow_stats = bt_empty\<rparr>"

text \<open>The update of the counters of a datagram's flow, when it has one.\<close>

definition note_wire_flow :: "bytes \<Rightarrow> (RealtimeFlowTelemetry \<Rightarrow> RealtimeFlowTelemetry) \<Rightarrow> DatagramReceiveState \<Rightarrow> DatagramReceiveState" where
  "note_wire_flow payload f self =
     (case realtime_flow_from_wire payload of
        None \<Rightarrow> self
      | Some flow \<Rightarrow>
          self\<lparr>drs_flow_stats :=
            bt_insert flow (f (case bt_get (drs_flow_stats self) flow of None \<Rightarrow> RealtimeFlowTelemetry_default | Some s \<Rightarrow> s))
              (drs_flow_stats self)\<rparr>)"

definition DatagramReceiveState_push :: "bytes \<Rightarrow> Instant \<Rightarrow> DatagramReceiveState \<Rightarrow> DatagramReceiveState" where
  "DatagramReceiveState_push payload received_at self =
     (let self = note_wire_flow payload
            (\<lambda>s. s\<lparr>rft_received := sat_add (rft_received s) 1,
                   rft_received_bytes := sat_add (rft_received_bytes s) (of_nat (length payload - REALTIME_DATAGRAM_HEADER_LEN))\<rparr>) self;
          self =
            (if length (drs_queue self) \<ge> drs_capacity self
             then
               (case drs_queue self of
                  [] \<Rightarrow> self
                | dropped # rest \<Rightarrow>
                    note_wire_flow (rrd_payload dropped)
                      (\<lambda>s. s\<lparr>rft_receive_queue_overflow := sat_add (rft_receive_queue_overflow s) 1\<rparr>)
                      (self\<lparr>drs_queue := rest, drs_overflow := sat_add (drs_overflow self) 1\<rparr>))
             else self)
      in self\<lparr>drs_queue := drs_queue self @ [\<lparr>rrd_received_at = received_at, rrd_payload = payload\<rparr>]\<rparr>)"

definition DatagramReceiveState_pop :: "DatagramReceiveState \<Rightarrow> RawReceivedDatagram option \<times> DatagramReceiveState" where
  "DatagramReceiveState_pop self =
     (case drs_queue self of [] \<Rightarrow> (None, self) | item # rest \<Rightarrow> (Some item, self\<lparr>drs_queue := rest\<rparr>))"

definition DatagramReceiveState_clear :: "DatagramReceiveState \<Rightarrow> DatagramReceiveState" where
  "DatagramReceiveState_clear self = self\<lparr>drs_queue := []\<rparr>"

subsection \<open>The connection\<close>

record ('a, 'c) QuicConnection =
  qcn_control :: FramedConnection
  qcn_data :: FramedConnection
  qcn_connection :: 'c
  qcn_datagram_receive :: DatagramReceiveState
  qcn_reader_aborted :: bool
  qcn_datagrams_enabled :: bool
  qcn_max_datagram_bytes :: nat
  qcn_realtime_send :: RealtimeSendQueue
  qcn_realtime_events :: "RealtimeEvent list"
  qcn_last_remote_address :: 'a

definition MAX_REALTIME_DATAGRAMS_PER_POLL :: nat where "MAX_REALTIME_DATAGRAMS_PER_POLL = 64"

definition QuicConnection_quality :: "('a, 'c, 's) Quinn \<Rightarrow> ('a, 'c) QuicConnection \<Rightarrow> ConnectionQuality \<times> ('a, 'c) QuicConnection" where
  "QuicConnection_quality quinn self =
     (case qn_rtt quinn (qcn_connection self) of (rtt, connection) \<Rightarrow>
        let millis = rtt div 1000000
        in (ConnectionQuality_default\<lparr>cq_round_trip_millis := Some (if millis < 2 ^ 32 then of_nat millis else - 1),
              cq_transport := Some Tk_Quic\<rparr>,
            self\<lparr>qcn_connection := connection\<rparr>))"

definition QuicConnection_security_level :: "('a, 'c) QuicConnection \<Rightarrow> SecurityLevel" where
  "QuicConnection_security_level self = AuthenticatedEncrypted"

definition QuicConnection_current_raw_datagram_limit ::
  "('a, 'c, 's) Quinn \<Rightarrow> ('a, 'c) QuicConnection \<Rightarrow> nat \<times> ('a, 'c) QuicConnection" where
  "QuicConnection_current_raw_datagram_limit quinn self =
     (case qn_max_datagram_size quinn (qcn_connection self) of (path_limit, connection) \<Rightarrow>
        (min (case path_limit of None \<Rightarrow> 0 | Some n \<Rightarrow> n) (qcn_max_datagram_bytes self), self\<lparr>qcn_connection := connection\<rparr>))"

definition QuicConnection_current_realtime_payload_limit ::
  "('a, 'c, 's) Quinn \<Rightarrow> ('a, 'c) QuicConnection \<Rightarrow> nat \<times> ('a, 'c) QuicConnection" where
  "QuicConnection_current_realtime_payload_limit quinn self =
     (case QuicConnection_current_raw_datagram_limit quinn self of (limit, self) \<Rightarrow> (limit - REALTIME_DATAGRAM_HEADER_LEN, self))"

definition estimated_send_rate :: "u64 \<Rightarrow> PathStats \<Rightarrow> u64 option" where
  "estimated_send_rate rtt_us stats =
     (if rtt_us > 0 then
        let rate = unat (ps_cwnd stats) * 8000000 div unat rtt_us
        in Some (if rate < 2 ^ 64 then of_nat rate else - 1)
      else None)"

text \<open>The two later parts of \<^verbatim>\<open>refresh_realtime_state\<close>: the path's address, and its metrics.\<close>

definition note_path :: "('a, 'c, 's) Quinn \<Rightarrow> ('a, 'c) QuicConnection \<Rightarrow> ('a, 'c) QuicConnection" where
  "note_path quinn self =
     (case qn_remote_address quinn (qcn_connection self) of (remote_address, connection) \<Rightarrow>
        let self = self\<lparr>qcn_connection := connection\<rparr>
        in if remote_address \<noteq> qcn_last_remote_address self
           then self\<lparr>qcn_last_remote_address := remote_address,
                  qcn_realtime_send := RealtimeSendQueue_note_migration (qcn_realtime_send self),
                  qcn_realtime_events := qcn_realtime_events self @ [PathMigrated]\<rparr>
           else self)"

definition note_metrics :: "('a, 'c, 's) Quinn \<Rightarrow> ('a, 'c) QuicConnection \<Rightarrow> ('a, 'c) QuicConnection" where
  "note_metrics quinn self =
     (case qn_stats quinn (qcn_connection self) of (stats, connection) \<Rightarrow>
        let micros = ps_rtt stats div 1000;
            rtt_us = (if micros < 2 ^ 64 then of_nat micros else - 1)
        in self\<lparr>qcn_connection := connection,
             qcn_realtime_send :=
               RealtimeSendQueue_note_network_metrics rtt_us (estimated_send_rate rtt_us stats) (ps_congestion_events stats)
                 (qcn_realtime_send self)\<rparr>)"

definition QuicConnection_refresh_realtime_state ::
  "('a, 'c, 's) Quinn \<Rightarrow> ('a, 'c) QuicConnection \<Rightarrow> (TransportError, unit) result \<times> ('a, 'c) QuicConnection" where
  "QuicConnection_refresh_realtime_state quinn self =
     (if \<not> qcn_datagrams_enabled self then (Inr (), self)
      else
        case QuicConnection_current_realtime_payload_limit quinn self of (payload_limit, self) \<Rightarrow>
          if payload_limit = 0 then (Inl unsupported_datagram, self)
          else
            let previous = rsq_max_payload (qcn_realtime_send self) in
            case RealtimeSendQueue_set_max_payload payload_limit (qcn_realtime_send self) of
              (Inl e, queue) \<Rightarrow> (Inl e, self\<lparr>qcn_realtime_send := queue\<rparr>)
            | (Inr changed, queue) \<Rightarrow>
                let self = self\<lparr>qcn_realtime_send := queue,
                      qcn_realtime_events := qcn_realtime_events self
                        @ (if changed then [DatagramPayloadChanged previous payload_limit] else [])\<rparr>
                in (Inr (), note_metrics quinn (note_path quinn self)))"

text \<open>\<open>reader_finished\<close> says whether the reader task has ended.\<close>

definition QuicConnection_pop_raw_datagram ::
  "bool \<Rightarrow> ('a, 'c) QuicConnection \<Rightarrow> (TransportError, RawReceivedDatagram) result \<times> ('a, 'c) QuicConnection" where
  "QuicConnection_pop_raw_datagram reader_finished self =
     (case DatagramReceiveState_pop (qcn_datagram_receive self) of (message, receive) \<Rightarrow>
        let self = self\<lparr>qcn_datagram_receive := receive\<rparr> in
        case message of
          Some item \<Rightarrow> (Inr item, self)
        | None \<Rightarrow>
            if reader_finished then (Inl (TransportError_new Te_Closed ''QUIC datagram receiver is closed''), self)
            else (Inl (TransportError_new Te_WouldBlock ''no QUIC datagram is ready''), self))"

definition QuicConnection_metadata :: "('a, 'c) QuicConnection \<Rightarrow> ConnectionMetadata" where
  "QuicConnection_metadata self = fc_metadata (qcn_data self)"

definition QuicConnection_try_send :: "TrySend \<Rightarrow> bytes \<Rightarrow> ('a, 'c) QuicConnection \<Rightarrow> (TransportError, unit) result" where
  "QuicConnection_try_send sender message self = FramedConnection_try_send sender message (qcn_data self)"

definition QuicConnection_try_send_control :: "TrySend \<Rightarrow> bytes \<Rightarrow> ('a, 'c) QuicConnection \<Rightarrow> (TransportError, unit) result" where
  "QuicConnection_try_send_control sender message self = FramedConnection_try_send_control sender message (qcn_control self)"

definition QuicConnection_try_receive_control ::
  "bool \<Rightarrow> TryRecv \<Rightarrow> ('a, 'c) QuicConnection \<Rightarrow> (TransportError, bytes option) result" where
  "QuicConnection_try_receive_control reader_finished received self =
     FramedConnection_try_receive_control reader_finished received (qcn_control self)"

text \<open>What the queues of the two framed connections return, the second asked only when the first has nothing.\<close>

definition QuicConnection_try_receive ::
  "bool \<Rightarrow> TryRecv \<Rightarrow> bool \<Rightarrow> TryRecv \<Rightarrow> ('a, 'c) QuicConnection \<Rightarrow> (TransportError, bytes option) result" where
  "QuicConnection_try_receive control_finished control_received data_finished data_received self =
     (case FramedConnection_try_receive control_finished control_received (qcn_control self) of
        Inr message \<Rightarrow> Inr message
      | Inl error \<Rightarrow>
          if te_kind error = Te_WouldBlock then FramedConnection_try_receive data_finished data_received (qcn_data self)
          else Inl error)"

definition QuicConnection_try_send_datagram ::
  "('a, 'c, 's) Quinn \<Rightarrow> bytes \<Rightarrow> ('a, 'c) QuicConnection \<Rightarrow> (TransportError, unit) result \<times> ('a, 'c) QuicConnection" where
  "QuicConnection_try_send_datagram quinn message self =
     (if \<not> qcn_datagrams_enabled self then (Inl unsupported_datagram, self)
      else
        case QuicConnection_current_raw_datagram_limit quinn self of (limit, self) \<Rightarrow>
          if length message > limit
          then (Inl (TransportError_new Te_MessageTooLarge ''QUIC datagram exceeds configured limit''), self)
          else
            case qn_send_datagram quinn message (qcn_connection self) of (r, connection) \<Rightarrow>
              (result_map_err map_datagram_error r, self\<lparr>qcn_connection := connection\<rparr>))"

definition QuicConnection_try_receive_datagram ::
  "bool \<Rightarrow> ('a, 'c) QuicConnection \<Rightarrow> (TransportError, bytes option) result \<times> ('a, 'c) QuicConnection" where
  "QuicConnection_try_receive_datagram reader_finished self =
     (if \<not> qcn_datagrams_enabled self then (Inl unsupported_datagram, self)
      else
        case QuicConnection_pop_raw_datagram reader_finished self of
          (Inl e, self) \<Rightarrow> (Inl e, self)
        | (Inr item, self) \<Rightarrow> (Inr (Some (rrd_payload item)), self))"

definition QuicConnection_max_datagram_payload ::
  "('a, 'c, 's) Quinn \<Rightarrow> ('a, 'c) QuicConnection \<Rightarrow> nat option \<times> ('a, 'c) QuicConnection" where
  "QuicConnection_max_datagram_payload quinn self =
     (if \<not> qcn_datagrams_enabled self then (None, self)
      else
        case QuicConnection_current_realtime_payload_limit quinn self of (payload, self) \<Rightarrow>
          (if payload > 0 then Some payload else None, self))"

subsection \<open>Sending what is pending\<close>

text \<open>The loop ends: each turn sends one of at most \<^verbatim>\<open>MAX_REALTIME_DATAGRAMS_PER_POLL\<close> datagrams, or drops a flow.\<close>

lemma pop_none_len:
  assumes "RealtimeSendQueue_pop_next_fitting now n q = (None, q')"
  shows "bt_len (rsq_groups q') \<le> bt_len (rsq_groups q)"
proof -
  have "q' = snd (RealtimeSendQueue_expire now q)"
    using assms
    by (auto simp: RealtimeSendQueue_pop_next_fitting_def RealtimeSendQueue_pop_flow_def Let_def simp del: min_by_key_None
        split: option.splits list.splits)
  then show ?thesis using drops_len [OF expire_drops] by simp
qed

lemma drop_disposable_shrinks:
  assumes "RealtimeSendQueue_drop_disposable_for_congestion q = (n, q')" "n > 0"
  shows "bt_len (rsq_groups q') < bt_len (rsq_groups q)"
proof -
  let ?flows = "flows_where (\<lambda>grp. pg_priority grp = Rt_Disposable) q"
  have drop: "drop_flows ?flows Drop_Congested q = (n, q')"
    using assms(1) by (simp add: RealtimeSendQueue_drop_disposable_for_congestion_def)
  then have "?flows \<noteq> []" using assms(2) by auto
  then obtain flow where flow: "flow \<in> set ?flows" by (meson last_in_set)
  then obtain g where "bt_get (rsq_groups q) flow = Some g" unfolding flows_where_iff by blast
  moreover have "drops (\<lambda>f. f \<in> set ?flows) q q'" using drop_flows_drops [of ?flows q Drop_Congested] drop by simp
  ultimately show ?thesis using drops_len_less flow by blast
qed

lemma congestion_groups [simp]: "rsq_groups (RealtimeSendQueue_note_transport_congestion q) = rsq_groups q"
  by (simp add: RealtimeSendQueue_note_transport_congestion_def)

lemma poll_drop_shrinks:
  assumes "(None, q1) = RealtimeSendQueue_pop_next_fitting now n q"
    and "(dropped, q2) = RealtimeSendQueue_drop_disposable_for_congestion (RealtimeSendQueue_note_transport_congestion q1)" "dropped > 0"
  shows "bt_len (rsq_groups q2) < bt_len (rsq_groups q)"
  using drop_disposable_shrinks [OF assms(2) [symmetric] assms(3)] pop_none_len [OF assms(1) [symmetric]] by simp

function poll_loop ::
  "('a, 'c, 's) Quinn \<Rightarrow> Instant \<Rightarrow> nat \<Rightarrow> ('a, 'c) QuicConnection \<Rightarrow> (TransportError, nat) result \<times> ('a, 'c) QuicConnection" where
  "poll_loop quinn now sent self =
     (if sent \<ge> MAX_REALTIME_DATAGRAMS_PER_POLL then (Inr sent, self)
      else
        case qn_datagram_send_buffer_space quinn (qcn_connection self) of (available, connection) \<Rightarrow>
        case RealtimeSendQueue_pop_next_fitting now available (qcn_realtime_send self) of
          (Some datagram, queue) \<Rightarrow>
            (case encode_realtime_datagram datagram of
               Inl e \<Rightarrow> (Inl e, self\<lparr>qcn_connection := connection, qcn_realtime_send := queue\<rparr>)
             | Inr encoded \<Rightarrow>
                 (case qn_send_datagram quinn encoded connection of
                    (Inl e, connection) \<Rightarrow>
                      (Inl (map_datagram_error e), self\<lparr>qcn_connection := connection, qcn_realtime_send := queue\<rparr>)
                  | (Inr _, connection) \<Rightarrow>
                      poll_loop quinn now (usize_sat_add sent 1)
                        (self\<lparr>qcn_connection := connection, qcn_realtime_send := RealtimeSendQueue_note_sent datagram queue\<rparr>)))
        | (None, queue) \<Rightarrow>
            if RealtimeSendQueue_pending_datagrams queue > 0
            then
              (case RealtimeSendQueue_drop_disposable_for_congestion (RealtimeSendQueue_note_transport_congestion queue) of
                 (dropped, queue) \<Rightarrow>
                   let self = self\<lparr>qcn_connection := connection, qcn_realtime_send := queue\<rparr>
                   in if dropped > 0 then poll_loop quinn now sent self else (Inr sent, self))
            else (Inr sent, self\<lparr>qcn_connection := connection, qcn_realtime_send := queue\<rparr>))"
  by pat_completeness auto

termination
  by (relation "measures [\<lambda>(_, _, sent, _). MAX_REALTIME_DATAGRAMS_PER_POLL - sent,
      \<lambda>(_, _, _, self). bt_len (rsq_groups (qcn_realtime_send self))]")
    (auto simp: usize_sat_add_def usize_max_def MAX_REALTIME_DATAGRAMS_PER_POLL_def intro: poll_drop_shrinks)

declare poll_loop.simps [simp del]

definition QuicConnection_poll_realtime ::
  "('a, 'c, 's) Quinn \<Rightarrow> Instant \<Rightarrow> ('a, 'c) QuicConnection \<Rightarrow> (TransportError, nat) result \<times> ('a, 'c) QuicConnection" where
  "QuicConnection_poll_realtime quinn now self =
     (if \<not> qcn_datagrams_enabled self then (Inl unsupported_datagram, self)
      else
        case QuicConnection_refresh_realtime_state quinn self of
          (Inl e, self) \<Rightarrow> (Inl e, self)
        | (Inr _, self) \<Rightarrow> poll_loop quinn now 0 self)"

text \<open>\<open>now\<close> is what the clock says after the refresh.\<close>

definition QuicConnection_try_send_latest ::
  "('a, 'c, 's) Quinn \<Rightarrow> RealtimeDatagram \<Rightarrow> Instant \<Rightarrow> ('a, 'c) QuicConnection
     \<Rightarrow> (TransportError, SendOutcome) result \<times> ('a, 'c) QuicConnection" where
  "QuicConnection_try_send_latest quinn datagram now self =
     (if \<not> qcn_datagrams_enabled self then (Inr So_Unsupported, self)
      else
        case QuicConnection_refresh_realtime_state quinn self of
          (Inl e, self) \<Rightarrow> (Inl e, self)
        | (Inr _, self) \<Rightarrow>
            let drops_before = RealtimeSendQueue_congestion_dropped_for_flow (qcn_realtime_send self) (rd_flow datagram) in
            case RealtimeSendQueue_enqueue datagram now (qcn_realtime_send self) of
              (Inl e, queue) \<Rightarrow> (Inl e, self\<lparr>qcn_realtime_send := queue\<rparr>)
            | (Inr outcome, queue) \<Rightarrow>
                (case QuicConnection_poll_realtime quinn now (self\<lparr>qcn_realtime_send := queue\<rparr>) of
                   (Inl e, self) \<Rightarrow> (Inl e, self)
                 | (Inr _, self) \<Rightarrow>
                     let drops_after = RealtimeSendQueue_congestion_dropped_for_flow (qcn_realtime_send self) (rd_flow datagram)
                     in (Inr (if drops_after > drops_before then DroppedCongested else outcome), self)))"

subsection \<open>Receiving, resetting and closing\<close>

definition QuicConnection_try_receive_realtime ::
  "bool \<Rightarrow> ('a, 'c) QuicConnection \<Rightarrow> (TransportError, ReceivedRealtimeDatagram option) result \<times> ('a, 'c) QuicConnection" where
  "QuicConnection_try_receive_realtime reader_finished self =
     (if \<not> qcn_datagrams_enabled self then (Inl unsupported_datagram, self)
      else
        case QuicConnection_pop_raw_datagram reader_finished self of
          (Inl e, self) \<Rightarrow> (Inl e, self)
        | (Inr item, self) \<Rightarrow>
            (result_bind (decode_realtime_datagram (rrd_payload item) (rrd_received_at item)) (\<lambda>datagram. Inr (Some datagram)), self))"

definition merge_receive_stats :: "RealtimeTelemetry \<Rightarrow> RealtimeFlowId \<times> RealtimeFlowTelemetry \<Rightarrow> RealtimeTelemetry" where
  "merge_receive_stats telemetry entry =
     (case entry of (flow, receive_stats) \<Rightarrow>
        update_flow flow
          (\<lambda>s. s\<lparr>rft_received := rft_received receive_stats, rft_received_bytes := rft_received_bytes receive_stats,
                 rft_receive_queue_overflow := rft_receive_queue_overflow receive_stats\<rparr>) telemetry)"

definition QuicConnection_realtime_telemetry :: "('a, 'c) QuicConnection \<Rightarrow> RealtimeTelemetry" where
  "QuicConnection_realtime_telemetry self =
     (let telemetry = RealtimeSendQueue_telemetry (qcn_realtime_send self);
          receive = qcn_datagram_receive self;
          telemetry = telemetry\<lparr>rtt_receive_queue_overflow := drs_overflow receive\<rparr>
      in foldl merge_receive_stats telemetry (bt_entries (drs_flow_stats receive)))"

definition QuicConnection_take_realtime_events :: "('a, 'c) QuicConnection \<Rightarrow> RealtimeEvent list \<times> ('a, 'c) QuicConnection" where
  "QuicConnection_take_realtime_events self = (qcn_realtime_events self, self\<lparr>qcn_realtime_events := []\<rparr>)"

definition QuicConnection_reset_realtime_session :: "('a, 'c) QuicConnection \<Rightarrow> ('a, 'c) QuicConnection" where
  "QuicConnection_reset_realtime_session self =
     self\<lparr>qcn_realtime_send := RealtimeSendQueue_reset_for_reconnect (qcn_realtime_send self),
       qcn_datagram_receive := DatagramReceiveState_clear (qcn_datagram_receive self),
       qcn_realtime_events := qcn_realtime_events self @ [SessionReset]\<rparr>"

definition QuicConnection_close_write :: "('a, 'c) QuicConnection \<Rightarrow> (TransportError, unit) result \<times> ('a, 'c) QuicConnection" where
  "QuicConnection_close_write self =
     (let self = self\<lparr>qcn_realtime_send := RealtimeSendQueue_clear_pending (qcn_realtime_send self)\<rparr> in
      case FramedConnection_close_write (qcn_control self) of (control, control_connection) \<Rightarrow>
      case FramedConnection_close_write (qcn_data self) of (data, data_connection) \<Rightarrow>
        (result_bind control (\<lambda>_. data), self\<lparr>qcn_control := control_connection, qcn_data := data_connection\<rparr>))"

definition QuicConnection_close_read :: "('a, 'c) QuicConnection \<Rightarrow> (TransportError, unit) result \<times> ('a, 'c) QuicConnection" where
  "QuicConnection_close_read self =
     (case FramedConnection_close_read (qcn_control self) of (control, control_connection) \<Rightarrow>
      case FramedConnection_close_read (qcn_data self) of (data, data_connection) \<Rightarrow>
        (result_bind control (\<lambda>_. data), self\<lparr>qcn_control := control_connection, qcn_data := data_connection\<rparr>))"

text \<open>The bytes of \<^verbatim>\<open>link connection aborted\<close>.\<close>

definition abort_reason :: bytes where
  "abort_reason = [108, 105, 110, 107, 32, 99, 111, 110, 110, 101, 99, 116, 105, 111, 110, 32, 97, 98, 111, 114, 116, 101, 100]"

definition QuicConnection_abort :: "('a, 'c, 's) Quinn \<Rightarrow> ('a, 'c) QuicConnection \<Rightarrow> ('a, 'c) QuicConnection" where
  "QuicConnection_abort quinn self =
     self\<lparr>qcn_realtime_send := RealtimeSendQueue_clear_pending (qcn_realtime_send self),
       qcn_datagram_receive := DatagramReceiveState_clear (qcn_datagram_receive self),
       qcn_control := FramedConnection_abort (qcn_control self),
       qcn_data := FramedConnection_abort (qcn_data self),
       qcn_reader_aborted := True,
       qcn_connection := qn_close quinn 1 abort_reason (qcn_connection self)\<rparr>"

subsection \<open>The two streams\<close>

definition CONTROL_STREAM_PREFACE :: bytes where "CONTROL_STREAM_PREFACE = [77, 76, 73, 78, 75, 0, 1, 0, 67]"

definition DATA_STREAM_PREFACE :: bytes where "DATA_STREAM_PREFACE = [77, 76, 73, 78, 75, 0, 1, 0, 68]"

text \<open>The two halves of a bidirectional stream have one handle.\<close>

record 's QuicStreams =
  qst_control :: 's
  qst_data :: 's

datatype StreamKind = Sk_Control | Sk_Data

definition open_stream :: "('a, 'c, 's) Quinn \<Rightarrow> bytes \<Rightarrow> 'c \<Rightarrow> (TransportError, 's) result \<times> 'c" where
  "open_stream quinn preface connection =
     (case qn_open_bi quinn connection of
        (Inl e, connection) \<Rightarrow> (Inl (quic_connection_error e), connection)
      | (Inr stream, connection) \<Rightarrow>
          (case qn_write_all quinn preface stream connection of (written, connection) \<Rightarrow>
             (if written then Inr stream else Inl quic_stream_error, connection)))"

definition open_streams :: "('a, 'c, 's) Quinn \<Rightarrow> 'c \<Rightarrow> (TransportError, 's QuicStreams) result \<times> 'c" where
  "open_streams quinn connection =
     (case open_stream quinn CONTROL_STREAM_PREFACE connection of
        (Inl e, connection) \<Rightarrow> (Inl e, connection)
      | (Inr control, connection) \<Rightarrow>
          (case open_stream quinn DATA_STREAM_PREFACE connection of
             (Inl e, connection) \<Rightarrow> (Inl e, connection)
           | (Inr data, connection) \<Rightarrow> (Inr \<lparr>qst_control = control, qst_data = data\<rparr>, connection)))"

definition receive_preface :: "('a, 'c, 's) Quinn \<Rightarrow> 's \<Rightarrow> 'c \<Rightarrow> (TransportError, StreamKind) result \<times> 'c" where
  "receive_preface quinn stream connection =
     (case qn_read_exact quinn (length CONTROL_STREAM_PREFACE) stream connection of
        (None, connection) \<Rightarrow> (Inl quic_stream_error, connection)
      | (Some preface, connection) \<Rightarrow>
          (if preface = CONTROL_STREAM_PREFACE then Inr Sk_Control
           else if preface = DATA_STREAM_PREFACE then Inr Sk_Data
           else Inl (TransportError_new Te_Other ''QUIC Link stream preface is invalid''), connection))"

fun accept_loop ::
  "nat \<Rightarrow> ('a, 'c, 's) Quinn \<Rightarrow> 's option \<Rightarrow> 's option \<Rightarrow> 'c \<Rightarrow> (TransportError, 's option \<times> 's option) result \<times> 'c" where
  "accept_loop 0 quinn control data connection = (Inr (control, data), connection)"
| "accept_loop (Suc n) quinn control data connection =
     (case qn_accept_bi quinn connection of
        (Inl e, connection) \<Rightarrow> (Inl (quic_connection_error e), connection)
      | (Inr stream, connection) \<Rightarrow>
          (case receive_preface quinn stream connection of
             (Inl e, connection) \<Rightarrow> (Inl e, connection)
           | (Inr Sk_Control, connection) \<Rightarrow> accept_loop n quinn (Some stream) data connection
           | (Inr Sk_Data, connection) \<Rightarrow> accept_loop n quinn control (Some stream) connection))"

definition accept_streams :: "('a, 'c, 's) Quinn \<Rightarrow> 'c \<Rightarrow> (TransportError, 's QuicStreams) result \<times> 'c" where
  "accept_streams quinn connection =
     (case accept_loop 2 quinn None None connection of
        (Inl e, connection) \<Rightarrow> (Inl e, connection)
      | (Inr (control, data), connection) \<Rightarrow>
          (result_bind (ok_or invalid_stream_set control) (\<lambda>control.
           result_bind (ok_or invalid_stream_set data) (\<lambda>data.
             Inr \<lparr>qst_control = control, qst_data = data\<rparr>)), connection))"

subsection \<open>Establishing connections\<close>

definition make_connection ::
  "('a, 'c, 's) Quinn \<Rightarrow> bool \<Rightarrow> 's QuicStreams \<Rightarrow> EndpointId \<Rightarrow> EndpointId \<Rightarrow> QuicOptions \<Rightarrow> 'c
     \<Rightarrow> (TransportError, ('a, 'c) QuicConnection) result" where
  "make_connection quinn in_runtime streams local_endpoint remote_endpoint options connection =
     (case (if qo_enable_datagrams options
            then (case qn_max_datagram_size quinn connection of (path_limit, connection) \<Rightarrow> (path_limit \<noteq> None, connection))
            else (False, connection)) of (datagrams_enabled, connection) \<Rightarrow>
      let metadata = \<lparr>cm_local_endpoint = local_endpoint, cm_remote_endpoint = remote_endpoint, cm_peer_hint = None,
            cm_reliable = True, cm_datagrams = datagrams_enabled\<rparr> in
      result_bind (spawn_framed_halves in_runtime metadata (qo_budget options)) (\<lambda>control.
      result_bind (spawn_framed_halves in_runtime metadata (qo_budget options)) (\<lambda>data.
        let max_datagram_bytes = tb_max_frame_bytes (qo_budget options) in
        case qn_max_datagram_size quinn connection of (path_limit, connection) \<Rightarrow>
        let realtime_payload = max (min (case path_limit of None \<Rightarrow> 0 | Some n \<Rightarrow> n) max_datagram_bytes - REALTIME_DATAGRAM_HEADER_LEN) 1 in
        result_bind (RealtimeSendQueue_new (qo_realtime_queue options) realtime_payload) (\<lambda>realtime_send.
        case qn_remote_address quinn connection of (last_remote_address, connection) \<Rightarrow>
          Inr \<lparr>qcn_control = control, qcn_data = data, qcn_connection = connection,
               qcn_datagram_receive = DatagramReceiveState_new (tb_receive_queue_capacity (qo_budget options)),
               qcn_reader_aborted = False, qcn_datagrams_enabled = datagrams_enabled,
               qcn_max_datagram_bytes = max_datagram_bytes, qcn_realtime_send = realtime_send, qcn_realtime_events = [],
               qcn_last_remote_address = last_remote_address\<rparr>))))"

text \<open>What the source sets in quinn's transport configuration; what it does not set stays as in the default. The
  conversion of a duration to quinn's idle timeout is quinn's.\<close>

record 'i QuinnTransportConfig =
  qtc_max_concurrent_bidi_streams :: u32
  qtc_datagram_receive_buffer_size :: "nat option"
  qtc_datagram_send_buffer_size :: nat
  qtc_max_idle_timeout :: "'i option"
  qtc_keep_alive_interval :: "nat option"

definition transport_config ::
  "(nat \<Rightarrow> 'i option) \<Rightarrow> 'i QuinnTransportConfig \<Rightarrow> QuicOptions \<Rightarrow> (TransportError, 'i QuinnTransportConfig) result" where
  "transport_config to_idle_timeout default_config options =
     (let budget = qo_budget options in
      if tb_max_concurrent_streams budget < 2
      then Inl (TransportError_new Te_Other ''QUIC requires at least two streams for independent control and data'')
      else if tb_max_concurrent_streams budget \<ge> 2 ^ 32
      then Inl (TransportError_new Te_Other ''QUIC stream limit exceeds protocol range'')
      else
        let transport = default_config\<lparr>qtc_max_concurrent_bidi_streams := of_nat (tb_max_concurrent_streams budget)\<rparr>;
            buffer = usize_sat_mul (tb_max_frame_bytes budget) (tb_receive_queue_capacity budget);
            transport =
              (if qo_enable_datagrams options
               then transport\<lparr>qtc_datagram_receive_buffer_size := Some buffer, qtc_datagram_send_buffer_size := buffer\<rparr>
               else transport\<lparr>qtc_datagram_receive_buffer_size := None, qtc_datagram_send_buffer_size := 0\<rparr>)
        in case tb_idle_timeout budget of
             None \<Rightarrow> Inr transport
           | Some idle_timeout \<Rightarrow>
               let keep_alive = idle_timeout div 3 in
               result_bind (ok_or (TransportError_new Te_Other ''QUIC idle timeout exceeds protocol range'') (to_idle_timeout idle_timeout))
                 (\<lambda>protocol_timeout. Inr (transport\<lparr>qtc_max_idle_timeout := Some protocol_timeout, qtc_keep_alive_interval := Some keep_alive\<rparr>)))"

record QuicListener =
  qll_local_endpoint :: EndpointId
  qll_options :: QuicOptions
  qll_connections :: ConnectionCounter

text \<open>\<open>server\<close> is what \<^verbatim>\<open>Endpoint::server\<close> returns for a configuration with that transport.\<close>

definition QuicListener_bind ::
  "(nat \<Rightarrow> 'i option) \<Rightarrow> 'i QuinnTransportConfig \<Rightarrow> ('i QuinnTransportConfig \<Rightarrow> (IoErrorKind, unit) result) \<Rightarrow> EndpointId \<Rightarrow> QuicOptions
     \<Rightarrow> (TransportError, QuicListener) result" where
  "QuicListener_bind to_idle_timeout default_config server local_endpoint options =
     result_bind (QuicOptions_validate options) (\<lambda>options.
     result_bind (transport_config to_idle_timeout default_config options) (\<lambda>transport.
     result_bind (result_map_err quic_io_error (server transport)) (\<lambda>_.
       Inr \<lparr>qll_local_endpoint = local_endpoint, qll_options = options, qll_connections = ConnectionCounter 0\<rparr>)))"

text \<open>\<open>incoming\<close> is what the endpoint yields: nothing when it is closed, else the result of the peer's handshake.\<close>

definition QuicListener_accept ::
  "('a, 'c, 's) Quinn \<Rightarrow> bool \<Rightarrow> (QuinnConnectionError, 'c) result option \<Rightarrow> EndpointId \<Rightarrow> QuicListener
     \<Rightarrow> (TransportError, ('a, 'c) QuicConnection) result \<times> QuicListener" where
  "QuicListener_accept quinn in_runtime incoming remote_endpoint self =
     (case ConnectionCounter_try_acquire (tb_max_connections (qo_budget (qll_options self))) (qll_connections self) of
        (False, _) \<Rightarrow> (Inl quic_connection_limit, self)
      | (True, connections) \<Rightarrow>
          (case result_bind (ok_or (TransportError_new Te_Closed ''QUIC listener is closed'') incoming) (\<lambda>handshake.
                result_bind (result_map_err quic_connection_error handshake) (\<lambda>connection.
                  case accept_streams quinn connection of (streams, connection) \<Rightarrow>
                    result_bind streams (\<lambda>streams.
                      make_connection quinn in_runtime streams (qll_local_endpoint self) remote_endpoint (qll_options self) connection))) of
             Inl e \<Rightarrow> (Inl e, self\<lparr>qll_connections := ConnectionPermit_drop connections\<rparr>)
           | Inr connection \<Rightarrow> (Inr connection, self\<lparr>qll_connections := connections\<rparr>)))"

definition QuicListener_drop :: "QuicListener \<Rightarrow> QuicListener" where
  "QuicListener_drop self = self\<lparr>qll_connections := ConnectionPermit_drop (qll_connections self)\<rparr>"

text \<open>The connector keeps its options, validated; \<open>client\<close> is what \<^verbatim>\<open>Endpoint::client\<close> returns.\<close>

definition QuicConnector_new ::
  "(nat \<Rightarrow> 'i option) \<Rightarrow> 'i QuinnTransportConfig \<Rightarrow> (IoErrorKind, unit) result \<Rightarrow> QuicOptions \<Rightarrow> (TransportError, QuicOptions) result" where
  "QuicConnector_new to_idle_timeout default_config client options =
     result_bind (QuicOptions_validate options) (\<lambda>options.
     result_bind (transport_config to_idle_timeout default_config options) (\<lambda>_.
     result_bind (result_map_err quic_io_error client) (\<lambda>_.
       Inr options)))"

text \<open>\<open>begun\<close> is whether quinn could start to connect; \<open>establish\<close> is the handshake within a time, \<open>None\<close> when the time
  elapsed first.\<close>

definition QuicConnector_connect ::
  "('a, 'c, 's) Quinn \<Rightarrow> bool \<Rightarrow> bool \<Rightarrow> (nat \<Rightarrow> (QuinnConnectionError, 'c) result option) \<Rightarrow> Instant \<Rightarrow> Instant \<Rightarrow> Instant
     \<Rightarrow> EndpointId \<Rightarrow> EndpointId \<Rightarrow> OperationContext \<Rightarrow> QuicOptions \<Rightarrow> (TransportError, ('a, 'c) QuicConnection) result" where
  "QuicConnector_connect quinn in_runtime begun establish now1 now2 now3 local_endpoint remote_endpoint ctx options =
     result_bind (OperationContext_check ctx now1) (\<lambda>_.
       let timeout = connect_timeout ctx (qo_connect_timeout options) now2 in
       if \<not> begun then Inl quic_connect_error
       else
         result_bind
           (case establish timeout of
              None \<Rightarrow> Inl (TransportError_new Te_TimedOut ''QUIC connection timed out'')
            | Some connected \<Rightarrow> result_map_err quic_connection_error connected) (\<lambda>connection.
         result_bind (OperationContext_check ctx now3) (\<lambda>_.
         case open_streams quinn connection of (streams, connection) \<Rightarrow>
           result_bind streams (\<lambda>streams.
             make_connection quinn in_runtime streams local_endpoint remote_endpoint options connection))))"

interpretation quic_listener: bounded_listener "\<lambda>(in_runtime, incoming, remote). QuicListener_accept quinn in_runtime incoming remote"
  QuicListener_drop "\<lambda>l. counter_active (qll_connections l)" "\<lambda>l. tb_max_connections (qo_budget (qll_options l))" for quinn
  by unfold_locales
    (auto simp: QuicListener_accept_def QuicListener_drop_def ConnectionCounter_try_acquire_def ConnectionPermit_drop_def
      quic_connection_limit_def TransportError_new_def split: if_splits sum.splits)

text \<open>From its binding on, a QUIC listener has as many permits out as accepted connections are live, and never more than
  configured; what it accepts has one stream of each kind.\<close>

lemma quic_connections_bounded:
  assumes "QuicListener_bind to_idle_timeout default_config server local_endpoint options = Inr l"
    and "listener_run (\<lambda>(in_runtime, incoming, remote). QuicListener_accept quinn in_runtime incoming remote) QuicListener_drop events 0 l
      = (accepted_live, l')"
  shows "counter_active (qll_connections l') = accepted_live \<and> accepted_live \<le> tb_max_connections (qo_budget options)"
proof -
  have l: "l = \<lparr>qll_local_endpoint = local_endpoint, qll_options = options, qll_connections = ConnectionCounter 0\<rparr>"
    using assms(1) by (auto simp: QuicListener_bind_def result_bind_eq_Inr QuicOptions_validate_def split: if_splits)
  with quic_listener.run_bounded [OF _ _ assms(2)] show ?thesis by simp
qed

definition carries :: "('a, 'c, 's) Quinn \<Rightarrow> bytes \<Rightarrow> 's \<Rightarrow> bool" where
  "carries quinn preface stream \<longleftrightarrow> (\<exists>c c'. qn_read_exact quinn (length preface) stream c = (Some preface, c'))"

lemma receive_preface_kind:
  assumes "receive_preface quinn stream c = (Inr kind, c')"
  shows "carries quinn (case kind of Sk_Control \<Rightarrow> CONTROL_STREAM_PREFACE | Sk_Data \<Rightarrow> DATA_STREAM_PREFACE) stream"
  using assms
  by (auto simp: receive_preface_def carries_def CONTROL_STREAM_PREFACE_def DATA_STREAM_PREFACE_def split: prod.splits option.splits if_splits)

lemma accept_loop_kinds:
  assumes "accept_loop n quinn control data c = (Inr (control', data'), c')"
    and "\<And>s. control = Some s \<Longrightarrow> carries quinn CONTROL_STREAM_PREFACE s" "\<And>s. data = Some s \<Longrightarrow> carries quinn DATA_STREAM_PREFACE s"
  shows "(\<forall>s. control' = Some s \<longrightarrow> carries quinn CONTROL_STREAM_PREFACE s) \<and> (\<forall>s. data' = Some s \<longrightarrow> carries quinn DATA_STREAM_PREFACE s)"
  using assms
proof (induction n quinn control data c rule: accept_loop.induct)
  case (2 n quinn control data c)
  obtain stream c1 where accepted: "qn_accept_bi quinn c = (Inr stream, c1)"
    using 2(3) by (auto split: prod.splits sum.splits)
  obtain kind c2 where preface: "receive_preface quinn stream c1 = (Inr kind, c2)"
    using 2(3) accepted by (auto split: prod.splits sum.splits)
  show ?case
  proof (cases kind)
    case Sk_Control
    have "carries quinn CONTROL_STREAM_PREFACE s" if "Some stream = Some s" for s
      using that receive_preface_kind [OF preface] Sk_Control by simp
    moreover have "accept_loop n quinn (Some stream) data c2 = (Inr (control', data'), c')" using 2(3) accepted preface Sk_Control by simp
    ultimately show ?thesis using 2(1) [OF accepted [symmetric] refl preface [symmetric] refl Sk_Control] 2(5) by blast
  next
    case Sk_Data
    have "carries quinn DATA_STREAM_PREFACE s" if "Some stream = Some s" for s
      using that receive_preface_kind [OF preface] Sk_Data by simp
    moreover have "accept_loop n quinn control (Some stream) c2 = (Inr (control', data'), c')" using 2(3) accepted preface Sk_Data by simp
    ultimately show ?thesis using 2(2) [OF accepted [symmetric] refl preface [symmetric] refl Sk_Data] 2(4) by blast
  qed
qed simp

lemma accept_streams_kinds:
  assumes "accept_streams quinn c = (Inr streams, c')"
  shows "carries quinn CONTROL_STREAM_PREFACE (qst_control streams)" "carries quinn DATA_STREAM_PREFACE (qst_data streams)"
  using assms accept_loop_kinds [of 2 quinn None None c]
  by (auto simp: accept_streams_def result_bind_eq_Inr split: prod.splits sum.splits)

end
