(* ===== verification/Link_Quic_Sending.thy ===== *)
theory Link_Quic_Sending
  imports Link_Quic
begin

text \<open>
  The sending side of a QUIC connection's realtime datagrams. Every call on the connection acts on its send queue as a
  sequence of the queue's own operations, so that what \<open>Link_Realtime_Queue\<close> shows carries over to runs of calls,
  whatever the quinn library answers.
\<close>

subsection \<open>Accounts of a send queue by its offers\<close>

lemma run_offers_account:
  assumes "realtime_run ops q = (h, q')" and "queue_ok cfg q" and "\<forall>f. flow_account q f + trace_total (offered_in f) h < 2 ^ 64 - 1"
  shows "queue_ok cfg q' \<and> (\<forall>f. flow_account q f + trace_total (offered_in f) h
       = flow_account q' f + trace_total (taken_in f) h + trace_total (cleared_in f) h)"
  using assms
proof (induction ops arbitrary: q h)
  case (Cons op ops)
  obtain h1 q1 where ex: "realtime_exec op q = (h1, q1)" by fastforce
  obtain h2 where run: "realtime_run ops q1 = (h2, q')" and h: "h = h1 @ h2"
    using Cons.prems(1) ex by (auto split: prod.splits)
  note step = exec_step [OF ex Cons.prems(2)]
  have room: "\<forall>f. flow_account q f < 2 ^ 64 - 1" using Cons.prems(3) add_lessD1 by blast
  have "flow_account q1 f + trace_total (offered_in f) h2 < 2 ^ 64 - 1" for f
    using step(2) [OF room, of f] Cons.prems(3) [rule_format, of f] h by simp
  then have ih: "queue_ok cfg q' \<and> (\<forall>f. flow_account q1 f + trace_total (offered_in f) h2
       = flow_account q' f + trace_total (taken_in f) h2 + trace_total (cleared_in f) h2)"
    using Cons.IH [OF run step(1)] by blast
  have "flow_account q f + trace_total (offered_in f) h
      = flow_account q' f + trace_total (taken_in f) h + trace_total (cleared_in f) h" for f
    using conjunct2 [OF ih, THEN spec, of f] step(2) [OF room, of f] by (simp add: h)
  with ih show ?case by blast
qed simp

subsection \<open>The counters of what was sent\<close>

text \<open>Only \<open>note_sent\<close> counts a datagram as sent, and no operation of the send queue as received.\<close>

definition transferred :: "RealtimeSendQueue \<Rightarrow> RealtimeFlowId \<Rightarrow> u64 \<times> u64" where
  "transferred q f = (rft_sent (flow_stats q f), rft_received (flow_stats q f))"

lemma note_transferred [simp]:
  "transferred (note_queued flow q) = transferred q" "transferred (note_replaced flow n q) = transferred q"
  "transferred (note_expired flow n q) = transferred q" "transferred (note_congestion_drop flow n q) = transferred q"
  by (auto simp: fun_eq_iff transferred_def flow_stats_def note_defs Let_def update_flow_flows)

lemma transferred_same: "rtt_flows (rsq_telemetry q') = rtt_flows (rsq_telemetry q) \<Longrightarrow> transferred q' = transferred q"
  by (simp add: fun_eq_iff transferred_def flow_stats_def)

lemma transferred_update [simp]:
  "transferred (q\<lparr>rsq_groups := m\<rparr>) = transferred q" "transferred (q\<lparr>rsq_next_insertion_order := n\<rparr>) = transferred q"
  by (simp_all add: fun_eq_iff transferred_def flow_stats_def)

lemma drop_flow_group_transferred [simp]: "transferred (snd (drop_flow_group flow reason q)) = transferred q"
  by (simp add: drop_flow_group_def Let_def split: option.split DropReason.split)

lemma drop_flows_transferred [simp]: "transferred (snd (drop_flows flows reason q)) = transferred q"
proof (induction flows arbitrary: q)
  case (Cons flow flows)
  obtain n q1 where group: "drop_flow_group flow reason q = (n, q1)" by fastforce
  with drop_flow_group_transferred [of flow reason q] Cons.IH [of q1] show ?case by (simp add: case_prod_beta)
qed simp

lemma queue_transferred [simp]:
  "transferred (snd (RealtimeSendQueue_expire now q)) = transferred q"
  "transferred (snd (RealtimeSendQueue_evict_lower_priority priority q)) = transferred q"
  "transferred (snd (RealtimeSendQueue_append_to_group d g q)) = transferred q"
  "transferred (snd (enqueue_new_group d q)) = transferred q"
  "transferred (snd (RealtimeSendQueue_pop_flow flow q)) = transferred q"
  by (simp_all add: RealtimeSendQueue_expire_def RealtimeSendQueue_evict_lower_priority_def RealtimeSendQueue_append_to_group_def
      enqueue_new_group_def RealtimeSendQueue_pop_flow_def Let_def case_prod_beta split: option.split list.split)

lemma enqueue_transferred [simp]: "transferred (snd (RealtimeSendQueue_enqueue d now q)) = transferred q"
  by (simp add: RealtimeSendQueue_enqueue_def Let_def case_prod_beta split: option.split GroupOrder.split)

lemma pop_transferred [simp]:
  "transferred (snd (RealtimeSendQueue_pop_next now q)) = transferred q"
  "transferred (snd (RealtimeSendQueue_pop_next_fitting now n q)) = transferred q"
  by (simp_all add: RealtimeSendQueue_pop_next_def RealtimeSendQueue_pop_next_fitting_def Let_def split: option.split)

lemma set_max_payload_transferred [simp]: "transferred (snd (RealtimeSendQueue_set_max_payload n q)) = transferred q"
  by (simp add: RealtimeSendQueue_set_max_payload_def Let_def) (simp add: fun_eq_iff transferred_def flow_stats_def)

fun sent_in :: "RealtimeFlowId \<Rightarrow> RealtimeOp \<Rightarrow> nat" where
  "sent_in f (RtSent d) = (if qd_flow d = f then 1 else 0)"
| "sent_in f _ = 0"

lemma exec_transferred:
  assumes "realtime_exec op q = (h, q')"
  shows "unat (rft_sent (flow_stats q' f)) = min (unat (rft_sent (flow_stats q f)) + sent_in f op) (2 ^ 64 - 1)"
    and "rft_received (flow_stats q' f) = rft_received (flow_stats q f)"
proof -
  have bound: "unat (rft_sent (flow_stats q f)) \<le> 2 ^ 64 - 1" using unat_lt_size [of "rft_sent (flow_stats q f)"] by simp
  have "transferred q' f = transferred q f" if none: "sent_in f op = 0"
  proof (cases op)
    case (RtEnqueue d now)
    then show ?thesis using assms by (auto simp: case_prod_beta)
  next
    case (RtPop now)
    then show ?thesis using assms by (auto simp: case_prod_beta)
  next
    case (RtPopFitting now n)
    then show ?thesis using assms by (auto simp: case_prod_beta)
  next
    case (RtSent d)
    then show ?thesis
      using assms none by (auto simp: RealtimeSendQueue_note_sent_def Let_def transferred_def flow_stats_def update_flow_flows split: if_splits)
  next
    case (RtPeek now)
    then show ?thesis using assms by (auto simp: RealtimeSendQueue_peek_next_wire_len_def Let_def)
  next
    case RtDropDisposable
    then show ?thesis using assms by (auto simp: RealtimeSendQueue_drop_disposable_for_congestion_def)
  next
    case (RtSetMaxPayload n)
    then show ?thesis using assms by auto
  qed (use assms in \<open>auto simp: RealtimeSendQueue_note_transport_congestion_def RealtimeSendQueue_note_network_metrics_def Let_def
        RealtimeSendQueue_note_migration_def RealtimeSendQueue_reset_for_reconnect_def RealtimeSendQueue_clear_pending_def
        intro!: fun_cong [OF transferred_same]\<close>)
  moreover have "unat (rft_sent (flow_stats q' f)) = min (unat (rft_sent (flow_stats q f)) + 1) (2 ^ 64 - 1)
      \<and> rft_received (flow_stats q' f) = rft_received (flow_stats q f)" if "sent_in f op \<noteq> 0"
    using assms that
    by (cases op) (auto simp: RealtimeSendQueue_note_sent_def Let_def flow_stats_def update_flow_flows unat_sat_add split: if_splits)
  moreover have "sent_in f op \<noteq> 0 \<Longrightarrow> sent_in f op = 1" by (cases op) (auto split: if_splits)
  ultimately show "unat (rft_sent (flow_stats q' f)) = min (unat (rft_sent (flow_stats q f)) + sent_in f op) (2 ^ 64 - 1)"
    "rft_received (flow_stats q' f) = rft_received (flow_stats q f)"
    using bound by (cases "sent_in f op = 0"; simp add: transferred_def)+
qed

definition sent_total :: "RealtimeFlowId \<Rightarrow> RealtimeOp list \<Rightarrow> nat" where
  "sent_total f ops = sum_list (map (sent_in f) ops)"

lemma run_transferred:
  assumes "realtime_run ops q = (h, q')"
  shows "unat (rft_sent (flow_stats q' f)) = min (unat (rft_sent (flow_stats q f)) + sent_total f ops) (2 ^ 64 - 1)"
    and "rft_received (flow_stats q' f) = rft_received (flow_stats q f)"
  using assms
proof (induction ops arbitrary: q h)
  case Nil
  { case 1 then show ?case using unat_lt_size [of "rft_sent (flow_stats q f)"] by (simp add: sent_total_def) }
  { case 2 then show ?case by simp }
next
  case (Cons op ops)
  { case 1
    then obtain h1 q1 h2 where "realtime_exec op q = (h1, q1)" "realtime_run ops q1 = (h2, q')" by (auto split: prod.splits)
    then show ?case using Cons.IH(1) [of q1 h2] exec_transferred(1) [of op q h1 q1 f] by (simp add: sent_total_def) }
  { case 2
    then obtain h1 q1 h2 where "realtime_exec op q = (h1, q1)" "realtime_run ops q1 = (h2, q')" by (auto split: prod.splits)
    then show ?case using Cons.IH(2) [of q1 h2] exec_transferred(2) [of op q h1 q1 f] by simp }
qed

subsection \<open>What a call does to the send queue\<close>

definition flow_count :: "RealtimeFlowId \<Rightarrow> QueuedRealtimeDatagram list \<Rightarrow> nat" where
  "flow_count f ds = length (filter (\<lambda>d. qd_flow d = f) ds)"

lemma flow_count_simps [simp]: "flow_count f [] = 0" "flow_count f (ds @ ds') = flow_count f ds + flow_count f ds'"
  by (simp_all add: flow_count_def)

text \<open>A sequence of operations of the queue that accepts \<open>offs\<close>, clears \<open>clr\<close>, and of the datagrams it takes counts as
  sent all but the list \<open>lost\<close>.\<close>

definition acts ::
  "RealtimeSendQueue \<Rightarrow> RealtimeSendQueue \<Rightarrow> (RealtimeFlowId \<Rightarrow> nat) \<Rightarrow> QueuedRealtimeDatagram list \<Rightarrow> (RealtimeFlowId \<Rightarrow> nat) \<Rightarrow> bool" where
  "acts q q' offs lost clr \<longleftrightarrow>
     (\<exists>ops h. realtime_run ops q = (h, q')
        \<and> (\<forall>f. trace_total (offered_in f) h = offs f \<and> trace_total (cleared_in f) h = clr f
              \<and> trace_total (taken_in f) h = sent_total f ops + flow_count f lost))"

abbreviation quiet :: "RealtimeSendQueue \<Rightarrow> RealtimeSendQueue \<Rightarrow> bool" where
  "quiet q q' \<equiv> acts q q' (\<lambda>f. 0) [] (\<lambda>f. 0)"

lemma realtime_run_append:
  "realtime_run ops q = (h, q1) \<Longrightarrow> realtime_run ops' q1 = (h', q2) \<Longrightarrow> realtime_run (ops @ ops') q = (h @ h', q2)"
  by (induction ops arbitrary: q h) (auto split: prod.splits)

lemma acts_trans:
  assumes "acts q q1 offs lost clr" and "acts q1 q2 offs' lost' clr'"
  shows "acts q q2 (\<lambda>f. offs f + offs' f) (lost @ lost') (\<lambda>f. clr f + clr' f)"
proof -
  obtain ops h where 1: "realtime_run ops q = (h, q1)"
    "\<forall>f. trace_total (offered_in f) h = offs f \<and> trace_total (cleared_in f) h = clr f
       \<and> trace_total (taken_in f) h = sent_total f ops + flow_count f lost"
    using assms(1) by (auto simp: acts_def)
  obtain ops' h' where 2: "realtime_run ops' q1 = (h', q2)"
    "\<forall>f. trace_total (offered_in f) h' = offs' f \<and> trace_total (cleared_in f) h' = clr' f
       \<and> trace_total (taken_in f) h' = sent_total f ops' + flow_count f lost'"
    using assms(2) by (auto simp: acts_def)
  show ?thesis
    unfolding acts_def
    by (rule exI [of _ "ops @ ops'"], rule exI [of _ "h @ h'"])
      (simp add: realtime_run_append [OF 1(1) 2(1)] 1(2) 2(2) sent_total_def)
qed

lemma quiet_trans: "quiet q q1 \<Longrightarrow> acts q1 q2 offs lost clr \<Longrightarrow> acts q q2 offs lost clr"
  using acts_trans [of q q1 "\<lambda>f. 0" "[]" "\<lambda>f. 0"] by simp

lemma quiet_refl [simp]: "quiet q q"
  unfolding acts_def by (rule exI [of _ "[]"]) (simp add: sent_total_def)

lemma acts_run:
  assumes "realtime_run ops q = (h, q')"
    and "\<And>f. trace_total (offered_in f) h = offs f" "\<And>f. trace_total (cleared_in f) h = clr f"
      "\<And>f. trace_total (taken_in f) h = sent_total f ops + flow_count f lost"
  shows "acts q q' offs lost clr"
  unfolding acts_def using assms by (intro exI [of _ ops] exI [of _ h]) simp

lemma quiet_op: "realtime_exec op q = ([], q') \<Longrightarrow> (\<And>f. sent_in f op = 0) \<Longrightarrow> quiet q q'"
  by (rule acts_run [of "[op]" q "[]"]) (simp_all add: sent_total_def)

lemma cleared_acts:
  "acts q (RealtimeSendQueue_clear_pending q) (\<lambda>f. 0) [] (flow_pending q)"
  "acts q (RealtimeSendQueue_reset_for_reconnect q) (\<lambda>f. 0) [] (flow_pending q)"
  by (intro acts_run [of "[RtClear]" q "cleared q"] acts_run [of "[RtReset]" q "cleared q"]; simp add: sent_total_def)+

lemma popped_acts:
  assumes "RealtimeSendQueue_pop_next_fitting now n q = (Some d, q')"
  shows "acts q q' (\<lambda>f. 0) [d] (\<lambda>f. 0)" and "quiet q (RealtimeSendQueue_note_sent d q')"
  using assms
  by (intro acts_run [of "[RtPopFitting now n]" q "[RtTaken d]"] acts_run [of "[RtPopFitting now n, RtSent d]" q "[RtTaken d]"];
      simp add: taken_def sent_total_def flow_count_def)+

lemma none_acts:
  assumes "RealtimeSendQueue_pop_next_fitting now n q = (None, q')"
  shows "quiet q q'" and "quiet q (snd (RealtimeSendQueue_drop_disposable_for_congestion (RealtimeSendQueue_note_transport_congestion q')))"
  using assms
  by (intro acts_run [of "[RtPopFitting now n]" q "[]"] acts_run [of "[RtPopFitting now n, RtCongestion, RtDropDisposable]" q "[]"];
      simp add: taken_def sent_total_def)+

lemma enqueue_acts:
  assumes "RealtimeSendQueue_enqueue d now q = (r, q')"
  shows "acts q q' (\<lambda>f. if is_ok r \<and> rd_flow d = f then 1 else 0) [] (\<lambda>f. 0)"
  using assms by (intro acts_run [of "[RtEnqueue d now]" q "if is_ok r then [RtOffered (rd_flow d)] else []"]) (auto simp: sent_total_def)

text \<open>A call keeps the receive side, and acts on the send queue.\<close>

lemma limit_frame:
  assumes "QuicConnection_current_realtime_payload_limit quinn c = (n, c')"
  shows "qcn_realtime_send c' = qcn_realtime_send c" "qcn_datagram_receive c' = qcn_datagram_receive c"
    "qcn_datagrams_enabled c' = qcn_datagrams_enabled c"
  using assms
  by (auto simp: QuicConnection_current_realtime_payload_limit_def QuicConnection_current_raw_datagram_limit_def split: prod.splits)

lemma note_path_frame:
  "qcn_datagram_receive (note_path quinn c) = qcn_datagram_receive c" "quiet (qcn_realtime_send c) (qcn_realtime_send (note_path quinn c))"
  by (auto simp: note_path_def Let_def intro!: quiet_op [of RtMigration] split: prod.splits)

lemma metrics_quiet: "quiet q (RealtimeSendQueue_note_network_metrics rtt bps events q)"
  by (rule quiet_op [of "RtMetrics rtt bps events"]) simp_all

lemma note_metrics_frame:
  "qcn_datagram_receive (note_metrics quinn c) = qcn_datagram_receive c"
  "quiet (qcn_realtime_send c) (qcn_realtime_send (note_metrics quinn c))"
  by (auto simp: note_metrics_def Let_def intro: metrics_quiet split: prod.splits)

lemma refresh_acts:
  assumes "QuicConnection_refresh_realtime_state quinn c = (r, c')"
  shows "quiet (qcn_realtime_send c) (qcn_realtime_send c')" "qcn_datagram_receive c' = qcn_datagram_receive c"
proof -
  have "quiet (qcn_realtime_send c) (qcn_realtime_send c') \<and> qcn_datagram_receive c' = qcn_datagram_receive c"
  proof (cases "qcn_datagrams_enabled c")
    case False
    with assms show ?thesis by (simp add: QuicConnection_refresh_realtime_state_def)
  next
    case enabled: True
    obtain n c1 where limit: "QuicConnection_current_realtime_payload_limit quinn c = (n, c1)" by fastforce
    obtain changed q1 where set: "RealtimeSendQueue_set_max_payload n (qcn_realtime_send c1) = (changed, q1)" by fastforce
    have q1: "quiet (qcn_realtime_send c1) q1" using set by (intro quiet_op [of "RtSetMaxPayload n"]) simp_all
    show ?thesis
    proof (cases "n = 0")
      case True
      with assms enabled limit limit_frame [OF limit] show ?thesis by (simp add: QuicConnection_refresh_realtime_state_def)
    next
      case False
      show ?thesis
      proof (cases changed)
        case (Inl e)
        with assms enabled limit set False limit_frame [OF limit] q1 show ?thesis by (auto simp: QuicConnection_refresh_realtime_state_def)
      next
        case (Inr b)
        define c2 where "c2 = c1\<lparr>qcn_realtime_send := q1, qcn_realtime_events := qcn_realtime_events c1
            @ (if b then [DatagramPayloadChanged (rsq_max_payload (qcn_realtime_send c1)) n] else [])\<rparr>"
        have c': "c' = note_metrics quinn (note_path quinn c2)"
          using assms enabled limit set False Inr by (simp add: QuicConnection_refresh_realtime_state_def c2_def Let_def)
        have "quiet (qcn_realtime_send c2) (qcn_realtime_send c')"
          unfolding c' by (rule quiet_trans [OF note_path_frame(2) note_metrics_frame(2)])
        with q1 have "quiet (qcn_realtime_send c1) (qcn_realtime_send c')" by (simp add: c2_def quiet_trans)
        then show ?thesis using limit_frame [OF limit] by (simp add: c' note_path_frame note_metrics_frame c2_def)
      qed
    qed
  qed
  then show "quiet (qcn_realtime_send c) (qcn_realtime_send c')" "qcn_datagram_receive c' = qcn_datagram_receive c" by simp_all
qed

text \<open>The loop, turn by turn: it is done, it loses the datagram it took, or it goes on with a queue that did the same.\<close>

definition polled :: "(TransportError, nat) result \<Rightarrow> ('a, 'c) QuicConnection \<Rightarrow> ('a, 'c) QuicConnection \<Rightarrow> bool" where
  "polled r c c' \<longleftrightarrow> (\<exists>lost. acts (qcn_realtime_send c) (qcn_realtime_send c') (\<lambda>f. 0) lost (\<lambda>f. 0) \<and> length lost \<le> (if is_ok r then 0 else 1))
     \<and> qcn_datagram_receive c' = qcn_datagram_receive c \<and> (\<forall>n. r = Inr n \<longrightarrow> n \<le> MAX_REALTIME_DATAGRAMS_PER_POLL)"

lemma polled_quiet:
  "quiet (qcn_realtime_send c) (qcn_realtime_send c1) \<Longrightarrow> qcn_datagram_receive c1 = qcn_datagram_receive c \<Longrightarrow> polled r c1 c' \<Longrightarrow> polled r c c'"
  unfolding polled_def using quiet_trans by metis

lemma polled_done:
  "quiet (qcn_realtime_send c) (qcn_realtime_send c') \<Longrightarrow> qcn_datagram_receive c' = qcn_datagram_receive c
   \<Longrightarrow> n \<le> MAX_REALTIME_DATAGRAMS_PER_POLL \<Longrightarrow> polled (Inr n) c c'"
  by (auto simp: polled_def)

lemma polled_lost:
  "acts (qcn_realtime_send c) (qcn_realtime_send c') (\<lambda>f. 0) [d] (\<lambda>f. 0) \<Longrightarrow> qcn_datagram_receive c' = qcn_datagram_receive c
   \<Longrightarrow> polled (Inl e) c c'"
  by (auto simp: polled_def intro!: exI [of _ "[d]"])

lemma poll_loop_polled:
  assumes "sent \<le> MAX_REALTIME_DATAGRAMS_PER_POLL" and "poll_loop quinn now sent c = (r, c')"
  shows "polled r c c'"
  using assms
proof (induction quinn now sent c rule: poll_loop.induct)
  case (1 quinn now sent c)
  note loop = 1(4) [unfolded poll_loop.simps [of quinn now sent c]]
  show ?case
  proof (cases "sent \<ge> MAX_REALTIME_DATAGRAMS_PER_POLL")
    case True
    with loop 1(3) show ?thesis by (auto intro: polled_done)
  next
    case more: False
    obtain available c1 where space: "qn_datagram_send_buffer_space quinn (qcn_connection c) = (available, c1)" by fastforce
    obtain popped q1 where pop: "RealtimeSendQueue_pop_next_fitting now available (qcn_realtime_send c) = (popped, q1)" by fastforce
    show ?thesis
    proof (cases popped)
      case None
      note quiet_drop = none_acts [OF pop [unfolded None]]
      obtain dropped q2 where drop:
        "RealtimeSendQueue_drop_disposable_for_congestion (RealtimeSendQueue_note_transport_congestion q1) = (dropped, q2)" by fastforce
      show ?thesis
      proof (cases "RealtimeSendQueue_pending_datagrams q1 > 0 \<and> dropped > 0")
        case True
        let ?c2 = "c\<lparr>qcn_connection := c1, qcn_realtime_send := q2\<rparr>"
        have "poll_loop quinn now sent ?c2 = (r, c')" using loop more space pop None drop True by simp
        then have "polled r ?c2 c'"
          using 1(1) [OF more space [symmetric] pop [symmetric] None _ drop [symmetric] refl] True 1(3) by simp
        moreover have "quiet (qcn_realtime_send c) (qcn_realtime_send ?c2)" using quiet_drop(2) drop by simp
        ultimately show ?thesis by (rule polled_quiet [rotated 2]) simp
      next
        case False
        then show ?thesis
          using loop more space pop None drop quiet_drop 1(3) by (auto simp: Let_def intro!: polled_done split: if_splits)
      qed
    next
      case (Some d)
      note taken = popped_acts [OF pop [unfolded Some]]
      show ?thesis
      proof (cases "encode_realtime_datagram d")
        case (Inl e)
        with loop more space pop Some taken(1) show ?thesis by (auto intro: polled_lost)
      next
        case (Inr encoded)
        obtain sent_ok c2 where send: "qn_send_datagram quinn encoded c1 = (sent_ok, c2)" by fastforce
        show ?thesis
        proof (cases sent_ok)
          case (Inl e)
          with loop more space pop Some \<open>encode_realtime_datagram d = Inr encoded\<close> send taken(1) show ?thesis by (auto intro: polled_lost)
        next
          case ok: (Inr u)
          let ?c2 = "c\<lparr>qcn_connection := c2, qcn_realtime_send := RealtimeSendQueue_note_sent d q1\<rparr>"
          have next_sent: "usize_sat_add sent 1 \<le> MAX_REALTIME_DATAGRAMS_PER_POLL"
            using more by (simp add: usize_sat_add_def)
          have "poll_loop quinn now (usize_sat_add sent 1) ?c2 = (r, c')" using loop more space pop Some Inr send ok by simp
          then have "polled r ?c2 c'"
            using 1(2) [OF more space [symmetric] pop [symmetric] Some Inr send [symmetric] ok next_sent] by simp
          moreover have "quiet (qcn_realtime_send c) (qcn_realtime_send ?c2)" using taken(2) by simp
          ultimately show ?thesis by (rule polled_quiet [rotated 2]) simp
        qed
      qed
    qed
  qed
qed

lemma poll_polled:
  assumes "QuicConnection_poll_realtime quinn now c = (r, c')"
  shows "polled r c c'"
proof (cases "qcn_datagrams_enabled c")
  case False
  with assms show ?thesis by (auto simp: QuicConnection_poll_realtime_def polled_def intro!: exI [of _ "[]"])
next
  case True
  obtain r1 c1 where refresh: "QuicConnection_refresh_realtime_state quinn c = (r1, c1)" by fastforce
  note refreshed = refresh_acts [OF refresh]
  show ?thesis
  proof (cases r1)
    case (Inl e)
    with assms True refresh refreshed show ?thesis by (auto simp: QuicConnection_poll_realtime_def polled_def intro!: exI [of _ "[]"])
  next
    case (Inr u)
    then have "poll_loop quinn now 0 c1 = (r, c')" using assms True refresh by (simp add: QuicConnection_poll_realtime_def)
    then have "polled r c1 c'" by (rule poll_loop_polled [rotated]) simp
    with refreshed show ?thesis by (rule polled_quiet)
  qed
qed

lemma send_latest_acts:
  assumes "QuicConnection_try_send_latest quinn d now c = (r, c')"
  shows "\<exists>offs lost. acts (qcn_realtime_send c) (qcn_realtime_send c') offs lost (\<lambda>f. 0) \<and> length lost \<le> (if is_ok r then 0 else 1)
     \<and> (\<forall>f. offs f \<le> (if rd_flow d = f then 1 else 0)) \<and> (is_ok r \<and> r \<noteq> Inr So_Unsupported \<longrightarrow> offs (rd_flow d) = 1)"
    and "qcn_datagram_receive c' = qcn_datagram_receive c"
proof -
  have "(\<exists>offs lost. acts (qcn_realtime_send c) (qcn_realtime_send c') offs lost (\<lambda>f. 0) \<and> length lost \<le> (if is_ok r then 0 else 1)
     \<and> (\<forall>f. offs f \<le> (if rd_flow d = f then 1 else 0)) \<and> (is_ok r \<and> r \<noteq> Inr So_Unsupported \<longrightarrow> offs (rd_flow d) = 1))
     \<and> qcn_datagram_receive c' = qcn_datagram_receive c" (is "?acts \<and> ?same")
  proof (cases "qcn_datagrams_enabled c")
    case False
    with assms show ?thesis
      by (auto simp: QuicConnection_try_send_latest_def intro!: exI [of _ "\<lambda>f. 0"] exI [of _ "[]"])
  next
    case enabled: True
    obtain r1 c1 where refresh: "QuicConnection_refresh_realtime_state quinn c = (r1, c1)" by fastforce
    note refreshed = refresh_acts [OF refresh]
    show ?thesis
    proof (cases r1)
      case (Inl e)
      with assms enabled refresh refreshed show ?thesis
        by (auto simp: QuicConnection_try_send_latest_def intro!: exI [of _ "\<lambda>f. 0"] exI [of _ "[]"])
    next
      case r1: (Inr u)
      obtain r2 q2 where enq: "RealtimeSendQueue_enqueue d now (qcn_realtime_send c1) = (r2, q2)" by fastforce
      note offer = quiet_trans [OF refreshed(1) enqueue_acts [OF enq]]
      show ?thesis
      proof (cases r2)
        case (Inl e)
        have "acts (qcn_realtime_send c) q2 (\<lambda>f. 0) [] (\<lambda>f. 0)" using offer Inl by (simp add: is_ok_def)
        with assms enabled refresh r1 enq Inl refreshed(2) show ?thesis
          by (auto simp: QuicConnection_try_send_latest_def Let_def intro!: exI [of _ "\<lambda>f. 0"] exI [of _ "[]"])
      next
        case r2: (Inr outcome)
        obtain r3 c3 where poll: "QuicConnection_poll_realtime quinn now (c1\<lparr>qcn_realtime_send := q2\<rparr>) = (r3, c3)" by fastforce
        obtain lost where lost: "acts q2 (qcn_realtime_send c3) (\<lambda>f. 0) lost (\<lambda>f. 0)" "length lost \<le> (if is_ok r3 then 0 else 1)"
          and same: "qcn_datagram_receive c3 = qcn_datagram_receive c1"
          using poll_polled [OF poll] by (auto simp: polled_def)
        have whole: "acts (qcn_realtime_send c) (qcn_realtime_send c3) (\<lambda>f. if rd_flow d = f then 1 else 0) lost (\<lambda>f. 0)"
          using acts_trans [OF offer lost(1)] r2 by simp
        have r: "c' = c3" "is_ok r = is_ok r3"
          using assms enabled refresh r1 enq r2 poll by (cases r3; auto simp: QuicConnection_try_send_latest_def Let_def is_ok_def)+
        show ?thesis using whole lost(2) same refreshed(2) unfolding r
          by (intro conjI exI [of _ "\<lambda>f. if rd_flow d = f then 1 else 0"] exI [of _ lost]) simp_all
      qed
    qed
  qed
  then show ?acts ?same by blast+
qed

subsection \<open>Runs\<close>

text \<open>What is called on a connection, and what arrives for it. A call to receive comes with whether the reader task has ended.\<close>

datatype QuicOp =
    Q_SendLatest RealtimeDatagram Instant | Q_Poll Instant | Q_SendDatagram bytes | Q_ReceiveDatagram bool | Q_ReceiveRealtime bool
  | Q_MaxPayload | Q_Quality | Q_TakeEvents | Q_Reset | Q_CloseWrite | Q_CloseRead | Q_Abort | Q_Arrives bytes Instant

datatype QuicReply =
    Qr_Outcome "(TransportError, SendOutcome) result" | Qr_Count "(TransportError, nat) result" | Qr_Unit "(TransportError, unit) result"
  | Qr_Bytes "(TransportError, bytes option) result" | Qr_Realtime "(TransportError, ReceivedRealtimeDatagram option) result"
  | Qr_Payload "nat option" | Qr_Quality ConnectionQuality | Qr_Events "RealtimeEvent list"

fun quic_exec :: "('a, 'c, 's) Quinn \<Rightarrow> QuicOp \<Rightarrow> ('a, 'c) QuicConnection \<Rightarrow> QuicReply \<times> ('a, 'c) QuicConnection" where
  "quic_exec quinn (Q_SendLatest d now) c = map_prod Qr_Outcome id (QuicConnection_try_send_latest quinn d now c)"
| "quic_exec quinn (Q_Poll now) c = map_prod Qr_Count id (QuicConnection_poll_realtime quinn now c)"
| "quic_exec quinn (Q_SendDatagram message) c = map_prod Qr_Unit id (QuicConnection_try_send_datagram quinn message c)"
| "quic_exec quinn (Q_ReceiveDatagram fin) c = map_prod Qr_Bytes id (QuicConnection_try_receive_datagram fin c)"
| "quic_exec quinn (Q_ReceiveRealtime fin) c = map_prod Qr_Realtime id (QuicConnection_try_receive_realtime fin c)"
| "quic_exec quinn Q_MaxPayload c = map_prod Qr_Payload id (QuicConnection_max_datagram_payload quinn c)"
| "quic_exec quinn Q_Quality c = map_prod Qr_Quality id (QuicConnection_quality quinn c)"
| "quic_exec quinn Q_TakeEvents c = map_prod Qr_Events id (QuicConnection_take_realtime_events c)"
| "quic_exec quinn Q_Reset c = (Qr_Unit (Inr ()), QuicConnection_reset_realtime_session c)"
| "quic_exec quinn Q_CloseWrite c = map_prod Qr_Unit id (QuicConnection_close_write c)"
| "quic_exec quinn Q_CloseRead c = map_prod Qr_Unit id (QuicConnection_close_read c)"
| "quic_exec quinn Q_Abort c = (Qr_Unit (Inr ()), QuicConnection_abort quinn c)"
| "quic_exec quinn (Q_Arrives payload now) c =
     (Qr_Unit (Inr ()), c\<lparr>qcn_datagram_receive := DatagramReceiveState_push payload now (qcn_datagram_receive c)\<rparr>)"

fun quic_run :: "('a, 'c, 's) Quinn \<Rightarrow> QuicOp list \<Rightarrow> ('a, 'c) QuicConnection \<Rightarrow> (QuicOp \<times> QuicReply) list \<times> ('a, 'c) QuicConnection" where
  "quic_run quinn [] c = ([], c)"
| "quic_run quinn (op # ops) c =
     (case quic_exec quinn op c of (reply, c1) \<Rightarrow>
      case quic_run quinn ops c1 of (log, c2) \<Rightarrow> ((op, reply) # log, c2))"

text \<open>Counts over the log of a run: the datagrams of a flow handed over, and of these the ones taken over for certain; the calls
  that send and failed; the calls that discard what is pending.\<close>

fun handed_over :: "RealtimeFlowId \<Rightarrow> QuicOp \<times> QuicReply \<Rightarrow> nat" where
  "handed_over f (Q_SendLatest d now, reply) = (if rd_flow d = f then 1 else 0)"
| "handed_over f _ = 0"

fun taken_over :: "RealtimeFlowId \<Rightarrow> QuicOp \<times> QuicReply \<Rightarrow> nat" where
  "taken_over f (Q_SendLatest d now, Qr_Outcome (Inr outcome)) = (if rd_flow d = f \<and> outcome \<noteq> So_Unsupported then 1 else 0)"
| "taken_over f _ = 0"

fun send_failed :: "QuicOp \<times> QuicReply \<Rightarrow> nat" where
  "send_failed (op, Qr_Outcome (Inl e)) = 1"
| "send_failed (op, Qr_Count (Inl e)) = 1"
| "send_failed _ = 0"

fun discards :: "QuicOp \<Rightarrow> bool" where
  "discards Q_Reset = True"
| "discards Q_CloseWrite = True"
| "discards Q_Abort = True"
| "discards _ = False"

text \<open>The datagrams of a flow that were pending when a call of a run discarded what is pending.\<close>

definition discarded_by :: "QuicOp \<Rightarrow> ('a, 'c) QuicConnection \<Rightarrow> RealtimeFlowId \<Rightarrow> nat" where
  "discarded_by op c f = (if discards op then flow_pending (qcn_realtime_send c) f else 0)"

fun discarded_pending :: "('a, 'c, 's) Quinn \<Rightarrow> QuicOp list \<Rightarrow> ('a, 'c) QuicConnection \<Rightarrow> RealtimeFlowId \<Rightarrow> nat" where
  "discarded_pending quinn [] c f = 0"
| "discarded_pending quinn (op # ops) c f = discarded_by op c f + discarded_pending quinn ops (snd (quic_exec quinn op c)) f"

definition log_total :: "(QuicOp \<times> QuicReply \<Rightarrow> nat) \<Rightarrow> (QuicOp \<times> QuicReply) list \<Rightarrow> nat" where
  "log_total w log = sum_list (map w log)"

lemma log_total_simps [simp]: "log_total w [] = 0" "log_total w (e # log) = w e + log_total w log"
  by (simp_all add: log_total_def)

lemma exec_acts:
  assumes "quic_exec quinn op c = (reply, c')"
  shows "\<exists>offs lost. acts (qcn_realtime_send c) (qcn_realtime_send c') offs lost (discarded_by op c)
    \<and> (\<forall>f. taken_over f (op, reply) \<le> offs f \<and> offs f \<le> handed_over f (op, reply))
    \<and> length lost \<le> send_failed (op, reply)" (is ?goal)
proof -
  have none: "discarded_by op c = (\<lambda>f. 0)" if "\<not> discards op" using that by (auto simp: discarded_by_def)
  have same: ?goal if "qcn_realtime_send c' = qcn_realtime_send c" "\<not> discards op" "\<And>f. taken_over f (op, reply) = 0"
    using that none by (intro exI [of _ "\<lambda>f. 0"] exI [of _ "[]"]) simp
  have gone: ?goal if "acts (qcn_realtime_send c) (qcn_realtime_send c') (\<lambda>f. 0) [] (flow_pending (qcn_realtime_send c))"
      "discards op" "\<And>f. taken_over f (op, reply) = 0"
    using that by (intro exI [of _ "\<lambda>f. 0"] exI [of _ "[]"]) (simp add: discarded_by_def [abs_def])
  show ?thesis
  proof (cases op)
    case (Q_SendLatest d now)
    obtain r where r: "QuicConnection_try_send_latest quinn d now c = (r, c')" "reply = Qr_Outcome r"
      using assms Q_SendLatest by (cases "QuicConnection_try_send_latest quinn d now c") auto
    obtain offs lost where offer: "acts (qcn_realtime_send c) (qcn_realtime_send c') offs lost (\<lambda>f. 0)"
      "length lost \<le> (if is_ok r then 0 else 1)" "\<forall>f. offs f \<le> (if rd_flow d = f then 1 else 0)"
      "is_ok r \<and> r \<noteq> Inr So_Unsupported \<longrightarrow> offs (rd_flow d) = 1"
      using send_latest_acts(1) [OF r(1)] by blast
    have "taken_over f (op, reply) \<le> offs f" for f using offer(4) by (cases r) (auto simp: Q_SendLatest r(2))
    moreover have "length lost \<le> send_failed (op, reply)" using offer(2) by (cases r) (simp_all add: r(2))
    ultimately show ?thesis using offer(1,3) Q_SendLatest none by (intro exI [of _ offs] exI [of _ lost]) simp
  next
    case (Q_Poll now)
    obtain r where r: "QuicConnection_poll_realtime quinn now c = (r, c')" "reply = Qr_Count r"
      using assms Q_Poll by (cases "QuicConnection_poll_realtime quinn now c") auto
    obtain lost where "acts (qcn_realtime_send c) (qcn_realtime_send c') (\<lambda>f. 0) lost (\<lambda>f. 0)" "length lost \<le> (if is_ok r then 0 else 1)"
      using poll_polled [OF r(1)] by (auto simp: polled_def)
    then show ?thesis
      using r(2) none by (intro exI [of _ "\<lambda>f. 0"] exI [of _ lost]; cases r) (simp_all add: Q_Poll)
  next
    case (Q_SendDatagram message)
    then show ?thesis
      using assms
      by (intro same)
        (auto simp: QuicConnection_try_send_datagram_def QuicConnection_current_raw_datagram_limit_def split: if_splits prod.splits)
  next
    case (Q_ReceiveDatagram fin)
    then show ?thesis
      using assms
      by (intro same)
        (auto simp: QuicConnection_try_receive_datagram_def QuicConnection_pop_raw_datagram_def DatagramReceiveState_pop_def Let_def
          split: if_splits list.splits)
  next
    case (Q_ReceiveRealtime fin)
    then show ?thesis
      using assms
      by (intro same)
        (auto simp: QuicConnection_try_receive_realtime_def QuicConnection_pop_raw_datagram_def DatagramReceiveState_pop_def Let_def
          split: if_splits list.splits)
  next
    case Q_MaxPayload
    then show ?thesis
      using assms limit_frame
      by (intro same) (auto simp: QuicConnection_max_datagram_payload_def split: if_splits prod.splits)
  next
    case Q_Quality
    then show ?thesis using assms by (intro same) (auto simp: QuicConnection_quality_def Let_def split: prod.splits)
  next
    case Q_TakeEvents
    then show ?thesis using assms by (intro same) (auto simp: QuicConnection_take_realtime_events_def)
  next
    case Q_Reset
    then show ?thesis using assms cleared_acts(2) by (intro gone) (auto simp: QuicConnection_reset_realtime_session_def)
  next
    case Q_CloseWrite
    then show ?thesis
      using assms cleared_acts(1) by (intro gone) (auto simp: QuicConnection_close_write_def Let_def split: prod.splits)
  next
    case Q_CloseRead
    then show ?thesis using assms by (intro same) (auto simp: QuicConnection_close_read_def Let_def split: prod.splits)
  next
    case Q_Abort
    then show ?thesis using assms cleared_acts(1) by (intro gone) (auto simp: QuicConnection_abort_def)
  next
    case (Q_Arrives payload now)
    then show ?thesis using assms by (intro same) auto
  qed
qed

lemma run_acts:
  assumes "quic_run quinn ops c = (log, c')"
  shows "\<exists>offs lost. acts (qcn_realtime_send c) (qcn_realtime_send c') offs lost (discarded_pending quinn ops c)
    \<and> (\<forall>f. log_total (taken_over f) log \<le> offs f \<and> offs f \<le> log_total (handed_over f) log)
    \<and> length lost \<le> log_total send_failed log"
  using assms
proof (induction ops arbitrary: c log)
  case Nil
  have "discarded_pending quinn [] c = (\<lambda>f. 0)" by (simp add: fun_eq_iff)
  with Nil show ?case by (intro exI [of _ "\<lambda>f. 0"] exI [of _ "[]"]) simp
next
  case (Cons op ops)
  obtain reply c1 where ex: "quic_exec quinn op c = (reply, c1)" by fastforce
  obtain log1 where run: "quic_run quinn ops c1 = (log1, c')" and log: "log = (op, reply) # log1"
    using Cons.prems ex by (auto split: prod.splits)
  obtain offs lost where 1: "acts (qcn_realtime_send c) (qcn_realtime_send c1) offs lost (discarded_by op c)"
    "\<forall>f. taken_over f (op, reply) \<le> offs f \<and> offs f \<le> handed_over f (op, reply)" "length lost \<le> send_failed (op, reply)"
    using exec_acts [OF ex] by blast
  obtain offs' lost' where 2: "acts (qcn_realtime_send c1) (qcn_realtime_send c') offs' lost' (discarded_pending quinn ops c1)"
    "\<forall>f. log_total (taken_over f) log1 \<le> offs' f \<and> offs' f \<le> log_total (handed_over f) log1"
    "length lost' \<le> log_total send_failed log1"
    using Cons.IH [OF run] by blast
  have "discarded_pending quinn (op # ops) c = (\<lambda>f. discarded_by op c f + discarded_pending quinn ops c1 f)"
    by (simp add: ex fun_eq_iff)
  with acts_trans [OF 1(1) 2(1)] 1(2,3) 2(2,3) show ?case
    by (intro exI [of _ "\<lambda>f. offs f + offs' f"] exI [of _ "lost @ lost'"]) (simp add: log add_mono)
qed

end
