(* ===== verification/Link_Quic_Realtime.thy ===== *)
theory Link_Quic_Realtime
  imports Link_Quic_Sending "HOL-Library.Sublist"
begin

text \<open>
  The receiving side of a QUIC connection's realtime datagrams: under any interleaving of calls and arrivals the receive
  queue is the end of what arrived. The two properties, of sending and of receiving, are about the telemetry the
  connection reports.
\<close>

subsection \<open>What a call does to the receive queue\<close>

definition receive_stats :: "DatagramReceiveState \<Rightarrow> RealtimeFlowId \<Rightarrow> RealtimeFlowTelemetry" where
  "receive_stats s f = (case bt_get (drs_flow_stats s) f of None \<Rightarrow> RealtimeFlowTelemetry_default | Some stats \<Rightarrow> stats)"

definition of_flow :: "RealtimeFlowId \<Rightarrow> RawReceivedDatagram list \<Rightarrow> nat" where
  "of_flow f xs = length (filter (\<lambda>x. realtime_flow_from_wire (rrd_payload x) = Some f) xs)"

abbreviation decoded :: "RawReceivedDatagram \<Rightarrow> (TransportError, ReceivedRealtimeDatagram) result" where
  "decoded x \<equiv> decode_realtime_datagram (rrd_payload x) (rrd_received_at x)"

text \<open>While \<open>arriving\<close> arrives, \<open>got\<close> is returned of the \<open>popped\<close> datagrams that leave the queue at its front, as do those that
  overflow it and those that are cleared: the queue stays the end of what arrived.\<close>

definition receives ::
  "DatagramReceiveState \<Rightarrow> DatagramReceiveState \<Rightarrow> RawReceivedDatagram list \<Rightarrow> ReceivedRealtimeDatagram list \<Rightarrow> nat \<Rightarrow> nat \<Rightarrow> nat \<Rightarrow> bool" where
  "receives s s' arriving got popped overflowed clr \<longleftrightarrow>
     (let n = popped + overflowed + clr; all = drs_queue s @ arriving in
      drs_capacity s' = drs_capacity s \<and> n \<le> length all \<and> drs_queue s' = drop n all \<and> subseq (map Inr got) (map decoded (take n all))
      \<and> unat (drs_overflow s') = min (unat (drs_overflow s) + overflowed) (2 ^ 64 - 1)
      \<and> (length all \<le> drs_capacity s \<longrightarrow> overflowed = 0)
      \<and> (\<forall>f. unat (rft_received (receive_stats s' f)) = min (unat (rft_received (receive_stats s f)) + of_flow f arriving) (2 ^ 64 - 1))
      \<and> (0 < drs_capacity s \<and> length (drs_queue s) \<le> drs_capacity s \<longrightarrow> length (drs_queue s') \<le> drs_capacity s))"

lemma min_sat_add: "min (min (a + b) m + c) m = min (a + (b + c)) (m :: nat)"
  by simp

lemma take_drop_later:
  assumes "n \<le> length xs"
  shows "take (n + m) (xs @ ys) = take n xs @ take m (drop n xs @ ys)" "drop (n + m) (xs @ ys) = drop m (drop n xs @ ys)"
proof -
  have n: "length (take n xs) = n" using assms by simp
  have "take (n + m) (take n xs @ drop n xs @ ys) = take n xs @ take m (drop n xs @ ys)"
    "drop (n + m) (take n xs @ drop n xs @ ys) = drop m (drop n xs @ ys)"
    using n by (simp_all only: take_append drop_append) simp_all
  then show "take (n + m) (xs @ ys) = take n xs @ take m (drop n xs @ ys)" "drop (n + m) (xs @ ys) = drop m (drop n xs @ ys)"
    by (simp_all only: append_assoc [symmetric] append_take_drop_id)
qed

lemma receivesD:
  assumes "receives s s' xs got p k clr"
  shows "drs_capacity s' = drs_capacity s" "p + k + clr \<le> length (drs_queue s @ xs)" "drs_queue s' = drop (p + k + clr) (drs_queue s @ xs)"
    "subseq (map Inr got) (map decoded (take (p + k + clr) (drs_queue s @ xs)))"
    "unat (drs_overflow s') = min (unat (drs_overflow s) + k) (2 ^ 64 - 1)"
    "length (drs_queue s @ xs) \<le> drs_capacity s \<Longrightarrow> k = 0"
    "unat (rft_received (receive_stats s' f)) = min (unat (rft_received (receive_stats s f)) + of_flow f xs) (2 ^ 64 - 1)"
    "0 < drs_capacity s \<Longrightarrow> length (drs_queue s) \<le> drs_capacity s \<Longrightarrow> length (drs_queue s') \<le> drs_capacity s"
  using assms unfolding receives_def Let_def by blast+

lemma receives_trans:
  assumes "receives s s1 xs got p k clr" and "receives s1 s2 ys got' p' k' clr'"
  shows "receives s s2 (xs @ ys) (got @ got') (p + p') (k + k') (clr + clr')"
proof -
  let ?n = "p + k + clr" and ?all = "drs_queue s @ xs" and ?n' = "p' + k' + clr'"
  note 1 = receivesD [OF assms(1)] and 2 = receivesD [OF assms(2), unfolded 1(1,3)]
  note parts = take_drop_later [OF 1(2), of ?n' ys]
  have "subseq (map Inr (got @ got')) (map decoded (take (?n + ?n') (?all @ ys)))"
    unfolding parts map_append by (rule list_emb_append_mono [OF 1(4) [unfolded map_append] 2(4)])
  moreover have "k + k' = 0" if "length (?all @ ys) \<le> drs_capacity s"
  proof -
    have "length ?all \<le> drs_capacity s" using that by simp
    moreover have "length (drop ?n ?all @ ys) \<le> drs_capacity s" using that by simp
    ultimately show ?thesis using 1(6) 2(6) by simp
  qed
  moreover have "?n + ?n' \<le> length (?all @ ys)" using 1(2) 2(2) by simp
  moreover have "unat (drs_overflow s2) = min (unat (drs_overflow s) + (k + k')) (2 ^ 64 - 1)"
    by (simp only: 1(5) 2(5) min_sat_add)
  moreover have "unat (rft_received (receive_stats s2 f)) = min (unat (rft_received (receive_stats s f)) + of_flow f (xs @ ys)) (2 ^ 64 - 1)" for f
    using min_sat_add by (simp add: 1(7) 2(7) of_flow_def)
  moreover have "length (drs_queue s2) \<le> drs_capacity s" if "0 < drs_capacity s" "length (drs_queue s) \<le> drs_capacity s"
    using that 1(3,8) 2(8) by simp
  moreover have "drs_queue s2 = drop (?n + ?n') (?all @ ys)" by (simp only: 2(3) parts(2))
  moreover have sum: "p + p' + (k + k') + (clr + clr') = ?n + ?n'" by simp
  ultimately show ?thesis
    using 2(1) unfolding receives_def Let_def append_assoc [symmetric] sum by blast
qed

lemma unat_below_top: "min (unat (w :: u64)) 18446744073709551615 = unat w"
  using unat_lt_size [of w] by simp

lemma receives_refl: "receives s s [] [] 0 0 0"
  by (simp add: receives_def of_flow_def unat_below_top)

lemma note_wire_flow_frame [simp]:
  "drs_queue (note_wire_flow payload g s) = drs_queue s" "drs_capacity (note_wire_flow payload g s) = drs_capacity s"
  "drs_overflow (note_wire_flow payload g s) = drs_overflow s"
  by (simp_all add: note_wire_flow_def split: option.split)

lemma note_wire_flow_stats:
  "receive_stats (note_wire_flow payload g s) f
    = (if realtime_flow_from_wire payload = Some f then g (receive_stats s f) else receive_stats s f)"
  by (auto simp: note_wire_flow_def receive_stats_def split: option.split)

lemma receive_stats_update [simp]:
  "receive_stats (s\<lparr>drs_queue := q\<rparr>) f = receive_stats s f" "receive_stats (s\<lparr>drs_overflow := n\<rparr>) f = receive_stats s f"
  by (simp_all add: receive_stats_def)

lemma push_receives:
  "\<exists>k. receives s (DatagramReceiveState_push payload now s) [\<lparr>rrd_received_at = now, rrd_payload = payload\<rparr>] [] 0 k 0"
proof -
  define s1 where "s1 = note_wire_flow payload (\<lambda>s. s\<lparr>rft_received := sat_add (rft_received s) 1,
      rft_received_bytes := sat_add (rft_received_bytes s) (of_nat (length payload - REALTIME_DATAGRAM_HEADER_LEN))\<rparr>) s"
  have frame: "drs_queue s1 = drs_queue s" "drs_capacity s1 = drs_capacity s" "drs_overflow s1 = drs_overflow s"
    by (simp_all add: s1_def)
  have stats: "unat (rft_received (receive_stats s1 f))
      = min (unat (rft_received (receive_stats s f)) + of_flow f [\<lparr>rrd_received_at = now, rrd_payload = payload\<rparr>]) (2 ^ 64 - 1)" for f
    using unat_lt_size [of "rft_received (receive_stats s f)"]
    by (simp add: s1_def note_wire_flow_stats of_flow_def unat_sat_add)
  show ?thesis
  proof (cases "drs_capacity s \<le> length (drs_queue s) \<and> drs_queue s \<noteq> []")
    case True
    then obtain dropped rest where queue: "drs_queue s = dropped # rest" by (cases "drs_queue s") auto
    then show ?thesis
      using True stats
      by (intro exI [of _ 1])
        (auto simp: receives_def DatagramReceiveState_push_def s1_def [symmetric] frame Let_def note_wire_flow_stats unat_sat_add)
  next
    case False
    then have "DatagramReceiveState_push payload now s
        = s1\<lparr>drs_queue := drs_queue s @ [\<lparr>rrd_received_at = now, rrd_payload = payload\<rparr>]\<rparr>"
      by (auto simp: DatagramReceiveState_push_def s1_def [symmetric] frame Let_def split: list.split)
    then show ?thesis
      using False stats unat_lt_size [of "drs_overflow s"]
      by (intro exI [of _ 0]) (auto simp: receives_def frame)
  qed
qed

lemma pop_receives:
  assumes "DatagramReceiveState_pop s = (message, s')"
  shows "message = None \<Longrightarrow> s' = s"
    and "message = Some x \<Longrightarrow> decoded x = Inr r \<Longrightarrow> receives s s' [] [r] 1 0 0"
    and "message = Some x \<Longrightarrow> receives s s' [] [] 1 0 0"
  using assms by (auto simp: DatagramReceiveState_pop_def receives_def of_flow_def unat_below_top split: list.splits)

lemma clear_receives: "receives s (DatagramReceiveState_clear s) [] [] 0 0 (length (drs_queue s))"
  by (simp add: DatagramReceiveState_clear_def receives_def of_flow_def unat_below_top)

subsection \<open>Runs\<close>

fun arrived_by :: "QuicOp \<times> QuicReply \<Rightarrow> RawReceivedDatagram list" where
  "arrived_by (Q_Arrives payload now, reply) = [\<lparr>rrd_received_at = now, rrd_payload = payload\<rparr>]"
| "arrived_by _ = []"

fun received_by :: "QuicOp \<times> QuicReply \<Rightarrow> ReceivedRealtimeDatagram list" where
  "received_by (op, Qr_Realtime (Inr (Some r))) = [r]"
| "received_by _ = []"

text \<open>A call to receive takes a datagram when it returns one, or when the one it took does not decode.\<close>

fun popped_by :: "QuicOp \<times> QuicReply \<Rightarrow> nat" where
  "popped_by (op, Qr_Bytes (Inr message)) = 1"
| "popped_by (op, Qr_Realtime (Inr message)) = 1"
| "popped_by (op, Qr_Realtime (Inl e)) = (if te_kind e = Te_Other then 1 else 0)"
| "popped_by _ = 0"

lemma decode_error_kind: "decode_realtime_datagram bs t = Inl e \<Longrightarrow> te_kind e = Te_Other"
  by (auto simp: decode_realtime_datagram_def result_bind_eq_Inl RealtimePriority_from_code_def invalid_realtime_def TransportError_new_def
      split: if_splits)

lemma exec_receives:
  assumes "quic_exec quinn op c = (reply, c')"
  shows "\<exists>k clr. receives (qcn_datagram_receive c) (qcn_datagram_receive c') (arrived_by (op, reply)) (received_by (op, reply))
      (popped_by (op, reply)) k clr \<and> (\<not> discards op \<longrightarrow> clr = 0)" (is ?goal)
proof -
  have same: ?goal if "qcn_datagram_receive c' = qcn_datagram_receive c" "arrived_by (op, reply) = []" "received_by (op, reply) = []"
      "popped_by (op, reply) = 0"
    using that receives_refl by auto
  show ?thesis
  proof (cases op)
    case (Q_SendLatest d now)
    then show ?thesis
      using assms send_latest_acts(2) [of quinn d now c] by (intro same) (auto simp: map_prod_def split: prod.splits)
  next
    case (Q_Poll now)
    then show ?thesis
      using assms poll_polled [of quinn now c] by (intro same) (auto simp: map_prod_def polled_def split: prod.splits)
  next
    case (Q_SendDatagram message)
    then show ?thesis
      using assms
      by (intro same)
        (auto simp: QuicConnection_try_send_datagram_def QuicConnection_current_raw_datagram_limit_def split: if_splits prod.splits)
  next
    case (Q_ReceiveDatagram fin)
    obtain message s where popped: "DatagramReceiveState_pop (qcn_datagram_receive c) = (message, s)" by fastforce
    show ?thesis
    proof (cases "qcn_datagrams_enabled c \<and> message \<noteq> None")
      case False
      then show ?thesis
        using assms Q_ReceiveDatagram popped pop_receives(1) [OF popped]
        by (intro same) (auto simp: QuicConnection_try_receive_datagram_def QuicConnection_pop_raw_datagram_def split: if_splits)
    next
      case True
      then obtain x where "message = Some x" by blast
      with assms Q_ReceiveDatagram popped True pop_receives(3) [OF popped] show ?thesis
        by (intro exI [of _ 0]) (auto simp: QuicConnection_try_receive_datagram_def QuicConnection_pop_raw_datagram_def)
    qed
  next
    case (Q_ReceiveRealtime fin)
    obtain message s where popped: "DatagramReceiveState_pop (qcn_datagram_receive c) = (message, s)" by fastforce
    show ?thesis
    proof (cases "qcn_datagrams_enabled c \<and> message \<noteq> None")
      case False
      then show ?thesis
        using assms Q_ReceiveRealtime popped pop_receives(1) [OF popped]
        by (intro same)
          (auto simp: QuicConnection_try_receive_realtime_def QuicConnection_pop_raw_datagram_def unsupported_datagram_def
            TransportError_new_def split: if_splits)
    next
      case True
      then obtain x where x: "message = Some x" by blast
      have step: "c' = c\<lparr>qcn_datagram_receive := s\<rparr>" "reply = Qr_Realtime (result_bind (decoded x) (\<lambda>r. Inr (Some r)))"
        using assms Q_ReceiveRealtime popped True x
        by (auto simp: QuicConnection_try_receive_realtime_def QuicConnection_pop_raw_datagram_def)
      show ?thesis
      proof (cases "decoded x")
        case (Inl e)
        then show ?thesis
          using step pop_receives(3) [OF popped x] decode_error_kind [OF Inl] Q_ReceiveRealtime by (intro exI [of _ 0]) simp
      next
        case (Inr r)
        then show ?thesis using step pop_receives(2) [OF popped x Inr] Q_ReceiveRealtime by (intro exI [of _ 0]) simp
      qed
    qed
  next
    case Q_MaxPayload
    then show ?thesis
      using assms limit_frame by (intro same) (auto simp: QuicConnection_max_datagram_payload_def split: if_splits prod.splits)
  next
    case Q_Quality
    then show ?thesis using assms by (intro same) (auto simp: QuicConnection_quality_def Let_def split: prod.splits)
  next
    case Q_TakeEvents
    then show ?thesis using assms by (intro same) (auto simp: QuicConnection_take_realtime_events_def)
  next
    case Q_Reset
    then show ?thesis using assms clear_receives [of "qcn_datagram_receive c"]
      by (intro exI [of _ 0] exI [of _ "length (drs_queue (qcn_datagram_receive c))"]) (auto simp: QuicConnection_reset_realtime_session_def)
  next
    case Q_CloseWrite
    then show ?thesis using assms by (intro same) (auto simp: QuicConnection_close_write_def Let_def split: prod.splits)
  next
    case Q_CloseRead
    then show ?thesis using assms by (intro same) (auto simp: QuicConnection_close_read_def Let_def split: prod.splits)
  next
    case Q_Abort
    then show ?thesis using assms clear_receives [of "qcn_datagram_receive c"]
      by (intro exI [of _ 0] exI [of _ "length (drs_queue (qcn_datagram_receive c))"]) (auto simp: QuicConnection_abort_def)
  next
    case (Q_Arrives payload now)
    then show ?thesis using assms push_receives [of "qcn_datagram_receive c" payload now] by auto
  qed
qed

abbreviation arrived :: "(QuicOp \<times> QuicReply) list \<Rightarrow> RawReceivedDatagram list" where
  "arrived log \<equiv> concat (map arrived_by log)"

abbreviation received :: "(QuicOp \<times> QuicReply) list \<Rightarrow> ReceivedRealtimeDatagram list" where
  "received log \<equiv> concat (map received_by log)"

lemma run_receives:
  assumes "quic_run quinn ops c = (log, c')"
  shows "\<exists>k clr. receives (qcn_datagram_receive c) (qcn_datagram_receive c') (arrived log) (received log) (log_total popped_by log) k clr
    \<and> (list_all (\<lambda>op. \<not> discards op) ops \<longrightarrow> clr = 0)"
  using assms
proof (induction ops arbitrary: c log)
  case Nil
  then show ?case using receives_refl by (intro exI [of _ 0]) simp
next
  case (Cons op ops)
  obtain reply c1 where ex: "quic_exec quinn op c = (reply, c1)" by fastforce
  obtain log1 where run: "quic_run quinn ops c1 = (log1, c')" and log: "log = (op, reply) # log1"
    using Cons.prems ex by (auto split: prod.splits)
  obtain k clr where 1: "receives (qcn_datagram_receive c) (qcn_datagram_receive c1) (arrived_by (op, reply)) (received_by (op, reply))
      (popped_by (op, reply)) k clr" "\<not> discards op \<longrightarrow> clr = 0"
    using exec_receives [OF ex] by blast
  obtain k' clr' where 2: "receives (qcn_datagram_receive c1) (qcn_datagram_receive c') (arrived log1) (received log1) (log_total popped_by log1) k' clr'"
    "list_all (\<lambda>op. \<not> discards op) ops \<longrightarrow> clr' = 0"
    using Cons.IH [OF run] by blast
  show ?case
    using receives_trans [OF 1(1) 2(1)] 1(2) 2(2) by (intro exI [of _ "k + k'"] exI [of _ "clr + clr'"]) (simp add: log)
qed

subsection \<open>The telemetry a connection reports\<close>

definition telemetry_flow :: "RealtimeTelemetry \<Rightarrow> RealtimeFlowId \<Rightarrow> RealtimeFlowTelemetry" where
  "telemetry_flow t f = (case bt_get (rtt_flows t) f of None \<Rightarrow> RealtimeFlowTelemetry_default | Some s \<Rightarrow> s)"

definition with_receive :: "RealtimeFlowTelemetry \<Rightarrow> RealtimeFlowTelemetry \<Rightarrow> RealtimeFlowTelemetry" where
  "with_receive rs s = s\<lparr>rft_received := rft_received rs, rft_received_bytes := rft_received_bytes rs,
     rft_receive_queue_overflow := rft_receive_queue_overflow rs\<rparr>"

lemma merge_one: "telemetry_flow (merge_receive_stats t (g, rs)) f = (if f = g then with_receive rs (telemetry_flow t f) else telemetry_flow t f)"
  by (simp add: merge_receive_stats_def telemetry_flow_def update_flow_flows with_receive_def)

lemma merge_overflow: "rtt_receive_queue_overflow (foldl merge_receive_stats t es) = rtt_receive_queue_overflow t"
  by (induction es arbitrary: t) (auto simp: merge_receive_stats_def update_flow_def)

lemma merged_flow:
  "distinct (map fst es) \<Longrightarrow> telemetry_flow (foldl merge_receive_stats t es) f
     = (case map_of es f of None \<Rightarrow> telemetry_flow t f | Some rs \<Rightarrow> with_receive rs (telemetry_flow t f))"
proof (induction es arbitrary: t)
  case (Cons e es)
  obtain g rs where e: "e = (g, rs)" by fastforce
  have "map_of es g = None" using Cons.prems e by (simp add: map_of_eq_None_iff)
  with Cons e show ?case by (auto simp: merge_one split: option.split)
qed simp

abbreviation reported :: "('a, 'c) QuicConnection \<Rightarrow> RealtimeFlowId \<Rightarrow> RealtimeFlowTelemetry" where
  "reported c \<equiv> telemetry_flow (QuicConnection_realtime_telemetry c)"

lemma reported_flow:
  "reported c f = (case bt_get (drs_flow_stats (qcn_datagram_receive c)) f of
     None \<Rightarrow> flow_stats (qcn_realtime_send c) f | Some rs \<Rightarrow> with_receive rs (flow_stats (qcn_realtime_send c) f))"
  by (simp add: QuicConnection_realtime_telemetry_def Let_def merged_flow bt_entries_distinct bt_get.rep_eq [symmetric])
    (simp add: telemetry_flow_def flow_stats_def RealtimeSendQueue_telemetry_def split: option.split)

lemma reported_sending:
  "rft_sent (reported c f) = rft_sent (flow_stats (qcn_realtime_send c) f)"
  "rft_replaced (reported c f) = rft_replaced (flow_stats (qcn_realtime_send c) f)"
  "rft_expired (reported c f) = rft_expired (flow_stats (qcn_realtime_send c) f)"
  "rft_congestion_dropped (reported c f) = rft_congestion_dropped (flow_stats (qcn_realtime_send c) f)"
  by (simp_all add: reported_flow with_receive_def split: option.split)

lemma reported_overflow: "rtt_receive_queue_overflow (QuicConnection_realtime_telemetry c) = drs_overflow (qcn_datagram_receive c)"
  by (simp add: QuicConnection_realtime_telemetry_def Let_def merge_overflow)

lemma reported_received:
  assumes "rft_received (flow_stats (qcn_realtime_send c) f) = 0"
  shows "rft_received (reported c f) = rft_received (receive_stats (qcn_datagram_receive c) f)"
  using assms by (simp add: reported_flow with_receive_def receive_stats_def RealtimeFlowTelemetry_default_def split: option.split)

subsection \<open>New connections\<close>

lemma new_connection:
  assumes "make_connection quinn in_runtime streams local_endpoint remote_endpoint options connection = Inr c"
  shows "\<exists>payload. RealtimeSendQueue_new (qo_realtime_queue options) payload = Inr (qcn_realtime_send c)"
    and "qcn_datagram_receive c = DatagramReceiveState_new (tb_receive_queue_capacity (qo_budget options))"
    and "0 < tb_receive_queue_capacity (qo_budget options)"
  using assms
  by (auto simp: make_connection_def Let_def result_bind_eq_Inr spawn_framed_halves_def TransportBudget_validate_def case_prod_beta
      split: if_splits)

lemma new_queue:
  assumes "RealtimeSendQueue_new config payload = Inr q"
  shows "flow_account q f = 0" "rft_sent (flow_stats q f) = 0" "rft_received (flow_stats q f) = 0"
  using assms
  by (auto simp: RealtimeSendQueue_new_def flow_dropped_def flow_stats_def flow_pending_def
      RealtimeTelemetry_default_def RealtimeFlowTelemetry_default_def split: if_splits)

lemma run_length: "quic_run quinn ops c = (log, c') \<Longrightarrow> length log = length ops"
  by (induction ops arbitrary: c log) (auto split: prod.splits)

lemma handed_over_le: "log_total (handed_over f) log \<le> length log"
proof (induction log)
  case (Cons e log)
  have "handed_over f e \<le> 1" by (cases "(f, e)" rule: handed_over.cases) auto
  with Cons show ?case by simp
qed simp

lemma arrived_le: "length (arrived log) \<le> length log"
proof (induction log)
  case (Cons e log)
  have "length (arrived_by e) \<le> 1" by (cases e rule: arrived_by.cases) auto
  with Cons show ?case by simp
qed simp

lemma poll_count: "QuicConnection_poll_realtime quinn now c = (Inr n, c') \<Longrightarrow> n \<le> MAX_REALTIME_DATAGRAMS_PER_POLL"
  using poll_polled [of quinn now c "Inr n" c'] by (simp add: polled_def)

lemma run_counts:
  assumes "quic_run quinn ops c = (log, c')" and "(op, Qr_Count (Inr n)) \<in> set log"
  shows "n \<le> MAX_REALTIME_DATAGRAMS_PER_POLL"
  using assms
proof (induction ops arbitrary: c log)
  case (Cons op' ops)
  obtain reply c1 where ex: "quic_exec quinn op' c = (reply, c1)" by fastforce
  have "n \<le> MAX_REALTIME_DATAGRAMS_PER_POLL" if "reply = Qr_Count (Inr n)"
    using ex that by (cases op') (auto simp: map_prod_def intro: poll_count split: prod.splits)
  with Cons ex show ?case by (fastforce split: prod.splits)
qed simp

subsection \<open>Properties\<close>

text \<open>C38: realtime sending over QUIC is accounted for. Over any run of calls on a new connection, whatever the quinn library answers
  and whatever arrives in between, every datagram the send queue took over is accounted for, flow by flow: the reported telemetry
  counts it as sent, replaced, expired or dropped under congestion; or it is still pending; or it was pending when a reset, a
  close of the write side or an abort discarded it, exactly those, which no counter of the telemetry reports; or it is one of at
  most as many as there were failing calls, which the failing call lost and no counter reports either. Every datagram whose
  hand-over succeeded is among them, and none that was not handed over. A poll sends at most its limit.\<close>

theorem quic_sending_accounted:
  assumes "make_connection quinn in_runtime streams local_endpoint remote_endpoint options connection = Inr c0"
    and "quic_run quinn ops c0 = (log, c)" and "length ops < 2 ^ 64 - 1"
  shows "(\<exists>offs lost.
      (\<forall>f. offs f = unat (rft_sent (reported c f)) + unat (rft_replaced (reported c f)) + unat (rft_expired (reported c f))
          + unat (rft_congestion_dropped (reported c f)) + flow_pending (qcn_realtime_send c) f
          + discarded_pending quinn ops c0 f + flow_count f lost)
    \<and> (\<forall>f. log_total (taken_over f) log \<le> offs f \<and> offs f \<le> log_total (handed_over f) log)
    \<and> length lost \<le> log_total send_failed log)
    \<and> (\<forall>op n. (op, Qr_Count (Inr n)) \<in> set log \<longrightarrow> n \<le> MAX_REALTIME_DATAGRAMS_PER_POLL)"
proof -
  obtain payload where new: "RealtimeSendQueue_new (qo_realtime_queue options) payload = Inr (qcn_realtime_send c0)"
    using new_connection(1) [OF assms(1)] by blast
  obtain offs lost where run: "acts (qcn_realtime_send c0) (qcn_realtime_send c) offs lost (discarded_pending quinn ops c0)"
    "\<forall>f. log_total (taken_over f) log \<le> offs f \<and> offs f \<le> log_total (handed_over f) log"
    "length lost \<le> log_total send_failed log"
    using run_acts [OF assms(2)] by blast
  obtain rops h where rrun: "realtime_run rops (qcn_realtime_send c0) = (h, qcn_realtime_send c)"
    and totals: "\<And>f. trace_total (offered_in f) h = offs f" "\<And>f. trace_total (cleared_in f) h = discarded_pending quinn ops c0 f"
      "\<And>f. trace_total (taken_in f) h = sent_total f rops + flow_count f lost"
    using run(1) by (auto simp: acts_def)
  have few: "offs f < 2 ^ 64 - 1" for f
    using run(2) [rule_format, of f] handed_over_le [of f log] run_length [OF assms(2)] assms(3) by linarith
  have account: "offs f = flow_account (qcn_realtime_send c) f + sent_total f rops + flow_count f lost + discarded_pending quinn ops c0 f" for f
    using run_offers_account [OF rrun new_ok [OF new]] few by (simp add: new_queue(1) [OF new] totals)
  have "unat (rft_sent (flow_stats (qcn_realtime_send c) f)) = sent_total f rops" for f
    using run_transferred(1) [OF rrun, of f] account [of f] few [of f] by (simp add: new_queue(2) [OF new])
  then have "\<forall>f. offs f = unat (rft_sent (reported c f)) + unat (rft_replaced (reported c f)) + unat (rft_expired (reported c f))
      + unat (rft_congestion_dropped (reported c f)) + flow_pending (qcn_realtime_send c) f + discarded_pending quinn ops c0 f + flow_count f lost"
    using account by (simp add: reported_sending flow_dropped_def)
  with run(2-) run_counts [OF assms(2)] show ?thesis by blast
qed

text \<open>C39: realtime receiving over QUIC keeps the latest. Over any run of calls on a new connection, what waits in the receive queue
  is the end of what arrived and fits the configured capacity; what arrived before it was taken by a call, was pushed out and
  counted as overflow in the reported telemetry, or was cleared. The datagrams returned are decodings of what arrived, in that
  order. Nothing overflows while no more has arrived than the queue holds, and each flow's arrivals are counted exactly.\<close>

theorem quic_receiving_latest:
  assumes "make_connection quinn in_runtime streams local_endpoint remote_endpoint options connection = Inr c0"
    and "quic_run quinn ops c0 = (log, c)" and "length ops < 2 ^ 64 - 1"
  shows "(\<exists>n clr. drs_queue (qcn_datagram_receive c) = drop n (arrived log) \<and> n \<le> length (arrived log)
      \<and> n = log_total popped_by log + unat (rtt_receive_queue_overflow (QuicConnection_realtime_telemetry c)) + clr
      \<and> subseq (map Inr (received log)) (map decoded (take n (arrived log)))
      \<and> (list_all (\<lambda>op. \<not> discards op) ops \<longrightarrow> clr = 0))
    \<and> length (drs_queue (qcn_datagram_receive c)) \<le> tb_receive_queue_capacity (qo_budget options)
    \<and> (length (arrived log) \<le> tb_receive_queue_capacity (qo_budget options)
        \<longrightarrow> rtt_receive_queue_overflow (QuicConnection_realtime_telemetry c) = 0)
    \<and> (\<forall>f. unat (rft_received (reported c f)) = of_flow f (arrived log))"
proof -
  note new = new_connection [OF assms(1)]
  obtain payload where queue: "RealtimeSendQueue_new (qo_realtime_queue options) payload = Inr (qcn_realtime_send c0)" using new(1) by blast
  obtain rops h where rrun: "realtime_run rops (qcn_realtime_send c0) = (h, qcn_realtime_send c)"
    using run_acts [OF assms(2)] by (auto simp: acts_def)
  have empty: "drs_queue (qcn_datagram_receive c0) = []" "drs_overflow (qcn_datagram_receive c0) = 0"
    "drs_capacity (qcn_datagram_receive c0) = tb_receive_queue_capacity (qo_budget options)"
    "receive_stats (qcn_datagram_receive c0) f = RealtimeFlowTelemetry_default" for f
    by (simp_all add: new(2) DatagramReceiveState_new_def receive_stats_def)
  obtain k clr where run: "receives (qcn_datagram_receive c0) (qcn_datagram_receive c) (arrived log) (received log) (log_total popped_by log) k clr"
    "list_all (\<lambda>op. \<not> discards op) ops \<longrightarrow> clr = 0"
    using run_receives [OF assms(2)] by blast
  note all = receivesD [OF run(1), unfolded empty append_Nil]
  have few: "length (arrived log) < 2 ^ 64 - 1" using arrived_le [of log] run_length [OF assms(2)] assms(3) by simp
  then have k: "unat (rtt_receive_queue_overflow (QuicConnection_realtime_telemetry c)) = k" using all(2,5) by (simp add: reported_overflow)
  have "unat (rft_received (reported c f)) = of_flow f (arrived log)" for f
  proof -
    have "of_flow f (arrived log) \<le> length (arrived log)" by (simp add: of_flow_def)
    then have "of_flow f (arrived log) < 2 ^ 64 - 1" using few by (rule le_less_trans)
    moreover have "rft_received (flow_stats (qcn_realtime_send c) f) = 0" using run_transferred(2) [OF rrun] new_queue(3) [OF queue] by simp
    ultimately show ?thesis using all(7) [of f] by (simp add: reported_received RealtimeFlowTelemetry_default_def)
  qed
  moreover have "rtt_receive_queue_overflow (QuicConnection_realtime_telemetry c) = 0"
    if "length (arrived log) \<le> tb_receive_queue_capacity (qo_budget options)"
    using all(6) [OF that] k by (simp add: unat_eq_0)
  moreover have "length (drs_queue (qcn_datagram_receive c)) \<le> tb_receive_queue_capacity (qo_budget options)"
    using all(8) [OF new(3)] by simp
  ultimately show ?thesis using all(2-4) run(2) unfolding k by blast
qed

subsection \<open>Witnesses\<close>

text \<open>A library whose path takes datagrams of 1200 bytes and never fails; its state counts the datagrams it was given.\<close>

definition steady_quinn :: "(nat, nat, nat) Quinn" where
  "steady_quinn = \<lparr>qn_max_datagram_size = (\<lambda>c. (Some 1200, c)), qn_remote_address = (\<lambda>c. (7, c)), qn_rtt = (\<lambda>c. (5000000, c)),
     qn_stats = (\<lambda>c. (\<lparr>ps_rtt = 5000000, ps_cwnd = 12000, ps_congestion_events = 0\<rparr>, c)),
     qn_datagram_send_buffer_space = (\<lambda>c. (1200, c)), qn_send_datagram = (\<lambda>bs c. (Inr (), Suc c)), qn_close = (\<lambda>code reason c. c),
     qn_open_bi = (\<lambda>c. (Inr 0, c)), qn_accept_bi = (\<lambda>c. (Inr 0, c)), qn_write_all = (\<lambda>bs stream c. (True, c)),
     qn_read_exact = (\<lambda>n stream c. (None, c))\<rparr>"

lemma steady_connection:
  obtains c0 where "make_connection steady_quinn True \<lparr>qst_control = 0, qst_data = 1\<rparr> (EndpointId 1) (EndpointId 2) QuicOptions_default 0 = Inr c0"
  by (simp add: Let_def make_connection_def steady_quinn_def QuicOptions_default_def spawn_framed_halves_def TransportBudget_validate_def
      TransportBudget_default_def RealtimeSendQueue_new_def RealtimeQueueConfig_is_valid_def RealtimeQueueConfig_default_def)

text \<open>C38 witness: a datagram is handed over and the queue is polled; with the calls that fail, the telemetry accounts for it.\<close>

theorem quic_sending_accounted_witness:
  "\<exists>c0 log c. make_connection steady_quinn True \<lparr>qst_control = 0, qst_data = 1\<rparr> (EndpointId 1) (EndpointId 2) QuicOptions_default 0 = Inr c0
     \<and> quic_run steady_quinn [Q_SendLatest (sample_datagram 5) 1, Q_Poll 2] c0 = (log, c)
     \<and> log_total (taken_over (RealtimeFlowId 7)) log
          \<le> unat (rft_sent (reported c (RealtimeFlowId 7))) + unat (rft_replaced (reported c (RealtimeFlowId 7)))
            + unat (rft_expired (reported c (RealtimeFlowId 7))) + unat (rft_congestion_dropped (reported c (RealtimeFlowId 7)))
            + flow_pending (qcn_realtime_send c) (RealtimeFlowId 7) + log_total send_failed log"
proof -
  obtain c0 where c0:
    "make_connection steady_quinn True \<lparr>qst_control = 0, qst_data = 1\<rparr> (EndpointId 1) (EndpointId 2) QuicOptions_default 0 = Inr c0"
    by (rule steady_connection)
  let ?ops = "[Q_SendLatest (sample_datagram 5) 1, Q_Poll 2]"
  obtain log c where run: "quic_run steady_quinn ?ops c0 = (log, c)" by fastforce
  have "length ?ops < 2 ^ 64 - 1" by simp
  with quic_sending_accounted [OF c0 run] obtain offs lost where account:
    "\<forall>f. offs f = unat (rft_sent (reported c f)) + unat (rft_replaced (reported c f)) + unat (rft_expired (reported c f))
      + unat (rft_congestion_dropped (reported c f)) + flow_pending (qcn_realtime_send c) f
      + discarded_pending steady_quinn ?ops c0 f + flow_count f lost"
    "\<forall>f. log_total (taken_over f) log \<le> offs f" "length lost \<le> log_total send_failed log"
    by blast
  have "flow_count (RealtimeFlowId 7) lost \<le> length lost" by (simp add: flow_count_def)
  moreover have "discarded_pending steady_quinn ?ops c0 (RealtimeFlowId 7) = 0" by (simp add: discarded_by_def)
  ultimately have
    "log_total (taken_over (RealtimeFlowId 7)) log
          \<le> unat (rft_sent (reported c (RealtimeFlowId 7))) + unat (rft_replaced (reported c (RealtimeFlowId 7)))
            + unat (rft_expired (reported c (RealtimeFlowId 7))) + unat (rft_congestion_dropped (reported c (RealtimeFlowId 7)))
            + flow_pending (qcn_realtime_send c) (RealtimeFlowId 7) + log_total send_failed log"
    using account(3) account(1,2) [rule_format, of "RealtimeFlowId 7"] by linarith
  with c0 run show ?thesis by (intro exI [of _ c0] exI [of _ log] exI [of _ c] conjI)
qed

definition sample_wire :: bytes where
  "sample_wire = [77, 76, 82, 68, 1, 2, 0, 7] @ replicate 11 0 @ [9, 1, 2]"

lemma sample_wire_flow: "realtime_flow_from_wire sample_wire = Some (RealtimeFlowId 7)"
  by (simp add: sample_wire_def realtime_flow_from_wire_def REALTIME_DATAGRAM_HEADER_LEN_def REALTIME_MAGIC_def REALTIME_VERSION_def
      from_be_bytes_def)

text \<open>C39 witness: one datagram arrives and is received; another waits, and nothing has overflowed.\<close>

theorem quic_receiving_latest_witness:
  "\<exists>c0 log c. make_connection steady_quinn True \<lparr>qst_control = 0, qst_data = 1\<rparr> (EndpointId 1) (EndpointId 2) QuicOptions_default 0 = Inr c0
     \<and> quic_run steady_quinn [Q_Arrives sample_wire 3, Q_Arrives sample_wire 4, Q_ReceiveRealtime False] c0 = (log, c)
     \<and> length (arrived log) = 2 \<and> rtt_receive_queue_overflow (QuicConnection_realtime_telemetry c) = 0
     \<and> unat (rft_received (reported c (RealtimeFlowId 7))) = 2"
proof -
  obtain c0 where c0:
    "make_connection steady_quinn True \<lparr>qst_control = 0, qst_data = 1\<rparr> (EndpointId 1) (EndpointId 2) QuicOptions_default 0 = Inr c0"
    by (rule steady_connection)
  let ?ops = "[Q_Arrives sample_wire 3, Q_Arrives sample_wire 4, Q_ReceiveRealtime False]"
  obtain log c where run: "quic_run steady_quinn ?ops c0 = (log, c)" by fastforce
  then have arrived: "arrived log = [\<lparr>rrd_received_at = 3, rrd_payload = sample_wire\<rparr>, \<lparr>rrd_received_at = 4, rrd_payload = sample_wire\<rparr>]"
    by (auto split: prod.splits)
  have "length ?ops < 2 ^ 64 - 1" by simp
  note receiving = quic_receiving_latest [OF c0 run this]
  have "tb_receive_queue_capacity (qo_budget QuicOptions_default) = 128" by (simp add: QuicOptions_default_def TransportBudget_default_def)
  then have "rtt_receive_queue_overflow (QuicConnection_realtime_telemetry c) = 0" using receiving arrived by simp
  moreover have "unat (rft_received (reported c (RealtimeFlowId 7))) = 2"
    using receiving arrived by (simp add: of_flow_def sample_wire_flow)
  ultimately show ?thesis using c0 run arrived by (intro exI [of _ c0] exI [of _ log] exI [of _ c]) simp
qed

end
