(* ===== verification/Spec2Isabelle.thy ===== *)
theory Spec2Isabelle
  imports Link_Data_Codec Link_Fairness Link_Memory Link_Security Link_Reconnect Link_Budget Link_Realtime_Queue Link_Trust_Store
    Link_Rate_Limit Link_Mdns Link_Ntp_Reassembly Link_Ntp_Reliable Link_Ntp_Auth Link_Pool Link_Io Link_Ntp_Publishing Link_Ntp_Receiving
    Link_Keyring Link_App_Endpoint Link_Stream_Transports Link_Quic_Realtime
begin

text \<open>
  A verification development of MutsukiLink, the peer-to-peer link of \<^verbatim>\<open>src/crates\<close>.

  \<^bold>\<open>The program.\<close> Two peers discover each other, pair once by a human comparison of codes, and from then on
  open authenticated sessions over a transport. On a session they negotiate application protocols, open
  channels that are multiplexed fairly over one connection, keep it alive, and resume it after a loss. The
  core crate \<^verbatim>\<open>mutsuki-link-core\<close> holds this logic as state machines without input or output; other crates
  keep the trusted keys (\<^verbatim>\<open>mutsuki-link-pairing\<close>), announce peers (\<^verbatim>\<open>mutsuki-link-discovery\<close>), turn byte streams into
  message connections (\<^verbatim>\<open>mutsuki-link-io\<close>) over local sockets, TCP and QUIC (\<^verbatim>\<open>mutsuki-link-local\<close>, \<^verbatim>\<open>mutsuki-link-tcp\<close>,
  \<^verbatim>\<open>mutsuki-link-quic\<close>), keep a pool of peer sessions (\<^verbatim>\<open>mutsuki-link-runtime\<close>) and bind a tracking protocol to a session
  (\<^verbatim>\<open>ntp-mutsuki-link\<close>).

  \<^bold>\<open>Conventions.\<close> A struct is a record with prefixed fields, an enum a datatype, a method \<^verbatim>\<open>T::m\<close> a definition
  \<^verbatim>\<open>T_m\<close>. A fixed-width integer and an identifier of N bytes are words; \<^verbatim>\<open>usize\<close>, \<^verbatim>\<open>Instant\<close> and \<^verbatim>\<open>Duration\<close> are
  natural numbers, a duration in nanoseconds, with the checked or saturating operations of the source written out. A fallible function
  returns \<^verbatim>\<open>('e, 'a) result\<close> with the error on the left; one that also mutates returns the result and the
  state, whichever branch it takes, so that what an error leaves behind is part of the model. A place where
  the source could panic is \<^verbatim>\<open>None\<close> where a theorem excludes it. Cryptography, clocks, random numbers, files,
  sockets and third-party libraries are arguments; where a theorem relies on them it says so by a named
  hypothesis, which a witness satisfies with a concrete function.

  \<^bold>\<open>The theories.\<close>
  \<^item> \<^verbatim>\<open>Link_Prelude\<close>, \<^verbatim>\<open>Link_BTree\<close>, \<^verbatim>\<open>Link_Window\<close>, \<^verbatim>\<open>Link_Segments\<close>: results, machine arithmetic, runs of operations, ordered
    maps, sliding windows, and the parts of a run between its resets; the lemmas every component shares.
  \<^item> \<^verbatim>\<open>Link_Identity\<close>, \<^verbatim>\<open>Link_Control\<close> (\<^verbatim>\<open>identity.rs\<close>, \<^verbatim>\<open>error.rs\<close>, \<^verbatim>\<open>lib.rs\<close>, \<^verbatim>\<open>control.rs\<close>): identifiers, versions and
    the vocabulary of control messages.
  \<^item> \<^verbatim>\<open>Link_Wire\<close>, \<^verbatim>\<open>Link_Control_Codec\<close>, \<^verbatim>\<open>Link_Data_Codec\<close> (\<^verbatim>\<open>control.rs\<close>, \<^verbatim>\<open>data.rs\<close>): readers and writers; round trips
    of control envelopes and compact data frames, and exactness of the control framing.
  \<^item> \<^verbatim>\<open>Link_Channel_Map\<close>, \<^verbatim>\<open>Link_Mux\<close>, \<^verbatim>\<open>Link_Fairness\<close> (\<^verbatim>\<open>session.rs\<close>, \<^verbatim>\<open>mux.rs\<close>): the session's channel map, never
    reusing a channel, and the multiplexer: invariant, conservation of the accepted frames as a
    multiset, first-in first-out per channel, and a bound, in the costs of the frames, on how often a waiting channel
    is bypassed.
  \<^item> \<^verbatim>\<open>Link_Handshake\<close>, \<^verbatim>\<open>Link_Registry\<close> (\<^verbatim>\<open>handshake.rs\<close>, \<^verbatim>\<open>protocol.rs\<close>): the handshake as an event machine:
    negotiation is exact, establishment implies authentication and offered terms, an honest exchange
    agrees, and nothing panics; the protocol registry negotiates as the handshake does.
  \<^item> \<^verbatim>\<open>Link_Liveness\<close>, \<^verbatim>\<open>Link_Resume\<close>, \<^verbatim>\<open>Link_Session\<close>, \<^verbatim>\<open>Link_Reconnect\<close> (\<^verbatim>\<open>liveness.rs\<close>, \<^verbatim>\<open>resume.rs\<close>, \<^verbatim>\<open>session.rs\<close>,
    \<^verbatim>\<open>reconnect.rs\<close>): detection of a dead peer, the replay plan after a reconnection, the session with its data
    plane and event bus, and bounded reconnection.
  \<^item> \<^verbatim>\<open>Link_Transport\<close>, \<^verbatim>\<open>Link_Memory\<close>, \<^verbatim>\<open>Link_Selection\<close>, \<^verbatim>\<open>Link_Security\<close>, \<^verbatim>\<open>Link_Budget\<close> (\<^verbatim>\<open>transport.rs\<close>, \<^verbatim>\<open>selection.rs\<close>,
    \<^verbatim>\<open>security.rs\<close>, \<^verbatim>\<open>budget.rs\<close>): the transport contract as the locale \<^verbatim>\<open>message_lane\<close>, interpreted on the memory
    transport under every interleaving of its two ends; the fallback plan; binding of a session to the
    transport's key.
  \<^item> \<^verbatim>\<open>Link_Realtime\<close>, \<^verbatim>\<open>Link_Realtime_Queue\<close> (\<^verbatim>\<open>realtime.rs\<close>): datagram headers and the bounded send queue that
    accounts for every datagram.
  \<^item> \<^verbatim>\<open>Link_Pairing\<close>, \<^verbatim>\<open>Link_Trust\<close>, \<^verbatim>\<open>Link_Trust_Store\<close>, \<^verbatim>\<open>Link_Keyring\<close>, \<^verbatim>\<open>Link_Rate_Limit\<close> (\<^verbatim>\<open>ceremony.rs\<close>, \<^verbatim>\<open>trust.rs\<close>,
    \<^verbatim>\<open>file_store.rs\<close>, \<^verbatim>\<open>keyring_store.rs\<close>, \<^verbatim>\<open>rate_limit.rs\<close>): the pairing ceremony, which both sides complete in either
    order of confirmation, the records of trusted keys, the file of bytes they survive in, whose JSON encoding and
    file operations are arguments, the key store of the operating system, and the limiter of attempts, whose bound
    on any window of time needs a clock that is not set back. The locale
    \<^verbatim>\<open>fail_closed\<close> says what both stores do when their storage fails.
  \<^item> \<^verbatim>\<open>Link_Discovery\<close>, \<^verbatim>\<open>Link_Mdns\<close> (\<^verbatim>\<open>mutsuki-link-discovery\<close>): candidates, the manual provider, and the multicast
    provider, whose polls report what the daemon's events mean and never panic.
  \<^item> \<^verbatim>\<open>Link_Pool\<close>, \<^verbatim>\<open>Link_Io\<close> (\<^verbatim>\<open>mutsuki-link-runtime\<close>, \<^verbatim>\<open>mutsuki-link-io\<close>): the pool accounts for every connection, also
    where the host disconnects a session through its handle; the framing of a byte stream is transparent.
  \<^item> \<^verbatim>\<open>Link_Stream_Transports\<close>, \<^verbatim>\<open>Link_App_Endpoint\<close> (\<^verbatim>\<open>mutsuki-link-tcp\<close>, \<^verbatim>\<open>mutsuki-link-local\<close>): connecting and accepting over
    TCP and local sockets, with the locale \<^verbatim>\<open>bounded_listener\<close> for the permits of every listener; the leases that
    announce local endpoints refine a directory of identities as long as no other process interferes between the
    steps of a reclaim, whose race is a lemma.
  \<^item> \<^verbatim>\<open>Link_Quic\<close>, \<^verbatim>\<open>Link_Quic_Sending\<close>, \<^verbatim>\<open>Link_Quic_Realtime\<close> (\<^verbatim>\<open>mutsuki-link-quic\<close>): the QUIC transport over the quinn
    library, a record of operations: streams and prefaces, listener and connector, and the realtime datagrams,
    accounted for under any interleaving of calls and arrivals: by the telemetry, or as discarded by a reset, close or
    abort, or lost by a failing call, which no counter shows.
  \<^item> \<^verbatim>\<open>Link_Fixed_Window\<close>, \<^verbatim>\<open>Link_Ntp\<close>, \<^verbatim>\<open>Link_Ntp_Fragment\<close>, \<^verbatim>\<open>Link_Ntp_Reassembly\<close>, \<^verbatim>\<open>Link_Ntp_Reliable\<close>, \<^verbatim>\<open>Link_Ntp_Auth\<close>, \<^verbatim>\<open>Link_Ntp_Control\<close>
    (\<^verbatim>\<open>ntp-mutsuki-link\<close>): fragmentation into datagrams and reassembly in any order, the latest-wins reliable
    frames proved over the \<^verbatim>\<open>message_lane\<close> contract, authorisation, the clock estimate and the control codec.
  \<^item> \<^verbatim>\<open>Link_Ntp_Publisher\<close>, \<^verbatim>\<open>Link_Ntp_Publishing\<close>, \<^verbatim>\<open>Link_Ntp_Subscriber\<close>, \<^verbatim>\<open>Link_Ntp_Receiving\<close>, \<^verbatim>\<open>Link_Ntp_Scripted\<close>
    (\<^verbatim>\<open>ntp-mutsuki-link/src/lib.rs\<close>): the two ends of the tracking binding as state machines over the third-party
    tracking library, a record of operations. Their runs include the resets for a new
    connection. Between resets the publisher sends only what was negotiated and within its rates; the subscriber never
    panics, tolerates a bounded number of faults until it is reset and hands out only results of the active generation. \<^verbatim>\<open>Link_Ntp_Scripted\<close> holds the scripted connection the witnesses run on.

  \<^bold>\<open>Composition.\<close> The handshake yields the negotiated session that \<^verbatim>\<open>Link_Registry\<close> activates and \<^verbatim>\<open>Link_Session\<close>
  runs; the session uses the channel map and the multiplexer, whose agreement is \<^verbatim>\<open>session_consistent\<close>; the
  security layer binds a handshake to the transport's key, and the trust store decides which key may
  reconnect; the tracking binding sends over a connection of the transport contract and is authorised by a
  record of the trust store.

  \<^bold>\<open>Bounds and fuel.\<close> Loops are structural recursions on what the source iterates over, or functions with a
  measure; the poll of a QUIC connection ends since each turn sends one of at most 64 datagrams or drops a flow.
  Two loops have an explicit bound. The reader task of \<^verbatim>\<open>Link_Io\<close> runs until its stream ends or
  fails and has one unit of fuel per frame of the stream and one for its end; the theorem is for every
  larger fuel. A doubling of a delay recurs on the attempt number, which the source saturates.

  \<^bold>\<open>Not modelled.\<close> The transport test kit and the examples are tests and measurements; the facade only re-exports. What sockets, the
  key store, the multicast daemon, the quinn and the tracking library do inside is not under \<^verbatim>\<open>src\<close>: the models call them. Rust's \<^verbatim>\<open>Debug\<close>
  and \<^verbatim>\<open>Display\<close> output, getters of one field and allocation sizes are left out throughout.
\<close>

end
